(* ===== verification/Prelude.thy ===== *)
theory Prelude
  imports Main "HOL-Library.Word" "HOL-Library.AList" "HOL-Library.Multiset"
begin

text \<open>
  Shared vocabulary of the development: byte strings and addresses, Go errors as values of a sum
  type, Go maps as association lists in their iteration order, and the list lemmas the components
  use. The collections \<open>res_simps\<close> and \<open>gomap_simps\<close> carry the component proofs.
\<close>

named_theorems res_simps
named_theorems gomap_simps

subsection \<open>Bytes, addresses, 64-bit integers\<close>

type_synonym byte = "8 word"
type_synonym bytes = "byte list"

text \<open>
  \<open>common.Address\<close> is a 20-byte array. It is read as the 160-bit big-endian number it denotes;
  \<open>addr_bytes\<close> is its method \<open>Bytes\<close>.
\<close>

type_synonym address = "160 word"

text \<open>\<open>int64\<close> values are integers; \<open>int64_range\<close> is the range of the type.\<close>

type_synonym int64 = int

definition int64_range :: "int64 \<Rightarrow> bool" where
  "int64_range v \<longleftrightarrow> - (2 ^ 63) \<le> v \<and> v < 2 ^ 63"

text \<open>\<open>be_bytes k n\<close>: the number \<open>n\<close> as \<open>k\<close> bytes, most significant first.\<close>

fun be_bytes :: "nat \<Rightarrow> nat \<Rightarrow> bytes" where
  "be_bytes 0 n = []"
| "be_bytes (Suc k) n = be_bytes k (n div 256) @ [of_nat n]"

fun be_value :: "bytes \<Rightarrow> nat" where
  "be_value [] = 0"
| "be_value (b # bs) = unat b * 256 ^ length bs + be_value bs"

definition addr_bytes :: "address \<Rightarrow> bytes" where
  "addr_bytes a = be_bytes 20 (unat a)"

text \<open>\<open>binary.BigEndian.PutUint64(b, uint64(v))\<close> for an \<open>int64\<close> value.\<close>

definition put_uint64 :: "int64 \<Rightarrow> bytes" where
  "put_uint64 v = be_bytes 8 (nat (v mod 2 ^ 64))"

lemma length_be_bytes [simp]: "length (be_bytes k n) = k"
  by (induction k arbitrary: n) auto

lemma be_value_append: "be_value (xs @ ys) = be_value xs * 256 ^ length ys + be_value ys"
  by (induction xs) (auto simp: algebra_simps power_add)

lemma be_value_be_bytes: "be_value (be_bytes k n) = n mod 256 ^ k"
proof (induction k arbitrary: n)
  case 0
  then show ?case by simp
next
  case (Suc k)
  have "be_value (be_bytes (Suc k) n) = (n div 256 mod 256 ^ k) * 256 + n mod 256"
    by (simp add: be_value_append Suc unat_of_nat)
  also have "\<dots> = n mod (256 * 256 ^ k)"
    by (simp add: mod_mult2_eq)
  finally show ?case by simp
qed

lemma unat_lt_256: "unat (b :: byte) < 256"
  using unsigned_less [of b, where ?'a = nat] by simp

lemma unat_lt_256_20: "unat (a :: address) < 256 ^ 20"
  using unsigned_less [of a, where ?'a = nat] by simp

lemma be_value_bound: "be_value bs < 256 ^ length bs"
proof (induction bs)
  case Nil
  then show ?case by simp
next
  case (Cons b bs)
  have "unat b + 1 \<le> 256" using unat_lt_256 [of b] by simp
  then have "(unat b + 1) * 256 ^ length bs \<le> 256 * 256 ^ length bs"
    by (rule mult_right_mono) simp
  then have "unat b * 256 ^ length bs + 256 ^ length bs \<le> 256 * 256 ^ length bs"
    by (simp only: add_mult_distrib mult_1)
  with Cons show ?case by (simp only: be_value.simps list.size power_Suc add_0_right add_Suc_right)
qed

lemma be_bytes_inj: "be_bytes k m = be_bytes k n \<Longrightarrow> m < 256 ^ k \<Longrightarrow> n < 256 ^ k \<Longrightarrow> m = n"
  by (metis be_value_be_bytes mod_less)

lemma length_addr_bytes [simp]: "length (addr_bytes a) = 20"
  by (simp add: addr_bytes_def)

lemma addr_bytes_inj [simp]: "addr_bytes a = addr_bytes b \<longleftrightarrow> a = b"
proof
  assume "addr_bytes a = addr_bytes b"
  then have "unat a = unat b"
    unfolding addr_bytes_def by (rule be_bytes_inj) (rule unat_lt_256_20)+
  then show "a = b" by (metis unsigned_word_eqI)
qed simp

lemma length_put_uint64 [simp]: "length (put_uint64 v) = 8"
  by (simp add: put_uint64_def)

lemma put_uint64_inj:
  assumes "put_uint64 v = put_uint64 w" "int64_range v" "int64_range w"
  shows "v = w"
proof -
  have "nat (v mod 2 ^ 64) = nat (w mod 2 ^ 64)"
    using assms(1) unfolding put_uint64_def
    by (rule be_bytes_inj) (simp_all add: nat_less_iff)
  then have "v mod 2 ^ 64 = w mod 2 ^ 64" by simp
  then have dvd: "2 ^ 64 dvd (v - w)" by (simp add: mod_eq_dvd_iff)
  have "\<bar>v - w\<bar> < 2 ^ 64" using assms(2,3) by (auto simp: int64_range_def)
  with dvd show ?thesis using zdvd_imp_le [of "2 ^ 64" "\<bar>v - w\<bar>"] by auto
qed

text \<open>\<open>int64(x)\<close>: the conversion wraps around.\<close>

definition to_int64 :: "int \<Rightarrow> int64" where
  "to_int64 x = (x + 2 ^ 63) mod 2 ^ 64 - 2 ^ 63"

lemma to_int64_id [simp]: "int64_range x \<Longrightarrow> to_int64 x = x"
  by (simp add: to_int64_def int64_range_def)

lemma to_int64_put_uint64: "int64_range v \<Longrightarrow> to_int64 (int (be_value (put_uint64 v))) = v"
proof -
  assume v: "int64_range v"
  have "int (be_value (put_uint64 v)) = v mod 2 ^ 64"
    by (simp add: put_uint64_def be_value_be_bytes nat_mod_distrib)
  then have "to_int64 (int (be_value (put_uint64 v))) = to_int64 v"
    by (simp add: to_int64_def mod_add_left_eq)
  with v show ?thesis by simp
qed

text \<open>The conversion \<open>[]byte(s)\<close>.\<close>

definition str_bytes :: "string \<Rightarrow> bytes" where
  "str_bytes s = map (\<lambda>c. of_nat (of_char c)) s"

lemma length_str_bytes [simp]: "length (str_bytes s) = length s"
  by (simp add: str_bytes_def)

subsection \<open>Decimal numbers\<close>

text \<open>The verb \<open>%d\<close>, and \<open>strconv.ParseInt(s, 10, 64)\<close>.\<close>

fun show_nat :: "nat \<Rightarrow> string" where
  "show_nat n = (if n < 10 then [] else show_nat (n div 10)) @ [char_of (48 + n mod 10)]"

declare show_nat.simps [simp del]

definition show_int :: "int \<Rightarrow> string" where
  "show_int v = (if v < 0 then CHR ''-'' # show_nat (nat (- v)) else show_nat (nat v))"

definition is_digit :: "char \<Rightarrow> bool" where
  "is_digit c \<longleftrightarrow> 48 \<le> (of_char c :: nat) \<and> (of_char c :: nat) \<le> 57"

definition read_nat :: "string \<Rightarrow> nat" where
  "read_nat s = fold (\<lambda>c acc. acc * 10 + ((of_char c :: nat) - 48)) s 0"

definition parse_int64 :: "string \<Rightarrow> int64 option" where
  "parse_int64 s =
     (let (neg, ds) = (case s of [] \<Rightarrow> (False, []) | c # cs \<Rightarrow>
            if c = CHR ''-'' then (True, cs) else if c = CHR ''+'' then (False, cs) else (False, s));
          v = (if neg then - int (read_nat ds) else int (read_nat ds))
      in if ds \<noteq> [] \<and> list_all is_digit ds \<and> int64_range v then Some v else None)"

lemma show_nat_digits: "list_all is_digit (show_nat n) \<and> show_nat n \<noteq> [] \<and> read_nat (show_nat n) = n"
proof (induction n rule: show_nat.induct)
  case (1 n)
  have d: "is_digit (char_of (48 + n mod 10))" "(of_char (char_of (48 + n mod 10) :: char) :: nat) = 48 + n mod 10"
    by (auto simp: is_digit_def)
  have e: "show_nat n = (if n < 10 then [] else show_nat (n div 10)) @ [char_of (48 + n mod 10)]"
    by (subst show_nat.simps) (rule refl)
  show ?case
  proof (cases "n < 10")
    case True
    then have "n mod 10 = n" by simp
    with d True show ?thesis by (simp add: e read_nat_def)
  next
    case False
    with 1 have ih: "list_all is_digit (show_nat (n div 10))" "read_nat (show_nat (n div 10)) = n div 10" by auto
    have r: "read_nat (show_nat (n div 10) @ [char_of (48 + n mod 10)]) = n div 10 * 10 + n mod 10"
      using ih(2) d(2) unfolding read_nat_def by simp
    show ?thesis using False ih(1) d(1) r by (simp add: e)
  qed
qed

lemma show_nat_inj [simp]: "show_nat m = show_nat n \<longleftrightarrow> m = n"
  by (metis show_nat_digits)

lemma show_nat_hd: "\<exists>c cs. show_nat n = c # cs \<and> c \<noteq> CHR ''-'' \<and> c \<noteq> CHR ''+'' \<and> is_digit c"
proof -
  obtain c cs where c: "show_nat n = c # cs" using show_nat_digits [of n] by (cases "show_nat n") auto
  then have "is_digit c" using show_nat_digits [of n] by simp
  moreover have "\<not> is_digit CHR ''-''" "\<not> is_digit CHR ''+''" by (simp_all add: is_digit_def)
  ultimately show ?thesis using c by metis
qed

lemma parse_show_int: "int64_range v \<Longrightarrow> parse_int64 (show_int v) = Some v"
proof -
  assume v: "int64_range v"
  obtain c cs where c: "show_nat (nat v) = c # cs" "c \<noteq> CHR ''-''" "c \<noteq> CHR ''+''"
    using show_nat_hd [of "nat v"] by blast
  show ?thesis
  proof (cases "v < 0")
    case True
    then show ?thesis using v show_nat_digits [of "nat (- v)"] by (simp add: parse_int64_def show_int_def)
  next
    case False
    then show ?thesis
      using v show_nat_digits [of "nat v"] unfolding parse_int64_def show_int_def c by (simp add: c)
  qed
qed

lemma show_int_inj [simp]: "show_int v = show_int w \<longleftrightarrow> v = w"
proof
  assume e: "show_int v = show_int w"
  obtain c cs d ds where h: "show_nat (nat v) = c # cs" "c \<noteq> CHR ''-''" "show_nat (nat w) = d # ds" "d \<noteq> CHR ''-''"
    using show_nat_hd by metis
  show "v = w"
    using e h by (auto simp: show_int_def split: if_splits)
      (metis show_nat_inj eq_nat_nat_iff linorder_not_less nat_minus_as_int neg_le_0_iff_le neg_equal_iff_equal less_imp_le)+
qed simp

text \<open>
  \<open>bytes.Compare(a, b) < 0\<close>: lexicographic order of byte strings. On the bytes of two addresses
  it is the numeric order, so sorting addresses by their bytes is sorting them as words.
\<close>

fun bytes_less :: "bytes \<Rightarrow> bytes \<Rightarrow> bool" where
  "bytes_less [] ys \<longleftrightarrow> ys \<noteq> []"
| "bytes_less (x # xs) [] \<longleftrightarrow> False"
| "bytes_less (x # xs) (y # ys) \<longleftrightarrow> x < y \<or> x = y \<and> bytes_less xs ys"

lemma be_value_less:
  "length xs = length ys \<Longrightarrow> bytes_less xs ys \<longleftrightarrow> be_value xs < be_value ys"
proof (induction xs ys rule: list_induct2')
  case (4 x xs y ys)
  have bx: "be_value xs < 256 ^ length ys" and bY: "be_value ys < 256 ^ length ys"
    using be_value_bound [of xs] be_value_bound [of ys] "4.prems" by simp_all
  consider "x < y" | "x = y" | "y < x" by force
  then show ?case
  proof cases
    case 1
    then have "unat x + 1 \<le> unat y" by (simp add: word_less_nat_alt)
    then have "(unat x + 1) * 256 ^ length ys \<le> unat y * 256 ^ length ys"
      by (rule mult_right_mono) simp
    with 1 bx "4.prems" show ?thesis by (simp add: algebra_simps)
  next
    case 2
    with "4" show ?thesis by simp
  next
    case 3
    then have "unat y + 1 \<le> unat x" by (simp add: word_less_nat_alt)
    then have "(unat y + 1) * 256 ^ length ys \<le> unat x * 256 ^ length ys"
      by (rule mult_right_mono) simp
    with 3 bY "4.prems" show ?thesis by (auto simp: algebra_simps)
  qed
qed auto

lemma addr_bytes_less: "bytes_less (addr_bytes a) (addr_bytes b) \<longleftrightarrow> a < b"
proof -
  have "be_value (addr_bytes c) = unat c" for c :: address
    unfolding addr_bytes_def be_value_be_bytes by (rule mod_less) (rule unat_lt_256_20)
  then show ?thesis by (simp add: be_value_less word_less_nat_alt)
qed

subsection \<open>Errors as values\<close>

text \<open>
  A Go error is \<open>Errorf\<close> with the message's fixed part, or \<open>Wrapf\<close> for
  \<open>fmt.Errorf("...: %w", err)\<close>; \<open>Panic\<close> is a run-time panic. The interpolated arguments of a
  message are not kept.
\<close>

datatype err = Errorf string | Wrapf string err | Panic string

type_synonym 'a res = "err + 'a"

definition bind_res :: "'a res \<Rightarrow> ('a \<Rightarrow> 'b res) \<Rightarrow> 'b res" where
  "bind_res r f = (case r of Inl e \<Rightarrow> Inl e | Inr x \<Rightarrow> f x)"

definition wrap_err :: "string \<Rightarrow> 'a res \<Rightarrow> 'a res" where
  "wrap_err msg r = (case r of Inl e \<Rightarrow> Inl (Wrapf msg e) | Inr x \<Rightarrow> Inr x)"

text \<open>A library call that may fail, given as an option, with the error the caller sees.\<close>

definition lib_res :: "string \<Rightarrow> 'a option \<Rightarrow> 'a res" where
  "lib_res msg r = (case r of None \<Rightarrow> Inl (Errorf msg) | Some x \<Rightarrow> Inr x)"

definition ok :: "'a res \<Rightarrow> bool" where
  "ok r \<longleftrightarrow> (case r of Inl _ \<Rightarrow> False | Inr _ \<Rightarrow> True)"

lemma bind_res_simps [simp, res_simps]:
  "bind_res (Inl e) f = Inl e"
  "bind_res (Inr x) f = f x"
  by (simp_all add: bind_res_def)

lemma bind_res_eq_Inr [res_simps]:
  "bind_res r f = Inr y \<longleftrightarrow> (\<exists>x. r = Inr x \<and> f x = Inr y)"
  by (cases r) auto

lemma wrap_err_simps [simp, res_simps]:
  "wrap_err msg (Inl e) = Inl (Wrapf msg e)"
  "wrap_err msg (Inr x) = Inr x"
  by (simp_all add: wrap_err_def)

lemma wrap_err_eq_Inr [simp, res_simps]: "wrap_err msg r = Inr x \<longleftrightarrow> r = Inr x"
  by (cases r) auto

lemma lib_res_simps [simp, res_simps]:
  "lib_res msg None = Inl (Errorf msg)"
  "lib_res msg (Some x) = Inr x"
  by (simp_all add: lib_res_def)

lemma lib_res_eq_Inr [simp, res_simps]: "lib_res msg r = Inr x \<longleftrightarrow> r = Some x"
  by (cases r) auto

lemma ok_simps [simp, res_simps]: "ok (Inr x)" "\<not> ok (Inl e)"
  by (simp_all add: ok_def)

lemma ok_iff: "ok r \<longleftrightarrow> (\<exists>x. r = Inr x)"
  by (cases r) auto

text \<open>A loop that folds a fallible step over a list, stopping at the first error.\<close>

fun fold_res :: "('a \<Rightarrow> 's \<Rightarrow> 's res) \<Rightarrow> 'a list \<Rightarrow> 's \<Rightarrow> 's res" where
  "fold_res f [] s = Inr s"
| "fold_res f (x # xs) s = bind_res (f x s) (fold_res f xs)"

fun map_res :: "('a \<Rightarrow> 'b res) \<Rightarrow> 'a list \<Rightarrow> 'b list res" where
  "map_res f [] = Inr []"
| "map_res f (x # xs) = bind_res (f x) (\<lambda>y. bind_res (map_res f xs) (\<lambda>ys. Inr (y # ys)))"

lemma fold_res_cong [fundef_cong]:
  "xs = ys \<Longrightarrow> s = t \<Longrightarrow> (\<And>x u. x \<in> set ys \<Longrightarrow> f x u = g x u) \<Longrightarrow> fold_res f xs s = fold_res g ys t"
proof (induction xs arbitrary: ys s t)
  case (Cons x xs)
  then show ?case by (cases "g x t") (auto simp: bind_res_def split: sum.splits)
qed auto

lemma map_res_total: "(\<And>x. x \<in> set xs \<Longrightarrow> f x = Inr (g x)) \<Longrightarrow> map_res f xs = Inr (map g xs)"
  by (induction xs) auto

lemma map_res_eq_Inr:
  "map_res f xs = Inr ys \<longleftrightarrow> list_all2 (\<lambda>x y. f x = Inr y) xs ys"
  by (induction xs arbitrary: ys) (auto simp: res_simps list_all2_Cons1)

subsection \<open>Go maps\<close>

text \<open>
  A Go map is the association list of its entries in the order in which a \<open>range\<close> loop visits
  them; the language leaves that order open, so the theorems about loops over a map hold for every
  order. \<open>gm_set\<close>, \<open>gm_get\<close>, \<open>gm_del\<close> and \<open>length\<close> are assignment, lookup,
  \<open>delete\<close> and \<open>len\<close>. \<open>gm_ok\<close>: the keys are distinct.
\<close>

type_synonym ('k, 'v) gomap = "('k \<times> 'v) list"

abbreviation gm_get :: "('k, 'v) gomap \<Rightarrow> 'k \<Rightarrow> 'v option" where
  "gm_get \<equiv> map_of"

abbreviation gm_set :: "('k, 'v) gomap \<Rightarrow> 'k \<Rightarrow> 'v \<Rightarrow> ('k, 'v) gomap" where
  "gm_set m k v \<equiv> AList.update k v m"

abbreviation gm_del :: "('k, 'v) gomap \<Rightarrow> 'k \<Rightarrow> ('k, 'v) gomap" where
  "gm_del m k \<equiv> AList.delete k m"

abbreviation gm_keys :: "('k, 'v) gomap \<Rightarrow> 'k list" where
  "gm_keys m \<equiv> map fst m"

definition gm_ok :: "('k, 'v) gomap \<Rightarrow> bool" where
  "gm_ok m \<longleftrightarrow> distinct (gm_keys m)"

lemma gm_ok_Nil [simp, gomap_simps]: "gm_ok []"
  by (simp add: gm_ok_def)

lemma gm_ok_set [simp, gomap_simps]: "gm_ok m \<Longrightarrow> gm_ok (gm_set m k v)"
  by (simp add: gm_ok_def distinct_update)

lemma gm_ok_del [simp, gomap_simps]: "gm_ok m \<Longrightarrow> gm_ok (gm_del m k)"
  by (simp add: gm_ok_def distinct_delete)

lemma gm_ok_filter [simp, gomap_simps]: "gm_ok m \<Longrightarrow> gm_ok (filter P m)"
  by (induction m) (auto simp: gm_ok_def)

lemma gm_get_set [simp, gomap_simps]: "gm_get (gm_set m k v) = (gm_get m)(k \<mapsto> v)"
  by (rule update_conv')

lemma gm_get_del [simp, gomap_simps]: "gm_get (gm_del m k) = (gm_get m)(k := None)"
  by (rule delete_conv')

lemma gm_get_eq_Some [gomap_simps]: "gm_ok m \<Longrightarrow> gm_get m k = Some v \<longleftrightarrow> (k, v) \<in> set m"
  by (simp add: gm_ok_def)

lemma gm_get_eq_None [gomap_simps]: "gm_get m k = None \<longleftrightarrow> k \<notin> set (gm_keys m)"
  by (simp add: map_of_eq_None_iff)

lemma gm_set_fresh: "gm_get m k = None \<Longrightarrow> gm_set m k v = m @ [(k, v)]"
  by (induction m) (auto split: if_splits)

lemma length_gm_set_fresh [gomap_simps]: "gm_get m k = None \<Longrightarrow> length (gm_set m k v) = Suc (length m)"
  by (simp add: gm_set_fresh)

lemma gm_get_perm:
  assumes "mset m = mset m'" "gm_ok m"
  shows "gm_ok m'" and "gm_get m' = gm_get m"
proof -
  have "mset (gm_keys m) = mset (gm_keys m')" using assms(1) by (simp add: mset_map)
  then have "distinct (gm_keys m) = distinct (gm_keys m')" by (rule mset_eq_imp_distinct_iff)
  with assms(2) show 1: "gm_ok m'" by (simp add: gm_ok_def)
  show "gm_get m' = gm_get m"
  proof
    fix k
    have "gm_get m' k = Some v \<longleftrightarrow> gm_get m k = Some v" for v
      using 1 assms by (simp add: gomap_simps flip: set_mset_mset)
    then show "gm_get m' k = gm_get m k" by (metis not_None_eq)
  qed
qed

lemma gm_ok_length: "gm_ok m \<Longrightarrow> length m = card (dom (gm_get m))"
  by (metis dom_map_of_conv_image_fst gm_ok_def distinct_card length_map set_map)

subsection \<open>Lists and sums\<close>

lemma sum_list_cong: "(\<And>x. x \<in> set xs \<Longrightarrow> f x = g x) \<Longrightarrow> sum_list (map f xs) = sum_list (map g xs)"
  by (metis map_cong)

lemma sum_list_perm: "mset xs = mset ys \<Longrightarrow> sum_list xs = sum_list (ys :: 'a :: comm_monoid_add list)"
  by (metis sum_mset_sum_list)

lemma fold_add_sum_list: "fold (\<lambda>x s. s + f x) xs s = (s :: 'a :: comm_monoid_add) + sum_list (map f xs)"
  by (induction xs arbitrary: s) (auto simp: algebra_simps)

lemma sum_list_swap:
  "(\<Sum>x\<leftarrow>xs. \<Sum>y\<leftarrow>ys. f x y) = (\<Sum>y\<leftarrow>ys. \<Sum>x\<leftarrow>xs. (f x y :: 'a :: comm_monoid_add))"
  by (induction xs) (auto simp: sum_list_addf)

lemma fold_max_filter:
  fixes best :: "'a option"
  shows "fold (\<lambda>x b. if P x then g x b else b) xs best = fold g (filter P xs) best"
  by (induction xs arbitrary: best) auto

end
