(* ===== verification/Shamir.thy ===== *)
theory Shamir
  imports Prelude Complex_Main
begin

text \<open>
  The mathematics under the secret sharing of \<open>pkg/bls\<close>, \<open>pkg/dkg\<close> and
  \<open>pkg/reshare\<close>, over an arbitrary field: evaluation of a coefficient list, Lagrange
  coefficients at zero, and the theorem that at least as many points as coefficients determine the
  value at zero. Nothing here models code; the components use these facts.
\<close>

subsection \<open>Coefficient lists\<close>

fun peval :: "'f :: comm_ring_1 list \<Rightarrow> 'f \<Rightarrow> 'f" where
  "peval [] x = 0"
| "peval (a # p) x = a + x * peval p x"

lemma peval_zero [simp]: "peval p 0 = (case p of [] \<Rightarrow> 0 | a # _ \<Rightarrow> a)"
  by (cases p) auto

lemma peval_sum: "peval p x = (\<Sum>i<length p. p ! i * x ^ i)"
proof (induction p)
  case (Cons a p)
  then show ?case
    by (simp only: peval.simps list.size add_0_right add_Suc_right sum.lessThan_Suc_shift)
       (simp add: sum_distrib_left algebra_simps)
qed simp

text \<open>Pointwise sum, as far as the longer list goes.\<close>

fun padd :: "'f :: comm_ring_1 list \<Rightarrow> 'f list \<Rightarrow> 'f list" where
  "padd [] q = q"
| "padd p [] = p"
| "padd (a # p) (b # q) = (a + b) # padd p q"

definition pscale :: "'f :: comm_ring_1 \<Rightarrow> 'f list \<Rightarrow> 'f list" where
  "pscale c p = map ((*) c) p"

lemma peval_padd [simp]: "peval (padd p q) x = peval p x + peval q x"
  by (induction p q rule: padd.induct) (auto simp: algebra_simps)

lemma length_padd [simp]: "length (padd p q) = max (length p) (length q)"
  by (induction p q rule: padd.induct) auto

lemma peval_pscale [simp]: "peval (pscale c p) x = c * peval p x"
  by (induction p) (auto simp: pscale_def algebra_simps)

lemma length_pscale [simp]: "length (pscale c p) = length p"
  by (simp add: pscale_def)

text \<open>A finite linear combination of coefficient lists.\<close>

definition psum :: "('k \<Rightarrow> 'f) \<Rightarrow> ('k \<Rightarrow> 'f list) \<Rightarrow> 'k list \<Rightarrow> 'f :: comm_ring_1 list" where
  "psum c P ks = foldr (\<lambda>k. padd (pscale (c k) (P k))) ks []"

lemma peval_psum [simp]: "peval (psum c P ks) x = (\<Sum>k\<leftarrow>ks. c k * peval (P k) x)"
  by (induction ks) (auto simp: psum_def)

lemma length_psum: "(\<And>k. k \<in> set ks \<Longrightarrow> length (P k) \<le> n) \<Longrightarrow> length (psum c P ks) \<le> n"
  by (induction ks) (auto simp: psum_def)

subsection \<open>Functions given by a short coefficient list\<close>

definition polyfun :: "nat \<Rightarrow> ('f :: comm_ring_1 \<Rightarrow> 'f) \<Rightarrow> bool" where
  "polyfun n f \<longleftrightarrow> (\<exists>p. length p \<le> n \<and> f = peval p)"

lemma polyfun_peval [intro]: "length p \<le> n \<Longrightarrow> polyfun n (peval p)"
  by (auto simp: polyfun_def)

lemma polyfun_add: "polyfun n f \<Longrightarrow> polyfun n g \<Longrightarrow> polyfun n (\<lambda>x. f x + g x)"
  unfolding polyfun_def
  by (metis (no_types, lifting) ext length_padd max.boundedI peval_padd)

lemma polyfun_scale: "polyfun n f \<Longrightarrow> polyfun n (\<lambda>x. c * f x)"
  unfolding polyfun_def by (metis (no_types, lifting) ext length_pscale peval_pscale)

lemma polyfun_diff: "polyfun n f \<Longrightarrow> polyfun n g \<Longrightarrow> polyfun n (\<lambda>x. f x - g x)"
  using polyfun_add [of n f "\<lambda>x. - 1 * g x"] polyfun_scale [of n g "- 1"] by simp

lemma polyfun_zero: "polyfun n (\<lambda>x. 0)"
  unfolding polyfun_def by (rule exI [of _ "[]"]) auto

lemma polyfun_one: "polyfun (Suc n) (\<lambda>x. 1)"
  unfolding polyfun_def by (rule exI [of _ "[1]"]) auto

lemma polyfun_sum_list:
  "(\<And>k. k \<in> set ks \<Longrightarrow> polyfun n (F k)) \<Longrightarrow> polyfun n (\<lambda>x. \<Sum>k\<leftarrow>ks. F k x)"
  by (induction ks) (auto intro: polyfun_zero polyfun_add)

lemma polyfun_linear_mult: "polyfun n f \<Longrightarrow> polyfun (Suc n) (\<lambda>x. (x - a) * f x)"
proof -
  assume "polyfun n f"
  then obtain p where p: "length p \<le> n" "f = peval p" by (auto simp: polyfun_def)
  have "(\<lambda>x. (x - a) * f x) = peval (padd (0 # p) (pscale (- a) p))"
    by (auto simp: p(2) algebra_simps)
  moreover have "length (padd (0 # p) (pscale (- a) p)) \<le> Suc n" using p(1) by simp
  ultimately show ?thesis unfolding polyfun_def by blast
qed

text \<open>Synthetic division by \<open>x - a\<close>: Horner's partial results are the quotient.\<close>

fun pdiv :: "'f :: comm_ring_1 list \<Rightarrow> 'f \<Rightarrow> 'f list" where
  "pdiv [] a = []"
| "pdiv (c # p) a = (if p = [] then [] else peval p a # pdiv p a)"

lemma length_pdiv: "length (pdiv p a) = length p - 1"
  by (induction p) (auto simp: Suc_leI)

lemma peval_pdiv: "peval p x - peval p a = (x - a) * peval (pdiv p a) x"
proof (induction p)
  case (Cons c p)
  then have h: "peval p x = peval p a + (x - a) * peval (pdiv p a) x"
    by (metis add.commute diff_add_cancel)
  show ?case
  proof (cases "p = []")
    case False
    then show ?thesis by (simp add: h) (simp add: algebra_simps)
  qed simp
qed simp

lemma polyfun_roots_zero:
  fixes f :: "'f :: idom \<Rightarrow> 'f"
  assumes "polyfun n f" "finite A" "n \<le> card A" "\<And>a. a \<in> A \<Longrightarrow> f a = 0"
  shows "f x = 0"
  using assms
proof (induction n arbitrary: f A)
  case 0
  then show ?case by (auto simp: polyfun_def)
next
  case (Suc n)
  then obtain p where p: "length p \<le> Suc n" "f = peval p" by (auto simp: polyfun_def)
  from Suc.prems(3) have "A \<noteq> {}" by auto
  then obtain a where a: "a \<in> A" by blast
  let ?g = "peval (pdiv p a)"
  have fg: "f y = (y - a) * ?g y" for y
    using peval_pdiv [of p y a] Suc.prems(4) [OF a] p(2) by simp
  have "polyfun n ?g" using p(1) by (auto simp: length_pdiv)
  moreover have "?g b = 0" if "b \<in> A - {a}" for b
    using fg [of b] Suc.prems(4) [of b] that by auto
  ultimately have "?g x = 0"
    using Suc.IH [of ?g "A - {a}"] Suc.prems(2,3) a by (simp add: card_Diff_singleton_if)
  then show ?case by (simp add: fg)
qed

subsection \<open>Lagrange interpolation at zero\<close>

text \<open>\<open>lag xs x\<close>: the coefficient of the point \<open>x\<close> among the points \<open>xs\<close>.\<close>

definition lag :: "'f :: field list \<Rightarrow> 'f \<Rightarrow> 'f" where
  "lag xs x = (\<Prod>y\<leftarrow>filter (\<lambda>y. y \<noteq> x) xs. (- y) / (x - y))"

definition lag_fun :: "'f :: field list \<Rightarrow> 'f \<Rightarrow> 'f \<Rightarrow> 'f" where
  "lag_fun xs x z = (\<Prod>y\<leftarrow>filter (\<lambda>y. y \<noteq> x) xs. (z - y) / (x - y))"

lemma lag_fun_zero: "lag_fun xs x 0 = lag xs x"
  by (simp add: lag_def lag_fun_def)

lemma lag_fun_self: "lag_fun xs x x = 1"
  by (induction xs) (auto simp: lag_fun_def)

lemma lag_fun_other: "y \<in> set xs \<Longrightarrow> y \<noteq> x \<Longrightarrow> lag_fun xs x y = 0"
  by (induction xs) (auto simp: lag_fun_def)

lemma polyfun_prod:
  "polyfun (Suc (length ys)) (\<lambda>z. \<Prod>y\<leftarrow>ys. (z - y) / (x - y :: 'f :: field))"
proof (induction ys)
  case Nil
  show ?case by (simp add: polyfun_one)
next
  case (Cons y ys)
  have "(\<lambda>z. \<Prod>v\<leftarrow>y # ys. (z - v) / (x - v))
      = (\<lambda>z. inverse (x - y) * ((z - y) * (\<Prod>v\<leftarrow>ys. (z - v) / (x - v))))"
    by (auto simp: field_simps)
  moreover have "polyfun (Suc (length (y # ys))) (\<lambda>z. (z - y) * (\<Prod>v\<leftarrow>ys. (z - v) / (x - v)))"
    using polyfun_linear_mult [OF Cons.IH] by simp
  ultimately show ?case by (simp only: polyfun_scale)
qed

lemma length_filter_neq:
  "distinct xs \<Longrightarrow> x \<in> set xs \<Longrightarrow> Suc (length (filter (\<lambda>y. y \<noteq> x) xs)) = length xs"
proof (induction xs)
  case (Cons a xs)
  then show ?case by (cases "a = x") (auto intro!: arg_cong [where f = length] filter_True)
qed simp

lemma polyfun_lag_fun:
  assumes "distinct xs" "x \<in> set xs"
  shows "polyfun (length xs) (lag_fun xs x)"
proof -
  have "Suc (length (filter (\<lambda>y. y \<noteq> x) xs)) = length xs"
    using assms by (rule length_filter_neq)
  then show ?thesis
    using polyfun_prod [of "filter (\<lambda>y. y \<noteq> x) xs" x] by (simp add: lag_fun_def [abs_def])
qed

lemma sum_list_single:
  assumes "distinct xs" "a \<in> set xs" "\<And>x. x \<in> set xs \<Longrightarrow> x \<noteq> a \<Longrightarrow> F x = 0"
  shows "(\<Sum>x\<leftarrow>xs. F x) = (F a :: 'b :: comm_monoid_add)"
  using assms
proof -
  have "(\<Sum>x\<leftarrow>xs. F x) = sum F (set xs)" using assms(1) by (simp add: sum_list_distinct_conv_sum_set)
  also have "\<dots> = sum F {a}" using assms by (intro sum.mono_neutral_right) auto
  finally show ?thesis by simp
qed

theorem interpolation:
  fixes f :: "'f :: field \<Rightarrow> 'f"
  assumes "distinct xs" "polyfun (length xs) f"
  shows "(\<Sum>x\<leftarrow>xs. lag xs x * f x) = f 0"
proof -
  let ?h = "\<lambda>z. (\<Sum>x\<leftarrow>xs. f x * lag_fun xs x z) - f z"
  have "polyfun (length xs) ?h"
    using assms by (intro polyfun_diff polyfun_sum_list polyfun_scale polyfun_lag_fun)
  moreover have "?h a = 0" if "a \<in> set xs" for a
  proof -
    have "(\<Sum>x\<leftarrow>xs. f x * lag_fun xs x a) = f a * lag_fun xs a a"
      using assms(1) that by (rule sum_list_single) (auto simp: lag_fun_other that)
    then show ?thesis by (simp add: lag_fun_self)
  qed
  ultimately have "?h 0 = 0"
    using polyfun_roots_zero [of "length xs" ?h "set xs" 0] assms(1)
    by (simp add: distinct_card)
  then show ?thesis by (simp add: lag_fun_zero mult.commute)
qed

corollary interpolation_peval:
  "distinct xs \<Longrightarrow> length p \<le> length xs \<Longrightarrow> (\<Sum>x\<leftarrow>xs. lag xs x * peval p x) = peval p 0"
  by (intro interpolation) auto

text \<open>Two short coefficient lists that agree on enough points agree everywhere.\<close>

lemma peval_unique:
  fixes p q :: "'f :: field list"
  assumes "length p \<le> n" "length q \<le> n" "finite A" "n \<le> card A"
    "\<And>a. a \<in> A \<Longrightarrow> peval p a = peval q a"
  shows "peval p x = peval q x"
proof -
  have "polyfun n (\<lambda>z. peval p z - peval q z)"
    using assms(1,2) by (intro polyfun_diff) auto
  then have "peval p x - peval q x = 0"
    using polyfun_roots_zero [of n "\<lambda>z. peval p z - peval q z" A x] assms(3-5) by simp
  then show ?thesis by simp
qed

end
