(* ===== verification/Curve.thy ===== *)
theory Curve
  imports Shamir
begin

text \<open>
  What the code uses of the libraries outside the repository, as a record of functions that every
  definition takes as its argument \<open>L\<close>: gnark-crypto's scalar field, curve groups, pairing and
  hash-to-curve (\<open>fr\<close>, \<open>bls12381\<close>), and the hash functions Keccak-256 and SHA-256. The
  scalars form a field \<open>'f\<close>; \<open>'g1\<close>, \<open>'g2\<close>, \<open>'gt\<close> are the types of affine points and of
  the target group. \<open>ScalarMultiplication\<close> takes the scalar itself: the code always passes
  \<open>scalar.BigInt\<close>. A call that returns an error is \<open>None\<close>.

  \<open>curve_laws\<close> states the documented behaviour the theorems rely on.
\<close>

record ('f, 'g1, 'g2, 'gt) lib =
  fr_SetBytes :: "bytes \<Rightarrow> 'f"
  fr_Bytes :: "'f \<Rightarrow> bytes"
  fr_String :: "'f \<Rightarrow> string"
  fr_SetString :: "string \<Rightarrow> 'f option"
  fr_Modulus :: nat
  fr_SetBigInt :: "nat \<Rightarrow> 'f"
  poly_Eval :: "'f list \<Rightarrow> 'f \<Rightarrow> 'f"
  g1_Gen :: 'g1
  g1_Add :: "'g1 \<Rightarrow> 'g1 \<Rightarrow> 'g1"
  g1_ScalarMultiplication :: "'g1 \<Rightarrow> 'f \<Rightarrow> 'g1"
  g1_Neg :: "'g1 \<Rightarrow> 'g1"
  g1_Infinity :: 'g1
  g1_IsInfinity :: "'g1 \<Rightarrow> bool"
  g1_IsInSubGroup :: "'g1 \<Rightarrow> bool"
  g1_Bytes :: "'g1 \<Rightarrow> bytes"
  g1_Marshal :: "'g1 \<Rightarrow> bytes"
  g1_SetBytes :: "bytes \<Rightarrow> 'g1 option"
  g2_Gen :: 'g2
  g2_Add :: "'g2 \<Rightarrow> 'g2 \<Rightarrow> 'g2"
  g2_ScalarMultiplication :: "'g2 \<Rightarrow> 'f \<Rightarrow> 'g2"
  g2_Infinity :: 'g2
  g2_IsInfinity :: "'g2 \<Rightarrow> bool"
  g2_IsInSubGroup :: "'g2 \<Rightarrow> bool"
  g2_Bytes :: "'g2 \<Rightarrow> bytes"
  g2_Marshal :: "'g2 \<Rightarrow> bytes"
  g2_SetBytes :: "bytes \<Rightarrow> 'g2 option"
  g2_MultiExp :: "'g2 list \<Rightarrow> 'f list \<Rightarrow> 'g2 option"
  bls12381_HashToG1 :: "bytes \<Rightarrow> bytes \<Rightarrow> 'g1 option"
  bls12381_HashToG2 :: "bytes \<Rightarrow> bytes \<Rightarrow> 'g2 option"
  bls12381_Pair :: "'g1 list \<Rightarrow> 'g2 list \<Rightarrow> 'gt option"
  bls12381_PairingCheck :: "'g1 list \<Rightarrow> 'g2 list \<Rightarrow> bool option"
  gt_Zero :: 'gt
  gt_Exp :: "'gt \<Rightarrow> 'f \<Rightarrow> 'gt"
  gt_IsOne :: "'gt \<Rightarrow> bool"
  gt_Bytes :: "'gt \<Rightarrow> bytes"
  keccak256 :: "bytes \<Rightarrow> bytes"
  sha256 :: "bytes \<Rightarrow> bytes"

subsection \<open>The documented laws\<close>

text \<open>
  A curve group of prime order with its generator: a point is in the subgroup exactly when it is a
  scalar multiple of the generator, addition and scalar multiplication act on the multiples, and
  distinct scalars give distinct points.
\<close>

definition group_laws ::
  "'g \<Rightarrow> ('g \<Rightarrow> 'g \<Rightarrow> 'g) \<Rightarrow> ('g \<Rightarrow> 'f :: field \<Rightarrow> 'g) \<Rightarrow> 'g \<Rightarrow> ('g \<Rightarrow> bool) \<Rightarrow> ('g \<Rightarrow> bool) \<Rightarrow> bool" where
  "group_laws gen add smul infty isinf insub \<longleftrightarrow>
     (\<forall>p. insub p \<longleftrightarrow> (\<exists>x. p = smul gen x)) \<and>
     (\<forall>x y. add (smul gen x) (smul gen y) = smul gen (x + y)) \<and>
     (\<forall>x y. smul (smul gen x) y = smul gen (y * x)) \<and>
     smul gen 1 = gen \<and> infty = smul gen 0 \<and>
     (\<forall>p. isinf p \<longleftrightarrow> p = infty) \<and>
     (\<forall>x y. smul gen x = smul gen y \<longrightarrow> x = y)"

text \<open>
  Serialisation: \<open>Bytes\<close> is the compressed form of \<open>n\<close> bytes, never all zero (it carries the
  compression flag); \<open>SetBytes\<close> reads the compressed and the raw form back and accepts only
  points of the subgroup.
\<close>

definition codec_laws ::
  "nat \<Rightarrow> ('g \<Rightarrow> bool) \<Rightarrow> ('g \<Rightarrow> bytes) \<Rightarrow> ('g \<Rightarrow> bytes) \<Rightarrow> (bytes \<Rightarrow> 'g option) \<Rightarrow> bool" where
  "codec_laws n insub enc raw dec \<longleftrightarrow>
     (\<forall>p. insub p \<longrightarrow> length (enc p) = n \<and> be_value (enc p) \<noteq> 0 \<and>
        dec (enc p) = Some p \<and> dec (raw p) = Some p) \<and>
     (\<forall>b p. dec b = Some p \<longrightarrow> insub p)"

definition g1_laws :: "('f :: field, 'g1, 'g2, 'gt) lib \<Rightarrow> bool" where
  "g1_laws L \<longleftrightarrow>
     group_laws (g1_Gen L) (g1_Add L) (g1_ScalarMultiplication L) (g1_Infinity L)
       (g1_IsInfinity L) (g1_IsInSubGroup L) \<and>
     codec_laws 48 (g1_IsInSubGroup L) (g1_Bytes L) (g1_Marshal L) (g1_SetBytes L) \<and>
     (\<forall>x. g1_Neg L (g1_ScalarMultiplication L (g1_Gen L) x) = g1_ScalarMultiplication L (g1_Gen L) (- x))"

definition g2_laws :: "('f :: field, 'g1, 'g2, 'gt) lib \<Rightarrow> bool" where
  "g2_laws L \<longleftrightarrow>
     group_laws (g2_Gen L) (g2_Add L) (g2_ScalarMultiplication L) (g2_Infinity L)
       (g2_IsInfinity L) (g2_IsInSubGroup L) \<and>
     codec_laws 96 (g2_IsInSubGroup L) (g2_Bytes L) (g2_Marshal L) (g2_SetBytes L) \<and>
     (\<forall>xs ks. length xs = length ks \<longrightarrow>
        g2_MultiExp L (map (g2_ScalarMultiplication L (g2_Gen L)) xs) ks =
        Some (g2_ScalarMultiplication L (g2_Gen L) (\<Sum>(x, k)\<leftarrow>zip xs ks. k * x)))"

text \<open>
  The pairing is bilinear and not degenerate: written over the generators, it multiplies the
  scalars, and \<open>gt_Exp e\<close> is injective for \<open>e\<close> the pairing of the generators.
  \<open>PairingCheck\<close> decides whether the product of the pairings is one.
\<close>

definition pairing_laws :: "('f :: field, 'g1, 'g2, 'gt) lib \<Rightarrow> bool" where
  "pairing_laws L \<longleftrightarrow> (\<exists>e.
     (\<forall>x y. bls12381_Pair L [g1_ScalarMultiplication L (g1_Gen L) x]
                      [g2_ScalarMultiplication L (g2_Gen L) y] = Some (gt_Exp L e (x * y))) \<and>
     (\<forall>x y. gt_Exp L (gt_Exp L e x) y = gt_Exp L e (x * y)) \<and>
     (\<forall>x. gt_IsOne L (gt_Exp L e x) \<longleftrightarrow> x = 0) \<and>
     (\<forall>x y. gt_Exp L e x = gt_Exp L e y \<longrightarrow> x = y)) \<and>
     (\<forall>a b c d. bls12381_PairingCheck L
         [g1_ScalarMultiplication L (g1_Gen L) a, g1_ScalarMultiplication L (g1_Gen L) b]
         [g2_ScalarMultiplication L (g2_Gen L) c, g2_ScalarMultiplication L (g2_Gen L) d]
       = Some (a * c + b * d = 0))"

text \<open>Hash-to-curve succeeds and lands in the subgroup.\<close>

definition hash_laws :: "('f :: field, 'g1, 'g2, 'gt) lib \<Rightarrow> bool" where
  "hash_laws L \<longleftrightarrow>
     (\<forall>m d. \<exists>x. bls12381_HashToG1 L m d = Some (g1_ScalarMultiplication L (g1_Gen L) x)) \<and>
     (\<forall>m d. \<exists>x. bls12381_HashToG2 L m d = Some (g2_ScalarMultiplication L (g2_Gen L) x))"

text \<open>Field elements: \<open>Eval\<close> evaluates a polynomial, the string form reads back.\<close>

definition fr_laws :: "('f :: field, 'g1, 'g2, 'gt) lib \<Rightarrow> bool" where
  "fr_laws L \<longleftrightarrow> (\<forall>p x. poly_Eval L p x = peval p x) \<and>
     (\<forall>x. fr_SetString L (fr_String L x) = Some x)"

definition curve_laws :: "('f :: field, 'g1, 'g2, 'gt) lib \<Rightarrow> bool" where
  "curve_laws L \<longleftrightarrow> g1_laws L \<and> g2_laws L \<and> pairing_laws L \<and> hash_laws L \<and> fr_laws L"

lemma curve_lawsD:
  "curve_laws L \<Longrightarrow> g1_laws L" "curve_laws L \<Longrightarrow> g2_laws L" "curve_laws L \<Longrightarrow> pairing_laws L"
  "curve_laws L \<Longrightarrow> hash_laws L" "curve_laws L \<Longrightarrow> fr_laws L"
  by (simp_all add: curve_laws_def)

subsection \<open>Points as multiples of the generator\<close>

abbreviation mul1 :: "('f, 'g1, 'g2, 'gt) lib \<Rightarrow> 'f \<Rightarrow> 'g1" where
  "mul1 L x \<equiv> g1_ScalarMultiplication L (g1_Gen L) x"

abbreviation mul2 :: "('f, 'g1, 'g2, 'gt) lib \<Rightarrow> 'f \<Rightarrow> 'g2" where
  "mul2 L x \<equiv> g2_ScalarMultiplication L (g2_Gen L) x"

lemma group_lawsD:
  assumes "group_laws gen add smul infty isinf insub"
  shows "insub (smul gen x)" "add (smul gen x) (smul gen y) = smul gen (x + y)"
    "smul (smul gen x) y = smul gen (y * x)" "infty = smul gen 0" "smul gen 1 = gen"
    "isinf (smul gen x) \<longleftrightarrow> x = 0" "smul gen x = smul gen y \<longleftrightarrow> x = y"
    "insub gen" "insub p \<longleftrightarrow> (\<exists>x. p = smul gen x)" "isinf infty"
proof -
  note a = assms [unfolded group_laws_def]
  show "insub (smul gen x)" "add (smul gen x) (smul gen y) = smul gen (x + y)"
    "smul (smul gen x) y = smul gen (y * x)" "infty = smul gen 0" "smul gen 1 = gen"
    "smul gen x = smul gen y \<longleftrightarrow> x = y" "insub p \<longleftrightarrow> (\<exists>x. p = smul gen x)" "isinf infty"
    using a by blast+
  show "isinf (smul gen x) \<longleftrightarrow> x = 0" using a by metis
  show "insub gen" using a by metis
qed

lemma g1_lawsD:
  assumes "g1_laws L"
  shows "g1_IsInSubGroup L (mul1 L x)" "g1_Add L (mul1 L x) (mul1 L y) = mul1 L (x + y)"
    "g1_ScalarMultiplication L (mul1 L x) y = mul1 L (y * x)" "g1_Infinity L = mul1 L 0"
    "mul1 L 1 = g1_Gen L" "g1_IsInfinity L (mul1 L x) \<longleftrightarrow> x = 0" "mul1 L x = mul1 L y \<longleftrightarrow> x = y"
    "g1_SetBytes L (g1_Bytes L (mul1 L x)) = Some (mul1 L x)"
    "g1_SetBytes L (g1_Marshal L (mul1 L x)) = Some (mul1 L x)"
    "length (g1_Bytes L (mul1 L x)) = 48" "be_value (g1_Bytes L (mul1 L x)) \<noteq> 0"
    "g1_Neg L (mul1 L x) = mul1 L (- x)" "g1_IsInSubGroup L (g1_Gen L)"
  using assms unfolding g1_laws_def codec_laws_def
  by (auto simp: group_lawsD [of "g1_Gen L"])

lemma g2_lawsD:
  assumes "g2_laws L"
  shows "g2_IsInSubGroup L (mul2 L x)" "g2_Add L (mul2 L x) (mul2 L y) = mul2 L (x + y)"
    "g2_ScalarMultiplication L (mul2 L x) y = mul2 L (y * x)" "g2_Infinity L = mul2 L 0"
    "mul2 L 1 = g2_Gen L" "g2_IsInfinity L (mul2 L x) \<longleftrightarrow> x = 0" "mul2 L x = mul2 L y \<longleftrightarrow> x = y"
    "g2_SetBytes L (g2_Bytes L (mul2 L x)) = Some (mul2 L x)"
    "g2_SetBytes L (g2_Marshal L (mul2 L x)) = Some (mul2 L x)"
    "length (g2_Bytes L (mul2 L x)) = 96" "be_value (g2_Bytes L (mul2 L x)) \<noteq> 0"
    "g2_IsInSubGroup L (g2_Gen L)"
    "length xs = length ks \<Longrightarrow>
       g2_MultiExp L (map (mul2 L) xs) ks = Some (mul2 L (\<Sum>(x, k)\<leftarrow>zip xs ks. k * x))"
  using assms unfolding g2_laws_def codec_laws_def
  by (auto simp: group_lawsD [of "g2_Gen L"])

lemma g1_SetBytes_SomeD:
  assumes "g1_laws L" "g1_SetBytes L b = Some p" shows "\<exists>x. p = mul1 L x"
  using assms unfolding g1_laws_def codec_laws_def by (metis group_lawsD(9))

lemma g2_SetBytes_SomeD:
  assumes "g2_laws L" "g2_SetBytes L b = Some p" shows "\<exists>x. p = mul2 L x"
  using assms unfolding g2_laws_def codec_laws_def by (metis group_lawsD(9))

lemma g1_Bytes_inj: "g1_laws L \<Longrightarrow> g1_Bytes L (mul1 L x) = g1_Bytes L (mul1 L y) \<longleftrightarrow> x = y"
  by (metis g1_lawsD(7,8) option.inject)

lemma g2_Bytes_inj: "g2_laws L \<Longrightarrow> g2_Bytes L (mul2 L x) = g2_Bytes L (mul2 L y) \<longleftrightarrow> x = y"
  by (metis g2_lawsD(7,8) option.inject)

end
