(* ===== verification/Finite_Field.thy ===== *)
theory Finite_Field
  imports Curve
begin

text \<open>
  A finite prime field and a curve library over it, used where a theorem has library laws as
  hypotheses: \<open>gf\<close> are the integers modulo 31, and \<open>mock_lib\<close> takes each curve group to be
  the additive group of \<open>gf\<close>. \<open>mock_lib_laws\<close> shows that the laws of \<open>Curve\<close> can hold
  together; the witnesses of the properties evaluate the code's definitions on it.
\<close>

typedef gf = "{0..<31 :: int}"
  by (rule exI [of _ 0]) simp

setup_lifting type_definition_gf

lift_definition gf_of_int :: "int \<Rightarrow> gf" is "\<lambda>n. n mod 31"
  by simp

lift_definition gf_rep :: "gf \<Rightarrow> int" is "\<lambda>x. x" .

lemma gf_rep_range: "0 \<le> gf_rep x" "gf_rep x < 31"
  by (transfer, simp)+

lemma gf_of_int_rep [simp]: "gf_of_int (gf_rep x) = x"
  by transfer simp

lemma gf_rep_of_int [simp]: "gf_rep (gf_of_int n) = n mod 31"
  by transfer simp

lemma fermat_31: "x \<in> {1..<31} \<Longrightarrow> x ^ 29 * x mod 31 = (1 :: int)"
proof -
  have "\<forall>n \<in> set [1..30]. n ^ 29 * n mod 31 = (1 :: int)" by code_simp
  then show "x \<in> {1..<31} \<Longrightarrow> x ^ 29 * x mod 31 = (1 :: int)" by auto
qed

instantiation gf :: field
begin

lift_definition zero_gf :: gf is 0 by simp
lift_definition one_gf :: gf is 1 by simp
lift_definition plus_gf :: "gf \<Rightarrow> gf \<Rightarrow> gf" is "\<lambda>x y. (x + y) mod 31" by simp
lift_definition times_gf :: "gf \<Rightarrow> gf \<Rightarrow> gf" is "\<lambda>x y. (x * y) mod 31" by simp
lift_definition uminus_gf :: "gf \<Rightarrow> gf" is "\<lambda>x. (- x) mod 31" by simp
lift_definition minus_gf :: "gf \<Rightarrow> gf \<Rightarrow> gf" is "\<lambda>x y. (x - y) mod 31" by simp
lift_definition inverse_gf :: "gf \<Rightarrow> gf" is "\<lambda>x. (x ^ 29) mod 31" by simp

definition divide_gf :: "gf \<Rightarrow> gf \<Rightarrow> gf" where
  "divide_gf x y = x * inverse y"

instance
proof
  fix a b c :: gf
  show "a * b * c = a * (b * c)" by transfer (simp add: mod_simps mult.assoc)
  show "a * b = b * a" by transfer (simp add: mult.commute)
  show "1 * a = a" by transfer simp
  show "a + b + c = a + (b + c)" by transfer (simp add: mod_simps add.assoc)
  show "a + b = b + a" by transfer (simp add: add.commute)
  show "0 + a = a" by transfer simp
  show "- a + a = 0" by transfer (simp add: mod_simps)
  show "a - b = a + - b" by transfer (simp add: mod_simps)
  show "(a + b) * c = a * c + b * c" by transfer (simp add: mod_simps distrib_right)
  show "(0 :: gf) \<noteq> 1" by transfer simp
  show "a \<noteq> 0 \<Longrightarrow> inverse a * a = 1" by transfer (auto simp: mod_simps fermat_31)
  show "a div b = a * inverse b" by (simp add: divide_gf_def)
  show "inverse (0 :: gf) = 0" by transfer simp
qed

end

instantiation gf :: equal
begin

definition equal_gf :: "gf \<Rightarrow> gf \<Rightarrow> bool" where
  "equal_gf x y \<longleftrightarrow> gf_rep x = gf_rep y"

instance
  by standard (simp add: equal_gf_def, metis gf_of_int_rep)

end

subsection \<open>A library over the field\<close>

definition gf_of_bytes :: "bytes \<Rightarrow> gf" where
  "gf_of_bytes b = gf_of_int (int (be_value b))"

definition gf_byte :: "gf \<Rightarrow> byte" where
  "gf_byte x = of_nat (nat (gf_rep x))"

lemma unat_gf_byte [simp]: "unat (gf_byte x) = nat (gf_rep x)"
  using gf_rep_range [of x] unfolding gf_byte_def
  by (simp only: unat_of_nat) (simp add: nat_less_iff)

definition mock_enc :: "nat \<Rightarrow> byte \<Rightarrow> gf \<Rightarrow> bytes" where
  "mock_enc n flag x = flag # replicate (n - 2) 0 @ [gf_byte x]"

definition mock_dec :: "nat \<Rightarrow> byte \<Rightarrow> bytes \<Rightarrow> gf option" where
  "mock_dec n flag b =
     (if (length b = n \<and> hd b = flag \<or> length b = 2 * n \<and> hd b = 4) \<and> unat (last b) < 31
      then Some (gf_of_int (int (unat (last b)))) else None)"

definition mock_lib :: "(gf, gf, gf, gf) lib" where
  "mock_lib = \<lparr>
     fr_SetBytes = gf_of_bytes,
     fr_Bytes = (\<lambda>x. be_bytes 32 (nat (gf_rep x))),
     fr_String = (\<lambda>x. replicate (nat (gf_rep x)) (CHR ''1'')),
     fr_SetString = (\<lambda>s. Some (gf_of_int (int (length s)))),
     fr_Modulus = 31,
     fr_SetBigInt = (\<lambda>n. gf_of_int (int n)),
     poly_Eval = peval,
     g1_Gen = 1, g1_Add = (+), g1_ScalarMultiplication = (\<lambda>p x. x * p), g1_Neg = uminus,
     g1_Infinity = 0, g1_IsInfinity = (\<lambda>p. p = 0), g1_IsInSubGroup = (\<lambda>p. True),
     g1_Bytes = mock_enc 48 128, g1_Marshal = mock_enc 96 4, g1_SetBytes = mock_dec 48 128,
     g2_Gen = 1, g2_Add = (+), g2_ScalarMultiplication = (\<lambda>p x. x * p),
     g2_Infinity = 0, g2_IsInfinity = (\<lambda>p. p = 0), g2_IsInSubGroup = (\<lambda>p. True),
     g2_Bytes = mock_enc 96 128, g2_Marshal = mock_enc 192 4, g2_SetBytes = mock_dec 96 128,
     g2_MultiExp = (\<lambda>xs ks. Some (\<Sum>(x, k)\<leftarrow>zip xs ks. k * x)),
     bls12381_HashToG1 = (\<lambda>m d. Some (1 + gf_of_int (int (length m)))),
     bls12381_HashToG2 = (\<lambda>m d. Some (1 + gf_of_int (int (length m)))),
     bls12381_Pair = (\<lambda>ps qs. Some (\<Sum>(p, q)\<leftarrow>zip ps qs. p * q)),
     bls12381_PairingCheck = (\<lambda>ps qs. Some ((\<Sum>(p, q)\<leftarrow>zip ps qs. p * q) = 0)),
     gt_Zero = 0, gt_Exp = (\<lambda>e x. e * x), gt_IsOne = (\<lambda>e. e = 0),
     gt_Bytes = (\<lambda>e. be_bytes 48 (nat (gf_rep e))),
     keccak256 = (\<lambda>b. b), sha256 = (\<lambda>b. b)\<rparr>"

lemma mock_dec_insub:
  assumes "n \<ge> 2" "flag \<noteq> 0"
  shows "length (mock_enc n flag x) = n" "be_value (mock_enc n flag x) \<noteq> 0"
    "mock_dec n flag (mock_enc n flag x) = Some x" "mock_dec n flag (mock_enc (2 * n) 4 x) = Some x"
proof -
  have "unat flag \<noteq> 0" using assms(2) by (simp add: unat_eq_zero)
  then show "be_value (mock_enc n flag x) \<noteq> 0" by (simp add: mock_enc_def)
  show "length (mock_enc n flag x) = n" using assms(1) by (simp add: mock_enc_def)
  show "mock_dec n flag (mock_enc n flag x) = Some x"
    "mock_dec n flag (mock_enc (2 * n) 4 x) = Some x"
    using assms(1) gf_rep_range [of x] by (auto simp: mock_dec_def mock_enc_def nat_less_iff)
qed

lemma mock_lib_laws: "curve_laws mock_lib"
proof -
  have c: "length (mock_enc 48 128 x) = 48 \<and> be_value (mock_enc 48 128 x) \<noteq> 0 \<and>
      mock_dec 48 128 (mock_enc 48 128 x) = Some x \<and> mock_dec 48 128 (mock_enc 96 4 x) = Some x"
    "length (mock_enc 96 128 x) = 96 \<and> be_value (mock_enc 96 128 x) \<noteq> 0 \<and>
      mock_dec 96 128 (mock_enc 96 128 x) = Some x \<and> mock_dec 96 128 (mock_enc 192 4 x) = Some x"
    for x using mock_dec_insub [of 48 128 x] mock_dec_insub [of 96 128 x] by simp_all
  have one_times: "map ((*) 1) xs = (xs :: gf list)" "map (\<lambda>x. x * 1) xs = xs" for xs
    by (simp_all add: map_idI)
  have "g1_laws mock_lib"
    unfolding g1_laws_def group_laws_def codec_laws_def mock_lib_def
    by (auto simp: c algebra_simps)
  moreover have "g2_laws mock_lib"
    unfolding g2_laws_def group_laws_def codec_laws_def mock_lib_def
    by (auto simp: c algebra_simps one_times)
  moreover have "pairing_laws mock_lib"
    unfolding pairing_laws_def mock_lib_def
    by (auto intro!: exI [of _ 1] simp: algebra_simps)
  moreover have "hash_laws mock_lib"
    unfolding hash_laws_def mock_lib_def by auto
  moreover have "fr_laws mock_lib"
    unfolding fr_laws_def mock_lib_def using gf_rep_range(1) by simp
  ultimately show ?thesis by (simp add: curve_laws_def)
qed

end
