(* ===== verification/Bls.thy ===== *)
theory Bls
  imports Finite_Field
begin

text \<open>
  \<open>pkg/bls\<close>: points with their serialisation (\<open>types.go\<close>), group operations, keys and
  signatures (\<open>operations.go\<close>), and Shamir sharing with G2 commitments (\<open>polynomial.go\<close>).
  The lemmas show that the big-integer form of a point reads back, that a signature verifies
  exactly when it is the signature of the message, that shares recover the secret, and that
  \<open>VerifyShare\<close> accepts exactly the evaluation of the committed polynomial.

  The types \<open>PublicKeyG1\<close>, \<open>SignatureG1\<close>, \<open>G1Point\<close> and their G2 twins are structs with
  the one field \<open>point\<close>, a pointer; all six are \<open>Point\<close>. A nil pointer is \<open>None\<close>. A pointer
  that the code never tests against nil is its target.
\<close>

subsection \<open>Points (\<open>types.go\<close>)\<close>

datatype 'g Point = Point (point: "'g option")

definition NewPoint :: "'g option \<Rightarrow> 'g Point" where
  "NewPoint p = Point p"

definition bls_G1_Marshal :: "('f, 'g1, 'g2, 'gt) lib \<Rightarrow> 'g1 Point \<Rightarrow> bytes" where
  "bls_G1_Marshal L p = (case point p of None \<Rightarrow> replicate 48 0 | Some q \<Rightarrow> g1_Bytes L q)"

definition bls_G2_Marshal :: "('f, 'g1, 'g2, 'gt) lib \<Rightarrow> 'g2 Point \<Rightarrow> bytes" where
  "bls_G2_Marshal L p = (case point p of None \<Rightarrow> replicate 96 0 | Some q \<Rightarrow> g2_Bytes L q)"

text \<open>\<open>Unmarshal\<close> overwrites the receiver; the new receiver is the result.\<close>

definition bls_G1_Unmarshal :: "('f, 'g1, 'g2, 'gt) lib \<Rightarrow> bytes \<Rightarrow> 'g1 Point res" where
  "bls_G1_Unmarshal L data =
     bind_res (lib_res ''SetBytes'' (g1_SetBytes L data)) (\<lambda>q. Inr (Point (Some q)))"

definition bls_G2_Unmarshal :: "('f, 'g1, 'g2, 'gt) lib \<Rightarrow> bytes \<Rightarrow> 'g2 Point res" where
  "bls_G2_Unmarshal L data =
     bind_res (lib_res ''SetBytes'' (g2_SetBytes L data)) (\<lambda>q. Inr (Point (Some q)))"

definition bls_G1_IsZero :: "('f, 'g1, 'g2, 'gt) lib \<Rightarrow> 'g1 Point \<Rightarrow> bool" where
  "bls_G1_IsZero L p = (case point p of None \<Rightarrow> True | Some q \<Rightarrow> g1_IsInfinity L q)"

definition bls_G2_IsZero :: "('f, 'g1, 'g2, 'gt) lib \<Rightarrow> 'g2 Point \<Rightarrow> bool" where
  "bls_G2_IsZero L p = (case point p of None \<Rightarrow> True | Some q \<Rightarrow> g2_IsInfinity L q)"

definition bls_Equal :: "'g Point \<Rightarrow> 'g Point \<Rightarrow> bool" where
  "bls_Equal p other =
     (case (point p, point other) of (Some a, Some b) \<Rightarrow> a = b | _ \<Rightarrow> False)"

text \<open>Big integers: \<open>SetBytes\<close> is \<open>be_value\<close>, \<open>Bytes\<close> has no leading zero byte.\<close>

fun big_Bytes :: "nat \<Rightarrow> bytes" where
  "big_Bytes n = (if n = 0 then [] else big_Bytes (n div 256) @ [of_nat n])"

declare big_Bytes.simps [simp del]

definition bls_G1_ToBigInt :: "('f, 'g1, 'g2, 'gt) lib \<Rightarrow> 'g1 Point \<Rightarrow> nat \<times> nat" where
  "bls_G1_ToBigInt L p = (if bls_G1_IsZero L p then (0, 0) else (be_value (bls_G1_Marshal L p), 0))"

definition bls_G2_ToBigInt :: "('f, 'g1, 'g2, 'gt) lib \<Rightarrow> 'g2 Point \<Rightarrow> nat \<times> nat" where
  "bls_G2_ToBigInt L p = (be_value (bls_G2_Marshal L p), 0)"

definition pad_left :: "nat \<Rightarrow> bytes \<Rightarrow> bytes" where
  "pad_left n xs = (if length xs < n then replicate (n - length xs) 0 @ xs else xs)"

definition G1PointFromBigInt ::
  "('f, 'g1, 'g2, 'gt) lib \<Rightarrow> nat option \<Rightarrow> nat option \<Rightarrow> 'g1 Point res" where
  "G1PointFromBigInt L x y =
     (case x of None \<Rightarrow> Inl (Errorf ''x is nil or zero'')
      | Some n \<Rightarrow>
          if n = 0 then Inr (NewPoint (Some (g1_Infinity L)))
          else bind_res (lib_res ''SetBytes'' (g1_SetBytes L (pad_left 48 (big_Bytes n))))
                 (\<lambda>q. Inr (NewPoint (Some q))))"

definition G2PointFromBigInt ::
  "('f, 'g1, 'g2, 'gt) lib \<Rightarrow> nat option \<Rightarrow> nat option \<Rightarrow> 'g2 Point res" where
  "G2PointFromBigInt L x y =
     (case x of None \<Rightarrow> Inl (Errorf ''x is nil or zero'')
      | Some n \<Rightarrow>
          if n = 0 then Inr (NewPoint (Some (g2_Infinity L)))
          else bind_res (lib_res ''SetBytes'' (g2_SetBytes L (pad_left 96 (big_Bytes n))))
                 (\<lambda>q. Inr (NewPoint (Some q))))"

definition G1PointFromCompressedBytes :: "('f, 'g1, 'g2, 'gt) lib \<Rightarrow> bytes \<Rightarrow> 'g1 Point res" where
  "G1PointFromCompressedBytes L b =
     bind_res (lib_res ''SetBytes'' (g1_SetBytes L b)) (\<lambda>q. Inr (NewPoint (Some q)))"

definition G2PointFromCompressedBytes :: "('f, 'g1, 'g2, 'gt) lib \<Rightarrow> bytes \<Rightarrow> 'g2 Point res" where
  "G2PointFromCompressedBytes L b =
     bind_res (lib_res ''SetBytes'' (g2_SetBytes L b)) (\<lambda>q. Inr (NewPoint (Some q)))"

definition ToAffine :: "'g Point \<Rightarrow> 'g option" where
  "ToAffine p = point p"

subsection \<open>Group operations, keys and signatures (\<open>operations.go\<close>)\<close>

definition bls_G1Generator :: "('f, 'g1, 'g2, 'gt) lib \<Rightarrow> 'g1 Point" where
  "bls_G1Generator L = NewPoint (Some (g1_Gen L))"

definition bls_G2Generator :: "('f, 'g1, 'g2, 'gt) lib \<Rightarrow> 'g2 Point" where
  "bls_G2Generator L = NewPoint (Some (g2_Gen L))"

definition bls_ScalarMulG1 ::
  "('f, 'g1, 'g2, 'gt) lib \<Rightarrow> 'g1 Point option \<Rightarrow> 'f option \<Rightarrow> 'g1 Point res" where
  "bls_ScalarMulG1 L p scalar =
     (case (p, scalar) of
        (Some (Point (Some q)), Some k) \<Rightarrow>
          if \<not> g1_IsInSubGroup L q then Inl (Errorf ''point is not in subgroup or curve'')
          else Inr (NewPoint (Some (g1_ScalarMultiplication L q k)))
      | _ \<Rightarrow> Inl (Errorf ''invalid point or scalar''))"

definition bls_ScalarMulG2 ::
  "('f, 'g1, 'g2, 'gt) lib \<Rightarrow> 'g2 Point option \<Rightarrow> 'f option \<Rightarrow> 'g2 Point res" where
  "bls_ScalarMulG2 L p scalar =
     (case (p, scalar) of
        (Some (Point (Some q)), Some k) \<Rightarrow>
          if \<not> g2_IsInSubGroup L q then Inl (Errorf ''point is not in subgroup or curve'')
          else Inr (NewPoint (Some (g2_ScalarMultiplication L q k)))
      | _ \<Rightarrow> Inl (Errorf ''invalid point or scalar''))"

definition bls_AddG1 ::
  "('f, 'g1, 'g2, 'gt) lib \<Rightarrow> 'g1 Point option \<Rightarrow> 'g1 Point option \<Rightarrow> 'g1 Point res" where
  "bls_AddG1 L a b =
     (case (a, b) of
        (Some (Point (Some p)), Some (Point (Some q))) \<Rightarrow>
          if \<not> g1_IsInSubGroup L p then Inl (Errorf ''a is not in subgroup or curve'')
          else if \<not> g1_IsInSubGroup L q then Inl (Errorf ''b is not in subgroup or curve'')
          else Inr (NewPoint (Some (g1_Add L p q)))
      | _ \<Rightarrow> Inl (Errorf ''a or b G1 point passed in was nil''))"

definition bls_AddG2 ::
  "('f, 'g1, 'g2, 'gt) lib \<Rightarrow> 'g2 Point option \<Rightarrow> 'g2 Point option \<Rightarrow> 'g2 Point res" where
  "bls_AddG2 L a b =
     (case (a, b) of
        (Some (Point (Some p)), Some (Point (Some q))) \<Rightarrow>
          if \<not> g2_IsInSubGroup L p then Inl (Errorf ''a is not in subgroup or curve'')
          else if \<not> g2_IsInSubGroup L q then Inl (Errorf ''b is not in subgroup or curve'')
          else Inr (NewPoint (Some (g2_Add L p q)))
      | _ \<Rightarrow> Inl (Errorf ''a or b G2 point passed in was nil''))"

definition bls_HashToG1 :: "('f, 'g1, 'g2, 'gt) lib \<Rightarrow> bytes \<Rightarrow> 'g1 Point res" where
  "bls_HashToG1 L msg =
     bind_res (wrap_err ''failed to hash to G1'' (lib_res ''HashToG1''
       (bls12381_HashToG1 L msg (str_bytes ''BLS_SIG_BLS12381G1_XMD:SHA-256_SSWU_RO_NUL_''))))
       (\<lambda>p. Inr (NewPoint (Some p)))"

definition bls_HashToG2 :: "('f, 'g1, 'g2, 'gt) lib \<Rightarrow> bytes \<Rightarrow> 'g2 Point res" where
  "bls_HashToG2 L msg =
     bind_res (wrap_err ''failed to hash to G2'' (lib_res ''HashToG2''
       (bls12381_HashToG2 L msg (str_bytes ''BLS_SIG_BLS12381G2_XMD:SHA-256_SSWU_RO_NUL_''))))
       (\<lambda>p. Inr (NewPoint (Some p)))"

text \<open>A private key: the scalar pointer. \<open>rnd\<close> is what \<open>SetRandom\<close> gives, \<open>None\<close> its error.\<close>

datatype 'f PrivateKey = PrivateKey (scalar: "'f option")

definition GeneratePrivateKey :: "'f option \<Rightarrow> 'f PrivateKey res" where
  "GeneratePrivateKey rnd =
     bind_res (wrap_err ''failed to generate random scalar'' (lib_res ''SetRandom'' rnd))
       (\<lambda>s. Inr (PrivateKey (Some s)))"

definition GeneratePrivateKeyFromSeed ::
  "('f, 'g1, 'g2, 'gt) lib \<Rightarrow> bytes \<Rightarrow> 'f PrivateKey res" where
  "GeneratePrivateKeyFromSeed L seed =
     (if length seed < 32 then Inl (Errorf ''seed must be at least 32 bytes'')
      else Inr (PrivateKey (Some (fr_SetBigInt L (be_value (take 32 seed) mod fr_Modulus L)))))"

text \<open>The error of \<open>ScalarMul\<close> is dropped, and then a nil result is dereferenced.\<close>

definition deref_point :: "'g Point res \<Rightarrow> 'g Point res" where
  "deref_point r = (case r of Inl _ \<Rightarrow> Inl (Panic ''nil pointer dereference'') | Inr p \<Rightarrow> Inr (Point (point p)))"

definition GetPublicKeyG1 :: "('f, 'g1, 'g2, 'gt) lib \<Rightarrow> 'f PrivateKey \<Rightarrow> 'g1 Point res" where
  "GetPublicKeyG1 L sk = deref_point (bls_ScalarMulG1 L (Some (bls_G1Generator L)) (scalar sk))"

definition GetPublicKeyG2 :: "('f, 'g1, 'g2, 'gt) lib \<Rightarrow> 'f PrivateKey \<Rightarrow> 'g2 Point res" where
  "GetPublicKeyG2 L sk = deref_point (bls_ScalarMulG2 L (Some (bls_G2Generator L)) (scalar sk))"

definition SignG1 :: "('f, 'g1, 'g2, 'gt) lib \<Rightarrow> 'f PrivateKey \<Rightarrow> bytes \<Rightarrow> 'g1 Point res" where
  "SignG1 L sk msg =
     bind_res (wrap_err ''failed to hash to G1'' (bls_HashToG1 L msg)) (\<lambda>msgPoint.
     bind_res (wrap_err ''failed to sign G1'' (bls_ScalarMulG1 L (Some msgPoint) (scalar sk))) (\<lambda>sig.
     Inr (Point (point sig))))"

definition SignG2 :: "('f, 'g1, 'g2, 'gt) lib \<Rightarrow> 'f PrivateKey \<Rightarrow> bytes \<Rightarrow> 'g2 Point res" where
  "SignG2 L sk msg =
     bind_res (wrap_err ''failed to hash to G2'' (bls_HashToG2 L msg)) (\<lambda>msgPoint.
     bind_res (wrap_err ''failed to sign G2'' (bls_ScalarMulG2 L (Some msgPoint) (scalar sk))) (\<lambda>sig.
     Inr (Point (point sig))))"

text \<open>A pairing whose error is dropped leaves the zero value of \<open>GT\<close>.\<close>

definition Pair1 :: "('f, 'g1, 'g2, 'gt) lib \<Rightarrow> 'g1 option \<Rightarrow> 'g2 option \<Rightarrow> 'gt res" where
  "Pair1 L p q =
     (case (p, q) of
        (Some a, Some b) \<Rightarrow> Inr (case bls12381_Pair L [a] [b] of None \<Rightarrow> gt_Zero L | Some e \<Rightarrow> e)
      | _ \<Rightarrow> Inl (Panic ''nil pointer dereference''))"

definition VerifyG1 ::
  "('f, 'g1, 'g2, 'gt) lib \<Rightarrow> 'g2 Point option \<Rightarrow> bytes \<Rightarrow> 'g1 Point option \<Rightarrow> bool res" where
  "VerifyG1 L pubkey msg sig =
     (case (pubkey, sig) of
        (Some pk, Some sg) \<Rightarrow>
          bind_res (wrap_err ''failed to hash to G1'' (bls_HashToG1 L msg)) (\<lambda>msgPoint.
          bind_res (Pair1 L (point sg) (point (bls_G2Generator L))) (\<lambda>left.
          bind_res (Pair1 L (point msgPoint) (point pk)) (\<lambda>right.
          Inr (left = right))))
      | _ \<Rightarrow> Inl (Errorf ''pubkey or sig is nil''))"

definition VerifyG2 ::
  "('f, 'g1, 'g2, 'gt) lib \<Rightarrow> 'g1 Point option \<Rightarrow> bytes \<Rightarrow> 'g2 Point option \<Rightarrow> bool res" where
  "VerifyG2 L pubkey msg sig =
     (case (pubkey, sig) of
        (Some pk, Some sg) \<Rightarrow>
          bind_res (wrap_err ''failed to hash to G2'' (bls_HashToG2 L msg)) (\<lambda>msgPoint.
          bind_res (Pair1 L (point (bls_G1Generator L)) (point sg)) (\<lambda>left.
          bind_res (Pair1 L (point pk) (point msgPoint)) (\<lambda>right.
          Inr (left = right))))
      | _ \<Rightarrow> Inl (Errorf ''pubkey or sig is nil''))"

text \<open>One round of the aggregation loop; a nil signature and a failing addition are skipped.\<close>

definition aggregate_step ::
  "('g Point option \<Rightarrow> 'g Point option \<Rightarrow> 'g Point res) \<Rightarrow> 'g Point option \<Rightarrow> 'g Point \<Rightarrow> 'g Point" where
  "aggregate_step add sig result =
     (case sig of
        Some (Point (Some q)) \<Rightarrow>
          (case add (Some result) (Some (NewPoint (Some q))) of Inl _ \<Rightarrow> result | Inr summed \<Rightarrow> summed)
      | _ \<Rightarrow> result)"

definition AggregateG1 :: "('f, 'g1, 'g2, 'gt) lib \<Rightarrow> 'g1 Point option list \<Rightarrow> 'g1 Point" where
  "AggregateG1 L sigs =
     (if sigs = [] then Point (Some (g1_Infinity L))
      else Point (point (fold (aggregate_step (bls_AddG1 L)) sigs (NewPoint (Some (g1_Infinity L))))))"

definition AggregateG2 :: "('f, 'g1, 'g2, 'gt) lib \<Rightarrow> 'g2 Point option list \<Rightarrow> 'g2 Point" where
  "AggregateG2 L sigs =
     (if sigs = [] then Point (Some (g2_Infinity L))
      else Point (point (fold (aggregate_step (bls_AddG2 L)) sigs (NewPoint (Some (g2_Infinity L))))))"

definition GetScalar :: "'f PrivateKey \<Rightarrow> 'f option" where
  "GetScalar sk = scalar sk"

definition SetScalar :: "'f PrivateKey \<Rightarrow> 'f \<Rightarrow> 'f PrivateKey" where
  "SetScalar sk s = PrivateKey (Some s)"

definition NewPrivateKeyFromScalar :: "'f \<Rightarrow> 'f PrivateKey" where
  "NewPrivateKeyFromScalar s = PrivateKey (Some s)"

subsection \<open>Secret sharing (\<open>polynomial.go\<close>)\<close>

text \<open>\<open>rand i\<close> is what \<open>SetRandom\<close> gives for the coefficient \<open>i\<close>, \<open>None\<close> its error.\<close>

definition GeneratePolynomial :: "'f \<Rightarrow> int \<Rightarrow> (nat \<Rightarrow> 'f option) \<Rightarrow> 'f list res" where
  "GeneratePolynomial secret degree rand =
     (if degree < 0 then Inl (Panic ''index out of range'')
      else bind_res (map_res (\<lambda>i. wrap_err ''failed to generate random coefficient''
                                  (lib_res ''SetRandom'' (rand i))) [1..<Suc (nat degree)])
             (\<lambda>cs. Inr (secret # cs)))"

definition CreateCommitments :: "('f, 'g1, 'g2, 'gt) lib \<Rightarrow> 'f list \<Rightarrow> 'g2 Point list res" where
  "CreateCommitments L poly =
     map_res (\<lambda>coeff. wrap_err ''failed to create commitment''
                (bls_ScalarMulG2 L (Some (bls_G2Generator L)) (Some coeff))) poly"

definition AddressToFr :: "('f, 'g1, 'g2, 'gt) lib \<Rightarrow> address \<Rightarrow> 'f" where
  "AddressToFr L addr = fr_SetBytes L (keccak256 L (addr_bytes addr))"

definition EvaluatePolynomial :: "('f, 'g1, 'g2, 'gt) lib \<Rightarrow> 'f list \<Rightarrow> address \<Rightarrow> 'f" where
  "EvaluatePolynomial L poly addr = poly_Eval L poly (AddressToFr L addr)"

definition ComputeLagrangeCoefficient ::
  "('f :: field, 'g1, 'g2, 'gt) lib \<Rightarrow> address \<Rightarrow> address list \<Rightarrow> 'f" where
  "ComputeLagrangeCoefficient L i participants =
     (let iFr = AddressToFr L i;
          (numerator, denominator) =
            fold (\<lambda>j (num, den).
                    if i \<noteq> j then (num * (- AddressToFr L j), den * (iFr - AddressToFr L j))
                    else (num, den)) participants (1, 1)
      in inverse denominator * numerator)"

definition RecoverSecret ::
  "('f :: field, 'g1, 'g2, 'gt) lib \<Rightarrow> (address, 'f) gomap \<Rightarrow> 'f res" where
  "RecoverSecret L shares =
     (let participants = gm_keys shares;
          secret = fold (\<lambda>(addr, share) s. s + ComputeLagrangeCoefficient L addr participants * share)
                     shares 0
      in if secret = 0 then Inl (Errorf ''secret cannot be zero, this should not happen'')
         else Inr secret)"

definition GenerateShares ::
  "('f, 'g1, 'g2, 'gt) lib \<Rightarrow> 'f list \<Rightarrow> address list \<Rightarrow> (address, 'f) gomap" where
  "GenerateShares L poly participants =
     fold (\<lambda>addr shares. gm_set shares addr (EvaluatePolynomial L poly addr)) participants []"

text \<open>\<open>powers p x n\<close>: the \<open>n\<close> entries of the slice \<open>powers\<close> from \<open>p\<close> on.\<close>

fun powers :: "'f :: comm_ring_1 \<Rightarrow> 'f \<Rightarrow> nat \<Rightarrow> 'f list" where
  "powers p x 0 = []"
| "powers p x (Suc n) = p # powers (p * x) x n"

definition VerifyShare ::
  "('f :: field, 'g1, 'g2, 'gt) lib \<Rightarrow> address \<Rightarrow> 'f option \<Rightarrow> 'g2 Point option list \<Rightarrow> bool res" where
  "VerifyShare L addr share commitments =
     (if commitments = [] then Inl (Errorf ''no commitments provided'')
      else if share = None then Inl (Errorf ''share is nil'')
      else
        bind_res (wrap_err ''failed to compute share commitment''
          (bls_ScalarMulG2 L (Some (bls_G2Generator L)) share)) (\<lambda>shareCommitment.
        bind_res (map_res (\<lambda>c. case c of Some (Point (Some q)) \<Rightarrow> Inr q
                               | _ \<Rightarrow> Inl (Errorf ''nil commitment'')) commitments) (\<lambda>commitmentPoints.
        bind_res (wrap_err ''failed to compute expected commitment'' (lib_res ''MultiExp''
          (g2_MultiExp L commitmentPoints (powers 1 (AddressToFr L addr) (length commitments)))))
          (\<lambda>expectedCommitment. Inr (point shareCommitment = Some expectedCommitment)))))"

subsection \<open>Points\<close>

lemmas point_defs = NewPoint_def bls_G1Generator_def bls_G2Generator_def bls_G1_Marshal_def
  bls_G2_Marshal_def G1PointFromCompressedBytes_def G2PointFromCompressedBytes_def
  bls_ScalarMulG1_def bls_ScalarMulG2_def bls_AddG1_def bls_AddG2_def

text \<open>The operations on points of the subgroup, written as multiples of the generators.\<close>

lemma bls_G1_ops:
  assumes "g1_laws L"
  shows "bls_ScalarMulG1 L (Some (Point (Some (mul1 L x)))) (Some k) = Inr (Point (Some (mul1 L (k * x))))"
    "bls_ScalarMulG1 L (Some (bls_G1Generator L)) (Some k) = Inr (Point (Some (mul1 L k)))"
    "bls_AddG1 L (Some (Point (Some (mul1 L x)))) (Some (Point (Some (mul1 L y)))) =
       Inr (Point (Some (mul1 L (x + y))))"
    "bls_G1_Marshal L (Point (Some (mul1 L x))) = g1_Bytes L (mul1 L x)"
    "G1PointFromCompressedBytes L (g1_Bytes L (mul1 L x)) = Inr (Point (Some (mul1 L x)))"
  using g1_lawsD [OF assms] by (simp_all add: point_defs)

lemma bls_G2_ops:
  assumes "g2_laws L"
  shows "bls_ScalarMulG2 L (Some (Point (Some (mul2 L x)))) (Some k) = Inr (Point (Some (mul2 L (k * x))))"
    "bls_ScalarMulG2 L (Some (bls_G2Generator L)) (Some k) = Inr (Point (Some (mul2 L k)))"
    "bls_AddG2 L (Some (Point (Some (mul2 L x)))) (Some (Point (Some (mul2 L y)))) =
       Inr (Point (Some (mul2 L (x + y))))"
    "bls_G2_Marshal L (Point (Some (mul2 L x))) = g2_Bytes L (mul2 L x)"
    "G2PointFromCompressedBytes L (g2_Bytes L (mul2 L x)) = Inr (Point (Some (mul2 L x)))"
  using g2_lawsD [OF assms] by (simp_all add: point_defs)

lemma be_value_big_Bytes: "be_value (big_Bytes n) = n"
proof (induction n rule: big_Bytes.induct)
  case (1 n)
  show ?case
    by (subst big_Bytes.simps) (auto simp: be_value_append unat_of_nat 1)
qed

lemma length_big_Bytes: "n < 256 ^ k \<Longrightarrow> length (big_Bytes n) \<le> k"
proof (induction k arbitrary: n)
  case (Suc k)
  then have "n div 256 < 256 ^ k" by (simp add: less_mult_imp_div_less mult.commute)
  with Suc.IH show ?case by (subst big_Bytes.simps) auto
qed (simp add: big_Bytes.simps)

lemma be_value_replicate_0 [simp]: "be_value (replicate k 0) = 0"
  by (induction k) auto

lemma be_value_pad_left [simp]: "be_value (pad_left n xs) = be_value xs"
  by (simp add: pad_left_def be_value_append)

lemma be_bytes_be_value: "be_bytes (length xs) (be_value xs) = xs"
proof (induction xs rule: rev_induct)
  case (snoc b xs)
  have e: "be_value (xs @ [b]) = unat b + 256 * be_value xs" by (simp add: be_value_append)
  have "be_value (xs @ [b]) div 256 = be_value xs" using unat_lt_256 [of b] by (simp add: e)
  moreover have "(of_nat (be_value (xs @ [b])) :: byte) = b"
    by (rule word_unat_eq_iff [THEN iffD2]) (use unat_lt_256 [of b] in \<open>simp only: e unat_of_nat, simp\<close>)
  ultimately show ?case using snoc by simp
qed simp

lemma be_value_inj: "length xs = length ys \<Longrightarrow> be_value xs = be_value ys \<Longrightarrow> xs = ys"
  by (metis be_bytes_be_value)

lemma pad_left_big_Bytes:
  assumes "length bs = k" shows "pad_left k (big_Bytes (be_value bs)) = bs"
proof (rule be_value_inj)
  show "length (pad_left k (big_Bytes (be_value bs))) = length bs"
    using length_big_Bytes [of "be_value bs" k] be_value_bound [of bs] assms
    by (simp add: pad_left_def)
qed (simp add: be_value_big_Bytes)

text \<open>
  A point of the subgroup survives the trip through \<open>ToBigInt\<close> and \<open>FromBigInt\<close>, in both
  groups: the leading zero bytes that a big integer drops are restored, and the point at infinity is
  mapped to zero in G1 and to the number of its encoding in G2, and back.
\<close>

theorem big_int_roundtrip:
  assumes "curve_laws L" "g1_IsInSubGroup L p" "g2_IsInSubGroup L q"
  shows "G1PointFromBigInt L (Some (fst (bls_G1_ToBigInt L (Point (Some p)))))
             (Some (snd (bls_G1_ToBigInt L (Point (Some p))))) = Inr (Point (Some p)) \<and>
         G2PointFromBigInt L (Some (fst (bls_G2_ToBigInt L (Point (Some q)))))
             (Some (snd (bls_G2_ToBigInt L (Point (Some q))))) = Inr (Point (Some q))"
proof -
  note g1 = g1_lawsD [OF curve_lawsD(1) [OF assms(1)]] and g2 = g2_lawsD [OF curve_lawsD(2) [OF assms(1)]]
  obtain x where x: "p = mul1 L x" using assms(1,2) by (auto simp: curve_laws_def g1_laws_def group_lawsD(9))
  obtain y where y: "q = mul2 L y" using assms(1,3) by (auto simp: curve_laws_def g2_laws_def group_lawsD(9))
  have "G1PointFromBigInt L (Some (fst (bls_G1_ToBigInt L (Point (Some p)))))
      (Some (snd (bls_G1_ToBigInt L (Point (Some p))))) = Inr (Point (Some p))"
    by (simp add: G1PointFromBigInt_def bls_G1_ToBigInt_def bls_G1_IsZero_def bls_G1_Marshal_def x g1
        pad_left_big_Bytes NewPoint_def)
  moreover have "G2PointFromBigInt L (Some (fst (bls_G2_ToBigInt L (Point (Some q)))))
      (Some (snd (bls_G2_ToBigInt L (Point (Some q))))) = Inr (Point (Some q))"
    by (simp add: G2PointFromBigInt_def bls_G2_ToBigInt_def bls_G2_Marshal_def y g2
        pad_left_big_Bytes NewPoint_def)
  ultimately show ?thesis by blast
qed

theorem big_int_roundtrip_witness:
  "G1PointFromBigInt mock_lib (Some (fst (bls_G1_ToBigInt mock_lib (Point (Some 5)))))
     (Some (snd (bls_G1_ToBigInt mock_lib (Point (Some 5))))) = Inr (Point (Some 5)) \<and>
   G2PointFromBigInt mock_lib (Some (fst (bls_G2_ToBigInt mock_lib (Point (Some 7)))))
     (Some (snd (bls_G2_ToBigInt mock_lib (Point (Some 7))))) = Inr (Point (Some 7))"
  by (rule big_int_roundtrip [OF mock_lib_laws, of 5 7]) (simp_all add: mock_lib_def)

subsection \<open>Signatures\<close>

lemma bls_HashToG1_mul:
  assumes "hash_laws L" shows "\<exists>h. bls_HashToG1 L msg = Inr (Point (Some (mul1 L h)))"
proof -
  obtain h where "bls12381_HashToG1 L msg (str_bytes ''BLS_SIG_BLS12381G1_XMD:SHA-256_SSWU_RO_NUL_'')
      = Some (mul1 L h)" using assms unfolding hash_laws_def by blast
  then show ?thesis by (auto simp: bls_HashToG1_def NewPoint_def)
qed

lemma bls_HashToG2_mul:
  assumes "hash_laws L" shows "\<exists>h. bls_HashToG2 L msg = Inr (Point (Some (mul2 L h)))"
proof -
  obtain h where "bls12381_HashToG2 L msg (str_bytes ''BLS_SIG_BLS12381G2_XMD:SHA-256_SSWU_RO_NUL_'')
      = Some (mul2 L h)" using assms unfolding hash_laws_def by blast
  then show ?thesis by (auto simp: bls_HashToG2_def NewPoint_def)
qed

text \<open>Both sides of the two-pairing tests, over the scalars of the four points.\<close>

lemma Pair1_eq_iff:
  assumes "pairing_laws L"
  shows "\<exists>u v. Pair1 L (Some (mul1 L a)) (Some (mul2 L b)) = Inr u \<and>
           Pair1 L (Some (mul1 L c)) (Some (mul2 L d)) = Inr v \<and> (u = v \<longleftrightarrow> a * b = c * d)"
  using assms unfolding pairing_laws_def Pair1_def by auto

text \<open>
  BLS signatures are sound and complete in both variants: for the public key of a private key,
  \<open>VerifyG1\<close> (\<open>VerifyG2\<close>) accepts a point of the subgroup exactly when it is the signature that
  \<open>SignG1\<close> (\<open>SignG2\<close>) makes of the message.
\<close>

theorem signature_correct:
  assumes "curve_laws L" "g1_IsInSubGroup L s1" "g2_IsInSubGroup L s2"
  shows "\<exists>pk1 pk2. GetPublicKeyG1 L (PrivateKey (Some k)) = Inr pk1 \<and>
     GetPublicKeyG2 L (PrivateKey (Some k)) = Inr pk2 \<and>
     VerifyG1 L (Some pk2) msg (Some (Point (Some s1))) =
       Inr (SignG1 L (PrivateKey (Some k)) msg = Inr (Point (Some s1))) \<and>
     VerifyG2 L (Some pk1) msg (Some (Point (Some s2))) =
       Inr (SignG2 L (PrivateKey (Some k)) msg = Inr (Point (Some s2)))"
proof -
  note L = curve_lawsD [OF assms(1)]
  obtain x where x: "s1 = mul1 L x" using assms(2) L(1) by (auto simp: g1_laws_def group_lawsD(9))
  obtain y where y: "s2 = mul2 L y" using assms(3) L(2) by (auto simp: g2_laws_def group_lawsD(9))
  obtain h1 where h1: "bls_HashToG1 L msg = Inr (Point (Some (mul1 L h1)))"
    using bls_HashToG1_mul L(4) by blast
  obtain h2 where h2: "bls_HashToG2 L msg = Inr (Point (Some (mul2 L h2)))"
    using bls_HashToG2_mul L(4) by blast
  have gen: "point (bls_G1Generator L) = Some (mul1 L 1)" "point (bls_G2Generator L) = Some (mul2 L 1)"
    using g1_lawsD(5) [OF L(1)] g2_lawsD(5) [OF L(2)]
    by (simp_all add: bls_G1Generator_def bls_G2Generator_def NewPoint_def)
  have sign: "SignG1 L (PrivateKey (Some k)) msg = Inr (Point (Some s1)) \<longleftrightarrow> x * 1 = h1 * k"
    "SignG2 L (PrivateKey (Some k)) msg = Inr (Point (Some s2)) \<longleftrightarrow> 1 * y = k * h2"
    by (auto simp: SignG1_def SignG2_def h1 h2 bls_G1_ops [OF L(1)] bls_G2_ops [OF L(2)] x y
        g1_lawsD(7) [OF L(1)] g2_lawsD(7) [OF L(2)] mult.commute)
  have "VerifyG1 L (Some (Point (Some (mul2 L k)))) msg (Some (Point (Some s1))) = Inr (x * 1 = h1 * k)"
    using Pair1_eq_iff [OF L(3), of x 1 h1 k] by (auto simp: VerifyG1_def h1 gen x)
  moreover have "VerifyG2 L (Some (Point (Some (mul1 L k)))) msg (Some (Point (Some s2))) = Inr (1 * y = k * h2)"
    using Pair1_eq_iff [OF L(3), of 1 y k h2] by (auto simp: VerifyG2_def h2 gen y)
  moreover have "GetPublicKeyG1 L (PrivateKey (Some k)) = Inr (Point (Some (mul1 L k)))"
    "GetPublicKeyG2 L (PrivateKey (Some k)) = Inr (Point (Some (mul2 L k)))"
    by (simp_all add: GetPublicKeyG1_def GetPublicKeyG2_def bls_G1_ops [OF L(1)] bls_G2_ops [OF L(2)]
        deref_point_def)
  ultimately show ?thesis by (simp only: sign) simp
qed

theorem signature_correct_witness:
  "\<exists>pk1 pk2. GetPublicKeyG1 mock_lib (PrivateKey (Some 3)) = Inr pk1 \<and>
     GetPublicKeyG2 mock_lib (PrivateKey (Some 3)) = Inr pk2 \<and>
     VerifyG1 mock_lib (Some pk2) [7] (Some (Point (Some 6))) =
       Inr (SignG1 mock_lib (PrivateKey (Some 3)) [7] = Inr (Point (Some 6))) \<and>
     VerifyG2 mock_lib (Some pk1) [7] (Some (Point (Some 6))) =
       Inr (SignG2 mock_lib (PrivateKey (Some 3)) [7] = Inr (Point (Some 6)))"
  by (rule signature_correct [OF mock_lib_laws]) (simp_all add: mock_lib_def)

subsection \<open>Sharing\<close>

lemma lagrange_fold:
  "fold (\<lambda>j (num, den). if i \<noteq> j then (num * (- A j), den * (x - A j)) else (num, den)) ps (n, d) =
     (n * (\<Prod>j\<leftarrow>filter (\<lambda>j. j \<noteq> i) ps. - A j), d * (\<Prod>j\<leftarrow>filter (\<lambda>j. j \<noteq> i) ps. x - A j :: 'f :: field))"
  by (induction ps arbitrary: n d) (auto simp: algebra_simps)

lemma prod_list_divide:
  "(\<Prod>y\<leftarrow>ys. f y / g y) = (\<Prod>y\<leftarrow>ys. f y) / (\<Prod>y\<leftarrow>ys. g y :: 'f :: field)"
  by (induction ys) auto

text \<open>The code's coefficient is the Lagrange coefficient of the participant's field point.\<close>

lemma ComputeLagrangeCoefficient_lag:
  assumes "distinct (map (AddressToFr L) ps)" "i \<in> set ps"
  shows "ComputeLagrangeCoefficient L i ps = lag (map (AddressToFr L) ps) (AddressToFr L i)"
proof -
  have "inj_on (AddressToFr L) (set ps)" using assms(1) by (simp add: distinct_map)
  then have "filter (\<lambda>j. j \<noteq> i) ps = filter (\<lambda>j. AddressToFr L j \<noteq> AddressToFr L i) ps"
    using assms(2) by (intro filter_cong) (auto dest: inj_onD)
  then have "map (AddressToFr L) (filter (\<lambda>j. j \<noteq> i) ps) =
      filter (\<lambda>y. y \<noteq> AddressToFr L i) (map (AddressToFr L) ps)"
    by (simp add: filter_map o_def)
  then have "lag (map (AddressToFr L) ps) (AddressToFr L i) =
      (\<Prod>j\<leftarrow>filter (\<lambda>j. j \<noteq> i) ps. (- AddressToFr L j) / (AddressToFr L i - AddressToFr L j))"
    unfolding lag_def by (metis (no_types, lifting) comp_apply map_eq_conv map_map)
  then show ?thesis
    unfolding prod_list_divide
    by (simp add: ComputeLagrangeCoefficient_def lagrange_fold divide_inverse mult.commute)
qed

text \<open>Interpolation at zero through the participants' points, for any short polynomial.\<close>

lemma lagrange_interpolates:
  assumes "distinct (map (AddressToFr L) ps)" "length p \<le> length ps"
  shows "(\<Sum>i\<leftarrow>ps. ComputeLagrangeCoefficient L i ps * peval p (AddressToFr L i)) = peval p 0"
proof -
  let ?xs = "map (AddressToFr L) ps"
  have "(\<Sum>i\<leftarrow>ps. ComputeLagrangeCoefficient L i ps * peval p (AddressToFr L i)) =
      (\<Sum>x\<leftarrow>?xs. lag ?xs x * peval p x)"
    by (simp add: ComputeLagrangeCoefficient_lag assms(1) o_def cong: map_cong)
  also have "\<dots> = peval p 0" by (rule interpolation_peval) (use assms in simp_all)
  finally show ?thesis .
qed

lemma gm_get_GenerateShares_aux:
  "gm_get (fold (\<lambda>addr shares. gm_set shares addr (f addr)) ps m) a =
     (if a \<in> set ps then Some (f a) else gm_get m a)"
  by (induction ps arbitrary: m) auto

lemma gm_ok_GenerateShares_aux:
  "gm_ok m \<Longrightarrow> gm_ok (fold (\<lambda>addr shares. gm_set shares addr (f addr)) ps m)"
  by (induction ps arbitrary: m) auto

lemma gm_get_GenerateShares:
  "gm_get (GenerateShares L poly ps) a = (if a \<in> set ps then Some (EvaluatePolynomial L poly a) else None)"
  by (simp add: GenerateShares_def gm_get_GenerateShares_aux)

lemma set_GenerateShares:
  "set (GenerateShares L poly ps) = {(a, EvaluatePolynomial L poly a) | a. a \<in> set ps}"
proof -
  have "gm_ok (GenerateShares L poly ps)"
    by (simp add: GenerateShares_def gm_ok_GenerateShares_aux)
  then show ?thesis using gm_get_GenerateShares [of L poly ps]
    by (auto simp: gm_get_eq_Some [symmetric] split: if_splits)
qed

lemma RecoverSecret_eval:
  assumes "fr_laws L" "distinct (map (AddressToFr L) (gm_keys shares))" "length poly \<le> length shares"
    "\<And>a s. (a, s) \<in> set shares \<Longrightarrow> s = EvaluatePolynomial L poly a"
  shows "RecoverSecret L shares =
     (if peval poly 0 = 0 then Inl (Errorf ''secret cannot be zero, this should not happen'')
      else Inr (peval poly 0))"
proof -
  let ?ps = "gm_keys shares"
  have "fold (\<lambda>(a, s) acc. acc + ComputeLagrangeCoefficient L a ?ps * s) shares 0 =
      (\<Sum>(a, s)\<leftarrow>shares. ComputeLagrangeCoefficient L a ?ps * s)"
    using fold_add_sum_list [of "\<lambda>(a, s). ComputeLagrangeCoefficient L a ?ps * s" shares 0]
    by (simp add: case_prod_unfold)
  also have "\<dots> = (\<Sum>i\<leftarrow>?ps. ComputeLagrangeCoefficient L i ?ps * peval poly (AddressToFr L i))"
    unfolding map_map by (rule sum_list_cong)
      (use assms(1,4) in \<open>auto simp: EvaluatePolynomial_def fr_laws_def\<close>)
  also have "\<dots> = peval poly 0" by (rule lagrange_interpolates) (use assms in simp_all)
  finally show ?thesis by (simp add: RecoverSecret_def Let_def)
qed

text \<open>
  Secret sharing round trip: from the shares that \<open>GenerateShares\<close> makes of a polynomial, any
  set of at least as many shares as the polynomial has coefficients, in any map order, gives back
  the constant term in \<open>RecoverSecret\<close>; a zero constant term is reported as an error.
\<close>

theorem RecoverSecret_GenerateShares:
  assumes "fr_laws L" "distinct (map (AddressToFr L) participants)" "gm_ok shares"
    "set shares \<subseteq> set (GenerateShares L (secret # coeffs) participants)"
    "length (secret # coeffs) \<le> length shares"
  shows "RecoverSecret L shares =
     (if secret = 0 then Inl (Errorf ''secret cannot be zero, this should not happen'')
      else Inr secret)"
proof -
  have "fst ` set shares \<subseteq> set participants" using assms(4) by (auto simp: set_GenerateShares)
  then have "distinct (map (AddressToFr L) (gm_keys shares))"
    using assms(2,3) unfolding distinct_map [of "AddressToFr L"] gm_ok_def
    by (auto intro: inj_on_subset)
  moreover have "s = EvaluatePolynomial L (secret # coeffs) a" if "(a, s) \<in> set shares" for a s
    using assms(4) that by (auto simp: set_GenerateShares)
  ultimately show ?thesis
    using RecoverSecret_eval [OF assms(1), of shares "secret # coeffs"] assms(5) by simp
qed

lemma AddressToFr_mock: "AddressToFr mock_lib a = gf_of_int (uint a)"
proof -
  have "be_value (addr_bytes a) = unat a"
    unfolding addr_bytes_def be_value_be_bytes by (rule mod_less) (rule unat_lt_256_20)
  then show ?thesis by (simp add: AddressToFr_def mock_lib_def gf_of_bytes_def)
qed

text \<open>Any two of the three shares of \<open>5 + 2 x\<close>.\<close>

theorem RecoverSecret_GenerateShares_witness:
  "RecoverSecret mock_lib [(3, 11), (1, 7)] = Inr 5"
proof -
  have "distinct (map (AddressToFr mock_lib) [1, 2, 3])" by (simp add: AddressToFr_mock) code_simp
  moreover have "set [(3 :: address, 11 :: gf), (1, 7)] \<subseteq> set (GenerateShares mock_lib [5, 2] [1, 2, 3])"
    by (auto simp: set_GenerateShares EvaluatePolynomial_def AddressToFr_mock) (simp_all add: mock_lib_def, code_simp+)
  ultimately have "RecoverSecret mock_lib [(3, 11), (1, 7)] = (if (5 :: gf) = 0
      then Inl (Errorf ''secret cannot be zero, this should not happen'') else Inr 5)"
    using RecoverSecret_GenerateShares [of mock_lib "[1, 2, 3]" "[(3, 11), (1, 7)]" 5 "[2]"]
      curve_lawsD(5) [OF mock_lib_laws] by (simp add: gm_ok_def)
  moreover have "(5 :: gf) \<noteq> 0" by code_simp
  ultimately show ?thesis by simp
qed

lemma length_powers [simp]: "length (powers p x n) = n"
  by (induction n arbitrary: p) auto

lemma peval_powers:
  "length cs = n \<Longrightarrow> (\<Sum>(c, k)\<leftarrow>zip cs (powers p x n). k * c) = p * peval cs x"
  by (induction cs arbitrary: n p) (auto simp: algebra_simps)

lemma VerifyShare_mul2:
  assumes "g2_laws L" "cs \<noteq> []"
  shows "VerifyShare L addr (Some s) (map (\<lambda>c. Some (Point (Some (mul2 L c)))) cs) =
     Inr (s = peval cs (AddressToFr L addr))"
proof -
  have m: "map_res (\<lambda>c. case c of Some (Point (Some q)) \<Rightarrow> Inr q | _ \<Rightarrow> Inl (Errorf ''nil commitment''))
      (map (\<lambda>c. Some (Point (Some (mul2 L c)))) cs) = Inr (map (mul2 L) cs)"
    by (induction cs) auto
  show ?thesis
    using assms(2) g2_lawsD(13) [OF assms(1), of cs "powers 1 (AddressToFr L addr) (length cs)"]
    by (simp add: VerifyShare_def bls_G2_ops [OF assms(1)] m peval_powers g2_lawsD(7) [OF assms(1)])
qed

lemma CreateCommitments_mul2:
  "g2_laws L \<Longrightarrow> CreateCommitments L poly = Inr (map (\<lambda>c. Point (Some (mul2 L c))) poly)"
  unfolding CreateCommitments_def by (rule map_res_total) (simp add: bls_G2_ops)

text \<open>
  Verifiable sharing: committing to a polynomial always succeeds, and against these commitments
  \<open>VerifyShare\<close> accepts a participant's share exactly when it is the polynomial's value at the
  participant's point, so the share that \<open>GenerateShares\<close> gives is accepted and every other value
  is rejected.
\<close>

theorem VerifyShare_iff:
  assumes "curve_laws L" "poly \<noteq> []"
  shows "\<exists>cs. CreateCommitments L poly = Inr cs \<and>
     (\<forall>addr s. VerifyShare L addr (Some s) (map Some cs) = Inr (s = EvaluatePolynomial L poly addr))"
proof -
  note L = curve_lawsD [OF assms(1)]
  have "VerifyShare L addr (Some s) (map Some (map (\<lambda>c. Point (Some (mul2 L c))) poly)) =
      Inr (s = EvaluatePolynomial L poly addr)" for addr s
    using VerifyShare_mul2 [OF L(2) assms(2), of addr s] L(5)
    by (simp add: o_def EvaluatePolynomial_def fr_laws_def)
  then show ?thesis using CreateCommitments_mul2 [OF L(2)] by blast
qed

theorem VerifyShare_iff_witness:
  "\<exists>cs. CreateCommitments mock_lib [5, 2] = Inr cs \<and>
     (\<forall>addr s. VerifyShare mock_lib addr (Some s) (map Some cs) =
        Inr (s = EvaluatePolynomial mock_lib [5, 2] addr))"
  by (rule VerifyShare_iff [OF mock_lib_laws]) simp

end
