(* ===== verification/Types.thy ===== *)
theory Types
  imports Bls
begin

text \<open>
  \<open>pkg/types/types.go\<close>: points in their serialised form, versioned key shares,
  acknowledgements, commitment broadcasts. A serialised point \<^emph>\<open>denotes\<close> the scalar \<open>x\<close> when
  its bytes decode to \<open>x\<close> times the generator; \<open>enc1\<close> and \<open>enc2\<close> are the compressed
  encodings of such a multiple.
\<close>

datatype G1Point = G1Point (g1_CompressedBytes: bytes)
datatype G2Point = G2Point (g2_CompressedBytes: bytes)

record 'f KeyShareVersion =
  Version :: int64
  PrivateShare :: "'f option"
  Commitments :: "G2Point list"
  MasterPublicKey :: "G2Point option"
  IsActive :: bool
  ParticipantIDs :: "address list"

record Acknowledgement =
  ack_DealerAddress :: address
  ack_PlayerAddress :: address
  ack_SessionTimestamp :: int64
  ack_ShareHash :: bytes
  ack_CommitmentHash :: bytes
  ack_Signature :: bytes

record CompletionSignature =
  cs_NodeAddress :: address
  cs_SessionTimestamp :: int64
  cs_CommitmentHash :: bytes
  cs_Signature :: bytes

record CommitmentBroadcast =
  cb_FromOperatorAddress :: address
  cb_SessionTimestamp :: int64
  cb_Commitments :: "G2Point list"
  cb_Acknowledgements :: "Acknowledgement option list"
  cb_MerkleProof :: "bytes list"

definition ZeroG1Point :: "('f, 'g1, 'g2, 'gt) lib \<Rightarrow> G1Point" where
  "ZeroG1Point L = G1Point (g1_Marshal L (g1_Infinity L))"

definition ZeroG2Point :: "('f, 'g1, 'g2, 'gt) lib \<Rightarrow> G2Point" where
  "ZeroG2Point L = G2Point (g2_Marshal L (g2_Infinity L))"

definition G1_IsZero :: "('f, 'g1, 'g2, 'gt) lib \<Rightarrow> G1Point \<Rightarrow> bool res" where
  "G1_IsZero L p =
     bind_res (G1PointFromCompressedBytes L (g1_CompressedBytes p)) (\<lambda>a. Inr (bls_G1_IsZero L a))"

definition G2_IsZero :: "('f, 'g1, 'g2, 'gt) lib \<Rightarrow> G2Point \<Rightarrow> bool res" where
  "G2_IsZero L p =
     bind_res (G2PointFromCompressedBytes L (g2_CompressedBytes p)) (\<lambda>a. Inr (bls_G2_IsZero L a))"

definition G1_IsEqual :: "G1Point \<Rightarrow> G1Point \<Rightarrow> bool" where
  "G1_IsEqual p other \<longleftrightarrow> g1_CompressedBytes p = g1_CompressedBytes other"

definition G2_IsEqual :: "G2Point \<Rightarrow> G2Point \<Rightarrow> bool" where
  "G2_IsEqual p other \<longleftrightarrow> g2_CompressedBytes p = g2_CompressedBytes other"

subsection \<open>What a serialised point denotes\<close>

definition den1 :: "('f, 'g1, 'g2, 'gt) lib \<Rightarrow> G1Point \<Rightarrow> 'f \<Rightarrow> bool" where
  "den1 L p x \<longleftrightarrow> g1_SetBytes L (g1_CompressedBytes p) = Some (mul1 L x)"

definition den2 :: "('f, 'g1, 'g2, 'gt) lib \<Rightarrow> G2Point \<Rightarrow> 'f \<Rightarrow> bool" where
  "den2 L p x \<longleftrightarrow> g2_SetBytes L (g2_CompressedBytes p) = Some (mul2 L x)"

definition enc1 :: "('f, 'g1, 'g2, 'gt) lib \<Rightarrow> 'f \<Rightarrow> G1Point" where
  "enc1 L x = G1Point (g1_Bytes L (mul1 L x))"

definition enc2 :: "('f, 'g1, 'g2, 'gt) lib \<Rightarrow> 'f \<Rightarrow> G2Point" where
  "enc2 L x = G2Point (g2_Bytes L (mul2 L x))"

lemma den1_intros [simp]:
  assumes "g1_laws L" shows "den1 L (enc1 L x) x" "den1 L (ZeroG1Point L) 0"
  using g1_lawsD [OF assms] by (simp_all add: den1_def enc1_def ZeroG1Point_def)

lemma den2_intros [simp]:
  assumes "g2_laws L" shows "den2 L (enc2 L x) x" "den2 L (ZeroG2Point L) 0"
  using g2_lawsD [OF assms] by (simp_all add: den2_def enc2_def ZeroG2Point_def)

lemma den1_unique: "g1_laws L \<Longrightarrow> den1 L p x \<Longrightarrow> den1 L p y \<longleftrightarrow> y = x"
  by (auto simp: den1_def g1_lawsD(7))

lemma den2_unique: "g2_laws L \<Longrightarrow> den2 L p x \<Longrightarrow> den2 L p y \<longleftrightarrow> y = x"
  by (auto simp: den2_def g2_lawsD(7))

lemma den_enc_iff [simp]:
  "g1_laws L \<Longrightarrow> den1 L (enc1 L x) y \<longleftrightarrow> y = x" "g2_laws L \<Longrightarrow> den2 L (enc2 L x) z \<longleftrightarrow> z = x"
  by (simp_all add: den1_unique [OF _ den1_intros(1)] den2_unique [OF _ den2_intros(1)])

lemma enc1_inj [simp]: "g1_laws L \<Longrightarrow> enc1 L x = enc1 L y \<longleftrightarrow> x = y"
  by (simp add: enc1_def g1_Bytes_inj)

lemma enc2_inj [simp]: "g2_laws L \<Longrightarrow> enc2 L x = enc2 L y \<longleftrightarrow> x = y"
  by (simp add: enc2_def g2_Bytes_inj)

lemma den1_FromCompressedBytes:
  "den1 L p x \<Longrightarrow> G1PointFromCompressedBytes L (g1_CompressedBytes p) = Inr (Point (Some (mul1 L x)))"
  by (simp add: den1_def G1PointFromCompressedBytes_def NewPoint_def)

lemma den2_FromCompressedBytes:
  "den2 L p x \<Longrightarrow> G2PointFromCompressedBytes L (g2_CompressedBytes p) = Inr (Point (Some (mul2 L x)))"
  by (simp add: den2_def G2PointFromCompressedBytes_def NewPoint_def)

lemma G1_IsZero_den: "g1_laws L \<Longrightarrow> den1 L p x \<Longrightarrow> G1_IsZero L p = Inr (x = 0)"
  by (simp add: G1_IsZero_def den1_FromCompressedBytes bls_G1_IsZero_def g1_lawsD(6))

lemma G2_IsZero_den: "g2_laws L \<Longrightarrow> den2 L p x \<Longrightarrow> G2_IsZero L p = Inr (x = 0)"
  by (simp add: G2_IsZero_def den2_FromCompressedBytes bls_G2_IsZero_def g2_lawsD(6))

lemma G2PointFromCompressedBytes_InrD:
  assumes "g2_laws L" "G2PointFromCompressedBytes L (g2_CompressedBytes p) = Inr q"
  obtains x where "den2 L p x" "q = Point (Some (mul2 L x))"
proof -
  obtain r where "g2_SetBytes L (g2_CompressedBytes p) = Some r" "q = Point (Some r)"
    using assms(2) by (auto simp: G2PointFromCompressedBytes_def NewPoint_def res_simps)
  with g2_SetBytes_SomeD [OF assms(1)] that show thesis by (auto simp: den2_def)
qed

lemma G1PointFromCompressedBytes_InrD:
  assumes "g1_laws L" "G1PointFromCompressedBytes L (g1_CompressedBytes p) = Inr q"
  obtains x where "den1 L p x" "q = Point (Some (mul1 L x))"
proof -
  obtain r where "g1_SetBytes L (g1_CompressedBytes p) = Some r" "q = Point (Some r)"
    using assms(2) by (auto simp: G1PointFromCompressedBytes_def NewPoint_def res_simps)
  with g1_SetBytes_SomeD [OF assms(1)] that show thesis by (auto simp: den1_def)
qed

end
