(* ===== verification/Crypto.thy ===== *)
theory Crypto
  imports Types
begin

text \<open>
  \<open>pkg/crypto/bls.go\<close> up to the encryption scheme: group operations on serialised points, the
  commitment hashes, recovery of an application key from partial signatures, the master public key,
  and the check of a recovered key against it. The operations are shown to compute on the scalars
  the points denote.
\<close>

definition G1Generator :: "('f, 'g1, 'g2, 'gt) lib \<Rightarrow> G1Point" where
  "G1Generator L = G1Point (bls_G1_Marshal L (bls_G1Generator L))"

definition G2Generator :: "('f, 'g1, 'g2, 'gt) lib \<Rightarrow> G2Point" where
  "G2Generator L = G2Point (bls_G2_Marshal L (bls_G2Generator L))"

definition ScalarMulG1 :: "('f, 'g1, 'g2, 'gt) lib \<Rightarrow> G1Point \<Rightarrow> 'f option \<Rightarrow> G1Point res" where
  "ScalarMulG1 L p k =
     bind_res (G1PointFromCompressedBytes L (g1_CompressedBytes p)) (\<lambda>g1Point.
     bind_res (bls_ScalarMulG1 L (Some g1Point) k) (\<lambda>result.
     Inr (G1Point (bls_G1_Marshal L result))))"

definition ScalarMulG2 :: "('f, 'g1, 'g2, 'gt) lib \<Rightarrow> G2Point \<Rightarrow> 'f option \<Rightarrow> G2Point res" where
  "ScalarMulG2 L p k =
     bind_res (G2PointFromCompressedBytes L (g2_CompressedBytes p)) (\<lambda>g2Point.
     bind_res (bls_ScalarMulG2 L (Some g2Point) k) (\<lambda>result.
     Inr (G2Point (bls_G2_Marshal L result))))"

definition AddG1 :: "('f, 'g1, 'g2, 'gt) lib \<Rightarrow> G1Point \<Rightarrow> G1Point \<Rightarrow> G1Point res" where
  "AddG1 L a b =
     bind_res (G1PointFromCompressedBytes L (g1_CompressedBytes a)) (\<lambda>aPoint.
     bind_res (G1PointFromCompressedBytes L (g1_CompressedBytes b)) (\<lambda>bPoint.
     bind_res (bls_AddG1 L (Some aPoint) (Some bPoint)) (\<lambda>result.
     Inr (G1Point (bls_G1_Marshal L result)))))"

definition AddG2 :: "('f, 'g1, 'g2, 'gt) lib \<Rightarrow> G2Point \<Rightarrow> G2Point \<Rightarrow> G2Point res" where
  "AddG2 L a b =
     bind_res (G2PointFromCompressedBytes L (g2_CompressedBytes a)) (\<lambda>aPoint.
     bind_res (G2PointFromCompressedBytes L (g2_CompressedBytes b)) (\<lambda>bPoint.
     bind_res (bls_AddG2 L (Some aPoint) (Some bPoint)) (\<lambda>result.
     Inr (G2Point (bls_G2_Marshal L result)))))"

definition PointsEqualG2 :: "('f, 'g1, 'g2, 'gt) lib \<Rightarrow> G2Point \<Rightarrow> G2Point \<Rightarrow> bool res" where
  "PointsEqualG2 L a b =
     (case (G2PointFromCompressedBytes L (g2_CompressedBytes a),
            G2PointFromCompressedBytes L (g2_CompressedBytes b)) of
        (Inr aPoint, Inr bPoint) \<Rightarrow> Inr (bls_Equal aPoint bPoint)
      | _ \<Rightarrow> Inl (Errorf ''failed to convert one of the G2 points to BLS module points''))"

definition HashToG1 :: "('f, 'g1, 'g2, 'gt) lib \<Rightarrow> string \<Rightarrow> G1Point res" where
  "HashToG1 L appID =
     bind_res (bls_HashToG1 L (str_bytes appID)) (\<lambda>p. Inr (G1Point (bls_G1_Marshal L p)))"

definition HashCommitment :: "('f, 'g1, 'g2, 'gt) lib \<Rightarrow> G2Point list \<Rightarrow> bytes" where
  "HashCommitment L commitments = sha256 L (concat (map g2_CompressedBytes commitments))"

definition HashReshareCommitment ::
  "('f, 'g1, 'g2, 'gt) lib \<Rightarrow> G2Point list \<Rightarrow> int64 \<Rightarrow> bytes" where
  "HashReshareCommitment L commitments sourceVersion =
     sha256 L (concat (map g2_CompressedBytes commitments) @ put_uint64 sourceVersion)"

text \<open>
  \<open>sort.Slice\<close> by \<open>bytes.Compare\<close> of the addresses: \<open>addr_bytes_less\<close> says that this is
  the order of the words, and the keys of a map are distinct, so the result does not depend on the
  algorithm.
\<close>

definition sort_addresses :: "address list \<Rightarrow> address list" where
  "sort_addresses = sort"

text \<open>A lookup of a missing key gives the zero value, a point with no bytes.\<close>

definition sig_at :: "(address, G1Point) gomap \<Rightarrow> address \<Rightarrow> G1Point" where
  "sig_at sigs addr = (case gm_get sigs addr of None \<Rightarrow> G1Point [] | Some p \<Rightarrow> p)"

definition RecoverAppPrivateKey ::
  "('f :: field, 'g1, 'g2, 'gt) lib \<Rightarrow> string \<Rightarrow> (address, G1Point) gomap \<Rightarrow> int \<Rightarrow> G1Point res" where
  "RecoverAppPrivateKey L appID partialSigs threshold =
     (if int (length partialSigs) < threshold then Inl (Errorf ''insufficient partial signatures'')
      else if threshold < 0 then Inl (Panic ''slice bounds out of range'')
      else
        let participants = take (nat threshold) (sort_addresses (gm_keys partialSigs)) in
        bind_res (fold_res (\<lambda>addr result.
            bind_res (ScalarMulG1 L (sig_at partialSigs addr)
                        (Some (ComputeLagrangeCoefficient L addr participants))) (\<lambda>scaledSig.
            AddG1 L result scaledSig)) participants (ZeroG1Point L)) (\<lambda>result.
        bind_res (G1_IsZero L result) (\<lambda>isZero.
        if isZero then Inl (Errorf ''recovered app private key is zero'') else Inr result)))"

definition VerifyAppPrivateKey ::
  "('f, 'g1, 'g2, 'gt) lib \<Rightarrow> string \<Rightarrow> G1Point \<Rightarrow> G2Point \<Rightarrow> bool res" where
  "VerifyAppPrivateKey L appID appPrivKey masterPubKey =
     bind_res (wrap_err ''failed to hash appID to G1'' (HashToG1 L appID)) (\<lambda>qID.
     bind_res (wrap_err ''failed to convert app private key''
       (G1PointFromCompressedBytes L (g1_CompressedBytes appPrivKey))) (\<lambda>privKeyAffine.
     bind_res (wrap_err ''failed to convert G2 generator''
       (G2PointFromCompressedBytes L (g2_CompressedBytes (G2Generator L)))) (\<lambda>g2GenAffine.
     bind_res (wrap_err ''failed to convert H(appID)''
       (G1PointFromCompressedBytes L (g1_CompressedBytes qID))) (\<lambda>qIDAffine.
     bind_res (wrap_err ''failed to convert master public key''
       (G2PointFromCompressedBytes L (g2_CompressedBytes masterPubKey))) (\<lambda>masterPKAffine.
     (case (ToAffine privKeyAffine, ToAffine qIDAffine, ToAffine g2GenAffine, ToAffine masterPKAffine) of
        (Some pk, Some q, Some g2, Some mpk) \<Rightarrow>
          wrap_err ''failed to compute pairing check''
            (lib_res ''PairingCheck'' (bls12381_PairingCheck L [pk, g1_Neg L q] [g2, mpk]))
      | _ \<Rightarrow> Inl (Panic ''nil pointer dereference'')))))))"

definition ComputeMasterPublicKey ::
  "('f, 'g1, 'g2, 'gt) lib \<Rightarrow> G2Point list list \<Rightarrow> G2Point res" where
  "ComputeMasterPublicKey L allCommitments =
     bind_res (fold_res (\<lambda>commitments masterPK.
         case commitments of
           [] \<Rightarrow> Inr masterPK
         | c0 # _ \<Rightarrow> wrap_err ''failed to add commitment at index'' (AddG2 L masterPK c0))
       allCommitments (ZeroG2Point L)) (\<lambda>masterPK.
     bind_res (G2_IsZero L masterPK) (\<lambda>isZero.
     if isZero then Inl (Errorf ''computed master public key is zero'') else Inr masterPK))"

definition GetAppPublicKey :: "('f, 'g1, 'g2, 'gt) lib \<Rightarrow> string \<Rightarrow> G1Point res" where
  "GetAppPublicKey L appID = HashToG1 L appID"

definition ComputeAppPublicKeyFromMaster ::
  "('f, 'g1, 'g2, 'gt) lib \<Rightarrow> string \<Rightarrow> G2Point \<Rightarrow> G1Point res" where
  "ComputeAppPublicKeyFromMaster L appID masterPublicKey = HashToG1 L appID"

subsection \<open>The operations on the scalars the points denote\<close>

lemma ScalarMulG1_den:
  "g1_laws L \<Longrightarrow> den1 L p x \<Longrightarrow> ScalarMulG1 L p (Some k) = Inr (enc1 L (k * x))"
  by (simp add: ScalarMulG1_def den1_FromCompressedBytes bls_G1_ops enc1_def)

lemma ScalarMulG2_den:
  "g2_laws L \<Longrightarrow> den2 L p x \<Longrightarrow> ScalarMulG2 L p (Some k) = Inr (enc2 L (k * x))"
  by (simp add: ScalarMulG2_def den2_FromCompressedBytes bls_G2_ops enc2_def)

lemma AddG1_den: "g1_laws L \<Longrightarrow> den1 L p x \<Longrightarrow> den1 L q y \<Longrightarrow> AddG1 L p q = Inr (enc1 L (x + y))"
  by (simp add: AddG1_def den1_FromCompressedBytes bls_G1_ops enc1_def)

lemma AddG2_den: "g2_laws L \<Longrightarrow> den2 L p x \<Longrightarrow> den2 L q y \<Longrightarrow> AddG2 L p q = Inr (enc2 L (x + y))"
  by (simp add: AddG2_def den2_FromCompressedBytes bls_G2_ops enc2_def)

lemma G2Generator_enc2: "g2_laws L \<Longrightarrow> G2Generator L = enc2 L 1"
  by (simp add: G2Generator_def enc2_def point_defs g2_lawsD(5))

lemma PointsEqualG2_den:
  "g2_laws L \<Longrightarrow> den2 L p x \<Longrightarrow> den2 L q y \<Longrightarrow> PointsEqualG2 L p q = Inr (x = y)"
  by (simp add: PointsEqualG2_def den2_FromCompressedBytes bls_Equal_def g2_lawsD(7))

lemma HashToG1_enc1: "curve_laws L \<Longrightarrow> \<exists>h. HashToG1 L appID = Inr (enc1 L h)"
  using bls_HashToG1_mul [OF curve_lawsD(4), of L "str_bytes appID"]
  by (auto simp: HashToG1_def enc1_def bls_G1_Marshal_def)

subsection \<open>Key recovery\<close>

text \<open>The accumulation loop of \<open>RecoverAppPrivateKey\<close>: a linear combination of scalars.\<close>

lemma combine_sigs:
  assumes "g1_laws L" "den1 L r x" "\<And>a. a \<in> set ps \<Longrightarrow> den1 L (sg a) (s a)" "ps \<noteq> []"
  shows "fold_res (\<lambda>a result. bind_res (ScalarMulG1 L (sg a) (Some (c a))) (AddG1 L result)) ps r
    = Inr (enc1 L (x + (\<Sum>a\<leftarrow>ps. c a * s a)))"
  using assms(2-)
proof (induction ps arbitrary: r x)
  case (Cons a ps)
  have step: "bind_res (ScalarMulG1 L (sg a) (Some (c a))) (AddG1 L r) = Inr (enc1 L (x + c a * s a))"
    using ScalarMulG1_den [OF assms(1) Cons.prems(2), of a "c a"]
      AddG1_den [OF assms(1) Cons.prems(1) den1_intros(1) [OF assms(1)]] by simp
  show ?case
  proof (cases "ps = []")
    case False
    then show ?thesis
      using Cons.IH [of "enc1 L (x + c a * s a)" "x + c a * s a"] Cons.prems assms(1)
      by (simp add: step add.assoc)
  qed (simp add: step)
qed simp

lemma RecoverAppPrivateKey_scalars:
  assumes "g1_laws L" "0 < threshold" "threshold \<le> int (length sigs)"
    "\<And>a. a \<in> set (gm_keys sigs) \<Longrightarrow> den1 L (sig_at sigs a) (s a)"
  defines "ps \<equiv> take (nat threshold) (sort_addresses (gm_keys sigs))"
  defines "key \<equiv> \<Sum>a\<leftarrow>ps. ComputeLagrangeCoefficient L a ps * s a"
  shows "RecoverAppPrivateKey L appID sigs threshold =
     (if key = 0 then Inl (Errorf ''recovered app private key is zero'') else Inr (enc1 L key))"
proof -
  have ps: "set ps \<subseteq> set (gm_keys sigs)"
    using set_take_subset [of "nat threshold" "sort_addresses (gm_keys sigs)"]
    by (simp add: ps_def sort_addresses_def)
  have "length ps \<noteq> 0" using assms(2,3) by (simp add: ps_def sort_addresses_def)
  then have "ps \<noteq> []" by simp
  note ps = ps this
  have "fold_res (\<lambda>a result. bind_res (ScalarMulG1 L (sig_at sigs a)
      (Some (ComputeLagrangeCoefficient L a ps))) (AddG1 L result)) ps (ZeroG1Point L) = Inr (enc1 L (0 + key))"
    unfolding key_def using assms(1) ps by (intro combine_sigs assms(4)) auto
  then show ?thesis
    using assms(1-3) by (simp add: RecoverAppPrivateKey_def Let_def flip: ps_def)
      (simp add: G1_IsZero_den [OF assms(1) den1_intros(1) [OF assms(1)]])
qed

text \<open>The sorted prefix of \<open>threshold\<close> keys used for interpolation.\<close>

lemma selected_participants:
  assumes "distinct (map (AddressToFr L) (gm_keys sigs))" "threshold \<le> int (length sigs)" "0 \<le> threshold"
  defines "ps \<equiv> take (nat threshold) (sort_addresses (gm_keys sigs))"
  shows "distinct (map (AddressToFr L) ps)" "length ps = nat threshold" "set ps \<subseteq> set (gm_keys sigs)"
proof -
  have "distinct (map (AddressToFr L) (sort_addresses (gm_keys sigs)))"
    using assms(1) unfolding sort_addresses_def distinct_map [of "AddressToFr L"] by simp
  then show "distinct (map (AddressToFr L) ps)"
    unfolding ps_def by (metis distinct_take take_map)
  show "length ps = nat threshold" using assms(2,3) by (simp add: ps_def sort_addresses_def)
  show "set ps \<subseteq> set (gm_keys sigs)"
    using set_take_subset [of "nat threshold" "sort_addresses (gm_keys sigs)"]
    by (simp add: ps_def sort_addresses_def)
qed

lemma recover_app_key:
  assumes "curve_laws L" "distinct (map (AddressToFr L) (gm_keys sigs))"
    "int (length (secret # coeffs)) \<le> threshold" "threshold \<le> int (length sigs)"
    "HashToG1 L appID = Inr q"
    "\<forall>(a, p) \<in> set sigs. ScalarMulG1 L q (Some (EvaluatePolynomial L (secret # coeffs) a)) = Inr p"
  shows "\<exists>key. ScalarMulG1 L q (Some secret) = Inr key \<and>
     RecoverAppPrivateKey L appID sigs threshold =
       (if G1_IsZero L key = Inr True then Inl (Errorf ''recovered app private key is zero'')
        else Inr key)"
proof -
  note L = curve_lawsD [OF assms(1)]
  obtain h where h: "q = enc1 L h" using HashToG1_enc1 [OF assms(1), of appID] assms(5) by auto
  let ?p = "secret # coeffs" and ?ps = "take (nat threshold) (sort_addresses (gm_keys sigs))"
  have ok: "gm_ok sigs" using assms(2) unfolding distinct_map [of "AddressToFr L"] gm_ok_def by simp
  have mul: "ScalarMulG1 L q (Some k) = Inr (enc1 L (k * h))" for k
    by (simp add: h L ScalarMulG1_den)
  have den: "den1 L (sig_at sigs a) (peval ?p (AddressToFr L a) * h)" if a: "a \<in> set (gm_keys sigs)" for a
  proof -
    obtain p where p: "(a, p) \<in> set sigs" using a by auto
    then have "p = enc1 L (peval ?p (AddressToFr L a) * h)"
      using assms(6) mul L(5) by (auto simp: EvaluatePolynomial_def fr_laws_def)
    with p show ?thesis by (simp add: sig_at_def gm_get_eq_Some [OF ok, THEN iffD2] L)
  qed
  have "(\<Sum>a\<leftarrow>?ps. ComputeLagrangeCoefficient L a ?ps * (peval ?p (AddressToFr L a) * h)) =
      (\<Sum>a\<leftarrow>?ps. ComputeLagrangeCoefficient L a ?ps * peval ?p (AddressToFr L a)) * h"
    by (simp add: sum_list_mult_const mult.assoc flip: sum_list_mult_const)
  also have "\<dots> = secret * h"
    using selected_participants [OF assms(2), of threshold] assms(3,4)
      lagrange_interpolates [of L ?ps ?p] by simp
  finally show ?thesis
    using RecoverAppPrivateKey_scalars [OF L(1) _ assms(4) den, of appID] assms(3)
    by (simp add: mul G1_IsZero_den [OF L(1) den1_intros(1) [OF L(1)]])
qed

lemma recover_from_shares:
  assumes L: "curve_laws L" and nodes: "distinct (map (AddressToFr L) nodes)" "0 < t" "t \<le> int (length nodes)"
    and F: "int (length F) \<le> t" and q: "HashToG1 L appID = Inr q"
    and sigs: "\<And>j. j \<in> set nodes \<Longrightarrow> ScalarMulG1 L q (Some (peval F (AddressToFr L j))) = Inr (sig j)"
  shows "\<exists>key. ScalarMulG1 L q (Some (peval F 0)) = Inr key \<and>
     RecoverAppPrivateKey L appID (map (\<lambda>j. (j, sig j)) nodes) t =
       (if G1_IsZero L key = Inr True then Inl (Errorf ''recovered app private key is zero'') else Inr key)"
proof -
  let ?s = "peval F 0" and ?c = "tl F" and ?sigs = "map (\<lambda>j. (j, sig j)) nodes"
  have ev: "EvaluatePolynomial L (?s # ?c) a = peval F (AddressToFr L a)" for a
    using curve_lawsD(5) [OF L] by (cases F) (simp_all add: EvaluatePolynomial_def fr_laws_def)
  have "distinct (map (AddressToFr L) (gm_keys ?sigs))" using nodes(1) by (simp add: o_def)
  moreover have "int (length (?s # ?c)) \<le> t" using F nodes(2) by (cases F) auto
  moreover have "t \<le> int (length ?sigs)" using nodes(3) by simp
  moreover have "\<forall>(a, p) \<in> set ?sigs. ScalarMulG1 L q (Some (EvaluatePolynomial L (?s # ?c) a)) = Inr p"
    using sigs unfolding ev by auto
  ultimately show ?thesis using recover_app_key [OF L _ _ _ q] by blast
qed

text \<open>
  Recovering an application key: when every operator's partial signature is the hash of the
  application id times its share of a polynomial with at most \<open>threshold\<close> coefficients, then
  \<open>RecoverAppPrivateKey\<close> gives the hash times the shared secret, whatever the order of the map
  and however many more than \<open>threshold\<close> signatures there are; a key that is the point at infinity
  is reported as an error.
\<close>

theorem RecoverAppPrivateKey_correct:
  assumes "curve_laws L" "distinct (map (AddressToFr L) (gm_keys sigs))"
    "int (length (secret # coeffs)) \<le> threshold" "threshold \<le> int (length sigs)"
    "HashToG1 L appID = Inr q"
    "\<forall>(a, p) \<in> set sigs. ScalarMulG1 L q (Some (EvaluatePolynomial L (secret # coeffs) a)) = Inr p"
  shows "\<exists>key. ScalarMulG1 L q (Some secret) = Inr key \<and>
     RecoverAppPrivateKey L appID sigs threshold =
       (if G1_IsZero L key = Inr True then Inl (Errorf ''recovered app private key is zero'')
        else Inr key)"
  using assms by (rule recover_app_key)

text \<open>The secret 5 shared with the polynomial \<open>5 + 2 x\<close>; the hash of a 5-letter id is \<open>6 G\<close>.\<close>

lemma HashToG1_mock: "HashToG1 mock_lib s = Inr (enc1 mock_lib (1 + gf_of_int (int (length s))))"
  by (simp add: HashToG1_def bls_HashToG1_def bls_G1_Marshal_def enc1_def NewPoint_def str_bytes_def
      mock_lib_def)

theorem RecoverAppPrivateKey_correct_witness:
  "RecoverAppPrivateKey mock_lib ''hello'' [(3, enc1 mock_lib (11 * 6)), (1, enc1 mock_lib (7 * 6)),
     (2, enc1 mock_lib (9 * 6))] 2 = Inr (enc1 mock_lib (5 * 6))"
proof -
  note L = mock_lib_laws curve_lawsD [OF mock_lib_laws]
  let ?sigs = "[(3 :: address, enc1 mock_lib (11 * 6)), (1, enc1 mock_lib (7 * 6)), (2, enc1 mock_lib (9 * 6))]"
  have "1 + gf_of_int 5 = 6" by code_simp
  then have q: "HashToG1 mock_lib ''hello'' = Inr (enc1 mock_lib 6)"
    by (simp add: HashToG1_mock)
  have mul: "ScalarMulG1 mock_lib (enc1 mock_lib 6) (Some k) = Inr (enc1 mock_lib (k * 6))" for k
    by (simp add: ScalarMulG1_den L)
  have "distinct (map (AddressToFr mock_lib) (gm_keys ?sigs))" by (simp add: AddressToFr_mock) code_simp
  moreover have ev: "EvaluatePolynomial mock_lib [5, 2] a = 5 + 2 * gf_of_int (uint a)" for a
    by (simp add: EvaluatePolynomial_def AddressToFr_mock) (simp add: mock_lib_def mult.commute)
  have "EvaluatePolynomial mock_lib [5, 2] 1 = 7" "EvaluatePolynomial mock_lib [5, 2] 2 = 9"
    "EvaluatePolynomial mock_lib [5, 2] 3 = 11"
    by (simp_all add: ev) code_simp+
  then have "\<forall>(a, p) \<in> set ?sigs.
      ScalarMulG1 mock_lib (enc1 mock_lib 6) (Some (EvaluatePolynomial mock_lib [5, 2] a)) = Inr p"
    by (simp add: mul)
  ultimately have "\<exists>key. ScalarMulG1 mock_lib (enc1 mock_lib 6) (Some 5) = Inr key \<and>
      RecoverAppPrivateKey mock_lib ''hello'' ?sigs 2 = (if G1_IsZero mock_lib key = Inr True
        then Inl (Errorf ''recovered app private key is zero'') else Inr key)"
    using RecoverAppPrivateKey_correct [OF L(1) _ _ _ q, of ?sigs 5 "[2]" 2] by simp
  moreover have "(5 :: gf) * 6 \<noteq> 0" by code_simp
  ultimately show ?thesis
    by (auto simp: mul G1_IsZero_den [OF L(2) den1_intros(1) [OF L(2)]] split: if_splits)
qed

subsection \<open>Master public key, key check, commitment hashes\<close>

lemma add_commitments:
  assumes "g2_laws L" "den2 L r x" "\<And>cs c. cs \<in> set css \<Longrightarrow> cs \<noteq> [] \<Longrightarrow> den2 L (hd cs) (m cs)"
  shows "\<exists>r'. fold_res (\<lambda>commitments masterPK. case commitments of [] \<Rightarrow> Inr masterPK
           | c0 # _ \<Rightarrow> wrap_err msg (AddG2 L masterPK c0)) css r = Inr r' \<and>
         den2 L r' (x + (\<Sum>cs\<leftarrow>filter (\<lambda>cs. cs \<noteq> []) css. m cs)) \<and>
         (r' = r \<or> r' = enc2 L (x + (\<Sum>cs\<leftarrow>filter (\<lambda>cs. cs \<noteq> []) css. m cs)))"
  using assms(2-)
proof (induction css arbitrary: r x)
  case (Cons cs css)
  show ?case
  proof (cases cs)
    case Nil
    then show ?thesis using Cons.IH [OF Cons.prems(1)] Cons.prems(2) by simp
  next
    case (Cons c0 cs')
    have "AddG2 L r c0 = Inr (enc2 L (x + m cs))"
      using AddG2_den [OF assms(1) Cons.prems(1)] Cons.prems(2) [of cs] Cons by simp
    then show ?thesis
      using Cons.IH [OF den2_intros(1) [OF assms(1), of "x + m cs"]] Cons.prems(2) Cons
      by (auto simp: add.assoc assms(1))
  qed
qed simp

lemma ComputeMasterPublicKey_den:
  assumes "curve_laws L" "\<forall>cs \<in> set css. cs \<noteq> [] \<longrightarrow> den2 L (hd cs) (s cs)"
  shows "ComputeMasterPublicKey L css =
     (let total = (\<Sum>cs\<leftarrow>filter (\<lambda>cs. cs \<noteq> []) css. s cs)
      in if total = 0 then Inl (Errorf ''computed master public key is zero'') else Inr (enc2 L total))"
proof -
  note L = curve_lawsD [OF assms(1)]
  let ?t = "\<Sum>cs\<leftarrow>filter (\<lambda>cs. cs \<noteq> []) css. s cs"
  obtain r where r: "fold_res (\<lambda>commitments masterPK. case commitments of [] \<Rightarrow> Inr masterPK
         | c0 # _ \<Rightarrow> wrap_err ''failed to add commitment at index'' (AddG2 L masterPK c0))
       css (ZeroG2Point L) = Inr r" "den2 L r ?t" "r = ZeroG2Point L \<or> r = enc2 L ?t"
    using add_commitments [OF L(2) den2_intros(2) [OF L(2)], of css s] assms(2) by auto
  have "?t = 0" if "r = ZeroG2Point L"
    using r(2) that den2_unique [OF L(2) den2_intros(2) [OF L(2)]] by simp
  then show ?thesis
    using r by (auto simp: ComputeMasterPublicKey_def G2_IsZero_den [OF L(2) r(2)] Let_def)
qed

text \<open>
  The master public key is the sum of the constant-term commitments: over dealers whose first
  commitments denote the scalars \<open>s\<close>, \<open>ComputeMasterPublicKey\<close> gives the compressed point of
  the sum of the \<open>s\<close>, skipping dealers without commitments, and reports a zero sum as an error.
\<close>

theorem ComputeMasterPublicKey_sum:
  assumes "curve_laws L" "\<forall>cs \<in> set css. cs \<noteq> [] \<longrightarrow> den2 L (hd cs) (s cs)"
  shows "ComputeMasterPublicKey L css =
     (let total = (\<Sum>cs\<leftarrow>filter (\<lambda>cs. cs \<noteq> []) css. s cs)
      in if total = 0 then Inl (Errorf ''computed master public key is zero'') else Inr (enc2 L total))"
  using assms by (rule ComputeMasterPublicKey_den)

theorem ComputeMasterPublicKey_sum_witness:
  "ComputeMasterPublicKey mock_lib [[enc2 mock_lib 4], [], [enc2 mock_lib 9, enc2 mock_lib 1]] =
     Inr (enc2 mock_lib 13)"
proof -
  note L = mock_lib_laws curve_lawsD(2) [OF mock_lib_laws]
  have ne: "(4 :: gf) \<noteq> 9" "(4 :: gf) + 9 \<noteq> 0" "(4 :: gf) + 9 = 13" by code_simp+
  show ?thesis
    using ComputeMasterPublicKey_sum [OF L(1), of "[[enc2 mock_lib 4], [], [enc2 mock_lib 9, enc2 mock_lib 1]]"
        "\<lambda>cs. if hd cs = enc2 mock_lib 4 then 4 else 9"] L(2) ne
    by simp
qed

text \<open>
  \<open>VerifyAppPrivateKey\<close> decides whether a key is the one the master key gives: for an
  application key denoting \<open>x\<close>, a master public key denoting \<open>s\<close> and the hash of the
  application id denoting \<open>h\<close>, it answers whether \<open>x = s * h\<close>.
\<close>

theorem VerifyAppPrivateKey_iff:
  assumes "curve_laws L" "HashToG1 L appID = Inr q" "den1 L q h" "den1 L key x" "den2 L mpk s"
  shows "VerifyAppPrivateKey L appID key mpk = Inr (x = s * h)"
proof -
  note L = curve_lawsD [OF assms(1)]
  have "bls12381_PairingCheck L [mul1 L x, mul1 L (- h)] [mul2 L 1, mul2 L s] = Some (x * 1 + - h * s = 0)"
    using L(3) unfolding pairing_laws_def by blast
  then show ?thesis
    by (simp add: VerifyAppPrivateKey_def assms(2) den1_FromCompressedBytes [OF assms(3)]
        den1_FromCompressedBytes [OF assms(4)] den2_FromCompressedBytes [OF assms(5)]
        den2_FromCompressedBytes [OF den2_intros(1) [OF L(2)]] G2Generator_enc2 [OF L(2)] ToAffine_def
        g1_lawsD(12) [OF L(1)]) (simp add: mult.commute)
qed

theorem VerifyAppPrivateKey_iff_witness:
  "VerifyAppPrivateKey mock_lib ''hello'' (enc1 mock_lib 30) (enc2 mock_lib 5) = Inr True"
proof -
  note L = mock_lib_laws curve_lawsD [OF mock_lib_laws]
  have "(30 :: gf) = 5 * (1 + gf_of_int (int (length ''hello'')))" by code_simp
  then show ?thesis
    using VerifyAppPrivateKey_iff [OF L(1) HashToG1_mock den1_intros(1) [OF L(2)]
        den1_intros(1) [OF L(2), of 30] den2_intros(1) [OF L(3), of 5], of "''hello''"] by simp
qed

lemma concat_chunks_inj:
  assumes "concat (map f xs) = concat (map f ys)" "\<And>x. x \<in> set xs \<union> set ys \<Longrightarrow> length (f x) = n" "0 < n"
    "inj f"
  shows "xs = ys"
  using assms(1,2)
proof (induction xs arbitrary: ys)
  case Nil
  then show ?case using assms(3) by (cases ys) auto
next
  case (Cons x xs)
  show ?case
  proof (cases ys)
    case Nil
    then show ?thesis using Cons.prems assms(3) by auto
  next
    case (Cons y ys')
    then show ?thesis
      using Cons.prems Cons.IH [of ys'] assms(4) by (auto simp: append_eq_append_conv inj_def)
  qed
qed

lemma HashReshareCommitment_eq_iff:
  assumes "\<forall>c \<in> set cs \<union> set cs'. length (g2_CompressedBytes c) = 96" "int64_range v" "int64_range v'"
    "inj_on (sha256 L) {concat (map g2_CompressedBytes cs) @ put_uint64 v,
       concat (map g2_CompressedBytes cs') @ put_uint64 v'}"
  shows "HashReshareCommitment L cs v = HashReshareCommitment L cs' v' \<longleftrightarrow> cs = cs' \<and> v = v'"
proof -
  have inj: "inj g2_CompressedBytes" by (simp add: inj_def G2Point.expand)
  have "concat (map g2_CompressedBytes cs) = concat (map g2_CompressedBytes cs') \<longleftrightarrow> cs = cs'"
    using concat_chunks_inj [of g2_CompressedBytes cs cs' 96] assms(1) inj by auto
  then show ?thesis
    using assms(4) put_uint64_inj [OF _ assms(2,3)]
    by (auto simp: HashReshareCommitment_def inj_on_def append_eq_append_conv)
qed

text \<open>
  The on-chain reshare commitment binds the commitments and the source version: for dealers with
  well-formed (96-byte) commitments, two \<open>HashReshareCommitment\<close> values agree only for the same
  commitments and the same source version, and no \<open>HashReshareCommitment\<close> is a
  \<open>HashCommitment\<close>, as long as SHA-256 does not collide on these inputs.
\<close>

theorem HashReshareCommitment_binding:
  assumes "\<forall>c \<in> set cs \<union> set cs'. length (g2_CompressedBytes c) = 96" "int64_range v" "int64_range v'"
    "inj_on (sha256 L) {concat (map g2_CompressedBytes cs) @ put_uint64 v,
       concat (map g2_CompressedBytes cs') @ put_uint64 v', concat (map g2_CompressedBytes cs')}"
  shows "(HashReshareCommitment L cs v = HashReshareCommitment L cs' v' \<longleftrightarrow> cs = cs' \<and> v = v') \<and>
         HashReshareCommitment L cs v \<noteq> HashCommitment L cs'"
proof -
  have len: "length (concat (map g2_CompressedBytes ds)) mod 96 = 0"
    if "\<forall>c \<in> set ds. length (g2_CompressedBytes c) = 96" for ds
    using that by (induction ds) auto
  have "concat (map g2_CompressedBytes cs) @ put_uint64 v \<noteq> concat (map g2_CompressedBytes cs')"
  proof
    assume e: "concat (map g2_CompressedBytes cs) @ put_uint64 v = concat (map g2_CompressedBytes cs')"
    have "(length (concat (map g2_CompressedBytes cs)) + 8) mod 96 = 0"
      using len [of cs'] assms(1) arg_cong [OF e, of length] by simp
    with len [of cs] assms(1) show False by (simp add: mod_add_left_eq [symmetric] del: mod_add_left_eq)
  qed
  then have "HashReshareCommitment L cs v \<noteq> HashCommitment L cs'"
    using assms(4) by (auto simp: HashReshareCommitment_def HashCommitment_def inj_on_def)
  moreover have "inj_on (sha256 L) {concat (map g2_CompressedBytes cs) @ put_uint64 v,
       concat (map g2_CompressedBytes cs') @ put_uint64 v'}"
    using assms(4) by (rule inj_on_subset) auto
  ultimately show ?thesis using HashReshareCommitment_eq_iff [OF assms(1-3)] by blast
qed

theorem HashReshareCommitment_binding_witness:
  "(HashReshareCommitment mock_lib [enc2 mock_lib 3] 7 = HashReshareCommitment mock_lib [enc2 mock_lib 4] 7
      \<longleftrightarrow> [enc2 mock_lib 3] = [enc2 mock_lib 4] \<and> (7 :: int) = 7) \<and>
   HashReshareCommitment mock_lib [enc2 mock_lib 3] 7 \<noteq> HashCommitment mock_lib [enc2 mock_lib 4]"
proof -
  have "length (g2_CompressedBytes (enc2 mock_lib x)) = 96" for x
    using g2_lawsD(10) [OF curve_lawsD(2) [OF mock_lib_laws]] by (simp add: enc2_def)
  moreover have "inj_on (sha256 mock_lib) A" for A by (simp add: mock_lib_def)
  ultimately show ?thesis
    by (intro HashReshareCommitment_binding) (simp_all add: int64_range_def del: inj_on_insert)
qed

end
