(* ===== verification/Recovery.thy ===== *)
theory Recovery
  imports Crypto
begin

text \<open>
  \<open>pkg/crypto/bls.go\<close>, \<open>RecoverAppPrivateKeyWithRetry\<close>: the search over the
  \<open>threshold\<close>-element subsets of the operators, in lexicographic order of their indices and with
  a bound on the attempts, and the capped binomial coefficient it reports. The lemmas show that the
  step to the next combination is the immediate successor, hence that the search ends, returns only
  validated keys, and finds one whenever some subset gives one and the bound covers all subsets.
\<close>

subsection \<open>The capped binomial coefficient\<close>

text \<open>Go's integer division and remainder truncate towards zero; \<open>int64\<close> products wrap.\<close>

definition go_div :: "int \<Rightarrow> int \<Rightarrow> int" where
  "go_div a b = sgn a * sgn b * (\<bar>a\<bar> div \<bar>b\<bar>)"

definition go_mod :: "int \<Rightarrow> int \<Rightarrow> int" where
  "go_mod a b = a - b * go_div a b"

lemma go_div_nonneg [simp]: "0 \<le> a \<Longrightarrow> 0 \<le> b \<Longrightarrow> go_div a b = a div b"
  by (auto simp: go_div_def sgn_if)

lemma go_mod_nonneg [simp]: "0 \<le> a \<Longrightarrow> 0 \<le> b \<Longrightarrow> go_mod a b = a mod b"
  by (simp add: go_mod_def minus_mult_div_eq_mod)

lemma abs_go_mod: "go_mod a b = sgn a * (\<bar>a\<bar> mod \<bar>b\<bar>)"
proof -
  have "a = sgn a * \<bar>a\<bar>" "b * sgn b = \<bar>b\<bar>" by (simp_all add: sgn_if)
  then have "go_mod a b = sgn a * \<bar>a\<bar> - sgn a * (\<bar>b\<bar> * (\<bar>a\<bar> div \<bar>b\<bar>))"
    unfolding go_mod_def go_div_def by (metis (no_types, lifting) mult.assoc mult.left_commute)
  then show ?thesis by (simp add: minus_mult_div_eq_mod flip: right_diff_distrib)
qed

function gcd_go :: "int \<Rightarrow> int \<Rightarrow> int" where
  "gcd_go a b = (if b \<noteq> 0 then gcd_go b (go_mod a b) else a)"
  by auto

termination
proof (relation "measure (\<lambda>(a, b). nat \<bar>b\<bar>)")
  fix a b :: int
  assume "b \<noteq> 0"
  then have "\<bar>go_mod a b\<bar> < \<bar>b\<bar>"
    by (simp add: abs_go_mod abs_mult abs_sgn_eq)
  then show "((b, go_mod a b), a, b) \<in> measure (\<lambda>(a, b). nat \<bar>b\<bar>)" by simp
qed simp

declare gcd_go.simps [simp del]

function binomial_loop :: "int \<Rightarrow> int \<Rightarrow> int \<Rightarrow> int \<Rightarrow> int" where
  "binomial_loop n k i result =
     (if i < k then
        let g = gcd_go result (i + 1);
            product = to_int64 (go_div result g * go_div (n - i) (go_div (i + 1) g))
        in if product > 1000000000 then 1000000000 else binomial_loop n k (i + 1) product
      else result)"
  by auto

termination
  by (relation "measure (\<lambda>(n, k, i, result). nat (k - i))") auto

declare binomial_loop.simps [simp del]

definition binomial_go :: "int \<Rightarrow> int \<Rightarrow> int" where
  "binomial_go n k =
     (if k > n \<or> k < 0 then 0
      else if k = 0 \<or> k = n then 1
      else binomial_loop n (if k > n - k then n - k else k) 0 1)"

lemma gcd_go_gcd: "0 \<le> a \<Longrightarrow> 0 \<le> b \<Longrightarrow> gcd_go a b = gcd a b"
proof (induction a b rule: gcd_go.induct)
  case (1 a b)
  then show ?case by (subst gcd_go.simps) (auto simp: gcd_red_int [of a b])
qed

text \<open>The division in each round is exact.\<close>

lemma exact_step:
  assumes "r * m = d * c" "d > 0"
  shows "r div gcd r d * (m div (d div gcd r d)) = (c :: nat)"
proof -
  define g where "g = gcd r d"
  have g: "g > 0" using assms(2) by (simp add: g_def)
  obtain r' d' where rd: "r = r' * g" "d = d' * g" and cop: "coprime r' d'"
    using gcd_coprime_exists [of r d] g unfolding g_def by (metis less_not_refl)
  have eq: "r' * m = d' * c" using assms(1) g rd by (simp add: ac_simps)
  then have "d' dvd m" using cop by (metis coprime_commute coprime_dvd_mult_right_iff dvd_triv_left)
  then obtain m' where m: "m = d' * m'" by (elim dvdE)
  have "r div g = r'" "d div g = d'" "0 < d'" using g rd assms(2) by simp_all
  then show ?thesis unfolding g_def [symmetric] using m eq by simp
qed

lemma choose_step: "(n choose i) * (n - i) = Suc i * (n choose Suc i)"
  by (metis binomial_absorb_comp binomial_absorption mult.commute)

lemma binomial_loop_choose:
  assumes "i \<le> k" "2 * k \<le> n" "n < 2 ^ 33" "n choose i \<le> 1000000000"
  shows "binomial_loop (int n) (int k) (int i) (int (n choose i)) = int (min (n choose k) 1000000000)"
  using assms
proof (induction "k - i" arbitrary: i)
  case 0
  then show ?case by (subst binomial_loop.simps) simp
next
  case (Suc d)
  let ?r = "n choose i" and ?g = "gcd (n choose i) (Suc i)"
  have nat: "?r div ?g * ((n - i) div (Suc i div ?g)) = n choose Suc i"
    using choose_step by (rule exact_step) simp
  have int: "int ?r div gcd (int ?r) (int i + 1) * ((int n - int i) div ((int i + 1) div gcd (int ?r) (int i + 1)))
      = int (n choose Suc i)"
  proof -
    have "int i + 1 = int (Suc i)" "int n - int i = int (n - i)" using Suc by auto
    then show ?thesis by (simp only: gcd_int_int_eq flip: zdiv_int of_nat_mult) (simp only: nat)
  qed
  have "n choose Suc i \<le> ?r * (n - i)" using choose_step [of n i] by simp
  also have "\<dots> \<le> 1000000000 * 2 ^ 33" using Suc.prems by (intro mult_mono) auto
  finally have "int64_range (int (n choose Suc i))" by (simp add: int64_range_def)
  moreover have "0 \<le> int ?r div gcd (int ?r) (int i + 1)" "0 \<le> (int i + 1) div gcd (int ?r) (int i + 1)"
    by (simp_all add: pos_imp_zdiv_nonneg_iff)
  ultimately have product: "to_int64 (go_div (int ?r) (gcd_go (int ?r) (int i + 1)) *
      go_div (int n - int i) (go_div (int i + 1) (gcd_go (int ?r) (int i + 1)))) = int (n choose Suc i)"
    using Suc.prems by (simp add: gcd_go_gcd int)
  have mono: "n choose Suc i \<le> n choose k"
    using Suc.prems Suc.hyps(2) by (intro binomial_mono) auto
  show ?case
    using Suc product mono Suc.hyps(1) [of "Suc i"]
    by (subst binomial_loop.simps) (auto simp: Let_def min_def algebra_simps)
qed

text \<open>
  \<open>binomial\<close> is the binomial coefficient capped at one billion, without overflow of its 64-bit
  intermediate product, for up to \<open>2 ^ 33\<close> operators; outside \<open>0 \<le> k \<le> n\<close> it is zero.
\<close>

theorem binomial_go_choose:
  assumes "0 \<le> n" "n < 2 ^ 33"
  shows "binomial_go n k = (if 0 \<le> k then min (int (nat n choose nat k)) 1000000000 else 0)"
proof (cases "0 < k \<and> k < n")
  case True
  define k' where "k' = (if k > n - k then n - k else k)"
  have k': "0 \<le> k'" "2 * k' \<le> n" using True by (auto simp: k'_def)
  have "binomial_loop (int (nat n)) (int (nat k')) (int 0) (int (nat n choose 0)) =
      int (min (nat n choose nat k') 1000000000)"
    by (rule binomial_loop_choose) (use k' assms in auto)
  moreover have "nat n choose nat k' = nat n choose nat k"
    using True by (auto simp: k'_def nat_diff_distrib intro!: binomial_symmetric [symmetric])
  moreover have "binomial_go n k = binomial_loop n k' 0 1"
    using True by (simp add: binomial_go_def k'_def)
  ultimately show ?thesis using True assms k' by (simp add: min_def)
next
  case False
  then show ?thesis using assms(1)
    by (auto simp: binomial_go_def binomial_eq_0 nat_less_iff not_less)
qed

theorem binomial_go_choose_witness:
  "binomial_go 21 14 = (if 0 \<le> (14 :: int) then min (int (nat 21 choose nat 14)) 1000000000 else 0)"
  by (rule binomial_go_choose) simp_all

subsection \<open>The search over combinations\<close>

text \<open>
  \<open>last_movable n k ind i\<close>: the loop \<open>for i >= 0 && indices[i] == n-threshold+i\<close>, from index
  \<open>i - 1\<close> downwards; \<open>None\<close> is \<open>i < 0\<close>. \<open>next_combination\<close> increments that index and
  refills the ones after it.
\<close>

fun last_movable :: "nat \<Rightarrow> nat \<Rightarrow> nat list \<Rightarrow> nat \<Rightarrow> nat option" where
  "last_movable n k ind 0 = None"
| "last_movable n k ind (Suc i) = (if ind ! i = n - k + i then last_movable n k ind i else Some i)"

definition next_combination :: "nat \<Rightarrow> nat \<Rightarrow> nat list \<Rightarrow> nat list option" where
  "next_combination n k ind =
     (case last_movable n k ind k of
        None \<Rightarrow> None
      | Some i \<Rightarrow> Some (fold (\<lambda>j ind. ind[j := ind ! (j - 1) + 1]) [Suc i..<k] (ind[i := ind ! i + 1])))"

datatype 'a search = Found 'a | Exhausted nat | CapReached nat

text \<open>The main loop; \<open>attempts\<close> counts the rounds made so far.\<close>

function search_loop ::
  "(address list \<Rightarrow> 'a option) \<Rightarrow> address list \<Rightarrow> nat \<Rightarrow> nat \<Rightarrow> nat \<Rightarrow> nat list \<Rightarrow> 'a search" where
  "search_loop trySubset all k maxAttempts attempts ind =
     (case trySubset (map ((!) all) ind) of
        Some recovered \<Rightarrow> Found recovered
      | None \<Rightarrow>
          if attempts + 1 \<ge> maxAttempts then CapReached (attempts + 1)
          else case next_combination (length all) k ind of
                 None \<Rightarrow> Exhausted (attempts + 1)
               | Some ind' \<Rightarrow> search_loop trySubset all k maxAttempts (attempts + 1) ind')"
  by auto

termination
  by (relation "measure (\<lambda>(t, all, k, m, a, ind). m - a)") auto

declare search_loop.simps [simp del]

definition trySubset ::
  "('f :: field, 'g1, 'g2, 'gt) lib \<Rightarrow> string \<Rightarrow> (address, G1Point) gomap \<Rightarrow> int \<Rightarrow>
   (G1Point \<Rightarrow> bool) \<Rightarrow> address list \<Rightarrow> G1Point option" where
  "trySubset L appID partialSigs threshold validate subsetAddrs =
     (let subsetSigs = fold (\<lambda>addr m. gm_set m addr (sig_at partialSigs addr)) subsetAddrs [] in
      case RecoverAppPrivateKey L appID subsetSigs threshold of
        Inl _ \<Rightarrow> None
      | Inr recovered \<Rightarrow> if validate recovered then Some recovered else None)"

definition recoverAppPrivateKeyWithRetry ::
  "('f :: field, 'g1, 'g2, 'gt) lib \<Rightarrow> string \<Rightarrow> (address, G1Point) gomap \<Rightarrow> int \<Rightarrow>
   (G1Point \<Rightarrow> bool) \<Rightarrow> nat \<Rightarrow> G1Point res" where
  "recoverAppPrivateKeyWithRetry L appID partialSigs threshold validate maxAttempts =
     (if int (length partialSigs) < threshold then Inl (Errorf ''insufficient partial signatures'')
      else if threshold < 0 then Inl (Panic ''makeslice: len out of range'')
      else case search_loop (trySubset L appID partialSigs threshold validate)
                  (sort_addresses (gm_keys partialSigs)) (nat threshold) maxAttempts 0
                  [0..<nat threshold] of
             Found recovered \<Rightarrow> Inr recovered
           | Exhausted attempts \<Rightarrow>
               Inl (Errorf ''failed to recover valid app private key: all combinations exhausted'')
           | CapReached attempts \<Rightarrow>
               Inl (Errorf ''failed to recover valid app private key: attempt cap reached''))"

definition DefaultMaxRecoveryAttempts :: nat where
  "DefaultMaxRecoveryAttempts = 1000"

definition RecoverAppPrivateKeyWithRetry ::
  "('f :: field, 'g1, 'g2, 'gt) lib \<Rightarrow> string \<Rightarrow> (address, G1Point) gomap \<Rightarrow> int \<Rightarrow>
   (G1Point \<Rightarrow> bool) \<Rightarrow> G1Point res" where
  "RecoverAppPrivateKeyWithRetry L appID partialSigs threshold validate =
     recoverAppPrivateKeyWithRetry L appID partialSigs threshold validate DefaultMaxRecoveryAttempts"

subsection \<open>The step is the immediate lexicographic successor\<close>

definition combination :: "nat \<Rightarrow> nat \<Rightarrow> nat list \<Rightarrow> bool" where
  "combination n k c \<longleftrightarrow> length c = k \<and> sorted_wrt (<) c \<and> set c \<subseteq> {..<n}"

definition lex_less :: "nat list \<Rightarrow> nat list \<Rightarrow> bool" where
  "lex_less c d \<longleftrightarrow> (\<exists>p < length c. (\<forall>j < p. c ! j = d ! j) \<and> c ! p < d ! p)"

lemma lex_less_trans: "length c = length d \<Longrightarrow> lex_less c d \<Longrightarrow> lex_less d e \<Longrightarrow> lex_less c e"
proof -
  assume "length c = length d" "lex_less c d" "lex_less d e"
  then obtain p q where p: "p < length c" "\<forall>j < p. c ! j = d ! j" "c ! p < d ! p"
    and q: "q < length c" "\<forall>j < q. d ! j = e ! j" "d ! q < e ! q" by (auto simp: lex_less_def)
  then show "lex_less c e"
    unfolding lex_less_def by (intro exI [of _ "min p q"]) (cases p q rule: linorder_cases; auto)
qed

lemma lex_less_irrefl: "\<not> lex_less c c"
  by (auto simp: lex_less_def)

text \<open>A pointwise larger list that is not equal is lexicographically larger.\<close>

lemma lex_less_pointwise:
  assumes "length c = length d" "\<And>j. j < length c \<Longrightarrow> c ! j \<le> d ! j" "c \<noteq> d"
  shows "lex_less c d"
proof -
  obtain j where "j < length c \<and> c ! j \<noteq> d ! j" using assms(1,3) by (auto simp: list_eq_iff_nth_eq)
  then obtain p where "p < length c" "c ! p \<noteq> d ! p" "\<forall>j < p. \<not> (j < length c \<and> c ! j \<noteq> d ! j)"
    using exists_least_iff [of "\<lambda>j. j < length c \<and> c ! j \<noteq> d ! j"] by blast
  then show ?thesis using assms(2) [of p] unfolding lex_less_def by (intro exI [of _ p]) auto
qed

lemma combination_gap:
  assumes "combination n k c" "i \<le> j" "j < k"
  shows "c ! i + (j - i) \<le> c ! j"
  using assms(2,3)
proof (induction "j - i" arbitrary: j)
  case (Suc d)
  then have "c ! i + (j - 1 - i) \<le> c ! (j - 1)" by (cases j) auto
  moreover have "c ! (j - 1) < c ! j"
    using assms(1) Suc.hyps(2) Suc.prems by (auto simp: combination_def sorted_wrt_iff_nth_less)
  ultimately show ?case using Suc.hyps(2) by simp
qed auto

lemma combination_bounds:
  assumes "combination n k c" "j < k" shows "j \<le> c ! j" "c ! j + (k - j) \<le> n"
proof -
  show "j \<le> c ! j" using combination_gap [OF assms(1), of 0 j] assms(2) by simp
  have "c ! (k - 1) \<in> set c" using assms by (intro nth_mem) (simp add: combination_def)
  then have "c ! (k - 1) < n" using assms(1) by (auto simp: combination_def)
  then show "c ! j + (k - j) \<le> n"
    using combination_gap [OF assms(1), of j "k - 1"] assms(2) by linarith
qed

lemma combination_le: "combination n k c \<Longrightarrow> k \<le> n"
  using combination_bounds(2) [of n k c 0] by (cases k) auto

lemma last_movable_Some:
  "last_movable n k ind m = Some i \<Longrightarrow>
     i < m \<and> ind ! i \<noteq> n - k + i \<and> (\<forall>j. i < j \<and> j < m \<longrightarrow> ind ! j = n - k + j)"
  by (induction m) (auto split: if_splits simp: less_Suc_eq)

lemma last_movable_None: "last_movable n k ind m = None \<Longrightarrow> \<forall>j < m. ind ! j = n - k + j"
  by (induction m) (auto split: if_splits simp: less_Suc_eq)

lemma refill:
  assumes "i < length ind" "m \<le> length ind"
  defines "r \<equiv> fold (\<lambda>j ind. ind[j := ind ! (j - 1) + 1]) [Suc i..<m] ind"
  shows "length r = length ind \<and> (\<forall>j < length ind. r ! j = (if i < j \<and> j < m then ind ! i + (j - i) else ind ! j))"
  using assms(2) unfolding r_def
proof (induction m)
  case (Suc m)
  then show ?case
  proof (cases "i < m")
    case True
    then have "[Suc i..<Suc m] = [Suc i..<m] @ [m]" by simp
    with Suc True show ?thesis
      by (cases "i = m - 1") (auto simp: nth_list_update less_Suc_eq Suc_diff_le)
  qed (use Suc assms(1) in auto)
qed simp

text \<open>The entries of the next combination: unchanged, incremented, refilled.\<close>

lemma next_combination_nth:
  assumes "next_combination n k c = Some c'" "length c = k"
  obtains i where "i < k" "c ! i \<noteq> n - k + i" "\<And>j. i < j \<Longrightarrow> j < k \<Longrightarrow> c ! j = n - k + j"
    "length c' = k" "\<And>j. j < k \<Longrightarrow> c' ! j = (if j < i then c ! j else c ! i + 1 + (j - i))"
proof -
  obtain i where lm: "last_movable n k c k = Some i"
    and c': "c' = fold (\<lambda>j ind. ind[j := ind ! (j - 1) + 1]) [Suc i..<k] (c[i := c ! i + 1])"
    using assms(1) by (auto simp: next_combination_def split: option.splits)
  note i = last_movable_Some [OF lm]
  show thesis
    using refill [of i "c[i := c ! i + 1]" k] i assms(2)
    by (intro that [of i]) (auto simp: c' nth_list_update)
qed

lemma next_combination_valid:
  assumes "combination n k c" "next_combination n k c = Some c'"
  shows "combination n k c'" "lex_less c c'"
    "\<And>t. combination n k t \<Longrightarrow> lex_less c t \<Longrightarrow> t = c' \<or> lex_less c' t"
proof -
  have len: "length c = k" using assms(1) by (simp add: combination_def)
  obtain i where i: "i < k" "c ! i \<noteq> n - k + i" and max: "\<And>j. i < j \<Longrightarrow> j < k \<Longrightarrow> c ! j = n - k + j"
    and len': "length c' = k"
    and nth: "\<And>j. j < k \<Longrightarrow> c' ! j = (if j < i then c ! j else c ! i + 1 + (j - i))"
    using next_combination_nth [OF assms(2) len] by blast
  have room: "c ! i + 1 + (k - i) \<le> n"
    using combination_bounds(2) [OF assms(1) i(1)] i(2) combination_le [OF assms(1)] i(1) by linarith
  have inc: "c ! a < c ! b" if "a < b" "b < k" for a b
    using assms(1) that len by (auto simp: combination_def sorted_wrt_iff_nth_less)
  have "c' ! a < c' ! b" if "a < b" "b < k" for a b
    using that nth [of a] nth [of b] inc [of a b] inc [of a i] i(1) by auto
  moreover have "c' ! j < n" if "j < k" for j
    using nth [OF that] room that i(1) combination_bounds(2) [OF assms(1) that] by (auto split: if_splits)
  ultimately show "combination n k c'"
    using len' by (auto simp: combination_def sorted_wrt_iff_nth_less in_set_conv_nth)
  show "lex_less c c'"
    unfolding lex_less_def using i(1) len nth by (intro exI [of _ i]) auto
  fix t assume t: "combination n k t" "lex_less c t"
  then obtain p where p: "p < k" "\<forall>j < p. c ! j = t ! j" "c ! p < t ! p"
    using len by (auto simp: lex_less_def)
  have "c ! p \<noteq> n - k + p"
    using p(1,3) combination_bounds(2) [OF t(1) p(1)] combination_le [OF t(1)] by linarith
  with max p(1) have "p \<le> i" by (meson not_le)
  show "t = c' \<or> lex_less c' t"
  proof (cases "p < i \<or> c ! i + 1 < t ! i")
    case True
    with \<open>p \<le> i\<close> p nth i(1) len' show ?thesis
      unfolding lex_less_def by (intro disjI2 exI [of _ p]) (cases "p = i", auto)
  next
    case False
    with \<open>p \<le> i\<close> p(3) have pi: "p = i" "t ! i = c ! i + 1" by auto
    have "c' ! j \<le> t ! j" if "j < length c'" for j
    proof (cases "j < i")
      case True
      with that len' have "c' ! j = c ! j" by (simp add: nth)
      with True p(2) pi(1) show ?thesis by simp
    next
      case False
      with that len' have "c' ! j = t ! i + (j - i)" by (simp add: nth pi(2))
      with False combination_gap [OF t(1), of i j] that len' show ?thesis by simp
    qed
    then show ?thesis
      using lex_less_pointwise [of c' t] len' t(1) by (auto simp: combination_def)
  qed
qed

lemma next_combination_None:
  assumes "next_combination n k c = None" "combination n k c" "combination n k t"
  shows "\<not> lex_less c t"
proof
  assume "lex_less c t"
  then obtain p where p: "p < k" "c ! p < t ! p" using assms(2) by (auto simp: lex_less_def combination_def)
  have "c ! p = n - k + p"
    using assms(1) p(1) by (auto simp: next_combination_def split: option.splits dest: last_movable_None)
  then show False
    using combination_bounds(2) [OF assms(3) p(1)] p combination_le [OF assms(3)] by linarith
qed

subsection \<open>The search visits every combination\<close>

definition later :: "nat \<Rightarrow> nat \<Rightarrow> nat list \<Rightarrow> nat list set" where
  "later n k c = {t. combination n k t \<and> lex_less c t}"

lemma combinations_eq: "{c. combination n k c} = sorted_list_of_set ` {B. B \<subseteq> {..<n} \<and> card B = k}"
proof (intro equalityI subsetI)
  fix c assume "c \<in> {c. combination n k c}"
  then have "sorted_list_of_set (set c) = c" "set c \<subseteq> {..<n}" "card (set c) = k"
    by (auto simp: combination_def strict_sorted_iff distinct_card sorted_list_of_set.idem_if_sorted_distinct)
  then show "c \<in> sorted_list_of_set ` {B. B \<subseteq> {..<n} \<and> card B = k}" by (metis (mono_tags) image_eqI mem_Collect_eq)
next
  fix c assume "c \<in> sorted_list_of_set ` {B. B \<subseteq> {..<n} \<and> card B = k}"
  then show "c \<in> {c. combination n k c}"
    by (auto simp: combination_def finite_subset strict_sorted_iff dest: finite_subset [OF _ finite_lessThan])
qed

lemma card_combinations: "finite {c. combination n k c} \<and> card {c. combination n k c} = n choose k"
proof -
  have fin: "finite {B. B \<subseteq> {..<n} \<and> card B = k}" by simp
  have "inj_on sorted_list_of_set {B. B \<subseteq> {..<n} \<and> card B = k}"
    by (rule inj_onI) (metis (mono_tags, lifting) finite_lessThan finite_subset mem_Collect_eq set_sorted_list_of_set)
  then show ?thesis
    unfolding combinations_eq using fin n_subsets [of "{..<n}" k] by (simp add: card_image)
qed

lemma finite_later [simp]: "finite (later n k c)"
  using card_combinations [of n k] by (auto simp: later_def intro: finite_subset)

lemma later_next:
  assumes "combination n k c" "next_combination n k c = Some c'"
  shows "later n k c = insert c' (later n k c')" "c' \<notin> later n k c'"
proof -
  note v = next_combination_valid [OF assms]
  have len: "length c = length c'" using assms(1) v(1) by (simp add: combination_def)
  show "later n k c = insert c' (later n k c')"
    using v lex_less_trans [OF len v(2)] by (auto simp: later_def)
  show "c' \<notin> later n k c'" by (simp add: later_def lex_less_irrefl)
qed

text \<open>
  With enough attempts left for the current and all later combinations, the search gives what some
  of them gives, and is exhausted when none of them gives anything.
\<close>

lemma search_loop_complete:
  assumes "combination (length all) k c" "attempts + 1 + card (later (length all) k c) \<le> maxAttempts"
  shows "case search_loop t all k maxAttempts attempts c of
       Found r \<Rightarrow> \<exists>d \<in> insert c (later (length all) k c). t (map ((!) all) d) = Some r
     | _ \<Rightarrow> \<forall>d \<in> insert c (later (length all) k c). t (map ((!) all) d) = None"
  using assms
proof (induction "card (later (length all) k c)" arbitrary: c attempts rule: less_induct)
  case less
  show ?case
  proof (cases "next_combination (length all) k c")
    case None
    then have "later (length all) k c = {}"
      using next_combination_None less.prems(1) by (auto simp: later_def)
    then show ?thesis by (subst search_loop.simps) (simp add: None split: option.splits)
  next
    case (Some c')
    note l = later_next [OF less.prems(1) Some] and v = next_combination_valid [OF less.prems(1) Some]
    then have "card (later (length all) k c) = Suc (card (later (length all) k c'))" by simp
    with less.prems(2) have "attempts + 1 < maxAttempts"
      "attempts + 1 + 1 + card (later (length all) k c') \<le> maxAttempts"
      "card (later (length all) k c') < card (later (length all) k c)" by linarith+
    then show ?thesis
      using less.hyps [of c' "attempts + 1"] v(1) l(1)
      by (subst search_loop.simps) (auto simp: Some split: option.splits search.splits)
  qed
qed

text \<open>What the search finds is what some combination gives, however many attempts are left.\<close>

lemma search_loop_found:
  assumes "combination (length all) k c" "search_loop t all k maxAttempts attempts c = Found r"
  shows "\<exists>d. combination (length all) k d \<and> t (map ((!) all) d) = Some r"
  using assms
proof (induction t all k maxAttempts attempts c rule: search_loop.induct)
  case (1 t all k maxAttempts attempts c)
  show ?case
  proof (cases "t (map ((!) all) c)")
    case None
    then obtain c' where c': "next_combination (length all) k c = Some c'" "\<not> attempts + 1 \<ge> maxAttempts"
      "search_loop t all k maxAttempts (attempts + 1) c' = Found r"
      using "1.prems"(2) by (subst (asm) search_loop.simps) (auto split: if_splits option.splits)
    show ?thesis using "1.IH" [OF None c'(2,1) next_combination_valid(1) [OF "1.prems"(1) c'(1)] c'(3)] .
  next
    case (Some x)
    then have "x = r" using "1.prems"(2) by (subst (asm) search_loop.simps) simp
    then show ?thesis using Some "1.prems"(1) by blast
  qed
qed

subsection \<open>The search over sets of operators\<close>

lemma gm_keys_fold_set:
  "distinct (gm_keys m @ ps) \<Longrightarrow> gm_keys (fold (\<lambda>a m. gm_set m a (f a)) ps m) = gm_keys m @ ps"
proof (induction ps arbitrary: m)
  case (Cons a ps)
  then have "gm_get m a = None" by (auto simp: gm_get_eq_None)
  with Cons show ?case by (simp add: gm_set_fresh)
qed simp

text \<open>Key recovery does not depend on the order in which the map holds the signatures.\<close>

lemma RecoverAppPrivateKey_cong:
  assumes "mset (gm_keys m) = mset (gm_keys m')" "\<And>a. a \<in> set (gm_keys m) \<Longrightarrow> sig_at m a = sig_at m' a"
  shows "RecoverAppPrivateKey L appID m threshold = RecoverAppPrivateKey L appID m' threshold"
proof -
  have sorted: "sort_addresses (gm_keys m) = sort_addresses (gm_keys m')"
    unfolding sort_addresses_def by (metis assms(1) mset_sort properties_for_sort sorted_sort)
  have len: "length m = length m'" using arg_cong [OF assms(1), of size] by simp
  have "set (take (nat threshold) (sort_addresses (gm_keys m'))) \<subseteq> set (gm_keys m)"
    using set_take_subset [of "nat threshold" "sort_addresses (gm_keys m)"]
    unfolding sorted by (metis sorted set_sort sort_addresses_def)
  then show ?thesis
    unfolding RecoverAppPrivateKey_def Let_def sorted len
    by (intro if_cong refl arg_cong2 [where f = bind_res] fold_res_cong) (auto simp: assms(2) subset_iff)
qed

definition recovers ::
  "('f :: field, 'g1, 'g2, 'gt) lib \<Rightarrow> string \<Rightarrow> (address, G1Point) gomap \<Rightarrow> int \<Rightarrow>
   (G1Point \<Rightarrow> bool) \<Rightarrow> address set \<Rightarrow> G1Point \<Rightarrow> bool" where
  "recovers L appID sigs threshold validate S key \<longleftrightarrow>
     RecoverAppPrivateKey L appID (filter (\<lambda>(a, _). a \<in> S) sigs) threshold = Inr key \<and> validate key"

lemma trySubset_recovers:
  assumes "gm_ok sigs" "distinct ps" "set ps \<subseteq> set (gm_keys sigs)"
  shows "trySubset L appID sigs threshold validate ps = Some key \<longleftrightarrow>
    recovers L appID sigs threshold validate (set ps) key"
proof -
  let ?m = "fold (\<lambda>a m. gm_set m a (sig_at sigs a)) ps []" and ?f = "filter (\<lambda>(a, _). a \<in> set ps) sigs"
  have keys: "gm_keys ?m = ps" using gm_keys_fold_set [of "[]" ps] assms(2) by simp
  have okf: "gm_ok ?f" using assms(1) by simp
  have "set (gm_keys ?f) = set ps" using assms(3) by force
  then have "mset (gm_keys ?m) = mset (gm_keys ?f)"
    unfolding keys using okf assms(2) by (simp add: set_eq_iff_mset_eq_distinct gm_ok_def del: set_map)
  moreover have "sig_at ?m a = sig_at ?f a" if "a \<in> set (gm_keys ?m)" for a
  proof -
    have a: "a \<in> set ps" using that keys by simp
    with assms(3) obtain p where p: "(a, p) \<in> set sigs" by auto
    then have "gm_get sigs a = Some p" "gm_get ?f a = Some p"
      using a assms(1) okf by (auto simp: gm_get_eq_Some)
    with a show ?thesis by (simp add: sig_at_def gm_get_GenerateShares_aux)
  qed
  ultimately have "RecoverAppPrivateKey L appID ?m threshold = RecoverAppPrivateKey L appID ?f threshold"
    by (rule RecoverAppPrivateKey_cong)
  then show ?thesis by (auto simp: trySubset_def recovers_def Let_def split: sum.splits)
qed

lemma combination_subset:
  assumes "distinct all" "combination (length all) k c"
  shows "distinct (map ((!) all) c)" "set (map ((!) all) c) \<subseteq> set all" "card (set (map ((!) all) c)) = k"
proof -
  have c: "distinct c" "set c \<subseteq> {..<length all}" "length c = k"
    using assms(2) by (auto simp: combination_def strict_sorted_iff)
  then show 1: "distinct (map ((!) all) c)"
    using assms(1) by (auto simp: distinct_map inj_on_def subset_iff nth_eq_iff_index_eq)
  show "set (map ((!) all) c) \<subseteq> set all" using c by auto
  show "card (set (map ((!) all) c)) = k" using distinct_card [OF 1] c(3) by simp
qed

lemma subset_combination:
  assumes "distinct all" "S \<subseteq> set all" "card S = k"
  shows "\<exists>c. combination (length all) k c \<and> set (map ((!) all) c) = S"
proof -
  let ?B = "{i. i < length all \<and> all ! i \<in> S}"
  have im: "(!) all ` ?B = S" using assms(2) by (auto simp: in_set_conv_nth subset_iff image_iff)
  have "inj_on ((!) all) ?B" using assms(1) by (auto simp: inj_on_def nth_eq_iff_index_eq)
  then have "card ?B = k" using assms(3) im card_image by fastforce
  then have "combination (length all) k (sorted_list_of_set ?B)"
    by (auto simp: combination_def strict_sorted_iff)
  then show ?thesis using im by (intro exI [of _ "sorted_list_of_set ?B"]) simp
qed

lemma first_combination:
  assumes "k \<le> n" shows "combination n k [0..<k]" "{c. combination n k c} = insert [0..<k] (later n k [0..<k])"
    "card (later n k [0..<k]) + 1 = n choose k"
proof -
  show c0: "combination n k [0..<k]" using assms by (auto simp: combination_def strict_sorted_iff)
  have "lex_less [0..<k] t" if "combination n k t" "t \<noteq> [0..<k]" for t
    using that combination_bounds(1) [OF that(1)]
    by (intro lex_less_pointwise) (auto simp: combination_def)
  with c0 show all: "{c. combination n k c} = insert [0..<k] (later n k [0..<k])"
    by (auto simp: later_def)
  show "card (later n k [0..<k]) + 1 = n choose k"
    using card_combinations [of n k] card_insert_disjoint [of "later n k [0..<k]" "[0..<k]"]
    unfolding all by (simp add: later_def [of n k "[0..<k]"] lex_less_irrefl)
qed

lemma recover_with_retry:
  assumes "gm_ok sigs" "0 \<le> threshold" "threshold \<le> int (length sigs)"
    "length sigs choose nat threshold \<le> DefaultMaxRecoveryAttempts"
  shows "case RecoverAppPrivateKeyWithRetry L appID sigs threshold validate of
      Inr key \<Rightarrow> validate key \<and> (\<exists>S \<subseteq> set (gm_keys sigs). card S = nat threshold \<and>
        RecoverAppPrivateKey L appID (filter (\<lambda>(a, _). a \<in> S) sigs) threshold = Inr key)
    | Inl _ \<Rightarrow> \<not> (\<exists>S \<subseteq> set (gm_keys sigs). \<exists>key. card S = nat threshold \<and> validate key \<and>
        RecoverAppPrivateKey L appID (filter (\<lambda>(a, _). a \<in> S) sigs) threshold = Inr key)"
proof -
  let ?all = "sort_addresses (gm_keys sigs)" and ?k = "nat threshold"
  let ?t = "trySubset L appID sigs threshold validate"
  have all: "distinct ?all" "set ?all = set (gm_keys sigs)" "length ?all = length sigs"
    using assms(1) by (auto simp: sort_addresses_def gm_ok_def)
  have k: "?k \<le> length ?all" using assms(3) all(3) by simp
  note fc = first_combination [OF k]
  have tr: "?t (map ((!) ?all) c) = Some key \<longleftrightarrow>
      recovers L appID sigs threshold validate (set (map ((!) ?all) c)) key"
    if "combination (length ?all) ?k c" for c key
    using combination_subset [OF all(1) that] all(2) by (intro trySubset_recovers [OF assms(1)]) auto
  have run: "case search_loop ?t ?all ?k DefaultMaxRecoveryAttempts 0 [0..<?k] of
       Found r \<Rightarrow> \<exists>d. combination (length ?all) ?k d \<and> ?t (map ((!) ?all) d) = Some r
     | _ \<Rightarrow> \<forall>d. combination (length ?all) ?k d \<longrightarrow> ?t (map ((!) ?all) d) = None"
  proof -
    have "0 + 1 + card (later (length ?all) ?k [0..<?k]) \<le> DefaultMaxRecoveryAttempts"
      using fc(3) assms(4) all(3) by simp
    from search_loop_complete [OF fc(1) this, of ?t] show ?thesis
      unfolding fc(2) [symmetric] by (auto split: search.splits)
  qed
  have none: "\<not> (\<exists>S \<subseteq> set (gm_keys sigs). \<exists>key. card S = ?k \<and> recovers L appID sigs threshold validate S key)"
    if "\<forall>d. combination (length ?all) ?k d \<longrightarrow> ?t (map ((!) ?all) d) = None"
    using that tr subset_combination [OF all(1)] all(2) by (metis option.distinct(1))
  have some: "\<exists>S \<subseteq> set (gm_keys sigs). card S = ?k \<and> recovers L appID sigs threshold validate S key"
    if "combination (length ?all) ?k d" "?t (map ((!) ?all) d) = Some key" for d key
    using that tr combination_subset [OF all(1) that(1)] all(2) by metis
  have res: "RecoverAppPrivateKeyWithRetry L appID sigs threshold validate =
      (case search_loop ?t ?all ?k DefaultMaxRecoveryAttempts 0 [0..<?k] of
         Found recovered \<Rightarrow> Inr recovered
       | Exhausted _ \<Rightarrow> Inl (Errorf ''failed to recover valid app private key: all combinations exhausted'')
       | CapReached _ \<Rightarrow> Inl (Errorf ''failed to recover valid app private key: attempt cap reached''))"
    using assms(2,3)
    by (simp add: RecoverAppPrivateKeyWithRetry_def recoverAppPrivateKeyWithRetry_def)
  show ?thesis
  proof (cases "search_loop ?t ?all ?k DefaultMaxRecoveryAttempts 0 [0..<?k]")
    case (Found key)
    with run obtain d where "combination (length ?all) ?k d" "?t (map ((!) ?all) d) = Some key" by auto
    from some [OF this] show ?thesis by (simp only: res Found search.case sum.case recovers_def) blast
  qed (use run none in \<open>auto simp: res recovers_def\<close>)
qed

lemma retry_sound:
  assumes "gm_ok sigs" "RecoverAppPrivateKeyWithRetry L appID sigs threshold validate = Inr key"
  shows "validate key \<and> (\<exists>S \<subseteq> set (gm_keys sigs). card S = nat threshold \<and>
    RecoverAppPrivateKey L appID (filter (\<lambda>(a, _). a \<in> S) sigs) threshold = Inr key)"
proof -
  let ?all = "sort_addresses (gm_keys sigs)" and ?k = "nat threshold"
  let ?t = "trySubset L appID sigs threshold validate"
  have all: "distinct ?all" "set ?all = set (gm_keys sigs)" "length ?all = length sigs"
    using assms(1) by (auto simp: sort_addresses_def gm_ok_def)
  have k: "?k \<le> length ?all" and found: "search_loop ?t ?all ?k DefaultMaxRecoveryAttempts 0 [0..<?k] = Found key"
    using assms(2) all(3) unfolding RecoverAppPrivateKeyWithRetry_def recoverAppPrivateKeyWithRetry_def
    by (auto split: if_splits search.splits)
  obtain d where d: "combination (length ?all) ?k d" "?t (map ((!) ?all) d) = Some key"
    using search_loop_found [OF first_combination(1) [OF k] found] by blast
  note sub = combination_subset [OF all(1) d(1)]
  have "recovers L appID sigs threshold validate (set (map ((!) ?all) d)) key"
    using trySubset_recovers [OF assms(1) sub(1)] sub(2) all(2) d(2) by blast
  then show ?thesis using sub(2,3) all(2) unfolding recovers_def by blast
qed

lemma retry_first:
  assumes "gm_ok sigs" "0 \<le> threshold" "threshold \<le> int (length sigs)"
    "recovers L appID sigs threshold validate (set (take (nat threshold) (sort_addresses (gm_keys sigs)))) key"
  shows "RecoverAppPrivateKeyWithRetry L appID sigs threshold validate = Inr key"
proof -
  let ?all = "sort_addresses (gm_keys sigs)" and ?k = "nat threshold"
  have all: "distinct ?all" "set ?all = set (gm_keys sigs)" "length ?all = length sigs"
    using assms(1) by (auto simp: sort_addresses_def gm_ok_def)
  have first: "map ((!) ?all) [0..<?k] = take ?k ?all" using assms(3) all(3) by (intro nth_equalityI) auto
  have "trySubset L appID sigs threshold validate (take ?k ?all) = Some key"
    using trySubset_recovers [OF assms(1) distinct_take [OF all(1)]] set_take_subset [of ?k ?all] all(2) assms(4) by blast
  then show ?thesis using assms(2,3)
    by (simp add: RecoverAppPrivateKeyWithRetry_def recoverAppPrivateKeyWithRetry_def search_loop.simps [of _ _ _ _ _ "[0..<?k]"] first)
qed

lemma retry_perm:
  assumes "gm_ok sigs" "mset sigs' = mset sigs"
  shows "RecoverAppPrivateKeyWithRetry L appID sigs' threshold validate = RecoverAppPrivateKeyWithRetry L appID sigs threshold validate"
proof -
  have keys: "mset (gm_keys sigs') = mset (gm_keys sigs)" using assms(2) by (metis mset_map)
  then have ok: "gm_ok sigs'" using assms(1) unfolding gm_ok_def by (metis mset_eq_imp_distinct_iff)
  have "gm_get sigs' a = Some p \<longleftrightarrow> gm_get sigs a = Some p" for a p
    unfolding gm_get_eq_Some [OF ok] gm_get_eq_Some [OF assms(1)] using assms(2) by (metis set_mset_mset)
  then have "gm_get sigs' a = gm_get sigs a" for a by (metis option.exhaust)
  then have "sig_at sigs' = sig_at sigs" by (intro ext) (simp add: sig_at_def)
  moreover have "sort_addresses (gm_keys sigs') = sort_addresses (gm_keys sigs)"
    unfolding sort_addresses_def by (metis keys mset_sort properties_for_sort sorted_sort)
  moreover have "length sigs' = length sigs" using assms(2) by (rule mset_eq_length)
  moreover from \<open>sig_at sigs' = sig_at sigs\<close>
  have "trySubset L appID sigs' threshold validate = trySubset L appID sigs threshold validate"
    by (intro ext) (simp only: trySubset_def)
  ultimately show ?thesis by (simp only: RecoverAppPrivateKeyWithRetry_def recoverAppPrivateKeyWithRetry_def)
qed

text \<open>
  C19. Recovery with retry is sound: whatever the number of attempts, a returned key is one that a
  subset of \<open>threshold\<close> operators gives and that passes validation. It does not depend on the order of
  the map. And it is complete within the cap of attempts: when there are no more subsets than that, a
  key is returned whenever some subset gives a key that passes validation.
\<close>

theorem RecoverAppPrivateKeyWithRetry_correct:
  assumes "gm_ok sigs"
  shows "(\<forall>key. RecoverAppPrivateKeyWithRetry L appID sigs threshold validate = Inr key \<longrightarrow>
      validate key \<and> (\<exists>S \<subseteq> set (gm_keys sigs). card S = nat threshold \<and>
        RecoverAppPrivateKey L appID (filter (\<lambda>(a, _). a \<in> S) sigs) threshold = Inr key)) \<and>
    (\<forall>sigs'. mset sigs' = mset sigs \<longrightarrow>
      RecoverAppPrivateKeyWithRetry L appID sigs' threshold validate = RecoverAppPrivateKeyWithRetry L appID sigs threshold validate) \<and>
    (0 \<le> threshold \<longrightarrow> threshold \<le> int (length sigs) \<longrightarrow> length sigs choose nat threshold \<le> DefaultMaxRecoveryAttempts \<longrightarrow>
      (\<exists>S \<subseteq> set (gm_keys sigs). \<exists>key. card S = nat threshold \<and> validate key \<and>
        RecoverAppPrivateKey L appID (filter (\<lambda>(a, _). a \<in> S) sigs) threshold = Inr key) \<longrightarrow>
      (\<exists>key. RecoverAppPrivateKeyWithRetry L appID sigs threshold validate = Inr key))"
proof (intro conjI impI allI)
  fix key assume "RecoverAppPrivateKeyWithRetry L appID sigs threshold validate = Inr key"
  from retry_sound [OF assms this] show "validate key" "\<exists>S \<subseteq> set (gm_keys sigs). card S = nat threshold \<and>
        RecoverAppPrivateKey L appID (filter (\<lambda>(a, _). a \<in> S) sigs) threshold = Inr key" by blast+
next
  fix sigs' :: "(address, G1Point) gomap" assume "mset sigs' = mset sigs"
  then show "RecoverAppPrivateKeyWithRetry L appID sigs' threshold validate = RecoverAppPrivateKeyWithRetry L appID sigs threshold validate"
    by (rule retry_perm [OF assms])
next
  assume t: "0 \<le> threshold" "threshold \<le> int (length sigs)" "length sigs choose nat threshold \<le> DefaultMaxRecoveryAttempts"
    and some: "\<exists>S \<subseteq> set (gm_keys sigs). \<exists>key. card S = nat threshold \<and> validate key \<and>
        RecoverAppPrivateKey L appID (filter (\<lambda>(a, _). a \<in> S) sigs) threshold = Inr key"
  show "\<exists>key. RecoverAppPrivateKeyWithRetry L appID sigs threshold validate = Inr key"
    using recover_with_retry [OF assms t, where L = L and appID = appID and validate = validate] some
    by (cases "RecoverAppPrivateKeyWithRetry L appID sigs threshold validate") auto
qed

text \<open>The operator 2 answers with \<open>11 * 6 = 4\<close>, the operator 1 with a signature that does not validate.\<close>

lemma second_recovers: "RecoverAppPrivateKey mock_lib ''hello'' [(2, enc1 mock_lib 4)] 1 = Inr (enc1 mock_lib 4)"
proof -
  note L = mock_lib_laws curve_lawsD [OF mock_lib_laws]
  have num: "1 + gf_of_int 5 = (6 :: gf)" "(11 :: gf) * 6 = 4" "(4 :: gf) \<noteq> 0" by code_simp+
  then have q: "HashToG1 mock_lib ''hello'' = Inr (enc1 mock_lib 6)" by (simp add: HashToG1_mock)
  have mul: "ScalarMulG1 mock_lib (enc1 mock_lib 6) (Some k) = Inr (enc1 mock_lib (k * 6))" for k by (simp add: ScalarMulG1_den L)
  have "\<exists>key. ScalarMulG1 mock_lib (enc1 mock_lib 6) (Some (peval [11] 0)) = Inr key \<and>
      RecoverAppPrivateKey mock_lib ''hello'' (map (\<lambda>j. (j, enc1 mock_lib (peval [11] (AddressToFr mock_lib j) * 6))) [2]) 1 =
       (if G1_IsZero mock_lib key = Inr True then Inl (Errorf ''recovered app private key is zero'') else Inr key)"
    by (rule recover_from_shares [OF L(1) _ _ _ _ q]) (simp_all add: mul)
  then show ?thesis using num by (auto simp: mul G1_IsZero_den [OF L(2) den1_intros(1) [OF L(2)]] split: if_splits)
qed

theorem RecoverAppPrivateKeyWithRetry_correct_witness:
  "RecoverAppPrivateKeyWithRetry mock_lib ''hello'' [(1, enc1 mock_lib 3), (2, enc1 mock_lib 4)] 1 (\<lambda>key. key = enc1 mock_lib 4) =
     Inr (enc1 mock_lib 4) \<and>
   RecoverAppPrivateKeyWithRetry mock_lib ''hello'' [(2, enc1 mock_lib 4), (1, enc1 mock_lib 3)] 1 (\<lambda>key. key = enc1 mock_lib 4) =
     Inr (enc1 mock_lib 4)"
proof -
  let ?sigs = "[(1, enc1 mock_lib 3), (2, enc1 mock_lib 4)] :: (address, G1Point) gomap" and ?v = "\<lambda>key. key = enc1 mock_lib 4"
  have sigs: "gm_ok ?sigs" "(0 :: int) \<le> 1" "1 \<le> int (length ?sigs)" "length ?sigs choose nat 1 \<le> DefaultMaxRecoveryAttempts"
    by (simp_all add: gm_ok_def DefaultMaxRecoveryAttempts_def)
  note correct = RecoverAppPrivateKeyWithRetry_correct [OF sigs(1), of mock_lib "''hello''" 1 ?v]
  have "filter (\<lambda>(a, _). a \<in> {2}) ?sigs = [(2, enc1 mock_lib 4)]" by simp
  with second_recovers have "RecoverAppPrivateKey mock_lib ''hello'' (filter (\<lambda>(a, _). a \<in> {2}) ?sigs) 1 = Inr (enc1 mock_lib 4)"
    by (simp only:)
  then have "\<exists>S \<subseteq> set (gm_keys ?sigs). \<exists>key. card S = nat 1 \<and> ?v key \<and>
      RecoverAppPrivateKey mock_lib ''hello'' (filter (\<lambda>(a, _). a \<in> S) ?sigs) 1 = Inr key"
    by (intro exI [of _ "{2}"]) simp
  then obtain key where key: "RecoverAppPrivateKeyWithRetry mock_lib ''hello'' ?sigs 1 ?v = Inr key" using correct sigs(2-4) by blast
  then have "key = enc1 mock_lib 4" using correct by blast
  moreover have "mset [(2, enc1 mock_lib 4), (1, enc1 mock_lib 3)] = mset ?sigs" by simp
  ultimately show ?thesis using key correct by metis
qed

end
