(* ===== verification/Ibe.thy ===== *)
theory Ibe
  imports Crypto
begin

text \<open>
  \<open>pkg/crypto/bls.go\<close>, the identity-based encryption: \<open>EncryptForApp\<close>,
  \<open>ValidateCiphertextFormat\<close>, \<open>DecryptForApp\<close> and their helpers, with \<open>ValidateAppID\<close> of
  \<open>pkg/util\<close>. HKDF and AES-GCM are the record \<open>aead\<close>; the random scalar and the random nonce
  are arguments. The main theorem: what is encrypted for an application under the master public key
  is decrypted by the key the operators recover for it.
\<close>

text \<open>
  \<open>hkdf secret salt info n\<close>: \<open>n\<close> bytes read from \<open>hkdf.New(sha256.New, ...)\<close>;
  \<open>newGCM\<close>: whether \<open>aes.NewCipher\<close> and \<open>cipher.NewGCMWithNonceSize\<close> accept the key;
  \<open>gcm_Seal\<close>, \<open>gcm_Open\<close> take key, nonce, data and additional data.
\<close>

record aead =
  hkdf :: "bytes \<Rightarrow> bytes \<Rightarrow> bytes \<Rightarrow> nat \<Rightarrow> bytes option"
  newGCM :: "bytes \<Rightarrow> bool"
  gcm_Seal :: "bytes \<Rightarrow> bytes \<Rightarrow> bytes \<Rightarrow> bytes \<Rightarrow> bytes"
  gcm_Open :: "bytes \<Rightarrow> bytes \<Rightarrow> bytes \<Rightarrow> bytes \<Rightarrow> bytes option"

definition aead_laws :: "aead \<Rightarrow> bool" where
  "aead_laws A \<longleftrightarrow>
     (\<forall>secret salt info. \<exists>key. hkdf A secret salt info 32 = Some key \<and> length key = 32) \<and>
     (\<forall>key. length key = 32 \<longrightarrow> newGCM A key) \<and>
     (\<forall>key nonce pt aad. length key = 32 \<longrightarrow> length nonce = 12 \<longrightarrow>
        length (gcm_Seal A key nonce pt aad) = length pt + 16 \<and>
        gcm_Open A key nonce (gcm_Seal A key nonce pt aad) aad = Some pt)"

definition ibeMagic :: string where "ibeMagic = ''IBE''"
definition ibeVersion :: byte where "ibeVersion = 1"
definition hkdfSalt :: string where "hkdfSalt = ''eigenx-kms-go-ibe-encryption''"
definition magicSize :: nat where "magicSize = 3"
definition versionSize :: nat where "versionSize = 1"
definition headerSize :: nat where "headerSize = magicSize + versionSize"
definition g2Size :: nat where "g2Size = 96"
definition nonceSize :: nat where "nonceSize = 12"
definition tagSize :: nat where "tagSize = 16"
definition minCiphertextSize :: nat where
  "minCiphertextSize = headerSize + g2Size + nonceSize + tagSize"

lemmas size_defs = magicSize_def versionSize_def headerSize_def g2Size_def nonceSize_def tagSize_def
  minCiphertextSize_def

definition ValidateAppID :: "string \<Rightarrow> unit res" where
  "ValidateAppID appID =
     (if appID = [] then Inl (Errorf ''appID is empty'')
      else if length appID < 5 then Inl (Errorf ''appID is too short (minimum 5 characters)'')
      else Inr ())"

definition buildAAD :: "string \<Rightarrow> byte \<Rightarrow> bytes \<Rightarrow> bytes" where
  "buildAAD appID version c1Bytes = str_bytes appID @ [version] @ c1Bytes"

definition deriveKeyMaterial :: "aead \<Rightarrow> bytes \<Rightarrow> byte \<Rightarrow> string \<Rightarrow> bytes res" where
  "deriveKeyMaterial A gIDBytes version appID =
     wrap_err ''failed to derive key using HKDF'' (lib_res ''ReadFull''
       (hkdf A gIDBytes (str_bytes hkdfSalt)
          (str_bytes (''IBE-encryption|v'' @ show_nat (unat version) @ ''|'' @ appID)) 32))"

text \<open>Dereference of \<open>ToAffine\<close> results: nil panics.\<close>

definition affine :: "'g Point \<Rightarrow> 'g res" where
  "affine p = (case ToAffine p of None \<Rightarrow> Inl (Panic ''nil pointer dereference'') | Some q \<Rightarrow> Inr q)"

definition EncryptForApp ::
  "('f, 'g1, 'g2, 'gt) lib \<Rightarrow> aead \<Rightarrow> 'f option \<Rightarrow> bytes option \<Rightarrow> string \<Rightarrow> G2Point \<Rightarrow> bytes \<Rightarrow> bytes res" where
  "EncryptForApp L A rnd rndNonce appID masterPublicKey plaintext =
     bind_res (wrap_err ''invalid app ID for encryption'' (ValidateAppID appID)) (\<lambda>_.
     bind_res (wrap_err ''failed to hash app ID'' (HashToG1 L appID)) (\<lambda>QiD.
     bind_res (wrap_err ''failed to convert Q_ID to G1Affine''
       (G1PointFromCompressedBytes L (g1_CompressedBytes QiD))) (\<lambda>QiDAffine.
     bind_res (wrap_err ''failed to convert master public key to G2Affine''
       (G2PointFromCompressedBytes L (g2_CompressedBytes masterPublicKey))) (\<lambda>masterPKAffine.
     if bls_G2_IsZero L masterPKAffine then Inl (Errorf ''invalid master public key: zero/infinity point'')
     else
     bind_res (wrap_err ''failed to generate random r'' (lib_res ''SetRandom'' rnd)) (\<lambda>r.
     bind_res (wrap_err ''failed to compute C1'' (ScalarMulG2 L (G2Generator L) (Some r))) (\<lambda>c1.
     bind_res (wrap_err ''failed to validate C1''
       (G2PointFromCompressedBytes L (g2_CompressedBytes c1))) (\<lambda>c1Check.
     if bls_G2_IsZero L c1Check then Inl (Errorf ''internal error: C1 is infinity point'')
     else
     bind_res (affine QiDAffine) (\<lambda>q.
     bind_res (affine masterPKAffine) (\<lambda>mpk.
     bind_res (wrap_err ''failed to compute pairing'' (lib_res ''Pair'' (bls12381_Pair L [q] [mpk])))
       (\<lambda>pairingResult.
     if gt_IsOne L pairingResult then Inl (Errorf ''invalid pairing result: identity element'')
     else let gID = gt_Exp L pairingResult r in
     if gt_IsOne L gID then Inl (Errorf ''invalid g_ID: identity element'')
     else
     bind_res (deriveKeyMaterial A (gt_Bytes L gID) ibeVersion appID) (\<lambda>keyMaterial.
     if \<not> newGCM A keyMaterial then Inl (Errorf ''failed to create AES cipher'')
     else
     bind_res (wrap_err ''failed to generate nonce'' (lib_res ''ReadFull'' rndNonce)) (\<lambda>nonce.
     let aad = buildAAD appID ibeVersion (g2_CompressedBytes c1);
         encryptedData = gcm_Seal A keyMaterial nonce plaintext aad
     in Inr (str_bytes ibeMagic @ [ibeVersion] @ g2_CompressedBytes c1 @ nonce @ encryptedData)))))))))))))"

definition ValidateCiphertextFormat :: "bytes \<Rightarrow> unit res" where
  "ValidateCiphertextFormat ciphertext =
     (if length ciphertext < minCiphertextSize then Inl (Errorf ''ciphertext too short'')
      else if take magicSize ciphertext \<noteq> str_bytes ibeMagic
        then Inl (Errorf ''invalid ciphertext format: missing or incorrect magic number'')
      else if ciphertext ! magicSize \<noteq> ibeVersion then Inl (Errorf ''unsupported ciphertext version'')
      else Inr ())"

definition DecryptForApp ::
  "('f, 'g1, 'g2, 'gt) lib \<Rightarrow> aead \<Rightarrow> string \<Rightarrow> G1Point \<Rightarrow> bytes \<Rightarrow> bytes res" where
  "DecryptForApp L A appID appPrivateKey ciphertext =
     bind_res (ValidateAppID appID) (\<lambda>_.
     bind_res (ValidateCiphertextFormat ciphertext) (\<lambda>_.
     let version = ciphertext ! magicSize;
         c1Bytes = take g2Size (drop headerSize ciphertext)
     in
     bind_res (wrap_err ''failed to convert app private key to G1Affine''
       (G1PointFromCompressedBytes L (g1_CompressedBytes appPrivateKey))) (\<lambda>appPrivKeyAffine.
     if bls_G1_IsZero L appPrivKeyAffine then Inl (Errorf ''invalid app private key: zero/infinity point'')
     else
     bind_res (wrap_err ''failed to convert C1 to G2Affine'' (G2PointFromCompressedBytes L c1Bytes)) (\<lambda>c1Affine.
     if bls_G2_IsZero L c1Affine then Inl (Errorf ''invalid ciphertext: C1 is infinity point'')
     else
     bind_res (affine appPrivKeyAffine) (\<lambda>pk.
     bind_res (affine c1Affine) (\<lambda>c1.
     bind_res (wrap_err ''failed to compute pairing'' (lib_res ''Pair'' (bls12381_Pair L [pk] [c1]))) (\<lambda>gID.
     if gt_IsOne L gID then Inl (Errorf ''invalid pairing result: identity element'')
     else
     bind_res (deriveKeyMaterial A (gt_Bytes L gID) version appID) (\<lambda>keyMaterial.
     if \<not> newGCM A keyMaterial then Inl (Errorf ''failed to create AES cipher'')
     else
     let nonce = take nonceSize (drop (headerSize + g2Size) ciphertext);
         encryptedData = drop (headerSize + g2Size + nonceSize) ciphertext;
         aad = buildAAD appID version c1Bytes
     in wrap_err ''failed to decrypt'' (lib_res ''gcm.Open'' (gcm_Open A keyMaterial nonce encryptedData aad))))))))))"

subsection \<open>Round trip\<close>

lemma affine_Point [simp]: "affine (Point (Some q)) = Inr q"
  by (simp add: affine_def ToAffine_def)

text \<open>The parts of a ciphertext of the format, read back by their offsets.\<close>

lemma ciphertext_parts:
  fixes enc :: bytes
  assumes "length c1 = 96" "length nonce = 12"
  defines "ct \<equiv> str_bytes ibeMagic @ [ibeVersion] @ c1 @ nonce @ enc"
  shows "ct ! magicSize = ibeVersion" "take g2Size (drop headerSize ct) = c1"
    "take nonceSize (drop (headerSize + g2Size) ct) = nonce"
    "drop (headerSize + g2Size + nonceSize) ct = enc"
    "16 \<le> length enc \<Longrightarrow> ValidateCiphertextFormat ct = Inr ()"
  using assms(1,2)
  by (auto simp: ct_def ibeMagic_def size_defs nth_append ValidateCiphertextFormat_def)

text \<open>The pairing value is the same on both sides: \<open>e(H, s G2)^r = e(s H, r G2)\<close>.\<close>

lemma pairing_agrees:
  assumes "pairing_laws L"
  shows "\<exists>e f. bls12381_Pair L [mul1 L h] [mul2 L s] = Some e \<and>
     bls12381_Pair L [mul1 L (s * h)] [mul2 L r] = Some f \<and> gt_Exp L e r = f \<and>
     (gt_IsOne L e \<longleftrightarrow> h * s = 0) \<and> (gt_IsOne L f \<longleftrightarrow> s * h * r = 0)"
  using assms unfolding pairing_laws_def by (force simp: ac_simps)

lemma ibe_roundtrip:
  assumes "curve_laws L" "aead_laws A" "5 \<le> length appID" "HashToG1 L appID = Inr (enc1 L h)"
    "den2 L mpk s" "den1 L key (s * h)" "s \<noteq> 0" "h \<noteq> 0" "r \<noteq> 0" "length nonce = 12"
  shows "\<exists>ct. EncryptForApp L A (Some r) (Some nonce) appID mpk plaintext = Inr ct \<and>
     length ct = length plaintext + minCiphertextSize \<and> ValidateCiphertextFormat ct = Inr () \<and>
     DecryptForApp L A appID key ct = Inr plaintext"
proof -
  note L = curve_lawsD [OF assms(1)]
  have app: "ValidateAppID appID = Inr ()" using assms(3) by (auto simp: ValidateAppID_def)
  obtain e f where ef: "bls12381_Pair L [mul1 L h] [mul2 L s] = Some e"
      "bls12381_Pair L [mul1 L (s * h)] [mul2 L r] = Some f" "gt_Exp L e r = f" "\<not> gt_IsOne L e" "\<not> gt_IsOne L f"
    using pairing_agrees [OF L(3), of h s r] assms(7-9) by auto
  obtain k where k: "deriveKeyMaterial A (gt_Bytes L f) ibeVersion appID = Inr k" "length k = 32"
    using assms(2) unfolding aead_laws_def deriveKeyMaterial_def by (metis lib_res_simps(2) wrap_err_simps(2))
  let ?c1 = "g2_CompressedBytes (enc2 L r)"
  let ?enc = "gcm_Seal A k nonce plaintext (buildAAD appID ibeVersion ?c1)"
  have gcm: "newGCM A k" "length ?enc = length plaintext + 16"
    "gcm_Open A k nonce ?enc (buildAAD appID ibeVersion ?c1) = Some plaintext"
    using assms(2,10) k(2) by (simp_all add: aead_laws_def)
  have c1: "length ?c1 = 96" "ScalarMulG2 L (G2Generator L) (Some r) = Inr (enc2 L r)"
    "G2PointFromCompressedBytes L ?c1 = Inr (Point (Some (mul2 L r)))"
    using ScalarMulG2_den [OF L(2) den2_intros(1) [OF L(2), of 1], of r] L(2)
    by (simp_all add: G2Generator_enc2 den2_FromCompressedBytes) (simp add: enc2_def g2_lawsD(10))
  note pts = den1_FromCompressedBytes [OF den1_intros(1) [OF L(1)]] den1_FromCompressedBytes [OF assms(6)]
    den2_FromCompressedBytes [OF assms(5)] bls_G1_IsZero_def bls_G2_IsZero_def
    g1_lawsD(6) [OF L(1)] g2_lawsD(6) [OF L(2)]
  define ct where "ct = str_bytes ibeMagic @ [ibeVersion] @ ?c1 @ nonce @ ?enc"
  note parts = ciphertext_parts [OF c1(1) assms(10), where enc = ?enc, folded ct_def]
  have valid: "ValidateCiphertextFormat ct = Inr ()" using parts(5) gcm(2) by simp
  have "EncryptForApp L A (Some r) (Some nonce) appID mpk plaintext = Inr ct"
    using assms(7-9) by (simp add: EncryptForApp_def app assms(4) pts c1 ef k gcm Let_def ct_def)
  moreover have "length ct = length plaintext + minCiphertextSize"
    using c1(1) gcm(2) assms(10) by (simp add: ibeMagic_def size_defs ct_def)
  moreover have "DecryptForApp L A appID key ct = Inr plaintext"
    using assms(7-9) by (simp add: DecryptForApp_def app valid parts(1-4) pts c1 ef k gcm Let_def)
  ultimately show ?thesis using valid by blast
qed

text \<open>
  C20. Encryption round trip: for a valid application id, a non-zero master key \<open>s\<close>, a non-zero hash
  \<open>h\<close> of the id and a non-zero random scalar, \<open>EncryptForApp\<close> under the public key of \<open>s\<close>
  succeeds, the ciphertext is the plaintext's length plus 128 bytes and well formed, and
  \<open>DecryptForApp\<close> with the application key \<open>s * h\<close> gives the plaintext back.
\<close>

theorem encrypt_decrypt:
  assumes "curve_laws L" "aead_laws A" "5 \<le> length appID" "HashToG1 L appID = Inr (enc1 L h)"
    "den2 L mpk s" "den1 L key (s * h)" "s \<noteq> 0" "h \<noteq> 0" "r \<noteq> 0" "length nonce = 12"
  shows "\<exists>ct. EncryptForApp L A (Some r) (Some nonce) appID mpk plaintext = Inr ct \<and>
     length ct = length plaintext + minCiphertextSize \<and> ValidateCiphertextFormat ct = Inr () \<and>
     DecryptForApp L A appID key ct = Inr plaintext"
  using assms by (rule ibe_roundtrip)

definition mock_aead :: aead where
  "mock_aead = \<lparr>hkdf = (\<lambda>s salt info n. Some (replicate n 7)), newGCM = (\<lambda>k. True),
     gcm_Seal = (\<lambda>k n pt aad. pt @ replicate 16 0),
     gcm_Open = (\<lambda>k n ct aad. Some (take (length ct - 16) ct))\<rparr>"

lemma mock_aead_laws: "aead_laws mock_aead"
  by (simp add: aead_laws_def mock_aead_def)

theorem encrypt_decrypt_witness:
  "\<exists>ct. EncryptForApp mock_lib mock_aead (Some 3) (Some (replicate 12 9)) ''hello'' (enc2 mock_lib 5) [1, 2] = Inr ct \<and>
     length ct = length [1 :: byte, 2] + minCiphertextSize \<and> ValidateCiphertextFormat ct = Inr () \<and>
     DecryptForApp mock_lib mock_aead ''hello'' (enc1 mock_lib (5 * 6)) ct = Inr [1, 2]"
proof -
  note L = mock_lib_laws curve_lawsD [OF mock_lib_laws]
  have ne: "(5 :: gf) \<noteq> 0" "(6 :: gf) \<noteq> 0" "(3 :: gf) \<noteq> 0" "1 + gf_of_int 5 = 6" by code_simp+
  show ?thesis
    by (rule encrypt_decrypt [OF L(1) mock_aead_laws, where h = 6 and s = 5])
       (simp_all add: HashToG1_mock L ne)
qed

end
