(* ===== verification/Sharing.thy ===== *)
theory Sharing
  imports Crypto
begin

text \<open>
  What \<open>pkg/dkg\<close> and \<open>pkg/reshare\<close> share: the operator set of \<open>pkg/peering\<close>, the loops
  with which a dealer makes shares and commitments and with which a player sums the commitments, and
  the locale \<open>verifiable_sharing\<close>, the contract of the two \<open>Protocol\<close> interfaces, with the
  consequences every client relies on.
\<close>

record WrappedPublicKey =
  wpk_PublicKey :: bytes
  wpk_ECDSAAddress :: address

record OperatorSetPeer =
  OperatorAddress :: address
  SocketAddress :: string
  peer_WrappedPublicKey :: WrappedPublicKey
  CurveType :: string

record OperatorSetPeers =
  OperatorSetId :: nat
  AVSAddress :: address
  Peers :: "OperatorSetPeer list"

subsection \<open>The loops\<close>

text \<open>Shares for all operators, by \<open>crypto.EvaluatePolynomial\<close>.\<close>

definition shares_for ::
  "('f, 'g1, 'g2, 'gt) lib \<Rightarrow> 'f list \<Rightarrow> OperatorSetPeer list \<Rightarrow> (address, 'f) gomap" where
  "shares_for L poly operators =
     fold (\<lambda>op shares. gm_set shares (OperatorAddress op) (EvaluatePolynomial L poly (OperatorAddress op)))
       operators []"

text \<open>Commitments to the coefficients, by \<open>crypto.ScalarMulG2\<close>.\<close>

definition commitments_to :: "('f, 'g1, 'g2, 'gt) lib \<Rightarrow> 'f list \<Rightarrow> G2Point list res" where
  "commitments_to L coeffs = map_res (\<lambda>c. ScalarMulG2 L (G2Generator L) (Some c)) coeffs"

text \<open>The loop over \<open>commitments[1:]\<close> with the running power of the player's point.\<close>

fun commitment_sum ::
  "('f :: field, 'g1, 'g2, 'gt) lib \<Rightarrow> 'f \<Rightarrow> 'f \<Rightarrow> G2Point \<Rightarrow> G2Point list \<Rightarrow> G2Point res" where
  "commitment_sum L jFr jPower rightSide [] = Inr rightSide"
| "commitment_sum L jFr jPower rightSide (c # cs) =
     bind_res (ScalarMulG2 L c (Some (jPower * jFr))) (\<lambda>term.
     bind_res (AddG2 L rightSide term) (\<lambda>rightSide'.
     commitment_sum L jFr (jPower * jFr) rightSide' cs))"

definition verify_commitments ::
  "('f :: field, 'g1, 'g2, 'gt) lib \<Rightarrow> address \<Rightarrow> 'f option \<Rightarrow> G2Point list \<Rightarrow> bool" where
  "verify_commitments L nodeAddress share commitments =
     (if commitments = [] \<or> share = None then False
      else case ScalarMulG2 L (G2Generator L) share of
             Inl _ \<Rightarrow> False
           | Inr leftSide \<Rightarrow>
               (case commitment_sum L (AddressToFr L nodeAddress) 1 (hd commitments) (tl commitments) of
                  Inl _ \<Rightarrow> False
                | Inr rightSide \<Rightarrow> G2_IsEqual leftSide rightSide))"

subsection \<open>What the loops compute\<close>

lemma shares_for_GenerateShares:
  "shares_for L poly ops = GenerateShares L poly (map OperatorAddress ops)"
  by (simp add: shares_for_def GenerateShares_def fold_map o_def)

lemma gm_get_shares_for:
  "gm_get (shares_for L poly ops) a =
     (if a \<in> OperatorAddress ` set ops then Some (EvaluatePolynomial L poly a) else None)"
  by (simp add: shares_for_GenerateShares gm_get_GenerateShares)

lemma commitments_to_enc2: "g2_laws L \<Longrightarrow> commitments_to L coeffs = Inr (map (enc2 L) coeffs)"
  unfolding commitments_to_def
  by (rule map_res_total) (simp add: ScalarMulG2_den [OF _ den2_intros(1)] G2Generator_enc2)

lemma ScalarMulG2_InrD:
  assumes "g2_laws L" "ScalarMulG2 L p (Some k) = Inr q"
  obtains x where "den2 L p x" "q = enc2 L (k * x)"
proof -
  obtain r where "G2PointFromCompressedBytes L (g2_CompressedBytes p) = Inr r"
    using assms(2) by (auto simp: ScalarMulG2_def res_simps)
  then obtain x where "den2 L p x" by (rule G2PointFromCompressedBytes_InrD [OF assms(1)])
  with assms ScalarMulG2_den [OF assms(1) this] that show thesis by simp
qed

lemma AddG2_InrD:
  assumes "g2_laws L" "AddG2 L p q = Inr r"
  obtains x y where "den2 L p x" "den2 L q y" "r = enc2 L (x + y)"
proof -
  obtain p' q' where "G2PointFromCompressedBytes L (g2_CompressedBytes p) = Inr p'"
    "G2PointFromCompressedBytes L (g2_CompressedBytes q) = Inr q'"
    using assms(2) by (auto simp: AddG2_def res_simps)
  then obtain x y where "den2 L p x" "den2 L q y"
    by (meson G2PointFromCompressedBytes_InrD [OF assms(1)])
  with assms AddG2_den [OF assms(1) this] that show thesis by simp
qed

lemma commitment_sum_eval:
  assumes "g2_laws L" "list_all2 (den2 L) cs as" "den2 L r x"
  shows "\<exists>r'. commitment_sum L j p r cs = Inr r' \<and> den2 L r' (x + p * j * peval as j) \<and>
     (if cs = [] then r' = r else r' = enc2 L (x + p * j * peval as j))"
  using assms(2,3)
proof (induction cs as arbitrary: r x p rule: list_all2_induct)
  case (Cons c cs a as)
  have step: "ScalarMulG2 L c (Some (p * j)) = Inr (enc2 L (p * j * a))"
    "AddG2 L r (enc2 L (p * j * a)) = Inr (enc2 L (x + p * j * a))"
    using ScalarMulG2_den [OF assms(1) Cons.hyps(1)] AddG2_den [OF assms(1) Cons.prems den2_intros(1) [OF assms(1)]]
    by simp_all
  have e: "x + p * j * peval (a # as) j = x + p * j * a + p * j * j * peval as j"
    by (simp add: algebra_simps)
  obtain r' where r': "commitment_sum L j (p * j) (enc2 L (x + p * j * a)) cs = Inr r'"
    "den2 L r' (x + p * j * a + p * j * j * peval as j)"
    "if cs = [] then r' = enc2 L (x + p * j * a) else r' = enc2 L (x + p * j * a + p * j * j * peval as j)"
    using Cons.IH [OF den2_intros(1) [OF assms(1)]] by blast
  have "r' = enc2 L (x + p * j * a + p * j * j * peval as j)"
    using r'(2,3) assms(1) Cons.hyps(2) by (cases "cs = []") auto
  with r' show ?case unfolding e by (simp add: step)
qed simp

lemma commitment_sum_InrD:
  assumes "g2_laws L" "commitment_sum L j p r cs = Inr r'"
  shows "(\<exists>as. list_all2 (den2 L) cs as) \<and> (cs \<noteq> [] \<longrightarrow> (\<exists>x. den2 L r x))"
  using assms(2)
proof (induction cs arbitrary: p r)
  case (Cons c cs)
  then obtain t s where ts: "ScalarMulG2 L c (Some (p * j)) = Inr t" "AddG2 L r t = Inr s"
    "commitment_sum L j (p * j) s cs = Inr r'" by (auto simp: res_simps)
  obtain a where "den2 L c a" using ScalarMulG2_InrD [OF assms(1) ts(1)] by blast
  moreover obtain x where "den2 L r x" using AddG2_InrD [OF assms(1) ts(2)] by blast
  moreover obtain as where "list_all2 (den2 L) cs as" using Cons.IH [OF ts(3)] by blast
  ultimately show ?case by (metis list_all2_Cons)
qed auto

text \<open>
  Commitments that denote the coefficients \<open>as\<close>. A single commitment is compared with the
  canonical encoding, so it has to be canonical itself; from two on, the sum is.
\<close>

definition commits_to :: "('f, 'g1, 'g2, 'gt) lib \<Rightarrow> G2Point list \<Rightarrow> 'f list \<Rightarrow> bool" where
  "commits_to L cs as \<longleftrightarrow>
     cs \<noteq> [] \<and> list_all2 (den2 L) cs as \<and> (length cs = 1 \<longrightarrow> cs = map (enc2 L) as)"

lemma list_all2_enc2: "g2_laws L \<Longrightarrow> list_all2 (den2 L) (map (enc2 L) as) as"
  by (induction as) auto

lemma commits_to_enc2: "g2_laws L \<Longrightarrow> as \<noteq> [] \<Longrightarrow> commits_to L (map (enc2 L) as) as"
  by (simp add: commits_to_def list_all2_enc2)

lemma commits_to_length: "commits_to L cs as \<Longrightarrow> length as = length cs"
  by (auto simp: commits_to_def dest: list_all2_lengthD)

lemma commits_to_unique:
  assumes "g2_laws L" "commits_to L cs as" "commits_to L cs bs" shows "bs = as"
proof (rule nth_equalityI)
  show "length bs = length as" using assms(2,3) by (simp add: commits_to_length)
  fix i assume "i < length bs"
  then have "den2 L (cs ! i) (bs ! i)" "den2 L (cs ! i) (as ! i)"
    using assms(2,3) by (auto simp: commits_to_def list_all2_conv_all_nth)
  then show "bs ! i = as ! i" using den2_unique [OF assms(1)] by blast
qed

theorem verify_commitments_iff:
  assumes "curve_laws L"
  shows "verify_commitments L j (Some s) cs \<longleftrightarrow>
    (\<exists>as. commits_to L cs as \<and> s = peval as (AddressToFr L j))"
proof (cases cs)
  case Nil
  then show ?thesis by (simp add: verify_commitments_def commits_to_def)
next
  case (Cons c cs')
  note L = curve_lawsD(2) [OF assms]
  have left: "ScalarMulG2 L (G2Generator L) (Some s) = Inr (enc2 L s)"
    using ScalarMulG2_den [OF L den2_intros(1) [OF L, of 1], of s] by (simp add: G2Generator_enc2 L)
  let ?sum = "commitment_sum L (AddressToFr L j) 1 c cs'"
  have v: "verify_commitments L j (Some s) cs \<longleftrightarrow> ?sum = Inr (enc2 L s)"
    by (auto simp: verify_commitments_def left Cons G2_IsEqual_def G2Point.expand split: sum.splits)
  show ?thesis
  proof (cases cs')
    case Nil
    then have "?sum = Inr (enc2 L s) \<longleftrightarrow> c = enc2 L s" by simp
    then show ?thesis
      unfolding v using L Nil Cons by (auto simp: commits_to_def list_all2_Cons1)
  next
    case (Cons c1 cs1)
    have "?sum = Inr (enc2 L (peval (a # as) (AddressToFr L j)))"
      if "den2 L c a" "list_all2 (den2 L) cs' as" for a as
      using commitment_sum_eval [OF L that(2,1), of "AddressToFr L j" 1] Cons by auto
    moreover have "\<exists>a as. den2 L c a \<and> list_all2 (den2 L) cs' as" if "?sum = Inr q" for q
      using commitment_sum_InrD [OF L that] Cons by auto
    moreover have "commits_to L cs bs \<longleftrightarrow> (\<exists>a as. bs = a # as \<and> den2 L c a \<and> list_all2 (den2 L) cs' as)" for bs
      using \<open>cs = c # cs'\<close> Cons by (auto simp: commits_to_def list_all2_Cons1)
    ultimately show ?thesis unfolding v using enc2_inj [OF L] by (metis sum.inject(2))
  qed
qed

subsection \<open>The contract of the sharing protocols\<close>

text \<open>
  \<open>deal\<close> makes the shares and commitments of a dealer (it keeps its polynomial, \<open>poly\<close>, for the
  operators \<open>players\<close>), \<open>verify\<close> is a player's check. The laws: a dealer publishes the
  evaluations and the commitments of one polynomial, and a player accepts exactly the evaluation of
  the committed polynomial at its own point.
\<close>

locale share_protocol =
  fixes deal :: "('f :: field, 'g1, 'g2, 'gt) lib \<Rightarrow> 'd \<Rightarrow> ('d \<times> (address, 'f) gomap \<times> G2Point list) res"
    and poly :: "'d \<Rightarrow> 'f list"
    and players :: "'d \<Rightarrow> OperatorSetPeer list"
    and verify :: "('f, 'g1, 'g2, 'gt) lib \<Rightarrow> address \<Rightarrow> 'f option \<Rightarrow> G2Point list \<Rightarrow> bool"
  assumes deal_spec: "curve_laws L \<Longrightarrow> deal L d = Inr (d', shares, cs) \<Longrightarrow>
      shares = shares_for L (poly d') (players d) \<and> cs = map (enc2 L) (poly d')"
    and verify_iff: "curve_laws L \<Longrightarrow> verify L j (Some s) cs \<longleftrightarrow>
      (\<exists>as. commits_to L cs as \<and> s = peval as (AddressToFr L j))"
begin

text \<open>An honest dealer's shares are accepted.\<close>

lemma dealt_shares_accepted:
  assumes "curve_laws L" "deal L d = Inr (d', shares, cs)" "cs \<noteq> []" "(a, s) \<in> set shares"
  shows "verify L a (Some s) cs"
proof -
  note spec = deal_spec [OF assms(1,2)]
  have "s = EvaluatePolynomial L (poly d') a"
    using assms(4) spec by (auto simp: shares_for_GenerateShares set_GenerateShares)
  then have "s = peval (poly d') (AddressToFr L a)"
    using curve_lawsD(5) [OF assms(1)] by (simp add: EvaluatePolynomial_def fr_laws_def)
  moreover have "commits_to L cs (poly d')"
    using spec assms(3) commits_to_enc2 [OF curve_lawsD(2) [OF assms(1)]] by simp
  ultimately show ?thesis using verify_iff [OF assms(1)] by blast
qed

text \<open>Whoever dealt: a player has at most one acceptable share.\<close>

lemma accepted_unique:
  assumes "curve_laws L" "verify L j (Some s) cs" "verify L j (Some s') cs"
  shows "s = s'"
  using assms(2,3) commits_to_unique [OF curve_lawsD(2) [OF assms(1)]] by (auto simp: verify_iff [OF assms(1)])

text \<open>
  Whoever dealt: enough accepted shares, of any players, recover the one scalar that the first
  commitment denotes.
\<close>

lemma accepted_shares_recover:
  assumes "curve_laws L" "distinct (map (AddressToFr L) (gm_keys shares))" "length cs \<le> length shares"
    "shares \<noteq> []" "\<And>a s. (a, s) \<in> set shares \<Longrightarrow> verify L a (Some s) cs"
  shows "\<exists>secret. den2 L (hd cs) secret \<and> RecoverSecret L shares =
     (if secret = 0 then Inl (Errorf ''secret cannot be zero, this should not happen'') else Inr secret)"
proof -
  note L = curve_lawsD [OF assms(1)]
  obtain a s where "(a, s) \<in> set shares" using assms(4) by (cases shares) auto
  then obtain p where p: "commits_to L cs p" using assms(5) verify_iff [OF assms(1)] by blast
  then obtain c cs' x p' where cp: "cs = c # cs'" "p = x # p'" "den2 L c x"
    by (auto simp: commits_to_def neq_Nil_conv list_all2_Cons1)
  have "s = EvaluatePolynomial L p a" if "(a, s) \<in> set shares" for a s
    using assms(5) [OF that] commits_to_unique [OF L(2) p] L(5)
    by (auto simp: verify_iff [OF assms(1)] EvaluatePolynomial_def fr_laws_def)
  then have "RecoverSecret L shares =
      (if peval p 0 = 0 then Inl (Errorf ''secret cannot be zero, this should not happen'') else Inr (peval p 0))"
    using assms(2,3) commits_to_length [OF p] by (intro RecoverSecret_eval [OF L(5)]) auto
  then show ?thesis using cp by auto
qed

end

end
