(* ===== verification/Dkg.thy ===== *)
theory Dkg
  imports Sharing
begin

text \<open>
  \<open>pkg/dkg/dkg.go\<close>: the distributed key generation. Each dealer shares a random polynomial, each
  player checks the shares it receives, and the final share is the sum of the accepted shares. The
  theorems: the player's check is exact (through the interpretation of \<open>share_protocol\<close>), the sum
  of the shares is a sharing of the sum of the secrets, whose public key is the master public key,
  and the threshold \<open>ceil(2n/3)\<close> has the quorum properties the protocol relies on.

  The threshold is a natural number: it is \<open>CalculateThreshold\<close> of the number of operators.
\<close>

record 'f DKG =
  dkg_nodeAddress :: address
  dkg_threshold :: nat
  dkg_operators :: "OperatorSetPeer list"
  dkg_poly :: "'f list"

definition NewDKG :: "address \<Rightarrow> nat \<Rightarrow> OperatorSetPeer list \<Rightarrow> 'f DKG" where
  "NewDKG nodeAddress threshold operators =
     \<lparr>dkg_nodeAddress = nodeAddress, dkg_threshold = threshold, dkg_operators = operators, dkg_poly = []\<rparr>"

text \<open>\<open>rand i\<close> is what \<open>SetRandom\<close> gives for the coefficient \<open>i\<close>, \<open>None\<close> its error.\<close>

definition DKG_GenerateShares ::
  "(nat \<Rightarrow> 'f option) \<Rightarrow> ('f, 'g1, 'g2, 'gt) lib \<Rightarrow> 'f DKG \<Rightarrow>
   ('f DKG \<times> (address, 'f) gomap \<times> G2Point list) res" where
  "DKG_GenerateShares rand L d =
     bind_res (map_res (\<lambda>i. lib_res ''SetRandom'' (rand i)) [0..<dkg_threshold d]) (\<lambda>coeffs.
     let d' = d\<lparr>dkg_poly := coeffs\<rparr>;
         shares = shares_for L (dkg_poly d') (dkg_operators d)
     in bind_res (commitments_to L coeffs) (\<lambda>commitments. Inr (d', shares, commitments)))"

definition DKG_VerifyShare ::
  "('f :: field, 'g1, 'g2, 'gt) lib \<Rightarrow> 'f DKG \<Rightarrow> 'f option \<Rightarrow> G2Point list \<Rightarrow> bool" where
  "DKG_VerifyShare L d share commitments = verify_commitments L (dkg_nodeAddress d) share commitments"

text \<open>Element-wise sum of one dealer's commitments into the combined ones; a failing addition is skipped.\<close>

definition combine_commitments ::
  "('f, 'g1, 'g2, 'gt) lib \<Rightarrow> nat \<Rightarrow> G2Point list \<Rightarrow> G2Point list \<Rightarrow> G2Point list" where
  "combine_commitments L expectedLen commitments combined =
     (if length commitments \<noteq> expectedLen then combined
      else map2 (\<lambda>acc c. case AddG2 L acc c of Inl _ \<Rightarrow> acc | Inr s \<Rightarrow> s) combined commitments)"

definition GetReshareEpoch :: int64 where
  "GetReshareEpoch = 0"

definition FinalizeKeyShare ::
  "('f :: field, 'g1, 'g2, 'gt) lib \<Rightarrow> 'f DKG \<Rightarrow> (address, 'f) gomap \<Rightarrow> G2Point list list \<Rightarrow>
   address list \<Rightarrow> 'f KeyShareVersion" where
  "FinalizeKeyShare L d shares allCommitments participantIDs =
     (let privateShare = fold (\<lambda>(_, share) acc. acc + share) shares 0;
          combinedCommitments =
            (if allCommitments = [] then []
             else fold (combine_commitments L (dkg_threshold d)) allCommitments
                    (replicate (dkg_threshold d) (ZeroG2Point L)))
      in \<lparr>Version = GetReshareEpoch, PrivateShare = Some privateShare, Commitments = combinedCommitments,
          MasterPublicKey = None, IsActive = True, ParticipantIDs = participantIDs\<rparr>)"

definition CalculateThreshold :: "int \<Rightarrow> int" where
  "CalculateThreshold n = (2 * n + 2) div 3"

subsection \<open>The contract\<close>

lemma DKG_GenerateShares_spec:
  assumes "curve_laws L" "DKG_GenerateShares rand L d = Inr (d', shares, cs)"
  shows "shares = shares_for L (dkg_poly d') (dkg_operators d) \<and> cs = map (enc2 L) (dkg_poly d') \<and>
     length (dkg_poly d') = dkg_threshold d"
  using assms(2) commitments_to_enc2 [OF curve_lawsD(2) [OF assms(1)]]
  by (auto simp: DKG_GenerateShares_def res_simps Let_def map_res_eq_Inr dest: list_all2_lengthD)

interpretation dkg: share_protocol
  "DKG_GenerateShares rand" dkg_poly dkg_operators
  "\<lambda>L a. DKG_VerifyShare L (NewDKG a threshold operators)"
  by unfold_locales
     (use DKG_GenerateShares_spec in \<open>fastforce\<close>,
      simp add: DKG_VerifyShare_def NewDKG_def verify_commitments_iff)

lemma DKG_VerifyShare_node:
  "DKG_VerifyShare L (NewDKG (dkg_nodeAddress d) threshold operators) = DKG_VerifyShare L d"
  by (simp add: fun_eq_iff DKG_VerifyShare_def NewDKG_def)

text \<open>
  C21. Verifiable secret sharing in DKG: whatever a dealer published, the shares that players accept
  with \<open>DKG.VerifyShare\<close> are bound to its commitments: as soon as there are as many as
  commitments, any choice of them recovers the one secret that the first commitment denotes.
\<close>

theorem DKG_accepted_shares_recover:
  assumes "curve_laws L" "distinct (map (AddressToFr L) (gm_keys shares))" "length cs \<le> length shares"
    "shares \<noteq> []" "\<forall>(a, s) \<in> set shares. DKG_VerifyShare L (NewDKG a threshold operators) (Some s) cs"
  shows "\<exists>secret. den2 L (hd cs) secret \<and> RecoverSecret L shares =
     (if secret = 0 then Inl (Errorf ''secret cannot be zero, this should not happen'') else Inr secret)"
  using assms by (intro dkg.accepted_shares_recover) auto

lemma mock_verify:
  "poly \<noteq> [] \<Longrightarrow> s = peval poly (gf_of_int (uint a)) \<Longrightarrow>
     verify_commitments mock_lib a (Some s) (map (enc2 mock_lib) poly)"
  using commits_to_enc2 [OF curve_lawsD(2) [OF mock_lib_laws], of poly]
  by (auto simp: AddressToFr_mock verify_commitments_iff [OF mock_lib_laws])

theorem DKG_accepted_shares_recover_witness:
  "\<exists>secret. den2 mock_lib (hd (map (enc2 mock_lib) [5, 2])) secret \<and>
     RecoverSecret mock_lib [(3, 11), (1, 7)] =
     (if secret = 0 then Inl (Errorf ''secret cannot be zero, this should not happen'') else Inr secret)"
proof (rule DKG_accepted_shares_recover [OF mock_lib_laws, where threshold = 2 and operators = "[]"])
  show "distinct (map (AddressToFr mock_lib) (gm_keys [(3, 11 :: gf), (1, 7)]))"
    by (simp add: AddressToFr_mock) code_simp
  have "11 = peval [5, 2] (gf_of_int (uint (3 :: address)))" "7 = peval [5, 2] (gf_of_int (uint (1 :: address)))"
    by (simp_all, code_simp+)
  then show "\<forall>(a, s) \<in> set [(3, 11), (1, 7)].
      DKG_VerifyShare mock_lib (NewDKG a 2 []) (Some s) (map (enc2 mock_lib) [5, 2])"
    using mock_verify [of "[5, 2]" 11 3] mock_verify [of "[5, 2]" 7 1]
    by (simp add: DKG_VerifyShare_def NewDKG_def del: peval.simps)
qed simp_all

subsection \<open>The generated key\<close>

lemma FinalizeKeyShare_share:
  "PrivateShare (FinalizeKeyShare L d shares css ids) = Some (sum_list (map snd shares))"
  using fold_add_sum_list [of snd shares 0] by (simp add: FinalizeKeyShare_def Let_def case_prod_unfold)

lemma combine_commitments_den:
  assumes "g2_laws L" "list_all2 (den2 L) combined xs" "list_all2 (den2 L) cs as" "length as = length xs"
  shows "combine_commitments L (length xs) cs combined = map (enc2 L) (map2 (+) xs as)"
proof (rule nth_equalityI)
  have len: "length combined = length xs" "length cs = length xs"
    using assms(2-) list_all2_lengthD by fastforce+
  then show "length (combine_commitments L (length xs) cs combined) = length (map (enc2 L) (map2 (+) xs as))"
    using assms(4) by (simp add: combine_commitments_def)
  fix i assume "i < length (combine_commitments L (length xs) cs combined)"
  then have i: "i < length xs" using len by (simp add: combine_commitments_def)
  then have "den2 L (combined ! i) (xs ! i)" "den2 L (cs ! i) (as ! i)"
    using assms(2,3) len by (simp_all add: list_all2_conv_all_nth)
  from AddG2_den [OF assms(1) this] i len assms(4)
  show "combine_commitments L (length xs) cs combined ! i = map (enc2 L) (map2 (+) xs as) ! i"
    by (simp add: combine_commitments_def)
qed

lemma combined_commitments:
  assumes "g2_laws L" "\<And>d. d \<in> set ds \<Longrightarrow> list_all2 (den2 L) (cs d) (P d) \<and> length (P d) = t"
    "list_all2 (den2 L) combined xs" "length xs = t" "ds \<noteq> []"
  shows "fold (combine_commitments L t) (map cs ds) combined =
     map (\<lambda>k. enc2 L (xs ! k + (\<Sum>d\<leftarrow>ds. P d ! k))) [0..<t]"
  using assms(2-)
proof (induction ds arbitrary: combined xs)
  case (Cons d ds)
  have c: "combine_commitments L t (cs d) combined = map (enc2 L) (map2 (+) xs (P d))"
    using combine_commitments_den [OF assms(1) Cons.prems(2), of "cs d" "P d"] Cons.prems(1,3) by simp
  have nth: "map2 (+) xs (P d) ! k = xs ! k + P d ! k" if "k < t" for k using that Cons.prems(1,3) by simp
  show ?case
  proof (cases "ds = []")
    case True
    then show ?thesis using c Cons.prems(1,3) by (auto intro!: nth_equalityI simp: c)
  next
    case False
    have "list_all2 (den2 L) (map (enc2 L) (map2 (+) xs (P d))) (map2 (+) xs (P d))"
      using assms(1) by (rule list_all2_enc2)
    from Cons.IH [OF _ this _ False] show ?thesis
      using Cons.prems(1,3) by (auto simp: c nth add.assoc intro!: map_cong)
  qed
qed simp

text \<open>The combined commitments of dealers that committed to polynomials of the right length.\<close>

lemma FinalizeKeyShare_commitments:
  assumes "g2_laws L" "\<And>d. d \<in> set ds \<Longrightarrow> list_all2 (den2 L) (cs d) (P d) \<and> length (P d) = dkg_threshold self" "ds \<noteq> []"
  shows "Commitments (FinalizeKeyShare L self shares (map cs ds) ids) =
     map (\<lambda>k. enc2 L (\<Sum>d\<leftarrow>ds. P d ! k)) [0..<dkg_threshold self]"
proof -
  have "list_all2 (den2 L) (replicate (dkg_threshold self) (ZeroG2Point L)) (replicate (dkg_threshold self) 0)"
    using assms(1) by (simp add: list_all2_conv_all_nth)
  from combined_commitments [OF assms(1,2) this _ assms(3)]
  have "fold (combine_commitments L (dkg_threshold self)) (map cs ds) (replicate (dkg_threshold self) (ZeroG2Point L)) =
      map (\<lambda>k. enc2 L (\<Sum>d\<leftarrow>ds. P d ! k)) [0..<dkg_threshold self]"
    by (auto intro: map_cong)
  then show ?thesis using assms(3) by (simp add: FinalizeKeyShare_def Let_def)
qed

lemma DKG_mpk:
  assumes "curve_laws L" "\<And>p. p \<in> set ps \<Longrightarrow> p \<noteq> []"
  shows "ComputeMasterPublicKey L (map (map (enc2 L)) ps) =
     (if (\<Sum>p\<leftarrow>ps. hd p) = 0 then Inl (Errorf ''computed master public key is zero'')
      else Inr (enc2 L (\<Sum>p\<leftarrow>ps. hd p)))"
proof -
  note L2 = curve_lawsD(2) [OF assms(1)]
  let ?s = "\<lambda>cs. THE x. den2 L (hd cs) x"
  have s: "?s (map (enc2 L) p) = hd p" if "p \<in> set ps" for p
    using assms(2) [OF that] L2 by (simp add: hd_map)
  have "filter (\<lambda>cs. cs \<noteq> []) (map (map (enc2 L)) ps) = map (map (enc2 L)) ps"
    using assms(2) by (auto simp: filter_id_conv)
  moreover have "(\<Sum>cs\<leftarrow>map (map (enc2 L)) ps. ?s cs) = (\<Sum>p\<leftarrow>ps. hd p)"
    unfolding map_map by (rule sum_list_cong) (simp add: s)
  moreover have "\<forall>cs \<in> set (map (map (enc2 L)) ps). cs \<noteq> [] \<longrightarrow> den2 L (hd cs) (?s cs)"
    using s assms(2) L2 by (auto simp: hd_map)
  ultimately show ?thesis
    using ComputeMasterPublicKey_den [OF assms(1), of "map (map (enc2 L)) ps" ?s] by (simp add: Let_def)
qed

text \<open>
  C3. Key generation is correct: when every dealer's \<open>GenerateShares\<close> succeeded and every node
  finalises with the shares and commitments of the same dealers (in any order of its map), then the
  nodes' final shares are a sharing of the sum of the dealers' secrets with the threshold, the
  master public key is the public key of that sum, and all nodes hold the same combined commitments.
\<close>

theorem DKG_correct:
  assumes "curve_laws L" "0 < t" "dealers \<noteq> []"
    "distinct (map (AddressToFr L) nodes)" "t \<le> length nodes"
    "\<forall>d \<in> set dealers. dkg_threshold (start d) = t \<and> set nodes \<subseteq> OperatorAddress ` set (dkg_operators (start d)) \<and>
       DKG_GenerateShares (rnd d) L (start d) = Inr (dealt d, sh d, cs d)"
    "\<forall>j \<in> set nodes. dkg_threshold (self j) = t \<and>
       mset (received j) = mset (map (\<lambda>d. (d, the (gm_get (sh d) j))) dealers)"
  shows "let S = (\<Sum>d\<leftarrow>dealers. hd (dkg_poly (dealt d)));
             key = (\<lambda>j. FinalizeKeyShare L (self j) (received j) (map cs dealers) dealers)
         in RecoverSecret L (map (\<lambda>j. (j, the (PrivateShare (key j)))) nodes) =
              (if S = 0 then Inl (Errorf ''secret cannot be zero, this should not happen'') else Inr S) \<and>
            ComputeMasterPublicKey L (map cs dealers) =
              (if S = 0 then Inl (Errorf ''computed master public key is zero'') else Inr (enc2 L S)) \<and>
            (\<forall>j \<in> set nodes. Commitments (key j) =
               map (\<lambda>k. enc2 L (\<Sum>d\<leftarrow>dealers. dkg_poly (dealt d) ! k)) [0..<t])"
proof -
  note L = curve_lawsD [OF assms(1)]
  define P where "P d = dkg_poly (dealt d)" for d
  have spec: "sh d = shares_for L (P d) (dkg_operators (start d)) \<and> cs d = map (enc2 L) (P d) \<and> length (P d) = t"
    if "d \<in> set dealers" for d
    using DKG_GenerateShares_spec [OF assms(1)] assms(6) that by (metis P_def)
  define S where "S = (\<Sum>d\<leftarrow>dealers. hd (P d))"
  define key where "key j = FinalizeKeyShare L (self j) (received j) (map cs dealers) dealers" for j
  let ?F = "psum (\<lambda>_. 1) P dealers"
  have "(\<Sum>k\<leftarrow>dealers. peval (P k) 0) = S"
    unfolding S_def using spec assms(2) by (intro sum_list_cong) (auto split: list.splits)
  then have F0: "peval ?F 0 = S" by (simp only: peval_psum mult_1)
  have Flen: "length ?F \<le> t" using spec by (intro length_psum) auto
  have css: "map cs dealers = map (map (enc2 L)) (map P dealers)" using spec by simp
  have share: "PrivateShare (key j) = Some (EvaluatePolynomial L ?F j)" if j: "j \<in> set nodes" for j
  proof -
    have "sum_list (map snd (received j)) = (\<Sum>d\<leftarrow>dealers. the (gm_get (sh d) j))"
      using sum_list_perm [of "map snd (received j)" "map snd (map (\<lambda>d. (d, the (gm_get (sh d) j))) dealers)"]
        assms(7) j by (simp only: mset_map) (simp add: o_def)
    also have "\<dots> = (\<Sum>d\<leftarrow>dealers. peval (P d) (AddressToFr L j))"
    proof (rule sum_list_cong)
      fix d assume d: "d \<in> set dealers"
      then have "j \<in> OperatorAddress ` set (dkg_operators (start d))" using assms(6) j by blast
      then show "the (gm_get (sh d) j) = peval (P d) (AddressToFr L j)"
        using spec [OF d] L(5) by (simp add: gm_get_shares_for EvaluatePolynomial_def fr_laws_def)
    qed
    finally show ?thesis
      using L(5) by (simp add: key_def FinalizeKeyShare_share EvaluatePolynomial_def fr_laws_def)
  qed
  have "RecoverSecret L (map (\<lambda>j. (j, the (PrivateShare (key j)))) nodes) =
      (if S = 0 then Inl (Errorf ''secret cannot be zero, this should not happen'') else Inr S)"
    unfolding F0 [symmetric]
    by (rule RecoverSecret_eval [OF L(5)]) (use assms(4,5) Flen share in \<open>auto simp: o_def\<close>)
  moreover have "ComputeMasterPublicKey L (map cs dealers) =
      (if S = 0 then Inl (Errorf ''computed master public key is zero'') else Inr (enc2 L S))"
  proof -
    have "p \<noteq> []" if "p \<in> set (map P dealers)" for p using that spec assms(2) by auto
    from DKG_mpk [of L "map P dealers", OF assms(1) this] show ?thesis
      unfolding css by (simp only: map_map S_def o_def)
  qed
  moreover have "Commitments (key j) = map (\<lambda>k. enc2 L (\<Sum>d\<leftarrow>dealers. P d ! k)) [0..<t]" if "j \<in> set nodes" for j
    using FinalizeKeyShare_commitments [OF L(2) _ assms(3), of cs P "self j" "received j" dealers] assms(7) that spec list_all2_enc2 [OF L(2)]
    by (simp add: key_def)
  ultimately show ?thesis by (simp add: S_def key_def P_def)
qed

definition mock_peer :: "address \<Rightarrow> OperatorSetPeer" where
  "mock_peer a = \<lparr>OperatorAddress = a, SocketAddress = [],
     peer_WrappedPublicKey = \<lparr>wpk_PublicKey = [], wpk_ECDSAAddress = a\<rparr>, CurveType = []\<rparr>"

definition mock_ops :: "OperatorSetPeer list" where
  "mock_ops = map mock_peer [1, 2, 3]"

definition mock_poly :: "address \<Rightarrow> gf list" where
  "mock_poly d = replicate 2 (gf_of_int (uint d))"

text \<open>Three nodes with the threshold 2; the polynomial of dealer \<open>d\<close> is \<open>d + d x\<close>.\<close>

theorem DKG_correct_witness:
  "let S = (\<Sum>d\<leftarrow>[1, 2, 3]. hd (mock_poly d));
             key = (\<lambda>j. FinalizeKeyShare mock_lib (NewDKG j 2 mock_ops)
                     (map (\<lambda>d. (d, the (gm_get (shares_for mock_lib (mock_poly d) mock_ops) j))) [3, 1, 2])
                     (map (\<lambda>d. map (enc2 mock_lib) (mock_poly d)) [1, 2, 3]) [1, 2, 3])
         in RecoverSecret mock_lib (map (\<lambda>j. (j, the (PrivateShare (key j)))) [1, 3]) =
              (if S = 0 then Inl (Errorf ''secret cannot be zero, this should not happen'') else Inr S) \<and>
            ComputeMasterPublicKey mock_lib (map (\<lambda>d. map (enc2 mock_lib) (mock_poly d)) [1, 2, 3]) =
              (if S = 0 then Inl (Errorf ''computed master public key is zero'') else Inr (enc2 mock_lib S)) \<and>
            (\<forall>j \<in> set [1, 3]. Commitments (key j) =
               map (\<lambda>k. enc2 mock_lib (\<Sum>d\<leftarrow>[1, 2, 3]. mock_poly d ! k)) [0..<2])"
proof -
  note L2 = curve_lawsD(2) [OF mock_lib_laws]
  let ?dealt = "\<lambda>d. (NewDKG d 2 mock_ops)\<lparr>dkg_poly := mock_poly d\<rparr>"
  have deal: "DKG_GenerateShares (\<lambda>_. Some (gf_of_int (uint d))) mock_lib (NewDKG d 2 mock_ops) =
      Inr (?dealt d, shares_for mock_lib (mock_poly d) mock_ops, map (enc2 mock_lib) (mock_poly d))" for d
    by (simp add: DKG_GenerateShares_def NewDKG_def mock_poly_def commitments_to_enc2 [OF L2] numeral_2_eq_2)
  have pts: "distinct (map (AddressToFr mock_lib) [1, 3])" by (simp add: AddressToFr_mock) code_simp
  have d: "\<forall>d \<in> set [1, 2, 3]. dkg_threshold (NewDKG d 2 mock_ops :: gf DKG) = 2 \<and>
      set [1, 3] \<subseteq> OperatorAddress ` set (dkg_operators (NewDKG d 2 mock_ops :: gf DKG)) \<and>
      DKG_GenerateShares (\<lambda>_. Some (gf_of_int (uint d))) mock_lib (NewDKG d 2 mock_ops) =
        Inr (?dealt d, shares_for mock_lib (mock_poly d) mock_ops, map (enc2 mock_lib) (mock_poly d))"
    using deal by (simp add: NewDKG_def mock_ops_def mock_peer_def)
  have r: "\<forall>j \<in> set [1, 3]. dkg_threshold (NewDKG j 2 mock_ops :: gf DKG) = 2 \<and>
      mset (map (\<lambda>d. (d, the (gm_get (shares_for mock_lib (mock_poly d) mock_ops) j))) [3, 1, 2]) =
      mset (map (\<lambda>d. (d, the (gm_get (shares_for mock_lib (mock_poly d) mock_ops) j))) [1, 2, 3])"
    by (simp add: NewDKG_def)
  show ?thesis
    using DKG_correct [OF mock_lib_laws _ _ pts _ d r] by (simp add: NewDKG_def)
qed

text \<open>
  C37. The threshold \<open>ceil(2n/3)\<close>: with \<open>f\<close> faulty operators and \<open>3 f < n\<close>, the honest ones
  alone reach it, the faulty ones stay below half of it, and any two sets of \<open>threshold\<close>
  operators have an honest one in common.
\<close>

theorem CalculateThreshold_quorum:
  assumes "0 \<le> f" "3 * f < n"
  shows "3 * CalculateThreshold n \<ge> 2 * n \<and> 3 * (CalculateThreshold n - 1) < 2 * n \<and>
     CalculateThreshold n \<le> n - f \<and> 2 * f < CalculateThreshold n \<and> f < 2 * CalculateThreshold n - n"
  using assms unfolding CalculateThreshold_def by presburger

theorem CalculateThreshold_quorum_witness:
  "3 * CalculateThreshold 7 \<ge> 2 * 7 \<and> 3 * (CalculateThreshold 7 - 1) < 2 * 7 \<and>
     CalculateThreshold 7 \<le> 7 - 2 \<and> 2 * 2 < CalculateThreshold 7 \<and> 2 < 2 * CalculateThreshold 7 - 7"
  by (rule CalculateThreshold_quorum) simp_all

end
