(* ===== verification/Reshare.thy ===== *)
theory Reshare
  imports Dkg
begin

text \<open>
  \<open>pkg/reshare/reshare.go\<close>: re-sharing the key to a new operator set. A dealer shares its current
  share, players combine the dealers' shares with Lagrange coefficients; before that the agreed
  dealers are filtered by their on-chain commitment and by the majority of their source versions, and
  the refreshed key is validated against the master public key. The theorems: the secret is
  preserved, the validation accepts exactly the dealer sets that preserve it, the source-version
  filter binds what a dealer advertises, and the majority is independent of map order.
\<close>

record 'f Reshare =
  rs_nodeAddress :: address
  rs_operators :: "OperatorSetPeer list"
  rs_poly :: "'f list"

definition NewReshare :: "address \<Rightarrow> OperatorSetPeer list \<Rightarrow> 'f Reshare" where
  "NewReshare nodeAddress operators =
     \<lparr>rs_nodeAddress = nodeAddress, rs_operators = operators, rs_poly = []\<rparr>"

definition GenerateNewShares ::
  "(nat \<Rightarrow> 'f option) \<Rightarrow> 'f option \<Rightarrow> nat \<Rightarrow> ('f, 'g1, 'g2, 'gt) lib \<Rightarrow> 'f Reshare \<Rightarrow>
   ('f Reshare \<times> (address, 'f) gomap \<times> G2Point list) res" where
  "GenerateNewShares rand currentShare newThreshold L r =
     (case currentShare of
        None \<Rightarrow> Inl (Errorf ''no current share to reshare'')
      | Some cur \<Rightarrow>
          if newThreshold = 0 then Inl (Panic ''index out of range'')
          else
            bind_res (map_res (\<lambda>i. lib_res ''SetRandom'' (rand i)) [1..<newThreshold]) (\<lambda>rest.
            let coeffs = cur # rest;
                r' = r\<lparr>rs_poly := coeffs\<rparr>;
                newShares = shares_for L (rs_poly r') (rs_operators r)
            in bind_res (commitments_to L coeffs) (\<lambda>commitments. Inr (r', newShares, commitments))))"

definition VerifyNewShare ::
  "('f :: field, 'g1, 'g2, 'gt) lib \<Rightarrow> 'f Reshare \<Rightarrow> 'f option \<Rightarrow> G2Point list \<Rightarrow> bool" where
  "VerifyNewShare L r share commitments = verify_commitments L (rs_nodeAddress r) share commitments"

text \<open>A map lookup that is missing gives a nil share, which the loop skips.\<close>

definition ComputeNewKeyShare ::
  "('f :: field, 'g1, 'g2, 'gt) lib \<Rightarrow> 'f Reshare \<Rightarrow> address list \<Rightarrow> (address, 'f option) gomap \<Rightarrow>
   'f KeyShareVersion res" where
  "ComputeNewKeyShare L r dealers shares =
     (if dealers = [] then Inl (Errorf ''no dealer IDs provided'')
      else
        let newShare = fold (\<lambda>dealerAddr acc.
              case gm_get shares dealerAddr of
                Some (Some share) \<Rightarrow> acc + ComputeLagrangeCoefficient L dealerAddr dealers * share
              | _ \<Rightarrow> acc) dealers 0
        in
        bind_res (wrap_err ''failed to compute share commitment''
          (ScalarMulG2 L (G2Generator L) (Some newShare))) (\<lambda>shareCommitment.
        bind_res (wrap_err ''failed to scale commitment''
          (ScalarMulG2 L shareCommitment (Some (ComputeLagrangeCoefficient L (rs_nodeAddress r) dealers))))
          (\<lambda>scaledCommitment.
        Inr \<lparr>Version = 0, PrivateShare = Some newShare, Commitments = [scaledCommitment],
             MasterPublicKey = None, IsActive = False, ParticipantIDs = dealers\<rparr>)))"

text \<open>One round of the loop over the dealers; \<open>runningSum\<close> is the variable \<open>sum\<close>, nil at first.\<close>

definition validate_step ::
  "('f :: field, 'g1, 'g2, 'gt) lib \<Rightarrow> address list \<Rightarrow> (address, G2Point list) gomap \<Rightarrow> address \<Rightarrow>
   G2Point option \<Rightarrow> G2Point option res" where
  "validate_step L dealers commitmentsByDealer dealer runningSum =
     (case gm_get commitmentsByDealer dealer of
        Some (c0 # _) \<Rightarrow>
          bind_res (wrap_err ''failed to scale commitment for dealer''
            (ScalarMulG2 L c0 (Some (ComputeLagrangeCoefficient L dealer dealers)))) (\<lambda>term.
          case runningSum of
            None \<Rightarrow> Inr (Some term)
          | Some acc \<Rightarrow>
              bind_res (wrap_err ''failed to accumulate commitment for dealer'' (AddG2 L acc term))
                (\<lambda>s. Inr (Some s)))
      | _ \<Rightarrow> Inl (Errorf ''missing commitments for agreed dealer; cannot validate MPK''))"

definition ValidateReshareMasterPublicKey ::
  "('f :: field, 'g1, 'g2, 'gt) lib \<Rightarrow> address list \<Rightarrow> (address, G2Point list) gomap \<Rightarrow> G2Point option \<Rightarrow>
   unit res" where
  "ValidateReshareMasterPublicKey L dealers commitmentsByDealer expectedMPK =
     (if dealers = [] then Inl (Errorf ''no dealers provided for MPK validation'')
      else case expectedMPK of
        None \<Rightarrow> Inl (Errorf ''no expected master public key provided for MPK validation'')
      | Some mpk \<Rightarrow>
          bind_res (fold_res (validate_step L dealers commitmentsByDealer) dealers None) (\<lambda>runningSum.
          case runningSum of
            None \<Rightarrow> Inl (Errorf ''internal: MPK sum is nil'')
          | Some s \<Rightarrow>
              if \<not> G2_IsEqual s mpk then Inl (Errorf ''post-reshare master public key mismatch'')
              else Inr ()))"

definition VerifyDealerSourceVersions ::
  "('f, 'g1, 'g2, 'gt) lib \<Rightarrow> address list \<Rightarrow> (address, bytes) gomap \<Rightarrow> (address, G2Point list) gomap \<Rightarrow>
   (address, int64) gomap \<Rightarrow> address list \<times> (address, int64) gomap" where
  "VerifyDealerSourceVersions L agreedDealers onChainHashes commitmentsByDealer sourceVersions =
     fold (\<lambda>dealer (verified, verifiedVersions).
         case (gm_get onChainHashes dealer, gm_get sourceVersions dealer) of
           (Some onChain, Some sv) \<Rightarrow>
             let commits = (case gm_get commitmentsByDealer dealer of None \<Rightarrow> [] | Some cs \<Rightarrow> cs) in
             if commits = [] \<or> HashReshareCommitment L commits sv \<noteq> onChain
             then (verified, verifiedVersions)
             else (verified @ [dealer], gm_set verifiedVersions dealer sv)
         | _ \<Rightarrow> (verified, verifiedVersions))
       agreedDealers ([], [])"

text \<open>A missing source version reads as zero.\<close>

definition version_of :: "(address, int64) gomap \<Rightarrow> address \<Rightarrow> int64" where
  "version_of sourceVersions d = (case gm_get sourceVersions d of None \<Rightarrow> 0 | Some v \<Rightarrow> v)"

definition count_versions :: "address list \<Rightarrow> (address, int64) gomap \<Rightarrow> (int64, nat) gomap" where
  "count_versions dealers sourceVersions =
     fold (\<lambda>d counts.
         let v = version_of sourceVersions d in
         if v \<noteq> 0 then gm_set counts v ((case gm_get counts v of None \<Rightarrow> 0 | Some c \<Rightarrow> c) + 1) else counts)
       dealers []"

definition best_version :: "(int64, nat) gomap \<Rightarrow> int64 \<times> nat" where
  "best_version counts =
     fold (\<lambda>(v, c) (bestVersion, bestCount).
         if c > bestCount \<or> (c = bestCount \<and> v > bestVersion) then (v, c) else (bestVersion, bestCount))
       counts (0, 0)"

text \<open>\<open>order\<close> is the order in which the runtime visits the entries of the map \<open>counts\<close>.\<close>

definition SelectMajoritySourceVersion ::
  "((int64, nat) gomap \<Rightarrow> (int64, nat) gomap) \<Rightarrow> address list \<Rightarrow> (address, int64) gomap \<Rightarrow> int \<Rightarrow>
   (address list \<times> int64) res" where
  "SelectMajoritySourceVersion order dealers sourceVersions threshold =
     (if dealers = [] then Inl (Errorf ''no dealers provided for source-version selection'')
      else
        let (bestVersion, bestCount) = best_version (order (count_versions dealers sourceVersions)) in
        if int bestCount < threshold then Inl (Errorf ''majority source version has too few dealers; aborting'')
        else Inr (filter (\<lambda>d. version_of sourceVersions d = bestVersion) dealers, bestVersion))"

definition CreateCompletionSignature ::
  "address \<Rightarrow> int64 \<Rightarrow> bytes \<Rightarrow> (int64 \<Rightarrow> bytes \<Rightarrow> bytes) \<Rightarrow> CompletionSignature" where
  "CreateCompletionSignature nodeAddress epoch commitmentHash signer =
     \<lparr>cs_NodeAddress = nodeAddress, cs_SessionTimestamp = epoch, cs_CommitmentHash = commitmentHash,
      cs_Signature = signer epoch commitmentHash\<rparr>"

subsection \<open>The contract\<close>

lemma GenerateNewShares_spec:
  assumes "curve_laws L" "GenerateNewShares rand cur t L r = Inr (r', shares, cs)"
  shows "shares = shares_for L (rs_poly r') (rs_operators r) \<and> cs = map (enc2 L) (rs_poly r') \<and>
     length (rs_poly r') = t \<and> cur = Some (hd (rs_poly r')) \<and> 0 < t"
  using assms(2) commitments_to_enc2 [OF curve_lawsD(2) [OF assms(1)]]
  by (auto simp: GenerateNewShares_def res_simps Let_def map_res_eq_Inr split: option.splits if_splits
      dest: list_all2_lengthD)

interpretation reshare: share_protocol
  "GenerateNewShares rand cur t" rs_poly rs_operators
  "\<lambda>L a. VerifyNewShare L (NewReshare a operators)"
  by unfold_locales
     (use GenerateNewShares_spec in \<open>fastforce\<close>,
      simp add: VerifyNewShare_def NewReshare_def verify_commitments_iff)

text \<open>
  The three share verifiers agree: on commitments that decode, and that are canonical when there
  is only one, \<open>bls.VerifyShare\<close> (a multi-exponentiation), \<open>DKG.VerifyShare\<close> and
  \<open>Reshare.VerifyNewShare\<close> (running sums of serialised points) give the same answer.
\<close>

theorem share_verifiers_agree:
  assumes "curve_laws L" "commits_to L cs as" "dkg_nodeAddress d = a" "rs_nodeAddress r = a"
    "map_res (\<lambda>c. G2PointFromCompressedBytes L (g2_CompressedBytes c)) cs = Inr pts"
  shows "VerifyShare L a (Some s) (map Some pts) = Inr (DKG_VerifyShare L d (Some s) cs) \<and>
     DKG_VerifyShare L d (Some s) cs = VerifyNewShare L r (Some s) cs"
proof -
  note L = curve_lawsD [OF assms(1)]
  have ne: "as \<noteq> []" using assms(2) by (auto simp: commits_to_def)
  have "map_res (\<lambda>c. G2PointFromCompressedBytes L (g2_CompressedBytes c)) cs =
      Inr (map (\<lambda>x. Point (Some (mul2 L x))) as)"
    unfolding map_res_eq_Inr using assms(2)
    by (auto simp: commits_to_def list_all2_conv_all_nth intro: den2_FromCompressedBytes)
  then have pts: "map Some pts = map (\<lambda>x. Some (Point (Some (mul2 L x)))) as" using assms(5) by simp
  have "verify_commitments L a (Some s) cs \<longleftrightarrow> s = peval as (AddressToFr L a)"
    using verify_commitments_iff [OF assms(1)] commits_to_unique [OF L(2) assms(2)] assms(2) by blast
  then show ?thesis
    unfolding pts VerifyShare_mul2 [OF L(2) ne] DKG_VerifyShare_def VerifyNewShare_def assms(3,4) by simp
qed

theorem share_verifiers_agree_witness:
  "VerifyShare mock_lib 1 (Some 7) (map Some [Point (Some 5), Point (Some 2)]) =
     Inr (DKG_VerifyShare mock_lib (NewDKG 1 2 []) (Some 7) [enc2 mock_lib 5, enc2 mock_lib 2]) \<and>
   DKG_VerifyShare mock_lib (NewDKG 1 2 []) (Some 7) [enc2 mock_lib 5, enc2 mock_lib 2] =
     VerifyNewShare mock_lib (NewReshare 1 []) (Some 7) [enc2 mock_lib 5, enc2 mock_lib 2]"
proof (rule share_verifiers_agree [OF mock_lib_laws, where as = "[5, 2]"])
  note L2 = curve_lawsD(2) [OF mock_lib_laws]
  show "commits_to mock_lib [enc2 mock_lib 5, enc2 mock_lib 2] [5, 2]"
    using commits_to_enc2 [OF L2, of "[5, 2]"] by simp
  have "mul2 mock_lib x = x" for x by (simp add: mock_lib_def)
  then show "map_res (\<lambda>c. G2PointFromCompressedBytes mock_lib (g2_CompressedBytes c))
      [enc2 mock_lib 5, enc2 mock_lib 2] = Inr [Point (Some 5), Point (Some 2)]"
    by (simp add: den2_FromCompressedBytes [OF den2_intros(1) [OF L2]])
qed (simp_all add: NewDKG_def NewReshare_def)

subsection \<open>The refreshed key\<close>

text \<open>The new share of a node that holds the evaluation of every dealer's polynomial.\<close>

lemma ComputeNewKeyShare_eval:
  assumes "curve_laws L" "dealers \<noteq> []"
    "\<And>d. d \<in> set dealers \<Longrightarrow> gm_get shares d = Some (Some (peval (P d) (AddressToFr L (rs_nodeAddress r))))"
  defines "G \<equiv> psum (\<lambda>d. ComputeLagrangeCoefficient L d dealers) P dealers"
  shows "\<exists>key. ComputeNewKeyShare L r dealers shares = Inr key \<and>
     PrivateShare key = Some (EvaluatePolynomial L G (rs_nodeAddress r)) \<and> ParticipantIDs key = dealers \<and>
     Version key = 0 \<and> \<not> IsActive key \<and> MasterPublicKey key = None"
proof -
  note L = curve_lawsD [OF assms(1)]
  let ?f = "\<lambda>d. ComputeLagrangeCoefficient L d dealers * peval (P d) (AddressToFr L (rs_nodeAddress r))"
  have "fold (\<lambda>d acc. case gm_get shares d of
      Some (Some share) \<Rightarrow> acc + ComputeLagrangeCoefficient L d dealers * share | _ \<Rightarrow> acc) dealers 0 =
      fold (\<lambda>d acc. acc + ?f d) dealers 0"
    using assms(3) by (intro fold_cong refl) simp
  also have "\<dots> = EvaluatePolynomial L G (rs_nodeAddress r)"
    using L(5) by (simp add: fold_add_sum_list G_def EvaluatePolynomial_def fr_laws_def)
  finally show ?thesis
    using assms(2) ScalarMulG2_den [OF L(2) den2_intros(1) [OF L(2)]]
    by (simp add: ComputeNewKeyShare_def Let_def G2Generator_enc2 [OF L(2)])
qed

lemma new_shares_recover:
  assumes "curve_laws L" "dealers \<noteq> []" "distinct (map (AddressToFr L) nodes)" "t \<le> length nodes"
    "\<And>d. d \<in> set dealers \<Longrightarrow> length (P d) \<le> t" "\<And>j. j \<in> set nodes \<Longrightarrow> rs_nodeAddress (self j) = j"
    "\<And>j d. j \<in> set nodes \<Longrightarrow> d \<in> set dealers \<Longrightarrow>
       gm_get (received j) d = Some (Some (peval (P d) (AddressToFr L j)))"
  defines "S \<equiv> \<Sum>d\<leftarrow>dealers. ComputeLagrangeCoefficient L d dealers * peval (P d) 0"
  shows "\<exists>key. (\<forall>j \<in> set nodes. ComputeNewKeyShare L (self j) dealers (received j) = Inr (key j)) \<and>
     RecoverSecret L (map (\<lambda>j. (j, the (PrivateShare (key j)))) nodes) =
       (if S = 0 then Inl (Errorf ''secret cannot be zero, this should not happen'') else Inr S)"
proof -
  let ?G = "psum (\<lambda>d. ComputeLagrangeCoefficient L d dealers) P dealers"
  have "\<exists>key. ComputeNewKeyShare L (self j) dealers (received j) = Inr key \<and>
      PrivateShare key = Some (EvaluatePolynomial L ?G j)" if "j \<in> set nodes" for j
    using ComputeNewKeyShare_eval [OF assms(1,2), of "received j" P "self j"] assms(6,7) that by auto
  then obtain key where key: "\<forall>j \<in> set nodes. ComputeNewKeyShare L (self j) dealers (received j) = Inr (key j) \<and>
      PrivateShare (key j) = Some (EvaluatePolynomial L ?G j)" by metis
  have "S = peval ?G 0" unfolding S_def by (simp only: peval_psum)
  moreover have "length ?G \<le> length nodes" by (rule order.trans [OF length_psum assms(4)]) (rule assms(5))
  ultimately have "RecoverSecret L (map (\<lambda>j. (j, the (PrivateShare (key j)))) nodes) =
       (if S = 0 then Inl (Errorf ''secret cannot be zero, this should not happen'') else Inr S)"
    using assms(3) key by (simp only:) (rule RecoverSecret_eval [OF curve_lawsD(5) [OF assms(1)]], auto simp: o_def)
  with key show ?thesis by blast
qed

text \<open>
  C5. Resharing preserves the secret: when at least as many dealers as the source polynomial has
  coefficients re-share their shares of it with \<open>GenerateNewShares\<close>, every node of the new set
  computes a new share with \<open>ComputeNewKeyShare\<close>, and any \<open>newThreshold\<close> of the new shares
  recover the same secret as before.
\<close>

theorem reshare_preserves_secret:
  assumes "curve_laws L" "distinct (map (AddressToFr L) dealers)" "length source \<le> length dealers"
    "source \<noteq> []" "distinct (map (AddressToFr L) nodes)" "newThreshold \<le> length nodes"
    "\<forall>d \<in> set dealers. set nodes \<subseteq> OperatorAddress ` set (rs_operators (start d)) \<and>
       GenerateNewShares (rnd d) (Some (EvaluatePolynomial L source d)) newThreshold L (start d) =
         Inr (dealt d, sh d, cs d)"
    "\<forall>j \<in> set nodes. rs_nodeAddress (self j) = j \<and>
       (\<forall>d \<in> set dealers. gm_get (received j) d = Some (gm_get (sh d) j))"
  shows "\<exists>key. (\<forall>j \<in> set nodes. ComputeNewKeyShare L (self j) dealers (received j) = Inr (key j)) \<and>
     RecoverSecret L (map (\<lambda>j. (j, the (PrivateShare (key j)))) nodes) =
       (if hd source = 0 then Inl (Errorf ''secret cannot be zero, this should not happen'')
        else Inr (hd source))"
proof -
  note L = curve_lawsD [OF assms(1)]
  define P where "P d = rs_poly (dealt d)" for d
  have spec: "sh d = shares_for L (P d) (rs_operators (start d))" "length (P d) = newThreshold"
    "peval (P d) 0 = peval source (AddressToFr L d)" if "d \<in> set dealers" for d
  proof -
    from GenerateNewShares_spec [OF assms(1)] assms(7) that
    have "sh d = shares_for L (P d) (rs_operators (start d)) \<and> length (P d) = newThreshold \<and>
        EvaluatePolynomial L source d = hd (P d) \<and> 0 < newThreshold" by (metis P_def option.inject)
    then show "sh d = shares_for L (P d) (rs_operators (start d))" "length (P d) = newThreshold"
      "peval (P d) 0 = peval source (AddressToFr L d)"
      using L(5) by (auto simp: EvaluatePolynomial_def fr_laws_def split: list.splits)
  qed
  have received: "gm_get (received j) d = Some (Some (peval (P d) (AddressToFr L j)))"
    if "j \<in> set nodes" "d \<in> set dealers" for j d
  proof -
    have "j \<in> OperatorAddress ` set (rs_operators (start d))" using assms(7) that by blast
    then show ?thesis
      using assms(8) that spec(1) [OF that(2)] L(5)
      by (simp add: gm_get_shares_for EvaluatePolynomial_def fr_laws_def)
  qed
  have "(\<Sum>d\<leftarrow>dealers. ComputeLagrangeCoefficient L d dealers * peval (P d) 0) =
      (\<Sum>d\<leftarrow>dealers. ComputeLagrangeCoefficient L d dealers * peval source (AddressToFr L d))"
    using spec(3) by (intro sum_list_cong) simp
  also have "\<dots> = peval source 0" by (rule lagrange_interpolates [OF assms(2,3)])
  also have "\<dots> = hd source" using assms(4) by (auto split: list.splits)
  finally have "(\<Sum>d\<leftarrow>dealers. ComputeLagrangeCoefficient L d dealers * peval (P d) 0) = hd source" .
  moreover have "dealers \<noteq> []" using assms(3,4) by auto
  ultimately show ?thesis
    using new_shares_recover [OF assms(1) _ assms(5,6), of dealers P self received] spec(2) received assms(8)
    by auto
qed

text \<open>Two of three operators re-share the secret 5 of \<open>5 + 2 x\<close> to the new set 2, 3 with polynomials \<open>share + x\<close>.\<close>

theorem reshare_preserves_secret_witness:
  "\<exists>key. (\<forall>j \<in> set [2, 3]. ComputeNewKeyShare mock_lib (NewReshare j mock_ops) [1, 2]
        (map (\<lambda>d. (d, gm_get (shares_for mock_lib [EvaluatePolynomial mock_lib [5, 2] d, 1] mock_ops) j)) [1, 2]) =
      Inr (key j)) \<and>
     RecoverSecret mock_lib (map (\<lambda>j. (j, the (PrivateShare (key j)))) [2, 3]) =
       (if hd [5 :: gf, 2] = 0 then Inl (Errorf ''secret cannot be zero, this should not happen'')
        else Inr (hd [5, 2]))"
proof -
  note L2 = curve_lawsD(2) [OF mock_lib_laws]
  let ?p = "\<lambda>d. [EvaluatePolynomial mock_lib [5, 2] d, 1 :: gf]"
  have deal: "GenerateNewShares (\<lambda>_. Some 1) (Some (EvaluatePolynomial mock_lib [5, 2] d)) 2 mock_lib (NewReshare d mock_ops) =
      Inr ((NewReshare d mock_ops)\<lparr>rs_poly := ?p d\<rparr>, shares_for mock_lib (?p d) mock_ops, map (enc2 mock_lib) (?p d))" for d
    by (simp add: GenerateNewShares_def NewReshare_def commitments_to_enc2 [OF L2] numeral_2_eq_2 Let_def)
  have pts: "distinct (map (AddressToFr mock_lib) [1, 2])" "distinct (map (AddressToFr mock_lib) [2, 3])"
    by (simp add: AddressToFr_mock, code_simp)+
  have d: "\<forall>d \<in> set [1, 2]. set [2, 3] \<subseteq> OperatorAddress ` set (rs_operators (NewReshare d mock_ops :: gf Reshare)) \<and>
      GenerateNewShares (\<lambda>_. Some 1) (Some (EvaluatePolynomial mock_lib [5, 2] d)) 2 mock_lib (NewReshare d mock_ops) =
      Inr ((NewReshare d mock_ops)\<lparr>rs_poly := ?p d\<rparr>, shares_for mock_lib (?p d) mock_ops, map (enc2 mock_lib) (?p d))"
    using deal by (simp add: NewReshare_def mock_ops_def mock_peer_def)
  show ?thesis
    by (rule reshare_preserves_secret [OF mock_lib_laws pts(1) _ _ pts(2) _ d])
       (simp_all add: NewReshare_def)
qed

subsection \<open>Validation of the master public key\<close>

lemma validate_fold:
  assumes "g2_laws L"
    "\<And>d. d \<in> set ds \<Longrightarrow> \<exists>c cs. gm_get C d = Some (c # cs) \<and> den2 L c (x d)"
  shows "fold_res (validate_step L dealers C) ds (Some (enc2 L a)) =
     Inr (Some (enc2 L (a + (\<Sum>d\<leftarrow>ds. ComputeLagrangeCoefficient L d dealers * x d))))"
  using assms(2)
proof (induction ds arbitrary: a)
  case (Cons d ds)
  then obtain c cs where c: "gm_get C d = Some (c # cs)" "den2 L c (x d)" by fastforce
  have "validate_step L dealers C d (Some (enc2 L a)) =
      Inr (Some (enc2 L (a + ComputeLagrangeCoefficient L d dealers * x d)))"
    by (simp add: validate_step_def c ScalarMulG2_den [OF assms(1) c(2)]
        AddG2_den [OF assms(1) den2_intros(1) [OF assms(1)] den2_intros(1) [OF assms(1)]])
  then show ?case using Cons by (simp add: add.assoc)
qed simp

lemma validate_iff:
  assumes "g2_laws L" "dealers \<noteq> []"
    "\<And>d. d \<in> set dealers \<Longrightarrow> \<exists>c cs. gm_get C d = Some (c # cs) \<and> den2 L c (x d)"
  shows "ValidateReshareMasterPublicKey L dealers C (Some mpk) = Inr () \<longleftrightarrow>
     mpk = enc2 L (\<Sum>d\<leftarrow>dealers. ComputeLagrangeCoefficient L d dealers * x d)"
proof -
  let ?t = "\<Sum>d\<leftarrow>dealers. ComputeLagrangeCoefficient L d dealers * x d"
  obtain d ds where ds: "dealers = d # ds" using assms(2) by (auto simp: neq_Nil_conv)
  obtain c cs where c: "gm_get C d = Some (c # cs)" "den2 L c (x d)" using assms(3) [of d] ds by auto
  have "fold_res (validate_step L dealers C) dealers None = Inr (Some (enc2 L ?t))"
  proof -
    have "validate_step L dealers C d None = Inr (Some (enc2 L (ComputeLagrangeCoefficient L d dealers * x d)))"
      by (simp add: validate_step_def c ScalarMulG2_den [OF assms(1) c(2)])
    moreover have "fold_res (validate_step L dealers C) ds (Some (enc2 L (ComputeLagrangeCoefficient L d dealers * x d)))
        = Inr (Some (enc2 L (ComputeLagrangeCoefficient L d dealers * x d +
            (\<Sum>d\<leftarrow>ds. ComputeLagrangeCoefficient L d dealers * x d))))"
      using assms(3) ds by (intro validate_fold [OF assms(1)]) simp
    ultimately show ?thesis
      unfolding ds fold_res.simps by (simp add: ds)
  qed
  then have "ValidateReshareMasterPublicKey L dealers C (Some mpk) =
      (if \<not> G2_IsEqual (enc2 L ?t) mpk then Inl (Errorf ''post-reshare master public key mismatch'') else Inr ())"
    using assms(2) by (simp add: ValidateReshareMasterPublicKey_def)
  then show ?thesis by (auto simp: G2_IsEqual_def G2Point.expand)
qed

lemma validated_shares_recover:
  assumes "curve_laws L" "dealers \<noteq> []" "distinct (map (AddressToFr L) nodes)" "nodes \<noteq> []"
    "newThreshold \<le> length nodes"
    "\<forall>d \<in> set dealers. gm_get C d = Some (cs d) \<and> length (cs d) \<le> newThreshold"
    "\<forall>j \<in> set nodes. rs_nodeAddress (self j) = j \<and> (\<forall>d \<in> set dealers. \<exists>s.
       gm_get (received j) d = Some (Some s) \<and> VerifyNewShare L (self j) (Some s) (cs d))"
    "secret \<noteq> 0"
  shows "\<exists>key. (\<forall>j \<in> set nodes. ComputeNewKeyShare L (self j) dealers (received j) = Inr (key j)) \<and>
     (ValidateReshareMasterPublicKey L dealers C (Some (enc2 L secret)) = Inr () \<longleftrightarrow>
      RecoverSecret L (map (\<lambda>j. (j, the (PrivateShare (key j)))) nodes) = Inr secret)"
proof -
  note L = curve_lawsD [OF assms(1)]
  have "\<exists>p. commits_to L (cs d) p" if "d \<in> set dealers" for d
    using assms(4,7) that
    by (metis VerifyNewShare_def verify_commitments_iff [OF assms(1)] list.set_sel(1))
  then obtain P where P: "\<And>d. d \<in> set dealers \<Longrightarrow> commits_to L (cs d) (P d)" by metis
  have received: "gm_get (received j) d = Some (Some (peval (P d) (AddressToFr L j)))"
    if "j \<in> set nodes" "d \<in> set dealers" for j d
    using assms(7) that commits_to_unique [OF L(2) P [OF that(2)]]
    by (metis VerifyNewShare_def verify_commitments_iff [OF assms(1)])
  have "\<exists>c cs'. gm_get C d = Some (c # cs') \<and> den2 L c (peval (P d) 0)" if "d \<in> set dealers" for d
    using P [OF that] assms(6) that by (auto simp: commits_to_def neq_Nil_conv list_all2_Cons1)
  note val = validate_iff [OF L(2) assms(2) this, of "enc2 L secret"]
  let ?S = "\<Sum>d\<leftarrow>dealers. ComputeLagrangeCoefficient L d dealers * peval (P d) 0"
  have len: "length (P d) \<le> newThreshold" if "d \<in> set dealers" for d
    using commits_to_length [OF P [OF that]] assms(6) that by simp
  have "\<exists>key. (\<forall>j \<in> set nodes. ComputeNewKeyShare L (self j) dealers (received j) = Inr (key j)) \<and>
     RecoverSecret L (map (\<lambda>j. (j, the (PrivateShare (key j)))) nodes) =
       (if ?S = 0 then Inl (Errorf ''secret cannot be zero, this should not happen'') else Inr ?S)"
    by (rule new_shares_recover [OF assms(1-3,5) len]) (use assms(7) received in auto)
  then obtain key where key: "\<forall>j \<in> set nodes. ComputeNewKeyShare L (self j) dealers (received j) = Inr (key j)"
    "RecoverSecret L (map (\<lambda>j. (j, the (PrivateShare (key j)))) nodes) =
       (if ?S = 0 then Inl (Errorf ''secret cannot be zero, this should not happen'') else Inr ?S)" by blast
  have "secret = ?S \<longleftrightarrow> RecoverSecret L (map (\<lambda>j. (j, the (PrivateShare (key j)))) nodes) = Inr secret"
    unfolding key(2) using assms(8) by (simp split: if_splits del: peval_zero) blast
  with key(1) val L(2) show ?thesis by (intro exI [of _ key]) simp
qed

text \<open>
  C18. Validate before commit: suppose every node of the new set holds, from each agreed dealer, a
  share it accepted with \<open>VerifyNewShare\<close> against the dealer's commitments, whatever the dealers
  dealt. If \<open>ValidateReshareMasterPublicKey\<close> accepts the dealers for the served master public key,
  then the new shares recover exactly the secret of that key; if it rejects them, they do not (the
  secret they share is another one). So the check is both sound and complete.
\<close>

theorem ValidateReshareMasterPublicKey_correct:
  assumes "curve_laws L" "dealers \<noteq> []" "distinct (map (AddressToFr L) nodes)" "nodes \<noteq> []"
    "newThreshold \<le> length nodes"
    "\<forall>d \<in> set dealers. gm_get C d = Some (cs d) \<and> length (cs d) \<le> newThreshold"
    "\<forall>j \<in> set nodes. rs_nodeAddress (self j) = j \<and> (\<forall>d \<in> set dealers. \<exists>s.
       gm_get (received j) d = Some (Some s) \<and> VerifyNewShare L (self j) (Some s) (cs d))"
    "secret \<noteq> 0"
  shows "\<exists>key. (\<forall>j \<in> set nodes. ComputeNewKeyShare L (self j) dealers (received j) = Inr (key j)) \<and>
     (ValidateReshareMasterPublicKey L dealers C (Some (enc2 L secret)) = Inr () \<longleftrightarrow>
      RecoverSecret L (map (\<lambda>j. (j, the (PrivateShare (key j)))) nodes) = Inr secret)"
  using assms by (rule validated_shares_recover)

theorem ValidateReshareMasterPublicKey_correct_witness:
  "\<exists>key. (\<forall>j \<in> set [2, 3]. ComputeNewKeyShare mock_lib (NewReshare j []) [1]
        [(1, Some (peval [5, 1] (gf_of_int (uint j))))] = Inr (key j)) \<and>
     (ValidateReshareMasterPublicKey mock_lib [1] [(1, map (enc2 mock_lib) [5, 1])] (Some (enc2 mock_lib 5)) = Inr () \<longleftrightarrow>
      RecoverSecret mock_lib (map (\<lambda>j. (j, the (PrivateShare (key j)))) [2, 3]) = Inr 5)"
proof (rule ValidateReshareMasterPublicKey_correct
    [OF mock_lib_laws, where newThreshold = 2 and cs = "\<lambda>_. map (enc2 mock_lib) [5, 1]"])
  show "distinct (map (AddressToFr mock_lib) [2, 3])" by (simp add: AddressToFr_mock) code_simp
  show "\<forall>j \<in> set [2, 3]. rs_nodeAddress (NewReshare j [] :: gf Reshare) = j \<and> (\<forall>d \<in> set [1]. \<exists>s.
      gm_get [(1, Some (peval [5, 1] (gf_of_int (uint j))))] d = Some (Some s) \<and>
      VerifyNewShare mock_lib (NewReshare j []) (Some s) (map (enc2 mock_lib) [5, 1]))"
    using mock_verify [OF _ refl, of "[5, 1]"] by (simp add: VerifyNewShare_def NewReshare_def)
  show "(5 :: gf) \<noteq> 0" by code_simp
qed simp_all

subsection \<open>Source versions\<close>

definition source_ok ::
  "('f, 'g1, 'g2, 'gt) lib \<Rightarrow> (address, bytes) gomap \<Rightarrow> (address, G2Point list) gomap \<Rightarrow>
   (address, int64) gomap \<Rightarrow> address \<Rightarrow> bool" where
  "source_ok L H C V d \<longleftrightarrow> (\<exists>cs v. gm_get H d = Some (HashReshareCommitment L cs v) \<and>
     gm_get V d = Some v \<and> gm_get C d = Some cs \<and> cs \<noteq> [])"

lemma VerifyDealerSourceVersions_filter:
  "fst (VerifyDealerSourceVersions L ds H C V) = filter (source_ok L H C V) ds \<and>
   (\<forall>d. gm_get (snd (VerifyDealerSourceVersions L ds H C V)) d =
      (if d \<in> set ds \<and> source_ok L H C V d then gm_get V d else None))"
proof (induction ds rule: rev_induct)
  case Nil
  then show ?case by (simp add: VerifyDealerSourceVersions_def)
next
  case (snoc d ds)
  let ?r = "VerifyDealerSourceVersions L ds H C V"
  have "VerifyDealerSourceVersions L (ds @ [d]) H C V =
      (if source_ok L H C V d then (fst ?r @ [d], gm_set (snd ?r) d (the (gm_get V d))) else ?r)"
    by (cases ?r) (auto simp: VerifyDealerSourceVersions_def source_ok_def Let_def split: option.splits)
  with snoc show ?case by (auto simp: source_ok_def)
qed

text \<open>
  What a dealer advertises peer-to-peer is bound to what it committed on chain: if a dealer's
  on-chain hash is that of \<open>(cs, v)\<close>, then \<open>VerifyDealerSourceVersions\<close> keeps it, among the
  agreed dealers, exactly when the received commitments and source version are \<open>cs\<close> and \<open>v\<close>,
  and then records the version \<open>v\<close>; a dealer without on-chain hash, version or commitments is
  dropped; the order of the agreed dealers is kept.
\<close>

theorem VerifyDealerSourceVersions_binding:
  assumes "gm_get H d = Some (HashReshareCommitment L cs v)" "int64_range v"
    "\<forall>c \<in> set cs. length (g2_CompressedBytes c) = 96" "cs \<noteq> []" "d \<in> set agreed"
    "\<forall>cs' v'. gm_get C d = Some cs' \<longrightarrow> gm_get V d = Some v' \<longrightarrow>
       (\<forall>c \<in> set cs'. length (g2_CompressedBytes c) = 96) \<and> int64_range v' \<and>
       inj_on (sha256 L) {concat (map g2_CompressedBytes cs) @ put_uint64 v,
                          concat (map g2_CompressedBytes cs') @ put_uint64 v'}"
  shows "(d \<in> set (fst (VerifyDealerSourceVersions L agreed H C V)) \<longleftrightarrow>
            gm_get C d = Some cs \<and> gm_get V d = Some v) \<and>
     (d \<in> set (fst (VerifyDealerSourceVersions L agreed H C V)) \<longrightarrow>
        gm_get (snd (VerifyDealerSourceVersions L agreed H C V)) d = Some v) \<and>
     (\<forall>e. gm_get H e = None \<or> gm_get V e = None \<or> gm_get C e \<in> {None, Some []} \<longrightarrow>
        e \<notin> set (fst (VerifyDealerSourceVersions L agreed H C V))) \<and>
     (\<exists>keep. fst (VerifyDealerSourceVersions L agreed H C V) = filter keep agreed)"
proof -
  note f = VerifyDealerSourceVersions_filter [of L agreed H C V]
  have ok: "source_ok L H C V d \<longleftrightarrow> gm_get C d = Some cs \<and> gm_get V d = Some v"
  proof
    assume "source_ok L H C V d"
    then obtain cs' v' where r: "gm_get C d = Some cs'" "gm_get V d = Some v'"
      "HashReshareCommitment L cs v = HashReshareCommitment L cs' v'"
      using assms(1) by (auto simp: source_ok_def)
    then show "gm_get C d = Some cs \<and> gm_get V d = Some v"
      using HashReshareCommitment_eq_iff [of cs cs' v v' L] assms(2,3,6) by auto
  qed (use assms(1,4) in \<open>auto simp: source_ok_def\<close>)
  moreover have "\<not> source_ok L H C V e"
    if "gm_get H e = None \<or> gm_get V e = None \<or> gm_get C e \<in> {None, Some []}" for e
    using that by (auto simp: source_ok_def)
  ultimately show ?thesis using f assms(5) by auto
qed

theorem VerifyDealerSourceVersions_binding_witness:
  "let cs = [enc2 mock_lib 3]; H = [(1, HashReshareCommitment mock_lib cs 7)]; C = [(1, cs)]; V = [(1, 8)] in
     (1 \<in> set (fst (VerifyDealerSourceVersions mock_lib [1] H C V)) \<longleftrightarrow>
        gm_get C 1 = Some cs \<and> gm_get V 1 = Some 7) \<and>
     (1 \<in> set (fst (VerifyDealerSourceVersions mock_lib [1] H C V)) \<longrightarrow>
        gm_get (snd (VerifyDealerSourceVersions mock_lib [1] H C V)) 1 = Some 7) \<and>
     (\<forall>e. gm_get H e = None \<or> gm_get V e = None \<or> gm_get C e \<in> {None, Some []} \<longrightarrow>
        e \<notin> set (fst (VerifyDealerSourceVersions mock_lib [1] H C V))) \<and>
     (\<exists>keep. fst (VerifyDealerSourceVersions mock_lib [1] H C V) = filter keep [1])"
proof -
  have "length (g2_CompressedBytes (enc2 mock_lib x)) = 96" for x
    using g2_lawsD(10) [OF curve_lawsD(2) [OF mock_lib_laws]] by (simp add: enc2_def)
  moreover have "inj_on (sha256 mock_lib) A" for A by (simp add: mock_lib_def)
  ultimately show ?thesis
    unfolding Let_def by (intro VerifyDealerSourceVersions_binding)
      (simp_all add: int64_range_def del: inj_on_insert)
qed

definition dealers_on :: "address list \<Rightarrow> (address, int64) gomap \<Rightarrow> int64 \<Rightarrow> nat" where
  "dealers_on dealers V v = length (filter (\<lambda>d. version_of V d = v) dealers)"

lemma count_versions_get:
  "gm_ok (count_versions ds V) \<and>
   gm_get (count_versions ds V) v = (if v \<noteq> 0 \<and> 0 < dealers_on ds V v then Some (dealers_on ds V v) else None)"
proof (induction ds arbitrary: v rule: rev_induct)
  case Nil
  then show ?case by (simp add: count_versions_def dealers_on_def)
next
  case (snoc d ds)
  let ?c = "count_versions ds V" and ?v = "version_of V d"
  have step: "count_versions (ds @ [d]) V =
      (if ?v \<noteq> 0 then gm_set ?c ?v ((case gm_get ?c ?v of None \<Rightarrow> 0 | Some c \<Rightarrow> c) + 1) else ?c)"
    by (simp add: count_versions_def Let_def)
  show ?case unfolding step using snoc [of v] snoc [of ?v] by (auto simp: dealers_on_def)
qed

text \<open>The loop picks the greatest entry, by count and then by version.\<close>

lemma best_version_max:
  assumes "\<And>v c. (v, c) \<in> set xs \<Longrightarrow> 0 < c" "best_version xs = (bv, bc)"
  shows "if xs = [] then bv = 0 \<and> bc = 0
     else (bv, bc) \<in> set xs \<and> (\<forall>(v, c) \<in> set xs. c < bc \<or> c = bc \<and> v \<le> bv)"
  using assms
proof (induction xs arbitrary: bv bc rule: rev_induct)
  case (snoc x xs)
  obtain v c where x: "x = (v, c)" by (cases x)
  obtain v' c' where b: "best_version xs = (v', c')" by (cases "best_version xs")
  have "0 < c" using snoc.prems(1) [of v c] x by simp
  moreover have "(bv, bc) = (if c > c' \<or> (c = c' \<and> v > v') then (v, c) else (v', c'))"
    using snoc.prems(2) b x by (simp add: best_version_def)
  moreover have "if xs = [] then v' = 0 \<and> c' = 0
     else (v', c') \<in> set xs \<and> (\<forall>(v, c) \<in> set xs. c < c' \<or> c = c' \<and> v \<le> v')"
    by (rule snoc.IH [OF _ b]) (use snoc.prems(1) in auto)
  ultimately show ?case using x by (fastforce split: if_splits)
qed (simp add: best_version_def)

lemma best_version_counts:
  assumes "mset (order (count_versions ds V)) = mset (count_versions ds V)"
    "best_version (order (count_versions ds V)) = (bv, bc)"
  shows "if \<forall>v. v \<noteq> 0 \<longrightarrow> dealers_on ds V v = 0 then bv = 0 \<and> bc = 0
     else bv \<noteq> 0 \<and> bc = dealers_on ds V bv \<and> 0 < bc \<and>
       (\<forall>w. w \<noteq> 0 \<longrightarrow> dealers_on ds V w < bc \<or> dealers_on ds V w = bc \<and> w \<le> bv)"
proof -
  let ?xs = "order (count_versions ds V)"
  have mem: "(v, c) \<in> set ?xs \<longleftrightarrow> v \<noteq> 0 \<and> c = dealers_on ds V v \<and> 0 < c" for v c
  proof -
    have "(v, c) \<in> set ?xs \<longleftrightarrow> (v, c) \<in> set (count_versions ds V)" by (metis assms(1) set_mset_mset)
    then show ?thesis
      using count_versions_get [of ds V v] by (auto simp flip: gm_get_eq_Some split: if_splits)
  qed
  have "?xs = [] \<longleftrightarrow> (\<forall>v. v \<noteq> 0 \<longrightarrow> dealers_on ds V v = 0)"
  proof
    assume "?xs = []"
    then show "\<forall>v. v \<noteq> 0 \<longrightarrow> dealers_on ds V v = 0" using mem by (metis empty_iff list.set(1) neq0_conv)
  next
    assume none: "\<forall>v. v \<noteq> 0 \<longrightarrow> dealers_on ds V v = 0"
    have "x \<notin> set ?xs" for x using mem [of "fst x" "snd x"] none by auto
    then show "?xs = []" by (metis list.set_intros(1) neq_Nil_conv)
  qed
  moreover have "if ?xs = [] then bv = 0 \<and> bc = 0
     else (bv, bc) \<in> set ?xs \<and> (\<forall>(v, c) \<in> set ?xs. c < bc \<or> c = bc \<and> v \<le> bv)"
    by (rule best_version_max [OF _ assms(2)]) (simp add: mem)
  ultimately show ?thesis
    by (auto simp: mem split: if_splits)
qed

lemma best_version_order:
  assumes "\<forall>m. mset (order m) = mset m" "\<forall>m. mset (order' m) = mset m"
  shows "best_version (order (count_versions dealers V)) = best_version (order' (count_versions dealers V))"
proof -
  obtain v c v' c' where b: "best_version (order (count_versions dealers V)) = (v, c)"
    "best_version (order' (count_versions dealers V)) = (v', c')" by fastforce
  note s = best_version_counts [of order, OF assms(1) [rule_format] b(1)]
    and s' = best_version_counts [of order', OF assms(2) [rule_format] b(2)]
  have "(v, c) = (v', c')"
  proof (cases "\<forall>v. v \<noteq> 0 \<longrightarrow> dealers_on dealers V v = 0")
    case False
    note t = s [unfolded if_not_P [OF False]] and t' = s' [unfolded if_not_P [OF False]]
    have "c' < c \<or> c' = c \<and> v' \<le> v" "c < c' \<or> c = c' \<and> v \<le> v'" using t t' by blast+
    then show ?thesis by auto
  qed (use s s' in auto)
  then show ?thesis by (simp add: b)
qed

lemma SelectMajoritySourceVersion_order:
  assumes "\<forall>m. mset (order m) = mset m" "\<forall>m. mset (order' m) = mset m"
  shows "SelectMajoritySourceVersion order dealers V threshold = SelectMajoritySourceVersion order' dealers V threshold"
  unfolding SelectMajoritySourceVersion_def best_version_order [OF assms] ..

text \<open>The selection looks at the versions of the dealers only.\<close>

lemma SelectMajoritySourceVersion_cong:
  assumes "\<And>d. d \<in> set dealers \<Longrightarrow> version_of V d = version_of V' d"
  shows "SelectMajoritySourceVersion order dealers V threshold = SelectMajoritySourceVersion order dealers V' threshold"
proof -
  have "count_versions dealers V = count_versions dealers V'"
    unfolding count_versions_def using assms by (intro fold_cong) auto
  then show ?thesis
    unfolding SelectMajoritySourceVersion_def using assms by (auto split: prod.splits cong: filter_cong)
qed

text \<open>
  The majority source version is determined by the dealers and their versions alone, whatever
  order the runtime visits its counting map in: the selection fails exactly when no known (non-zero)
  version has \<open>threshold\<close> dealers, and otherwise returns the known version with the most dealers,
  the highest of them on a tie, together with exactly the dealers on it, in their given order.
\<close>

theorem SelectMajoritySourceVersion_spec:
  assumes "\<forall>m. mset (order m) = mset m" "\<forall>m. mset (order' m) = mset m" "0 < threshold"
  shows "SelectMajoritySourceVersion order dealers V threshold =
       SelectMajoritySourceVersion order' dealers V threshold \<and>
     (case SelectMajoritySourceVersion order dealers V threshold of
        Inl _ \<Rightarrow> \<forall>v. v \<noteq> 0 \<longrightarrow> int (dealers_on dealers V v) < threshold
      | Inr (kept, v) \<Rightarrow> v \<noteq> 0 \<and> kept = filter (\<lambda>d. version_of V d = v) dealers \<and>
          threshold \<le> int (length kept) \<and>
          (\<forall>w. w \<noteq> 0 \<longrightarrow> dealers_on dealers V w < length kept \<or> dealers_on dealers V w = length kept \<and> w \<le> v))"
proof -
  obtain v c where b: "best_version (order (count_versions dealers V)) = (v, c)" by fastforce
  note s = best_version_counts [of order, OF assms(1) [rule_format] b]
  have sel: "SelectMajoritySourceVersion order dealers V threshold =
      (if dealers = [] then Inl (Errorf ''no dealers provided for source-version selection'')
       else if int c < threshold then Inl (Errorf ''majority source version has too few dealers; aborting'')
       else Inr (filter (\<lambda>d. version_of V d = v) dealers, v))"
    by (simp add: SelectMajoritySourceVersion_def b)
  have "SelectMajoritySourceVersion order dealers V threshold = SelectMajoritySourceVersion order' dealers V threshold"
    by (rule SelectMajoritySourceVersion_order [OF assms(1,2)])
  moreover have le: "dealers_on dealers V w \<le> c" if "w \<noteq> 0" for w
    using s that by (auto split: if_splits dest!: spec [of _ w])
  have "case SelectMajoritySourceVersion order dealers V threshold of
        Inl _ \<Rightarrow> \<forall>v. v \<noteq> 0 \<longrightarrow> int (dealers_on dealers V v) < threshold
      | Inr (kept, v) \<Rightarrow> v \<noteq> 0 \<and> kept = filter (\<lambda>d. version_of V d = v) dealers \<and>
          threshold \<le> int (length kept) \<and>
          (\<forall>w. w \<noteq> 0 \<longrightarrow> dealers_on dealers V w < length kept \<or> dealers_on dealers V w = length kept \<and> w \<le> v)"
  proof (cases "dealers = [] \<or> int c < threshold")
    case True
    have "int (dealers_on dealers V w) < threshold" if "w \<noteq> 0" for w
      using True le [OF that] assms(3) by (auto simp: dealers_on_def)
    with True show ?thesis by (auto simp: sel)
  next
    case False
    with assms(3) have "0 < c" by auto
    with s False show ?thesis by (auto simp: sel dealers_on_def split: if_splits)
  qed
  ultimately show ?thesis by blast
qed

theorem SelectMajoritySourceVersion_spec_witness:
  "SelectMajoritySourceVersion rev [1, 2, 3, 4] [(1, 7), (2, 9), (3, 7), (4, 9)] 2 =
     SelectMajoritySourceVersion id [1, 2, 3, 4] [(1, 7), (2, 9), (3, 7), (4, 9)] 2 \<and>
   SelectMajoritySourceVersion id [1, 2, 3, 4] [(1, 7), (2, 9), (3, 7), (4, 9)] 2 = Inr ([2, 4], 9)"
proof -
  have "SelectMajoritySourceVersion rev [1, 2, 3, 4] [(1, 7), (2, 9), (3, 7), (4, 9)] 2 =
      SelectMajoritySourceVersion id [1, 2, 3, 4] [(1, 7), (2, 9), (3, 7), (4, 9)] 2"
    using SelectMajoritySourceVersion_spec [of rev id 2 "[1, 2, 3, 4]" "[(1, 7), (2, 9), (3, 7), (4, 9)]"] by simp
  moreover have "SelectMajoritySourceVersion id [1, 2, 3, 4] [(1, 7), (2, 9), (3, 7), (4, 9)] 2 = Inr ([2, 4], 9)"
    by (simp add: SelectMajoritySourceVersion_def count_versions_def version_of_def best_version_def Let_def)
  ultimately show ?thesis by simp
qed

end
