(* ===== verification/Merkle.thy ===== *)
theory Merkle
  imports Crypto
begin

text \<open>
  Acknowledgements: their hashes (\<open>pkg/crypto/bls.go\<close>, from \<open>HashAcknowledgementForMerkle\<close>
  on) and the Merkle tree over them (\<open>pkg/merkle/merkle.go\<close>). The tree library
  \<open>go-merkletree\<close> is the record \<open>mtlib\<close>. The theorems: the leaf hash binds every signed field,
  and the tree does not depend on the order in which the acknowledgements arrived, with a proof that
  verifies for every leaf.
\<close>

subsection \<open>Acknowledgement hashes\<close>

definition keccak256Hash :: "('f, 'g1, 'g2, 'gt) lib \<Rightarrow> bytes \<Rightarrow> bytes" where
  "keccak256Hash L data = keccak256 L data"

definition ack_preimage :: "Acknowledgement \<Rightarrow> bytes" where
  "ack_preimage ack =
     addr_bytes (ack_PlayerAddress ack) @ addr_bytes (ack_DealerAddress ack) @
     put_uint64 (ack_SessionTimestamp ack) @ ack_ShareHash ack @ ack_CommitmentHash ack"

definition HashAcknowledgementForMerkle ::
  "('f, 'g1, 'g2, 'gt) lib \<Rightarrow> Acknowledgement \<Rightarrow> bytes" where
  "HashAcknowledgementForMerkle L ack = keccak256Hash L (ack_preimage ack)"

definition HashShareForAck :: "('f, 'g1, 'g2, 'gt) lib \<Rightarrow> 'f \<Rightarrow> bytes" where
  "HashShareForAck L share = keccak256Hash L (fr_Bytes L share)"

definition CreateAcknowledgement ::
  "('f, 'g1, 'g2, 'gt) lib \<Rightarrow> address \<Rightarrow> address \<Rightarrow> int64 \<Rightarrow> 'f \<Rightarrow> G2Point list \<Rightarrow>
   (address \<Rightarrow> address \<Rightarrow> int64 \<Rightarrow> bytes \<Rightarrow> bytes \<Rightarrow> bytes) \<Rightarrow> Acknowledgement" where
  "CreateAcknowledgement L playerAddress dealerAddress epoch share commitments signer =
     (let commitmentHash = HashCommitment L commitments;
          shareHash = HashShareForAck L share
      in \<lparr>ack_DealerAddress = dealerAddress, ack_PlayerAddress = playerAddress,
          ack_SessionTimestamp = epoch, ack_ShareHash = shareHash, ack_CommitmentHash = commitmentHash,
          ack_Signature = signer dealerAddress playerAddress epoch shareHash commitmentHash\<rparr>)"

subsection \<open>The tree\<close>

text \<open>
  \<open>merkletree.NewUsing\<close>, \<open>Root\<close>, \<open>GenerateProof\<close> (the sibling hashes) and
  \<open>VerifyProofUsing\<close> (leaf, siblings, index, root).
\<close>

record 't mtlib =
  mt_NewUsing :: "bytes list \<Rightarrow> 't option"
  mt_Root :: "'t \<Rightarrow> bytes"
  mt_GenerateProof :: "'t \<Rightarrow> bytes \<Rightarrow> bytes list option"
  mt_VerifyProofUsing :: "bytes \<Rightarrow> bytes list \<Rightarrow> nat \<Rightarrow> bytes \<Rightarrow> bool option"

definition mt_laws :: "'t mtlib \<Rightarrow> bool" where
  "mt_laws M \<longleftrightarrow> (\<forall>leaves. leaves \<noteq> [] \<longrightarrow> (\<exists>t. mt_NewUsing M leaves = Some t \<and> length (mt_Root M t) = 32 \<and>
     (distinct leaves \<longrightarrow> (\<forall>i < length leaves. \<exists>hs. mt_GenerateProof M t (leaves ! i) = Some hs \<and>
        (\<forall>h \<in> set hs. length h = 32) \<and>
        mt_VerifyProofUsing M (leaves ! i) hs i (mt_Root M t) = Some True))))"

text \<open>\<open>copy\<close> into a 32-byte array.\<close>

definition copy32 :: "bytes \<Rightarrow> bytes" where
  "copy32 b = take 32 (b @ replicate 32 0)"

record 't MerkleTree =
  Leaves :: "bytes list"
  Root :: bytes
  internalTree :: 't

record MerkleProof =
  LeafIndex :: int
  Leaf :: bytes
  Proof :: "bytes list"

text \<open>The comparison of \<open>SortAcknowledgements\<close>: the first differing byte decides.\<close>

fun addr_before :: "bytes \<Rightarrow> bytes \<Rightarrow> bool" where
  "addr_before (a # as) (b # bs) = (if a \<noteq> b then a < b else addr_before as bs)"
| "addr_before _ _ = False"

lemma addr_before_less: "addr_before (addr_bytes a) (addr_bytes b) \<longleftrightarrow> a < b"
proof -
  have "length xs = length ys \<Longrightarrow> addr_before xs ys \<longleftrightarrow> bytes_less xs ys" for xs ys
    by (induction xs ys rule: list_induct2') auto
  then show ?thesis by (simp add: addr_bytes_less)
qed

text \<open>So sorting by that comparison is sorting by the player address.\<close>

definition SortAcknowledgements :: "Acknowledgement list \<Rightarrow> Acknowledgement list" where
  "SortAcknowledgements acks = sort_key ack_PlayerAddress acks"

definition BuildMerkleTree ::
  "('f, 'g1, 'g2, 'gt) lib \<Rightarrow> 't mtlib \<Rightarrow> Acknowledgement list \<Rightarrow> 't MerkleTree res" where
  "BuildMerkleTree L M acks =
     (if acks = [] then Inl (Errorf ''cannot build merkle tree from empty acknowledgement list'')
      else
        let leafHashes = map (HashAcknowledgementForMerkle L) (SortAcknowledgements acks) in
        bind_res (wrap_err ''failed to build merkle tree'' (lib_res ''NewUsing'' (mt_NewUsing M leafHashes))) (\<lambda>tree.
        Inr \<lparr>Leaves = leafHashes, Root = copy32 (mt_Root M tree), internalTree = tree\<rparr>))"

definition GenerateProof :: "'t mtlib \<Rightarrow> 't MerkleTree \<Rightarrow> int \<Rightarrow> MerkleProof res" where
  "GenerateProof M mt leafIndex =
     (if leafIndex < 0 \<or> leafIndex \<ge> int (length (Leaves mt)) then Inl (Errorf ''leaf index out of bounds'')
      else
        bind_res (wrap_err ''failed to generate proof'' (lib_res ''GenerateProof''
          (mt_GenerateProof M (internalTree mt) (Leaves mt ! nat leafIndex)))) (\<lambda>hashes.
        Inr \<lparr>LeafIndex = leafIndex, Leaf = Leaves mt ! nat leafIndex, Proof = map copy32 hashes\<rparr>))"

definition VerifyProof :: "'t mtlib \<Rightarrow> MerkleProof option \<Rightarrow> bytes \<Rightarrow> bool" where
  "VerifyProof M proof rootHash =
     (case proof of
        None \<Rightarrow> False
      | Some p \<Rightarrow>
          (case mt_VerifyProofUsing M (Leaf p) (Proof p) (nat (LeafIndex p mod 2 ^ 64)) rootHash of
             None \<Rightarrow> False
           | Some verified \<Rightarrow> verified))"

text \<open>
  \<open>dkg.BuildAcknowledgementMerkleTree\<close>, to which the function of the same name in
  \<open>pkg/reshare\<close> delegates: nil for no acknowledgements.
\<close>

definition BuildAcknowledgementMerkleTree ::
  "('f, 'g1, 'g2, 'gt) lib \<Rightarrow> 't mtlib \<Rightarrow> Acknowledgement list \<Rightarrow> 't MerkleTree option res" where
  "BuildAcknowledgementMerkleTree L M acks =
     (if acks = [] then Inr None else bind_res (BuildMerkleTree L M acks) (\<lambda>t. Inr (Some t)))"

subsection \<open>Properties\<close>

definition ack_wf :: "Acknowledgement \<Rightarrow> bool" where
  "ack_wf a \<longleftrightarrow> length (ack_ShareHash a) = 32 \<and> length (ack_CommitmentHash a) = 32 \<and>
     int64_range (ack_SessionTimestamp a)"

text \<open>
  The leaf hash of an acknowledgement binds every field of it but the signature: with hashes of
  32 bytes, the packed encoding has fixed offsets, so two acknowledgements with the same leaf hash
  agree on player, dealer, session, share hash and commitment hash, as long as Keccak-256 does not
  collide on them.
\<close>

theorem HashAcknowledgementForMerkle_binding:
  assumes "ack_wf a" "ack_wf b" "inj_on (keccak256 L) {ack_preimage a, ack_preimage b}"
    "HashAcknowledgementForMerkle L a = HashAcknowledgementForMerkle L b"
  shows "ack_PlayerAddress a = ack_PlayerAddress b \<and> ack_DealerAddress a = ack_DealerAddress b \<and>
     ack_SessionTimestamp a = ack_SessionTimestamp b \<and> ack_ShareHash a = ack_ShareHash b \<and>
     ack_CommitmentHash a = ack_CommitmentHash b"
proof -
  have "ack_preimage a = ack_preimage b"
    by (rule inj_onD [OF assms(3)]) (use assms(4) in \<open>simp_all add: HashAcknowledgementForMerkle_def keccak256Hash_def\<close>)
  then have "ack_PlayerAddress a = ack_PlayerAddress b \<and> ack_DealerAddress a = ack_DealerAddress b \<and>
      put_uint64 (ack_SessionTimestamp a) = put_uint64 (ack_SessionTimestamp b) \<and>
      ack_ShareHash a = ack_ShareHash b \<and> ack_CommitmentHash a = ack_CommitmentHash b"
    using assms(1,2) unfolding ack_preimage_def ack_wf_def by (simp add: append_eq_append_conv)
  moreover have "int64_range (ack_SessionTimestamp a)" "int64_range (ack_SessionTimestamp b)"
    using assms(1,2) by (simp_all add: ack_wf_def)
  ultimately show ?thesis using put_uint64_inj by blast
qed

theorem HashAcknowledgementForMerkle_binding_witness:
  "let a = CreateAcknowledgement mock_lib 1 2 9 5 [] (\<lambda>_ _ _ _ _. []);
       b = a\<lparr>ack_Signature := [1], ack_CommitmentHash := replicate 32 0\<rparr>;
       c = b\<lparr>ack_Signature := [2]\<rparr> in
     ack_PlayerAddress b = ack_PlayerAddress c \<and> ack_DealerAddress b = ack_DealerAddress c \<and>
     ack_SessionTimestamp b = ack_SessionTimestamp c \<and> ack_ShareHash b = ack_ShareHash c \<and>
     ack_CommitmentHash b = ack_CommitmentHash c"
  unfolding Let_def
  by (rule HashAcknowledgementForMerkle_binding [of _ _ mock_lib])
     (simp_all add: ack_wf_def CreateAcknowledgement_def HashShareForAck_def keccak256Hash_def int64_range_def
      HashAcknowledgementForMerkle_def ack_preimage_def mock_lib_def)

lemma SortAcknowledgements_perm:
  assumes "mset acks = mset acks'" "distinct (map ack_PlayerAddress acks)"
  shows "SortAcknowledgements acks = SortAcknowledgements acks'"
  unfolding SortAcknowledgements_def
  by (rule sort_key_inj_key_eq) (use assms in \<open>simp_all add: distinct_map\<close>)

lemma copy32_id [simp]: "length b = 32 \<Longrightarrow> copy32 b = b"
  by (simp add: copy32_def)

text \<open>
  The acknowledgement tree: for acknowledgements of distinct players, with distinct leaf hashes,
  \<open>BuildMerkleTree\<close> succeeds, gives the same tree for every order in which they were collected
  (leaves sorted by player address), and \<open>VerifyProof\<close> accepts the proof that
  \<open>GenerateProof\<close> makes for each leaf; an index outside the tree is an error.
\<close>

theorem BuildMerkleTree_correct:
  assumes "mt_laws M" "mset acks = mset acks'" "acks \<noteq> []" "distinct (map ack_PlayerAddress acks)"
    "distinct (map (HashAcknowledgementForMerkle L) acks)"
  shows "\<exists>t. BuildMerkleTree L M acks = Inr t \<and> BuildMerkleTree L M acks' = Inr t \<and>
     sorted (map ack_PlayerAddress (SortAcknowledgements acks)) \<and>
     mset (SortAcknowledgements acks) = mset acks \<and>
     Leaves t = map (HashAcknowledgementForMerkle L) (SortAcknowledgements acks) \<and>
     (\<forall>i. if 0 \<le> i \<and> i < int (length acks) \<and> i < 2 ^ 64
          then \<exists>p. GenerateProof M t i = Inr p \<and> Leaf p = Leaves t ! nat i \<and> VerifyProof M (Some p) (Root t)
          else i < 0 \<or> i \<ge> int (length acks) \<longrightarrow> GenerateProof M t i = Inl (Errorf ''leaf index out of bounds''))"
proof -
  have acks': "acks' \<noteq> []" "SortAcknowledgements acks' = SortAcknowledgements acks"
    using assms(2-4) SortAcknowledgements_perm [of acks acks'] by auto
  let ?leaves = "map (HashAcknowledgementForMerkle L) (SortAcknowledgements acks)"
  have mset: "mset (SortAcknowledgements acks) = mset acks" by (simp add: SortAcknowledgements_def)
  then have leaves: "length ?leaves = length acks" "?leaves \<noteq> []" "distinct ?leaves"
    using assms(3,5) by (metis length_map size_mset, metis length_0_conv length_map size_mset,
        metis mset_map mset_eq_imp_distinct_iff)
  obtain tree where t: "mt_NewUsing M ?leaves = Some tree" "length (mt_Root M tree) = 32"
    "\<forall>i < length ?leaves. \<exists>hs. mt_GenerateProof M tree (?leaves ! i) = Some hs \<and> (\<forall>h \<in> set hs. length h = 32) \<and>
        mt_VerifyProofUsing M (?leaves ! i) hs i (mt_Root M tree) = Some True"
    using assms(1) leaves unfolding mt_laws_def by blast
  let ?t = "\<lparr>Leaves = ?leaves, Root = mt_Root M tree, internalTree = tree\<rparr>"
  have build: "BuildMerkleTree L M acks = Inr ?t" "BuildMerkleTree L M acks' = Inr ?t"
    using assms(3) acks' t(1,2) by (simp_all add: BuildMerkleTree_def Let_def)
  have "\<exists>p. GenerateProof M ?t i = Inr p \<and> Leaf p = ?leaves ! nat i \<and> VerifyProof M (Some p) (Root ?t)"
    if i: "0 \<le> i" "i < int (length acks)" "i < 2 ^ 64" for i
  proof -
    obtain hs where "mt_GenerateProof M tree (?leaves ! nat i) = Some hs" "\<forall>h \<in> set hs. length h = 32"
      "mt_VerifyProofUsing M (?leaves ! nat i) hs (nat i) (mt_Root M tree) = Some True"
      using t(3) i leaves(1) by (metis nat_less_iff)
    moreover have "map copy32 hs = hs" using calculation(2) by (intro map_idI) simp
    ultimately show ?thesis using i leaves(1) by (simp add: GenerateProof_def VerifyProof_def)
  qed
  moreover have "GenerateProof M ?t i = Inl (Errorf ''leaf index out of bounds'')"
    if "i < 0 \<or> i \<ge> int (length acks)" for i
    using that leaves(1) by (auto simp: GenerateProof_def)
  ultimately show ?thesis
    using build mset by (intro exI [of _ ?t]) (auto simp: SortAcknowledgements_def)
qed

definition mock_mt :: "bytes list mtlib" where
  "mock_mt = \<lparr>mt_NewUsing = Some, mt_Root = (\<lambda>_. replicate 32 0), mt_GenerateProof = (\<lambda>_ _. Some []),
     mt_VerifyProofUsing = (\<lambda>leaf hs i r. Some (r = replicate 32 0))\<rparr>"

theorem BuildMerkleTree_correct_witness:
  "\<exists>acks acks' t. length acks = 2 \<and> acks \<noteq> acks' \<and> BuildMerkleTree mock_lib mock_mt acks = Inr t \<and>
     BuildMerkleTree mock_lib mock_mt acks' = Inr t"
proof -
  let ?a = "\<lambda>p. CreateAcknowledgement mock_lib p 2 9 5 [] (\<lambda>_ _ _ _ _. [])"
  have "mt_laws mock_mt" by (simp add: mt_laws_def mock_mt_def)
  moreover have "HashAcknowledgementForMerkle mock_lib (?a 1) \<noteq> HashAcknowledgementForMerkle mock_lib (?a 3)"
    by (simp add: CreateAcknowledgement_def HashAcknowledgementForMerkle_def ack_preimage_def keccak256Hash_def
        append_eq_append_conv mock_lib_def)
  moreover have p: "ack_PlayerAddress (?a p) = p" for p by (simp add: CreateAcknowledgement_def)
  ultimately have "\<exists>t. BuildMerkleTree mock_lib mock_mt [?a 1, ?a 3] = Inr t \<and>
      BuildMerkleTree mock_lib mock_mt [?a 3, ?a 1] = Inr t"
    using BuildMerkleTree_correct [of mock_mt "[?a 1, ?a 3]" "[?a 3, ?a 1]" mock_lib] by auto
  moreover have "[?a 1, ?a 3] \<noteq> [?a 3, ?a 1]" using p [of 1] p [of 3] by (auto dest: arg_cong [of _ _ ack_PlayerAddress])
  ultimately show ?thesis by (intro exI [of _ "[?a 1, ?a 3]"] exI [of _ "[?a 3, ?a 1]"]) simp
qed

end
