(* ===== verification/Key_Store.thy ===== *)
theory Key_Store
  imports Types
begin

text \<open>
  \<open>pkg/keystore/keystore.go\<close>: the in-memory store of key versions. Its pointers are references
  into \<open>objs\<close>, the objects they point to, because the code sets the flag \<open>IsActive\<close> through
  one pointer and reads it through another. The mutex makes every operation atomic. The theorems:
  at most one stored version is flagged active and it is the active one (invariant of all reachable
  stores), version resolution returns the latest usable version, the exact lookup never falls back,
  and poisoned versions are neither resolved nor activated.
\<close>

type_synonym ref = nat

record 'f KeyStore =
  objs :: "ref \<Rightarrow> 'f KeyShareVersion"
  keyVersions :: "ref list"
  activeVersion :: "ref option"
  pendingVersion :: "ref option"
  poisoned :: "int64 list"

definition NewKeyStore :: "(ref \<Rightarrow> 'f KeyShareVersion) \<Rightarrow> 'f KeyStore" where
  "NewKeyStore h =
     \<lparr>objs = h, keyVersions = [], activeVersion = None, pendingVersion = None, poisoned = []\<rparr>"

definition set_flag :: "ref \<Rightarrow> bool \<Rightarrow> 'f KeyStore \<Rightarrow> 'f KeyStore" where
  "set_flag r b ks = ks\<lparr>objs := (objs ks)(r := (objs ks r)\<lparr>IsActive := b\<rparr>)\<rparr>"

text \<open>\<open>if ks.activeVersion != nil { ks.activeVersion.IsActive = false }\<close>\<close>

definition clear_active :: "'f KeyStore \<Rightarrow> 'f KeyStore" where
  "clear_active ks = (case activeVersion ks of None \<Rightarrow> ks | Some a \<Rightarrow> set_flag a False ks)"

definition AddVersion :: "ref \<Rightarrow> 'f KeyStore \<Rightarrow> 'f KeyStore" where
  "AddVersion version ks =
     (let ks1 = ks\<lparr>keyVersions := keyVersions ks @ [version]\<rparr> in
      if IsActive (objs ks version) then (clear_active ks1)\<lparr>activeVersion := Some version\<rparr> else ks1)"

definition SetActiveVersion :: "ref \<Rightarrow> 'f KeyStore \<Rightarrow> 'f KeyStore" where
  "SetActiveVersion version ks = (set_flag version True (clear_active ks))\<lparr>activeVersion := Some version\<rparr>"

definition SetActiveVersionByTimestamp :: "int64 \<Rightarrow> 'f KeyStore \<Rightarrow> 'f KeyStore \<times> unit res" where
  "SetActiveVersionByTimestamp version ks =
     (if version \<in> set (poisoned ks) then (ks, Inl (Errorf ''cannot activate poisoned version''))
      else case List.find (\<lambda>v. Version (objs ks v) = version) (keyVersions ks) of
        Some v \<Rightarrow> ((set_flag v True (clear_active ks))\<lparr>activeVersion := Some v\<rparr>, Inr ())
      | None \<Rightarrow> (ks, Inl (Errorf ''no key version in keystore'')))"

definition GetActiveVersion :: "'f KeyStore \<Rightarrow> ref option" where
  "GetActiveVersion ks = activeVersion ks"

definition MarkPoisoned :: "int64 \<Rightarrow> 'f KeyStore \<Rightarrow> 'f KeyStore" where
  "MarkPoisoned version ks = ks\<lparr>poisoned := List.insert version (poisoned ks)\<rparr>"

definition IsPoisoned :: "'f KeyStore \<Rightarrow> int64 \<Rightarrow> bool" where
  "IsPoisoned ks version \<longleftrightarrow> version \<in> set (poisoned ks)"

definition GetActivePrivateShare :: "'f KeyStore \<Rightarrow> 'f res" where
  "GetActivePrivateShare ks =
     (case activeVersion ks of
        None \<Rightarrow> Inl (Errorf ''no active key version'')
      | Some a \<Rightarrow> (case PrivateShare (objs ks a) of
          None \<Rightarrow> Inl (Panic ''nil pointer dereference'')
        | Some s \<Rightarrow> Inr s))"

definition SetPendingVersion :: "ref option \<Rightarrow> 'f KeyStore \<Rightarrow> 'f KeyStore" where
  "SetPendingVersion version ks = ks\<lparr>pendingVersion := version\<rparr>"

definition GetPendingVersion :: "'f KeyStore \<Rightarrow> ref option" where
  "GetPendingVersion ks = pendingVersion ks"

definition ActivatePendingVersion :: "'f KeyStore \<Rightarrow> 'f KeyStore \<times> unit res" where
  "ActivatePendingVersion ks =
     (case pendingVersion ks of
        None \<Rightarrow> (ks, Inl (Errorf ''no pending version to activate''))
      | Some p \<Rightarrow>
          if Version (objs ks p) \<in> set (poisoned ks)
          then (ks, Inl (Errorf ''cannot activate poisoned pending version''))
          else
            let ks1 = clear_active (set_flag p True ks) in
            (ks1\<lparr>activeVersion := Some p, keyVersions := keyVersions ks1 @ [p], pendingVersion := None\<rparr>, Inr ()))"

definition ClearPendingVersion :: "'f KeyStore \<Rightarrow> 'f KeyStore" where
  "ClearPendingVersion ks = ks\<lparr>pendingVersion := None\<rparr>"

definition GetPrivateShareForVersion :: "'f KeyStore \<Rightarrow> int64 \<Rightarrow> 'f res" where
  "GetPrivateShareForVersion ks version =
     (if version \<in> set (poisoned ks) then Inl (Errorf ''key version is poisoned and must not be used'')
      else case List.find (\<lambda>v. Version (objs ks v) = version) (keyVersions ks) of
        Some v \<Rightarrow> (case PrivateShare (objs ks v) of
            None \<Rightarrow> Inl (Errorf ''key version has no private share'')
          | Some s \<Rightarrow> Inr s)
      | None \<Rightarrow> Inl (Errorf ''no key version in keystore''))"

definition GetKeyVersionAtTime :: "'f KeyStore \<Rightarrow> int64 \<Rightarrow> ref option" where
  "GetKeyVersionAtTime ks timestamp =
     fold (\<lambda>v best.
         if Version (objs ks v) \<in> set (poisoned ks) then best
         else if Version (objs ks v) \<le> timestamp then
           (case best of
              None \<Rightarrow> Some v
            | Some b \<Rightarrow> if Version (objs ks v) > Version (objs ks b) then Some v else best)
         else best)
       (keyVersions ks) None"

subsection \<open>The stores a node can reach\<close>

text \<open>
  One call of a mutating method. A version that is added or activated as pending is an object of its
  own, not the one that is active already; \<open>Write\<close> is the caller filling in an object that the
  store does not hold yet.
\<close>

inductive ks_step :: "'f KeyStore \<Rightarrow> 'f KeyStore \<Rightarrow> bool" where
  Add: "activeVersion ks \<noteq> Some r \<Longrightarrow> ks_step ks (AddVersion r ks)"
| SetActive: "ks_step ks (SetActiveVersion r ks)"
| SetActiveByTime: "ks_step ks (fst (SetActiveVersionByTimestamp v ks))"
| Poison: "ks_step ks (MarkPoisoned v ks)"
| SetPending: "ks_step ks (SetPendingVersion p ks)"
| ActivatePending: "pendingVersion ks \<noteq> activeVersion ks \<Longrightarrow> ks_step ks (fst (ActivatePendingVersion ks))"
| ClearPending: "ks_step ks (ClearPendingVersion ks)"
| Write: "r \<notin> set (keyVersions ks) \<Longrightarrow> activeVersion ks \<noteq> Some r \<Longrightarrow> ks_step ks (ks\<lparr>objs := (objs ks)(r := k)\<rparr>)"

inductive ks_reachable :: "'f KeyStore \<Rightarrow> bool" where
  init: "ks_reachable (NewKeyStore h)"
| step: "ks_reachable ks \<Longrightarrow> ks_step ks ks' \<Longrightarrow> ks_reachable ks'"

definition ks_inv :: "'f KeyStore \<Rightarrow> bool" where
  "ks_inv ks \<longleftrightarrow>
     (\<forall>r \<in> set (keyVersions ks). activeVersion ks \<noteq> Some r \<longrightarrow> \<not> IsActive (objs ks r)) \<and>
     (\<forall>a. activeVersion ks = Some a \<longrightarrow> IsActive (objs ks a))"

lemmas ks_defs = AddVersion_def SetActiveVersion_def SetActiveVersionByTimestamp_def MarkPoisoned_def
  SetPendingVersion_def ActivatePendingVersion_def ClearPendingVersion_def clear_active_def set_flag_def Let_def

lemma clear_active_simps [simp]:
  "keyVersions (clear_active ks) = keyVersions ks" "activeVersion (clear_active ks) = activeVersion ks"
  "pendingVersion (clear_active ks) = pendingVersion ks" "poisoned (clear_active ks) = poisoned ks"
  "IsActive (objs (clear_active ks) r) = (IsActive (objs ks r) \<and> activeVersion ks \<noteq> Some r)"
  by (simp_all add: clear_active_def set_flag_def split: option.splits)

lemma set_flag_simps [simp]:
  "keyVersions (set_flag r b ks) = keyVersions ks" "activeVersion (set_flag r b ks) = activeVersion ks"
  "pendingVersion (set_flag r b ks) = pendingVersion ks" "poisoned (set_flag r b ks) = poisoned ks"
  "IsActive (objs (set_flag r b ks) s) = (if s = r then b else IsActive (objs ks s))"
  by (simp_all add: set_flag_def)

lemma ks_inv_activate: "ks_inv ks \<Longrightarrow> ks_inv ((set_flag r True (clear_active ks))\<lparr>activeVersion := Some r\<rparr>)"
  by (auto simp: ks_inv_def)

lemma ks_inv_step: "ks_step ks ks' \<Longrightarrow> ks_inv ks \<Longrightarrow> ks_inv ks'"
proof (induction rule: ks_step.induct)
  case (Add ks r)
  then show ?case by (auto simp: ks_inv_def AddVersion_def Let_def)
next
  case (SetActive ks r)
  then show ?case unfolding SetActiveVersion_def by (rule ks_inv_activate)
next
  case (SetActiveByTime ks v)
  then show ?case
    unfolding SetActiveVersionByTimestamp_def
    by (auto simp only: fst_conv intro: ks_inv_activate split: if_splits option.splits)
next
  case (ActivatePending ks)
  then show ?case by (auto simp: ks_inv_def ActivatePendingVersion_def Let_def split: option.splits)
qed (auto simp: ks_inv_def MarkPoisoned_def SetPendingVersion_def ClearPendingVersion_def)

lemma ks_reachable_inv: "ks_reachable ks \<Longrightarrow> ks_inv ks"
proof (induction rule: ks_reachable.induct)
  case (init h)
  then show ?case by (simp add: ks_inv_def NewKeyStore_def)
qed (rule ks_inv_step)

text \<open>
  C34. In every store that the methods can reach, exactly the active version is flagged: a stored
  version with \<open>IsActive\<close> is the active one, so there is at most one, and the active version
  carries the flag.
\<close>

theorem keystore_single_active:
  assumes "ks_reachable ks"
  shows "(\<forall>r \<in> set (keyVersions ks). \<forall>s \<in> set (keyVersions ks).
            IsActive (objs ks r) \<and> IsActive (objs ks s) \<longrightarrow> r = s) \<and>
         (\<forall>a. activeVersion ks = Some a \<longrightarrow> IsActive (objs ks a)) \<and>
         (\<forall>r \<in> set (keyVersions ks). IsActive (objs ks r) \<longrightarrow> GetActiveVersion ks = Some r)"
proof -
  have inv: "\<forall>r \<in> set (keyVersions ks). IsActive (objs ks r) \<longrightarrow> activeVersion ks = Some r"
    "\<forall>a. activeVersion ks = Some a \<longrightarrow> IsActive (objs ks a)"
    using ks_reachable_inv [OF assms] unfolding ks_inv_def by blast+
  then have "r = s" if "r \<in> set (keyVersions ks)" "s \<in> set (keyVersions ks)" "IsActive (objs ks r)" "IsActive (objs ks s)" for r s
    using that by (metis option.inject)
  with inv show ?thesis unfolding GetActiveVersion_def by blast
qed

text \<open>Two versions stored and activated one after the other.\<close>

definition mock_version :: "int64 \<Rightarrow> bool \<Rightarrow> gf KeyShareVersion" where
  "mock_version v active = \<lparr>Version = v, PrivateShare = Some (gf_of_int v), Commitments = [], MasterPublicKey = None,
     IsActive = active, ParticipantIDs = []\<rparr>"

definition mock_store :: "gf KeyStore" where
  "mock_store = AddVersion 1 (AddVersion 0 (NewKeyStore (\<lambda>r. mock_version (10 + 10 * int r) True)))"

lemmas mock_store_defs = mock_store_def mock_version_def ks_defs NewKeyStore_def

theorem keystore_single_active_witness:
  "keyVersions mock_store = [0, 1] \<and> \<not> IsActive (objs mock_store 0) \<and> IsActive (objs mock_store 1) \<and>
   GetActiveVersion mock_store = Some 1"
proof -
  have "ks_reachable mock_store"
    unfolding mock_store_def
    by (intro ks_reachable.step [OF ks_reachable.step [OF ks_reachable.init ks_step.Add] ks_step.Add])
       (simp_all add: mock_store_defs)
  from keystore_single_active [OF this]
  have "\<forall>r \<in> set (keyVersions mock_store). IsActive (objs mock_store r) \<longrightarrow> GetActiveVersion mock_store = Some r" by blast
  moreover have "keyVersions mock_store = [0, 1]" "\<not> IsActive (objs mock_store 0)" "IsActive (objs mock_store 1)"
    by (simp_all add: mock_store_defs)
  ultimately show ?thesis by simp
qed

subsection \<open>Version resolution\<close>

definition usable :: "'f KeyStore \<Rightarrow> int64 \<Rightarrow> ref \<Rightarrow> bool" where
  "usable ks t v \<longleftrightarrow> Version (objs ks v) \<notin> set (poisoned ks) \<and> Version (objs ks v) \<le> t"

lemma resolve_fold:
  "case fold (\<lambda>v best. if Version (objs ks v) \<in> set (poisoned ks) then best
         else if Version (objs ks v) \<le> t then
           (case best of None \<Rightarrow> Some v | Some b \<Rightarrow> if Version (objs ks v) > Version (objs ks b) then Some v else best)
         else best) vs None of
     None \<Rightarrow> \<forall>v \<in> set vs. \<not> usable ks t v
   | Some b \<Rightarrow> b \<in> set vs \<and> usable ks t b \<and> (\<forall>v \<in> set vs. usable ks t v \<longrightarrow> Version (objs ks v) \<le> Version (objs ks b))"
  by (induction vs rule: rev_induct) (auto simp: usable_def split: option.splits)

text \<open>
  \<open>GetKeyVersionAtTime\<close> returns the latest stored version at or before the given time that
  is not poisoned, and nil exactly when there is none.
\<close>

theorem GetKeyVersionAtTime_latest:
  "case GetKeyVersionAtTime ks t of
     None \<Rightarrow> \<forall>v \<in> set (keyVersions ks). IsPoisoned ks (Version (objs ks v)) \<or> t < Version (objs ks v)
   | Some b \<Rightarrow> b \<in> set (keyVersions ks) \<and> \<not> IsPoisoned ks (Version (objs ks b)) \<and> Version (objs ks b) \<le> t \<and>
       (\<forall>v \<in> set (keyVersions ks). IsPoisoned ks (Version (objs ks v)) \<or> t < Version (objs ks v) \<or>
          Version (objs ks v) \<le> Version (objs ks b))"
  using resolve_fold [where ks = ks and t = t and vs = "keyVersions ks"]
  unfolding GetKeyVersionAtTime_def IsPoisoned_def usable_def by (auto split: option.splits)

theorem GetKeyVersionAtTime_latest_witness:
  "GetKeyVersionAtTime mock_store 19 = Some 0 \<and>
   (case GetKeyVersionAtTime mock_store 19 of
     None \<Rightarrow> \<forall>v \<in> set (keyVersions mock_store). IsPoisoned mock_store (Version (objs mock_store v)) \<or> 19 < Version (objs mock_store v)
   | Some b \<Rightarrow> b \<in> set (keyVersions mock_store) \<and> \<not> IsPoisoned mock_store (Version (objs mock_store b)) \<and>
       Version (objs mock_store b) \<le> 19 \<and>
       (\<forall>v \<in> set (keyVersions mock_store). IsPoisoned mock_store (Version (objs mock_store v)) \<or>
          19 < Version (objs mock_store v) \<or> Version (objs mock_store v) \<le> Version (objs mock_store b)))"
  using GetKeyVersionAtTime_latest [of mock_store 19]
  by (simp add: GetKeyVersionAtTime_def mock_store_defs)

text \<open>
  The exact lookup never falls back and poisoned versions are unusable:
  \<open>GetPrivateShareForVersion\<close> gives a share only for a stored version with exactly that number
  that is not poisoned; \<open>SetActiveVersionByTimestamp\<close> and \<open>ActivatePendingVersion\<close> change the
  store only when the version they activate is not poisoned, and leave it as it was when they report
  an error.
\<close>

theorem poisoned_never_used:
  "(case GetPrivateShareForVersion ks v of
      Inr s \<Rightarrow> \<not> IsPoisoned ks v \<and>
        (\<exists>r \<in> set (keyVersions ks). Version (objs ks r) = v \<and> PrivateShare (objs ks r) = Some s)
    | Inl _ \<Rightarrow> IsPoisoned ks v \<or> (\<forall>r \<in> set (keyVersions ks). Version (objs ks r) = v \<longrightarrow>
        (\<exists>r' \<in> set (keyVersions ks). Version (objs ks r') = v \<and> PrivateShare (objs ks r') = None))) \<and>
   (case SetActiveVersionByTimestamp v ks of
      (ks', Inr _) \<Rightarrow> \<not> IsPoisoned ks v \<and> (\<exists>r \<in> set (keyVersions ks). Version (objs ks r) = v \<and>
         activeVersion ks' = Some r \<and> IsActive (objs ks' r))
    | (ks', Inl _) \<Rightarrow> ks' = ks \<and> (IsPoisoned ks v \<or> (\<forall>r \<in> set (keyVersions ks). Version (objs ks r) \<noteq> v))) \<and>
   (case ActivatePendingVersion ks of
      (ks', Inr _) \<Rightarrow> \<exists>p. pendingVersion ks = Some p \<and> \<not> IsPoisoned ks (Version (objs ks p)) \<and>
         activeVersion ks' = Some p \<and> pendingVersion ks' = None \<and> p \<in> set (keyVersions ks')
    | (ks', Inl _) \<Rightarrow> ks' = ks \<and> (\<forall>p. pendingVersion ks = Some p \<longrightarrow> IsPoisoned ks (Version (objs ks p))))"
proof (intro conjI)
  let ?find = "List.find (\<lambda>r. Version (objs ks r) = v) (keyVersions ks)"
  have find: "?find = Some r \<Longrightarrow> r \<in> set (keyVersions ks) \<and> Version (objs ks r) = v"
    "?find = None \<Longrightarrow> \<forall>r \<in> set (keyVersions ks). Version (objs ks r) \<noteq> v" for r
    by (auto simp: find_Some_iff find_None_iff)
  show "case GetPrivateShareForVersion ks v of
      Inr s \<Rightarrow> \<not> IsPoisoned ks v \<and>
        (\<exists>r \<in> set (keyVersions ks). Version (objs ks r) = v \<and> PrivateShare (objs ks r) = Some s)
    | Inl _ \<Rightarrow> IsPoisoned ks v \<or> (\<forall>r \<in> set (keyVersions ks). Version (objs ks r) = v \<longrightarrow>
        (\<exists>r' \<in> set (keyVersions ks). Version (objs ks r') = v \<and> PrivateShare (objs ks r') = None))"
    using find by (cases ?find) (auto simp: GetPrivateShareForVersion_def IsPoisoned_def split: option.splits)
  show "case SetActiveVersionByTimestamp v ks of
      (ks', Inr _) \<Rightarrow> \<not> IsPoisoned ks v \<and> (\<exists>r \<in> set (keyVersions ks). Version (objs ks r) = v \<and>
         activeVersion ks' = Some r \<and> IsActive (objs ks' r))
    | (ks', Inl _) \<Rightarrow> ks' = ks \<and> (IsPoisoned ks v \<or> (\<forall>r \<in> set (keyVersions ks). Version (objs ks r) \<noteq> v))"
    using find by (cases ?find) (auto simp: SetActiveVersionByTimestamp_def IsPoisoned_def)
  show "case ActivatePendingVersion ks of
      (ks', Inr _) \<Rightarrow> \<exists>p. pendingVersion ks = Some p \<and> \<not> IsPoisoned ks (Version (objs ks p)) \<and>
         activeVersion ks' = Some p \<and> pendingVersion ks' = None \<and> p \<in> set (keyVersions ks')
    | (ks', Inl _) \<Rightarrow> ks' = ks \<and> (\<forall>p. pendingVersion ks = Some p \<longrightarrow> IsPoisoned ks (Version (objs ks p)))"
    by (auto simp: ActivatePendingVersion_def IsPoisoned_def Let_def split: option.splits)
qed

theorem poisoned_never_used_witness:
  "(\<forall>s. GetPrivateShareForVersion (MarkPoisoned 20 mock_store) 20 \<noteq> Inr s) \<and>
   GetPrivateShareForVersion mock_store 20 = Inr (gf_of_int 20) \<and>
   fst (SetActiveVersionByTimestamp 20 (MarkPoisoned 20 mock_store)) = MarkPoisoned 20 mock_store"
proof -
  have bad: "IsPoisoned (MarkPoisoned 20 mock_store) 20" by (simp add: IsPoisoned_def MarkPoisoned_def)
  have "GetPrivateShareForVersion mock_store 20 = Inr (gf_of_int 20)"
    by (simp add: GetPrivateShareForVersion_def mock_store_defs)
  then show ?thesis
    using poisoned_never_used [of "MarkPoisoned 20 mock_store" 20] bad
    by (auto split: sum.splits prod.splits)
qed

end
