(* ===== verification/Persistence.thy ===== *)
theory Persistence
  imports Types
begin

text \<open>
  \<open>pkg/persistence\<close>: the stored records (\<open>types.go\<close>) and the interface \<open>INodePersistence\<close>
  (\<open>interface.go\<close>). An implementation is a record of its methods over a state \<open>'s\<close>, as a
  Go interface value is; the locale \<open>node_persistence\<close> is the contract its comments state, relative
  to the abstract store \<open>pstore\<close>, and the client's consequences are proved once in it. A method
  that changes the store returns the new state with its error.
\<close>

record NodeState =
  LastProcessedBoundary :: int64
  NodeStartTime :: int64
  ns_OperatorAddress :: string
  TrackedSourceVersion :: int64
  ConsecutiveMPKAborts :: int
  LastKnownGoodSourceVersion :: int64

record BlockRecord =
  br_Number :: nat
  br_Hash :: string
  br_ParentHash :: string
  br_Timestamp :: nat
  br_ChainId :: nat

record ProtocolSessionState =
  ps_SessionTimestamp :: int64
  ps_Type :: string
  ps_Phase :: int
  ps_StartTime :: int64
  ps_OperatorAddresses :: "string list"
  ps_Shares :: "(string, string) gomap"
  ps_Commitments :: "(string, G2Point list) gomap"
  ps_Acknowledgements :: "(string, (string, Acknowledgement) gomap) gomap"

text \<open>\<open>now\<close> is \<open>time.Now().Unix()\<close>.\<close>

definition IsExpired :: "int64 \<Rightarrow> ProtocolSessionState option \<Rightarrow> int64 \<Rightarrow> bool" where
  "IsExpired now pss timeoutSeconds =
     (case pss of None \<Rightarrow> True | Some p \<Rightarrow> now - ps_StartTime p > timeoutSeconds)"

definition NodeState_zero :: NodeState where
  "NodeState_zero = \<lparr>LastProcessedBoundary = 0, NodeStartTime = 0, ns_OperatorAddress = [],
     TrackedSourceVersion = 0, ConsecutiveMPKAborts = 0, LastKnownGoodSourceVersion = 0\<rparr>"

subsection \<open>The interface\<close>

record ('s, 'f) INodePersistence =
  pi_SaveKeyShareVersion :: "'s \<Rightarrow> 'f KeyShareVersion option \<Rightarrow> 's \<times> unit res"
  pi_LoadKeyShareVersion :: "'s \<Rightarrow> int64 \<Rightarrow> 'f KeyShareVersion option res"
  pi_ListKeyShareVersions :: "'s \<Rightarrow> 'f KeyShareVersion list res"
  pi_DeleteKeyShareVersion :: "'s \<Rightarrow> int64 \<Rightarrow> 's \<times> unit res"
  pi_AddPoisonedVersion :: "'s \<Rightarrow> int64 \<Rightarrow> 's \<times> unit res"
  pi_ListPoisonedVersions :: "'s \<Rightarrow> int64 list res"
  pi_SetActiveVersionTimestamp :: "'s \<Rightarrow> int64 \<Rightarrow> 's \<times> unit res"
  pi_GetActiveVersionTimestamp :: "'s \<Rightarrow> int64 res"
  pi_SaveNodeState :: "'s \<Rightarrow> NodeState option \<Rightarrow> 's \<times> unit res"
  pi_LoadNodeState :: "'s \<Rightarrow> NodeState option res"
  pi_SaveProtocolSession :: "'s \<Rightarrow> ProtocolSessionState option \<Rightarrow> 's \<times> unit res"
  pi_LoadProtocolSession :: "'s \<Rightarrow> int64 \<Rightarrow> ProtocolSessionState option res"
  pi_DeleteProtocolSession :: "'s \<Rightarrow> int64 \<Rightarrow> 's \<times> unit res"
  pi_ListProtocolSessions :: "'s \<Rightarrow> ProtocolSessionState list res"
  pi_SaveBlockRecord :: "'s \<Rightarrow> BlockRecord option \<Rightarrow> 's \<times> unit res"
  pi_GetLastProcessedBlockRecord :: "'s \<Rightarrow> nat \<Rightarrow> BlockRecord option res"
  pi_GetBlockRecord :: "'s \<Rightarrow> nat \<Rightarrow> nat \<Rightarrow> BlockRecord option res"
  pi_DeleteBlockRecord :: "'s \<Rightarrow> nat \<Rightarrow> nat \<Rightarrow> 's \<times> unit res"
  pi_Close :: "'s \<Rightarrow> 's \<times> unit res"
  pi_HealthCheck :: "'s \<Rightarrow> unit res"

text \<open>The abstract store: what the methods mean.\<close>

record 'f pstore =
  p_keys :: "int64 \<Rightarrow> 'f KeyShareVersion option"
  p_active :: int64
  p_node :: "NodeState option"
  p_sessions :: "int64 \<Rightarrow> ProtocolSessionState option"
  p_blocks :: "nat \<times> nat \<Rightarrow> BlockRecord option"
  p_last :: "nat \<Rightarrow> nat option"
  p_poisoned :: "int64 set"
  p_closed :: bool

definition failed :: "'a res \<Rightarrow> bool" where
  "failed r \<longleftrightarrow> \<not> ok r"

text \<open>
  \<open>writes valid absf upd r\<close>: the mutation \<open>r\<close> of \<open>s\<close> succeeds, keeps the invariant and has the
  effect \<open>upd\<close> on the abstract store.
\<close>

definition writes ::
  "('s \<Rightarrow> bool) \<Rightarrow> ('s \<Rightarrow> 'f pstore) \<Rightarrow> 's \<Rightarrow> ('f pstore \<Rightarrow> 'f pstore) \<Rightarrow> 's \<times> unit res \<Rightarrow> bool" where
  "writes valid absf s upd r \<longleftrightarrow> snd r = Inr () \<and> valid (fst r) \<and> absf (fst r) = upd (absf s)"

text \<open>
  The calls that change a store, on values of the types' ranges, and the effect the contract gives
  them. A node state without an operator address and with the boundary 0 is left out: the memory store
  takes it for a missing one.
\<close>

datatype 'f write_op =
    SaveKey "'f KeyShareVersion" | DeleteKey int64 | Poison int64 | SetActive int64 | SaveNode NodeState
  | SaveSession ProtocolSessionState | DeleteSession int64 | SaveBlock BlockRecord | DeleteBlock nat nat

primrec op_range :: "'f write_op \<Rightarrow> bool" where
  "op_range (SaveKey k) \<longleftrightarrow> int64_range (Version k)"
| "op_range (DeleteKey v) \<longleftrightarrow> int64_range v"
| "op_range (Poison v) \<longleftrightarrow> int64_range v"
| "op_range (SetActive v) \<longleftrightarrow> int64_range v"
| "op_range (SaveNode st) \<longleftrightarrow> ns_OperatorAddress st \<noteq> [] \<or> LastProcessedBoundary st \<noteq> 0"
| "op_range (SaveSession p) \<longleftrightarrow> int64_range (ps_SessionTimestamp p)"
| "op_range (DeleteSession v) \<longleftrightarrow> int64_range v"
| "op_range (SaveBlock b) \<longleftrightarrow> br_Number b < 2 ^ 64 \<and> br_ChainId b < 2 ^ 64"
| "op_range (DeleteBlock c n) \<longleftrightarrow> True"

primrec perform :: "('s, 'f) INodePersistence \<Rightarrow> 's \<Rightarrow> 'f write_op \<Rightarrow> 's \<times> unit res" where
  "perform P s (SaveKey k) = pi_SaveKeyShareVersion P s (Some k)"
| "perform P s (DeleteKey v) = pi_DeleteKeyShareVersion P s v"
| "perform P s (Poison v) = pi_AddPoisonedVersion P s v"
| "perform P s (SetActive v) = pi_SetActiveVersionTimestamp P s v"
| "perform P s (SaveNode st) = pi_SaveNodeState P s (Some st)"
| "perform P s (SaveSession p) = pi_SaveProtocolSession P s (Some p)"
| "perform P s (DeleteSession v) = pi_DeleteProtocolSession P s v"
| "perform P s (SaveBlock b) = pi_SaveBlockRecord P s (Some b)"
| "perform P s (DeleteBlock c n) = pi_DeleteBlockRecord P s c n"

primrec effect :: "'f write_op \<Rightarrow> 'f pstore \<Rightarrow> 'f pstore" where
  "effect (SaveKey k) = (\<lambda>a. a\<lparr>p_keys := (p_keys a)(Version k \<mapsto> k)\<rparr>)"
| "effect (DeleteKey v) = (\<lambda>a. a\<lparr>p_keys := (p_keys a)(v := None)\<rparr>)"
| "effect (Poison v) = (\<lambda>a. a\<lparr>p_poisoned := insert v (p_poisoned a)\<rparr>)"
| "effect (SetActive v) = (\<lambda>a. a\<lparr>p_active := v\<rparr>)"
| "effect (SaveNode st) = (\<lambda>a. a\<lparr>p_node := Some st\<rparr>)"
| "effect (SaveSession p) = (\<lambda>a. a\<lparr>p_sessions := (p_sessions a)(ps_SessionTimestamp p \<mapsto> p)\<rparr>)"
| "effect (DeleteSession v) = (\<lambda>a. a\<lparr>p_sessions := (p_sessions a)(v := None)\<rparr>)"
| "effect (SaveBlock b) = (\<lambda>a. a\<lparr>p_blocks := (p_blocks a)((br_ChainId b, br_Number b) \<mapsto> b),
                                    p_last := (p_last a)(br_ChainId b \<mapsto> br_Number b)\<rparr>)"
| "effect (DeleteBlock c n) = (\<lambda>a. a\<lparr>p_blocks := (p_blocks a)((c, n) := None)\<rparr>)"

definition run_writes :: "('s, 'f) INodePersistence \<Rightarrow> 'f write_op list \<Rightarrow> 's \<Rightarrow> 's" where
  "run_writes P ops s = fold (\<lambda>w s. fst (perform P s w)) ops s"

definition empty_pstore :: "'f pstore" where
  "empty_pstore = \<lparr>p_keys = (\<lambda>_. None), p_active = 0, p_node = None, p_sessions = (\<lambda>_. None),
     p_blocks = (\<lambda>_. None), p_last = (\<lambda>_. None), p_poisoned = {}, p_closed = False\<rparr>"

lemma p_closed_empty [simp]: "\<not> p_closed empty_pstore"
  by (simp add: empty_pstore_def)

lemma effect_closed [simp]: "p_closed (effect w a) = p_closed a"
  by (cases w) simp_all

lemma fold_effect_closed [simp]: "p_closed (fold effect ops a) = p_closed a"
  by (induction ops arbitrary: a) simp_all

locale node_persistence =
  fixes P :: "('s, 'f) INodePersistence"
    and valid :: "'s \<Rightarrow> bool"
    and absf :: "'s \<Rightarrow> 'f pstore"
  assumes save_key: "valid s \<Longrightarrow> \<not> p_closed (absf s) \<Longrightarrow> int64_range (Version k) \<Longrightarrow>
      writes valid absf s (\<lambda>a. a\<lparr>p_keys := (p_keys a)(Version k \<mapsto> k)\<rparr>) (pi_SaveKeyShareVersion P s (Some k))"
    and load_key: "valid s \<Longrightarrow> \<not> p_closed (absf s) \<Longrightarrow> int64_range v \<Longrightarrow>
      pi_LoadKeyShareVersion P s v = Inr (p_keys (absf s) v)"
    and list_keys: "valid s \<Longrightarrow> \<not> p_closed (absf s) \<Longrightarrow> \<exists>ks. pi_ListKeyShareVersions P s = Inr ks \<and>
      sorted_wrt (<) (map Version ks) \<and> (\<forall>k. k \<in> set ks \<longleftrightarrow> p_keys (absf s) (Version k) = Some k)"
    and delete_key: "valid s \<Longrightarrow> \<not> p_closed (absf s) \<Longrightarrow> int64_range v \<Longrightarrow>
      writes valid absf s (\<lambda>a. a\<lparr>p_keys := (p_keys a)(v := None)\<rparr>) (pi_DeleteKeyShareVersion P s v)"
    and add_poisoned: "valid s \<Longrightarrow> \<not> p_closed (absf s) \<Longrightarrow> int64_range v \<Longrightarrow>
      writes valid absf s (\<lambda>a. a\<lparr>p_poisoned := insert v (p_poisoned a)\<rparr>) (pi_AddPoisonedVersion P s v)"
    and list_poisoned: "valid s \<Longrightarrow> \<not> p_closed (absf s) \<Longrightarrow>
      \<exists>vs. pi_ListPoisonedVersions P s = Inr vs \<and> distinct vs \<and> set vs = p_poisoned (absf s)"
    and set_active: "valid s \<Longrightarrow> \<not> p_closed (absf s) \<Longrightarrow> int64_range v \<Longrightarrow>
      writes valid absf s (\<lambda>a. a\<lparr>p_active := v\<rparr>) (pi_SetActiveVersionTimestamp P s v)"
    and get_active: "valid s \<Longrightarrow> \<not> p_closed (absf s) \<Longrightarrow> pi_GetActiveVersionTimestamp P s = Inr (p_active (absf s))"
    and save_node: "valid s \<Longrightarrow> \<not> p_closed (absf s) \<Longrightarrow> ns_OperatorAddress st \<noteq> [] \<or> LastProcessedBoundary st \<noteq> 0 \<Longrightarrow>
      writes valid absf s (\<lambda>a. a\<lparr>p_node := Some st\<rparr>) (pi_SaveNodeState P s (Some st))"
    and load_node: "valid s \<Longrightarrow> \<not> p_closed (absf s) \<Longrightarrow> pi_LoadNodeState P s = Inr (p_node (absf s))"
    and save_session: "valid s \<Longrightarrow> \<not> p_closed (absf s) \<Longrightarrow> int64_range (ps_SessionTimestamp p) \<Longrightarrow>
      writes valid absf s (\<lambda>a. a\<lparr>p_sessions := (p_sessions a)(ps_SessionTimestamp p \<mapsto> p)\<rparr>)
        (pi_SaveProtocolSession P s (Some p))"
    and load_session: "valid s \<Longrightarrow> \<not> p_closed (absf s) \<Longrightarrow> int64_range v \<Longrightarrow>
      pi_LoadProtocolSession P s v = Inr (p_sessions (absf s) v)"
    and delete_session: "valid s \<Longrightarrow> \<not> p_closed (absf s) \<Longrightarrow> int64_range v \<Longrightarrow>
      writes valid absf s (\<lambda>a. a\<lparr>p_sessions := (p_sessions a)(v := None)\<rparr>) (pi_DeleteProtocolSession P s v)"
    and list_sessions: "valid s \<Longrightarrow> \<not> p_closed (absf s) \<Longrightarrow> \<exists>ps. pi_ListProtocolSessions P s = Inr ps \<and>
      (\<forall>p. p \<in> set ps \<longleftrightarrow> p_sessions (absf s) (ps_SessionTimestamp p) = Some p)"
    and save_block: "valid s \<Longrightarrow> \<not> p_closed (absf s) \<Longrightarrow> br_Number b < 2 ^ 64 \<Longrightarrow> br_ChainId b < 2 ^ 64 \<Longrightarrow>
      writes valid absf s (\<lambda>a. a\<lparr>p_blocks := (p_blocks a)((br_ChainId b, br_Number b) \<mapsto> b),
                              p_last := (p_last a)(br_ChainId b \<mapsto> br_Number b)\<rparr>)
        (pi_SaveBlockRecord P s (Some b))"
    and get_block: "valid s \<Longrightarrow> \<not> p_closed (absf s) \<Longrightarrow> pi_GetBlockRecord P s c n = Inr (p_blocks (absf s) (c, n))"
    and get_last: "valid s \<Longrightarrow> \<not> p_closed (absf s) \<Longrightarrow> pi_GetLastProcessedBlockRecord P s c =
      Inr (case p_last (absf s) c of None \<Rightarrow> None | Some n \<Rightarrow> p_blocks (absf s) (c, n))"
    and delete_block: "valid s \<Longrightarrow> \<not> p_closed (absf s) \<Longrightarrow>
      writes valid absf s (\<lambda>a. a\<lparr>p_blocks := (p_blocks a)((c, n) := None)\<rparr>) (pi_DeleteBlockRecord P s c n)"
    and close: "valid s \<Longrightarrow> writes valid absf s (\<lambda>a. a\<lparr>p_closed := True\<rparr>) (pi_Close P s)"
    and health: "valid s \<Longrightarrow> ok (pi_HealthCheck P s) \<longleftrightarrow> \<not> p_closed (absf s)"
    and closed_reads: "valid s \<Longrightarrow> p_closed (absf s) \<Longrightarrow>
      failed (pi_LoadKeyShareVersion P s v) \<and> failed (pi_ListKeyShareVersions P s) \<and>
      failed (pi_ListPoisonedVersions P s) \<and> failed (pi_GetActiveVersionTimestamp P s) \<and>
      failed (pi_LoadNodeState P s) \<and> failed (pi_LoadProtocolSession P s v) \<and>
      failed (pi_ListProtocolSessions P s) \<and> failed (pi_GetLastProcessedBlockRecord P s c) \<and>
      failed (pi_GetBlockRecord P s c n)"
    and closed_writes: "valid s \<Longrightarrow> p_closed (absf s) \<Longrightarrow>
      r \<in> {pi_SaveKeyShareVersion P s ko, pi_DeleteKeyShareVersion P s v, pi_AddPoisonedVersion P s v,
           pi_SetActiveVersionTimestamp P s v, pi_SaveNodeState P s sto, pi_SaveProtocolSession P s po,
           pi_DeleteProtocolSession P s v, pi_SaveBlockRecord P s bo, pi_DeleteBlockRecord P s c n} \<Longrightarrow>
      fst r = s \<and> failed (snd r)"
    and nil_writes: "valid s \<Longrightarrow>
      r \<in> {pi_SaveKeyShareVersion P s None, pi_SaveNodeState P s None, pi_SaveProtocolSession P s None,
           pi_SaveBlockRecord P s None} \<Longrightarrow> fst r = s \<and> failed (snd r)"
begin

text \<open>A stored key share is loaded back, until it is deleted or overwritten, and never by another key.\<close>

lemma load_after_save:
  assumes "valid s" "\<not> p_closed (absf s)" "int64_range (Version k)" "int64_range v"
    "pi_SaveKeyShareVersion P s (Some k) = (s', e)"
  shows "e = Inr () \<and> pi_LoadKeyShareVersion P s' v =
     (if v = Version k then Inr (Some k) else pi_LoadKeyShareVersion P s v)"
proof -
  have w: "e = Inr ()" "valid s'" "absf s' = (absf s)\<lparr>p_keys := (p_keys (absf s))(Version k \<mapsto> k)\<rparr>"
    using save_key [OF assms(1-3)] assms(5) by (simp_all add: writes_def)
  then show ?thesis using load_key [OF w(2) _ assms(4)] load_key [OF assms(1,2,4)] assms(2) by simp
qed

text \<open>
  Saving a version and pointing the active timestamp at it (the order in which the node finalises a
  round) survives a restart: the active timestamp and its key share are read back.
\<close>

lemma active_after_restart:
  assumes "valid s" "\<not> p_closed (absf s)" "int64_range (Version k)"
    "pi_SaveKeyShareVersion P s (Some k) = (s1, e1)" "pi_SetActiveVersionTimestamp P s1 (Version k) = (s2, e2)"
  shows "e1 = Inr () \<and> e2 = Inr () \<and> pi_GetActiveVersionTimestamp P s2 = Inr (Version k) \<and>
     pi_LoadKeyShareVersion P s2 (Version k) = Inr (Some k)"
proof -
  have w1: "e1 = Inr ()" "valid s1" "absf s1 = (absf s)\<lparr>p_keys := (p_keys (absf s))(Version k \<mapsto> k)\<rparr>"
    using save_key [OF assms(1-3)] assms(4) by (simp_all add: writes_def)
  then have o1: "\<not> p_closed (absf s1)" using assms(2) by simp
  have w2: "e2 = Inr ()" "valid s2" "absf s2 = (absf s1)\<lparr>p_active := Version k\<rparr>"
    using set_active [OF w1(2) o1 assms(3)] assms(5) by (simp_all add: writes_def)
  then have o2: "\<not> p_closed (absf s2)" using o1 by simp
  show ?thesis
    using get_active [OF w2(2) o2] load_key [OF w2(2) o2 assms(3)] w1 w2 by simp
qed

text \<open>A version once poisoned stays poisoned, whatever else is written.\<close>

lemma poisoned_after_add:
  assumes "valid s" "\<not> p_closed (absf s)" "int64_range v" "pi_AddPoisonedVersion P s v = (s', e)"
  shows "\<exists>vs vs'. pi_ListPoisonedVersions P s = Inr vs \<and> pi_ListPoisonedVersions P s' = Inr vs' \<and>
     e = Inr () \<and> set vs' = insert v (set vs)"
proof -
  have w: "e = Inr ()" "valid s'" "absf s' = (absf s)\<lparr>p_poisoned := insert v (p_poisoned (absf s))\<rparr>"
    using add_poisoned [OF assms(1-3)] assms(4) by (simp_all add: writes_def)
  then have "\<not> p_closed (absf s')" using assms(2) by simp
  with list_poisoned [OF w(2)] list_poisoned [OF assms(1,2)] w show ?thesis by auto
qed

text \<open>A call has the effect the contract gives it, and so has a sequence of calls.\<close>

lemma perform_writes:
  assumes "valid s" "\<not> p_closed (absf s)" "op_range w"
  shows "writes valid absf s (effect w) (perform P s w)"
  using assms save_key delete_key add_poisoned set_active save_node save_session delete_session save_block delete_block
  by (cases w) auto

lemma run_writes_effect:
  assumes "valid s" "\<not> p_closed (absf s)" "list_all op_range ops"
  shows "valid (run_writes P ops s) \<and> absf (run_writes P ops s) = fold effect ops (absf s) \<and>
     \<not> p_closed (absf (run_writes P ops s))"
  using assms
proof (induction ops arbitrary: s)
  case (Cons w ops)
  then have "writes valid absf s (effect w) (perform P s w)" by (intro perform_writes) simp_all
  then have "valid (fst (perform P s w))" "absf (fst (perform P s w)) = effect w (absf s)"
    by (simp_all add: writes_def)
  with Cons.IH [of "fst (perform P s w)"] Cons.prems show ?case by (simp add: run_writes_def)
qed (simp add: run_writes_def)

text \<open>What the reads answer is a function of the abstract store.\<close>

lemma answers:
  assumes "valid s" "\<not> p_closed (absf s)" "int64_range v"
  shows "pi_LoadKeyShareVersion P s v = Inr (p_keys (absf s) v)"
    "pi_LoadProtocolSession P s v = Inr (p_sessions (absf s) v)"
    "pi_LoadNodeState P s = Inr (p_node (absf s))"
    "pi_GetActiveVersionTimestamp P s = Inr (p_active (absf s))"
    "pi_GetBlockRecord P s c n = Inr (p_blocks (absf s) (c, n))"
    "pi_GetLastProcessedBlockRecord P s c =
       Inr (case p_last (absf s) c of None \<Rightarrow> None | Some n \<Rightarrow> p_blocks (absf s) (c, n))"
    "map_sum id set (pi_ListKeyShareVersions P s) = Inr {k. p_keys (absf s) (Version k) = Some k}"
    "map_sum id set (pi_ListProtocolSessions P s) = Inr {p. p_sessions (absf s) (ps_SessionTimestamp p) = Some p}"
    "map_sum id set (pi_ListPoisonedVersions P s) = Inr (p_poisoned (absf s))"
proof -
  show "map_sum id set (pi_ListKeyShareVersions P s) = Inr {k. p_keys (absf s) (Version k) = Some k}"
    using list_keys [OF assms(1,2)] by auto
  show "map_sum id set (pi_ListProtocolSessions P s) = Inr {p. p_sessions (absf s) (ps_SessionTimestamp p) = Some p}"
    using list_sessions [OF assms(1,2)] by auto
  show "map_sum id set (pi_ListPoisonedVersions P s) = Inr (p_poisoned (absf s))"
    using list_poisoned [OF assms(1,2)] by auto
qed (simp_all add: assms load_key load_session load_node get_active get_block get_last)

text \<open>The block cursor is the block most recently saved.\<close>

lemma last_block_after_save:
  assumes "valid s" "\<not> p_closed (absf s)" "br_Number b < 2 ^ 64" "br_ChainId b < 2 ^ 64"
    "pi_SaveBlockRecord P s (Some b) = (s', e)"
  shows "e = Inr () \<and> pi_GetLastProcessedBlockRecord P s' (br_ChainId b) = Inr (Some b) \<and>
     (\<forall>c. c \<noteq> br_ChainId b \<longrightarrow> pi_GetLastProcessedBlockRecord P s' c = pi_GetLastProcessedBlockRecord P s c)"
proof -
  have w: "e = Inr ()" "valid s'" "absf s' = (absf s)\<lparr>p_blocks := (p_blocks (absf s))((br_ChainId b, br_Number b) \<mapsto> b),
      p_last := (p_last (absf s))(br_ChainId b \<mapsto> br_Number b)\<rparr>"
    using save_block [OF assms(1-4)] assms(5) by (simp_all add: writes_def)
  then have o: "\<not> p_closed (absf s')" using assms(2) by simp
  show ?thesis
    using get_last [OF w(2) o] get_last [OF assms(1,2)] w by (auto split: option.splits)
qed

end

end
