(* ===== verification/Memory_Persistence.thy ===== *)
theory Memory_Persistence
  imports Persistence Finite_Field
begin

text \<open>
  \<open>pkg/persistence/memory/memory.go\<close>: the in-memory implementation of \<open>INodePersistence\<close>, and
  its interpretation as a \<open>node_persistence\<close>. The mutex makes every method atomic; the deep copies
  are written out and shown to copy every field.
\<close>

record 'f MemoryPersistence =
  keyShares :: "(int64, 'f KeyShareVersion) gomap"
  activeVersionTimestamp :: int64
  nodeState :: NodeState
  sessions :: "(int64, ProtocolSessionState) gomap"
  blockRecords :: "(nat \<times> nat, BlockRecord) gomap"
  lastProcessedBlocks :: "(nat, nat) gomap"
  mem_poisoned :: "(int64, unit) gomap"
  mem_closed :: bool

definition NewMemoryPersistence :: "'f MemoryPersistence" where
  "NewMemoryPersistence =
     \<lparr>keyShares = [], activeVersionTimestamp = 0, nodeState = NodeState_zero, sessions = [],
      blockRecords = [], lastProcessedBlocks = [], mem_poisoned = [], mem_closed = False\<rparr>"

subsection \<open>Deep copies\<close>

definition copy_G2Point :: "G2Point \<Rightarrow> G2Point" where
  "copy_G2Point c = G2Point (map (\<lambda>b. b) (g2_CompressedBytes c))"

definition deepCopyKeyShareVersion :: "'f KeyShareVersion \<Rightarrow> 'f KeyShareVersion" where
  "deepCopyKeyShareVersion v =
     \<lparr>Version = Version v,
      PrivateShare = (case PrivateShare v of None \<Rightarrow> None | Some s \<Rightarrow> Some s),
      Commitments = map copy_G2Point (Commitments v),
      MasterPublicKey = (case MasterPublicKey v of None \<Rightarrow> None | Some m \<Rightarrow> Some (copy_G2Point m)),
      IsActive = IsActive v,
      ParticipantIDs = map (\<lambda>a. a) (ParticipantIDs v)\<rparr>"

definition deepCopyBlockRecord :: "BlockRecord \<Rightarrow> BlockRecord" where
  "deepCopyBlockRecord r = r"

definition copy_ack :: "Acknowledgement \<Rightarrow> Acknowledgement" where
  "copy_ack ack =
     \<lparr>ack_DealerAddress = ack_DealerAddress ack, ack_PlayerAddress = ack_PlayerAddress ack,
      ack_SessionTimestamp = ack_SessionTimestamp ack, ack_ShareHash = ack_ShareHash ack,
      ack_CommitmentHash = ack_CommitmentHash ack,
      ack_Signature = (if length (ack_Signature ack) > 0 then map (\<lambda>b. b) (ack_Signature ack) else [])\<rparr>"

definition deepCopyProtocolSessionState :: "ProtocolSessionState \<Rightarrow> ProtocolSessionState" where
  "deepCopyProtocolSessionState s =
     \<lparr>ps_SessionTimestamp = ps_SessionTimestamp s, ps_Type = ps_Type s, ps_Phase = ps_Phase s,
      ps_StartTime = ps_StartTime s, ps_OperatorAddresses = map (\<lambda>a. a) (ps_OperatorAddresses s),
      ps_Shares = map (\<lambda>(k, v). (k, v)) (ps_Shares s),
      ps_Commitments = map (\<lambda>(k, v). (k, map copy_G2Point v)) (ps_Commitments s),
      ps_Acknowledgements =
        map (\<lambda>(d, m). (d, map (\<lambda>(r, ack). (r, copy_ack ack)) m)) (ps_Acknowledgements s)\<rparr>"

lemma copy_G2Point_id [simp]: "copy_G2Point c = c"
  by (simp add: copy_G2Point_def)

lemma deepCopyKeyShareVersion_id [simp]: "deepCopyKeyShareVersion v = v"
  by (simp add: deepCopyKeyShareVersion_def map_idI split: option.splits)

lemma copy_ack_id [simp]: "copy_ack a = a"
  by (simp add: copy_ack_def)

lemma deepCopyProtocolSessionState_id [simp]: "deepCopyProtocolSessionState s = s"
  by (simp add: deepCopyProtocolSessionState_def map_idI case_prod_unfold)

lemma deepCopyBlockRecord_id [simp]: "deepCopyBlockRecord r = r"
  by (simp add: deepCopyBlockRecord_def)

subsection \<open>The methods\<close>

abbreviation closed_err :: "'a res" where
  "closed_err \<equiv> Inl (Errorf ''persistence layer is closed'')"

definition mem_SaveKeyShareVersion ::
  "'f MemoryPersistence \<Rightarrow> 'f KeyShareVersion option \<Rightarrow> 'f MemoryPersistence \<times> unit res" where
  "mem_SaveKeyShareVersion m version =
     (case version of
        None \<Rightarrow> (m, Inl (Errorf ''cannot save nil KeyShareVersion''))
      | Some v \<Rightarrow> if mem_closed m then (m, closed_err)
          else (m\<lparr>keyShares := gm_set (keyShares m) (Version v) (deepCopyKeyShareVersion v)\<rparr>, Inr ()))"

definition mem_LoadKeyShareVersion ::
  "'f MemoryPersistence \<Rightarrow> int64 \<Rightarrow> 'f KeyShareVersion option res" where
  "mem_LoadKeyShareVersion m timestamp =
     (if mem_closed m then closed_err
      else case gm_get (keyShares m) timestamp of
             None \<Rightarrow> Inr None
           | Some v \<Rightarrow> Inr (Some (deepCopyKeyShareVersion v)))"

definition mem_ListKeyShareVersions :: "'f MemoryPersistence \<Rightarrow> 'f KeyShareVersion list res" where
  "mem_ListKeyShareVersions m =
     (if mem_closed m then closed_err
      else Inr (map (\<lambda>ts. deepCopyKeyShareVersion (the (gm_get (keyShares m) ts))) (sort (gm_keys (keyShares m)))))"

definition mem_DeleteKeyShareVersion ::
  "'f MemoryPersistence \<Rightarrow> int64 \<Rightarrow> 'f MemoryPersistence \<times> unit res" where
  "mem_DeleteKeyShareVersion m timestamp =
     (if mem_closed m then (m, closed_err) else (m\<lparr>keyShares := gm_del (keyShares m) timestamp\<rparr>, Inr ()))"

definition mem_AddPoisonedVersion ::
  "'f MemoryPersistence \<Rightarrow> int64 \<Rightarrow> 'f MemoryPersistence \<times> unit res" where
  "mem_AddPoisonedVersion m version =
     (if mem_closed m then (m, closed_err) else (m\<lparr>mem_poisoned := gm_set (mem_poisoned m) version ()\<rparr>, Inr ()))"

definition mem_ListPoisonedVersions :: "'f MemoryPersistence \<Rightarrow> int64 list res" where
  "mem_ListPoisonedVersions m = (if mem_closed m then closed_err else Inr (gm_keys (mem_poisoned m)))"

definition mem_SetActiveVersionTimestamp ::
  "'f MemoryPersistence \<Rightarrow> int64 \<Rightarrow> 'f MemoryPersistence \<times> unit res" where
  "mem_SetActiveVersionTimestamp m timestamp =
     (if mem_closed m then (m, closed_err) else (m\<lparr>activeVersionTimestamp := timestamp\<rparr>, Inr ()))"

definition mem_GetActiveVersionTimestamp :: "'f MemoryPersistence \<Rightarrow> int64 res" where
  "mem_GetActiveVersionTimestamp m = (if mem_closed m then closed_err else Inr (activeVersionTimestamp m))"

definition mem_SaveNodeState ::
  "'f MemoryPersistence \<Rightarrow> NodeState option \<Rightarrow> 'f MemoryPersistence \<times> unit res" where
  "mem_SaveNodeState m state =
     (case state of
        None \<Rightarrow> (m, Inl (Errorf ''cannot save nil NodeState''))
      | Some st \<Rightarrow> if mem_closed m then (m, closed_err)
          else (m\<lparr>nodeState :=
                 \<lparr>LastProcessedBoundary = LastProcessedBoundary st, NodeStartTime = NodeStartTime st,
                  ns_OperatorAddress = ns_OperatorAddress st, TrackedSourceVersion = TrackedSourceVersion st,
                  ConsecutiveMPKAborts = ConsecutiveMPKAborts st,
                  LastKnownGoodSourceVersion = LastKnownGoodSourceVersion st\<rparr>\<rparr>, Inr ()))"

definition mem_LoadNodeState :: "'f MemoryPersistence \<Rightarrow> NodeState option res" where
  "mem_LoadNodeState m =
     (if mem_closed m then closed_err
      else let st = nodeState m in
        if ns_OperatorAddress st = [] \<and> LastProcessedBoundary st = 0 then Inr None
        else Inr (Some \<lparr>LastProcessedBoundary = LastProcessedBoundary st, NodeStartTime = NodeStartTime st,
                        ns_OperatorAddress = ns_OperatorAddress st, TrackedSourceVersion = TrackedSourceVersion st,
                        ConsecutiveMPKAborts = ConsecutiveMPKAborts st,
                        LastKnownGoodSourceVersion = LastKnownGoodSourceVersion st\<rparr>))"

definition mem_SaveProtocolSession ::
  "'f MemoryPersistence \<Rightarrow> ProtocolSessionState option \<Rightarrow> 'f MemoryPersistence \<times> unit res" where
  "mem_SaveProtocolSession m session =
     (case session of
        None \<Rightarrow> (m, Inl (Errorf ''cannot save nil ProtocolSessionState''))
      | Some p \<Rightarrow> if mem_closed m then (m, closed_err)
          else (m\<lparr>sessions := gm_set (sessions m) (ps_SessionTimestamp p) (deepCopyProtocolSessionState p)\<rparr>, Inr ()))"

definition mem_LoadProtocolSession ::
  "'f MemoryPersistence \<Rightarrow> int64 \<Rightarrow> ProtocolSessionState option res" where
  "mem_LoadProtocolSession m sessionTimestamp =
     (if mem_closed m then closed_err
      else case gm_get (sessions m) sessionTimestamp of
             None \<Rightarrow> Inr None
           | Some p \<Rightarrow> Inr (Some (deepCopyProtocolSessionState p)))"

definition mem_DeleteProtocolSession ::
  "'f MemoryPersistence \<Rightarrow> int64 \<Rightarrow> 'f MemoryPersistence \<times> unit res" where
  "mem_DeleteProtocolSession m sessionTimestamp =
     (if mem_closed m then (m, closed_err) else (m\<lparr>sessions := gm_del (sessions m) sessionTimestamp\<rparr>, Inr ()))"

definition mem_ListProtocolSessions :: "'f MemoryPersistence \<Rightarrow> ProtocolSessionState list res" where
  "mem_ListProtocolSessions m =
     (if mem_closed m then closed_err else Inr (map (\<lambda>(_, p). deepCopyProtocolSessionState p) (sessions m)))"

definition mem_SaveBlockRecord ::
  "'f MemoryPersistence \<Rightarrow> BlockRecord option \<Rightarrow> 'f MemoryPersistence \<times> unit res" where
  "mem_SaveBlockRecord m record =
     (case record of
        None \<Rightarrow> (m, Inl (Errorf ''cannot save nil BlockRecord''))
      | Some b \<Rightarrow> if mem_closed m then (m, closed_err)
          else (m\<lparr>blockRecords := gm_set (blockRecords m) (br_ChainId b, br_Number b) (deepCopyBlockRecord b),
                  lastProcessedBlocks := gm_set (lastProcessedBlocks m) (br_ChainId b) (br_Number b)\<rparr>, Inr ()))"

definition mem_GetBlockRecord :: "'f MemoryPersistence \<Rightarrow> nat \<Rightarrow> nat \<Rightarrow> BlockRecord option res" where
  "mem_GetBlockRecord m chainId blockNumber =
     (if mem_closed m then closed_err
      else case gm_get (blockRecords m) (chainId, blockNumber) of
             None \<Rightarrow> Inr None
           | Some b \<Rightarrow> Inr (Some (deepCopyBlockRecord b)))"

definition mem_GetLastProcessedBlockRecord :: "'f MemoryPersistence \<Rightarrow> nat \<Rightarrow> BlockRecord option res" where
  "mem_GetLastProcessedBlockRecord m chainId =
     (if mem_closed m then closed_err
      else case gm_get (lastProcessedBlocks m) chainId of
             None \<Rightarrow> Inr None
           | Some n \<Rightarrow> (case gm_get (blockRecords m) (chainId, n) of
                None \<Rightarrow> Inr None
              | Some b \<Rightarrow> Inr (Some (deepCopyBlockRecord b))))"

definition mem_DeleteBlockRecord ::
  "'f MemoryPersistence \<Rightarrow> nat \<Rightarrow> nat \<Rightarrow> 'f MemoryPersistence \<times> unit res" where
  "mem_DeleteBlockRecord m chainId blockNumber =
     (if mem_closed m then (m, closed_err)
      else (m\<lparr>blockRecords := gm_del (blockRecords m) (chainId, blockNumber)\<rparr>, Inr ()))"

definition mem_Close :: "'f MemoryPersistence \<Rightarrow> 'f MemoryPersistence \<times> unit res" where
  "mem_Close m = (m\<lparr>mem_closed := True\<rparr>, Inr ())"

definition mem_HealthCheck :: "'f MemoryPersistence \<Rightarrow> unit res" where
  "mem_HealthCheck m = (if mem_closed m then closed_err else Inr ())"

definition memory_persistence :: "('f MemoryPersistence, 'f) INodePersistence" where
  "memory_persistence =
     \<lparr>pi_SaveKeyShareVersion = mem_SaveKeyShareVersion, pi_LoadKeyShareVersion = mem_LoadKeyShareVersion,
      pi_ListKeyShareVersions = mem_ListKeyShareVersions, pi_DeleteKeyShareVersion = mem_DeleteKeyShareVersion,
      pi_AddPoisonedVersion = mem_AddPoisonedVersion, pi_ListPoisonedVersions = mem_ListPoisonedVersions,
      pi_SetActiveVersionTimestamp = mem_SetActiveVersionTimestamp,
      pi_GetActiveVersionTimestamp = mem_GetActiveVersionTimestamp,
      pi_SaveNodeState = mem_SaveNodeState, pi_LoadNodeState = mem_LoadNodeState,
      pi_SaveProtocolSession = mem_SaveProtocolSession, pi_LoadProtocolSession = mem_LoadProtocolSession,
      pi_DeleteProtocolSession = mem_DeleteProtocolSession, pi_ListProtocolSessions = mem_ListProtocolSessions,
      pi_SaveBlockRecord = mem_SaveBlockRecord, pi_GetLastProcessedBlockRecord = mem_GetLastProcessedBlockRecord,
      pi_GetBlockRecord = mem_GetBlockRecord, pi_DeleteBlockRecord = mem_DeleteBlockRecord,
      pi_Close = mem_Close, pi_HealthCheck = mem_HealthCheck\<rparr>"

subsection \<open>The implementation meets the contract\<close>

lemma memory_persistence_simps:
  "pi_SaveKeyShareVersion memory_persistence = mem_SaveKeyShareVersion"
  "pi_LoadKeyShareVersion memory_persistence = mem_LoadKeyShareVersion"
  "pi_ListKeyShareVersions memory_persistence = mem_ListKeyShareVersions"
  "pi_DeleteKeyShareVersion memory_persistence = mem_DeleteKeyShareVersion"
  "pi_AddPoisonedVersion memory_persistence = mem_AddPoisonedVersion"
  "pi_ListPoisonedVersions memory_persistence = mem_ListPoisonedVersions"
  "pi_SetActiveVersionTimestamp memory_persistence = mem_SetActiveVersionTimestamp"
  "pi_GetActiveVersionTimestamp memory_persistence = mem_GetActiveVersionTimestamp"
  "pi_SaveNodeState memory_persistence = mem_SaveNodeState"
  "pi_LoadNodeState memory_persistence = mem_LoadNodeState"
  "pi_SaveProtocolSession memory_persistence = mem_SaveProtocolSession"
  "pi_LoadProtocolSession memory_persistence = mem_LoadProtocolSession"
  "pi_DeleteProtocolSession memory_persistence = mem_DeleteProtocolSession"
  "pi_ListProtocolSessions memory_persistence = mem_ListProtocolSessions"
  "pi_SaveBlockRecord memory_persistence = mem_SaveBlockRecord"
  "pi_GetLastProcessedBlockRecord memory_persistence = mem_GetLastProcessedBlockRecord"
  "pi_GetBlockRecord memory_persistence = mem_GetBlockRecord"
  "pi_DeleteBlockRecord memory_persistence = mem_DeleteBlockRecord"
  "pi_Close memory_persistence = mem_Close"
  "pi_HealthCheck memory_persistence = mem_HealthCheck"
  by (simp_all add: memory_persistence_def)

definition mem_valid :: "'f MemoryPersistence \<Rightarrow> bool" where
  "mem_valid m \<longleftrightarrow> gm_ok (keyShares m) \<and> gm_ok (sessions m) \<and> gm_ok (mem_poisoned m) \<and>
     (\<forall>(v, k) \<in> set (keyShares m). Version k = v) \<and> (\<forall>(t, p) \<in> set (sessions m). ps_SessionTimestamp p = t)"

definition mem_abs :: "'f MemoryPersistence \<Rightarrow> 'f pstore" where
  "mem_abs m =
     \<lparr>p_keys = gm_get (keyShares m), p_active = activeVersionTimestamp m,
      p_node = (if ns_OperatorAddress (nodeState m) = [] \<and> LastProcessedBoundary (nodeState m) = 0
                then None else Some (nodeState m)),
      p_sessions = gm_get (sessions m), p_blocks = gm_get (blockRecords m), p_last = gm_get (lastProcessedBlocks m),
      p_poisoned = set (gm_keys (mem_poisoned m)), p_closed = mem_closed m\<rparr>"

lemmas mem_defs = mem_SaveKeyShareVersion_def mem_LoadKeyShareVersion_def mem_ListKeyShareVersions_def
  mem_DeleteKeyShareVersion_def mem_AddPoisonedVersion_def mem_ListPoisonedVersions_def
  mem_SetActiveVersionTimestamp_def mem_GetActiveVersionTimestamp_def mem_SaveNodeState_def mem_LoadNodeState_def
  mem_SaveProtocolSession_def mem_LoadProtocolSession_def mem_DeleteProtocolSession_def mem_ListProtocolSessions_def
  mem_SaveBlockRecord_def mem_GetLastProcessedBlockRecord_def mem_GetBlockRecord_def mem_DeleteBlockRecord_def
  mem_Close_def mem_HealthCheck_def

lemma set_gm_set: "gm_ok m \<Longrightarrow> (x \<in> set (gm_set m k v) \<longleftrightarrow> x = (k, v) \<or> x \<in> set m \<and> fst x \<noteq> k)"
  by (cases x) (auto simp flip: gm_get_eq_Some)

lemma set_gm_del: "gm_ok m \<Longrightarrow> (x \<in> set (gm_del m k) \<longleftrightarrow> x \<in> set m \<and> fst x \<noteq> k)"
  by (cases x) (auto simp flip: gm_get_eq_Some)

lemma gm_values:
  assumes "gm_ok m" "\<forall>(t, p) \<in> set m. key p = t"
  shows "p \<in> snd ` set m \<longleftrightarrow> gm_get m (key p) = Some p"
  unfolding gm_get_eq_Some [OF assms(1)] using assms(2) by force

lemma mem_list_keys:
  assumes "mem_valid m" "\<not> mem_closed m"
  shows "\<exists>ks. mem_ListKeyShareVersions m = Inr ks \<and> sorted_wrt (<) (map Version ks) \<and>
     (\<forall>k. k \<in> set ks \<longleftrightarrow> gm_get (keyShares m) (Version k) = Some k)"
proof -
  let ?ks = "map (\<lambda>ts. the (gm_get (keyShares m) ts)) (sort (gm_keys (keyShares m)))"
  have ok: "gm_ok (keyShares m)" and ver: "\<And>v k. (v, k) \<in> set (keyShares m) \<Longrightarrow> Version k = v"
    using assms(1) by (auto simp: mem_valid_def)
  have get: "Version (the (gm_get (keyShares m) ts)) = ts" if mem: "ts \<in> set (gm_keys (keyShares m))" for ts
  proof -
    obtain k where "(ts, k) \<in> set (keyShares m)" using mem by auto
    then have "gm_get (keyShares m) ts = Some k" "Version k = ts"
      by (simp_all only: gm_get_eq_Some [OF ok] ver)
    then show ?thesis by simp
  qed
  have "map Version ?ks = sort (gm_keys (keyShares m))" 
    unfolding map_map by (rule map_idI) (use get in simp)
  then have "sorted_wrt (<) (map Version ?ks)" using ok by (simp add: strict_sorted_iff gm_ok_def)
  moreover have "k \<in> set ?ks \<longleftrightarrow> gm_get (keyShares m) (Version k) = Some k" for k
  proof
    assume "k \<in> set ?ks"
    then obtain ts where ts: "ts \<in> set (gm_keys (keyShares m))" "k = the (gm_get (keyShares m) ts)" by auto
    then have "Version k = ts" using get by simp
    with ts show "gm_get (keyShares m) (Version k) = Some k" by (metis gm_get_eq_None option.collapse)
  next
    assume k: "gm_get (keyShares m) (Version k) = Some k"
    then have "Version k \<in> set (gm_keys (keyShares m))" by (metis gm_get_eq_None option.distinct(1))
    with k show "k \<in> set ?ks" by (metis (mono_tags, lifting) image_eqI option.sel set_map set_sort)
  qed
  ultimately show ?thesis using assms(2) by (simp add: mem_defs del: set_map)
qed

interpretation mem: node_persistence memory_persistence mem_valid mem_abs
proof (unfold_locales, goal_cases)
  case (3 s)
  then show ?case using mem_list_keys [of s] by (simp add: memory_persistence_def mem_abs_def)
next
  case (14 s)
  then have "p \<in> snd ` set (sessions s) \<longleftrightarrow> gm_get (sessions s) (ps_SessionTimestamp p) = Some p" for p
    by (intro gm_values) (simp_all add: mem_valid_def)
  with 14 show ?case
    by (simp add: memory_persistence_def mem_abs_def mem_defs case_prod_unfold)
qed (auto simp: writes_def memory_persistence_def mem_defs mem_abs_def mem_valid_def set_gm_set set_gm_del
    failed_def Let_def gm_ok_def distinct_update distinct_delete dom_update split: option.splits)

lemma NewMemoryPersistence_fresh: "mem_valid NewMemoryPersistence" "mem_abs NewMemoryPersistence = empty_pstore"
  by (simp_all add: mem_valid_def mem_abs_def NewMemoryPersistence_def empty_pstore_def NodeState_zero_def)

end
