(* ===== verification/Codec.thy ===== *)
theory Codec
  imports Persistence Finite_Field
begin

text \<open>
  A concrete encoding of the stored records as bytes, with which the hypotheses that the durable
  stores make of their JSON library are shown satisfiable. An encoding is a prefix code: \<open>dec\<close>
  reads one value off the front of the input.
\<close>

definition codec :: "('a \<Rightarrow> bytes) \<Rightarrow> (bytes \<Rightarrow> ('a \<times> bytes) option) \<Rightarrow> bool" where
  "codec enc dec \<longleftrightarrow> (\<forall>x r. dec (enc x @ r) = Some (x, r))"

lemma codecD: "codec enc dec \<Longrightarrow> dec (enc x @ r) = Some (x, r)"
  by (simp add: codec_def)

definition enc_nat :: "nat \<Rightarrow> bytes" where
  "enc_nat n = replicate n 1 @ [0]"

fun dec_nat :: "bytes \<Rightarrow> (nat \<times> bytes) option" where
  "dec_nat [] = None"
| "dec_nat (b # bs) = (if b = 0 then Some (0, bs) else map_option (\<lambda>(n, r). (Suc n, r)) (dec_nat bs))"

lemma codec_nat: "codec enc_nat dec_nat"
proof -
  have "dec_nat (enc_nat n @ r) = Some (n, r)" for n r
    by (induction n) (simp_all add: enc_nat_def)
  then show ?thesis by (simp add: codec_def)
qed

text \<open>A type in bijection with an encodable one, pairs and lists.\<close>

definition enc_via :: "('a \<Rightarrow> 'b) \<Rightarrow> ('b \<Rightarrow> bytes) \<Rightarrow> 'a \<Rightarrow> bytes" where
  "enc_via f enc x = enc (f x)"

definition dec_via :: "('b \<Rightarrow> 'a) \<Rightarrow> (bytes \<Rightarrow> ('b \<times> bytes) option) \<Rightarrow> bytes \<Rightarrow> ('a \<times> bytes) option" where
  "dec_via g dec bs = map_option (\<lambda>(y, r). (g y, r)) (dec bs)"

lemma codec_via: "codec enc dec \<Longrightarrow> (\<And>x. g (f x) = x) \<Longrightarrow> codec (enc_via f enc) (dec_via g dec)"
  by (simp add: codec_def enc_via_def dec_via_def)

definition enc_pair :: "('a \<Rightarrow> bytes) \<Rightarrow> ('b \<Rightarrow> bytes) \<Rightarrow> 'a \<times> 'b \<Rightarrow> bytes" where
  "enc_pair ea eb p = ea (fst p) @ eb (snd p)"

definition dec_pair ::
  "(bytes \<Rightarrow> ('a \<times> bytes) option) \<Rightarrow> (bytes \<Rightarrow> ('b \<times> bytes) option) \<Rightarrow> bytes \<Rightarrow> (('a \<times> 'b) \<times> bytes) option" where
  "dec_pair da db bs = Option.bind (da bs) (\<lambda>(x, r). map_option (\<lambda>(y, r'). ((x, y), r')) (db r))"

lemma codec_pair: "codec ea da \<Longrightarrow> codec eb db \<Longrightarrow> codec (enc_pair ea eb) (dec_pair da db)"
  by (simp add: codec_def enc_pair_def dec_pair_def)

definition enc_list :: "('a \<Rightarrow> bytes) \<Rightarrow> 'a list \<Rightarrow> bytes" where
  "enc_list e xs = enc_nat (length xs) @ concat (map e xs)"

primrec dec_many :: "(bytes \<Rightarrow> ('a \<times> bytes) option) \<Rightarrow> nat \<Rightarrow> bytes \<Rightarrow> ('a list \<times> bytes) option" where
  "dec_many d 0 bs = Some ([], bs)"
| "dec_many d (Suc n) bs = Option.bind (d bs) (\<lambda>(x, r). map_option (\<lambda>(xs, r'). (x # xs, r')) (dec_many d n r))"

definition dec_list :: "(bytes \<Rightarrow> ('a \<times> bytes) option) \<Rightarrow> bytes \<Rightarrow> ('a list \<times> bytes) option" where
  "dec_list d bs = Option.bind (dec_nat bs) (\<lambda>(n, r). dec_many d n r)"

lemma codec_list:
  assumes "codec e d" shows "codec (enc_list e) (dec_list d)"
proof -
  have "dec_many d (length xs) (concat (map e xs) @ r) = Some (xs, r)" for xs r
    by (induction xs) (simp_all add: codecD [OF assms])
  then show ?thesis by (simp add: codec_def enc_list_def dec_list_def codecD [OF codec_nat])
qed

subsection \<open>The fields\<close>

definition int_nat :: "int \<Rightarrow> nat" where
  "int_nat i = (if i \<ge> 0 then 2 * nat i else 2 * nat (- i) + 1)"

definition nat_int :: "nat \<Rightarrow> int" where
  "nat_int n = (if even n then int (n div 2) else - int (n div 2))"

lemma nat_int_nat [simp]: "nat_int (int_nat i) = i"
  by (simp add: int_nat_def nat_int_def)

definition enc_int :: "int \<Rightarrow> bytes" where "enc_int = enc_via int_nat enc_nat"
definition dec_int :: "bytes \<Rightarrow> (int \<times> bytes) option" where "dec_int = dec_via nat_int dec_nat"

lemma codec_int: "codec enc_int dec_int"
  unfolding enc_int_def dec_int_def by (rule codec_via [OF codec_nat nat_int_nat])

definition enc_bytes :: "bytes \<Rightarrow> bytes" where "enc_bytes = enc_list (enc_via unat enc_nat)"
definition dec_bytes :: "bytes \<Rightarrow> (bytes \<times> bytes) option" where "dec_bytes = dec_list (dec_via of_nat dec_nat)"

lemma codec_bytes: "codec enc_bytes dec_bytes"
  unfolding enc_bytes_def dec_bytes_def by (intro codec_list codec_via [OF codec_nat]) simp

definition enc_string :: "string \<Rightarrow> bytes" where "enc_string = enc_list (enc_via of_char enc_nat)"
definition dec_string :: "bytes \<Rightarrow> (string \<times> bytes) option" where "dec_string = dec_list (dec_via char_of dec_nat)"

lemma codec_string: "codec enc_string dec_string"
  unfolding enc_string_def dec_string_def by (intro codec_list codec_via [OF codec_nat]) simp

definition enc_addr :: "address \<Rightarrow> bytes" where "enc_addr = enc_via unat enc_nat"
definition dec_addr :: "bytes \<Rightarrow> (address \<times> bytes) option" where "dec_addr = dec_via of_nat dec_nat"

lemma codec_addr: "codec enc_addr dec_addr"
  unfolding enc_addr_def dec_addr_def by (intro codec_via [OF codec_nat]) simp

definition enc_opt :: "('a \<Rightarrow> bytes) \<Rightarrow> 'a option \<Rightarrow> bytes" where
  "enc_opt e = enc_via (\<lambda>x. case x of None \<Rightarrow> [] | Some y \<Rightarrow> [y]) (enc_list e)"
definition dec_opt :: "(bytes \<Rightarrow> ('a \<times> bytes) option) \<Rightarrow> bytes \<Rightarrow> ('a option \<times> bytes) option" where
  "dec_opt d = dec_via (\<lambda>xs. case xs of [] \<Rightarrow> None | y # _ \<Rightarrow> Some y) (dec_list d)"

lemma codec_opt: "codec e d \<Longrightarrow> codec (enc_opt e) (dec_opt d)"
  unfolding enc_opt_def dec_opt_def by (intro codec_via [OF codec_list]) (simp_all split: option.splits)

definition enc_g2 :: "G2Point \<Rightarrow> bytes" where "enc_g2 = enc_via g2_CompressedBytes enc_bytes"
definition dec_g2 :: "bytes \<Rightarrow> (G2Point \<times> bytes) option" where "dec_g2 = dec_via G2Point dec_bytes"

lemma codec_g2: "codec enc_g2 dec_g2"
  unfolding enc_g2_def dec_g2_def by (intro codec_via [OF codec_bytes]) simp

subsection \<open>The records\<close>

definition ksv_tuple where
  "ksv_tuple (k :: gf KeyShareVersion) =
     (Version k, map_option gf_rep (PrivateShare k), Commitments k, MasterPublicKey k,
      (if IsActive k then 1 else 0 :: nat), ParticipantIDs k)"

definition tuple_ksv where
  "tuple_ksv t = (case t of (v, p, c, m, a, i) \<Rightarrow>
     \<lparr>Version = v, PrivateShare = map_option gf_of_int p, Commitments = c, MasterPublicKey = m,
      IsActive = (a = (1 :: nat)), ParticipantIDs = i\<rparr>)"

lemma tuple_ksv_tuple: "tuple_ksv (ksv_tuple k) = k"
  by (simp add: ksv_tuple_def tuple_ksv_def option.map_comp o_def option.map_ident)

definition ns_tuple where
  "ns_tuple (st :: NodeState) =
     (LastProcessedBoundary st, NodeStartTime st, ns_OperatorAddress st, TrackedSourceVersion st,
      ConsecutiveMPKAborts st, LastKnownGoodSourceVersion st)"

definition tuple_ns where
  "tuple_ns t = (case t of (a, b, c, d, e, f) \<Rightarrow>
     \<lparr>LastProcessedBoundary = a, NodeStartTime = b, ns_OperatorAddress = c, TrackedSourceVersion = d,
      ConsecutiveMPKAborts = e, LastKnownGoodSourceVersion = f\<rparr>)"

lemma tuple_ns_tuple: "tuple_ns (ns_tuple st) = st"
  by (simp add: ns_tuple_def tuple_ns_def)

definition br_tuple where
  "br_tuple (b :: BlockRecord) = (br_Number b, br_Hash b, br_ParentHash b, br_Timestamp b, br_ChainId b)"

definition tuple_br where
  "tuple_br t = (case t of (a, b, c, d, e) \<Rightarrow>
     \<lparr>br_Number = a, br_Hash = b, br_ParentHash = c, br_Timestamp = d, br_ChainId = e\<rparr>)"

lemma tuple_br_tuple: "tuple_br (br_tuple b) = b"
  by (simp add: br_tuple_def tuple_br_def)

definition ack_tuple where
  "ack_tuple (a :: Acknowledgement) =
     (ack_DealerAddress a, ack_PlayerAddress a, ack_SessionTimestamp a, ack_ShareHash a, ack_CommitmentHash a,
      ack_Signature a)"

definition tuple_ack where
  "tuple_ack t = (case t of (a, b, c, d, e, f) \<Rightarrow>
     \<lparr>ack_DealerAddress = a, ack_PlayerAddress = b, ack_SessionTimestamp = c, ack_ShareHash = d,
      ack_CommitmentHash = e, ack_Signature = f\<rparr>)"

lemma tuple_ack_tuple: "tuple_ack (ack_tuple a) = a"
  by (simp add: ack_tuple_def tuple_ack_def)

definition pss_tuple where
  "pss_tuple (p :: ProtocolSessionState) =
     (ps_SessionTimestamp p, ps_Type p, ps_Phase p, ps_StartTime p, ps_OperatorAddresses p, ps_Shares p,
      ps_Commitments p, ps_Acknowledgements p)"

definition tuple_pss where
  "tuple_pss t = (case t of (a, b, c, d, e, f, g, h) \<Rightarrow>
     \<lparr>ps_SessionTimestamp = a, ps_Type = b, ps_Phase = c, ps_StartTime = d, ps_OperatorAddresses = e,
      ps_Shares = f, ps_Commitments = g, ps_Acknowledgements = h\<rparr>)"

lemma tuple_pss_tuple: "tuple_pss (pss_tuple p) = p"
  by (simp add: pss_tuple_def tuple_pss_def)

definition enc_ksv :: "gf KeyShareVersion \<Rightarrow> bytes" where
  "enc_ksv = enc_via ksv_tuple (enc_pair enc_int (enc_pair (enc_opt enc_int) (enc_pair (enc_list enc_g2)
     (enc_pair (enc_opt enc_g2) (enc_pair enc_nat (enc_list enc_addr))))))"

definition dec_ksv :: "bytes \<Rightarrow> (gf KeyShareVersion \<times> bytes) option" where
  "dec_ksv = dec_via tuple_ksv (dec_pair dec_int (dec_pair (dec_opt dec_int) (dec_pair (dec_list dec_g2)
     (dec_pair (dec_opt dec_g2) (dec_pair dec_nat (dec_list dec_addr))))))"

definition enc_ns :: "NodeState \<Rightarrow> bytes" where
  "enc_ns = enc_via ns_tuple (enc_pair enc_int (enc_pair enc_int (enc_pair enc_string (enc_pair enc_int
     (enc_pair enc_int enc_int)))))"

definition dec_ns :: "bytes \<Rightarrow> (NodeState \<times> bytes) option" where
  "dec_ns = dec_via tuple_ns (dec_pair dec_int (dec_pair dec_int (dec_pair dec_string (dec_pair dec_int
     (dec_pair dec_int dec_int)))))"

definition enc_br :: "BlockRecord \<Rightarrow> bytes" where
  "enc_br = enc_via br_tuple (enc_pair enc_nat (enc_pair enc_string (enc_pair enc_string (enc_pair enc_nat enc_nat))))"

definition dec_br :: "bytes \<Rightarrow> (BlockRecord \<times> bytes) option" where
  "dec_br = dec_via tuple_br (dec_pair dec_nat (dec_pair dec_string (dec_pair dec_string (dec_pair dec_nat dec_nat))))"

definition enc_ack :: "Acknowledgement \<Rightarrow> bytes" where
  "enc_ack = enc_via ack_tuple (enc_pair enc_addr (enc_pair enc_addr (enc_pair enc_int (enc_pair enc_bytes
     (enc_pair enc_bytes enc_bytes)))))"

definition dec_ack :: "bytes \<Rightarrow> (Acknowledgement \<times> bytes) option" where
  "dec_ack = dec_via tuple_ack (dec_pair dec_addr (dec_pair dec_addr (dec_pair dec_int (dec_pair dec_bytes
     (dec_pair dec_bytes dec_bytes)))))"

definition enc_pss :: "ProtocolSessionState \<Rightarrow> bytes" where
  "enc_pss = enc_via pss_tuple (enc_pair enc_int (enc_pair enc_string (enc_pair enc_int (enc_pair enc_int
     (enc_pair (enc_list enc_string) (enc_pair (enc_list (enc_pair enc_string enc_string))
     (enc_pair (enc_list (enc_pair enc_string (enc_list enc_g2)))
        (enc_list (enc_pair enc_string (enc_list (enc_pair enc_string enc_ack)))))))))))"

definition dec_pss :: "bytes \<Rightarrow> (ProtocolSessionState \<times> bytes) option" where
  "dec_pss = dec_via tuple_pss (dec_pair dec_int (dec_pair dec_string (dec_pair dec_int (dec_pair dec_int
     (dec_pair (dec_list dec_string) (dec_pair (dec_list (dec_pair dec_string dec_string))
     (dec_pair (dec_list (dec_pair dec_string (dec_list dec_g2)))
        (dec_list (dec_pair dec_string (dec_list (dec_pair dec_string dec_ack)))))))))))"

lemmas codec_intros = codec_pair codec_list codec_opt codec_nat codec_int codec_string codec_bytes codec_addr codec_g2

lemma codec_ksv: "codec enc_ksv dec_ksv"
  unfolding enc_ksv_def dec_ksv_def by (intro codec_via codec_intros tuple_ksv_tuple)

lemma codec_ns: "codec enc_ns dec_ns"
  unfolding enc_ns_def dec_ns_def by (intro codec_via codec_intros tuple_ns_tuple)

lemma codec_br: "codec enc_br dec_br"
  unfolding enc_br_def dec_br_def by (intro codec_via codec_intros tuple_br_tuple)

lemma codec_ack: "codec enc_ack dec_ack"
  unfolding enc_ack_def dec_ack_def by (intro codec_via codec_intros tuple_ack_tuple)

lemma codec_pss: "codec enc_pss dec_pss"
  unfolding enc_pss_def dec_pss_def by (intro codec_via codec_intros codec_ack tuple_pss_tuple)

text \<open>Decoding of a whole value, which also accepts the empty input as the literal null.\<close>

definition unmarshal :: "(bytes \<Rightarrow> ('a \<times> bytes) option) \<Rightarrow> bytes \<Rightarrow> 'a option option" where
  "unmarshal dec bs =
     (if bs = [] then Some None else case dec bs of Some (x, []) \<Rightarrow> Some (Some x) | _ \<Rightarrow> None)"

lemma unmarshal_enc:
  assumes "codec enc dec" "dec [] = None" shows "unmarshal dec (enc x) = Some (Some x)"
proof -
  have "enc x \<noteq> []" using codecD [OF assms(1), of x "[]"] assms(2) by auto
  then show ?thesis using codecD [OF assms(1), of x "[]"] by (simp add: unmarshal_def)
qed

lemma dec_Nil:
  "dec_ksv [] = None" "dec_ns [] = None" "dec_br [] = None" "dec_pss [] = None"
  by (simp_all add: dec_ksv_def dec_ns_def dec_br_def dec_pss_def dec_via_def dec_pair_def dec_int_def)

lemmas unmarshal_simps = unmarshal_enc [OF codec_ksv dec_Nil(1)] unmarshal_enc [OF codec_ns dec_Nil(2)]
  unmarshal_enc [OF codec_br dec_Nil(3)] unmarshal_enc [OF codec_pss dec_Nil(4)]

end
