(* ===== verification/Badger_Persistence.thy ===== *)
theory Badger_Persistence
  imports Persistence Codec
begin

text \<open>
  \<open>pkg/persistence/badger/badger.go\<close>: the durable implementation of \<open>INodePersistence\<close> on a
  key-value store, and its interpretation as a \<open>node_persistence\<close>. Badger (get, atomic update of
  several keys, iteration over a prefix) is the record \<open>kvlib\<close> over a database \<open>'d\<close>, and the
  JSON encoding of the stored records is \<open>jsonlib\<close>; an I/O error is \<open>None\<close>. The proofs need
  that the decimal keys are injective and that the key prefixes separate the kinds of records.
\<close>

record 'd kvlib =
  kv_Get :: "'d \<Rightarrow> string \<Rightarrow> bytes option option"
  kv_Update :: "'d \<Rightarrow> (string \<times> bytes option) list \<Rightarrow> 'd option"
  kv_Iterate :: "'d \<Rightarrow> string \<Rightarrow> (string \<times> bytes) list option"
  kv_Close :: "'d \<Rightarrow> bool"

text \<open>\<open>Unmarshal\<close> into a pointer: \<open>None\<close> is an error, \<open>Some None\<close> the literal null.\<close>

record 'f jsonlib =
  json_ksv :: "'f KeyShareVersion \<Rightarrow> bytes option"
  unjson_ksv :: "bytes \<Rightarrow> 'f KeyShareVersion option option"
  json_ns :: "NodeState \<Rightarrow> bytes option"
  unjson_ns :: "bytes \<Rightarrow> NodeState option option"
  json_pss :: "ProtocolSessionState \<Rightarrow> bytes option"
  unjson_pss :: "bytes \<Rightarrow> ProtocolSessionState option option"
  json_br :: "BlockRecord \<Rightarrow> bytes option"
  unjson_br :: "bytes \<Rightarrow> BlockRecord option option"

record 'd BadgerPersistence =
  db :: 'd
  bp_closed :: bool

definition keyPrefixKeyShare :: string where "keyPrefixKeyShare = ''keyshare:''"
definition keyPrefixActiveVersion :: string where "keyPrefixActiveVersion = ''active:version''"
definition keyPrefixNodeState :: string where "keyPrefixNodeState = ''nodestate:main''"
definition keyPrefixSession :: string where "keyPrefixSession = ''session:''"
definition keyPrefixBlockRecord :: string where "keyPrefixBlockRecord = ''blockRecord:''"
definition keyPrefixLastBlock :: string where "keyPrefixLastBlock = ''lastBlock:''"
definition keyPrefixPoisoned :: string where "keyPrefixPoisoned = ''poisoned:''"
definition keySchemaVersion :: string where "keySchemaVersion = ''metadata:schema_version''"
definition currentSchemaVersion :: string where "currentSchemaVersion = ''v1''"

lemmas key_defs = keyPrefixKeyShare_def keyPrefixActiveVersion_def keyPrefixNodeState_def keyPrefixSession_def
  keyPrefixBlockRecord_def keyPrefixLastBlock_def keyPrefixPoisoned_def keySchemaVersion_def

definition block_key :: "nat \<Rightarrow> nat \<Rightarrow> string" where
  "block_key chainId number = keyPrefixBlockRecord @ show_nat chainId @ '':'' @ show_nat number"

abbreviation bp_closed_err :: "'a res" where
  "bp_closed_err \<equiv> Inl (Errorf ''persistence layer is closed'')"

text \<open>\<open>db.Update\<close>: the transaction's error is the method's error.\<close>

definition bp_update ::
  "'d kvlib \<Rightarrow> 'd BadgerPersistence \<Rightarrow> (string \<times> bytes option) list \<Rightarrow> 'd BadgerPersistence \<times> unit res" where
  "bp_update K b ops =
     (case kv_Update K (db b) ops of
        None \<Rightarrow> (b, Inl (Errorf ''badger update''))
      | Some d \<Rightarrow> (b\<lparr>db := d\<rparr>, Inr ()))"

definition schema_bytes :: bytes where
  "schema_bytes = map (\<lambda>c. of_nat (of_char c)) currentSchemaVersion"

definition initSchema :: "'d kvlib \<Rightarrow> 'd BadgerPersistence \<Rightarrow> 'd BadgerPersistence \<times> unit res" where
  "initSchema K b =
     (case kv_Get K (db b) keySchemaVersion of
        None \<Rightarrow> (b, Inl (Errorf ''failed to read schema version''))
      | Some None \<Rightarrow> bp_update K b [(keySchemaVersion, Some schema_bytes)]
      | Some (Some v) \<Rightarrow>
          if v \<noteq> schema_bytes
          then (b, Inl (Errorf ''unsupported schema version'')) else (b, Inr ()))"

text \<open>\<open>d\<close> is the database that \<open>badgerdb.Open\<close> gave.\<close>

definition NewBadgerPersistence :: "'d kvlib \<Rightarrow> 'd \<Rightarrow> 'd BadgerPersistence res" where
  "NewBadgerPersistence K d =
     (case initSchema K \<lparr>db = d, bp_closed = False\<rparr> of
        (_, Inl e) \<Rightarrow> Inl (Errorf ''failed to initialize schema'')
      | (b, Inr _) \<Rightarrow> Inr b)"

text \<open>A load: absent is nil without an error; a null literal is an error.\<close>

definition bp_load :: "'d kvlib \<Rightarrow> 'd BadgerPersistence \<Rightarrow> string \<Rightarrow> (bytes \<Rightarrow> 'a option option) \<Rightarrow> 'a option res" where
  "bp_load K b key unjson =
     bind_res (wrap_err ''failed to load'' (lib_res ''View'' (kv_Get K (db b) key))) (\<lambda>data.
     case data of
       None \<Rightarrow> Inr None
     | Some bs \<Rightarrow>
         bind_res (wrap_err ''failed to unmarshal'' (lib_res ''Unmarshal'' (unjson bs))) (\<lambda>v.
         case v of None \<Rightarrow> Inl (Errorf ''stored value is a JSON null'') | Some x \<Rightarrow> Inr (Some x)))"

text \<open>A listing: values that do not decode, or are null, are skipped with a warning.\<close>

definition bp_list :: "'d kvlib \<Rightarrow> 'd BadgerPersistence \<Rightarrow> string \<Rightarrow> (bytes \<Rightarrow> 'a option option) \<Rightarrow> 'a list res" where
  "bp_list K b pre unjson =
     bind_res (wrap_err ''failed to list'' (lib_res ''View'' (kv_Iterate K (db b) pre))) (\<lambda>items.
     Inr (List.map_filter (\<lambda>(_, bs). case unjson bs of Some (Some x) \<Rightarrow> Some x | _ \<Rightarrow> None) items))"

definition bp_save ::
  "'d kvlib \<Rightarrow> 'd BadgerPersistence \<Rightarrow> string \<Rightarrow> bytes option \<Rightarrow> 'd BadgerPersistence \<times> unit res" where
  "bp_save K b key json =
     (case json of
        None \<Rightarrow> (b, Inl (Errorf ''failed to marshal''))
      | Some data \<Rightarrow> bp_update K b [(key, Some data)])"

subsection \<open>The methods\<close>

definition bp_SaveKeyShareVersion ::
  "'d kvlib \<Rightarrow> 'f jsonlib \<Rightarrow> 'd BadgerPersistence \<Rightarrow> 'f KeyShareVersion option \<Rightarrow> 'd BadgerPersistence \<times> unit res" where
  "bp_SaveKeyShareVersion K J b version =
     (case version of
        None \<Rightarrow> (b, Inl (Errorf ''cannot save nil KeyShareVersion''))
      | Some v \<Rightarrow> if bp_closed b then (b, bp_closed_err)
          else bp_save K b (keyPrefixKeyShare @ show_int (Version v)) (json_ksv J v))"

definition bp_LoadKeyShareVersion ::
  "'d kvlib \<Rightarrow> 'f jsonlib \<Rightarrow> 'd BadgerPersistence \<Rightarrow> int64 \<Rightarrow> 'f KeyShareVersion option res" where
  "bp_LoadKeyShareVersion K J b timestamp =
     (if bp_closed b then bp_closed_err
      else bp_load K b (keyPrefixKeyShare @ show_int timestamp) (unjson_ksv J))"

definition bp_ListKeyShareVersions ::
  "'d kvlib \<Rightarrow> 'f jsonlib \<Rightarrow> 'd BadgerPersistence \<Rightarrow> 'f KeyShareVersion list res" where
  "bp_ListKeyShareVersions K J b =
     (if bp_closed b then bp_closed_err
      else bind_res (bp_list K b keyPrefixKeyShare (unjson_ksv J)) (\<lambda>versions. Inr (sort_key Version versions)))"

definition bp_DeleteKeyShareVersion ::
  "'d kvlib \<Rightarrow> 'd BadgerPersistence \<Rightarrow> int64 \<Rightarrow> 'd BadgerPersistence \<times> unit res" where
  "bp_DeleteKeyShareVersion K b timestamp =
     (if bp_closed b then (b, bp_closed_err)
      else bp_update K b [(keyPrefixKeyShare @ show_int timestamp, None)])"

definition bp_AddPoisonedVersion ::
  "'d kvlib \<Rightarrow> 'd BadgerPersistence \<Rightarrow> int64 \<Rightarrow> 'd BadgerPersistence \<times> unit res" where
  "bp_AddPoisonedVersion K b version =
     (if bp_closed b then (b, bp_closed_err)
      else bp_update K b [(keyPrefixPoisoned @ show_int version, Some [1])])"

definition bp_ListPoisonedVersions :: "'d kvlib \<Rightarrow> 'd BadgerPersistence \<Rightarrow> int64 list res" where
  "bp_ListPoisonedVersions K b =
     (if bp_closed b then bp_closed_err
      else bind_res (wrap_err ''failed to list poisoned versions'' (lib_res ''View''
             (kv_Iterate K (db b) keyPrefixPoisoned))) (\<lambda>items.
           Inr (List.map_filter (\<lambda>(key, _). parse_int64 (drop (length keyPrefixPoisoned) key)) items)))"

definition bp_SetActiveVersionTimestamp ::
  "'d kvlib \<Rightarrow> 'd BadgerPersistence \<Rightarrow> int64 \<Rightarrow> 'd BadgerPersistence \<times> unit res" where
  "bp_SetActiveVersionTimestamp K b timestamp =
     (if bp_closed b then (b, bp_closed_err)
      else bp_update K b [(keyPrefixActiveVersion, Some (put_uint64 timestamp))])"

definition bp_GetActiveVersionTimestamp :: "'d kvlib \<Rightarrow> 'd BadgerPersistence \<Rightarrow> int64 res" where
  "bp_GetActiveVersionTimestamp K b =
     (if bp_closed b then bp_closed_err
      else wrap_err ''failed to get active version timestamp''
        (bind_res (lib_res ''View'' (kv_Get K (db b) keyPrefixActiveVersion)) (\<lambda>item.
         case item of
           None \<Rightarrow> Inr 0
         | Some val \<Rightarrow> if length val \<noteq> 8 then Inl (Errorf ''invalid active version data length'')
                       else Inr (to_int64 (int (be_value val))))))"

definition bp_SaveNodeState ::
  "'d kvlib \<Rightarrow> 'f jsonlib \<Rightarrow> 'd BadgerPersistence \<Rightarrow> NodeState option \<Rightarrow> 'd BadgerPersistence \<times> unit res" where
  "bp_SaveNodeState K J b state =
     (case state of
        None \<Rightarrow> (b, Inl (Errorf ''cannot save nil NodeState''))
      | Some st \<Rightarrow> if bp_closed b then (b, bp_closed_err) else bp_save K b keyPrefixNodeState (json_ns J st))"

definition bp_LoadNodeState ::
  "'d kvlib \<Rightarrow> 'f jsonlib \<Rightarrow> 'd BadgerPersistence \<Rightarrow> NodeState option res" where
  "bp_LoadNodeState K J b =
     (if bp_closed b then bp_closed_err else bp_load K b keyPrefixNodeState (unjson_ns J))"

definition bp_SaveProtocolSession ::
  "'d kvlib \<Rightarrow> 'f jsonlib \<Rightarrow> 'd BadgerPersistence \<Rightarrow> ProtocolSessionState option \<Rightarrow> 'd BadgerPersistence \<times> unit res" where
  "bp_SaveProtocolSession K J b session =
     (case session of
        None \<Rightarrow> (b, Inl (Errorf ''cannot save nil ProtocolSessionState''))
      | Some p \<Rightarrow> if bp_closed b then (b, bp_closed_err)
          else bp_save K b (keyPrefixSession @ show_int (ps_SessionTimestamp p)) (json_pss J p))"

definition bp_LoadProtocolSession ::
  "'d kvlib \<Rightarrow> 'f jsonlib \<Rightarrow> 'd BadgerPersistence \<Rightarrow> int64 \<Rightarrow> ProtocolSessionState option res" where
  "bp_LoadProtocolSession K J b sessionTimestamp =
     (if bp_closed b then bp_closed_err
      else bp_load K b (keyPrefixSession @ show_int sessionTimestamp) (unjson_pss J))"

definition bp_DeleteProtocolSession ::
  "'d kvlib \<Rightarrow> 'd BadgerPersistence \<Rightarrow> int64 \<Rightarrow> 'd BadgerPersistence \<times> unit res" where
  "bp_DeleteProtocolSession K b sessionTimestamp =
     (if bp_closed b then (b, bp_closed_err)
      else bp_update K b [(keyPrefixSession @ show_int sessionTimestamp, None)])"

definition bp_ListProtocolSessions ::
  "'d kvlib \<Rightarrow> 'f jsonlib \<Rightarrow> 'd BadgerPersistence \<Rightarrow> ProtocolSessionState list res" where
  "bp_ListProtocolSessions K J b =
     (if bp_closed b then bp_closed_err else bp_list K b keyPrefixSession (unjson_pss J))"

definition bp_SaveBlockRecord ::
  "'d kvlib \<Rightarrow> 'f jsonlib \<Rightarrow> 'd BadgerPersistence \<Rightarrow> BlockRecord option \<Rightarrow> 'd BadgerPersistence \<times> unit res" where
  "bp_SaveBlockRecord K J b record =
     (case record of
        None \<Rightarrow> (b, Inl (Errorf ''cannot save nil BlockRecord''))
      | Some r \<Rightarrow> if bp_closed b then (b, bp_closed_err)
          else (case json_br J r of
                  None \<Rightarrow> (b, Inl (Errorf ''failed to marshal BlockRecord''))
                | Some data \<Rightarrow>
                    bp_update K b [(block_key (br_ChainId r) (br_Number r), Some data),
                                   (keyPrefixLastBlock @ show_nat (br_ChainId r), Some (be_bytes 8 (br_Number r)))]))"

definition bp_getBlockRecordLocked ::
  "'d kvlib \<Rightarrow> 'f jsonlib \<Rightarrow> 'd BadgerPersistence \<Rightarrow> nat \<Rightarrow> nat \<Rightarrow> BlockRecord option res" where
  "bp_getBlockRecordLocked K J b chainId blockNumber = bp_load K b (block_key chainId blockNumber) (unjson_br J)"

definition bp_GetBlockRecord ::
  "'d kvlib \<Rightarrow> 'f jsonlib \<Rightarrow> 'd BadgerPersistence \<Rightarrow> nat \<Rightarrow> nat \<Rightarrow> BlockRecord option res" where
  "bp_GetBlockRecord K J b chainId blockNumber =
     (if bp_closed b then bp_closed_err else bp_getBlockRecordLocked K J b chainId blockNumber)"

definition bp_GetLastProcessedBlockRecord ::
  "'d kvlib \<Rightarrow> 'f jsonlib \<Rightarrow> 'd BadgerPersistence \<Rightarrow> nat \<Rightarrow> BlockRecord option res" where
  "bp_GetLastProcessedBlockRecord K J b chainId =
     (if bp_closed b then bp_closed_err
      else bind_res (wrap_err ''failed to get last processed block''
             (bind_res (lib_res ''View'' (kv_Get K (db b) (keyPrefixLastBlock @ show_nat chainId))) (\<lambda>item.
              case item of
                None \<Rightarrow> Inr None
              | Some val \<Rightarrow> if length val \<noteq> 8 then Inl (Errorf ''invalid last block data length'')
                            else Inr (Some (be_value val))))) (\<lambda>found.
           case found of
             None \<Rightarrow> Inr None
           | Some blockNumber \<Rightarrow> bp_getBlockRecordLocked K J b chainId blockNumber))"

definition bp_DeleteBlockRecord ::
  "'d kvlib \<Rightarrow> 'd BadgerPersistence \<Rightarrow> nat \<Rightarrow> nat \<Rightarrow> 'd BadgerPersistence \<times> unit res" where
  "bp_DeleteBlockRecord K b chainId blockNumber =
     (if bp_closed b then (b, bp_closed_err) else bp_update K b [(block_key chainId blockNumber, None)])"

definition bp_Close :: "'d kvlib \<Rightarrow> 'd BadgerPersistence \<Rightarrow> 'd BadgerPersistence \<times> unit res" where
  "bp_Close K b =
     (if bp_closed b then (b, Inr ())
      else (b\<lparr>bp_closed := True\<rparr>,
            if kv_Close K (db b) then Inr () else Inl (Errorf ''failed to close badger database'')))"

definition bp_HealthCheck :: "'d kvlib \<Rightarrow> 'd BadgerPersistence \<Rightarrow> unit res" where
  "bp_HealthCheck K b =
     (if bp_closed b then bp_closed_err
      else case kv_Get K (db b) keySchemaVersion of
             None \<Rightarrow> Inl (Errorf ''View'')
           | Some None \<Rightarrow> Inl (Errorf ''schema version not found - database may be corrupted'')
           | Some (Some _) \<Rightarrow> Inr ())"

definition badger_persistence ::
  "'d kvlib \<Rightarrow> 'f jsonlib \<Rightarrow> ('d BadgerPersistence, 'f) INodePersistence" where
  "badger_persistence K J =
     \<lparr>pi_SaveKeyShareVersion = bp_SaveKeyShareVersion K J, pi_LoadKeyShareVersion = bp_LoadKeyShareVersion K J,
      pi_ListKeyShareVersions = bp_ListKeyShareVersions K J, pi_DeleteKeyShareVersion = bp_DeleteKeyShareVersion K,
      pi_AddPoisonedVersion = bp_AddPoisonedVersion K, pi_ListPoisonedVersions = bp_ListPoisonedVersions K,
      pi_SetActiveVersionTimestamp = bp_SetActiveVersionTimestamp K,
      pi_GetActiveVersionTimestamp = bp_GetActiveVersionTimestamp K,
      pi_SaveNodeState = bp_SaveNodeState K J, pi_LoadNodeState = bp_LoadNodeState K J,
      pi_SaveProtocolSession = bp_SaveProtocolSession K J, pi_LoadProtocolSession = bp_LoadProtocolSession K J,
      pi_DeleteProtocolSession = bp_DeleteProtocolSession K, pi_ListProtocolSessions = bp_ListProtocolSessions K J,
      pi_SaveBlockRecord = bp_SaveBlockRecord K J,
      pi_GetLastProcessedBlockRecord = bp_GetLastProcessedBlockRecord K J,
      pi_GetBlockRecord = bp_GetBlockRecord K J, pi_DeleteBlockRecord = bp_DeleteBlockRecord K,
      pi_Close = bp_Close K, pi_HealthCheck = bp_HealthCheck K\<rparr>"

subsection \<open>The laws of the libraries\<close>

text \<open>
  \<open>view d\<close> is the mapping a database holds. Without I/O errors, \<open>Get\<close> reads it, \<open>Update\<close>
  applies its sets and deletes in order, and iteration over a prefix gives each of its entries with
  that prefix once.
\<close>

definition kv_laws :: "'d kvlib \<Rightarrow> ('d \<Rightarrow> string \<Rightarrow> bytes option) \<Rightarrow> bool" where
  "kv_laws K view \<longleftrightarrow>
     (\<forall>d k. kv_Get K d k = Some (view d k)) \<and>
     (\<forall>d ops. \<exists>d'. kv_Update K d ops = Some d' \<and> view d' = fold (\<lambda>(k, v) m. m(k := v)) ops (view d)) \<and>
     (\<forall>d pre. \<exists>xs. kv_Iterate K d pre = Some xs \<and> distinct (map fst xs) \<and>
        (\<forall>k b. (k, b) \<in> set xs \<longleftrightarrow> view d k = Some b \<and> (\<exists>x. k = pre @ x))) \<and>
     (\<forall>d. kv_Close K d)"

definition json_laws :: "'f jsonlib \<Rightarrow> bool" where
  "json_laws J \<longleftrightarrow>
     (\<forall>k. \<exists>b. json_ksv J k = Some b \<and> unjson_ksv J b = Some (Some k)) \<and>
     (\<forall>k. \<exists>b. json_ns J k = Some b \<and> unjson_ns J b = Some (Some k)) \<and>
     (\<forall>k. \<exists>b. json_pss J k = Some b \<and> unjson_pss J b = Some (Some k)) \<and>
     (\<forall>k. \<exists>b. json_br J k = Some b \<and> unjson_br J b = Some (Some k))"

definition decode :: "(bytes \<Rightarrow> 'a option option) \<Rightarrow> bytes option \<Rightarrow> 'a option" where
  "decode unjson v = (case v of None \<Rightarrow> None | Some bs \<Rightarrow> (case unjson bs of Some x \<Rightarrow> x | None \<Rightarrow> None))"

definition view_ok :: "'f jsonlib \<Rightarrow> (string \<Rightarrow> bytes option) \<Rightarrow> bool" where
  "view_ok J m \<longleftrightarrow>
     (\<forall>x b. m (keyPrefixKeyShare @ x) = Some b \<longrightarrow>
        (\<exists>k. int64_range (Version k) \<and> x = show_int (Version k) \<and> unjson_ksv J b = Some (Some k))) \<and>
     (\<forall>x b. m (keyPrefixSession @ x) = Some b \<longrightarrow>
        (\<exists>p. int64_range (ps_SessionTimestamp p) \<and> x = show_int (ps_SessionTimestamp p) \<and> unjson_pss J b = Some (Some p))) \<and>
     (\<forall>x b. m (keyPrefixPoisoned @ x) = Some b \<longrightarrow> (\<exists>v. int64_range v \<and> x = show_int v)) \<and>
     (\<forall>x b. m (keyPrefixBlockRecord @ x) = Some b \<longrightarrow> (\<exists>r. unjson_br J b = Some (Some r))) \<and>
     (\<forall>x b. m (keyPrefixLastBlock @ x) = Some b \<longrightarrow> length b = 8) \<and>
     (\<forall>b. m keyPrefixActiveVersion = Some b \<longrightarrow> length b = 8) \<and>
     (\<forall>b. m keyPrefixNodeState = Some b \<longrightarrow> (\<exists>st. unjson_ns J b = Some (Some st))) \<and>
     m keySchemaVersion = Some schema_bytes"

definition bp_valid ::
  "'d kvlib \<Rightarrow> 'f jsonlib \<Rightarrow> ('d \<Rightarrow> string \<Rightarrow> bytes option) \<Rightarrow> 'd BadgerPersistence \<Rightarrow> bool" where
  "bp_valid K J view b \<longleftrightarrow> kv_laws K view \<and> json_laws J \<and> view_ok J (view (db b))"

definition view_abs :: "'f jsonlib \<Rightarrow> (string \<Rightarrow> bytes option) \<Rightarrow> bool \<Rightarrow> 'f pstore" where
  "view_abs J m isClosed =
     \<lparr>p_keys = (\<lambda>v. if int64_range v then decode (unjson_ksv J) (m (keyPrefixKeyShare @ show_int v)) else None),
      p_active = (case m keyPrefixActiveVersion of None \<Rightarrow> 0 | Some val \<Rightarrow> to_int64 (int (be_value val))),
      p_node = decode (unjson_ns J) (m keyPrefixNodeState),
      p_sessions = (\<lambda>v. if int64_range v then decode (unjson_pss J) (m (keyPrefixSession @ show_int v)) else None),
      p_blocks = (\<lambda>(c, n). decode (unjson_br J) (m (block_key c n))),
      p_last = (\<lambda>c. map_option be_value (m (keyPrefixLastBlock @ show_nat c))),
      p_poisoned = {v. int64_range v \<and> m (keyPrefixPoisoned @ show_int v) \<noteq> None},
      p_closed = isClosed\<rparr>"

definition bp_abs ::
  "'f jsonlib \<Rightarrow> ('d \<Rightarrow> string \<Rightarrow> bytes option) \<Rightarrow> 'd BadgerPersistence \<Rightarrow> 'f pstore" where
  "bp_abs J view b = view_abs J (view (db b)) (bp_closed b)"

subsection \<open>Keys\<close>

text \<open>The two numbers of a block key are separated by a colon, which is not a digit.\<close>

lemma block_key_inj [simp]: "block_key c n = block_key c' n' \<longleftrightarrow> c = c' \<and> n = n'"
proof
  assume "block_key c n = block_key c' n'"
  then have e: "show_nat c @ CHR '':'' # show_nat n = show_nat c' @ CHR '':'' # show_nat n'"
    by (simp add: block_key_def)
  have nd: "CHR '':'' \<notin> set (show_nat k)" for k
    using show_nat_digits [of k] by (auto simp: list_all_iff is_digit_def)
  then have "takeWhile (\<lambda>x. x \<noteq> CHR '':'') (show_nat k @ CHR '':'' # t) = show_nat k" for k t
    by (subst takeWhile_append2) auto
  then have "show_nat c = show_nat c'" using arg_cong [OF e, of "takeWhile (\<lambda>x. x \<noteq> CHR '':'')"] by simp
  with e show "c = c' \<and> n = n'" by simp
qed simp

lemma keys_distinct [simp]:
  "keyPrefixKeyShare @ x \<noteq> keyPrefixSession @ y" "keyPrefixKeyShare @ x \<noteq> keyPrefixPoisoned @ y"
  "keyPrefixKeyShare @ x \<noteq> keyPrefixLastBlock @ y" "keyPrefixKeyShare @ x \<noteq> block_key c n"
  "keyPrefixKeyShare @ x \<noteq> keyPrefixActiveVersion" "keyPrefixKeyShare @ x \<noteq> keyPrefixNodeState"
  "keyPrefixSession @ x \<noteq> keyPrefixKeyShare @ y" "keyPrefixSession @ x \<noteq> keyPrefixPoisoned @ y"
  "keyPrefixSession @ x \<noteq> keyPrefixLastBlock @ y" "keyPrefixSession @ x \<noteq> block_key c n"
  "keyPrefixSession @ x \<noteq> keyPrefixActiveVersion" "keyPrefixSession @ x \<noteq> keyPrefixNodeState"
  "keyPrefixPoisoned @ x \<noteq> keyPrefixKeyShare @ y" "keyPrefixPoisoned @ x \<noteq> keyPrefixSession @ y"
  "keyPrefixPoisoned @ x \<noteq> keyPrefixLastBlock @ y" "keyPrefixPoisoned @ x \<noteq> block_key c n"
  "keyPrefixPoisoned @ x \<noteq> keyPrefixActiveVersion" "keyPrefixPoisoned @ x \<noteq> keyPrefixNodeState"
  "keyPrefixLastBlock @ x \<noteq> keyPrefixKeyShare @ y" "keyPrefixLastBlock @ x \<noteq> keyPrefixSession @ y"
  "keyPrefixLastBlock @ x \<noteq> keyPrefixPoisoned @ y" "keyPrefixLastBlock @ x \<noteq> block_key c n"
  "keyPrefixLastBlock @ x \<noteq> keyPrefixActiveVersion" "keyPrefixLastBlock @ x \<noteq> keyPrefixNodeState"
  "block_key c n \<noteq> keyPrefixKeyShare @ y" "block_key c n \<noteq> keyPrefixSession @ y"
  "block_key c n \<noteq> keyPrefixPoisoned @ y" "block_key c n \<noteq> keyPrefixLastBlock @ y"
  "block_key c n \<noteq> keyPrefixActiveVersion" "block_key c n \<noteq> keyPrefixNodeState"
  "keyPrefixBlockRecord @ x \<noteq> keyPrefixKeyShare @ y" "keyPrefixBlockRecord @ x \<noteq> keyPrefixSession @ y"
  "keyPrefixBlockRecord @ x \<noteq> keyPrefixPoisoned @ y" "keyPrefixBlockRecord @ x \<noteq> keyPrefixLastBlock @ y"
  "keyPrefixBlockRecord @ x \<noteq> keyPrefixActiveVersion" "keyPrefixBlockRecord @ x \<noteq> keyPrefixNodeState"
  "keyPrefixActiveVersion \<noteq> keyPrefixKeyShare @ y" "keyPrefixActiveVersion \<noteq> keyPrefixSession @ y"
  "keyPrefixActiveVersion \<noteq> keyPrefixPoisoned @ y" "keyPrefixActiveVersion \<noteq> keyPrefixLastBlock @ y"
  "keyPrefixActiveVersion \<noteq> block_key c n" "keyPrefixActiveVersion \<noteq> keyPrefixNodeState"
  "keyPrefixNodeState \<noteq> keyPrefixKeyShare @ y" "keyPrefixNodeState \<noteq> keyPrefixSession @ y"
  "keyPrefixNodeState \<noteq> keyPrefixPoisoned @ y" "keyPrefixNodeState \<noteq> keyPrefixLastBlock @ y"
  "keyPrefixNodeState \<noteq> block_key c n" "keyPrefixNodeState \<noteq> keyPrefixActiveVersion"
  "keySchemaVersion \<noteq> keyPrefixKeyShare @ y" "keySchemaVersion \<noteq> keyPrefixSession @ y"
  "keySchemaVersion \<noteq> keyPrefixPoisoned @ y" "keySchemaVersion \<noteq> keyPrefixLastBlock @ y"
  "keySchemaVersion \<noteq> block_key c n" "keySchemaVersion \<noteq> keyPrefixActiveVersion"
  "keySchemaVersion \<noteq> keyPrefixNodeState" "keySchemaVersion \<noteq> keyPrefixBlockRecord @ y"
  by (simp_all add: key_defs block_key_def)


subsection \<open>One update\<close>

lemma kv_lawsD:
  assumes "kv_laws K view"
  shows "kv_Get K d k = Some (view d k)"
    "\<exists>d'. kv_Update K d ops = Some d' \<and> view d' = fold (\<lambda>(k, v) m. m(k := v)) ops (view d)"
    "\<exists>xs. kv_Iterate K d pre = Some xs \<and> distinct (map fst xs) \<and>
        (\<forall>k b. (k, b) \<in> set xs \<longleftrightarrow> view d k = Some b \<and> (\<exists>x. k = pre @ x))"
    "kv_Close K d"
  using assms unfolding kv_laws_def by blast+

lemma json_lawsD:
  assumes "json_laws J"
  obtains bk bn bp bb where
    "json_ksv J k = Some bk" "unjson_ksv J bk = Some (Some k)"
    "json_ns J n = Some bn" "unjson_ns J bn = Some (Some n)"
    "json_pss J p = Some bp" "unjson_pss J bp = Some (Some p)"
    "json_br J r = Some bb" "unjson_br J bb = Some (Some r)"
  using assms unfolding json_laws_def by metis

lemma bp_validD:
  assumes "bp_valid K J view b"
  shows "kv_laws K view" "json_laws J" "view_ok J (view (db b))"
  using assms by (simp_all add: bp_valid_def)

lemma bp_writes:
  assumes "bp_valid K J view b"
    "view_ok J (fold (\<lambda>(k, v) m. m(k := v)) ops (view (db b)))"
    "view_abs J (fold (\<lambda>(k, v) m. m(k := v)) ops (view (db b))) (bp_closed b) = upd (bp_abs J view b)"
  shows "writes (bp_valid K J view) (bp_abs J view) b upd (bp_update K b ops)"
proof -
  obtain d' where "kv_Update K (db b) ops = Some d'" "view d' = fold (\<lambda>(k, v) m. m(k := v)) ops (view (db b))"
    using kv_lawsD(2) [OF bp_validD(1) [OF assms(1)]] by blast
  with assms show ?thesis
    by (simp add: writes_def bp_update_def bp_valid_def bp_abs_def)
qed

lemma bp_load_decode:
  assumes "bp_valid K J view b" "\<And>bs. view (db b) key = Some bs \<Longrightarrow> \<exists>x. unjson bs = Some (Some x)"
  shows "bp_load K b key unjson = Inr (decode unjson (view (db b) key))"
proof (cases "view (db b) key")
  case None
  with kv_lawsD(1) [OF bp_validD(1) [OF assms(1)]] show ?thesis by (simp add: bp_load_def decode_def)
next
  case (Some bs)
  with assms(2) obtain x where "unjson bs = Some (Some x)" by blast
  with Some kv_lawsD(1) [OF bp_validD(1) [OF assms(1)]] show ?thesis by (simp add: bp_load_def decode_def)
qed

lemma view_okD:
  assumes "view_ok J m"
  shows "\<And>x b. m (keyPrefixKeyShare @ x) = Some b \<Longrightarrow>
        \<exists>k. int64_range (Version k) \<and> x = show_int (Version k) \<and> unjson_ksv J b = Some (Some k)"
    "\<And>x b. m (keyPrefixSession @ x) = Some b \<Longrightarrow>
        \<exists>p. int64_range (ps_SessionTimestamp p) \<and> x = show_int (ps_SessionTimestamp p) \<and> unjson_pss J b = Some (Some p)"
    "\<And>x b. m (keyPrefixPoisoned @ x) = Some b \<Longrightarrow> \<exists>v. int64_range v \<and> x = show_int v"
    "\<And>b. m (block_key c n) = Some b \<Longrightarrow> \<exists>r. unjson_br J b = Some (Some r)"
    "\<And>x b. m (keyPrefixLastBlock @ x) = Some b \<Longrightarrow> length b = 8"
    "\<And>b. m keyPrefixActiveVersion = Some b \<Longrightarrow> length b = 8"
    "\<And>b. m keyPrefixNodeState = Some b \<Longrightarrow> \<exists>st. unjson_ns J b = Some (Some st)"
    "m keySchemaVersion = Some schema_bytes"
  using assms unfolding view_ok_def block_key_def by simp_all

text \<open>A write of one record keeps the view well-formed and has the effect of the abstract store.\<close>

lemma view_put_key:
  assumes "view_ok J m" "int64_range (Version k)" "unjson_ksv J bs = Some (Some k)"
  defines "m' \<equiv> m(keyPrefixKeyShare @ show_int (Version k) \<mapsto> bs)"
  shows "view_ok J m'" "view_abs J m' c = (view_abs J m c)\<lparr>p_keys := (p_keys (view_abs J m c))(Version k \<mapsto> k)\<rparr>"
  using assms(1-3) by (auto simp: m'_def view_ok_def view_abs_def decode_def fun_eq_iff)

lemma view_del_key:
  assumes "view_ok J m" "int64_range v"
  defines "m' \<equiv> m(keyPrefixKeyShare @ show_int v := None)"
  shows "view_ok J m'" "view_abs J m' c = (view_abs J m c)\<lparr>p_keys := (p_keys (view_abs J m c))(v := None)\<rparr>"
  using assms(1,2) by (auto simp: m'_def view_ok_def view_abs_def decode_def fun_eq_iff)

lemma view_put_session:
  assumes "view_ok J m" "int64_range (ps_SessionTimestamp p)" "unjson_pss J bs = Some (Some p)"
  defines "m' \<equiv> m(keyPrefixSession @ show_int (ps_SessionTimestamp p) \<mapsto> bs)"
  shows "view_ok J m'"
    "view_abs J m' c = (view_abs J m c)\<lparr>p_sessions := (p_sessions (view_abs J m c))(ps_SessionTimestamp p \<mapsto> p)\<rparr>"
  using assms(1-3) by (auto simp: m'_def view_ok_def view_abs_def decode_def fun_eq_iff)

lemma view_del_session:
  assumes "view_ok J m" "int64_range v"
  defines "m' \<equiv> m(keyPrefixSession @ show_int v := None)"
  shows "view_ok J m'" "view_abs J m' c = (view_abs J m c)\<lparr>p_sessions := (p_sessions (view_abs J m c))(v := None)\<rparr>"
  using assms(1,2) by (auto simp: m'_def view_ok_def view_abs_def decode_def fun_eq_iff)

lemma view_poison:
  assumes "view_ok J m" "int64_range v"
  defines "m' \<equiv> m(keyPrefixPoisoned @ show_int v \<mapsto> [1])"
  shows "view_ok J m'" "view_abs J m' c = (view_abs J m c)\<lparr>p_poisoned := insert v (p_poisoned (view_abs J m c))\<rparr>"
  using assms(1,2) by (auto simp: m'_def view_ok_def view_abs_def decode_def fun_eq_iff)

lemma view_set_active:
  assumes "view_ok J m" "int64_range v"
  defines "m' \<equiv> m(keyPrefixActiveVersion \<mapsto> put_uint64 v)"
  shows "view_ok J m'" "view_abs J m' c = (view_abs J m c)\<lparr>p_active := v\<rparr>"
  using assms(1,2) by (auto simp: m'_def view_ok_def view_abs_def fun_eq_iff to_int64_put_uint64)

lemma view_put_node:
  assumes "view_ok J m" "unjson_ns J bs = Some (Some st)"
  defines "m' \<equiv> m(keyPrefixNodeState \<mapsto> bs)"
  shows "view_ok J m'" "view_abs J m' c = (view_abs J m c)\<lparr>p_node := Some st\<rparr>"
  using assms(1,2) by (auto simp: m'_def view_ok_def view_abs_def decode_def fun_eq_iff)

lemma view_put_block:
  assumes "view_ok J m" "unjson_br J bs = Some (Some r)" "br_Number r < 2 ^ 64"
  defines "m' \<equiv> m(block_key (br_ChainId r) (br_Number r) \<mapsto> bs,
                  keyPrefixLastBlock @ show_nat (br_ChainId r) \<mapsto> be_bytes 8 (br_Number r))"
  shows "view_ok J m'"
    "view_abs J m' c = (view_abs J m c)\<lparr>p_blocks := (p_blocks (view_abs J m c))((br_ChainId r, br_Number r) \<mapsto> r),
       p_last := (p_last (view_abs J m c))(br_ChainId r \<mapsto> br_Number r)\<rparr>"
proof -
  show "view_ok J m'" using assms(1-3) by (auto simp: m'_def view_ok_def)
  show "view_abs J m' c = (view_abs J m c)\<lparr>p_blocks := (p_blocks (view_abs J m c))((br_ChainId r, br_Number r) \<mapsto> r),
       p_last := (p_last (view_abs J m c))(br_ChainId r \<mapsto> br_Number r)\<rparr>"
    using assms(2,3) by (auto simp: m'_def view_abs_def decode_def fun_eq_iff be_value_be_bytes)
qed

lemma view_del_block:
  assumes "view_ok J m"
  shows "view_ok J (m(block_key ch n := None))"
    "view_abs J (m(block_key ch n := None)) c =
       (view_abs J m c)\<lparr>p_blocks := (p_blocks (view_abs J m c))((ch, n) := None)\<rparr>"
  using assms by (auto simp: view_ok_def view_abs_def decode_def fun_eq_iff)

subsection \<open>Listings\<close>

lemma distinct_map_filter:
  assumes "distinct (map fst xs)" "\<And>y r. y \<in> set xs \<Longrightarrow> f y = Some r \<Longrightarrow> fst y = g (key r)"
  shows "distinct (map key (List.map_filter f xs))"
  using assms
proof (induction xs)
  case (Cons y xs)
  then have IH: "distinct (map key (List.map_filter f xs))" by simp
  show ?case
  proof (cases "f y")
    case (Some r)
    have "key r \<notin> set (map key (List.map_filter f xs))"
    proof
      assume "key r \<in> set (map key (List.map_filter f xs))"
      then obtain y' r' where "y' \<in> set xs" "f y' = Some r'" "key r' = key r"
        by (auto simp: List.map_filter_def)
      then have "fst y' = fst y" using Cons.prems(2) Some by simp
      with \<open>y' \<in> set xs\<close> have "fst y \<in> set (map fst xs)" by (metis image_eqI set_map)
      with Cons.prems(1) show False by simp
    qed
    with IH Some show ?thesis by (simp add: map_filter_simps)
  qed (use IH in \<open>simp add: map_filter_simps\<close>)
qed (simp add: map_filter_simps)

text \<open>
  Records stored under \<open>pre\<close> with the decimal form of their own key: a listing gives each of them
  once.
\<close>

lemma bp_list_records:
  assumes valid: "bp_valid K J view b"
    and stored: "\<And>x bs. view (db b) (pre @ x) = Some bs \<Longrightarrow>
       \<exists>r. int64_range (key r) \<and> x = show_int (key r) \<and> unjson bs = Some (Some r)"
  shows "\<exists>rs. bp_list K b pre unjson = Inr rs \<and> distinct (map key rs) \<and>
     (\<forall>r. r \<in> set rs \<longleftrightarrow> int64_range (key r) \<and> decode unjson (view (db b) (pre @ show_int (key r))) = Some r)"
proof -
  let ?f = "\<lambda>(k :: string, bs). case unjson bs of Some (Some x) \<Rightarrow> Some x | _ \<Rightarrow> None"
  obtain xs where xs: "kv_Iterate K (db b) pre = Some xs" "distinct (map fst xs)"
    "\<And>k bs. (k, bs) \<in> set xs \<longleftrightarrow> view (db b) k = Some bs \<and> (\<exists>x. k = pre @ x)"
    using kv_lawsD(3) [OF bp_validD(1) [OF valid]] by blast
  have item: "\<exists>r. ?f (k, bs) = Some r \<and> int64_range (key r) \<and> k = pre @ show_int (key r) \<and> unjson bs = Some (Some r)"
    if "(k, bs) \<in> set xs" for k bs
    using xs(3) [of k bs] that stored by fastforce
  have "fst y = pre @ show_int (key r)" if "y \<in> set xs" "?f y = Some r" for y r
    using item [of "fst y" "snd y"] that by (cases y) auto
  then have "distinct (map key (List.map_filter ?f xs))" by (intro distinct_map_filter [OF xs(2)])
  moreover have "r \<in> set (List.map_filter ?f xs) \<longleftrightarrow>
      int64_range (key r) \<and> decode unjson (view (db b) (pre @ show_int (key r))) = Some r" for r
  proof
    assume "r \<in> set (List.map_filter ?f xs)"
    then obtain k bs where "(k, bs) \<in> set xs" "?f (k, bs) = Some r" by (fastforce simp: List.map_filter_def)
    with item [of k bs] xs(3) [of k bs] show "int64_range (key r) \<and> decode unjson (view (db b) (pre @ show_int (key r))) = Some r"
      by (auto simp: decode_def)
  next
    assume r: "int64_range (key r) \<and> decode unjson (view (db b) (pre @ show_int (key r))) = Some r"
    then obtain bs where "view (db b) (pre @ show_int (key r)) = Some bs" "unjson bs = Some (Some r)"
      by (auto simp: decode_def split: option.splits)
    then show "r \<in> set (List.map_filter ?f xs)"
      using xs(3) [of "pre @ show_int (key r)" bs] by (force simp: List.map_filter_def)
  qed
  ultimately show ?thesis using xs(1) by (auto simp: bp_list_def)
qed


lemma bp_list_poisoned:
  assumes "bp_valid K J view b" "\<not> bp_closed b"
  shows "\<exists>vs. bp_ListPoisonedVersions K b = Inr vs \<and> distinct vs \<and> set vs = p_poisoned (bp_abs J view b)"
proof -
  let ?f = "\<lambda>(k, _ :: bytes). parse_int64 (drop (length keyPrefixPoisoned) k)"
  obtain xs where xs: "kv_Iterate K (db b) keyPrefixPoisoned = Some xs" "distinct (map fst xs)"
    "\<And>k bs. (k, bs) \<in> set xs \<longleftrightarrow> view (db b) k = Some bs \<and> (\<exists>x. k = keyPrefixPoisoned @ x)"
    using kv_lawsD(3) [OF bp_validD(1) [OF assms(1)]] by blast
  have item: "\<exists>v. int64_range v \<and> k = keyPrefixPoisoned @ show_int v \<and> ?f (k, bs) = Some v" if "(k, bs) \<in> set xs" for k bs
  proof -
    from that have "view (db b) k = Some bs \<and> (\<exists>x. k = keyPrefixPoisoned @ x)" by (simp only: xs(3))
    then obtain x where x: "k = keyPrefixPoisoned @ x" "view (db b) (keyPrefixPoisoned @ x) = Some bs" by auto
    obtain v where "int64_range v" "x = show_int v"
      using view_okD(3) [OF bp_validD(3) [OF assms(1)] x(2)] by (elim exE conjE)
    with x(1) show ?thesis by (simp add: parse_show_int)
  qed
  have key: "fst y = keyPrefixPoisoned @ show_int (id v)" if "y \<in> set xs" "?f y = Some v" for y v
    using item [of "fst y" "snd y"] that by (cases y) auto
  have "distinct (map id (List.map_filter ?f xs))"
    by (rule distinct_map_filter [OF xs(2), where g = "\<lambda>v. keyPrefixPoisoned @ show_int v"]) (rule key)
  then have "distinct (List.map_filter ?f xs)" by simp
  moreover have "v \<in> set (List.map_filter ?f xs) \<longleftrightarrow> int64_range v \<and> view (db b) (keyPrefixPoisoned @ show_int v) \<noteq> None" for v
  proof
    assume "v \<in> set (List.map_filter ?f xs)"
    then obtain k bs where "(k, bs) \<in> set xs" "?f (k, bs) = Some v" by (fastforce simp: List.map_filter_def)
    with item [of k bs] xs(3) [of k bs] show "int64_range v \<and> view (db b) (keyPrefixPoisoned @ show_int v) \<noteq> None"
      by auto
  next
    assume v: "int64_range v \<and> view (db b) (keyPrefixPoisoned @ show_int v) \<noteq> None"
    then obtain bs where "(keyPrefixPoisoned @ show_int v, bs) \<in> set xs" using xs(3) by blast
    with v show "v \<in> set (List.map_filter ?f xs)" by (force simp: List.map_filter_def parse_show_int)
  qed
  ultimately show ?thesis
    using xs(1) assms(2) by (auto simp: bp_ListPoisonedVersions_def bp_abs_def view_abs_def)
qed

lemma bp_list_keys:
  assumes "bp_valid K J view b" "\<not> bp_closed b"
  shows "\<exists>ks. bp_ListKeyShareVersions K J b = Inr ks \<and> sorted_wrt (<) (map Version ks) \<and>
     (\<forall>k. k \<in> set ks \<longleftrightarrow> p_keys (bp_abs J view b) (Version k) = Some k)"
proof -
  obtain rs where rs: "bp_list K b keyPrefixKeyShare (unjson_ksv J) = Inr rs" "distinct (map Version rs)"
    "\<And>r. r \<in> set rs \<longleftrightarrow> int64_range (Version r) \<and>
       decode (unjson_ksv J) (view (db b) (keyPrefixKeyShare @ show_int (Version r))) = Some r"
    using bp_list_records [OF assms(1), where key = Version and pre = keyPrefixKeyShare and unjson = "unjson_ksv J",
        OF view_okD(1) [OF bp_validD(3) [OF assms(1)]]] by blast
  moreover have "sorted_wrt (<) (map Version (sort_key Version rs))"
    using rs(2) by (simp add: strict_sorted_iff distinct_map)
  ultimately show ?thesis using assms(2)
    by (auto simp: bp_ListKeyShareVersions_def bp_abs_def view_abs_def)
qed

lemma bp_list_sessions:
  assumes "bp_valid K J view b" "\<not> bp_closed b"
  shows "\<exists>ps. bp_ListProtocolSessions K J b = Inr ps \<and>
     (\<forall>p. p \<in> set ps \<longleftrightarrow> p_sessions (bp_abs J view b) (ps_SessionTimestamp p) = Some p)"
proof -
  obtain rs where "bp_list K b keyPrefixSession (unjson_pss J) = Inr rs"
    "\<And>r. r \<in> set rs \<longleftrightarrow> int64_range (ps_SessionTimestamp r) \<and>
       decode (unjson_pss J) (view (db b) (keyPrefixSession @ show_int (ps_SessionTimestamp r))) = Some r"
    using bp_list_records [OF assms(1), where key = ps_SessionTimestamp and pre = keyPrefixSession and unjson = "unjson_pss J",
        OF view_okD(2) [OF bp_validD(3) [OF assms(1)]]] by blast
  with assms(2) show ?thesis
    by (auto simp: bp_ListProtocolSessions_def bp_abs_def view_abs_def)
qed

lemma bp_load_block:
  assumes "bp_valid K J view b"
  shows "bp_getBlockRecordLocked K J b c n = Inr (decode (unjson_br J) (view (db b) (block_key c n)))"
  unfolding bp_getBlockRecordLocked_def
  by (rule bp_load_decode [OF assms view_okD(4) [OF bp_validD(3) [OF assms]]])


subsection \<open>The implementation meets the contract\<close>

lemma badger_simps [simp]:
  "pi_SaveKeyShareVersion (badger_persistence K J) = bp_SaveKeyShareVersion K J"
  "pi_LoadKeyShareVersion (badger_persistence K J) = bp_LoadKeyShareVersion K J"
  "pi_ListKeyShareVersions (badger_persistence K J) = bp_ListKeyShareVersions K J"
  "pi_DeleteKeyShareVersion (badger_persistence K J) = bp_DeleteKeyShareVersion K"
  "pi_AddPoisonedVersion (badger_persistence K J) = bp_AddPoisonedVersion K"
  "pi_ListPoisonedVersions (badger_persistence K J) = bp_ListPoisonedVersions K"
  "pi_SetActiveVersionTimestamp (badger_persistence K J) = bp_SetActiveVersionTimestamp K"
  "pi_GetActiveVersionTimestamp (badger_persistence K J) = bp_GetActiveVersionTimestamp K"
  "pi_SaveNodeState (badger_persistence K J) = bp_SaveNodeState K J"
  "pi_LoadNodeState (badger_persistence K J) = bp_LoadNodeState K J"
  "pi_SaveProtocolSession (badger_persistence K J) = bp_SaveProtocolSession K J"
  "pi_LoadProtocolSession (badger_persistence K J) = bp_LoadProtocolSession K J"
  "pi_DeleteProtocolSession (badger_persistence K J) = bp_DeleteProtocolSession K"
  "pi_ListProtocolSessions (badger_persistence K J) = bp_ListProtocolSessions K J"
  "pi_SaveBlockRecord (badger_persistence K J) = bp_SaveBlockRecord K J"
  "pi_GetLastProcessedBlockRecord (badger_persistence K J) = bp_GetLastProcessedBlockRecord K J"
  "pi_GetBlockRecord (badger_persistence K J) = bp_GetBlockRecord K J"
  "pi_DeleteBlockRecord (badger_persistence K J) = bp_DeleteBlockRecord K"
  "pi_Close (badger_persistence K J) = bp_Close K"
  "pi_HealthCheck (badger_persistence K J) = bp_HealthCheck K"
  by (simp_all add: badger_persistence_def)

lemma p_closed_bp_abs [simp]: "p_closed (bp_abs J view b) = bp_closed b"
  by (simp add: bp_abs_def view_abs_def)

lemmas bp_write_defs = bp_SaveKeyShareVersion_def bp_DeleteKeyShareVersion_def bp_AddPoisonedVersion_def
  bp_SetActiveVersionTimestamp_def bp_SaveNodeState_def bp_SaveProtocolSession_def bp_DeleteProtocolSession_def
  bp_SaveBlockRecord_def bp_DeleteBlockRecord_def bp_save_def

lemmas bp_read_defs = bp_LoadKeyShareVersion_def bp_ListKeyShareVersions_def bp_ListPoisonedVersions_def
  bp_GetActiveVersionTimestamp_def bp_LoadNodeState_def bp_LoadProtocolSession_def bp_ListProtocolSessions_def
  bp_GetLastProcessedBlockRecord_def bp_GetBlockRecord_def

lemma bp_get_last:
  assumes "bp_valid K J view b" "\<not> bp_closed b"
  shows "bp_GetLastProcessedBlockRecord K J b c =
    Inr (case p_last (bp_abs J view b) c of None \<Rightarrow> None | Some n \<Rightarrow> p_blocks (bp_abs J view b) (c, n))"
  using assms(2) view_okD(5) [OF bp_validD(3) [OF assms(1)]] kv_lawsD(1) [OF bp_validD(1) [OF assms(1)]]
  by (auto simp: bp_GetLastProcessedBlockRecord_def bp_abs_def view_abs_def bp_load_block [OF assms(1)]
      split: option.splits)

lemma bp_get_active:
  assumes "bp_valid K J view b" "\<not> bp_closed b"
  shows "bp_GetActiveVersionTimestamp K b = Inr (p_active (bp_abs J view b))"
  using assms(2) view_okD(6) [OF bp_validD(3) [OF assms(1)]] kv_lawsD(1) [OF bp_validD(1) [OF assms(1)]]
  by (auto simp: bp_GetActiveVersionTimestamp_def bp_abs_def view_abs_def split: option.splits)

interpretation badger: node_persistence "badger_persistence K J" "bp_valid K J view" "bp_abs J view"
  for K :: "'d kvlib" and J :: "'f jsonlib" and view :: "'d \<Rightarrow> string \<Rightarrow> bytes option"
proof (unfold_locales, goal_cases)
  case (1 s k)
  obtain bs where bs: "json_ksv J k = Some bs" "unjson_ksv J bs = Some (Some k)"
    using json_lawsD [OF bp_validD(2) [OF 1(1)]] by metis
  show ?case
    using 1 bs view_put_key [OF bp_validD(3) [OF 1(1)] 1(3) bs(2)]
    by (simp add: bp_write_defs) (rule bp_writes, simp_all add: bp_abs_def)
next
  case (2 s v)
  then show ?case
    by (simp add: bp_LoadKeyShareVersion_def bp_abs_def view_abs_def)
      (rule bp_load_decode [OF 2(1)], metis view_okD(1) [OF bp_validD(3) [OF 2(1)]])
next
  case (3 s)
  then show ?case using bp_list_keys [OF 3(1)] by simp
next
  case (4 s v)
  then show ?case
    using view_del_key [OF bp_validD(3) [OF 4(1)] 4(3)]
    by (simp add: bp_write_defs) (rule bp_writes, simp_all add: bp_abs_def)
next
  case (5 s v)
  then show ?case
    using view_poison [OF bp_validD(3) [OF 5(1)] 5(3)]
    by (simp add: bp_write_defs) (rule bp_writes, simp_all add: bp_abs_def)
next
  case (6 s)
  then show ?case using bp_list_poisoned [OF 6(1)] by simp
next
  case (7 s v)
  then show ?case
    using view_set_active [OF bp_validD(3) [OF 7(1)] 7(3)]
    by (simp add: bp_write_defs) (rule bp_writes, simp_all add: bp_abs_def)
next
  case (8 s)
  then show ?case by (simp add: bp_get_active)
next
  case (9 s st)
  obtain bs where bs: "json_ns J st = Some bs" "unjson_ns J bs = Some (Some st)"
    using json_lawsD [OF bp_validD(2) [OF 9(1)]] by metis
  show ?case
    using 9 bs view_put_node [OF bp_validD(3) [OF 9(1)] bs(2)]
    by (simp add: bp_write_defs) (rule bp_writes, simp_all add: bp_abs_def)
next
  case (10 s)
  then show ?case
    by (simp add: bp_LoadNodeState_def bp_abs_def view_abs_def)
      (rule bp_load_decode [OF 10(1)], metis view_okD(7) [OF bp_validD(3) [OF 10(1)]])
next
  case (11 s p)
  obtain bs where bs: "json_pss J p = Some bs" "unjson_pss J bs = Some (Some p)"
    using json_lawsD [OF bp_validD(2) [OF 11(1)]] by metis
  show ?case
    using 11 bs view_put_session [OF bp_validD(3) [OF 11(1)] 11(3) bs(2)]
    by (simp add: bp_write_defs) (rule bp_writes, simp_all add: bp_abs_def)
next
  case (12 s v)
  then show ?case
    by (simp add: bp_LoadProtocolSession_def bp_abs_def view_abs_def)
      (rule bp_load_decode [OF 12(1)], metis view_okD(2) [OF bp_validD(3) [OF 12(1)]])
next
  case (13 s v)
  then show ?case
    using view_del_session [OF bp_validD(3) [OF 13(1)] 13(3)]
    by (simp add: bp_write_defs) (rule bp_writes, simp_all add: bp_abs_def)
next
  case (14 s)
  then show ?case using bp_list_sessions [OF 14(1)] by simp
next
  case (15 s b)
  obtain bs where bs: "json_br J b = Some bs" "unjson_br J bs = Some (Some b)"
    using json_lawsD [OF bp_validD(2) [OF 15(1)]] by metis
  show ?case
    using 15 bs view_put_block [OF bp_validD(3) [OF 15(1)] bs(2) 15(3)]
    by (simp add: bp_write_defs) (rule bp_writes, simp_all add: bp_abs_def)
next
  case (16 s c n)
  then show ?case
    by (simp add: bp_GetBlockRecord_def bp_load_block [OF 16(1)] bp_abs_def view_abs_def)
next
  case (17 s c)
  then show ?case by (simp add: bp_get_last)
next
  case (18 s c n)
  then show ?case
    using view_del_block [OF bp_validD(3) [OF 18(1)]]
    by (simp add: bp_write_defs) (rule bp_writes, simp_all add: bp_abs_def)
next
  case (19 s)
  then show ?case
    using kv_lawsD(4) [OF bp_validD(1) [OF 19]]
    by (cases "bp_closed s") (auto simp: bp_Close_def writes_def bp_valid_def bp_abs_def view_abs_def)
next
  case (20 s)
  then show ?case
    using view_okD(8) [OF bp_validD(3) [OF 20]] kv_lawsD(1) [OF bp_validD(1) [OF 20]]
    by (auto simp: bp_HealthCheck_def)
next
  case (21 s v c n)
  then show ?case by (simp add: bp_read_defs failed_def)
next
  case (22 s r ko v sto po bo c n)
  then show ?case by (auto simp: bp_write_defs failed_def split: option.splits)
next
  case (23 s r)
  then show ?case by (auto simp: bp_write_defs failed_def)
qed


subsection \<open>Restart\<close>

lemma NewBadgerPersistence_reopen:
  assumes "bp_valid K J view b"
  shows "NewBadgerPersistence K (db b) = Inr \<lparr>db = db b, bp_closed = False\<rparr>"
  using view_okD(8) [OF bp_validD(3) [OF assms]] kv_lawsD(1) [OF bp_validD(1) [OF assms]]
  by (simp add: NewBadgerPersistence_def initSchema_def)

lemma NewBadgerPersistence_fresh:
  assumes "kv_laws K view" "json_laws J" "view d = (\<lambda>_. None)"
  shows "\<exists>b. NewBadgerPersistence K d = Inr b \<and> bp_valid K J view b \<and> bp_abs J view b = empty_pstore"
proof -
  obtain d' where d': "kv_Update K d [(keySchemaVersion, Some schema_bytes)] = Some d'"
    "view d' = (view d)(keySchemaVersion \<mapsto> schema_bytes)"
    using kv_lawsD(2) [OF assms(1), of d "[(keySchemaVersion, Some schema_bytes)]"] by auto
  have "NewBadgerPersistence K d = Inr \<lparr>db = d', bp_closed = False\<rparr>"
    using d' kv_lawsD(1) [OF assms(1)] assms(3)
    by (simp add: NewBadgerPersistence_def initSchema_def bp_update_def)
  moreover have "view_ok J (view d')" "view_abs J (view d') False = empty_pstore"
    using d'(2) assms(3)
    by (auto simp: view_ok_def view_abs_def empty_pstore_def decode_def keys_distinct [symmetric] fun_eq_iff)
  ultimately show ?thesis using assms(1,2) by (auto simp: bp_valid_def bp_abs_def)
qed

lemma bp_reopen:
  assumes "bp_valid K J view b"
  shows "\<exists>b'. NewBadgerPersistence K (db b) = Inr b' \<and> bp_valid K J view b' \<and>
     bp_abs J view b' = (bp_abs J view b)\<lparr>p_closed := False\<rparr>"
  using assms NewBadgerPersistence_reopen [OF assms] by (simp add: bp_valid_def bp_abs_def view_abs_def cong: if_cong)

text \<open>
  What a round stored survives a restart of the process: a key share is saved, the active
  timestamp set to it, the store closed and opened again. Every step succeeds, and the new store
  reads the timestamp and the share back; every other share is as before, and the poisoned versions
  are those of the old store.
\<close>

theorem badger_restart:
  assumes "bp_valid K J view b" "\<not> bp_closed b" "int64_range (Version k)"
    "bp_SaveKeyShareVersion K J b (Some k) = (b1, e1)" "bp_SetActiveVersionTimestamp K b1 (Version k) = (b2, e2)"
    "bp_Close K b2 = (b3, e3)"
  shows "e1 = Inr () \<and> e2 = Inr () \<and> e3 = Inr () \<and>
    (\<exists>b4. NewBadgerPersistence K (db b3) = Inr b4 \<and> bp_GetActiveVersionTimestamp K b4 = Inr (Version k) \<and>
       (\<forall>v. int64_range v \<longrightarrow> bp_LoadKeyShareVersion K J b4 v =
          (if v = Version k then Inr (Some k) else bp_LoadKeyShareVersion K J b v)) \<and>
       (\<exists>vs vs'. bp_ListPoisonedVersions K b = Inr vs \<and> bp_ListPoisonedVersions K b4 = Inr vs' \<and> set vs' = set vs))"
proof -
  have w1: "e1 = Inr ()" "bp_valid K J view b1"
    "bp_abs J view b1 = (bp_abs J view b)\<lparr>p_keys := (p_keys (bp_abs J view b))(Version k \<mapsto> k)\<rparr>"
    using badger.save_key [of K J view b k] assms(1-4) by (simp_all add: writes_def)
  have "\<not> bp_closed b1" using arg_cong [OF w1(3), of p_closed] assms(2) by simp
  then have w2: "e2 = Inr ()" "bp_valid K J view b2" "bp_abs J view b2 = (bp_abs J view b1)\<lparr>p_active := Version k\<rparr>"
    using badger.set_active [of K J view b1 "Version k"] w1(2) assms(3,5) by (simp_all add: writes_def)
  have w3: "e3 = Inr ()" "bp_valid K J view b3" "bp_abs J view b3 = (bp_abs J view b2)\<lparr>p_closed := True\<rparr>"
    using badger.close [of K J view b2] w2(2) assms(6) by (simp_all add: writes_def)
  obtain b4 where b4: "NewBadgerPersistence K (db b3) = Inr b4" "bp_valid K J view b4"
    "bp_abs J view b4 = (bp_abs J view b3)\<lparr>p_closed := False\<rparr>"
    using bp_reopen [OF w3(2)] by blast
  have o4: "\<not> bp_closed b4" using arg_cong [OF b4(3), of p_closed] by simp
  have "bp_LoadKeyShareVersion K J b4 v = (if v = Version k then Inr (Some k) else bp_LoadKeyShareVersion K J b v)"
    if "int64_range v" for v
    using badger.load_key [of K J view b4 v] badger.load_key [of K J view b v] that assms(1,2) b4 o4 w1(3) w2(3) w3(3)
    by simp
  moreover have "bp_GetActiveVersionTimestamp K b4 = Inr (Version k)"
    using bp_get_active [OF b4(2) o4] b4(3) w2(3) w3(3) by simp
  moreover have "\<exists>vs vs'. bp_ListPoisonedVersions K b = Inr vs \<and> bp_ListPoisonedVersions K b4 = Inr vs' \<and> set vs' = set vs"
    using bp_list_poisoned [OF b4(2) o4] bp_list_poisoned [OF assms(1,2)] b4(3) w1(3) w2(3) w3(3) by auto
  ultimately show ?thesis using w1(1) w2(1) w3(1) b4(1) by blast
qed

subsection \<open>A concrete store\<close>

text \<open>A database as an association list, with the encoding of \<open>Codec\<close>.\<close>

type_synonym mock_db = "(string, bytes) gomap"

definition mock_kv :: "mock_db kvlib" where
  "mock_kv =
     \<lparr>kv_Get = (\<lambda>d k. Some (gm_get d k)),
      kv_Update = (\<lambda>d ops. Some (fold (\<lambda>(k, v) d. case v of Some b \<Rightarrow> gm_set d k b | None \<Rightarrow> gm_del d k) ops d)),
      kv_Iterate = (\<lambda>d pre. Some (filter (\<lambda>(k, _). take (length pre) k = pre) (AList.clearjunk d))),
      kv_Close = (\<lambda>_. True)\<rparr>"

definition mock_json :: "gf jsonlib" where
  "mock_json =
     \<lparr>json_ksv = (\<lambda>k. Some (enc_ksv k)), unjson_ksv = unmarshal dec_ksv,
      json_ns = (\<lambda>k. Some (enc_ns k)), unjson_ns = unmarshal dec_ns,
      json_pss = (\<lambda>k. Some (enc_pss k)), unjson_pss = unmarshal dec_pss,
      json_br = (\<lambda>k. Some (enc_br k)), unjson_br = unmarshal dec_br\<rparr>"

lemma mock_json_laws: "json_laws mock_json"
  by (simp add: json_laws_def mock_json_def unmarshal_simps)

lemma mock_kv_laws: "kv_laws mock_kv gm_get"
proof -
  have upd: "gm_get (fold (\<lambda>(k, v) d. case v of Some b \<Rightarrow> gm_set d k b | None \<Rightarrow> gm_del d k) ops d) =
      fold (\<lambda>(k, v) m. m(k := v)) ops (gm_get d)" for ops :: "(string \<times> bytes option) list" and d
    by (induction ops arbitrary: d) (auto split: option.splits)
  have iter: "(k, b) \<in> set (filter (\<lambda>(k, _). take (length pre) k = pre) (AList.clearjunk d)) \<longleftrightarrow>
      gm_get d k = Some b \<and> (\<exists>x. k = pre @ x)" for k pre :: string and b :: bytes and d
  proof -
    have "(k, b) \<in> set (AList.clearjunk d) \<longleftrightarrow> gm_get d k = Some b"
      by (metis distinct_clearjunk map_of_clearjunk map_of_eq_Some_iff)
    moreover have "take (length pre) k = pre \<longleftrightarrow> (\<exists>x. k = pre @ x)" by (metis append_eq_conv_conj append_take_drop_id)
    ultimately show ?thesis by auto
  qed
  have "distinct (map fst (filter (\<lambda>(k, _). take (length pre) k = pre) (AList.clearjunk d)))" for pre and d :: mock_db
    using gm_ok_filter [of "AList.clearjunk d"] by (simp add: gm_ok_def distinct_clearjunk)
  with iter upd show ?thesis by (simp add: kv_laws_def mock_kv_def)
qed

definition mock_badger :: "mock_db BadgerPersistence" where
  "mock_badger = \<lparr>db = [(keySchemaVersion, schema_bytes)], bp_closed = False\<rparr>"

lemma mock_badger_valid: "bp_valid mock_kv mock_json gm_get mock_badger"
  using NewBadgerPersistence_fresh [OF mock_kv_laws mock_json_laws, of "[]"]
  by (simp add: NewBadgerPersistence_def initSchema_def mock_kv_def bp_update_def mock_badger_def)

definition mock_ksv :: "int64 \<Rightarrow> gf KeyShareVersion" where
  "mock_ksv v = \<lparr>Version = v, PrivateShare = Some 3, Commitments = [G2Point [5]], MasterPublicKey = None,
     IsActive = True, ParticipantIDs = [1, 2]\<rparr>"

theorem badger_restart_witness:
  "\<exists>b4. NewBadgerPersistence mock_kv (db (fst (bp_Close mock_kv (fst (bp_SetActiveVersionTimestamp mock_kv
        (fst (bp_SaveKeyShareVersion mock_kv mock_json mock_badger (Some (mock_ksv 7)))) 7))))) = Inr b4 \<and>
      bp_GetActiveVersionTimestamp mock_kv b4 = Inr 7 \<and>
      bp_LoadKeyShareVersion mock_kv mock_json b4 7 = Inr (Some (mock_ksv 7))"
proof -
  obtain b1 e1 where 1: "bp_SaveKeyShareVersion mock_kv mock_json mock_badger (Some (mock_ksv 7)) = (b1, e1)"
    by fastforce
  obtain b2 e2 where 2: "bp_SetActiveVersionTimestamp mock_kv b1 (Version (mock_ksv 7)) = (b2, e2)" by fastforce
  obtain b3 e3 where 3: "bp_Close mock_kv b2 = (b3, e3)" by fastforce
  have r: "\<not> bp_closed mock_badger" "int64_range (Version (mock_ksv 7))"
    by (simp_all add: mock_badger_def mock_ksv_def int64_range_def)
  have "Version (mock_ksv 7) = 7" by (simp add: mock_ksv_def)
  with badger_restart [OF mock_badger_valid r 1 2 3] 1 2 3 r(2) show ?thesis by auto
qed

end
