(* ===== verification/Autoheal.thy ===== *)
theory Autoheal
  imports Key_Store Memory_Persistence Badger_Persistence
begin

text \<open>
  \<open>pkg/node/autoheal.go\<close>: rounds that abort at the validation of the master public key are
  counted against the active source version, and the third one in a row demotes the version: it is
  poisoned and the node rolls back to an earlier one. The theorems: the counter counts exactly the
  majority-gated aborts since the last success, rollback or change of version; the rollback target is
  the one the code's comments promise; a rollback never activates a poisoned version, whatever the
  persistence layer answers; on a persistence layer that meets its contract the persisted state
  agrees with the memory.
\<close>

definition demotionThreshold :: int where
  "demotionThreshold = 3"

record abortTracker =
  at_TrackedSourceVersion :: int64
  at_ConsecutiveAborts :: int

definition recordMPKAbort :: "abortTracker \<Rightarrow> int64 \<Rightarrow> int64 \<Rightarrow> abortTracker \<times> bool" where
  "recordMPKAbort t activeSourceVersion majoritySrcVersion =
     (let t1 = (if at_TrackedSourceVersion t \<noteq> activeSourceVersion
                then t\<lparr>at_TrackedSourceVersion := activeSourceVersion, at_ConsecutiveAborts := 0\<rparr> else t) in
      if majoritySrcVersion \<noteq> activeSourceVersion then (t1, False)
      else let t2 = t1\<lparr>at_ConsecutiveAborts := at_ConsecutiveAborts t1 + 1\<rparr> in
           (t2, at_ConsecutiveAborts t2 \<ge> demotionThreshold))"

definition recordSuccess :: "abortTracker \<Rightarrow> abortTracker" where
  "recordSuccess t = t\<lparr>at_ConsecutiveAborts := 0\<rparr>"

definition rollbackTarget :: "int64 \<Rightarrow> int64 \<Rightarrow> int64 list \<Rightarrow> (int64 \<Rightarrow> bool) \<Rightarrow> int64 option" where
  "rollbackTarget lkg poisonedVersion persistedVersions isPoisoned =
     (if lkg > 0 \<and> lkg < poisonedVersion \<and> \<not> isPoisoned lkg then Some lkg
      else List.find (\<lambda>v. v < poisonedVersion \<and> \<not> isPoisoned v) (rev (sort persistedVersions)))"

subsection \<open>The node's operations\<close>

text \<open>
  The fields of \<open>Node\<close> that the auto-heal code uses. \<open>n_OperatorAddress\<close> is
  \<open>n.OperatorAddress.Hex()\<close>. Errors of the persistence layer are logged and not returned.
\<close>

record ('s, 'f) heal_node =
  n_OperatorAddress :: string
  n_keyStore :: "'f KeyStore"
  n_persistence :: 's
  n_abortTracker :: abortTracker

definition load_or_fresh :: "('s, 'f) INodePersistence \<Rightarrow> ('s, 'f, 'z) heal_node_scheme \<Rightarrow> NodeState" where
  "load_or_fresh P n =
     (case pi_LoadNodeState P (n_persistence n) of
        Inr (Some st) \<Rightarrow> st
      | _ \<Rightarrow> NodeState_zero\<lparr>ns_OperatorAddress := n_OperatorAddress n\<rparr>)"

definition persistAbortTracker ::
  "('s, 'f) INodePersistence \<Rightarrow> ('s, 'f, 'z) heal_node_scheme \<Rightarrow> ('s, 'f, 'z) heal_node_scheme" where
  "persistAbortTracker P n =
     n\<lparr>n_persistence := fst (pi_SaveNodeState P (n_persistence n) (Some ((load_or_fresh P n)\<lparr>
         TrackedSourceVersion := at_TrackedSourceVersion (n_abortTracker n),
         ConsecutiveMPKAborts := at_ConsecutiveAborts (n_abortTracker n)\<rparr>)))\<rparr>"

definition mark_poisoned ::
  "('s, 'f) INodePersistence \<Rightarrow> int64 \<Rightarrow> ('s, 'f, 'z) heal_node_scheme \<Rightarrow> ('s, 'f, 'z) heal_node_scheme" where
  "mark_poisoned P poisonedVersion n =
     n\<lparr>n_keyStore := MarkPoisoned poisonedVersion (n_keyStore n),
       n_persistence := fst (pi_AddPoisonedVersion P (n_persistence n) poisonedVersion)\<rparr>"

definition last_known_good :: "('s, 'f) INodePersistence \<Rightarrow> 's \<Rightarrow> int64" where
  "last_known_good P s =
     (case pi_LoadNodeState P s of Inr (Some st) \<Rightarrow> LastKnownGoodSourceVersion st | _ \<Rightarrow> 0)"

definition performRollback ::
  "('s, 'f) INodePersistence \<Rightarrow> int64 \<Rightarrow> ('s, 'f, 'z) heal_node_scheme \<Rightarrow> ('s, 'f, 'z) heal_node_scheme" where
  "performRollback P poisonedVersion n =
     (let n1 = mark_poisoned P poisonedVersion n;
          lkg = last_known_good P (n_persistence n1) in
      case pi_ListKeyShareVersions P (n_persistence n1) of
        Inl _ \<Rightarrow> n1
      | Inr versions \<Rightarrow>
          (case rollbackTarget lkg poisonedVersion (map Version versions) (IsPoisoned (n_keyStore n1)) of
             None \<Rightarrow> n1
           | Some target \<Rightarrow>
               (case SetActiveVersionByTimestamp target (n_keyStore n1) of
                  (_, Inl _) \<Rightarrow> n1
                | (ks, Inr _) \<Rightarrow>
                    persistAbortTracker P (n1\<lparr>n_keyStore := ks,
                      n_persistence := fst (pi_SetActiveVersionTimestamp P (n_persistence n1) target),
                      n_abortTracker := \<lparr>at_TrackedSourceVersion = target, at_ConsecutiveAborts = 0\<rparr>\<rparr>))))"

definition onMPKValidationAbort ::
  "('s, 'f) INodePersistence \<Rightarrow> int64 \<Rightarrow> int64 \<Rightarrow> ('s, 'f, 'z) heal_node_scheme \<Rightarrow> ('s, 'f, 'z) heal_node_scheme" where
  "onMPKValidationAbort P activeSourceVersion majoritySrcVersion n =
     (case recordMPKAbort (n_abortTracker n) activeSourceVersion majoritySrcVersion of
        (t, demote) \<Rightarrow>
          let n1 = persistAbortTracker P (n\<lparr>n_abortTracker := t\<rparr>) in
          if \<not> demote then n1 else performRollback P activeSourceVersion n1)"

definition recordSuccessfulReshare ::
  "('s, 'f) INodePersistence \<Rightarrow> int64 \<Rightarrow> ('s, 'f, 'z) heal_node_scheme \<Rightarrow> ('s, 'f, 'z) heal_node_scheme" where
  "recordSuccessfulReshare P agreedSrcVersion n =
     (let n1 = n\<lparr>n_abortTracker := recordSuccess (n_abortTracker n)\<rparr>;
          st = (load_or_fresh P n1)\<lparr>ConsecutiveMPKAborts := 0\<rparr>;
          st1 = (if agreedSrcVersion > 0 then st\<lparr>LastKnownGoodSourceVersion := agreedSrcVersion\<rparr> else st) in
      n1\<lparr>n_persistence := fst (pi_SaveNodeState P (n_persistence n1) (Some st1))\<rparr>)"

subsection \<open>The counter\<close>

text \<open>
  What happened to the tracker, newest event first: an abort of a round with its active and its
  majority source version, a validated round, a rollback to a version. \<open>streak a\<close> is the number
  of aborts on which the majority attempted \<open>a\<close>, since the last success, rollback or abort with
  another active version.
\<close>

datatype heal_event = Abort int64 int64 | Success | Rollback int64

primrec track :: "heal_event \<Rightarrow> abortTracker \<Rightarrow> abortTracker" where
  "track (Abort a m) t = fst (recordMPKAbort t a m)"
| "track Success t = recordSuccess t"
| "track (Rollback v) t = \<lparr>at_TrackedSourceVersion = v, at_ConsecutiveAborts = 0\<rparr>"

fun streak :: "int64 \<Rightarrow> heal_event list \<Rightarrow> int" where
  "streak a [] = 0"
| "streak a (Success # es) = 0"
| "streak a (Rollback v # es) = 0"
| "streak a (Abort b m # es) = (if b \<noteq> a then 0 else (if m = a then 1 else 0) + streak a es)"

definition tracker_after :: "heal_event list \<Rightarrow> abortTracker" where
  "tracker_after es = foldr track es \<lparr>at_TrackedSourceVersion = 0, at_ConsecutiveAborts = 0\<rparr>"

lemma tracker_streak:
  "(if at_TrackedSourceVersion (tracker_after es) = a then at_ConsecutiveAborts (tracker_after es) else 0) = streak a es"
proof (induction a es rule: streak.induct)
  case (4 a b m es)
  then show ?case by (auto simp: tracker_after_def recordMPKAbort_def Let_def)
qed (simp_all add: tracker_after_def recordSuccess_def)

text \<open>
  An abort demotes the active version exactly when the round's majority attempted it and it is
  at least the third such abort since the last success, rollback or change of the active version. In
  particular a node that has rolled back does not count the aborts of the others on the version they
  still hold.
\<close>

theorem demotion_exact:
  "snd (recordMPKAbort (tracker_after es) a m) \<longleftrightarrow> m = a \<and> streak a es \<ge> 2"
  using tracker_streak [of es a] by (auto simp: recordMPKAbort_def demotionThreshold_def Let_def split: if_splits)

subsection \<open>The rollback target\<close>

lemma find_first: "List.find Q xs = Some v \<Longrightarrow> \<exists>ys zs. xs = ys @ v # zs \<and> Q v \<and> (\<forall>y \<in> set ys. \<not> Q y)"
proof (induction xs)
  case (Cons x xs)
  show ?case
  proof (cases "Q x")
    case True
    with Cons.prems show ?thesis by (intro exI [of _ "[]"] exI [of _ xs]) simp
  next
    case False
    with Cons obtain ys zs where "xs = ys @ v # zs" "Q v" "\<forall>y \<in> set ys. \<not> Q y" by auto
    with False show ?thesis by (intro exI [of _ "x # ys"] exI [of _ zs]) simp
  qed
qed simp

lemma find_rev_sort:
  "case List.find Q (rev (sort xs)) of
     None \<Rightarrow> \<forall>v \<in> set xs. \<not> Q v
   | Some v \<Rightarrow> v \<in> set xs \<and> Q v \<and> (\<forall>w \<in> set xs. Q w \<longrightarrow> w \<le> v)" for xs :: "int list"
proof (cases "List.find Q (rev (sort xs))")
  case None
  then have "\<forall>v \<in> set xs. \<not> Q v" by (simp add: find_None_iff)
  with None show ?thesis by simp
next
  case (Some v)
  from find_first [OF Some] obtain ys zs where e: "rev (sort xs) = ys @ v # zs" "Q v" "\<forall>y \<in> set ys. \<not> Q y"
    by (elim exE conjE)
  have "sorted_wrt (\<ge>) (ys @ v # zs)" unfolding e(1) [symmetric] by (simp add: sorted_wrt_rev)
  moreover have "set xs = set (ys @ v # zs)" unfolding e(1) [symmetric] by simp
  ultimately show ?thesis using e(2,3) Some by (auto simp: sorted_wrt_append)
qed

lemma rollbackTarget_spec:
  "case rollbackTarget lkg pv vs isP of
     Some t \<Rightarrow> t < pv \<and> \<not> isP t \<and>
       (if 0 < lkg \<and> lkg < pv \<and> \<not> isP lkg then t = lkg
        else t \<in> set vs \<and> (\<forall>w \<in> set vs. w < pv \<and> \<not> isP w \<longrightarrow> w \<le> t))
   | None \<Rightarrow> \<not> (0 < lkg \<and> lkg < pv \<and> \<not> isP lkg) \<and> (\<forall>w \<in> set vs. pv \<le> w \<or> isP w)"
  using find_rev_sort [where Q = "\<lambda>v. v < pv \<and> \<not> isP v" and xs = vs]
  by (fastforce simp: rollbackTarget_def split: option.splits)

text \<open>
  The rollback target is below the poisoned version and not poisoned; it is the last-known-good
  version whenever that is usable and the highest usable persisted version otherwise; and there is no
  target only when neither exists.
\<close>

theorem rollbackTarget_correct:
  "case rollbackTarget lkg pv vs isP of
     Some t \<Rightarrow> t < pv \<and> \<not> isP t \<and>
       (if 0 < lkg \<and> lkg < pv \<and> \<not> isP lkg then t = lkg
        else t \<in> set vs \<and> (\<forall>w \<in> set vs. w < pv \<and> \<not> isP w \<longrightarrow> w \<le> t))
   | None \<Rightarrow> \<not> (0 < lkg \<and> lkg < pv \<and> \<not> isP lkg) \<and> (\<forall>w \<in> set vs. pv \<le> w \<or> isP w)"
  by (rule rollbackTarget_spec)

theorem rollbackTarget_correct_witness:
  "rollbackTarget 0 30 [10, 20, 30, 40] (\<lambda>v. v = 30) = Some 20 \<and>
   (case rollbackTarget 0 30 [10, 20, 30, 40] (\<lambda>v. v = 30) of
     Some t \<Rightarrow> t < 30 \<and> (\<forall>w \<in> set [10, 20, 30, 40]. w < 30 \<and> w \<noteq> 30 \<longrightarrow> w \<le> t)
   | None \<Rightarrow> False)"
  using rollbackTarget_correct [where lkg = 0 and pv = 30 and vs = "[10, 20, 30, 40]" and isP = "\<lambda>v. v = 30"]
  by (simp add: rollbackTarget_def)


subsection \<open>Rollback\<close>

lemma SetActiveVersionByTimestamp_ok:
  assumes "SetActiveVersionByTimestamp t ks = (ks', Inr u)"
  shows "\<exists>r \<in> set (keyVersions ks). Version (objs ks r) = t \<and> activeVersion ks' = Some r"
    "t \<notin> set (poisoned ks)" "keyVersions ks' = keyVersions ks" "poisoned ks' = poisoned ks"
    "Version (objs ks' r) = Version (objs ks r)" "PrivateShare (objs ks' r) = PrivateShare (objs ks r)"
  using assms
  by (auto simp: SetActiveVersionByTimestamp_def set_flag_def clear_active_def find_Some_iff
      split: if_splits option.splits)

lemma SetActiveVersionByTimestamp_fail:
  assumes "SetActiveVersionByTimestamp t ks = (ks', Inl e)"
  shows "t \<in> set (poisoned ks) \<or> (\<forall>r \<in> set (keyVersions ks). Version (objs ks r) \<noteq> t)"
  using assms by (auto simp: SetActiveVersionByTimestamp_def find_None_iff split: if_splits option.splits)

lemma persistAbortTracker_simps [simp]:
  "n_keyStore (persistAbortTracker P n) = n_keyStore n" "n_abortTracker (persistAbortTracker P n) = n_abortTracker n"
  "n_OperatorAddress (persistAbortTracker P n) = n_OperatorAddress n"
  by (simp_all add: persistAbortTracker_def)

lemma MarkPoisoned_simps [simp]:
  "keyVersions (MarkPoisoned v ks) = keyVersions ks" "objs (MarkPoisoned v ks) = objs ks"
  "activeVersion (MarkPoisoned v ks) = activeVersion ks" "set (poisoned (MarkPoisoned v ks)) = insert v (set (poisoned ks))"
  by (simp_all add: MarkPoisoned_def)

text \<open>The two ways a rollback can end: at the floor, or on a target.\<close>

lemma performRollback_cases:
  fixes n :: "('s, 'f, 'z) heal_node_scheme"
  obtains (floor) "performRollback P pv n = mark_poisoned P pv n"
      "\<And>vs t. pi_ListKeyShareVersions P (n_persistence (mark_poisoned P pv n)) = Inr vs \<Longrightarrow>
         rollbackTarget (last_known_good P (n_persistence (mark_poisoned P pv n))) pv (map Version vs)
           (IsPoisoned (MarkPoisoned pv (n_keyStore n))) = Some t \<Longrightarrow>
         t \<in> insert pv (set (poisoned (n_keyStore n))) \<or>
         (\<forall>r \<in> set (keyVersions (n_keyStore n)). Version (objs (n_keyStore n) r) \<noteq> t)"
    | (target) t ks vs where
      "pi_ListKeyShareVersions P (n_persistence (mark_poisoned P pv n)) = Inr vs"
      "rollbackTarget (last_known_good P (n_persistence (mark_poisoned P pv n))) pv (map Version vs)
         (IsPoisoned (MarkPoisoned pv (n_keyStore n))) = Some t"
      "SetActiveVersionByTimestamp t (MarkPoisoned pv (n_keyStore n)) = (ks, Inr ())"
      "performRollback P pv n = persistAbortTracker P ((mark_poisoned P pv n)\<lparr>n_keyStore := ks,
         n_persistence := fst (pi_SetActiveVersionTimestamp P (n_persistence (mark_poisoned P pv n)) t),
         n_abortTracker := \<lparr>at_TrackedSourceVersion = t, at_ConsecutiveAborts = 0\<rparr>\<rparr>)"
proof -
  let ?n1 = "mark_poisoned P pv n"
  note pr = performRollback_def [of P pv n, unfolded Let_def]
  have k: "n_keyStore ?n1 = MarkPoisoned pv (n_keyStore n)" by (simp add: mark_poisoned_def)
  show thesis
  proof (cases "pi_ListKeyShareVersions P (n_persistence ?n1)")
    case (Inl e)
    then show thesis by (intro floor) (simp_all add: pr)
  next
    case vs: (Inr vs)
    show thesis
    proof (cases "rollbackTarget (last_known_good P (n_persistence ?n1)) pv (map Version vs)
         (IsPoisoned (MarkPoisoned pv (n_keyStore n)))")
      case None
      with vs show thesis by (intro floor) (simp_all add: pr k)
    next
      case t: (Some t)
      obtain ks r where r: "SetActiveVersionByTimestamp t (MarkPoisoned pv (n_keyStore n)) = (ks, r)" by fastforce
      show thesis
      proof (cases r)
        case (Inl e)
        with vs t r SetActiveVersionByTimestamp_fail [of t "MarkPoisoned pv (n_keyStore n)" ks e]
        show thesis by (intro floor) (simp_all add: pr k)
      next
        case (Inr u)
        then show thesis using target [OF vs t] vs t r by (simp add: pr k)
      qed
    qed
  qed
qed

text \<open>
  C32. Whatever the persistence layer answers, errors included, a rollback poisons exactly the given
  version, keeps every stored share and its number, and leaves the active version alone or moves it
  to a stored version below the poisoned one that is not poisoned.
\<close>

theorem performRollback_safe:
  fixes n :: "('s, 'f, 'z) heal_node_scheme"
  shows "keyVersions (n_keyStore (performRollback P pv n)) = keyVersions (n_keyStore n) \<and>
    set (poisoned (n_keyStore (performRollback P pv n))) = insert pv (set (poisoned (n_keyStore n))) \<and>
    (\<forall>r. Version (objs (n_keyStore (performRollback P pv n)) r) = Version (objs (n_keyStore n) r) \<and>
         PrivateShare (objs (n_keyStore (performRollback P pv n)) r) = PrivateShare (objs (n_keyStore n) r)) \<and>
    (activeVersion (n_keyStore (performRollback P pv n)) = activeVersion (n_keyStore n) \<or>
     (\<exists>r \<in> set (keyVersions (n_keyStore n)). activeVersion (n_keyStore (performRollback P pv n)) = Some r \<and>
        Version (objs (n_keyStore n) r) < pv \<and>
        \<not> IsPoisoned (n_keyStore (performRollback P pv n)) (Version (objs (n_keyStore n) r))))"
proof (cases P pv n rule: performRollback_cases)
  case floor
  then show ?thesis by (simp add: mark_poisoned_def)
next
  case (target t ks vs)
  have "t < pv" "t \<notin> set (poisoned (n_keyStore n))"
    using rollbackTarget_spec [where lkg = "last_known_good P (n_persistence (mark_poisoned P pv n))" and pv = pv
        and vs = "map Version vs" and isP = "IsPoisoned (MarkPoisoned pv (n_keyStore n))"] target(2)
    by (auto simp: IsPoisoned_def split: if_splits)
  with target(4) SetActiveVersionByTimestamp_ok [OF target(3)] show ?thesis by (auto simp: IsPoisoned_def)
qed

text \<open>A node with two versions in memory and on disk, the newer one active and failing.\<close>

definition mock_node :: "(gf MemoryPersistence, gf) heal_node" where
  "mock_node =
     \<lparr>n_OperatorAddress = ''0x01'', n_keyStore = mock_store,
      n_persistence = run_writes memory_persistence
        [SaveKey (mock_version 10 True), SaveKey (mock_version 20 True), SetActive 20] NewMemoryPersistence,
      n_abortTracker = \<lparr>at_TrackedSourceVersion = 20, at_ConsecutiveAborts = 2\<rparr>\<rparr>"

lemmas mock_node_defs = mock_node_def mock_store_defs run_writes_def memory_persistence_def mem_defs
  NewMemoryPersistence_def performRollback_def mark_poisoned_def last_known_good_def persistAbortTracker_def
  load_or_fresh_def rollbackTarget_def IsPoisoned_def NodeState_zero_def onMPKValidationAbort_def
  recordMPKAbort_def demotionThreshold_def

lemma mock_rollback:
  "activeVersion (n_keyStore (performRollback memory_persistence 20 mock_node)) = Some 0"
  by (simp add: mock_node_defs)

theorem performRollback_safe_witness:
  "activeVersion (n_keyStore mock_node) = Some 1 \<and>
   (\<exists>r \<in> set (keyVersions (n_keyStore mock_node)).
      activeVersion (n_keyStore (performRollback memory_persistence 20 mock_node)) = Some r \<and>
      Version (objs (n_keyStore mock_node) r) < 20 \<and>
      \<not> IsPoisoned (n_keyStore (performRollback memory_persistence 20 mock_node)) (Version (objs (n_keyStore mock_node) r)))"
proof -
  have "activeVersion (n_keyStore mock_node) = Some 1" by (simp add: mock_node_defs)
  with performRollback_safe [of memory_persistence 20 mock_node] mock_rollback show ?thesis by auto
qed

subsection \<open>Rollback on a persistence layer that meets its contract\<close>

text \<open>
  \<open>heal_ready\<close>: the layer is open, every stored version has an \<open>int64\<close> number and is held by
  the keystore, a positive last-known-good version is held by the keystore too, and a stored node
  state names its operator.
\<close>

definition heal_ready :: "('s \<Rightarrow> bool) \<Rightarrow> ('s \<Rightarrow> 'f pstore) \<Rightarrow> ('s, 'f, 'z) heal_node_scheme \<Rightarrow> bool" where
  "heal_ready valid absf n \<longleftrightarrow>
     valid (n_persistence n) \<and> \<not> p_closed (absf (n_persistence n)) \<and> n_OperatorAddress n \<noteq> [] \<and>
     (\<forall>v k. p_keys (absf (n_persistence n)) v = Some k \<longrightarrow> int64_range v \<and> Version k = v \<and>
        (\<exists>r \<in> set (keyVersions (n_keyStore n)). Version (objs (n_keyStore n) r) = v)) \<and>
     (\<forall>st. p_node (absf (n_persistence n)) = Some st \<longrightarrow> ns_OperatorAddress st \<noteq> [] \<and>
        (LastKnownGoodSourceVersion st > 0 \<longrightarrow>
          (\<exists>r \<in> set (keyVersions (n_keyStore n)). Version (objs (n_keyStore n) r) = LastKnownGoodSourceVersion st)))"

lemma heal_readyD:
  assumes "heal_ready valid absf n" "p_keys (absf (n_persistence n)) v = Some k"
  shows "int64_range v" "Version k = v" "\<exists>r \<in> set (keyVersions (n_keyStore n)). Version (objs (n_keyStore n) r) = v"
  using assms by (simp_all add: heal_ready_def)

text \<open>The node state with the tracker's two fields replaced.\<close>

definition tracked :: "string \<Rightarrow> abortTracker \<Rightarrow> NodeState option \<Rightarrow> NodeState" where
  "tracked addr t st =
     (case st of None \<Rightarrow> NodeState_zero\<lparr>ns_OperatorAddress := addr\<rparr> | Some s \<Rightarrow> s)
       \<lparr>TrackedSourceVersion := at_TrackedSourceVersion t, ConsecutiveMPKAborts := at_ConsecutiveAborts t\<rparr>"

lemma tracked_tracked [simp]: "tracked addr t (Some (tracked addr t' st)) = tracked addr t st"
  by (simp add: tracked_def split: option.splits)

context node_persistence
begin

lemma persistAbortTracker_effect:
  assumes "heal_ready valid absf n"
  shows "heal_ready valid absf (persistAbortTracker P n)"
    "absf (n_persistence (persistAbortTracker P n)) = (absf (n_persistence n))
       \<lparr>p_node := Some (tracked (n_OperatorAddress n) (n_abortTracker n) (p_node (absf (n_persistence n))))\<rparr>"
proof -
  let ?s = "n_persistence n"
  let ?st = "tracked (n_OperatorAddress n) (n_abortTracker n) (p_node (absf ?s))"
  have v: "valid ?s" "\<not> p_closed (absf ?s)" using assms by (simp_all add: heal_ready_def)
  have st: "(load_or_fresh P n)\<lparr>TrackedSourceVersion := at_TrackedSourceVersion (n_abortTracker n),
         ConsecutiveMPKAborts := at_ConsecutiveAborts (n_abortTracker n)\<rparr> = ?st"
    using load_node [OF v] by (simp add: load_or_fresh_def tracked_def split: option.splits)
  have a: "ns_OperatorAddress ?st \<noteq> []"
    using assms by (auto simp: heal_ready_def tracked_def split: option.splits)
  have w: "valid (fst (pi_SaveNodeState P ?s (Some ?st)))"
    "absf (fst (pi_SaveNodeState P ?s (Some ?st))) = (absf ?s)\<lparr>p_node := Some ?st\<rparr>"
    using save_node [OF v disjI1 [OF a]] by (simp_all add: writes_def)
  then show "absf (n_persistence (persistAbortTracker P n)) = (absf ?s)\<lparr>p_node := Some ?st\<rparr>"
    by (simp add: persistAbortTracker_def st)
  have "LastKnownGoodSourceVersion ?st > 0 \<longrightarrow>
      (\<exists>r \<in> set (keyVersions (n_keyStore n)). Version (objs (n_keyStore n) r) = LastKnownGoodSourceVersion ?st)"
    using assms by (auto simp: heal_ready_def tracked_def NodeState_zero_def split: option.splits)
  with w a assms show "heal_ready valid absf (persistAbortTracker P n)"
    by (simp add: persistAbortTracker_def st heal_ready_def)
qed

lemma mark_poisoned_effect:
  assumes "heal_ready valid absf n" "int64_range pv"
  shows "heal_ready valid absf (mark_poisoned P pv n)"
    "absf (n_persistence (mark_poisoned P pv n)) = (absf (n_persistence n))
       \<lparr>p_poisoned := insert pv (p_poisoned (absf (n_persistence n)))\<rparr>"
  using assms add_poisoned [of "n_persistence n" pv]
  by (simp_all add: heal_ready_def mark_poisoned_def writes_def)

text \<open>
  If some stored version below the poisoned one is not poisoned, the rollback does not stop at the
  floor, and memory and disk agree afterwards.
\<close>

lemma performRollback_heals:
  assumes ready: "heal_ready valid absf n" and pv: "int64_range pv"
    and cand: "p_keys (absf (n_persistence n)) v = Some k" "v < pv" "\<not> IsPoisoned (n_keyStore n) v"
  shows "\<exists>r \<in> set (keyVersions (n_keyStore n)). \<exists>t.
     activeVersion (n_keyStore (performRollback P pv n)) = Some r \<and> Version (objs (n_keyStore n) r) = t \<and>
     t < pv \<and> \<not> IsPoisoned (n_keyStore n) t \<and> valid (n_persistence (performRollback P pv n)) \<and>
     n_abortTracker (performRollback P pv n) = \<lparr>at_TrackedSourceVersion = t, at_ConsecutiveAborts = 0\<rparr> \<and>
     absf (n_persistence (performRollback P pv n)) = (absf (n_persistence n))
       \<lparr>p_poisoned := insert pv (p_poisoned (absf (n_persistence n))), p_active := t,
        p_node := Some (tracked (n_OperatorAddress n) \<lparr>at_TrackedSourceVersion = t, at_ConsecutiveAborts = 0\<rparr>
          (p_node (absf (n_persistence n))))\<rparr>"
proof -
  let ?n1 = "mark_poisoned P pv n"
  let ?isP = "IsPoisoned (MarkPoisoned pv (n_keyStore n))"
  let ?lkg = "last_known_good P (n_persistence ?n1)"
  note m = mark_poisoned_effect [OF ready pv]
  have o: "valid (n_persistence ?n1)" "\<not> p_closed (absf (n_persistence ?n1))"
    using m(1) by (simp_all add: heal_ready_def)
  obtain vs where vs: "pi_ListKeyShareVersions P (n_persistence ?n1) = Inr vs"
    "\<And>k. k \<in> set vs \<longleftrightarrow> p_keys (absf (n_persistence n)) (Version k) = Some k"
    using list_keys [OF o] m(2) by auto
  have stored: "\<exists>r \<in> set (keyVersions (n_keyStore n)). Version (objs (n_keyStore n) r) = t" "int64_range t"
    if mem: "t \<in> Version ` set vs" for t
  proof -
    from mem obtain k' where k': "t = Version k'" "k' \<in> set vs" by (elim imageE)
    then have "p_keys (absf (n_persistence n)) t = Some k'" by (simp only: vs(2))
    from heal_readyD [OF ready this]
    show "\<exists>r \<in> set (keyVersions (n_keyStore n)). Version (objs (n_keyStore n) r) = t" "int64_range t" by simp_all
  qed
  have lkg: "\<exists>r \<in> set (keyVersions (n_keyStore n)). Version (objs (n_keyStore n) r) = ?lkg" if "0 < ?lkg"
    using that load_node [OF o] m(2) ready by (auto simp: last_known_good_def heal_ready_def split: option.splits)
  have "Version k = v" using heal_readyD [OF ready cand(1)] by simp
  then have "k \<in> set vs" using cand(1) by (simp only: vs(2))
  with \<open>Version k = v\<close> have "v \<in> Version ` set vs" by (intro image_eqI [of _ _ k]) simp_all
  then obtain t where t: "rollbackTarget ?lkg pv (map Version vs) ?isP = Some t"
    using rollbackTarget_spec [where lkg = ?lkg and pv = pv and vs = "map Version vs" and isP = ?isP] cand(2,3)
    by (cases "rollbackTarget ?lkg pv (map Version vs) ?isP") (auto simp: IsPoisoned_def)
  then have tp: "t < pv" "\<not> ?isP t" "0 < ?lkg \<and> t = ?lkg \<or> t \<in> Version ` set vs"
    using rollbackTarget_spec [where lkg = ?lkg and pv = pv and vs = "map Version vs" and isP = ?isP]
    by (auto split: if_splits)
  then have held: "\<exists>r \<in> set (keyVersions (n_keyStore n)). Version (objs (n_keyStore n) r) = t" "int64_range t"
    using stored lkg pv by (auto simp: int64_range_def)
  show ?thesis
  proof (cases P pv n rule: performRollback_cases)
    case floor
    then show ?thesis using floor(2) [OF vs(1) t] tp held(1) by (auto simp: IsPoisoned_def)
  next
    case (target t' ks vs')
    then have [simp]: "t' = t" using vs(1) t by simp
    note sa = SetActiveVersionByTimestamp_ok [OF target(3)]
    let ?s2 = "fst (pi_SetActiveVersionTimestamp P (n_persistence ?n1) t)"
    let ?n2 = "?n1\<lparr>n_keyStore := ks, n_persistence := ?s2,
        n_abortTracker := \<lparr>at_TrackedSourceVersion = t, at_ConsecutiveAborts = 0\<rparr>\<rparr>"
    have w: "valid ?s2" "absf ?s2 = (absf (n_persistence ?n1))\<lparr>p_active := t\<rparr>"
      using set_active [OF o held(2)] by (simp_all add: writes_def)
    have "heal_ready valid absf ?n2"
      using m(1) w sa(3,5) by (simp add: heal_ready_def mark_poisoned_def)
    note p = persistAbortTracker_effect [OF this]
    have "valid (n_persistence (performRollback P pv n))" using p(1) target(4) by (simp add: heal_ready_def)
    moreover from p(2) w(2) m(2)
    have "absf (n_persistence (performRollback P pv n)) = (absf (n_persistence n))
       \<lparr>p_poisoned := insert pv (p_poisoned (absf (n_persistence n))), p_active := t,
        p_node := Some (tracked (n_OperatorAddress n) \<lparr>at_TrackedSourceVersion = t, at_ConsecutiveAborts = 0\<rparr>
          (p_node (absf (n_persistence n))))\<rparr>"
      using target(4) by (simp add: mark_poisoned_def)
    ultimately show ?thesis using sa(1) target(4) tp(1,2) by (auto simp: IsPoisoned_def)
  qed
qed

text \<open>The abort that reaches the threshold.\<close>

lemma onMPKValidationAbort_heals:
  assumes ready: "heal_ready valid absf n" and a: "int64_range a"
    and streak: "n_abortTracker n = tracker_after es" "streak a es \<ge> 2"
    and cand: "p_keys (absf (n_persistence n)) v = Some k" "v < a" "\<not> IsPoisoned (n_keyStore n) v"
  shows "\<exists>r \<in> set (keyVersions (n_keyStore n)). \<exists>t.
     activeVersion (n_keyStore (onMPKValidationAbort P a a n)) = Some r \<and> Version (objs (n_keyStore n) r) = t \<and>
     t < a \<and> \<not> IsPoisoned (n_keyStore n) t \<and> valid (n_persistence (onMPKValidationAbort P a a n)) \<and>
     absf (n_persistence (onMPKValidationAbort P a a n)) = (absf (n_persistence n))
       \<lparr>p_poisoned := insert a (p_poisoned (absf (n_persistence n))), p_active := t,
        p_node := Some (tracked (n_OperatorAddress n) \<lparr>at_TrackedSourceVersion = t, at_ConsecutiveAborts = 0\<rparr>
          (p_node (absf (n_persistence n))))\<rparr>"
proof -
  obtain t d where t: "recordMPKAbort (n_abortTracker n) a a = (t, d)" by fastforce
  have d: "d" using tracker_streak [of es a] streak t
    by (auto simp: recordMPKAbort_def demotionThreshold_def Let_def split: if_splits)
  let ?n0 = "n\<lparr>n_abortTracker := t\<rparr>"
  have r0: "heal_ready valid absf ?n0" using ready by (simp add: heal_ready_def)
  note p = persistAbortTracker_effect [OF r0]
  have "p_keys (absf (n_persistence (persistAbortTracker P ?n0))) v = Some k" using p(2) cand(1) by simp
  from performRollback_heals [OF p(1) a this cand(2)] cand(3) p(2) show ?thesis
    by (auto simp: onMPKValidationAbort_def t d)
qed

end

text \<open>
  C22. The node heals itself on the durable store: when the active version \<open>a\<close> has gathered two
  majority-gated aborts and a usable older version is stored, the next such abort moves the active
  version, in the keystore and on disk, to a version that is older than \<open>a\<close> and not poisoned;
  \<open>a\<close> is recorded as poisoned, the counter starts again for the new version, and the recorded
  last-known-good version and processed boundary are kept.
\<close>

theorem third_abort_heals:
  assumes ready: "heal_ready (bp_valid K J view) (bp_abs J view) n" and a: "int64_range a"
    and streak: "n_abortTracker n = tracker_after es" "streak a es \<ge> 2"
    and cand: "int64_range v" "bp_LoadKeyShareVersion K J (n_persistence n) v = Inr (Some k)" "v < a"
      "\<not> IsPoisoned (n_keyStore n) v"
    and n': "n' = onMPKValidationAbort (badger_persistence K J) a a n"
    and old: "bp_LoadNodeState K J (n_persistence n) = Inr (Some st)"
  shows "\<exists>r \<in> set (keyVersions (n_keyStore n)). \<exists>t. \<exists>vs.
     activeVersion (n_keyStore n') = Some r \<and> Version (objs (n_keyStore n) r) = t \<and>
     t < a \<and> \<not> IsPoisoned (n_keyStore n) t \<and>
     bp_GetActiveVersionTimestamp K (n_persistence n') = Inr t \<and>
     bp_ListPoisonedVersions K (n_persistence n') = Inr vs \<and> a \<in> set vs \<and>
     bp_LoadNodeState K J (n_persistence n') = Inr (Some (st\<lparr>TrackedSourceVersion := t, ConsecutiveMPKAborts := 0\<rparr>))"
proof -
  let ?A = "bp_abs J view"
  have v: "bp_valid K J view (n_persistence n)" "\<not> bp_closed (n_persistence n)"
    using ready by (simp_all add: heal_ready_def)
  have k: "p_keys (?A (n_persistence n)) v = Some k" using badger.load_key [OF v(1) _ cand(1)] v(2) cand(2) by simp
  have st: "p_node (?A (n_persistence n)) = Some st" using badger.load_node [OF v(1)] v(2) old by simp
  obtain r t where r: "r \<in> set (keyVersions (n_keyStore n))" "activeVersion (n_keyStore n') = Some r"
    "Version (objs (n_keyStore n) r) = t" "t < a" "\<not> IsPoisoned (n_keyStore n) t" "bp_valid K J view (n_persistence n')"
    "?A (n_persistence n') = (?A (n_persistence n))
       \<lparr>p_poisoned := insert a (p_poisoned (?A (n_persistence n))), p_active := t,
        p_node := Some (tracked (n_OperatorAddress n) \<lparr>at_TrackedSourceVersion = t, at_ConsecutiveAborts = 0\<rparr> (Some st))\<rparr>"
    using badger.onMPKValidationAbort_heals [OF ready a streak k cand(3,4)] st n' by auto
  have o: "\<not> bp_closed (n_persistence n')" using arg_cong [OF r(7), of p_closed] v(2) by simp
  obtain vs where vs: "bp_ListPoisonedVersions K (n_persistence n') = Inr vs" "set vs = p_poisoned (?A (n_persistence n'))"
    using bp_list_poisoned [OF r(6) o] by blast
  have "bp_LoadNodeState K J (n_persistence n') = Inr (Some (st\<lparr>TrackedSourceVersion := t, ConsecutiveMPKAborts := 0\<rparr>))"
    using badger.load_node [OF r(6)] o v(2) r(7) by (simp add: tracked_def)
  with r vs bp_get_active [OF r(6) o] show ?thesis by (intro bexI [OF _ r(1)] exI [of _ t] exI [of _ vs]) simp
qed

text \<open>The same node as before, on the concrete durable store.\<close>

definition mock_badger_node :: "(mock_db BadgerPersistence, gf) heal_node" where
  "mock_badger_node =
     \<lparr>n_OperatorAddress = ''0x01'', n_keyStore = mock_store,
      n_persistence = run_writes (badger_persistence mock_kv mock_json)
        [SaveKey (mock_version 10 True), SaveKey (mock_version 20 True), SetActive 20,
         SaveNode (NodeState_zero\<lparr>ns_OperatorAddress := ''0x01'', LastProcessedBoundary := 5\<rparr>)] mock_badger,
      n_abortTracker = tracker_after [Abort 20 20, Abort 20 20]\<rparr>"

lemma mock_badger_node_abs:
  "bp_valid mock_kv mock_json gm_get (n_persistence mock_badger_node)"
  "\<not> p_closed (bp_abs mock_json gm_get (n_persistence mock_badger_node))"
  "bp_abs mock_json gm_get (n_persistence mock_badger_node) =
     empty_pstore\<lparr>p_keys := [10 \<mapsto> mock_version 10 True, 20 \<mapsto> mock_version 20 True], p_active := 20,
       p_node := Some (NodeState_zero\<lparr>ns_OperatorAddress := ''0x01'', LastProcessedBoundary := 5\<rparr>)\<rparr>"
proof -
  have new: "bp_abs mock_json gm_get mock_badger = empty_pstore"
    using NewBadgerPersistence_fresh [OF mock_kv_laws mock_json_laws, of "[]"]
    by (simp add: NewBadgerPersistence_def initSchema_def mock_kv_def bp_update_def mock_badger_def)
  have "\<not> p_closed (bp_abs mock_json gm_get mock_badger)" by (simp add: mock_badger_def)
  from badger.run_writes_effect [OF mock_badger_valid this, of "[SaveKey (mock_version 10 True), SaveKey (mock_version 20 True),
      SetActive 20, SaveNode (NodeState_zero\<lparr>ns_OperatorAddress := ''0x01'', LastProcessedBoundary := 5\<rparr>)]"]
  show "bp_valid mock_kv mock_json gm_get (n_persistence mock_badger_node)"
    "\<not> p_closed (bp_abs mock_json gm_get (n_persistence mock_badger_node))"
    "bp_abs mock_json gm_get (n_persistence mock_badger_node) =
     empty_pstore\<lparr>p_keys := [10 \<mapsto> mock_version 10 True, 20 \<mapsto> mock_version 20 True], p_active := 20,
       p_node := Some (NodeState_zero\<lparr>ns_OperatorAddress := ''0x01'', LastProcessedBoundary := 5\<rparr>)\<rparr>"
    by (simp_all add: mock_badger_node_def new int64_range_def mock_version_def empty_pstore_def)
qed

theorem third_abort_heals_witness:
  "\<exists>t vs. t < 20 \<and>
     bp_GetActiveVersionTimestamp mock_kv
       (n_persistence (onMPKValidationAbort (badger_persistence mock_kv mock_json) 20 20 mock_badger_node)) = Inr t \<and>
     bp_ListPoisonedVersions mock_kv
       (n_persistence (onMPKValidationAbort (badger_persistence mock_kv mock_json) 20 20 mock_badger_node)) = Inr vs \<and>
     20 \<in> set vs"
proof -
  note m = mock_badger_node_abs
  have ks: "n_keyStore mock_badger_node = mock_store" "n_OperatorAddress mock_badger_node = ''0x01''"
    "n_abortTracker mock_badger_node = tracker_after [Abort 20 20, Abort 20 20]"
    by (simp_all add: mock_badger_node_def)
  have ready: "heal_ready (bp_valid mock_kv mock_json gm_get) (bp_abs mock_json gm_get) mock_badger_node"
    using m(1,2) unfolding heal_ready_def m(3) ks
    by (simp add: NodeState_zero_def int64_range_def mock_store_defs)
  have load: "bp_LoadKeyShareVersion mock_kv mock_json (n_persistence mock_badger_node) 10 = Inr (Some (mock_version 10 True))"
    using badger.load_key [OF m(1,2), of 10] unfolding m(3) by (simp add: int64_range_def)
  have node: "bp_LoadNodeState mock_kv mock_json (n_persistence mock_badger_node) =
      Inr (Some (NodeState_zero\<lparr>ns_OperatorAddress := ''0x01'', LastProcessedBoundary := 5\<rparr>))"
    using badger.load_node [OF m(1,2)] unfolding m(3) by simp
  have "\<not> IsPoisoned (n_keyStore mock_badger_node) 10" by (simp add: ks IsPoisoned_def mock_store_defs)
  from third_abort_heals [OF ready _ ks(3) _ _ load _ this refl node, of 20]
  show ?thesis by (auto simp: int64_range_def)
qed

end
