(* ===== verification/Redis_Persistence.thy ===== *)
theory Redis_Persistence
  imports Badger_Persistence Memory_Persistence
begin

text \<open>
  \<open>pkg/persistence/redis/redis.go\<close>: the implementation of \<open>INodePersistence\<close> on a redis server, and
  its interpretation as a \<open>node_persistence\<close>. The server is the record \<open>redislib\<close> over a connection
  \<open>'d\<close>: single reads, and \<open>Exec\<close> of a pipeline of commands, which may stop in the middle; a reply
  that is an error is \<open>None\<close>. The well-formedness of a database and its meaning are those of the
  badger store, read through \<open>rview\<close>: every record has badger's key behind the configured prefix and
  \<open>kms:\<close>, except that a set holds the poisoned versions; two more sets index the records for listing.
\<close>

datatype redis_cmd = RSet string bytes | RDel string | RSAdd string string | RSRem string string

record 'd redislib =
  rd_Ping :: "'d \<Rightarrow> bool"
  rd_Get :: "'d \<Rightarrow> string \<Rightarrow> bytes option option"
  rd_Exec :: "'d \<Rightarrow> redis_cmd list \<Rightarrow> 'd \<times> bool"
  rd_SMembers :: "'d \<Rightarrow> string \<Rightarrow> string list option"
  rd_MGet :: "'d \<Rightarrow> string list \<Rightarrow> bytes option list option"
  rd_Close :: "'d \<Rightarrow> bool"

record redis_RedisConfig =
  rd_Address :: string
  rd_Password :: string
  rd_DB :: int
  rd_KeyPrefix :: string

record 'd RedisPersistence =
  rp_client :: 'd
  rp_keyPrefix :: string
  rp_closed :: bool

definition redis_keyPrefixKeyShare :: string where "redis_keyPrefixKeyShare = ''kms:keyshare:''"
definition redis_keyPrefixActiveVersion :: string where "redis_keyPrefixActiveVersion = ''kms:active:version''"
definition redis_keyPrefixNodeState :: string where "redis_keyPrefixNodeState = ''kms:nodestate:main''"
definition redis_keyPrefixSession :: string where "redis_keyPrefixSession = ''kms:session:''"
definition redis_keyPrefixBlockRecord :: string where "redis_keyPrefixBlockRecord = ''kms:blockRecord:''"
definition redis_keyPrefixLastBlock :: string where "redis_keyPrefixLastBlock = ''kms:lastBlock:''"
definition redis_keySchemaVersion :: string where "redis_keySchemaVersion = ''kms:metadata:schema_version''"
definition redis_currentSchemaVersion :: string where "redis_currentSchemaVersion = ''v1''"
definition keySetKeyShares :: string where "keySetKeyShares = ''kms:keyshares:index''"
definition keySetSessions :: string where "keySetSessions = ''kms:sessions:index''"
definition redis_keyPrefixPoisoned :: string where "redis_keyPrefixPoisoned = ''kms:poisoned''"

definition prefixKey :: "'d RedisPersistence \<Rightarrow> string \<Rightarrow> string" where
  "prefixKey r key = (if rp_keyPrefix r = '''' then key else rp_keyPrefix r @ key)"

definition redis_schema_bytes :: bytes where
  "redis_schema_bytes = map (\<lambda>c. of_nat (of_char c)) redis_currentSchemaVersion"

text \<open>A pipeline, or one command: what was executed stays executed when there is an error.\<close>

definition rp_exec ::
  "'d redislib \<Rightarrow> string \<Rightarrow> 'd RedisPersistence \<Rightarrow> redis_cmd list \<Rightarrow> 'd RedisPersistence \<times> unit res" where
  "rp_exec K msg r cmds =
     (case rd_Exec K (rp_client r) cmds of
        (d, good) \<Rightarrow> (r\<lparr>rp_client := d\<rparr>, if good then Inr () else Inl (Errorf msg)))"

definition rp_initSchema :: "'d redislib \<Rightarrow> 'd RedisPersistence \<Rightarrow> 'd RedisPersistence \<times> unit res" where
  "rp_initSchema K r =
     (case rd_Get K (rp_client r) (prefixKey r redis_keySchemaVersion) of
        None \<Rightarrow> (r, Inl (Errorf ''failed to read schema version''))
      | Some None \<Rightarrow> rp_exec K ''Set'' r [RSet (prefixKey r redis_keySchemaVersion) redis_schema_bytes]
      | Some (Some v) \<Rightarrow>
          if v \<noteq> redis_schema_bytes
          then (r, Inl (Errorf ''unsupported schema version'')) else (r, Inr ()))"

text \<open>\<open>dial\<close> is \<open>redis.NewClient\<close> on the address, password and database of the configuration.\<close>

definition NewRedisPersistence ::
  "'d redislib \<Rightarrow> (redis_RedisConfig \<Rightarrow> 'd) \<Rightarrow> redis_RedisConfig option \<Rightarrow> 'd RedisPersistence res" where
  "NewRedisPersistence K dial cfg =
     (case cfg of
        None \<Rightarrow> Inl (Errorf ''redis config cannot be nil'')
      | Some c \<Rightarrow>
          if rd_Address c = '''' then Inl (Errorf ''redis address cannot be empty'')
          else if \<not> rd_Ping K (dial c) then Inl (Errorf ''failed to connect to Redis'')
          else (case rp_initSchema K \<lparr>rp_client = dial c, rp_keyPrefix = rd_KeyPrefix c, rp_closed = False\<rparr> of
                  (_, Inl e) \<Rightarrow> Inl (Wrapf ''failed to initialize schema'' e)
                | (r, Inr _) \<Rightarrow> Inr r))"

definition rp_load ::
  "'d redislib \<Rightarrow> 'd RedisPersistence \<Rightarrow> string \<Rightarrow> (bytes \<Rightarrow> 'a option option) \<Rightarrow> 'a option res" where
  "rp_load K r key unjson =
     bind_res (wrap_err ''failed to load'' (lib_res ''Get'' (rd_Get K (rp_client r) key))) (\<lambda>data.
     case data of
       None \<Rightarrow> Inr None
     | Some bs \<Rightarrow>
         bind_res (wrap_err ''failed to unmarshal'' (lib_res ''Unmarshal'' (unjson bs))) (\<lambda>v.
         case v of None \<Rightarrow> Inl (Errorf ''stored value is a JSON null'') | Some x \<Rightarrow> Inr (Some x)))"

text \<open>
  The loop of the listings over the members of an index and the values stored for them: a member
  without a value is taken out of the index (an error is ignored), a value that does not decode or is
  null is skipped.
\<close>

primrec rp_parse ::
  "'d redislib \<Rightarrow> string \<Rightarrow> (bytes \<Rightarrow> 'a option option) \<Rightarrow> (string \<times> bytes option) list \<Rightarrow> 'd \<Rightarrow> 'd \<times> 'a list" where
  "rp_parse K indexKey unjson [] d = (d, [])"
| "rp_parse K indexKey unjson (mv # items) d =
     (case mv of
        (member, None) \<Rightarrow> rp_parse K indexKey unjson items (fst (rd_Exec K d [RSRem indexKey member]))
      | (_, Some data) \<Rightarrow>
          (case unjson data of
             Some (Some x) \<Rightarrow> (case rp_parse K indexKey unjson items d of (d', xs) \<Rightarrow> (d', x # xs))
           | _ \<Rightarrow> rp_parse K indexKey unjson items d))"

definition rp_list ::
  "'d redislib \<Rightarrow> 'd RedisPersistence \<Rightarrow> string \<Rightarrow> string \<Rightarrow> (bytes \<Rightarrow> 'a option option) \<Rightarrow>
   'd RedisPersistence \<times> 'a list res" where
  "rp_list K r indexKey pre unjson =
     (case rd_SMembers K (rp_client r) indexKey of
        None \<Rightarrow> (r, Inl (Errorf ''failed to list''))
      | Some [] \<Rightarrow> (r, Inr [])
      | Some members \<Rightarrow>
          (case rd_MGet K (rp_client r) (map (\<lambda>member. prefixKey r (pre @ member)) members) of
             None \<Rightarrow> (r, Inl (Errorf ''failed to fetch''))
           | Some values \<Rightarrow>
               (case rp_parse K indexKey unjson (zip members values) (rp_client r) of
                  (d, xs) \<Rightarrow> (r\<lparr>rp_client := d\<rparr>, Inr xs))))"

subsection \<open>The methods\<close>

definition rp_SaveKeyShareVersion ::
  "'d redislib \<Rightarrow> 'f jsonlib \<Rightarrow> 'd RedisPersistence \<Rightarrow> 'f KeyShareVersion option \<Rightarrow> 'd RedisPersistence \<times> unit res" where
  "rp_SaveKeyShareVersion K J r version =
     (case version of
        None \<Rightarrow> (r, Inl (Errorf ''cannot save nil KeyShareVersion''))
      | Some v \<Rightarrow>
          if rp_closed r then (r, bp_closed_err)
          else (case json_ksv J v of
                  None \<Rightarrow> (r, Inl (Errorf ''failed to marshal KeyShareVersion''))
                | Some data \<Rightarrow>
                    rp_exec K ''failed to save KeyShareVersion'' r
                      [RSet (prefixKey r (redis_keyPrefixKeyShare @ show_int (Version v))) data,
                       RSAdd (prefixKey r keySetKeyShares) (show_int (Version v))]))"

definition rp_LoadKeyShareVersion ::
  "'d redislib \<Rightarrow> 'f jsonlib \<Rightarrow> 'd RedisPersistence \<Rightarrow> int64 \<Rightarrow> 'f KeyShareVersion option res" where
  "rp_LoadKeyShareVersion K J r timestamp =
     (if rp_closed r then bp_closed_err
      else rp_load K r (prefixKey r (redis_keyPrefixKeyShare @ show_int timestamp)) (unjson_ksv J))"

definition rp_ListKeyShareVersions ::
  "'d redislib \<Rightarrow> 'f jsonlib \<Rightarrow> 'd RedisPersistence \<Rightarrow> 'd RedisPersistence \<times> 'f KeyShareVersion list res" where
  "rp_ListKeyShareVersions K J r =
     (if rp_closed r then (r, bp_closed_err)
      else case rp_list K r (prefixKey r keySetKeyShares) redis_keyPrefixKeyShare (unjson_ksv J) of
             (r', Inl e) \<Rightarrow> (r', Inl e)
           | (r', Inr versions) \<Rightarrow> (r', Inr (sort_key Version versions)))"

definition rp_DeleteKeyShareVersion ::
  "'d redislib \<Rightarrow> 'd RedisPersistence \<Rightarrow> int64 \<Rightarrow> 'd RedisPersistence \<times> unit res" where
  "rp_DeleteKeyShareVersion K r timestamp =
     (if rp_closed r then (r, bp_closed_err)
      else rp_exec K ''Exec'' r
             [RDel (prefixKey r (redis_keyPrefixKeyShare @ show_int timestamp)),
              RSRem (prefixKey r keySetKeyShares) (show_int timestamp)])"

definition rp_AddPoisonedVersion ::
  "'d redislib \<Rightarrow> 'd RedisPersistence \<Rightarrow> int64 \<Rightarrow> 'd RedisPersistence \<times> unit res" where
  "rp_AddPoisonedVersion K r version =
     (if rp_closed r then (r, bp_closed_err)
      else rp_exec K ''SAdd'' r [RSAdd (prefixKey r redis_keyPrefixPoisoned) (show_int version)])"

definition rp_ListPoisonedVersions :: "'d redislib \<Rightarrow> 'd RedisPersistence \<Rightarrow> int64 list res" where
  "rp_ListPoisonedVersions K r =
     (if rp_closed r then bp_closed_err
      else bind_res (wrap_err ''failed to list poisoned versions'' (lib_res ''SMembers''
             (rd_SMembers K (rp_client r) (prefixKey r redis_keyPrefixPoisoned)))) (\<lambda>vals.
           Inr (List.map_filter parse_int64 vals)))"

definition rp_SetActiveVersionTimestamp ::
  "'d redislib \<Rightarrow> 'd RedisPersistence \<Rightarrow> int64 \<Rightarrow> 'd RedisPersistence \<times> unit res" where
  "rp_SetActiveVersionTimestamp K r timestamp =
     (if rp_closed r then (r, bp_closed_err)
      else rp_exec K ''Set'' r [RSet (prefixKey r redis_keyPrefixActiveVersion) (put_uint64 timestamp)])"

definition rp_GetActiveVersionTimestamp :: "'d redislib \<Rightarrow> 'd RedisPersistence \<Rightarrow> int64 res" where
  "rp_GetActiveVersionTimestamp K r =
     (if rp_closed r then bp_closed_err
      else bind_res (wrap_err ''failed to get active version timestamp''
             (lib_res ''Get'' (rd_Get K (rp_client r) (prefixKey r redis_keyPrefixActiveVersion)))) (\<lambda>item.
           case item of
             None \<Rightarrow> Inr 0
           | Some data \<Rightarrow> if length data \<noteq> 8 then Inl (Errorf ''invalid active version data length'')
                          else Inr (to_int64 (int (be_value data)))))"

definition rp_SaveNodeState ::
  "'d redislib \<Rightarrow> 'f jsonlib \<Rightarrow> 'd RedisPersistence \<Rightarrow> NodeState option \<Rightarrow> 'd RedisPersistence \<times> unit res" where
  "rp_SaveNodeState K J r state =
     (case state of
        None \<Rightarrow> (r, Inl (Errorf ''cannot save nil NodeState''))
      | Some st \<Rightarrow>
          if rp_closed r then (r, bp_closed_err)
          else (case json_ns J st of
                  None \<Rightarrow> (r, Inl (Errorf ''failed to marshal NodeState''))
                | Some data \<Rightarrow> rp_exec K ''Set'' r [RSet (prefixKey r redis_keyPrefixNodeState) data]))"

definition rp_LoadNodeState ::
  "'d redislib \<Rightarrow> 'f jsonlib \<Rightarrow> 'd RedisPersistence \<Rightarrow> NodeState option res" where
  "rp_LoadNodeState K J r =
     (if rp_closed r then bp_closed_err
      else rp_load K r (prefixKey r redis_keyPrefixNodeState) (unjson_ns J))"

definition rp_SaveProtocolSession ::
  "'d redislib \<Rightarrow> 'f jsonlib \<Rightarrow> 'd RedisPersistence \<Rightarrow> ProtocolSessionState option \<Rightarrow> 'd RedisPersistence \<times> unit res" where
  "rp_SaveProtocolSession K J r session =
     (case session of
        None \<Rightarrow> (r, Inl (Errorf ''cannot save nil ProtocolSessionState''))
      | Some p \<Rightarrow>
          if rp_closed r then (r, bp_closed_err)
          else (case json_pss J p of
                  None \<Rightarrow> (r, Inl (Errorf ''failed to marshal ProtocolSessionState''))
                | Some data \<Rightarrow>
                    rp_exec K ''failed to save ProtocolSessionState'' r
                      [RSet (prefixKey r (redis_keyPrefixSession @ show_int (ps_SessionTimestamp p))) data,
                       RSAdd (prefixKey r keySetSessions) (show_int (ps_SessionTimestamp p))]))"

definition rp_LoadProtocolSession ::
  "'d redislib \<Rightarrow> 'f jsonlib \<Rightarrow> 'd RedisPersistence \<Rightarrow> int64 \<Rightarrow> ProtocolSessionState option res" where
  "rp_LoadProtocolSession K J r sessionTimestamp =
     (if rp_closed r then bp_closed_err
      else rp_load K r (prefixKey r (redis_keyPrefixSession @ show_int sessionTimestamp)) (unjson_pss J))"

definition rp_DeleteProtocolSession ::
  "'d redislib \<Rightarrow> 'd RedisPersistence \<Rightarrow> int64 \<Rightarrow> 'd RedisPersistence \<times> unit res" where
  "rp_DeleteProtocolSession K r sessionTimestamp =
     (if rp_closed r then (r, bp_closed_err)
      else rp_exec K ''Exec'' r
             [RDel (prefixKey r (redis_keyPrefixSession @ show_int sessionTimestamp)),
              RSRem (prefixKey r keySetSessions) (show_int sessionTimestamp)])"

definition rp_ListProtocolSessions ::
  "'d redislib \<Rightarrow> 'f jsonlib \<Rightarrow> 'd RedisPersistence \<Rightarrow> 'd RedisPersistence \<times> ProtocolSessionState list res" where
  "rp_ListProtocolSessions K J r =
     (if rp_closed r then (r, bp_closed_err)
      else rp_list K r (prefixKey r keySetSessions) redis_keyPrefixSession (unjson_pss J))"

definition redis_block_key :: "nat \<Rightarrow> nat \<Rightarrow> string" where
  "redis_block_key chainId number = redis_keyPrefixBlockRecord @ show_nat chainId @ '':'' @ show_nat number"

definition rp_SaveBlockRecord ::
  "'d redislib \<Rightarrow> 'f jsonlib \<Rightarrow> 'd RedisPersistence \<Rightarrow> BlockRecord option \<Rightarrow> 'd RedisPersistence \<times> unit res" where
  "rp_SaveBlockRecord K J r record =
     (case record of
        None \<Rightarrow> (r, Inl (Errorf ''cannot save nil BlockRecord''))
      | Some br \<Rightarrow>
          if rp_closed r then (r, bp_closed_err)
          else (case json_br J br of
                  None \<Rightarrow> (r, Inl (Errorf ''failed to marshal BlockRecord''))
                | Some data \<Rightarrow>
                    rp_exec K ''failed to save BlockRecord'' r
                      [RSet (prefixKey r (redis_block_key (br_ChainId br) (br_Number br))) data,
                       RSet (prefixKey r (redis_keyPrefixLastBlock @ show_nat (br_ChainId br))) (be_bytes 8 (br_Number br))]))"

definition rp_getBlockRecord ::
  "'d redislib \<Rightarrow> 'f jsonlib \<Rightarrow> 'd RedisPersistence \<Rightarrow> nat \<Rightarrow> nat \<Rightarrow> BlockRecord option res" where
  "rp_getBlockRecord K J r chainId blockNumber =
     rp_load K r (prefixKey r (redis_block_key chainId blockNumber)) (unjson_br J)"

definition rp_GetLastProcessedBlockRecord ::
  "'d redislib \<Rightarrow> 'f jsonlib \<Rightarrow> 'd RedisPersistence \<Rightarrow> nat \<Rightarrow> BlockRecord option res" where
  "rp_GetLastProcessedBlockRecord K J r chainId =
     (if rp_closed r then bp_closed_err
      else bind_res (wrap_err ''failed to get last processed block''
             (lib_res ''Get'' (rd_Get K (rp_client r) (prefixKey r (redis_keyPrefixLastBlock @ show_nat chainId))))) (\<lambda>item.
           case item of
             None \<Rightarrow> Inr None
           | Some data \<Rightarrow> if length data \<noteq> 8 then Inl (Errorf ''invalid last block data length'')
                          else rp_getBlockRecord K J r chainId (be_value data)))"

definition rp_GetBlockRecord ::
  "'d redislib \<Rightarrow> 'f jsonlib \<Rightarrow> 'd RedisPersistence \<Rightarrow> nat \<Rightarrow> nat \<Rightarrow> BlockRecord option res" where
  "rp_GetBlockRecord K J r chainId blockNumber =
     (if rp_closed r then bp_closed_err else rp_getBlockRecord K J r chainId blockNumber)"

definition rp_DeleteBlockRecord ::
  "'d redislib \<Rightarrow> 'd RedisPersistence \<Rightarrow> nat \<Rightarrow> nat \<Rightarrow> 'd RedisPersistence \<times> unit res" where
  "rp_DeleteBlockRecord K r chainId blockNumber =
     (if rp_closed r then (r, bp_closed_err)
      else rp_exec K ''Del'' r [RDel (prefixKey r (redis_block_key chainId blockNumber))])"

definition rp_Close :: "'d redislib \<Rightarrow> 'd RedisPersistence \<Rightarrow> 'd RedisPersistence \<times> unit res" where
  "rp_Close K r =
     (if rp_closed r then (r, Inr ())
      else (r\<lparr>rp_closed := True\<rparr>,
            if rd_Close K (rp_client r) then Inr () else Inl (Errorf ''failed to close Redis client'')))"

definition rp_HealthCheck :: "'d redislib \<Rightarrow> 'd RedisPersistence \<Rightarrow> unit res" where
  "rp_HealthCheck K r =
     (if rp_closed r then bp_closed_err
      else if \<not> rd_Ping K (rp_client r) then Inl (Errorf ''redis health check failed'')
      else case rd_Get K (rp_client r) (prefixKey r redis_keySchemaVersion) of
             None \<Rightarrow> Inl (Errorf ''failed to verify schema version'')
           | Some None \<Rightarrow> Inl (Errorf ''schema version not found - database may not be properly initialized'')
           | Some (Some _) \<Rightarrow> Inr ())"

text \<open>
  The interface value. Its listings give no state: what a listing changes, the index entries of absent
  records, no method reads otherwise (\<open>rp_list_state\<close> below).
\<close>

definition redis_persistence ::
  "'d redislib \<Rightarrow> 'f jsonlib \<Rightarrow> ('d RedisPersistence, 'f) INodePersistence" where
  "redis_persistence K J =
     \<lparr>pi_SaveKeyShareVersion = rp_SaveKeyShareVersion K J, pi_LoadKeyShareVersion = rp_LoadKeyShareVersion K J,
      pi_ListKeyShareVersions = (\<lambda>r. snd (rp_ListKeyShareVersions K J r)),
      pi_DeleteKeyShareVersion = rp_DeleteKeyShareVersion K,
      pi_AddPoisonedVersion = rp_AddPoisonedVersion K, pi_ListPoisonedVersions = rp_ListPoisonedVersions K,
      pi_SetActiveVersionTimestamp = rp_SetActiveVersionTimestamp K,
      pi_GetActiveVersionTimestamp = rp_GetActiveVersionTimestamp K,
      pi_SaveNodeState = rp_SaveNodeState K J, pi_LoadNodeState = rp_LoadNodeState K J,
      pi_SaveProtocolSession = rp_SaveProtocolSession K J, pi_LoadProtocolSession = rp_LoadProtocolSession K J,
      pi_DeleteProtocolSession = rp_DeleteProtocolSession K,
      pi_ListProtocolSessions = (\<lambda>r. snd (rp_ListProtocolSessions K J r)),
      pi_SaveBlockRecord = rp_SaveBlockRecord K J,
      pi_GetLastProcessedBlockRecord = rp_GetLastProcessedBlockRecord K J,
      pi_GetBlockRecord = rp_GetBlockRecord K J, pi_DeleteBlockRecord = rp_DeleteBlockRecord K,
      pi_Close = rp_Close K, pi_HealthCheck = rp_HealthCheck K\<rparr>"

subsection \<open>The server\<close>

text \<open>
  A key holds a string or a non-empty set. A command on a key of the other kind is an error
  (\<open>WRONGTYPE\<close>), except that \<open>SET\<close> overwrites a set; the commands of a pipeline are executed in
  their order, whatever the earlier ones replied.
\<close>

datatype redis_value = RBytes bytes | RMembers "string set"

type_synonym redis_view = "string \<Rightarrow> redis_value option"

fun rmembers :: "redis_value option \<Rightarrow> string set" where
  "rmembers (Some (RMembers s)) = s"
| "rmembers _ = {}"

fun rbytes :: "redis_value option \<Rightarrow> bytes option" where
  "rbytes (Some (RBytes b)) = Some b"
| "rbytes _ = None"

fun redis_step :: "redis_cmd \<Rightarrow> redis_view \<Rightarrow> redis_view \<times> bool" where
  "redis_step (RSet k b) R = (R(k \<mapsto> RBytes b), True)"
| "redis_step (RDel k) R = (R(k := None), True)"
| "redis_step (RSAdd k x) R =
     (if rbytes (R k) \<noteq> None then (R, False) else (R(k \<mapsto> RMembers (insert x (rmembers (R k)))), True))"
| "redis_step (RSRem k x) R =
     (if rbytes (R k) \<noteq> None then (R, False)
      else (R(k := if rmembers (R k) \<subseteq> {x} then None else Some (RMembers (rmembers (R k) - {x}))), True))"

primrec redis_run :: "redis_cmd list \<Rightarrow> redis_view \<Rightarrow> redis_view \<times> bool" where
  "redis_run [] R = (R, True)"
| "redis_run (c # cs) R =
     (case redis_step c R of (R1, good1) \<Rightarrow> case redis_run cs R1 of (R2, good2) \<Rightarrow> (R2, good1 \<and> good2))"

text \<open>The documented behaviour of the server and its client, without I/O errors.\<close>

definition redis_laws :: "'d redislib \<Rightarrow> ('d \<Rightarrow> redis_view) \<Rightarrow> bool" where
  "redis_laws K view \<longleftrightarrow>
     (\<forall>d. rd_Ping K d) \<and>
     (\<forall>d k. rd_Get K d k = (case view d k of Some (RMembers _) \<Rightarrow> None | v \<Rightarrow> Some (rbytes v))) \<and>
     (\<forall>d cmds. view (fst (rd_Exec K d cmds)) = fst (redis_run cmds (view d)) \<and>
        snd (rd_Exec K d cmds) = snd (redis_run cmds (view d))) \<and>
     (\<forall>d k. rbytes (view d k) = None \<longrightarrow>
        (\<exists>xs. rd_SMembers K d k = Some xs \<and> distinct xs \<and> set xs = rmembers (view d k))) \<and>
     (\<forall>d ks. rd_MGet K d ks = Some (map (\<lambda>k. rbytes (view d k)) ks)) \<and>
     (\<forall>d. rd_Close K d)"

lemma redis_lawsD:
  assumes "redis_laws K view"
  shows "rd_Ping K d"
    "rd_Get K d k = (case view d k of Some (RMembers _) \<Rightarrow> None | v \<Rightarrow> Some (rbytes v))"
    "view (fst (rd_Exec K d cmds)) = fst (redis_run cmds (view d))"
    "snd (rd_Exec K d cmds) = snd (redis_run cmds (view d))"
    "rbytes (view d k) = None \<Longrightarrow> \<exists>xs. rd_SMembers K d k = Some xs \<and> distinct xs \<and> set xs = rmembers (view d k)"
    "rd_MGet K d ks = Some (map (\<lambda>k. rbytes (view d k)) ks)"
    "rd_Close K d"
  using assms unfolding redis_laws_def by blast+

subsection \<open>The meaning of a database\<close>

text \<open>The badger view of the keys under a prefix.\<close>

definition rkey :: "string \<Rightarrow> string \<Rightarrow> string" where
  "rkey pre k = pre @ ''kms:'' @ k"

definition set_keys :: "string set" where
  "set_keys = {''keyshares:index'', ''sessions:index'', ''poisoned''}"

definition rview :: "string \<Rightarrow> redis_view \<Rightarrow> string \<Rightarrow> bytes option" where
  "rview pre R k =
     (if take 9 k = keyPrefixPoisoned
      then (if drop 9 k \<in> rmembers (R (rkey pre ''poisoned'')) then Some [1] else None)
      else rbytes (R (rkey pre k)))"

text \<open>The sets are sets and the records are strings; every record is in its index.\<close>

definition rtyped :: "string \<Rightarrow> redis_view \<Rightarrow> bool" where
  "rtyped pre R \<longleftrightarrow>
     (\<forall>k. (k \<in> set_keys \<longrightarrow> rbytes (R (rkey pre k)) = None) \<and>
          (k \<notin> set_keys \<longrightarrow> (\<forall>s. R (rkey pre k) \<noteq> Some (RMembers s))))"

definition index_of :: "string \<Rightarrow> string \<Rightarrow> bool" where
  "index_of rpre idx \<longleftrightarrow>
     rpre = keyPrefixKeyShare \<and> idx = ''keyshares:index'' \<or> rpre = keyPrefixSession \<and> idx = ''sessions:index''"

definition rindexed :: "string \<Rightarrow> redis_view \<Rightarrow> bool" where
  "rindexed pre R \<longleftrightarrow>
     (\<forall>rpre idx x. index_of rpre idx \<and> R (rkey pre (rpre @ x)) \<noteq> None \<longrightarrow> x \<in> rmembers (R (rkey pre idx)))"

definition rp_valid ::
  "'d redislib \<Rightarrow> 'f jsonlib \<Rightarrow> ('d \<Rightarrow> redis_view) \<Rightarrow> 'd RedisPersistence \<Rightarrow> bool" where
  "rp_valid K J view r \<longleftrightarrow> redis_laws K view \<and> json_laws J \<and>
     view_ok J (rview (rp_keyPrefix r) (view (rp_client r))) \<and>
     rtyped (rp_keyPrefix r) (view (rp_client r)) \<and> rindexed (rp_keyPrefix r) (view (rp_client r))"

definition rp_abs :: "'f jsonlib \<Rightarrow> ('d \<Rightarrow> redis_view) \<Rightarrow> 'd RedisPersistence \<Rightarrow> 'f pstore" where
  "rp_abs J view r = view_abs J (rview (rp_keyPrefix r) (view (rp_client r))) (rp_closed r)"

lemma rkey_inj [simp]: "rkey pre k = rkey pre k' \<longleftrightarrow> k = k'"
  by (simp add: rkey_def)

lemma prefixKey_rkey [simp]:
  "prefixKey r (redis_keyPrefixKeyShare @ x) = rkey (rp_keyPrefix r) (keyPrefixKeyShare @ x)"
  "prefixKey r (redis_keyPrefixSession @ x) = rkey (rp_keyPrefix r) (keyPrefixSession @ x)"
  "prefixKey r (redis_keyPrefixLastBlock @ x) = rkey (rp_keyPrefix r) (keyPrefixLastBlock @ x)"
  "prefixKey r (redis_block_key c n) = rkey (rp_keyPrefix r) (block_key c n)"
  "prefixKey r redis_keyPrefixActiveVersion = rkey (rp_keyPrefix r) keyPrefixActiveVersion"
  "prefixKey r redis_keyPrefixNodeState = rkey (rp_keyPrefix r) keyPrefixNodeState"
  "prefixKey r redis_keySchemaVersion = rkey (rp_keyPrefix r) keySchemaVersion"
  "prefixKey r keySetKeyShares = rkey (rp_keyPrefix r) ''keyshares:index''"
  "prefixKey r keySetSessions = rkey (rp_keyPrefix r) ''sessions:index''"
  "prefixKey r redis_keyPrefixPoisoned = rkey (rp_keyPrefix r) ''poisoned''"
  by (simp_all add: prefixKey_def rkey_def key_defs block_key_def redis_block_key_def redis_keyPrefixKeyShare_def
      redis_keyPrefixSession_def redis_keyPrefixLastBlock_def redis_keyPrefixBlockRecord_def
      redis_keyPrefixActiveVersion_def redis_keyPrefixNodeState_def redis_keySchemaVersion_def
      keySetKeyShares_def keySetSessions_def redis_keyPrefixPoisoned_def)

lemma redis_schema_bytes [simp]: "redis_schema_bytes = schema_bytes"
  by (simp add: redis_schema_bytes_def schema_bytes_def redis_currentSchemaVersion_def currentSchemaVersion_def)

text \<open>The records' keys: neither sets nor poisoned versions.\<close>

definition record_key :: "string \<Rightarrow> bool" where
  "record_key k \<longleftrightarrow> k \<notin> set_keys \<and> take 9 k \<noteq> keyPrefixPoisoned"

lemma record_keys [simp]:
  "record_key (keyPrefixKeyShare @ x)" "record_key (keyPrefixSession @ x)" "record_key (keyPrefixLastBlock @ x)"
  "record_key (keyPrefixBlockRecord @ x)"
  "record_key (block_key c n)" "record_key keyPrefixActiveVersion" "record_key keyPrefixNodeState"
  "record_key keySchemaVersion"
  by (simp_all add: record_key_def set_keys_def key_defs block_key_def)

lemma record_key_neq:
  assumes "record_key k"
  shows "k \<noteq> ''keyshares:index''" "k \<noteq> ''sessions:index''" "k \<noteq> ''poisoned''" "k \<noteq> keyPrefixPoisoned @ x"
  using assms by (auto simp: record_key_def set_keys_def keyPrefixPoisoned_def)

lemma rview_record: "record_key k \<Longrightarrow> rview pre R k = rbytes (R (rkey pre k))"
  by (simp add: rview_def record_key_def)

lemma rview_poisoned: "rview pre R (keyPrefixPoisoned @ x) =
    (if x \<in> rmembers (R (rkey pre ''poisoned'')) then Some [1] else None)"
  by (simp add: rview_def keyPrefixPoisoned_def)

lemma rtyped_record:
  assumes "rtyped pre R" "record_key k"
  shows "R (rkey pre k) = map_option RBytes (rview pre R k)"
  using assms by (cases "R (rkey pre k)"; cases "the (R (rkey pre k))")
    (auto simp: rview_record rtyped_def record_key_def)

lemma rp_Get [simp]:
  assumes "rp_valid K J view r" "record_key k"
  shows "rd_Get K (rp_client r) (rkey (rp_keyPrefix r) k) = Some (rview (rp_keyPrefix r) (view (rp_client r)) k)"
  using assms rtyped_record [of "rp_keyPrefix r" "view (rp_client r)" k]
  by (auto simp: rp_valid_def redis_lawsD(2) split: option.splits)

subsection \<open>The commands\<close>

text \<open>The effect of each command on the badger view, and that it keeps the database well-formed.\<close>

lemma rview_put:
  assumes "record_key k"
  shows "rview pre (R(rkey pre k \<mapsto> RBytes b)) = (rview pre R)(k \<mapsto> b)"
  using assms record_key_neq [OF assms] by (auto simp: rview_def record_key_def fun_eq_iff)

lemma rview_del:
  assumes "record_key k"
  shows "rview pre (R(rkey pre k := None)) = (rview pre R)(k := None)"
  using assms record_key_neq [OF assms] by (auto simp: rview_def record_key_def fun_eq_iff)

lemma rview_index [simp]:
  assumes "k = ''keyshares:index'' \<or> k = ''sessions:index''" "rbytes (R (rkey pre k)) = None" "rbytes v = None"
  shows "rview pre (R(rkey pre k := v)) = rview pre R"
  using assms by (auto simp: rview_def fun_eq_iff)

lemma poisoned_key: "take 9 k = keyPrefixPoisoned \<and> drop 9 k = x \<longleftrightarrow> k = keyPrefixPoisoned @ x"
proof
  assume "take 9 k = keyPrefixPoisoned \<and> drop 9 k = x"
  then show "k = keyPrefixPoisoned @ x" by (metis append_take_drop_id)
qed (simp add: keyPrefixPoisoned_def)

lemma rview_add_poisoned:
  assumes "rbytes (R (rkey pre ''poisoned'')) = None"
  shows "rview pre (R(rkey pre ''poisoned'' \<mapsto> RMembers (insert x (rmembers (R (rkey pre ''poisoned'')))))) =
    (rview pre R)(keyPrefixPoisoned @ x \<mapsto> [1])"
proof
  fix k
  show "rview pre (R(rkey pre ''poisoned'' \<mapsto> RMembers (insert x (rmembers (R (rkey pre ''poisoned'')))))) k =
      ((rview pre R)(keyPrefixPoisoned @ x \<mapsto> [1])) k"
    using assms by (auto simp: rview_def poisoned_key [symmetric])
qed

lemma rtypedD:
  assumes "rtyped pre R"
  shows "rbytes (R (rkey pre ''keyshares:index'')) = None" "rbytes (R (rkey pre ''sessions:index'')) = None"
    "rbytes (R (rkey pre ''poisoned'')) = None"
  using assms by (auto simp: rtyped_def set_keys_def)

lemma rtyped_upd:
  assumes "rtyped pre R"
  shows "record_key k \<Longrightarrow> rtyped pre (R(rkey pre k \<mapsto> RBytes b))" "rtyped pre (R(rkey pre k := None))"
    "k \<in> set_keys \<Longrightarrow> rtyped pre (R(rkey pre k \<mapsto> RMembers s))"
  using assms by (auto simp: rtyped_def record_key_def)

lemma rp_validD:
  assumes "rp_valid K J view r"
  shows "redis_laws K view" "json_laws J" "view_ok J (rview (rp_keyPrefix r) (view (rp_client r)))"
    "rtyped (rp_keyPrefix r) (view (rp_client r))" "rindexed (rp_keyPrefix r) (view (rp_client r))"
  using assms by (simp_all add: rp_valid_def)

lemma rp_writes:
  assumes "rp_valid K J view r" "redis_run cmds (view (rp_client r)) = (R, True)"
    "rtyped (rp_keyPrefix r) R" "rindexed (rp_keyPrefix r) R" "view_ok J (rview (rp_keyPrefix r) R)"
    "view_abs J (rview (rp_keyPrefix r) R) (rp_closed r) = upd (rp_abs J view r)"
  shows "writes (rp_valid K J view) (rp_abs J view) r upd (rp_exec K msg r cmds)"
  using assms redis_lawsD(3,4) [OF rp_validD(1) [OF assms(1)], of "rp_client r" cmds]
  by (auto simp: writes_def rp_exec_def rp_valid_def rp_abs_def split: prod.split)

text \<open>The commands of a save and of a deletion of an indexed record, and of a record without an index.\<close>

lemma index_of_facts:
  assumes "index_of rpre idx"
  shows "idx \<in> set_keys" "record_key (rpre @ x)" "idx = ''keyshares:index'' \<or> idx = ''sessions:index''"
    "rpre @ x \<noteq> idx"
proof -
  show "idx \<in> set_keys" "record_key (rpre @ x)" "idx = ''keyshares:index'' \<or> idx = ''sessions:index''"
    using assms by (auto simp: index_of_def set_keys_def)
  then show "rpre @ x \<noteq> idx" by (auto simp: record_key_def)
qed

lemma index_of_inj:
  assumes "index_of rpre idx" "index_of rpre' idx'"
  shows "rpre @ x = rpre' @ y \<longleftrightarrow> rpre = rpre' \<and> x = y" "idx = idx' \<longleftrightarrow> rpre = rpre'" "rpre @ x \<noteq> idx'"
proof -
  show "rpre @ x = rpre' @ y \<longleftrightarrow> rpre = rpre' \<and> x = y" using assms unfolding index_of_def by auto
  have "keyPrefixKeyShare \<noteq> keyPrefixSession" by (simp add: key_defs)
  with assms show "idx = idx' \<longleftrightarrow> rpre = rpre'" unfolding index_of_def by auto
  show "rpre @ x \<noteq> idx'"
    using index_of_facts(2) [OF assms(1), of x] index_of_facts(1) [OF assms(2)] by (auto simp: record_key_def)
qed

lemma rindexedD:
  assumes "rindexed pre R" "index_of rpre idx" "R (rkey pre (rpre @ x)) \<noteq> None"
  shows "x \<in> rmembers (R (rkey pre idx))"
  using assms unfolding rindexed_def by blast

lemma rindexed_put:
  assumes "rindexed pre R" "index_of rpre idx"
  shows "rindexed pre (R(rkey pre (rpre @ x) \<mapsto> v, rkey pre idx \<mapsto> RMembers (insert x (rmembers (R (rkey pre idx))))))"
  unfolding rindexed_def
proof (intro allI impI, elim conjE)
  fix rpre' idx' y
  assume i: "index_of rpre' idx'"
    and y: "(R(rkey pre (rpre @ x) \<mapsto> v, rkey pre idx \<mapsto> RMembers (insert x (rmembers (R (rkey pre idx))))))
      (rkey pre (rpre' @ y)) \<noteq> None"
  show "y \<in> rmembers ((R(rkey pre (rpre @ x) \<mapsto> v, rkey pre idx \<mapsto> RMembers (insert x (rmembers (R (rkey pre idx))))))
      (rkey pre idx'))"
    using rindexedD [OF assms(1) i, of y] y index_of_inj [OF assms(2) i] index_of_inj [OF i assms(2)] by (auto split: if_splits)
qed

lemma rindexed_remove:
  assumes "rindexed pre R" "index_of rpre idx" "R (rkey pre (rpre @ x)) = None"
  shows "rindexed pre (R(rkey pre idx :=
     if rmembers (R (rkey pre idx)) \<subseteq> {x} then None else Some (RMembers (rmembers (R (rkey pre idx)) - {x}))))"
  unfolding rindexed_def
proof (intro allI impI, elim conjE)
  fix rpre' idx' y
  assume i: "index_of rpre' idx'"
    and y: "(R(rkey pre idx :=
      if rmembers (R (rkey pre idx)) \<subseteq> {x} then None else Some (RMembers (rmembers (R (rkey pre idx)) - {x}))))
      (rkey pre (rpre' @ y)) \<noteq> None"
  have "R (rkey pre (rpre' @ y)) \<noteq> None" using y index_of_inj(3) [OF i assms(2), of y] by simp
  then have "y \<in> rmembers (R (rkey pre idx'))" "idx' = idx \<Longrightarrow> y \<noteq> x"
    using rindexedD [OF assms(1) i, of y] assms(3) index_of_inj(2) [OF assms(2) i] by auto
  then show "y \<in> rmembers ((R(rkey pre idx :=
      if rmembers (R (rkey pre idx)) \<subseteq> {x} then None else Some (RMembers (rmembers (R (rkey pre idx)) - {x}))))
      (rkey pre idx'))"
    by auto
qed

lemma rindexed_del:
  assumes "rindexed pre R" "index_of rpre idx"
  shows "rindexed pre (R(rkey pre (rpre @ x) := None))"
  unfolding rindexed_def
proof (intro allI impI, elim conjE)
  fix rpre' idx' y
  assume i: "index_of rpre' idx'" and y: "(R(rkey pre (rpre @ x) := None)) (rkey pre (rpre' @ y)) \<noteq> None"
  show "y \<in> rmembers ((R(rkey pre (rpre @ x) := None)) (rkey pre idx'))"
    using rindexedD [OF assms(1) i, of y] y index_of_inj(3) [OF assms(2) i, of x] by (auto split: if_splits)
qed

lemma run_save:
  fixes x :: string and b :: bytes
  assumes "rtyped pre R" "rindexed pre R" "index_of rpre idx"
  defines "R' \<equiv> R(rkey pre (rpre @ x) \<mapsto> RBytes b, rkey pre idx \<mapsto> RMembers (insert x (rmembers (R (rkey pre idx)))))"
  shows "redis_run [RSet (rkey pre (rpre @ x)) b, RSAdd (rkey pre idx) x] R = (R', True)"
    "rtyped pre R'" "rindexed pre R'" "rview pre R' = (rview pre R)(rpre @ x \<mapsto> b)"
proof -
  note i = index_of_facts [OF assms(3)]
  have ne: "rpre @ x \<noteq> idx" by (rule i(4))
  have none: "rbytes (R (rkey pre idx)) = None" using i(3) rtypedD [OF assms(1)] by auto
  show "redis_run [RSet (rkey pre (rpre @ x)) b, RSAdd (rkey pre idx) x] R = (R', True)"
    using ne none by (auto simp: R'_def)
  show "rtyped pre R'" unfolding R'_def by (intro rtyped_upd assms i)
  show "rindexed pre R'" unfolding R'_def by (rule rindexed_put [OF assms(2,3)])
  show "rview pre R' = (rview pre R)(rpre @ x \<mapsto> b)"
    using ne none i(3) by (simp add: R'_def rview_put [OF i(2)])
qed

lemma run_delete:
  fixes x :: string
  assumes "rtyped pre R" "rindexed pre R" "index_of rpre idx"
  defines "R' \<equiv> R(rkey pre (rpre @ x) := None, rkey pre idx :=
     if rmembers (R (rkey pre idx)) \<subseteq> {x} then None else Some (RMembers (rmembers (R (rkey pre idx)) - {x})))"
  shows "redis_run [RDel (rkey pre (rpre @ x)), RSRem (rkey pre idx) x] R = (R', True)"
    "rtyped pre R'" "rindexed pre R'" "rview pre R' = (rview pre R)(rpre @ x := None)"
proof -
  note i = index_of_facts [OF assms(3)]
  have ne: "rpre @ x \<noteq> idx" by (rule i(4))
  have none: "rbytes (R (rkey pre idx)) = None" using i(3) rtypedD [OF assms(1)] by auto
  show "redis_run [RDel (rkey pre (rpre @ x)), RSRem (rkey pre idx) x] R = (R', True)"
    using ne none by (auto simp: R'_def)
  show "rtyped pre R'" unfolding R'_def using i(1) rtyped_upd(2,3) [OF rtyped_upd(2) [OF assms(1)]] by simp
  show "rindexed pre R'"
    using rindexed_remove [OF rindexed_del [OF assms(2,3), of x] assms(3), of x] ne ne [symmetric]
    by (cases "rmembers (R (rkey pre idx)) \<subseteq> {x}") (simp_all add: R'_def)
  show "rview pre R' = (rview pre R)(rpre @ x := None)"
    using ne none i(3) by (simp add: R'_def rview_del [OF i(2)])
qed

text \<open>A record without an index.\<close>

definition plain_key :: "string \<Rightarrow> bool" where
  "plain_key k \<longleftrightarrow> record_key k \<and> (\<forall>x. k \<noteq> keyPrefixKeyShare @ x) \<and> (\<forall>x. k \<noteq> keyPrefixSession @ x)"

lemma plain_keys [simp]:
  "plain_key (keyPrefixLastBlock @ x)" "plain_key (block_key c n)" "plain_key keyPrefixActiveVersion"
  "plain_key keyPrefixNodeState" "plain_key keySchemaVersion"
  unfolding plain_key_def by simp_all

lemma plain_record [simp]: "plain_key k \<Longrightarrow> record_key k"
  by (simp add: plain_key_def)

lemma rindexed_plain:
  assumes "rindexed pre R" "plain_key k"
  shows "rindexed pre (R(rkey pre k := v))"
  using assms record_key_neq [OF plain_record [OF assms(2)]] unfolding rindexed_def index_of_def plain_key_def by auto

lemma rindexed_poisoned:
  assumes "rindexed pre R"
  shows "rindexed pre (R(rkey pre ''poisoned'' := v))"
  using assms unfolding rindexed_def index_of_def by (auto simp: keyPrefixKeyShare_def keyPrefixSession_def)

lemma put_plain:
  assumes "rp_valid K J view r" "plain_key k"
    "view_ok J ((rview (rp_keyPrefix r) (view (rp_client r)))(k \<mapsto> b))"
    "view_abs J ((rview (rp_keyPrefix r) (view (rp_client r)))(k \<mapsto> b)) (rp_closed r) = upd (rp_abs J view r)"
  shows "writes (rp_valid K J view) (rp_abs J view) r upd (rp_exec K msg r [RSet (rkey (rp_keyPrefix r) k) b])"
  using assms rp_validD [OF assms(1)]
  by (intro rp_writes [where R = "(view (rp_client r))(rkey (rp_keyPrefix r) k \<mapsto> RBytes b)"])
    (simp_all add: rtyped_upd rindexed_plain rview_put)

subsection \<open>Loads and listings\<close>

lemma rp_load_decode:
  assumes "rp_valid K J view r" "record_key k"
    "\<And>bs. rview (rp_keyPrefix r) (view (rp_client r)) k = Some bs \<Longrightarrow> \<exists>x. unjson bs = Some (Some x)"
  shows "rp_load K r (rkey (rp_keyPrefix r) k) unjson =
    Inr (decode unjson (rview (rp_keyPrefix r) (view (rp_client r)) k))"
  using assms(3) rp_Get [OF assms(1,2)]
  by (cases "rview (rp_keyPrefix r) (view (rp_client r)) k") (auto simp: rp_load_def decode_def)

text \<open>
  The loop of a listing gives the records of the values that decode, and removes from the index what
  has no value, so the meaning of the database does not change.
\<close>

lemma rp_parse_result:
  "snd (rp_parse K indexKey unjson items d) =
     List.map_filter (\<lambda>(_, v). case v of None \<Rightarrow> None | Some bs \<Rightarrow> (case unjson bs of Some x \<Rightarrow> x | None \<Rightarrow> None)) items"
  by (induction items arbitrary: d) (auto simp: map_filter_simps case_prod_beta split: option.splits)

lemma remove_from_index:
  assumes "rtyped pre R" "rindexed pre R" "index_of rpre idx" "R (rkey pre (rpre @ x)) = None"
  defines "R' \<equiv> fst (redis_run [RSRem (rkey pre idx) x] R)"
  shows "rtyped pre R'" "rindexed pre R'" "rview pre R' = rview pre R" "R' (rkey pre (rpre @ y)) = R (rkey pre (rpre @ y))"
proof -
  note i = index_of_facts [OF assms(3)]
  have none: "rbytes (R (rkey pre idx)) = None" using i(3) rtypedD [OF assms(1)] by auto
  then have R': "R' = R(rkey pre idx :=
     if rmembers (R (rkey pre idx)) \<subseteq> {x} then None else Some (RMembers (rmembers (R (rkey pre idx)) - {x})))"
    by (simp add: R'_def)
  show "rtyped pre R'" unfolding R' using i(1) rtyped_upd(2,3) [OF assms(1)] by simp
  show "rindexed pre R'" unfolding R' by (rule rindexed_remove [OF assms(2-4)])
  show "rview pre R' = rview pre R" unfolding R' using i(3) none by simp
  show "R' (rkey pre (rpre @ y)) = R (rkey pre (rpre @ y))" unfolding R' using i(4) [of y] by simp
qed

lemma rp_parse_state:
  fixes unjson :: "bytes \<Rightarrow> 'a option option" and items :: "(string \<times> bytes option) list"
  assumes "redis_laws K view" "index_of rpre idx"
    "rtyped pre (view d)" "rindexed pre (view d)"
    "\<And>x. (x, None) \<in> set items \<Longrightarrow> view d (rkey pre (rpre @ x)) = None"
  defines "d' \<equiv> fst (rp_parse K (rkey pre idx) unjson items d)"
  shows "rtyped pre (view d') \<and> rindexed pre (view d') \<and> rview pre (view d') = rview pre (view d)"
  using assms(3-5) unfolding d'_def
proof (induction items arbitrary: d)
  case (Cons mv items)
  obtain x v where mv: "mv = (x, v)" by fastforce
  show ?case
  proof (cases v)
    case None
    with mv Cons.prems(3) have none: "view d (rkey pre (rpre @ x)) = None" by simp
    let ?d = "fst (rd_Exec K d [RSRem (rkey pre idx) x])"
    have "view ?d = fst (redis_run [RSRem (rkey pre idx) x] (view d))" by (rule redis_lawsD(3) [OF assms(1)])
    with remove_from_index [OF Cons.prems(1,2) assms(2) none] have d: "rtyped pre (view ?d)" "rindexed pre (view ?d)"
      "rview pre (view ?d) = rview pre (view d)" "\<And>y. view ?d (rkey pre (rpre @ y)) = view d (rkey pre (rpre @ y))"
      by simp_all
    show ?thesis using Cons.IH [OF d(1,2)] Cons.prems(3) d(3,4) mv None by simp
  next
    case (Some data)
    have "rp_parse K (rkey pre idx) unjson (mv # items) d =
        (let (d', xs) = rp_parse K (rkey pre idx) unjson items d in
         (d', case unjson data of Some (Some y) \<Rightarrow> y # xs | _ \<Rightarrow> xs))"
      using mv Some by (auto split: option.splits prod.splits)
    moreover have "fst (let (d', xs) = p in (d', f xs)) = fst p" for p :: "'c \<times> 'a list" and f :: "'a list \<Rightarrow> 'a list"
      by (simp add: case_prod_beta)
    ultimately show ?thesis using Cons.IH [OF Cons.prems(1,2)] Cons.prems(3) by (simp add: case_prod_beta)
  qed
qed simp

text \<open>What a listing gives: the records, in some order, of the members of the index.\<close>

lemma rp_list_value:
  assumes laws: "redis_laws K view" and typed: "rtyped (rp_keyPrefix r) (view (rp_client r))" and idx: "index_of rpre idx"
    and pre: "\<And>x. prefixKey r (rp @ x) = rkey (rp_keyPrefix r) (rpre @ x)"
  defines "m \<equiv> rview (rp_keyPrefix r) (view (rp_client r))"
  shows "\<exists>xs. distinct xs \<and> set xs = rmembers (view (rp_client r) (rkey (rp_keyPrefix r) idx)) \<and>
     rp_list K r (rkey (rp_keyPrefix r) idx) rp unjson =
       (r\<lparr>rp_client := fst (rp_parse K (rkey (rp_keyPrefix r) idx) unjson (map (\<lambda>x. (x, m (rpre @ x))) xs) (rp_client r))\<rparr>,
        Inr (List.map_filter (\<lambda>(_, v). decode unjson v) (map (\<lambda>x. (x, m (rpre @ x))) xs)))"
proof -
  let ?p = "rp_keyPrefix r" and ?R = "view (rp_client r)"
  note i = index_of_facts [OF idx]
  have none: "rbytes (?R (rkey ?p idx)) = None" using i(3) rtypedD [OF typed] by auto
  obtain xs where xs: "rd_SMembers K (rp_client r) (rkey ?p idx) = Some xs" "distinct xs"
    "set xs = rmembers (?R (rkey ?p idx))"
    using redis_lawsD(5) [OF laws, OF none] by blast
  let ?items = "map (\<lambda>x. (x, m (rpre @ x))) xs"
  have val: "rbytes (?R (rkey ?p (rpre @ x))) = m (rpre @ x)" for x by (simp add: m_def rview_record i(2))
  have get: "rd_MGet K (rp_client r) (map (\<lambda>x. prefixKey r (rp @ x)) xs) = Some (map (\<lambda>x. m (rpre @ x)) xs)"
    by (simp add: redis_lawsD(6) [OF laws] pre val)
  obtain d ys where p: "rp_parse K (rkey ?p idx) unjson ?items (rp_client r) = (d, ys)" by fastforce
  have zip: "zip xs (map (\<lambda>x. m (rpre @ x)) xs) = ?items" by (simp add: zip_map2 zip_same_conv_map)
  have empty: "xs = [] \<Longrightarrow> d = rp_client r \<and> ys = []" using p by simp
  have "rp_list K r (rkey ?p idx) rp unjson = (r\<lparr>rp_client := d\<rparr>, Inr ys)"
  proof (cases xs)
    case Nil
    then show ?thesis using xs(1) empty by (simp add: rp_list_def)
  next
    case (Cons x xs')
    then show ?thesis using xs(1) get p zip unfolding rp_list_def by simp
  qed
  moreover have "ys = List.map_filter (\<lambda>(_, v). decode unjson v) ?items"
    using rp_parse_result [of K "rkey ?p idx" unjson ?items "rp_client r"] p by (simp add: decode_def)
  ultimately show ?thesis using xs p by auto
qed

lemma rp_list_records:
  assumes valid: "rp_valid K J view r" and idx: "index_of rpre idx"
    and pre: "\<And>x. prefixKey r (rp @ x) = rkey (rp_keyPrefix r) (rpre @ x)"
    and stored: "\<And>x bs. rview (rp_keyPrefix r) (view (rp_client r)) (rpre @ x) = Some bs \<Longrightarrow>
       \<exists>y. int64_range (key y) \<and> x = show_int (key y) \<and> unjson bs = Some (Some y)"
  shows "\<exists>r' rs. rp_list K r (rkey (rp_keyPrefix r) idx) rp unjson = (r', Inr rs) \<and>
     rp_valid K J view r' \<and> rp_abs J view r' = rp_abs J view r \<and> distinct (map key rs) \<and>
     (\<forall>y. y \<in> set rs \<longleftrightarrow> int64_range (key y) \<and>
        decode unjson (rview (rp_keyPrefix r) (view (rp_client r)) (rpre @ show_int (key y))) = Some y)"
proof -
  let ?p = "rp_keyPrefix r"
  let ?m = "rview ?p (view (rp_client r))"
  note V = rp_validD [OF valid] and i = index_of_facts [OF idx]
  let ?f = "\<lambda>(_, v). decode unjson v"
  obtain xs where xs: "distinct xs" "set xs = rmembers (view (rp_client r) (rkey ?p idx))"
    and list: "rp_list K r (rkey ?p idx) rp unjson =
      (r\<lparr>rp_client := fst (rp_parse K (rkey ?p idx) unjson (map (\<lambda>x. (x, ?m (rpre @ x))) xs) (rp_client r))\<rparr>,
       Inr (List.map_filter ?f (map (\<lambda>x. (x, ?m (rpre @ x))) xs)))"
    using rp_list_value [OF V(1) V(4) idx pre] by blast
  let ?items = "map (\<lambda>x. (x, ?m (rpre @ x))) xs"
  let ?d = "fst (rp_parse K (rkey ?p idx) unjson ?items (rp_client r))"
  let ?ys = "List.map_filter ?f ?items"
  have absent: "view (rp_client r) (rkey ?p (rpre @ x)) = None" if "(x, None) \<in> set ?items" for x
    using that rtyped_record [OF V(4) i(2)] by auto
  have "rtyped ?p (view ?d) \<and> rindexed ?p (view ?d) \<and> rview ?p (view ?d) = ?m"
    by (rule rp_parse_state [OF V(1) idx V(4,5), where items = ?items]) (rule absent)
  then have st: "rp_valid K J view (r\<lparr>rp_client := ?d\<rparr>)" "rp_abs J view (r\<lparr>rp_client := ?d\<rparr>) = rp_abs J view r"
    using V by (simp_all add: rp_valid_def rp_abs_def)
  have key: "int64_range (key y) \<and> x = show_int (key y)" if "decode unjson (?m (rpre @ x)) = Some y" for x y
    using that stored [of x] by (auto simp: decode_def split: option.splits)
  have "distinct (map key ?ys)"
  proof (rule distinct_map_filter)
    show "distinct (map fst ?items)" using xs(1) by (simp add: comp_def)
    show "fst it = show_int (key y)" if "it \<in> set ?items" "?f it = Some y" for it y
      using that key by auto
  qed
  moreover have "y \<in> set ?ys \<longleftrightarrow> int64_range (key y) \<and> decode unjson (?m (rpre @ show_int (key y))) = Some y" for y
  proof
    assume "y \<in> set ?ys"
    then obtain x where "decode unjson (?m (rpre @ x)) = Some y" by (auto simp: List.map_filter_def)
    with key [OF this] show "int64_range (key y) \<and> decode unjson (?m (rpre @ show_int (key y))) = Some y" by simp
  next
    assume y: "int64_range (key y) \<and> decode unjson (?m (rpre @ show_int (key y))) = Some y"
    then have "?m (rpre @ show_int (key y)) \<noteq> None" by (auto simp: decode_def split: option.splits)
    then have "show_int (key y) \<in> set xs" unfolding xs(2)
      using rindexedD [OF V(5) idx, of "show_int (key y)"] rtyped_record [OF V(4) i(2)] by simp
    then have "(show_int (key y), ?m (rpre @ show_int (key y))) \<in> set ?items" by simp
    with y show "y \<in> set ?ys" unfolding List.map_filter_def by (auto intro!: image_eqI)
  qed
  ultimately show ?thesis using list st by blast
qed

lemma p_closed_rp_abs [simp]: "p_closed (rp_abs J view r) = rp_closed r"
  by (simp add: rp_abs_def view_abs_def)

lemma index_of_keys: "index_of keyPrefixKeyShare ''keyshares:index''" "index_of keyPrefixSession ''sessions:index''"
  by (simp_all add: index_of_def)

lemma rp_list_keys:
  assumes "rp_valid K J view r" "\<not> rp_closed r"
  shows "\<exists>r' ks. rp_ListKeyShareVersions K J r = (r', Inr ks) \<and> rp_valid K J view r' \<and> rp_abs J view r' = rp_abs J view r \<and>
     sorted_wrt (<) (map Version ks) \<and> (\<forall>k. k \<in> set ks \<longleftrightarrow> p_keys (rp_abs J view r) (Version k) = Some k)"
proof -
  obtain r' rs where rs: "rp_list K r (rkey (rp_keyPrefix r) ''keyshares:index'') redis_keyPrefixKeyShare (unjson_ksv J) = (r', Inr rs)"
    "rp_valid K J view r'" "rp_abs J view r' = rp_abs J view r" "distinct (map Version rs)"
    "\<And>k. k \<in> set rs \<longleftrightarrow> int64_range (Version k) \<and>
       decode (unjson_ksv J) (rview (rp_keyPrefix r) (view (rp_client r)) (keyPrefixKeyShare @ show_int (Version k))) = Some k"
    using rp_list_records [where key = Version and unjson = "unjson_ksv J", OF assms(1) index_of_keys(1)
        prefixKey_rkey(1) view_okD(1) [OF rp_validD(3) [OF assms(1)]]]
    by blast
  moreover have "sorted_wrt (<) (map Version (sort_key Version rs))"
    using rs(4) by (simp add: strict_sorted_iff distinct_map)
  ultimately show ?thesis using assms(2)
    by (simp add: rp_ListKeyShareVersions_def) (simp add: rp_abs_def view_abs_def)
qed

lemma rp_list_sessions:
  assumes "rp_valid K J view r" "\<not> rp_closed r"
  shows "\<exists>r' ps. rp_ListProtocolSessions K J r = (r', Inr ps) \<and> rp_valid K J view r' \<and> rp_abs J view r' = rp_abs J view r \<and>
     (\<forall>p. p \<in> set ps \<longleftrightarrow> p_sessions (rp_abs J view r) (ps_SessionTimestamp p) = Some p)"
proof -
  obtain r' rs where "rp_list K r (rkey (rp_keyPrefix r) ''sessions:index'') redis_keyPrefixSession (unjson_pss J) = (r', Inr rs)"
    "rp_valid K J view r'" "rp_abs J view r' = rp_abs J view r"
    "\<And>p. p \<in> set rs \<longleftrightarrow> int64_range (ps_SessionTimestamp p) \<and>
       decode (unjson_pss J) (rview (rp_keyPrefix r) (view (rp_client r)) (keyPrefixSession @ show_int (ps_SessionTimestamp p))) = Some p"
    using rp_list_records [where key = ps_SessionTimestamp and unjson = "unjson_pss J", OF assms(1) index_of_keys(2)
        prefixKey_rkey(2) view_okD(2) [OF rp_validD(3) [OF assms(1)]]]
    by blast
  with assms(2) show ?thesis
    by (simp add: rp_ListProtocolSessions_def) (simp add: rp_abs_def view_abs_def)
qed

lemma rp_list_poisoned:
  assumes "rp_valid K J view r" "\<not> rp_closed r"
  shows "\<exists>vs. rp_ListPoisonedVersions K r = Inr vs \<and> distinct vs \<and> set vs = p_poisoned (rp_abs J view r)"
proof -
  note V = rp_validD [OF assms(1)]
  let ?s = "rmembers (view (rp_client r) (rkey (rp_keyPrefix r) ''poisoned''))"
  have none: "rbytes (view (rp_client r) (rkey (rp_keyPrefix r) ''poisoned'')) = None" by (rule rtypedD(3) [OF V(4)])
  obtain xs where xs: "rd_SMembers K (rp_client r) (rkey (rp_keyPrefix r) ''poisoned'') = Some xs" "distinct xs" "set xs = ?s"
    using redis_lawsD(5) [OF V(1), OF none] by blast
  have num: "\<exists>v. int64_range v \<and> x = show_int v" if "x \<in> set xs" for x
    using view_okD(3) [OF V(3), of x "[1]"] that xs(3) by (simp add: rview_poisoned)
  have "distinct (map show_int (List.map_filter parse_int64 xs))"
  proof -
    have "distinct (map show_int (List.map_filter (\<lambda>(x, _). parse_int64 x) (map (\<lambda>x. (x, ())) xs)))"
    proof (rule distinct_map_filter)
      show "distinct (map fst (map (\<lambda>x. (x, ())) xs))" using xs(2) by (simp add: comp_def)
      show "fst it = show_int v" if "it \<in> set (map (\<lambda>x. (x, ())) xs)" "(case it of (x, _) \<Rightarrow> parse_int64 x) = Some v" for it v
        using that num by (force simp: parse_show_int)
    qed
    moreover have "List.map_filter (\<lambda>(x, _). parse_int64 x) (map (\<lambda>x. (x, ())) xs) = List.map_filter parse_int64 xs"
      by (induction xs) (simp_all add: map_filter_simps split: option.split)
    ultimately show ?thesis by simp
  qed
  then have "distinct (List.map_filter parse_int64 xs)" by (simp add: distinct_map)
  moreover have "v \<in> set (List.map_filter parse_int64 xs) \<longleftrightarrow> int64_range v \<and> show_int v \<in> ?s" for v
  proof
    assume "v \<in> set (List.map_filter parse_int64 xs)"
    then obtain x where "x \<in> set xs" "parse_int64 x = Some v" by (auto simp: List.map_filter_def)
    moreover obtain v' where "int64_range v'" "x = show_int v'" using num [OF \<open>x \<in> set xs\<close>] by blast
    ultimately show "int64_range v \<and> show_int v \<in> ?s" using xs(3) by (simp add: parse_show_int)
  next
    assume "int64_range v \<and> show_int v \<in> ?s"
    with xs(3) show "v \<in> set (List.map_filter parse_int64 xs)" by (auto simp: List.map_filter_def parse_show_int intro!: image_eqI)
  qed
  ultimately show ?thesis
    using xs(1) assms(2) by (auto simp: rp_ListPoisonedVersions_def rp_abs_def view_abs_def rview_poisoned)
qed

lemma rp_load_block:
  assumes "rp_valid K J view r"
  shows "rp_getBlockRecord K J r c n =
    Inr (decode (unjson_br J) (rview (rp_keyPrefix r) (view (rp_client r)) (block_key c n)))"
  unfolding rp_getBlockRecord_def prefixKey_rkey
  by (rule rp_load_decode [OF assms _ view_okD(4) [OF rp_validD(3) [OF assms]]]) simp

lemma rp_get_last:
  assumes "rp_valid K J view r" "\<not> rp_closed r"
  shows "rp_GetLastProcessedBlockRecord K J r c =
    Inr (case p_last (rp_abs J view r) c of None \<Rightarrow> None | Some n \<Rightarrow> p_blocks (rp_abs J view r) (c, n))"
  using assms view_okD(5) [OF rp_validD(3) [OF assms(1)]] rp_load_block [OF assms(1)]
  by (auto simp: rp_GetLastProcessedBlockRecord_def rp_abs_def view_abs_def split: option.splits)

lemma rp_get_active:
  assumes "rp_valid K J view r" "\<not> rp_closed r"
  shows "rp_GetActiveVersionTimestamp K r = Inr (p_active (rp_abs J view r))"
  using assms view_okD(6) [OF rp_validD(3) [OF assms(1)]]
  by (auto simp: rp_GetActiveVersionTimestamp_def rp_abs_def view_abs_def split: option.splits)

subsection \<open>The implementation meets the contract\<close>

lemma redis_simps [simp]:
  "pi_SaveKeyShareVersion (redis_persistence K J) = rp_SaveKeyShareVersion K J"
  "pi_LoadKeyShareVersion (redis_persistence K J) = rp_LoadKeyShareVersion K J"
  "pi_ListKeyShareVersions (redis_persistence K J) = (\<lambda>r. snd (rp_ListKeyShareVersions K J r))"
  "pi_DeleteKeyShareVersion (redis_persistence K J) = rp_DeleteKeyShareVersion K"
  "pi_AddPoisonedVersion (redis_persistence K J) = rp_AddPoisonedVersion K"
  "pi_ListPoisonedVersions (redis_persistence K J) = rp_ListPoisonedVersions K"
  "pi_SetActiveVersionTimestamp (redis_persistence K J) = rp_SetActiveVersionTimestamp K"
  "pi_GetActiveVersionTimestamp (redis_persistence K J) = rp_GetActiveVersionTimestamp K"
  "pi_SaveNodeState (redis_persistence K J) = rp_SaveNodeState K J"
  "pi_LoadNodeState (redis_persistence K J) = rp_LoadNodeState K J"
  "pi_SaveProtocolSession (redis_persistence K J) = rp_SaveProtocolSession K J"
  "pi_LoadProtocolSession (redis_persistence K J) = rp_LoadProtocolSession K J"
  "pi_DeleteProtocolSession (redis_persistence K J) = rp_DeleteProtocolSession K"
  "pi_ListProtocolSessions (redis_persistence K J) = (\<lambda>r. snd (rp_ListProtocolSessions K J r))"
  "pi_SaveBlockRecord (redis_persistence K J) = rp_SaveBlockRecord K J"
  "pi_GetLastProcessedBlockRecord (redis_persistence K J) = rp_GetLastProcessedBlockRecord K J"
  "pi_GetBlockRecord (redis_persistence K J) = rp_GetBlockRecord K J"
  "pi_DeleteBlockRecord (redis_persistence K J) = rp_DeleteBlockRecord K"
  "pi_Close (redis_persistence K J) = rp_Close K"
  "pi_HealthCheck (redis_persistence K J) = rp_HealthCheck K"
  by (simp_all add: redis_persistence_def)

lemmas rp_write_defs = rp_SaveKeyShareVersion_def rp_DeleteKeyShareVersion_def rp_AddPoisonedVersion_def
  rp_SetActiveVersionTimestamp_def rp_SaveNodeState_def rp_SaveProtocolSession_def rp_DeleteProtocolSession_def
  rp_SaveBlockRecord_def rp_DeleteBlockRecord_def

lemmas rp_read_defs = rp_LoadKeyShareVersion_def rp_ListKeyShareVersions_def rp_ListPoisonedVersions_def
  rp_GetActiveVersionTimestamp_def rp_LoadNodeState_def rp_LoadProtocolSession_def rp_ListProtocolSessions_def
  rp_GetLastProcessedBlockRecord_def rp_GetBlockRecord_def

lemma save_indexed:
  assumes "rp_valid K J view r" "index_of rpre idx"
    "view_ok J ((rview (rp_keyPrefix r) (view (rp_client r)))(rpre @ x \<mapsto> b))"
    "view_abs J ((rview (rp_keyPrefix r) (view (rp_client r)))(rpre @ x \<mapsto> b)) (rp_closed r) = upd (rp_abs J view r)"
  shows "writes (rp_valid K J view) (rp_abs J view) r upd (rp_exec K msg r
     [RSet (rkey (rp_keyPrefix r) (rpre @ x)) b, RSAdd (rkey (rp_keyPrefix r) idx) x])"
proof -
  note R = run_save [OF rp_validD(4,5) [OF assms(1)] assms(2), of x b]
  show ?thesis by (rule rp_writes [OF assms(1) R(1-3)]) (simp_all only: R(4) assms(3,4))
qed

lemma delete_indexed:
  assumes "rp_valid K J view r" "index_of rpre idx"
    "view_ok J ((rview (rp_keyPrefix r) (view (rp_client r)))(rpre @ x := None))"
    "view_abs J ((rview (rp_keyPrefix r) (view (rp_client r)))(rpre @ x := None)) (rp_closed r) = upd (rp_abs J view r)"
  shows "writes (rp_valid K J view) (rp_abs J view) r upd (rp_exec K msg r
     [RDel (rkey (rp_keyPrefix r) (rpre @ x)), RSRem (rkey (rp_keyPrefix r) idx) x])"
proof -
  note R = run_delete [OF rp_validD(4,5) [OF assms(1)] assms(2), of x]
  show ?thesis by (rule rp_writes [OF assms(1) R(1-3)]) (simp_all only: R(4) assms(3,4))
qed

interpretation redis: node_persistence "redis_persistence K J" "rp_valid K J view" "rp_abs J view"
  for K :: "'d redislib" and J :: "'f jsonlib" and view :: "'d \<Rightarrow> redis_view"
proof (unfold_locales, goal_cases)
  case (1 s k)
  obtain bs where bs: "json_ksv J k = Some bs" "unjson_ksv J bs = Some (Some k)"
    using json_lawsD [OF rp_validD(2) [OF 1(1)]] by metis
  show ?case
    using 1 bs view_put_key [OF rp_validD(3) [OF 1(1)] 1(3) bs(2)]
    by (simp add: rp_write_defs) (rule save_indexed [OF _ index_of_keys(1)], simp_all add: rp_abs_def)
next
  case (2 s v)
  then show ?case
    by (simp add: rp_LoadKeyShareVersion_def rp_abs_def view_abs_def)
      (rule rp_load_decode [OF 2(1)], simp, metis view_okD(1) [OF rp_validD(3) [OF 2(1)]])
next
  case (3 s)
  then show ?case using rp_list_keys [OF 3(1)] by force
next
  case (4 s v)
  then show ?case
    using view_del_key [OF rp_validD(3) [OF 4(1)] 4(3)]
    by (simp add: rp_write_defs) (rule delete_indexed [OF _ index_of_keys(1)], simp_all add: rp_abs_def)
next
  case (5 s v)
  note V = rp_validD [OF 5(1)]
  let ?s = "rmembers (view (rp_client s) (rkey (rp_keyPrefix s) ''poisoned''))"
  let ?R = "(view (rp_client s))(rkey (rp_keyPrefix s) ''poisoned'' \<mapsto> RMembers (insert (show_int v) ?s))"
  have "writes (rp_valid K J view) (rp_abs J view) s (\<lambda>a. a\<lparr>p_poisoned := insert v (p_poisoned a)\<rparr>)
      (rp_exec K ''SAdd'' s [RSAdd (rkey (rp_keyPrefix s) ''poisoned'') (show_int v)])"
    by (rule rp_writes [where R = ?R, OF 5(1)])
      (simp_all add: rtypedD [OF V(4)] view_poison [OF V(3) 5(3)] rindexed_poisoned [OF V(5)] rtyped_upd [OF V(4)]
        rview_add_poisoned set_keys_def rp_abs_def)
  with 5 show ?case by (simp add: rp_write_defs)
next
  case (6 s)
  then show ?case using rp_list_poisoned [OF 6(1)] by simp
next
  case (7 s v)
  then show ?case
    using view_set_active [OF rp_validD(3) [OF 7(1)] 7(3)]
    by (simp add: rp_write_defs) (rule put_plain, simp_all add: rp_abs_def)
next
  case (8 s)
  then show ?case by (simp add: rp_get_active)
next
  case (9 s st)
  obtain bs where bs: "json_ns J st = Some bs" "unjson_ns J bs = Some (Some st)"
    using json_lawsD [OF rp_validD(2) [OF 9(1)]] by metis
  show ?case
    using 9 bs view_put_node [OF rp_validD(3) [OF 9(1)] bs(2)]
    by (simp add: rp_write_defs) (rule put_plain, simp_all add: rp_abs_def)
next
  case (10 s)
  then show ?case
    by (simp add: rp_LoadNodeState_def rp_abs_def view_abs_def)
      (rule rp_load_decode [OF 10(1)], simp, metis view_okD(7) [OF rp_validD(3) [OF 10(1)]])
next
  case (11 s p)
  obtain bs where bs: "json_pss J p = Some bs" "unjson_pss J bs = Some (Some p)"
    using json_lawsD [OF rp_validD(2) [OF 11(1)]] by metis
  show ?case
    using 11 bs view_put_session [OF rp_validD(3) [OF 11(1)] 11(3) bs(2)]
    by (simp add: rp_write_defs) (rule save_indexed [OF _ index_of_keys(2)], simp_all add: rp_abs_def)
next
  case (12 s v)
  then show ?case
    by (simp add: rp_LoadProtocolSession_def rp_abs_def view_abs_def)
      (rule rp_load_decode [OF 12(1)], simp, metis view_okD(2) [OF rp_validD(3) [OF 12(1)]])
next
  case (13 s v)
  then show ?case
    using view_del_session [OF rp_validD(3) [OF 13(1)] 13(3)]
    by (simp add: rp_write_defs) (rule delete_indexed [OF _ index_of_keys(2)], simp_all add: rp_abs_def)
next
  case (14 s)
  then show ?case using rp_list_sessions [OF 14(1)] by force
next
  case (15 s b)
  note V = rp_validD [OF 15(1)]
  obtain bs where bs: "json_br J b = Some bs" "unjson_br J bs = Some (Some b)"
    using json_lawsD [OF V(2)] by metis
  let ?R = "(view (rp_client s))
    (rkey (rp_keyPrefix s) (block_key (br_ChainId b) (br_Number b)) \<mapsto> RBytes bs,
     rkey (rp_keyPrefix s) (keyPrefixLastBlock @ show_nat (br_ChainId b)) \<mapsto> RBytes (be_bytes 8 (br_Number b)))"
  show ?case
    using 15 bs view_put_block [OF V(3) bs(2) 15(3)]
    by (simp add: rp_write_defs)
      (rule rp_writes [where R = ?R], simp_all add: rp_abs_def rview_put rtyped_upd rindexed_plain V)
next
  case (16 s c n)
  then show ?case
    by (simp add: rp_GetBlockRecord_def rp_load_block [OF 16(1)] rp_abs_def view_abs_def)
next
  case (17 s c)
  then show ?case by (simp add: rp_get_last)
next
  case (18 s c n)
  note V = rp_validD [OF 18(1)]
  show ?case
    using 18 view_del_block [OF V(3)]
    by (simp add: rp_write_defs)
      (rule rp_writes [where R = "(view (rp_client s))(rkey (rp_keyPrefix s) (block_key c n) := None)"],
       simp_all add: rp_abs_def rview_del rtyped_upd rindexed_plain V)
next
  case (19 s)
  then show ?case
    using redis_lawsD(7) [OF rp_validD(1) [OF 19]]
    by (cases "rp_closed s") (auto simp: rp_Close_def writes_def rp_valid_def rp_abs_def view_abs_def)
next
  case (20 s)
  then show ?case
    using view_okD(8) [OF rp_validD(3) [OF 20]] redis_lawsD(1) [OF rp_validD(1) [OF 20]]
    by (auto simp: rp_HealthCheck_def)
next
  case (21 s v c n)
  then show ?case by (simp add: rp_read_defs failed_def)
next
  case (22 s r ko v sto po bo c n)
  then show ?case by (auto simp: rp_write_defs failed_def split: option.splits)
next
  case (23 s r)
  then show ?case by (auto simp: rp_write_defs failed_def)
qed

lemma rp_list_state:
  assumes "rp_valid K J view r"
  shows "rp_valid K J view (fst (rp_ListKeyShareVersions K J r)) \<and>
    rp_abs J view (fst (rp_ListKeyShareVersions K J r)) = rp_abs J view r \<and>
    rp_valid K J view (fst (rp_ListProtocolSessions K J r)) \<and>
    rp_abs J view (fst (rp_ListProtocolSessions K J r)) = rp_abs J view r"
proof (cases "rp_closed r")
  case True
  with assms show ?thesis by (simp add: rp_ListKeyShareVersions_def rp_ListProtocolSessions_def)
next
  case False
  with rp_list_keys [OF assms] rp_list_sessions [OF assms] show ?thesis by (metis fst_conv)
qed

subsection \<open>Start\<close>

lemma rp_Ping [simp]: "redis_laws K view \<Longrightarrow> rd_Ping K d"
  by (rule redis_lawsD(1))

text \<open>On a database without a key of the prefix the constructor gives an empty store.\<close>

lemma NewRedisPersistence_fresh:
  assumes "redis_laws K view" "json_laws J" "rd_Address c \<noteq> ''''" "\<And>k. view (dial c) (rkey (rd_KeyPrefix c) k) = None"
  shows "\<exists>r. NewRedisPersistence K dial (Some c) = Inr r \<and> rp_keyPrefix r = rd_KeyPrefix c \<and>
    rp_valid K J view r \<and> rp_abs J view r = empty_pstore"
proof -
  let ?r = "\<lparr>rp_client = dial c, rp_keyPrefix = rd_KeyPrefix c, rp_closed = False\<rparr>"
  let ?p = "rd_KeyPrefix c"
  let ?cmds = "[RSet (rkey ?p keySchemaVersion) schema_bytes]"
  let ?d = "fst (rd_Exec K (dial c) ?cmds)"
  have d: "view ?d = (view (dial c))(rkey ?p keySchemaVersion \<mapsto> RBytes schema_bytes)" "snd (rd_Exec K (dial c) ?cmds)"
    using redis_lawsD(3,4) [OF assms(1), of "dial c" ?cmds] by simp_all
  then obtain d0 where e: "rd_Exec K (dial c) ?cmds = (d0, True)" by (cases "rd_Exec K (dial c) ?cmds") simp
  have "rd_Get K (dial c) (rkey ?p keySchemaVersion) = Some None"
    by (simp add: redis_lawsD(2) [OF assms(1)] assms(4))
  then have "NewRedisPersistence K dial (Some c) = Inr (?r\<lparr>rp_client := ?d\<rparr>)"
    using assms(1,3) e prefixKey_rkey(7) [of ?r]
    by (simp add: NewRedisPersistence_def rp_initSchema_def rp_exec_def)
  moreover have "rview ?p (view ?d) = (\<lambda>_. None)(keySchemaVersion \<mapsto> schema_bytes)"
  proof -
    have "rview ?p (view (dial c)) = (\<lambda>_. None)" using assms(4) by (simp add: rview_def fun_eq_iff)
    then show ?thesis by (simp add: d(1) rview_put)
  qed
  then have "view_ok J (rview ?p (view ?d))" "view_abs J (rview ?p (view ?d)) False = empty_pstore"
    by (auto simp: view_ok_def view_abs_def empty_pstore_def decode_def keys_distinct [symmetric] fun_eq_iff)
  moreover have "rtyped ?p (view (dial c))" "rindexed ?p (view (dial c))"
    by (simp_all add: rtyped_def rindexed_def assms(4))
  then have "rtyped ?p (view ?d)" "rindexed ?p (view ?d)"
    unfolding d(1) by (simp_all add: rtyped_upd rindexed_plain)
  ultimately show ?thesis using assms(1,2) by (auto simp: rp_valid_def rp_abs_def)
qed

text \<open>On the database of an earlier store the constructor gives that store again.\<close>

lemma NewRedisPersistence_reopen:
  assumes "rp_valid K J view r" "rd_Address c \<noteq> ''''" "rd_KeyPrefix c = rp_keyPrefix r" "dial c = rp_client r"
  shows "NewRedisPersistence K dial (Some c) = Inr (r\<lparr>rp_closed := False\<rparr>)"
proof -
  note V = rp_validD [OF assms(1)]
  have "rd_Get K (rp_client r) (rkey (rp_keyPrefix r) keySchemaVersion) = Some (Some schema_bytes)"
    using rp_Get [OF assms(1), of keySchemaVersion] view_okD(8) [OF V(3)] by simp
  then show ?thesis
    using assms(2-4) V(1) prefixKey_rkey(7) [of "r\<lparr>rp_closed := False\<rparr>"]
    by (cases r) (simp add: NewRedisPersistence_def rp_initSchema_def)
qed

lemma NewRedisPersistence_rejects:
  assumes "cfg = None \<or> (\<exists>c. cfg = Some c \<and> (rd_Address c = '''' \<or> \<not> rd_Ping K (dial c)))"
  shows "failed (NewRedisPersistence K dial cfg)"
  using assms by (elim disjE exE conjE) (simp_all add: NewRedisPersistence_def failed_def)

subsection \<open>Tenants\<close>

text \<open>
  Stores with different prefixes share a database. No key of the one is a key of the other, unless the
  prefix of the writer begins with the other's prefix and \<open>kms:\<close>, so that it lies within the other's
  keys: the last \<open>kms:\<close> in a key of the writer ends its prefix.
\<close>

fun contains_kms :: "string \<Rightarrow> bool" where
  "contains_kms [] = False"
| "contains_kms (c # cs) = (take 4 (c # cs) = ''kms:'' \<or> contains_kms cs)"

lemma contains_kms_mid [simp]: "contains_kms (u @ CHR ''k'' # CHR ''m'' # CHR ''s'' # CHR '':'' # v)"
  by (induction u) simp_all

lemma not_contains_kms: "CHR ''m'' \<notin> set k \<Longrightarrow> \<not> contains_kms k"
proof (induction k)
  case (Cons c k)
  then have "CHR ''m'' \<notin> set (take 4 (c # k))" using set_take_subset [of 4 "c # k"] by (auto simp del: take_Suc_Cons)
  then have "take 4 (c # k) \<noteq> ''kms:''" by auto
  with Cons show ?case by simp
qed simp

lemma show_nat_no_m [simp]: "CHR ''m'' \<notin> set (show_nat n)"
  using show_nat_digits [of n] by (auto simp: list_all_iff is_digit_def)

lemma show_int_no_m [simp]: "CHR ''m'' \<notin> set (show_int v)"
  by (simp add: show_int_def)

lemma used_keys [simp]:
  "\<not> contains_kms (keyPrefixKeyShare @ show_int v)" "\<not> contains_kms (keyPrefixSession @ show_int v)"
  "\<not> contains_kms (keyPrefixLastBlock @ show_nat n)" "\<not> contains_kms (block_key c n)"
  "\<not> contains_kms keyPrefixActiveVersion" "\<not> contains_kms keyPrefixNodeState"
  "\<not> contains_kms ''keyshares:index''" "\<not> contains_kms ''sessions:index''" "\<not> contains_kms ''poisoned''"
  by (simp_all add: key_defs block_key_def not_contains_kms)

lemma kms_overlap:
  assumes "z @ ''kms:'' @ k' = ''kms:'' @ k" "z \<noteq> []"
  obtains z' where "z = ''kms:'' @ z'" "k = z' @ ''kms:'' @ k'"
proof -
  have "\<exists>z'. z = ''kms:'' @ z' \<and> k = z' @ ''kms:'' @ k'"
    using assms by (auto simp: Cons_eq_append_conv append_eq_Cons_conv)
  then show thesis using that by blast
qed

lemma rkey_tenants:
  assumes "rkey p k = rkey q k'" "\<not> contains_kms k" "take (length q + 4) p \<noteq> q @ ''kms:''"
  shows "p = q"
proof -
  from assms(1) obtain z where z: "p = q @ z \<and> z @ ''kms:'' @ k = ''kms:'' @ k' \<or> p @ z = q \<and> ''kms:'' @ k = z @ ''kms:'' @ k'"
    unfolding rkey_def append_eq_append_conv2 by blast
  show ?thesis
  proof (cases "z = []")
    case False
    from z show ?thesis
    proof
      assume "p = q @ z \<and> z @ ''kms:'' @ k = ''kms:'' @ k'"
      with False obtain z' where "p = q @ ''kms:'' @ z'" by (metis kms_overlap)
      with assms(3) show ?thesis by simp
    next
      assume "p @ z = q \<and> ''kms:'' @ k = z @ ''kms:'' @ k'"
      with False obtain z' where "k = z' @ ''kms:'' @ k'" by (metis kms_overlap)
      with assms(2) show ?thesis by simp
    qed
  qed (use z in auto)
qed

primrec cmd_key :: "redis_cmd \<Rightarrow> string" where
  "cmd_key (RSet k b) = k" | "cmd_key (RDel k) = k" | "cmd_key (RSAdd k x) = k" | "cmd_key (RSRem k x) = k"

lemma redis_step_frame: "key \<noteq> cmd_key c \<Longrightarrow> fst (redis_step c R) key = R key"
  by (cases c) simp_all

lemma redis_run_frame: "key \<notin> cmd_key ` set cmds \<Longrightarrow> fst (redis_run cmds R) key = R key"
proof (induction cmds arbitrary: R)
  case (Cons c cmds)
  then show ?case using redis_step_frame [of key c R] by (simp add: case_prod_beta)
qed simp

text \<open>Every write is a pipeline on keys of the writer's prefix.\<close>

lemma writes_own_keys:
  assumes "\<not> rp_closed r" "json_laws J"
  shows "\<exists>msg cmds. perform (redis_persistence K J) r w = rp_exec K msg r cmds \<and>
    (\<forall>c \<in> set cmds. \<exists>k. cmd_key c = rkey (rp_keyPrefix r) k \<and> \<not> contains_kms k)"
proof (cases w)
  case (SaveKey k)
  obtain bs where "json_ksv J k = Some bs" using json_lawsD [OF assms(2)] by metis
  with SaveKey assms(1) show ?thesis by (fastforce simp: rp_write_defs)
next
  case (SaveNode st)
  obtain bs where "json_ns J st = Some bs" using json_lawsD [OF assms(2)] by metis
  with SaveNode assms(1) show ?thesis by (fastforce simp: rp_write_defs)
next
  case (SaveSession p)
  obtain bs where "json_pss J p = Some bs" using json_lawsD [OF assms(2)] by metis
  with SaveSession assms(1) show ?thesis by (fastforce simp: rp_write_defs)
next
  case (SaveBlock b)
  obtain bs where "json_br J b = Some bs" using json_lawsD [OF assms(2)] by metis
  with SaveBlock assms(1) show ?thesis by (fastforce simp: rp_write_defs)
qed (use assms(1) in \<open>fastforce simp: rp_write_defs\<close>)+

text \<open>
  C25. Stores with different key prefixes on one redis database are separate, when the prefix of the
  writer does not begin with the other's prefix followed by \<open>kms:\<close>: a write through one store succeeds,
  and the other store is as well-formed as before and holds what it held, so each of its loads and
  listings is unaffected.
\<close>

theorem tenants_isolated:
  assumes "rp_valid K J view a" "rp_valid K J view b" "rp_client b = rp_client a" "\<not> rp_closed a"
    "rp_keyPrefix a \<noteq> rp_keyPrefix b" "take (length (rp_keyPrefix b) + 4) (rp_keyPrefix a) \<noteq> rp_keyPrefix b @ ''kms:''" "op_range w"
    "perform (redis_persistence K J) a w = (a', e)" "b' = b\<lparr>rp_client := rp_client a'\<rparr>"
  shows "e = Inr () \<and> rp_abs J view a' = effect w (rp_abs J view a) \<and>
    rp_valid K J view b' \<and> rp_abs J view b' = rp_abs J view b"
proof -
  have w: "e = Inr ()" "rp_abs J view a' = effect w (rp_abs J view a)"
    using redis.perform_writes [OF assms(1) _ assms(7)] assms(4,8) by (simp_all add: writes_def)
  obtain msg cmds where c: "perform (redis_persistence K J) a w = rp_exec K msg a cmds"
    "\<And>c. c \<in> set cmds \<Longrightarrow> \<exists>k. cmd_key c = rkey (rp_keyPrefix a) k \<and> \<not> contains_kms k"
    using writes_own_keys [OF assms(4) rp_validD(2) [OF assms(1)]] by metis
  have "rp_client a' = fst (rd_Exec K (rp_client a) cmds)"
    using assms(8) c(1) by (auto simp: rp_exec_def split: prod.splits)
  then have view: "view (rp_client a') = fst (redis_run cmds (view (rp_client a)))"
    using redis_lawsD(3) [OF rp_validD(1) [OF assms(1)]] by simp
  have "rkey (rp_keyPrefix b) k' \<notin> cmd_key ` set cmds" for k'
    using c(2) rkey_tenants [OF _ _ assms(6)] assms(5) by (metis imageE)
  then have same: "view (rp_client a') (rkey (rp_keyPrefix b) k') = view (rp_client b) (rkey (rp_keyPrefix b) k')" for k'
    unfolding view assms(3) by (rule redis_run_frame)
  have "rview (rp_keyPrefix b) (view (rp_client a')) = rview (rp_keyPrefix b) (view (rp_client b))"
    by (simp add: rview_def same fun_eq_iff)
  with assms(2) w same show ?thesis
    unfolding assms(9) rp_valid_def rp_abs_def by (simp add: rtyped_def rindexed_def)
qed

subsection \<open>A pipeline is not a transaction\<close>

text \<open>The connection is lost after the first \<open>n\<close> commands of a pipeline.\<close>

definition cut_after :: "nat \<Rightarrow> 'd redislib \<Rightarrow> 'd redislib" where
  "cut_after n K = K\<lparr>rd_Exec := (\<lambda>d cmds. (fst (rd_Exec K d (take n cmds)), False))\<rparr>"

lemma rp_list_versions_set:
  assumes "redis_laws K view" "rtyped (rp_keyPrefix r) (view (rp_client r))" "\<not> rp_closed r"
  shows "\<exists>r' ks. rp_ListKeyShareVersions K J r = (r', Inr ks) \<and>
    set ks = {y. \<exists>x \<in> rmembers (view (rp_client r) (rkey (rp_keyPrefix r) ''keyshares:index'')).
       decode (unjson_ksv J) (rview (rp_keyPrefix r) (view (rp_client r)) (keyPrefixKeyShare @ x)) = Some y}"
proof -
  let ?m = "\<lambda>x. rview (rp_keyPrefix r) (view (rp_client r)) (keyPrefixKeyShare @ x)"
  obtain xs r' where xs: "set xs = rmembers (view (rp_client r) (rkey (rp_keyPrefix r) ''keyshares:index''))"
    "rp_list K r (rkey (rp_keyPrefix r) ''keyshares:index'') redis_keyPrefixKeyShare (unjson_ksv J) =
       (r', Inr (List.map_filter (\<lambda>(_, v). decode (unjson_ksv J) v) (map (\<lambda>x. (x, ?m x)) xs)))"
    using rp_list_value [OF assms(1,2) index_of_keys(1) prefixKey_rkey(1), where unjson = "unjson_ksv J"] by blast
  have "set (List.map_filter (\<lambda>(_, v). decode (unjson_ksv J) v) (map (\<lambda>x. (x, ?m x)) xs)) =
      {y. \<exists>x \<in> set xs. decode (unjson_ksv J) (?m x) = Some y}"
    by (induction xs) (auto simp: map_filter_simps split: option.split)
  with xs assms(3) show ?thesis by (simp add: rp_ListKeyShareVersions_def)
qed

text \<open>
  A save that is cut between its two commands fails, and the key share is stored but not indexed: it is
  loaded by its version, and no listing gives it.
\<close>

theorem save_cut:
  assumes "rp_valid K J view r" "\<not> rp_closed r" "int64_range (Version k)"
    "show_int (Version k) \<notin> rmembers (view (rp_client r) (rkey (rp_keyPrefix r) ''keyshares:index''))"
    "rp_SaveKeyShareVersion (cut_after 1 K) J r (Some k) = (r1, e)"
  shows "failed e \<and> rp_LoadKeyShareVersion K J r1 (Version k) = Inr (Some k) \<and>
    map_sum id set (snd (rp_ListKeyShareVersions K J r1)) = map_sum id set (snd (rp_ListKeyShareVersions K J r))"
proof -
  let ?p = "rp_keyPrefix r" and ?R = "view (rp_client r)" and ?k = "keyPrefixKeyShare @ show_int (Version k)"
  note V = rp_validD [OF assms(1)]
  obtain bs where bs: "json_ksv J k = Some bs" "unjson_ksv J bs = Some (Some k)" using json_lawsD [OF V(2)] by metis
  let ?d = "fst (rd_Exec K (rp_client r) [RSet (rkey ?p ?k) bs])"
  have r1: "r1 = r\<lparr>rp_client := ?d\<rparr>" "failed e"
    using assms(2,5) bs(1) by (auto simp: rp_SaveKeyShareVersion_def rp_exec_def cut_after_def failed_def)
  have d: "view ?d = ?R(rkey ?p ?k \<mapsto> RBytes bs)" by (simp add: redis_lawsD(3) [OF V(1)])
  have m: "rview ?p (view ?d) = (rview ?p ?R)(?k \<mapsto> bs)" unfolding d by (rule rview_put) simp
  have typed: "rtyped ?p (view ?d)" unfolding d by (rule rtyped_upd(1) [OF V(4)]) simp
  have get: "rd_Get K ?d (rkey ?p ?k) = Some (Some bs)" by (simp add: redis_lawsD(2) [OF V(1)] d)
  have members: "view ?d (rkey ?p ''keyshares:index'') = ?R (rkey ?p ''keyshares:index'')"
    unfolding d using index_of_facts(4) [OF index_of_keys(1), of "show_int (Version k)"] by simp
  obtain q ks where ks: "rp_ListKeyShareVersions K J r = (q, Inr ks)"
    "set ks = {y. \<exists>x \<in> rmembers (?R (rkey ?p ''keyshares:index'')). decode (unjson_ksv J) (rview ?p ?R (keyPrefixKeyShare @ x)) = Some y}"
    using rp_list_versions_set [OF V(1,4) assms(2)] by blast
  obtain q1 ks1 where ks1: "rp_ListKeyShareVersions K J r1 = (q1, Inr ks1)"
    "set ks1 = {y. \<exists>x \<in> rmembers (?R (rkey ?p ''keyshares:index'')). decode (unjson_ksv J) (rview ?p (view ?d) (keyPrefixKeyShare @ x)) = Some y}"
    using rp_list_versions_set [where r = r1 and J = J, OF V(1)] typed assms(2) members unfolding r1(1) by simp blast
  have "set ks1 = set ks" unfolding ks(2) ks1(2) m using assms(4) by (intro Collect_cong bex_cong refl) auto
  moreover have "rp_LoadKeyShareVersion K J r1 (Version k) = Inr (Some k)"
    using assms(2) get bs(2) unfolding r1(1)
    by (simp add: rp_LoadKeyShareVersion_def rp_load_def prefixKey_rkey(1) [of "r\<lparr>rp_client := ?d\<rparr>"])
  ultimately show ?thesis using r1(2) ks(1) ks1(1) by simp
qed
subsection \<open>A concrete server\<close>

text \<open>A database as an association list of strings and lists of members.\<close>

datatype mock_value = MBytes bytes | MMembers "string list"

type_synonym mock_rdb = "(string, mock_value) gomap"

fun mock_members :: "mock_value option \<Rightarrow> string list" where
  "mock_members (Some (MMembers xs)) = xs"
| "mock_members _ = []"

fun mock_bytes :: "mock_value option \<Rightarrow> bytes option" where
  "mock_bytes (Some (MBytes b)) = Some b"
| "mock_bytes _ = None"

fun mock_step :: "redis_cmd \<Rightarrow> mock_rdb \<Rightarrow> mock_rdb \<times> bool" where
  "mock_step (RSet k b) d = (gm_set d k (MBytes b), True)"
| "mock_step (RDel k) d = (gm_del d k, True)"
| "mock_step (RSAdd k x) d =
     (if mock_bytes (gm_get d k) \<noteq> None then (d, False)
      else (gm_set d k (MMembers (List.insert x (mock_members (gm_get d k)))), True))"
| "mock_step (RSRem k x) d =
     (if mock_bytes (gm_get d k) \<noteq> None then (d, False)
      else (case filter (\<lambda>y. y \<noteq> x) (mock_members (gm_get d k)) of
              [] \<Rightarrow> gm_del d k | xs \<Rightarrow> gm_set d k (MMembers xs), True))"

primrec mock_run :: "redis_cmd list \<Rightarrow> mock_rdb \<Rightarrow> mock_rdb \<times> bool" where
  "mock_run [] d = (d, True)"
| "mock_run (c # cs) d =
     (case mock_step c d of (d1, good1) \<Rightarrow> case mock_run cs d1 of (d2, good2) \<Rightarrow> (d2, good1 \<and> good2))"

definition mock_redis :: "mock_rdb redislib" where
  "mock_redis =
     \<lparr>rd_Ping = (\<lambda>_. True),
      rd_Get = (\<lambda>d k. case gm_get d k of Some (MMembers _) \<Rightarrow> None | v \<Rightarrow> Some (mock_bytes v)),
      rd_Exec = (\<lambda>d cmds. mock_run cmds d),
      rd_SMembers = (\<lambda>d k. case gm_get d k of Some (MBytes _) \<Rightarrow> None | v \<Rightarrow> Some (remdups (mock_members v))),
      rd_MGet = (\<lambda>d ks. Some (map (\<lambda>k. mock_bytes (gm_get d k)) ks)),
      rd_Close = (\<lambda>_. True)\<rparr>"

fun mock_value_of :: "mock_value \<Rightarrow> redis_value" where
  "mock_value_of (MBytes b) = RBytes b"
| "mock_value_of (MMembers xs) = RMembers (set xs)"

definition mock_rview :: "mock_rdb \<Rightarrow> redis_view" where
  "mock_rview d k = map_option mock_value_of (gm_get d k)"

lemma mock_rview_simps [simp]:
  "mock_rview (gm_set d k v) = (mock_rview d)(k \<mapsto> mock_value_of v)"
  "mock_rview (gm_del d k) = (mock_rview d)(k := None)"
  by (auto simp: mock_rview_def fun_eq_iff)

lemma mock_reads [simp]:
  "rbytes (mock_rview d k) = mock_bytes (gm_get d k)" "rmembers (mock_rview d k) = set (mock_members (gm_get d k))"
  by (cases "gm_get d k"; cases "the (gm_get d k)"; simp add: mock_rview_def)+

lemma mock_step_view: "mock_rview (fst (mock_step c d)) = fst (redis_step c (mock_rview d)) \<and>
    snd (mock_step c d) = snd (redis_step c (mock_rview d))"
proof (cases c)
  case (RSRem k x)
  let ?f = "filter (\<lambda>y. y \<noteq> x) (mock_members (gm_get d k))"
  have e: "set (mock_members (gm_get d k)) \<subseteq> {x} \<longleftrightarrow> ?f = []" by (auto simp: filter_empty_conv)
  have f: "set (mock_members (gm_get d k)) - {x} = set ?f" by auto
  show ?thesis
  proof (cases "mock_bytes (gm_get d k)")
    case None
    show ?thesis unfolding RSRem redis_step.simps mock_step.simps mock_reads e f None by (cases ?f) simp_all
  qed (simp add: RSRem)
qed auto

lemma mock_run_view: "mock_rview (fst (mock_run cs d)) = fst (redis_run cs (mock_rview d)) \<and>
    snd (mock_run cs d) = snd (redis_run cs (mock_rview d))"
proof (induction cs arbitrary: d)
  case (Cons c cs)
  then show ?case using mock_step_view [of c d] by (simp add: case_prod_beta)
qed simp

lemma mock_redis_laws: "redis_laws mock_redis mock_rview"
proof -
  have get: "(case gm_get d k of Some (MMembers _) \<Rightarrow> None | v \<Rightarrow> Some (mock_bytes v)) =
      (case mock_rview d k of Some (RMembers _) \<Rightarrow> None | v \<Rightarrow> Some (rbytes v))" for d k
    by (simp add: mock_rview_def split: option.split mock_value.split)
  have mem: "(case gm_get d k of Some (MBytes _) \<Rightarrow> None | v \<Rightarrow> Some (remdups (mock_members v))) =
      Some (remdups (mock_members (gm_get d k)))" if "mock_bytes (gm_get d k) = None" for d k
    using that by (cases "gm_get d k"; cases "the (gm_get d k)") simp_all
  show ?thesis
    using mock_run_view by (simp add: redis_laws_def mock_redis_def get mem)
qed

definition mock_tenant :: "string \<Rightarrow> mock_rdb RedisPersistence" where
  "mock_tenant pre = \<lparr>rp_client = [(''a-kms:kms:metadata:schema_version'', MBytes schema_bytes),
     (''b:kms:metadata:schema_version'', MBytes schema_bytes)], rp_keyPrefix = pre, rp_closed = False\<rparr>"

lemma mock_tenant_valid:
  assumes "pre = ''a-kms:'' \<or> pre = ''b:''"
  shows "rp_valid mock_redis mock_json mock_rview (mock_tenant pre)"
proof -
  have k: "mock_rview (rp_client (mock_tenant pre)) (rkey pre k) =
      (if k = keySchemaVersion then Some (RBytes schema_bytes) else None)" for k
    using assms by (auto simp: mock_rview_def mock_tenant_def rkey_def keySchemaVersion_def)
  have "rview pre (mock_rview (rp_client (mock_tenant pre))) = (\<lambda>_. None)(keySchemaVersion \<mapsto> schema_bytes)"
    by (auto simp: rview_def k fun_eq_iff keySchemaVersion_def keyPrefixPoisoned_def)
  then have "view_ok mock_json (rview pre (mock_rview (rp_client (mock_tenant pre))))"
    by (auto simp: view_ok_def keys_distinct [symmetric])
  moreover have "rtyped pre (mock_rview (rp_client (mock_tenant pre)))"
    by (auto simp: rtyped_def k set_keys_def keySchemaVersion_def)
  moreover have "rindexed pre (mock_rview (rp_client (mock_tenant pre)))"
    by (auto simp: rindexed_def k index_of_def keys_distinct [symmetric])
  ultimately show ?thesis
    using mock_redis_laws mock_json_laws by (simp add: rp_valid_def mock_tenant_def)
qed

theorem tenants_isolated_witness:
  "\<exists>a' e. perform (redis_persistence mock_redis mock_json) (mock_tenant ''a-kms:'') (SaveKey (mock_ksv 7)) = (a', e) \<and>
     e = Inr () \<and> p_keys (rp_abs mock_json mock_rview a') 7 = Some (mock_ksv 7) \<and>
     p_keys (rp_abs mock_json mock_rview (mock_tenant ''b:''\<lparr>rp_client := rp_client a'\<rparr>)) 7 =
     p_keys (rp_abs mock_json mock_rview (mock_tenant ''b:'')) 7"
proof -
  obtain a' e where p: "perform (redis_persistence mock_redis mock_json) (mock_tenant ''a-kms:'') (SaveKey (mock_ksv 7)) = (a', e)"
    by fastforce
  have "e = Inr () \<and> rp_abs mock_json mock_rview a' = effect (SaveKey (mock_ksv 7)) (rp_abs mock_json mock_rview (mock_tenant ''a-kms:'')) \<and>
    rp_valid mock_redis mock_json mock_rview (mock_tenant ''b:''\<lparr>rp_client := rp_client a'\<rparr>) \<and>
    rp_abs mock_json mock_rview (mock_tenant ''b:''\<lparr>rp_client := rp_client a'\<rparr>) = rp_abs mock_json mock_rview (mock_tenant ''b:'')"
    by (rule tenants_isolated [OF mock_tenant_valid mock_tenant_valid _ _ _ _ _ p refl])
      (simp_all add: mock_tenant_def mock_ksv_def int64_range_def)
  with p show ?thesis by (simp add: mock_ksv_def)
qed

definition mock_redis_config :: redis_RedisConfig where
  "mock_redis_config = \<lparr>rd_Address = ''localhost:6379'', rd_Password = '''', rd_DB = 0, rd_KeyPrefix = ''a:''\<rparr>"

definition mock_redis_store :: "mock_rdb RedisPersistence" where
  "mock_redis_store = \<lparr>rp_client = [(''a:kms:metadata:schema_version'', MBytes schema_bytes)], rp_keyPrefix = ''a:'', rp_closed = False\<rparr>"

lemma mock_redis_store_new: "NewRedisPersistence mock_redis (\<lambda>_. []) (Some mock_redis_config) = Inr mock_redis_store"
  by (simp add: NewRedisPersistence_def mock_redis_config_def mock_redis_store_def mock_redis_def rp_initSchema_def rp_exec_def
      prefixKey_def redis_keySchemaVersion_def)

end
