(* ===== verification/Session.thy ===== *)
theory Session
  imports Sharing Persistence Finite_Field
begin

text \<open>
  The protocol sessions of \<open>pkg/node/node.go\<close>: the state a node keeps of one round, the handlers
  of received shares, commitments and acknowledgements, the shares retained after a round, and the
  form in which a session is persisted. A completion channel has a buffer of one message and is sent
  to without blocking, so it is a flag. The merkle tree that a session stores is never read and left
  out. The theorems: the handlers keep the first message of each sender and raise the completion
  signal exactly when every operator has been heard; the source version is recorded with the
  commitments; retained shares are served for the last four rounds and no more are kept.
\<close>

record 'f ProtocolSession =
  SessionTimestamp :: int64
  SessionType :: string
  Phase :: int
  StartTime :: int64
  Operators :: "OperatorSetPeer list"
  TriggerBlockNumber :: int64
  shares :: "(address, 'f option) gomap"
  commitments :: "(address, G2Point list) gomap"
  acks :: "(address, (address, Acknowledgement) gomap) gomap"
  sourceVersions :: "(address, int64) gomap"
  myGeneratedShares :: "(address, 'f) gomap option"
  sharesCompleteChan :: bool
  commitmentsCompleteChan :: bool
  acksCompleteChan :: bool
  verifiedOperators :: "(address, bool) gomap"

text \<open>\<open>len(s.Operators)\<close> and the index of a nil map are written out.\<close>

definition ack_map :: "'f ProtocolSession \<Rightarrow> address \<Rightarrow> (address, Acknowledgement) gomap" where
  "ack_map s dealer = (case gm_get (acks s) dealer of None \<Rightarrow> [] | Some m \<Rightarrow> m)"

definition validateOperatorSetNoDuplicates :: "OperatorSetPeer option list \<Rightarrow> unit res" where
  "validateOperatorSetNoDuplicates operators =
     bind_res (fold_res (\<lambda>op seen.
         case op of
           None \<Rightarrow> Inl (Errorf ''operator is nil'')
         | Some p \<Rightarrow>
             if OperatorAddress p \<in> set seen then Inl (Errorf ''duplicate operator address in operator set'')
             else Inr (OperatorAddress p # seen)) operators [])
       (\<lambda>_. Inr ())"

text \<open>\<open>now\<close> is \<open>time.Now()\<close>, in seconds.\<close>

definition new_session :: "int64 \<Rightarrow> string \<Rightarrow> OperatorSetPeer list \<Rightarrow> int64 \<Rightarrow> 'f ProtocolSession" where
  "new_session now sessionType operators sessionTimestamp =
     \<lparr>SessionTimestamp = sessionTimestamp, SessionType = sessionType, Phase = 1, StartTime = now,
      Operators = operators, TriggerBlockNumber = 0, shares = [], commitments = [],
      acks = fold (\<lambda>op m. gm_set m (OperatorAddress op) []) operators [],
      sourceVersions = [], myGeneratedShares = None,
      sharesCompleteChan = False, commitmentsCompleteChan = False, acksCompleteChan = False,
      verifiedOperators = []\<rparr>"

subsection \<open>Handlers\<close>

definition HandleReceivedShare ::
  "address \<Rightarrow> 'f option \<Rightarrow> 'f ProtocolSession \<Rightarrow> 'f ProtocolSession \<times> unit res" where
  "HandleReceivedShare sender share s =
     (if gm_get (shares s) sender \<noteq> None then (s, Inl (Errorf ''duplicate share''))
      else
        let s1 = s\<lparr>shares := gm_set (shares s) sender share\<rparr> in
        (if length (shares s1) = length (Operators s1) then s1\<lparr>sharesCompleteChan := True\<rparr> else s1, Inr ()))"

definition HandleReceivedCommitment ::
  "address \<Rightarrow> G2Point list \<Rightarrow> int64 \<Rightarrow> 'f ProtocolSession \<Rightarrow> 'f ProtocolSession \<times> unit res" where
  "HandleReceivedCommitment sender cs sourceVersion s =
     (if length cs = 0 then (s, Inl (Errorf ''empty commitments''))
      else if gm_get (commitments s) sender \<noteq> None then (s, Inl (Errorf ''duplicate commitment''))
      else
        let s1 = s\<lparr>commitments := gm_set (commitments s) sender cs,
                   sourceVersions := gm_set (sourceVersions s) sender sourceVersion\<rparr> in
        (if length (commitments s1) = length (Operators s1) then s1\<lparr>commitmentsCompleteChan := True\<rparr> else s1, Inr ()))"

definition HandleReceivedAck ::
  "address \<Rightarrow> address \<Rightarrow> Acknowledgement \<Rightarrow> 'f ProtocolSession \<Rightarrow> 'f ProtocolSession \<times> unit res" where
  "HandleReceivedAck dealer player ack s =
     (if gm_get (ack_map s dealer) player \<noteq> None then (s, Inl (Errorf ''duplicate ack from player for dealer''))
      else
        let s1 = s\<lparr>acks := gm_set (acks s) dealer (gm_set (ack_map s dealer) player ack)\<rparr> in
        (if int (length (ack_map s1 dealer)) = int (length (Operators s1)) - 1
         then s1\<lparr>acksCompleteChan := True\<rparr> else s1, Inr ()))"

definition SetMyGeneratedShares :: "(address, 'f) gomap \<Rightarrow> 'f ProtocolSession \<Rightarrow> 'f ProtocolSession" where
  "SetMyGeneratedShares sh s = s\<lparr>myGeneratedShares := Some (map (\<lambda>(a, x). (a, x)) sh)\<rparr>"

definition GetMyGeneratedShareFor :: "'f ProtocolSession \<Rightarrow> address \<Rightarrow> 'f option" where
  "GetMyGeneratedShareFor s recipient =
     (case myGeneratedShares s of None \<Rightarrow> None | Some m \<Rightarrow> gm_get m recipient)"

definition GetSourceVersions :: "'f ProtocolSession \<Rightarrow> (address, int64) gomap" where
  "GetSourceVersions s = map (\<lambda>(k, v). (k, v)) (sourceVersions s)"

definition GetCommitmentsFor :: "'f ProtocolSession \<Rightarrow> address \<Rightarrow> G2Point list" where
  "GetCommitmentsFor s dealer =
     (case gm_get (commitments s) dealer of
        None \<Rightarrow> []
      | Some c \<Rightarrow> map (\<lambda>pt. G2Point (map (\<lambda>b. b) (g2_CompressedBytes pt))) c)"

text \<open>
  \<open>hexa\<close> is \<open>Address.Hex()\<close>. \<open>SerializeFr\<close> dereferences its argument.
\<close>

definition SerializeFr :: "('f, 'g1, 'g2, 'gt) lib \<Rightarrow> 'f option \<Rightarrow> string res" where
  "SerializeFr L e = (case e of None \<Rightarrow> Inl (Panic ''nil pointer dereference'') | Some x \<Rightarrow> Inr (fr_String L x))"

definition DeserializeFr :: "('f :: zero, 'g1, 'g2, 'gt) lib \<Rightarrow> string option \<Rightarrow> 'f option" where
  "DeserializeFr L s =
     (case s of None \<Rightarrow> None
      | Some str \<Rightarrow> Some (case fr_SetString L str of Some x \<Rightarrow> x | None \<Rightarrow> 0))"

definition toPersistenceState ::
  "('f, 'g1, 'g2, 'gt) lib \<Rightarrow> (address \<Rightarrow> string) \<Rightarrow> 'f ProtocolSession \<Rightarrow> ProtocolSessionState res" where
  "toPersistenceState L hexa ps =
     bind_res (fold_res (\<lambda>(a, sh) m. bind_res (SerializeFr L sh) (\<lambda>d. Inr (gm_set m (hexa a) d))) (shares ps) [])
       (\<lambda>sh. Inr
         \<lparr>ps_SessionTimestamp = SessionTimestamp ps, ps_Type = SessionType ps, ps_Phase = Phase ps,
          ps_StartTime = StartTime ps,
          ps_OperatorAddresses = map (\<lambda>op. hexa (OperatorAddress op)) (Operators ps),
          ps_Shares = sh,
          ps_Commitments = fold (\<lambda>(a, c) m. gm_set m (hexa a) c) (commitments ps) [],
          ps_Acknowledgements = fold (\<lambda>(d, am) m. gm_set m (hexa d)
             (fold (\<lambda>(p, ack) im. gm_set im (hexa p) ack) am [])) (acks ps) []\<rparr>)"

definition saveSession ::
  "('f, 'g1, 'g2, 'gt) lib \<Rightarrow> (address \<Rightarrow> string) \<Rightarrow> ('s, 'f) INodePersistence \<Rightarrow> 's \<Rightarrow>
   'f ProtocolSession option \<Rightarrow> 's \<times> unit res" where
  "saveSession L hexa P st session =
     (case session of
        None \<Rightarrow> (st, Inr ())
      | Some s \<Rightarrow>
          (case toPersistenceState L hexa s of
             Inl e \<Rightarrow> (st, Inl e)
           | Inr p \<Rightarrow> pi_SaveProtocolSession P st (Some p)))"

subsection \<open>Retained shares\<close>

record 'f retained =
  retainedGeneratedShares :: "(int64, (address, 'f) gomap) gomap"
  retainedGeneratedShareOrder :: "int64 list"

definition retainedShareRounds :: nat where
  "retainedShareRounds = 4"

function evict :: "'f retained \<Rightarrow> 'f retained" where
  "evict n =
     (if length (retainedGeneratedShareOrder n) > retainedShareRounds
      then evict (n\<lparr>retainedGeneratedShareOrder := tl (retainedGeneratedShareOrder n),
                    retainedGeneratedShares :=
                      gm_del (retainedGeneratedShares n) (hd (retainedGeneratedShareOrder n))\<rparr>)
      else n)"
  by pat_completeness auto
termination
  by (relation "measure (\<lambda>n. length (retainedGeneratedShareOrder n))") auto

declare evict.simps [simp del]

definition retainGeneratedShares :: "int64 \<Rightarrow> (address, 'f) gomap \<Rightarrow> 'f retained \<Rightarrow> 'f retained" where
  "retainGeneratedShares sessionTimestamp sh n =
     (let n1 = (if gm_get (retainedGeneratedShares n) sessionTimestamp = None
                then n\<lparr>retainedGeneratedShareOrder := retainedGeneratedShareOrder n @ [sessionTimestamp]\<rparr> else n);
          n2 = n1\<lparr>retainedGeneratedShares :=
                 gm_set (retainedGeneratedShares n1) sessionTimestamp (map (\<lambda>(a, x). (a, x)) sh)\<rparr> in
      evict n2)"

definition getRetainedGeneratedShare :: "'f retained \<Rightarrow> int64 \<Rightarrow> address \<Rightarrow> 'f option" where
  "getRetainedGeneratedShare n sessionTimestamp recipient =
     (case gm_get (retainedGeneratedShares n) sessionTimestamp of
        None \<Rightarrow> None
      | Some byRecipient \<Rightarrow> gm_get byRecipient recipient)"


subsection \<open>The handlers keep the first message of every sender\<close>

lemma validateOperatorSetNoDuplicates_iff:
  "ok (validateOperatorSetNoDuplicates (map Some ops)) \<longleftrightarrow> distinct (map OperatorAddress ops)"
proof -
  have "ok (fold_res (\<lambda>op seen. case op of
           None \<Rightarrow> Inl (Errorf ''operator is nil'')
         | Some p \<Rightarrow> if OperatorAddress p \<in> set seen then Inl (Errorf ''duplicate operator address in operator set'')
             else Inr (OperatorAddress p # seen)) (map Some ops) seen) \<longleftrightarrow>
       distinct (map OperatorAddress ops) \<and> set (map OperatorAddress ops) \<inter> set seen = {}" for seen
    by (induction ops arbitrary: seen) auto
  from this [of "[]"] show ?thesis
    unfolding validateOperatorSetNoDuplicates_def by (auto simp: ok_def bind_res_def split: sum.splits)
qed

text \<open>
  \<open>first_msg ms d\<close> is the first message of \<open>d\<close>.
\<close>

definition first_msg :: "(address \<times> 'm) list \<Rightarrow> address \<Rightarrow> 'm option" where
  "first_msg ms d = map_option snd (List.find (\<lambda>m. fst m = d) ms)"

lemma first_msg_simps [simp]:
  "first_msg [] d = None"
  "first_msg ((a, m) # ms) d = (if a = d then Some m else first_msg ms d)"
  by (simp_all add: first_msg_def)

lemma first_msg_snoc:
  "first_msg (ms @ [(a, m)]) d = (case first_msg ms d of Some x \<Rightarrow> Some x | None \<Rightarrow> if a = d then Some m else None)"
  by (induction ms) auto

lemma first_msg_None: "first_msg ms d = None \<longleftrightarrow> d \<notin> fst ` set ms"
  by (induction ms) (auto split: if_splits)

text \<open>
  What the handlers have in common: a message is refused when it is not acceptable or its sender has
  been heard, and is stored otherwise; the signal is raised when as many senders have been heard as
  there are operators.
\<close>

locale collector =
  fixes handle :: "address \<Rightarrow> 'm \<Rightarrow> 's \<Rightarrow> 's"
    and stored :: "'s \<Rightarrow> address \<Rightarrow> 'm option"
    and accepts :: "'m \<Rightarrow> bool"
    and full :: "'s \<Rightarrow> bool"
    and expected :: "'s \<Rightarrow> address list"
    and good :: "'s \<Rightarrow> bool"
  assumes refuse: "good s \<Longrightarrow> \<not> accepts m \<or> stored s a \<noteq> None \<Longrightarrow> handle a m s = s"
    and store: "good s \<Longrightarrow> accepts m \<Longrightarrow> stored s a = None \<Longrightarrow>
      good (handle a m s) \<and> stored (handle a m s) = (stored s)(a \<mapsto> m) \<and> expected (handle a m s) = expected s \<and>
      (full (handle a m s) \<longleftrightarrow> full s \<or> card (dom (stored s)) + 1 = length (expected s))"
    and finite_stored: "good s \<Longrightarrow> finite (dom (stored s))"
begin

lemma collect:
  assumes "good s" "stored s = Map.empty" "\<not> full s" "distinct (expected s)" "expected s \<noteq> []"
    "fst ` set ms \<subseteq> set (expected s)"
  shows "good (fold (\<lambda>(a, m). handle a m) ms s) \<and>
    expected (fold (\<lambda>(a, m). handle a m) ms s) = expected s \<and>
    stored (fold (\<lambda>(a, m). handle a m) ms s) = first_msg (filter (\<lambda>m. accepts (snd m)) ms) \<and>
    (full (fold (\<lambda>(a, m). handle a m) ms s) \<longleftrightarrow> set (expected s) \<subseteq> fst ` set (filter (\<lambda>m. accepts (snd m)) ms))"
  using assms(6)
proof (induction ms rule: rev_induct)
  case Nil
  then show ?case using assms(1-5) by (auto simp: fun_eq_iff)
next
  case (snoc am ms)
  obtain a m where am: "am = (a, m)" by (cases am)
  let ?s = "fold (\<lambda>(a, m). handle a m) ms s" and ?ms = "filter (\<lambda>m. accepts (snd m)) ms"
  have IH: "good ?s" "expected ?s = expected s" "stored ?s = first_msg ?ms"
    "full ?s \<longleftrightarrow> set (expected s) \<subseteq> fst ` set ?ms"
    using snoc by auto
  have dom: "dom (stored ?s) = fst ` set ?ms" using first_msg_None [of ?ms] by (auto simp: IH(3) dom_def)
  show ?case
  proof (cases "accepts m \<and> stored ?s a = None")
    case False
    then have "handle a m ?s = ?s" using refuse [OF IH(1)] by blast
    moreover have "first_msg (filter (\<lambda>m. accepts (snd m)) (ms @ [am])) = first_msg ?ms"
      using False by (auto simp: am first_msg_snoc IH(3) fun_eq_iff split: option.splits)
    moreover have "fst ` set (filter (\<lambda>m. accepts (snd m)) (ms @ [am])) = fst ` set ?ms"
      using False dom by (auto simp: am)
    ultimately show ?thesis using IH by (simp add: am)
  next
    case True
    note st = store [OF IH(1), of m a]
    let ?ms' = "filter (\<lambda>m. accepts (snd m)) (ms @ [am])"
    have new: "a \<in> set (expected s)" "a \<notin> fst ` set ?ms" "?ms' = ?ms @ [(a, m)]"
      using True snoc.prems first_msg_None [of ?ms a] by (auto simp: am IH(3))
    have sub: "fst ` set ?ms' \<subseteq> set (expected s)" using snoc.prems by auto
    have "card (fst ` set ?ms') = card (dom (stored ?s)) + 1"
      unfolding dom new(3) using new(2) by (simp del: set_filter)
    moreover have "card (fst ` set ?ms') = card (set (expected s)) \<longleftrightarrow> set (expected s) \<subseteq> fst ` set ?ms'"
      using sub by (metis card_subset_eq finite_set set_eq_subset)
    ultimately have "card (dom (stored ?s)) + 1 = length (expected s) \<longleftrightarrow> set (expected s) \<subseteq> fst ` set ?ms'"
      using assms(4) by (simp add: distinct_card)
    moreover have "\<not> full ?s" using IH(4) new(1,2) by blast
    moreover have "stored (handle a m ?s) = first_msg ?ms'"
    proof -
      have "stored (handle a m ?s) = (first_msg ?ms)(a \<mapsto> m)" using st True IH(3) by simp
      also have "\<dots> = first_msg (?ms @ [(a, m)])"
        using True IH(3) by (auto simp: first_msg_snoc fun_eq_iff split: option.splits)
      finally show ?thesis by (simp only: new(3))
    qed
    ultimately show ?thesis using st True IH(2) by (simp add: am)
  qed
qed

end

definition stored_commitment :: "'f ProtocolSession \<Rightarrow> address \<Rightarrow> (G2Point list \<times> int64) option" where
  "stored_commitment s a =
     (case (gm_get (commitments s) a, gm_get (sourceVersions s) a) of
        (Some cs, Some v) \<Rightarrow> Some (cs, v) | _ \<Rightarrow> None)"

definition session_ok :: "'f ProtocolSession \<Rightarrow> bool" where
  "session_ok s \<longleftrightarrow> gm_ok (shares s) \<and> gm_ok (commitments s) \<and>
     set (gm_keys (sourceVersions s)) = set (gm_keys (commitments s))"

lemma gm_keys_set: "set (gm_keys (gm_set m k v)) = insert k (set (gm_keys m))"
  by (simp add: dom_update)

lemma card_dom_gm: "gm_ok m \<Longrightarrow> card (dom (gm_get m)) = length m"
  by (metis distinct_card dom_map_of_conv_image_fst gm_ok_def length_map set_map)

lemma stored_commitment_None:
  "session_ok s \<Longrightarrow> stored_commitment s a = None \<longleftrightarrow> gm_get (commitments s) a = None"
  using gm_get_eq_None [of "commitments s" a] gm_get_eq_None [of "sourceVersions s" a]
  by (auto simp: stored_commitment_def session_ok_def split: option.splits)

lemma dom_stored_commitment: "session_ok s \<Longrightarrow> dom (stored_commitment s) = dom (gm_get (commitments s))"
  unfolding dom_def by (simp only: stored_commitment_None)

interpretation share_collector: collector "\<lambda>a m s. fst (HandleReceivedShare a m s)" "\<lambda>s. gm_get (shares s)"
  "\<lambda>_. True" sharesCompleteChan "\<lambda>s. map OperatorAddress (Operators s)" session_ok
  by unfold_locales
    (auto simp: HandleReceivedShare_def Let_def session_ok_def card_dom_gm length_gm_set_fresh finite_dom_map_of)

interpretation commitment_collector: collector "\<lambda>a (cs, v) s. fst (HandleReceivedCommitment a cs v s)" stored_commitment
  "\<lambda>(cs, v). cs \<noteq> []" commitmentsCompleteChan "\<lambda>s. map OperatorAddress (Operators s)" session_ok
proof (unfold_locales, goal_cases)
  case (1 s m a)
  then show ?case by (cases m) (auto simp: HandleReceivedCommitment_def stored_commitment_None)
next
  case (2 s m a)
  obtain cs v where m: "m = (cs, v)" by (cases m)
  have new: "gm_get (commitments s) a = None" using 2 by (simp add: stored_commitment_None)
  have "card (dom (stored_commitment s)) = length (commitments s)"
    using 2(1) dom_stored_commitment [OF 2(1)] by (simp add: card_dom_gm session_ok_def)
  with 2 new show ?case
    by (auto simp: m HandleReceivedCommitment_def Let_def session_ok_def length_gm_set_fresh dom_update
        stored_commitment_def fun_eq_iff split: option.splits)
next
  case (3 s)
  then show ?case by (simp add: dom_stored_commitment finite_dom_map_of)
qed

text \<open>
  A session collects correctly, whatever the order of the messages and however often senders
  repeat themselves: for the messages of operators of a new session, each operator's stored share is
  the first it sent and the share signal is raised exactly when every operator sent one; and likewise
  for the commitments that are not empty, with the source version of the same message.
\<close>

theorem session_collects:
  fixes sms :: "(address \<times> 'f option) list" and cms :: "(address \<times> G2Point list \<times> int64) list"
    and s1 s2 :: "'f ProtocolSession"
  assumes ops: "ok (validateOperatorSetNoDuplicates (map Some ops))" "ops \<noteq> []"
    and senders: "fst ` set sms \<subseteq> OperatorAddress ` set ops" "fst ` set cms \<subseteq> OperatorAddress ` set ops"
    and s1: "s1 = fold (\<lambda>(a, sh) s. fst (HandleReceivedShare a sh s)) sms (new_session now ty ops t)"
    and s2: "s2 = fold (\<lambda>(a, cs, v) s. fst (HandleReceivedCommitment a cs v s)) cms (new_session now ty ops t)"
  shows "gm_get (shares s1) = first_msg sms \<and>
    (sharesCompleteChan s1 \<longleftrightarrow> OperatorAddress ` set ops \<subseteq> fst ` set sms) \<and>
    stored_commitment s2 = first_msg (filter (\<lambda>(a, cs, v). cs \<noteq> []) cms) \<and>
    (commitmentsCompleteChan s2 \<longleftrightarrow> OperatorAddress ` set ops \<subseteq> fst ` set (filter (\<lambda>(a, cs, v). cs \<noteq> []) cms))"
proof -
  let ?s = "new_session now ty ops t :: 'f ProtocolSession"
  have d: "distinct (map OperatorAddress ops)" using ops(1) by (simp add: validateOperatorSetNoDuplicates_iff)
  have new: "session_ok ?s" "gm_get (shares ?s) = Map.empty" "stored_commitment ?s = Map.empty"
    "\<not> sharesCompleteChan ?s" "\<not> commitmentsCompleteChan ?s" "Operators ?s = ops"
    by (simp_all add: new_session_def session_ok_def stored_commitment_def fun_eq_iff)
  have "gm_get (shares s1) = first_msg sms"
    "sharesCompleteChan s1 \<longleftrightarrow> OperatorAddress ` set ops \<subseteq> fst ` set sms"
    using share_collector.collect [OF new(1,2,4), of sms] new(6) d ops(2) senders(1) unfolding s1 by auto
  moreover have "stored_commitment s2 = first_msg (filter (\<lambda>(a, cs, v). cs \<noteq> []) cms)"
    "commitmentsCompleteChan s2 \<longleftrightarrow> OperatorAddress ` set ops \<subseteq> fst ` set (filter (\<lambda>(a, cs, v). cs \<noteq> []) cms)"
    using commitment_collector.collect [OF new(1,3,5), of cms] new(6) d ops(2) senders(2) unfolding s2
    by (simp_all add: case_prod_unfold)
  ultimately show ?thesis by blast
qed

text \<open>Three operators; the second repeats itself.\<close>

definition mock_op :: "address \<Rightarrow> OperatorSetPeer" where
  "mock_op a = \<lparr>OperatorAddress = a, SocketAddress = [],
     peer_WrappedPublicKey = \<lparr>wpk_PublicKey = [], wpk_ECDSAAddress = a\<rparr>, CurveType = ''bn254''\<rparr>"

theorem session_collects_witness:
  "gm_get (shares (fold (\<lambda>(a, sh) s. fst (HandleReceivedShare a sh s)) [(2, Some 5), (1, Some 4), (2, Some 6)]
      (new_session 0 ''dkg'' [mock_op 1, mock_op 2] 7))) 2 = Some (Some (5 :: gf)) \<and>
   sharesCompleteChan (fold (\<lambda>(a, sh) s. fst (HandleReceivedShare a sh s)) [(2, Some 5), (1, Some 4), (2, Some (6 :: gf))]
      (new_session 0 ''dkg'' [mock_op 1, mock_op 2] 7))"
proof -
  have "ok (validateOperatorSetNoDuplicates (map Some [mock_op 1, mock_op 2]))"
    unfolding validateOperatorSetNoDuplicates_iff by (simp add: mock_op_def)
  from session_collects [OF this _ _ _ refl refl, where sms = "[(2, Some 5), (1, Some 4), (2, Some (6 :: gf))]"
      and cms = "[]" and now = 0 and ty = "''dkg''" and t = 7]
  have "gm_get (shares (fold (\<lambda>(a, sh) s. fst (HandleReceivedShare a sh s)) [(2, Some 5), (1, Some 4), (2, Some 6)]
      (new_session 0 ''dkg'' [mock_op 1, mock_op 2] 7))) = first_msg [(2, Some 5), (1, Some 4), (2, Some (6 :: gf))]"
    "sharesCompleteChan (fold (\<lambda>(a, sh) s. fst (HandleReceivedShare a sh s)) [(2, Some 5), (1, Some 4), (2, Some (6 :: gf))]
      (new_session 0 ''dkg'' [mock_op 1, mock_op 2] 7))"
    by (auto simp: mock_op_def simp del: fold_simps)
  then show ?thesis by (simp del: fold_simps)
qed

subsection \<open>Retained shares\<close>

definition retained_ok :: "'f retained \<Rightarrow> bool" where
  "retained_ok n \<longleftrightarrow> gm_ok (retainedGeneratedShares n) \<and> distinct (retainedGeneratedShareOrder n) \<and>
     set (gm_keys (retainedGeneratedShares n)) = set (retainedGeneratedShareOrder n)"

lemma evict_id: "length (retainedGeneratedShareOrder n) \<le> retainedShareRounds \<Longrightarrow> evict n = n"
  by (subst evict.simps) simp

lemma evict_one:
  assumes "retained_ok n" "length (retainedGeneratedShareOrder n) \<le> Suc retainedShareRounds"
  shows "retained_ok (evict n) \<and> length (retainedGeneratedShareOrder (evict n)) \<le> retainedShareRounds \<and>
    retainedGeneratedShareOrder (evict n) =
      drop (length (retainedGeneratedShareOrder n) - retainedShareRounds) (retainedGeneratedShareOrder n) \<and>
    (\<forall>t \<in> set (retainedGeneratedShareOrder (evict n)).
      gm_get (retainedGeneratedShares (evict n)) t = gm_get (retainedGeneratedShares n) t)"
proof (cases "length (retainedGeneratedShareOrder n) > retainedShareRounds")
  case False
  then show ?thesis using assms(1) by (simp add: evict_id)
next
  case True
  then obtain t ts where o: "retainedGeneratedShareOrder n = t # ts" "length ts = retainedShareRounds"
    using assms(2) by (cases "retainedGeneratedShareOrder n") auto
  have "evict n = n\<lparr>retainedGeneratedShareOrder := ts, retainedGeneratedShares := gm_del (retainedGeneratedShares n) t\<rparr>"
    using True o by (subst evict.simps) (simp add: evict_id)
  moreover have "set (gm_keys (gm_del (retainedGeneratedShares n) t)) = set (gm_keys (retainedGeneratedShares n)) - {t}"
    by (auto simp: delete_keys simp flip: set_map)
  ultimately show ?thesis using assms(1) o by (auto simp: retained_ok_def simp del: set_map)
qed


lemma retain_step:
  assumes "retained_ok n" "length (retainedGeneratedShareOrder n) \<le> retainedShareRounds"
  shows "retained_ok (retainGeneratedShares t sh n) \<and>
    length (retainedGeneratedShareOrder (retainGeneratedShares t sh n)) \<le> retainedShareRounds \<and>
    retainedGeneratedShareOrder (retainGeneratedShares t sh n) =
      (if t \<in> set (retainedGeneratedShareOrder n) then retainedGeneratedShareOrder n
       else drop (Suc (length (retainedGeneratedShareOrder n)) - retainedShareRounds) (retainedGeneratedShareOrder n @ [t])) \<and>
    (\<forall>u \<in> set (retainedGeneratedShareOrder (retainGeneratedShares t sh n)).
      gm_get (retainedGeneratedShares (retainGeneratedShares t sh n)) u =
        (if u = t then Some sh else gm_get (retainedGeneratedShares n) u))"
proof -
  let ?in = "t \<in> set (retainedGeneratedShareOrder n)"
  have get: "gm_get (retainedGeneratedShares n) t = None \<longleftrightarrow> \<not> ?in"
    using assms(1) by (simp only: gm_get_eq_None retained_ok_def)
  let ?n = "n\<lparr>retainedGeneratedShareOrder := (if ?in then retainedGeneratedShareOrder n else retainedGeneratedShareOrder n @ [t]),
    retainedGeneratedShares := gm_set (retainedGeneratedShares n) t sh\<rparr>"
  have okn: "retained_ok ?n"
    using assms(1) unfolding retained_ok_def by (cases ?in) (simp_all add: gm_keys_set insert_absorb del: set_map)
  have n: "retainGeneratedShares t sh n = evict ?n"
    by (simp add: retainGeneratedShares_def get Let_def case_prod_unfold)
  have "length (retainedGeneratedShareOrder ?n) \<le> Suc retainedShareRounds" using assms(2) by simp
  note e = evict_one [OF okn this]
  have "retainedGeneratedShareOrder (evict ?n) =
      (if ?in then retainedGeneratedShareOrder n
       else drop (Suc (length (retainedGeneratedShareOrder n)) - retainedShareRounds) (retainedGeneratedShareOrder n @ [t]))"
    using e assms(2) by (cases ?in) simp_all
  moreover have "gm_get (retainedGeneratedShares ?n) u = (if u = t then Some sh else gm_get (retainedGeneratedShares n) u)" for u
    by simp
  ultimately show ?thesis using e unfolding n by metis
qed

lemma retain_many:
  assumes "retained_ok n" "length (retainedGeneratedShareOrder n) \<le> retainedShareRounds"
  shows "retained_ok (fold (\<lambda>(t, sh). retainGeneratedShares t sh) rs n) \<and>
     length (retainedGeneratedShareOrder (fold (\<lambda>(t, sh). retainGeneratedShares t sh) rs n)) \<le> retainedShareRounds"
  using assms
proof (induction rs arbitrary: n)
  case (Cons r rs)
  obtain t sh where r: "r = (t, sh)" by (cases r)
  have "retained_ok (retainGeneratedShares t sh n)"
    "length (retainedGeneratedShareOrder (retainGeneratedShares t sh n)) \<le> retainedShareRounds"
    using retain_step [OF Cons.prems, of t sh] by blast+
  with Cons.IH show ?case by (simp add: r)
qed simp

lemma retain_only:
  assumes "retained_ok n" "length (retainedGeneratedShareOrder n) \<le> retainedShareRounds"
  shows "set (retainedGeneratedShareOrder (fold (\<lambda>(t, sh). retainGeneratedShares t sh) rs n)) \<subseteq>
     set (retainedGeneratedShareOrder n) \<union> fst ` set rs"
  using assms
proof (induction rs arbitrary: n)
  case (Cons r rs)
  obtain t sh where r: "r = (t, sh)" by (cases r)
  let ?n = "retainGeneratedShares t sh n"
  have "retained_ok ?n" "length (retainedGeneratedShareOrder ?n) \<le> retainedShareRounds"
    "set (retainedGeneratedShareOrder ?n) \<subseteq> insert t (set (retainedGeneratedShareOrder n))"
    using retain_step [OF Cons.prems, of t sh] set_drop_subset by (fastforce split: if_splits)+
  with Cons.IH [of ?n] show ?case by (auto simp: r)
qed simp

text \<open>A retained session is pushed towards the front only by other sessions that follow it.\<close>

lemma retain_keeps:
  assumes "retained_ok n" "length (retainedGeneratedShareOrder n) \<le> retainedShareRounds"
    "retainedGeneratedShareOrder n = pre @ t # post" "set post \<subseteq> A" "gm_get (retainedGeneratedShares n) t = Some sh"
    "finite A" "card A \<le> 3" "u \<in> A" "t \<notin> A"
  shows "\<exists>pre post. retainedGeneratedShareOrder (retainGeneratedShares u shu n) = pre @ t # post \<and> set post \<subseteq> A \<and>
    gm_get (retainedGeneratedShares (retainGeneratedShares u shu n)) t = Some sh"
proof -
  let ?n = "retainGeneratedShares u shu n" and ?o = "retainedGeneratedShareOrder n"
  have ord: "retainedGeneratedShareOrder ?n =
      (if u \<in> set ?o then ?o else drop (Suc (length ?o) - retainedShareRounds) (?o @ [u]))"
    and get: "t \<in> set (retainedGeneratedShareOrder ?n) \<Longrightarrow> gm_get (retainedGeneratedShares ?n) t = Some sh"
    using retain_step [OF assms(1,2), of u shu] assms(5,8,9) by auto
  have "\<exists>pre post. retainedGeneratedShareOrder ?n = pre @ t # post \<and> set post \<subseteq> A"
  proof (cases "u \<in> set ?o")
    case True
    then show ?thesis using ord assms(3,4) by auto
  next
    case False
    have "distinct (post @ [u])" using False assms(1,3) by (auto simp: retained_ok_def)
    moreover have "set (post @ [u]) \<subseteq> A" using assms(4,8) by simp
    ultimately have "length (post @ [u]) \<le> 3" using assms(6,7) by (metis card_mono distinct_card le_trans)
    then have "Suc (length ?o) - retainedShareRounds \<le> length pre"
      using assms(2,3) by (simp add: retainedShareRounds_def)
    then have "retainedGeneratedShareOrder ?n = drop (Suc (length ?o) - retainedShareRounds) pre @ t # (post @ [u])"
      using False ord assms(3) by simp
    then show ?thesis using assms(4,8) by (metis \<open>set (post @ [u]) \<subseteq> A\<close>)
  qed
  with get show ?thesis by fastforce
qed

lemma retain_keeps_many:
  assumes "retained_ok n" "length (retainedGeneratedShareOrder n) \<le> retainedShareRounds"
    "retainedGeneratedShareOrder n = pre @ t # post" "set post \<subseteq> A" "gm_get (retainedGeneratedShares n) t = Some sh"
    "finite A" "card A \<le> 3" "t \<notin> A" "fst ` set rs \<subseteq> A"
  shows "gm_get (retainedGeneratedShares (fold (\<lambda>(t, sh). retainGeneratedShares t sh) rs n)) t = Some sh"
  using assms(1-5,9)
proof (induction rs arbitrary: n pre post)
  case (Cons r rs)
  obtain u shu where r: "r = (u, shu)" by (cases r)
  let ?n = "retainGeneratedShares u shu n"
  have u: "u \<in> A" using Cons.prems(6) by (simp add: r)
  obtain pre' post' where "retainedGeneratedShareOrder ?n = pre' @ t # post'" "set post' \<subseteq> A"
    "gm_get (retainedGeneratedShares ?n) t = Some sh"
    using retain_keeps [OF Cons.prems(1-5) assms(6,7) u assms(8), of shu] by blast
  moreover have "retained_ok ?n" "length (retainedGeneratedShareOrder ?n) \<le> retainedShareRounds"
    using retain_step [OF Cons.prems(1,2), of u shu] by blast+
  ultimately show ?case using Cons.IH [of ?n pre' post'] Cons.prems(6) by (simp add: r)
qed simp

text \<open>
  Shares of a finished round can still be fetched for the next three rounds: after a round's
  shares were retained and those of at most three other sessions were retained after it, in any
  order and with repetitions, every recipient is still served the share dealt to it; and never are
  more than four rounds kept.
\<close>

theorem retained_served:
  assumes "t \<notin> fst ` set earlier" "t \<notin> fst ` set later" "card (fst ` set later) \<le> 3"
    and n: "n = fold (\<lambda>(t, sh). retainGeneratedShares t sh) (earlier @ (t, sh) # later)
      \<lparr>retainedGeneratedShares = [], retainedGeneratedShareOrder = []\<rparr>"
  shows "getRetainedGeneratedShare n t r = gm_get sh r \<and> length (retainedGeneratedShares n) \<le> 4"
proof -
  let ?e = "\<lparr>retainedGeneratedShares = [], retainedGeneratedShareOrder = []\<rparr> :: 'a retained"
  let ?run = "fold (\<lambda>(t, sh). retainGeneratedShares t sh)"
  have e: "retained_ok ?e" "length (retainedGeneratedShareOrder ?e) \<le> retainedShareRounds"
    by (simp_all add: retained_ok_def)
  have ok1: "retained_ok (?run earlier ?e)" "length (retainedGeneratedShareOrder (?run earlier ?e)) \<le> retainedShareRounds"
    using retain_many [OF e, of earlier] by blast+
  have fresh: "t \<notin> set (retainedGeneratedShareOrder (?run earlier ?e))"
    using retain_only [OF e, of earlier] assms(1) by auto
  let ?n1 = "retainGeneratedShares t sh (?run earlier ?e)"
  have ok2: "retained_ok ?n1" "length (retainedGeneratedShareOrder ?n1) \<le> retainedShareRounds"
    using retain_step [OF ok1, of t sh] by blast+
  obtain pre where pre: "retainedGeneratedShareOrder ?n1 = pre @ [t]"
    using retain_step [OF ok1, of t sh] fresh ok1(2) by (simp add: retainedShareRounds_def)
  then have "gm_get (retainedGeneratedShares ?n1) t = Some sh"
    using retain_step [OF ok1, of t sh] by (metis in_set_conv_decomp)
  with pre have "gm_get (retainedGeneratedShares n) t = Some sh"
    using retain_keeps_many [OF ok2, of pre t "[]" "fst ` set later" sh later] assms(2,3) n by simp
  moreover have "retained_ok n" "length (retainedGeneratedShareOrder n) \<le> retainedShareRounds"
    using retain_many [OF e, of "earlier @ (t, sh) # later"] n by blast+
  then have "length (retainedGeneratedShares n) \<le> 4"
    unfolding retained_ok_def gm_ok_def retainedShareRounds_def by (metis distinct_card length_map)
  ultimately show ?thesis by (simp add: getRetainedGeneratedShare_def)
qed

theorem retained_served_witness:
  "getRetainedGeneratedShare (fold (\<lambda>(t, sh). retainGeneratedShares t sh)
      ([(1, []), (2, [])] @ (3, [(7, 5 :: gf)]) # [(4, []), (5, []), (4, []), (6, [])])
      \<lparr>retainedGeneratedShares = [], retainedGeneratedShareOrder = []\<rparr>) 3 7 = Some 5"
  using retained_served [of 3 "[(1, []), (2, [])]" "[(4, []), (5, []), (4, []), (6, [])]" _ "[(7, 5 :: gf)]", OF _ _ _ refl]
  by (simp add: card_insert_if)

end
