(* ===== verification/Session_Registry.thy ===== *)
theory Session_Registry
  imports Session
begin

text \<open>
  The registry of active sessions in \<open>pkg/node/node.go\<close> (\<open>createSession\<close>,
  \<open>getSession\<close>, \<open>waitForSession\<close>, \<open>cleanupSession\<close>, \<open>cleanupOldSessions\<close>) and the
  waits of a round (\<open>waitForShares\<close> to \<open>waitForAcks\<close>, \<open>WaitForVerifications\<close>). Creating
  a session and waiting for one are not atomic: each is a sequence of critical sections, and their
  interleavings are a step relation.
\<close>

text \<open>
  A notification channel is a number; \<open>closedChans\<close> are the closed ones and \<open>nextChan\<close> the
  next that \<open>make\<close> gives.
\<close>

record 'f registry =
  activeSessions :: "(int64, 'f ProtocolSession) gomap"
  sessionNotify :: "(int64, nat) gomap"
  closedChans :: "nat list"
  nextChan :: nat

text \<open>The critical sections of \<open>createSession\<close>.\<close>

definition put_session :: "'f ProtocolSession \<Rightarrow> 'f registry \<Rightarrow> 'f registry" where
  "put_session s r = r\<lparr>activeSessions := gm_set (activeSessions r) (SessionTimestamp s) s\<rparr>"

definition notify_waiters :: "int64 \<Rightarrow> 'f registry \<Rightarrow> 'f registry" where
  "notify_waiters t r =
     (case gm_get (sessionNotify r) t of
        None \<Rightarrow> r
      | Some ch \<Rightarrow> r\<lparr>closedChans := ch # closedChans r, sessionNotify := gm_del (sessionNotify r) t\<rparr>)"

definition createSession ::
  "int64 \<Rightarrow> string \<Rightarrow> OperatorSetPeer option list \<Rightarrow> int64 \<Rightarrow> 'f registry \<Rightarrow> 'f registry \<times> 'f ProtocolSession res" where
  "createSession now sessionType operators sessionTimestamp r =
     (case validateOperatorSetNoDuplicates operators of
        Inl e \<Rightarrow> (r, Inl e)
      | Inr _ \<Rightarrow>
          let s = new_session now sessionType (map the operators) sessionTimestamp in
          (notify_waiters sessionTimestamp (put_session s r), Inr s))"

definition getSession :: "'f registry \<Rightarrow> int64 \<Rightarrow> 'f ProtocolSession option" where
  "getSession r t = gm_get (activeSessions r) t"

text \<open>The critical sections of \<open>waitForSession\<close>: registration and the clean-up after a timeout.\<close>

definition register_waiter :: "int64 \<Rightarrow> 'f registry \<Rightarrow> 'f registry \<times> nat" where
  "register_waiter t r =
     (case gm_get (sessionNotify r) t of
        Some ch \<Rightarrow> (r, ch)
      | None \<Rightarrow> (r\<lparr>sessionNotify := gm_set (sessionNotify r) t (nextChan r), nextChan := nextChan r + 1\<rparr>, nextChan r))"

definition drop_waiter :: "int64 \<Rightarrow> nat \<Rightarrow> 'f registry \<Rightarrow> 'f registry" where
  "drop_waiter t ch r =
     (if gm_get (sessionNotify r) t = Some ch then r\<lparr>sessionNotify := gm_del (sessionNotify r) t\<rparr> else r)"

definition cleanupSession ::
  "('s, 'f) INodePersistence \<Rightarrow> int64 \<Rightarrow> 'f registry \<Rightarrow> 's \<Rightarrow> 'f registry \<times> 's" where
  "cleanupSession P t r st =
     (r\<lparr>activeSessions := gm_del (activeSessions r) t\<rparr>, fst (pi_DeleteProtocolSession P st t))"

definition cleanupOldSessions :: "int64 \<Rightarrow> int64 \<Rightarrow> 'f registry \<Rightarrow> 'f registry" where
  "cleanupOldSessions now maxAge r =
     r\<lparr>activeSessions := filter (\<lambda>(t, s). \<not> now - StartTime s > maxAge) (activeSessions r)\<rparr>"

subsection \<open>Waits\<close>

text \<open>
  A wait polls the session until enough has arrived or the time is over. \<open>ticks\<close> are the counts
  the poll sees before the timeout; \<open>ready\<close>: the channel became readable before it.
\<close>

definition wait_chan :: "string \<Rightarrow> bool \<Rightarrow> unit res" where
  "wait_chan what ready = (if ready then Inr () else Inl (Errorf (''timeout waiting for '' @ what)))"

definition waitForShares :: "bool \<Rightarrow> unit res" where
  "waitForShares ready = wait_chan ''shares'' ready"

definition waitForCommitments :: "bool \<Rightarrow> unit res" where
  "waitForCommitments ready = wait_chan ''commitments'' ready"

fun poll :: "string \<Rightarrow> int \<Rightarrow> int list \<Rightarrow> unit res" where
  "poll what required [] = Inl (Errorf (''timeout waiting for '' @ what))"
| "poll what required (received # ticks) = (if received \<ge> required then Inr () else poll what required ticks)"

definition clamp :: "int \<Rightarrow> int \<Rightarrow> int" where
  "clamp required maxPossible =
     (let r = (if required < 0 then 0 else required) in if r > maxPossible then maxPossible else r)"

definition waitForN :: "'f ProtocolSession \<Rightarrow> int \<Rightarrow> string \<Rightarrow> int list \<Rightarrow> unit res" where
  "waitForN session required label ticks =
     (let required = clamp required (int (length (Operators session))) in
      if required = 0 then Inr () else poll label required ticks)"

definition waitForNShares :: "'f ProtocolSession \<Rightarrow> int \<Rightarrow> 'f ProtocolSession list \<Rightarrow> unit res" where
  "waitForNShares session required ticks =
     waitForN session required ''shares'' (map (\<lambda>s. int (length (shares s))) ticks)"

definition waitForNCommitments :: "'f ProtocolSession \<Rightarrow> int \<Rightarrow> 'f ProtocolSession list \<Rightarrow> unit res" where
  "waitForNCommitments session required ticks =
     waitForN session required ''commitments'' (map (\<lambda>s. int (length (commitments s))) ticks)"

definition waitForAcks :: "'f ProtocolSession \<Rightarrow> address \<Rightarrow> int \<Rightarrow> 'f ProtocolSession list \<Rightarrow> unit res" where
  "waitForAcks session dealer required ticks =
     poll ''acks'' (clamp required (int (length (Operators session)) - 1))
       (map (\<lambda>s. int (length (ack_map s dealer))) ticks)"

lemma poll_iff: "poll what required ticks = Inr () \<longleftrightarrow> (\<exists>c \<in> set ticks. c \<ge> required)"
  by (induction ticks) auto

subsection \<open>The race between creating a session and waiting for it\<close>

text \<open>
  One goroutine creates the session \<open>s\<close>, another waits for it. A waiter is about to look, about to
  register, waiting on a channel, or finished with its result; the creator is about to put the
  session, about to notify, or finished.
\<close>

datatype 'f waiter = WLook | WRegister | WWait nat | WDone "'f ProtocolSession option"
datatype creator = CPut | CNotify | CDone

inductive race :: "'f ProtocolSession \<Rightarrow> 'f registry \<times> 'f waiter \<times> creator \<Rightarrow> 'f registry \<times> 'f waiter \<times> creator \<Rightarrow> bool"
  for s :: "'f ProtocolSession" where
  put: "race s (r, w, CPut) (put_session s r, w, CNotify)"
| notify: "race s (r, w, CNotify) (notify_waiters (SessionTimestamp s) r, w, CDone)"
| found: "getSession r (SessionTimestamp s) = Some x \<Longrightarrow> race s (r, WLook, c) (r, WDone (Some x), c)"
| absent: "getSession r (SessionTimestamp s) = None \<Longrightarrow> race s (r, WLook, c) (r, WRegister, c)"
| register: "register_waiter (SessionTimestamp s) r = (r', ch) \<Longrightarrow> race s (r, WRegister, c) (r', WWait ch, c)"
| woken: "ch \<in> set (closedChans r) \<Longrightarrow> race s (r, WWait ch, c) (r, WDone (getSession r (SessionTimestamp s)), c)"
| timeout: "race s (r, WWait ch, c) (drop_waiter (SessionTimestamp s) ch r, WDone None, c)"

inductive_cases race_CDone: "race s (r, w, CDone) st"
inductive_cases race_WWait: "race s (r, WWait ch, c) st"

definition empty_registry :: "'f registry" where
  "empty_registry = \<lparr>activeSessions = [], sessionNotify = [], closedChans = [], nextChan = 0\<rparr>"

text \<open>A waiter that has registered before the session was put is woken, unless it times out.\<close>

definition registered :: "'f ProtocolSession \<Rightarrow> nat \<Rightarrow> 'f registry \<times> 'f waiter \<times> creator \<Rightarrow> bool" where
  "registered s ch st \<longleftrightarrow>
     (case st of (r, w, c) \<Rightarrow>
        (w = WWait ch \<and> (c = CDone \<longrightarrow> ch \<in> set (closedChans r)) \<and>
           (c \<noteq> CDone \<longrightarrow> ch \<notin> set (closedChans r) \<and> gm_get (sessionNotify r) (SessionTimestamp s) = Some ch)) \<or>
        (\<exists>x. w = WDone x)) \<and>
     (case st of (r, w, c) \<Rightarrow> c \<noteq> CPut \<longrightarrow> getSession r (SessionTimestamp s) = Some s)"

lemma registered_step:
  assumes "race s st st'" "registered s ch st" shows "registered s ch st'"
  using assms
  by (induction rule: race.induct)
    (auto simp: registered_def put_session_def notify_waiters_def getSession_def drop_waiter_def split: option.splits)

lemma registered_steps: "(race s)\<^sup>*\<^sup>* st st' \<Longrightarrow> registered s ch st \<Longrightarrow> registered s ch st'"
  by (induction rule: rtranclp_induct) (auto intro: registered_step)

text \<open>
  The wake-up of \<open>waitForSession\<close>: a waiter that has registered its channel before the
  session is put into the registry finds the channel closed once \<open>createSession\<close> is done, and if
  it is woken it gets exactly that session; it ends without a session only by its own timeout.
\<close>

theorem registered_waiter_is_woken:
  assumes "(race s)\<^sup>*\<^sup>* (r0, WWait ch, CPut) (r, w, CDone)"
    "gm_get (sessionNotify r0) (SessionTimestamp s) = Some ch" "ch \<notin> set (closedChans r0)"
  shows "(\<exists>x. w = WDone x) \<or>
    w = WWait ch \<and> race s (r, w, CDone) (r, WDone (Some s), CDone) \<and> getSession r (SessionTimestamp s) = Some s"
proof -
  have "registered s ch (r0, WWait ch, CPut)" using assms(2,3) by (simp add: registered_def)
  from registered_steps [OF assms(1) this] have "registered s ch (r, w, CDone)" .
  then show ?thesis using race.woken [of ch r s CDone] by (auto simp: registered_def)
qed

text \<open>
  A wake-up can be lost: a waiter that looks before the session is put and registers after the
  waiters were notified waits on a channel that nobody will close. The session is in the registry,
  \<open>createSession\<close> is done, and every continuation of the waiter is its timeout, so
  \<open>waitForSession\<close> returns nil for a session that exists.
\<close>

theorem lost_wakeup:
  "\<exists>r ch. (race s)\<^sup>*\<^sup>* (empty_registry, WLook, CPut) (r, WWait ch, CDone) \<and>
     getSession r (SessionTimestamp s) = Some s \<and>
     (\<forall>st. race s (r, WWait ch, CDone) st \<longleftrightarrow> st = (drop_waiter (SessionTimestamp s) ch r, WDone None, CDone))"
proof -
  let ?t = "SessionTimestamp s"
  let ?putted = "put_session s empty_registry" and ?notified = "notify_waiters ?t (put_session s empty_registry)"
  define r3 where "r3 = fst (register_waiter ?t ?notified)"
  have r3: "register_waiter ?t ?notified = (r3, 0)" "getSession r3 ?t = Some s" "closedChans r3 = []"
    by (simp_all add: r3_def register_waiter_def notify_waiters_def put_session_def empty_registry_def getSession_def)
  have "getSession empty_registry ?t = None" by (simp add: getSession_def empty_registry_def)
  then have steps: "race s (empty_registry, WLook, CPut) (empty_registry, WRegister, CPut)"
    "race s (empty_registry, WRegister, CPut) (?putted, WRegister, CNotify)"
    "race s (?putted, WRegister, CNotify) (?notified, WRegister, CDone)"
    "race s (?notified, WRegister, CDone) (r3, WWait 0, CDone)"
    by (rule race.absent) (rule race.put race.notify race.register [OF r3(1)])+
  have "(race s)\<^sup>*\<^sup>* (empty_registry, WLook, CPut) (r3, WWait 0, CDone)"
    by (meson steps converse_rtranclp_into_rtranclp rtranclp.rtrancl_refl)
  moreover have "race s (r3, WWait 0, CDone) st \<longleftrightarrow> st = (drop_waiter ?t 0 r3, WDone None, CDone)" for st
    using r3(3) by (auto elim: race_WWait intro: race.timeout)
  ultimately show ?thesis using r3(2) by blast
qed

text \<open>A waiter registered on channel 0 and then the two steps of the creator.\<close>

theorem registered_waiter_is_woken_witness:
  "\<exists>r. race (new_session 0 [] [] 7 :: gf ProtocolSession) (r, WWait 0, CDone)
     (r, WDone (Some (new_session 0 [] [] 7)), CDone) \<and> getSession r 7 = Some (new_session 0 [] [] 7)"
proof -
  let ?s = "new_session 0 [] [] 7 :: gf ProtocolSession"
  let ?start = "empty_registry\<lparr>sessionNotify := [(7, 0)], nextChan := 1\<rparr> :: gf registry"
  let ?final = "notify_waiters 7 (put_session ?s ?start)"
  have t: "SessionTimestamp ?s = 7" by (simp add: new_session_def)
  have "(race ?s)\<^sup>*\<^sup>* (?start, WWait 0, CPut) (?final, WWait 0, CDone)"
    using race.put [of ?s ?start "WWait 0"] race.notify [of ?s "put_session ?s ?start" "WWait 0"]
    unfolding t by (meson converse_rtranclp_into_rtranclp rtranclp.rtrancl_refl)
  from registered_waiter_is_woken [OF this] show ?thesis unfolding t by (auto simp: empty_registry_def)
qed

end
