(* ===== verification/Configuration.thy ===== *)
theory Configuration
  imports Prelude
begin

text \<open>
  \<open>pkg/config/config.go\<close>: chains and the constants chosen by chain, core contracts, and the
  validation of a server's configuration. A \<open>Validate\<close> method may change its receiver, so it
  returns the receiver it leaves. Durations are in nanoseconds, as in \<open>time.Duration\<close>. The
  lemmas describe which configurations validation accepts, what it fills in, and the arithmetic of
  block intervals on which the cutoff of a round relies.
\<close>

type_synonym ChainId = nat
type_synonym ChainName = string

type_synonym CurveType = string

definition CurveTypeUnknown :: CurveType where "CurveTypeUnknown = ''unknown''"
definition CurveTypeECDSA :: CurveType where "CurveTypeECDSA = ''ecdsa''"
definition CurveTypeBN254 :: CurveType where "CurveTypeBN254 = ''bn254''"

lemmas curve_types = CurveTypeUnknown_def CurveTypeECDSA_def CurveTypeBN254_def

definition ConvertCurveTypeToSolidityEnum :: "CurveType \<Rightarrow> byte res" where
  "ConvertCurveTypeToSolidityEnum curveType =
     (if curveType = CurveTypeUnknown then Inr 0
      else if curveType = CurveTypeECDSA then Inr 1
      else if curveType = CurveTypeBN254 then Inr 2
      else Inl (Errorf ''unsupported curve type''))"

definition CurveType_Uint8 :: "CurveType \<Rightarrow> byte res" where
  "CurveType_Uint8 c = ConvertCurveTypeToSolidityEnum c"

definition ConvertSolidityEnumToCurveType :: "byte \<Rightarrow> CurveType res" where
  "ConvertSolidityEnumToCurveType enumValue =
     (if enumValue = 0 then Inr CurveTypeUnknown
      else if enumValue = 1 then Inr CurveTypeECDSA
      else if enumValue = 2 then Inr CurveTypeBN254
      else Inl (Errorf ''unsupported curve type enum value''))"

subsection \<open>Chains\<close>

definition ChainId_EthereumMainnet :: ChainId where "ChainId_EthereumMainnet = 1"
definition ChainId_EthereumSepolia :: ChainId where "ChainId_EthereumSepolia = 11155111"
definition ChainId_EthereumAnvil :: ChainId where "ChainId_EthereumAnvil = 31337"
definition ChainId_BaseAnvil :: ChainId where "ChainId_BaseAnvil = 31338"
definition ChainId_BaseSepolia :: ChainId where "ChainId_BaseSepolia = 84532"

lemmas chain_ids = ChainId_EthereumMainnet_def ChainId_EthereumSepolia_def ChainId_EthereumAnvil_def
  ChainId_BaseAnvil_def ChainId_BaseSepolia_def

definition ChainName_EthereumMainnet :: ChainName where "ChainName_EthereumMainnet = ''mainnet''"
definition ChainName_EthereumSepolia :: ChainName where "ChainName_EthereumSepolia = ''sepolia''"
definition ChainName_PreProdSepolia :: ChainName where "ChainName_PreProdSepolia = ''dev''"
definition ChainName_EthereumAnvil :: ChainName where "ChainName_EthereumAnvil = ''devnet''"
definition ChainName_BaseAnvil :: ChainName where "ChainName_BaseAnvil = ''base-devnet''"
definition ChainName_BaseSepolia :: ChainName where "ChainName_BaseSepolia = ''base-sepolia''"

lemmas chain_names = ChainName_EthereumMainnet_def ChainName_EthereumSepolia_def ChainName_PreProdSepolia_def
  ChainName_EthereumAnvil_def ChainName_BaseAnvil_def ChainName_BaseSepolia_def

definition ChainIdToName :: "(ChainId, ChainName) gomap" where
  "ChainIdToName =
     [(ChainId_EthereumMainnet, ChainName_EthereumMainnet),
      (ChainId_EthereumSepolia, ChainName_EthereumSepolia),
      (ChainId_EthereumAnvil, ChainName_EthereumAnvil),
      (ChainId_BaseAnvil, ChainName_BaseAnvil),
      (ChainId_BaseSepolia, ChainName_BaseSepolia)]"

definition ChainNameToId :: "(ChainName, ChainId) gomap" where
  "ChainNameToId =
     [(ChainName_EthereumMainnet, ChainId_EthereumMainnet),
      (ChainName_EthereumSepolia, ChainId_EthereumSepolia),
      (ChainName_EthereumAnvil, ChainId_EthereumAnvil),
      (ChainName_BaseAnvil, ChainId_BaseAnvil),
      (ChainName_BaseSepolia, ChainId_BaseSepolia)]"

definition IsEthereum :: "ChainId \<Rightarrow> bool" where
  "IsEthereum chainId \<longleftrightarrow>
     chainId = ChainId_EthereumMainnet \<or> chainId = ChainId_EthereumSepolia \<or> chainId = ChainId_EthereumAnvil"

definition Second :: int64 where "Second = 1000000000"
definition Minute :: int64 where "Minute = 60 * Second"

definition GetDefaultPollerIntervalForChainId :: "ChainId \<Rightarrow> int64" where
  "GetDefaultPollerIntervalForChainId chainId =
     (if chainId = ChainId_EthereumMainnet then 6 * Second
      else if chainId = ChainId_EthereumSepolia then 6 * Second
      else if chainId = ChainId_BaseAnvil then 1 * Second
      else if chainId = ChainId_BaseSepolia then 1 * Second
      else if chainId = ChainId_EthereumAnvil then 2 * Second
      else 6 * Second)"

definition ReshareBlockInterval_Mainnet :: int64 where "ReshareBlockInterval_Mainnet = 50"
definition ReshareBlockInterval_Sepolia :: int64 where "ReshareBlockInterval_Sepolia = 10"
definition ReshareBlockInterval_Anvil :: int64 where "ReshareBlockInterval_Anvil = 10"
definition ReshareCutoffBuffer_Mainnet :: int64 where "ReshareCutoffBuffer_Mainnet = 2"
definition ReshareCutoffBuffer_Sepolia :: int64 where "ReshareCutoffBuffer_Sepolia = 2"
definition ReshareCutoffBuffer_Anvil :: int64 where "ReshareCutoffBuffer_Anvil = 2"

definition GetReshareCutoffBufferForChain :: "ChainId \<Rightarrow> int64" where
  "GetReshareCutoffBufferForChain chainId =
     (if chainId = ChainId_EthereumMainnet then ReshareCutoffBuffer_Mainnet
      else if chainId = ChainId_EthereumSepolia then ReshareCutoffBuffer_Sepolia
      else if chainId = ChainId_EthereumAnvil then ReshareCutoffBuffer_Anvil
      else ReshareCutoffBuffer_Mainnet)"

definition GetEnvironmentNameForChainName :: "ChainName \<Rightarrow> string res" where
  "GetEnvironmentNameForChainName chainName =
     (if chainName = ChainName_EthereumMainnet then Inr ''mainnet-ethereum''
      else if chainName = ChainName_EthereumSepolia then Inr ''testnet-sepolia''
      else if chainName = ChainName_EthereumAnvil then Inr ''devnet-sepolia''
      else if chainName = ChainName_PreProdSepolia then Inr ''preprod-sepolia''
      else Inl (Errorf ''unsupported chain name''))"

definition GetReshareBlockIntervalForChain :: "ChainId \<Rightarrow> int64" where
  "GetReshareBlockIntervalForChain chainId =
     (if chainId = ChainId_EthereumMainnet then ReshareBlockInterval_Mainnet
      else if chainId = ChainId_EthereumSepolia then ReshareBlockInterval_Sepolia
      else if chainId = ChainId_EthereumAnvil then ReshareBlockInterval_Anvil
      else ReshareBlockInterval_Mainnet)"

definition GetProtocolTimeoutForChain :: "ChainId \<Rightarrow> int64" where
  "GetProtocolTimeoutForChain chainId =
     (if chainId = ChainId_EthereumMainnet then 8 * Minute
      else if chainId = ChainId_EthereumSepolia then 90 * Second
      else if chainId = ChainId_EthereumAnvil then 30 * Second
      else 8 * Minute)"

record CoreContractAddresses =
  AllocationManager :: string
  DelegationManager :: string
  ReleaseManager :: string
  KeyRegistrar :: string

definition ethereumSepoliaCoreContracts :: CoreContractAddresses where
  "ethereumSepoliaCoreContracts =
     \<lparr>AllocationManager = ''0x42583067658071247ec8ce0a516a58f682002d07'',
      DelegationManager = ''0xd4a7e1bd8015057293f0d0a557088c286942e84b'',
      ReleaseManager = ''0x59c8D715DCa616e032B744a753C017c9f3E16bf4'',
      KeyRegistrar = ''0xa4db30d08d8bbca00d40600bee9f029984db162a''\<rparr>"

definition CoreContractsMap :: "(ChainId, CoreContractAddresses) gomap" where
  "CoreContractsMap =
     [(ChainId_EthereumMainnet,
        \<lparr>AllocationManager = ''0x42583067658071247ec8CE0A516A58f682002d07'',
         DelegationManager = ''0xD4A7E1Bd8015057293f0D0A557088c286942e84b'',
         ReleaseManager = '''', KeyRegistrar = ''''\<rparr>),
      (ChainId_EthereumSepolia, ethereumSepoliaCoreContracts),
      (ChainId_EthereumAnvil, ethereumSepoliaCoreContracts),
      (ChainId_BaseAnvil, ethereumSepoliaCoreContracts),
      (ChainId_BaseSepolia,
        \<lparr>AllocationManager = '''', DelegationManager = '''', ReleaseManager = '''', KeyRegistrar = ''''\<rparr>)]"

definition GetCoreContractsForChainId :: "ChainId \<Rightarrow> CoreContractAddresses res" where
  "GetCoreContractsForChainId chainId =
     (case gm_get CoreContractsMap chainId of
        None \<Rightarrow> Inl (Errorf ''unsupported chain ID'')
      | Some contracts \<Rightarrow> Inr contracts)"

definition GetSupportedChainIDs :: "ChainId list" where
  "GetSupportedChainIDs = [ChainId_EthereumMainnet, ChainId_EthereumSepolia, ChainId_EthereumAnvil]"

definition GetSupportedChainIDsString :: string where
  "GetSupportedChainIDsString =
     show_nat ChainId_EthereumMainnet @ '' (mainnet), '' @ show_nat ChainId_EthereumSepolia @ '' (sepolia), '' @
     show_nat ChainId_EthereumAnvil @ '' (anvil)''"

subsection \<open>Validation\<close>

text \<open>
  \<open>field.ErrorList\<close> collects errors; \<open>ToAggregate\<close> of a list that is not empty is one error.
\<close>

fun ToAggregate :: "string list \<Rightarrow> string" where
  "ToAggregate [] = ''''"
| "ToAggregate [e] = e"
| "ToAggregate (e # es) = e @ '', '' @ ToAggregate es"

definition aggregate :: "string list \<Rightarrow> unit res" where
  "aggregate allErrors = (if length allErrors > 0 then Inl (Errorf (ToAggregate allErrors)) else Inr ())"

record RemoteSignerConfig =
  rsc_Url :: string
  rsc_CACert :: string
  rsc_Cert :: string
  rsc_Key :: string
  rsc_FromAddress :: string
  rsc_PublicKey :: string

definition RemoteSignerConfig_Validate :: "RemoteSignerConfig \<Rightarrow> unit res" where
  "RemoteSignerConfig_Validate rsc = aggregate
     ((if rsc_FromAddress rsc = '''' then [''fromAddress is required''] else []) @
      (if rsc_PublicKey rsc = '''' then [''publicKey is required''] else []))"

record ECDSAKeyConfig =
  UseRemoteSigner :: bool
  ekc_RemoteSignerConfig :: "RemoteSignerConfig option"
  ekc_PrivateKey :: string

definition ECDSAKeyConfig_Validate :: "ECDSAKeyConfig \<Rightarrow> unit res" where
  "ECDSAKeyConfig_Validate ekc = aggregate
     (if UseRemoteSigner ekc then
        (case ekc_RemoteSignerConfig ekc of
           None \<Rightarrow> [''remoteSignerConfig is required when UseRemoteSigner is true'']
         | Some rsc \<Rightarrow> if ok (RemoteSignerConfig_Validate rsc) then [] else [''remoteSignerConfig is invalid''])
      else [])"

record OperatorConfig =
  oc_Address :: string
  SigningConfig :: "ECDSAKeyConfig option"

definition OperatorConfig_Validate :: "OperatorConfig \<Rightarrow> unit res" where
  "OperatorConfig_Validate oc = aggregate
     ((if oc_Address oc = '''' then [''address is required''] else []) @
      (if SigningConfig oc = None then [''signingConfig is required''] else []))"

record RedisConfig =
  rc_Address :: string
  rc_Password :: string
  rc_DB :: int
  rc_KeyPrefix :: string

record PersistenceConfig =
  pc_Type :: string
  DataPath :: string
  pc_RedisConfig :: "RedisConfig option"

definition PersistenceConfig_Validate :: "PersistenceConfig \<Rightarrow> PersistenceConfig \<times> unit res" where
  "PersistenceConfig_Validate pc0 =
     (let pc = (if pc_Type pc0 = '''' then pc0\<lparr>pc_Type := ''badger''\<rparr> else pc0) in
      if pc_Type pc \<noteq> ''memory'' \<and> pc_Type pc \<noteq> ''badger'' \<and> pc_Type pc \<noteq> ''redis''
      then (pc, Inl (Errorf ''persistence type must be memory, badger, or redis''))
      else
        let pc' = (if pc_Type pc = ''badger'' \<and> DataPath pc = '''' then pc\<lparr>DataPath := ''./kms-data''\<rparr> else pc) in
        if pc_Type pc' = ''redis'' then
          (case pc_RedisConfig pc' of
             None \<Rightarrow> (pc', Inl (Errorf ''redis_config is required when persistence type is redis''))
           | Some rc \<Rightarrow>
               if rc_Address rc = '''' then (pc', Inl (Errorf ''redis address cannot be empty''))
               else if rc_DB rc < 0 \<or> rc_DB rc > 15 then (pc', Inl (Errorf ''redis DB must be between 0 and 15''))
               else (pc', Inr ()))
        else (pc', Inr ()))"

record KMSServerConfig =
  c_OperatorAddress :: string
  Port :: int
  c_ChainID :: ChainId
  c_ChainName :: ChainName
  RpcUrl :: string
  c_AVSAddress :: string
  c_OperatorSetId :: nat
  BaseRpcUrl :: string
  CommitmentRegistryAddress :: string
  Debug :: bool
  Verbose :: bool
  AppAllowlist :: "string list"
  c_PersistenceConfig :: PersistenceConfig
  CoreContracts :: "CoreContractAddresses option"
  c_OperatorConfig :: "OperatorConfig option"

text \<open>\<open>isHexAddress\<close> is \<open>common.IsHexAddress\<close> of go-ethereum.\<close>

definition KMSServerConfig_Validate :: "(string \<Rightarrow> bool) \<Rightarrow> KMSServerConfig \<Rightarrow> KMSServerConfig \<times> unit res" where
  "KMSServerConfig_Validate isHexAddress c =
     (if c_OperatorAddress c = '''' then (c, Inl (Errorf ''operator address cannot be empty''))
      else if \<not> isHexAddress (c_OperatorAddress c) then (c, Inl (Errorf ''invalid operator address format''))
      else case c_OperatorConfig c of
        None \<Rightarrow> (c, Inl (Errorf ''operator config cannot be nil''))
      | Some oc \<Rightarrow>
         (case OperatorConfig_Validate oc of
            Inl e \<Rightarrow> (c, Inl (Wrapf ''invalid operator config'' e))
          | Inr _ \<Rightarrow>
             if Port c < 1 \<or> Port c > 65535 then (c, Inl (Errorf ''port must be between 1-65535''))
             else case gm_get ChainIdToName (c_ChainID c) of
               None \<Rightarrow> (c, Inl (Errorf ''unsupported chain ID''))
             | Some chainName \<Rightarrow>
                let c1 = c\<lparr>c_ChainName := chainName\<rparr> in
                (case GetCoreContractsForChainId (c_ChainID c1) of
                   Inl e \<Rightarrow> (c1, Inl (Wrapf ''failed to get core contracts'' e))
                 | Inr coreContracts \<Rightarrow>
                    let c2 = c1\<lparr>CoreContracts := Some coreContracts\<rparr>;
                        (pc, r) = PersistenceConfig_Validate (c_PersistenceConfig c2);
                        c3 = c2\<lparr>c_PersistenceConfig := pc\<rparr> in
                    (case r of Inl e \<Rightarrow> (c3, Inl (Wrapf ''invalid persistence config'' e)) | Inr _ \<Rightarrow> (c3, Inr ())))))"

subsection \<open>Constants by chain\<close>

lemma interval_exceeds_buffer:
  "0 < GetReshareCutoffBufferForChain chainId \<and>
   GetReshareCutoffBufferForChain chainId < GetReshareBlockIntervalForChain chainId \<and>
   GetReshareBlockIntervalForChain chainId \<le> 50"
  by (simp add: GetReshareCutoffBufferForChain_def GetReshareBlockIntervalForChain_def
      ReshareBlockInterval_Mainnet_def ReshareBlockInterval_Sepolia_def ReshareBlockInterval_Anvil_def
      ReshareCutoffBuffer_Mainnet_def ReshareCutoffBuffer_Sepolia_def ReshareCutoffBuffer_Anvil_def)

text \<open>
  The tables of names are inverse to each other: a chain id has a name exactly when the name has
  that id, and a curve type has an enum value exactly when the value decodes to that curve type.
\<close>

theorem names_roundtrip:
  "(gm_get ChainIdToName i = Some n \<longleftrightarrow> gm_get ChainNameToId n = Some i) \<and>
   (ConvertCurveTypeToSolidityEnum c = Inr e \<longleftrightarrow> ConvertSolidityEnumToCurveType e = Inr c)"
  by (auto simp: ChainIdToName_def ChainNameToId_def chain_ids chain_names curve_types
      ConvertCurveTypeToSolidityEnum_def ConvertSolidityEnumToCurveType_def)

subsection \<open>What validation accepts\<close>

lemma aggregate_ok: "ok (aggregate es) \<longleftrightarrow> es = []"
  by (simp add: aggregate_def)

lemma OperatorConfig_Validate_ok:
  "ok (OperatorConfig_Validate oc) \<longleftrightarrow> oc_Address oc \<noteq> '''' \<and> SigningConfig oc \<noteq> None"
  by (auto simp: OperatorConfig_Validate_def aggregate_ok)

definition valid_persistence :: "PersistenceConfig \<Rightarrow> bool" where
  "valid_persistence pc \<longleftrightarrow>
     pc_Type pc \<in> {'''', ''memory'', ''badger''} \<or>
     pc_Type pc = ''redis'' \<and>
       (\<exists>rc. pc_RedisConfig pc = Some rc \<and> rc_Address rc \<noteq> '''' \<and> 0 \<le> rc_DB rc \<and> rc_DB rc \<le> 15)"

lemma PersistenceConfig_Validate_ok: "ok (snd (PersistenceConfig_Validate pc)) \<longleftrightarrow> valid_persistence pc"
  by (auto simp: PersistenceConfig_Validate_def valid_persistence_def Let_def split: option.splits)

lemma PersistenceConfig_Validate_idem:
  "PersistenceConfig_Validate (fst (PersistenceConfig_Validate pc)) = PersistenceConfig_Validate pc"
proof -
  consider "pc_Type pc = []" | "pc_Type pc = ''memory''" | "pc_Type pc = ''badger''" | "pc_Type pc = ''redis''"
    | "pc_Type pc \<notin> {[], ''memory'', ''badger'', ''redis''}" by auto
  then show ?thesis
  proof cases
    case 4
    then show ?thesis by (cases "pc_RedisConfig pc") (simp_all add: PersistenceConfig_Validate_def Let_def)
  qed (simp_all add: PersistenceConfig_Validate_def Let_def)
qed

lemma core_contracts_of_named_chain:
  "gm_get ChainIdToName i = Some n \<Longrightarrow> \<exists>cc. GetCoreContractsForChainId i = Inr cc"
  by (auto simp: ChainIdToName_def GetCoreContractsForChainId_def CoreContractsMap_def split: if_splits)

lemma KMSServerConfig_Validate_ok:
  "ok (snd (KMSServerConfig_Validate h c)) \<longleftrightarrow>
     c_OperatorAddress c \<noteq> '''' \<and> h (c_OperatorAddress c) \<and>
     (\<exists>oc. c_OperatorConfig c = Some oc \<and> ok (OperatorConfig_Validate oc)) \<and>
     1 \<le> Port c \<and> Port c \<le> 65535 \<and> gm_get ChainIdToName (c_ChainID c) \<noteq> None \<and>
     ok (snd (PersistenceConfig_Validate (c_PersistenceConfig c)))"
proof -
  obtain pc r where pc: "PersistenceConfig_Validate (c_PersistenceConfig c) = (pc, r)" by force
  show ?thesis
    using core_contracts_of_named_chain [of "c_ChainID c"]
    by (cases r) (auto simp: KMSServerConfig_Validate_def Let_def pc split: option.splits sum.splits)
qed

lemma KMSServerConfig_Validate_idem:
  "KMSServerConfig_Validate h (fst (KMSServerConfig_Validate h c)) = KMSServerConfig_Validate h c"
proof -
  obtain pc r where pc: "PersistenceConfig_Validate (c_PersistenceConfig c) = (pc, r)" by force
  have pc': "PersistenceConfig_Validate pc = (pc, r)"
    using PersistenceConfig_Validate_idem [of "c_PersistenceConfig c"] by (simp add: pc)
  consider "c_OperatorConfig c = None"
    | oc e where "c_OperatorConfig c = Some oc" "OperatorConfig_Validate oc = Inl e"
    | oc where "c_OperatorConfig c = Some oc" "OperatorConfig_Validate oc = Inr ()"
        "gm_get ChainIdToName (c_ChainID c) = None"
    | oc n cc where "c_OperatorConfig c = Some oc" "OperatorConfig_Validate oc = Inr ()"
        "gm_get ChainIdToName (c_ChainID c) = Some n" "GetCoreContractsForChainId (c_ChainID c) = Inr cc"
    by (metis core_contracts_of_named_chain old.sum.exhaust old.unit.exhaust option.exhaust)
  then show ?thesis
    by cases (cases r; simp add: KMSServerConfig_Validate_def Let_def pc pc')+
qed

text \<open>What an accepted configuration becomes: its fields are kept but for those that get a default.\<close>

lemma PersistenceConfig_Validate_defaults:
  assumes "ok (snd (PersistenceConfig_Validate pc))"
  shows "fst (PersistenceConfig_Validate pc) =
    \<lparr>pc_Type = (if pc_Type pc = '''' then ''badger'' else pc_Type pc),
     DataPath = (if (pc_Type pc = '''' \<or> pc_Type pc = ''badger'') \<and> DataPath pc = '''' then ''./kms-data'' else DataPath pc),
     pc_RedisConfig = pc_RedisConfig pc\<rparr>"
  using assms by (cases pc) (auto simp: PersistenceConfig_Validate_def Let_def split: option.splits)

lemma KMSServerConfig_Validate_defaults:
  assumes "ok (snd (KMSServerConfig_Validate h c))"
  shows "\<exists>chainName coreContracts. gm_get ChainIdToName (c_ChainID c) = Some chainName \<and>
    GetCoreContractsForChainId (c_ChainID c) = Inr coreContracts \<and>
    fst (KMSServerConfig_Validate h c) = c\<lparr>c_ChainName := chainName, CoreContracts := Some coreContracts,
      c_PersistenceConfig := fst (PersistenceConfig_Validate (c_PersistenceConfig c))\<rparr>"
proof -
  obtain pc r where pc: "PersistenceConfig_Validate (c_PersistenceConfig c) = (pc, r)" by force
  show ?thesis using assms
    by (auto simp: KMSServerConfig_Validate_def Let_def pc split: if_splits option.splits sum.splits)
qed

text \<open>
  C40. Validation accepts exactly the configurations with a hexadecimal operator address, an operator
  address and a signing configuration in the operator configuration, a port of the legal range, a
  chain that has a name and a usable persistence section. An accepted one gets the name of its chain,
  the chain's core contracts, and a persistence section whose type is \<open>badger\<close> if it had none and whose
  data path is \<open>./kms-data\<close> if it had none and the type is \<open>badger\<close>; its other fields are kept.
  Validation is idempotent, also when it fails: what it left behind validates with the same result.
\<close>

theorem KMSServerConfig_Validate_correct:
  "(ok (snd (KMSServerConfig_Validate h c)) \<longleftrightarrow>
      c_OperatorAddress c \<noteq> '''' \<and> h (c_OperatorAddress c) \<and>
      (\<exists>oc. c_OperatorConfig c = Some oc \<and> oc_Address oc \<noteq> '''' \<and> SigningConfig oc \<noteq> None) \<and>
      1 \<le> Port c \<and> Port c \<le> 65535 \<and> c_ChainID c \<in> {1, 11155111, 31337, 31338, 84532} \<and>
      valid_persistence (c_PersistenceConfig c)) \<and>
   KMSServerConfig_Validate h (fst (KMSServerConfig_Validate h c)) = KMSServerConfig_Validate h c \<and>
   (ok (snd (KMSServerConfig_Validate h c)) \<longrightarrow>
      (\<exists>chainName coreContracts. gm_get ChainIdToName (c_ChainID c) = Some chainName \<and>
         GetCoreContractsForChainId (c_ChainID c) = Inr coreContracts \<and>
         fst (KMSServerConfig_Validate h c) =
           c\<lparr>c_ChainName := chainName, CoreContracts := Some coreContracts, c_PersistenceConfig :=
             (let pc = c_PersistenceConfig c in
              \<lparr>pc_Type = (if pc_Type pc = '''' then ''badger'' else pc_Type pc),
               DataPath = (if (pc_Type pc = '''' \<or> pc_Type pc = ''badger'') \<and> DataPath pc = '''' then ''./kms-data'' else DataPath pc),
               pc_RedisConfig = pc_RedisConfig pc\<rparr>)\<rparr>))"
proof -
  have "gm_get ChainIdToName i \<noteq> None \<longleftrightarrow> i \<in> {1, 11155111, 31337, 31338, 84532}" for i
    by (auto simp: ChainIdToName_def chain_ids)
  then have accepted: "ok (snd (KMSServerConfig_Validate h c)) \<longleftrightarrow>
      c_OperatorAddress c \<noteq> '''' \<and> h (c_OperatorAddress c) \<and>
      (\<exists>oc. c_OperatorConfig c = Some oc \<and> oc_Address oc \<noteq> '''' \<and> SigningConfig oc \<noteq> None) \<and>
      1 \<le> Port c \<and> Port c \<le> 65535 \<and> c_ChainID c \<in> {1, 11155111, 31337, 31338, 84532} \<and>
      valid_persistence (c_PersistenceConfig c)"
    unfolding KMSServerConfig_Validate_ok OperatorConfig_Validate_ok PersistenceConfig_Validate_ok by simp
  then have "ok (snd (PersistenceConfig_Validate (c_PersistenceConfig c)))" if "ok (snd (KMSServerConfig_Validate h c))"
    using that by (simp add: PersistenceConfig_Validate_ok)
  note defaults = PersistenceConfig_Validate_defaults [OF this]
  show ?thesis
    using accepted KMSServerConfig_Validate_idem KMSServerConfig_Validate_defaults [of h c]
    unfolding Let_def by (metis defaults)
qed

text \<open>A configuration for Sepolia with an empty persistence section.\<close>

definition sepolia_config :: KMSServerConfig where
  "sepolia_config = \<lparr>c_OperatorAddress = ''0x1'', Port = 8000, c_ChainID = 11155111, c_ChainName = '''', RpcUrl = '''', c_AVSAddress = '''',
     c_OperatorSetId = 0, BaseRpcUrl = '''', CommitmentRegistryAddress = '''', Debug = False, Verbose = False,
     AppAllowlist = [], c_PersistenceConfig = \<lparr>pc_Type = '''', DataPath = '''', pc_RedisConfig = None\<rparr>, CoreContracts = None,
     c_OperatorConfig = Some \<lparr>oc_Address = ''0x1'',
       SigningConfig = Some \<lparr>UseRemoteSigner = False, ekc_RemoteSignerConfig = None, ekc_PrivateKey = ''k''\<rparr>\<rparr>\<rparr>"

theorem KMSServerConfig_Validate_correct_witness:
  "\<exists>c'. KMSServerConfig_Validate (\<lambda>_. True) sepolia_config = (c', Inr ()) \<and> c_ChainName c' = ''sepolia'' \<and> CoreContracts c' \<noteq> None \<and>
     c_PersistenceConfig c' = \<lparr>pc_Type = ''badger'', DataPath = ''./kms-data'', pc_RedisConfig = None\<rparr> \<and> Port c' = 8000"
proof -
  note correct = KMSServerConfig_Validate_correct [of "\<lambda>_. True" sepolia_config]
  have "ok (snd (KMSServerConfig_Validate (\<lambda>_. True) sepolia_config))"
    using conjunct1 [OF correct] by (simp add: sepolia_config_def valid_persistence_def)
  moreover obtain c' r where v: "KMSServerConfig_Validate (\<lambda>_. True) sepolia_config = (c', r)" by force
  ultimately have r: "r = Inr ()" and "\<exists>chainName coreContracts. gm_get ChainIdToName (c_ChainID sepolia_config) = Some chainName \<and> c' =
      sepolia_config\<lparr>c_ChainName := chainName, CoreContracts := Some coreContracts,
        c_PersistenceConfig := \<lparr>pc_Type = ''badger'', DataPath = ''./kms-data'', pc_RedisConfig = None\<rparr>\<rparr>"
    using correct by (auto simp: ok_iff sepolia_config_def)
  then obtain chainName coreContracts where n: "gm_get ChainIdToName (c_ChainID sepolia_config) = Some chainName" and c': "c' =
      sepolia_config\<lparr>c_ChainName := chainName, CoreContracts := Some coreContracts,
        c_PersistenceConfig := \<lparr>pc_Type = ''badger'', DataPath = ''./kms-data'', pc_RedisConfig = None\<rparr>\<rparr>" by blast
  have "chainName = ''sepolia''" using n by (auto simp: sepolia_config_def ChainIdToName_def chain_ids chain_names)
  then have "c_ChainName c' = ''sepolia'' \<and> CoreContracts c' \<noteq> None \<and> Port c' = 8000 \<and>
     c_PersistenceConfig c' = \<lparr>pc_Type = ''badger'', DataPath = ''./kms-data'', pc_RedisConfig = None\<rparr>"
    unfolding c' by (simp add: sepolia_config_def)
  with v r show ?thesis by blast
qed

text \<open>
  The signing configuration itself is not validated: a server that is told to use a remote signer
  and has no configuration of one passes.
\<close>

lemma remote_signer_unchecked:
  "\<exists>c k. ok (snd (KMSServerConfig_Validate (\<lambda>_. True) c)) \<and>
     (\<exists>oc. c_OperatorConfig c = Some oc \<and> SigningConfig oc = Some k) \<and> \<not> ok (ECDSAKeyConfig_Validate k)"
proof -
  let ?k = "\<lparr>UseRemoteSigner = True, ekc_RemoteSignerConfig = None, ekc_PrivateKey = ''''\<rparr>"
  let ?c = "\<lparr>c_OperatorAddress = ''0x1'', Port = 1, c_ChainID = 1, c_ChainName = '''', RpcUrl = '''', c_AVSAddress = '''',
    c_OperatorSetId = 0, BaseRpcUrl = '''', CommitmentRegistryAddress = '''', Debug = False, Verbose = False,
    AppAllowlist = [], c_PersistenceConfig = \<lparr>pc_Type = '''', DataPath = '''', pc_RedisConfig = None\<rparr>,
    CoreContracts = None, c_OperatorConfig = Some \<lparr>oc_Address = ''0x1'', SigningConfig = Some ?k\<rparr>\<rparr>"
  have "\<not> ok (ECDSAKeyConfig_Validate ?k)" by (simp add: ECDSAKeyConfig_Validate_def aggregate_ok)
  moreover have "ok (snd (KMSServerConfig_Validate (\<lambda>_. True) ?c))"
    unfolding KMSServerConfig_Validate_ok
    by (simp add: OperatorConfig_Validate_ok PersistenceConfig_Validate_ok valid_persistence_def
        ChainIdToName_def chain_ids)
  ultimately show ?thesis by (intro exI [of _ ?c] exI [of _ ?k]) simp
qed

end
