(* ===== verification/Block_Lookup.thy ===== *)
theory Block_Lookup
  imports Prelude
begin

text \<open>
  \<open>pkg/contractCaller/caller/blockLookup.go\<close>: the timestamp of a block, and the binary search
  for the first block at or after a timestamp. Block numbers and timestamps are 64-bit words. The
  Ethereum client is the parameter \<open>HeaderByNumber\<close>: a block number, or none for the head, gives
  a header or an error. The search ends, never overflows, and on a chain whose timestamps do not
  decrease it returns the least block from 1 on whose timestamp reaches the target, which does not
  depend on the head the node sees.
\<close>

type_synonym uint64 = "64 word"

record Header =
  Number :: int
  Time :: uint64

type_synonym eth_client = "uint64 option \<Rightarrow> Header res"

definition HeaderTimestampAt :: "eth_client \<Rightarrow> uint64 \<Rightarrow> uint64 res" where
  "HeaderTimestampAt HeaderByNumber blockNumber =
     (let num = (if blockNumber \<noteq> 0 then Some blockNumber else None) in
      bind_res (wrap_err ''failed to fetch header for block'' (HeaderByNumber num)) (\<lambda>header. Inr (Time header)))"

lemma mid_bounds:
  fixes lo hi :: uint64
  assumes "lo < hi"
  shows "lo \<le> lo + (hi - lo) div 2" "lo + (hi - lo) div 2 < hi" "unat (lo + (hi - lo) div 2) < unat hi"
    "unat (lo + (hi - lo) div 2 + 1) = unat (lo + (hi - lo) div 2) + 1"
proof -
  have d: "unat ((hi - lo) div 2) = (unat hi - unat lo) div 2"
    using assms by (simp add: unat_div_distrib unat_sub word_less_nat_alt word_le_nat_alt)
  have lt: "unat lo < unat hi" using assms by (simp add: word_less_nat_alt)
  have hi: "unat hi < 2 ^ 64" using unsigned_less [of hi] by simp
  have m: "unat (lo + (hi - lo) div 2) = unat lo + (unat hi - unat lo) div 2"
  proof -
    have "unat lo + (unat hi - unat lo) div 2 < 2 ^ 64" using lt hi by linarith
    then show ?thesis using unat_add_lem [of lo "(hi - lo) div 2"] by (simp add: d)
  qed
  show "lo \<le> lo + (hi - lo) div 2" "lo + (hi - lo) div 2 < hi" "unat (lo + (hi - lo) div 2) < unat hi"
    using m lt by (simp_all add: word_le_nat_alt word_less_nat_alt)
  then show "unat (lo + (hi - lo) div 2 + 1) = unat (lo + (hi - lo) div 2) + 1"
    using hi unat_add_lem [of "lo + (hi - lo) div 2" 1] by simp
qed

text \<open>The loop of the search.\<close>

function search :: "(uint64 \<Rightarrow> uint64 res) \<Rightarrow> uint64 \<Rightarrow> uint64 \<Rightarrow> uint64 \<Rightarrow> uint64 res" where
  "search tsAt target lo hi =
     (if lo < hi then
        let mid = lo + (hi - lo) div 2 in
        (case tsAt mid of
           Inl e \<Rightarrow> Inl e
         | Inr ts \<Rightarrow> if ts \<ge> target then search tsAt target lo mid else search tsAt target (mid + 1) hi)
      else Inr lo)"
  by pat_completeness auto
termination
proof (relation "measure (\<lambda>(tsAt, target, lo, hi). unat hi - unat lo)")
  fix tsAt :: "uint64 \<Rightarrow> uint64 res" and target lo hi mid ts :: uint64
  assume "lo < hi" and "mid = lo + (hi - lo) div 2"
  then show "((tsAt, target, lo, mid), tsAt, target, lo, hi) \<in> measure (\<lambda>(tsAt, target, lo, hi). unat hi - unat lo)"
    and "((tsAt, target, mid + 1, hi), tsAt, target, lo, hi) \<in> measure (\<lambda>(tsAt, target, lo, hi). unat hi - unat lo)"
    using mid_bounds [of lo hi] by (auto simp: word_le_nat_alt word_less_nat_alt)
qed simp

declare search.simps [simp del]

definition firstBlockAtOrAfterTimestamp :: "uint64 \<Rightarrow> uint64 \<Rightarrow> (uint64 \<Rightarrow> uint64 res) \<Rightarrow> uint64 res" where
  "firstBlockAtOrAfterTimestamp target head tsAt =
     (if head = 0 then Inl (Errorf ''no blocks available (head is 0)'')
      else bind_res (tsAt head) (\<lambda>headTs.
        if headTs < target then Inl (Errorf ''head block timestamp is below target; chain not advanced yet'')
        else search tsAt target 1 head))"

definition FirstBlockAtOrAfterTimestamp :: "eth_client \<Rightarrow> uint64 \<Rightarrow> uint64 res" where
  "FirstBlockAtOrAfterTimestamp HeaderByNumber targetTimestamp =
     bind_res (wrap_err ''failed to fetch head header'' (HeaderByNumber None)) (\<lambda>headNum.
       firstBlockAtOrAfterTimestamp targetTimestamp (of_int (Number headNum)) (HeaderTimestampAt HeaderByNumber))"

subsection \<open>Correctness\<close>

text \<open>
  \<open>first_block ts target n\<close>: the least block from 1 on whose timestamp reaches the target.
\<close>

definition first_block :: "(uint64 \<Rightarrow> uint64) \<Rightarrow> uint64 \<Rightarrow> uint64 \<Rightarrow> bool" where
  "first_block ts target n \<longleftrightarrow> 1 \<le> n \<and> target \<le> ts n \<and> (\<forall>m. 1 \<le> m \<longrightarrow> m < n \<longrightarrow> ts m < target)"

lemma first_block_unique: "first_block ts target m \<Longrightarrow> first_block ts target n \<Longrightarrow> m = n"
  unfolding first_block_def by (metis linorder_neqE not_le)

lemma search_correct:
  assumes "mono ts" "1 \<le> lo" "lo \<le> hi" "target \<le> ts hi" "\<And>m. 1 \<le> m \<Longrightarrow> m < lo \<Longrightarrow> ts m < target"
    "\<And>n t. tsAt n = Inr t \<Longrightarrow> n \<noteq> 0 \<Longrightarrow> t = ts n" "search tsAt target lo hi = Inr r"
  shows "first_block ts target r \<and> r \<le> hi"
  using assms
proof (induction tsAt target lo hi rule: search.induct)
  case (1 tsAt target lo hi)
  show ?case
  proof (cases "lo < hi")
    case False
    then have "lo = hi" using "1.prems"(3) by simp
    moreover have "r = lo" using False "1.prems"(7) by (simp add: search.simps [of tsAt target lo hi])
    ultimately show ?thesis using 1 by (auto simp: first_block_def)
  next
    case True
    define mid where "mid = lo + (hi - lo) div 2"
    note b = mid_bounds [OF True, folded mid_def]
    have "mid \<noteq> 0" using b(1) "1.prems"(2) by auto
    from True "1.prems"(7) obtain t where t: "tsAt mid = Inr t"
      by (simp add: search.simps [of tsAt target lo hi] mid_def [symmetric] Let_def split: sum.splits)
    then have tm: "t = ts mid" using "1.prems"(6) \<open>mid \<noteq> 0\<close> by blast
    show ?thesis
    proof (cases "target \<le> t")
      case ge: True
      then have "search tsAt target lo mid = Inr r"
        using True "1.prems"(7) t by (simp add: search.simps [of tsAt target lo hi] mid_def [symmetric] Let_def)
      then have "first_block ts target r \<and> r \<le> mid"
        using "1.IH"(1) [OF True mid_def t ge] "1.prems" b(1) tm ge by blast
      with b(2) show ?thesis by auto
    next
      case lt: False
      then have "search tsAt target (mid + 1) hi = Inr r"
        using True "1.prems"(7) t by (simp add: search.simps [of tsAt target lo hi] mid_def [symmetric] Let_def)
      moreover have "ts m < target" if "m < mid + 1" for m
      proof -
        have "m \<le> mid" using that b(4) by (simp add: word_le_nat_alt word_less_nat_alt)
        then have "ts m \<le> ts mid" by (rule monoD [OF "1.prems"(1)])
        with lt tm show ?thesis by simp
      qed
      moreover have "1 \<le> mid + 1" "mid + 1 \<le> hi"
        using b by (simp_all add: word_le_nat_alt word_less_nat_alt)
      ultimately show ?thesis
        using "1.IH"(2) [OF True mid_def t lt] "1.prems"(1,4,6) by blast
    qed
  qed
qed

lemma search_total:
  assumes "1 \<le> lo" "lo \<le> hi" "\<And>n. 1 \<le> n \<Longrightarrow> n \<le> hi \<Longrightarrow> ok (tsAt n)"
  shows "ok (search tsAt target lo hi)"
  using assms
proof (induction tsAt target lo hi rule: search.induct)
  case (1 tsAt target lo hi)
  show ?case
  proof (cases "lo < hi")
    case False
    then show ?thesis by (simp add: search.simps [of tsAt target lo hi])
  next
    case True
    define mid where "mid = lo + (hi - lo) div 2"
    note b = mid_bounds [OF True, folded mid_def]
    have "1 \<le> mid" "mid \<le> hi" using b "1.prems"(1) by auto
    then obtain t where t: "tsAt mid = Inr t" using "1.prems"(3) unfolding ok_iff by blast
    have m: "1 \<le> mid + 1" "mid + 1 \<le> hi" using b by (simp_all add: word_le_nat_alt word_less_nat_alt)
    have "ok (search tsAt target lo mid)" if "target \<le> t"
      using "1.IH"(1) [OF True mid_def t that "1.prems"(1) b(1)] "1.prems"(3) \<open>mid \<le> hi\<close> by (meson order_trans)
    moreover have "ok (search tsAt target (mid + 1) hi)" if "\<not> target \<le> t"
      using "1.IH"(2) [OF True mid_def t that m] "1.prems"(3) by blast
    ultimately show ?thesis
      using True t by (simp add: search.simps [of tsAt target lo hi] mid_def [symmetric] Let_def)
  qed
qed

lemma firstBlock_sound:
  assumes "mono ts" "\<And>n t. tsAt n = Inr t \<Longrightarrow> n \<noteq> 0 \<Longrightarrow> t = ts n"
    "firstBlockAtOrAfterTimestamp target head tsAt = Inr r"
  shows "first_block ts target r \<and> r \<le> head"
proof -
  from assms(3) obtain t where t: "head \<noteq> 0" "tsAt head = Inr t" "\<not> t < target" "search tsAt target 1 head = Inr r"
    by (auto simp: firstBlockAtOrAfterTimestamp_def res_simps split: if_splits)
  then have "1 \<le> head" by (simp add: word_le_nat_alt Suc_le_eq unat_gt_0)
  moreover have "target \<le> ts head" using t assms(2) by force
  moreover have "\<not> m < 1" if "1 \<le> m" for m :: uint64 using that by (simp only: not_less)
  ultimately show ?thesis using search_correct [OF assms(1) _ _ _ _ assms(2) t(4)] by blast
qed

text \<open>
  The search is correct on a chain whose timestamps do not decrease, with reads that fail or tell
  the truth: a block that it returns is the least block from 1 on that reaches the target, whatever
  head the node sees; and when the reads up to the head succeed, it returns a block exactly when the
  head reaches the target.
\<close>

theorem firstBlockAtOrAfterTimestamp_correct:
  assumes mono: "mono ts" and truth: "\<And>n t. tsAt n = Inr t \<Longrightarrow> n \<noteq> 0 \<Longrightarrow> t = ts n"
  shows "(firstBlockAtOrAfterTimestamp target head tsAt = Inr r \<longrightarrow> first_block ts target r \<and> r \<le> head) \<and>
    ((\<forall>n. 1 \<le> n \<and> n \<le> head \<longrightarrow> ok (tsAt n)) \<longrightarrow>
      (ok (firstBlockAtOrAfterTimestamp target head tsAt) \<longleftrightarrow> head \<noteq> 0 \<and> target \<le> ts head))"
proof (intro conjI impI)
  assume "firstBlockAtOrAfterTimestamp target head tsAt = Inr r"
  then show "first_block ts target r" "r \<le> head" using firstBlock_sound [OF mono truth] by blast+
next
  assume all: "\<forall>n. 1 \<le> n \<and> n \<le> head \<longrightarrow> ok (tsAt n)"
  show "ok (firstBlockAtOrAfterTimestamp target head tsAt) \<longleftrightarrow> head \<noteq> 0 \<and> target \<le> ts head"
  proof (cases "head = 0")
    case True
    then show ?thesis by (simp add: firstBlockAtOrAfterTimestamp_def)
  next
    case False
    then have h: "1 \<le> head" by (simp add: word_le_nat_alt Suc_le_eq unat_gt_0)
    with all obtain t where t: "tsAt head = Inr t" unfolding ok_iff by blast
    with False truth have "t = ts head" by blast
    then show ?thesis
      using False t search_total [of 1 head tsAt target] h all
      by (auto simp: firstBlockAtOrAfterTimestamp_def not_less)
  qed
qed

theorem firstBlockAtOrAfterTimestamp_correct_witness:
  "firstBlockAtOrAfterTimestamp 25 5 (\<lambda>n. Inr (10 * min n 100)) = Inr 3 \<and>
   first_block (\<lambda>n. 10 * min n 100) 25 3"
proof -
  let ?ts = "\<lambda>n :: uint64. 10 * min n 100"
  have "mono ?ts"
  proof
    fix m n :: uint64
    assume "m \<le> n"
    have u: "unat (10 * min k 100 :: uint64) = 10 * min (unat k) 100" for k :: uint64
      using unat_mult_lem [of "10 :: uint64" "min k 100"] by (auto simp: min_def word_le_nat_alt split: if_splits)
    show "?ts m \<le> ?ts n" using \<open>m \<le> n\<close> unfolding word_le_nat_alt u by auto
  qed
  moreover have "firstBlockAtOrAfterTimestamp 25 5 (\<lambda>n. Inr (?ts n)) = Inr 3"
    by (simp add: firstBlockAtOrAfterTimestamp_def search.simps)
  ultimately show ?thesis
    using firstBlockAtOrAfterTimestamp_correct [of ?ts "\<lambda>n. Inr (?ts n)" 25 5 3] by simp
qed

end
