(* ===== verification/Dealer_Agreement.thy ===== *)
theory Dealer_Agreement
  imports Key_Store Dkg Session Configuration Block_Lookup
begin

text \<open>
  How the nodes agree on the dealers of a reshare (\<open>pkg/node/node.go\<close>, \<open>fetchCurrentOperators\<close>
  to \<open>deriveAgreedDealerSet\<close>, over \<open>pkg/contractCaller/caller/commitmentRegistry.go\<close>): the
  expected dealers come from the chain and the stored participants, the cutoff block from the
  timestamp of the L1 deadline block, and a dealer is in the set when the registry has its commitment
  at the cutoff. Reads are retried until the deadline of the round. The theorems: nodes that return a
  set take the same of the dealers that they both expect, with the same hashes, whenever and from
  whichever views of the chains they read; the loops end once the deadline has passed; and the overlap check leaves enough dealers.
\<close>

subsection \<open>Operator sets\<close>

text \<open>
  \<open>listed\<close> is the answer of \<open>ListKMSOperators\<close>. The comparison of the sort is
  \<open>bytes.Compare\<close> on addresses, which is their numeric order (\<open>addr_bytes_less\<close>).
\<close>

definition fetchCurrentOperators :: "OperatorSetPeers res \<Rightarrow> OperatorSetPeer list res" where
  "fetchCurrentOperators listed =
     bind_res (wrap_err ''failed to fetch operators from peering system'' listed) (\<lambda>operatorSetPeers.
       let sortedPeers = sort_key OperatorAddress (Peers operatorSetPeers) in
       bind_res (wrap_err ''operator set validation failed'' (validateOperatorSetNoDuplicates (map Some sortedPeers)))
         (\<lambda>_. Inr sortedPeers))"

definition validateReshareOperatorOverlap :: "address list \<Rightarrow> OperatorSetPeer list \<Rightarrow> unit res" where
  "validateReshareOperatorOverlap oldParticipants newOperators =
     (if length oldParticipants = 0 then Inr ()
      else
        let oldThreshold = CalculateThreshold (int (length oldParticipants));
            newOperatorAddrs = OperatorAddress ` set newOperators;
            overlap = fold (\<lambda>addr n. if addr \<in> newOperatorAddrs then n + 1 else n) oldParticipants (0 :: int)
        in if overlap < oldThreshold then Inl (Errorf ''insufficient operator overlap for reshare'') else Inr ())"

definition sessionParticipantIDs :: "OperatorSetPeer list \<Rightarrow> address list" where
  "sessionParticipantIDs operators = map OperatorAddress operators"

text \<open>A missing entry of the map reads as false.\<close>

definition existingOperatorDealers :: "OperatorSetPeer list \<Rightarrow> (address, bool) gomap \<Rightarrow> address list" where
  "existingOperatorDealers operators existingOpIDs =
     map OperatorAddress (filter (\<lambda>op. gm_get existingOpIDs (OperatorAddress op) = Some True) operators)"

definition expectedReshareDealers :: "'f KeyStore \<Rightarrow> OperatorSetPeer list \<Rightarrow> address list" where
  "expectedReshareDealers ks operators =
     (case GetActiveVersion ks of
        None \<Rightarrow> map OperatorAddress operators
      | Some a \<Rightarrow>
          if length (ParticipantIDs (objs ks a)) = 0 then map OperatorAddress operators
          else
            let prevParticipants = set (ParticipantIDs (objs ks a)) in
            map OperatorAddress (filter (\<lambda>op. OperatorAddress op \<in> prevParticipants) operators))"

subsection \<open>Reading the chain\<close>

text \<open>
  What a node sees of the chains at one moment: the Ethereum client of \<open>platformConfigCaller\<close>
  (nil in single-chain setups), that of \<open>baseContractCaller\<close>, and the generated binding of the
  registry's \<open>getCommitment\<close>, at a block or at the head.
\<close>

record registry_entry =
  CommitmentHash :: bytes
  AckMerkleRoot :: bytes
  SubmittedAt :: int

record chain_view =
  platform_client :: "eth_client option"
  base_client :: eth_client
  registry_call :: "uint64 option \<Rightarrow> uint64 \<Rightarrow> address \<Rightarrow> registry_entry res"

definition GetCommitmentAt :: "chain_view \<Rightarrow> int64 \<Rightarrow> address \<Rightarrow> uint64 \<Rightarrow> (bytes \<times> bytes \<times> uint64) res" where
  "GetCommitmentAt v epoch operator blockNumber =
     bind_res (wrap_err ''failed to get commitment''
       (registry_call v (if blockNumber \<noteq> 0 then Some blockNumber else None) (word_of_int epoch) operator))
       (\<lambda>commitment. Inr (CommitmentHash commitment, AckMerkleRoot commitment, word_of_int (SubmittedAt commitment)))"

definition GetCommitment :: "chain_view \<Rightarrow> int64 \<Rightarrow> address \<Rightarrow> (bytes \<times> bytes \<times> uint64) res" where
  "GetCommitment v epoch operator = GetCommitmentAt v epoch operator 0"

text \<open>The block \<open>triggerBlock + interval - buffer\<close>.\<close>

definition deadline_block :: "ChainId \<Rightarrow> int64 \<Rightarrow> uint64" where
  "deadline_block chainID triggerBlock =
     word_of_int (triggerBlock + GetReshareBlockIntervalForChain chainID - GetReshareCutoffBufferForChain chainID)"

definition resolveCutoffL2 :: "ChainId \<Rightarrow> chain_view \<Rightarrow> int64 \<Rightarrow> uint64 res" where
  "resolveCutoffL2 chainID v triggerBlock =
     (let deadlineL1 = deadline_block chainID triggerBlock;
          l1 = (case platform_client v of None \<Rightarrow> base_client v | Some c \<Rightarrow> c) in
      bind_res (wrap_err ''L1 deadline block not readable yet'' (HeaderTimestampAt l1 deadlineL1)) (\<lambda>deadlineTs.
        wrap_err ''L2 cutoff not resolvable'' (FirstBlockAtOrAfterTimestamp (base_client v) deadlineTs)))"

text \<open>
  One attempt of a retry loop: the view it reads, the time when it has failed, and whether the
  context is done when it would wait. \<open>retry_read\<close> is the loop; it gives the attempts that are left,
  or \<open>None\<close> when it is still running after all of them.
\<close>

record attempt =
  at_view :: chain_view
  at_now :: int64
  at_done :: bool

fun retry_read ::
  "(chain_view \<Rightarrow> 'a res) \<Rightarrow> string \<Rightarrow> int64 \<Rightarrow> attempt list \<Rightarrow> ('a res \<times> attempt list) option" where
  "retry_read read aborted deadline [] = None"
| "retry_read read aborted deadline (a # as) =
     (case read (at_view a) of
        Inr x \<Rightarrow> Some (Inr x, as)
      | Inl e \<Rightarrow>
          if at_now a > deadline then Some (Inl (Wrapf aborted e), as)
          else if at_done a then Some (Inl (Errorf ''context done''), as)
          else retry_read read aborted deadline as)"

definition zero_hash :: bytes where
  "zero_hash = replicate 32 0"

fun read_dealers ::
  "int64 \<Rightarrow> uint64 \<Rightarrow> int64 \<Rightarrow> address list \<Rightarrow> address list \<times> (address, bytes) gomap \<Rightarrow> attempt list \<Rightarrow>
   (address list \<times> (address, bytes) gomap) res option" where
  "read_dealers epoch cutoffL2 deadline [] acc as = Some (Inr acc)"
| "read_dealers epoch cutoffL2 deadline (dealer # expected) (submitted, onChainHashes) as =
     (case retry_read (\<lambda>v. GetCommitmentAt v epoch dealer cutoffL2)
             ''reshare aborted: dealer not readable at cutoff L2 block before deadline'' deadline as of
        None \<Rightarrow> None
      | Some (Inl e, _) \<Rightarrow> Some (Inl e)
      | Some (Inr (commitmentHash, _, _), as') \<Rightarrow>
          read_dealers epoch cutoffL2 deadline expected
            (if commitmentHash \<noteq> zero_hash
             then (submitted @ [dealer], gm_set onChainHashes dealer commitmentHash) else (submitted, onChainHashes)) as')"

definition round_deadline :: "ChainId \<Rightarrow> int64 \<Rightarrow> int64" where
  "round_deadline chainID now = now + GetReshareBlockIntervalForChain chainID * 13 * Second"

definition deriveAgreedDealerSet ::
  "ChainId \<Rightarrow> 'f KeyStore \<Rightarrow> OperatorSetPeer list \<Rightarrow> int64 \<Rightarrow> int64 \<Rightarrow> address list option \<Rightarrow> int64 \<Rightarrow> attempt list \<Rightarrow>
   (address list \<times> (address, bytes) gomap) res option" where
  "deriveAgreedDealerSet chainID ks operators epoch triggerBlock expectedDealers now as =
     (let expected = (case expectedDealers of None \<Rightarrow> expectedReshareDealers ks operators | Some ds \<Rightarrow> ds) in
      if length expected = 0 then Some (Inl (Errorf ''no expected dealers for reshare''))
      else
        let deadline = round_deadline chainID now in
        (case retry_read (\<lambda>v. resolveCutoffL2 chainID v triggerBlock)
               ''reshare aborted: L2 cutoff not resolvable before deadline'' deadline as of
           None \<Rightarrow> None
         | Some (Inl e, _) \<Rightarrow> Some (Inl e)
         | Some (Inr cutoffL2, as') \<Rightarrow> read_dealers epoch cutoffL2 deadline expected ([], []) as'))"

subsection \<open>The loops end\<close>

definition late :: "int64 \<Rightarrow> attempt list \<Rightarrow> nat" where
  "late deadline as = length (filter (\<lambda>a. at_now a > deadline) as)"

lemma retry_read_returns:
  "late deadline as > k \<Longrightarrow> \<exists>r as'. retry_read read msg deadline as = Some (r, as') \<and> late deadline as' \<ge> k"
  by (induction as) (auto simp: late_def split: sum.splits if_splits)

lemma read_dealers_returns:
  "late deadline as \<ge> length expected \<Longrightarrow> \<exists>r. read_dealers epoch cutoff deadline expected acc as = Some r"
proof (induction expected arbitrary: acc as)
  case (Cons d expected)
  from Cons.prems have "late deadline as > length expected" by simp
  from retry_read_returns [OF this] obtain r as' where
    "retry_read (\<lambda>v. GetCommitmentAt v epoch d cutoff)
       ''reshare aborted: dealer not readable at cutoff L2 block before deadline'' deadline as = Some (r, as')"
    "late deadline as' \<ge> length expected" by blast
  then show ?case using Cons.IH [of as'] by (cases acc; cases r) auto
qed auto

text \<open>
  C31. The derivation of the dealer set ends: as soon as the attempts include, for every expected dealer
  and for the cutoff, one made after the deadline of the round, it has returned a set or an error.
\<close>

theorem deriveAgreedDealerSet_returns:
  assumes "expected = (case expectedDealers of None \<Rightarrow> expectedReshareDealers ks operators | Some ds \<Rightarrow> ds)"
    "late (round_deadline chainID now) as > length expected"
  shows "\<exists>r. deriveAgreedDealerSet chainID ks operators epoch triggerBlock expectedDealers now as = Some r"
proof -
  from retry_read_returns [OF assms(2)] obtain r as' where
    "retry_read (\<lambda>v. resolveCutoffL2 chainID v triggerBlock)
       ''reshare aborted: L2 cutoff not resolvable before deadline'' (round_deadline chainID now) as = Some (r, as')"
    "late (round_deadline chainID now) as' \<ge> length expected" by blast
  then show ?thesis
    using read_dealers_returns [of expected "round_deadline chainID now" as']
    by (cases r) (auto simp: deriveAgreedDealerSet_def Let_def simp flip: assms(1))
qed

subsection \<open>The nodes agree\<close>

text \<open>
  \<open>faithful\<close>: a view of the two chains may fail to answer and may lag behind, but what it answers
  about a numbered block is the chain's: \<open>tsE\<close> and \<open>tsB\<close> are the timestamps, and \<open>reg\<close> the
  registry's hashes as of a block.
\<close>

definition faithful ::
  "(uint64 \<Rightarrow> uint64) \<Rightarrow> (uint64 \<Rightarrow> uint64) \<Rightarrow> (uint64 \<Rightarrow> uint64 \<Rightarrow> address \<Rightarrow> bytes) \<Rightarrow> chain_view \<Rightarrow> bool" where
  "faithful tsE tsB reg v \<longleftrightarrow>
     (\<exists>c. platform_client v = Some c \<and> (\<forall>n h. n \<noteq> 0 \<longrightarrow> c (Some n) = Inr h \<longrightarrow> Time h = tsE n)) \<and>
     (\<forall>n h. n \<noteq> 0 \<longrightarrow> base_client v (Some n) = Inr h \<longrightarrow> Time h = tsB n) \<and>
     (\<forall>n e d x. n \<noteq> 0 \<longrightarrow> registry_call v (Some n) e d = Inr x \<longrightarrow> CommitmentHash x = reg n e d)"

lemma retry_read_Inr:
  "retry_read read msg deadline as = Some (Inr x, as') \<Longrightarrow>
   set as' \<subseteq> set as \<and> (\<exists>a \<in> set as. read (at_view a) = Inr x)"
  by (induction as) (fastforce split: sum.splits if_splits)+

lemma HeaderTimestampAt_truth:
  assumes "\<And>m h. m \<noteq> 0 \<Longrightarrow> c (Some m) = Inr h \<Longrightarrow> Time h = ts m" "n \<noteq> 0" "HeaderTimestampAt c n = Inr t"
  shows "t = ts n"
  using assms by (auto simp: HeaderTimestampAt_def res_simps)

lemma deadline_block_pos:
  assumes "0 \<le> triggerBlock" "int64_range triggerBlock"
  shows "deadline_block chainID triggerBlock \<noteq> 0"
proof -
  let ?x = "triggerBlock + GetReshareBlockIntervalForChain chainID - GetReshareCutoffBufferForChain chainID"
  have "0 < ?x" "?x < 2 ^ 64"
    using assms interval_exceeds_buffer [of chainID] by (auto simp: int64_range_def)
  then have "uint (deadline_block chainID triggerBlock) = ?x"
    unfolding deadline_block_def uint_word_of_int by (simp only: mod_pos_pos_trivial less_imp_le len_num1 len_bit0) simp
  with \<open>0 < ?x\<close> show ?thesis by auto
qed

lemma resolveCutoffL2_spec:
  assumes "faithful tsE tsB reg v" "mono tsB" "0 \<le> triggerBlock" "int64_range triggerBlock"
    "resolveCutoffL2 chainID v triggerBlock = Inr c"
  shows "first_block tsB (tsE (deadline_block chainID triggerBlock)) c"
proof -
  from assms(1) obtain p where p: "platform_client v = Some p" "\<And>n h. n \<noteq> 0 \<Longrightarrow> p (Some n) = Inr h \<Longrightarrow> Time h = tsE n"
    by (auto simp: faithful_def)
  from assms(5) obtain t where t: "HeaderTimestampAt p (deadline_block chainID triggerBlock) = Inr t"
    and f: "FirstBlockAtOrAfterTimestamp (base_client v) t = Inr c"
    by (auto simp: resolveCutoffL2_def p(1) res_simps Let_def)
  have tt: "t = tsE (deadline_block chainID triggerBlock)"
    by (rule HeaderTimestampAt_truth [OF p(2) deadline_block_pos [OF assms(3,4)] t])
  have "\<And>n u. HeaderTimestampAt (base_client v) n = Inr u \<Longrightarrow> n \<noteq> 0 \<Longrightarrow> u = tsB n"
    by (rule HeaderTimestampAt_truth) (use assms(1) in \<open>auto simp: faithful_def\<close>)
  with f tt show ?thesis
    using firstBlock_sound [OF assms(2), of "HeaderTimestampAt (base_client v)"]
    by (auto simp: FirstBlockAtOrAfterTimestamp_def res_simps)
qed

text \<open>The dealers that the registry has at a block, with their hashes.\<close>

definition submitters :: "(address \<Rightarrow> bytes) \<Rightarrow> address list \<Rightarrow> address list" where
  "submitters hash expected = filter (\<lambda>d. hash d \<noteq> zero_hash) expected"

lemma read_dealers_spec:
  assumes "\<forall>a \<in> set as. faithful tsE tsB reg (at_view a)" "cutoff \<noteq> 0"
    "read_dealers epoch cutoff deadline expected (sub, hs) as = Some (Inr (ds, hs'))"
  shows "ds = sub @ submitters (reg cutoff (word_of_int epoch)) expected \<and>
    gm_get hs' = (\<lambda>d. if d \<in> set (submitters (reg cutoff (word_of_int epoch)) expected)
       then Some (reg cutoff (word_of_int epoch) d) else gm_get hs d)"
  using assms(1,3)
proof (induction expected arbitrary: sub hs as)
  case (Cons d expected)
  let ?read = "\<lambda>v. GetCommitmentAt v epoch d cutoff"
  let ?h = "reg cutoff (word_of_int epoch)"
  from Cons.prems(2) obtain h m s as' where r:
    "retry_read ?read ''reshare aborted: dealer not readable at cutoff L2 block before deadline'' deadline as = Some (Inr (h, m, s), as')"
    "read_dealers epoch cutoff deadline expected
       (if h \<noteq> zero_hash then (sub @ [d], gm_set hs d h) else (sub, hs)) as' = Some (Inr (ds, hs'))"
    by (auto split: option.splits sum.splits prod.splits)
  from retry_read_Inr [OF r(1)] Cons.prems(1) assms(2) have h: "h = ?h d" and "\<forall>a \<in> set as'. faithful tsE tsB reg (at_view a)"
    by (auto simp: GetCommitmentAt_def res_simps faithful_def)
  with r(2) Cons.IH show ?case
    by (cases "h = zero_hash") (fastforce simp: submitters_def fun_eq_iff)+
qed (auto simp: submitters_def)

lemma deriveAgreedDealerSet_spec:
  assumes "\<forall>a \<in> set as. faithful tsE tsB reg (at_view a)" "mono tsB" "0 \<le> triggerBlock" "int64_range triggerBlock"
    "expected = (case expectedDealers of None \<Rightarrow> expectedReshareDealers ks operators | Some ds \<Rightarrow> ds)"
    "deriveAgreedDealerSet chainID ks operators epoch triggerBlock expectedDealers now as = Some (Inr (ds, hs))"
  shows "\<exists>cutoff. first_block tsB (tsE (deadline_block chainID triggerBlock)) cutoff \<and>
    ds = submitters (reg cutoff (word_of_int epoch)) expected \<and>
    gm_get hs = (\<lambda>d. if d \<in> set ds then Some (reg cutoff (word_of_int epoch) d) else None)"
proof -
  let ?d = "round_deadline chainID now"
  from assms(6) obtain c as' where c:
    "retry_read (\<lambda>v. resolveCutoffL2 chainID v triggerBlock)
       ''reshare aborted: L2 cutoff not resolvable before deadline'' ?d as = Some (Inr c, as')"
    "read_dealers epoch c ?d expected ([], []) as' = Some (Inr (ds, hs))"
    by (auto simp: deriveAgreedDealerSet_def Let_def simp flip: assms(5) split: option.splits sum.splits if_splits)
  from retry_read_Inr [OF c(1)] obtain a where a: "set as' \<subseteq> set as" "a \<in> set as"
    "resolveCutoffL2 chainID (at_view a) triggerBlock = Inr c" by blast
  then have f: "first_block tsB (tsE (deadline_block chainID triggerBlock)) c"
    using resolveCutoffL2_spec [OF _ assms(2-4)] assms(1) by blast
  then have "c \<noteq> 0" unfolding first_block_def by auto
  moreover have "\<forall>a \<in> set as'. faithful tsE tsB reg (at_view a)" using a(1) assms(1) by blast
  ultimately have "ds = submitters (reg c (word_of_int epoch)) expected \<and>
      gm_get hs = (\<lambda>d. if d \<in> set (submitters (reg c (word_of_int epoch)) expected)
        then Some (reg c (word_of_int epoch) d) else gm_get [] d)"
    using read_dealers_spec [OF _ _ c(2)] by simp
  with f show ?thesis by (intro exI [of _ c]) (simp add: fun_eq_iff)
qed

text \<open>
  C7. Agreement on the dealers: for two nodes that derive a set, each at its own time, with its own retries
  and from its own views of the same chains, and each with its own expected dealers (a joining operator is
  given them; any other takes its operators, those among the participants of its own active version if
  that has any), there is one cutoff, the first L2 block at or after the timestamp of the L1 deadline
  block, and each derives those of its expected dealers whose commitment the registry has at the cutoff,
  in order, with the registry's hashes. So no dealer is dropped because a read failed, a dealer that both
  expect is agreed on both nodes or on none, with one hash, and nodes with the same operators and the same
  stored participants derive the same set and the same hashes. Nodes that expect different dealers can
  differ.
\<close>

theorem dealer_sets_agree:
  assumes views: "\<forall>a \<in> set as1 \<union> set as2. faithful tsE tsB reg (at_view a)" and mono: "mono tsB"
    and trigger: "0 \<le> triggerBlock" "int64_range triggerBlock"
    and expected: "expected1 = (case e1 of None \<Rightarrow> expectedReshareDealers ks1 operators1 | Some ds \<Rightarrow> ds)"
      "expected2 = (case e2 of None \<Rightarrow> expectedReshareDealers ks2 operators2 | Some ds \<Rightarrow> ds)"
    and node1: "deriveAgreedDealerSet chainID ks1 operators1 epoch triggerBlock e1 now1 as1 = Some (Inr (ds1, hs1))"
    and node2: "deriveAgreedDealerSet chainID ks2 operators2 epoch triggerBlock e2 now2 as2 = Some (Inr (ds2, hs2))"
  shows "(\<exists>cutoff. first_block tsB (tsE (deadline_block chainID triggerBlock)) cutoff \<and>
      ds1 = filter (\<lambda>d. reg cutoff (word_of_int epoch) d \<noteq> zero_hash) expected1 \<and>
      ds2 = filter (\<lambda>d. reg cutoff (word_of_int epoch) d \<noteq> zero_hash) expected2 \<and>
      (\<forall>d. gm_get hs1 d = (if d \<in> set ds1 then Some (reg cutoff (word_of_int epoch) d) else None)) \<and>
      (\<forall>d. gm_get hs2 d = (if d \<in> set ds2 then Some (reg cutoff (word_of_int epoch) d) else None))) \<and>
    (expected1 = expected2 \<longrightarrow> ds1 = ds2 \<and> gm_get hs1 = gm_get hs2)"
proof -
  obtain c1 c2 where c:
    "first_block tsB (tsE (deadline_block chainID triggerBlock)) c1" "ds1 = submitters (reg c1 (word_of_int epoch)) expected1"
    "gm_get hs1 = (\<lambda>d. if d \<in> set ds1 then Some (reg c1 (word_of_int epoch) d) else None)"
    "first_block tsB (tsE (deadline_block chainID triggerBlock)) c2" "ds2 = submitters (reg c2 (word_of_int epoch)) expected2"
    "gm_get hs2 = (\<lambda>d. if d \<in> set ds2 then Some (reg c2 (word_of_int epoch) d) else None)"
    using deriveAgreedDealerSet_spec [OF _ mono trigger expected(1) node1]
      deriveAgreedDealerSet_spec [OF _ mono trigger expected(2) node2] views by blast
  then have "c1 = c2" by (metis first_block_unique)
  with c show ?thesis unfolding submitters_def by auto
qed

text \<open>A chain of one block per second, an empty and a filled registry entry, and a node that reads late.\<close>

definition mock_view :: chain_view where
  "mock_view =
     \<lparr>platform_client = Some (\<lambda>_. Inr \<lparr>Number = 60, Time = 3\<rparr>),
      base_client = (\<lambda>n. Inr (case n of None \<Rightarrow> \<lparr>Number = 5, Time = 5\<rparr> | Some k \<Rightarrow> \<lparr>Number = uint k, Time = k\<rparr>)),
      registry_call = (\<lambda>_ _ d. Inr \<lparr>CommitmentHash = (if d = 2 then zero_hash else replicate 32 7),
        AckMerkleRoot = [], SubmittedAt = 0\<rparr>)\<rparr>"

definition unsynced_view :: chain_view where
  "unsynced_view = mock_view\<lparr>registry_call := (\<lambda>_ _ _. Inl (Errorf ''missing trie node''))\<rparr>"

definition try_at :: "int64 \<Rightarrow> chain_view \<Rightarrow> attempt" where
  "try_at t v = \<lparr>at_view = v, at_now = t, at_done = False\<rparr>"

lemma mock_views_faithful:
  "faithful (\<lambda>_. 3) (\<lambda>n. n) (\<lambda>_ _ d. if d = 2 then zero_hash else replicate 32 7) mock_view"
  "faithful (\<lambda>_. 3) (\<lambda>n. n) (\<lambda>_ _ d. if d = 2 then zero_hash else replicate 32 7) unsynced_view"
  by (auto simp: faithful_def mock_view_def unsynced_view_def)

lemma mock_cutoff: "resolveCutoffL2 31337 mock_view 12 = Inr 3" "resolveCutoffL2 31337 unsynced_view 12 = Inr 3"
  by (simp_all add: resolveCutoffL2_def mock_view_def unsynced_view_def HeaderTimestampAt_def
      FirstBlockAtOrAfterTimestamp_def firstBlockAtOrAfterTimestamp_def search.simps Let_def)

lemma mock_read:
  "GetCommitmentAt mock_view e d 3 = Inr (if d = 2 then zero_hash else replicate 32 7, [], 0)"
  "GetCommitmentAt unsynced_view e d 3 = Inl (Wrapf ''failed to get commitment'' (Errorf ''missing trie node''))"
  by (simp_all add: GetCommitmentAt_def mock_view_def unsynced_view_def)

lemma mock_zero_hash: "replicate 32 (7 :: byte) \<noteq> zero_hash"
  by (simp add: zero_hash_def)

definition mock_keys :: "address list \<Rightarrow> gf KeyStore" where
  "mock_keys old =
     \<lparr>objs = (\<lambda>_. \<lparr>Version = 5, PrivateShare = Some 1, Commitments = [], MasterPublicKey = None, IsActive = True,
        ParticipantIDs = old\<rparr>),
      keyVersions = [0], activeVersion = Some 0, pendingVersion = None, poisoned = []\<rparr>"

definition prompt_attempts :: "attempt list" where
  "prompt_attempts = [try_at 0 mock_view, try_at 0 mock_view, try_at 0 mock_view, try_at 0 mock_view]"

definition delayed_attempts :: "attempt list" where
  "delayed_attempts =
     [try_at 0 unsynced_view, try_at 1 unsynced_view, try_at 2 mock_view, try_at 2 mock_view, try_at 2 mock_view]"

lemma mock_expected:
  "expectedReshareDealers (mock_keys [1, 2, 3]) (map mock_peer [1, 2, 3, 4]) = [1, 2, 3]"
  by (simp add: expectedReshareDealers_def mock_keys_def GetActiveVersion_def mock_peer_def)

lemma prompt_set:
  "deriveAgreedDealerSet 31337 (mock_keys [1, 2, 3]) (map mock_peer [1, 2, 3, 4]) 9 12 None 0 prompt_attempts =
     Some (Inr ([1, 3], [(1, replicate 32 7), (3, replicate 32 7)]))"
  unfolding deriveAgreedDealerSet_def option.case mock_expected using mock_zero_hash
  by (simp add: prompt_attempts_def try_at_def mock_cutoff mock_read Let_def)

lemma delayed_set:
  "deriveAgreedDealerSet 31337 ks ops 9 12 (Some [2, 3, 4]) 0 delayed_attempts =
     Some (Inr ([3, 4], [(3, replicate 32 7), (4, replicate 32 7)]))"
proof -
  have "\<not> (1 :: int) > round_deadline 31337 0"
    by (simp add: round_deadline_def GetReshareBlockIntervalForChain_def chain_ids
        ReshareBlockInterval_Anvil_def Second_def)
  then show ?thesis
    using mock_zero_hash
    by (simp add: deriveAgreedDealerSet_def delayed_attempts_def try_at_def mock_cutoff mock_read Let_def)
qed

text \<open>
  An existing operator with the participants 1, 2 and 3 and one that was given the dealers 2, 3 and 4:
  the registry has no commitment of 2.
\<close>

theorem dealer_sets_agree_witness:
  "deriveAgreedDealerSet 31337 (mock_keys [1, 2, 3]) (map mock_peer [1, 2, 3, 4]) 9 12 None 0 prompt_attempts =
     Some (Inr ([1, 3], [(1, replicate 32 7), (3, replicate 32 7)])) \<and>
   deriveAgreedDealerSet 31337 (mock_keys []) [] 9 12 (Some [2, 3, 4]) 0 delayed_attempts =
     Some (Inr ([3, 4], [(3, replicate 32 7), (4, replicate 32 7)])) \<and>
   (\<exists>cutoff. first_block (\<lambda>n. n) 3 cutoff \<and>
      [1, 3] = filter (\<lambda>d. (if d = 2 then zero_hash else replicate 32 7) \<noteq> zero_hash) [1, 2, 3 :: address] \<and>
      [3, 4] = filter (\<lambda>d. (if d = 2 then zero_hash else replicate 32 7) \<noteq> zero_hash) [2, 3, 4 :: address])"
proof -
  have v: "\<forall>a \<in> set prompt_attempts \<union> set delayed_attempts.
      faithful (\<lambda>_. 3) (\<lambda>n. n) (\<lambda>_ _ d. if d = 2 then zero_hash else replicate 32 7) (at_view a)"
    by (auto simp: prompt_attempts_def delayed_attempts_def try_at_def mock_views_faithful)
  have r: "mono (\<lambda>n :: uint64. n)" "(0 :: int) \<le> 12" "int64_range 12" by (simp_all add: mono_def int64_range_def)
  have e: "[1, 2, 3] = (case None of None \<Rightarrow> expectedReshareDealers (mock_keys [1, 2, 3]) (map mock_peer [1, 2, 3, 4]) | Some ds \<Rightarrow> ds)"
    "[2, 3, 4] = (case Some [2, 3, 4] of None \<Rightarrow> expectedReshareDealers (mock_keys []) [] | Some ds \<Rightarrow> ds)"
    by (simp_all only: option.case mock_expected)
  show ?thesis using dealer_sets_agree [OF v r e prompt_set delayed_set] prompt_set delayed_set by blast
qed

theorem deriveAgreedDealerSet_returns_witness:
  "\<exists>r. deriveAgreedDealerSet 31337 (mock_keys []) [] 9 12 (Some [1]) 0
     [try_at 1000000000000 unsynced_view, try_at 1000000000000 unsynced_view] = Some r"
  by (rule deriveAgreedDealerSet_returns [where expected = "[1]"])
    (simp_all add: late_def try_at_def round_deadline_def GetReshareBlockIntervalForChain_def
      chain_ids ReshareBlockInterval_Anvil_def Second_def)

subsection \<open>Operator sets and overlap\<close>

lemma fetchCurrentOperators_spec:
  "fetchCurrentOperators (Inr ps) = Inr ops \<longleftrightarrow>
     ops = sort_key OperatorAddress (Peers ps) \<and> distinct (map OperatorAddress (Peers ps))"
proof -
  have "mset (map OperatorAddress (sort_key OperatorAddress (Peers ps))) = mset (map OperatorAddress (Peers ps))"
    by (simp add: mset_map)
  then have "distinct (map OperatorAddress (sort_key OperatorAddress (Peers ps))) = distinct (map OperatorAddress (Peers ps))"
    by (rule mset_eq_imp_distinct_iff)
  then show ?thesis
    using validateOperatorSetNoDuplicates_iff [of "sort_key OperatorAddress (Peers ps)"]
    by (auto simp: fetchCurrentOperators_def res_simps ok_iff Let_def)
qed

lemma overlap_count:
  "fold (\<lambda>addr n. if addr \<in> A then n + 1 else n) xs (k :: int) = k + int (length (filter (\<lambda>a. a \<in> A) xs))"
  by (induction xs arbitrary: k) auto

text \<open>
  The overlap check leaves enough dealers: for distinct participants of the active version and a
  fetched operator set, the check passes exactly when at least the old threshold of them is expected
  to deal, and the expected dealers are participants and operators, each once.
\<close>

theorem overlap_iff_enough_dealers:
  assumes "GetActiveVersion ks = Some a" "ParticipantIDs (objs ks a) = old" "old \<noteq> []" "distinct old"
    "fetchCurrentOperators (Inr ps) = Inr operators"
  shows "(ok (validateReshareOperatorOverlap old operators) \<longleftrightarrow>
      CalculateThreshold (int (length old)) \<le> int (length (expectedReshareDealers ks operators))) \<and>
    distinct (expectedReshareDealers ks operators) \<and>
    set (expectedReshareDealers ks operators) = set old \<inter> OperatorAddress ` set (Peers ps)"
proof -
  let ?ops = "OperatorAddress ` set operators"
  from assms(5) have ops: "set operators = set (Peers ps)" "distinct (map OperatorAddress operators)"
    by (auto simp: fetchCurrentOperators_spec distinct_map)
  have e: "expectedReshareDealers ks operators = map OperatorAddress (filter (\<lambda>op. OperatorAddress op \<in> set old) operators)"
    using assms(1-3) by (simp add: expectedReshareDealers_def)
  then have d: "distinct (expectedReshareDealers ks operators)" and s: "set (expectedReshareDealers ks operators) = set old \<inter> ?ops"
    using ops(2) by (auto simp: distinct_map inj_on_def)
  have "length (expectedReshareDealers ks operators) = card (set old \<inter> ?ops)"
    using distinct_card [OF d] s by simp
  moreover have "length (filter (\<lambda>a. a \<in> ?ops) old) = card (set old \<inter> ?ops)"
    using distinct_card [of "filter (\<lambda>a. a \<in> ?ops) old"] assms(4) by (simp add: Int_def)
  ultimately have "ok (validateReshareOperatorOverlap old operators) \<longleftrightarrow>
      CalculateThreshold (int (length old)) \<le> int (length (expectedReshareDealers ks operators))"
    using assms(3) by (simp add: validateReshareOperatorOverlap_def overlap_count Let_def)
  with d s ops(1) show ?thesis by simp
qed

theorem overlap_iff_enough_dealers_witness:
  "ok (validateReshareOperatorOverlap [1, 2, 3] [mock_op 2, mock_op 3, mock_op 4]) \<and>
   expectedReshareDealers (mock_keys [1, 2, 3]) [mock_op 2, mock_op 3, mock_op 4] = [2, 3]"
proof -
  have d: "expectedReshareDealers (mock_keys [1, 2, 3]) [mock_op 2, mock_op 3, mock_op 4] = [2, 3]"
    by (simp add: expectedReshareDealers_def mock_keys_def GetActiveVersion_def mock_op_def)
  have "fetchCurrentOperators (Inr \<lparr>OperatorSetId = 0, AVSAddress = 0, Peers = [mock_op 4, mock_op 2, mock_op 3]\<rparr>) =
      Inr [mock_op 2, mock_op 3, mock_op 4]"
    unfolding fetchCurrentOperators_spec by (simp add: mock_op_def)
  from overlap_iff_enough_dealers [OF _ _ _ _ this, where ks = "mock_keys [1, 2, 3]" and a = 0 and old = "[1, 2, 3]"]
  show ?thesis by (simp add: d) (simp add: mock_keys_def GetActiveVersion_def CalculateThreshold_def)
qed

end
