(* ===== verification/Peer_Messages.thy ===== *)
theory Peer_Messages
  imports Dealer_Agreement Reshare Merkle Session_Registry
begin

text \<open>
  What a node checks of its peers (\<open>pkg/node/node.go\<close>): authenticated messages, acknowledgements,
  commitment broadcasts, shares fetched on demand, the vote on the master public key, and the retry of
  the on-chain submission. Signature schemes, the transport and the HTTP answers of peers are
  parameters. The theorems: an accepted acknowledgement is bound to its sender, this node, the session
  and the stored commitments by a signed message whose encoding is injective; a share accepted by a
  fetch lies on the dealer's committed polynomial; and the vote on the master public key has at most
  one winner, whatever the order of arrival and of map iteration.
\<close>

subsection \<open>Authentication\<close>

record AuthenticatedMessage =
  Payload :: bytes
  Hash :: bytes
  Signature :: bytes

record ShareMessage =
  sm_FromOperatorAddress :: address
  sm_ToOperatorAddress :: address
  sm_SessionTimestamp :: int64
  sm_Share :: "string option"

text \<open>
  The signature library \<open>crypto-libs\<close>: parsing a signature, the type assertion to a BN254 public
  key, and the two verifications, \<open>None\<close> for an error.
\<close>

record siglib =
  bn254_NewSignatureFromBytes :: "bytes \<Rightarrow> bytes option"
  bn254_PublicKey :: "bytes \<Rightarrow> bytes option"
  bn254_VerifySolidityCompatible :: "bytes \<Rightarrow> bytes \<Rightarrow> bytes \<Rightarrow> bool option"
  ecdsa_NewSignatureFromBytes :: "bytes \<Rightarrow> bytes option"
  ecdsa_VerifyWithAddress :: "bytes \<Rightarrow> bytes \<Rightarrow> address \<Rightarrow> bool option"

text \<open>The two branches by curve type, which \<open>verifyMessage\<close> and \<open>verifyAcknowledgement\<close> share.\<close>

definition verify_by_curve :: "siglib \<Rightarrow> OperatorSetPeer \<Rightarrow> bytes \<Rightarrow> bytes \<Rightarrow> unit res" where
  "verify_by_curve G senderPeer digest sigBytes =
     (if CurveType senderPeer = CurveTypeBN254 then
        bind_res (lib_res ''invalid signature format'' (bn254_NewSignatureFromBytes G sigBytes)) (\<lambda>sig.
        bind_res (lib_res ''sender public key is not BN254 type''
          (bn254_PublicKey G (wpk_PublicKey (peer_WrappedPublicKey senderPeer)))) (\<lambda>pk.
        bind_res (lib_res ''signature verification error'' (bn254_VerifySolidityCompatible G sig pk digest)) (\<lambda>isValid.
        if \<not> isValid then Inl (Errorf ''signature verification failed'') else Inr ())))
      else if CurveType senderPeer = CurveTypeECDSA then
        bind_res (lib_res ''invalid ECDSA signature format'' (ecdsa_NewSignatureFromBytes G sigBytes)) (\<lambda>sig.
        bind_res (lib_res ''ECDSA signature verification error''
          (ecdsa_VerifyWithAddress G sig digest (wpk_ECDSAAddress (peer_WrappedPublicKey senderPeer)))) (\<lambda>verified.
        if \<not> verified then Inl (Errorf ''ECDSA signature verification failed'') else Inr ()))
      else Inl (Errorf ''unsupported curve type for sender''))"

definition verifyMessage ::
  "('f, 'g1, 'g2, 'gt) lib \<Rightarrow> siglib \<Rightarrow> AuthenticatedMessage \<Rightarrow> OperatorSetPeer \<Rightarrow> unit res" where
  "verifyMessage L G authMsg senderPeer =
     (let actualHash = keccak256 L (Payload authMsg) in
      if actualHash \<noteq> Hash authMsg then Inl (Errorf ''payload digest mismatch'')
      else verify_by_curve G senderPeer actualHash (Signature authMsg))"

definition findPeerByAddress :: "address \<Rightarrow> OperatorSetPeer list \<Rightarrow> OperatorSetPeer option" where
  "findPeerByAddress addr peers = List.find (\<lambda>peer. OperatorAddress peer = addr) peers"

subsection \<open>Acknowledgements and broadcasts\<close>

definition buildAcknowledgementSigningMessage ::
  "address \<Rightarrow> address \<Rightarrow> int64 \<Rightarrow> bytes \<Rightarrow> bytes \<Rightarrow> bytes" where
  "buildAcknowledgementSigningMessage dealerAddress playerAddress epoch shareHash commitmentHash =
     addr_bytes dealerAddress @ addr_bytes playerAddress @ put_uint64 epoch @ shareHash @ commitmentHash"

text \<open>\<open>SignMessage\<close> is the method of the transport signer; on an error the signature is nil.\<close>

definition signAcknowledgement ::
  "(bytes \<Rightarrow> bytes option) \<Rightarrow> address \<Rightarrow> address \<Rightarrow> int64 \<Rightarrow> bytes \<Rightarrow> bytes \<Rightarrow> bytes" where
  "signAcknowledgement SignMessage dealerAddress playerAddress epoch shareHash commitmentHash =
     (case SignMessage (buildAcknowledgementSigningMessage dealerAddress playerAddress epoch shareHash commitmentHash) of
        None \<Rightarrow> [] | Some signature \<Rightarrow> signature)"

definition verifyAcknowledgement ::
  "('f, 'g1, 'g2, 'gt) lib \<Rightarrow> siglib \<Rightarrow> address \<Rightarrow> 'f ProtocolSession \<Rightarrow> OperatorSetPeer \<Rightarrow> address \<Rightarrow> int64 \<Rightarrow>
   Acknowledgement option \<Rightarrow> unit res" where
  "verifyAcknowledgement L G nodeAddress session senderPeer expectedDealer sessionTimestamp ack0 =
     (case ack0 of
        None \<Rightarrow> Inl (Errorf ''ack is nil'')
      | Some ack \<Rightarrow>
          if ack_PlayerAddress ack \<noteq> OperatorAddress senderPeer then Inl (Errorf ''ack player mismatch'')
          else if ack_DealerAddress ack \<noteq> nodeAddress then Inl (Errorf ''ack dealer mismatch'')
          else if ack_SessionTimestamp ack \<noteq> sessionTimestamp then Inl (Errorf ''ack session timestamp mismatch'')
          else if length (ack_Signature ack) = 0 then Inl (Errorf ''ack signature is empty'')
          else case gm_get (commitments session) expectedDealer of
            None \<Rightarrow> Inl (Errorf ''dealer commitments unavailable for dealer'')
          | Some dealerCommitments \<Rightarrow>
              if length dealerCommitments = 0 then Inl (Errorf ''dealer commitments unavailable for dealer'')
              else if ack_CommitmentHash ack \<noteq> HashCommitment L dealerCommitments
              then Inl (Errorf ''ack commitment hash mismatch'')
              else
                let msg = buildAcknowledgementSigningMessage (ack_DealerAddress ack) (ack_PlayerAddress ack)
                            (ack_SessionTimestamp ack) (ack_ShareHash ack) (ack_CommitmentHash ack)
                in verify_by_curve G senderPeer (keccak256 L msg) (ack_Signature ack))"

text \<open>
  An acknowledgement of the broadcast may be nil; \<open>ack.PlayerAddress\<close> then panics, unless this
  node's own was found before it. The on-chain comparison of the comments is not in the code.
\<close>

fun find_my_ack :: "address \<Rightarrow> Acknowledgement option list \<Rightarrow> Acknowledgement option res" where
  "find_my_ack nodeAddress [] = Inr None"
| "find_my_ack nodeAddress (None # rest) = Inl (Panic ''nil pointer dereference'')"
| "find_my_ack nodeAddress (Some ack # rest) =
     (if ack_PlayerAddress ack = nodeAddress then Inr (Some ack) else find_my_ack nodeAddress rest)"

definition VerifyOperatorBroadcast ::
  "('f, 'g1, 'g2, 'gt) lib \<Rightarrow> address \<Rightarrow> CommitmentBroadcast option \<Rightarrow> 'f ProtocolSession option \<Rightarrow>
   'f ProtocolSession option \<times> unit res" where
  "VerifyOperatorBroadcast L nodeAddress broadcast session0 =
     (case broadcast of
        None \<Rightarrow> (session0, Inl (Errorf ''broadcast is nil''))
      | Some b \<Rightarrow>
        (case session0 of
           None \<Rightarrow> (None, Inl (Errorf ''session not found''))
         | Some session \<Rightarrow>
           (case find_my_ack nodeAddress (cb_Acknowledgements b) of
              Inl e \<Rightarrow> (Some session, Inl e)
            | Inr None \<Rightarrow> (Some session, Inl (Errorf ''my ack not found in broadcast''))
            | Inr (Some myAck) \<Rightarrow>
              (case gm_get (shares session) (cb_FromOperatorAddress b) of
                 Some (Some receivedShare) \<Rightarrow>
                   if ack_ShareHash myAck \<noteq> HashShareForAck L receivedShare
                   then (Some session, Inl (Errorf ''share hash mismatch''))
                   else if length (cb_MerkleProof b) = 0 then (Some session, Inl (Errorf ''merkle proof is empty''))
                   else (Some (session\<lparr>verifiedOperators :=
                           gm_set (verifiedOperators session) (cb_FromOperatorAddress b) True\<rparr>), Inr ())
               | _ \<Rightarrow> (Some session, Inl (Errorf ''no share received from operator''))))))"

definition expectedVerifications :: "'f ProtocolSession \<Rightarrow> int" where
  "expectedVerifications session =
     (if SessionType session = ''reshare'' then
        min (CalculateThreshold (int (length (Operators session))) - 1) (int (length (shares session)) - 1)
      else int (length (Operators session)) - 1)"

text \<open>\<open>ticks\<close> are the session as the ticker finds it, until the timeout.\<close>

definition WaitForVerifications :: "'f ProtocolSession option \<Rightarrow> 'f ProtocolSession list \<Rightarrow> unit res" where
  "WaitForVerifications session0 ticks =
     (case session0 of
        None \<Rightarrow> Inl (Errorf ''session not found'')
      | Some session \<Rightarrow>
          poll ''verifications'' (expectedVerifications session)
            (map (\<lambda>s. int (length (verifiedOperators s))) ticks))"

definition trustedDealerIDs ::
  "(address, 'f option) gomap \<Rightarrow> (address, bool) gomap \<Rightarrow> (address, 'f option) gomap" where
  "trustedDealerIDs validShares verifiedOps =
     fold (\<lambda>(addr, share) trusted.
         if gm_get verifiedOps addr = Some True then gm_set trusted addr share else trusted) validShares []"

subsection \<open>Fetching a share\<close>

text \<open>
  \<open>answers\<close> are the results of the at most three requests; \<open>unjson_share\<close> is
  \<open>json.Unmarshal\<close> into a \<open>ShareMessage\<close>.
\<close>

definition request_share :: "AuthenticatedMessage res list \<Rightarrow> AuthenticatedMessage res" where
  "request_share answers =
     (case List.find ok (take 3 answers) of
        Some r \<Rightarrow> r
      | None \<Rightarrow> (case rev (take 3 answers) of [] \<Rightarrow> Inl (Errorf ''no answer'') | r # _ \<Rightarrow> r))"

definition fetchAndVerifyReshareShare ::
  "('f :: field, 'g1, 'g2, 'gt) lib \<Rightarrow> siglib \<Rightarrow> (bytes \<Rightarrow> ShareMessage option) \<Rightarrow> address \<Rightarrow> 'f Reshare \<Rightarrow>
   'f ProtocolSession \<Rightarrow> address \<Rightarrow> AuthenticatedMessage res list \<Rightarrow> 'f option res" where
  "fetchAndVerifyReshareShare L G unjson_share nodeAddress resharer session dealer answers =
     (case List.find (\<lambda>op. OperatorAddress op = dealer) (Operators session) of
        None \<Rightarrow> Inl (Errorf ''dealer not in session operator set'')
      | Some dealerPeer \<Rightarrow>
          bind_res (wrap_err ''fetch share after retries'' (request_share answers)) (\<lambda>authResp.
          bind_res (wrap_err ''fetched share response failed authentication'' (verifyMessage L G authResp dealerPeer)) (\<lambda>_.
          bind_res (wrap_err ''failed to parse fetched share'' (lib_res ''json'' (unjson_share (Payload authResp)))) (\<lambda>shareMsg.
          if sm_FromOperatorAddress shareMsg \<noteq> dealer then Inl (Errorf ''fetched share sender != requested dealer'')
          else if sm_ToOperatorAddress shareMsg \<noteq> nodeAddress then Inl (Errorf ''fetched share addressed to another node'')
          else if sm_Share shareMsg = None then Inl (Errorf ''dealer returned empty share'')
          else
            let share = DeserializeFr L (sm_Share shareMsg);
                cs = (case gm_get (commitments session) dealer of None \<Rightarrow> [] | Some c \<Rightarrow> c) in
            if length cs = 0 then Inl (Errorf ''no commitments for dealer to verify fetched share'')
            else if \<not> VerifyNewShare L resharer share cs then Inl (Errorf ''fetched share failed polynomial verification'')
            else Inr share))))"

subsection \<open>Submission, cluster state, and the vote on the master public key\<close>

text \<open>
  One attempt of the submission: the contract call's result, and whether the context is done during
  the wait that follows it.
\<close>

fun submit_loop :: "nat \<Rightarrow> (unit res \<times> bool) list \<Rightarrow> unit res" where
  "submit_loop _ [] = Inl (Errorf ''no attempt'')"
| "submit_loop 0 (_ # _) = Inl (Errorf ''no attempt'')"
| "submit_loop (Suc left) ((r, cancelled) # attempts) =
     (case r of
        Inr _ \<Rightarrow> Inr ()
      | Inl e \<Rightarrow>
          if left = 0 then Inl (Wrapf ''failed to submit commitment after 3 attempts'' e)
          else if cancelled then Inl (Errorf ''context cancelled during retry backoff'')
          else submit_loop left attempts)"

definition submitCommitmentWithRetry :: "(unit res \<times> bool) list \<Rightarrow> unit res" where
  "submitCommitmentWithRetry attempts = submit_loop 3 attempts"

definition hasExistingShares :: "'f KeyStore \<Rightarrow> bool" where
  "hasExistingShares ks \<longleftrightarrow> GetActiveVersion ks \<noteq> None"

text \<open>\<open>QueryOperatorPubkey\<close> is the transport, which may be nil.\<close>

definition countNewOperatorsInSet ::
  "'f KeyStore \<Rightarrow> (OperatorSetPeer \<Rightarrow> G2Point list res) option \<Rightarrow> OperatorSetPeer list \<Rightarrow> int" where
  "countNewOperatorsInSet ks QueryOperatorPubkey operators =
     (case GetActiveVersion ks of
        Some a \<Rightarrow>
          let prevAddrs = set (ParticipantIDs (objs ks a)) in
          fold (\<lambda>op newCount. if OperatorAddress op \<notin> prevAddrs then newCount + 1 else newCount) operators 0
      | None \<Rightarrow>
          (case QueryOperatorPubkey of
             None \<Rightarrow> int (length operators)
           | Some query \<Rightarrow>
               fold (\<lambda>op newCount.
                   case query op of
                     Inl _ \<Rightarrow> newCount + 1
                   | Inr cs \<Rightarrow> if length cs = 0 then newCount + 1 else newCount) operators 0))"

definition detectClusterState :: "(OperatorSetPeer \<Rightarrow> G2Point list res) \<Rightarrow> OperatorSetPeer list \<Rightarrow> string" where
  "detectClusterState query operators =
     (case List.find (\<lambda>op. case query op of Inl _ \<Rightarrow> False | Inr cs \<Rightarrow> length cs > 0) operators of
        Some _ \<Rightarrow> ''existing''
      | None \<Rightarrow> ''genesis'')"

text \<open>
  \<open>answer peer\<close> is the decoded response of the peer's endpoint, \<open>None\<close> when the request, the
  status or the decoding fails; \<open>arrival\<close> is the order in which the results arrive and
  \<open>order\<close> that of the iteration over the map of votes. The map's keys are the hexadecimal
  encodings of the bytes, here the bytes themselves.
\<close>

definition mpk_result ::
  "('f, 'g1, 'g2, 'gt) lib \<Rightarrow> (OperatorSetPeer \<Rightarrow> G2Point option option) \<Rightarrow> OperatorSetPeer \<Rightarrow> G2Point option" where
  "mpk_result L answer peer =
     (case answer peer of
        Some (Some mpk) \<Rightarrow>
          if length (g2_CompressedBytes mpk) = 0 then None
          else if \<not> ok (G2PointFromCompressedBytes L (g2_CompressedBytes mpk)) then None
          else Some mpk
      | _ \<Rightarrow> None)"

definition count_votes :: "G2Point list \<Rightarrow> (bytes, G2Point list) gomap" where
  "count_votes results =
     fold (\<lambda>mpk votes. gm_set votes (g2_CompressedBytes mpk)
         ((case gm_get votes (g2_CompressedBytes mpk) of None \<Rightarrow> [] | Some vs \<Rightarrow> vs) @ [mpk])) results []"

definition maxVotes :: "(bytes, G2Point list) gomap \<Rightarrow> nat" where
  "maxVotes votes = fold (\<lambda>(_, v) m. if length v > m then length v else m) votes 0"

definition fetchMPKFromPeers ::
  "('f, 'g1, 'g2, 'gt) lib \<Rightarrow> (G2Point list \<Rightarrow> G2Point list) \<Rightarrow>
   ((bytes, G2Point list) gomap \<Rightarrow> (bytes, G2Point list) gomap) \<Rightarrow> address \<Rightarrow>
   (OperatorSetPeer \<Rightarrow> G2Point option option) \<Rightarrow> OperatorSetPeer list \<Rightarrow> G2Point res" where
  "fetchMPKFromPeers L arrival order nodeAddress answer operators =
     (let peers = filter (\<lambda>op. OperatorAddress op \<noteq> nodeAddress) operators;
          mpkVotes = count_votes (arrival (List.map_filter (mpk_result L answer) peers));
          threshold = CalculateThreshold (int (length operators)) in
      case List.find (\<lambda>(_, votes). int (length votes) \<ge> threshold) (order mpkVotes) of
        Some (_, votes) \<Rightarrow> Inr (hd votes)
      | None \<Rightarrow> Inl (Errorf ''failed to reach threshold agreement on MPK''))"

subsection \<open>Accepted acknowledgements are bound\<close>

lemma verifyAcknowledgement_iff:
  "verifyAcknowledgement L G me session sender d t (Some ack) = Inr () \<longleftrightarrow>
     ack_PlayerAddress ack = OperatorAddress sender \<and> ack_DealerAddress ack = me \<and> ack_SessionTimestamp ack = t \<and>
     ack_Signature ack \<noteq> [] \<and>
     (\<exists>cs. gm_get (commitments session) d = Some cs \<and> cs \<noteq> [] \<and> ack_CommitmentHash ack = HashCommitment L cs) \<and>
     verify_by_curve G sender (keccak256 L (buildAcknowledgementSigningMessage me (OperatorAddress sender) t
        (ack_ShareHash ack) (ack_CommitmentHash ack))) (ack_Signature ack) = Inr ()"
  by (auto simp: verifyAcknowledgement_def Let_def split: option.splits)

lemma signing_message_inj:
  assumes "buildAcknowledgementSigningMessage d p t sh ch = buildAcknowledgementSigningMessage d' p' t' sh' ch'"
    "int64_range t" "int64_range t'" "length sh = 32" "length sh' = 32"
  shows "d = d' \<and> p = p' \<and> t = t' \<and> sh = sh' \<and> ch = ch'"
  using assms put_uint64_inj [of t t'] by (auto simp: buildAcknowledgementSigningMessage_def)

text \<open>
  An accepted acknowledgement is what its sender signed: when the sender made one signed message
  for a dealer, a player, a session, a share hash and a commitment hash, and this node accepts an
  acknowledgement with the digest of that message, then the message is for this dealer, this player
  and this session, with the hash of the commitments that the dealer published here and the share hash
  of the acknowledgement.
\<close>

theorem verifyAcknowledgement_binding:
  assumes acc: "verifyAcknowledgement L G me session sender d t (Some ack) = Inr ()"
    and signed: "keccak256 L (buildAcknowledgementSigningMessage (ack_DealerAddress ack) (ack_PlayerAddress ack)
        (ack_SessionTimestamp ack) (ack_ShareHash ack) (ack_CommitmentHash ack)) =
      keccak256 L (buildAcknowledgementSigningMessage dealer player epoch sh ch)"
    and inj: "inj_on (keccak256 L) {buildAcknowledgementSigningMessage (ack_DealerAddress ack) (ack_PlayerAddress ack)
        (ack_SessionTimestamp ack) (ack_ShareHash ack) (ack_CommitmentHash ack),
      buildAcknowledgementSigningMessage dealer player epoch sh ch}"
    and wf: "int64_range t" "int64_range epoch" "length (ack_ShareHash ack) = 32" "length sh = 32"
  shows "dealer = me \<and> player = OperatorAddress sender \<and> epoch = t \<and> sh = ack_ShareHash ack \<and>
    (\<exists>cs. gm_get (commitments session) d = Some cs \<and> cs \<noteq> [] \<and> ch = HashCommitment L cs)"
proof -
  note a = acc [unfolded verifyAcknowledgement_iff]
  have "buildAcknowledgementSigningMessage (ack_DealerAddress ack) (ack_PlayerAddress ack)
      (ack_SessionTimestamp ack) (ack_ShareHash ack) (ack_CommitmentHash ack) =
    buildAcknowledgementSigningMessage dealer player epoch sh ch"
    by (rule inj_onD [OF inj signed]) simp_all
  from signing_message_inj [OF this _ wf(2) wf(3,4)] wf(1) a
  have "ack_DealerAddress ack = dealer" "ack_PlayerAddress ack = player" "ack_SessionTimestamp ack = epoch"
    "ack_ShareHash ack = sh" "ack_CommitmentHash ack = ch" by simp_all
  with a show ?thesis by metis
qed

text \<open>
  A signature library for the concrete examples: the signature of a digest is the digest.
\<close>

definition mock_sig :: siglib where
  "mock_sig =
     \<lparr>bn254_NewSignatureFromBytes = Some, bn254_PublicKey = Some,
      bn254_VerifySolidityCompatible = (\<lambda>sig pk digest. Some (sig = digest)),
      ecdsa_NewSignatureFromBytes = Some, ecdsa_VerifyWithAddress = (\<lambda>sig digest a. Some (sig = digest))\<rparr>"

definition mock_ack :: "Acknowledgement" where
  "mock_ack =
     (let cs = [enc2 mock_lib 3]; sh = replicate 32 1; ch = HashCommitment mock_lib cs in
      \<lparr>ack_DealerAddress = 1, ack_PlayerAddress = 2, ack_SessionTimestamp = 7, ack_ShareHash = sh,
       ack_CommitmentHash = ch,
       ack_Signature = keccak256 mock_lib (buildAcknowledgementSigningMessage 1 2 7 sh ch)\<rparr>)"

theorem verifyAcknowledgement_binding_witness:
  "verifyAcknowledgement mock_lib mock_sig 1
     ((new_session 0 ''dkg'' [mock_op 1, mock_op 2] 7)\<lparr>commitments := [(1, [enc2 mock_lib 3])]\<rparr>) (mock_op 2) 1 7
     (Some mock_ack) = Inr () \<and>
   (\<exists>cs. gm_get [(1, [enc2 mock_lib 3])] (1 :: address) = Some cs \<and> cs \<noteq> [] \<and>
      HashCommitment mock_lib [enc2 mock_lib 3] = HashCommitment mock_lib cs)"
proof -
  let ?s = "(new_session 0 ''dkg'' [mock_op 1, mock_op 2] 7)\<lparr>commitments := [(1, [enc2 mock_lib 3])]\<rparr>"
  let ?ch = "HashCommitment mock_lib [enc2 mock_lib 3]"
  have k: "keccak256 mock_lib m = m" for m by (simp add: mock_lib_def)
  have "buildAcknowledgementSigningMessage 1 2 7 (replicate 32 1) ?ch \<noteq> []"
    by (simp add: buildAcknowledgementSigningMessage_def)
  then have acc: "verifyAcknowledgement mock_lib mock_sig 1 ?s (mock_op 2) 1 7 (Some mock_ack) = Inr ()"
    unfolding verifyAcknowledgement_iff
    by (simp add: mock_ack_def mock_op_def verify_by_curve_def mock_sig_def CurveTypeBN254_def k Let_def)
  have "int64_range 7" by (simp add: int64_range_def)
  then show ?thesis
    using acc verifyAcknowledgement_binding [OF acc, of 1 2 7 "replicate 32 1" ?ch]
    by (simp add: mock_ack_def k Let_def)
qed

subsection \<open>A fetched share lies on the committed polynomial\<close>

lemma fetchAndVerifyReshareShare_sound:
  assumes "fetchAndVerifyReshareShare L G uj me resharer session dealer answers = Inr share"
  shows "\<exists>s cs. share = Some s \<and> gm_get (commitments session) dealer = Some cs \<and> cs \<noteq> [] \<and>
    VerifyNewShare L resharer share cs"
  using assms
  by (auto simp: fetchAndVerifyReshareShare_def res_simps Let_def DeserializeFr_def split: option.splits if_splits)
    (metis option.exhaust)?

subsection \<open>The vote on the master public key\<close>

lemma count_votes_get:
  "gm_ok (count_votes results) \<and>
   gm_get (count_votes results) b =
     (let vs = filter (\<lambda>m. g2_CompressedBytes m = b) results in if vs = [] then None else Some vs)"
proof -
  have "gm_ok votes \<Longrightarrow>
    gm_ok (fold (\<lambda>mpk votes. gm_set votes (g2_CompressedBytes mpk)
         ((case gm_get votes (g2_CompressedBytes mpk) of None \<Rightarrow> [] | Some vs \<Rightarrow> vs) @ [mpk])) results votes) \<and>
    gm_get (fold (\<lambda>mpk votes. gm_set votes (g2_CompressedBytes mpk)
         ((case gm_get votes (g2_CompressedBytes mpk) of None \<Rightarrow> [] | Some vs \<Rightarrow> vs) @ [mpk])) results votes) b =
     (let vs = filter (\<lambda>m. g2_CompressedBytes m = b) results in
      if vs = [] then gm_get votes b else Some ((case gm_get votes b of None \<Rightarrow> [] | Some us \<Rightarrow> us) @ vs))" for votes
    by (induction results arbitrary: votes) (auto simp: Let_def split: option.splits)
  from this [of "[]"] show ?thesis by (auto simp: count_votes_def Let_def)
qed

lemma filter_same_point: "filter (\<lambda>m. g2_CompressedBytes m = b) rs = replicate (count_list rs (G2Point b)) (G2Point b)"
proof (induction rs)
  case (Cons m rs)
  then show ?case by (cases m) auto
qed simp

lemma map_filter_length: "length (List.map_filter f xs) \<le> length xs"
  by (simp add: List.map_filter_def)

text \<open>
  The vote on the master public key: for a nonempty operator set, a joining node obtains a key
  exactly when threshold many of its peers answered with it, whatever the order in which the answers
  arrive and in which the map of votes is visited; there is at most one such key.
\<close>

theorem fetchMPKFromPeers_iff:
  assumes perm: "\<And>xs. mset (arrival xs) = mset xs" "\<And>vs. mset (order vs) = mset vs" and ne: "operators \<noteq> []"
  shows "fetchMPKFromPeers L arrival order me answer operators = Inr mpk \<longleftrightarrow>
    CalculateThreshold (int (length operators)) \<le>
      int (count_list (List.map_filter (mpk_result L answer) (filter (\<lambda>op. OperatorAddress op \<noteq> me) operators)) mpk)"
proof -
  let ?peers = "filter (\<lambda>op. OperatorAddress op \<noteq> me) operators"
  let ?res = "List.map_filter (mpk_result L answer) ?peers"
  let ?votes = "count_votes (arrival ?res)" and ?t = "CalculateThreshold (int (length operators))"
  have t: "0 < ?t" "2 * ?t > int (length operators)" 
    using ne by (cases operators; simp add: CalculateThreshold_def; presburger)+
  have c: "count_list (arrival ?res) x = count_list ?res x" for x
    using perm(1) [of ?res] by (metis count_mset)
  have two: "int (count_list ?res x) < ?t \<or> int (count_list ?res y) < ?t" if "x \<noteq> y" for x y
  proof -
    have "count_list xs x + count_list xs y \<le> length xs" for xs using that by (induction xs) auto
    from this [of ?res] have "count_list ?res x + count_list ?res y \<le> length operators"
      using map_filter_length [of "mpk_result L answer" ?peers] length_filter_le [of _ operators] by (meson order_trans)
    with t(2) show ?thesis by linarith
  qed
  have entry: "(b, vs) \<in> set (order ?votes) \<longleftrightarrow> vs \<noteq> [] \<and> vs = replicate (count_list ?res (G2Point b)) (G2Point b)" for b vs
  proof -
    have "(b, vs) \<in> set (order ?votes) \<longleftrightarrow> gm_get ?votes b = Some vs"
      using count_votes_get [of "arrival ?res" b] perm(2) [of ?votes] by (metis gm_get_eq_Some set_mset_mset)
    then show ?thesis using count_votes_get [of "arrival ?res" b] by (auto simp: filter_same_point c Let_def)
  qed
  show ?thesis
  proof (cases "List.find (\<lambda>(_, votes). int (length votes) \<ge> ?t) (order ?votes)")
    case None
    then have no: "int (length vs) < ?t" if "(b, vs) \<in> set (order ?votes)" for b vs
      using that by (force simp: find_None_iff)
    obtain b where b: "mpk = G2Point b" by (cases mpk)
    have "int (count_list ?res mpk) < ?t"
    proof (cases "count_list ?res mpk = 0")
      case False
      then have "(b, replicate (count_list ?res mpk) mpk) \<in> set (order ?votes)" by (simp add: entry b)
      from no [OF this] show ?thesis by simp
    qed (use t in simp)
    with None show ?thesis by (simp add: fetchMPKFromPeers_def)
  next
    case (Some bv)
    obtain b vs where bv: "bv = (b, vs)" by force
    from Some have f: "(b, vs) \<in> set (order ?votes)" "int (length vs) \<ge> ?t"
      by (auto simp: find_Some_iff bv in_set_conv_nth)
    from f(1) have v: "vs \<noteq> []" "vs = replicate (count_list ?res (G2Point b)) (G2Point b)" unfolding entry by blast+
    then have h: "hd vs = G2Point b" by (metis hd_replicate replicate_0)
    have "int (count_list ?res (G2Point b)) \<ge> ?t" using f(2) v(2) by (metis length_replicate)
    then have "G2Point b = mpk \<longleftrightarrow> ?t \<le> int (count_list ?res mpk)" using two [of "G2Point b" mpk] by force
    with Some h show ?thesis by (simp add: fetchMPKFromPeers_def bv)
  qed
qed

theorem fetchMPKFromPeers_iff_witness:
  "fetchMPKFromPeers mock_lib rev rev 5 (\<lambda>op. Some (Some (enc2 mock_lib 7)))
     [mock_op 1, mock_op 2, mock_op 3, mock_op 4, mock_op 5] = Inr (enc2 mock_lib 7)"
proof -
  let ?ans = "\<lambda>op. Some (Some (enc2 mock_lib 7))"
  have "g2_CompressedBytes (enc2 mock_lib 7) \<noteq> []" by (simp add: enc2_def mock_lib_def mock_enc_def)
  moreover have "ok (G2PointFromCompressedBytes mock_lib (g2_CompressedBytes (enc2 mock_lib 7)))"
    using den2_FromCompressedBytes [OF den2_intros(1) [OF curve_lawsD(2) [OF mock_lib_laws]]] by simp
  ultimately have r: "mpk_result mock_lib ?ans op = Some (enc2 mock_lib 7)" for op
    by (simp add: mpk_result_def)
  show ?thesis
    using fetchMPKFromPeers_iff [of rev rev "[mock_op 1, mock_op 2, mock_op 3, mock_op 4, mock_op 5]" mock_lib 5 ?ans "enc2 mock_lib 7"]
    by (simp add: r mock_op_def List.map_filter_def CalculateThreshold_def)
qed

end
