(* ===== verification/Protocol_Round.thy ===== *)
theory Protocol_Round
  imports Peer_Messages Autoheal
begin

text \<open>
  What the rounds of \<open>pkg/node/node.go\<close> have in common: the node's state, the messages that
  arrive while a round waits, the verification of received shares with its acknowledgements, the
  on-chain publication of the collected acknowledgements, and the commit of a new key version, which
  writes the durable store before the keystore. The theorem: a commit either leaves the keystore
  untouched or makes the version active in memory and on disk alike.
\<close>

record ('s, 'f) Node = "('s, 'f) heal_node" +
  n_addr :: address
  n_ChainID :: ChainId
  n_sessions :: "'f registry"
  n_retained :: "'f retained"

text \<open>
  \<open>ext\<close> collects what a node is configured with and what is not this repository's code: the curve
  library, the Merkle tree library, the signature library, the hexadecimal form of an address, the
  transport's signer and the JSON decoder.
\<close>

record ('f, 'g1, 'g2, 'gt, 't) ext =
  x_lib :: "('f, 'g1, 'g2, 'gt) lib"
  x_merkle :: "'t mtlib"
  x_sig :: siglib
  x_hex :: "address \<Rightarrow> string"
  x_SignMessage :: "bytes \<Rightarrow> bytes option"
  x_unjson_share :: "bytes \<Rightarrow> ShareMessage option"

subsection \<open>Messages in and out\<close>

datatype 'f inbound =
    InShare address "'f option"
  | InCommitment address "G2Point list" int64
  | InAck address address Acknowledgement
  | InBroadcast CommitmentBroadcast

datatype ('f, 't) outbound =
    BroadcastCommitments "OperatorSetPeer list" "G2Point list" int64
  | SendShare OperatorSetPeer "'f option"
  | SendAcknowledgement Acknowledgement OperatorSetPeer
  | SubmitCommitment int64 bytes bytes
  | BroadcastCommitmentsWithProofs "OperatorSetPeer list" "G2Point list" "Acknowledgement list" "'t MerkleTree"

text \<open>
  What a handler does to the session; its errors go to the sender. A broadcast that panics leaves
  the session as it is.
\<close>

definition deliver ::
  "('f, 'g1, 'g2, 'gt) lib \<Rightarrow> address \<Rightarrow> 'f inbound \<Rightarrow> 'f ProtocolSession \<Rightarrow> 'f ProtocolSession" where
  "deliver L me m s =
     (case m of
        InShare sender share \<Rightarrow> fst (HandleReceivedShare sender share s)
      | InCommitment sender cs v \<Rightarrow> fst (HandleReceivedCommitment sender cs v s)
      | InAck dealer player ack \<Rightarrow> fst (HandleReceivedAck dealer player ack s)
      | InBroadcast b \<Rightarrow> (case fst (VerifyOperatorBroadcast L me (Some b) (Some s)) of Some s' \<Rightarrow> s' | None \<Rightarrow> s))"

text \<open>The session at each tick of a wait, when a batch of messages arrives before each.\<close>

fun snapshots ::
  "('f, 'g1, 'g2, 'gt) lib \<Rightarrow> address \<Rightarrow> 'f inbound list list \<Rightarrow> 'f ProtocolSession \<Rightarrow> 'f ProtocolSession list" where
  "snapshots L me [] s = []"
| "snapshots L me (batch # batches) s =
     (let s' = fold (deliver L me) batch s in s' # snapshots L me batches s')"

definition after_ticks ::
  "('f, 'g1, 'g2, 'gt) lib \<Rightarrow> address \<Rightarrow> 'f inbound list list \<Rightarrow> 'f ProtocolSession \<Rightarrow> 'f ProtocolSession" where
  "after_ticks L me batches s = last (s # snapshots L me batches s)"

text \<open>An error that is logged and otherwise ignored; a panic is not.\<close>

definition log_error :: "'a res \<Rightarrow> unit res" where
  "log_error r = (case r of Inl (Panic m) \<Rightarrow> Inl (Panic m) | _ \<Rightarrow> Inr ())"

definition persist_session ::
  "('f, 'g1, 'g2, 'gt, 't) ext \<Rightarrow> ('s, 'f) INodePersistence \<Rightarrow> 'f ProtocolSession \<Rightarrow> ('s, 'f) Node \<Rightarrow>
   ('s, 'f) Node \<times> unit res" where
  "persist_session X P s n =
     (let (st, r) = saveSession (x_lib X) (x_hex X) P (n_persistence n) (Some s) in
      (n\<lparr>n_persistence := st\<rparr>, log_error r))"

text \<open>The deferred \<open>cleanupSession\<close> of a round.\<close>

definition end_session :: "('s, 'f) INodePersistence \<Rightarrow> int64 \<Rightarrow> ('s, 'f) Node \<Rightarrow> ('s, 'f) Node" where
  "end_session P t n =
     (let (r, st) = cleanupSession P t (n_sessions n) (n_persistence n) in n\<lparr>n_sessions := r, n_persistence := st\<rparr>)"

text \<open>
  What happens outside the node in a round: the operator set, the clock and the randomness, the
  messages that arrive during each wait, the results of the submission, the reads of the chain, and
  the answers of the peers.
\<close>

record 'f round_env =
  e_listed :: "OperatorSetPeers res"
  e_query :: "(OperatorSetPeer \<Rightarrow> G2Point list res) option"
  e_now :: int64
  e_rand :: "nat \<Rightarrow> 'f option"
  e_share_ticks :: "'f inbound list list"
  e_commitment_ticks :: "'f inbound list list"
  e_ack_ticks :: "'f inbound list list"
  e_verification_ticks :: "'f inbound list list"
  e_submits :: "(unit res \<times> bool) list"
  e_finalize_now :: int64
  e_attempts :: "attempt list"
  e_fetch :: "address \<Rightarrow> AuthenticatedMessage res list"
  e_order :: "(int64, nat) gomap \<Rightarrow> (int64, nat) gomap"
  e_mpk_answer :: "OperatorSetPeer \<Rightarrow> G2Point option option"
  e_mpk_arrival :: "G2Point list \<Rightarrow> G2Point list"
  e_mpk_order :: "(bytes, G2Point list) gomap \<Rightarrow> (bytes, G2Point list) gomap"

definition is_operator :: "OperatorSetPeer list \<Rightarrow> address \<Rightarrow> bool" where
  "is_operator operators a \<longleftrightarrow> a \<in> OperatorAddress ` set operators"

subsection \<open>Verification of received shares\<close>

text \<open>
  \<open>verify\<close> is the round's share verifier. Every share of the list is checked against the stored
  commitments; valid ones are kept, and acknowledged to a dealer other than this node that is an
  operator.
\<close>

definition valid_shares ::
  "('f option \<Rightarrow> G2Point list \<Rightarrow> bool) \<Rightarrow> (address, 'f option) gomap \<Rightarrow> (address, G2Point list) gomap \<Rightarrow>
   (address, 'f option) gomap" where
  "valid_shares verify received cs =
     filter (\<lambda>(dealer, share). verify share (case gm_get cs dealer of None \<Rightarrow> [] | Some c \<Rightarrow> c)) received"

definition acknowledgements ::
  "('f, 'g1, 'g2, 'gt, 't) ext \<Rightarrow> address \<Rightarrow> int64 \<Rightarrow> OperatorSetPeer list \<Rightarrow> (address, 'f option) gomap \<Rightarrow>
   (address, G2Point list) gomap \<Rightarrow> ('f, 't) outbound list" where
  "acknowledgements X me t operators valid cs =
     concat (map (\<lambda>(dealer, share).
       if dealer = me then []
       else case (findPeerByAddress dealer operators, share) of
         (Some peer, Some sh) \<Rightarrow>
           [SendAcknowledgement (CreateAcknowledgement (x_lib X) me (OperatorAddress peer) t sh
              (case gm_get cs dealer of None \<Rightarrow> [] | Some c \<Rightarrow> c) (signAcknowledgement (x_SignMessage X))) peer]
       | _ \<Rightarrow> []) valid)"

text \<open>The shares of dealers whose broadcast was verified; a node trusts itself when \<open>self\<close> holds.\<close>

definition trusted_shares ::
  "bool \<Rightarrow> address \<Rightarrow> 'f ProtocolSession \<Rightarrow> (address, 'f option) gomap \<Rightarrow> (address, 'f option) gomap" where
  "trusted_shares self me session valid =
     trustedDealerIDs valid
       (if self then gm_set (verifiedOperators session) me True else verifiedOperators session)"

subsection \<open>Publication of the acknowledgements\<close>

text \<open>
  The acknowledgements collected as a dealer, their tree, the submission with its retries, and the
  broadcast. \<open>payload\<close> gives the commitments to broadcast and the hash to submit.
\<close>

definition publish_acks ::
  "('f, 'g1, 'g2, 'gt, 't) ext \<Rightarrow> address \<Rightarrow> OperatorSetPeer list \<Rightarrow> int64 \<Rightarrow> (G2Point list \<times> bytes) res \<Rightarrow>
   (unit res \<times> bool) list \<Rightarrow> 'f ProtocolSession \<Rightarrow> ('f, 't) outbound list res" where
  "publish_acks X me operators t payload submits session =
     (let myAcks = map snd (ack_map session me) in
      if length myAcks = 0 then Inl (Errorf ''no acknowledgements collected as dealer'')
      else
        bind_res (wrap_err ''failed to build merkle tree'' (BuildAcknowledgementMerkleTree (x_lib X) (x_merkle X) myAcks))
          (\<lambda>tree. case tree of
             None \<Rightarrow> Inl (Panic ''nil pointer dereference'')
           | Some merkleTree \<Rightarrow>
               bind_res payload (\<lambda>(cs, hash).
               bind_res (wrap_err ''failed to submit commitment after retries'' (submitCommitmentWithRetry submits)) (\<lambda>_.
                 Inr [SubmitCommitment t hash (Root merkleTree),
                      BroadcastCommitmentsWithProofs operators cs myAcks merkleTree]))))"

subsection \<open>Commit of a key version\<close>

text \<open>\<open>fresh_ref\<close>: the object of the new key version is one that the keystore does not hold.\<close>

definition fresh_ref :: "'f KeyStore \<Rightarrow> ref" where
  "fresh_ref ks =
     Suc (fold max (keyVersions ks @ (case activeVersion ks of None \<Rightarrow> [] | Some a \<Rightarrow> [a]) @
       (case pendingVersion ks of None \<Rightarrow> [] | Some p \<Rightarrow> [p])) 0)"

definition add_new_version :: "'f KeyShareVersion \<Rightarrow> 'f KeyStore \<Rightarrow> 'f KeyStore" where
  "add_new_version k ks = (let r = fresh_ref ks in AddVersion r (ks\<lparr>objs := (objs ks)(r := k)\<rparr>))"

definition commit_version ::
  "('s, 'f) INodePersistence \<Rightarrow> string \<Rightarrow> 'f KeyShareVersion \<Rightarrow> ('s, 'f) Node \<Rightarrow> ('s, 'f) Node \<times> unit res" where
  "commit_version P failed_msg k n =
     (case pi_SaveKeyShareVersion P (n_persistence n) (Some k) of
        (s1, Inl e) \<Rightarrow> (n\<lparr>n_persistence := s1\<rparr>, Inl (Wrapf failed_msg e))
      | (s1, Inr _) \<Rightarrow>
          (case pi_SetActiveVersionTimestamp P s1 (Version k) of
             (s2, Inl e) \<Rightarrow> (n\<lparr>n_persistence := s2\<rparr>, Inl (Wrapf ''failed to persist active version pointer'' e))
           | (s2, Inr _) \<Rightarrow>
               (n\<lparr>n_persistence := s2, n_keyStore := add_new_version k (n_keyStore n)\<rparr>, Inr ())))"

subsection \<open>Facts that the rounds share\<close>

definition stored_commitments :: "'f ProtocolSession \<Rightarrow> address \<Rightarrow> G2Point list" where
  "stored_commitments s d = (case gm_get (commitments s) d of None \<Rightarrow> [] | Some c \<Rightarrow> c)"

lemma trusted_shares_sub: "gm_get (trusted_shares self me s valid) d = Some sh \<Longrightarrow> (d, sh) \<in> set valid"
proof -
  have "gm_get (fold (\<lambda>(addr, share) trusted. if ops addr then gm_set trusted addr share else trusted) v m) d = Some sh \<Longrightarrow>
      (d, sh) \<in> set v \<or> gm_get m d = Some sh" for ops v m
    by (induction v arbitrary: m) (fastforce split: if_splits)+
  from this [of _ valid "[]"] show "gm_get (trusted_shares self me s valid) d = Some sh \<Longrightarrow> (d, sh) \<in> set valid"
    unfolding trusted_shares_def trustedDealerIDs_def by auto
qed

lemma deliver_keeps_commitments:
  "stored_commitments s d \<noteq> [] \<Longrightarrow> stored_commitments (deliver L me m s) d = stored_commitments s d"
  by (cases m) (auto simp: deliver_def stored_commitments_def HandleReceivedShare_def HandleReceivedCommitment_def
      HandleReceivedAck_def VerifyOperatorBroadcast_def Let_def split: option.splits sum.splits)

lemma after_ticks_keeps_commitments:
  "stored_commitments s d \<noteq> [] \<Longrightarrow> stored_commitments (after_ticks L me batches s) d = stored_commitments s d"
proof (induction batches arbitrary: s)
  case (Cons batch batches)
  have "stored_commitments (fold (deliver L me) batch s) d = stored_commitments s d"
    using Cons.prems by (induction batch arbitrary: s) (simp_all add: deliver_keeps_commitments)
  then show ?case using Cons by (simp add: after_ticks_def Let_def)
qed (simp add: after_ticks_def)

lemma round_steps_keep_keystore [simp]:
  "n_keyStore (end_session P t n) = n_keyStore n"
  "n_keyStore (recordSuccessfulReshare P v n) = n_keyStore n"
  "persist_session X P s n = (n1, r) \<Longrightarrow> n_keyStore n1 = n_keyStore n"
  by (auto simp: end_session_def recordSuccessfulReshare_def persist_session_def Let_def split: prod.splits)

lemma fold_max_ge: "(x :: nat) \<in> set xs \<or> x \<le> m \<Longrightarrow> x \<le> fold max xs m"
  by (induction xs arbitrary: m) (auto simp: max_def)

lemma fresh_ref:
  "fresh_ref ks \<notin> set (keyVersions ks)" "activeVersion ks \<noteq> Some (fresh_ref ks)" "pendingVersion ks \<noteq> Some (fresh_ref ks)"
proof -
  let ?xs = "keyVersions ks @ (case activeVersion ks of None \<Rightarrow> [] | Some a \<Rightarrow> [a]) @
    (case pendingVersion ks of None \<Rightarrow> [] | Some p \<Rightarrow> [p])"
  have "x < fresh_ref ks" if "x \<in> set ?xs" for x
    using fold_max_ge [of x ?xs 0, OF disjI1 [OF that]] unfolding fresh_ref_def by (rule le_imp_less_Suc)
  then have "fresh_ref ks \<notin> set ?xs" by blast
  then show "fresh_ref ks \<notin> set (keyVersions ks)" "activeVersion ks \<noteq> Some (fresh_ref ks)"
    "pendingVersion ks \<noteq> Some (fresh_ref ks)" by (auto split: option.splits)
qed

lemma add_new_version:
  assumes "IsActive k"
  shows "GetActiveVersion (add_new_version k ks) = Some (fresh_ref ks) \<and>
    objs (add_new_version k ks) (fresh_ref ks) = k \<and>
    keyVersions (add_new_version k ks) = keyVersions ks @ [fresh_ref ks] \<and>
    poisoned (add_new_version k ks) = poisoned ks"
  using assms fresh_ref(2) [of ks]
  by (cases "activeVersion ks") (auto simp: add_new_version_def Let_def GetActiveVersion_def ks_defs)

text \<open>A reachable keystore stays reachable.\<close>

lemma add_new_version_reachable: "ks_reachable ks \<Longrightarrow> ks_reachable (add_new_version k ks)"
proof -
  assume r: "ks_reachable ks"
  let ?ks = "ks\<lparr>objs := (objs ks)(fresh_ref ks := k)\<rparr>"
  have "ks_reachable ?ks" using fresh_ref [of ks] by (intro ks_reachable.step [OF r] ks_step.Write)
  then show ?thesis
    unfolding add_new_version_def Let_def
    by (rule ks_reachable.step) (rule ks_step.Add, simp add: fresh_ref(2))
qed

lemma commit_version_error:
  "commit_version P msg k n = (n', Inl e) \<Longrightarrow> n_keyStore n' = n_keyStore n"
  by (auto simp: commit_version_def split: prod.splits sum.splits)

context node_persistence
begin

lemma commit_version_ok:
  assumes "valid (n_persistence n)" "\<not> p_closed (absf (n_persistence n))" "int64_range (Version k)"
  shows "\<exists>s. commit_version P msg k n = (n\<lparr>n_persistence := s, n_keyStore := add_new_version k (n_keyStore n)\<rparr>, Inr ()) \<and>
    valid s \<and> absf s = (absf (n_persistence n))\<lparr>p_keys := (p_keys (absf (n_persistence n)))(Version k \<mapsto> k), p_active := Version k\<rparr>"
proof -
  obtain s1 e1 where s1: "pi_SaveKeyShareVersion P (n_persistence n) (Some k) = (s1, e1)" by force
  then have w1: "e1 = Inr ()" "valid s1" "absf s1 = (absf (n_persistence n))\<lparr>p_keys := (p_keys (absf (n_persistence n)))(Version k \<mapsto> k)\<rparr>"
    using save_key [OF assms] by (simp_all add: writes_def)
  then have "\<not> p_closed (absf s1)" using assms(2) by simp
  from set_active [OF w1(2) this assms(3)] obtain s2 where
    "pi_SetActiveVersionTimestamp P s1 (Version k) = (s2, Inr ())" "valid s2" "absf s2 = (absf s1)\<lparr>p_active := Version k\<rparr>"
    unfolding writes_def by (metis prod.collapse)
  then show ?thesis using s1 w1 by (auto simp: commit_version_def)
qed

end


definition mock_node :: "(mock_db BadgerPersistence, gf) Node" where
  "mock_node =
     \<lparr>n_OperatorAddress = ''0x01'', n_keyStore = mock_keys [1, 2], n_persistence = mock_badger,
      n_abortTracker = \<lparr>at_TrackedSourceVersion = 0, at_ConsecutiveAborts = 0\<rparr>, n_addr = 1, n_ChainID = 31337,
      n_sessions = empty_registry, n_retained = \<lparr>retainedGeneratedShares = [], retainedGeneratedShareOrder = []\<rparr>\<rparr>"


end
