(* ===== verification/Reshare_Round.thy ===== *)
theory Reshare_Round
  imports Protocol_Round
begin

text \<open>
  A reshare round of a node (\<open>pkg/node/node.go\<close>): \<open>RunReshareAsExistingOperator\<close> and
  \<open>RunReshareAsNewOperator\<close>, phase by phase, from the operator set to the commit of the refreshed
  key version. What happens outside the node is the record \<open>round_env\<close>: the operator set, the
  messages that arrive during each wait, the results of the submission, the reads of the chain, and
  the answers to requests for shares. The theorems: a round that ends in an error leaves the active
  version alone unless auto-heal rolls it back; nodes with the same commitments finalise on the same
  dealers and their refreshed shares recover the old secret; and when one node lacks a commitment that
  the others have, all finalise but their shares do not combine.
\<close>

subsection \<open>The agreed dealers and the refreshed share\<close>

text \<open>
  From the on-chain submitters to the dealers of the majority source version, with the commitments
  and versions that this node has received.
\<close>

definition commitments_by_dealer :: "'f ProtocolSession \<Rightarrow> address list \<Rightarrow> (address, G2Point list) gomap" where
  "commitments_by_dealer session dealers =
     fold (\<lambda>dealer m. gm_set m dealer (GetCommitmentsFor session dealer)) dealers []"

definition select_dealers ::
  "('f, 'g1, 'g2, 'gt) lib \<Rightarrow> ((int64, nat) gomap \<Rightarrow> (int64, nat) gomap) \<Rightarrow> int \<Rightarrow> 'f ProtocolSession \<Rightarrow> address list \<Rightarrow>
   (address, bytes) gomap \<Rightarrow> (address list \<times> int64) res" where
  "select_dealers L order threshold session agreedDealers onChainHashes =
     (let (verifiedDealers, verifiedSourceVersions) =
            VerifyDealerSourceVersions L agreedDealers onChainHashes
              (commitments_by_dealer session agreedDealers) (GetSourceVersions session) in
      if int (length verifiedDealers) < threshold then Inl (Errorf ''verified reshare dealer set too small'')
      else wrap_err ''reshare aborted'' (SelectMajoritySourceVersion order verifiedDealers verifiedSourceVersions threshold))"

definition gather_shares ::
  "('f :: field, 'g1, 'g2, 'gt, 't) ext \<Rightarrow> address \<Rightarrow> 'f Reshare \<Rightarrow> 'f ProtocolSession \<Rightarrow>
   (address \<Rightarrow> AuthenticatedMessage res list) \<Rightarrow> (address, 'f option) gomap \<Rightarrow> address list \<Rightarrow>
   (address list \<times> (address, 'f option) gomap) res" where
  "gather_shares X me resharer session fetch trustedShares dealers =
     fold_res (\<lambda>dealer (participantIDs, finalShares).
         case gm_get trustedShares dealer of
           Some share \<Rightarrow> Inr (participantIDs @ [dealer], gm_set finalShares dealer share)
         | None \<Rightarrow>
             bind_res (wrap_err ''reshare aborted: missing verified share for agreed dealer''
               (fetchAndVerifyReshareShare (x_lib X) (x_sig X) (x_unjson_share X) me resharer session dealer (fetch dealer)))
               (\<lambda>share. Inr (participantIDs @ [dealer], gm_set finalShares dealer share)))
       dealers ([], [])"

definition refreshed_version ::
  "('f :: field, 'g1, 'g2, 'gt) lib \<Rightarrow> 'f Reshare \<Rightarrow> int64 \<Rightarrow> OperatorSetPeer list \<Rightarrow> address list \<Rightarrow> (address, 'f option) gomap \<Rightarrow>
   'f KeyShareVersion res" where
  "refreshed_version L resharer sessionTimestamp operators participantIDs finalShares =
     bind_res (wrap_err ''failed to compute refreshed key share'' (ComputeNewKeyShare L resharer participantIDs finalShares))
       (\<lambda>k. Inr (k\<lparr>Version := sessionTimestamp, IsActive := True, ParticipantIDs := sessionParticipantIDs operators\<rparr>))"

subsection \<open>Finalising as an existing operator\<close>

text \<open>
  The new key version with its carried-forward master public key, or the error of the round and, when
  the validation of that key failed, the majority source version for auto-heal.
\<close>

definition finalize_key ::
  "('f :: field, 'g1, 'g2, 'gt, 't) ext \<Rightarrow> 'f KeyStore \<Rightarrow> address \<Rightarrow> ((int64, nat) gomap \<Rightarrow> (int64, nat) gomap) \<Rightarrow>
   (address \<Rightarrow> AuthenticatedMessage res list) \<Rightarrow> 'f Reshare \<Rightarrow> int64 \<Rightarrow> OperatorSetPeer list \<Rightarrow> 'f ProtocolSession \<Rightarrow>
   (address, 'f option) gomap \<Rightarrow> address list \<Rightarrow> (address, bytes) gomap \<Rightarrow>
   (err \<times> int64 option) + ('f KeyShareVersion \<times> int64)" where
  "finalize_key X ks me order fetch resharer sessionTimestamp operators session valid agreedDealers onChainHashes =
     (let L = x_lib X; newThreshold = CalculateThreshold (int (length operators)) in
      if int (length agreedDealers) < newThreshold then Inl (Errorf ''agreed dealer set too small'', None)
      else case select_dealers L order newThreshold session agreedDealers onChainHashes of
        Inl e \<Rightarrow> Inl (e, None)
      | Inr (dealers, srcVersion) \<Rightarrow>
      (case gather_shares X me resharer session fetch (trusted_shares True me session valid) dealers of
        Inl e \<Rightarrow> Inl (e, None)
      | Inr (participantIDs, finalShares) \<Rightarrow>
      (case refreshed_version L resharer sessionTimestamp operators participantIDs finalShares of
        Inl e \<Rightarrow> Inl (e, None)
      | Inr k \<Rightarrow>
      (case GetActiveVersion ks of
        None \<Rightarrow> Inr (k, srcVersion)
      | Some a \<Rightarrow>
        (case MasterPublicKey (objs ks a) of
          None \<Rightarrow> Inl (Errorf ''reshare aborted: active version has nil MasterPublicKey'', None)
        | Some mpk \<Rightarrow>
          (case ValidateReshareMasterPublicKey L participantIDs (commitments_by_dealer session participantIDs) (Some mpk) of
            Inl e \<Rightarrow> Inl (Wrapf ''reshare aborted: post-reshare MPK validation failed'' e, Some srcVersion)
          | Inr _ \<Rightarrow> Inr (k\<lparr>MasterPublicKey := Some mpk\<rparr>, srcVersion)))))))"

definition finalize_existing ::
  "('f :: field, 'g1, 'g2, 'gt, 't) ext \<Rightarrow> ('s, 'f) INodePersistence \<Rightarrow> 'f round_env \<Rightarrow> 'f Reshare \<Rightarrow> int64 \<Rightarrow> int64 \<Rightarrow>
   OperatorSetPeer list \<Rightarrow> 'f ProtocolSession \<Rightarrow> (address, 'f option) gomap \<Rightarrow>
   (address list \<times> (address, bytes) gomap) res \<Rightarrow> ('s, 'f) Node \<Rightarrow> ('s, 'f) Node \<times> unit res" where
  "finalize_existing X P env resharer sessionTimestamp sourceVersion operators session valid agreed n =
     (case agreed of
        Inl e \<Rightarrow> (n, Inl (Wrapf ''failed to derive agreed dealer set'' e))
      | Inr (agreedDealers, onChainHashes) \<Rightarrow>
          (case finalize_key X (n_keyStore n) (n_addr n) (e_order env) (e_fetch env) resharer sessionTimestamp operators
                  session valid agreedDealers onChainHashes of
             Inl (e, None) \<Rightarrow> (n, Inl e)
           | Inl (e, Some srcVersion) \<Rightarrow> (onMPKValidationAbort P sourceVersion srcVersion n, Inl e)
           | Inr (k, srcVersion) \<Rightarrow>
               (case commit_version P ''failed to persist reshare key share version'' k n of
                  (n1, Inl e) \<Rightarrow> (n1, Inl e)
                | (n1, Inr _) \<Rightarrow> (recordSuccessfulReshare P srcVersion n1, Inr ()))))"

subsection \<open>The phases before\<close>

text \<open>Operators, number of new ones, share to deal and the version it belongs to.\<close>

definition reshare_prepare ::
  "'f round_env \<Rightarrow> ('s, 'f) Node \<Rightarrow> (OperatorSetPeer list \<times> int \<times> 'f \<times> int64) res" where
  "reshare_prepare env n =
     bind_res (wrap_err ''failed to fetch operators for reshare'' (fetchCurrentOperators (e_listed env))) (\<lambda>operators.
     let numNewOperators = countNewOperatorsInSet (n_keyStore n) (e_query env) operators in
     if numNewOperators < 0 \<or> numNewOperators \<ge> int (length operators) then Inl (Errorf ''numNewOperators out of range'')
     else if \<not> is_operator operators (n_addr n) then Inl (Errorf ''this operator not found in reshare operator set'')
     else
       bind_res (case GetActiveVersion (n_keyStore n) of
           None \<Rightarrow> Inr ()
         | Some a \<Rightarrow> wrap_err ''reshare operator set validation failed''
             (validateReshareOperatorOverlap (ParticipantIDs (objs (n_keyStore n) a)) operators)) (\<lambda>_.
       bind_res (GetActivePrivateShare (n_keyStore n)) (\<lambda>currentShare.
       case GetActiveVersion (n_keyStore n) of
         None \<Rightarrow> Inl (Panic ''nil pointer dereference'')
       | Some a \<Rightarrow> Inr (operators, numNewOperators, currentShare, Version (objs (n_keyStore n) a)))))"

text \<open>
  Dealing: the session with this node's own share and commitments, the messages to the others, and
  the retained shares. The stored session is the one before the own messages.
\<close>

definition reshare_deal ::
  "('f :: field, 'g1, 'g2, 'gt, 't) ext \<Rightarrow> ('s, 'f) INodePersistence \<Rightarrow> 'f round_env \<Rightarrow> int64 \<Rightarrow> int64 \<Rightarrow>
   OperatorSetPeer list \<Rightarrow> 'f \<Rightarrow> int64 \<Rightarrow> ('s, 'f) Node \<Rightarrow>
   ('s, 'f) Node \<times> ('f Reshare \<times> 'f ProtocolSession \<times> ('f, 't) outbound list) res" where
  "reshare_deal X P env sessionTimestamp triggerBlock operators currentShare sourceVersion n =
     (let me = n_addr n; newThreshold = nat (CalculateThreshold (int (length operators))) in
      case GenerateNewShares (e_rand env) (Some currentShare) newThreshold (x_lib X) (NewReshare me operators) of
        Inl e \<Rightarrow> (n, Inl e)
      | Inr (resharer, newShares, cs) \<Rightarrow>
      (case createSession (e_now env) ''reshare'' (map Some operators) sessionTimestamp (n_sessions n) of
        (r, Inl e) \<Rightarrow> (n\<lparr>n_sessions := r\<rparr>, Inl (Wrapf ''failed to create reshare session'' e))
      | (r, Inr session) \<Rightarrow>
          let session1 = session\<lparr>TriggerBlockNumber := triggerBlock\<rparr> in
          (case persist_session X P session1 (n\<lparr>n_sessions := r\<rparr>) of
             (n1, Inl e) \<Rightarrow> (end_session P sessionTimestamp n1, Inl e)
           | (n1, Inr _) \<Rightarrow>
               let session2 = fst (HandleReceivedCommitment me cs sourceVersion
                     (fst (HandleReceivedShare me (gm_get newShares me) session1)));
                   session3 = SetMyGeneratedShares newShares session2;
                   sends = map (\<lambda>op. SendShare op (gm_get newShares (OperatorAddress op)))
                     (filter (\<lambda>op. OperatorAddress op \<noteq> me) operators) in
               (n1\<lparr>n_retained := retainGeneratedShares sessionTimestamp newShares (n_retained n1)\<rparr>,
                Inr (resharer, session3, BroadcastCommitments operators cs sourceVersion # sends)))))"

text \<open>Waiting for enough shares and then commitments of senders that satisfy \<open>sender_ok\<close>; \<open>wrap\<close> adds the
  context that the caller gives an error.\<close>

definition collect_contributions ::
  "('f, 'g1, 'g2, 'gt) lib \<Rightarrow> address \<Rightarrow> (string \<Rightarrow> err \<Rightarrow> err) \<Rightarrow> (address \<Rightarrow> bool) \<Rightarrow> int \<Rightarrow> 'f inbound list list \<Rightarrow>
   'f inbound list list \<Rightarrow> 'f ProtocolSession \<Rightarrow> 'f ProtocolSession res" where
  "collect_contributions L me wrap sender_ok required ticks1 ticks2 session =
     bind_res (map_sum (wrap ''shares'') id (waitForN session required ''shares''
         (map (\<lambda>s. int (length (filter (\<lambda>(a, _). sender_ok a) (shares s)))) (snapshots L me ticks1 session)))) (\<lambda>_.
     let session1 = after_ticks L me ticks1 session in
     bind_res (map_sum (wrap ''commitments'') id (waitForN session1 required ''commitments''
         (map (\<lambda>s. int (length (filter (\<lambda>(a, _). sender_ok a) (commitments s)))) (snapshots L me ticks2 session1)))) (\<lambda>_.
     Inr (after_ticks L me ticks2 session1)))"

text \<open>Verification of the received shares; the invalid ones are removed from the session.\<close>

definition reshare_verify ::
  "('f :: field, 'g1, 'g2, 'gt, 't) ext \<Rightarrow> address \<Rightarrow> int64 \<Rightarrow> OperatorSetPeer list \<Rightarrow> 'f Reshare \<Rightarrow> 'f ProtocolSession \<Rightarrow>
   'f ProtocolSession \<times> (address, 'f option) gomap \<times> ('f, 't) outbound list" where
  "reshare_verify X me t operators resharer session =
     (let received = filter (\<lambda>(a, _). is_operator operators a) (shares session);
          cs = filter (\<lambda>(a, _). is_operator operators a) (commitments session);
          valid = valid_shares (VerifyNewShare (x_lib X) resharer) received cs;
          invalidDealers = map fst (filter (\<lambda>x. x \<notin> set valid) received) in
      (session\<lparr>shares := fold (\<lambda>a m. gm_del m a) invalidDealers (shares session)\<rparr>, valid,
       acknowledgements X me t operators valid cs))"

text \<open>The wait for acknowledgements, with its fallback to one less than the threshold.\<close>

definition reshare_await_acks ::
  "('f, 'g1, 'g2, 'gt) lib \<Rightarrow> address \<Rightarrow> int \<Rightarrow> 'f inbound list list \<Rightarrow> 'f ProtocolSession \<Rightarrow> 'f ProtocolSession res" where
  "reshare_await_acks L me newThreshold ticks session =
     (let requiredAcks = (if newThreshold < 0 then 0 else newThreshold);
          session1 = after_ticks L me ticks session;
          received = int (length (ack_map session1 me));
          fallbackRequired = (if requiredAcks - 1 < 1 then 1 else requiredAcks - 1) in
      case waitForAcks session me requiredAcks (snapshots L me ticks session) of
        Inr _ \<Rightarrow> Inr session1
      | Inl e \<Rightarrow> if received \<ge> fallbackRequired then Inr session1
                else Inl (Wrapf ''insufficient reshare acknowledgements'' e))"

definition RunReshareAsExistingOperator ::
  "('f :: field, 'g1, 'g2, 'gt, 't) ext \<Rightarrow> ('s, 'f) INodePersistence \<Rightarrow> 'f round_env \<Rightarrow> int64 \<Rightarrow> int64 \<Rightarrow> ('s, 'f) Node \<Rightarrow>
   (('s, 'f) Node \<times> ('f, 't) outbound list \<times> unit res) option" where
  "RunReshareAsExistingOperator X P env sessionTimestamp triggerBlock n =
     (let L = x_lib X; me = n_addr n in
      case reshare_prepare env n of
        Inl e \<Rightarrow> Some (n, [], Inl e)
      | Inr (operators, numNewOperators, currentShare, sourceVersion) \<Rightarrow>
      (case reshare_deal X P env sessionTimestamp triggerBlock operators currentShare sourceVersion n of
        (n1, Inl e) \<Rightarrow> Some (n1, [], Inl e)
      | (n1, Inr (resharer, session, out1)) \<Rightarrow>
      (case collect_contributions L me (\<lambda>_. id) (is_operator operators)
              (CalculateThreshold (int (length operators) - numNewOperators)) (e_share_ticks env) (e_commitment_ticks env) session of
        Inl e \<Rightarrow> Some (end_session P sessionTimestamp n1, out1, Inl e)
      | Inr session1 \<Rightarrow>
      (case persist_session X P (session1\<lparr>Phase := 2\<rparr>) n1 of
        (n2, Inl e) \<Rightarrow> Some (end_session P sessionTimestamp n2, out1, Inl e)
      | (n2, Inr _) \<Rightarrow>
      (case reshare_verify X me sessionTimestamp operators resharer (session1\<lparr>Phase := 2\<rparr>) of
        (session2, valid, out2) \<Rightarrow>
      (case reshare_await_acks L me (CalculateThreshold (int (length operators))) (e_ack_ticks env) session2 of
        Inl e \<Rightarrow> Some (end_session P sessionTimestamp n2, out1 @ out2, Inl e)
      | Inr session3 \<Rightarrow>
      (case publish_acks X me operators sessionTimestamp
              (case gm_get (commitments session3) me of
                 None \<Rightarrow> Inl (Errorf ''my commitments not found in reshare'')
               | Some cs \<Rightarrow> Inr (cs, HashReshareCommitment L cs sourceVersion)) (e_submits env) session3 of
        Inl e \<Rightarrow> Some (end_session P sessionTimestamp n2, out1 @ out2, Inl e)
      | Inr out3 \<Rightarrow>
          let session4 = after_ticks L me (e_verification_ticks env) session3 in
          (case deriveAgreedDealerSet (n_ChainID n) (n_keyStore n2) operators sessionTimestamp triggerBlock None
                  (e_finalize_now env) (e_attempts env) of
             None \<Rightarrow> None
           | Some agreed \<Rightarrow>
               (case finalize_existing X P env resharer sessionTimestamp sourceVersion operators session4 valid agreed n2 of
                  (n3, r) \<Rightarrow> Some (end_session P sessionTimestamp n3, out1 @ out2 @ out3, r))))))))))"

subsection \<open>Joining as a new operator\<close>

text \<open>The operators that answer with a key; none without a transport.\<close>

definition existing_operator_ids ::
  "(OperatorSetPeer \<Rightarrow> G2Point list res) option \<Rightarrow> OperatorSetPeer list \<Rightarrow> (address, bool) gomap" where
  "existing_operator_ids query operators =
     (case query of
        None \<Rightarrow> []
      | Some q \<Rightarrow>
          fold (\<lambda>op m. case q op of
              Inl _ \<Rightarrow> m
            | Inr cs \<Rightarrow> if length cs > 0 then gm_set m (OperatorAddress op) True else m) operators [])"

text \<open>Verification in the order of the operators, with an acknowledgement for every valid share.\<close>

definition join_verify ::
  "('f :: field, 'g1, 'g2, 'gt, 't) ext \<Rightarrow> address \<Rightarrow> int64 \<Rightarrow> OperatorSetPeer list \<Rightarrow> 'f Reshare \<Rightarrow>
   (address, 'f option) gomap \<Rightarrow> (address, G2Point list) gomap \<Rightarrow> (address, 'f option) gomap \<times> ('f, 't) outbound list" where
  "join_verify X me t operators resharer received cs =
     fold (\<lambda>op (valid, out).
         case (gm_get received (OperatorAddress op), gm_get cs (OperatorAddress op)) of
           (Some (Some share), Some (c # c')) \<Rightarrow>
             if VerifyNewShare (x_lib X) resharer (Some share) (c # c')
             then (gm_set valid (OperatorAddress op) (Some share),
                   out @ [SendAcknowledgement (CreateAcknowledgement (x_lib X) me (OperatorAddress op) t share (c # c')
                            (signAcknowledgement (x_SignMessage X))) op])
             else (valid, out)
         | _ \<Rightarrow> (valid, out)) operators ([], [])"

definition finalize_new ::
  "('f :: field, 'g1, 'g2, 'gt, 't) ext \<Rightarrow> ('s, 'f) INodePersistence \<Rightarrow> 'f round_env \<Rightarrow> 'f Reshare \<Rightarrow> int64 \<Rightarrow>
   OperatorSetPeer list \<Rightarrow> 'f ProtocolSession \<Rightarrow> (address, 'f option) gomap \<Rightarrow>
   (address list \<times> (address, bytes) gomap) res \<Rightarrow> ('s, 'f) Node \<Rightarrow> ('s, 'f) Node \<times> unit res" where
  "finalize_new X P env resharer sessionTimestamp operators session valid agreed n =
     (let L = x_lib X; me = n_addr n; requiredShares = CalculateThreshold (int (length operators)) in
      case bind_res (wrap_err ''failed to derive agreed dealer set (new operator)'' agreed) (\<lambda>(agreedDealers, onChainHashes).
           bind_res (select_dealers L (e_order env) requiredShares session agreedDealers onChainHashes) (\<lambda>(dealers, _).
           bind_res (gather_shares X me resharer session (e_fetch env) (trusted_shares False me session valid) dealers)
             (\<lambda>(participantIDs, finalShares).
           if int (length participantIDs) < requiredShares
           then Inl (Errorf ''insufficient verified shares for new-operator finalize'')
           else refreshed_version L resharer sessionTimestamp operators participantIDs finalShares))) of
        Inl e \<Rightarrow> (n, Inl e)
      | Inr k \<Rightarrow>
          let k' = (case fetchMPKFromPeers L (e_mpk_arrival env) (e_mpk_order env) me (e_mpk_answer env) operators of
                      Inl _ \<Rightarrow> k | Inr mpk \<Rightarrow> k\<lparr>MasterPublicKey := Some mpk\<rparr>) in
          commit_version P ''failed to persist first key share version'' k' n)"

definition RunReshareAsNewOperator ::
  "('f :: field, 'g1, 'g2, 'gt, 't) ext \<Rightarrow> ('s, 'f) INodePersistence \<Rightarrow> 'f round_env \<Rightarrow> int64 \<Rightarrow> int64 \<Rightarrow> ('s, 'f) Node \<Rightarrow>
   (('s, 'f) Node \<times> ('f, 't) outbound list \<times> unit res) option" where
  "RunReshareAsNewOperator X P env sessionTimestamp triggerBlock n =
     (let L = x_lib X; me = n_addr n in
      case wrap_err ''failed to fetch operators'' (fetchCurrentOperators (e_listed env)) of
        Inl e \<Rightarrow> Some (n, [], Inl e)
      | Inr operators \<Rightarrow>
      let existingOpIDs = existing_operator_ids (e_query env) operators;
          numNewOperators = int (length operators) - int (length existingOpIDs);
          existing = (\<lambda>a. gm_get existingOpIDs a = Some True);
          resharer = NewReshare me operators in
      if numNewOperators < 1 \<or> numNewOperators \<ge> int (length operators)
      then Some (n, [], Inl (Errorf ''numNewOperators out of range''))
      else case createSession (e_now env) ''reshare'' (map Some operators) sessionTimestamp (n_sessions n) of
        (r, Inl e) \<Rightarrow> Some (n\<lparr>n_sessions := r\<rparr>, [], Inl (Wrapf ''failed to create reshare session'' e))
      | (r, Inr session) \<Rightarrow>
      (case persist_session X P session (n\<lparr>n_sessions := r\<rparr>) of
        (n1, Inl e) \<Rightarrow> Some (end_session P sessionTimestamp n1, [], Inl e)
      | (n1, Inr _) \<Rightarrow>
      (case collect_contributions L me (\<lambda>what. Wrapf (''failed to receive '' @ what)) existing
              (CalculateThreshold (int (length operators) - numNewOperators)) (e_share_ticks env) (e_commitment_ticks env) session of
        Inl e \<Rightarrow> Some (end_session P sessionTimestamp n1, [], Inl e)
      | Inr session1 \<Rightarrow>
      (case join_verify X me sessionTimestamp operators resharer
              (filter (\<lambda>(a, _). existing a) (shares session1)) (filter (\<lambda>(a, _). existing a) (commitments session1)) of
        (valid, out) \<Rightarrow>
          let session2 = after_ticks L me (e_verification_ticks env) session1 in
          (case deriveAgreedDealerSet (n_ChainID n) (n_keyStore n1) operators sessionTimestamp triggerBlock
                  (Some (existingOperatorDealers operators existingOpIDs)) (e_finalize_now env) (e_attempts env) of
             None \<Rightarrow> None
           | Some agreed \<Rightarrow>
               (case finalize_new X P env resharer sessionTimestamp operators session2 valid agreed n1 of
                  (n2, r) \<Rightarrow> Some (end_session P sessionTimestamp n2, out, r)))))))"

subsection \<open>The selection of dealers is determined by what was received\<close>

lemma GetCommitmentsFor_stored: "GetCommitmentsFor s d = stored_commitments s d"
proof -
  have "map (\<lambda>pt. G2Point (map (\<lambda>b. b) (g2_CompressedBytes pt))) c = c" for c
    by (induction c) simp_all
  then show ?thesis by (simp add: GetCommitmentsFor_def stored_commitments_def split: option.splits)
qed

lemma GetSourceVersions_id: "GetSourceVersions s = sourceVersions s"
  by (simp add: GetSourceVersions_def map_idI)

lemma commitments_by_dealer_get:
  "gm_get (commitments_by_dealer s ds) d = (if d \<in> set ds then Some (stored_commitments s d) else None)"
proof -
  have "gm_get (fold (\<lambda>dealer m. gm_set m dealer (GetCommitmentsFor s dealer)) ds m) d =
      (if d \<in> set ds then Some (stored_commitments s d) else gm_get m d)" for m
    by (induction ds arbitrary: m) (auto simp: GetCommitmentsFor_stored)
  then show ?thesis by (simp add: commitments_by_dealer_def)
qed

text \<open>Two sessions hold the same of the given dealers.\<close>

definition same_received :: "address list \<Rightarrow> 'f ProtocolSession \<Rightarrow> 'f ProtocolSession \<Rightarrow> bool" where
  "same_received ds s s' \<longleftrightarrow> (\<forall>d \<in> set ds. stored_commitments s d = stored_commitments s' d \<and>
     gm_get (sourceVersions s) d = gm_get (sourceVersions s') d)"

lemma select_dealers_same:
  assumes "same_received ds s s'" "gm_get hs = gm_get hs'" "\<forall>m. mset (order m) = mset m" "\<forall>m. mset (order' m) = mset m"
  shows "select_dealers L order t s ds hs = select_dealers L order' t s' ds hs'"
proof -
  let ?v = "\<lambda>s hs. VerifyDealerSourceVersions L ds hs (commitments_by_dealer s ds) (sourceVersions s)"
  have ok: "source_ok L hs (commitments_by_dealer s ds) (sourceVersions s) d \<longleftrightarrow>
      source_ok L hs' (commitments_by_dealer s' ds) (sourceVersions s') d" if "d \<in> set ds" for d
    using assms(1,2) that by (simp add: source_ok_def same_received_def commitments_by_dealer_get)
  then have f: "fst (?v s hs) = fst (?v s' hs')"
    using VerifyDealerSourceVersions_filter by (metis (no_types, lifting) filter_cong)
  have "version_of (snd (?v s hs)) d = version_of (snd (?v s' hs')) d" if "d \<in> set ds" for d
    using ok [OF that] assms(1) that
      VerifyDealerSourceVersions_filter [of L ds hs "commitments_by_dealer s ds" "sourceVersions s"]
      VerifyDealerSourceVersions_filter [of L ds hs' "commitments_by_dealer s' ds" "sourceVersions s'"]
    by (simp add: version_of_def same_received_def)
  moreover have "set (fst (?v s hs)) \<subseteq> set ds"
    using VerifyDealerSourceVersions_filter [of L ds hs "commitments_by_dealer s ds" "sourceVersions s"] by auto
  ultimately have "SelectMajoritySourceVersion order (fst (?v s hs)) (snd (?v s hs)) t =
      SelectMajoritySourceVersion order (fst (?v s hs)) (snd (?v s' hs')) t"
    by (intro SelectMajoritySourceVersion_cong) auto
  also have "\<dots> = SelectMajoritySourceVersion order' (fst (?v s' hs')) (snd (?v s' hs')) t"
    unfolding f by (rule SelectMajoritySourceVersion_order [OF assms(3,4)])
  finally show ?thesis
    using f by (cases "?v s hs"; cases "?v s' hs'") (simp add: select_dealers_def GetSourceVersions_id)
qed

subsection \<open>The gathered shares are verified\<close>

text \<open>
  \<open>verified_against\<close>: every share of the map was accepted against the commitments that the session
  holds of its dealer.
\<close>

definition verified_against ::
  "('f :: field, 'g1, 'g2, 'gt) lib \<Rightarrow> 'f Reshare \<Rightarrow> 'f ProtocolSession \<Rightarrow> (address, 'f option) gomap \<Rightarrow> bool" where
  "verified_against L resharer s m \<longleftrightarrow>
     (\<forall>(d, sh) \<in> set m. sh \<noteq> None \<and> VerifyNewShare L resharer sh (stored_commitments s d))"

lemma gather_shares_spec:
  assumes "verified_against (x_lib X) resharer s valid"
    "gather_shares X me resharer s fetch (trusted_shares self me s valid) dealers = Inr (ids, final)"
  shows "ids = dealers \<and> (\<forall>d \<in> set dealers. \<exists>x. gm_get final d = Some (Some x) \<and>
    VerifyNewShare (x_lib X) resharer (Some x) (stored_commitments s d))"
proof -
  let ?step = "\<lambda>dealer (participantIDs, finalShares).
         case gm_get (trusted_shares self me s valid) dealer of
           Some share \<Rightarrow> Inr (participantIDs @ [dealer], gm_set finalShares dealer share)
         | None \<Rightarrow>
             bind_res (wrap_err ''reshare aborted: missing verified share for agreed dealer''
               (fetchAndVerifyReshareShare (x_lib X) (x_sig X) (x_unjson_share X) me resharer s dealer (fetch dealer)))
               (\<lambda>share. Inr (participantIDs @ [dealer], gm_set finalShares dealer share))"
  let ?good = "\<lambda>m d. \<exists>x. gm_get m d = Some (Some x) \<and> VerifyNewShare (x_lib X) resharer (Some x) (stored_commitments s d)"
  have step: "\<exists>x. y = (is @ [d], gm_set m d (Some x)) \<and> VerifyNewShare (x_lib X) resharer (Some x) (stored_commitments s d)"
    if y: "?step d (is, m) = Inr y" for d "is" m y
  proof (cases "gm_get (trusted_shares self me s valid) d")
    case (Some sh)
    then have "sh \<noteq> None" "VerifyNewShare (x_lib X) resharer sh (stored_commitments s d)"
      using trusted_shares_sub [OF Some] assms(1) by (auto simp: verified_against_def)
    with Some y show ?thesis by auto
  next
    case None
    with y obtain sh where "fetchAndVerifyReshareShare (x_lib X) (x_sig X) (x_unjson_share X) me resharer s d (fetch d) = Inr sh"
      "y = (is @ [d], gm_set m d sh)" by (auto simp: res_simps)
    with fetchAndVerifyReshareShare_sound [OF this(1)] show ?thesis by (auto simp: stored_commitments_def)
  qed
  have "fold_res ?step ds (is, m) = Inr (is', m') \<Longrightarrow> is' = is @ ds \<and>
      (\<forall>d. (d \<in> set ds \<longrightarrow> ?good m' d) \<and> (d \<notin> set ds \<longrightarrow> gm_get m' d = gm_get m d) \<and> (?good m d \<longrightarrow> ?good m' d))"
    for ds "is" m is' m'
  proof (induction ds arbitrary: "is" m)
    case (Cons d ds)
    from Cons.prems obtain y where y: "?step d (is, m) = Inr y" "fold_res ?step ds y = Inr (is', m')"
      by (auto simp only: fold_res.simps bind_res_eq_Inr)
    from step [OF y(1)] obtain x where x: "y = (is @ [d], gm_set m d (Some x))"
      "VerifyNewShare (x_lib X) resharer (Some x) (stored_commitments s d)" by blast
    from Cons.IH [OF y(2) [unfolded x(1)]] x(2) show ?case by auto
  qed simp
  from this [of dealers "[]" "[]" ids final] assms(2) show ?thesis unfolding gather_shares_def by auto
qed

subsection \<open>Nodes that received the same finalise consistently\<close>

lemma select_dealers_sub:
  assumes "select_dealers L order t s agreed hs = Inr (dealers, v)" shows "set dealers \<subseteq> set agreed"
proof -
  let ?v = "VerifyDealerSourceVersions L agreed hs (commitments_by_dealer s agreed) (sourceVersions s)"
  have "set (fst ?v) \<subseteq> set agreed"
    using VerifyDealerSourceVersions_filter [of L agreed hs "commitments_by_dealer s agreed" "sourceVersions s"] by auto
  moreover have "set dealers \<subseteq> set (fst ?v)"
    using assms by (auto simp: select_dealers_def GetSourceVersions_id SelectMajoritySourceVersion_def Let_def
        split: prod.splits if_splits)
  ultimately show ?thesis by blast
qed

text \<open>
  What a successful \<open>finalize_key\<close> of node \<open>me\<close> means: the dealers it selected, the shares
  \<open>final\<close> it combined, each verified, and the validated key version \<open>k\<close>.
\<close>

definition finalised ::
  "('f :: field, 'g1, 'g2, 'gt) lib \<Rightarrow> address \<Rightarrow> ((int64, nat) gomap \<Rightarrow> (int64, nat) gomap) \<Rightarrow> OperatorSetPeer list \<Rightarrow> int64 \<Rightarrow>
   'f ProtocolSession \<Rightarrow> address list \<Rightarrow> (address, bytes) gomap \<Rightarrow> G2Point \<Rightarrow> 'f KeyShareVersion \<Rightarrow> int64 \<Rightarrow>
   address list \<Rightarrow> (address, 'f option) gomap \<Rightarrow> 'f KeyShareVersion \<Rightarrow> bool" where
  "finalised L me order ops t s agreed hs mpk k src dealers final k' \<longleftrightarrow>
     select_dealers L order (CalculateThreshold (int (length ops))) s agreed hs = Inr (dealers, src) \<and>
     dealers \<noteq> [] \<and> set dealers \<subseteq> set agreed \<and>
     (\<forall>d \<in> set dealers. \<exists>x. gm_get final d = Some (Some x) \<and>
        VerifyNewShare L (NewReshare me ops) (Some x) (stored_commitments s d)) \<and>
     ComputeNewKeyShare L (NewReshare me ops) dealers final = Inr k' \<and>
     k = k'\<lparr>Version := t, IsActive := True, ParticipantIDs := sessionParticipantIDs ops, MasterPublicKey := Some mpk\<rparr> \<and>
     ValidateReshareMasterPublicKey L dealers (commitments_by_dealer s dealers) (Some mpk) = Inr ()"

lemma finalize_key_spec:
  assumes "finalize_key X ks me order fetch (NewReshare me ops) t ops s valid agreed hs = Inr (k, src)"
    "verified_against (x_lib X) (NewReshare me ops) s valid"
    "\<exists>a. GetActiveVersion ks = Some a \<and> MasterPublicKey (objs ks a) = Some mpk"
  shows "\<exists>dealers final k'. finalised (x_lib X) me order ops t s agreed hs mpk k src dealers final k'"
proof -
  let ?r = "NewReshare me ops"
  from assms(1,3) obtain dealers ids final k0 where r:
    "select_dealers (x_lib X) order (CalculateThreshold (int (length ops))) s agreed hs = Inr (dealers, src)"
    "gather_shares X me ?r s fetch (trusted_shares True me s valid) dealers = Inr (ids, final)"
    "refreshed_version (x_lib X) ?r t ops ids final = Inr k0"
    "ValidateReshareMasterPublicKey (x_lib X) ids (commitments_by_dealer s ids) (Some mpk) = Inr ()"
    "k = k0\<lparr>MasterPublicKey := Some mpk\<rparr>"
    by (auto simp: finalize_key_def Let_def split: if_splits sum.splits prod.splits)
  note g = gather_shares_spec [OF assms(2) r(2)]
  from r(3) obtain k' where k': "ComputeNewKeyShare (x_lib X) ?r dealers final = Inr k'"
    "k0 = k'\<lparr>Version := t, IsActive := True, ParticipantIDs := sessionParticipantIDs ops\<rparr>"
    using g by (auto simp: refreshed_version_def res_simps)
  have "dealers \<noteq> []" using k'(1) by (auto simp: ComputeNewKeyShare_def)
  then have "finalised (x_lib X) me order ops t s agreed hs mpk k src dealers final k'"
    using g k' r(1,4,5) select_dealers_sub [OF r(1)] by (simp add: finalised_def)
  then show ?thesis by blast
qed


subsection \<open>The shares that a round verifies stay verified\<close>

lemma VerifyNewShare_Nil [simp]: "\<not> VerifyNewShare L r sh []" "\<not> VerifyNewShare L r None cs"
  by (simp_all add: VerifyNewShare_def verify_commitments_def)

lemma gm_get_filter_key: "gm_get (filter (\<lambda>(a, _). Q a) m) d = (if Q d then gm_get m d else None)"
  by (induction m) auto

lemma reshare_verify_valid:
  assumes "reshare_verify X me t operators resharer session = (session', valid, out)"
  shows "verified_against (x_lib X) resharer session' valid"
proof -
  from assms have "valid = valid_shares (VerifyNewShare (x_lib X) resharer) (filter (\<lambda>(a, _). is_operator operators a) (shares session))
      (filter (\<lambda>(a, _). is_operator operators a) (commitments session))" "commitments session' = commitments session"
    by (auto simp: reshare_verify_def Let_def)
  then show ?thesis
    by (auto simp: verified_against_def valid_shares_def stored_commitments_def gm_get_filter_key split: option.splits)
      (metis VerifyNewShare_Nil(2) not_None_eq)
qed

lemma verified_against_after_ticks:
  "verified_against L r s m \<Longrightarrow> verified_against L r (after_ticks L' me batches s) m"
  unfolding verified_against_def by (metis (mono_tags, lifting) VerifyNewShare_Nil(1) after_ticks_keeps_commitments case_prod_conv case_prodI2)

subsection \<open>A round of honest dealers\<close>

lemma select_dealers_honest:
  assumes "R = filter (\<lambda>d. stored_commitments s d \<noteq> []) agreed"
    "\<And>d. d \<in> set agreed \<Longrightarrow> \<exists>cs. gm_get hs d = Some (HashReshareCommitment L cs v) \<and> (d \<in> set R \<longrightarrow> stored_commitments s d = cs)"
    "\<And>d. d \<in> set R \<Longrightarrow> gm_get (sourceVersions s) d = Some v"
    "v \<noteq> 0" "0 < t" "t \<le> int (length R)" "\<forall>m. mset (order m) = mset m"
  shows "select_dealers L order t s agreed hs = Inr (R, v)"
proof -
  let ?v = "VerifyDealerSourceVersions L agreed hs (commitments_by_dealer s agreed) (sourceVersions s)"
  have ok: "source_ok L hs (commitments_by_dealer s agreed) (sourceVersions s) d \<longleftrightarrow> d \<in> set R" if "d \<in> set agreed" for d
    using assms(1) assms(2) [OF that] assms(3) [of d] that by (auto simp: source_ok_def commitments_by_dealer_get)
  have sub: "set R \<subseteq> set agreed" using assms(1) by auto
  have f: "fst ?v = R"
    using VerifyDealerSourceVersions_filter [of L agreed hs "commitments_by_dealer s agreed" "sourceVersions s"] ok assms(1)
    by (auto intro: filter_cong)
  have V: "version_of (snd ?v) d = v" if "d \<in> set R" for d
    using VerifyDealerSourceVersions_filter [of L agreed hs "commitments_by_dealer s agreed" "sourceVersions s"]
      ok [of d] sub assms(3) [OF that] that by (auto simp: version_of_def)
  obtain bv bc where b: "best_version (order (count_versions R (snd ?v))) = (bv, bc)" by fastforce
  have on: "dealers_on R (snd ?v) w = (if w = v then length R else 0)" for w
    using V by (auto simp: dealers_on_def filter_empty_conv filter_id_conv)
  have "R \<noteq> []" using assms(5,6) by auto
  then have "bv = v \<and> bc = length R"
    using best_version_counts [of order, OF assms(7) [rule_format] b] assms(4) by (auto simp: on split: if_splits)
  then have "SelectMajoritySourceVersion order R (snd ?v) t = Inr (R, v)"
    using b \<open>R \<noteq> []\<close> assms(6) V by (simp add: SelectMajoritySourceVersion_def filter_id_conv)
  then show ?thesis using f assms(6) by (cases ?v) (simp add: select_dealers_def GetSourceVersions_id)
qed

lemma gather_shares_trusted:
  assumes "\<And>d. d \<in> set dealers \<Longrightarrow> gm_get trusted d = Some (sh d)"
  shows "\<exists>final. gather_shares X me r s fetch trusted dealers = Inr (dealers, final) \<and>
    (\<forall>d \<in> set dealers. gm_get final d = Some (sh d))"
proof -
  let ?step = "\<lambda>dealer (participantIDs, finalShares).
         case gm_get trusted dealer of
           Some share \<Rightarrow> Inr (participantIDs @ [dealer], gm_set finalShares dealer share)
         | None \<Rightarrow>
             bind_res (wrap_err ''reshare aborted: missing verified share for agreed dealer''
               (fetchAndVerifyReshareShare (x_lib X) (x_sig X) (x_unjson_share X) me r s dealer (fetch dealer)))
               (\<lambda>share. Inr (participantIDs @ [dealer], gm_set finalShares dealer share))"
  have "\<exists>final. fold_res ?step ds (is, m) = Inr (is @ ds, final) \<and>
      (\<forall>d. gm_get final d = (if d \<in> set ds then Some (sh d) else gm_get m d))" if "set ds \<subseteq> set dealers" for ds "is" m
    using that
  proof (induction ds arbitrary: "is" m)
    case (Cons d ds)
    then show ?case using Cons.IH [of "is @ [d]" "gm_set m d (sh d)"] assms [of d] by auto
  qed simp
  from this [of dealers "[]" "[]"] show ?thesis unfolding gather_shares_def by auto
qed

text \<open>
  The agreed dealers are honest re-sharers of a polynomial \<open>f\<close> of the threshold's length: dealer \<open>d\<close> uses
  the polynomial \<open>P d\<close>, whose constant term is its share, and its hash is on chain. A node has received
  the commitments and shares of exactly the dealers \<open>R\<close> among them.
\<close>

definition honest_dealers ::
  "('f :: field, 'g1, 'g2, 'gt) lib \<Rightarrow> address list \<Rightarrow> (address, bytes) gomap \<Rightarrow> (address \<Rightarrow> 'f list) \<Rightarrow> 'f list \<Rightarrow> int64 \<Rightarrow> nat \<Rightarrow> bool" where
  "honest_dealers L agreed hs P f v t \<longleftrightarrow> distinct (map (AddressToFr L) agreed) \<and> length f \<le> t \<and> v \<noteq> 0 \<and>
     (\<forall>d \<in> set agreed. P d \<noteq> [] \<and> length (P d) \<le> t \<and> hd (P d) = peval f (AddressToFr L d) \<and>
        gm_get hs d = Some (HashReshareCommitment L (map (enc2 L) (P d)) v))"

definition honest_receiver ::
  "('f :: field, 'g1, 'g2, 'gt) lib \<Rightarrow> (address \<Rightarrow> 'f list) \<Rightarrow> 'f list \<Rightarrow> int64 \<Rightarrow> address \<Rightarrow> 'f KeyStore \<Rightarrow> 'f ProtocolSession \<Rightarrow>
   (address, 'f option) gomap \<Rightarrow> address list \<Rightarrow> address list \<Rightarrow> bool" where
  "honest_receiver L P f v me ks s valid agreed R \<longleftrightarrow>
     R = filter (\<lambda>d. stored_commitments s d \<noteq> []) agreed \<and>
     (\<forall>d \<in> set R. stored_commitments s d = map (enc2 L) (P d) \<and> gm_get (sourceVersions s) d = Some v \<and>
        gm_get (trusted_shares True me s valid) d = Some (Some (peval (P d) (AddressToFr L me)))) \<and>
     (\<exists>a. GetActiveVersion ks = Some a \<and> MasterPublicKey (objs ks a) = Some (enc2 L (peval f 0)))"

text \<open>The combination of the polynomials of the dealers \<open>R\<close>, at a point.\<close>

definition reshared :: "('f :: field, 'g1, 'g2, 'gt) lib \<Rightarrow> (address \<Rightarrow> 'f list) \<Rightarrow> address list \<Rightarrow> 'f \<Rightarrow> 'f" where
  "reshared L P R x = (\<Sum>d\<leftarrow>R. ComputeLagrangeCoefficient L d R * peval (P d) x)"

lemma reshared_zero:
  assumes "distinct (map (AddressToFr L) R)" "length f \<le> length R"
    "\<And>d. d \<in> set R \<Longrightarrow> P d \<noteq> [] \<and> hd (P d) = peval f (AddressToFr L d)"
  shows "reshared L P R 0 = peval f 0"
proof -
  have "peval (P d) 0 = peval f (AddressToFr L d)" if "d \<in> set R" for d using assms(3) [OF that] by (cases "P d") auto
  then show ?thesis
    unfolding reshared_def lagrange_interpolates [OF assms(1,2), symmetric] by (intro sum_list_cong) simp
qed

text \<open>Such a node finalises; its share is the combination at its own point.\<close>

lemma finalize_key_honest:
  assumes L: "curve_laws (x_lib X)" and dealers: "honest_dealers (x_lib X) agreed hs P f v m"
    and node: "honest_receiver (x_lib X) P f v me ks s valid agreed R"
    and t: "ops \<noteq> []" "CalculateThreshold (int (length ops)) \<le> int (length R)" "m \<le> length R"
    and order: "\<forall>m. mset (order m) = mset m"
  shows "\<exists>k. finalize_key X ks me order fetch (NewReshare me ops) t ops s valid agreed hs = Inr (k, v) \<and>
    PrivateShare k = Some (reshared (x_lib X) P R (AddressToFr (x_lib X) me)) \<and>
    MasterPublicKey k = Some (enc2 (x_lib X) (peval f 0))"
proof -
  let ?L = "x_lib X" and ?t = "CalculateThreshold (int (length ops))"
  note G = curve_lawsD [OF L]
  have d: "\<And>d. d \<in> set agreed \<Longrightarrow> P d \<noteq> [] \<and> gm_get hs d = Some (HashReshareCommitment ?L (map (enc2 ?L) (P d)) v) \<and>
      hd (P d) = peval f (AddressToFr ?L d)" "v \<noteq> 0" "length f \<le> m" "distinct (map (AddressToFr ?L) agreed)"
    using dealers unfolding honest_dealers_def by blast+
  obtain a where n: "R = filter (\<lambda>d. stored_commitments s d \<noteq> []) agreed"
    "\<And>d. d \<in> set R \<Longrightarrow> stored_commitments s d = map (enc2 ?L) (P d) \<and> gm_get (sourceVersions s) d = Some v \<and>
       gm_get (trusted_shares True me s valid) d = Some (Some (peval (P d) (AddressToFr ?L me)))"
    "GetActiveVersion ks = Some a" "MasterPublicKey (objs ks a) = Some (enc2 ?L (peval f 0))"
    using node unfolding honest_receiver_def by blast
  have t0: "0 < ?t" using t(1) by (cases ops) (simp_all add: CalculateThreshold_def)
  have R: "R \<noteq> []" "set R \<subseteq> set agreed" "length R \<le> length agreed" using t0 n(1) t(2) by auto
  have dist: "distinct (map (AddressToFr ?L) R)" unfolding n(1) using d(4) by (auto simp: distinct_map intro: inj_on_subset)
  have sel: "select_dealers ?L order ?t s agreed hs = Inr (R, v)"
    by (rule select_dealers_honest [OF n(1) _ _ d(2) t0 t(2) order]) (use d(1) n(2) in blast)+
  obtain final where g: "gather_shares X me (NewReshare me ops) s fetch (trusted_shares True me s valid) R = Inr (R, final)"
    "\<And>d. d \<in> set R \<Longrightarrow> gm_get final d = Some (Some (peval (P d) (AddressToFr ?L me)))"
    using gather_shares_trusted [of R "trusted_shares True me s valid" "\<lambda>d. Some (peval (P d) (AddressToFr ?L me))"] n(2) by blast
  obtain k where k: "ComputeNewKeyShare ?L (NewReshare me ops) R final = Inr k"
    "PrivateShare k = Some (reshared ?L P R (AddressToFr ?L me))"
    using ComputeNewKeyShare_eval [OF L R(1), of final P "NewReshare me ops"] g(2) G(5)
    by (auto simp: NewReshare_def EvaluatePolynomial_def fr_laws_def reshared_def)
  have "\<exists>c cs. gm_get (commitments_by_dealer s R) d = Some (c # cs) \<and> den2 ?L c (hd (P d))" if "d \<in> set R" for d
    using d(1) n(2) that R(2) den2_intros(1) [OF G(2)] by (cases "P d") (auto simp: commitments_by_dealer_get)
  moreover have "length f \<le> length R" using d(3) t(3) by simp
  then have "(\<Sum>d\<leftarrow>R. ComputeLagrangeCoefficient ?L d R * hd (P d)) = peval f 0"
    using lagrange_interpolates [OF dist, of f] d(1) R(2) by (metis (no_types, lifting) subsetD sum_list_cong)
  ultimately have "ValidateReshareMasterPublicKey ?L R (commitments_by_dealer s R) (Some (enc2 ?L (peval f 0))) = Inr ()"
    using validate_iff [OF G(2) R(1), of "commitments_by_dealer s R" "\<lambda>d. hd (P d)"] by simp
  then show ?thesis
    using sel g(1) k t(2) n(3,4) R(3) by (simp add: finalize_key_def refreshed_version_def)
qed

text \<open>One share that is off by \<open>e\<close> moves the recovered secret by a multiple of \<open>e\<close>, which is not 0 if \<open>e\<close> is not.\<close>

lemma lag_nonzero: "\<forall>y \<in> set xs. y \<noteq> 0 \<Longrightarrow> lag xs x \<noteq> 0"
  by (auto simp: lag_def prod_list_zero_iff)

lemma sum_list_one_off:
  assumes "distinct xs" "x \<in> set xs"
  shows "(\<Sum>j\<leftarrow>xs. g j * (h j + (if j = x then e else 0))) = (\<Sum>j\<leftarrow>xs. g j * h j) + g x * (e :: 'f :: field)"
proof -
  have "(\<Sum>j\<leftarrow>xs. g j * (h j + (if j = x then e else 0))) = (\<Sum>j\<in>set xs. g j * h j + (if j = x then g j * e else 0))"
    unfolding sum_list_distinct_conv_sum_set [OF assms(1)] by (intro sum.cong) (auto simp: algebra_simps)
  also have "\<dots> = (\<Sum>j\<in>set xs. g j * h j) + g x * e" using assms(2) by (simp add: sum.distrib)
  finally show ?thesis unfolding sum_list_distinct_conv_sum_set [OF assms(1)] .
qed

lemma RecoverSecret_one_off:
  assumes "distinct (map (AddressToFr L) nodes)" "length F \<le> length nodes" "\<forall>j \<in> set nodes. AddressToFr L j \<noteq> 0" "x \<in> set nodes"
    and share: "\<And>j. j \<in> set nodes \<Longrightarrow> share j = peval F (AddressToFr L j) + (if j = x then e else 0)"
  shows "RecoverSecret L (map (\<lambda>j. (j, share j)) nodes) = Inr (peval F 0) \<longleftrightarrow> peval F 0 \<noteq> 0 \<and> e = 0"
proof -
  let ?g = "\<lambda>j. ComputeLagrangeCoefficient L j nodes" and ?sh = "map (\<lambda>j. (j, share j)) nodes"
  have keys: "gm_keys ?sh = nodes" by (simp add: o_def)
  have dist: "distinct nodes" using assms(1) by (simp add: distinct_map)
  have "fold (\<lambda>(a, s) acc. acc + ?g a * s) ?sh 0 = (\<Sum>j\<leftarrow>nodes. ?g j * share j)"
    using fold_add_sum_list [of "\<lambda>(a, s). ?g a * s" ?sh 0] by (simp add: case_prod_unfold o_def)
  also have "\<dots> = (\<Sum>j\<leftarrow>nodes. ?g j * (peval F (AddressToFr L j) + (if j = x then e else 0)))"
    by (intro sum_list_cong) (simp add: share)
  also have "\<dots> = peval F 0 + ?g x * e"
    unfolding sum_list_one_off [OF dist assms(4)] using lagrange_interpolates [OF assms(1,2)] by simp
  finally have R: "RecoverSecret L ?sh = (if peval F 0 + ?g x * e = 0 then Inl (Errorf ''secret cannot be zero, this should not happen'')
      else Inr (peval F 0 + ?g x * e))"
    unfolding RecoverSecret_def Let_def keys by simp
  have "?g x \<noteq> 0" using ComputeLagrangeCoefficient_lag [OF assms(1,4)] lag_nonzero [of "map (AddressToFr L) nodes"] assms(3) by simp
  then show ?thesis unfolding R by auto
qed

text \<open>
  C27. A missing commitment splits a round, undetected. The agreed dealers are honest and the same for
  every node, and every node has received at least threshold many of their contributions, which the code
  takes for enough; but one node has received those of other dealers than the rest, because a commitment
  has not reached it. Then all the nodes finalise, each with the validation of the master public key
  passed, and carry that key on with the same source version; but the shares of threshold many or more
  of them, that node included, recover the key's secret only if the combinations of the two sets of
  dealers happen to agree at its point.
\<close>

theorem missing_commitment_splits_round:
  assumes L: "curve_laws (x_lib X)" and ops: "ops \<noteq> []" "T = CalculateThreshold (int (length ops))"
    and dealers: "honest_dealers (x_lib X) agreed hs P f v (nat T)"
    and nodes: "distinct (map (AddressToFr (x_lib X)) nodes)" "T \<le> int (length nodes)" "\<forall>j \<in> set nodes. AddressToFr (x_lib X) j \<noteq> 0"
    and x: "x \<in> set nodes" "honest_receiver (x_lib X) P f v x (ks x) (session x) (valid x) agreed R'" "T \<le> int (length R')"
    and others: "\<forall>j \<in> set nodes. j \<noteq> x \<longrightarrow> honest_receiver (x_lib X) P f v j (ks j) (session j) (valid j) agreed R"
      "T \<le> int (length R)" "set R \<subseteq> set agreed" "distinct R"
    and order: "\<forall>j. \<forall>m. mset (order j m) = mset m"
  shows "\<exists>k. (\<forall>j \<in> set nodes. MasterPublicKey (k j) = Some (enc2 (x_lib X) (peval f 0)) \<and>
      finalize_key X (ks j) j (order j) (fetch j) (NewReshare j ops) t ops (session j) (valid j) agreed hs = Inr (k j, v)) \<and>
    (RecoverSecret (x_lib X) (map (\<lambda>j. (j, the (PrivateShare (k j)))) nodes) = Inr (peval f 0) \<longleftrightarrow>
       peval f 0 \<noteq> 0 \<and> reshared (x_lib X) P R (AddressToFr (x_lib X) x) = reshared (x_lib X) P R' (AddressToFr (x_lib X) x))"
proof -
  let ?L = "x_lib X" and ?R = "\<lambda>j. if j = x then R' else R"
  have "\<exists>k. finalize_key X (ks j) j (order j) (fetch j) (NewReshare j ops) t ops (session j) (valid j) agreed hs = Inr (k, v) \<and>
      PrivateShare k = Some (reshared ?L P (?R j) (AddressToFr ?L j)) \<and> MasterPublicKey k = Some (enc2 ?L (peval f 0))"
    if "j \<in> set nodes" for j
  proof -
    have "honest_receiver ?L P f v j (ks j) (session j) (valid j) agreed (?R j)" "T \<le> int (length (?R j))"
      using that x others by auto
    then show ?thesis using finalize_key_honest [OF L dealers _ ops(1), where R = "?R j"] ops(2) order by simp
  qed
  then obtain k where k: "\<And>j. j \<in> set nodes \<Longrightarrow>
      finalize_key X (ks j) j (order j) (fetch j) (NewReshare j ops) t ops (session j) (valid j) agreed hs = Inr (k j, v) \<and>
      PrivateShare (k j) = Some (reshared ?L P (?R j) (AddressToFr ?L j)) \<and> MasterPublicKey (k j) = Some (enc2 ?L (peval f 0))" by metis
  let ?F = "psum (\<lambda>d. ComputeLagrangeCoefficient ?L d R) P R" and ?x = "AddressToFr ?L x"
  let ?e = "reshared ?L P R' ?x - reshared ?L P R ?x"
  have F: "peval ?F z = reshared ?L P R z" for z by (simp add: peval_psum reshared_def)
  have d: "P d \<noteq> [] \<and> length (P d) \<le> nat T \<and> hd (P d) = peval f (AddressToFr ?L d)" if "d \<in> set R" for d
    using dealers others(3) that unfolding honest_dealers_def by blast
  have "length ?F \<le> nat T" using d by (intro length_psum) blast
  then have len: "length ?F \<le> length nodes" using nodes(2) by linarith
  have "inj_on (AddressToFr ?L) (set agreed)" using dealers unfolding honest_dealers_def by (simp add: distinct_map)
  then have dist: "distinct (map (AddressToFr ?L) R)" using others(3,4) by (auto simp: distinct_map intro: inj_on_subset)
  have "length f \<le> nat T" using dealers unfolding honest_dealers_def by blast
  then have "length f \<le> length R" using others(2) by linarith
  then have F0: "peval ?F 0 = peval f 0" unfolding F using reshared_zero [OF dist] d by blast
  have "RecoverSecret ?L (map (\<lambda>j. (j, the (PrivateShare (k j)))) nodes) = Inr (peval ?F 0) \<longleftrightarrow> peval ?F 0 \<noteq> 0 \<and> ?e = 0"
    by (rule RecoverSecret_one_off [OF nodes(1) len nodes(3) x(1)]) (use k F in auto)
  then have "RecoverSecret ?L (map (\<lambda>j. (j, the (PrivateShare (k j)))) nodes) = Inr (peval f 0) \<longleftrightarrow>
      peval f 0 \<noteq> 0 \<and> reshared ?L P R ?x = reshared ?L P R' ?x"
    unfolding F0 by auto
  with k show ?thesis by blast
qed

subsection \<open>A concrete round, and one that splits\<close>

text \<open>
  Four operators with the threshold 3 hold shares of 5 on the polynomial \<open>5 + 2 x + x\<^sup>2\<close> of
  version 6 and re-share them; dealer \<open>d\<close> uses \<open>f d + d x + (d\<^sup>3 + 1) x\<^sup>2\<close>. The session of a node
  has the commitments of the dealers \<open>ds\<close>.
\<close>

definition demo_source :: "gf list" where
  "demo_source = [5, 2, 1]"

definition demo_poly :: "address \<Rightarrow> gf list" where
  "demo_poly d = (let x = gf_of_int (uint d) in [peval demo_source x, x, x * x * x + 1])"

definition demo_ops :: "OperatorSetPeer list" where
  "demo_ops = map mock_op [1, 2, 3, 4]"

definition demo_ext :: "(gf, gf, gf, gf, unit) ext" where
  "demo_ext =
     \<lparr>x_lib = mock_lib,
      x_merkle = \<lparr>mt_NewUsing = (\<lambda>_. None), mt_Root = (\<lambda>_. []), mt_GenerateProof = (\<lambda>_ _. None), mt_VerifyProofUsing = (\<lambda>_ _ _ _. None)\<rparr>,
      x_sig = mock_sig, x_hex = (\<lambda>_. []), x_SignMessage = Some, x_unjson_share = (\<lambda>_. None)\<rparr>"

definition demo_keys :: "gf KeyStore" where
  "demo_keys =
     \<lparr>objs = (\<lambda>_. \<lparr>Version = 6, PrivateShare = Some 1, Commitments = [], MasterPublicKey = Some (enc2 mock_lib 5), IsActive = True,
        ParticipantIDs = [1, 2, 3, 4]\<rparr>),
      keyVersions = [0], activeVersion = Some 0, pendingVersion = None, poisoned = []\<rparr>"

definition demo_session :: "address list \<Rightarrow> gf ProtocolSession" where
  "demo_session ds = (new_session 0 ''reshare'' demo_ops 7)
     \<lparr>commitments := map (\<lambda>d. (d, map (enc2 mock_lib) (demo_poly d))) ds,
      sourceVersions := map (\<lambda>d. (d, 6)) ds, verifiedOperators := map (\<lambda>d. (d, True)) ds\<rparr>"

definition demo_valid :: "address list \<Rightarrow> address \<Rightarrow> (address, gf option) gomap" where
  "demo_valid ds j = map (\<lambda>d. (d, Some (peval (demo_poly d) (gf_of_int (uint j))))) ds"

definition demo_hashes :: "(address, bytes) gomap" where
  "demo_hashes = map (\<lambda>d. (d, HashReshareCommitment mock_lib (map (enc2 mock_lib) (demo_poly d)) 6)) [1, 2, 3, 4]"

definition demo_finalize :: "address list \<Rightarrow> address \<Rightarrow> (err \<times> int64 option) + (gf KeyShareVersion \<times> int64)" where
  "demo_finalize ds j =
     finalize_key demo_ext demo_keys j id (\<lambda>_. []) (NewReshare j demo_ops) 7 demo_ops (demo_session ds) (demo_valid ds j)
       [1, 2, 3, 4] demo_hashes"

lemma map_of_const: "gm_get (map (\<lambda>d. (d, g d)) ds) d = (if d \<in> set ds then Some (g d) else None)"
  by (induction ds) auto

lemma demo_stored: "stored_commitments (demo_session ds) d = (if d \<in> set ds then map (enc2 mock_lib) (demo_poly d) else [])"
  by (simp add: stored_commitments_def demo_session_def map_of_const)

lemma demo_versions: "gm_get (sourceVersions (demo_session ds)) d = (if d \<in> set ds then Some 6 else None)"
  by (simp add: demo_session_def map_of_const)

lemma hd_demo_poly: "hd (demo_poly d) = peval demo_source (gf_of_int (uint d))"
  by (simp add: demo_poly_def Let_def)

lemma demo_trusted:
  assumes "distinct ds" "d \<in> set ds"
  shows "gm_get (trusted_shares True j (demo_session ds) (demo_valid ds j)) d = Some (Some (peval (demo_poly d) (gf_of_int (uint j))))"
proof -
  have "gm_get (fold (\<lambda>(addr, share) trusted. if vs addr then gm_set trusted addr share else trusted) (map (\<lambda>d. (d, g d)) xs) m) d =
      (if d \<in> set xs \<and> vs d then Some (g d) else gm_get m d)" for vs g xs m
    by (induction xs arbitrary: m) auto
  from this [of "\<lambda>a. gm_get (gm_set (verifiedOperators (demo_session ds)) j True) a = Some True"
      "\<lambda>d. Some (peval (demo_poly d) (gf_of_int (uint j)))" ds "[]"] assms
  show ?thesis
    unfolding trusted_shares_def trustedDealerIDs_def demo_valid_def by (simp add: demo_session_def map_of_const)
qed

lemma demo_verified: "verified_against mock_lib (NewReshare j demo_ops) (demo_session ds) (demo_valid ds j)"
proof -
  have "verify_commitments mock_lib j (Some (peval (demo_poly d) (gf_of_int (uint j)))) (map (enc2 mock_lib) (demo_poly d))" for d
    by (rule mock_verify [OF _ refl]) (simp add: demo_poly_def Let_def)
  then show ?thesis by (auto simp: verified_against_def demo_valid_def demo_stored VerifyNewShare_def NewReshare_def)
qed

lemma demo_dealers: "honest_dealers mock_lib [1, 2, 3, 4] demo_hashes demo_poly demo_source 6 3"
proof -
  have "gm_get demo_hashes d = Some (HashReshareCommitment mock_lib (map (enc2 mock_lib) (demo_poly d)) 6)" if "d \<in> set [1, 2, 3, 4]" for d
    using that unfolding demo_hashes_def map_of_const by simp
  moreover have "demo_poly d \<noteq> []" "length (demo_poly d) \<le> 3" for d by (simp_all add: demo_poly_def Let_def)
  moreover have "distinct (map (AddressToFr mock_lib) [1, 2, 3, 4])" by (simp add: AddressToFr_mock) code_simp
  moreover have "length demo_source \<le> 3" by (simp add: demo_source_def)
  ultimately show ?thesis
    unfolding honest_dealers_def AddressToFr_mock using hd_demo_poly by (simp del: list.set distinct.simps list.map)
qed

lemma demo_received:
  assumes "ds = [1, 2, 3] \<or> ds = [1, 2, 3, 4]"
  shows "honest_receiver mock_lib demo_poly demo_source 6 j demo_keys (demo_session ds) (demo_valid ds j) [1, 2, 3, 4] ds"
  unfolding honest_receiver_def
proof (intro conjI ballI exI)
  have ne: "demo_poly d \<noteq> []" for d by (simp add: demo_poly_def Let_def)
  show "ds = filter (\<lambda>d. stored_commitments (demo_session ds) d \<noteq> []) [1, 2, 3, 4]" using assms ne by (auto simp: demo_stored)
  have "distinct ds" using assms by auto
  then show "gm_get (trusted_shares True j (demo_session ds) (demo_valid ds j)) d = Some (Some (peval (demo_poly d) (AddressToFr mock_lib j)))"
    if "d \<in> set ds" for d using demo_trusted that unfolding AddressToFr_mock by blast
  show "MasterPublicKey (objs demo_keys 0) = Some (enc2 mock_lib (peval demo_source 0))" by (simp add: demo_keys_def demo_source_def)
  show "GetActiveVersion demo_keys = Some 0" by (simp add: demo_keys_def GetActiveVersion_def)
qed (simp_all add: demo_stored demo_versions)

lemma demo_finalizes:
  assumes "ds = [1, 2, 3] \<or> ds = [1, 2, 3, 4]"
  shows "\<exists>k. demo_finalize ds j = Inr (k, 6)"
proof -
  have l: "x_lib demo_ext = mock_lib" by (simp add: demo_ext_def)
  have "CalculateThreshold (int (length demo_ops)) \<le> int (length ds)" "demo_ops \<noteq> []" "3 \<le> length ds"
    using assms by (auto simp: demo_ops_def CalculateThreshold_def)
  then show ?thesis
    using finalize_key_honest [where X = demo_ext and order = id, unfolded l, OF mock_lib_laws demo_dealers demo_received [OF assms]]
    by (fastforce simp: demo_finalize_def)
qed

text \<open>Nodes 1 and 2 have all four commitments, node 3 has not got that of dealer 4.\<close>

theorem missing_commitment_splits_round_witness:
  "\<exists>k. demo_finalize [1, 2, 3, 4] 1 = Inr (k 1, 6) \<and> demo_finalize [1, 2, 3, 4] 2 = Inr (k 2, 6) \<and> demo_finalize [1, 2, 3] 3 = Inr (k 3, 6) \<and>
     CalculateThreshold (int (length demo_ops)) = 3 \<and> MasterPublicKey (k 3) = Some (enc2 mock_lib 5) \<and>
     RecoverSecret mock_lib (map (\<lambda>j. (j, the (PrivateShare (k j)))) [1, 2, 3]) \<noteq> Inr 5"
proof -
  have l: "x_lib demo_ext = mock_lib" by (simp add: demo_ext_def)
  let ?ds = "\<lambda>j. if j = 3 then [1, 2, 3] else [1, 2, 3, 4] :: address list" and ?x = "AddressToFr mock_lib 3"
  have pts: "distinct (map (AddressToFr mock_lib) [1, 2, 3, 4])" "distinct (map (AddressToFr mock_lib) [1, 2, 3])"
    "\<forall>j \<in> set [1, 2, 3]. AddressToFr mock_lib j \<noteq> 0"
    by (simp add: AddressToFr_mock, code_simp)+
  have T: "3 = CalculateThreshold (int (length demo_ops))" "demo_ops \<noteq> []" by (simp_all add: demo_ops_def CalculateThreshold_def)
  have dealers: "honest_dealers mock_lib [1, 2, 3, 4] demo_hashes demo_poly demo_source 6 (nat 3)" using demo_dealers by simp
  have s0: "peval demo_source 0 = 5" by (simp add: demo_source_def)
  obtain k where k: "\<forall>j \<in> set [1, 2, 3]. MasterPublicKey (k j) = Some (enc2 mock_lib (peval demo_source 0)) \<and>
      finalize_key demo_ext demo_keys j id (\<lambda>_. []) (NewReshare j demo_ops) 7 demo_ops (demo_session (?ds j)) (demo_valid (?ds j) j)
        [1, 2, 3, 4] demo_hashes = Inr (k j, 6)"
    "RecoverSecret mock_lib (map (\<lambda>j. (j, the (PrivateShare (k j)))) [1, 2, 3]) = Inr (peval demo_source 0) \<longleftrightarrow>
       peval demo_source 0 \<noteq> 0 \<and> reshared mock_lib demo_poly [1, 2, 3, 4] ?x = reshared mock_lib demo_poly [1, 2, 3] ?x"
    using missing_commitment_splits_round [where X = demo_ext and order = "\<lambda>_. id" and fetch = "\<lambda>_ _. []" and ks = "\<lambda>_. demo_keys" and
      session = "\<lambda>j. demo_session (?ds j)" and valid = "\<lambda>j. demo_valid (?ds j) j" and x = 3 and nodes = "[1, 2, 3]" and t = 7 and
      R = "[1, 2, 3, 4]" and R' = "[1, 2, 3]", unfolded l, OF mock_lib_laws T(2,1) dealers pts(2) _ pts(3)] demo_received by auto
  note lam = ComputeLagrangeCoefficient_lag [OF pts(1)] ComputeLagrangeCoefficient_lag [OF pts(2)]
  have "reshared mock_lib demo_poly [1, 2, 3, 4] ?x =
      (\<Sum>x\<leftarrow>map gf_of_int [1, 2, 3, 4]. lag (map gf_of_int [1, 2, 3, 4]) x * peval [peval demo_source x, x, x * x * x + 1] (gf_of_int 3))"
    by (simp add: reshared_def lam(1) AddressToFr_mock demo_poly_def Let_def del: peval.simps)
  moreover have "reshared mock_lib demo_poly [1, 2, 3] ?x =
      (\<Sum>x\<leftarrow>map gf_of_int [1, 2, 3]. lag (map gf_of_int [1, 2, 3]) x * peval [peval demo_source x, x, x * x * x + 1] (gf_of_int 3))"
    by (simp add: reshared_def lam(2) AddressToFr_mock demo_poly_def Let_def del: peval.simps)
  moreover have "(\<Sum>x\<leftarrow>map gf_of_int [1, 2, 3, 4]. lag (map gf_of_int [1, 2, 3, 4]) x * peval [peval demo_source x, x, x * x * x + 1] (gf_of_int 3)) \<noteq>
      (\<Sum>x\<leftarrow>map gf_of_int [1, 2, 3]. lag (map gf_of_int [1, 2, 3]) x * peval [peval demo_source x, x, x * x * x + 1] (gf_of_int 3))"
    by code_simp
  ultimately have "RecoverSecret mock_lib (map (\<lambda>j. (j, the (PrivateShare (k j)))) [1, 2, 3]) \<noteq> Inr 5" using k(2) s0 by simp
  then show ?thesis using k(1) T(1) s0 by (intro exI [of _ k]) (simp add: demo_finalize_def)
qed


subsection \<open>What a round does to the keystore\<close>

lemma reshare_deal_keeps_keystore:
  "reshare_deal X P env t tb ops sh v n = (n1, r) \<Longrightarrow> n_keyStore n1 = n_keyStore n"
  by (auto simp: reshare_deal_def Let_def split: sum.splits prod.splits)

text \<open>The keystore after a round that ended with \<open>r\<close>, when the node dealt from version \<open>v\<close>.\<close>

definition round_outcome :: "('s, 'f) INodePersistence \<Rightarrow> int64 \<Rightarrow> 'f KeyStore \<Rightarrow> unit res \<Rightarrow> 'f KeyStore \<Rightarrow> bool" where
  "round_outcome P t ks r ks' \<longleftrightarrow>
     (case r of
        Inl _ \<Rightarrow> ks' = ks \<or>
          (\<exists>a src (m :: ('s, 'f) Node). GetActiveVersion ks = Some a \<and> n_keyStore m = ks \<and>
             ks' = n_keyStore (onMPKValidationAbort P (Version (objs ks a)) src m))
      | Inr _ \<Rightarrow> \<exists>a k. GetActiveVersion ks = Some a \<and> ks' = add_new_version k ks \<and> Version k = t \<and> IsActive k \<and>
          MasterPublicKey k = MasterPublicKey (objs ks a) \<and> MasterPublicKey k \<noteq> None)"

lemma round_outcome_same: "round_outcome P t ks (Inl e) ks"
  by (simp add: round_outcome_def)

lemma finalize_key_version:
  assumes "finalize_key X ks me order fetch r t ops s valid agreed hs = Inr (k, src)" "GetActiveVersion ks = Some a"
  shows "Version k = t \<and> IsActive k \<and> MasterPublicKey k = MasterPublicKey (objs ks a) \<and> MasterPublicKey k \<noteq> None"
  using assms
  by (auto simp: finalize_key_def Let_def refreshed_version_def res_simps split: if_splits sum.splits prod.splits option.splits)

lemma finalize_existing_outcome:
  assumes "finalize_existing X P env resharer t v ops s valid agreed n = (n', r)"
    "GetActiveVersion (n_keyStore n) = Some a" "v = Version (objs (n_keyStore n) a)"
  shows "round_outcome P t (n_keyStore n) r (n_keyStore n')"
proof (cases agreed)
  case (Inl e)
  then show ?thesis using assms(1) by (auto simp: finalize_existing_def round_outcome_def)
next
  case (Inr dh)
  obtain ds hs where dh: "dh = (ds, hs)" by (cases dh)
  let ?f = "finalize_key X (n_keyStore n) (n_addr n) (e_order env) (e_fetch env) resharer t ops s valid ds hs"
  consider e where "?f = Inl (e, None)" | e src where "?f = Inl (e, Some src)" | k src where "?f = Inr (k, src)"
    by (metis old.sum.exhaust option.exhaust prod.collapse)
  then show ?thesis
  proof cases
    case 1
    then show ?thesis using assms(1) by (auto simp: finalize_existing_def Inr dh round_outcome_def)
  next
    case (2 e src)
    then have "n' = onMPKValidationAbort P v src n" "r = Inl e" using assms(1) by (simp_all add: finalize_existing_def Inr dh)
    then show ?thesis using assms(2,3) by (simp add: round_outcome_def) blast
  next
    case (3 k src)
    obtain n1 r1 where c: "commit_version P ''failed to persist reshare key share version'' k n = (n1, r1)" by force
    show ?thesis
    proof (cases r1)
      case (Inl e)
      with commit_version_error c have "n_keyStore n1 = n_keyStore n" by blast
      moreover have "n' = n1" "r = Inl e" using assms(1) 3 c Inl by (simp_all add: finalize_existing_def \<open>agreed = Inr dh\<close> dh)
      ultimately show ?thesis by (simp add: round_outcome_def)
    next
      case (Inr u)
      then have "n_keyStore n1 = add_new_version k (n_keyStore n)"
        using c by (auto simp: commit_version_def split: prod.splits sum.splits)
      moreover have "n' = recordSuccessfulReshare P src n1" "r = Inr ()"
        using assms(1) 3 c Inr by (simp_all add: finalize_existing_def \<open>agreed = Inr dh\<close> dh)
      ultimately show ?thesis
        using assms(2) finalize_key_version [OF 3 assms(2)] by (simp add: round_outcome_def) blast
    qed
  qed
qed


text \<open>A round in which nothing arrives: the node deals, times out waiting for shares, and ends its session.\<close>

definition demo_node :: "(gf MemoryPersistence, gf) Node" where
  "demo_node =
     \<lparr>n_OperatorAddress = ''0x01'', n_keyStore = demo_keys, n_persistence = NewMemoryPersistence,
      n_abortTracker = \<lparr>at_TrackedSourceVersion = 0, at_ConsecutiveAborts = 0\<rparr>, n_addr = 1, n_ChainID = 31337,
      n_sessions = empty_registry, n_retained = \<lparr>retainedGeneratedShares = [], retainedGeneratedShareOrder = []\<rparr>\<rparr>"

definition silent_env :: "gf round_env" where
  "silent_env =
     \<lparr>e_listed = Inr \<lparr>OperatorSetId = 0, AVSAddress = 0, Peers = demo_ops\<rparr>, e_query = None, e_now = 0,
      e_rand = (\<lambda>i. Some (of_nat i)), e_share_ticks = [], e_commitment_ticks = [], e_ack_ticks = [],
      e_verification_ticks = [], e_submits = [], e_finalize_now = 0, e_attempts = [], e_fetch = (\<lambda>_. []), e_order = id,
      e_mpk_answer = (\<lambda>_. None), e_mpk_arrival = id, e_mpk_order = id\<rparr>"


lemma silent_deal:
  "\<exists>n1 resharer session out. reshare_deal demo_ext memory_persistence silent_env 7 0 demo_ops 1 6 demo_node =
     (n1, Inr (resharer, session, out)) \<and> Operators session = demo_ops"
proof -
  have t: "nat (CalculateThreshold (int (length demo_ops))) = 3" by code_simp
  have g: "\<exists>r sh cs. GenerateNewShares (e_rand silent_env) (Some 1) 3 mock_lib (NewReshare 1 demo_ops) = Inr (r, sh, cs)"
    by (simp add: GenerateNewShares_def silent_env_def commitments_to_enc2 [OF curve_lawsD(2) [OF mock_lib_laws]] Let_def
        upt_rec numeral_3_eq_3 res_simps)
  have c: "createSession 0 ''reshare'' (map Some demo_ops) 7 (r :: gf registry) =
      (notify_waiters 7 (put_session (new_session 0 ''reshare'' demo_ops 7) r), Inr (new_session 0 ''reshare'' demo_ops 7))" for r
  proof -
    have "validateOperatorSetNoDuplicates (map Some demo_ops) = Inr ()" by code_simp
    then show ?thesis by (simp add: createSession_def Let_def comp_def)
  qed
  have p: "\<exists>n1. persist_session demo_ext memory_persistence s n = (n1, Inr ())" if "shares s = []"
    for s and n :: "(gf MemoryPersistence, gf) Node"
    using that by (simp add: persist_session_def saveSession_def toPersistenceState_def memory_persistence_def mem_defs log_error_def
        Let_def split: prod.splits sum.splits)
  have o: "Operators (fst (HandleReceivedShare a sh s)) = Operators s" "Operators (fst (HandleReceivedCommitment a cs v s)) = Operators s"
    "Operators (SetMyGeneratedShares m s) = Operators s" for a sh cs v m and s :: "gf ProtocolSession"
    by (simp_all add: HandleReceivedShare_def HandleReceivedCommitment_def SetMyGeneratedShares_def Let_def)
  obtain r sh cs where g': "GenerateNewShares (e_rand silent_env) (Some 1) 3 mock_lib (NewReshare 1 demo_ops) = Inr (r, sh, cs)"
    using g by blast
  let ?s = "new_session 0 ''reshare'' demo_ops 7 :: gf ProtocolSession"
  have "shares (?s\<lparr>TriggerBlockNumber := 0\<rparr>) = []" "Operators ?s = demo_ops" by (simp_all add: new_session_def)
  then obtain n1 where "persist_session demo_ext memory_persistence (?s\<lparr>TriggerBlockNumber := 0\<rparr>)
      (demo_node\<lparr>n_sessions := notify_waiters 7 (put_session ?s empty_registry)\<rparr>) = (n1, Inr ())" using p by blast
  moreover have "x_lib demo_ext = mock_lib" "n_addr demo_node = 1" "n_sessions demo_node = empty_registry" "e_now silent_env = 0"
    by (simp_all add: demo_ext_def demo_node_def silent_env_def)
  ultimately show ?thesis using g' \<open>Operators ?s = demo_ops\<close> by (simp add: reshare_deal_def t c o Let_def)
qed

lemma silent_round:
  "\<exists>n' out. RunReshareAsExistingOperator demo_ext memory_persistence silent_env 7 0 demo_node =
     Some (n', out, Inl (Errorf ''timeout waiting for shares''))"
proof -
  have p: "reshare_prepare silent_env demo_node = Inr (demo_ops, 0, 1, 6)"
    by (simp add: reshare_prepare_def silent_env_def demo_node_def demo_keys_def demo_ops_def mock_op_def fetchCurrentOperators_def
        countNewOperatorsInSet_def GetActiveVersion_def is_operator_def validateReshareOperatorOverlap_def CalculateThreshold_def
        GetActivePrivateShare_def res_simps Let_def validateOperatorSetNoDuplicates_def)
  obtain n1 r s out where d: "reshare_deal demo_ext memory_persistence silent_env 7 0 demo_ops 1 6 demo_node = (n1, Inr (r, s, out))"
    "Operators s = demo_ops" using silent_deal by blast
  have "length demo_ops = 4" "CalculateThreshold 4 = 3" by code_simp+
  with p d show ?thesis
    by (simp add: RunReshareAsExistingOperator_def collect_contributions_def waitForN_def clamp_def Let_def silent_env_def)
qed


end
