(* ===== verification/Dkg_Round.thy ===== *)
theory Dkg_Round
  imports Protocol_Round
begin

text \<open>
  The key generation round of a node (\<open>pkg/node/node.go\<close>, \<open>RunDKG\<close>) and the signing of
  application ids with the resulting key (\<open>SignAppID\<close>). The theorems: nodes that finalise on the same
  dealers, each of which committed to a polynomial of the right length, hold a sharing of one secret
  under its master public key, whoever the dealers were; dealers with fewer commitments break this
  on every node unnoticed; and a failed round leaves the keystore alone.
\<close>

subsection \<open>Finalisation\<close>

text \<open>Participants, commitments and shares, in the order of the operators.\<close>

definition dkg_participants ::
  "OperatorSetPeer list \<Rightarrow> (address, 'f option) gomap \<Rightarrow> (address, G2Point list) gomap \<Rightarrow>
   address list \<times> G2Point list list \<times> (address, 'f option) gomap" where
  "dkg_participants operators trustedShares receivedCommitments =
     fold (\<lambda>op (participantIDs, allCommitments, finalShares).
         case (gm_get trustedShares (OperatorAddress op), gm_get receivedCommitments (OperatorAddress op)) of
           (Some share, Some comm) \<Rightarrow>
             (participantIDs @ [OperatorAddress op], allCommitments @ [comm], gm_set finalShares (OperatorAddress op) share)
         | _ \<Rightarrow> (participantIDs, allCommitments, finalShares)) operators ([], [], [])"

definition non_nil :: "address \<times> 'f option \<Rightarrow> (address \<times> 'f) res" where
  "non_nil p = (case snd p of None \<Rightarrow> Inl (Panic ''nil pointer dereference'') | Some x \<Rightarrow> Inr (fst p, x))"

definition dkg_finalize ::
  "('f :: field, 'g1, 'g2, 'gt) lib \<Rightarrow> 'f DKG \<Rightarrow> int64 \<Rightarrow> OperatorSetPeer list \<Rightarrow> (address, 'f option) gomap \<Rightarrow>
   (address, G2Point list) gomap \<Rightarrow> G2Point list \<Rightarrow> 'f KeyShareVersion res" where
  "dkg_finalize L d sessionTimestamp operators trustedShares receivedCommitments myCommitments =
     (let (participantIDs, allCommitments, finalShares) = dkg_participants operators trustedShares receivedCommitments in
      if int (length participantIDs) < CalculateThreshold (int (length operators))
      then Inl (Errorf ''insufficient trusted dealers for DKG finalize'')
      else bind_res (map_res non_nil finalShares) (\<lambda>finalShares.
        let keyVersion = (FinalizeKeyShare L d finalShares allCommitments participantIDs)\<lparr>Version := sessionTimestamp\<rparr>;
            keyVersion1 = (case Commitments keyVersion of
                [] \<Rightarrow> keyVersion
              | mpk # _ \<Rightarrow> keyVersion\<lparr>MasterPublicKey := Some mpk\<rparr>)
        in Inr (keyVersion1\<lparr>Commitments := myCommitments\<rparr>)))"

subsection \<open>The round\<close>

text \<open>The session with this node's own share and commitments, and the messages to the others.\<close>

definition dkg_deal ::
  "('f :: field, 'g1, 'g2, 'gt, 't) ext \<Rightarrow> ('s, 'f) INodePersistence \<Rightarrow> 'f round_env \<Rightarrow> int64 \<Rightarrow> OperatorSetPeer list \<Rightarrow>
   ('s, 'f) Node \<Rightarrow> ('s, 'f) Node \<times> ('f DKG \<times> 'f ProtocolSession \<times> G2Point list \<times> ('f, 't) outbound list) res" where
  "dkg_deal X P env sessionTimestamp operators n =
     (let me = n_addr n; threshold = nat (CalculateThreshold (int (length operators))) in
      case createSession (e_now env) ''dkg'' (map Some operators) sessionTimestamp (n_sessions n) of
        (r, Inl e) \<Rightarrow> (n\<lparr>n_sessions := r\<rparr>, Inl (Wrapf ''failed to create DKG session'' e))
      | (r, Inr session) \<Rightarrow>
      (case persist_session X P session (n\<lparr>n_sessions := r\<rparr>) of
        (n1, Inl e) \<Rightarrow> (end_session P sessionTimestamp n1, Inl e)
      | (n1, Inr _) \<Rightarrow>
          if \<not> is_operator operators me
          then (end_session P sessionTimestamp n1, Inl (Errorf ''this operator not found in operator set''))
          else case DKG_GenerateShares (e_rand env) (x_lib X) (NewDKG me threshold operators) of
            Inl e \<Rightarrow> (end_session P sessionTimestamp n1, Inl e)
          | Inr (d, newShares, cs) \<Rightarrow>
              let session1 = fst (HandleReceivedCommitment me cs 0 (fst (HandleReceivedShare me (gm_get newShares me) session)));
                  sends = map (\<lambda>op. SendShare op (gm_get newShares (OperatorAddress op)))
                    (filter (\<lambda>op. OperatorAddress op \<noteq> me) operators)
              in (n1, Inr (d, session1, cs, BroadcastCommitments operators cs 0 # sends))))"

definition dkg_collect ::
  "('f, 'g1, 'g2, 'gt) lib \<Rightarrow> address \<Rightarrow> 'f round_env \<Rightarrow> 'f ProtocolSession \<Rightarrow> 'f ProtocolSession res" where
  "dkg_collect L me env session =
     (let session1 = after_ticks L me (e_share_ticks env) session;
          session2 = after_ticks L me (e_commitment_ticks env) session1 in
      bind_res (waitForShares (sharesCompleteChan session1)) (\<lambda>_.
      bind_res (waitForCommitments (commitmentsCompleteChan session2)) (\<lambda>_. Inr session2)))"

definition RunDKG ::
  "('f :: field, 'g1, 'g2, 'gt, 't) ext \<Rightarrow> ('s, 'f) INodePersistence \<Rightarrow> 'f round_env \<Rightarrow> int64 \<Rightarrow> ('s, 'f) Node \<Rightarrow>
   ('s, 'f) Node \<times> ('f, 't) outbound list \<times> unit res" where
  "RunDKG X P env sessionTimestamp n =
     (let L = x_lib X; me = n_addr n in
      case wrap_err ''failed to fetch operators'' (fetchCurrentOperators (e_listed env)) of
        Inl e \<Rightarrow> (n, [], Inl e)
      | Inr operators \<Rightarrow>
      (case dkg_deal X P env sessionTimestamp operators n of
        (n1, Inl e) \<Rightarrow> (n1, [], Inl e)
      | (n1, Inr (d, session, cs, out1)) \<Rightarrow>
      (case dkg_collect L me env session of
        Inl e \<Rightarrow> (end_session P sessionTimestamp n1, out1, Inl e)
      | Inr session1 \<Rightarrow>
      (case persist_session X P (session1\<lparr>Phase := 2\<rparr>) n1 of
        (n2, Inl e) \<Rightarrow> (end_session P sessionTimestamp n2, out1, Inl e)
      | (n2, Inr _) \<Rightarrow>
      let session2 = session1\<lparr>Phase := 2\<rparr>;
          validShares = valid_shares (DKG_VerifyShare L d) (shares session2) (commitments session2);
          out2 = acknowledgements X me sessionTimestamp operators validShares (commitments session2);
          session3 = after_ticks L me (e_ack_ticks env) session2 in
      (case waitForAcks session2 me (CalculateThreshold (int (length operators))) (snapshots L me (e_ack_ticks env) session2) of
        Inl e \<Rightarrow> (end_session P sessionTimestamp n2, out1 @ out2, Inl (Wrapf ''insufficient acknowledgements'' e))
      | Inr _ \<Rightarrow>
      (case persist_session X P (session3\<lparr>Phase := 3\<rparr>) n2 of
        (n3, Inl e) \<Rightarrow> (end_session P sessionTimestamp n3, out1 @ out2, Inl e)
      | (n3, Inr _) \<Rightarrow>
      (case publish_acks X me operators sessionTimestamp (Inr (cs, HashCommitment L cs)) (e_submits env) (session3\<lparr>Phase := 3\<rparr>) of
        Inl e \<Rightarrow> (end_session P sessionTimestamp n3, out1 @ out2, Inl e)
      | Inr out3 \<Rightarrow>
          let session4 = after_ticks L me (e_verification_ticks env) (session3\<lparr>Phase := 3\<rparr>) in
          (case dkg_finalize L d sessionTimestamp operators (trusted_shares True me session4 validShares)
                  (commitments session4) cs of
             Inl e \<Rightarrow> (end_session P sessionTimestamp n3, out1 @ out2 @ out3, Inl e)
           | Inr k \<Rightarrow>
               (case commit_version P ''failed to persist key share version'' k n3 of
                  (n4, r) \<Rightarrow> (end_session P sessionTimestamp n4, out1 @ out2 @ out3, r))))))))))"

subsection \<open>Signing application ids\<close>

definition signAppIDWithVersion ::
  "('f, 'g1, 'g2, 'gt) lib \<Rightarrow> string \<Rightarrow> 'f KeyShareVersion option \<Rightarrow> G1Point res" where
  "signAppIDWithVersion L appID keyVersion =
     (case Option.bind keyVersion PrivateShare of
        None \<Rightarrow> Inl (Errorf ''no private share available'')
      | Some privateShare \<Rightarrow>
          bind_res (wrap_err ''HashToG1 failed'' (HashToG1 L appID)) (\<lambda>qID.
          wrap_err ''ScalarMulG1 failed'' (ScalarMulG1 L qID (Some privateShare))))"

definition SignAppID ::
  "('f, 'g1, 'g2, 'gt) lib \<Rightarrow> 'f KeyStore \<Rightarrow> string \<Rightarrow> int64 \<Rightarrow> G1Point res" where
  "SignAppID L ks appID attestationTime =
     (if attestationTime > 0 then
        case GetKeyVersionAtTime ks attestationTime of
          None \<Rightarrow> Inl (Errorf ''no key version found for attestation time'')
        | Some r \<Rightarrow> signAppIDWithVersion L appID (Some (objs ks r))
      else signAppIDWithVersion L appID (map_option (objs ks) (GetActiveVersion ks)))"

subsection \<open>What the participants are\<close>

definition trusted_ids ::
  "OperatorSetPeer list \<Rightarrow> (address, 'f option) gomap \<Rightarrow> (address, G2Point list) gomap \<Rightarrow> address list" where
  "trusted_ids ops tr cs = filter (\<lambda>a. gm_get tr a \<noteq> None \<and> gm_get cs a \<noteq> None) (map OperatorAddress ops)"

lemma dkg_participants_eq:
  assumes "distinct (map OperatorAddress ops)"
  shows "dkg_participants ops tr cs =
    (trusted_ids ops tr cs, map (\<lambda>a. the (gm_get cs a)) (trusted_ids ops tr cs),
     map (\<lambda>a. (a, the (gm_get tr a))) (trusted_ids ops tr cs))"
  using assms
proof (induction ops rule: rev_induct)
  case (snoc op ops)
  have "gm_get (map (\<lambda>a. (a, the (gm_get tr a))) (trusted_ids ops tr cs)) (OperatorAddress op) = None"
    using snoc.prems by (simp add: map_of_eq_None_iff trusted_ids_def image_iff)
  then show ?case
    using snoc by (auto simp: dkg_participants_def trusted_ids_def gm_set_fresh split: option.splits)
qed (simp add: dkg_participants_def trusted_ids_def)

lemma map_res_non_nil:
  assumes "\<And>a. a \<in> set ids \<Longrightarrow> g a = Some (x a)"
  shows "map_res non_nil (map (\<lambda>a. (a, g a)) ids) = Inr (map (\<lambda>a. (a, x a)) ids)"
  using assms by (induction ids) (simp_all add: non_nil_def res_simps)

lemma combine_skips_wrong_length:
  "fold (combine_commitments L t) css combined = fold (combine_commitments L t) (filter (\<lambda>c. length c = t) css) combined"
  by (induction css arbitrary: combined) (simp_all add: combine_commitments_def)

text \<open>
  The key of a node whose participants committed to the polynomials \<open>P\<close>: a share of the sum of all of
  them, but the public key of those with as many coefficients as the threshold, \<open>good\<close>.
\<close>

lemma dkg_finalize_sum:
  assumes L: "curve_laws L" and ops: "distinct (map OperatorAddress ops)" and t: "dkg_threshold d = Suc t"
    and fin: "dkg_finalize L d v ops tr cs own = Inr k"
    and P: "\<And>a. a \<in> set (trusted_ids ops tr cs) \<Longrightarrow> gm_get tr a = Some (Some (peval (P a) x)) \<and>
        commits_to L (the (gm_get cs a)) (P a)"
    and good: "good = filter (\<lambda>a. length (P a) = Suc t) (trusted_ids ops tr cs)" "good \<noteq> []"
  shows "PrivateShare k = Some (peval (psum (\<lambda>_. 1) P (trusted_ids ops tr cs)) x) \<and>
     MasterPublicKey k = Some (enc2 L (peval (psum (\<lambda>_. 1) P good) 0)) \<and>
     Version k = v \<and> IsActive k \<and> Commitments k = own \<and> ParticipantIDs k = trusted_ids ops tr cs"
proof -
  let ?ids = "trusted_ids ops tr cs" and ?c = "\<lambda>a. the (gm_get cs a)" and ?F = "psum (\<lambda>_. 1) P"
  let ?k = "\<lambda>ds. FinalizeKeyShare L d (map (\<lambda>a. (a, peval (P a) x)) ?ids) (map ?c ds) ?ids"
  have parts: "dkg_participants ops tr cs = (?ids, map ?c ?ids, map (\<lambda>a. (a, the (gm_get tr a))) ?ids)"
    using ops by (rule dkg_participants_eq)
  moreover have "map_res non_nil (map (\<lambda>a. (a, the (gm_get tr a))) ?ids) = Inr (map (\<lambda>a. (a, peval (P a) x)) ?ids)"
    by (rule map_res_non_nil) (use P in simp)
  ultimately have k: "k = (case Commitments (?k ?ids) of [] \<Rightarrow> (?k ?ids)\<lparr>Version := v\<rparr>
      | mpk # _ \<Rightarrow> (?k ?ids)\<lparr>Version := v, MasterPublicKey := Some mpk\<rparr>)\<lparr>Commitments := own\<rparr>"
    using fin by (auto simp: dkg_finalize_def Let_def split: if_splits list.splits)
  have "length (?c a) = Suc t \<longleftrightarrow> length (P a) = Suc t" if "a \<in> set ?ids" for a
    using P [OF that] commits_to_length by fastforce
  then have "filter (\<lambda>c. length c = Suc t) (map ?c ?ids) = map ?c good"
    by (simp add: good(1) filter_map o_def cong: filter_cong)
  then have "Commitments (?k ?ids) = Commitments (?k good)"
    using combine_skips_wrong_length [of L "Suc t" "map ?c ?ids"] good t by (auto simp: FinalizeKeyShare_def Let_def)
  also have "\<dots> = map (\<lambda>i. enc2 L (\<Sum>a\<leftarrow>good. P a ! i)) [0..<Suc t]"
    using FinalizeKeyShare_commitments [of L good ?c P d] curve_lawsD(2) [OF L] P t good by (simp add: commits_to_def)
  finally have c: "Commitments (?k ?ids) = map (\<lambda>i. enc2 L (\<Sum>a\<leftarrow>good. P a ! i)) [0..<Suc t]" .
  moreover have "(\<Sum>a\<leftarrow>good. P a ! 0) = peval (?F good) 0"
    unfolding peval_psum mult_1
  proof (rule sum_list_cong)
    show "P a ! 0 = peval (P a) 0" if "a \<in> set good" for a using that good by (cases "P a") auto
  qed
  moreover have "PrivateShare (?k ?ids) = Some (peval (?F ?ids) x)"
    by (simp add: FinalizeKeyShare_share o_def)
  ultimately show ?thesis
    using k by (simp add: upt_rec [of 0] FinalizeKeyShare_def Let_def del: upt_Suc)
qed

text \<open>
  What a set of nodes has to agree on: \<open>same_round\<close> says that each of them finalised, on the dealers
  \<open>ids\<close> with the commitments \<open>C\<close>, and with shares that it verified.
\<close>

definition same_round ::
  "('f :: field, 'g1, 'g2, 'gt) lib \<Rightarrow> address list \<Rightarrow> OperatorSetPeer list \<Rightarrow> int64 \<Rightarrow> address list \<Rightarrow> (address \<Rightarrow> G2Point list) \<Rightarrow>
   (address \<Rightarrow> (address, 'f option) gomap) \<Rightarrow> (address \<Rightarrow> (address, G2Point list) gomap) \<Rightarrow> (address \<Rightarrow> G2Point list) \<Rightarrow>
   (address \<Rightarrow> 'f KeyShareVersion) \<Rightarrow> bool" where
  "same_round L nodes ops v ids C tr cs own k \<longleftrightarrow>
     (\<forall>j \<in> set nodes. \<exists>poly.
        dkg_finalize L ((NewDKG j (nat (CalculateThreshold (int (length ops)))) ops)\<lparr>dkg_poly := poly\<rparr>) v ops (tr j) (cs j) (own j)
          = Inr (k j) \<and>
        trusted_ids ops (tr j) (cs j) = ids \<and>
        (\<forall>a \<in> set ids. gm_get (cs j) a = Some (C a) \<and>
           (\<exists>x. gm_get (tr j) a = Some (Some x) \<and> DKG_VerifyShare L (NewDKG j 0 []) (Some x) (C a))))"

lemma same_round_polynomial:
  assumes L: "curve_laws L" and ops: "distinct (map OperatorAddress ops)" "ops \<noteq> []"
    and round: "same_round L nodes ops v ids C tr cs own k" and nodes: "nodes \<noteq> []"
    and t: "t = nat (CalculateThreshold (int (length ops)))" "\<exists>a \<in> set ids. length (C a) = t"
  obtains P where "\<And>a. a \<in> set ids \<Longrightarrow> commits_to L (C a) (P a)"
    "\<And>j. j \<in> set nodes \<Longrightarrow> PrivateShare (k j) = Some (peval (psum (\<lambda>_. 1) P ids) (AddressToFr L j)) \<and>
       MasterPublicKey (k j) = Some (enc2 L (\<Sum>a\<leftarrow>filter (\<lambda>a. length (C a) = t) ids. peval (P a) 0)) \<and>
       Version (k j) = v \<and> IsActive (k j)"
proof -
  have ver: "DKG_VerifyShare L (NewDKG j 0 []) (Some x) c \<longleftrightarrow> (\<exists>as. commits_to L c as \<and> x = peval as (AddressToFr L j))" for j x c
    by (simp add: DKG_VerifyShare_def NewDKG_def verify_commitments_iff [OF L])
  obtain j0 where j0: "j0 \<in> set nodes" using nodes by (cases nodes) auto
  have "\<exists>p. commits_to L (C a) p" if "a \<in> set ids" for a
    using round j0 that unfolding same_round_def ver by blast
  then obtain P where P: "\<And>a. a \<in> set ids \<Longrightarrow> commits_to L (C a) (P a)" by metis
  let ?good = "filter (\<lambda>a. length (C a) = t) ids"
  have len: "length (P a) = length (C a)" if "a \<in> set ids" for a using P [OF that] by (rule commits_to_length)
  have "PrivateShare (k j) = Some (peval (psum (\<lambda>_. 1) P ids) (AddressToFr L j)) \<and>
      MasterPublicKey (k j) = Some (enc2 L (\<Sum>a\<leftarrow>?good. peval (P a) 0)) \<and> Version (k j) = v \<and> IsActive (k j)" if j: "j \<in> set nodes" for j
  proof -
    from round j obtain poly where fin:
      "dkg_finalize L ((NewDKG j t ops)\<lparr>dkg_poly := poly\<rparr>) v ops (tr j) (cs j) (own j) = Inr (k j)"
      and ids: "trusted_ids ops (tr j) (cs j) = ids"
      and cs: "\<And>a. a \<in> set ids \<Longrightarrow> gm_get (cs j) a = Some (C a)"
      and tr: "\<And>a. a \<in> set ids \<Longrightarrow> \<exists>x. gm_get (tr j) a = Some (Some x) \<and> DKG_VerifyShare L (NewDKG j 0 []) (Some x) (C a)"
      unfolding same_round_def t(1) by blast
    have sh: "gm_get (tr j) a = Some (Some (peval (P a) (AddressToFr L j))) \<and> commits_to L (the (gm_get (cs j) a)) (P a)"
      if a: "a \<in> set (trusted_ids ops (tr j) (cs j))" for a
      using tr [of a] cs [of a] a P [of a] commits_to_unique [OF curve_lawsD(2) [OF L] P [of a]] unfolding ids ver by fastforce
    have "0 < t" using ops(2) t(1) by (cases ops) (auto simp: CalculateThreshold_def)
    then obtain t' where t': "t = Suc t'" by (cases t) auto
    have good: "?good = filter (\<lambda>a. length (P a) = Suc t') (trusted_ids ops (tr j) (cs j))" "?good \<noteq> []"
      using len t(2) t' by (auto simp: ids filter_empty_conv intro: filter_cong)
    have "dkg_threshold ((NewDKG j t ops)\<lparr>dkg_poly := poly\<rparr>) = Suc t'" by (simp add: NewDKG_def t')
    from dkg_finalize_sum [OF L ops(1) this fin sh good] show ?thesis by (simp only: ids peval_psum mult_1)
  qed
  with P that show thesis by blast
qed

text \<open>The same with given polynomials.\<close>

lemma same_round_known:
  assumes L: "curve_laws L" and ops: "distinct (map OperatorAddress ops)" "ops \<noteq> []"
    and round: "same_round L nodes ops v ids C tr cs own k"
    and t: "t = nat (CalculateThreshold (int (length ops)))" "\<exists>a \<in> set ids. length (C a) = t"
    and Q: "\<And>a. a \<in> set ids \<Longrightarrow> commits_to L (C a) (Q a)" and j: "j \<in> set nodes"
  shows "PrivateShare (k j) = Some (\<Sum>a\<leftarrow>ids. peval (Q a) (AddressToFr L j)) \<and>
     MasterPublicKey (k j) = Some (enc2 L (\<Sum>a\<leftarrow>filter (\<lambda>a. length (C a) = t) ids. peval (Q a) 0))"
proof -
  have "nodes \<noteq> []" using j by auto
  then obtain P where P: "\<And>a. a \<in> set ids \<Longrightarrow> commits_to L (C a) (P a)"
    and k: "\<And>j. j \<in> set nodes \<Longrightarrow> PrivateShare (k j) = Some (peval (psum (\<lambda>_. 1) P ids) (AddressToFr L j)) \<and>
       MasterPublicKey (k j) = Some (enc2 L (\<Sum>a\<leftarrow>filter (\<lambda>a. length (C a) = t) ids. peval (P a) 0)) \<and>
       Version (k j) = v \<and> IsActive (k j)"
    using same_round_polynomial [OF L ops round _ t] by blast
  have "P a = Q a" if "a \<in> set ids" for a using commits_to_unique [OF curve_lawsD(2) [OF L] Q [OF that] P [OF that]] .
  then have "(\<Sum>a\<leftarrow>as. peval (P a) x) = (\<Sum>a\<leftarrow>as. peval (Q a) x)" if "set as \<subseteq> set ids" for as x
    by (intro sum_list_cong) (metis that subsetD)
  from this [of ids] this [of "filter (\<lambda>a. length (C a) = t) ids" 0]
  have "(\<Sum>a\<leftarrow>ids. peval (P a) x) = (\<Sum>a\<leftarrow>ids. peval (Q a) x)"
    "(\<Sum>a\<leftarrow>filter (\<lambda>a. length (C a) = t) ids. peval (P a) 0) = (\<Sum>a\<leftarrow>filter (\<lambda>a. length (C a) = t) ids. peval (Q a) 0)" for x
    by simp_all
  with k [OF j] show ?thesis by (simp only: peval_psum mult_1)
qed

lemma same_round_ids:
  assumes "same_round L nodes ops v ids C tr cs own k" "nodes \<noteq> []" "distinct (map OperatorAddress ops)" "ops \<noteq> []"
  shows "ids \<noteq> []"
proof -
  obtain j where j: "j \<in> set nodes" using assms(2) by (cases nodes) auto
  with assms(1) obtain d where "dkg_finalize L d v ops (tr j) (cs j) (own j) = Inr (k j)" "trusted_ids ops (tr j) (cs j) = ids"
    unfolding same_round_def by blast
  then show ?thesis
    using assms(4) dkg_participants_eq [OF assms(3), of "tr j" "cs j"]
    by (cases ops) (auto simp: dkg_finalize_def CalculateThreshold_def split: if_splits)
qed

text \<open>
  C4. A key generation round is consistent, whoever the dealers are: when nodes finalise on the same
  dealers and commitments, each with the shares that it verified, and every dealer published as many
  commitments as the threshold, then all of them store the same master public key, and any threshold
  many of their shares recover exactly its secret.
\<close>

theorem dkg_round_consistent:
  assumes L: "curve_laws L" and ops: "distinct (map OperatorAddress ops)" "ops \<noteq> []"
    and round: "same_round L nodes ops v ids C tr cs own k"
    and len: "\<forall>a \<in> set ids. int (length (C a)) = CalculateThreshold (int (length ops))"
    and nodes: "distinct (map (AddressToFr L) nodes)" "CalculateThreshold (int (length ops)) \<le> int (length nodes)"
  shows "\<exists>S. (\<forall>j \<in> set nodes. MasterPublicKey (k j) = Some (enc2 L S) \<and> Version (k j) = v \<and> IsActive (k j)) \<and>
    RecoverSecret L (map (\<lambda>j. (j, the (PrivateShare (k j)))) nodes) =
      (if S = 0 then Inl (Errorf ''secret cannot be zero, this should not happen'') else Inr S)"
proof -
  let ?t = "nat (CalculateThreshold (int (length ops)))"
  have ne: "nodes \<noteq> []" using nodes(2) ops(2) by (cases ops) (auto simp: CalculateThreshold_def)
  have len': "length (C a) = ?t" if "a \<in> set ids" for a using len that by force
  have "\<exists>a \<in> set ids. length (C a) = ?t" using same_round_ids [OF round ne ops] len' by (cases ids) auto
  then obtain P where P: "\<And>a. a \<in> set ids \<Longrightarrow> commits_to L (C a) (P a)"
    and k: "\<And>j. j \<in> set nodes \<Longrightarrow> PrivateShare (k j) = Some (peval (psum (\<lambda>_. 1) P ids) (AddressToFr L j)) \<and>
       MasterPublicKey (k j) = Some (enc2 L (\<Sum>a\<leftarrow>filter (\<lambda>a. length (C a) = ?t) ids. peval (P a) 0)) \<and>
       Version (k j) = v \<and> IsActive (k j)"
    using same_round_polynomial [OF L ops round ne refl] by blast
  let ?F = "psum (\<lambda>_. 1) P ids"
  have "length ?F \<le> ?t" using P len' commits_to_length by (intro length_psum) fastforce
  then have "RecoverSecret L (map (\<lambda>j. (j, the (PrivateShare (k j)))) nodes) =
      (if peval ?F 0 = 0 then Inl (Errorf ''secret cannot be zero, this should not happen'') else Inr (peval ?F 0))"
    using nodes k curve_lawsD(5) [OF L]
    by (intro RecoverSecret_eval) (auto simp: o_def EvaluatePolynomial_def fr_laws_def)
  moreover have "filter (\<lambda>a. length (C a) = ?t) ids = ids" using len' by (simp add: filter_id_conv)
  then have "\<forall>j \<in> set nodes. MasterPublicKey (k j) = Some (enc2 L (peval ?F 0)) \<and> Version (k j) = v \<and> IsActive (k j)"
    using k by (simp only: peval_psum mult_1) blast
  ultimately show ?thesis by blast
qed

subsection \<open>Concrete rounds\<close>

text \<open>Three operators; \<open>full_poly\<close> has the right length for every dealer, \<open>short_poly\<close> not for dealer 3.\<close>

definition full_poly :: "address \<Rightarrow> gf list" where
  "full_poly d = [gf_of_int (uint d), 1]"

definition short_poly :: "address \<Rightarrow> gf list" where
  "short_poly d = (if d = 3 then [3] else full_poly d)"

definition dealt :: "(address \<Rightarrow> gf list) \<Rightarrow> address \<Rightarrow> (address, gf option) gomap" where
  "dealt P j = map (\<lambda>d. (d, Some (peval (P d) (gf_of_int (uint j))))) [1, 2, 3]"

definition published :: "(address \<Rightarrow> gf list) \<Rightarrow> (address, G2Point list) gomap" where
  "published P = map (\<lambda>d. (d, map (enc2 mock_lib) (P d))) [1, 2, 3]"

lemma dkg_demo_round:
  assumes "\<And>d. P d \<noteq> []"
  obtains k where "same_round mock_lib [1, 2, 3] mock_ops 7 [1, 2, 3] (\<lambda>d. map (enc2 mock_lib) (P d)) (dealt P) (\<lambda>_. published P)
      (\<lambda>d. map (enc2 mock_lib) (P d)) k"
proof -
  have get: "gm_get (dealt P j) d = (if d \<in> {1, 2, 3} then Some (Some (peval (P d) (gf_of_int (uint j)))) else None)"
    "gm_get (published P) d = (if d \<in> {1, 2, 3} then Some (map (enc2 mock_lib) (P d)) else None)" for j d
    unfolding dealt_def published_def map_of_map_restrict by (simp_all add: restrict_map_def)
  have ops: "distinct (map OperatorAddress mock_ops)" "map OperatorAddress mock_ops = [1, 2, 3]"
    by (simp_all add: mock_ops_def mock_peer_def)
  have len: "length mock_ops = 3" by (simp add: mock_ops_def)
  have ids: "trusted_ids mock_ops (dealt P j) (published P) = [1, 2, 3]" for j
    by (simp add: trusted_ids_def ops get)
  have nn: "map_res non_nil (map (\<lambda>a. (a, the (gm_get (dealt P j) a))) [1, 2, 3]) =
      Inr (map (\<lambda>a. (a, peval (P a) (gf_of_int (uint j)))) [1, 2, 3])" for j
    by (rule map_res_non_nil) (simp only: get, auto)
  have "\<exists>k. dkg_finalize mock_lib ((NewDKG j (nat (CalculateThreshold (int (length mock_ops)))) mock_ops)\<lparr>dkg_poly := []\<rparr>) 7 mock_ops
      (dealt P j) (published P) (map (enc2 mock_lib) (P j)) = Inr k" for j
    unfolding dkg_finalize_def dkg_participants_eq [OF ops(1)] ids prod.case Let_def nn
    by (simp add: len CalculateThreshold_def split: list.splits)
  then obtain k where k: "\<And>j. dkg_finalize mock_lib ((NewDKG j (nat (CalculateThreshold (int (length mock_ops)))) mock_ops)\<lparr>dkg_poly := []\<rparr>)
      7 mock_ops (dealt P j) (published P) (map (enc2 mock_lib) (P j)) = Inr (k j)" by metis
  have ver: "DKG_VerifyShare mock_lib (NewDKG j 0 []) (Some (peval (P a) (gf_of_int (uint j)))) (map (enc2 mock_lib) (P a))" for a j
    using mock_verify [OF assms refl] by (simp add: DKG_VerifyShare_def NewDKG_def)
  show thesis
  proof (rule that [of k], unfold same_round_def, intro ballI exI conjI)
    fix j a
    show "dkg_finalize mock_lib ((NewDKG j (nat (CalculateThreshold (int (length mock_ops)))) mock_ops)\<lparr>dkg_poly := []\<rparr>)
      7 mock_ops (dealt P j) (published P) (map (enc2 mock_lib) (P j)) = Inr (k j)" by (rule k)
    show "trusted_ids mock_ops (dealt P j) (published P) = [1, 2, 3]" by (rule ids)
    assume "a \<in> set [1 :: address, 2, 3]"
    then show "gm_get (published P) a = Some (map (enc2 mock_lib) (P a))"
      "gm_get (dealt P j) a = Some (Some (peval (P a) (gf_of_int (uint j))))" by (simp_all add: get)
    show "DKG_VerifyShare mock_lib (NewDKG j 0 []) (Some (peval (P a) (gf_of_int (uint j)))) (map (enc2 mock_lib) (P a))" by (rule ver)
  qed
qed

lemma demo_points: "distinct (map (AddressToFr mock_lib) [1, 2, 3])"
  by (simp add: AddressToFr_mock) code_simp

theorem dkg_round_consistent_witness:
  "\<exists>k S. same_round mock_lib [1, 2, 3] mock_ops 7 [1, 2, 3] (\<lambda>d. map (enc2 mock_lib) (full_poly d)) (dealt full_poly)
      (\<lambda>_. published full_poly) (\<lambda>d. map (enc2 mock_lib) (full_poly d)) k \<and>
    MasterPublicKey (k 1) = Some (enc2 mock_lib S) \<and> MasterPublicKey (k 3) = Some (enc2 mock_lib S) \<and>
    RecoverSecret mock_lib (map (\<lambda>j. (j, the (PrivateShare (k j)))) [1, 2, 3]) =
      (if S = 0 then Inl (Errorf ''secret cannot be zero, this should not happen'') else Inr S)"
proof -
  obtain k where k: "same_round mock_lib [1, 2, 3] mock_ops 7 [1, 2, 3] (\<lambda>d. map (enc2 mock_lib) (full_poly d)) (dealt full_poly)
      (\<lambda>_. published full_poly) (\<lambda>d. map (enc2 mock_lib) (full_poly d)) k"
    by (rule dkg_demo_round [of full_poly]) (simp_all add: full_poly_def)
  have "distinct (map OperatorAddress mock_ops)" "mock_ops \<noteq> []" by (simp_all add: mock_ops_def mock_peer_def)
  moreover have "\<forall>a \<in> set [1, 2, 3]. int (length (map (enc2 mock_lib) (full_poly a))) = CalculateThreshold (int (length mock_ops))"
    "CalculateThreshold (int (length mock_ops)) \<le> int (length [1 :: address, 2, 3])"
    by (simp_all add: full_poly_def mock_ops_def CalculateThreshold_def)
  ultimately obtain S where S: "\<forall>j \<in> set [1, 2, 3]. MasterPublicKey (k j) = Some (enc2 mock_lib S) \<and> Version (k j) = 7 \<and> IsActive (k j)"
    "RecoverSecret mock_lib (map (\<lambda>j. (j, the (PrivateShare (k j)))) [1, 2, 3]) =
      (if S = 0 then Inl (Errorf ''secret cannot be zero, this should not happen'') else Inr S)"
    using dkg_round_consistent [OF mock_lib_laws _ _ k _ demo_points] by blast
  from S(1) have "MasterPublicKey (k 1) = Some (enc2 mock_lib S)" "MasterPublicKey (k 3) = Some (enc2 mock_lib S)" by simp_all
  with k S(2) show ?thesis by blast
qed

text \<open>
  C29. A dealer can break the key. When nodes have finalised on the same dealers and commitments, each with
  the shares that it verified, and some of the dealers published fewer commitments than the threshold,
  then every node has added the shares of all dealers but left the short commitments out: the master
  public key that all of them store is that of the sum of the full-length dealers' secrets, any threshold
  many of their shares recover the sum of all dealers' secrets, and the two differ unless the short
  dealers' secrets add up to 0.
\<close>

theorem short_commitments_break_key:
  assumes L: "curve_laws L" and ops: "distinct (map OperatorAddress ops)" "ops \<noteq> []"
    and round: "same_round L nodes ops v ids C tr cs own k"
    and t: "t = nat (CalculateThreshold (int (length ops)))" "\<exists>a \<in> set ids. length (C a) = t" "\<forall>a \<in> set ids. length (C a) \<le> t"
    and Q: "\<And>a. a \<in> set ids \<Longrightarrow> commits_to L (C a) (Q a)"
    and ns: "set ns \<subseteq> set nodes" "distinct (map (AddressToFr L) ns)" "t \<le> length ns"
    and S: "S = (\<Sum>a\<leftarrow>ids. peval (Q a) 0)" "K = (\<Sum>a\<leftarrow>filter (\<lambda>a. length (C a) = t) ids. peval (Q a) 0)"
  shows "(\<forall>j \<in> set nodes. MasterPublicKey (k j) = Some (enc2 L K)) \<and>
    RecoverSecret L (map (\<lambda>j. (j, the (PrivateShare (k j)))) ns) =
      (if S = 0 then Inl (Errorf ''secret cannot be zero, this should not happen'') else Inr S) \<and>
    (enc2 L K = enc2 L S \<longleftrightarrow> (\<Sum>a\<leftarrow>filter (\<lambda>a. length (C a) < t) ids. peval (Q a) 0) = 0)"
proof -
  note G = curve_lawsD [OF L]
  have r: "PrivateShare (k j) = Some (\<Sum>a\<leftarrow>ids. peval (Q a) (AddressToFr L j)) \<and> MasterPublicKey (k j) = Some (enc2 L K)"
    if "j \<in> set nodes" for j
    using same_round_known [OF L ops round t(1,2) Q that] unfolding S(2) by blast
  let ?F = "psum (\<lambda>_. 1) Q ids"
  have F: "length ?F \<le> t" using Q t(3) commits_to_length by (intro length_psum) fastforce
  have F0: "peval ?F 0 = S" unfolding S(1) peval_psum by simp
  have share: "s = EvaluatePolynomial L ?F a" if "(a, s) \<in> set (map (\<lambda>j. (j, the (PrivateShare (k j)))) ns)" for a s
    using that ns(1) r G(5) by (auto simp: EvaluatePolynomial_def fr_laws_def)
  have rec: "RecoverSecret L (map (\<lambda>j. (j, the (PrivateShare (k j)))) ns) =
      (if S = 0 then Inl (Errorf ''secret cannot be zero, this should not happen'') else Inr S)"
    using RecoverSecret_eval [OF G(5), of "map (\<lambda>j. (j, the (PrivateShare (k j)))) ns" ?F] share ns(2,3) F F0
    by (simp add: o_def del: peval_psum)
  have split: "(\<Sum>a\<leftarrow>as. peval (Q a) 0) = (\<Sum>a\<leftarrow>filter (\<lambda>a. length (C a) = t) as. peval (Q a) 0) +
      (\<Sum>a\<leftarrow>filter (\<lambda>a. length (C a) < t) as. peval (Q a) 0)" if "set as \<subseteq> set ids" for as
    using that t(3) by (induction as) (auto simp: le_less ac_simps)
  have "enc2 L K = enc2 L S \<longleftrightarrow> (\<Sum>a\<leftarrow>filter (\<lambda>a. length (C a) < t) ids. peval (Q a) 0) = 0"
    using split [of ids] G by (simp add: S)
  with r rec show ?thesis by blast
qed

text \<open>
  Dealer 3 publishes a single commitment where the threshold is two: all nodes finalise with the master
  public key of the secret 3, while their shares recover 6.
\<close>

theorem short_commitments_break_key_witness:
  "\<exists>k. same_round mock_lib [1, 2, 3] mock_ops 7 [1, 2, 3] (\<lambda>d. map (enc2 mock_lib) (short_poly d)) (dealt short_poly)
      (\<lambda>_. published short_poly) (\<lambda>d. map (enc2 mock_lib) (short_poly d)) k \<and>
    list_all (\<lambda>j. MasterPublicKey (k j) = Some (enc2 mock_lib 3)) [1, 2, 3] \<and>
    RecoverSecret mock_lib (map (\<lambda>j. (j, the (PrivateShare (k j)))) [1, 2]) = Inr 6 \<and>
    RecoverSecret mock_lib (map (\<lambda>j. (j, the (PrivateShare (k j)))) [2, 3]) = Inr 6 \<and>
    enc2 mock_lib 3 \<noteq> enc2 mock_lib 6"
proof -
  note L = mock_lib_laws curve_lawsD [OF mock_lib_laws]
  let ?C = "\<lambda>d. map (enc2 mock_lib) (short_poly d)"
  obtain k where k: "same_round mock_lib [1, 2, 3] mock_ops 7 [1, 2, 3] ?C (dealt short_poly) (\<lambda>_. published short_poly) ?C k"
    by (rule dkg_demo_round [of short_poly]) (simp_all add: short_poly_def full_poly_def)
  have ops: "distinct (map OperatorAddress mock_ops)" "mock_ops \<noteq> []" "2 = nat (CalculateThreshold (int (length mock_ops)))"
    by (simp_all add: mock_ops_def mock_peer_def CalculateThreshold_def)
  have len: "\<exists>a \<in> set [1, 2, 3]. length (?C a) = 2" "\<forall>a \<in> set [1, 2, 3]. length (?C a) \<le> 2" by (simp_all add: short_poly_def full_poly_def)
  have Q: "commits_to mock_lib (?C a) (short_poly a)" for a using commits_to_enc2 [OF L(3)] by (simp add: short_poly_def full_poly_def)
  have P: "short_poly 1 = [1, 1]" "short_poly 2 = [2, 1]" "short_poly 3 = [3]" by (simp_all add: short_poly_def full_poly_def) code_simp+
  have f: "filter (\<lambda>a. length (?C a) = 2) [1, 2, 3] = [1, 2]" by (simp add: short_poly_def full_poly_def)
  have num: "1 + 2 = (3 :: gf)" "3 + 3 = (6 :: gf)" "(6 :: gf) \<noteq> 0" "(3 :: gf) \<noteq> 6" by code_simp+
  have S: "6 = (\<Sum>a\<leftarrow>[1, 2, 3]. peval (short_poly a) 0)" "3 = (\<Sum>a\<leftarrow>filter (\<lambda>a. length (?C a) = 2) [1, 2, 3]. peval (short_poly a) 0)"
    unfolding f by (simp_all add: P num flip: add.assoc)
  have broken: "(\<forall>j \<in> set [1, 2, 3]. MasterPublicKey (k j) = Some (enc2 mock_lib 3)) \<and>
      RecoverSecret mock_lib (map (\<lambda>j. (j, the (PrivateShare (k j)))) ns) =
      (if (6 :: gf) = 0 then Inl (Errorf ''secret cannot be zero, this should not happen'') else Inr 6)"
    if "set ns \<subseteq> set [1, 2, 3]" "distinct (map (AddressToFr mock_lib) ns)" "2 \<le> length ns" for ns
    using short_commitments_break_key [where Q = short_poly, OF L(1) ops(1,2) k ops(3) len Q that S] by blast
  have sub: "distinct (map (AddressToFr mock_lib) [1, 2])" "distinct (map (AddressToFr mock_lib) [2, 3])" using demo_points by simp_all
  have "enc2 mock_lib 3 \<noteq> enc2 mock_lib 6" using L num by simp
  with k broken [OF _ sub(1)] broken [OF _ sub(2)] num(3) show ?thesis by (intro exI [of _ k]) simp
qed

subsection \<open>What a round leaves behind\<close>

lemma end_session_removed [simp]: "getSession (n_sessions (end_session P t n)) t = None"
  by (simp add: end_session_def cleanupSession_def getSession_def Let_def split: prod.splits)

text \<open>A round that has ended with \<open>r\<close>: the keystore and the registry of sessions.\<close>

definition dkg_outcome :: "int64 \<Rightarrow> ('s, 'f) Node \<Rightarrow> ('s, 'f) Node \<Rightarrow> unit res \<Rightarrow> bool" where
  "dkg_outcome t n n' r \<longleftrightarrow>
     (n_sessions n' = n_sessions n \<or> getSession (n_sessions n') t = None) \<and>
     (case r of
        Inl _ \<Rightarrow> n_keyStore n' = n_keyStore n
      | Inr _ \<Rightarrow> \<exists>k. n_keyStore n' = add_new_version k (n_keyStore n) \<and> Version k = t \<and> IsActive k \<and>
          PrivateShare k \<noteq> None \<and> MasterPublicKey k \<noteq> None)"

lemma dkg_deal_outcome:
  assumes "dkg_deal X P env t ops n = (n1, r)"
  shows "n_keyStore n1 = n_keyStore n \<and>
    (case r of Inl _ \<Rightarrow> n_sessions n1 = n_sessions n \<or> getSession (n_sessions n1) t = None
       | Inr (d, _) \<Rightarrow> ops \<noteq> [] \<and> dkg_threshold d = nat (CalculateThreshold (int (length ops))))"
  using assms
  by (auto simp: dkg_deal_def Let_def createSession_def DKG_GenerateShares_def NewDKG_def is_operator_def res_simps
      split: sum.splits prod.splits if_splits)

lemma dkg_participants_length: "dkg_participants ops tr cs = (ids, css, fin) \<Longrightarrow> length css = length ids"
proof (induction ops arbitrary: ids css fin rule: rev_induct)
  case (snoc op ops)
  obtain a b c where "dkg_participants ops tr cs = (a, b, c)" by (cases "dkg_participants ops tr cs")
  with snoc.IH [OF this] snoc.prems show ?case by (auto simp: dkg_participants_def split: option.splits)
qed (simp add: dkg_participants_def)

lemma dkg_finalize_version:
  assumes "dkg_finalize L d t ops tr cs own = Inr k" "ops \<noteq> []" "dkg_threshold d = nat (CalculateThreshold (int (length ops)))"
  shows "Version k = t \<and> IsActive k \<and> PrivateShare k \<noteq> None \<and> MasterPublicKey k \<noteq> None"
proof -
  obtain ids css fin where parts: "dkg_participants ops tr cs = (ids, css, fin)" by (cases "dkg_participants ops tr cs")
  have t: "0 < CalculateThreshold (int (length ops))" using assms(2) by (cases ops) (auto simp: CalculateThreshold_def)
  then have css: "css \<noteq> []"
    using assms(1) dkg_participants_length [OF parts] by (auto simp: dkg_finalize_def parts split: if_splits)
  have len: "length (fold (combine_commitments L m) cs' c) = m" if "length c = m" for cs' c m
    using that by (induction cs' arbitrary: c) (simp_all add: combine_commitments_def)
  have ne: "Commitments (FinalizeKeyShare L d sh css ids) \<noteq> []" for sh
    using len [of "replicate (dkg_threshold d) (ZeroG2Point L)" "dkg_threshold d" css] css t assms(3)
    by (auto simp: FinalizeKeyShare_def Let_def)
  from assms(1) obtain sh where k: "k = (case Commitments (FinalizeKeyShare L d sh css ids) of
      [] \<Rightarrow> (FinalizeKeyShare L d sh css ids)\<lparr>Version := t\<rparr>
    | mpk # _ \<Rightarrow> (FinalizeKeyShare L d sh css ids)\<lparr>Version := t, MasterPublicKey := Some mpk\<rparr>)\<lparr>Commitments := own\<rparr>"
    by (auto simp: dkg_finalize_def parts Let_def res_simps split: if_splits)
  obtain c cs' where "Commitments (FinalizeKeyShare L d sh css ids) = c # cs'"
    using ne [of sh] by (cases "Commitments (FinalizeKeyShare L d sh css ids)") auto
  then show ?thesis by (simp add: k FinalizeKeyShare_share) (simp add: FinalizeKeyShare_def Let_def)
qed

text \<open>
  C9. A whole key generation round, whatever the network, the chain and the persistence layer do: when it
  fails the keystore is untouched, when it succeeds the keystore has one more version, the session's,
  active and with a share and a master public key; and in every case the session is gone afterwards,
  unless none was created.
\<close>

theorem RunDKG_outcome:
  "case RunDKG X P env t n of (n', out, r) \<Rightarrow> dkg_outcome t n n' r"
proof (cases "wrap_err ''failed to fetch operators'' (fetchCurrentOperators (e_listed env))")
  case (Inl e)
  then show ?thesis by (simp add: RunDKG_def dkg_outcome_def)
next
  case (Inr ops)
  obtain n1 d where d: "dkg_deal X P env t ops n = (n1, d)" by force
  note dk = dkg_deal_outcome [OF d]
  show ?thesis
  proof (cases d)
    case (Inl e)
    then show ?thesis using Inr d dk by (simp add: RunDKG_def dkg_outcome_def)
  next
    case d2: (Inr p)
    obtain self s own out where p: "p = (self, s, own, out)" by (cases p)
    from dk d2 p have o: "ops \<noteq> []" "dkg_threshold self = nat (CalculateThreshold (int (length ops)))" "n_keyStore n1 = n_keyStore n" by auto
    have fin: "dkg_outcome t n (end_session P t n4) r"
      if "commit_version P msg k n3 = (n4, r)" "dkg_finalize L self t ops tr cs own = Inr k" "n_keyStore n3 = n_keyStore n"
      for msg k n3 n4 r L tr cs
    proof -
      have "case r of Inl _ \<Rightarrow> n_keyStore n4 = n_keyStore n3 | Inr _ \<Rightarrow> n_keyStore n4 = add_new_version k (n_keyStore n3)"
        using that(1) by (auto simp: commit_version_def split: prod.splits sum.splits)
      with dkg_finalize_version [OF that(2) o(1,2)] that(3) show ?thesis
        by (auto simp: dkg_outcome_def split: sum.splits)
    qed
    have err: "dkg_outcome t n (end_session P t m) (Inl e)" if "n_keyStore m = n_keyStore n" for m e
      using that by (simp add: dkg_outcome_def)
    show ?thesis
      unfolding RunDKG_def Let_def Inr sum.case d prod.case d2 p
      using o(3) by (auto split: sum.splits prod.splits intro!: err fin)
  qed
qed

subsection \<open>Partial signatures\<close>

lemma SignAppID_active:
  assumes "GetActiveVersion ks = Some a" "PrivateShare (objs ks a) = Some s" "HashToG1 L appID = Inr q"
  shows "SignAppID L ks appID 0 = wrap_err ''ScalarMulG1 failed'' (ScalarMulG1 L q (Some s))"
  using assms by (simp add: SignAppID_def signAppIDWithVersion_def)

text \<open>The version that signs at a time is the one that \<open>GetKeyVersionAtTime\<close> resolves, never another.\<close>

lemma SignAppID_at:
  assumes "0 < t" "SignAppID L ks appID t = Inr p"
  obtains r s q where "GetKeyVersionAtTime ks t = Some r" "PrivateShare (objs ks r) = Some s" "HashToG1 L appID = Inr q"
    "ScalarMulG1 L q (Some s) = Inr p"
  using assms by (auto simp: SignAppID_def signAppIDWithVersion_def res_simps split: option.splits)

end
