(* ===== verification/Go_Strings.thy ===== *)
theory Go_Strings
  imports Prelude
begin

text \<open>
  The functions of Go's packages \<open>strings\<close>, \<open>fmt\<close> and \<open>encoding/hex\<close> that the node's URL
  validation and the attestation methods call, for strings of ASCII characters: white space is the
  ASCII white space.
\<close>

subsection \<open>Spaces, prefixes and substrings\<close>

definition is_space :: "char \<Rightarrow> bool" where
  "is_space c \<longleftrightarrow> of_char c \<in> {9, 10, 11, 12, 13, 32 :: nat}"

definition TrimSpace :: "string \<Rightarrow> string" where
  "TrimSpace s = rev (dropWhile is_space (rev (dropWhile is_space s)))"

fun CutPrefix :: "string \<Rightarrow> string \<Rightarrow> string option" where
  "CutPrefix s [] = Some s"
| "CutPrefix [] (p # ps) = None"
| "CutPrefix (c # s) (p # ps) = (if c = p then CutPrefix s ps else None)"

fun contains :: "string \<Rightarrow> string \<Rightarrow> bool" where
  "contains [] sub \<longleftrightarrow> sub = []"
| "contains (c # s) sub \<longleftrightarrow> CutPrefix (c # s) sub \<noteq> None \<or> contains s sub"

text \<open>What follows the last occurrence of a character, and the whole string without one.\<close>

definition after_last :: "char \<Rightarrow> string \<Rightarrow> string" where
  "after_last c s = rev (takeWhile (\<lambda>x. x \<noteq> c) (rev s))"

definition before_last :: "char \<Rightarrow> string \<Rightarrow> string" where
  "before_last c s = rev (tl (dropWhile (\<lambda>x. x \<noteq> c) (rev s)))"

text \<open>\<open>strings.HasPrefix\<close>.\<close>

definition HasPrefix :: "string \<Rightarrow> string \<Rightarrow> bool" where
  "HasPrefix s p \<longleftrightarrow> CutPrefix s p \<noteq> None"

text \<open>\<open>strings.Split(s, c)\<close> and \<open>strings.Join(parts, c)\<close> for a separator of one character.\<close>

fun Split :: "char \<Rightarrow> string \<Rightarrow> string list" where
  "Split c [] = [[]]"
| "Split c (x # s) =
     (if x = c then [] # Split c s
      else case Split c s of p # ps \<Rightarrow> (x # p) # ps | [] \<Rightarrow> [[x]])"

fun Join :: "char \<Rightarrow> string list \<Rightarrow> string" where
  "Join c [] = []"
| "Join c [p] = p"
| "Join c (p # q # ps) = p @ c # Join c (q # ps)"

subsection \<open>Hexadecimal digits\<close>

definition hex_digit :: "nat \<Rightarrow> char" where
  "hex_digit n = char_of (if n < 10 then 48 + n else 87 + n)"

definition EncodeToString :: "bytes \<Rightarrow> string" where
  "EncodeToString bs = concat (map (\<lambda>b. [hex_digit (unat b div 16), hex_digit (unat b mod 16)]) bs)"

definition is_lower_hex :: "char \<Rightarrow> bool" where
  "is_lower_hex c \<longleftrightarrow> is_digit c \<or> 97 \<le> (of_char c :: nat) \<and> (of_char c :: nat) \<le> 102"

definition is_hex :: "char \<Rightarrow> bool" where
  "is_hex c \<longleftrightarrow> is_lower_hex c \<or> 65 \<le> (of_char c :: nat) \<and> (of_char c :: nat) \<le> 70"

text \<open>\<open>strings.ToLower\<close>.\<close>

definition ToLower :: "string \<Rightarrow> string" where
  "ToLower s = map (\<lambda>c. if 65 \<le> (of_char c :: nat) \<and> (of_char c :: nat) \<le> 90 then char_of ((of_char c :: nat) + 32) else c) s"

subsection \<open>Scanning\<close>

text \<open>
  What \<open>fmt.Sscanf\<close> does for the verbs \<open>%d\<close> and \<open>%s\<close>: both skip spaces first, where a newline is
  an error; \<open>%d\<close> reads an optional sign and the digits that follow, \<open>%s\<close> reads up to the next
  space. The rest of the input is returned.
\<close>

fun skip_space :: "string \<Rightarrow> string option" where
  "skip_space [] = Some []"
| "skip_space (c # s) =
     (if c = CHR 0x0A then None else if is_space c then skip_space s else Some (c # s))"

definition scan_int :: "string \<Rightarrow> (int64 \<times> string) option" where
  "scan_int s =
     (case skip_space s of
        None \<Rightarrow> None
      | Some u \<Rightarrow>
          let (sg, v) = (case u of c # v \<Rightarrow> if c = CHR ''+'' \<or> c = CHR ''-'' then ([c], v) else ([], u) | [] \<Rightarrow> ([], []))
          in case parse_int64 (sg @ takeWhile is_digit v) of
               None \<Rightarrow> None
             | Some n \<Rightarrow> Some (n, dropWhile is_digit v))"

definition scan_word :: "string \<Rightarrow> (string \<times> string) option" where
  "scan_word s =
     (case skip_space s of
        None \<Rightarrow> None
      | Some u \<Rightarrow> if u = [] then None
          else Some (takeWhile (\<lambda>c. \<not> is_space c) u, dropWhile (\<lambda>c. \<not> is_space c) u))"

subsection \<open>Lemmas\<close>

lemma TrimSpace_id: "\<forall>c \<in> set s. \<not> is_space c \<Longrightarrow> TrimSpace s = s"
proof -
  assume s: "\<forall>c \<in> set s. \<not> is_space c"
  then have "dropWhile is_space s = s" "dropWhile is_space (rev s) = rev s"
    using hd_in_set [of s] hd_in_set [of "rev s"] unfolding dropWhile_eq_self_iff by (force, metis set_rev)
  then show ?thesis by (simp add: TrimSpace_def)
qed

lemma CutPrefix_Some: "CutPrefix s p = Some r \<longleftrightarrow> s = p @ r"
  by (induction s p rule: CutPrefix.induct) auto

lemma contains_set: "contains s sub \<Longrightarrow> set sub \<subseteq> set s"
proof (induction s sub rule: contains.induct)
  case (2 c s sub)
  show ?case
  proof (cases "CutPrefix (c # s) sub")
    case None
    then show ?thesis using 2 by auto
  next
    case (Some r)
    then have "c # s = sub @ r" by (simp only: CutPrefix_Some)
    then have "set (c # s) = set (sub @ r)" by (rule arg_cong)
    then show ?thesis by auto
  qed
qed simp

lemma last_split: "c \<notin> set port \<Longrightarrow> after_last c (host @ c # port) = port \<and> before_last c (host @ c # port) = host"
proof -
  assume "c \<notin> set port"
  then have "\<And>x. x \<in> set (rev port) \<Longrightarrow> x \<noteq> c" by auto
  then show ?thesis
    using takeWhile_append2 [of "rev port" "\<lambda>x. x \<noteq> c" "c # rev host"] dropWhile_append2 [of "rev port" "\<lambda>x. x \<noteq> c" "c # rev host"]
    by (simp add: after_last_def before_last_def)
qed

lemma Split_not_Nil [simp]: "Split c s \<noteq> []"
  by (induction c s rule: Split.induct) (auto split: list.splits)

lemma Split_append: "c \<notin> set p \<Longrightarrow> Split c (p @ c # s) = p # Split c s"
  by (induction p) (auto split: list.splits)

lemma Split_single: "c \<notin> set p \<Longrightarrow> Split c p = [p]"
  by (induction p) auto

lemma Join_Split [simp]: "Join c (Split c s) = s"
proof (induction c s rule: Split.induct)
  case (2 c x s)
  obtain p ps where e: "Split c s = p # ps" by (metis Split_not_Nil neq_Nil_conv)
  then show ?case using 2 by (cases ps) auto
qed simp

lemma length_EncodeToString [simp]: "length (EncodeToString bs) = 2 * length bs"
  by (induction bs) (auto simp: EncodeToString_def)

lemma hex_digit_inj: "m < 16 \<Longrightarrow> n < 16 \<Longrightarrow> hex_digit m = hex_digit n \<longleftrightarrow> m = n"
proof -
  have v: "(of_char (hex_digit n) :: nat) = (if n < 10 then 48 + n else 87 + n)" if "n < 16" for n
    using that by (simp add: hex_digit_def)
  assume b: "m < 16" "n < 16"
  show ?thesis
  proof
    assume "hex_digit m = hex_digit n"
    then have "(if m < 10 then 48 + m else 87 + m) = (if n < 10 then 48 + n else 87 + n)" using v b by metis
    then show "m = n" by (simp split: if_splits)
  qed simp
qed

lemma EncodeToString_inj: "EncodeToString xs = EncodeToString ys \<longleftrightarrow> xs = ys"
proof (induction xs arbitrary: ys)
  case Nil
  then show ?case by (cases ys) (auto simp: EncodeToString_def)
next
  case (Cons x xs)
  have u: "unat b < 256" for b :: byte by (rule unat_lt_256)
  have d: "unat b div 16 < 16" "unat b mod 16 < 16" for b :: byte using u [of b] by auto
  show ?case
  proof (cases ys)
    case Nil
    then show ?thesis by (simp add: EncodeToString_def)
  next
    case (Cons y zs)
    have "unat x div 16 = unat y div 16 \<and> unat x mod 16 = unat y mod 16 \<longleftrightarrow> x = y"
      by (metis div_mult_mod_eq word_unat_eq_iff)
    then show ?thesis using Cons Cons.IH [of zs] by (auto simp: EncodeToString_def hex_digit_inj d)
  qed
qed

lemma hex_digit_lower: "n < 16 \<Longrightarrow> is_lower_hex (hex_digit n)"
  by (auto simp: is_lower_hex_def is_digit_def hex_digit_def)

lemma EncodeToString_hex: "c \<in> set (EncodeToString bs) \<Longrightarrow> is_lower_hex c"
proof -
  have u: "unat b div 16 < 16" "unat b mod 16 < 16" for b :: byte using unat_lt_256 [of b] by auto
  assume "c \<in> set (EncodeToString bs)"
  then show ?thesis using u by (auto simp: EncodeToString_def intro!: hex_digit_lower)
qed

end
