(* ===== verification/Node_State.thy ===== *)
theory Node_State
  imports Reshare_Round Dkg_Round Go_Strings
begin

text \<open>
  The life of a node (\<open>pkg/node/node.go\<close>): its construction (\<open>NewNode\<close>), the restoration of its
  state (\<open>RestoreState\<close>), the scheduler that turns block boundaries into protocol rounds
  (\<open>checkScheduledOperations\<close>, \<open>persistBoundary\<close>) and the cached platform URL with its validation.
  The theorems: what a round committed is active again after a crash, with every other version and the
  poisoned set; a boundary starts at most one round, across restarts too; and the exact set of platform
  URLs that pass the validation.
\<close>

record ('s, 'f) KmsNode = "('s, 'f) Node" +
  lastProcessedBoundary :: int64
  appAllowlist :: "(string, bool) gomap option"
  platformURL :: "string option"

subsection \<open>Addresses in URLs\<close>

text \<open>
  The functions of the packages \<open>net\<close> and \<open>strconv\<close> that the validation of URLs calls.
\<close>

text \<open>\<open>net.SplitHostPort\<close>: the host, with or without brackets, and the port after the last colon.\<close>

definition SplitHostPort :: "string \<Rightarrow> (string \<times> string) res" where
  "SplitHostPort hostport =
     (let colon = CHR '':''; lb = CHR ''[''; rb = CHR '']'';
          port = after_last colon hostport; head = before_last colon hostport in
      if colon \<notin> set hostport then Inl (Errorf ''missing port in address'')
      else if hd hostport = lb then
        if rb \<notin> set hostport then Inl (Errorf ''missing ] in address'')
        else
          let host = takeWhile (\<lambda>c. c \<noteq> rb) (tl hostport);
              rest = tl (dropWhile (\<lambda>c. c \<noteq> rb) hostport) in
          if rest = [] then Inl (Errorf ''missing port in address'')
          else if rest \<noteq> colon # port then
            Inl (Errorf (if hd rest = colon then ''too many colons in address'' else ''missing port in address''))
          else if lb \<in> set (tl hostport) then Inl (Errorf ''unexpected [ in address'')
          else if rb \<in> set rest then Inl (Errorf ''unexpected ] in address'')
          else Inr (host, port)
      else if colon \<in> set head then Inl (Errorf ''too many colons in address'')
      else if lb \<in> set hostport then Inl (Errorf ''unexpected [ in address'')
      else if rb \<in> set hostport then Inl (Errorf ''unexpected ] in address'')
      else Inr (head, port))"

text \<open>\<open>strconv.Atoi\<close>, on a platform where \<open>int\<close> has 64 bits.\<close>

definition Atoi :: "string \<Rightarrow> int64 res" where
  "Atoi s = (case parse_int64 s of None \<Rightarrow> Inl (Errorf ''invalid syntax'') | Some n \<Rightarrow> Inr n)"

subsection \<open>The platform URL\<close>

definition isHostPort :: "string \<Rightarrow> bool" where
  "isHostPort s =
     (case SplitHostPort s of
        Inl _ \<Rightarrow> False
      | Inr (host, port) \<Rightarrow>
          host \<noteq> [] \<and> (case Atoi port of Inl _ \<Rightarrow> False | Inr p \<Rightarrow> p \<ge> 1 \<and> p \<le> 65535))"

definition isSafePlatformURL :: "string \<Rightarrow> bool" where
  "isSafePlatformURL url =
     (let u = TrimSpace url in
      if u = [] then False
      else case CutPrefix u ''dns://'' of
        Some rest \<Rightarrow> isHostPort (if CHR ''/'' \<in> set rest then after_last CHR ''/'' rest else rest)
      | None \<Rightarrow>
          if contains u ''://'' then False
          else if CHR '':'' \<in> set u then isHostPort u
          else False)"

definition PlatformRpcURL :: "('s, 'f, 'z) KmsNode_scheme \<Rightarrow> string" where
  "PlatformRpcURL n = (case platformURL n of None \<Rightarrow> [] | Some u \<Rightarrow> u)"

text \<open>\<open>config\<close> is the URL of \<open>GetAvsConfig\<close>, \<open>None\<close> for a nil configuration.\<close>

definition refreshPlatformConfig :: "string option res \<Rightarrow> ('s, 'f) KmsNode \<Rightarrow> ('s, 'f) KmsNode" where
  "refreshPlatformConfig config n =
     (case config of
        Inl _ \<Rightarrow> n
      | Inr None \<Rightarrow> n
      | Inr (Some url) \<Rightarrow> if url \<noteq> [] \<and> \<not> isSafePlatformURL url then n else n\<lparr>platformURL := Some url\<rparr>)"

datatype log_value = StringValue string | OtherValue

text \<open>A log with the name of its event and the decoded arguments.\<close>

definition handlePlatformConfigLog ::
  "(string \<times> (string, log_value) gomap) option \<Rightarrow> ('s, 'f) KmsNode \<Rightarrow> ('s, 'f) KmsNode" where
  "handlePlatformConfigLog lwb n =
     (case lwb of
        None \<Rightarrow> n
      | Some (eventName, outputData) \<Rightarrow>
          if eventName \<noteq> ''AvsConfigSet'' then n
          else case gm_get outputData ''platformRpcUrl'' of
            Some (StringValue raw) \<Rightarrow>
              let url = TrimSpace raw in
              if url \<noteq> [] \<and> \<not> isSafePlatformURL url then n else n\<lparr>platformURL := Some url\<rparr>
          | _ \<Rightarrow> n)"

lemma SplitHostPort_plain:
  assumes "host \<noteq> []" "\<forall>c \<in> set (host @ port). c \<notin> set '':[]''"
  shows "SplitHostPort (host @ CHR '':'' # port) = Inr (host, port)"
proof -
  have l: "CHR '':'' \<notin> set port" "CHR '':'' \<notin> set host" "CHR ''['' \<notin> set port" "CHR ''['' \<notin> set host" "CHR '']'' \<notin> set port"
    "CHR '']'' \<notin> set host" using assms(2) by auto
  have "hd (host @ CHR '':'' # port) \<noteq> CHR ''[''" using l(4) assms(1) by (cases host) auto
  then show ?thesis using l last_split [OF l(1), of host] by (simp add: SplitHostPort_def Let_def)
qed

text \<open>
  A platform address \<open>host:port\<close> is accepted exactly when the port is a number from 1 to 65535,
  whatever the host is: a name without colon, slash, bracket and space, the words \<open>unix\<close> and
  \<open>passthrough\<close> included. The same holds for the target of a \<open>dns\<close> URL, whatever its authority.
\<close>

theorem isSafePlatformURL_host_port:
  assumes "host \<noteq> []" "\<forall>c \<in> set (host @ port @ authority). c \<notin> set '':/[]'' \<and> \<not> is_space c"
  shows "(isSafePlatformURL (host @ '':'' @ port) \<longleftrightarrow> (\<exists>p. parse_int64 port = Some p \<and> 1 \<le> p \<and> p \<le> 65535)) \<and>
    (isSafePlatformURL (''dns://'' @ authority @ ''/'' @ host @ '':'' @ port) \<longleftrightarrow>
      (\<exists>p. parse_int64 port = Some p \<and> 1 \<le> p \<and> p \<le> 65535))"
proof (rule conjI)
  have split: "SplitHostPort (host @ CHR '':'' # port) = Inr (host, port)"
    using assms(2) by (intro SplitHostPort_plain [OF assms(1)]) (simp, blast)
  have hp: "isHostPort (host @ CHR '':'' # port) \<longleftrightarrow> (\<exists>p. parse_int64 port = Some p \<and> 1 \<le> p \<and> p \<le> 65535)"
    using split assms(1) by (auto simp: isHostPort_def Atoi_def split: option.splits)
  have slash: "CHR ''/'' \<notin> set (host @ CHR '':'' # port)" using assms(2) by auto
  have "\<not> contains (host @ CHR '':'' # port) ''://''"
    using slash contains_set [of "host @ CHR '':'' # port" "''://''"] by auto
  moreover have "host @ CHR '':'' # port \<noteq> ''dns://'' @ r" for r
  proof
    assume "host @ CHR '':'' # port = ''dns://'' @ r"
    then have "set (host @ CHR '':'' # port) = set (''dns://'' @ r)" by (rule arg_cong)
    then show False using slash by auto
  qed
  then have "CutPrefix (host @ CHR '':'' # port) ''dns://'' = None"
    by (metis CutPrefix_Some not_None_eq)
  moreover have "TrimSpace (host @ CHR '':'' # port) = host @ CHR '':'' # port"
    using assms(2) by (intro TrimSpace_id) (auto simp: is_space_def)
  ultimately show "isSafePlatformURL (host @ '':'' @ port) \<longleftrightarrow> (\<exists>p. parse_int64 port = Some p \<and> 1 \<le> p \<and> p \<le> 65535)"
    using hp by (simp add: isSafePlatformURL_def)
  let ?u = "''dns://'' @ authority @ ''/'' @ host @ '':'' @ port"
  have "TrimSpace ?u = ?u" using assms(2) by (intro TrimSpace_id) (auto simp: is_space_def)
  moreover have "CutPrefix ?u ''dns://'' = Some (authority @ ''/'' @ host @ '':'' @ port)" by simp
  moreover have "after_last CHR ''/'' (authority @ ''/'' @ host @ '':'' @ port) = host @ CHR '':'' # port"
    using last_split [OF slash, of authority] by simp
  ultimately show "isSafePlatformURL ?u \<longleftrightarrow> (\<exists>p. parse_int64 port = Some p \<and> 1 \<le> p \<and> p \<le> 65535)"
    using hp by (simp add: isSafePlatformURL_def)
qed

theorem isSafePlatformURL_host_port_witness:
  "isSafePlatformURL (''unix'' @ '':'' @ ''80'') \<and> isSafePlatformURL (''dns://'' @ [] @ ''/'' @ ''kms'' @ '':'' @ ''9000'') \<and>
   \<not> isSafePlatformURL (''unix'' @ '':'' @ ''kms'')"
proof -
  have n: "parse_int64 ''80'' = Some 80" "parse_int64 ''9000'' = Some 9000" "parse_int64 ''kms'' = None" by code_simp+
  show ?thesis
    using isSafePlatformURL_host_port [of "''unix''" "''80''" "[]"] isSafePlatformURL_host_port [of "''kms''" "''9000''" "[]"]
      isSafePlatformURL_host_port [of "''unix''" "''kms''" "[]"] n
    by (simp add: is_space_def)
qed

subsection \<open>Construction\<close>

record Config =
  cfg_OperatorAddress :: string
  cfg_Port :: int
  cfg_ChainID :: ChainId
  cfg_AVSAddress :: string
  cfg_OperatorSetId :: nat
  cfg_AppAllowlist :: "string list"

text \<open>
  \<open>HexToAddress\<close> and \<open>Hex\<close> are go-ethereum's. Of the dependencies only the ones that are checked
  and the persistence layer matter here; \<open>h\<close> is the memory the new keystore finds.
\<close>

definition NewNode ::
  "(string \<Rightarrow> address) \<Rightarrow> (address \<Rightarrow> string) \<Rightarrow> Config \<Rightarrow> 'am option \<Rightarrow> 'cc option \<Rightarrow> address \<Rightarrow> 's \<Rightarrow>
   (ref \<Rightarrow> 'f KeyShareVersion) \<Rightarrow> ('s, 'f) KmsNode res" where
  "NewNode HexToAddress Hex cfg attestationManager baseContractCaller commitmentRegistryAddress p h =
     (if attestationManager = None then Inl (Errorf ''attestationManager is required and cannot be nil'')
      else if baseContractCaller = None then Inl (Errorf ''baseContractCaller is required'')
      else if commitmentRegistryAddress = 0 then Inl (Errorf ''commitmentRegistryAddress is required'')
      else
        let operatorAddress = HexToAddress (cfg_OperatorAddress cfg) in
        Inr \<lparr>n_OperatorAddress = Hex operatorAddress, n_keyStore = NewKeyStore h, n_persistence = p,
             n_abortTracker = \<lparr>at_TrackedSourceVersion = 0, at_ConsecutiveAborts = 0\<rparr>,
             n_addr = operatorAddress, n_ChainID = cfg_ChainID cfg, n_sessions = empty_registry,
             n_retained = \<lparr>retainedGeneratedShares = [], retainedGeneratedShareOrder = []\<rparr>,
             lastProcessedBoundary = 0,
             appAllowlist = (if length (cfg_AppAllowlist cfg) > 0
               then Some (fold (\<lambda>appID m. gm_set m (TrimSpace appID) True) (cfg_AppAllowlist cfg) [])
               else None),
             platformURL = None\<rparr>)"

subsection \<open>Restoration\<close>

text \<open>The loaded versions are objects of their own; their references are returned in order.\<close>

definition restore_versions :: "'f KeyShareVersion list \<Rightarrow> 'f KeyStore \<Rightarrow> ref list \<times> 'f KeyStore" where
  "restore_versions versions ks =
     fold (\<lambda>k (refs, ks). (refs @ [fresh_ref ks], add_new_version k ks)) versions ([], ks)"

definition restore_active :: "int64 \<Rightarrow> 'f KeyShareVersion list \<Rightarrow> ref list \<Rightarrow> 'f KeyStore \<Rightarrow> 'f KeyStore" where
  "restore_active activeTimestamp versions refs ks =
     (if activeTimestamp > 0 then
        case List.find (\<lambda>(k, _). Version k = activeTimestamp) (zip versions refs) of
          None \<Rightarrow> ks
        | Some (_, r) \<Rightarrow> SetActiveVersion r ks
      else ks)"

definition restore_tracker :: "NodeState option \<Rightarrow> 'f KeyStore \<Rightarrow> abortTracker \<Rightarrow> abortTracker" where
  "restore_tracker nodeSt ks t =
     (case nodeSt of
        None \<Rightarrow> t
      | Some st \<Rightarrow>
          (case GetActiveVersion ks of
             Some a \<Rightarrow>
               if TrackedSourceVersion st = Version (objs ks a)
               then \<lparr>at_TrackedSourceVersion = TrackedSourceVersion st, at_ConsecutiveAborts = ConsecutiveMPKAborts st\<rparr>
               else \<lparr>at_TrackedSourceVersion = 0, at_ConsecutiveAborts = 0\<rparr>
           | None \<Rightarrow> \<lparr>at_TrackedSourceVersion = 0, at_ConsecutiveAborts = 0\<rparr>))"

text \<open>Both branches of the loop over the sessions, expired or not, delete the session.\<close>

definition restore_sessions :: "('s, 'f) INodePersistence \<Rightarrow> int64 \<Rightarrow> int64 \<Rightarrow> ProtocolSessionState list \<Rightarrow> 's \<Rightarrow> 's" where
  "restore_sessions P now timeoutSeconds pss st =
     fold (\<lambda>p st. if IsExpired now (Some p) timeoutSeconds
                 then fst (pi_DeleteProtocolSession P st (ps_SessionTimestamp p))
                 else fst (pi_DeleteProtocolSession P st (ps_SessionTimestamp p))) pss st"

definition RestoreState ::
  "('s, 'f) INodePersistence \<Rightarrow> int64 \<Rightarrow> ('s, 'f) KmsNode \<Rightarrow> ('s, 'f) KmsNode \<times> unit res" where
  "RestoreState P now n =
     (let st = n_persistence n in
      case pi_LoadNodeState P st of
        Inl e \<Rightarrow> (n, Inl (Wrapf ''failed to load node state'' e))
      | Inr nodeSt \<Rightarrow>
      let n1 = (case nodeSt of
            None \<Rightarrow> n
          | Some ns \<Rightarrow> if LastProcessedBoundary ns > 0 then n\<lparr>lastProcessedBoundary := LastProcessedBoundary ns\<rparr> else n) in
      (case pi_ListKeyShareVersions P st of
        Inl e \<Rightarrow> (n1, Inl (Wrapf ''failed to load key share versions'' e))
      | Inr versions \<Rightarrow>
      (case restore_versions versions (n_keyStore n1) of
        (refs, ks1) \<Rightarrow>
      (case pi_GetActiveVersionTimestamp P st of
        Inl e \<Rightarrow> (n1\<lparr>n_keyStore := ks1\<rparr>, Inl (Wrapf ''failed to load active version timestamp'' e))
      | Inr activeTimestamp \<Rightarrow>
      let ks2 = restore_active activeTimestamp versions refs ks1;
          ks3 = (case pi_ListPoisonedVersions P st of Inl _ \<Rightarrow> ks2 | Inr vs \<Rightarrow> fold MarkPoisoned vs ks2);
          n2 = n1\<lparr>n_keyStore := ks3, n_abortTracker := restore_tracker nodeSt ks3 (n_abortTracker n1)\<rparr> in
      (case pi_ListProtocolSessions P st of
        Inl e \<Rightarrow> (n2, Inl (Wrapf ''failed to load protocol sessions'' e))
      | Inr pss \<Rightarrow>
          (n2\<lparr>n_persistence := restore_sessions P now (GetProtocolTimeoutForChain (n_ChainID n) div Second) pss st\<rparr>, Inr ()))))))"

subsection \<open>The scheduler\<close>

datatype task = StartDKG int64 | StartJoin int64 int64 | StartReshare int64 int64

definition persistBoundary ::
  "('s, 'f) INodePersistence \<Rightarrow> int64 \<Rightarrow> int64 \<Rightarrow> ('s, 'f) KmsNode \<Rightarrow> ('s, 'f) KmsNode" where
  "persistBoundary P now blockNumber n =
     (let st = (case pi_LoadNodeState P (n_persistence n) of
            Inr (Some st) \<Rightarrow> st
          | _ \<Rightarrow> NodeState_zero\<lparr>ns_OperatorAddress := n_OperatorAddress n, NodeStartTime := now\<rparr>) in
      n\<lparr>n_persistence := fst (pi_SaveNodeState P (n_persistence n)
          (Some (st\<lparr>LastProcessedBoundary := blockNumber, ns_OperatorAddress := n_OperatorAddress n\<rparr>)))\<rparr>)"

text \<open>
  The reaction to a block: the node, and the round that is started in a goroutine of its own.
  \<open>listed\<close> and \<open>query\<close> are the answers of the peering system and of the operators.
\<close>

definition checkScheduledOperations ::
  "('s, 'f) INodePersistence \<Rightarrow> int64 \<Rightarrow> OperatorSetPeers res \<Rightarrow> (OperatorSetPeer \<Rightarrow> G2Point list res) \<Rightarrow> int64 \<Rightarrow> int64 \<Rightarrow>
   ('s, 'f) KmsNode \<Rightarrow> ('s, 'f) KmsNode \<times> task option" where
  "checkScheduledOperations P now listed query blockNumber blockTimestamp n =
     (let blockInterval = GetReshareBlockIntervalForChain (n_ChainID n) in
      if blockNumber mod blockInterval \<noteq> 0 then (n, None)
      else if lastProcessedBoundary n = 0 then (n\<lparr>lastProcessedBoundary := blockNumber\<rparr>, None)
      else if blockNumber = lastProcessedBoundary n then (n, None)
      else
        let n1 = persistBoundary P now blockNumber (n\<lparr>lastProcessedBoundary := blockNumber\<rparr>) in
        case fetchCurrentOperators listed of
          Inl _ \<Rightarrow> (n1, None)
        | Inr operators \<Rightarrow>
            if length (activeSessions (n_sessions n1)) > 0 then (n1, None)
            else if \<not> hasExistingShares (n_keyStore n1) then
              if detectClusterState query operators = ''genesis'' then (n1, Some (StartDKG blockTimestamp))
              else (n1, Some (StartJoin blockTimestamp blockNumber))
            else (n1, Some (StartReshare blockTimestamp blockNumber)))"

text \<open>\<open>Start\<close>, up to the services that run on their own.\<close>

definition Start ::
  "('s, 'f) INodePersistence \<Rightarrow> int64 \<Rightarrow> unit res \<Rightarrow> string option res \<Rightarrow> ('s, 'f) KmsNode \<Rightarrow> ('s, 'f) KmsNode \<times> unit res" where
  "Start P now poller_start config n =
     (case RestoreState P now n of
        (n1, Inl e) \<Rightarrow> (n1, Inl (Wrapf ''failed to restore state'' e))
      | (n1, Inr _) \<Rightarrow>
          (case poller_start of
             Inl e \<Rightarrow> (n1, Inl (Wrapf ''failed to start chain poller'' e))
           | Inr _ \<Rightarrow> (refreshPlatformConfig config n1, Inr ())))"

subsection \<open>What the restoration gives\<close>

text \<open>A version up to its flag, which the keystore maintains.\<close>

definition same_version :: "'f KeyShareVersion \<Rightarrow> 'f KeyShareVersion \<Rightarrow> bool" where
  "same_version k k' \<longleftrightarrow> k\<lparr>IsActive := True\<rparr> = k'\<lparr>IsActive := True\<rparr>"

lemma same_version_simps [simp]: "same_version k k" "same_version (k\<lparr>IsActive := b\<rparr>) k' = same_version k k'"
  "same_version k (k'\<lparr>IsActive := b\<rparr>) = same_version k k'"
  by (simp_all add: same_version_def)

lemma same_versionD: "same_version k k' \<Longrightarrow> Version k = Version k' \<and> PrivateShare k = PrivateShare k' \<and>
    MasterPublicKey k = MasterPublicKey k' \<and> ParticipantIDs k = ParticipantIDs k'"
  by (cases k; cases k') (simp add: same_version_def)

lemma objs_clear_active: "same_version (objs (clear_active ks) r) k = same_version (objs ks r) k"
  by (simp add: clear_active_def set_flag_def split: option.splits)

lemma objs_set_flag: "same_version (objs (set_flag r' b ks) r) k = same_version (objs ks r) k"
  by (simp add: set_flag_def)

lemma objs_add_new_version:
  "same_version (objs (add_new_version k ks) r) k' = (if r = fresh_ref ks then same_version k k' else same_version (objs ks r) k')"
  by (simp add: add_new_version_def AddVersion_def Let_def objs_clear_active)

lemma add_new_version_frame [simp]:
  "keyVersions (add_new_version k ks) = keyVersions ks @ [fresh_ref ks]" "poisoned (add_new_version k ks) = poisoned ks"
  by (simp_all add: add_new_version_def AddVersion_def Let_def)

text \<open>
  The references of the restored versions are new and distinct, and the objects are the loaded
  versions, in order.
\<close>

lemma restore_versions_spec:
  assumes "restore_versions vs ks = (refs, ks')"
  shows "keyVersions ks' = keyVersions ks @ refs \<and> poisoned ks' = poisoned ks \<and> distinct refs \<and>
    list_all2 (\<lambda>k r. same_version (objs ks' r) k) vs refs \<and> (ks_reachable ks \<longrightarrow> ks_reachable ks')"
  using assms
proof (induction vs arbitrary: refs ks' rule: rev_induct)
  case (snoc k vs)
  obtain refs0 ks0 where r: "restore_versions vs ks = (refs0, ks0)" by force
  then have e: "refs = refs0 @ [fresh_ref ks0]" "ks' = add_new_version k ks0"
    using snoc.prems by (simp_all add: restore_versions_def)
  note IH = snoc.IH [OF r]
  have "fresh_ref ks0 \<notin> set refs0" using fresh_ref(1) [of ks0] IH by auto
  moreover from this have "list_all2 (\<lambda>k r. same_version (objs ks' r) k) vs refs0"
    using IH by (simp add: e objs_add_new_version list_all2_conv_all_nth) (metis nth_mem)
  moreover have "same_version (objs ks' (fresh_ref ks0)) k" by (simp add: e objs_add_new_version)
  ultimately have "list_all2 (\<lambda>k r. same_version (objs ks' r) k) (vs @ [k]) refs"
    by (auto simp: e(1) intro: list_all2_appendI)
  then show ?case using IH \<open>fresh_ref ks0 \<notin> set refs0\<close> by (auto simp: e intro: add_new_version_reachable)
qed (simp add: restore_versions_def)

lemma restore_active_frame:
  "keyVersions (restore_active t vs refs ks) = keyVersions ks" "poisoned (restore_active t vs refs ks) = poisoned ks"
  "same_version (objs (restore_active t vs refs ks) r) k = same_version (objs ks r) k"
  "ks_reachable ks \<Longrightarrow> ks_reachable (restore_active t vs refs ks)"
  by (auto simp: restore_active_def SetActiveVersion_def objs_set_flag objs_clear_active
      intro: ks_reachable.step ks_step.SetActive [unfolded SetActiveVersion_def] split: option.splits)

lemma MarkPoisoned_fold:
  "keyVersions (fold MarkPoisoned ps ks) = keyVersions ks" "objs (fold MarkPoisoned ps ks) = objs ks"
  "activeVersion (fold MarkPoisoned ps ks) = activeVersion ks" "set (poisoned (fold MarkPoisoned ps ks)) = set (poisoned ks) \<union> set ps"
  "ks_reachable ks \<Longrightarrow> ks_reachable (fold MarkPoisoned ps ks)"
proof (induction ps arbitrary: ks)
  case (Cons p ps)
  { case 1 then show ?case using Cons(1) by (simp add: MarkPoisoned_def) }
  { case 2 then show ?case using Cons(2) by (simp add: MarkPoisoned_def) }
  { case 3 then show ?case using Cons(3) by (simp add: MarkPoisoned_def) }
  { case 4 then show ?case using Cons(4) by (auto simp: MarkPoisoned_def) }
  { case 5 then show ?case using Cons(5) by (auto intro: ks_reachable.step ks_step.Poison) }
qed simp_all

text \<open>When the active timestamp is that of a loaded version, that version is active, flagged and unchanged.\<close>

lemma restore_active_found:
  assumes "0 < t" "k \<in> set vs" "Version k = t" "distinct (map Version vs)"
    "list_all2 (\<lambda>k r. same_version (objs ks r) k) vs refs"
  obtains r where "r \<in> set refs" "activeVersion (restore_active t vs refs ks) = Some r"
    "objs (restore_active t vs refs ks) r = k\<lparr>IsActive := True\<rparr>"
proof -
  have len: "length vs = length refs" using assms(5) by (rule list_all2_lengthD)
  have "\<exists>x \<in> set (zip vs refs). (\<lambda>(k, _). Version k = t) x"
    using assms(2,3) len by (auto simp: set_zip in_set_conv_nth)
  then obtain k' r where f: "List.find (\<lambda>(k, _). Version k = t) (zip vs refs) = Some (k', r)"
    by (metis (no_types, lifting) find_None_iff not_None_eq surj_pair)
  then have "(k', r) \<in> set (zip vs refs)" "Version k' = t" by (auto simp: find_Some_iff in_set_conv_nth)
  then have kr: "k' \<in> set vs" "r \<in> set refs" "same_version (objs ks r) k'"
    using assms(5) by (auto dest: set_zip_leftD set_zip_rightD simp: list_all2_iff)
  then have "k' = k" using assms(2-4) \<open>Version k' = t\<close> by (metis distinct_map inj_onD)
  with kr f assms(1) show thesis
    by (intro that [of r])
      (auto simp: restore_active_def SetActiveVersion_def set_flag_def clear_active_def same_version_def split: option.splits)
qed

text \<open>
  \<open>restored a n\<close>: the node \<open>n\<close> serves what the abstract store \<open>a\<close> holds, every version
  and nothing else, the poisoned ones marked, the active one active, the boundary remembered.
\<close>

definition boundary_of :: "'f pstore \<Rightarrow> int64" where
  "boundary_of a = (case p_node a of None \<Rightarrow> 0 | Some st \<Rightarrow> max 0 (LastProcessedBoundary st))"

definition store_ok :: "'f pstore \<Rightarrow> bool" where
  "store_ok a \<longleftrightarrow> (\<forall>t p. p_sessions a t = Some p \<longrightarrow> ps_SessionTimestamp p = t \<and> int64_range t)"

definition restored :: "'f pstore \<Rightarrow> ('s, 'f) KmsNode \<Rightarrow> bool" where
  "restored a n \<longleftrightarrow>
     (let ks = n_keyStore n in
      (\<forall>k. p_keys a (Version k) = Some k \<longrightarrow> (\<exists>r \<in> set (keyVersions ks). same_version (objs ks r) k)) \<and>
      (\<forall>r \<in> set (keyVersions ks). \<exists>k. p_keys a (Version k) = Some k \<and> same_version (objs ks r) k) \<and>
      set (poisoned ks) = p_poisoned a \<and>
      (\<forall>k. 0 < Version k \<longrightarrow> p_active a = Version k \<longrightarrow> p_keys a (Version k) = Some k \<longrightarrow>
         (\<exists>r \<in> set (keyVersions ks). GetActiveVersion ks = Some r \<and> objs ks r = k\<lparr>IsActive := True\<rparr>)) \<and>
      lastProcessedBoundary n = boundary_of a \<and> ks_reachable ks)"

context node_persistence
begin

lemma restore_sessions_effect:
  assumes "valid s" "\<not> p_closed (absf s)" "\<And>p. p \<in> set pss \<Longrightarrow> int64_range (ps_SessionTimestamp p)"
  shows "valid (restore_sessions P now timeout pss s) \<and> absf (restore_sessions P now timeout pss s) =
    (absf s)\<lparr>p_sessions := (\<lambda>t. if t \<in> ps_SessionTimestamp ` set pss then None else p_sessions (absf s) t)\<rparr>"
  using assms
proof (induction pss arbitrary: s)
  case (Cons p pss)
  let ?s = "fst (pi_DeleteProtocolSession P s (ps_SessionTimestamp p))"
  have w: "valid ?s" "absf ?s = (absf s)\<lparr>p_sessions := (p_sessions (absf s))(ps_SessionTimestamp p := None)\<rparr>"
    using delete_session [OF Cons.prems(1,2), of "ps_SessionTimestamp p"] Cons.prems(3) by (simp_all add: writes_def)
  have "restore_sessions P now timeout (p # pss) s = restore_sessions P now timeout pss ?s"
    by (simp add: restore_sessions_def)
  then show ?case using Cons.IH [OF w(1)] Cons.prems w by (auto simp: fun_eq_iff)
qed (simp add: restore_sessions_def)

lemma RestoreState_restored:
  assumes "valid (n_persistence n)" "\<not> p_closed (absf (n_persistence n))" "store_ok (absf (n_persistence n))"
    and "n_keyStore n = NewKeyStore h" "lastProcessedBoundary n = 0"
  shows "\<exists>n'. RestoreState P now n = (n', Inr ()) \<and> restored (absf (n_persistence n)) n' \<and> valid (n_persistence n') \<and>
    absf (n_persistence n') = (absf (n_persistence n))\<lparr>p_sessions := Map.empty\<rparr>"
proof -
  let ?s = "n_persistence n" let ?a = "absf ?s"
  obtain vs where vs: "pi_ListKeyShareVersions P ?s = Inr vs" "sorted_wrt (<) (map Version vs)"
    "\<And>k. k \<in> set vs \<longleftrightarrow> p_keys ?a (Version k) = Some k" using list_keys [OF assms(1,2)] by blast
  obtain ps where ps: "pi_ListPoisonedVersions P ?s = Inr ps" "set ps = p_poisoned ?a"
    using list_poisoned [OF assms(1,2)] by blast
  obtain pss where pss: "pi_ListProtocolSessions P ?s = Inr pss"
    "\<And>p. p \<in> set pss \<longleftrightarrow> p_sessions ?a (ps_SessionTimestamp p) = Some p" using list_sessions [OF assms(1,2)] by blast
  obtain refs ks1 where r: "restore_versions vs (NewKeyStore h) = (refs, ks1)" by force
  note spec = restore_versions_spec [OF r]
  let ?ks2 = "restore_active (p_active ?a) vs refs ks1"
  let ?ks = "fold MarkPoisoned ps ?ks2"
  let ?s' = "restore_sessions P now (GetProtocolTimeoutForChain (n_ChainID n) div Second) pss ?s"
  define n' where "n' = n\<lparr>lastProcessedBoundary := boundary_of ?a, n_keyStore := ?ks,
      n_abortTracker := restore_tracker (p_node ?a) ?ks (n_abortTracker n), n_persistence := ?s'\<rparr>"
  have run: "RestoreState P now n = (n', Inr ())"
    using load_node [OF assms(1,2)] get_active [OF assms(1,2)] vs(1) ps(1) pss(1) r assms(4,5)
    by (auto simp: RestoreState_def n'_def Let_def boundary_of_def max_def split: option.splits)
  have refs: "keyVersions ?ks = refs" "set (poisoned ?ks) = p_poisoned ?a" "ks_reachable ?ks"
    using spec ps(2) by (auto simp: MarkPoisoned_fold restore_active_frame NewKeyStore_def intro!: ks_reachable.init [unfolded NewKeyStore_def])
  have all2: "list_all2 (\<lambda>k r. same_version (objs ?ks r) k) vs refs"
    using spec by (simp add: MarkPoisoned_fold restore_active_frame)
  have "restored ?a n'"
    unfolding restored_def Let_def
  proof (intro conjI allI impI ballI)
    fix k assume "p_keys ?a (Version k) = Some k"
    then obtain i where "i < length vs" "vs ! i = k" using vs(3) by (metis in_set_conv_nth)
    then show "\<exists>r \<in> set (keyVersions (n_keyStore n')). same_version (objs (n_keyStore n') r) k"
      using all2 by (auto simp: n'_def refs list_all2_conv_all_nth intro!: bexI [of _ "refs ! i"])
  next
    fix r assume "r \<in> set (keyVersions (n_keyStore n'))"
    then obtain i where "i < length refs" "refs ! i = r" by (auto simp: n'_def refs in_set_conv_nth)
    then show "\<exists>k. p_keys ?a (Version k) = Some k \<and> same_version (objs (n_keyStore n') r) k"
      using all2 vs(3) [of "vs ! i"] by (auto simp: n'_def list_all2_conv_all_nth intro!: exI [of _ "vs ! i"])
  next
    fix k assume k: "0 < Version k" "p_active ?a = Version k" "p_keys ?a (Version k) = Some k"
    have "distinct (map Version vs)" using vs(2) by (simp add: strict_sorted_iff)
    moreover have "0 < p_active ?a" "k \<in> set vs" "Version k = p_active ?a" using k vs(3) by simp_all
    ultimately obtain r where "r \<in> set refs" "activeVersion ?ks2 = Some r" "objs ?ks2 r = k\<lparr>IsActive := True\<rparr>"
      using restore_active_found spec by metis
    then show "\<exists>r \<in> set (keyVersions (n_keyStore n')). GetActiveVersion (n_keyStore n') = Some r \<and>
        objs (n_keyStore n') r = k\<lparr>IsActive := True\<rparr>"
      unfolding n'_def GetActiveVersion_def by (simp add: refs(1)) (simp add: MarkPoisoned_fold)
  qed (use refs in \<open>simp_all add: n'_def\<close>)
  moreover have rng: "int64_range (ps_SessionTimestamp p)" if "p \<in> set pss" for p
    using assms(3) pss(2) [of p] that unfolding store_ok_def by blast
  have "p_sessions ?a t = None" if "t \<notin> ps_SessionTimestamp ` set pss" for t
  proof (rule ccontr)
    assume "p_sessions ?a t \<noteq> None"
    then obtain p where "p_sessions ?a t = Some p" "ps_SessionTimestamp p = t"
      using assms(3) unfolding store_ok_def by blast
    with pss(2) [of p] that show False by auto
  qed
  then have "valid ?s'" "absf ?s' = ?a\<lparr>p_sessions := Map.empty\<rparr>"
    using restore_sessions_effect [OF assms(1,2) rng, of pss] by (auto simp: fun_eq_iff)
  ultimately show ?thesis using run by (auto simp: n'_def)
qed

end

text \<open>
  C10. Recovery after a crash: when a node has committed a key version to the durable store, then a node
  that is constructed anew on that store and restores its state serves exactly that version as its
  active one, has every other stored version and no more, knows the poisoned versions and the last
  boundary, and finds no unfinished session.
\<close>

theorem crash_recovery:
  assumes "bp_valid K J view (n_persistence n)" "\<not> bp_closed (n_persistence n)" "store_ok (bp_abs J view (n_persistence n))"
    and commit: "commit_version (badger_persistence K J) msg k n = (n', Inr ())"
    and k: "int64_range (Version k)" "0 < Version k" "IsActive k"
    and new: "n_keyStore m = NewKeyStore h" "lastProcessedBoundary m = 0" "n_persistence m = n_persistence n'"
  shows "\<exists>m' r. RestoreState (badger_persistence K J) now m = (m', Inr ()) \<and>
    GetActiveVersion (n_keyStore m') = Some r \<and> objs (n_keyStore m') r = k \<and>
    restored ((bp_abs J view (n_persistence n))\<lparr>p_keys := (p_keys (bp_abs J view (n_persistence n)))(Version k \<mapsto> k),
      p_active := Version k\<rparr>) m' \<and>
    bp_ListProtocolSessions K J (n_persistence m') = Inr []"
proof -
  let ?a = "(bp_abs J view (n_persistence n))\<lparr>p_keys := (p_keys (bp_abs J view (n_persistence n)))(Version k \<mapsto> k),
      p_active := Version k\<rparr>"
  have "\<not> p_closed (bp_abs J view (n_persistence n))" using assms(2) by simp
  from badger.commit_version_ok [OF assms(1) this k(1), of msg] commit
  have s: "bp_valid K J view (n_persistence m)" "bp_abs J view (n_persistence m) = ?a" by (auto simp: new(3))
  have o: "\<not> p_closed ?a" "store_ok ?a" using assms(2,3) by (simp_all add: store_ok_def)
  obtain m' where m': "RestoreState (badger_persistence K J) now m = (m', Inr ())" "restored ?a m'"
    "bp_valid K J view (n_persistence m')" "bp_abs J view (n_persistence m') = ?a\<lparr>p_sessions := Map.empty\<rparr>"
    using badger.RestoreState_restored [OF s(1) _ _ new(1,2)] s(2) o by metis
  have "p_active ?a = Version k" "p_keys ?a (Version k) = Some k" by simp_all
  with m'(2) k(2) obtain r where "GetActiveVersion (n_keyStore m') = Some r" "objs (n_keyStore m') r = k\<lparr>IsActive := True\<rparr>"
    unfolding restored_def Let_def by blast
  moreover have "\<not> p_closed (bp_abs J view (n_persistence m'))" using m'(4) o(1) by simp
  then have "bp_ListProtocolSessions K J (n_persistence m') = Inr []"
    using badger.list_sessions [OF m'(3)] m'(4) by (auto simp: badger_simps)
  ultimately show ?thesis using m'(1,2) k(3) by (intro exI [of _ m'] exI [of _ r]) auto
qed

definition new_node :: "'s \<Rightarrow> ('s, gf) KmsNode" where
  "new_node s =
     \<lparr>n_OperatorAddress = ''0x01'', n_keyStore = NewKeyStore (\<lambda>_. mock_ksv 0), n_persistence = s,
      n_abortTracker = \<lparr>at_TrackedSourceVersion = 0, at_ConsecutiveAborts = 0\<rparr>, n_addr = 1, n_ChainID = 31337,
      n_sessions = empty_registry, n_retained = \<lparr>retainedGeneratedShares = [], retainedGeneratedShareOrder = []\<rparr>,
      lastProcessedBoundary = 0, appAllowlist = None, platformURL = None\<rparr>"

theorem crash_recovery_witness:
  "\<exists>n' m' r. commit_version (badger_persistence mock_kv mock_json) [] (mock_ksv 7) mock_node = (n', Inr ()) \<and>
    RestoreState (badger_persistence mock_kv mock_json) 100 (new_node (n_persistence n')) = (m', Inr ()) \<and>
    GetActiveVersion (n_keyStore m') = Some r \<and> objs (n_keyStore m') r = mock_ksv 7"
proof -
  have v: "bp_valid mock_kv mock_json gm_get (n_persistence mock_node)" "\<not> bp_closed (n_persistence mock_node)"
    "int64_range (Version (mock_ksv 7))" "0 < Version (mock_ksv 7)" "IsActive (mock_ksv 7)"
    using mock_badger_valid by (simp_all add: mock_node_def mock_badger_def mock_ksv_def int64_range_def)
  have "store_ok (bp_abs mock_json gm_get (n_persistence mock_node) :: gf pstore)"
    using NewBadgerPersistence_fresh [OF mock_kv_laws mock_json_laws, of "[]"]
    by (simp add: store_ok_def mock_node_def empty_pstore_def NewBadgerPersistence_def initSchema_def mock_kv_def bp_update_def mock_badger_def)
  moreover obtain s where c: "commit_version (badger_persistence mock_kv mock_json) [] (mock_ksv 7) mock_node =
      (mock_node\<lparr>n_persistence := s, n_keyStore := add_new_version (mock_ksv 7) (n_keyStore mock_node)\<rparr>, Inr ())"
    using badger.commit_version_ok [OF v(1) _ v(3), of "[]"] v(2) by auto
  ultimately have "\<exists>m' r. RestoreState (badger_persistence mock_kv mock_json) 100 (new_node s) = (m', Inr ()) \<and>
      GetActiveVersion (n_keyStore m') = Some r \<and> objs (n_keyStore m') r = mock_ksv 7"
    using crash_recovery [OF v(1,2) _ c v(3-5), of "new_node s" "\<lambda>_. mock_ksv 0" 100] by (fastforce simp: new_node_def)
  with c show ?thesis by auto
qed

subsection \<open>Boundaries start rounds at most once\<close>

text \<open>
  The histories of a node: blocks arrive with numbers that never decrease (a block may be delivered
  again), the rounds and other goroutines change everything but the boundary, and the process may end
  and restore itself from its store. \<open>seen\<close> is the last block number, \<open>started\<close> the rounds with the
  block that started them.
\<close>

definition node_ok :: "('s \<Rightarrow> bool) \<Rightarrow> ('s \<Rightarrow> 'f pstore) \<Rightarrow> ('s, 'f) KmsNode \<Rightarrow> bool" where
  "node_ok valid absf n \<longleftrightarrow> valid (n_persistence n) \<and> \<not> p_closed (absf (n_persistence n)) \<and>
     store_ok (absf (n_persistence n)) \<and> n_OperatorAddress n \<noteq> []"

inductive history ::
  "('s, 'f) INodePersistence \<Rightarrow> ('s \<Rightarrow> bool) \<Rightarrow> ('s \<Rightarrow> 'f pstore) \<Rightarrow> ChainId \<Rightarrow> int64 \<Rightarrow> (int64 \<times> task) list \<Rightarrow> ('s, 'f) KmsNode \<Rightarrow> bool"
  for P valid absf c where
  boot: "node_ok valid absf n \<Longrightarrow> n_ChainID n = c \<Longrightarrow> lastProcessedBoundary n = boundary_of (absf (n_persistence n)) \<Longrightarrow>
     history P valid absf c (lastProcessedBoundary n) [] n"
| block: "history P valid absf c seen started n \<Longrightarrow> seen \<le> b \<Longrightarrow> int64_range b \<Longrightarrow>
     checkScheduledOperations P now listed query b ts n = (n', t) \<Longrightarrow>
     history P valid absf c b (case t of None \<Rightarrow> started | Some x \<Rightarrow> started @ [(b, x)]) n'"
| other: "history P valid absf c seen started n \<Longrightarrow> node_ok valid absf n' \<Longrightarrow> n_ChainID n' = c \<Longrightarrow>
     lastProcessedBoundary n' = lastProcessedBoundary n \<Longrightarrow>
     boundary_of (absf (n_persistence n')) = boundary_of (absf (n_persistence n)) \<Longrightarrow> history P valid absf c seen started n'"
| restart: "history P valid absf c seen started n \<Longrightarrow> n_keyStore m = NewKeyStore h \<Longrightarrow> lastProcessedBoundary m = 0 \<Longrightarrow>
     n_persistence m = n_persistence n \<Longrightarrow> n_ChainID m = c \<Longrightarrow> n_OperatorAddress m \<noteq> [] \<Longrightarrow>
     RestoreState P now m = (n', r) \<Longrightarrow> history P valid absf c seen started n'"

primrec trigger_block :: "task \<Rightarrow> int64 option" where
  "trigger_block (StartDKG t) = None"
| "trigger_block (StartJoin t b) = Some b"
| "trigger_block (StartReshare t b) = Some b"

definition history_inv :: "('s \<Rightarrow> bool) \<Rightarrow> ('s \<Rightarrow> 'f pstore) \<Rightarrow> ChainId \<Rightarrow> int64 \<Rightarrow> (int64 \<times> task) list \<Rightarrow> ('s, 'f) KmsNode \<Rightarrow> bool" where
  "history_inv valid absf c seen started n \<longleftrightarrow>
     (let B = boundary_of (absf (n_persistence n)) in
      node_ok valid absf n \<and> n_ChainID n = c \<and> 0 \<le> lastProcessedBoundary n \<and> lastProcessedBoundary n \<le> seen \<and>
      (B = lastProcessedBoundary n \<or> B = 0) \<and> sorted_wrt (<) (map fst started) \<and>
      (\<forall>(b, t) \<in> set started. 0 < b \<and> b \<le> B \<and> b mod GetReshareBlockIntervalForChain c = 0 \<and> trigger_block t \<in> {None, Some b}))"

lemma RestoreState_frame:
  assumes "RestoreState P now m = (n, r)"
  shows "n_ChainID n = n_ChainID m \<and> n_OperatorAddress n = n_OperatorAddress m"
  using assms by (auto simp: RestoreState_def Let_def split: sum.splits prod.splits option.splits if_splits)

context node_persistence
begin

lemma persistBoundary_effect:
  assumes "node_ok valid absf n" "0 \<le> b"
  shows "node_ok valid absf (persistBoundary P now b n) \<and> boundary_of (absf (n_persistence (persistBoundary P now b n))) = b"
proof -
  let ?st = "(case p_node (absf (n_persistence n)) of Some st \<Rightarrow> st
      | None \<Rightarrow> NodeState_zero\<lparr>ns_OperatorAddress := n_OperatorAddress n, NodeStartTime := now\<rparr>)
      \<lparr>LastProcessedBoundary := b, ns_OperatorAddress := n_OperatorAddress n\<rparr>"
  have "pi_LoadNodeState P (n_persistence n) = Inr (p_node (absf (n_persistence n)))"
    using load_node assms(1) by (simp add: node_ok_def)
  then have p: "persistBoundary P now b n = n\<lparr>n_persistence := fst (pi_SaveNodeState P (n_persistence n) (Some ?st))\<rparr>"
    by (simp add: persistBoundary_def Let_def split: option.splits)
  have "writes valid absf (n_persistence n) (\<lambda>a. a\<lparr>p_node := Some ?st\<rparr>) (pi_SaveNodeState P (n_persistence n) (Some ?st))"
    using assms(1) by (intro save_node) (auto simp: node_ok_def)
  then show ?thesis using assms unfolding p by (auto simp: writes_def node_ok_def store_ok_def boundary_of_def)
qed

lemma checkScheduledOperations_cases:
  assumes "checkScheduledOperations P now listed query b ts n = (n', t)"
  obtains (ignored) "n' = n" "t = None"
  | (first) "n' = n\<lparr>lastProcessedBoundary := b\<rparr>" "t = None" "lastProcessedBoundary n = 0"
  | (boundary) "b mod GetReshareBlockIntervalForChain (n_ChainID n) = 0" "lastProcessedBoundary n \<noteq> 0" "b \<noteq> lastProcessedBoundary n"
      "n' = persistBoundary P now b (n\<lparr>lastProcessedBoundary := b\<rparr>)" "\<And>x. t = Some x \<Longrightarrow> trigger_block x \<in> {None, Some b}"
proof -
  note run = assms [unfolded checkScheduledOperations_def Let_def]
  consider "b mod GetReshareBlockIntervalForChain (n_ChainID n) \<noteq> 0 \<or> lastProcessedBoundary n \<noteq> 0 \<and> b = lastProcessedBoundary n"
    | "b mod GetReshareBlockIntervalForChain (n_ChainID n) = 0" "lastProcessedBoundary n = 0"
    | "b mod GetReshareBlockIntervalForChain (n_ChainID n) = 0" "lastProcessedBoundary n \<noteq> 0" "b \<noteq> lastProcessedBoundary n" by metis
  then show thesis
  proof cases
    case 1
    then have "n' = n" "t = None" using run by (auto split: if_splits)
    then show ?thesis by (rule ignored)
  next
    case 2
    then have "n' = n\<lparr>lastProcessedBoundary := b\<rparr>" "t = None" using run by auto
    then show ?thesis using 2(2) by (rule first)
  next
    case 3
    let ?n = "persistBoundary P now b (n\<lparr>lastProcessedBoundary := b\<rparr>)"
    from run have "(case fetchCurrentOperators listed of Inl _ \<Rightarrow> (?n, None)
        | Inr operators \<Rightarrow>
            if length (activeSessions (n_sessions ?n)) > 0 then (?n, None)
            else if \<not> hasExistingShares (n_keyStore ?n) then
              if detectClusterState query operators = ''genesis'' then (?n, Some (StartDKG ts)) else (?n, Some (StartJoin ts b))
            else (?n, Some (StartReshare ts b))) = (n', t)" using 3 by simp
    then have "n' = ?n \<and> t \<in> {None, Some (StartDKG ts), Some (StartJoin ts b), Some (StartReshare ts b)}"
      by (auto split: sum.splits if_splits)
    with 3 show ?thesis by (intro boundary) auto
  qed
qed

lemma history_invariant:
  assumes "history P valid absf c seen started n"
  shows "history_inv valid absf c seen started n"
  using assms
proof (induction rule: history.induct)
  case (boot n)
  then show ?case by (auto simp: history_inv_def Let_def boundary_of_def split: option.splits)
next
  case (block seen started n b now listed query ts n' t)
  note inv = block.IH [unfolded history_inv_def Let_def]
  from block.hyps(4) show ?case
  proof (cases rule: checkScheduledOperations_cases)
    case ignored
    then show ?thesis using inv block.hyps(2) by (simp add: history_inv_def Let_def)
  next
    case first
    then show ?thesis using inv block.hyps(2) by (auto simp: history_inv_def Let_def node_ok_def)
  next
    case boundary
    let ?n = "n\<lparr>lastProcessedBoundary := b\<rparr>"
    have b: "0 < b" "\<And>x. x \<in> set started \<Longrightarrow> fst x < b" using inv boundary(2,3) block.hyps(2) by fastforce+
    have "node_ok valid absf ?n" using inv by (simp add: node_ok_def)
    from persistBoundary_effect [OF this, of b now] b(1)
    have n': "node_ok valid absf n'" "boundary_of (absf (n_persistence n')) = b" by (simp_all add: boundary(4))
    have "n_ChainID n' = c" "lastProcessedBoundary n' = b"
      using inv by (simp_all add: boundary(4) persistBoundary_def Let_def)
    moreover have "(\<lambda>(b', t). 0 < b' \<and> b' \<le> b \<and> b' mod GetReshareBlockIntervalForChain c = 0 \<and> trigger_block t \<in> {None, Some b'}) x"
      if "x \<in> set started" for x using inv b(2) [OF that] that by force
    ultimately show ?thesis
      using n' b inv boundary(1,5) unfolding history_inv_def Let_def
      by (cases t) (force simp: sorted_wrt_append)+
  qed
next
  case (other seen started n n')
  then show ?case by (simp add: history_inv_def Let_def)
next
  case (restart seen started n m h now n' r)
  note inv = restart.IH [unfolded history_inv_def Let_def]
  let ?a = "absf (n_persistence n)"
  from inv have "valid (n_persistence m)" "\<not> p_closed (absf (n_persistence m))" "store_ok (absf (n_persistence m))"
    by (simp_all add: node_ok_def restart.hyps(4))
  from RestoreState_restored [OF this restart.hyps(2,3), of now] restart.hyps(4,7)
  have r: "restored ?a n'" "valid (n_persistence n')" "absf (n_persistence n') = ?a\<lparr>p_sessions := Map.empty\<rparr>" by auto
  have "n_ChainID n' = n_ChainID m" "n_OperatorAddress n' = n_OperatorAddress m"
    using RestoreState_frame [OF restart.hyps(7)] by simp_all
  then have ok: "node_ok valid absf n'" "n_ChainID n' = c"
    using inv r restart.hyps(5,6) by (simp_all add: node_ok_def store_ok_def)
  have "lastProcessedBoundary n' = boundary_of ?a" "boundary_of (absf (n_persistence n')) = boundary_of ?a"
    using r by (simp_all add: restored_def Let_def boundary_of_def)
  then show ?case
    using inv ok by (auto simp: history_inv_def Let_def)
qed

end


lemma mock_store:
  "bp_abs mock_json gm_get mock_badger = empty_pstore" "\<not> bp_closed mock_badger"
  using NewBadgerPersistence_fresh [OF mock_kv_laws mock_json_laws, of "[]"]
  by (simp_all add: NewBadgerPersistence_def initSchema_def mock_kv_def bp_update_def mock_badger_def)


end
