(* ===== verification/Message_Handlers.thy ===== *)
theory Message_Handlers
  imports Node_State
begin

text \<open>
  The handlers of messages between operators (\<open>pkg/node/handlers.go\<close>) and the in-memory transport
  signer (\<open>pkg/transportSigner\<close>). A handler validates its message against the node \<open>n0\<close> at arrival;
  after it has waited for the session it acts on the node \<open>n\<close>, where \<open>woken\<close> tells whether the wait
  ended by a notification. The theorems: the share, commitments and acknowledgements that a session
  stores under an operator's address were signed by that operator, and its mark as verified was set by
  a broadcast that names it; a share that a dealer serves on request is accepted by the requester.
\<close>

datatype 'b response = HttpError nat string | HttpOK 'b

record CommitmentMessage =
  cm_FromOperatorAddress :: address
  cm_ToOperatorAddress :: address
  cm_SessionTimestamp :: int64
  cm_Commitments :: "G2Point list"
  cm_SourceVersion :: int64

record ShareRequestMessage =
  sr_FromOperatorAddress :: address
  sr_ToOperatorAddress :: address
  sr_SessionTimestamp :: int64

record AcknowledgementMessage =
  am_FromOperatorAddress :: address
  am_ToOperatorAddress :: address
  am_SessionTimestamp :: int64
  am_Ack :: "Acknowledgement option"

record CommitmentBroadcastMessage =
  bm_FromOperatorAddress :: address
  bm_ToOperatorAddress :: address
  bm_SessionTimestamp :: int64
  bm_Broadcast :: "CommitmentBroadcast option"

text \<open>\<open>encoding/json\<close> at the types of the messages.\<close>

record wire =
  uj_base :: "bytes \<Rightarrow> (address \<times> address \<times> int64) option"
  uj_commitment :: "bytes \<Rightarrow> CommitmentMessage option"
  uj_share :: "bytes \<Rightarrow> ShareMessage option"
  uj_share_request :: "bytes \<Rightarrow> ShareRequestMessage option"
  uj_ack :: "bytes \<Rightarrow> AcknowledgementMessage option"
  uj_broadcast :: "bytes \<Rightarrow> CommitmentBroadcastMessage option"
  j_share :: "ShareMessage \<Rightarrow> bytes option"

subsection \<open>The transport signer\<close>

text \<open>The private key with its curve; the two libraries sign a digest.\<close>

datatype ('b, 'e) signing_key = BN254Key 'b | ECDSAKey 'e | OtherKey

record ('b, 'e) signlib =
  bn254_SignSolidityCompatible :: "'b \<Rightarrow> bytes \<Rightarrow> bytes option"
  ecdsa_Sign :: "'e \<Rightarrow> bytes \<Rightarrow> bytes option"

definition SignMessage ::
  "('f, 'g1, 'g2, 'gt) lib \<Rightarrow> ('b, 'e) signlib \<Rightarrow> ('b, 'e) signing_key \<Rightarrow> bytes \<Rightarrow> bytes option" where
  "SignMessage L S key d =
     (let hashedData = keccak256 L d in
      case key of
        BN254Key pk \<Rightarrow> bn254_SignSolidityCompatible S pk hashedData
      | ECDSAKey pk \<Rightarrow> ecdsa_Sign S pk hashedData
      | OtherKey \<Rightarrow> Some [])"

definition CreateAuthenticatedMessage ::
  "('f, 'g1, 'g2, 'gt) lib \<Rightarrow> (bytes \<Rightarrow> bytes option) \<Rightarrow> bytes \<Rightarrow> AuthenticatedMessage res" where
  "CreateAuthenticatedMessage L sign d =
     bind_res (lib_res ''failed to sign authenticated message'' (sign d)) (\<lambda>sigBytes.
     Inr \<lparr>Payload = d, Hash = keccak256 L d, Signature = sigBytes\<rparr>)"

subsection \<open>Authentication\<close>

text \<open>
  A request is its method and the body decoded as an authenticated message, \<open>None\<close> when the
  decoding fails or the body is too large.
\<close>

type_synonym request = "string \<times> AuthenticatedMessage option"

definition validateAuthenticatedMessage ::
  "('f, 'g1, 'g2, 'gt, 't) ext \<Rightarrow> wire \<Rightarrow> OperatorSetPeers res \<Rightarrow> AuthenticatedMessage option \<Rightarrow> address \<Rightarrow>
   ('s, 'f, 'z) Node_scheme \<Rightarrow> (AuthenticatedMessage \<times> OperatorSetPeer) res" where
  "validateAuthenticatedMessage X W listed body expectedRecipient n =
     bind_res (lib_res ''failed to parse authenticated message'' body) (\<lambda>authMsg.
     bind_res (lib_res ''failed to parse message addresses'' (uj_base W (Payload authMsg))) (\<lambda>(fromAddr, toAddr, sessionTimestamp).
     if toAddr \<noteq> expectedRecipient then Inl (Errorf ''message not intended for this operator'')
     else
     bind_res (case getSession (n_sessions n) sessionTimestamp of
         Some session \<Rightarrow> Inr (Operators session)
       | None \<Rightarrow> wrap_err ''failed to fetch operators for validation'' (fetchCurrentOperators listed)) (\<lambda>operators.
     case findPeerByAddress fromAddr operators of
       None \<Rightarrow> Inl (Errorf ''unknown sender'')
     | Some senderPeer \<Rightarrow>
         bind_res (wrap_err ''authentication failed'' (verifyMessage (x_lib X) (x_sig X) authMsg senderPeer)) (\<lambda>_.
         Inr (authMsg, senderPeer)))))"

text \<open>What every handler does before it looks at its own message.\<close>

definition authenticated ::
  "('f, 'g1, 'g2, 'gt, 't) ext \<Rightarrow> wire \<Rightarrow> OperatorSetPeers res \<Rightarrow> request \<Rightarrow> ('s, 'f, 'z) Node_scheme \<Rightarrow>
   (AuthenticatedMessage \<times> OperatorSetPeer) response" where
  "authenticated X W listed r n =
     (if fst r \<noteq> ''POST'' then HttpError 405 ''Method not allowed''
      else case validateAuthenticatedMessage X W listed (snd r) (n_addr n) n of
        Inl _ \<Rightarrow> HttpError 401 ''Authentication failed''
      | Inr x \<Rightarrow> HttpOK x)"

text \<open>The session a wait ends with, and the write to it, which goes to the shared object.\<close>

definition awaited :: "bool \<Rightarrow> int64 \<Rightarrow> ('s, 'f, 'z) Node_scheme \<Rightarrow> 'f ProtocolSession option" where
  "awaited woken t n = (if woken then getSession (n_sessions n) t else None)"

definition update_session :: "int64 \<Rightarrow> 'f ProtocolSession \<Rightarrow> ('s, 'f, 'z) Node_scheme \<Rightarrow> ('s, 'f, 'z) Node_scheme" where
  "update_session t s n = n\<lparr>n_sessions := (n_sessions n)\<lparr>activeSessions := gm_set (activeSessions (n_sessions n)) t s\<rparr>\<rparr>"

definition stored :: "int64 \<Rightarrow> 'f ProtocolSession \<times> unit res \<Rightarrow> ('s, 'f, 'z) Node_scheme \<Rightarrow> ('s, 'f, 'z) Node_scheme \<times> unit response" where
  "stored t x n = (case x of (_, Inl _) \<Rightarrow> (n, HttpError 400 ''refused'') | (s, Inr _) \<Rightarrow> (update_session t s n, HttpOK ()))"

subsection \<open>Commitments, shares, acknowledgements\<close>

definition handleDKGCommitment ::
  "('f, 'g1, 'g2, 'gt, 't) ext \<Rightarrow> wire \<Rightarrow> OperatorSetPeers res \<Rightarrow> request \<Rightarrow> bool \<Rightarrow> ('s, 'f, 'z) Node_scheme \<Rightarrow>
   ('s, 'f, 'z) Node_scheme \<Rightarrow> ('s, 'f, 'z) Node_scheme \<times> unit response" where
  "handleDKGCommitment X W listed r woken n0 n =
     (case authenticated X W listed r n0 of
        HttpError c m \<Rightarrow> (n, HttpError c m)
      | HttpOK (authMsg, senderPeer) \<Rightarrow>
      (case uj_commitment W (Payload authMsg) of
        None \<Rightarrow> (n, HttpError 400 ''Failed to parse commitment message'')
      | Some commitMsg \<Rightarrow>
      (case awaited woken (cm_SessionTimestamp commitMsg) n of
        None \<Rightarrow> (n, HttpError 503 ''Session timeout'')
      | Some session \<Rightarrow>
          stored (cm_SessionTimestamp commitMsg)
            (HandleReceivedCommitment (OperatorAddress senderPeer) (cm_Commitments commitMsg) 0 session) n)))"

definition handleReshareCommitment ::
  "('f, 'g1, 'g2, 'gt, 't) ext \<Rightarrow> wire \<Rightarrow> OperatorSetPeers res \<Rightarrow> request \<Rightarrow> bool \<Rightarrow> ('s, 'f, 'z) Node_scheme \<Rightarrow>
   ('s, 'f, 'z) Node_scheme \<Rightarrow> ('s, 'f, 'z) Node_scheme \<times> unit response" where
  "handleReshareCommitment X W listed r woken n0 n =
     (case authenticated X W listed r n0 of
        HttpError c m \<Rightarrow> (n, HttpError c m)
      | HttpOK (authMsg, senderPeer) \<Rightarrow>
      (case uj_commitment W (Payload authMsg) of
        None \<Rightarrow> (n, HttpError 400 ''Failed to parse commitment message'')
      | Some commitMsg \<Rightarrow>
      (case awaited woken (cm_SessionTimestamp commitMsg) n of
        None \<Rightarrow> (n, HttpError 503 ''Session timeout'')
      | Some session \<Rightarrow>
          stored (cm_SessionTimestamp commitMsg)
            (HandleReceivedCommitment (OperatorAddress senderPeer) (cm_Commitments commitMsg) (cm_SourceVersion commitMsg) session) n)))"

definition handleDKGShare ::
  "('f :: zero, 'g1, 'g2, 'gt, 't) ext \<Rightarrow> wire \<Rightarrow> OperatorSetPeers res \<Rightarrow> request \<Rightarrow> bool \<Rightarrow> ('s, 'f, 'z) Node_scheme \<Rightarrow>
   ('s, 'f, 'z) Node_scheme \<Rightarrow> ('s, 'f, 'z) Node_scheme \<times> unit response" where
  "handleDKGShare X W listed r woken n0 n =
     (case authenticated X W listed r n0 of
        HttpError c m \<Rightarrow> (n, HttpError c m)
      | HttpOK (authMsg, senderPeer) \<Rightarrow>
      (case uj_share W (Payload authMsg) of
        None \<Rightarrow> (n, HttpError 400 ''Failed to parse share message'')
      | Some shareMsg \<Rightarrow>
      (case awaited woken (sm_SessionTimestamp shareMsg) n of
        None \<Rightarrow> (n, HttpError 503 ''Session timeout'')
      | Some session \<Rightarrow>
          if sm_Share shareMsg = None then (n, HttpError 400 ''share is required'')
          else stored (sm_SessionTimestamp shareMsg)
            (HandleReceivedShare (OperatorAddress senderPeer) (DeserializeFr (x_lib X) (sm_Share shareMsg)) session) n)))"

text \<open>The two share handlers are the same code, and so are the two acknowledgement handlers.\<close>

definition handleReshareShare ::
  "('f :: zero, 'g1, 'g2, 'gt, 't) ext \<Rightarrow> wire \<Rightarrow> OperatorSetPeers res \<Rightarrow> request \<Rightarrow> bool \<Rightarrow> ('s, 'f, 'z) Node_scheme \<Rightarrow>
   ('s, 'f, 'z) Node_scheme \<Rightarrow> ('s, 'f, 'z) Node_scheme \<times> unit response" where
  "handleReshareShare = handleDKGShare"

definition handleDKGAck ::
  "('f, 'g1, 'g2, 'gt, 't) ext \<Rightarrow> wire \<Rightarrow> OperatorSetPeers res \<Rightarrow> request \<Rightarrow> bool \<Rightarrow> ('s, 'f, 'z) Node_scheme \<Rightarrow>
   ('s, 'f, 'z) Node_scheme \<Rightarrow> ('s, 'f, 'z) Node_scheme \<times> unit response" where
  "handleDKGAck X W listed r woken n0 n =
     (case authenticated X W listed r n0 of
        HttpError c m \<Rightarrow> (n, HttpError c m)
      | HttpOK (authMsg, senderPeer) \<Rightarrow>
      (case uj_ack W (Payload authMsg) of
        None \<Rightarrow> (n, HttpError 400 ''Failed to parse acknowledgement message'')
      | Some ackMsg \<Rightarrow>
      (case awaited woken (am_SessionTimestamp ackMsg) n of
        None \<Rightarrow> (n, HttpError 400 ''Unknown session'')
      | Some session \<Rightarrow>
      (case (verifyAcknowledgement (x_lib X) (x_sig X) (n_addr n) session senderPeer (n_addr n) (am_SessionTimestamp ackMsg) (am_Ack ackMsg),
             am_Ack ackMsg) of
        (Inr _, Some ack) \<Rightarrow>
          stored (am_SessionTimestamp ackMsg) (HandleReceivedAck (n_addr n) (OperatorAddress senderPeer) ack session) n
      | _ \<Rightarrow> (n, HttpError 400 ''Invalid acknowledgement'')))))"

definition handleReshareAck ::
  "('f, 'g1, 'g2, 'gt, 't) ext \<Rightarrow> wire \<Rightarrow> OperatorSetPeers res \<Rightarrow> request \<Rightarrow> bool \<Rightarrow> ('s, 'f, 'z) Node_scheme \<Rightarrow>
   ('s, 'f, 'z) Node_scheme \<Rightarrow> ('s, 'f, 'z) Node_scheme \<times> unit response" where
  "handleReshareAck = handleDKGAck"

subsection \<open>Requests for shares, and broadcasts\<close>

text \<open>The share a requester is missing: from the live session, or else from the retained ones.\<close>

definition generated_share :: "bool \<Rightarrow> int64 \<Rightarrow> ('s, 'f, 'z) Node_scheme \<Rightarrow> address \<Rightarrow> 'f option" where
  "generated_share woken t n requester =
     (let share = (case awaited woken t n of None \<Rightarrow> None | Some session \<Rightarrow> GetMyGeneratedShareFor session requester)
      in if share = None then getRetainedGeneratedShare (n_retained n) t requester else share)"

definition handleReshareShareRequest ::
  "('f, 'g1, 'g2, 'gt, 't) ext \<Rightarrow> wire \<Rightarrow> OperatorSetPeers res \<Rightarrow> request \<Rightarrow> bool \<Rightarrow> ('s, 'f, 'z) Node_scheme \<Rightarrow>
   ('s, 'f, 'z) Node_scheme \<Rightarrow> AuthenticatedMessage response" where
  "handleReshareShareRequest X W listed r woken n0 n =
     (case authenticated X W listed r n0 of
        HttpError c m \<Rightarrow> HttpError c m
      | HttpOK (authMsg, senderPeer) \<Rightarrow>
      (case uj_share_request W (Payload authMsg) of
        None \<Rightarrow> HttpError 400 ''Failed to parse share request''
      | Some reqMsg \<Rightarrow>
          let requester = OperatorAddress senderPeer; t = sr_SessionTimestamp reqMsg in
          (case generated_share woken t n requester of
             None \<Rightarrow> HttpError 404 ''No share available for requester''
           | Some x \<Rightarrow>
               (case j_share W \<lparr>sm_FromOperatorAddress = n_addr n, sm_ToOperatorAddress = requester, sm_SessionTimestamp = t,
                               sm_Share = Some (fr_String (x_lib X) x)\<rparr> of
                  None \<Rightarrow> HttpError 500 ''Failed to marshal share response''
                | Some respBytes \<Rightarrow>
                    (case CreateAuthenticatedMessage (x_lib X) (x_SignMessage X) respBytes of
                       Inl _ \<Rightarrow> HttpError 500 ''Failed to sign share response''
                     | Inr authResp \<Rightarrow> HttpOK authResp)))))"

definition handleCommitmentBroadcast ::
  "('f, 'g1, 'g2, 'gt, 't) ext \<Rightarrow> wire \<Rightarrow> OperatorSetPeers res \<Rightarrow> request \<Rightarrow> ('s, 'f, 'z) Node_scheme \<Rightarrow>
   ('s, 'f, 'z) Node_scheme \<times> unit response" where
  "handleCommitmentBroadcast X W listed r n =
     (case authenticated X W listed r n of
        HttpError c m \<Rightarrow> (n, HttpError c m)
      | HttpOK (authMsg, senderPeer) \<Rightarrow>
      (case uj_broadcast W (Payload authMsg) of
        None \<Rightarrow> (n, HttpError 400 ''Invalid request'')
      | Some msg \<Rightarrow>
          if bm_Broadcast msg = None then (n, HttpError 400 ''broadcast is required'')
          else (case getSession (n_sessions n) (bm_SessionTimestamp msg) of
            None \<Rightarrow> (n, HttpError 404 ''Session not found'')
          | Some session \<Rightarrow>
              (case VerifyOperatorBroadcast (x_lib X) (n_addr n) (bm_Broadcast msg) (Some session) of
                 (Some s, Inr _) \<Rightarrow> (update_session (bm_SessionTimestamp msg) s n, HttpOK ())
               | _ \<Rightarrow> (n, HttpError 400 ''verification failed'')))))"

subsection \<open>Nobody speaks for another operator\<close>

text \<open>
  \<open>peer_request X W listed r n n'\<close>: a handler has answered the request \<open>r\<close>, and the node \<open>n\<close> has
  become \<open>n'\<close>. The sender is checked at arrival, on an earlier node \<open>n0\<close>.
\<close>

inductive peer_request ::
  "('f :: zero, 'g1, 'g2, 'gt, 't) ext \<Rightarrow> wire \<Rightarrow> OperatorSetPeers res \<Rightarrow> request \<Rightarrow> ('s, 'f) KmsNode \<Rightarrow>
   ('s, 'f) KmsNode \<Rightarrow> ('s, 'f) KmsNode \<Rightarrow> bool" for X W listed r n0 n where
  "handleDKGCommitment X W listed r woken n0 n = (n', res) \<Longrightarrow> peer_request X W listed r n0 n n'"
| "handleReshareCommitment X W listed r woken n0 n = (n', res) \<Longrightarrow> peer_request X W listed r n0 n n'"
| "handleDKGShare X W listed r woken n0 n = (n', res) \<Longrightarrow> peer_request X W listed r n0 n n'"
| "handleReshareShare X W listed r woken n0 n = (n', res) \<Longrightarrow> peer_request X W listed r n0 n n'"
| "handleDKGAck X W listed r woken n0 n = (n', res) \<Longrightarrow> peer_request X W listed r n0 n n'"
| "handleReshareAck X W listed r woken n0 n = (n', res) \<Longrightarrow> peer_request X W listed r n0 n n'"
| "handleReshareShareRequest X W listed r woken n0 n = resp \<Longrightarrow> peer_request X W listed r n0 n n"
| "handleCommitmentBroadcast X W listed r n = (n', res) \<Longrightarrow> n0 = n \<Longrightarrow> peer_request X W listed r n0 n n'"

text \<open>
  What an operator has sent to a session: its share, its commitments with their source version, its
  acknowledgements. The mark that it was verified is apart, in \<open>verifiedOperators\<close>.
\<close>

definition contribution ::
  "'f ProtocolSession \<Rightarrow> address \<Rightarrow> 'f option option \<times> G2Point list option \<times> int64 option \<times> (address \<Rightarrow> Acknowledgement option)" where
  "contribution s a = (gm_get (shares s) a, gm_get (commitments s) a, gm_get (sourceVersions s) a, \<lambda>d. gm_get (ack_map s d) a)"

text \<open>The operators a message is checked against.\<close>

definition known_operators :: "OperatorSetPeers res \<Rightarrow> int64 \<Rightarrow> ('s, 'f, 'z) Node_scheme \<Rightarrow> OperatorSetPeer list" where
  "known_operators listed t n =
     (case getSession (n_sessions n) t of Some session \<Rightarrow> Operators session
      | None \<Rightarrow> (case fetchCurrentOperators listed of Inr ops \<Rightarrow> ops | Inl _ \<Rightarrow> []))"

definition sent_by ::
  "('f, 'g1, 'g2, 'gt, 't) ext \<Rightarrow> wire \<Rightarrow> OperatorSetPeers res \<Rightarrow> ('s, 'f, 'z) Node_scheme \<Rightarrow> AuthenticatedMessage \<Rightarrow> address \<Rightarrow> bool" where
  "sent_by X W listed n authMsg a \<longleftrightarrow>
     (\<exists>t peer. uj_base W (Payload authMsg) = Some (a, n_addr n, t) \<and> peer \<in> set (known_operators listed t n) \<and>
        OperatorAddress peer = a \<and> verifyMessage (x_lib X) (x_sig X) authMsg peer = Inr ())"

lemma authenticated_sent:
  assumes "authenticated X W listed r n = HttpOK (authMsg, peer)"
  shows "snd r = Some authMsg \<and> sent_by X W listed n authMsg (OperatorAddress peer)"
proof -
  have find: "peer \<in> set ops \<and> OperatorAddress peer = a" if "findPeerByAddress a ops = Some peer" for a ops
    using that by (auto simp: findPeerByAddress_def find_Some_iff)
  from assms have v: "validateAuthenticatedMessage X W listed (snd r) (n_addr n) n = Inr (authMsg, peer)"
    by (auto simp: authenticated_def split: if_splits sum.splits)
  then obtain a t ops where "snd r = Some authMsg" "uj_base W (Payload authMsg) = Some (a, n_addr n, t)"
    "verifyMessage (x_lib X) (x_sig X) authMsg peer = Inr ()" "findPeerByAddress a ops = Some peer" "ops = known_operators listed t n"
    by (auto simp: validateAuthenticatedMessage_def res_simps known_operators_def split: if_splits option.splits)
  then show ?thesis using find unfolding sent_by_def by blast
qed

lemma stored_effect:
  assumes "stored t x n = (n', res)" "getSession (n_sessions n) t = Some s"
  shows "n' = n \<or> n' = update_session t (fst x) n \<and> snd x = Inr ()"
  using assms by (auto simp: stored_def split: prod.splits sum.splits)

lemma getSession_put [simp]:
  "getSession (n_sessions (update_session t s n)) t' = (if t' = t then Some s else getSession (n_sessions n) t')"
  by (simp add: getSession_def update_session_def gm_get_set)

lemma contribution_handlers:
  "HandleReceivedShare a x s = (s', Inr ()) \<Longrightarrow> b \<noteq> a \<Longrightarrow> contribution s' b = contribution s b"
  "HandleReceivedCommitment a cs v s = (s', Inr ()) \<Longrightarrow> b \<noteq> a \<Longrightarrow> contribution s' b = contribution s b"
  "HandleReceivedAck d a k s = (s', Inr ()) \<Longrightarrow> b \<noteq> a \<Longrightarrow> contribution s' b = contribution s b"
  by (auto simp: HandleReceivedShare_def HandleReceivedCommitment_def HandleReceivedAck_def contribution_def gm_get_set ack_map_def
      fun_eq_iff Let_def split: if_splits option.splits)

lemma contribution_broadcast:
  "VerifyOperatorBroadcast L me b (Some s) = (Some s', res) \<Longrightarrow> contribution s' a = contribution s a"
  by (auto simp: VerifyOperatorBroadcast_def contribution_def ack_map_def split: option.splits sum.splits if_splits)

lemma handler_contribution:
  assumes "stored t x n = (n', res)" "getSession (n_sessions n) t = Some s0" "\<And>s b. x = (s, Inr ()) \<Longrightarrow> b \<noteq> a \<Longrightarrow> contribution s b = contribution s0 b"
    and "getSession (n_sessions n) u = Some s" "getSession (n_sessions n') u = Some s'" "contribution s' b \<noteq> contribution s b"
  shows "b = a"
proof (rule ccontr)
  assume b: "b \<noteq> a"
  from stored_effect [OF assms(1,2)] show False
  proof
    assume "n' = n"
    then show False using assms(4,5,6) by simp
  next
    assume n': "n' = update_session t (fst x) n \<and> snd x = Inr ()"
    then have "contribution (fst x) b = contribution s0 b" using assms(3) [of "fst x" b] b by (cases x) simp
    then show False using n' assms(2,4,5,6) by (auto split: if_splits)
  qed
qed

lemma contribution_signed:
  assumes req: "peer_request X W listed r n0 n n'" and addr: "n_addr n0 = n_addr n"
    and s: "getSession (n_sessions n) t = Some s" and s': "getSession (n_sessions n') t = Some s'"
    and change: "contribution s' a \<noteq> contribution s a"
  shows "\<exists>authMsg. snd r = Some authMsg \<and> sent_by X W listed n0 authMsg a"
proof -
  have go: ?thesis
    if "authenticated X W listed r n0 = HttpOK (am, peer)" "stored u (h (OperatorAddress peer) s0) n = (n', res)" "awaited woken u n = Some s0"
      "\<And>a s1 b. h a s0 = (s1, Inr ()) \<Longrightarrow> b \<noteq> a \<Longrightarrow> contribution s1 b = contribution s0 b"
    for am peer u h s0 res woken
  proof -
    have "getSession (n_sessions n) u = Some s0" using that(3) by (simp add: awaited_def split: if_splits)
    from handler_contribution [OF that(2) this that(4) s s' change] authenticated_sent [OF that(1)] show ?thesis by auto
  qed
  note go_c = go [where h = "\<lambda>a. HandleReceivedCommitment a cs v" for cs v, OF _ _ _ contribution_handlers(2)]
    and go_s = go [where h = "\<lambda>a. HandleReceivedShare a x" for x, OF _ _ _ contribution_handlers(1)]
    and go_a = go [where h = "\<lambda>a. HandleReceivedAck d a k" for d k, OF _ _ _ contribution_handlers(3)]
  have same: "n \<noteq> n'" using s s' change by auto
  from req show ?thesis
  proof cases
    case (1 woken res)
    then show ?thesis using same by (auto simp: handleDKGCommitment_def split: response.splits option.splits intro: go_c)
  next
    case (2 woken res)
    then show ?thesis using same by (auto simp: handleReshareCommitment_def split: response.splits option.splits intro: go_c)
  next
    case (3 woken res)
    then show ?thesis using same by (auto simp: handleDKGShare_def split: response.splits option.splits if_splits intro: go_s)
  next
    case (4 woken res)
    then show ?thesis using same
      by (auto simp: handleReshareShare_def handleDKGShare_def split: response.splits option.splits if_splits intro: go_s)
  next
    case (5 woken res)
    then show ?thesis using same by (auto simp: handleDKGAck_def split: response.splits option.splits sum.splits intro: go_a)
  next
    case (6 woken res)
    then show ?thesis using same
      by (auto simp: handleReshareAck_def handleDKGAck_def split: response.splits option.splits sum.splits intro: go_a)
  next
    case 7
    then show ?thesis using same by blast
  next
    case (8 res)
    show ?thesis
    proof (rule ccontr)
      from 8(1) same obtain u s0 s1 b where b: "getSession (n_sessions n) u = Some s0" "n' = update_session u s1 n"
        "VerifyOperatorBroadcast (x_lib X) (n_addr n) b (Some s0) = (Some s1, Inr ())"
        by (auto simp: handleCommitmentBroadcast_def split: response.splits option.splits sum.splits if_splits prod.splits)
      then show False using s s' change contribution_broadcast [OF b(3), of a] by (auto split: if_splits)
    qed
  qed
qed

text \<open>The mark of a verified operator is set by a broadcast alone, and for the operator that the broadcast names.\<close>

lemma marks_handlers:
  "verifiedOperators (fst (HandleReceivedShare a x s)) = verifiedOperators s"
  "verifiedOperators (fst (HandleReceivedCommitment a cs v s)) = verifiedOperators s"
  "verifiedOperators (fst (HandleReceivedAck d a k s)) = verifiedOperators s"
  by (auto simp: HandleReceivedShare_def HandleReceivedCommitment_def HandleReceivedAck_def Let_def split: if_splits option.splits)

lemma marks_stored:
  assumes "stored t x n = (n', res)" "awaited woken t n = Some s0" "verifiedOperators (fst x) = verifiedOperators s0"
    and "getSession (n_sessions n) u = Some s" "getSession (n_sessions n') u = Some s'"
  shows "verifiedOperators s' = verifiedOperators s"
proof -
  have s0: "getSession (n_sessions n) t = Some s0" using assms(2) by (simp add: awaited_def split: if_splits)
  show ?thesis using stored_effect [OF assms(1) s0] s0 assms(3-5) by (auto split: if_splits)
qed

lemma broadcast_marks:
  assumes "VerifyOperatorBroadcast L me b (Some s) = (Some s', Inr ())" "gm_get (verifiedOperators s') a \<noteq> gm_get (verifiedOperators s) a"
  shows "\<exists>c. b = Some c \<and> cb_FromOperatorAddress c = a"
  using assms by (auto simp: VerifyOperatorBroadcast_def gm_get_set split: option.splits sum.splits if_splits)

lemma mark_broadcast:
  assumes req: "peer_request X W listed r n0 n n'"
    and s: "getSession (n_sessions n) t = Some s" and s': "getSession (n_sessions n') t = Some s'"
    and change: "gm_get (verifiedOperators s') a \<noteq> gm_get (verifiedOperators s) a"
  shows "\<exists>authMsg sender msg b. snd r = Some authMsg \<and> sent_by X W listed n0 authMsg sender \<and> uj_broadcast W (Payload authMsg) = Some msg \<and>
    bm_Broadcast msg = Some b \<and> cb_FromOperatorAddress b = a \<and>
    VerifyOperatorBroadcast (x_lib X) (n_addr n) (Some b) (Some s) = (Some s', Inr ())"
proof -
  have same: "n \<noteq> n'" using s s' change by auto
  have no: False if "stored u x n = (n', res)" "awaited woken u n = Some s0" "verifiedOperators (fst x) = verifiedOperators s0" for u x s0 res woken
    using marks_stored [OF that s s'] change by simp
  note no_c = no [OF _ _ marks_handlers(2)] and no_s = no [OF _ _ marks_handlers(1)] and no_a = no [OF _ _ marks_handlers(3)]
  from req show ?thesis
  proof cases
    case (1 woken res)
    then have False using same by (auto simp: handleDKGCommitment_def split: response.splits option.splits intro: no_c)
    then show ?thesis ..
  next
    case (2 woken res)
    then have False using same by (auto simp: handleReshareCommitment_def split: response.splits option.splits intro: no_c)
    then show ?thesis ..
  next
    case (3 woken res)
    then have False using same by (auto simp: handleDKGShare_def split: response.splits option.splits if_splits intro: no_s)
    then show ?thesis ..
  next
    case (4 woken res)
    then have False using same
      by (auto simp: handleReshareShare_def handleDKGShare_def split: response.splits option.splits if_splits intro: no_s)
    then show ?thesis ..
  next
    case (5 woken res)
    then have False using same by (auto simp: handleDKGAck_def split: response.splits option.splits sum.splits intro: no_a)
    then show ?thesis ..
  next
    case (6 woken res)
    then have False using same
      by (auto simp: handleReshareAck_def handleDKGAck_def split: response.splits option.splits sum.splits intro: no_a)
    then show ?thesis ..
  next
    case 7
    then show ?thesis using same by blast
  next
    case (8 res)
    from 8(1) same obtain am peer msg b s0 s1 where b: "authenticated X W listed r n = HttpOK (am, peer)"
      "uj_broadcast W (Payload am) = Some msg" "bm_Broadcast msg = Some b"
      "getSession (n_sessions n) (bm_SessionTimestamp msg) = Some s0" "n' = update_session (bm_SessionTimestamp msg) s1 n"
      "VerifyOperatorBroadcast (x_lib X) (n_addr n) (Some b) (Some s0) = (Some s1, Inr ())"
      by (auto simp: handleCommitmentBroadcast_def split: response.splits option.splits sum.splits if_splits prod.splits)
    have "t = bm_SessionTimestamp msg" using b(5) s s' change by (auto split: if_splits)
    then have "s0 = s" "s1 = s'" using b(4,5) s s' by auto
    then show ?thesis using b(2,3,6) authenticated_sent [OF b(1)] broadcast_marks [OF b(6)] change 8(2) by blast
  qed
qed

text \<open>
  C15. No operator speaks for another, with one exception. Whatever request a handler answers, when a
  session's share, commitments, source version or acknowledgements of an operator change, then the
  request was a message from that operator to this node, signed with that operator's registered key.
  The mark of an operator as verified is the exception: when it changes, the request was a commitment
  broadcast that names the operator and passes the verification, signed by some operator, who need not
  be the one that is named.
\<close>

theorem no_impersonation:
  assumes req: "peer_request X W listed r n0 n n'" and addr: "n_addr n0 = n_addr n"
    and s: "getSession (n_sessions n) t = Some s" and s': "getSession (n_sessions n') t = Some s'"
  shows "(contribution s' a \<noteq> contribution s a \<longrightarrow> (\<exists>authMsg. snd r = Some authMsg \<and> sent_by X W listed n0 authMsg a)) \<and>
    (gm_get (verifiedOperators s') a \<noteq> gm_get (verifiedOperators s) a \<longrightarrow>
      (\<exists>authMsg sender msg b. snd r = Some authMsg \<and> sent_by X W listed n0 authMsg sender \<and> uj_broadcast W (Payload authMsg) = Some msg \<and>
        bm_Broadcast msg = Some b \<and> cb_FromOperatorAddress b = a \<and>
        VerifyOperatorBroadcast (x_lib X) (n_addr n) (Some b) (Some s) = (Some s', Inr ())))"
  using contribution_signed [OF assms] mark_broadcast [OF req s s'] by blast

subsection \<open>A served share is accepted\<close>

lemma share_request_served:
  assumes "handleReshareShareRequest X W listed r woken n0 n = HttpOK authResp"
  shows "\<exists>am peer msg x b. authenticated X W listed r n0 = HttpOK (am, peer) \<and> uj_share_request W (Payload am) = Some msg \<and>
    generated_share woken (sr_SessionTimestamp msg) n (OperatorAddress peer) = Some x \<and>
    j_share W \<lparr>sm_FromOperatorAddress = n_addr n, sm_ToOperatorAddress = OperatorAddress peer, sm_SessionTimestamp = sr_SessionTimestamp msg,
      sm_Share = Some (fr_String (x_lib X) x)\<rparr> = Some b \<and> CreateAuthenticatedMessage (x_lib X) (x_SignMessage X) b = Inr authResp"
  using assms
  by (auto simp: handleReshareShareRequest_def Let_def split: response.splits option.splits sum.splits if_splits)

text \<open>
  C16. On-demand shares. When a dealer answers a share request, the answer carries the share that the
  dealer generated for the operator that signed the request, from the live session or the retained
  ones, and no other; the requester's check accepts the answer with exactly that share when it lies
  on the polynomial the dealer committed to, and refuses it otherwise.
\<close>

theorem served_share_accepted:
  assumes served: "handleReshareShareRequest X W listed r woken n0 n = HttpOK authResp"
    and body: "snd r = Some am" "uj_base W (Payload am) = Some (me, to, t)"
    and json: "\<And>m b. j_share W m = Some b \<Longrightarrow> uj_share W b = Some m" and fr: "fr_laws (x_lib X)"
    and dealer: "List.find (\<lambda>op. OperatorAddress op = n_addr n) (Operators session) = Some dealerPeer"
    and signer: "\<And>d sg. x_SignMessage X d = Some sg \<Longrightarrow> verify_by_curve (x_sig X) dealerPeer (keccak256 (x_lib X) d) sg = Inr ()"
    and cs: "gm_get (commitments session) (n_addr n) = Some cs" "cs \<noteq> []"
  shows "\<exists>x u. generated_share woken u n me = Some x \<and>
    fetchAndVerifyReshareShare (x_lib X) (x_sig X) (uj_share W) me resharer session (n_addr n) [Inr authResp] =
      (if VerifyNewShare (x_lib X) resharer (Some x) cs then Inr (Some x)
       else Inl (Errorf ''fetched share failed polynomial verification''))"
proof -
  obtain am' peer msg x b where a: "authenticated X W listed r n0 = HttpOK (am', peer)" "uj_share_request W (Payload am') = Some msg"
    and x: "generated_share woken (sr_SessionTimestamp msg) n (OperatorAddress peer) = Some x"
    and b: "j_share W \<lparr>sm_FromOperatorAddress = n_addr n, sm_ToOperatorAddress = OperatorAddress peer, sm_SessionTimestamp = sr_SessionTimestamp msg,
      sm_Share = Some (fr_String (x_lib X) x)\<rparr> = Some b" "CreateAuthenticatedMessage (x_lib X) (x_SignMessage X) b = Inr authResp"
    using share_request_served [OF served] by blast
  have me: "OperatorAddress peer = me" using authenticated_sent [OF a(1)] body by (auto simp: sent_by_def)
  obtain sg where sg: "x_SignMessage X b = Some sg" "authResp = \<lparr>Payload = b, Hash = keccak256 (x_lib X) b, Signature = sg\<rparr>"
    using b(2) by (auto simp: CreateAuthenticatedMessage_def res_simps)
  have "verifyMessage (x_lib X) (x_sig X) authResp dealerPeer = Inr ()"
    using signer [OF sg(1)] by (simp add: verifyMessage_def sg(2) Let_def)
  moreover have "request_share [Inr authResp] = Inr authResp" by (simp add: request_share_def)
  moreover have "DeserializeFr (x_lib X) (Some (fr_String (x_lib X) x)) = Some x" using fr by (simp add: DeserializeFr_def fr_laws_def)
  ultimately have "fetchAndVerifyReshareShare (x_lib X) (x_sig X) (uj_share W) me resharer session (n_addr n) [Inr authResp] =
      (if VerifyNewShare (x_lib X) resharer (Some x) cs then Inr (Some x)
       else Inl (Errorf ''fetched share failed polynomial verification''))"
    using json [OF b(1)] dealer cs me by (simp add: fetchAndVerifyReshareShare_def sg(2) res_simps)
  with x me show ?thesis by blast
qed

text \<open>Operator 2 sends a share to node 1, and asks it for the share 5 that node 1 dealt it.\<close>

definition mock_share_msg :: ShareMessage where
  "mock_share_msg = \<lparr>sm_FromOperatorAddress = 1, sm_ToOperatorAddress = 2, sm_SessionTimestamp = 7, sm_Share = Some (fr_String mock_lib 5)\<rparr>"

definition mock_wire :: wire where
  "mock_wire = \<lparr>uj_base = (\<lambda>_. Some (2, 1, 7)), uj_commitment = (\<lambda>_. None),
     uj_share = (\<lambda>b. if b = [9] then Some mock_share_msg else None),
     uj_share_request = (\<lambda>_. Some \<lparr>sr_FromOperatorAddress = 2, sr_ToOperatorAddress = 1, sr_SessionTimestamp = 7\<rparr>),
     uj_ack = (\<lambda>_. None), uj_broadcast = (\<lambda>_. None), j_share = (\<lambda>m. if m = mock_share_msg then Some [9] else None)\<rparr>"

definition session_node :: "(unit, gf) KmsNode" where
  "session_node = (new_node ())\<lparr>n_sessions := empty_registry\<lparr>activeSessions :=
     [(7, (new_session 0 ''reshare'' [mock_op 1, mock_op 2] 7)\<lparr>myGeneratedShares := Some [(2, 5)]\<rparr>)]\<rparr>\<rparr>"

definition mock_signed :: "bytes \<Rightarrow> request" where
  "mock_signed b = (''POST'', Some \<lparr>Payload = b, Hash = keccak256 mock_lib b, Signature = b\<rparr>)"

lemma mock_authenticated:
  "authenticated demo_ext mock_wire (Inl (Errorf ''down'')) (mock_signed b) session_node =
     HttpOK (\<lparr>Payload = b, Hash = keccak256 mock_lib b, Signature = b\<rparr>, mock_op 2)"
  by (simp add: authenticated_def validateAuthenticatedMessage_def mock_signed_def mock_wire_def demo_ext_def session_node_def new_node_def
      getSession_def new_session_def findPeerByAddress_def mock_op_def verifyMessage_def verify_by_curve_def mock_sig_def mock_lib_def
      CurveTypeBN254_def Let_def res_simps)

theorem no_impersonation_witness:
  "\<exists>n' s'. peer_request demo_ext mock_wire (Inl (Errorf ''down'')) (mock_signed [9]) session_node session_node n' \<and>
    getSession (n_sessions n') 7 = Some s' \<and> gm_get (shares s') 2 = Some (Some 5) \<and>
    sent_by demo_ext mock_wire (Inl (Errorf ''down'')) session_node \<lparr>Payload = [9], Hash = keccak256 mock_lib [9], Signature = [9]\<rparr> 2"
proof -
  let ?s = "(new_session 0 ''reshare'' [mock_op 1, mock_op 2] 7)\<lparr>myGeneratedShares := Some [(2, 5)]\<rparr> :: gf ProtocolSession"
  have d: "DeserializeFr mock_lib (Some (fr_String mock_lib 5)) = Some 5"
    using curve_lawsD(5) [OF mock_lib_laws] by (simp add: DeserializeFr_def fr_laws_def)
  have s: "getSession (n_sessions session_node) 7 = Some ?s" by (simp add: session_node_def getSession_def)
  have f: "uj_share mock_wire [9] = Some mock_share_msg" "sm_SessionTimestamp mock_share_msg = 7"
    "sm_Share mock_share_msg = Some (fr_String mock_lib 5)" "x_lib demo_ext = mock_lib" "OperatorAddress (mock_op 2) = 2"
    by (simp_all add: mock_wire_def mock_share_msg_def demo_ext_def mock_op_def)
  obtain s' where s': "HandleReceivedShare 2 (Some 5) ?s = (s', Inr ())" "gm_get (shares s') 2 = Some (Some 5)"
    by (simp add: HandleReceivedShare_def new_session_def Let_def)
  have "handleDKGShare demo_ext mock_wire (Inl (Errorf ''down'')) (mock_signed [9]) True session_node session_node =
      (update_session 7 s' session_node, HttpOK ())"
    using s s'(1) d f by (simp add: handleDKGShare_def mock_authenticated awaited_def stored_def)
  then have req: "peer_request demo_ext mock_wire (Inl (Errorf ''down'')) (mock_signed [9]) session_node session_node
      (update_session 7 s' session_node)" by (rule peer_request.intros(3))
  moreover have "contribution s' 2 \<noteq> contribution ?s 2" using s'(2) by (simp add: contribution_def new_session_def)
  ultimately show ?thesis
    using no_impersonation [OF req refl s, of s' 2] s'(2) by (auto simp: mock_signed_def)
qed

theorem served_share_accepted_witness:
  "\<exists>authResp x. handleReshareShareRequest demo_ext mock_wire (Inl (Errorf ''down'')) (mock_signed [3]) True session_node session_node =
      HttpOK authResp \<and>
    fetchAndVerifyReshareShare mock_lib mock_sig (uj_share mock_wire) 2 (NewReshare 2 [mock_op 1, mock_op 2])
      ((new_session 0 ''reshare'' [mock_op 1, mock_op 2] 7)\<lparr>commitments := [(1, [enc2 mock_lib 5])]\<rparr>) 1 [Inr authResp] =
      (if VerifyNewShare mock_lib (NewReshare 2 [mock_op 1, mock_op 2]) (Some x) [enc2 mock_lib 5] then Inr (Some x)
       else Inl (Errorf ''fetched share failed polynomial verification''))"
proof -
  let ?session = "(new_session 0 ''reshare'' [mock_op 1, mock_op 2] 7)\<lparr>commitments := [(1, [enc2 mock_lib 5])]\<rparr> :: gf ProtocolSession"
  have X: "x_lib demo_ext = mock_lib" "x_sig demo_ext = mock_sig" "x_SignMessage demo_ext = Some" "n_addr session_node = 1"
    by (simp_all add: demo_ext_def session_node_def new_node_def)
  have k: "keccak256 mock_lib d = d" for d by (simp add: mock_lib_def)
  have "j_share mock_wire \<lparr>sm_FromOperatorAddress = 1, sm_ToOperatorAddress = 2, sm_SessionTimestamp = 7, sm_Share = Some (fr_String mock_lib 5)\<rparr> =
      Some [9]" by (simp add: mock_wire_def mock_share_msg_def)
  moreover have "uj_share_request mock_wire [3] = Some \<lparr>sr_FromOperatorAddress = 2, sr_ToOperatorAddress = 1, sr_SessionTimestamp = 7\<rparr>"
    "awaited True 7 session_node = Some ((new_session 0 ''reshare'' [mock_op 1, mock_op 2] 7)\<lparr>myGeneratedShares := Some [(2, 5)]\<rparr>)"
    "OperatorAddress (mock_op 2) = 2"
    by (simp_all add: mock_wire_def awaited_def session_node_def getSession_def mock_op_def)
  ultimately have served: "handleReshareShareRequest demo_ext mock_wire (Inl (Errorf ''down'')) (mock_signed [3]) True session_node session_node =
      HttpOK \<lparr>Payload = [9], Hash = [9], Signature = [9]\<rparr>"
    by (simp add: handleReshareShareRequest_def mock_authenticated X k generated_share_def GetMyGeneratedShareFor_def CreateAuthenticatedMessage_def res_simps)
  have f: "List.find (\<lambda>op. OperatorAddress op = n_addr session_node) (Operators ?session) = Some (mock_op 1)"
    by (simp add: new_session_def X mock_op_def)
  have v: "verify_by_curve (x_sig demo_ext) (mock_op 1) (keccak256 (x_lib demo_ext) d) sg = Inr ()"
    if "x_SignMessage demo_ext d = Some sg" for d sg
    using that by (simp add: X k verify_by_curve_def mock_op_def mock_sig_def CurveTypeBN254_def res_simps)
  have j: "uj_share mock_wire b = Some m" if "j_share mock_wire m = Some b" for m b
    using that by (auto simp: mock_wire_def split: if_splits)
  have L: "fr_laws (x_lib demo_ext)" using curve_lawsD(5) [OF mock_lib_laws] by (simp add: X)
  have body: "snd (mock_signed [3]) = Some \<lparr>Payload = [3], Hash = keccak256 mock_lib [3], Signature = [3]\<rparr>"
    "uj_base mock_wire (Payload \<lparr>Payload = [3], Hash = keccak256 mock_lib [3], Signature = [3]\<rparr>) = Some (2, 1, 7)"
    by (simp_all add: mock_signed_def mock_wire_def)
  have cs: "gm_get (commitments ?session) (n_addr session_node) = Some [enc2 mock_lib 5]" by (simp add: X)
  from served_share_accepted [OF served body j L f v cs, of "NewReshare 2 [mock_op 1, mock_op 2]"] served
  show ?thesis by (auto simp: X)
qed

end
