(* ===== verification/Transport.thy ===== *)
theory Transport
  imports Message_Handlers Merkle
begin

text \<open>
  \<open>pkg/transport/client.go\<close>: how an operator sends its messages. What happens on the network is a
  history of requests and sleeps; the network is a function that answers the last request of a
  history, with a status and a body, or not at all. The theorems: what the recipient's handler
  makes of a share that is sent, which it stores under the sender's address or refuses; how often and how long a send retries; and
  which operators a broadcast of commitments with proofs reaches.
\<close>

datatype net_event = Posted string bytes | Got string | Slept int

type_synonym network = "net_event list \<Rightarrow> (nat \<times> bytes) option"

text \<open>\<open>encoding/json\<close> at the types of the messages, and of the two answers.\<close>

record encoders =
  je_share :: "ShareMessage \<Rightarrow> bytes option"
  je_share_request :: "ShareRequestMessage \<Rightarrow> bytes option"
  je_commitment :: "CommitmentMessage \<Rightarrow> bytes option"
  je_ack :: "AcknowledgementMessage \<Rightarrow> bytes option"
  je_broadcast :: "CommitmentBroadcastMessage \<Rightarrow> bytes option"
  je_auth :: "AuthenticatedMessage \<Rightarrow> bytes option"
  ue_auth :: "bytes \<Rightarrow> AuthenticatedMessage option"
  ue_commitments :: "bytes \<Rightarrow> G2Point list option"

text \<open>
  Durations are in nanoseconds. The multiple is a \<open>float64\<close> in the code; its only value is 2.0, and
  the products stay far below the bound up to which they are exact.
\<close>

record RetryConfig =
  MaxAttempts :: int
  InitialBackoff :: int
  MaxBackoff :: int
  BackoffMultiple :: int

definition DefaultRetryConfig :: RetryConfig where
  "DefaultRetryConfig = \<lparr>MaxAttempts = 5, InitialBackoff = 100 * 1000000, MaxBackoff = 5 * 1000000000, BackoffMultiple = 2\<rparr>"

text \<open>The signer is the method \<open>CreateAuthenticatedMessage\<close> of the interface.\<close>

record transport_Client =
  tc_operatorAddr :: address
  tc_signer :: "bytes \<Rightarrow> AuthenticatedMessage res"
  tc_retryConfig :: RetryConfig

definition transport_NewClient :: "address \<Rightarrow> (bytes \<Rightarrow> AuthenticatedMessage res) \<Rightarrow> transport_Client" where
  "transport_NewClient operatorAddr signer =
     \<lparr>tc_operatorAddr = operatorAddr, tc_signer = signer, tc_retryConfig = DefaultRetryConfig\<rparr>"

definition buildRequestURL :: "string \<Rightarrow> string \<Rightarrow> string" where
  "buildRequestURL socketAddress path = socketAddress @ path"

definition http_Post :: "network \<Rightarrow> string \<Rightarrow> bytes \<Rightarrow> net_event list \<Rightarrow> net_event list \<times> (nat \<times> bytes) option" where
  "http_Post N url data hist = (hist @ [Posted url data], N (hist @ [Posted url data]))"

definition http_Get :: "network \<Rightarrow> string \<Rightarrow> net_event list \<Rightarrow> net_event list \<times> (nat \<times> bytes) option" where
  "http_Get N url hist = (hist @ [Got url], N (hist @ [Got url]))"

text \<open>Marshal the message, sign it, marshal the signed message.\<close>

definition sign_and_marshal :: "encoders \<Rightarrow> transport_Client \<Rightarrow> bytes option \<Rightarrow> bytes res" where
  "sign_and_marshal E c msg =
     bind_res (lib_res ''failed to marshal payload'' msg) (\<lambda>msgBytes.
     bind_res (wrap_err ''failed to create authenticated message'' (tc_signer c msgBytes)) (\<lambda>authMsg.
     lib_res ''failed to marshal authenticated message'' (je_auth E authMsg)))"

definition QueryOperatorPubkey ::
  "encoders \<Rightarrow> network \<Rightarrow> OperatorSetPeer \<Rightarrow> net_event list \<Rightarrow> net_event list \<times> G2Point list res" where
  "QueryOperatorPubkey E N operator hist =
     (case http_Get N (buildRequestURL (SocketAddress operator) ''/pubkey'') hist of
        (hist1, None) \<Rightarrow> (hist1, Inl (Errorf ''failed to contact operator''))
      | (hist1, Some (status, body)) \<Rightarrow>
          (hist1, if status \<noteq> 200 then Inl (Errorf ''operator returned status'')
                 else lib_res ''failed to decode response'' (ue_commitments E body)))"

subsection \<open>Shares, with retries\<close>

text \<open>The loop of the attempts: \<open>k\<close> are left. Whatever the status of an answer, it ends the loop.\<close>

primrec post_loop ::
  "network \<Rightarrow> RetryConfig \<Rightarrow> string \<Rightarrow> bytes \<Rightarrow> nat \<Rightarrow> int \<Rightarrow> net_event list \<Rightarrow> net_event list \<times> bool" where
  "post_loop N c url data 0 backoff hist = (hist, False)"
| "post_loop N c url data (Suc k) backoff hist =
     (case http_Post N url data hist of
        (hist1, Some _) \<Rightarrow> (hist1, True)
      | (hist1, None) \<Rightarrow>
          if k > 0
          then let b = backoff * BackoffMultiple c
               in post_loop N c url data k (if b > MaxBackoff c then MaxBackoff c else b) (hist1 @ [Slept backoff])
          else (hist1, False))"

text \<open>The two methods are the same code up to the path.\<close>

definition send_share ::
  "('f, 'g1, 'g2, 'gt) lib \<Rightarrow> encoders \<Rightarrow> network \<Rightarrow> transport_Client \<Rightarrow> string \<Rightarrow> OperatorSetPeer \<Rightarrow> 'f option \<Rightarrow> int64 \<Rightarrow>
   net_event list \<Rightarrow> net_event list \<times> unit res" where
  "send_share L E N c path toOperator share sessionTimestamp hist =
     (case bind_res (SerializeFr L share) (\<lambda>s.
        sign_and_marshal E c (je_share E \<lparr>sm_FromOperatorAddress = tc_operatorAddr c,
          sm_ToOperatorAddress = OperatorAddress toOperator, sm_SessionTimestamp = sessionTimestamp, sm_Share = Some s\<rparr>)) of
        Inl e \<Rightarrow> (hist, Inl e)
      | Inr data \<Rightarrow>
          (case post_loop N (tc_retryConfig c) (buildRequestURL (SocketAddress toOperator) path) data
                  (nat (MaxAttempts (tc_retryConfig c))) (InitialBackoff (tc_retryConfig c)) hist of
             (hist1, True) \<Rightarrow> (hist1, Inr ())
           | (hist1, False) \<Rightarrow> (hist1, Inl (Errorf ''failed to send share''))))"

definition SendDKGShare ::
  "('f, 'g1, 'g2, 'gt) lib \<Rightarrow> encoders \<Rightarrow> network \<Rightarrow> transport_Client \<Rightarrow> OperatorSetPeer \<Rightarrow> 'f option \<Rightarrow> int64 \<Rightarrow>
   net_event list \<Rightarrow> net_event list \<times> unit res" where
  "SendDKGShare L E N c = send_share L E N c ''/dkg/share''"

definition SendReshareShare ::
  "('f, 'g1, 'g2, 'gt) lib \<Rightarrow> encoders \<Rightarrow> network \<Rightarrow> transport_Client \<Rightarrow> OperatorSetPeer \<Rightarrow> 'f option \<Rightarrow> int64 \<Rightarrow>
   net_event list \<Rightarrow> net_event list \<times> unit res" where
  "SendReshareShare L E N c = send_share L E N c ''/reshare/share''"

definition RequestReshareShare ::
  "encoders \<Rightarrow> network \<Rightarrow> transport_Client \<Rightarrow> OperatorSetPeer \<Rightarrow> int64 \<Rightarrow> net_event list \<Rightarrow>
   net_event list \<times> AuthenticatedMessage res" where
  "RequestReshareShare E N c dealer sessionTimestamp hist =
     (case sign_and_marshal E c (je_share_request E \<lparr>sr_FromOperatorAddress = tc_operatorAddr c,
             sr_ToOperatorAddress = OperatorAddress dealer, sr_SessionTimestamp = sessionTimestamp\<rparr>) of
        Inl e \<Rightarrow> (hist, Inl e)
      | Inr data \<Rightarrow>
          (case http_Post N (buildRequestURL (SocketAddress dealer) ''/reshare/share/request'') data hist of
             (hist1, None) \<Rightarrow> (hist1, Inl (Errorf ''share request failed''))
           | (hist1, Some (status, body)) \<Rightarrow>
               (hist1, if status \<noteq> 200 then Inl (Errorf ''dealer returned status for share request'')
                      else lib_res ''failed to decode authenticated share response'' (ue_auth E body))))"

subsection \<open>Commitments and acknowledgements\<close>

text \<open>The posts to the peers; what they answer is ignored. A failure to build a message ends the loop.\<close>

primrec broadcast_commitments ::
  "encoders \<Rightarrow> network \<Rightarrow> transport_Client \<Rightarrow> string \<Rightarrow> OperatorSetPeer list \<Rightarrow> G2Point list \<Rightarrow> int64 \<Rightarrow> int64 \<Rightarrow>
   net_event list \<Rightarrow> net_event list \<times> unit res" where
  "broadcast_commitments E N c path [] cs sessionTimestamp sourceVersion hist = (hist, Inr ())"
| "broadcast_commitments E N c path (op # ops) cs sessionTimestamp sourceVersion hist =
     (if OperatorAddress op = tc_operatorAddr c then broadcast_commitments E N c path ops cs sessionTimestamp sourceVersion hist
      else
        (case sign_and_marshal E c (je_commitment E \<lparr>cm_FromOperatorAddress = tc_operatorAddr c,
                cm_ToOperatorAddress = OperatorAddress op, cm_SessionTimestamp = sessionTimestamp,
                cm_Commitments = cs, cm_SourceVersion = sourceVersion\<rparr>) of
           Inl e \<Rightarrow> (hist, Inl e)
         | Inr data \<Rightarrow>
             broadcast_commitments E N c path ops cs sessionTimestamp sourceVersion
               (fst (http_Post N (buildRequestURL (SocketAddress op) path) data hist))))"

definition BroadcastDKGCommitments ::
  "encoders \<Rightarrow> network \<Rightarrow> transport_Client \<Rightarrow> OperatorSetPeer list \<Rightarrow> G2Point list \<Rightarrow> int64 \<Rightarrow>
   net_event list \<Rightarrow> net_event list \<times> unit res" where
  "BroadcastDKGCommitments E N c operators cs sessionTimestamp =
     broadcast_commitments E N c ''/dkg/commitment'' operators cs sessionTimestamp 0"

definition BroadcastReshareCommitments ::
  "encoders \<Rightarrow> network \<Rightarrow> transport_Client \<Rightarrow> OperatorSetPeer list \<Rightarrow> G2Point list \<Rightarrow> int64 \<Rightarrow> int64 \<Rightarrow>
   net_event list \<Rightarrow> net_event list \<times> unit res" where
  "BroadcastReshareCommitments E N c operators cs sessionTimestamp sourceVersion =
     broadcast_commitments E N c ''/reshare/commitment'' operators cs sessionTimestamp sourceVersion"

definition send_ack ::
  "encoders \<Rightarrow> network \<Rightarrow> transport_Client \<Rightarrow> string \<Rightarrow> Acknowledgement option \<Rightarrow> OperatorSetPeer \<Rightarrow> int64 \<Rightarrow>
   net_event list \<Rightarrow> net_event list \<times> unit res" where
  "send_ack E N c path ack toOperator sessionTimestamp hist =
     (case sign_and_marshal E c (je_ack E \<lparr>am_FromOperatorAddress = tc_operatorAddr c,
             am_ToOperatorAddress = OperatorAddress toOperator, am_SessionTimestamp = sessionTimestamp, am_Ack = ack\<rparr>) of
        Inl e \<Rightarrow> (hist, Inl e)
      | Inr data \<Rightarrow>
          (case http_Post N (buildRequestURL (SocketAddress toOperator) path) data hist of
             (hist1, None) \<Rightarrow> (hist1, Inl (Errorf ''Post''))
           | (hist1, Some _) \<Rightarrow> (hist1, Inr ())))"

definition SendDKGAcknowledgement ::
  "encoders \<Rightarrow> network \<Rightarrow> transport_Client \<Rightarrow> Acknowledgement option \<Rightarrow> OperatorSetPeer \<Rightarrow> int64 \<Rightarrow>
   net_event list \<Rightarrow> net_event list \<times> unit res" where
  "SendDKGAcknowledgement E N c = send_ack E N c ''/dkg/ack''"

definition SendReshareAcknowledgement ::
  "encoders \<Rightarrow> network \<Rightarrow> transport_Client \<Rightarrow> Acknowledgement option \<Rightarrow> OperatorSetPeer \<Rightarrow> int64 \<Rightarrow>
   net_event list \<Rightarrow> net_event list \<times> unit res" where
  "SendReshareAcknowledgement E N c = send_ack E N c ''/reshare/ack''"

subsection \<open>Commitments with proofs\<close>

definition sendCommitmentBroadcast ::
  "encoders \<Rightarrow> network \<Rightarrow> transport_Client \<Rightarrow> OperatorSetPeer \<Rightarrow> CommitmentBroadcast \<Rightarrow> int64 \<Rightarrow>
   net_event list \<Rightarrow> net_event list \<times> unit res" where
  "sendCommitmentBroadcast E N c toOperator broadcast sessionTimestamp hist =
     (case sign_and_marshal E c (je_broadcast E \<lparr>bm_FromOperatorAddress = tc_operatorAddr c,
             bm_ToOperatorAddress = OperatorAddress toOperator, bm_SessionTimestamp = sessionTimestamp,
             bm_Broadcast = Some broadcast\<rparr>) of
        Inl e \<Rightarrow> (hist, Inl e)
      | Inr data \<Rightarrow>
          (case http_Post N (buildRequestURL (SocketAddress toOperator) ''/dkg/broadcast'') data hist of
             (hist1, None) \<Rightarrow> (hist1, Inl (Errorf ''failed to send broadcast''))
           | (hist1, Some (status, _)) \<Rightarrow>
               (hist1, if status \<noteq> 200 then Inl (Errorf ''broadcast failed with status'') else Inr ())))"

text \<open>The acknowledgement of an operator: the first in the sorted list, with its index.\<close>

fun recipient_ack :: "address \<Rightarrow> nat \<Rightarrow> Acknowledgement list \<Rightarrow> nat option" where
  "recipient_ack a i [] = None"
| "recipient_ack a i (ack # rest) = (if ack_PlayerAddress ack = a then Some i else recipient_ack a (Suc i) rest)"

text \<open>\<open>errs\<close> tells whether a broadcast has failed; the errors of the sends are joined at the end.\<close>

primrec broadcast_loop ::
  "encoders \<Rightarrow> 't mtlib \<Rightarrow> network \<Rightarrow> transport_Client \<Rightarrow> int64 \<Rightarrow> G2Point list \<Rightarrow> Acknowledgement list \<Rightarrow> 't MerkleTree \<Rightarrow>
   OperatorSetPeer list \<Rightarrow> bool \<Rightarrow> net_event list \<Rightarrow> net_event list \<times> unit res" where
  "broadcast_loop E M N c epoch cs myAcks mt [] errs hist = (hist, if errs then Inl (Errorf ''Join'') else Inr ())"
| "broadcast_loop E M N c epoch cs myAcks mt (op # ops) errs hist =
     (if OperatorAddress op = tc_operatorAddr c then broadcast_loop E M N c epoch cs myAcks mt ops errs hist
      else
        (case recipient_ack (OperatorAddress op) 0 (SortAcknowledgements myAcks) of
           None \<Rightarrow> (hist, Inl (Errorf ''no ack found for operator''))
         | Some leafIndex \<Rightarrow>
             (case GenerateProof M mt (int leafIndex) of
                Inl e \<Rightarrow> (hist, Inl (Wrapf ''failed to generate proof for operator'' e))
              | Inr proof \<Rightarrow>
                  (case sendCommitmentBroadcast E N c op
                          \<lparr>cb_FromOperatorAddress = tc_operatorAddr c, cb_SessionTimestamp = epoch, cb_Commitments = cs,
                           cb_Acknowledgements = map Some myAcks, cb_MerkleProof = Proof proof\<rparr> epoch hist of
                     (hist1, r) \<Rightarrow> broadcast_loop E M N c epoch cs myAcks mt ops (errs \<or> \<not> ok r) hist1))))"

definition BroadcastCommitmentsWithProofs ::
  "encoders \<Rightarrow> 't mtlib \<Rightarrow> network \<Rightarrow> transport_Client \<Rightarrow> OperatorSetPeer list \<Rightarrow> int64 \<Rightarrow> G2Point list \<Rightarrow>
   Acknowledgement list \<Rightarrow> 't MerkleTree option \<Rightarrow> net_event list \<Rightarrow> net_event list \<times> unit res" where
  "BroadcastCommitmentsWithProofs E M N c operators epoch cs myAcks merkleTree hist =
     (case merkleTree of
        None \<Rightarrow> (hist, Inl (Errorf ''merkle tree is nil''))
      | Some mt \<Rightarrow> broadcast_loop E M N c epoch cs myAcks mt operators False hist)"

subsection \<open>A share that is sent arrives\<close>

lemma sign_and_marshal_Inr:
  assumes "sign_and_marshal E c msg = Inr data" "tc_signer c = CreateAuthenticatedMessage L sign"
  obtains b sg where "msg = Some b" "sign b = Some sg"
    "je_auth E \<lparr>Payload = b, Hash = keccak256 L b, Signature = sg\<rparr> = Some data"
  using assms by (auto simp: sign_and_marshal_def CreateAuthenticatedMessage_def res_simps)

lemma post_loop_posts:
  assumes "post_loop N c url data k backoff hist = (hist', True)"
  shows "\<exists>mid. hist' = hist @ mid @ [Posted url data] \<and> (\<forall>ev \<in> set mid. ev = Posted url data \<or> (\<exists>d. ev = Slept d))"
  using assms
proof (induction k arbitrary: backoff hist)
  case (Suc k)
  show ?case
  proof (cases "N (hist @ [Posted url data])")
    case (Some a)
    then show ?thesis using Suc.prems by (intro exI [of _ "[]"]) (simp add: http_Post_def)
  next
    case None
    then obtain b where "post_loop N c url data k b ((hist @ [Posted url data]) @ [Slept backoff]) = (hist', True)"
      using Suc.prems by (auto simp: http_Post_def Let_def split: if_splits)
    from Suc.IH [OF this] obtain mid where "hist' = ((hist @ [Posted url data]) @ [Slept backoff]) @ mid @ [Posted url data]"
      "\<forall>ev \<in> set mid. ev = Posted url data \<or> (\<exists>d. ev = Slept d)" by blast
    then show ?thesis by (intro exI [of _ "Posted url data # Slept backoff # mid"]) simp
  qed
qed simp

lemma authenticated_peer:
  assumes "uj_base W (Payload am) = Some (a, n_addr n, t)" "findPeerByAddress a (known_operators listed t n) = Some peer"
    "verifyMessage (x_lib X) (x_sig X) am peer = Inr ()"
  shows "authenticated X W listed (''POST'', Some am) n = HttpOK (am, peer)"
proof -
  have "findPeerByAddress a [] = None" by (simp add: findPeerByAddress_def)
  with assms show ?thesis
    by (auto simp: authenticated_def validateAuthenticatedMessage_def known_operators_def res_simps split: option.splits sum.splits)
qed

text \<open>
  C39. A share from one operator to another, whose key is the one registered for its address. When
  \<open>SendDKGShare\<close> reports success, it posted one and the same body to the recipient, at least once. What
  the recipient's handler makes of that body depends on its session: it stores exactly this share under
  the sender's address when it holds the session, or is woken for it in time, and has no share of the
  sender yet; it refuses the share and changes nothing when the session does not come (503) or when it
  has a share of the sender already (400). The sender reports success in each of these cases.
\<close>

theorem sent_share_stored:
  assumes sent: "SendDKGShare (x_lib X) E N c to (Some x) t hist = (hist', Inr ())"
    and json: "\<And>m b. je_share E m = Some b \<Longrightarrow> uj_share W b = Some m \<and>
        uj_base W b = Some (sm_FromOperatorAddress m, sm_ToOperatorAddress m, sm_SessionTimestamp m)"
      "\<And>m b. je_auth E m = Some b \<Longrightarrow> ue_auth E b = Some m"
    and signer: "tc_signer c = CreateAuthenticatedMessage (x_lib X) sign"
      "\<And>d sg. sign d = Some sg \<Longrightarrow> verify_by_curve (x_sig X) me (keccak256 (x_lib X) d) sg = Inr ()"
    and peer: "findPeerByAddress (tc_operatorAddr c) (known_operators listed t n0) = Some me" "OperatorAddress me = tc_operatorAddr c"
    and recipient: "OperatorAddress to = n_addr n0"
    and fr: "fr_laws (x_lib X)"
  shows "\<exists>data mid. hist' = hist @ mid @ [Posted (SocketAddress to @ ''/dkg/share'') data] \<and>
    (\<forall>ev \<in> set mid. ev = Posted (SocketAddress to @ ''/dkg/share'') data \<or> (\<exists>d. ev = Slept d)) \<and>
    (case awaited woken t n of
       None \<Rightarrow> handleDKGShare X W listed (''POST'', ue_auth E data) woken n0 n = (n, HttpError 503 ''Session timeout'')
     | Some s \<Rightarrow>
         (if gm_get (shares s) (tc_operatorAddr c) \<noteq> None
          then handleDKGShare X W listed (''POST'', ue_auth E data) woken n0 n = (n, HttpError 400 ''refused'')
          else \<exists>n' s'. handleDKGShare X W listed (''POST'', ue_auth E data) woken n0 n = (n', HttpOK ()) \<and>
            getSession (n_sessions n') t = Some s' \<and> gm_get (shares s') (tc_operatorAddr c) = Some (Some x)))"
proof -
  let ?m = "\<lparr>sm_FromOperatorAddress = tc_operatorAddr c, sm_ToOperatorAddress = n_addr n0, sm_SessionTimestamp = t,
    sm_Share = Some (fr_String (x_lib X) x)\<rparr>"
  let ?url = "SocketAddress to @ ''/dkg/share''"
  obtain data where data: "sign_and_marshal E c (je_share E ?m) = Inr data"
    and loop: "post_loop N (tc_retryConfig c) ?url data (nat (MaxAttempts (tc_retryConfig c)))
      (InitialBackoff (tc_retryConfig c)) hist = (hist', True)"
    using sent recipient
    by (auto simp: SendDKGShare_def send_share_def SerializeFr_def buildRequestURL_def res_simps split: sum.splits prod.splits bool.splits)
  obtain b sg where b: "je_share E ?m = Some b" "sign b = Some sg"
    "je_auth E \<lparr>Payload = b, Hash = keccak256 (x_lib X) b, Signature = sg\<rparr> = Some data"
    by (rule sign_and_marshal_Inr [OF data signer(1)])
  let ?am = "\<lparr>Payload = b, Hash = keccak256 (x_lib X) b, Signature = sg\<rparr>"
  have "verifyMessage (x_lib X) (x_sig X) ?am me = Inr ()"
    using signer(2) [OF b(2)] by (simp add: verifyMessage_def Let_def)
  then have auth: "authenticated X W listed (''POST'', Some ?am) n0 = HttpOK (?am, me)"
    using json(1) [OF b(1)] peer(1) by (intro authenticated_peer [where t = t]) simp_all
  have "DeserializeFr (x_lib X) (Some (fr_String (x_lib X) x)) = Some x" using fr by (simp add: DeserializeFr_def fr_laws_def)
  then have "handleDKGShare X W listed (''POST'', ue_auth E data) woken n0 n =
      (case awaited woken t n of None \<Rightarrow> (n, HttpError 503 ''Session timeout'')
       | Some s \<Rightarrow> stored t (HandleReceivedShare (tc_operatorAddr c) (Some x) s) n)"
    using auth json(1) [OF b(1)] json(2) [OF b(3)] peer(2)
    by (simp add: handleDKGShare_def split: option.split)
  then show ?thesis using post_loop_posts [OF loop]
    by (auto simp: stored_def HandleReceivedShare_def Let_def split: option.splits)
qed

text \<open>Operator 2 sends the share 5 to node 1.\<close>

definition mock_sent_share :: ShareMessage where
  "mock_sent_share = \<lparr>sm_FromOperatorAddress = 2, sm_ToOperatorAddress = 1, sm_SessionTimestamp = 7, sm_Share = Some (fr_String mock_lib 5)\<rparr>"

definition mock_encoders :: encoders where
  "mock_encoders = \<lparr>je_share = (\<lambda>m. if m = mock_sent_share then Some [4] else None), je_share_request = (\<lambda>_. None),
     je_commitment = (\<lambda>_. None), je_ack = (\<lambda>_. None), je_broadcast = (\<lambda>_. Some [6]),
     je_auth = (\<lambda>m. if m = \<lparr>Payload = Payload m, Hash = keccak256 mock_lib (Payload m), Signature = Payload m\<rparr> then Some (Payload m) else None),
     ue_auth = (\<lambda>b. Some \<lparr>Payload = b, Hash = keccak256 mock_lib b, Signature = b\<rparr>), ue_commitments = (\<lambda>_. None)\<rparr>"

definition mock_sender :: transport_Client where
  "mock_sender = transport_NewClient 2 (CreateAuthenticatedMessage mock_lib Some)"

definition mock_reader :: wire where
  "mock_reader = mock_wire\<lparr>uj_share := \<lambda>b. if b = [4] then Some mock_sent_share else None\<rparr>"

theorem sent_share_stored_witness:
  "\<exists>data n' s'. handleDKGShare demo_ext mock_reader (Inl (Errorf ''down'')) (''POST'', ue_auth mock_encoders data) True session_node session_node =
      (n', HttpOK ()) \<and> getSession (n_sessions n') 7 = Some s' \<and> gm_get (shares s') 2 = Some (Some 5) \<and>
    fst (SendDKGShare mock_lib mock_encoders (\<lambda>_. Some (200, [])) mock_sender (mock_op 1) (Some 5) 7 []) =
      [Posted (SocketAddress (mock_op 1) @ ''/dkg/share'') data]"
proof -
  let ?s = "(new_session 0 ''reshare'' [mock_op 1, mock_op 2] 7)\<lparr>myGeneratedShares := Some [(2, 5)]\<rparr> :: gf ProtocolSession"
  have X: "x_lib demo_ext = mock_lib" "x_sig demo_ext = mock_sig" by (simp_all add: demo_ext_def)
  have msg: "\<lparr>sm_FromOperatorAddress = 2, sm_ToOperatorAddress = 1, sm_SessionTimestamp = 7, sm_Share = Some (fr_String mock_lib 5)\<rparr> =
    mock_sent_share" by (simp add: mock_sent_share_def)
  have send: "SendDKGShare mock_lib mock_encoders (\<lambda>_. Some (200, [])) mock_sender (mock_op 1) (Some 5) 7 [] =
      ([Posted (SocketAddress (mock_op 1) @ ''/dkg/share'') [4]], Inr ())"
    by (simp add: SendDKGShare_def send_share_def SerializeFr_def sign_and_marshal_def mock_sender_def transport_NewClient_def
        CreateAuthenticatedMessage_def mock_encoders_def DefaultRetryConfig_def http_Post_def buildRequestURL_def mock_op_def msg
        eval_nat_numeral res_simps)
  have sess: "getSession (n_sessions session_node) 7 = Some ?s" by (simp add: session_node_def getSession_def)
  have known: "findPeerByAddress (tc_operatorAddr mock_sender) (known_operators (Inl (Errorf ''down'')) 7 session_node) = Some (mock_op 2)"
    using sess by (simp add: known_operators_def new_session_def findPeerByAddress_def mock_op_def mock_sender_def transport_NewClient_def)
  let ?handle = "\<lambda>data. handleDKGShare demo_ext mock_reader (Inl (Errorf ''down'')) (''POST'', ue_auth mock_encoders data) True session_node session_node"
  have "\<exists>data mid. [Posted (SocketAddress (mock_op 1) @ ''/dkg/share'') [4]] = [] @ mid @ [Posted (SocketAddress (mock_op 1) @ ''/dkg/share'') data] \<and>
    (\<forall>ev \<in> set mid. ev = Posted (SocketAddress (mock_op 1) @ ''/dkg/share'') data \<or> (\<exists>d. ev = Slept d)) \<and>
    (case awaited True 7 session_node of
       None \<Rightarrow> ?handle data = (session_node, HttpError 503 ''Session timeout'')
     | Some s \<Rightarrow>
         (if gm_get (shares s) (tc_operatorAddr mock_sender) \<noteq> None then ?handle data = (session_node, HttpError 400 ''refused'')
          else \<exists>n' s'. ?handle data = (n', HttpOK ()) \<and> getSession (n_sessions n') 7 = Some s' \<and>
            gm_get (shares s') (tc_operatorAddr mock_sender) = Some (Some 5)))"
  proof (rule sent_share_stored [where sign = Some and me = "mock_op 2"])
    show "SendDKGShare (x_lib demo_ext) mock_encoders (\<lambda>_. Some (200, [])) mock_sender (mock_op 1) (Some 5) 7 [] =
        ([Posted (SocketAddress (mock_op 1) @ ''/dkg/share'') [4]], Inr ())" by (simp add: X send)
    show "uj_share mock_reader b = Some m \<and> uj_base mock_reader b = Some (sm_FromOperatorAddress m, sm_ToOperatorAddress m, sm_SessionTimestamp m)"
      if "je_share mock_encoders m = Some b" for m b
      using that by (auto simp: mock_encoders_def mock_reader_def mock_wire_def mock_sent_share_def split: if_splits)
    show "ue_auth mock_encoders b = Some m" if "je_auth mock_encoders m = Some b" for m b
      using that by (cases m) (auto simp: mock_encoders_def split: if_splits)
    show "tc_signer mock_sender = CreateAuthenticatedMessage (x_lib demo_ext) Some"
      by (simp add: mock_sender_def transport_NewClient_def X)
    show "verify_by_curve (x_sig demo_ext) (mock_op 2) (keccak256 (x_lib demo_ext) d) sg = Inr ()" if "Some d = Some sg" for d sg
      using that by (simp add: X mock_lib_def verify_by_curve_def mock_op_def mock_sig_def CurveTypeBN254_def res_simps)
    show "OperatorAddress (mock_op 2) = tc_operatorAddr mock_sender" "OperatorAddress (mock_op 1) = n_addr session_node"
      by (simp_all add: mock_sender_def transport_NewClient_def mock_op_def session_node_def new_node_def)
    show "fr_laws (x_lib demo_ext)" using curve_lawsD(5) [OF mock_lib_laws] by (simp add: X)
  qed (rule known)
  moreover have "awaited True 7 session_node = Some ?s" "gm_get (shares ?s) (tc_operatorAddr mock_sender) = None"
    using sess by (simp_all add: awaited_def new_session_def)
  ultimately show ?thesis using send by (auto simp: mock_sender_def transport_NewClient_def)
qed

subsection \<open>Retries\<close>

text \<open>The history of \<open>k\<close> attempts.\<close>

definition retry_trace :: "string \<Rightarrow> bytes \<Rightarrow> nat \<Rightarrow> net_event list" where
  "retry_trace url data k =
     concat (map (\<lambda>d. [Posted url data, Slept d]) (take (k - 1) (map (\<lambda>ms. ms * 1000000) [100, 200, 400, 800]))) @ [Posted url data]"

text \<open>
  A send of a share posts at most five times and sleeps at most 1.5 seconds: it stops at the first
  attempt that gets an answer, whatever its status, and reports an error exactly when no attempt gets
  one. An answer that refuses the share, a 401 or a 503, counts as sent.
\<close>

theorem send_share_retries:
  assumes "tc_retryConfig c = DefaultRetryConfig" "send_share L E N c path to share t hist = (hist', r)"
  shows "hist' = hist \<and> \<not> ok r \<or>
    (\<exists>data k. k \<in> {1..5} \<and> hist' = hist @ retry_trace (SocketAddress to @ path) data k \<and>
       (\<forall>j \<in> {1..<k}. N (hist @ retry_trace (SocketAddress to @ path) data j) = None) \<and>
       (ok r \<longleftrightarrow> N hist' \<noteq> None) \<and> (\<not> ok r \<longrightarrow> k = 5))"
proof -
  let ?url = "SocketAddress to @ path"
  let ?C = "\<lambda>data. post_loop N DefaultRetryConfig ?url data 5 100000000 hist"
  have loop: "\<exists>k. k \<in> {1..5} \<and> fst (?C data) = hist @ retry_trace ?url data k \<and>
      (\<forall>j \<in> {1..<k}. N (hist @ retry_trace ?url data j) = None) \<and>
      (snd (?C data) \<longleftrightarrow> N (fst (?C data)) \<noteq> None) \<and> (\<not> snd (?C data) \<longrightarrow> k = 5)" for data
  proof -
    let ?h = "\<lambda>k. hist @ retry_trace ?url data k"
    note tr = retry_trace_def
    consider (1) "N (?h 1) \<noteq> None" | (2) "N (?h 1) = None" "N (?h 2) \<noteq> None"
      | (3) "N (?h 1) = None" "N (?h 2) = None" "N (?h 3) \<noteq> None"
      | (4) "N (?h 1) = None" "N (?h 2) = None" "N (?h 3) = None" "N (?h 4) \<noteq> None"
      | (5) "N (?h 1) = None" "N (?h 2) = None" "N (?h 3) = None" "N (?h 4) = None" by blast
    then show ?thesis
    proof cases
      case 1
      then show ?thesis
        by (intro exI [of _ 1]) (auto simp: eval_nat_numeral http_Post_def tr)
    next
      case 2
      then show ?thesis
        by (intro exI [of _ 2]) (auto simp: eval_nat_numeral http_Post_def tr DefaultRetryConfig_def Let_def atLeastLessThanSuc)
    next
      case 3
      then show ?thesis
        by (intro exI [of _ 3]) (auto simp: eval_nat_numeral http_Post_def tr DefaultRetryConfig_def Let_def atLeastLessThanSuc)
    next
      case 4
      then show ?thesis
        by (intro exI [of _ 4]) (auto simp: eval_nat_numeral http_Post_def tr DefaultRetryConfig_def Let_def atLeastLessThanSuc)
    next
      case 5
      then show ?thesis
        by (intro exI [of _ 5])
          (auto simp: eval_nat_numeral http_Post_def tr DefaultRetryConfig_def Let_def atLeastLessThanSuc split: option.splits)
    qed
  qed
  show ?thesis
  proof (cases "bind_res (SerializeFr L share) (\<lambda>s.
        sign_and_marshal E c (je_share E \<lparr>sm_FromOperatorAddress = tc_operatorAddr c,
          sm_ToOperatorAddress = OperatorAddress to, sm_SessionTimestamp = t, sm_Share = Some s\<rparr>))")
    case (Inl e)
    with assms(2) show ?thesis by (auto simp: send_share_def)
  next
    case (Inr data)
    have cfg: "nat (MaxAttempts (tc_retryConfig c)) = 5" "InitialBackoff (tc_retryConfig c) = 100000000"
      using assms(1) by (simp_all add: DefaultRetryConfig_def)
    have "hist' = fst (?C data)" "ok r = snd (?C data)"
      using assms(2) Inr cfg assms(1) by (auto simp: send_share_def buildRequestURL_def split: prod.splits bool.splits)
    with loop [of data] show ?thesis by metis
  qed
qed

subsection \<open>Whom a broadcast reaches\<close>

lemma recipient_ack_Some:
  "recipient_ack a i xs = Some j \<Longrightarrow> i \<le> j \<and> j - i < length xs \<and> ack_PlayerAddress (xs ! (j - i)) = a"
proof (induction xs arbitrary: i)
  case (Cons x xs)
  show ?case
  proof (cases "ack_PlayerAddress x = a")
    case True
    with Cons.prems show ?thesis by simp
  next
    case False
    with Cons.prems Cons.IH [of "Suc i"] have "Suc i \<le> j" "j - Suc i < length xs" "ack_PlayerAddress (xs ! (j - Suc i)) = a"
      by simp_all
    moreover have "j - i = Suc (j - Suc i)" using \<open>Suc i \<le> j\<close> by simp
    ultimately show ?thesis by simp
  qed
qed simp

lemma recipient_ack_None: "recipient_ack a i xs = None \<longleftrightarrow> a \<notin> ack_PlayerAddress ` set xs"
  by (induction xs arbitrary: i) auto

definition to_others :: "transport_Client \<Rightarrow> OperatorSetPeer list \<Rightarrow> OperatorSetPeer list" where
  "to_others c ops = filter (\<lambda>op. OperatorAddress op \<noteq> tc_operatorAddr c) ops"

text \<open>
  The event is the post of a broadcast to \<open>op\<close>, with a proof of the acknowledgement that \<open>op\<close> gave,
  valid against the root of the tree.
\<close>

definition carries_proof ::
  "('f, 'g1, 'g2, 'gt) lib \<Rightarrow> 't mtlib \<Rightarrow> encoders \<Rightarrow> wire \<Rightarrow> transport_Client \<Rightarrow> int64 \<Rightarrow> G2Point list \<Rightarrow> Acknowledgement list \<Rightarrow>
   't MerkleTree \<Rightarrow> OperatorSetPeer \<Rightarrow> net_event \<Rightarrow> bool" where
  "carries_proof L M E W c epoch cs myAcks mt op ev \<longleftrightarrow>
     (\<exists>data am msg p ack. ev = Posted (SocketAddress op @ ''/dkg/broadcast'') data \<and> ue_auth E data = Some am \<and>
        uj_broadcast W (Payload am) = Some msg \<and> bm_FromOperatorAddress msg = tc_operatorAddr c \<and>
        bm_ToOperatorAddress msg = OperatorAddress op \<and>
        bm_Broadcast msg = Some \<lparr>cb_FromOperatorAddress = tc_operatorAddr c, cb_SessionTimestamp = epoch, cb_Commitments = cs,
          cb_Acknowledgements = map Some myAcks, cb_MerkleProof = Proof p\<rparr> \<and>
        VerifyProof M (Some p) (Root mt) \<and> ack \<in> set myAcks \<and> ack_PlayerAddress ack = OperatorAddress op \<and>
        Leaf p = HashAcknowledgementForMerkle L ack)"

text \<open>The JSON encoding round-trips, and the signer signs whatever it is given.\<close>

definition transport_ok :: "('f, 'g1, 'g2, 'gt) lib \<Rightarrow> encoders \<Rightarrow> wire \<Rightarrow> transport_Client \<Rightarrow> bool" where
  "transport_ok L E W c \<longleftrightarrow>
     (\<forall>m. \<exists>b. je_broadcast E m = Some b \<and> uj_broadcast W b = Some m) \<and>
     (\<forall>m. \<exists>b. je_auth E m = Some b \<and> ue_auth E b = Some m) \<and>
     (\<exists>sign. tc_signer c = CreateAuthenticatedMessage L sign \<and> (\<forall>d. sign d \<noteq> None))"

lemma broadcast_sent:
  assumes "transport_ok L E W c"
  shows "\<exists>data am msg r. sendCommitmentBroadcast E N c op b t hist =
      (hist @ [Posted (SocketAddress op @ ''/dkg/broadcast'') data], r) \<and>
    ue_auth E data = Some am \<and> uj_broadcast W (Payload am) = Some msg \<and> bm_FromOperatorAddress msg = tc_operatorAddr c \<and>
    bm_ToOperatorAddress msg = OperatorAddress op \<and> bm_Broadcast msg = Some b"
proof -
  let ?m = "\<lparr>bm_FromOperatorAddress = tc_operatorAddr c, bm_ToOperatorAddress = OperatorAddress op,
    bm_SessionTimestamp = t, bm_Broadcast = Some b\<rparr>"
  obtain sign where sign: "tc_signer c = CreateAuthenticatedMessage L sign" "\<forall>d. sign d \<noteq> None"
    using assms unfolding transport_ok_def by blast
  obtain mb where mb: "je_broadcast E ?m = Some mb" "uj_broadcast W mb = Some ?m"
    using assms unfolding transport_ok_def by blast
  obtain sg where sg: "sign mb = Some sg" using sign(2) by blast
  let ?am = "\<lparr>Payload = mb, Hash = keccak256 L mb, Signature = sg\<rparr>"
  obtain data where data: "je_auth E ?am = Some data" "ue_auth E data = Some ?am"
    using assms unfolding transport_ok_def by blast
  have sm: "sign_and_marshal E c (je_broadcast E ?m) = Inr data"
    using mb(1) sg sign(1) data(1) by (simp add: sign_and_marshal_def CreateAuthenticatedMessage_def res_simps)
  obtain r where "sendCommitmentBroadcast E N c op b t hist = (hist @ [Posted (SocketAddress op @ ''/dkg/broadcast'') data], r)"
    by (cases "N (hist @ [Posted (SocketAddress op @ ''/dkg/broadcast'') data])")
      (auto simp: sendCommitmentBroadcast_def sm http_Post_def buildRequestURL_def)
  with data(2) mb(2) show ?thesis by fastforce
qed

text \<open>
  C36. Broadcasts of commitments with proofs. An operator that acknowledged gets a post with the
  proof of its own acknowledgement, valid against the root of the acknowledgement tree, in the order
  of the operators, up to the first operator that did not acknowledge. There the broadcast stops with
  an error: no operator after it gets one, although it may have acknowledged.
\<close>

theorem broadcast_reaches:
  assumes merkle: "mt_laws M" "BuildMerkleTree L M myAcks = Inr mt" "myAcks \<noteq> []" "distinct (map ack_PlayerAddress myAcks)"
      "distinct (map (HashAcknowledgementForMerkle L) myAcks)" "length myAcks < 2 ^ 64"
    and ok: "transport_ok L E W c"
    and acked: "\<forall>op \<in> set (to_others c pre). OperatorAddress op \<in> ack_PlayerAddress ` set myAcks"
    and silent: "rest = [] \<or> OperatorAddress (hd rest) \<noteq> tc_operatorAddr c \<and> OperatorAddress (hd rest) \<notin> ack_PlayerAddress ` set myAcks"
    and sent: "BroadcastCommitmentsWithProofs E M N c (pre @ rest) epoch cs myAcks (Some mt) hist = (hist', r)"
  shows "\<exists>evs. hist' = hist @ evs \<and> list_all2 (carries_proof L M E W c epoch cs myAcks mt) (to_others c pre) evs \<and>
    (rest \<noteq> [] \<longrightarrow> r = Inl (Errorf ''no ack found for operator''))"
proof -
  let ?s = "SortAcknowledgements myAcks"
  have sset: "set ?s = set myAcks" and slen: "length ?s = length myAcks" by (simp_all add: SortAcknowledgements_def)
  obtain t where t: "BuildMerkleTree L M myAcks = Inr t" "Leaves t = map (HashAcknowledgementForMerkle L) ?s"
    "\<forall>i. if 0 \<le> i \<and> i < int (length myAcks) \<and> i < 2 ^ 64
        then \<exists>p. GenerateProof M t i = Inr p \<and> Leaf p = Leaves t ! nat i \<and> VerifyProof M (Some p) (Root t)
        else i < 0 \<or> i \<ge> int (length myAcks) \<longrightarrow> GenerateProof M t i = Inl (Errorf ''leaf index out of bounds'')"
    using BuildMerkleTree_correct [OF merkle(1) refl merkle(3-5)] by blast
  have mt: "t = mt" using t(1) merkle(2) by simp
  have valid: "\<exists>p. GenerateProof M mt (int i) = Inr p \<and> Leaf p = HashAcknowledgementForMerkle L (?s ! i) \<and> VerifyProof M (Some p) (Root mt)"
    if "i < length ?s" for i
    using spec [OF t(3), of "int i"] that slen merkle(6) by (simp add: t(2) mt [symmetric])
  have step: "\<exists>evs errs'. broadcast_loop E M N c epoch cs myAcks mt (ops @ rest) errs h =
      broadcast_loop E M N c epoch cs myAcks mt rest errs' (h @ evs) \<and>
      list_all2 (carries_proof L M E W c epoch cs myAcks mt) (to_others c ops) evs"
    if "\<forall>op \<in> set (to_others c ops). OperatorAddress op \<in> ack_PlayerAddress ` set myAcks" for ops errs h
    using that
  proof (induction ops arbitrary: errs h)
    case Nil
    show ?case by (intro exI [of _ "[]"] exI [of _ errs]) (simp add: to_others_def)
  next
    case (Cons op ops)
    show ?case
    proof (cases "OperatorAddress op = tc_operatorAddr c")
      case True
      then show ?thesis using Cons.IH [of errs h] Cons.prems by (simp add: to_others_def)
    next
      case False
      then have "OperatorAddress op \<in> ack_PlayerAddress ` set ?s" using Cons.prems by (simp add: to_others_def sset)
      then obtain i where i: "recipient_ack (OperatorAddress op) 0 ?s = Some i" by (metis recipient_ack_None not_None_eq)
      then have si: "i < length ?s" "ack_PlayerAddress (?s ! i) = OperatorAddress op"
        using recipient_ack_Some [OF i] by simp_all
      obtain p where p: "GenerateProof M mt (int i) = Inr p" "Leaf p = HashAcknowledgementForMerkle L (?s ! i)" "VerifyProof M (Some p) (Root mt)"
        using valid [OF si(1)] by blast
      let ?b = "\<lparr>cb_FromOperatorAddress = tc_operatorAddr c, cb_SessionTimestamp = epoch, cb_Commitments = cs,
        cb_Acknowledgements = map Some myAcks, cb_MerkleProof = Proof p\<rparr>"
      obtain data am msg r where d: "sendCommitmentBroadcast E N c op ?b epoch h = (h @ [Posted (SocketAddress op @ ''/dkg/broadcast'') data], r)"
        "ue_auth E data = Some am" "uj_broadcast W (Payload am) = Some msg" "bm_FromOperatorAddress msg = tc_operatorAddr c"
        "bm_ToOperatorAddress msg = OperatorAddress op" "bm_Broadcast msg = Some ?b"
        using broadcast_sent [OF ok] by blast
      let ?ev = "Posted (SocketAddress op @ ''/dkg/broadcast'') data"
      have "carries_proof L M E W c epoch cs myAcks mt op ?ev"
        unfolding carries_proof_def using d(2-6) p(2,3) si nth_mem [OF si(1)] sset by blast
      moreover obtain evs errs' where "broadcast_loop E M N c epoch cs myAcks mt (ops @ rest) (errs \<or> \<not> ok r) (h @ [?ev]) =
          broadcast_loop E M N c epoch cs myAcks mt rest errs' ((h @ [?ev]) @ evs)"
        "list_all2 (carries_proof L M E W c epoch cs myAcks mt) (to_others c ops) evs"
        using Cons.IH [of "errs \<or> \<not> ok r" "h @ [?ev]"] Cons.prems by (auto simp: to_others_def)
      ultimately show ?thesis using False i p(1) d(1)
        by (intro exI [of _ "?ev # evs"] exI [of _ errs']) (simp add: to_others_def)
    qed
  qed
  from step [OF acked, of False hist] obtain evs errs' where e:
    "BroadcastCommitmentsWithProofs E M N c (pre @ rest) epoch cs myAcks (Some mt) hist =
      broadcast_loop E M N c epoch cs myAcks mt rest errs' (hist @ evs)"
    "list_all2 (carries_proof L M E W c epoch cs myAcks mt) (to_others c pre) evs"
    by (auto simp: BroadcastCommitmentsWithProofs_def)
  show ?thesis
  proof (cases rest)
    case Nil
    then show ?thesis using e sent by auto
  next
    case (Cons op ops)
    then have "recipient_ack (OperatorAddress op) 0 ?s = None" using silent by (simp add: recipient_ack_None sset)
    then have "broadcast_loop E M N c epoch cs myAcks mt rest errs' (hist @ evs) = (hist @ evs, Inl (Errorf ''no ack found for operator''))"
      using Cons silent by simp
    then show ?thesis using e sent by auto
  qed
qed

text \<open>An encoding of the messages, and a dealer 2 with the acknowledgements of 1 and 3 but not of 4.\<close>

definition bm_tuple where
  "bm_tuple (m :: CommitmentBroadcastMessage) = (bm_FromOperatorAddress m, bm_ToOperatorAddress m, bm_SessionTimestamp m,
     map_option (\<lambda>b. (cb_FromOperatorAddress b, cb_SessionTimestamp b, cb_Commitments b, cb_Acknowledgements b, cb_MerkleProof b))
       (bm_Broadcast m))"

definition tuple_bm where
  "tuple_bm t = (case t of (a, b, c, d) \<Rightarrow>
     \<lparr>bm_FromOperatorAddress = a, bm_ToOperatorAddress = b, bm_SessionTimestamp = c,
      bm_Broadcast = map_option (\<lambda>(e, f, g, h, i). \<lparr>cb_FromOperatorAddress = e, cb_SessionTimestamp = f, cb_Commitments = g,
        cb_Acknowledgements = h, cb_MerkleProof = i\<rparr>) d\<rparr>)"

lemma tuple_bm_tuple: "tuple_bm (bm_tuple m) = m"
  by (cases "bm_Broadcast m") (simp_all add: bm_tuple_def tuple_bm_def)

definition enc_bm :: "CommitmentBroadcastMessage \<Rightarrow> bytes" where
  "enc_bm = enc_via bm_tuple (enc_pair enc_addr (enc_pair enc_addr (enc_pair enc_int (enc_opt
     (enc_pair enc_addr (enc_pair enc_int (enc_pair (enc_list enc_g2) (enc_pair (enc_list (enc_opt enc_ack)) (enc_list enc_bytes)))))))))"

definition dec_bm :: "bytes \<Rightarrow> (CommitmentBroadcastMessage \<times> bytes) option" where
  "dec_bm = dec_via tuple_bm (dec_pair dec_addr (dec_pair dec_addr (dec_pair dec_int (dec_opt
     (dec_pair dec_addr (dec_pair dec_int (dec_pair (dec_list dec_g2) (dec_pair (dec_list (dec_opt dec_ack)) (dec_list dec_bytes)))))))))"

lemma codec_bm: "codec enc_bm dec_bm"
  unfolding enc_bm_def dec_bm_def by (intro codec_via codec_intros codec_ack tuple_bm_tuple)

definition am_tuple where
  "am_tuple (m :: AuthenticatedMessage) = (Payload m, Hash m, Signature m)"

definition tuple_am where
  "tuple_am t = (case t of (p, h, sg) \<Rightarrow> \<lparr>Payload = p, Hash = h, Signature = sg\<rparr>)"

lemma tuple_am_tuple: "tuple_am (am_tuple m) = m"
  by (simp add: am_tuple_def tuple_am_def)

definition enc_am :: "AuthenticatedMessage \<Rightarrow> bytes" where
  "enc_am = enc_via am_tuple (enc_pair enc_bytes (enc_pair enc_bytes enc_bytes))"

definition dec_am :: "bytes \<Rightarrow> (AuthenticatedMessage \<times> bytes) option" where
  "dec_am = dec_via tuple_am (dec_pair dec_bytes (dec_pair dec_bytes dec_bytes))"

lemma codec_am: "codec enc_am dec_am"
  unfolding enc_am_def dec_am_def by (intro codec_via codec_intros tuple_am_tuple)

definition full_encoders :: encoders where
  "full_encoders = mock_encoders\<lparr>je_broadcast := \<lambda>m. Some (enc_bm m), je_auth := \<lambda>m. Some (enc_am m),
     ue_auth := \<lambda>b. map_option fst (dec_am b)\<rparr>"

definition full_reader :: wire where
  "full_reader = mock_wire\<lparr>uj_broadcast := \<lambda>b. map_option fst (dec_bm b)\<rparr>"

lemma full_transport_ok: "transport_ok mock_lib full_encoders full_reader mock_sender"
proof -
  have bm: "\<exists>b. je_broadcast full_encoders m = Some b \<and> uj_broadcast full_reader b = Some m" for m
    using codecD [OF codec_bm, of m "[]"] by (simp add: full_encoders_def full_reader_def)
  have am: "\<exists>b. je_auth full_encoders m = Some b \<and> ue_auth full_encoders b = Some m" for m
    using codecD [OF codec_am, of m "[]"] by (simp add: full_encoders_def)
  have signer: "tc_signer mock_sender = CreateAuthenticatedMessage mock_lib Some \<and> (\<forall>d. Some d \<noteq> None)"
    by (simp add: mock_sender_def transport_NewClient_def)
  show ?thesis unfolding transport_ok_def
    by (intro conjI allI; (rule bm | rule am | (rule exI [of _ Some], rule signer)))
qed

theorem broadcast_reaches_witness:
  "\<exists>mt ev a1 a3. ack_PlayerAddress a1 = 1 \<and> ack_PlayerAddress a3 = 3 \<and> BuildMerkleTree mock_lib mock_mt [a3, a1] = Inr mt \<and>
    BroadcastCommitmentsWithProofs full_encoders mock_mt (\<lambda>_. Some (200, [])) mock_sender
      [mock_op 1, mock_op 2, mock_op 4, mock_op 3] 9 [] [a3, a1] (Some mt) [] = ([ev], Inl (Errorf ''no ack found for operator'')) \<and>
    carries_proof mock_lib mock_mt full_encoders full_reader mock_sender 9 [] [a3, a1] mt (mock_op 1) ev"
proof -
  let ?a = "\<lambda>p. CreateAcknowledgement mock_lib p 2 9 5 [] (\<lambda>_ _ _ _ _. [])"
  let ?acks = "[?a 3, ?a 1]"
  have laws: "mt_laws mock_mt" by (simp add: mt_laws_def mock_mt_def)
  have p: "ack_PlayerAddress (?a q) = q" for q by (simp add: CreateAcknowledgement_def)
  have h: "HashAcknowledgementForMerkle mock_lib (?a 3) \<noteq> HashAcknowledgementForMerkle mock_lib (?a 1)"
    by (simp add: CreateAcknowledgement_def HashAcknowledgementForMerkle_def ack_preimage_def keccak256Hash_def
        append_eq_append_conv mock_lib_def)
  have addr: "OperatorAddress (mock_op i) = i" for i by (simp add: mock_op_def)
  have self: "tc_operatorAddr mock_sender = 2" by (simp add: mock_sender_def transport_NewClient_def)
  obtain mt where mt: "BuildMerkleTree mock_lib mock_mt ?acks = Inr mt"
    by (simp add: BuildMerkleTree_def mock_mt_def Let_def)
  obtain hist' r where b: "BroadcastCommitmentsWithProofs full_encoders mock_mt (\<lambda>_. Some (200, [])) mock_sender
      ([mock_op 1, mock_op 2] @ [mock_op 4, mock_op 3]) 9 [] ?acks (Some mt) [] = (hist', r)" by fastforce
  have o: "to_others mock_sender [mock_op 1, mock_op 2] = [mock_op 1]" by (simp add: to_others_def self addr)
  have "\<exists>evs. hist' = [] @ evs \<and>
      list_all2 (carries_proof mock_lib mock_mt full_encoders full_reader mock_sender 9 [] ?acks mt)
        (to_others mock_sender [mock_op 1, mock_op 2]) evs \<and>
      ([mock_op 4, mock_op 3] \<noteq> [] \<longrightarrow> r = Inl (Errorf ''no ack found for operator''))"
    by (rule broadcast_reaches [OF laws mt _ _ _ _ full_transport_ok _ _ b])
      (use h p o in \<open>simp_all add: addr self\<close>)
  then obtain ev where "hist' = [ev]" "carries_proof mock_lib mock_mt full_encoders full_reader mock_sender 9 [] ?acks mt (mock_op 1) ev"
    "r = Inl (Errorf ''no ack found for operator'')"
    unfolding o by (auto simp: list_all2_Cons1)
  with b mt p [of 1] p [of 3] show ?thesis by auto
qed

end
