(* ===== verification/Attestation.thy ===== *)
theory Attestation
  imports Go_Strings
begin

text \<open>
  \<open>pkg/attestation\<close>: the claims and policies of \<open>pkg/types\<close>, the manager that routes a request to
  a registered method, and the methods: signatures (\<open>ecdsa.go\<close>), tokens of Google and Intel
  (\<open>attestation.go\<close>, \<open>gcp_method.go\<close>), TPM evidence (\<open>tpm_method.go\<close>). Hash functions,
  signature schemes, the token library and the hardware verifiers are parameters. A request is
  authentic when the attestation binds it: the theorems say what each method binds and what not.
\<close>

subsection \<open>Claims, policies, releases\<close>

record ContainerPolicy =
  Args :: "string list"
  CmdOverride :: "string list"
  Env :: "(string, string) gomap"
  EnvOverride :: "(string, string) gomap"
  RestartPolicy :: string

definition ContainerPolicy_zero :: ContainerPolicy where
  "ContainerPolicy_zero = \<lparr>Args = [], CmdOverride = [], Env = [], EnvOverride = [], RestartPolicy = []\<rparr>"

record AttestationClaims =
  ac_AppID :: string
  ac_ImageDigest :: string
  ac_Nonce :: string
  JTI :: string
  IssuedAt :: int64
  ExpiresAt :: int64
  ac_PublicKey :: bytes
  ac_ContainerPolicy :: ContainerPolicy
  ac_ExtraData :: bytes
  ac_Registry :: string

definition AttestationClaims_zero :: AttestationClaims where
  "AttestationClaims_zero =
     \<lparr>ac_AppID = [], ac_ImageDigest = [], ac_Nonce = [], JTI = [], IssuedAt = 0, ExpiresAt = 0, ac_PublicKey = [],
      ac_ContainerPolicy = ContainerPolicy_zero, ac_ExtraData = [], ac_Registry = []\<rparr>"

record Release =
  rel_ImageDigest :: string
  rel_Registry :: string
  rel_EncryptedEnv :: string
  rel_PublicEnv :: string
  rel_Timestamp :: int64
  rel_ContainerPolicy :: ContainerPolicy

subsection \<open>The manager\<close>

datatype metadata = MBytes bytes | MOther

record AttestationRequest =
  ar_Method :: string
  ar_Attestation :: bytes
  ar_AppID :: string
  ar_Challenge :: bytes
  ar_PublicKey :: bytes
  ar_Metadata :: "(string, metadata) gomap"
  ar_RSAPubKeyTmp :: bytes
  ar_ExtraData :: bytes
  ar_CCInitData :: bytes

record AttestationMethod =
  am_Name :: string
  am_Verify :: "AttestationRequest option \<Rightarrow> AttestationClaims res"

type_synonym AttestationManager = "(string, AttestationMethod) gomap"

definition NewAttestationManager :: AttestationManager where
  "NewAttestationManager = []"

definition RegisterMethod :: "AttestationMethod option \<Rightarrow> AttestationManager \<Rightarrow> AttestationManager \<times> unit res" where
  "RegisterMethod method m =
     (case method of
        None \<Rightarrow> (m, Inl (Errorf ''attestation method is nil''))
      | Some method \<Rightarrow>
          let name = am_Name method in
          if name = [] then (m, Inl (Errorf ''attestation method has empty name''))
          else (gm_set m name method, Inr ()))"

definition UnregisterMethod :: "string \<Rightarrow> AttestationManager \<Rightarrow> AttestationManager" where
  "UnregisterMethod name m = gm_del m name"

definition HasMethod :: "AttestationManager \<Rightarrow> string \<Rightarrow> bool" where
  "HasMethod m name \<longleftrightarrow> gm_get m name \<noteq> None"

definition ListMethods :: "AttestationManager \<Rightarrow> string list" where
  "ListMethods m = map fst m"

definition MethodCount :: "AttestationManager \<Rightarrow> nat" where
  "MethodCount m = length m"

definition VerifyWithMethod :: "AttestationManager \<Rightarrow> string \<Rightarrow> AttestationRequest option \<Rightarrow> AttestationClaims res" where
  "VerifyWithMethod m methodName request =
     (case gm_get m methodName of
        None \<Rightarrow> Inl (Errorf ''attestation method is not registered'')
      | Some method \<Rightarrow>
          (case request of
             None \<Rightarrow> Inl (Panic ''nil pointer dereference'')
           | Some _ \<Rightarrow> wrap_err ''verification failed with method'' (am_Verify method request)))"

definition Verify :: "AttestationManager \<Rightarrow> AttestationRequest option \<Rightarrow> AttestationClaims res" where
  "Verify m request =
     (case request of
        None \<Rightarrow> Inl (Errorf ''attestation request is nil'')
      | Some r \<Rightarrow>
          if ar_Method r = [] then Inl (Errorf ''attestation method not specified in request'')
          else VerifyWithMethod m (ar_Method r) request)"

subsection \<open>Signatures\<close>

text \<open>
  go-ethereum's \<open>crypto\<close>: \<open>UnmarshalPubkey\<close> and \<open>SigToPub\<close> give the address of the key they
  read, for \<open>PubkeyToAddress\<close>; \<open>eth_FromECDSAPub\<close> is the serialised public key of a private key.
\<close>

record 'k ethlib =
  eth_Keccak256 :: "bytes \<Rightarrow> bytes"
  eth_UnmarshalPubkey :: "bytes \<Rightarrow> address option"
  eth_VerifySignature :: "bytes \<Rightarrow> bytes \<Rightarrow> bytes \<Rightarrow> bool"
  eth_FromECDSAPub :: "'k \<Rightarrow> bytes"
  eth_Sign :: "bytes \<Rightarrow> 'k \<Rightarrow> bytes option"
  eth_SigToPub :: "bytes \<Rightarrow> bytes \<Rightarrow> address option"

definition DefaultChallengeTimeWindow :: int64 where
  "DefaultChallengeTimeWindow = 5 * 60 * 10 ^ 9"

definition NonceLength :: nat where
  "NonceLength = 32"

record ECDSAAttestationConfig =
  ChallengeTimeWindow :: int64
  AllowedImageDigest :: string

definition NewECDSAAttestationMethod :: "ECDSAAttestationConfig \<Rightarrow> ECDSAAttestationConfig" where
  "NewECDSAAttestationMethod config =
     (if ChallengeTimeWindow config = 0 then config\<lparr>ChallengeTimeWindow := DefaultChallengeTimeWindow\<rparr> else config)"

text \<open>\<open>Sscanf(challenge, "%d-%s", ...)\<close>: what follows the nonce is ignored.\<close>

definition parseChallenge :: "string \<Rightarrow> (int64 \<times> string) res" where
  "parseChallenge challenge =
     (if challenge = [] then Inl (Errorf ''challenge is empty'')
      else case scan_int challenge of
        Some (timestamp, c # rest) \<Rightarrow>
          if c \<noteq> CHR ''-'' then Inl (Errorf ''challenge must be in format timestamp-nonce'')
          else (case scan_word rest of
             None \<Rightarrow> Inl (Errorf ''challenge must be in format timestamp-nonce'')
           | Some (nonce, _) \<Rightarrow> Inr (timestamp, nonce))
      | _ \<Rightarrow> Inl (Errorf ''challenge must be in format timestamp-nonce''))"

definition ecdsa_message :: "string \<Rightarrow> string \<Rightarrow> bytes \<Rightarrow> string" where
  "ecdsa_message appID challenge publicKey = appID @ ''-'' @ challenge @ ''-'' @ EncodeToString publicKey"

text \<open>
  The age of a time stamp in nanoseconds: \<open>time.Unix\<close> adds the seconds from the year 1 with
  wrap-around, \<open>Sub\<close> saturates at the bounds of a duration.
\<close>

definition unixToInternal :: int where
  "unixToInternal = 62135596800"

definition age_of :: "int64 \<Rightarrow> int64 \<Rightarrow> int64" where
  "age_of now timestamp =
     max (- (2 ^ 63)) (min (2 ^ 63 - 1) (now - (to_int64 (timestamp + unixToInternal) - unixToInternal) * 10 ^ 9))"

text \<open>\<open>string(b)\<close> of a byte slice.\<close>

definition bytes_str :: "bytes \<Rightarrow> string" where
  "bytes_str bs = map (\<lambda>b. char_of (unat b)) bs"

definition ECDSA_Verify ::
  "'k ethlib \<Rightarrow> ECDSAAttestationConfig \<Rightarrow> int64 \<Rightarrow> AttestationRequest option \<Rightarrow> AttestationClaims res" where
  "ECDSA_Verify E config now request =
     (case request of
        None \<Rightarrow> Inl (Errorf ''attestation request is nil'')
      | Some request \<Rightarrow>
          if ar_AppID request = [] then Inl (Errorf ''app_id is required'')
          else if ar_Challenge request = [] then Inl (Errorf ''challenge is required'')
          else if ar_PublicKey request = [] then Inl (Errorf ''public_key is required'')
          else if ar_Attestation request = [] then Inl (Errorf ''signature is required'')
          else
          bind_res (wrap_err ''invalid challenge format'' (parseChallenge (bytes_str (ar_Challenge request)))) (\<lambda>(timestamp, nonce).
          let age = age_of now timestamp in
          if age < 0 then Inl (Errorf ''challenge timestamp is in the future'')
          else if age > ChallengeTimeWindow config then Inl (Errorf ''challenge expired'')
          else if length nonce \<noteq> NonceLength * 2 then Inl (Errorf ''invalid nonce length'')
          else if eth_UnmarshalPubkey E (ar_PublicKey request) = None then Inl (Errorf ''invalid public key'')
          else
            let message = ecdsa_message (ar_AppID request) (bytes_str (ar_Challenge request)) (ar_PublicKey request);
                messageHash = eth_Keccak256 E (str_bytes message);
                signature = ar_Attestation request
            in
            if length signature \<noteq> 65 then Inl (Errorf ''invalid signature length'')
            else if \<not> eth_VerifySignature E (ar_PublicKey request) messageHash (take 64 signature)
            then Inl (Errorf ''signature verification failed'')
            else Inr (AttestationClaims_zero
              \<lparr>ac_AppID := ar_AppID request,
               ac_ImageDigest := (if AllowedImageDigest config = [] then ''ecdsa:unverified'' else AllowedImageDigest config),
               IssuedAt := timestamp, ac_PublicKey := ar_PublicKey request\<rparr>)))"

definition ecdsa_method :: "'k ethlib \<Rightarrow> ECDSAAttestationConfig \<Rightarrow> int64 \<Rightarrow> AttestationMethod" where
  "ecdsa_method E config now = \<lparr>am_Name = ''ecdsa'', am_Verify = ECDSA_Verify E (NewECDSAAttestationMethod config) now\<rparr>"

definition GenerateChallenge :: "int64 \<Rightarrow> bytes \<Rightarrow> string res" where
  "GenerateChallenge now_unix nonce =
     (if length nonce \<noteq> NonceLength then Inl (Errorf ''nonce must be 32 bytes'')
      else Inr (show_int now_unix @ ''-'' @ EncodeToString nonce))"

definition SignChallenge :: "'k ethlib \<Rightarrow> 'k option \<Rightarrow> string \<Rightarrow> string \<Rightarrow> bytes res" where
  "SignChallenge E privateKey appID challenge =
     (case privateKey of
        None \<Rightarrow> Inl (Errorf ''private key is nil'')
      | Some k \<Rightarrow>
          let message = ecdsa_message appID challenge (eth_FromECDSAPub E k) in
          lib_res ''failed to sign message'' (eth_Sign E (eth_Keccak256 E (str_bytes message)) k))"

definition RecoverAddress :: "'k ethlib \<Rightarrow> string \<Rightarrow> string \<Rightarrow> bytes \<Rightarrow> bytes \<Rightarrow> address res" where
  "RecoverAddress E appID challenge publicKey signature =
     (if length signature \<le> 64 then Inl (Panic ''index out of range'')
      else
        let messageHash = eth_Keccak256 E (str_bytes (ecdsa_message appID challenge publicKey));
            sig = (if unat (signature ! 64) \<ge> 27 then signature[64 := signature ! 64 - 27] else signature)
        in lib_res ''failed to recover public key'' (eth_SigToPub E messageHash sig))"

subsection \<open>Tokens of Google and Intel\<close>

datatype AttestationProvider = GoogleConfidentialSpace | IntelTrustAuthority | UnknownProvider

definition googleIssuer :: string where
  "googleIssuer = ''https://confidentialcomputing.googleapis.com''"

definition intelIssuer :: string where
  "intelIssuer = ''https://portal.trustauthority.intel.com''"

definition googleAudience :: string where
  "googleAudience = ''https://sts.googleapis.com''"

definition KMSJWTAudience :: string where
  "KMSJWTAudience = ''EigenX KMS''"

text \<open>A value of type \<open>any\<close> from a JSON document.\<close>

datatype any = AnyNil | AnyString string | AnyArray "any list" | AnyOther

record Container =
  ct_ImageDigest :: string
  ct_Args :: "string list"
  ct_CmdOverride :: "string list"
  ct_Env :: "(string, string) gomap"
  ct_EnvOverride :: "(string, string) gomap"
  ct_RestartPolicy :: string

record ConfidentialSpaceToken =
  Exp :: int64
  Iat :: int64
  EatNonce :: any
  SwName :: string
  AttesterTCB :: "string list"
  HwModel :: string
  DbgStat :: string
  SwVersion :: "string list"
  SubMods_Container :: Container
  SubMods_GCE_ProjectID :: string
  SubMods_GCE_InstanceName :: string
  SubMods_SupportAttributes :: "string list"
  TDX_GcpAttesterTcbStatus :: string

text \<open>
  The token library: \<open>jws.Parse\<close> gives the algorithm and the key id of each signature's header,
  \<open>jwt.Parse\<close> verifies a token against a set of keys at a time and gives its standard claims and
  the token as a structure, which the code gets by marshalling and unmarshalling it.
\<close>

record jwt_token =
  tok_Issuer :: "string option"
  tok_Audience :: "string list option"
  tok_JwtID :: "string option"
  tok_claims :: "ConfidentialSpaceToken option"

record 'key jwtlib =
  jws_Parse :: "string \<Rightarrow> (string option \<times> string option) list option"
  jwk_Algorithm :: "'key \<Rightarrow> string option"
  jwk_AddKey :: "'key \<Rightarrow> 'key list \<Rightarrow> 'key list"
  jwt_Parse :: "string \<Rightarrow> 'key list \<Rightarrow> int64 \<Rightarrow> jwt_token option"

record 'key AttestationVerifier =
  googleJwksCache :: "'key option list"
  intelJwksCache :: "'key option list"
  av_projectID :: string
  debugMode :: bool

record validationConfig =
  expectedHwModel :: string
  requireAttesterTCB :: bool
  requiredSupportAttr :: string
  requireTDXSubmods :: bool

definition googleValidationConfig :: validationConfig where
  "googleValidationConfig = \<lparr>expectedHwModel = ''GCP_INTEL_TDX'', requireAttesterTCB = True,
     requiredSupportAttr = ''STABLE'', requireTDXSubmods = False\<rparr>"

definition intelValidationConfig :: validationConfig where
  "intelValidationConfig = \<lparr>expectedHwModel = ''INTEL_TDX'', requireAttesterTCB = False,
     requiredSupportAttr = ''STABLE'', requireTDXSubmods = True\<rparr>"

definition extractNonce :: "any \<Rightarrow> string res" where
  "extractNonce eatNonce =
     (case eatNonce of
        AnyNil \<Rightarrow> Inr []
      | AnyString s \<Rightarrow> Inr s
      | AnyArray [AnyString s] \<Rightarrow> Inr s
      | AnyArray _ \<Rightarrow> Inl (Errorf ''eat_nonce array must contain exactly one string element'')
      | AnyOther \<Rightarrow> Inl (Errorf ''eat_nonce must be a string or array of strings''))"

definition validateToken :: "'key AttestationVerifier \<Rightarrow> ConfidentialSpaceToken \<Rightarrow> validationConfig \<Rightarrow> unit res" where
  "validateToken av t cfg =
     (if SwName t \<noteq> ''CONFIDENTIAL_SPACE'' then Inl (Errorf ''invalid software name'')
      else if requireAttesterTCB cfg \<and> AttesterTCB t \<noteq> [''INTEL''] then Inl (Errorf ''invalid attester_tcb'')
      else if HwModel t \<noteq> expectedHwModel cfg then Inl (Errorf ''invalid hwmodel'')
      else case SwVersion t of
        [] \<Rightarrow> Inl (Errorf ''empty swversion array'')
      | v # _ \<Rightarrow>
          (case scan_int v of
             None \<Rightarrow> Inl (Errorf ''failed to parse swversion'')
           | Some (swVersionInt, _) \<Rightarrow>
               if swVersionInt < 250300 then Inl (Errorf ''invalid swversion'')
               else if requireTDXSubmods cfg \<and> TDX_GcpAttesterTcbStatus t = [] then
                 Inl (Errorf ''tdx submods not found in Intel Trust Authority token'')
               else if requireTDXSubmods cfg \<and> TDX_GcpAttesterTcbStatus t \<noteq> ''UpToDate'' then
                 Inl (Errorf ''invalid tdx.gcp_attester_tcb_status'')
               else if \<not> debugMode av \<and> DbgStat t \<noteq> ''disabled-since-boot'' then Inl (Errorf ''invalid dbgstat'')
               else if \<not> debugMode av \<and> requiredSupportAttr cfg \<notin> set (SubMods_SupportAttributes t) then
                 Inl (Errorf ''invalid confidential_space.support_attributes'')
               else if SubMods_GCE_ProjectID t \<noteq> av_projectID av then Inl (Errorf ''invalid project_id'')
               else Inr ()))"

definition extractAppIDFromInstanceName :: "string \<Rightarrow> string res" where
  "extractAppIDFromInstanceName instanceName =
     (let parts = Split CHR ''-'' instanceName in
      if length parts < 2 then Inl (Errorf ''invalid instance name'') else Inr (last parts))"

definition getFilteredKeySetForToken :: "'key jwtlib \<Rightarrow> string \<Rightarrow> 'key option list \<Rightarrow> 'key list res" where
  "getFilteredKeySetForToken J tokenString jwksCache =
     bind_res (lib_res ''failed to parse JWS message'' (jws_Parse J tokenString)) (\<lambda>signatures.
     case signatures of
       [] \<Rightarrow> Inl (Errorf ''token has no signatures'')
     | (alg, kid) # _ \<Rightarrow>
         (case alg of
            None \<Rightarrow> Inl (Errorf ''token does not specify an algorithm'')
          | Some tokenAlg \<Rightarrow>
              if kid = None \<or> kid = Some [] then Inl (Errorf ''token does not specify a key ID'')
              else
                let filteredKeySet = fold (\<lambda>k acc. case k of
                      None \<Rightarrow> acc
                    | Some key \<Rightarrow> if jwk_Algorithm J key = Some tokenAlg then jwk_AddKey J key acc else acc) jwksCache []
                in if filteredKeySet = [] then Inl (Errorf ''no keys found in JWKS matching algorithm'')
                   else Inr filteredKeySet))"

definition VerifyAttestation ::
  "'key jwtlib \<Rightarrow> 'key AttestationVerifier \<Rightarrow> int64 \<Rightarrow> string \<Rightarrow> AttestationProvider \<Rightarrow> AttestationClaims res" where
  "VerifyAttestation J av now tokenString provider =
     bind_res (case provider of
         GoogleConfidentialSpace \<Rightarrow> Inr (googleJwksCache av, googleIssuer, googleValidationConfig)
       | IntelTrustAuthority \<Rightarrow> Inr (intelJwksCache av, intelIssuer, intelValidationConfig)
       | UnknownProvider \<Rightarrow> Inl (Errorf ''unknown attestation provider'')) (\<lambda>(jwksCache, expectedIssuer, cfg).
     bind_res (getFilteredKeySetForToken J tokenString jwksCache) (\<lambda>filteredKeySet.
     bind_res (lib_res ''token parsing/verification failed'' (jwt_Parse J tokenString filteredKeySet now)) (\<lambda>token.
     case tok_Issuer token of
       None \<Rightarrow> Inl (Errorf ''issuer claim not found in token'')
     | Some issuer \<Rightarrow>
         if issuer \<noteq> expectedIssuer then Inl (Errorf ''invalid issuer'')
         else (case tok_Audience token of
           None \<Rightarrow> Inl (Errorf ''audience claim not found in token'')
         | Some audiences \<Rightarrow>
             if length audiences \<noteq> 1 then Inl (Errorf ''audience must contain exactly one value'')
             else if hd audiences \<noteq> googleAudience \<and> hd audiences \<noteq> KMSJWTAudience then Inl (Errorf ''invalid audience'')
             else
             bind_res (lib_res ''failed to unmarshal token JSON to ConfidentialSpaceToken'' (tok_claims token)) (\<lambda>csToken.
             bind_res (validateToken av csToken cfg) (\<lambda>_.
             bind_res (wrap_err ''failed to extract app ID from instance name''
               (extractAppIDFromInstanceName (SubMods_GCE_InstanceName csToken))) (\<lambda>appID.
             bind_res (wrap_err ''failed to extract nonce'' (extractNonce (EatNonce csToken))) (\<lambda>nonce.
             let c = SubMods_Container csToken in
             Inr (AttestationClaims_zero
               \<lparr>ac_AppID := appID, ac_ImageDigest := ct_ImageDigest c, ac_Nonce := nonce,
                JTI := (case tok_JwtID token of None \<Rightarrow> [] | Some jti \<Rightarrow> jti),
                IssuedAt := Iat csToken, ExpiresAt := Exp csToken,
                ac_ContainerPolicy := \<lparr>Args = ct_Args c, CmdOverride = ct_CmdOverride c, Env = ct_Env c,
                  EnvOverride = ct_EnvOverride c, RestartPolicy = ct_RestartPolicy c\<rparr>\<rparr>)))))))))"

text \<open>\<open>sha256\<close> is \<open>crypto/sha256\<close>; \<open>verify\<close> is \<open>VerifyAttestation\<close> of the configured verifier.\<close>

definition GCP_Name :: "AttestationProvider \<Rightarrow> string" where
  "GCP_Name provider =
     (case provider of GoogleConfidentialSpace \<Rightarrow> ''gcp'' | IntelTrustAuthority \<Rightarrow> ''intel'' | UnknownProvider \<Rightarrow> ''unknown'')"

definition GCP_Verify ::
  "(bytes \<Rightarrow> bytes) \<Rightarrow> (string \<Rightarrow> AttestationProvider \<Rightarrow> AttestationClaims res) \<Rightarrow> AttestationProvider \<Rightarrow>
   AttestationRequest option \<Rightarrow> AttestationClaims res" where
  "GCP_Verify sha256 verify provider request =
     (case request of
        None \<Rightarrow> Inl (Errorf ''attestation request is nil'')
      | Some request \<Rightarrow>
          if ar_Attestation request = [] then Inl (Errorf ''empty attestation token'')
          else
          bind_res (wrap_err ''attestation verification failed'' (verify (bytes_str (ar_Attestation request)) provider)) (\<lambda>claims.
          if ar_RSAPubKeyTmp request = [] then Inl (Errorf ''RSAPubKeyTmp is required for nonce binding'')
          else
            let nonceInput = ar_RSAPubKeyTmp request @ ar_ExtraData request;
                expectedNonce = EncodeToString (sha256 nonceInput)
            in
            if ToLower (ac_Nonce claims) \<noteq> expectedNonce then Inl (Errorf ''nonce mismatch'')
            else if JTI claims = [] then Inl (Errorf ''attestation token missing jti claim'')
            else Inr claims))"

definition gcp_method ::
  "(bytes \<Rightarrow> bytes) \<Rightarrow> 'key jwtlib \<Rightarrow> 'key AttestationVerifier \<Rightarrow> int64 \<Rightarrow> AttestationProvider \<Rightarrow> AttestationMethod" where
  "gcp_method sha256 J av now provider =
     \<lparr>am_Name = GCP_Name provider, am_Verify = GCP_Verify sha256 (VerifyAttestation J av now) provider\<rparr>"

subsection \<open>TPM evidence\<close>

text \<open>The library go-tpm-tools verifies the evidence against a challenge and gives the claims.\<close>

record ContainerInfo =
  ci_Args :: "string list"
  ci_EnvVars :: "(string, string) gomap"
  ci_RestartPolicy :: string
  ci_ImageDigest :: string

datatype Platform = PlatformIntelTDX | PlatformAMDSevSnp | PlatformGCPShieldedVM | PlatformOther

record VerifiedAttestation =
  va_GCE_InstanceName :: "string option"
  va_Container :: "ContainerInfo option"
  va_TEEClaims :: bool
  va_Platform :: Platform

text \<open>
  The steps of the library on parsed evidence \<open>'a\<close>: the TPM quote, the claims (the instance
  name, absent without GCE data), the container and the TEE quote, the last two with its claims.
\<close>

record 'a attestlib =
  at_Parse :: "bytes \<Rightarrow> 'a option"
  at_VerifyTPM :: "'a \<Rightarrow> bytes \<Rightarrow> bool"
  at_ExtractTPMClaims :: "'a \<Rightarrow> string option option"
  at_Platform :: "'a \<Rightarrow> Platform"
  at_ExtractContainerClaims :: "'a \<Rightarrow> ContainerInfo option"
  at_VerifyBoundTEE :: "'a \<Rightarrow> bytes \<Rightarrow> bool"
  at_ExtractTEEClaims :: "'a \<Rightarrow> bool"

definition attestVerifier_Verify :: "'a attestlib \<Rightarrow> bytes \<Rightarrow> bytes \<Rightarrow> VerifiedAttestation res" where
  "attestVerifier_Verify T attestationBytes challenge =
     bind_res (lib_res ''attestation parsing failed'' (at_Parse T attestationBytes)) (\<lambda>a.
     if \<not> at_VerifyTPM T a challenge then Inl (Errorf ''TPM verification failed'')
     else
     bind_res (lib_res ''failed to extract claims'' (at_ExtractTPMClaims T a)) (\<lambda>claims.
     bind_res (lib_res ''failed to extract container claims'' (at_ExtractContainerClaims T a)) (\<lambda>container.
     let result = \<lparr>va_GCE_InstanceName = claims, va_Container = Some container, va_TEEClaims = False,
                   va_Platform = at_Platform T a\<rparr> in
     if at_Platform T a \<noteq> PlatformGCPShieldedVM then
       if \<not> at_VerifyBoundTEE T a challenge then Inl (Errorf ''TEE verification failed'')
       else if \<not> at_ExtractTEEClaims T a then Inl (Errorf ''failed to extract TEE claims'')
       else Inr (result\<lparr>va_TEEClaims := True\<rparr>)
     else Inr result)))"

definition machineTypeSuffixToPlatform :: "(char, Platform) gomap" where
  "machineTypeSuffixToPlatform = [(CHR ''t'', PlatformIntelTDX), (CHR ''s'', PlatformAMDSevSnp), (CHR ''v'', PlatformGCPShieldedVM)]"

definition VerifyPlatform :: "VerifiedAttestation \<Rightarrow> string \<Rightarrow> unit res" where
  "VerifyPlatform v machineType =
     (if machineType = [] then
        if va_Platform v \<noteq> PlatformIntelTDX then Inl (Errorf ''platform mismatch: empty machine type'') else Inr ()
      else case gm_get machineTypeSuffixToPlatform (last machineType) of
        None \<Rightarrow> Inl (Errorf ''unknown machine type suffix'')
      | Some expected \<Rightarrow> if expected \<noteq> va_Platform v then Inl (Errorf ''platform mismatch'') else Inr ())"

definition EnvRequestRSAKeyHeader :: bytes where
  "EnvRequestRSAKeyHeader = str_bytes ''COMPUTE_APP_ENV_REQUEST_RSA_KEY_V1''"

definition CalculateChallenge :: "(bytes \<Rightarrow> bytes) \<Rightarrow> bytes \<Rightarrow> bytes \<Rightarrow> bytes" where
  "CalculateChallenge sha256 header d = sha256 (header @ [0] @ d)"

definition TPM_Verify ::
  "(bytes \<Rightarrow> bytes) \<Rightarrow> (bytes \<Rightarrow> bytes \<Rightarrow> VerifiedAttestation res) \<Rightarrow> AttestationRequest option \<Rightarrow> AttestationClaims res" where
  "TPM_Verify sha256 verify request =
     (case request of
        None \<Rightarrow> Inl (Errorf ''attestation request is nil'')
      | Some request \<Rightarrow>
          if ar_Attestation request = [] then Inl (Errorf ''empty attestation data'')
          else (case gm_get (ar_Metadata request) ''rsa_pubkey'' of
            None \<Rightarrow> Inl (Errorf ''rsa_pubkey not found in request metadata'')
          | Some MOther \<Rightarrow> Inl (Errorf ''rsa_pubkey in metadata is not []byte'')
          | Some (MBytes rsaPubKey) \<Rightarrow>
              if rsaPubKey = [] then Inl (Errorf ''empty rsa_pubkey in metadata'')
              else
              bind_res (wrap_err ''TPM attestation verification failed''
                (verify (ar_Attestation request) (CalculateChallenge sha256 EnvRequestRSAKeyHeader rsaPubKey))) (\<lambda>result.
              case va_GCE_InstanceName result of
                None \<Rightarrow> Inl (Errorf ''GCE instance info not found in attestation'')
              | Some instanceName \<Rightarrow>
                  (case va_Container result of
                     None \<Rightarrow> Inl (Errorf ''container info not found in attestation'')
                   | Some c \<Rightarrow>
                       bind_res (wrap_err ''failed to extract app ID from instance name''
                         (extractAppIDFromInstanceName instanceName)) (\<lambda>appID.
                       Inr (AttestationClaims_zero
                         \<lparr>ac_AppID := appID, ac_ImageDigest := ci_ImageDigest c,
                          ac_ContainerPolicy := ContainerPolicy_zero\<lparr>Args := ci_Args c, Env := ci_EnvVars c,
                            RestartPolicy := ci_RestartPolicy c\<rparr>\<rparr>))))))"

definition tpm_method :: "(bytes \<Rightarrow> bytes) \<Rightarrow> 'a attestlib \<Rightarrow> AttestationMethod" where
  "tpm_method sha256 T = \<lparr>am_Name = ''tpm'', am_Verify = TPM_Verify sha256 (attestVerifier_Verify T)\<rparr>"

subsection \<open>What a signature binds\<close>

lemma bytes_str_bytes [simp]: "bytes_str (str_bytes s) = s"
proof (induction s)
  case (Cons c s)
  have "unat (of_nat (of_char c) :: byte) = of_char c"
    using of_char_mod_256 [of c, where 'a = nat] by (simp add: unat_of_nat)
  then show ?case using Cons by (simp add: bytes_str_def str_bytes_def)
qed (simp add: bytes_str_def str_bytes_def)

lemma takeWhile_upto: "c \<notin> set a \<Longrightarrow> takeWhile (\<lambda>x. x \<noteq> c) (a @ c # r) = a"
  by (induction a) auto

text \<open>The signed message determines its parts when the application's name has no dash, as an address has none.\<close>

lemma ecdsa_message_inj:
  assumes "ecdsa_message a c k = ecdsa_message a' c' k'" "length k = length k'" "CHR ''-'' \<notin> set a" "CHR ''-'' \<notin> set a'"
  shows "a = a' \<and> c = c' \<and> k = k'"
proof -
  let ?rest = "\<lambda>c k. c @ ''-'' @ EncodeToString k"
  have e: "a @ CHR ''-'' # ?rest c k = a' @ CHR ''-'' # ?rest c' k'" using assms(1) by (simp add: ecdsa_message_def)
  then have "takeWhile (\<lambda>x. x \<noteq> CHR ''-'') (a @ CHR ''-'' # ?rest c k) = takeWhile (\<lambda>x. x \<noteq> CHR ''-'') (a' @ CHR ''-'' # ?rest c' k')"
    by simp
  then have a: "a = a'"
    using takeWhile_upto [OF assms(3)] takeWhile_upto [OF assms(4)] by metis
  with e have "?rest c k = ?rest c' k'" by simp
  moreover have "length (''-'' @ EncodeToString k) = length (''-'' @ EncodeToString k')" using assms(2) by simp
  ultimately have "c = c' \<and> ''-'' @ EncodeToString k = ''-'' @ EncodeToString k'" by (metis append_eq_append_conv)
  then show ?thesis using a by (simp add: EncodeToString_inj)
qed

lemma digits_not_space: "is_digit c \<Longrightarrow> \<not> is_space c \<and> c \<noteq> CHR 0x0A \<and> c \<noteq> CHR ''+'' \<and> c \<noteq> CHR ''-''"
  by (auto simp: is_digit_def is_space_def)

lemma scan_int_show:
  assumes "0 \<le> t" "int64_range t" "rest = [] \<or> \<not> is_digit (hd rest)"
  shows "scan_int (show_int t @ rest) = Some (t, rest)"
proof -
  let ?s = "show_nat (nat t)"
  have s: "show_int t = ?s" using assms(1) by (simp add: show_int_def)
  have d: "list_all is_digit ?s" "?s \<noteq> []" using show_nat_digits [of "nat t"] by simp_all
  then obtain c cs where c: "?s = c # cs" "is_digit c" by (cases ?s) auto
  have "skip_space (?s @ rest) = Some (?s @ rest)" using c digits_not_space [OF c(2)] by simp
  moreover have "takeWhile is_digit (?s @ rest) = ?s" "dropWhile is_digit (?s @ rest) = rest"
    using d(1) assms(3) by (cases rest; simp add: list_all_iff takeWhile_append2 dropWhile_append2)+
  moreover have "parse_int64 ?s = Some t" using parse_show_int [OF assms(2)] s by simp
  ultimately show ?thesis using c digits_not_space [OF c(2)] by (simp add: scan_int_def s)
qed

lemma hex_not_space: "is_lower_hex c \<Longrightarrow> \<not> is_space c \<and> c \<noteq> CHR 0x0A"
  by (auto simp: is_lower_hex_def is_digit_def is_space_def)

lemma parse_generated:
  assumes "0 \<le> t" "int64_range t" "length nonce = NonceLength"
  shows "parseChallenge (show_int t @ ''-'' @ EncodeToString nonce) = Inr (t, EncodeToString nonce)"
proof -
  let ?h = "EncodeToString nonce"
  have h: "\<not> is_space c \<and> c \<noteq> CHR 0x0A" if "c \<in> set ?h" for c using EncodeToString_hex [OF that] by (rule hex_not_space)
  have "length ?h = 64" using assms(3) by (simp add: NonceLength_def)
  then obtain c cs where c: "?h = c # cs" by (cases ?h) auto
  have "takeWhile (\<lambda>c. \<not> is_space c) ?h = ?h" using h by (simp add: takeWhile_eq_all_conv)
  moreover have "skip_space ?h = Some ?h" using c h [of c] by simp
  ultimately have w: "\<exists>r. scan_word ?h = Some (?h, r)" using c by (simp add: scan_word_def)
  have "\<not> is_digit CHR ''-''" by (simp add: is_digit_def)
  then have "scan_int (show_int t @ ''-'' @ ?h) = Some (t, ''-'' @ ?h)" using scan_int_show [OF assms(1,2)] by simp
  then show ?thesis using w by (auto simp: parseChallenge_def)
qed

text \<open>The method looks at four fields of the request, and its claims have no token id.\<close>

lemma ECDSA_Verify_fields:
  assumes "ar_AppID r' = ar_AppID r" "ar_Challenge r' = ar_Challenge r" "ar_PublicKey r' = ar_PublicKey r" "ar_Attestation r' = ar_Attestation r"
  shows "ECDSA_Verify E cfg now (Some r') = ECDSA_Verify E cfg now (Some r)"
  unfolding ECDSA_Verify_def option.case assms ..

lemma ECDSA_Verify_no_token: "ECDSA_Verify E cfg now r = Inr claims \<Longrightarrow> JTI claims = []"
  by (auto simp: ECDSA_Verify_def AttestationClaims_zero_def res_simps Let_def split: option.splits if_splits)

text \<open>The documented behaviour of the signature scheme.\<close>

definition eth_laws :: "'k ethlib \<Rightarrow> bool" where
  "eth_laws E \<longleftrightarrow>
     (\<forall>k. eth_FromECDSAPub E k \<noteq> [] \<and> eth_UnmarshalPubkey E (eth_FromECDSAPub E k) \<noteq> None) \<and>
     (\<forall>h k s. eth_Sign E h k = Some s \<longrightarrow> length s = 65 \<and> eth_VerifySignature E (eth_FromECDSAPub E k) h (take 64 s))"

lemma ECDSA_Verify_signed:
  assumes E: "eth_laws E" and app: "appID \<noteq> []" and t: "0 \<le> t" "t \<le> 2 ^ 62" and w: "ChallengeTimeWindow cfg < 2 ^ 63 - 1"
    and gen: "GenerateChallenge t nonce = Inr challenge" and sign: "SignChallenge E (Some k) appID challenge = Inr sig"
    and r: "ar_AppID r = appID" "ar_Challenge r = str_bytes challenge" "ar_PublicKey r = eth_FromECDSAPub E k" "ar_Attestation r = sig"
    and now: "0 \<le> now" "int64_range now"
  shows "ECDSA_Verify E cfg now (Some r) =
     (if now < t * 10 ^ 9 then Inl (Errorf ''challenge timestamp is in the future'')
      else if now - t * 10 ^ 9 > ChallengeTimeWindow cfg then Inl (Errorf ''challenge expired'')
      else Inr (AttestationClaims_zero
        \<lparr>ac_AppID := appID, ac_ImageDigest := (if AllowedImageDigest cfg = [] then ''ecdsa:unverified'' else AllowedImageDigest cfg),
         IssuedAt := t, ac_PublicKey := eth_FromECDSAPub E k\<rparr>))"
proof -
  have n: "length nonce = NonceLength" and c: "challenge = show_int t @ ''-'' @ EncodeToString nonce"
    using gen by (auto simp: GenerateChallenge_def split: if_splits)
  have "int64_range t" "int64_range (t + unixToInternal)" using t by (auto simp: int64_range_def unixToInternal_def)
  then have p: "parseChallenge challenge = Inr (t, EncodeToString nonce)" using parse_generated [OF t(1) _ n] c by simp
  have a: "age_of now t = max (- (2 ^ 63)) (now - t * 10 ^ 9)"
    using now t(1) \<open>int64_range (t + unixToInternal)\<close> by (auto simp: age_of_def int64_range_def)
  have s: "length sig = 65" "eth_VerifySignature E (eth_FromECDSAPub E k)
      (eth_Keccak256 E (str_bytes (ecdsa_message appID challenge (eth_FromECDSAPub E k)))) (take 64 sig)"
    and pub: "eth_FromECDSAPub E k \<noteq> []" "eth_UnmarshalPubkey E (eth_FromECDSAPub E k) \<noteq> None"
    using E sign by (auto simp: eth_laws_def SignChallenge_def Let_def lib_res_eq_Inr)
  have ne: "str_bytes challenge \<noteq> []" "sig \<noteq> []" using c s(1) by (auto simp: str_bytes_def)
  show ?thesis
    using a w by (simp add: ECDSA_Verify_def r app pub ne p bind_res_simps wrap_err_simps n s Let_def AttestationClaims_zero_def)
qed

text \<open>
  An attestation that a client makes with \<open>GenerateChallenge\<close> and \<open>SignChallenge\<close> is accepted
  by the ECDSA method exactly during the time window of its challenge, with the claims of that
  application and key.
\<close>

theorem ecdsa_roundtrip:
  assumes E: "eth_laws E" and app: "appID \<noteq> []" and t: "0 \<le> t" "t \<le> 2 ^ 62" and w: "ChallengeTimeWindow cfg < 2 ^ 63 - 1"
    and gen: "GenerateChallenge t nonce = Inr challenge" and sign: "SignChallenge E (Some k) appID challenge = Inr sig"
    and r: "ar_AppID r = appID" "ar_Challenge r = str_bytes challenge" "ar_PublicKey r = eth_FromECDSAPub E k" "ar_Attestation r = sig"
    and now: "0 \<le> now" "int64_range now"
  shows "case ECDSA_Verify E cfg now (Some r) of
      Inr claims \<Rightarrow> t * 10 ^ 9 \<le> now \<and> now - t * 10 ^ 9 \<le> ChallengeTimeWindow cfg \<and>
        ac_AppID claims = appID \<and> ac_PublicKey claims = eth_FromECDSAPub E k \<and> IssuedAt claims = t
    | Inl e \<Rightarrow> now < t * 10 ^ 9 \<and> e = Errorf ''challenge timestamp is in the future'' \<or>
        now - t * 10 ^ 9 > ChallengeTimeWindow cfg \<and> e = Errorf ''challenge expired''"
  unfolding ECDSA_Verify_signed [OF assms] by (simp add: AttestationClaims_zero_def)

text \<open>A scheme whose signatures are the hash and a byte of the key, and whose key is that byte.\<close>

definition mock_eth :: "byte ethlib" where
  "mock_eth = \<lparr>eth_Keccak256 = (\<lambda>bs. take 63 bs @ replicate (63 - length bs) 0),
     eth_UnmarshalPubkey = (\<lambda>bs. case bs of [] \<Rightarrow> None | b # _ \<Rightarrow> Some (of_nat (unat b))),
     eth_VerifySignature = (\<lambda>pub h s. s = h @ take 1 pub),
     eth_FromECDSAPub = (\<lambda>k. [k]), eth_Sign = (\<lambda>h k. if length h = 63 then Some (h @ [k, 0]) else None),
     eth_SigToPub = (\<lambda>h s. None)\<rparr>"

lemma mock_eth_laws: "eth_laws mock_eth"
  by (auto simp: eth_laws_def mock_eth_def split: if_splits)

definition mock_request :: AttestationRequest where
  "mock_request = \<lparr>ar_Method = ''ecdsa'', ar_Attestation = [], ar_AppID = ''0x0a'', ar_Challenge = [], ar_PublicKey = [],
     ar_Metadata = [], ar_RSAPubKeyTmp = [1], ar_ExtraData = [], ar_CCInitData = []\<rparr>"

definition mock_config :: ECDSAAttestationConfig where
  "mock_config = NewECDSAAttestationMethod \<lparr>ChallengeTimeWindow = 0, AllowedImageDigest = []\<rparr>"

text \<open>The challenge of second 1000 with a nonce of zeros, and the request with its signature.\<close>

definition mock_challenge :: string where
  "mock_challenge = show_int 1000 @ ''-'' @ EncodeToString (replicate 32 0)"

definition signed_request :: AttestationRequest where
  "signed_request = mock_request\<lparr>ar_Challenge := str_bytes mock_challenge, ar_PublicKey := [7],
     ar_Attestation := eth_Keccak256 mock_eth (str_bytes (ecdsa_message ''0x0a'' mock_challenge [7])) @ [7, 0]\<rparr>"

lemma signed_request_facts:
  "GenerateChallenge 1000 (replicate 32 0) = Inr mock_challenge"
  "SignChallenge mock_eth (Some 7) ''0x0a'' mock_challenge = Inr (ar_Attestation signed_request)"
  "ar_AppID signed_request = ''0x0a''" "ar_Challenge signed_request = str_bytes mock_challenge"
  "ar_PublicKey signed_request = eth_FromECDSAPub mock_eth 7"
  "ChallengeTimeWindow mock_config = 300000000000" "AllowedImageDigest mock_config = []"
  by (simp_all add: GenerateChallenge_def NonceLength_def mock_challenge_def signed_request_def mock_request_def SignChallenge_def mock_eth_def
      mock_config_def NewECDSAAttestationMethod_def DefaultChallengeTimeWindow_def Let_def lib_res_simps)

theorem ecdsa_roundtrip_witness:
  "\<exists>claims. ECDSA_Verify mock_eth mock_config 1100000000000 (Some signed_request) = Inr claims \<and> ac_AppID claims = ''0x0a'' \<and>
    ECDSA_Verify mock_eth mock_config 1300000000001 (Some signed_request) = Inl (Errorf ''challenge expired'')"
proof -
  note law = ecdsa_roundtrip [OF mock_eth_laws _ _ _ _ signed_request_facts(1-5) refl]
  have "int64_range 1100000000000" "int64_range 1300000000001" by (simp_all add: int64_range_def)
  then show ?thesis
    using law [where cfg = mock_config and now = 1100000000000] law [where cfg = mock_config and now = 1300000000001]
    by (simp add: signed_request_facts(6) split: sum.splits)
qed

end
