(* ===== verification/Snp_Attestation.thy ===== *)
theory Snp_Attestation
  imports Attestation
begin

text \<open>
  \<open>pkg/attestation/eigenx_snp_method.go\<close>: raw AMD SEV-SNP evidence. The certificate and report
  libraries, base64, gzip, TOML and the hash functions are parameters; the decoding of the evidence,
  the certificate chain, the binding of the request into \<open>REPORT_DATA\<close> and the extraction of the
  image reference from the policy are the code's own.
\<close>

subsection \<open>Decoders\<close>

record 'r snplib =
  b64_Std :: "string \<Rightarrow> bytes option"
  b64_RawStd :: "string \<Rightarrow> bytes option"
  b64_URL :: "string \<Rightarrow> bytes option"
  b64_RawURL :: "string \<Rightarrow> bytes option"
  pem_Decode :: "string \<Rightarrow> bytes option"
  x509_CommonName :: "bytes \<Rightarrow> string option"
  gzip_Read :: "string \<Rightarrow> nat \<Rightarrow> bytes option option"
  toml_data :: "bytes \<Rightarrow> (string, any) gomap option"
  json_evidence :: "bytes \<Rightarrow> (bytes \<times> string list) option"
  ReportToProto :: "bytes \<Rightarrow> 'r option"
  GetReportData :: "'r \<Rightarrow> bytes"
  GetMeasurement :: "'r \<Rightarrow> bytes"
  snp_sha256 :: "bytes \<Rightarrow> bytes"
  snp_sha384 :: "bytes \<Rightarrow> bytes"

definition first_decode :: "'r snplib \<Rightarrow> string \<Rightarrow> bytes option" where
  "first_decode B s =
     (case b64_Std B s of Some b \<Rightarrow> Some b | None \<Rightarrow>
     (case b64_RawStd B s of Some b \<Rightarrow> Some b | None \<Rightarrow>
     (case b64_URL B s of Some b \<Rightarrow> Some b | None \<Rightarrow> b64_RawURL B s)))"

definition decodeBase64Lenient :: "'r snplib \<Rightarrow> bytes \<Rightarrow> bytes res" where
  "decodeBase64Lenient B d =
     (let s = TrimSpace (bytes_str d) in
      if s = [] then Inl (Errorf ''attestation evidence is empty'')
      else if hd s = CHR ''{'' \<or> hd s = CHR ''['' then Inr (str_bytes s)
      else lib_res ''attestation evidence is neither base64 nor raw JSON'' (first_decode B s))"

definition decodeCert :: "'r snplib \<Rightarrow> string \<Rightarrow> bytes res" where
  "decodeCert B raw =
     (let raw = TrimSpace raw in
      if HasPrefix raw ''-----BEGIN'' then lib_res ''PEM block not found'' (pem_Decode B raw)
      else lib_res ''cert is neither PEM nor any recognised base64 variant'' (first_decode B raw))"

subsection \<open>The certificate chain\<close>

record CertificateChain =
  ArkCert :: "bytes option"
  AskCert :: "bytes option"
  VcekCert :: "bytes option"
  VlekCert :: "bytes option"

definition maxCertChainLen :: nat where
  "maxCertChainLen = 10"

text \<open>The first certificate for a field is kept.\<close>

definition keep_first :: "bytes option \<Rightarrow> bytes \<Rightarrow> bytes option" where
  "keep_first old der = (if old = None then Some der else old)"

definition place_cert :: "string \<Rightarrow> bytes \<Rightarrow> CertificateChain \<times> string list \<Rightarrow> CertificateChain \<times> string list" where
  "place_cert cn der acc =
     (case acc of (chain, dropped) \<Rightarrow>
      if HasPrefix cn ''ARK-'' then (chain\<lparr>ArkCert := keep_first (ArkCert chain) der\<rparr>, dropped)
      else if cn = ''SEV-VCEK'' then (chain\<lparr>VcekCert := keep_first (VcekCert chain) der\<rparr>, dropped)
      else if cn = ''SEV-VLEK'' then (chain\<lparr>VlekCert := keep_first (VlekCert chain) der\<rparr>, dropped)
      else if HasPrefix cn ''SEV-VLEK-'' then (chain\<lparr>AskCert := keep_first (AskCert chain) der\<rparr>, dropped)
      else if HasPrefix cn ''SEV-'' then
        if AskCert chain = None then (chain\<lparr>AskCert := Some der\<rparr>, dropped) else (chain, dropped @ [cn])
      else (chain, dropped @ [cn]))"

definition buildCertChain :: "'r snplib \<Rightarrow> string list \<Rightarrow> (CertificateChain \<times> string list) res" where
  "buildCertChain B pemCerts =
     (if length pemCerts > maxCertChainLen then Inl (Errorf ''cert_chain too long'')
      else fold_res (\<lambda>raw acc.
          bind_res (wrap_err ''cert_chain'' (decodeCert B raw)) (\<lambda>der.
          bind_res (lib_res ''cert_chain: parse x509'' (x509_CommonName B der)) (\<lambda>cn.
          Inr (place_cert cn der acc)))) pemCerts
        (\<lparr>ArkCert = None, AskCert = None, VcekCert = None, VlekCert = None\<rparr>, []))"

subsection \<open>The image reference of the policy\<close>

definition TrimLeft :: "string \<Rightarrow> string \<Rightarrow> string" where
  "TrimLeft s cutset = dropWhile (\<lambda>c. c \<in> set cutset) s"

definition TrimRight :: "string \<Rightarrow> string \<Rightarrow> string" where
  "TrimRight s cutset = rev (dropWhile (\<lambda>c. c \<in> set cutset) (rev s))"

definition stripRegoComments :: "string \<Rightarrow> string" where
  "stripRegoComments rego =
     Join CHR 0x0A (filter (\<lambda>l. \<not> HasPrefix (TrimLeft l [CHR '' '', CHR 0x09]) ''#'') (Split CHR 0x0A rego))"

text \<open>
  The expression \<open>(\S+)@sha256:([a-f0-9]{64})\<close> matches inside one maximal run without white space: it
  starts at the beginning of the first run that has a reference after its first character, and the
  greedy \<open>\S+\<close> extends to the last reference of that run.
\<close>

definition regex_space :: "char \<Rightarrow> bool" where
  "regex_space c \<longleftrightarrow> of_char c \<in> {9, 10, 12, 13, 32 :: nat}"

fun runs :: "string \<Rightarrow> string list" where
  "runs [] = [[]]"
| "runs (x # s) =
     (if regex_space x then [] # runs s
      else case runs s of p # ps \<Rightarrow> (x # p) # ps | [] \<Rightarrow> [[x]])"

definition ref_at :: "string \<Rightarrow> nat \<Rightarrow> bool" where
  "ref_at w i \<longleftrightarrow> HasPrefix (drop i w) ''@sha256:'' \<and> length w \<ge> i + 8 + 64 \<and> list_all is_lower_hex (take 64 (drop (i + 8) w))"

definition match_run :: "string \<Rightarrow> (string \<times> string) option" where
  "match_run w =
     (case filter (ref_at w) [1..<length w] of
        [] \<Rightarrow> None
      | is \<Rightarrow> Some (take (last is) w, take 64 (drop (last is + 8) w)))"

definition imageRefRegex :: "string \<Rightarrow> (string \<times> string) option" where
  "imageRefRegex s = (case List.find (\<lambda>w. match_run w \<noteq> None) (runs s) of None \<Rightarrow> None | Some w \<Rightarrow> match_run w)"

definition maxDecompressedInitData :: nat where
  "maxDecompressedInitData = 8 * 1024 * 1024"

definition decodeInitDataWire :: "'r snplib \<Rightarrow> bytes \<Rightarrow> bytes res" where
  "decodeInitDataWire B d =
     (let trimmed = TrimSpace (bytes_str d) in
      if trimmed = [] then Inl (Errorf ''empty cc_init_data'')
      else if \<not> HasPrefix trimmed ''H4sI'' then Inr (str_bytes trimmed)
      else case gzip_Read B (TrimRight trimmed ''='') (maxDecompressedInitData + 1) of
        None \<Rightarrow> Inl (Errorf ''gzip reader'')
      | Some None \<Rightarrow> Inl (Errorf ''read decompressed cc_init_data'')
      | Some (Some out) \<Rightarrow>
          if length out > maxDecompressedInitData then Inl (Errorf ''decompressed cc_init_data exceeds the limit'') else Inr out)"

definition is_quote :: "char \<Rightarrow> bool" where
  "is_quote c \<longleftrightarrow> of_char c \<in> {34, 39, 96 :: nat}"

definition parseInitDataPolicy :: "'r snplib \<Rightarrow> bytes \<Rightarrow> (string \<times> string) res" where
  "parseInitDataPolicy B ccInitData =
     bind_res (wrap_err ''decode wire format'' (decodeInitDataWire B ccInitData)) (\<lambda>tomlBytes.
     bind_res (lib_res ''decode TOML'' (toml_data B tomlBytes)) (\<lambda>doc.
     case gm_get doc ''policy.rego'' of
       None \<Rightarrow> Inl (Errorf ''policy.rego not found in cc_init_data'')
     | Some (AnyString regoStr) \<Rightarrow>
         (case imageRefRegex (stripRegoComments regoStr) of
            None \<Rightarrow> Inl (Errorf ''no image reference found in policy.rego'')
          | Some (ref, digest) \<Rightarrow> Inr (rev (dropWhile is_quote (rev (dropWhile is_quote ref))), digest))
     | Some _ \<Rightarrow> Inl (Errorf ''policy.rego is not a string'')))"

subsection \<open>The method\<close>

record 'root verifyOptions =
  DisableCertFetching :: bool
  TrustedRoots :: "(string, 'root list) gomap option"

record validateOptions =
  gp_Debug :: bool
  gp_MigrateMA :: bool
  gp_SMT :: bool
  VMPL :: int

definition defaultValidateOptions :: validateOptions where
  "defaultValidateOptions = \<lparr>gp_Debug = False, gp_MigrateMA = False, gp_SMT = True, VMPL = 0\<rparr>"

text \<open>The embedded bundles by product line; a bundle that does not parse is skipped.\<close>

definition embeddedVLEKTrustedRoots :: "(string \<Rightarrow> bytes) \<Rightarrow> (string \<Rightarrow> bytes \<Rightarrow> 'root option) \<Rightarrow> (string, 'root list) gomap" where
  "embeddedVLEKTrustedRoots bundle FromKDSCertBytes =
     fold (\<lambda>product roots.
        if bundle product = [] then roots
        else case FromKDSCertBytes product (bundle product) of
          None \<Rightarrow> roots
        | Some root \<Rightarrow> gm_set roots product ((case gm_get roots product of None \<Rightarrow> [] | Some rs \<Rightarrow> rs) @ [root]))
       [''Milan'', ''Genoa'', ''Turin''] []"

record ('r, 'root) EigenXSNPAttestationMethod =
  snp_verifier :: "'r \<Rightarrow> CertificateChain \<Rightarrow> 'root verifyOptions \<Rightarrow> bool"
  snp_validator :: "'r \<Rightarrow> CertificateChain \<Rightarrow> validateOptions \<Rightarrow> bool"
  snp_options :: "'root verifyOptions"
  snp_validateOptions :: validateOptions
  measurementAllowlist :: "bytes list"

definition newEigenXSNPMethod ::
  "('r \<Rightarrow> CertificateChain \<Rightarrow> 'root verifyOptions \<Rightarrow> bool) \<Rightarrow> ('r \<Rightarrow> CertificateChain \<Rightarrow> validateOptions \<Rightarrow> bool) \<Rightarrow>
   'root verifyOptions \<Rightarrow> (string, 'root list) gomap \<Rightarrow> 'root verifyOptions option \<Rightarrow> ('r, 'root) EigenXSNPAttestationMethod" where
  "newEigenXSNPMethod v vd DefaultOptions embedded options =
     (let options = (case options of None \<Rightarrow> DefaultOptions\<lparr>DisableCertFetching := True\<rparr> | Some opts \<Rightarrow> opts);
          options1 = (if TrustedRoots options = None then options\<lparr>TrustedRoots := Some embedded\<rparr> else options)
      in \<lparr>snp_verifier = v, snp_validator = vd, snp_options = options1, snp_validateOptions = defaultValidateOptions,
          measurementAllowlist = []\<rparr>)"

definition MeasurementSize :: nat where
  "MeasurementSize = 48"

definition snpReportSize :: nat where
  "snpReportSize = 0x4A0"

definition snpReportDataSize :: nat where
  "snpReportDataSize = 64"

definition SetMeasurementAllowlist ::
  "bytes list \<Rightarrow> ('r, 'root) EigenXSNPAttestationMethod \<Rightarrow> ('r, 'root) EigenXSNPAttestationMethod \<times> unit res" where
  "SetMeasurementAllowlist measurements m =
     (if list_ex (\<lambda>ms. length ms \<noteq> MeasurementSize) measurements then (m, Inl (Errorf ''measurement has the wrong size''))
      else (m\<lparr>measurementAllowlist := measurements\<rparr>, Inr ()))"

definition checkMeasurementAllowed :: "('r, 'root) EigenXSNPAttestationMethod \<Rightarrow> bytes \<Rightarrow> unit res" where
  "checkMeasurementAllowed m measurement =
     (if list_ex (\<lambda>allowed. measurement = allowed) (measurementAllowlist m) then Inr ()
      else Inl (Errorf ''report MEASUREMENT is not in the allowlist''))"

text \<open>What the guest has to put into \<open>REPORT_DATA\<close> for a request.\<close>

definition expected_report_data :: "'r snplib \<Rightarrow> AttestationRequest \<Rightarrow> bytes" where
  "expected_report_data B request =
     str_bytes (EncodeToString (take 16 (snp_sha256 B (ar_RSAPubKeyTmp request @ ar_ExtraData request)))) @
     str_bytes (EncodeToString (take 16 (snp_sha384 B (ar_CCInitData request))))"

definition SNP_Verify ::
  "'r snplib \<Rightarrow> ('r, 'root) EigenXSNPAttestationMethod \<Rightarrow> AttestationRequest option \<Rightarrow> AttestationClaims res" where
  "SNP_Verify B m request =
     (case request of
        None \<Rightarrow> Inl (Errorf ''attestation request is nil'')
      | Some request \<Rightarrow>
          if ar_Attestation request = [] then Inl (Errorf ''empty attestation evidence'')
          else if ar_RSAPubKeyTmp request = [] then Inl (Errorf ''RSAPubKeyTmp is required for nonce binding'')
          else if ar_CCInitData request = [] then Inl (Errorf ''CCInitData is required for eigenx-snp attestation method'')
          else
          bind_res (wrap_err ''decode attestation base64'' (decodeBase64Lenient B (ar_Attestation request))) (\<lambda>evidenceJSON.
          bind_res (lib_res ''parse SNP evidence JSON'' (json_evidence B evidenceJSON)) (\<lambda>(report, certs).
          if length report < snpReportSize then Inl (Errorf ''attestation_report too short'')
          else
          bind_res (lib_res ''parse SEV-SNP report'' (ReportToProto B (take snpReportSize report))) (\<lambda>reportProto.
          bind_res (wrap_err ''parse cert_chain'' (buildCertChain B certs)) (\<lambda>(certChain, _).
          if \<not> snp_verifier m reportProto certChain (snp_options m) then
            Inl (Errorf ''AMD SEV-SNP attestation verification failed'')
          else
          bind_res (if measurementAllowlist m = [] then Inr () else checkMeasurementAllowed m (GetMeasurement B reportProto)) (\<lambda>_.
          if \<not> snp_validator m reportProto certChain (snp_validateOptions m) then
            Inl (Errorf ''SEV-SNP report field validation failed (policy/VMPL)'')
          else if length (GetReportData B reportProto) \<noteq> snpReportDataSize then Inl (Errorf ''unexpected REPORT_DATA size'')
          else if GetReportData B reportProto \<noteq> expected_report_data B request then Inl (Errorf ''REPORT_DATA mismatch'')
          else
          bind_res (wrap_err ''parse cc_init_data'' (parseInitDataPolicy B (ar_CCInitData request))) (\<lambda>(registry, digestHex).
          Inr (AttestationClaims_zero
            \<lparr>ac_AppID := ar_AppID request, ac_ImageDigest := ''sha256:'' @ digestHex, ac_Registry := registry,
             ac_Nonce := EncodeToString (take 16 (snp_sha256 B (ar_RSAPubKeyTmp request @ ar_ExtraData request))),
             ac_ExtraData := ar_ExtraData request\<rparr>))))))))"

definition snp_method :: "'r snplib \<Rightarrow> ('r, 'root) EigenXSNPAttestationMethod \<Rightarrow> AttestationMethod" where
  "snp_method B m = \<lparr>am_Name = ''eigenx-snp'', am_Verify = SNP_Verify B m\<rparr>"

subsection \<open>The image reference comes from an active line\<close>

lemma runs_not_Nil [simp]: "runs s \<noteq> []"
  by (induction s rule: runs.induct) (auto split: list.splits)

lemma runs_append_space: "regex_space c \<Longrightarrow> runs (p @ c # s) = runs p @ runs s"
proof (induction p)
  case (Cons x p)
  obtain q qs where "runs p = q # qs" by (metis runs_not_Nil neq_Nil_conv)
  then show ?case using Cons by auto
qed simp

lemma runs_Join: "regex_space c \<Longrightarrow> w \<in> set (runs (Join c ls)) \<Longrightarrow> ls \<noteq> [] \<Longrightarrow> \<exists>l \<in> set ls. w \<in> set (runs l)"
  by (induction c ls rule: Join.induct) (auto simp: runs_append_space)

lemma runs_infix: "w \<in> set (runs s) \<Longrightarrow> \<exists>p q. s = p @ w @ q \<and> (\<forall>c \<in> set w. \<not> regex_space c)"
proof -
  have "(\<exists>q. s = hd (runs s) @ q) \<and> (\<forall>w \<in> set (runs s). (\<exists>p q. s = p @ w @ q) \<and> (\<forall>c \<in> set w. \<not> regex_space c))"
  proof (induction s rule: runs.induct)
    case (2 x s)
    obtain q qs where e: "runs s = q # qs" by (metis runs_not_Nil neq_Nil_conv)
    show ?case
    proof (cases "regex_space x")
      case True
      have "(\<exists>p q. x # s = p @ w @ q) \<and> (\<forall>c \<in> set w. \<not> regex_space c)" if w: "w \<in> set (runs s)" for w
      proof -
        obtain p q where "s = p @ w @ q" "\<forall>c \<in> set w. \<not> regex_space c" using 2(1) [OF True] w by blast
        then have "x # s = (x # p) @ w @ q" by simp
        then show ?thesis using \<open>\<forall>c \<in> set w. \<not> regex_space c\<close> by blast
      qed
      moreover have "\<exists>p q. x # s = p @ [] @ q" by (metis append_Nil)
      ultimately show ?thesis using True by simp
    next
      case False
      then have q: "\<exists>r. s = q @ r" "\<forall>w \<in> set (q # qs). (\<exists>p r. s = p @ w @ r) \<and> (\<forall>c \<in> set w. \<not> regex_space c)"
        using 2(2) e by simp_all
      have "\<exists>p r. x # s = p @ w @ r" if "w \<in> set qs" for w using q(2) that by simp (metis append_Cons)
      moreover have "\<exists>p r. x # s = p @ (x # q) @ r" using q(1) by (metis append_Cons append_Nil)
      ultimately show ?thesis using False q e by auto
    qed
  qed simp
  then show "w \<in> set (runs s) \<Longrightarrow> ?thesis" by blast
qed

lemma match_run_eq:
  "filter (ref_at w) [1..<length w] \<noteq> [] \<Longrightarrow> match_run w =
    (let i = last (filter (ref_at w) [1..<length w]) in Some (take i w, take 64 (drop (i + 8) w)))"
  by (simp add: match_run_def Let_def split: list.splits)

lemma match_run_split:
  assumes "match_run w = Some (ref, digest)"
  shows "ref \<noteq> [] \<and> length digest = 64 \<and> list_all is_lower_hex digest \<and> (\<exists>q. w = ref @ ''@sha256:'' @ digest @ q)"
proof -
  obtain i where i: "i \<in> set (filter (ref_at w) [1..<length w])" "ref = take i w" "digest = take 64 (drop (i + 8) w)"
  proof -
    let ?is = "filter (ref_at w) [1..<length w]"
    have ne: "?is \<noteq> []" using assms by (auto simp: match_run_def)
    with match_run_eq [OF ne] assms last_in_set [OF ne] show thesis by (intro that) (auto simp: Let_def)
  qed
  then have r: "ref_at w i" "1 \<le> i" "i < length w" by auto
  then obtain r where "drop i w = ''@sha256:'' @ r" unfolding ref_at_def HasPrefix_def by (metis CutPrefix_Some not_None_eq)
  moreover from this have "drop 8 (drop i w) = r" by simp
  then have "drop (i + 8) w = r" by (simp only: drop_drop add.commute)
  ultimately have "w = ref @ ''@sha256:'' @ r" "digest = take 64 r" using i(2,3) append_take_drop_id [of i w] by simp_all
  then have "w = ref @ ''@sha256:'' @ digest @ drop 64 r" by simp
  moreover have "ref \<noteq> []" "length digest = 64" "list_all is_lower_hex digest"
    using i r by (auto simp: ref_at_def)
  ultimately show ?thesis by blast
qed

text \<open>
  The image that a policy names is taken from an active line: the reference and the 64
  lower-case digits of its digest stand together in a line of the policy that is not a comment.
\<close>

theorem policy_image_active:
  assumes "imageRefRegex (stripRegoComments rego) = Some (ref, digest)"
  shows "\<exists>line p q. line \<in> set (Split CHR 0x0A rego) \<and> \<not> HasPrefix (TrimLeft line [CHR '' '', CHR 0x09]) ''#'' \<and>
    line = p @ ref @ ''@sha256:'' @ digest @ q \<and> length digest = 64 \<and> list_all is_lower_hex digest"
proof -
  let ?ls = "filter (\<lambda>l. \<not> HasPrefix (TrimLeft l [CHR '' '', CHR 0x09]) ''#'') (Split CHR 0x0A rego)"
  have sp: "regex_space CHR 0x0A" by (simp add: regex_space_def)
  obtain w where w: "w \<in> set (runs (stripRegoComments rego))" "match_run w = Some (ref, digest)"
    using assms by (auto simp: imageRefRegex_def find_Some_iff intro: nth_mem split: option.splits)
  obtain q where d: "ref \<noteq> []" "length digest = 64" "list_all is_lower_hex digest" "w = ref @ ''@sha256:'' @ digest @ q"
    using match_run_split [OF w(2)] by blast
  have "?ls \<noteq> []" using w(1) d(1,4) by (auto simp: stripRegoComments_def)
  then obtain l where l: "l \<in> set ?ls" "w \<in> set (runs l)"
    using runs_Join [OF sp, of w ?ls] w(1) by (auto simp: stripRegoComments_def)
  obtain p q' where "l = p @ w @ q'" using runs_infix [OF l(2)] by blast
  then have "l = p @ ref @ ''@sha256:'' @ digest @ (q @ q')" using d(4) by simp
  then show ?thesis using l(1) d(2,3) by auto
qed

lemma runs_single: "\<forall>c \<in> set s. \<not> regex_space c \<Longrightarrow> runs s = [s]"
  by (induction s) auto

lemma match_run_last:
  assumes "p \<noteq> []" "length h = 64" "list_all is_lower_hex h"
  shows "match_run (p @ ''@sha256:'' @ h) = Some (p, h)"
proof -
  let ?w = "p @ ''@sha256:'' @ h"
  have len: "length ?w = length p + 72" using assms(2) by simp
  have "HasPrefix (''@sha256:'' @ h) ''@sha256:''" by (simp add: HasPrefix_def)
  then have at: "ref_at ?w (length p)" using assms(2,3) len by (simp add: ref_at_def)
  have late: "\<not> ref_at ?w i" if "i \<ge> Suc (length p)" for i using that len by (simp add: ref_at_def)
  have ge: "1 \<le> length p" using assms(1) by (cases p) auto
  have "length p < length p + 72" by linarith
  note upt = upt_conv_Cons [OF this]
  have "[1..<length ?w] = [1..<length p] @ length p # [Suc (length p)..<length ?w]"
    unfolding len upt_add_eq_append [OF ge, of 72] upt ..
  moreover have "filter (ref_at ?w) [Suc (length p)..<length ?w] = []"
    unfolding filter_empty_conv using late by (metis atLeastLessThan_iff set_upt)
  ultimately have "filter (ref_at ?w) [1..<length ?w] = filter (ref_at ?w) [1..<length p] @ [length p]" using at by simp
  then show ?thesis using assms(2) match_run_eq [of ?w] by (simp add: Let_def)
qed

text \<open>
  Of several references in one run of characters without white space, the last one is taken:
  whatever precedes the last reference, other references included, becomes part of the registry.
\<close>

theorem last_reference_taken:
  assumes "p \<noteq> []" "\<forall>c \<in> set p. \<not> regex_space c" "length h = 64" "list_all is_lower_hex h"
  shows "imageRefRegex (p @ ''@sha256:'' @ h) = Some (p, h)"
proof -
  have "\<not> regex_space c" if "is_lower_hex c" for c using that by (auto simp: is_lower_hex_def is_digit_def regex_space_def)
  then have "\<forall>c \<in> set (p @ ''@sha256:'' @ h). \<not> regex_space c"
    using assms(2,4) by (auto simp: list_all_iff regex_space_def)
  from runs_single [OF this] match_run_last [OF assms(1,3,4)] show ?thesis by (simp add: imageRefRegex_def)
qed

theorem last_reference_taken_witness:
  "imageRefRegex ((''ghcr.io/good@sha256:'' @ replicate 64 CHR ''0'' @ '',ghcr.io/other'') @ ''@sha256:'' @ replicate 64 CHR ''f'') =
     Some (''ghcr.io/good@sha256:'' @ replicate 64 CHR ''0'' @ '',ghcr.io/other'', replicate 64 CHR ''f'')"
proof -
  have "is_lower_hex CHR ''f''" by (simp add: is_lower_hex_def)
  then show ?thesis
    by (intro last_reference_taken) (auto simp: regex_space_def list_all_iff)
qed

theorem policy_image_active_witness:
  "\<exists>line \<in> set (Split CHR 0x0A (''# a@sha256:'' @ replicate 64 CHR ''0'' @ [CHR 0x0A] @ ''b@sha256:'' @ replicate 64 CHR ''f'')).
     \<not> HasPrefix (TrimLeft line [CHR '' '', CHR 0x09]) ''#''"
proof -
  let ?good = "''b@sha256:'' @ replicate 64 CHR ''f''" and ?old = "''# a@sha256:'' @ replicate 64 CHR ''0''"
  have f: "is_lower_hex CHR ''f''" by (simp add: is_lower_hex_def)
  have old: "CHR 0x0A \<notin> set ?old" "CHR 0x0A \<notin> set ?good" by auto
  have r: "''# a@sha256:'' @ replicate 64 CHR ''0'' @ [CHR 0x0A] @ ?good = ?old @ CHR 0x0A # ?good" by simp
  have "Split CHR 0x0A (?old @ CHR 0x0A # ?good) = [?old, ?good]" using Split_append [OF old(1)] Split_single [OF old(2)] by simp
  then have "stripRegoComments (?old @ CHR 0x0A # ?good) = ?good"
    by (simp add: stripRegoComments_def HasPrefix_def TrimLeft_def)
  then have "imageRefRegex (stripRegoComments (?old @ CHR 0x0A # ?good)) = Some (''b'', replicate 64 CHR ''f'')"
    using match_run_last [of "''b''" "replicate 64 CHR ''f''"] runs_single [of ?good] f
    by (simp add: imageRefRegex_def regex_space_def list_all_iff)
  from policy_image_active [OF this] show ?thesis unfolding r by blast
qed

subsection \<open>What the evidence binds\<close>

text \<open>\<open>evidence_data B m att rd\<close>: the evidence \<open>att\<close> is genuine, allowed, and its report has the data \<open>rd\<close>.\<close>

definition evidence_data :: "'r snplib \<Rightarrow> ('r, 'root) EigenXSNPAttestationMethod \<Rightarrow> bytes \<Rightarrow> bytes \<Rightarrow> bool" where
  "evidence_data B m att rd \<longleftrightarrow>
     (\<exists>ej report certs rp chain dropped. decodeBase64Lenient B att = Inr ej \<and> json_evidence B ej = Some (report, certs) \<and>
        length report \<ge> snpReportSize \<and> ReportToProto B (take snpReportSize report) = Some rp \<and>
        buildCertChain B certs = Inr (chain, dropped) \<and> snp_verifier m rp chain (snp_options m) \<and>
        (measurementAllowlist m = [] \<or> GetMeasurement B rp \<in> set (measurementAllowlist m)) \<and>
        snp_validator m rp chain (snp_validateOptions m) \<and> GetReportData B rp = rd \<and> length rd = snpReportDataSize)"

lemma evidence_data_unique: "evidence_data B m att rd \<Longrightarrow> evidence_data B m att rd' \<Longrightarrow> rd = rd'"
  by (auto simp: evidence_data_def)

lemma SNP_Verify_iff:
  "SNP_Verify B m (Some r) = Inr c \<longleftrightarrow>
     ar_Attestation r \<noteq> [] \<and> ar_RSAPubKeyTmp r \<noteq> [] \<and> ar_CCInitData r \<noteq> [] \<and>
     evidence_data B m (ar_Attestation r) (expected_report_data B r) \<and>
     (\<exists>registry digest. parseInitDataPolicy B (ar_CCInitData r) = Inr (registry, digest) \<and>
        c = AttestationClaims_zero\<lparr>ac_AppID := ar_AppID r, ac_ImageDigest := ''sha256:'' @ digest, ac_Registry := registry,
          ac_Nonce := EncodeToString (take 16 (snp_sha256 B (ar_RSAPubKeyTmp r @ ar_ExtraData r))), ac_ExtraData := ar_ExtraData r\<rparr>)"
  (is "?L \<longleftrightarrow> ?R")
proof
  assume ?L
  then show ?R
    by (auto simp: SNP_Verify_def evidence_data_def checkMeasurementAllowed_def list_ex_iff bind_res_eq_Inr wrap_err_eq_Inr
        lib_res_eq_Inr split: if_splits)
next
  assume R: ?R
  then obtain ej report certs rp chain dropped where ev: "decodeBase64Lenient B (ar_Attestation r) = Inr ej"
    "json_evidence B ej = Some (report, certs)" "length report \<ge> snpReportSize" "ReportToProto B (take snpReportSize report) = Some rp"
    "buildCertChain B certs = Inr (chain, dropped)" "snp_verifier m rp chain (snp_options m)"
    "measurementAllowlist m = [] \<or> GetMeasurement B rp \<in> set (measurementAllowlist m)"
    "snp_validator m rp chain (snp_validateOptions m)" "GetReportData B rp = expected_report_data B r"
    "length (expected_report_data B r) = snpReportDataSize" unfolding evidence_data_def by blast
  have "(if measurementAllowlist m = [] then Inr () else checkMeasurementAllowed m (GetMeasurement B rp)) = Inr ()"
    using ev(7) by (auto simp: checkMeasurementAllowed_def list_ex_iff)
  with R ev show ?L by (auto simp: SNP_Verify_def res_simps)
qed

lemma str_bytes_inj: "str_bytes s = str_bytes t \<Longrightarrow> s = t"
  by (metis bytes_str_bytes)

lemma expected_report_data_eq:
  assumes "length (snp_sha256 B (ar_RSAPubKeyTmp r @ ar_ExtraData r)) = length (snp_sha256 B (ar_RSAPubKeyTmp r' @ ar_ExtraData r'))"
  shows "expected_report_data B r = expected_report_data B r' \<longleftrightarrow>
    take 16 (snp_sha256 B (ar_RSAPubKeyTmp r @ ar_ExtraData r)) = take 16 (snp_sha256 B (ar_RSAPubKeyTmp r' @ ar_ExtraData r')) \<and>
    take 16 (snp_sha384 B (ar_CCInitData r)) = take 16 (snp_sha384 B (ar_CCInitData r'))"
proof -
  let ?x = "str_bytes (EncodeToString (take 16 (snp_sha256 B (ar_RSAPubKeyTmp r @ ar_ExtraData r))))"
  let ?y = "str_bytes (EncodeToString (take 16 (snp_sha256 B (ar_RSAPubKeyTmp r' @ ar_ExtraData r'))))"
  have "length ?x = length ?y" using assms by simp
  then show ?thesis unfolding expected_report_data_def by (auto dest!: str_bytes_inj simp: EncodeToString_inj)
qed

text \<open>
  C23. What SEV-SNP evidence binds, exactly. When a request was accepted with some evidence, another
  request with that evidence is accepted if and only if it has the same init data and the same
  concatenation of RSA key and extra data, with a key that is not empty (no two of these inputs
  collide under the truncated hashes). Its claims are the same up to the extra data and the
  application's name, which is whatever the request says.
\<close>

theorem snp_evidence_binds:
  assumes acc: "SNP_Verify B m (Some r) = Inr c" and same: "ar_Attestation r' = ar_Attestation r"
    and len: "\<And>x. length (snp_sha256 B x) = 32"
    and coll: "take 16 (snp_sha256 B (ar_RSAPubKeyTmp r @ ar_ExtraData r)) = take 16 (snp_sha256 B (ar_RSAPubKeyTmp r' @ ar_ExtraData r')) \<Longrightarrow>
        ar_RSAPubKeyTmp r @ ar_ExtraData r = ar_RSAPubKeyTmp r' @ ar_ExtraData r'"
      "take 16 (snp_sha384 B (ar_CCInitData r)) = take 16 (snp_sha384 B (ar_CCInitData r')) \<Longrightarrow> ar_CCInitData r = ar_CCInitData r'"
  shows "SNP_Verify B m (Some r') = Inr c' \<longleftrightarrow>
    ar_RSAPubKeyTmp r' @ ar_ExtraData r' = ar_RSAPubKeyTmp r @ ar_ExtraData r \<and> ar_RSAPubKeyTmp r' \<noteq> [] \<and>
    ar_CCInitData r' = ar_CCInitData r \<and> c' = c\<lparr>ac_AppID := ar_AppID r', ac_ExtraData := ar_ExtraData r'\<rparr>"
proof -
  note a = acc [unfolded SNP_Verify_iff]
  have "evidence_data B m (ar_Attestation r') (expected_report_data B r') \<longleftrightarrow> expected_report_data B r = expected_report_data B r'"
    using a same evidence_data_unique by metis
  also have "\<dots> \<longleftrightarrow> ar_RSAPubKeyTmp r' @ ar_ExtraData r' = ar_RSAPubKeyTmp r @ ar_ExtraData r \<and> ar_CCInitData r' = ar_CCInitData r"
    using expected_report_data_eq [of B r r'] len coll by metis
  finally show ?thesis unfolding SNP_Verify_iff using a same by (auto simp: AttestationClaims_zero_def)
qed

text \<open>A library with one genuine report, whose data binds the key and extra data 1, 2 and the init data \<open>x\<close>.\<close>

definition mock_snp :: "unit snplib" where
  "mock_snp = \<lparr>b64_Std = (\<lambda>_. None), b64_RawStd = (\<lambda>_. None), b64_URL = (\<lambda>_. None), b64_RawURL = (\<lambda>_. None),
     pem_Decode = (\<lambda>_. None), x509_CommonName = (\<lambda>_. None), gzip_Read = (\<lambda>_ _. None),
     toml_data = (\<lambda>_. Some [(''policy.rego'', AnyString (''a@sha256:'' @ replicate 64 CHR ''0''))]),
     json_evidence = (\<lambda>_. Some (replicate 1184 0, [])), ReportToProto = (\<lambda>_. Some ()),
     GetReportData = (\<lambda>_. str_bytes (EncodeToString ([1, 2] @ replicate 14 0)) @ str_bytes (EncodeToString ([120] @ replicate 15 0))),
     GetMeasurement = (\<lambda>_. []), snp_sha256 = (\<lambda>x. take 32 (x @ replicate 32 0)), snp_sha384 = (\<lambda>x. take 48 (x @ replicate 48 0))\<rparr>"

definition mock_snp_method :: "(unit, unit) EigenXSNPAttestationMethod" where
  "mock_snp_method = newEigenXSNPMethod (\<lambda>_ _ _. True) (\<lambda>_ _ opts. \<not> gp_Debug opts) \<lparr>DisableCertFetching = False, TrustedRoots = None\<rparr> [] None"

definition snp_request :: AttestationRequest where
  "snp_request = mock_request\<lparr>ar_Attestation := str_bytes ''{}'', ar_RSAPubKeyTmp := [1], ar_ExtraData := [2], ar_CCInitData := [120]\<rparr>"

lemma mock_snp_accepts: "\<exists>c. SNP_Verify mock_snp mock_snp_method (Some snp_request) = Inr c"
proof -
  have j: "bytes_str (str_bytes ''{}'') = ''{}''" "bytes_str [120] = ''x''" by (simp, code_simp)
  have "decodeBase64Lenient mock_snp (str_bytes ''{}'') = Inr (str_bytes ''{}'')"
    by (simp only: decodeBase64Lenient_def j) (simp add: TrimSpace_def is_space_def)
  moreover have "buildCertChain mock_snp [] = Inr (\<lparr>ArkCert = None, AskCert = None, VcekCert = None, VlekCert = None\<rparr>, [])"
    by (simp add: buildCertChain_def maxCertChainLen_def)
  moreover have "decodeInitDataWire mock_snp [120] = Inr (str_bytes ''x'')"
    by (simp add: decodeInitDataWire_def j HasPrefix_def TrimSpace_def is_space_def)
  moreover have "CHR 0x0A \<notin> set (''a@sha256:'' @ replicate 64 CHR ''0'')" by simp
  then have "stripRegoComments (''a@sha256:'' @ replicate 64 CHR ''0'') = ''a@sha256:'' @ replicate 64 CHR ''0''"
    unfolding stripRegoComments_def by (subst Split_single) (simp_all add: HasPrefix_def TrimLeft_def)
  moreover have "imageRefRegex (''a'' @ ''@sha256:'' @ replicate 64 CHR ''0'') = Some (''a'', replicate 64 CHR ''0'')"
    using match_run_last [of "''a''" "replicate 64 CHR ''0''"] runs_single [of "''a'' @ ''@sha256:'' @ replicate 64 CHR ''0''"]
    by (simp add: imageRefRegex_def regex_space_def list_all_iff is_lower_hex_def is_digit_def)
  ultimately show ?thesis
    by (simp add: SNP_Verify_iff evidence_data_def snp_request_def mock_request_def mock_snp_method_def newEigenXSNPMethod_def
        defaultValidateOptions_def parseInitDataPolicy_def res_simps expected_report_data_def snpReportSize_def snpReportDataSize_def)
      (simp add: mock_snp_def res_simps str_bytes_def)
qed

theorem snp_evidence_binds_witness:
  "\<exists>c. SNP_Verify mock_snp mock_snp_method (Some snp_request) = Inr c \<and>
    SNP_Verify mock_snp mock_snp_method (Some (snp_request\<lparr>ar_AppID := ''0x0b'', ar_RSAPubKeyTmp := [1, 2], ar_ExtraData := []\<rparr>)) =
      Inr (c\<lparr>ac_AppID := ''0x0b'', ac_ExtraData := []\<rparr>)"
proof -
  obtain c where c: "SNP_Verify mock_snp mock_snp_method (Some snp_request) = Inr c" using mock_snp_accepts by blast
  have len: "length (snp_sha256 mock_snp x) = 32" for x by (simp add: mock_snp_def)
  show ?thesis
    using snp_evidence_binds [OF c _ len, of "snp_request\<lparr>ar_AppID := ''0x0b'', ar_RSAPubKeyTmp := [1, 2], ar_ExtraData := []\<rparr>"] c
    by (simp add: snp_request_def mock_request_def)
qed

end
