(* ===== verification/Secrets_Handlers.thy ===== *)
theory Secrets_Handlers
  imports Message_Handlers Snp_Attestation
begin

text \<open>
  The handlers for applications (\<open>pkg/node/handlers.go\<close>, \<open>handleSecretsRequest\<close>,
  \<open>handleAppSign\<close>, \<open>handleGetCommitments\<close>), the server's cache of token ids (\<open>server.go\<close>) and
  the platform client. The secrets handler is the composition of its three sections; concurrent
  requests are runs of the sections with the clean-up of the cache between them. The theorems: a partial
  signature leaves the node only for an attested and authorised application; a token is served once
  while it is valid; and an observed ECDSA request can be replayed.
\<close>

subsection \<open>Policies and digests\<close>

definition hasContainerPolicy :: "ContainerPolicy \<Rightarrow> bool" where
  "hasContainerPolicy p \<longleftrightarrow>
     length (Args p) > 0 \<or> length (CmdOverride p) > 0 \<or> length (Env p) > 0 \<or> length (EnvOverride p) > 0 \<or> RestartPolicy p \<noteq> []"

definition env_mismatch :: "(string, string) gomap \<Rightarrow> (string, string) gomap \<Rightarrow> bool" where
  "env_mismatch claims policy \<longleftrightarrow> list_ex (\<lambda>(key, expectedVal). gm_get claims key \<noteq> Some expectedVal) policy"

definition validateContainerPolicy :: "ContainerPolicy \<Rightarrow> ContainerPolicy \<Rightarrow> unit res" where
  "validateContainerPolicy claims policy =
     (if length (Args policy) > 0 \<and> Args claims \<noteq> Args policy then Inl (Errorf ''args mismatch'')
      else if length (CmdOverride policy) > 0 \<and> CmdOverride claims \<noteq> CmdOverride policy then Inl (Errorf ''cmd_override mismatch'')
      else if env_mismatch (Env claims) (Env policy) then Inl (Errorf ''env mismatch'')
      else if env_mismatch (EnvOverride claims) (EnvOverride policy) then Inl (Errorf ''env_override mismatch'')
      else if RestartPolicy policy \<noteq> [] \<and> RestartPolicy claims \<noteq> RestartPolicy policy then Inl (Errorf ''restart_policy mismatch'')
      else Inr ())"

text \<open>\<open>strings.Index\<close>: what follows the first occurrence of \<open>sub\<close>, with it.\<close>

fun from_first :: "string \<Rightarrow> string \<Rightarrow> string option" where
  "from_first [] sub = (if sub = [] then Some [] else None)"
| "from_first (c # s) sub = (if HasPrefix (c # s) sub then Some (c # s) else from_first s sub)"

definition digestFromImageRef :: "string \<Rightarrow> string" where
  "digestFromImageRef ref =
     (case from_first ref ''@sha256:'' of
        None \<Rightarrow> []
      | Some r \<Rightarrow>
          let digest = tl r in
          if length digest \<noteq> 7 + 64 then []
          else if list_ex (\<lambda>c. \<not> is_hex c) (drop 7 digest) then []
          else digest)"

subsection \<open>The platform client\<close>

datatype grpc_code = PermissionDenied | NotFound | Unavailable | DeadlineExceeded | Unauthenticated | OtherCode

datatype platform_err = PlatformURLNotConfigured | PlatformDigestMismatch | PlatformStatus grpc_code

record PlatformRelease =
  pr_StackID :: string
  pr_Version :: int
  pr_ManifestDigest :: string
  pr_Apps :: "(string \<times> string) list"

text \<open>\<open>j_payload\<close> marshals the address, the stack and the time.\<close>

definition buildAuthenticatedMessage ::
  "('f, 'g1, 'g2, 'gt) lib \<Rightarrow> (bytes \<Rightarrow> bytes option) \<Rightarrow> (address \<times> string \<times> int64 \<Rightarrow> bytes option) \<Rightarrow> address \<Rightarrow> string \<Rightarrow> int64 \<Rightarrow>
   AuthenticatedMessage res" where
  "buildAuthenticatedMessage L sign j_payload operatorAddress stackID nowUnix =
     bind_res (lib_res ''marshal release payload'' (j_payload (operatorAddress, stackID, nowUnix))) (\<lambda>payload.
     wrap_err ''sign release payload'' (CreateAuthenticatedMessage L sign payload))"

text \<open>
  \<open>rpc\<close> dials the address and calls the method; an error without a gRPC status has the code
  \<open>Unknown\<close>, as has a failure to sign.
\<close>

definition GetLatestDeployedRelease ::
  "('f, 'g1, 'g2, 'gt) lib \<Rightarrow> (bytes \<Rightarrow> bytes option) \<Rightarrow> (address \<times> string \<times> int64 \<Rightarrow> bytes option) \<Rightarrow>
   (string \<Rightarrow> AuthenticatedMessage \<Rightarrow> grpc_code + PlatformRelease) \<Rightarrow> string \<Rightarrow> address \<Rightarrow> int64 \<Rightarrow> string \<Rightarrow> platform_err + PlatformRelease" where
  "GetLatestDeployedRelease L sign j_payload rpc url operatorAddress nowUnix stackID =
     (let url = TrimSpace url in
      if url = [] then Inl PlatformURLNotConfigured
      else case buildAuthenticatedMessage L sign j_payload operatorAddress stackID nowUnix of
        Inl _ \<Rightarrow> Inl (PlatformStatus OtherCode)
      | Inr auth \<Rightarrow> (case rpc url auth of Inl c \<Rightarrow> Inl (PlatformStatus c) | Inr rel \<Rightarrow> Inr rel))"

subsection \<open>Requests\<close>

definition MaxExtraDataSize :: nat where
  "MaxExtraDataSize = 1048576"

definition MaxAttestationSize :: nat where
  "MaxAttestationSize = 256 * 1024"

definition maxSecretsBodyBytes :: nat where
  "maxSecretsBodyBytes = 2 * MaxAttestationSize + 2 * MaxExtraDataSize + 64 * 1024"

record SecretsRequestV1 =
  rq_AppID :: string
  rq_StackID :: string
  rq_AttestationMethod :: string
  rq_Attestation :: bytes
  rq_RSAPubKeyTmp :: bytes
  rq_AttestationTime :: int64
  rq_Challenge :: bytes
  rq_PublicKey :: bytes
  rq_ExtraData :: bytes
  rq_CCInitData :: bytes

record SecretsResponseV1 =
  rs_EncryptedEnv :: string
  rs_PublicEnv :: string
  rs_EncryptedPartialSig :: bytes
  rs_ExtraData :: bytes

text \<open>What a node asks of others while it serves: the attestation methods at that time, the chain, the platform, RSA.\<close>

record 'k sec_env =
  se_manager :: AttestationManager
  se_eth :: "'k ethlib"
  se_IsHexAddress :: "string \<Rightarrow> bool"
  se_HexToAddress :: "string \<Rightarrow> address"
  se_GetAppCreator :: "address \<Rightarrow> address option"
  se_GetLatestRelease :: "string \<Rightarrow> Release option"
  se_platform :: "(string \<Rightarrow> platform_err + PlatformRelease) option"
  se_json_sig :: "G1Point \<Rightarrow> bytes option"
  se_rsa_Encrypt :: "bytes \<Rightarrow> bytes \<Rightarrow> bytes option"

record ('s, 'f) Server =
  sv_node :: "('s, 'f) KmsNode"
  jtiCache :: "(string, int64) gomap"

definition verifyECDSAOwnership :: "'k sec_env \<Rightarrow> string \<Rightarrow> bytes \<Rightarrow> unit response" where
  "verifyECDSAOwnership V appID publicKey =
     (if \<not> se_IsHexAddress V appID then HttpError 400 ''app_id must be a contract address for ecdsa attestation''
      else case eth_UnmarshalPubkey (se_eth V) publicKey of
        None \<Rightarrow> HttpError 400 ''invalid ecdsa public key''
      | Some signer \<Rightarrow>
          (case se_GetAppCreator V (se_HexToAddress V appID) of
             None \<Rightarrow> HttpError 502 ''failed to look up app creator''
           | Some creator \<Rightarrow> if signer \<noteq> creator then HttpError 403 ''ecdsa signer is not the app creator'' else HttpOK ()))"

definition authorizeViaPlatform :: "'k sec_env \<Rightarrow> string \<Rightarrow> AttestationClaims \<Rightarrow> platform_err option" where
  "authorizeViaPlatform V stackID claims =
     (case se_platform V of
        None \<Rightarrow> Some PlatformURLNotConfigured
      | Some call \<Rightarrow>
          if \<not> HasPrefix (ac_ImageDigest claims) ''sha256:'' then Some PlatformDigestMismatch
          else (case call stackID of
            Inl e \<Rightarrow> Some e
          | Inr rel \<Rightarrow>
              if list_ex (\<lambda>(_, image). digestFromImageRef image \<noteq> [] \<and> digestFromImageRef image = ac_ImageDigest claims) (pr_Apps rel)
              then None else Some PlatformDigestMismatch))"

definition writePlatformAuthError :: "platform_err \<Rightarrow> 'b response" where
  "writePlatformAuthError e =
     (case e of
        PlatformURLNotConfigured \<Rightarrow> HttpError 503 ''platform RPC URL not configured''
      | PlatformDigestMismatch \<Rightarrow> HttpError 403 ''image digest not authorized by platform release''
      | PlatformStatus PermissionDenied \<Rightarrow> HttpError 403 ''operator not authorized by platform''
      | PlatformStatus NotFound \<Rightarrow> HttpError 404 ''no deployed release for stack''
      | PlatformStatus Unavailable \<Rightarrow> HttpError 503 ''platform unavailable''
      | PlatformStatus DeadlineExceeded \<Rightarrow> HttpError 503 ''platform request timed out''
      | PlatformStatus _ \<Rightarrow> HttpError 500 ''platform authorization failed'')"

subsection \<open>Token ids\<close>

definition maxJTICacheSize :: nat where
  "maxJTICacheSize = 100000"

definition checkAndStoreJTI :: "string \<Rightarrow> int64 \<Rightarrow> ('s, 'f) Server \<Rightarrow> ('s, 'f) Server \<times> bool" where
  "checkAndStoreJTI jti expiresAt sv =
     (if gm_get (jtiCache sv) jti \<noteq> None then (sv, False)
      else if length (jtiCache sv) \<ge> maxJTICacheSize then (sv, False)
      else (sv\<lparr>jtiCache := gm_set (jtiCache sv) jti expiresAt\<rparr>, True))"

text \<open>One tick of the background loop.\<close>

definition runJTICleanup :: "int64 \<Rightarrow> ('s, 'f) Server \<Rightarrow> ('s, 'f) Server" where
  "runJTICleanup now sv = sv\<lparr>jtiCache := filter (\<lambda>(_, exp). \<not> now \<ge> exp) (jtiCache sv)\<rparr>"

subsection \<open>The secrets handler\<close>

text \<open>The checks of the fields; a nil allowlist allows every application.\<close>

definition app_allowed :: "('s, 'f) KmsNode \<Rightarrow> string \<Rightarrow> bool" where
  "app_allowed n appID \<longleftrightarrow> (case appAllowlist n of None \<Rightarrow> True | Some m \<Rightarrow> gm_get m appID = Some True)"

definition validate_fields :: "('s, 'f) KmsNode \<Rightarrow> SecretsRequestV1 \<Rightarrow> unit response" where
  "validate_fields n req =
     (if rq_AppID req = [] then HttpError 400 ''app_id is required''
      else if \<not> app_allowed n (rq_AppID req) then HttpError 403 ''app not allowed''
      else if length (rq_RSAPubKeyTmp req) = 0 then HttpError 400 ''rsa_pubkey_tmp is required''
      else if length (rq_RSAPubKeyTmp req) > 8192 then HttpError 400 ''rsa_pubkey_tmp too large''
      else if length (rq_ExtraData req) > MaxExtraDataSize then HttpError 400 ''extra_data exceeds 1MB limit''
      else if length (rq_CCInitData req) > MaxExtraDataSize then HttpError 400 ''cc_init_data exceeds 1MB limit''
      else if length (rq_Attestation req) > MaxAttestationSize then HttpError 400 ''attestation exceeds byte limit''
      else if rq_AttestationMethod req = [] then HttpError 400 ''Attestation method is required''
      else HttpOK ())"

definition attestation_request :: "SecretsRequestV1 \<Rightarrow> AttestationRequest" where
  "attestation_request req =
     \<lparr>ar_Method = rq_AttestationMethod req, ar_Attestation = rq_Attestation req, ar_AppID = rq_AppID req,
      ar_Challenge = rq_Challenge req, ar_PublicKey = rq_PublicKey req,
      ar_Metadata = (if rq_AttestationMethod req = ''tpm'' then [(''rsa_pubkey'', MBytes (rq_RSAPubKeyTmp req))] else []),
      ar_RSAPubKeyTmp = rq_RSAPubKeyTmp req, ar_ExtraData = rq_ExtraData req, ar_CCInitData = rq_CCInitData req\<rparr>"

definition verified_claims :: "'k sec_env \<Rightarrow> SecretsRequestV1 \<Rightarrow> AttestationClaims res" where
  "verified_claims V req = VerifyWithMethod (se_manager V) (rq_AttestationMethod req) (Some (attestation_request req))"

definition Release_zero :: Release where
  "Release_zero = \<lparr>rel_ImageDigest = [], rel_Registry = [], rel_EncryptedEnv = [], rel_PublicEnv = [], rel_Timestamp = 0,
     rel_ContainerPolicy = ContainerPolicy_zero\<rparr>"

text \<open>The method-specific authorisation; on the platform path no release is returned.\<close>

definition authorize :: "'k sec_env \<Rightarrow> SecretsRequestV1 \<Rightarrow> AttestationClaims \<Rightarrow> Release option response" where
  "authorize V req claims =
     (if rq_StackID req \<noteq> [] then
        if rq_AttestationMethod req = ''ecdsa'' then HttpError 403 ''ecdsa attestation is not permitted for stack_id requests''
        else (case authorizeViaPlatform V (rq_StackID req) claims of
          Some e \<Rightarrow> writePlatformAuthError e
        | None \<Rightarrow> HttpOK None)
      else if rq_AttestationMethod req = ''ecdsa'' then
        (case verifyECDSAOwnership V (rq_AppID req) (ac_PublicKey claims) of
           HttpError c m \<Rightarrow> HttpError c m
         | HttpOK _ \<Rightarrow> HttpOK (Some (case se_GetLatestRelease V (rq_AppID req) of None \<Rightarrow> Release_zero | Some release \<Rightarrow> release)))
      else case se_GetLatestRelease V (rq_AppID req) of
        None \<Rightarrow> HttpError 404 ''Release not found''
      | Some release \<Rightarrow>
          if ac_ImageDigest claims \<noteq> rel_ImageDigest release then HttpError 403 ''Image digest mismatch - unauthorized image''
          else if ac_Registry claims \<noteq> [] \<and> rel_Registry release \<noteq> [] \<and> ac_Registry claims \<noteq> rel_Registry release then
            HttpError 403 ''Registry mismatch - unauthorized image source''
          else if rq_AttestationMethod req = ''eigenx-snp'' \<and> hasContainerPolicy (rel_ContainerPolicy release) then
            HttpError 403 ''eigenx-snp attestation does not yet enforce ContainerPolicy; release requires it''
          else (case validateContainerPolicy (ac_ContainerPolicy claims) (rel_ContainerPolicy release) of
            Inl _ \<Rightarrow> HttpError 403 ''Container policy mismatch''
          | Inr _ \<Rightarrow> HttpOK (Some release)))"

text \<open>The key version for a request, and the encrypted partial signature with it.\<close>

definition key_version :: "'f KeyStore \<Rightarrow> int64 \<Rightarrow> 'f KeyShareVersion response" where
  "key_version ks attestationTime =
     (case (if attestationTime > 0 then GetKeyVersionAtTime ks attestationTime else GetActiveVersion ks) of
        None \<Rightarrow> if attestationTime > 0 then HttpError 404 ''No key version found for the specified attestation time''
                else HttpError 503 ''No valid key share''
      | Some r \<Rightarrow> if PrivateShare (objs ks r) = None then HttpError 503 ''No valid key share'' else HttpOK (objs ks r))"

definition seal ::
  "('f, 'g1, 'g2, 'gt) lib \<Rightarrow> 'k sec_env \<Rightarrow> SecretsRequestV1 \<Rightarrow> 'f KeyShareVersion \<Rightarrow> Release option \<Rightarrow> SecretsResponseV1 response" where
  "seal L V req keyVersion release =
     (case signAppIDWithVersion L (rq_AppID req) (Some keyVersion) of
        Inl _ \<Rightarrow> HttpError 500 ''Internal error''
      | Inr partialSig \<Rightarrow>
      (case se_json_sig V partialSig of
        None \<Rightarrow> HttpError 500 ''Internal error''
      | Some partialSigBytes \<Rightarrow>
      (case se_rsa_Encrypt V partialSigBytes (rq_RSAPubKeyTmp req) of
        None \<Rightarrow> HttpError 500 ''Encryption failed''
      | Some encryptedPartialSig \<Rightarrow>
          HttpOK \<lparr>rs_EncryptedEnv = (case release of None \<Rightarrow> [] | Some rel \<Rightarrow> rel_EncryptedEnv rel),
                  rs_PublicEnv = (case release of None \<Rightarrow> [] | Some rel \<Rightarrow> rel_PublicEnv rel),
                  rs_EncryptedPartialSig = encryptedPartialSig, rs_ExtraData = rq_ExtraData req\<rparr>)))"

text \<open>
  A request: its method, the number of bytes the decoder reads, and what it decodes. The handler has
  three sections: it verifies the request, which reads the clock but no state that changes; it spends
  the id of the token, under the lock of the cache; it authorises the claims and answers. Only the
  second changes the server, and other requests and the clean-up run between the sections. The id of
  a token is used up before the authorisation, whether that succeeds or not.
\<close>

type_synonym secrets_request = "string \<times> nat \<times> SecretsRequestV1 option"

definition verify_request ::
  "'k sec_env \<Rightarrow> ('s, 'f) KmsNode \<Rightarrow> secrets_request \<Rightarrow> (SecretsRequestV1 \<times> AttestationClaims) response" where
  "verify_request V n r =
     (case r of (meth, bodyLen, body) \<Rightarrow>
      if meth \<noteq> ''POST'' then HttpError 405 ''Method not allowed''
      else case (if bodyLen > maxSecretsBodyBytes then None else body) of
        None \<Rightarrow> HttpError 400 ''Failed to parse request''
      | Some req \<Rightarrow>
      (case validate_fields n req of
        HttpError c m \<Rightarrow> HttpError c m
      | HttpOK _ \<Rightarrow>
      (case verified_claims V req of
        Inl _ \<Rightarrow> HttpError 401 ''Invalid attestation''
      | Inr claims \<Rightarrow>
          if ac_AppID claims \<noteq> rq_AppID req then HttpError 403 ''App ID mismatch - unauthorized app''
          else HttpOK (req, claims))))"

definition spend_token :: "AttestationClaims \<Rightarrow> ('s, 'f) Server \<Rightarrow> ('s, 'f) Server \<times> bool" where
  "spend_token claims sv = (if JTI claims \<noteq> [] then checkAndStoreJTI (JTI claims) (ExpiresAt claims) sv else (sv, True))"

definition answer_request ::
  "('f, 'g1, 'g2, 'gt) lib \<Rightarrow> 'k sec_env \<Rightarrow> ('s, 'f) KmsNode \<Rightarrow> SecretsRequestV1 \<Rightarrow> AttestationClaims \<Rightarrow> SecretsResponseV1 response" where
  "answer_request L V n req claims =
     (case authorize V req claims of
        HttpError c m \<Rightarrow> HttpError c m
      | HttpOK release \<Rightarrow>
      (case key_version (n_keyStore n) (rq_AttestationTime req) of
        HttpError c m \<Rightarrow> HttpError c m
      | HttpOK keyVersion \<Rightarrow> seal L V req keyVersion release))"

text \<open>The handler with nothing between its sections.\<close>

definition handleSecretsRequest ::
  "('f, 'g1, 'g2, 'gt) lib \<Rightarrow> 'k sec_env \<Rightarrow> secrets_request \<Rightarrow> ('s, 'f) Server \<Rightarrow> ('s, 'f) Server \<times> SecretsResponseV1 response" where
  "handleSecretsRequest L V r sv =
     (case verify_request V (sv_node sv) r of
        HttpError c m \<Rightarrow> (sv, HttpError c m)
      | HttpOK (req, claims) \<Rightarrow>
      (case spend_token claims sv of
        (sv1, False) \<Rightarrow> (sv1, HttpError 401 ''attestation token already used'')
      | (sv1, True) \<Rightarrow> (sv1, answer_request L V (sv_node sv1) req claims)))"

subsection \<open>The other endpoints\<close>

definition handleAppSign ::
  "('f, 'g1, 'g2, 'gt) lib \<Rightarrow> string \<Rightarrow> (string \<times> int64) option \<Rightarrow> ('s, 'f) KmsNode \<Rightarrow> (string \<times> G1Point) response" where
  "handleAppSign L meth body n =
     (if meth \<noteq> ''POST'' then HttpError 405 ''Method not allowed''
      else case body of
        None \<Rightarrow> HttpError 400 ''Failed to parse request''
      | Some (appID, attestationTime) \<Rightarrow>
          if appID = [] then HttpError 400 ''app_id is required''
          else if \<not> app_allowed n appID then HttpError 403 ''app not allowed''
          else (case SignAppID L (n_keyStore n) appID attestationTime of
            Inl _ \<Rightarrow> HttpError 500 ''Internal error''
          | Inr partialSig \<Rightarrow> HttpOK (n_OperatorAddress n, partialSig)))"

definition handleGetCommitments ::
  "string \<Rightarrow> ('s, 'f) KmsNode \<Rightarrow> (string \<times> G2Point list \<times> G2Point option \<times> int64 \<times> bool) response" where
  "handleGetCommitments meth n =
     (if meth \<noteq> ''GET'' then HttpError 405 ''Method not allowed''
      else case GetActiveVersion (n_keyStore n) of
        None \<Rightarrow> HttpError 503 ''No active key version''
      | Some r \<Rightarrow>
          let k = objs (n_keyStore n) r in
          HttpOK (n_OperatorAddress n, Commitments k, MasterPublicKey k, Version k, IsActive k))"

subsection \<open>Who gets a partial signature\<close>

text \<open>What a release demands of the running container, and when a request is authorised.\<close>

definition policy_met :: "ContainerPolicy \<Rightarrow> ContainerPolicy \<Rightarrow> bool" where
  "policy_met claims policy \<longleftrightarrow>
     (Args policy \<noteq> [] \<longrightarrow> Args claims = Args policy) \<and> (CmdOverride policy \<noteq> [] \<longrightarrow> CmdOverride claims = CmdOverride policy) \<and>
     (\<forall>k v. (k, v) \<in> set (Env policy) \<longrightarrow> gm_get (Env claims) k = Some v) \<and>
     (\<forall>k v. (k, v) \<in> set (EnvOverride policy) \<longrightarrow> gm_get (EnvOverride claims) k = Some v) \<and>
     (RestartPolicy policy \<noteq> [] \<longrightarrow> RestartPolicy claims = RestartPolicy policy)"

lemma validateContainerPolicy_iff: "validateContainerPolicy claims policy = Inr () \<longleftrightarrow> policy_met claims policy"
  by (auto simp: validateContainerPolicy_def policy_met_def env_mismatch_def list_ex_iff)

definition authorized :: "'k sec_env \<Rightarrow> SecretsRequestV1 \<Rightarrow> AttestationClaims \<Rightarrow> bool" where
  "authorized V req claims \<longleftrightarrow>
     (if rq_StackID req \<noteq> [] then
        rq_AttestationMethod req \<noteq> ''ecdsa'' \<and> HasPrefix (ac_ImageDigest claims) ''sha256:'' \<and>
        (\<exists>call rel name image. se_platform V = Some call \<and> call (rq_StackID req) = Inr rel \<and> (name, image) \<in> set (pr_Apps rel) \<and>
           digestFromImageRef image = ac_ImageDigest claims)
      else if rq_AttestationMethod req = ''ecdsa'' then
        se_IsHexAddress V (rq_AppID req) \<and>
        (\<exists>signer. eth_UnmarshalPubkey (se_eth V) (ac_PublicKey claims) = Some signer \<and>
           se_GetAppCreator V (se_HexToAddress V (rq_AppID req)) = Some signer)
      else
        \<exists>rel. se_GetLatestRelease V (rq_AppID req) = Some rel \<and> ac_ImageDigest claims = rel_ImageDigest rel \<and>
          (ac_Registry claims = [] \<or> rel_Registry rel = [] \<or> ac_Registry claims = rel_Registry rel) \<and>
          policy_met (ac_ContainerPolicy claims) (rel_ContainerPolicy rel) \<and>
          (rq_AttestationMethod req = ''eigenx-snp'' \<longrightarrow> \<not> hasContainerPolicy (rel_ContainerPolicy rel)))"

lemma digestFromImageRef_nonempty: "HasPrefix d ''sha256:'' \<Longrightarrow> d \<noteq> []"
  by (auto simp: HasPrefix_def)

lemma authorize_iff: "(\<exists>release. authorize V req claims = HttpOK release) \<longleftrightarrow> authorized V req claims"
proof (cases "rq_StackID req = []")
  case True
  then show ?thesis
    by (auto simp: authorize_def authorized_def verifyECDSAOwnership_def validateContainerPolicy_iff [symmetric]
        split: option.splits sum.splits if_splits)
next
  case False
  have "authorizeViaPlatform V (rq_StackID req) claims = None \<longleftrightarrow>
      HasPrefix (ac_ImageDigest claims) ''sha256:'' \<and>
      (\<exists>call rel name image. se_platform V = Some call \<and> call (rq_StackID req) = Inr rel \<and> (name, image) \<in> set (pr_Apps rel) \<and>
         digestFromImageRef image = ac_ImageDigest claims)"
    using digestFromImageRef_nonempty [of "ac_ImageDigest claims"]
    by (auto simp: authorizeViaPlatform_def list_ex_iff split: option.splits sum.splits)
  moreover have "writePlatformAuthError e \<noteq> HttpOK release" for e and release :: "Release option"
    by (simp add: writePlatformAuthError_def split: platform_err.splits grpc_code.splits)
  ultimately show ?thesis using False by (auto simp: authorize_def authorized_def split: option.splits)
qed

lemma handleSecretsRequest_ok:
  assumes "handleSecretsRequest L V r sv = (sv', HttpOK resp)"
  obtains req claims release k where "snd (snd r) = Some req" "validate_fields (sv_node sv) req = HttpOK ()" "verified_claims V req = Inr claims"
    "ac_AppID claims = rq_AppID req"
    "if JTI claims = [] then sv' = sv
     else gm_get (jtiCache sv) (JTI claims) = None \<and> sv' = sv\<lparr>jtiCache := gm_set (jtiCache sv) (JTI claims) (ExpiresAt claims)\<rparr>"
    "authorize V req claims = HttpOK release" "key_version (n_keyStore (sv_node sv)) (rq_AttestationTime req) = HttpOK k"
    "seal L V req k release = HttpOK resp"
proof -
  obtain meth bodyLen body where r: "r = (meth, bodyLen, body)" by (cases r)
  obtain req claims sv1 release k where h: "body = Some req" "validate_fields (sv_node sv) req = HttpOK ()" "verified_claims V req = Inr claims"
    "ac_AppID claims = rq_AppID req"
    "(if JTI claims \<noteq> [] then checkAndStoreJTI (JTI claims) (ExpiresAt claims) sv else (sv, True)) = (sv1, True)"
    "authorize V req claims = HttpOK release" "key_version (n_keyStore (sv_node sv1)) (rq_AttestationTime req) = HttpOK k"
    "sv' = sv1" "seal L V req k release = HttpOK resp"
    using assms unfolding handleSecretsRequest_def verify_request_def spend_token_def answer_request_def r
    by (auto split: if_splits option.splits response.splits sum.splits prod.splits bool.splits)
  have sv1: "sv_node sv1 = sv_node sv" "if JTI claims = [] then sv' = sv
     else gm_get (jtiCache sv) (JTI claims) = None \<and> sv' = sv\<lparr>jtiCache := gm_set (jtiCache sv) (JTI claims) (ExpiresAt claims)\<rparr>"
    using h(5,8) by (auto simp: checkAndStoreJTI_def split: if_splits)
  show thesis using that h(1-4,6,7,9) sv1 unfolding r by simp
qed

text \<open>
  C11. The node answers a secrets request with a partial signature only if the application is allowed,
  a registered method verified the attestation with claims for that application, the token id of the
  claims was not used before and is used up now, and the claims are authorised: by the on-chain
  release (image, registry and container policy), by the creator's key for ECDSA, or by the
  platform's release. The signature is that of the key version the request resolves to, encrypted to
  the key of the request.
\<close>

theorem secrets_authorized:
  assumes "handleSecretsRequest L V r sv = (sv', HttpOK resp)"
  shows "\<exists>req claims keyRef sig sigBytes. snd (snd r) = Some req \<and> app_allowed (sv_node sv) (rq_AppID req) \<and>
    verified_claims V req = Inr claims \<and> ac_AppID claims = rq_AppID req \<and> authorized V req claims \<and>
    (if JTI claims = [] then sv' = sv
     else gm_get (jtiCache sv) (JTI claims) = None \<and> sv' = sv\<lparr>jtiCache := gm_set (jtiCache sv) (JTI claims) (ExpiresAt claims)\<rparr>) \<and>
    (if rq_AttestationTime req > 0 then GetKeyVersionAtTime (n_keyStore (sv_node sv)) (rq_AttestationTime req) = Some keyRef
     else GetActiveVersion (n_keyStore (sv_node sv)) = Some keyRef) \<and>
    signAppIDWithVersion L (rq_AppID req) (Some (objs (n_keyStore (sv_node sv)) keyRef)) = Inr sig \<and>
    se_json_sig V sig = Some sigBytes \<and> se_rsa_Encrypt V sigBytes (rq_RSAPubKeyTmp req) = Some (rs_EncryptedPartialSig resp)"
proof -
  from handleSecretsRequest_ok [OF assms] obtain req claims release k where h: "snd (snd r) = Some req" "validate_fields (sv_node sv) req = HttpOK ()"
    "verified_claims V req = Inr claims" "ac_AppID claims = rq_AppID req" "if JTI claims = [] then sv' = sv
     else gm_get (jtiCache sv) (JTI claims) = None \<and> sv' = sv\<lparr>jtiCache := gm_set (jtiCache sv) (JTI claims) (ExpiresAt claims)\<rparr>"
    "authorize V req claims = HttpOK release" "key_version (n_keyStore (sv_node sv)) (rq_AttestationTime req) = HttpOK k"
    "seal L V req k release = HttpOK resp" .
  have allowed: "app_allowed (sv_node sv) (rq_AppID req)" using h(2) by (auto simp: validate_fields_def split: if_splits)
  have auth: "authorized V req claims" using h(6) authorize_iff by blast
  obtain keyRef where key: "if rq_AttestationTime req > 0 then GetKeyVersionAtTime (n_keyStore (sv_node sv)) (rq_AttestationTime req) = Some keyRef
     else GetActiveVersion (n_keyStore (sv_node sv)) = Some keyRef" "k = objs (n_keyStore (sv_node sv)) keyRef"
    using h(7) by (auto simp: key_version_def split: if_splits option.splits)
  have "\<exists>sig sigBytes. signAppIDWithVersion L (rq_AppID req) (Some k) = Inr sig \<and> se_json_sig V sig = Some sigBytes \<and>
      se_rsa_Encrypt V sigBytes (rq_RSAPubKeyTmp req) = Some (rs_EncryptedPartialSig resp)"
    using h(8) by (auto simp: seal_def split: sum.splits option.splits)
  with h(1,3,4,5) allowed auth key show ?thesis by auto
qed

subsection \<open>A token is served once\<close>

text \<open>
  The requests of a server, each in one of its sections; \<open>Admitted\<close> and \<open>Finished\<close> hold the time at
  which the id of the token was spent.
\<close>

datatype request_phase =
    Waiting
  | Refused
  | Verified SecretsRequestV1 AttestationClaims
  | Admitted SecretsRequestV1 AttestationClaims int64
  | Finished SecretsRequestV1 AttestationClaims int64 "SecretsResponseV1 response"

record ('s, 'f) serving =
  clock :: int64
  server :: "('s, 'f) Server"
  requests :: "nat \<Rightarrow> request_phase"

definition at_phase :: "('s, 'f) serving \<Rightarrow> nat \<Rightarrow> request_phase \<Rightarrow> ('s, 'f) serving" where
  "at_phase st i p = st\<lparr>requests := (requests st)(i := p)\<rparr>"

text \<open>
  One section of one request, with the environment of that moment, a clean-up with a reading of the
  clock that may be old by the time the lock is taken, a change of the node, or time that passes.
\<close>

inductive serving_step ::
  "('f, 'g1, 'g2, 'gt) lib \<Rightarrow> (int64 \<Rightarrow> 'k sec_env) \<Rightarrow> ('s, 'f) serving \<Rightarrow> ('s, 'f) serving \<Rightarrow> bool" for L V where
  verified: "requests st i = Waiting \<Longrightarrow> verify_request (V (clock st)) (sv_node (server st)) r = HttpOK (req, claims) \<Longrightarrow>
    serving_step L V st (at_phase st i (Verified req claims))"
| rejected: "requests st i = Waiting \<Longrightarrow> verify_request (V (clock st)) (sv_node (server st)) r = HttpError c m \<Longrightarrow>
    serving_step L V st (at_phase st i Refused)"
| admitted: "requests st i = Verified req claims \<Longrightarrow> spend_token claims (server st) = (sv', True) \<Longrightarrow>
    serving_step L V st (at_phase (st\<lparr>server := sv'\<rparr>) i (Admitted req claims (clock st)))"
| replayed: "requests st i = Verified req claims \<Longrightarrow> spend_token claims (server st) = (sv', False) \<Longrightarrow>
    serving_step L V st (at_phase (st\<lparr>server := sv'\<rparr>) i Refused)"
| answered: "requests st i = Admitted req claims t \<Longrightarrow>
    serving_step L V st (at_phase st i (Finished req claims t (answer_request L (V (clock st)) (sv_node (server st)) req claims)))"
| cleanup: "now \<le> clock st \<Longrightarrow> serving_step L V st (st\<lparr>server := runJTICleanup now (server st)\<rparr>)"
| changed: "jtiCache sv' = jtiCache (server st) \<Longrightarrow> serving_step L V st (st\<lparr>server := sv'\<rparr>)"
| later: "clock st \<le> now \<Longrightarrow> serving_step L V st (st\<lparr>clock := now\<rparr>)"

inductive serving_run ::
  "('f, 'g1, 'g2, 'gt) lib \<Rightarrow> (int64 \<Rightarrow> 'k sec_env) \<Rightarrow> ('s, 'f) serving \<Rightarrow> bool" for L V where
  start: "jtiCache (server st) = [] \<Longrightarrow> (\<And>i. requests st i = Waiting) \<Longrightarrow> serving_run L V st"
| continue: "serving_run L V st \<Longrightarrow> serving_step L V st st' \<Longrightarrow> serving_run L V st'"

text \<open>The handler in one go is the three sections of a request with nothing between them.\<close>

lemma at_phase_simps [simp]:
  "requests (at_phase st i p) k = (if k = i then p else requests st k)" "server (at_phase st i p) = server st"
  "clock (at_phase st i p) = clock st" "at_phase (at_phase st i p) i q = at_phase st i q"
  by (simp_all add: at_phase_def)

lemma handleSecretsRequest_run:
  assumes "serving_run L V st" "requests st i = Waiting" "handleSecretsRequest L (V (clock st)) r (server st) = (sv', HttpOK resp)"
  shows "\<exists>req claims. serving_run L V (at_phase (st\<lparr>server := sv'\<rparr>) i (Finished req claims (clock st) (HttpOK resp)))"
proof -
  obtain req claims where h: "verify_request (V (clock st)) (sv_node (server st)) r = HttpOK (req, claims)"
    "spend_token claims (server st) = (sv', True)" "answer_request L (V (clock st)) (sv_node sv') req claims = HttpOK resp"
    using assms(3) unfolding handleSecretsRequest_def by (auto split: response.splits prod.splits bool.splits)
  let ?s1 = "at_phase st i (Verified req claims)"
  let ?s2 = "at_phase (st\<lparr>server := sv'\<rparr>) i (Admitted req claims (clock st))"
  have "serving_run L V ?s1" using serving_run.continue [OF assms(1) serving_step.verified [where V = V, OF assms(2) h(1)]] .
  moreover have "serving_step L V ?s1 (at_phase (?s1\<lparr>server := sv'\<rparr>) i (Admitted req claims (clock ?s1)))"
    by (rule serving_step.admitted) (simp_all add: h(2))
  moreover have "at_phase (?s1\<lparr>server := sv'\<rparr>) i (Admitted req claims (clock ?s1)) = ?s2" by (simp add: at_phase_def)
  ultimately have "serving_run L V ?s2" using serving_run.continue by metis
  moreover have "serving_step L V ?s2 (at_phase ?s2 i (Finished req claims (clock st) (HttpOK resp)))"
    using serving_step.answered [of ?s2 i req claims "clock st" L V] h(3) by simp
  ultimately show ?thesis using serving_run.continue at_phase_simps(4) by metis
qed

text \<open>An admitted token is still in the cache, or it has expired; so a second one was admitted after that.\<close>

fun claims_of :: "request_phase \<Rightarrow> AttestationClaims option" where
  "claims_of (Verified _ claims) = Some claims"
| "claims_of (Admitted _ claims _) = Some claims"
| "claims_of (Finished _ claims _ _) = Some claims"
| "claims_of _ = None"

fun spent_at :: "request_phase \<Rightarrow> (string \<times> int64) option" where
  "spent_at (Admitted _ claims t) = (if JTI claims = [] then None else Some (JTI claims, t))"
| "spent_at (Finished _ claims t _) = (if JTI claims = [] then None else Some (JTI claims, t))"
| "spent_at _ = None"

definition serving_inv :: "(string \<Rightarrow> int64) \<Rightarrow> ('s, 'f) serving \<Rightarrow> bool" where
  "serving_inv expiry st \<longleftrightarrow> gm_ok (jtiCache (server st)) \<and>
     (\<forall>j e. gm_get (jtiCache (server st)) j = Some e \<longrightarrow> e = expiry j) \<and>
     (\<forall>i claims. claims_of (requests st i) = Some claims \<longrightarrow> JTI claims \<noteq> [] \<longrightarrow> ExpiresAt claims = expiry (JTI claims)) \<and>
     (\<forall>i j t. spent_at (requests st i) = Some (j, t) \<longrightarrow> gm_get (jtiCache (server st)) j = Some (expiry j) \<or> expiry j \<le> clock st) \<and>
     (\<forall>i k j t t'. spent_at (requests st i) = Some (j, t) \<longrightarrow> spent_at (requests st k) = Some (j, t') \<longrightarrow>
        i = k \<or> expiry j \<le> t \<or> expiry j \<le> t')"

definition fresh_tokens :: "(string \<Rightarrow> int64) \<Rightarrow> (int64 \<Rightarrow> 'k sec_env) \<Rightarrow> bool" where
  "fresh_tokens expiry V \<longleftrightarrow>
     (\<forall>now req claims. verified_claims (V now) req = Inr claims \<longrightarrow> JTI claims \<noteq> [] \<longrightarrow>
        ExpiresAt claims = expiry (JTI claims) \<and> now < ExpiresAt claims)"

lemma cleanup_cache: "gm_ok (jtiCache sv) \<Longrightarrow> gm_get (jtiCache (runJTICleanup now sv)) j =
    (case gm_get (jtiCache sv) j of None \<Rightarrow> None | Some e \<Rightarrow> if now \<ge> e then None else Some e)"
proof -
  assume ok: "gm_ok (jtiCache sv)"
  then have ok': "gm_ok (filter (\<lambda>(_, exp). \<not> now \<ge> exp) (jtiCache sv))" by (rule gm_ok_filter)
  have "gm_get (filter (\<lambda>(_, exp). \<not> now \<ge> exp) (jtiCache sv)) j = Some e \<longleftrightarrow> gm_get (jtiCache sv) j = Some e \<and> \<not> now \<ge> e" for e
    using gm_get_eq_Some [OF ok] gm_get_eq_Some [OF ok'] by simp
  note get = this
  show ?thesis
  proof (cases "gm_get (filter (\<lambda>(_, exp). \<not> now \<ge> exp) (jtiCache sv)) j")
    case None
    then show ?thesis using get by (simp add: runJTICleanup_def split: option.splits)
  next
    case (Some e)
    then show ?thesis using get [of e] by (simp add: runJTICleanup_def)
  qed
qed

lemma verify_request_claims: "verify_request V n r = HttpOK (req, claims) \<Longrightarrow> verified_claims V req = Inr claims"
  by (auto simp: verify_request_def split: prod.splits if_splits option.splits response.splits sum.splits)

lemma spend_token_cases:
  assumes "spend_token claims sv = (sv', fresh)"
  shows "sv' = sv \<and> (fresh \<longrightarrow> JTI claims = []) \<or>
    JTI claims \<noteq> [] \<and> fresh \<and> gm_get (jtiCache sv) (JTI claims) = None \<and>
      sv' = sv\<lparr>jtiCache := gm_set (jtiCache sv) (JTI claims) (ExpiresAt claims)\<rparr>"
  using assms by (auto simp: spend_token_def checkAndStoreJTI_def split: if_splits)

lemma serving_invI:
  assumes "gm_ok (jtiCache (server st))" "\<And>j e. gm_get (jtiCache (server st)) j = Some e \<Longrightarrow> e = expiry j"
    "\<And>i claims. claims_of (requests st i) = Some claims \<Longrightarrow> JTI claims \<noteq> [] \<Longrightarrow> ExpiresAt claims = expiry (JTI claims)"
    "\<And>i j t. spent_at (requests st i) = Some (j, t) \<Longrightarrow> gm_get (jtiCache (server st)) j = Some (expiry j) \<or> expiry j \<le> clock st"
    "\<And>i k j t t'. spent_at (requests st i) = Some (j, t) \<Longrightarrow> spent_at (requests st k) = Some (j, t') \<Longrightarrow>
       i = k \<or> expiry j \<le> t \<or> expiry j \<le> t'"
  shows "serving_inv expiry st"
  using assms unfolding serving_inv_def by blast

lemma serving_invD:
  assumes "serving_inv expiry st"
  shows "gm_ok (jtiCache (server st))" "gm_get (jtiCache (server st)) j = Some e \<Longrightarrow> e = expiry j"
    "claims_of (requests st i) = Some claims \<Longrightarrow> JTI claims \<noteq> [] \<Longrightarrow> ExpiresAt claims = expiry (JTI claims)"
    "spent_at (requests st i) = Some (j, t) \<Longrightarrow> gm_get (jtiCache (server st)) j = Some (expiry j) \<or> expiry j \<le> clock st"
    "spent_at (requests st i) = Some (j, t) \<Longrightarrow> spent_at (requests st k) = Some (j, t') \<Longrightarrow> i = k \<or> expiry j \<le> t \<or> expiry j \<le> t'"
  using assms unfolding serving_inv_def by blast+

lemma serving_inv_phase:
  assumes "serving_inv expiry st" "spent_at p = None \<or> spent_at p = spent_at (requests st i)"
    "\<And>claims. claims_of p = Some claims \<Longrightarrow> JTI claims \<noteq> [] \<Longrightarrow> ExpiresAt claims = expiry (JTI claims)"
  shows "serving_inv expiry (at_phase st i p)"
proof (rule serving_invI)
  have old: "spent_at (requests (at_phase st i p) k) = Some x \<Longrightarrow> spent_at (requests st k) = Some x" for k x
    using assms(2) by (auto split: if_splits)
  show "gm_get (jtiCache (server (at_phase st i p))) j = Some (expiry j) \<or> expiry j \<le> clock (at_phase st i p)"
    if "spent_at (requests (at_phase st i p) k) = Some (j, t)" for k j t
    using serving_invD(4) [OF assms(1) old [OF that]] by simp
  show "k = m \<or> expiry j \<le> t \<or> expiry j \<le> t'"
    if "spent_at (requests (at_phase st i p) k) = Some (j, t)" "spent_at (requests (at_phase st i p) m) = Some (j, t')" for k m j t t'
    using serving_invD(5) [OF assms(1) old [OF that(1)] old [OF that(2)]] .
qed (use serving_invD(1-3) [OF assms(1)] assms(3) in \<open>auto split: if_splits\<close>)

lemma serving_inv_admit:
  assumes inv: "serving_inv expiry st" and v: "requests st i = Verified req claims" and j: "JTI claims \<noteq> []"
    and new: "gm_get (jtiCache (server st)) (JTI claims) = None"
    and sv: "sv' = (server st)\<lparr>jtiCache := gm_set (jtiCache (server st)) (JTI claims) (ExpiresAt claims)\<rparr>"
  shows "serving_inv expiry (at_phase (st\<lparr>server := sv'\<rparr>) i (Admitted req claims (clock st)))"
proof -
  let ?st = "at_phase (st\<lparr>server := sv'\<rparr>) i (Admitted req claims (clock st))"
  have e: "ExpiresAt claims = expiry (JTI claims)" by (rule serving_invD(3) [OF inv _ j, of i]) (simp add: v)
  have old: "expiry (JTI claims) \<le> clock st" if "spent_at (requests st k) = Some (JTI claims, t)" for k t
    using serving_invD(4) [OF inv that] new by simp
  have get: "gm_get (jtiCache sv') q = (if q = JTI claims then Some (expiry q) else gm_get (jtiCache (server st)) q)" for q
    using e by (simp add: sv)
  show ?thesis
  proof (rule serving_invI)
    show "gm_get (jtiCache (server ?st)) q = Some (expiry q) \<or> expiry q \<le> clock ?st"
      if "spent_at (requests ?st k) = Some (q, t)" for k q t
    proof (cases "k = i")
      case True
      then show ?thesis using that j by (simp add: get)
    next
      case False
      then show ?thesis using that serving_invD(4) [OF inv, of k q t] by (simp add: get)
    qed
    show "k = m \<or> expiry q \<le> t \<or> expiry q \<le> t'"
      if "spent_at (requests ?st k) = Some (q, t)" "spent_at (requests ?st m) = Some (q, t')" for k m q t t'
      using that j old [of k t] old [of m t'] serving_invD(5) [OF inv, of k q t m t'] by (auto split: if_splits)
    show "gm_ok (jtiCache (server ?st))" using serving_invD(1) [OF inv] by (simp add: sv)
    show "x = expiry q" if "gm_get (jtiCache (server ?st)) q = Some x" for q x
      using that serving_invD(2) [OF inv, of q x] by (simp add: get split: if_splits)
    show "ExpiresAt c = expiry (JTI c)" if "claims_of (requests ?st k) = Some c" "JTI c \<noteq> []" for k c
      using that e serving_invD(3) [OF inv, of k c] by (auto split: if_splits)
  qed
qed

lemma serving_inv_cleanup:
  assumes inv: "serving_inv expiry st" and now: "now \<le> clock st"
  shows "serving_inv expiry (st\<lparr>server := runJTICleanup now (server st)\<rparr>)"
proof -
  have ok: "gm_ok (jtiCache (server st))" using inv by (simp add: serving_inv_def)
  note get = cleanup_cache [OF this, of now]
  have same: "gm_ok (jtiCache (runJTICleanup now (server st)))" using ok by (simp add: runJTICleanup_def)
  have kept: "gm_get (jtiCache (server st)) j = Some (expiry j) \<Longrightarrow>
      gm_get (jtiCache (runJTICleanup now (server st))) j = Some (expiry j) \<or> expiry j \<le> clock st" for j
    using now by (simp add: get)
  have "gm_get (jtiCache (runJTICleanup now (server st))) j = Some e \<Longrightarrow> gm_get (jtiCache (server st)) j = Some e" for j e
    by (simp add: get split: option.splits if_splits)
  note entry = serving_invD(2) [OF inv this]
  have spent: "gm_get (jtiCache (runJTICleanup now (server st))) j = Some (expiry j) \<or> expiry j \<le> clock st"
    if "spent_at (requests st k) = Some (j, t)" for k j t
    using serving_invD(4) [OF inv that] kept [of j] by blast
  show ?thesis
    by (rule serving_invI) (use same entry spent serving_invD(3,5) [OF inv] in simp_all)
qed

lemma serving_inv_step:
  assumes fresh: "fresh_tokens expiry V" and inv: "serving_inv expiry st" and step: "serving_step L V st st'"
  shows "serving_inv expiry st'"
  using step
proof cases
  case (verified i r req claims)
  then have "JTI claims \<noteq> [] \<Longrightarrow> ExpiresAt claims = expiry (JTI claims)"
    using fresh verify_request_claims unfolding fresh_tokens_def by metis
  with verified inv show ?thesis by (auto intro: serving_inv_phase)
next
  case (admitted i req claims sv')
  have e: "JTI claims \<noteq> [] \<Longrightarrow> ExpiresAt claims = expiry (JTI claims)"
    using serving_invD(3) [OF inv, of i] admitted(2) by simp
  show ?thesis
  proof (cases "JTI claims = []")
    case True
    then have "sv' = server st" using admitted(3) by (simp add: spend_token_def)
    with admitted True inv show ?thesis by (auto intro: serving_inv_phase)
  next
    case False
    then show ?thesis using spend_token_cases [OF admitted(3)] serving_inv_admit [OF inv admitted(2)] admitted(1) by auto
  qed
next
  case (replayed i req claims sv')
  then have "sv' = server st" using spend_token_cases by blast
  with replayed inv show ?thesis by (auto intro: serving_inv_phase)
next
  case (answered i req claims t)
  then have "ExpiresAt claims = expiry (JTI claims)" if "JTI claims \<noteq> []" using serving_invD(3) [OF inv _ that, of i] by simp
  with answered inv show ?thesis by (auto intro: serving_inv_phase)
next
  case (cleanup now)
  then show ?thesis using serving_inv_cleanup [OF inv] by simp
next
  case (later now)
  have "spent_at (requests st k) = Some (j, t) \<Longrightarrow> gm_get (jtiCache (server st)) j = Some (expiry j) \<or> expiry j \<le> now" for k j t
    using serving_invD(4) [OF inv, of k j t] later(2) by auto
  then show ?thesis unfolding later(1) using serving_invD [OF inv] by (intro serving_invI) simp_all
qed (use inv in \<open>auto simp: serving_inv_def intro: serving_inv_phase\<close>)

lemma serving_invariant:
  assumes "serving_run L V st" "fresh_tokens expiry V"
  shows "serving_inv expiry st"
  using assms(1)
proof (induction rule: serving_run.induct)
  case (start st)
  then show ?case by (simp add: serving_inv_def)
next
  case (continue st st')
  then show ?case using serving_inv_step [OF assms(2)] by blast
qed

text \<open>
  The documented behaviour of the token library: a token that it accepts has not expired; the id of
  a token identifies it, so that \<open>expiry\<close> is its time of expiry.
\<close>

definition token_laws :: "(string \<Rightarrow> int64) \<Rightarrow> 'key jwtlib \<Rightarrow> bool" where
  "token_laws expiry J \<longleftrightarrow>
     (\<forall>s keys now tok cs jti. jwt_Parse J s keys now = Some tok \<longrightarrow> tok_claims tok = Some cs \<longrightarrow> now < Exp cs \<and>
        (tok_JwtID tok = Some jti \<longrightarrow> jti \<noteq> [] \<longrightarrow> Exp cs = expiry jti))"

lemma VerifyAttestation_expiry:
  assumes "token_laws expiry J" "VerifyAttestation J av now s p = Inr claims" "JTI claims \<noteq> []"
  shows "ExpiresAt claims = expiry (JTI claims) \<and> now < ExpiresAt claims"
proof -
  obtain keys tok cs where "jwt_Parse J s keys now = Some tok" "tok_claims tok = Some cs" "ExpiresAt claims = Exp cs"
    "JTI claims = (case tok_JwtID tok of None \<Rightarrow> [] | Some jti \<Rightarrow> jti)"
    using assms(2) by (auto simp: VerifyAttestation_def res_simps Let_def split: if_splits option.splits)
  then show ?thesis using assms(1,3) unfolding token_laws_def by (auto split: option.splits)
qed

text \<open>The methods a node registers, at one moment.\<close>

definition kms_methods ::
  "(bytes \<Rightarrow> bytes) \<Rightarrow> 'key jwtlib \<Rightarrow> 'key AttestationVerifier \<Rightarrow> 'k ethlib \<Rightarrow> ECDSAAttestationConfig \<Rightarrow> 'a attestlib \<Rightarrow>
   'r snplib \<Rightarrow> ('r, 'root) EigenXSNPAttestationMethod \<Rightarrow> int64 \<Rightarrow> AttestationMethod list" where
  "kms_methods sha J av E cfg T B m now =
     [gcp_method sha J av now GoogleConfidentialSpace, gcp_method sha J av now IntelTrustAuthority,
      ecdsa_method E cfg (now * 10 ^ 9), tpm_method sha T, snp_method B m]"

lemma kms_methods_fresh:
  assumes J: "token_laws expiry J" and m: "\<And>name meth. gm_get (se_manager V) name = Some meth \<Longrightarrow> meth \<in> set (kms_methods sha J av E cfg T B m now)"
    and c: "verified_claims V req = Inr claims" "JTI claims \<noteq> []"
  shows "ExpiresAt claims = expiry (JTI claims) \<and> now < ExpiresAt claims"
proof -
  let ?r = "Some (attestation_request req)"
  obtain meth where meth: "meth \<in> set (kms_methods sha J av E cfg T B m now)" "am_Verify meth ?r = Inr claims"
    using c(1) m by (auto simp: verified_claims_def VerifyWithMethod_def res_simps split: option.splits)
  have tpm: "TPM_Verify sha v r = Inr claims \<Longrightarrow> JTI claims = []" for v r
    by (auto simp: TPM_Verify_def AttestationClaims_zero_def res_simps Let_def
        split: option.split_asm if_split_asm metadata.split_asm) force
  have snp: "SNP_Verify B m (Some r) = Inr claims \<Longrightarrow> JTI claims = []" for r
    by (auto simp: SNP_Verify_iff AttestationClaims_zero_def)
  obtain p where "GCP_Verify sha (VerifyAttestation J av now) p ?r = Inr claims"
    using meth c(2) by (auto simp: kms_methods_def ecdsa_method_def tpm_method_def snp_method_def gcp_method_def dest: ECDSA_Verify_no_token tpm snp)
  then have "VerifyAttestation J av now (bytes_str (rq_Attestation req)) p = Inr claims"
    by (auto simp: GCP_Verify_def res_simps Let_def attestation_request_def split: if_splits)
  from VerifyAttestation_expiry [OF J this c(2)] show ?thesis .
qed

text \<open>
  C14. A token is served once while it is valid: from the start of a server, with an empty cache, and
  whatever the order in which the sections of any number of requests, the clean-up and changes of the
  node run, of two requests with the same token
  id that were answered with a signature one spent the id only when the token had expired. (It had
  verified the token before that: a request that is held up between the two, past the expiry and a
  clean-up, is served with a token that was served before.)
\<close>

theorem token_served_once:
  assumes J: "token_laws expiry J"
    and m: "\<And>now name meth. gm_get (se_manager (V now)) name = Some meth \<Longrightarrow> meth \<in> set (kms_methods sha J av E cfg T B m now)"
    and run: "serving_run L V st"
    and i: "requests st i = Finished req claims t (HttpOK resp)" and k: "requests st k = Finished req' claims' t' (HttpOK resp')"
    and token: "JTI claims = JTI claims'" "JTI claims \<noteq> []"
  shows "i = k \<or> ExpiresAt claims \<le> t \<or> ExpiresAt claims' \<le> t'"
proof -
  have "ExpiresAt claims = expiry (JTI claims) \<and> now < ExpiresAt claims"
    if "verified_claims (V now) req = Inr claims" "JTI claims \<noteq> []" for now req claims
    by (rule kms_methods_fresh [OF J _ that]) (rule m)
  then have "fresh_tokens expiry V" unfolding fresh_tokens_def by blast
  from serving_invariant [OF run this] have inv: "serving_inv expiry st" .
  have "spent_at (requests st i) = Some (JTI claims, t)" "spent_at (requests st k) = Some (JTI claims, t')"
    using i k token by simp_all
  then have "i = k \<or> expiry (JTI claims) \<le> t \<or> expiry (JTI claims) \<le> t'" using inv unfolding serving_inv_def by blast
  moreover have "ExpiresAt claims = expiry (JTI claims)" "ExpiresAt claims' = expiry (JTI claims')"
    using inv i k token unfolding serving_inv_def by (metis claims_of.simps(3))+
  ultimately show ?thesis using token(1) by simp
qed

lemma authorize_fields:
  assumes "rq_StackID r' = rq_StackID r" "rq_AttestationMethod r' = rq_AttestationMethod r" "rq_AppID r' = rq_AppID r"
  shows "authorize V r' claims = authorize V r claims"
  unfolding authorize_def assms ..

text \<open>
  C30. An ECDSA attestation does not bind the key that the answer is encrypted to: whoever has seen a
  request that was served can send it again with a key of his own that can carry as long a message,
  and the node, in the state it is left in, answers with the same signature encrypted to that key.
\<close>

theorem ecdsa_request_replayable:
  assumes served: "handleSecretsRequest L V (''POST'', len, Some req) sv = (sv', HttpOK resp)"
    and ecdsa: "rq_AttestationMethod req = ''ecdsa''" "gm_get (se_manager V) ''ecdsa'' = Some (ecdsa_method E cfg now)"
    and key: "rsa \<noteq> []" "length rsa \<le> 8192" "len' \<le> maxSecretsBodyBytes"
    and enc: "\<And>b. se_rsa_Encrypt V b (rq_RSAPubKeyTmp req) \<noteq> None \<Longrightarrow> se_rsa_Encrypt V b rsa \<noteq> None"
  shows "\<exists>sig c. se_rsa_Encrypt V sig (rq_RSAPubKeyTmp req) = Some (rs_EncryptedPartialSig resp) \<and> se_rsa_Encrypt V sig rsa = Some c \<and>
    handleSecretsRequest L V (''POST'', len', Some (req\<lparr>rq_RSAPubKeyTmp := rsa\<rparr>)) sv' =
      (sv', HttpOK (resp\<lparr>rs_EncryptedPartialSig := c\<rparr>))"
proof -
  let ?req = "req\<lparr>rq_RSAPubKeyTmp := rsa\<rparr>"
  have same: "ECDSA_Verify E c now (Some (attestation_request ?req)) = ECDSA_Verify E c now (Some (attestation_request req))" for c
    by (rule ECDSA_Verify_fields) (simp_all add: attestation_request_def)
  have v: "verified_claims V ?req = verified_claims V req"
    by (simp add: verified_claims_def VerifyWithMethod_def ecdsa ecdsa_method_def same)
  have no_jti: "JTI claims = []" if "verified_claims V req = Inr claims" for claims
    using that by (auto simp: verified_claims_def VerifyWithMethod_def ecdsa ecdsa_method_def res_simps dest: ECDSA_Verify_no_token)
  have auth: "authorize V ?req claims = authorize V req claims" for claims by (rule authorize_fields) simp_all
  obtain claims release k where h: "validate_fields (sv_node sv) req = HttpOK ()" "verified_claims V req = Inr claims"
    "ac_AppID claims = rq_AppID req" "authorize V req claims = HttpOK release"
    "key_version (n_keyStore (sv_node sv)) (rq_AttestationTime req) = HttpOK k" "sv' = sv" "seal L V req k release = HttpOK resp"
    by (rule handleSecretsRequest_ok [OF served]) (auto simp: no_jti)
  have "validate_fields (sv_node sv) ?req = HttpOK ()" using h(1) key by (auto simp: validate_fields_def split: if_splits)
  moreover obtain sig b where sig: "signAppIDWithVersion L (rq_AppID req) (Some k) = Inr sig" "se_json_sig V sig = Some b"
    "se_rsa_Encrypt V b (rq_RSAPubKeyTmp req) = Some (rs_EncryptedPartialSig resp)"
    "resp = \<lparr>rs_EncryptedEnv = (case release of None \<Rightarrow> [] | Some rel \<Rightarrow> rel_EncryptedEnv rel),
       rs_PublicEnv = (case release of None \<Rightarrow> [] | Some rel \<Rightarrow> rel_PublicEnv rel),
       rs_EncryptedPartialSig = rs_EncryptedPartialSig resp, rs_ExtraData = rq_ExtraData req\<rparr>"
    using h(7) by (auto simp: seal_def split: sum.splits option.splits)
  moreover from this obtain c where c: "se_rsa_Encrypt V b rsa = Some c" using enc [of b] by auto
  moreover from calculation have "seal L V ?req k release = HttpOK (resp\<lparr>rs_EncryptedPartialSig := c\<rparr>)"
    by (simp add: seal_def) (metis SecretsResponseV1.update_convs(3))
  ultimately have "handleSecretsRequest L V (''POST'', len', Some ?req) sv' = (sv', HttpOK (resp\<lparr>rs_EncryptedPartialSig := c\<rparr>))"
    using h(2-6) key(3) v auth no_jti by (simp add: handleSecretsRequest_def verify_request_def spend_token_def answer_request_def)
  with c sig show ?thesis by blast
qed

subsection \<open>A server that serves\<close>

text \<open>The token \<open>t1\<close> of application \<open>0x0a\<close>, valid until 2000, bound to the key 1.\<close>

definition mock_token :: jwt_token where
  "mock_token = \<lparr>tok_Issuer = Some googleIssuer, tok_Audience = Some [KMSJWTAudience], tok_JwtID = Some ''t1'',
     tok_claims = Some \<lparr>Exp = 2000, Iat = 0, EatNonce = AnyString (EncodeToString [1]), SwName = ''CONFIDENTIAL_SPACE'', AttesterTCB = [''INTEL''],
       HwModel = ''GCP_INTEL_TDX'', DbgStat = ''disabled-since-boot'', SwVersion = [show_int 250300],
       SubMods_Container = \<lparr>ct_ImageDigest = ''sha256:aa'', ct_Args = [], ct_CmdOverride = [], ct_Env = [], ct_EnvOverride = [], ct_RestartPolicy = []\<rparr>,
       SubMods_GCE_ProjectID = ''p'', SubMods_GCE_InstanceName = ''vm-0x0a'', SubMods_SupportAttributes = [''STABLE''],
       TDX_GcpAttesterTcbStatus = []\<rparr>\<rparr>"

definition mock_jwt :: "unit jwtlib" where
  "mock_jwt = \<lparr>jws_Parse = (\<lambda>_. Some [(Some ''RS256'', Some ''k'')]), jwk_Algorithm = (\<lambda>_. Some ''RS256''), jwk_AddKey = (\<lambda>k ks. k # ks),
     jwt_Parse = (\<lambda>_ _ now. if now < 2000 then Some mock_token else None)\<rparr>"

definition mock_verifier :: "unit AttestationVerifier" where
  "mock_verifier = \<lparr>googleJwksCache = [Some ()], intelJwksCache = [], av_projectID = ''p'', debugMode = False\<rparr>"

definition mock_env :: "int64 \<Rightarrow> byte sec_env" where
  "mock_env now = \<lparr>se_manager = [(''gcp'', gcp_method id mock_jwt mock_verifier now GoogleConfidentialSpace),
       (''ecdsa'', ecdsa_method mock_eth mock_config (now * 10 ^ 9))],
     se_eth = mock_eth, se_IsHexAddress = (\<lambda>_. True), se_HexToAddress = (\<lambda>_. 10), se_GetAppCreator = (\<lambda>_. Some 7),
     se_GetLatestRelease = (\<lambda>_. Some (Release_zero\<lparr>rel_ImageDigest := ''sha256:aa''\<rparr>)), se_platform = None,
     se_json_sig = (\<lambda>_. Some [5]), se_rsa_Encrypt = (\<lambda>m k. Some (m @ k))\<rparr>"

definition mock_server :: "(unit, gf) Server" where
  "mock_server = \<lparr>sv_node = (new_node ())\<lparr>n_keyStore := demo_keys\<rparr>, jtiCache = []\<rparr>"

definition gcp_secrets :: SecretsRequestV1 where
  "gcp_secrets = \<lparr>rq_AppID = ''0x0a'', rq_StackID = [], rq_AttestationMethod = ''gcp'', rq_Attestation = [1], rq_RSAPubKeyTmp = [1],
     rq_AttestationTime = 0, rq_Challenge = [], rq_PublicKey = [], rq_ExtraData = [], rq_CCInitData = []\<rparr>"

definition ecdsa_secrets :: SecretsRequestV1 where
  "ecdsa_secrets = \<lparr>rq_AppID = ''0x0a'', rq_StackID = [], rq_AttestationMethod = ''ecdsa'', rq_Attestation = ar_Attestation signed_request,
     rq_RSAPubKeyTmp = [1], rq_AttestationTime = 0, rq_Challenge = ar_Challenge signed_request, rq_PublicKey = [7], rq_ExtraData = [],
     rq_CCInitData = []\<rparr>"

lemma mock_token_laws: "token_laws (\<lambda>_. 2000) mock_jwt"
  by (auto simp: token_laws_def mock_jwt_def mock_token_def split: if_splits)

lemma mock_key: "key_version demo_keys 0 = HttpOK (objs demo_keys 0)" "\<exists>sig. signAppIDWithVersion mock_lib app (Some (objs demo_keys 0)) = Inr sig"
proof -
  show "key_version demo_keys 0 = HttpOK (objs demo_keys 0)" by (simp add: key_version_def demo_keys_def GetActiveVersion_def)
  obtain h where h: "HashToG1 mock_lib app = Inr (enc1 mock_lib h)" using HashToG1_enc1 [OF mock_lib_laws] by blast
  have "den1 mock_lib (enc1 mock_lib h) h" using den1_intros(1) curve_lawsD(1) [OF mock_lib_laws] by blast
  then show "\<exists>sig. signAppIDWithVersion mock_lib app (Some (objs demo_keys 0)) = Inr sig"
    using ScalarMulG1_den [of mock_lib] curve_lawsD(1) [OF mock_lib_laws]
    by (simp add: signAppIDWithVersion_def demo_keys_def h res_simps)
qed

lemma ecdsa_claims: "verified_claims (mock_env 1100) ecdsa_secrets =
    Inr (AttestationClaims_zero\<lparr>ac_AppID := ''0x0a'', ac_ImageDigest := ''ecdsa:unverified'', IssuedAt := 1000, ac_PublicKey := [7]\<rparr>)"
proof -
  have r: "ar_AppID (attestation_request ecdsa_secrets) = ''0x0a''" "ar_Challenge (attestation_request ecdsa_secrets) = str_bytes mock_challenge"
    "ar_PublicKey (attestation_request ecdsa_secrets) = eth_FromECDSAPub mock_eth 7"
    "ar_Attestation (attestation_request ecdsa_secrets) = ar_Attestation signed_request"
    by (simp_all add: attestation_request_def ecdsa_secrets_def signed_request_facts mock_eth_def)
  have "NewECDSAAttestationMethod mock_config = mock_config"
    by (simp add: mock_config_def NewECDSAAttestationMethod_def DefaultChallengeTimeWindow_def)
  then show ?thesis
    using ECDSA_Verify_signed [OF mock_eth_laws _ _ _ _ signed_request_facts(1,2) r, of mock_config "1100 * 10 ^ 9"]
    by (simp add: verified_claims_def VerifyWithMethod_def mock_env_def ecdsa_method_def ecdsa_secrets_def res_simps signed_request_facts int64_range_def
        mock_eth_def)
qed

text \<open>A request for \<open>0x0a\<close> with verified and authorised claims is answered.\<close>

lemma mock_server_answers:
  assumes "rq_AppID req = ''0x0a''" "rq_RSAPubKeyTmp req = [1]" "rq_ExtraData req = []" "rq_CCInitData req = []" "rq_AttestationTime req = 0"
    "rq_AttestationMethod req \<noteq> []" "length (rq_Attestation req) \<le> 100"
    and "verified_claims (mock_env now) req = Inr claims" "ac_AppID claims = ''0x0a''" "authorize (mock_env now) req claims = HttpOK release"
  shows "\<exists>resp. handleSecretsRequest mock_lib (mock_env now) (''POST'', 100, Some req) mock_server =
    (if JTI claims = [] then mock_server else mock_server\<lparr>jtiCache := [(JTI claims, ExpiresAt claims)]\<rparr>, HttpOK resp)"
proof -
  have node: "n_keyStore (sv_node mock_server) = demo_keys" "jtiCache mock_server = []" "appAllowlist (sv_node mock_server) = None"
    by (simp_all add: mock_server_def new_node_def)
  have "validate_fields (sv_node mock_server) req = HttpOK ()"
    using assms(1-7) by (simp add: validate_fields_def app_allowed_def node MaxExtraDataSize_def MaxAttestationSize_def)
  moreover obtain sig where "signAppIDWithVersion mock_lib ''0x0a'' (Some (objs demo_keys 0)) = Inr sig" using mock_key(2) by blast
  then have "\<exists>resp. seal mock_lib (mock_env now) req (objs demo_keys 0) release = HttpOK resp"
    using assms(1) by (simp add: seal_def mock_env_def)
  moreover have "checkAndStoreJTI j e mock_server = (mock_server\<lparr>jtiCache := [(j, e)]\<rparr>, True)" for j e
    by (simp add: checkAndStoreJTI_def node maxJTICacheSize_def)
  ultimately show ?thesis
    using assms mock_key(1) by (auto simp: handleSecretsRequest_def verify_request_def spend_token_def answer_request_def node maxSecretsBodyBytes_def MaxExtraDataSize_def MaxAttestationSize_def)
qed

lemma ecdsa_served: "\<exists>resp. handleSecretsRequest mock_lib (mock_env 1100) (''POST'', 100, Some ecdsa_secrets) mock_server = (mock_server, HttpOK resp)"
proof -
  let ?claims = "AttestationClaims_zero\<lparr>ac_AppID := ''0x0a'', ac_ImageDigest := ''ecdsa:unverified'', IssuedAt := 1000, ac_PublicKey := [7]\<rparr>"
  have "authorize (mock_env 1100) ecdsa_secrets ?claims = HttpOK (Some (Release_zero\<lparr>rel_ImageDigest := ''sha256:aa''\<rparr>))"
    by (simp add: authorize_def ecdsa_secrets_def verifyECDSAOwnership_def mock_env_def mock_eth_def)
  moreover have "length (ar_Attestation signed_request) = 65"
    by (simp add: signed_request_def mock_eth_def)
  ultimately show ?thesis
    using mock_server_answers [OF _ _ _ _ _ _ _ ecdsa_claims] by (simp add: ecdsa_secrets_def AttestationClaims_zero_def)
qed

theorem secrets_authorized_witness:
  "\<exists>resp sig. handleSecretsRequest mock_lib (mock_env 1100) (''POST'', 100, Some ecdsa_secrets) mock_server = (mock_server, HttpOK resp) \<and>
     signAppIDWithVersion mock_lib ''0x0a'' (Some (objs demo_keys 0)) = Inr sig \<and> rs_EncryptedPartialSig resp = [5, 1]"
proof -
  obtain resp where r: "handleSecretsRequest mock_lib (mock_env 1100) (''POST'', 100, Some ecdsa_secrets) mock_server = (mock_server, HttpOK resp)"
    using ecdsa_served by blast
  from secrets_authorized [OF this] have "rs_EncryptedPartialSig resp = [5, 1]" by (auto simp: mock_env_def ecdsa_secrets_def)
  with r mock_key(2) show ?thesis by blast
qed

theorem ecdsa_request_replayable_witness:
  "\<exists>resp resp'. handleSecretsRequest mock_lib (mock_env 1100) (''POST'', 100, Some ecdsa_secrets) mock_server = (mock_server, HttpOK resp) \<and>
     handleSecretsRequest mock_lib (mock_env 1100) (''POST'', 99, Some (ecdsa_secrets\<lparr>rq_RSAPubKeyTmp := [9]\<rparr>)) mock_server = (mock_server, HttpOK resp')"
proof -
  obtain resp where r: "handleSecretsRequest mock_lib (mock_env 1100) (''POST'', 100, Some ecdsa_secrets) mock_server = (mock_server, HttpOK resp)"
    using ecdsa_served by blast
  have "rq_AttestationMethod ecdsa_secrets = ''ecdsa''" "gm_get (se_manager (mock_env 1100)) ''ecdsa'' = Some (ecdsa_method mock_eth mock_config 1100000000000)"
    "\<And>b. se_rsa_Encrypt (mock_env 1100) b [9] \<noteq> None" "99 \<le> maxSecretsBodyBytes"
    by (simp_all add: ecdsa_secrets_def mock_env_def maxSecretsBodyBytes_def)
  with ecdsa_request_replayable [OF r, of mock_eth mock_config 1100000000000 "[9]" 99] r show ?thesis by auto
qed

lemma gcp_claims:
  "verified_claims (mock_env 1000) gcp_secrets = Inr (AttestationClaims_zero\<lparr>ac_AppID := ''0x0a'', ac_ImageDigest := ''sha256:aa'',
     ac_Nonce := EncodeToString [1], JTI := ''t1'', ExpiresAt := 2000\<rparr>)"
proof -
  define cs where "cs = the (tok_claims mock_token)"
  have keys: "getFilteredKeySetForToken mock_jwt s (googleJwksCache mock_verifier) = Inr [()]" for s
    by (simp add: getFilteredKeySetForToken_def mock_jwt_def mock_verifier_def res_simps)
  have parse: "jwt_Parse mock_jwt s ks 1000 = Some mock_token" for s ks by (simp add: mock_jwt_def)
  have tok: "tok_Issuer mock_token = Some googleIssuer" "tok_Audience mock_token = Some [KMSJWTAudience]" "tok_JwtID mock_token = Some ''t1''"
    "tok_claims mock_token = Some cs" by (simp_all add: mock_token_def cs_def)
  have c: "SubMods_GCE_InstanceName cs = ''vm-0x0a''" "EatNonce cs = AnyString (EncodeToString [1])" "Exp cs = 2000" "Iat cs = 0"
    "SubMods_Container cs = \<lparr>ct_ImageDigest = ''sha256:aa'', ct_Args = [], ct_CmdOverride = [], ct_Env = [], ct_EnvOverride = [], ct_RestartPolicy = []\<rparr>"
    by (simp_all add: mock_token_def cs_def)
  have "scan_int (show_int 250300) = Some (250300, [])" using scan_int_show [of 250300 "[]"] by (simp add: int64_range_def)
  then have valid: "validateToken mock_verifier cs googleValidationConfig = Inr ()"
    by (simp add: mock_token_def cs_def validateToken_def googleValidationConfig_def mock_verifier_def)
  have app: "extractAppIDFromInstanceName ''vm-0x0a'' = Inr ''0x0a''" by code_simp
  have low: "ToLower (EncodeToString [1]) = EncodeToString [1]" by code_simp
  have "VerifyAttestation mock_jwt mock_verifier 1000 s GoogleConfidentialSpace = Inr (AttestationClaims_zero\<lparr>ac_AppID := ''0x0a'',
     ac_ImageDigest := ''sha256:aa'', ac_Nonce := EncodeToString [1], JTI := ''t1'', ExpiresAt := 2000\<rparr>)" for s
    by (simp add: VerifyAttestation_def keys parse tok c valid app extractNonce_def res_simps Let_def AttestationClaims_zero_def ContainerPolicy_zero_def)
  then show ?thesis
    by (simp add: verified_claims_def VerifyWithMethod_def mock_env_def gcp_method_def gcp_secrets_def attestation_request_def GCP_Verify_def
        res_simps Let_def low AttestationClaims_zero_def)
qed

lemma gcp_served: "\<exists>resp. handleSecretsRequest mock_lib (mock_env 1000) (''POST'', 100, Some gcp_secrets) mock_server =
    (mock_server\<lparr>jtiCache := [(''t1'', 2000)]\<rparr>, HttpOK resp)"
proof -
  let ?claims = "AttestationClaims_zero\<lparr>ac_AppID := ''0x0a'', ac_ImageDigest := ''sha256:aa'', ac_Nonce := EncodeToString [1], JTI := ''t1'',
    ExpiresAt := 2000\<rparr>"
  have "authorize (mock_env 1000) gcp_secrets ?claims = HttpOK (Some (Release_zero\<lparr>rel_ImageDigest := ''sha256:aa''\<rparr>))"
    by (simp add: authorize_def gcp_secrets_def mock_env_def Release_zero_def validateContainerPolicy_def env_mismatch_def ContainerPolicy_zero_def
        AttestationClaims_zero_def)
  then show ?thesis
    using mock_server_answers [OF _ _ _ _ _ _ _ gcp_claims] by (simp add: gcp_secrets_def AttestationClaims_zero_def)
qed

text \<open>
  The token is served to request 0 just before it expires, and again to request 1, which has verified
  it by then and spends it after the clean-up.
\<close>

definition race_claims :: AttestationClaims where
  "race_claims = AttestationClaims_zero\<lparr>ac_AppID := ''0x0a'', ac_ImageDigest := ''sha256:aa'', ac_Nonce := EncodeToString [1], JTI := ''t1'',
     ExpiresAt := 2000\<rparr>"

lemma mock_env_answer: "answer_request L (mock_env now) n req claims = answer_request L (mock_env 0) n req claims"
proof -
  have same: "se_eth (mock_env now) = se_eth (mock_env 0)" "se_IsHexAddress (mock_env now) = se_IsHexAddress (mock_env 0)"
    "se_HexToAddress (mock_env now) = se_HexToAddress (mock_env 0)" "se_GetAppCreator (mock_env now) = se_GetAppCreator (mock_env 0)"
    "se_GetLatestRelease (mock_env now) = se_GetLatestRelease (mock_env 0)" "se_platform (mock_env now) = se_platform (mock_env 0)"
    "se_json_sig (mock_env now) = se_json_sig (mock_env 0)" "se_rsa_Encrypt (mock_env now) = se_rsa_Encrypt (mock_env 0)"
    by (simp_all add: mock_env_def)
  show ?thesis unfolding answer_request_def authorize_def verifyECDSAOwnership_def authorizeViaPlatform_def seal_def same ..
qed

lemma race_run:
  "\<exists>(st :: (unit, gf) serving) resp resp'. serving_run mock_lib mock_env st \<and> requests st 0 = Finished gcp_secrets race_claims 1000 (HttpOK resp) \<and>
     requests st 1 = Finished gcp_secrets race_claims 2000 (HttpOK resp')"
proof -
  let ?step = "serving_step mock_lib mock_env" and ?run = "serving_run mock_lib mock_env"
  let ?r = "(''POST'', 100, Some gcp_secrets)" and ?sv = "mock_server\<lparr>jtiCache := [(''t1'', 2000)]\<rparr>"
  obtain resp where served: "handleSecretsRequest mock_lib (mock_env 1000) ?r mock_server = (?sv, HttpOK resp)" using gcp_served by blast
  then obtain req claims where h: "verify_request (mock_env 1000) (sv_node mock_server) ?r = HttpOK (req, claims)"
    "spend_token claims mock_server = (?sv, True)" "answer_request mock_lib (mock_env 1000) (sv_node ?sv) req claims = HttpOK resp"
    unfolding handleSecretsRequest_def by (auto split: response.splits prod.splits bool.splits)
  have c: "req = gcp_secrets" "claims = race_claims"
    using h(1) gcp_claims by (auto simp: verify_request_def race_claims_def split: if_splits response.splits)
  define s0 :: "(unit, gf) serving" where "s0 = \<lparr>clock = 1000, server = mock_server, requests = (\<lambda>_. Waiting)\<rparr>"
  define s1 where "s1 = at_phase s0 1 (Verified gcp_secrets race_claims)"
  define s2 where "s2 = at_phase s1 0 (Verified gcp_secrets race_claims)"
  define s3 where "s3 = at_phase (s2\<lparr>server := ?sv\<rparr>) 0 (Admitted gcp_secrets race_claims 1000)"
  define s4 where "s4 = at_phase s3 0 (Finished gcp_secrets race_claims 1000 (HttpOK resp))"
  define s5 where "s5 = s4\<lparr>clock := 2000\<rparr>"
  define s6 where "s6 = s5\<lparr>server := runJTICleanup 2000 ?sv\<rparr>"
  define s7 where "s7 = at_phase (s6\<lparr>server := ?sv\<rparr>) 1 (Admitted gcp_secrets race_claims 2000)"
  define s8 where "s8 = at_phase s7 1 (Finished gcp_secrets race_claims 2000
    (answer_request mock_lib (mock_env 2000) (sv_node ?sv) gcp_secrets race_claims))"
  note defs = s0_def s1_def s2_def s3_def s4_def s5_def s6_def s7_def s8_def
  have clean: "runJTICleanup 2000 ?sv = mock_server" by (simp add: runJTICleanup_def mock_server_def)
  have late: "answer_request mock_lib (mock_env 2000) (sv_node ?sv) gcp_secrets race_claims = HttpOK resp"
    using h(3) unfolding c mock_env_answer [where now = 1000] mock_env_answer [where now = 2000] .
  have "?run s0" by (rule serving_run.start) (simp_all add: s0_def mock_server_def)
  moreover have "?step s0 s1" unfolding s1_def by (rule serving_step.verified [where r = ?r]) (simp_all add: s0_def h(1) [unfolded c])
  moreover have "?step s1 s2" unfolding s2_def by (rule serving_step.verified [where r = ?r]) (simp_all add: s0_def s1_def h(1) [unfolded c])
  moreover have "?step s2 s3"
    using serving_step.admitted [of s2 0 gcp_secrets race_claims ?sv mock_lib mock_env] h(2) c by (simp add: defs)
  moreover have "?step s3 s4"
    using serving_step.answered [of s3 0 gcp_secrets race_claims 1000 mock_lib mock_env] h(3) c by (simp add: defs)
  moreover have "?step s4 s5" unfolding s5_def by (rule serving_step.later) (simp add: defs)
  moreover have "?step s5 s6" using serving_step.cleanup [of 2000 s5 mock_lib mock_env] by (simp add: defs)
  moreover have "?step s6 s7"
    using serving_step.admitted [of s6 1 gcp_secrets race_claims ?sv mock_lib mock_env] h(2) c clean by (simp add: defs)
  moreover have "?step s7 s8"
    using serving_step.answered [of s7 1 gcp_secrets race_claims 2000 mock_lib mock_env] by (simp add: defs)
  ultimately have "?run s8" using serving_run.continue by meson
  moreover have "requests s8 0 = Finished gcp_secrets race_claims 1000 (HttpOK resp)" "requests s8 1 = Finished gcp_secrets race_claims 2000 (HttpOK resp)"
    by (simp_all add: defs late [simplified])
  ultimately show ?thesis by blast
qed

theorem token_served_once_witness:
  "(\<exists>(st :: (unit, gf) serving) resp resp'. serving_run mock_lib mock_env st \<and> requests st 0 = Finished gcp_secrets race_claims 1000 (HttpOK resp) \<and>
     requests st 1 = Finished gcp_secrets race_claims 2000 (HttpOK resp') \<and> (2000 \<le> (1000::int) \<or> 2000 \<le> (2000::int))) \<and>
   \<not> (\<exists>(st :: (unit, gf) serving) resp resp'. serving_run mock_lib mock_env st \<and> requests st 0 = Finished gcp_secrets race_claims 1000 (HttpOK resp) \<and>
     requests st 1 = Finished gcp_secrets race_claims 1999 (HttpOK resp'))"
proof -
  have reg: "gm_get (se_manager (mock_env now)) name = Some meth \<Longrightarrow>
      meth \<in> set (kms_methods id mock_jwt mock_verifier mock_eth mock_config undefined mock_snp mock_snp_method now)" for now name meth
    by (auto simp: mock_env_def kms_methods_def split: if_splits)
  have once: "2000 \<le> t \<or> 2000 \<le> t'"
    if "serving_run mock_lib mock_env st" "requests st 0 = Finished gcp_secrets race_claims t (HttpOK resp)"
      "requests st 1 = Finished gcp_secrets race_claims t' (HttpOK resp')" for st :: "(unit, gf) serving" and t t' resp resp'
  proof -
    have "(0::nat) = 1 \<or> ExpiresAt race_claims \<le> t \<or> ExpiresAt race_claims \<le> t'"
      by (rule token_served_once [OF mock_token_laws _ that]) (rule reg, simp_all add: race_claims_def)
    then show ?thesis by (simp add: race_claims_def)
  qed
  from race_run obtain st :: "(unit, gf) serving" and resp resp' where run: "serving_run mock_lib mock_env st" "requests st 0 = Finished gcp_secrets race_claims 1000 (HttpOK resp)"
    "requests st 1 = Finished gcp_secrets race_claims 2000 (HttpOK resp')" by blast
  have "\<not> (2000 \<le> (1000::int) \<or> 2000 \<le> (1999::int))" by simp
  then have "\<not> (\<exists>(st :: (unit, gf) serving) resp resp'. serving_run mock_lib mock_env st \<and> requests st 0 = Finished gcp_secrets race_claims 1000 (HttpOK resp) \<and>
     requests st 1 = Finished gcp_secrets race_claims 1999 (HttpOK resp'))"
    using once by blast
  with run once [OF run] show ?thesis by blast
qed

end
