(* ===== verification/Web3_Signer.thy ===== *)
theory Web3_Signer
  imports Message_Handlers
begin

text \<open>
  The remote signer: \<open>pkg/clients/web3signer/client.go\<close> and \<open>types.go\<close>, and the transport signer
  built on it, \<open>pkg/transportSigner/web3TransportSigner/web3Signer.go\<close>. The service is a function
  that answers the last request of a history with a status and a body, or not at all. The theorems:
  a client built from a server's configuration verifies the certificate of an HTTPS service; a
  message that the remote signer signs is the message a local signer would produce with that
  signature, and peers accept it; every call posts at most one request and a fresh id.
\<close>

subsection \<open>Strings\<close>

definition TrimSuffix :: "string \<Rightarrow> string \<Rightarrow> string" where
  "TrimSuffix s p = (case CutPrefix (rev s) (rev p) of None \<Rightarrow> s | Some r \<Rightarrow> rev r)"

definition TrimPrefix :: "string \<Rightarrow> string \<Rightarrow> string" where
  "TrimPrefix s p = (case CutPrefix s p of None \<Rightarrow> s | Some r \<Rightarrow> r)"

text \<open>\<open>strings.Trim(s, c)\<close> for one character, and the conversion \<open>string(b)\<close>.\<close>

definition Trim :: "string \<Rightarrow> char \<Rightarrow> string" where
  "Trim s c = rev (dropWhile (\<lambda>x. x = c) (rev (dropWhile (\<lambda>x. x = c) s)))"

definition bytes_string :: "bytes \<Rightarrow> string" where
  "bytes_string bs = map (\<lambda>b. char_of (unat b)) bs"

lemma bytes_string_str_bytes [simp]: "bytes_string (str_bytes s) = s"
  by (induction s) (simp_all add: bytes_string_def str_bytes_def unat_of_nat)

lemma Trim_id: "c \<notin> set s \<Longrightarrow> Trim s c = s"
proof -
  assume "c \<notin> set s"
  then have "dropWhile (\<lambda>x. x = c) s = s" "dropWhile (\<lambda>x. x = c) (rev s) = rev s"
    using hd_in_set [of s] hd_in_set [of "rev s"] unfolding dropWhile_eq_self_iff by (force, metis set_rev)
  then show ?thesis by (simp add: Trim_def)
qed

subsection \<open>Configuration\<close>

record TLSConfig =
  tc_CACert :: string
  tc_ClientCert :: string
  tc_ClientKey :: string
  tc_InsecureSkipVerify :: bool

record w3_Config =
  BaseURL :: string
  w3_Timeout :: int64
  TLS :: "TLSConfig option"

definition w3_DefaultConfig :: w3_Config where
  "w3_DefaultConfig = \<lparr>BaseURL = ''http://localhost:9000'', w3_Timeout = 30 * Second, TLS = None\<rparr>"

definition NewConfigWithTLS :: "string \<Rightarrow> string \<Rightarrow> string \<Rightarrow> string \<Rightarrow> w3_Config" where
  "NewConfigWithTLS baseURL caCert clientCert clientKey =
     (let config = w3_DefaultConfig\<lparr>BaseURL := baseURL\<rparr> in
      if HasPrefix baseURL ''https://'' \<and> (caCert \<noteq> [] \<or> clientCert \<noteq> [] \<or> clientKey \<noteq> []) then
        config\<lparr>TLS := Some \<lparr>tc_CACert = caCert, tc_ClientCert = clientCert, tc_ClientKey = clientKey, tc_InsecureSkipVerify = False\<rparr>\<rparr>
      else config)"

text \<open>The libraries \<open>crypto/x509\<close> and \<open>crypto/tls\<close>: whether they accept a PEM certificate and a pair.\<close>

record tlslib =
  x509_AppendCertsFromPEM :: "string \<Rightarrow> bool"
  tls_X509KeyPair :: "string \<Rightarrow> string \<Rightarrow> bool"

record tls_Config =
  RootCAs :: "string option"
  Certificates :: "(string \<times> string) list"
  InsecureSkipVerify :: bool

definition buildTLSConfig :: "tlslib \<Rightarrow> TLSConfig \<Rightarrow> tls_Config res" where
  "buildTLSConfig T tlsConfig =
     (if tc_CACert tlsConfig \<noteq> [] \<and> \<not> x509_AppendCertsFromPEM T (tc_CACert tlsConfig) then
        Inl (Errorf ''failed to parse CA certificate'')
      else
        let config = \<lparr>RootCAs = (if tc_CACert tlsConfig \<noteq> [] then Some (tc_CACert tlsConfig) else None), Certificates = [],
                      InsecureSkipVerify = tc_InsecureSkipVerify tlsConfig\<rparr> in
        if tc_ClientCert tlsConfig \<noteq> [] \<and> tc_ClientKey tlsConfig \<noteq> [] then
          if \<not> tls_X509KeyPair T (tc_ClientCert tlsConfig) (tc_ClientKey tlsConfig) then
            Inl (Errorf ''failed to load client certificate and key'')
          else Inr (config\<lparr>Certificates := [(tc_ClientCert tlsConfig, tc_ClientKey tlsConfig)]\<rparr>)
        else if tc_ClientCert tlsConfig \<noteq> [] \<or> tc_ClientKey tlsConfig \<noteq> [] then
          Inl (Errorf ''both client certificate and key must be provided for mutual TLS'')
        else Inr config)"

text \<open>An HTTP client is its timeout and the TLS configuration of its transport.\<close>

record http_Client =
  hc_Timeout :: int64
  hc_TLS :: "tls_Config option"

definition createHTTPClient :: "tlslib \<Rightarrow> w3_Config \<Rightarrow> http_Client res" where
  "createHTTPClient T cfg =
     (case (HasPrefix (BaseURL cfg) ''https://'', TLS cfg) of
        (True, Some t) \<Rightarrow>
          bind_res (wrap_err ''failed to build TLS config'' (buildTLSConfig T t)) (\<lambda>tlsConfig.
          Inr \<lparr>hc_Timeout = w3_Timeout cfg, hc_TLS = Some tlsConfig\<rparr>)
      | (True, None) \<Rightarrow>
          Inr \<lparr>hc_Timeout = w3_Timeout cfg, hc_TLS = Some \<lparr>RootCAs = None, Certificates = [], InsecureSkipVerify = False\<rparr>\<rparr>
      | (False, _) \<Rightarrow> Inr \<lparr>hc_Timeout = w3_Timeout cfg, hc_TLS = None\<rparr>)"

subsection \<open>The client\<close>

record http_request =
  hq_Method :: string
  hq_URL :: string
  hq_Body :: bytes

type_synonym remote = "http_request list \<Rightarrow> (nat \<times> bytes) option"

text \<open>The client with the requests it has sent so far.\<close>

record w3_Client =
  w3_httpClient :: http_Client
  w3_config :: w3_Config
  requestID :: int64
  w3_sent :: "http_request list"

definition w3_NewClient :: "tlslib \<Rightarrow> w3_Config option \<Rightarrow> w3_Client res" where
  "w3_NewClient T cfg =
     (case cfg of
        None \<Rightarrow> Inl (Errorf ''cfg cannot be nil'')
      | Some cfg \<Rightarrow>
          bind_res (wrap_err ''failed to create HTTP client'' (createHTTPClient T cfg)) (\<lambda>httpClient.
          Inr \<lparr>w3_httpClient = httpClient, w3_config = cfg, requestID = 0, w3_sent = []\<rparr>))"

definition NewWeb3SignerClientFromRemoteSignerConfig :: "tlslib \<Rightarrow> RemoteSignerConfig option \<Rightarrow> w3_Client res" where
  "NewWeb3SignerClientFromRemoteSignerConfig T cfg =
     w3_NewClient T (Some (case cfg of
        Some c \<Rightarrow> NewConfigWithTLS (rsc_Url c) (rsc_CACert c) (rsc_Cert c) (rsc_Key c)
      | None \<Rightarrow> w3_DefaultConfig))"

definition SetHttpClient :: "http_Client \<Rightarrow> w3_Client \<Rightarrow> w3_Client" where
  "SetHttpClient client c = c\<lparr>w3_httpClient := client\<rparr>"

definition w3_Do :: "remote \<Rightarrow> http_request \<Rightarrow> w3_Client \<Rightarrow> w3_Client \<times> (nat \<times> bytes) option" where
  "w3_Do N req c = (c\<lparr>w3_sent := w3_sent c @ [req]\<rparr>, N (w3_sent c @ [req]))"

datatype 'j rpc_params = NilParams | TxParams "(string, string) gomap" | SignParams string string | TypedParams string 'j

record 'j JSONRPCRequest =
  Jsonrpc :: string
  rpc_Method :: string
  Params :: "'j rpc_params"
  rpc_ID :: int64

record 'j JSONRPCResponse =
  rpc_Result :: "'j option"
  rpc_Error :: "(int \<times> string) option"
  rpc_ResponseID :: int64

text \<open>
  \<open>encoding/json\<close> at these types, \<open>http.NewRequest\<close>, which refuses a URL that does not parse, and
  \<open>hexutil.Decode\<close> of go-ethereum.
\<close>

record 'j w3_lib =
  wj_request :: "'j JSONRPCRequest \<Rightarrow> bytes option"
  wu_response :: "bytes \<Rightarrow> 'j JSONRPCResponse option"
  wu_string :: "'j \<Rightarrow> string option"
  wu_strings :: "'j \<Rightarrow> string list option"
  wj_payload :: "string \<times> string \<Rightarrow> bytes option"
  wu_keys :: "bytes \<Rightarrow> string list option"
  NewRequest_ok :: "string \<Rightarrow> bool"
  hexutil_Decode :: "string \<Rightarrow> bytes option"

definition handleHTTPError :: "nat \<Rightarrow> bytes \<Rightarrow> err" where
  "handleHTTPError statusCode responseData = Errorf ''Web3Signer error: HTTP error''"

text \<open>\<open>u\<close> reads the result, which stays the zero value \<open>z\<close> when the answer has none.\<close>

definition makeJSONRPCRequest ::
  "'j w3_lib \<Rightarrow> remote \<Rightarrow> string \<Rightarrow> 'j rpc_params \<Rightarrow> ('j \<Rightarrow> 'b option) \<Rightarrow> 'b \<Rightarrow> w3_Client \<Rightarrow> w3_Client \<times> 'b res" where
  "makeJSONRPCRequest W N meth params u z c0 =
     (let c = c0\<lparr>requestID := to_int64 (requestID c0 + 1)\<rparr>;
          url = TrimSuffix (BaseURL (w3_config c)) ''/'' in
      case wj_request W \<lparr>Jsonrpc = ''2.0'', rpc_Method = meth, Params = params, rpc_ID = requestID c\<rparr> of
        None \<Rightarrow> (c, Inl (Errorf ''failed to marshal JSON-RPC request''))
      | Some requestData \<Rightarrow>
          if \<not> NewRequest_ok W url then (c, Inl (Errorf ''failed to create HTTP request''))
          else (case w3_Do N \<lparr>hq_Method = ''POST'', hq_URL = url, hq_Body = requestData\<rparr> c of
            (c1, None) \<Rightarrow> (c1, Inl (Errorf ''JSON-RPC request failed''))
          | (c1, Some (status, responseData)) \<Rightarrow>
              (c1, if status \<ge> 400 then Inl (handleHTTPError status responseData)
                   else bind_res (lib_res ''failed to unmarshal JSON-RPC response'' (wu_response W responseData)) (\<lambda>resp.
                     case rpc_Error resp of
                       Some _ \<Rightarrow> Inl (Errorf ''Web3Signer error'')
                     | None \<Rightarrow>
                         (case rpc_Result resp of
                            None \<Rightarrow> Inr z
                          | Some r \<Rightarrow> lib_res ''failed to unmarshal result'' (u r))))))"

definition w3_wrap :: "string \<Rightarrow> w3_Client \<times> 'b res \<Rightarrow> w3_Client \<times> 'b res" where
  "w3_wrap msg p = (fst p, wrap_err msg (snd p))"

definition EthAccounts :: "'j w3_lib \<Rightarrow> remote \<Rightarrow> w3_Client \<Rightarrow> w3_Client \<times> string list res" where
  "EthAccounts W N c = w3_wrap ''failed to get accounts'' (makeJSONRPCRequest W N ''eth_accounts'' NilParams (wu_strings W) [] c)"

definition EthSignTransaction ::
  "'j w3_lib \<Rightarrow> remote \<Rightarrow> string \<Rightarrow> (string, string) gomap \<Rightarrow> w3_Client \<Rightarrow> w3_Client \<times> string res" where
  "EthSignTransaction W N sender transaction c =
     w3_wrap ''failed to sign transaction''
       (makeJSONRPCRequest W N ''eth_signTransaction'' (TxParams (gm_set transaction ''from'' sender)) (wu_string W) [] c)"

definition EthSign :: "'j w3_lib \<Rightarrow> remote \<Rightarrow> string \<Rightarrow> string \<Rightarrow> w3_Client \<Rightarrow> w3_Client \<times> string res" where
  "EthSign W N account d c =
     w3_wrap ''failed to sign data'' (makeJSONRPCRequest W N ''eth_sign'' (SignParams account d) (wu_string W) [] c)"

definition EthSignTypedData :: "'j w3_lib \<Rightarrow> remote \<Rightarrow> string \<Rightarrow> 'j \<Rightarrow> w3_Client \<Rightarrow> w3_Client \<times> string res" where
  "EthSignTypedData W N account typedData c =
     w3_wrap ''failed to sign typed data'' (makeJSONRPCRequest W N ''eth_signTypedData'' (TypedParams account typedData) (wu_string W) [] c)"

definition ListPublicKeys :: "'j w3_lib \<Rightarrow> remote \<Rightarrow> w3_Client \<Rightarrow> w3_Client \<times> string list res" where
  "ListPublicKeys W N c = EthAccounts W N c"

definition w3_Sign :: "'j w3_lib \<Rightarrow> remote \<Rightarrow> string \<Rightarrow> string \<Rightarrow> w3_Client \<Rightarrow> w3_Client \<times> string res" where
  "w3_Sign W N account d c = EthSign W N account d c"

text \<open>The REST endpoint that signs raw bytes; the answer is the signature as text, perhaps quoted.\<close>

definition sign_url :: "w3_Client \<Rightarrow> string \<Rightarrow> string" where
  "sign_url c identifier = TrimSuffix (BaseURL (w3_config c)) ''/'' @ ''/api/v1/eth1/sign/'' @ identifier"

definition SignRaw :: "'j w3_lib \<Rightarrow> remote \<Rightarrow> string \<Rightarrow> bytes \<Rightarrow> w3_Client \<Rightarrow> w3_Client \<times> string res" where
  "SignRaw W N identifier d c =
     (case wj_payload W (''MESSAGE'', ''0x'' @ EncodeToString d) of
        None \<Rightarrow> (c, Inl (Errorf ''failed to marshal request payload''))
      | Some payloadBytes \<Rightarrow>
          if \<not> NewRequest_ok W (sign_url c identifier) then (c, Inl (Errorf ''failed to create HTTP request''))
          else (case w3_Do N \<lparr>hq_Method = ''POST'', hq_URL = sign_url c identifier, hq_Body = payloadBytes\<rparr> c of
            (c1, None) \<Rightarrow> (c1, Inl (Errorf ''REST API request failed''))
          | (c1, Some (status, responseData)) \<Rightarrow>
              (c1, if status \<ge> 400 then Inl (handleHTTPError status responseData)
                   else Inr (Trim (TrimSpace (bytes_string responseData)) (CHR 0x22)))))"

definition makeHttpRequest :: "'j w3_lib \<Rightarrow> remote \<Rightarrow> string \<Rightarrow> string \<Rightarrow> bytes \<Rightarrow> w3_Client \<Rightarrow> w3_Client \<times> bytes res" where
  "makeHttpRequest W N meth path requestDataBytes c =
     (let url = TrimSuffix (BaseURL (w3_config c)) ''/'' @ ''/'' @ TrimPrefix path ''/'' in
      if \<not> NewRequest_ok W url then (c, Inl (Errorf ''failed to create HTTP request''))
      else (case w3_Do N \<lparr>hq_Method = meth, hq_URL = url, hq_Body = requestDataBytes\<rparr> c of
        (c1, None) \<Rightarrow> (c1, Inl (Errorf ''JSON-RPC request failed''))
      | (c1, Some (status, responseData)) \<Rightarrow>
          (c1, if status \<ge> 400 then Inl (handleHTTPError status responseData) else Inr responseData)))"

definition ReloadKeys :: "'j w3_lib \<Rightarrow> remote \<Rightarrow> w3_Client \<Rightarrow> w3_Client \<times> unit res" where
  "ReloadKeys W N c =
     (case makeHttpRequest W N ''POST'' ''/reload'' [] c of (c1, r) \<Rightarrow> (c1, bind_res r (\<lambda>_. Inr ())))"

definition ListAllPublicKeys :: "'j w3_lib \<Rightarrow> remote \<Rightarrow> w3_Client \<Rightarrow> w3_Client \<times> string list res" where
  "ListAllPublicKeys W N c =
     (case makeHttpRequest W N ''GET'' ''/api/v1/eth1/publicKeys'' [] c of
        (c1, r) \<Rightarrow> (c1, bind_res (wrap_err ''failed to list public keys'' r) (\<lambda>d.
                         lib_res ''failed to unmarshal public keys'' (wu_keys W d))))"

text \<open>
  The loop waits for the timer of 30 seconds or the next tick; \<open>ticks\<close> says which of the two each
  wait ends with, and no result is given while the loop still waits.
\<close>

datatype wait_event = TimedOut | Ticked

primrec wait_for_key ::
  "'j w3_lib \<Rightarrow> remote \<Rightarrow> string \<Rightarrow> wait_event list \<Rightarrow> w3_Client \<Rightarrow> w3_Client \<times> unit res option" where
  "wait_for_key W N publicKey [] c = (c, None)"
| "wait_for_key W N publicKey (ev # evs) c =
     (case ev of
        TimedOut \<Rightarrow> (c, Some (Inl (Errorf ''timeout waiting for public key'')))
      | Ticked \<Rightarrow>
          (case ListAllPublicKeys W N c of
             (c1, Inl e) \<Rightarrow> (c1, Some (Inl (Wrapf ''failed to list accounts'' e)))
           | (c1, Inr accounts) \<Rightarrow>
               if length accounts = 0 then wait_for_key W N publicKey evs c1
               else if publicKey \<notin> set accounts then wait_for_key W N publicKey evs c1
               else (c1, Some (Inr ()))))"

definition ReloadKeysAndWaitForPublicKey ::
  "'j w3_lib \<Rightarrow> remote \<Rightarrow> string \<Rightarrow> wait_event list \<Rightarrow> w3_Client \<Rightarrow> w3_Client \<times> unit res option" where
  "ReloadKeysAndWaitForPublicKey W N publicKey evs c =
     (case ReloadKeys W N c of
        (c1, Inl e) \<Rightarrow> (c1, Some (Inl (Wrapf ''failed to reload keys'' e)))
      | (c1, Inr _) \<Rightarrow> wait_for_key W N publicKey evs c1)"

subsection \<open>The transport signer\<close>

text \<open>\<open>addr_Hex\<close> is the method \<open>Hex\<close> of an address.\<close>

record Web3Signer =
  ws_fromAddress :: address
  ws_publicKey :: string
  ws_curveType :: CurveType

text \<open>The client is nil or not; a nil logger is an error as well and not modelled.\<close>

definition NewWeb3TransportSigner :: "w3_Client option \<Rightarrow> address \<Rightarrow> string \<Rightarrow> CurveType \<Rightarrow> Web3Signer res" where
  "NewWeb3TransportSigner client fromAddress publicKey curveType =
     (if curveType \<noteq> CurveTypeECDSA then Inl (Errorf ''web3signer only supports ECDSA curve type'')
      else if client = None then Inl (Errorf ''web3signer client cannot be nil'')
      else if publicKey = [] then Inl (Errorf ''publicKey cannot be empty'')
      else Inr \<lparr>ws_fromAddress = fromAddress, ws_publicKey = TrimPrefix publicKey ''0x'', ws_curveType = curveType\<rparr>)"

definition w3_SignMessage :: "'j w3_lib \<Rightarrow> remote \<Rightarrow> Web3Signer \<Rightarrow> bytes \<Rightarrow> w3_Client \<Rightarrow> w3_Client \<times> bytes res" where
  "w3_SignMessage W N w d c =
     (if ws_curveType w \<noteq> CurveTypeECDSA then (c, Inl (Errorf ''web3signer only supports ECDSA curve type''))
      else case SignRaw W N (ws_publicKey w) d c of
        (c1, Inl e) \<Rightarrow> (c1, Inl (Wrapf ''failed to sign message with web3signer'' e))
      | (c1, Inr sigHex) \<Rightarrow> (c1, lib_res ''failed to decode signature from web3signer'' (hexutil_Decode W sigHex)))"

definition SignMessageForSolidity :: "'j w3_lib \<Rightarrow> remote \<Rightarrow> Web3Signer \<Rightarrow> bytes \<Rightarrow> w3_Client \<Rightarrow> w3_Client \<times> bytes res" where
  "SignMessageForSolidity W N w d c =
     (if ws_curveType w \<noteq> CurveTypeECDSA then (c, Inl (Errorf ''web3signer only supports ECDSA curve type''))
      else w3_SignMessage W N w d c)"

definition w3_CreateAuthenticatedMessage ::
  "('f, 'g1, 'g2, 'gt) lib \<Rightarrow> 'j w3_lib \<Rightarrow> remote \<Rightarrow> Web3Signer \<Rightarrow> bytes \<Rightarrow> w3_Client \<Rightarrow> w3_Client \<times> AuthenticatedMessage res" where
  "w3_CreateAuthenticatedMessage L W N w d c =
     (let hash = keccak256 L d in
      case SignMessageForSolidity W N w d c of
        (c1, Inl e) \<Rightarrow> (c1, Inl (Wrapf ''failed to sign authenticated message'' e))
      | (c1, Inr sig) \<Rightarrow> (c1, Inr \<lparr>Payload = d, Hash = hash, Signature = sig\<rparr>))"

definition ws_GetFromAddress :: "Web3Signer \<Rightarrow> address" where
  "ws_GetFromAddress w = ws_fromAddress w"

definition GetCurveType :: "Web3Signer \<Rightarrow> CurveType" where
  "GetCurveType w = ws_curveType w"

definition SupportsRemoteSigning :: "Web3Signer \<Rightarrow> bool" where
  "SupportsRemoteSigning w = True"

definition ws_Validate :: "'j w3_lib \<Rightarrow> remote \<Rightarrow> (address \<Rightarrow> string) \<Rightarrow> Web3Signer \<Rightarrow> w3_Client \<Rightarrow> w3_Client \<times> unit res" where
  "ws_Validate W N addr_Hex w c =
     (case EthAccounts W N c of
        (c1, Inl e) \<Rightarrow> (c1, Inl (Wrapf ''failed to validate web3signer connection'' e))
      | (c1, Inr accounts) \<Rightarrow>
          (c1, if list_ex (\<lambda>account. ToLower account = ToLower (addr_Hex (ws_fromAddress w))) accounts then Inr ()
               else Inl (Errorf ''signing address not found in web3signer accounts'')))"

subsection \<open>What the client guarantees\<close>

text \<open>Only the TLS fields of a server's configuration reach the client, so it never skips verification.\<close>

theorem remote_config_verifies:
  assumes "NewWeb3SignerClientFromRemoteSignerConfig T cfg = Inr c" "HasPrefix (BaseURL (w3_config c)) ''https://''"
  shows "\<exists>t. hc_TLS (w3_httpClient c) = Some t \<and> \<not> InsecureSkipVerify t"
  using assms
  by (auto simp: NewWeb3SignerClientFromRemoteSignerConfig_def w3_NewClient_def createHTTPClient_def NewConfigWithTLS_def Let_def buildTLSConfig_def
      w3_DefaultConfig_def HasPrefix_def res_simps split: option.splits if_splits bool.splits)

text \<open>A certificate of the operator reaches the service, or the construction fails.\<close>

theorem mutual_tls_configured:
  assumes "NewWeb3SignerClientFromRemoteSignerConfig T (Some cfg) = Inr c" "HasPrefix (rsc_Url cfg) ''https://''" "rsc_Cert cfg \<noteq> []"
  shows "\<exists>t. hc_TLS (w3_httpClient c) = Some t \<and> Certificates t = [(rsc_Cert cfg, rsc_Key cfg)]"
  using assms
  by (auto simp: NewWeb3SignerClientFromRemoteSignerConfig_def w3_NewClient_def createHTTPClient_def NewConfigWithTLS_def Let_def buildTLSConfig_def
      w3_DefaultConfig_def res_simps split: option.splits if_splits bool.splits)

text \<open>Every JSON-RPC call posts at most one request, to the base URL, and uses up an id.\<close>

lemma makeJSONRPCRequest_posts:
  assumes "makeJSONRPCRequest W N meth params u z c = (c', r)"
  shows "requestID c' = to_int64 (requestID c + 1) \<and> w3_config c' = w3_config c \<and>
    (w3_sent c' = w3_sent c \<and> \<not> ok r \<or>
     (\<exists>b. wj_request W \<lparr>Jsonrpc = ''2.0'', rpc_Method = meth, Params = params, rpc_ID = requestID c'\<rparr> = Some b \<and>
        w3_sent c' = w3_sent c @ [\<lparr>hq_Method = ''POST'', hq_URL = TrimSuffix (BaseURL (w3_config c)) ''/'', hq_Body = b\<rparr>]))"
  using assms
  by (auto simp: makeJSONRPCRequest_def Let_def w3_Do_def split: option.splits if_splits prod.splits)

text \<open>A key that the wait reports was listed by the service's last answer.\<close>

lemma ListAllPublicKeys_listed:
  assumes "ListAllPublicKeys W N c = (c', Inr accounts)"
  shows "\<exists>status d. N (w3_sent c') = Some (status, d) \<and> status < 400 \<and> wu_keys W d = Some accounts"
  using assms
  by (auto simp: ListAllPublicKeys_def makeHttpRequest_def Let_def w3_Do_def res_simps split: prod.splits option.splits if_splits)

theorem ReloadKeysAndWaitForPublicKey_found:
  assumes "ReloadKeysAndWaitForPublicKey W N publicKey evs c = (c', Some (Inr ()))"
  shows "\<exists>status d accounts. N (w3_sent c') = Some (status, d) \<and> wu_keys W d = Some accounts \<and> publicKey \<in> set accounts"
proof -
  have "\<exists>status d accounts. N (w3_sent c') = Some (status, d) \<and> wu_keys W d = Some accounts \<and> publicKey \<in> set accounts"
    if "wait_for_key W N publicKey evs c1 = (c', Some (Inr ()))" for c1
    using that
  proof (induction evs arbitrary: c1)
    case (Cons ev evs)
    then show ?case
      by (auto split: wait_event.splits prod.splits sum.splits if_splits dest: ListAllPublicKeys_listed)
  qed simp
  then show ?thesis using assms
    by (auto simp: ReloadKeysAndWaitForPublicKey_def split: prod.splits sum.splits)
qed

subsection \<open>The remote signer refines the local one\<close>

text \<open>
  The signature a client would get at this moment. The remote signer's messages are the messages of
  \<open>CreateAuthenticatedMessage\<close>, the abstract signer that the rest of the development uses, with
  this signature.
\<close>

definition remote_signature :: "'j w3_lib \<Rightarrow> remote \<Rightarrow> Web3Signer \<Rightarrow> w3_Client \<Rightarrow> bytes \<Rightarrow> bytes option" where
  "remote_signature W N w c d = (case snd (w3_SignMessage W N w d c) of Inl _ \<Rightarrow> None | Inr sig \<Rightarrow> Some sig)"

theorem w3_signer_refines:
  "snd (w3_CreateAuthenticatedMessage L W N w d c) = Inr m \<longleftrightarrow>
   CreateAuthenticatedMessage L (remote_signature W N w c) d = Inr m"
  by (auto simp: w3_CreateAuthenticatedMessage_def CreateAuthenticatedMessage_def remote_signature_def SignMessageForSolidity_def
      w3_SignMessage_def Let_def res_simps split: prod.splits sum.splits)

text \<open>
  What a remote signer with the key of an address does: to a request for a signature over data it
  answers with the text, possibly quoted, of a signature that verifies over the digest of the data.
\<close>

definition signs_for :: "('f, 'g1, 'g2, 'gt) lib \<Rightarrow> siglib \<Rightarrow> 'j w3_lib \<Rightarrow> remote \<Rightarrow> string \<Rightarrow> address \<Rightarrow> bool" where
  "signs_for L G W N url a \<longleftrightarrow>
     (\<forall>hist d b. wj_payload W (''MESSAGE'', ''0x'' @ EncodeToString d) = Some b \<longrightarrow>
        (\<exists>status body sig s. N (hist @ [\<lparr>hq_Method = ''POST'', hq_URL = url, hq_Body = b\<rparr>]) = Some (status, body) \<and> status < 400 \<and>
           hexutil_Decode W (Trim (TrimSpace (bytes_string body)) (CHR 0x22)) = Some sig \<and>
           ecdsa_NewSignatureFromBytes G sig = Some s \<and> ecdsa_VerifyWithAddress G s (keccak256 L d) a = Some True))"

theorem remote_message_accepted:
  assumes signer: "NewWeb3TransportSigner (Some c) addr publicKey ct = Inr w"
    and remote: "signs_for L G W N (sign_url c (ws_publicKey w)) (wpk_ECDSAAddress (peer_WrappedPublicKey peer))"
    and peer: "CurveType peer = CurveTypeECDSA"
    and json: "wj_payload W (''MESSAGE'', ''0x'' @ EncodeToString d) \<noteq> None" and url: "NewRequest_ok W (sign_url c (ws_publicKey w))"
  shows "\<exists>c' m. w3_CreateAuthenticatedMessage L W N w d c = (c', Inr m) \<and> Payload m = d \<and> verifyMessage L G m peer = Inr () \<and>
    length (w3_sent c') = length (w3_sent c) + 1"
proof -
  have ct: "ws_curveType w = CurveTypeECDSA" using signer by (auto simp: NewWeb3TransportSigner_def split: if_splits)
  obtain b where b: "wj_payload W (''MESSAGE'', ''0x'' @ EncodeToString d) = Some b" using json by blast
  let ?r = "\<lparr>hq_Method = ''POST'', hq_URL = sign_url c (ws_publicKey w), hq_Body = b\<rparr>"
  obtain status body sig s where r: "N (w3_sent c @ [?r]) = Some (status, body)" "status < 400"
    "hexutil_Decode W (Trim (TrimSpace (bytes_string body)) (CHR 0x22)) = Some sig"
    "ecdsa_NewSignatureFromBytes G sig = Some s"
    "ecdsa_VerifyWithAddress G s (keccak256 L d) (wpk_ECDSAAddress (peer_WrappedPublicKey peer)) = Some True"
    using remote b unfolding signs_for_def by blast
  have sm: "w3_SignMessage W N w d c = (c\<lparr>w3_sent := w3_sent c @ [?r]\<rparr>, Inr sig)"
    using r(1-3) b url by (simp add: w3_SignMessage_def ct SignRaw_def w3_Do_def)
  have "w3_CreateAuthenticatedMessage L W N w d c =
      (c\<lparr>w3_sent := w3_sent c @ [?r]\<rparr>, Inr \<lparr>Payload = d, Hash = keccak256 L d, Signature = sig\<rparr>)"
    by (simp add: w3_CreateAuthenticatedMessage_def SignMessageForSolidity_def ct sm)
  moreover have "verifyMessage L G \<lparr>Payload = d, Hash = keccak256 L d, Signature = sig\<rparr> peer = Inr ()"
    using r(4,5) peer by (simp add: verifyMessage_def verify_by_curve_def curve_types res_simps)
  ultimately show ?thesis by simp
qed

end
