(* ===== verification/Transaction_Signer.thy ===== *)
theory Transaction_Signer
  imports Web3_Signer Block_Lookup
begin

text \<open>
  \<open>pkg/transactionSigner\<close>: how a transaction is priced, signed, sent and awaited, with a private key
  and with a remote signer. The chain is a history of the transactions sent, and the Ethereum client
  a record of functions that answer from that history. The locale \<open>transaction_signer\<close> is the
  contract of the interface \<open>ITransactionSigner\<close>: a call that succeeds has sent exactly one
  transaction, which the signer stands behind and which was mined with status 1.
\<close>

subsection \<open>Transactions and the chain\<close>

record transaction =
  tx_To :: address
  tx_Data :: bytes
  tx_Nonce :: uint64
  tx_Value :: int

record signed_transaction =
  sx_From :: address
  sx_To :: address
  sx_Data :: bytes
  sx_Nonce :: uint64
  sx_Value :: int
  sx_Gas :: uint64
  sx_GasTipCap :: int
  sx_GasFeeCap :: int
  sx_ChainID :: int

record Receipt =
  rc_Status :: uint64
  rc_TxHash :: bytes

record CallMsg =
  cm_From :: address
  cm_To :: address
  cm_GasTipCap :: int
  cm_GasFeeCap :: int
  cm_Value :: "int option"
  cm_Data :: bytes

type_synonym chain_history = "signed_transaction list"

text \<open>
  The client of an Ethereum node. \<open>en_BaseFee\<close> is the base fee of the latest header;
  \<open>en_SendTransaction\<close> answers the last transaction of the history. An error of
  \<open>SuggestGasTipCap\<close> only selects the default, so it is \<open>None\<close>.
\<close>

record eth_node =
  en_ChainID :: "int res"
  en_SuggestGasTipCap :: "chain_history \<Rightarrow> int option"
  en_BaseFee :: "chain_history \<Rightarrow> int res"
  en_EstimateGas :: "chain_history \<Rightarrow> CallMsg \<Rightarrow> uint64 res"
  en_PendingNonceAt :: "chain_history \<Rightarrow> address \<Rightarrow> uint64 res"
  en_SendTransaction :: "chain_history \<Rightarrow> unit res"
  en_WaitMined :: "chain_history \<Rightarrow> signed_transaction \<Rightarrow> Receipt res"

text \<open>The options for building a transaction: whether it is only built, and whether it gets signed.\<close>

record TransactOpts =
  op_From :: address
  op_NoSend :: bool
  op_Signs :: bool

definition addGasBuffer :: "uint64 \<Rightarrow> uint64" where
  "addGasBuffer gasLimit = 6 * gasLimit div 5"

subsection \<open>The private key signer\<close>

text \<open>The key only acts through the address it signs for.\<close>

record PrivateKeySigner =
  pk_chainID :: int
  pk_fromAddress :: address

text \<open>\<open>HexToECDSA\<close> of go-ethereum parses a key, here to the address it signs for.\<close>

definition StringToECDSAPrivateKey :: "(string \<Rightarrow> address option) \<Rightarrow> string \<Rightarrow> address res" where
  "StringToECDSAPrivateKey HexToECDSA pk =
     (if length pk = 0 then Inl (Errorf ''private key is empty'')
      else lib_res ''failed to convert hex string to ECDSA private key'' (HexToECDSA (TrimPrefix pk ''0x'')))"

definition NewPrivateKeySigner :: "(string \<Rightarrow> address option) \<Rightarrow> eth_node \<Rightarrow> string \<Rightarrow> PrivateKeySigner res" where
  "NewPrivateKeySigner HexToECDSA N privateKeyHex =
     bind_res (wrap_err ''failed to parse private key'' (StringToECDSAPrivateKey HexToECDSA privateKeyHex)) (\<lambda>fromAddress.
     bind_res (wrap_err ''failed to get chain ID'' (en_ChainID N)) (\<lambda>chainID.
     Inr \<lparr>pk_chainID = chainID, pk_fromAddress = fromAddress\<rparr>))"

definition NewTransactionSigner :: "(string \<Rightarrow> address option) \<Rightarrow> eth_node \<Rightarrow> string \<Rightarrow> PrivateKeySigner res" where
  "NewTransactionSigner HexToECDSA N key =
     (if key = [] then Inl (Errorf ''private key cannot be empty'') else NewPrivateKeySigner HexToECDSA N key)"

definition pks_GetTransactOpts :: "PrivateKeySigner \<Rightarrow> TransactOpts res" where
  "pks_GetTransactOpts s = Inr \<lparr>op_From = pk_fromAddress s, op_NoSend = True, op_Signs = True\<rparr>"

definition pks_GetFromAddress :: "PrivateKeySigner \<Rightarrow> address" where
  "pks_GetFromAddress s = pk_fromAddress s"

definition pks_EstimateGasPriceAndLimit :: "PrivateKeySigner \<Rightarrow> transaction \<Rightarrow> (int option \<times> uint64) res" where
  "pks_EstimateGasPriceAndLimit s tx = Inr (None, 0)"

definition ensureTransactionEvaled :: "eth_node \<Rightarrow> chain_history \<Rightarrow> signed_transaction \<Rightarrow> Receipt res" where
  "ensureTransactionEvaled N hist tx =
     bind_res (wrap_err ''failed to wait for transaction to mine'' (en_WaitMined N hist tx)) (\<lambda>receipt.
     if rc_Status receipt \<noteq> 1 then Inl (Errorf ''transaction failed'') else Inr receipt)"

text \<open>\<open>RawTransact\<close> of go-ethereum signs a transaction with the options' fields and no value, and sends it.\<close>

definition raw_transaction :: "PrivateKeySigner \<Rightarrow> address \<Rightarrow> transaction \<Rightarrow> int \<Rightarrow> int \<Rightarrow> uint64 \<Rightarrow> signed_transaction" where
  "raw_transaction s fromAddress tx gasTipCap gasFeeCap gasLimit =
     \<lparr>sx_From = pk_fromAddress s, sx_To = tx_To tx, sx_Data = tx_Data tx, sx_Nonce = tx_Nonce tx, sx_Value = 0,
      sx_Gas = addGasBuffer gasLimit, sx_GasTipCap = gasTipCap, sx_GasFeeCap = gasFeeCap, sx_ChainID = pk_chainID s\<rparr>"

definition estimateGasPriceAndLimitAndSendTx ::
  "eth_node \<Rightarrow> PrivateKeySigner \<Rightarrow> address \<Rightarrow> transaction \<Rightarrow> chain_history \<Rightarrow> chain_history \<times> Receipt res" where
  "estimateGasPriceAndLimitAndSendTx N s fromAddress tx hist =
     (let gasTipCap = (case en_SuggestGasTipCap N hist of None \<Rightarrow> 15000000000 | Some t \<Rightarrow> t) in
      case en_BaseFee N hist of
        Inl e \<Rightarrow> (hist, Inl e)
      | Inr BaseFee \<Rightarrow>
          let overestimatedBasefee = BaseFee * 3 div 2;
              gasFeeCap = overestimatedBasefee + gasTipCap in
          (case en_EstimateGas N hist \<lparr>cm_From = fromAddress, cm_To = tx_To tx, cm_GasTipCap = gasTipCap, cm_GasFeeCap = gasFeeCap,
                  cm_Value = None, cm_Data = tx_Data tx\<rparr> of
             Inl e \<Rightarrow> (hist, Inl e)
           | Inr gasLimit \<Rightarrow>
               let signed = raw_transaction s fromAddress tx gasTipCap gasFeeCap gasLimit;
                   hist1 = hist @ [signed] in
               (case en_SendTransaction N hist1 of
                  Inl e \<Rightarrow> (hist1, Inl (Wrapf ''failed to send txn'' e))
                | Inr _ \<Rightarrow> (hist1, ensureTransactionEvaled N hist1 signed))))"

definition pks_SignAndSendTransaction ::
  "eth_node \<Rightarrow> PrivateKeySigner \<Rightarrow> transaction \<Rightarrow> chain_history \<Rightarrow> chain_history \<times> Receipt res" where
  "pks_SignAndSendTransaction N s tx hist = estimateGasPriceAndLimitAndSendTx N s (pk_fromAddress s) tx hist"

subsection \<open>The remote transaction signer\<close>

text \<open>The encodings of \<open>hexutil\<close>, the method \<open>Hex\<close> of an address, and \<open>UnmarshalBinary\<close> of a transaction.\<close>

record txlib =
  hx_Encode :: "bytes \<Rightarrow> string"
  hx_EncodeBig :: "int \<Rightarrow> string"
  hx_EncodeUint64 :: "uint64 \<Rightarrow> string"
  hx_addr :: "address \<Rightarrow> string"
  tx_UnmarshalBinary :: "bytes \<Rightarrow> signed_transaction option"

record Web3TransactionSigner =
  wt_chainID :: int
  wt_fromAddress :: address

definition NewWeb3TransactionSigner :: "eth_node \<Rightarrow> address \<Rightarrow> Web3TransactionSigner res" where
  "NewWeb3TransactionSigner N fromAddress =
     bind_res (wrap_err ''failed to get chain ID'' (en_ChainID N)) (\<lambda>chainID. Inr \<lparr>wt_chainID = chainID, wt_fromAddress = fromAddress\<rparr>)"

definition wts_GetTransactOpts :: "Web3TransactionSigner \<Rightarrow> TransactOpts res" where
  "wts_GetTransactOpts s = Inr \<lparr>op_From = wt_fromAddress s, op_NoSend = True, op_Signs = False\<rparr>"

definition wts_GetFromAddress :: "Web3TransactionSigner \<Rightarrow> address" where
  "wts_GetFromAddress s = wt_fromAddress s"

definition wts_EstimateGasPriceAndLimit :: "Web3TransactionSigner \<Rightarrow> transaction \<Rightarrow> (int option \<times> uint64) res" where
  "wts_EstimateGasPriceAndLimit s tx = Inr (None, 0)"

text \<open>The default tip and the multiple of the base fee, by chain; \<open>x.Uint64()\<close> takes the low 64 bits.\<close>

definition fee_policy :: "int \<Rightarrow> int \<times> int" where
  "fee_policy chainID =
     (if \<not> IsEthereum (nat (chainID mod 2 ^ 64)) then (1500000000, 3) else (1000000, 2))"

definition tx_request :: "txlib \<Rightarrow> Web3TransactionSigner \<Rightarrow> transaction \<Rightarrow> int \<Rightarrow> int \<Rightarrow> uint64 \<Rightarrow> uint64 \<Rightarrow> (string, string) gomap" where
  "tx_request X s tx gasTipCap maxFeePerGas gasLimitWithBuffer nonce =
     [(''to'', hx_addr X (tx_To tx)), (''value'', hx_EncodeBig X (tx_Value tx)), (''gas'', hx_EncodeUint64 X gasLimitWithBuffer),
      (''maxPriorityFeePerGas'', hx_EncodeBig X gasTipCap), (''maxFeePerGas'', hx_EncodeBig X maxFeePerGas),
      (''nonce'', hx_EncodeUint64 X nonce), (''data'', hx_Encode X (tx_Data tx)), (''type'', ''0x2''),
      (''chainId'', hx_EncodeUint64 X (of_int (wt_chainID s)))]"

text \<open>Sign remotely, decode and send: the second half of the method, from the request on.\<close>

definition sign_and_send ::
  "eth_node \<Rightarrow> txlib \<Rightarrow> 'j w3_lib \<Rightarrow> remote \<Rightarrow> Web3TransactionSigner \<Rightarrow> (string, string) gomap \<Rightarrow> w3_Client \<times> chain_history \<Rightarrow>
   (w3_Client \<times> chain_history) \<times> Receipt res" where
  "sign_and_send N X W R s txData st =
     (case EthSignTransaction W R (hx_addr X (wt_fromAddress s)) txData (fst st) of
        (c1, Inl e) \<Rightarrow> ((c1, snd st), Inl (Wrapf ''failed to sign transaction with Web3Signer'' e))
      | (c1, Inr signedTxHex) \<Rightarrow>
          (case hexutil_Decode W signedTxHex of
             None \<Rightarrow> ((c1, snd st), Inl (Errorf ''failed to decode signed transaction''))
           | Some signedTxBytes \<Rightarrow>
          (case tx_UnmarshalBinary X signedTxBytes of
             None \<Rightarrow> ((c1, snd st), Inl (Errorf ''failed to unmarshal signed transaction''))
           | Some signedTx \<Rightarrow>
               let hist1 = snd st @ [signedTx] in
               (case en_SendTransaction N hist1 of
                  Inl e \<Rightarrow> ((c1, hist1), Inl (Wrapf ''failed to send transaction'' e))
                | Inr _ \<Rightarrow>
                    ((c1, hist1),
                     bind_res (wrap_err ''failed to wait for transaction receipt'' (en_WaitMined N hist1 signedTx)) (\<lambda>receipt.
                     if rc_Status receipt \<noteq> 1 then Inl (Errorf ''transaction failed with status'') else Inr receipt))))))"

definition wts_SignAndSendTransaction ::
  "eth_node \<Rightarrow> txlib \<Rightarrow> 'j w3_lib \<Rightarrow> remote \<Rightarrow> Web3TransactionSigner \<Rightarrow> transaction \<Rightarrow> w3_Client \<times> chain_history \<Rightarrow>
   (w3_Client \<times> chain_history) \<times> Receipt res" where
  "wts_SignAndSendTransaction N X W R s tx st =
     (let hist = snd st;
          (FallbackGasTipCap, baseFeeMultiplier) = fee_policy (wt_chainID s);
          gasTipCap = (case en_SuggestGasTipCap N hist of None \<Rightarrow> FallbackGasTipCap | Some t \<Rightarrow> t) in
      case en_BaseFee N hist of
        Inl e \<Rightarrow> (st, Inl (Wrapf ''failed to get latest block header'' e))
      | Inr BaseFee \<Rightarrow>
          let maxFeePerGas = BaseFee * baseFeeMultiplier + gasTipCap in
          (case en_EstimateGas N hist \<lparr>cm_From = wt_fromAddress s, cm_To = tx_To tx, cm_GasTipCap = gasTipCap, cm_GasFeeCap = maxFeePerGas,
                  cm_Value = Some (tx_Value tx), cm_Data = tx_Data tx\<rparr> of
             Inl e \<Rightarrow> (st, Inl (Wrapf ''failed to estimate gas'' e))
           | Inr gasLimit \<Rightarrow>
          (case en_PendingNonceAt N hist (wt_fromAddress s) of
             Inl e \<Rightarrow> (st, Inl (Wrapf ''failed to get nonce'' e))
           | Inr nonce \<Rightarrow> sign_and_send N X W R s (tx_request X s tx gasTipCap maxFeePerGas (addGasBuffer gasLimit) nonce) st)))"

subsection \<open>Gas and fees\<close>

text \<open>
  The buffer is one fifth, rounded down, for every limit below a sixth of the range; above it the
  product wraps around and the buffered limit can be below the estimate.
\<close>

lemma addGasBuffer_exact:
  assumes "6 * unat g < 2 ^ 64"
  shows "unat (addGasBuffer g) = 6 * unat g div 5 \<and> g \<le> addGasBuffer g"
proof -
  have m: "unat (6 * g) = 6 * unat g" using unat_mult_lem [of 6 g] assms by simp
  then have "unat (addGasBuffer g) = 6 * unat g div 5" by (simp add: addGasBuffer_def unat_div_distrib)
  then show ?thesis by (simp add: word_le_nat_alt)
qed

lemma addGasBuffer_wraps: "addGasBuffer (2 ^ 63) = 0"
  by (simp add: addGasBuffer_def)

text \<open>
  The comments name the first pair of values as Ethereum's and the second as Base's; the condition
  is the other way round, so Base Sepolia pays the Ethereum values and every Ethereum chain Base's.
\<close>

lemma fee_policy_inverted:
  "fee_policy (int ChainId_EthereumMainnet) = (1000000, 2)" "fee_policy (int ChainId_EthereumSepolia) = (1000000, 2)"
  "fee_policy (int ChainId_BaseSepolia) = (1500000000, 3)"
  by (simp_all add: fee_policy_def IsEthereum_def chain_ids)

subsection \<open>The contract of the signers\<close>

text \<open>
  \<open>txs\<close> is the chain's history in the state of a signer, \<open>stands\<close> what the signer guarantees of a
  transaction it signs for a request.
\<close>

locale transaction_signer =
  fixes send :: "transaction \<Rightarrow> 's \<Rightarrow> 's \<times> Receipt res"
    and txs :: "'s \<Rightarrow> chain_history"
    and stands :: "transaction \<Rightarrow> 's \<Rightarrow> signed_transaction \<Rightarrow> bool"
  assumes send_ok: "send tx st = (st', Inr receipt) \<Longrightarrow>
      \<exists>sx. txs st' = txs st @ [sx] \<and> stands tx st sx \<and> rc_Status receipt = 1"
    and send_failed: "send tx st = (st', Inl e) \<Longrightarrow>
      txs st' = txs st \<or> (\<exists>sx. txs st' = txs st @ [sx] \<and> stands tx st sx)"
begin

lemma sends_at_most_one: "send tx st = (st', r) \<Longrightarrow> \<exists>sent. txs st' = txs st @ sent \<and> length sent \<le> 1"
  by (cases r) (auto dest!: send_ok send_failed)

end

text \<open>What the private key signer signs: the request's recipient, data and nonce, and no value.\<close>

definition signs_request :: "PrivateKeySigner \<Rightarrow> transaction \<Rightarrow> chain_history \<Rightarrow> signed_transaction \<Rightarrow> bool" where
  "signs_request s tx hist sx \<longleftrightarrow>
     sx_From sx = pk_fromAddress s \<and> sx_To sx = tx_To tx \<and> sx_Data sx = tx_Data tx \<and> sx_Nonce sx = tx_Nonce tx \<and> sx_Value sx = 0 \<and>
     sx_ChainID sx = pk_chainID s"

text \<open>What the remote signer answered to the request; the code does not compare the two.\<close>

definition answers_request ::
  "txlib \<Rightarrow> 'j w3_lib \<Rightarrow> remote \<Rightarrow> Web3TransactionSigner \<Rightarrow> transaction \<Rightarrow> w3_Client \<times> chain_history \<Rightarrow> signed_transaction \<Rightarrow> bool" where
  "answers_request X W R s tx st sx \<longleftrightarrow>
     (\<exists>tip fee gas nonce c1 hex b.
        EthSignTransaction W R (hx_addr X (wt_fromAddress s)) (tx_request X s tx tip fee gas nonce) (fst st) = (c1, Inr hex) \<and>
        hexutil_Decode W hex = Some b \<and> tx_UnmarshalBinary X b = Some sx)"

lemma signs_request_raw: "signs_request s tx hist (raw_transaction s a tx tip fee gas)"
  by (simp add: signs_request_def raw_transaction_def)

interpretation private_key: transaction_signer "pks_SignAndSendTransaction N s" "\<lambda>hist. hist" "signs_request s" for N s
  by unfold_locales
    (auto simp: pks_SignAndSendTransaction_def estimateGasPriceAndLimitAndSendTx_def Let_def ensureTransactionEvaled_def signs_request_raw
      res_simps split: sum.splits if_splits)

lemma sign_and_send_cases:
  assumes "sign_and_send N X W R s (tx_request X s tx tip fee gas nonce) st = (st', r)"
  shows "(snd st' = snd st \<and> \<not> ok r) \<or> (\<exists>sx. snd st' = snd st @ [sx] \<and> answers_request X W R s tx st sx \<and>
    (\<forall>receipt. r = Inr receipt \<longrightarrow> rc_Status receipt = 1))"
  using assms
  by (auto simp: sign_and_send_def Let_def answers_request_def res_simps split: prod.splits sum.splits option.splits if_splits)

interpretation remote_signer: transaction_signer "wts_SignAndSendTransaction N X W R s" snd "answers_request X W R s" for N X W R s
proof unfold_locales
  fix tx :: transaction and st st' :: "w3_Client \<times> chain_history" and receipt e
  have c: "snd st' = snd st \<and> \<not> ok r \<or> (\<exists>sx. snd st' = snd st @ [sx] \<and> answers_request X W R s tx st sx \<and>
      (\<forall>receipt. r = Inr receipt \<longrightarrow> rc_Status receipt = 1))"
    if "wts_SignAndSendTransaction N X W R s tx st = (st', r)" for r
    using that sign_and_send_cases [of N X W R s tx _ _ _ _ st st' r]
    by (auto simp: wts_SignAndSendTransaction_def Let_def split: sum.splits prod.splits)
  show "\<exists>sx. snd st' = snd st @ [sx] \<and> answers_request X W R s tx st sx \<and> rc_Status receipt = 1"
    if "wts_SignAndSendTransaction N X W R s tx st = (st', Inr receipt)"
    using c [OF that] by auto
  show "snd st' = snd st \<or> (\<exists>sx. snd st' = snd st @ [sx] \<and> answers_request X W R s tx st sx)"
    if "wts_SignAndSendTransaction N X W R s tx st = (st', Inl e)"
    using c [OF that] by auto
qed

text \<open>A private key signer sends nothing when the chain does not answer before the transaction is built.\<close>

lemma pks_unsent: "en_BaseFee N hist = Inl e \<Longrightarrow> pks_SignAndSendTransaction N s tx hist = (hist, Inl e)"
  by (simp add: pks_SignAndSendTransaction_def estimateGasPriceAndLimitAndSendTx_def)

end
