(* ===== verification/Contract_Caller.thy ===== *)
theory Contract_Caller
  imports Secrets_Handlers Transaction_Signer
begin

text \<open>
  \<open>pkg/contractCaller/caller\<close>: what the node and the client read from the contracts (releases of the
  AppController, the operator set with its keys and sockets) and the transactions they send. The
  generated bindings are a record of functions. The theorems: the release a node authorises against
  is the one of the last upgrade event in the confirmed block, and a served request is pinned to its
  image digest; the registration of an operator sends its transactions in order and at most once.
\<close>

subsection \<open>The data of the bindings\<close>

type_synonym uint32 = "32 word"

record Artifact =
  art_Digest :: bytes
  art_Registry :: string

record RmsRelease =
  Artifacts :: "Artifact list"
  UpgradeByTime :: uint32

record EnvVar =
  ev_Key :: string
  ev_Value :: string

record abi_ContainerPolicy =
  abi_Args :: "string list"
  abi_CmdOverride :: "string list"
  abi_Env :: "EnvVar list"
  abi_EnvOverride :: "EnvVar list"
  abi_RestartPolicy :: string

record AppRelease =
  app_RmsRelease :: RmsRelease
  app_PublicEnv :: bytes
  app_EncryptedEnv :: bytes
  app_ContainerPolicy :: abi_ContainerPolicy

record AppUpgradedEvent =
  eu_App :: address
  eu_RmsReleaseId :: nat
  eu_Release :: AppRelease
  eu_Index :: nat
  eu_BlockNumber :: uint64

text \<open>An iterator over events is the events it yields and the error it ends with.\<close>

type_synonym AppUpgradedIterator = "AppUpgradedEvent list \<times> err option"

text \<open>\<open>FilterAppUpgraded\<close> takes the first and the last block and the applications.\<close>

record AppController =
  ctl_GetAppCreator :: "address \<Rightarrow> address res"
  ctl_GetAppOperatorSetId :: "address \<Rightarrow> uint32 res"
  ctl_GetAppLatestReleaseBlockNumber :: "address \<Rightarrow> uint32 res"
  ctl_GetAppStatus :: "address \<Rightarrow> byte res"
  ctl_FilterAppUpgraded :: "uint64 \<Rightarrow> uint64 option \<Rightarrow> address list \<Rightarrow> AppUpgradedIterator res"

text \<open>
  The allocation manager, the key registrar and the registrar of an AVS, for reading. Operator sets
  are pairs of an address and an id; a call reads at a block number or at the head; a key is the
  coordinates of its two points.
\<close>

record contracts =
  am_GetMembers :: "address \<times> nat \<Rightarrow> address list res"
  am_GetAVSRegistrar :: "address \<Rightarrow> address res"
  reg_NewCaller :: "address \<Rightarrow> unit res"
  reg_GetOperatorSocket :: "address \<Rightarrow> address \<Rightarrow> string res"
  reg_GetAvsConfig :: "address \<Rightarrow> (nat \<times> string) res"
  kr_GetOperatorSetCurveType :: "int option \<Rightarrow> address \<times> nat \<Rightarrow> byte res"
  kr_GetBN254Key :: "address \<times> nat \<Rightarrow> address \<Rightarrow> int list res"
  kr_GetECDSAAddress :: "address \<times> nat \<Rightarrow> address \<Rightarrow> address res"
  bn254_NewPublicKeyFromSolidity :: "int list \<Rightarrow> bytes res"

text \<open>
  \<open>common.HexToAddress\<close>, \<open>Address.String\<close> and \<open>encoding/json\<close> at the map of an environment, which
  never fails to marshal.
\<close>

record caller_lib =
  HexToAddress :: "string \<Rightarrow> address"
  addr_String :: "address \<Rightarrow> string"
  uj_env :: "bytes \<Rightarrow> (string, string) gomap option"
  j_env :: "(string, string) gomap \<Rightarrow> string option"

record ContractCaller =
  cc_ethclient :: eth_client
  cc_contracts :: contracts
  cc_appController :: "AppController option"
  cc_appControllerClient :: "eth_client option"
  cc_permissionController :: "unit option"

subsection \<open>Construction\<close>

text \<open>\<open>instance\<close> tells whether the binding of a contract at an address can be made.\<close>

definition NewContractCaller ::
  "(string \<Rightarrow> string \<Rightarrow> unit res) \<Rightarrow> int res \<Rightarrow> eth_client \<Rightarrow> contracts \<Rightarrow> ContractCaller res" where
  "NewContractCaller new_binding ChainID ethclient contracts =
     bind_res (wrap_err ''failed to get chain ID'' ChainID) (\<lambda>chainId.
     bind_res (wrap_err ''failed to get core contracts'' (GetCoreContractsForChainId (nat (chainId mod 2 ^ 64)))) (\<lambda>coreContracts.
     bind_res (wrap_err ''failed to create allocation manager contract instance''
       (new_binding ''IAllocationManager'' (AllocationManager coreContracts))) (\<lambda>_.
     bind_res (wrap_err ''failed to create key registrar contract instance''
       (new_binding ''IKeyRegistrar'' (KeyRegistrar coreContracts))) (\<lambda>_.
     bind_res (wrap_err ''failed to create release manager contract instance''
       (new_binding ''IReleaseManager'' (ReleaseManager coreContracts))) (\<lambda>_.
     bind_res (wrap_err ''failed to create delegation manager contract instance''
       (new_binding ''IDelegationManager'' (DelegationManager coreContracts))) (\<lambda>_.
     Inr \<lparr>cc_ethclient = ethclient, cc_contracts = contracts, cc_appController = None, cc_appControllerClient = None,
          cc_permissionController = None\<rparr>))))))"

definition NewContractCallerFromEthereumClient ::
  "(string \<Rightarrow> string \<Rightarrow> unit res) \<Rightarrow> int res \<Rightarrow> eth_client res \<Rightarrow> contracts \<Rightarrow> ContractCaller res" where
  "NewContractCallerFromEthereumClient new_binding ChainID ethClient contracts =
     bind_res ethClient (\<lambda>client. NewContractCaller new_binding ChainID client contracts)"

definition SetAppController :: "AppController option \<Rightarrow> ContractCaller \<Rightarrow> ContractCaller \<times> unit res" where
  "SetAppController appController cc =
     (case appController of
        None \<Rightarrow> (cc, Inl (Errorf ''appController cannot be nil''))
      | Some a \<Rightarrow> (cc\<lparr>cc_appController := Some a\<rparr>, Inr ()))"

definition SetAppControllerBlockClient :: "eth_client option \<Rightarrow> ContractCaller \<Rightarrow> ContractCaller" where
  "SetAppControllerBlockClient client cc = cc\<lparr>cc_appControllerClient := client\<rparr>"

definition getAppController :: "ContractCaller \<Rightarrow> AppController res" where
  "getAppController cc =
     lib_res ''appController not initialized - call SetAppController first'' (cc_appController cc)"

text \<open>The adapter of the generated bindings; its iterator hands on every event.\<close>

definition NewAppControllerAdapter :: "unit res \<Rightarrow> unit res \<Rightarrow> AppController \<Rightarrow> AppController res" where
  "NewAppControllerAdapter new_caller new_filterer binding =
     bind_res new_caller (\<lambda>_. bind_res new_filterer (\<lambda>_. Inr binding))"

subsection \<open>The AppController\<close>

definition GetAppCreator :: "ContractCaller \<Rightarrow> address \<Rightarrow> address res" where
  "GetAppCreator cc app = bind_res (getAppController cc) (\<lambda>appCtrl. wrap_err ''failed to get app creator'' (ctl_GetAppCreator appCtrl app))"

definition GetAppOperatorSetId :: "ContractCaller \<Rightarrow> address \<Rightarrow> uint32 res" where
  "GetAppOperatorSetId cc app =
     bind_res (getAppController cc) (\<lambda>appCtrl. wrap_err ''failed to get app operator set ID'' (ctl_GetAppOperatorSetId appCtrl app))"

definition GetAppLatestReleaseBlockNumber :: "ContractCaller \<Rightarrow> address \<Rightarrow> uint32 res" where
  "GetAppLatestReleaseBlockNumber cc app =
     bind_res (getAppController cc) (\<lambda>appCtrl.
       wrap_err ''failed to get app latest release block number'' (ctl_GetAppLatestReleaseBlockNumber appCtrl app))"

definition GetAppStatus :: "ContractCaller \<Rightarrow> address \<Rightarrow> byte res" where
  "GetAppStatus cc app = bind_res (getAppController cc) (\<lambda>appCtrl. wrap_err ''failed to get app status'' (ctl_GetAppStatus appCtrl app))"

definition FilterAppUpgraded :: "ContractCaller \<Rightarrow> address list \<Rightarrow> uint64 \<Rightarrow> uint64 option \<Rightarrow> AppUpgradedIterator res" where
  "FilterAppUpgraded cc apps start stop =
     bind_res (getAppController cc) (\<lambda>appCtrl.
       wrap_err ''failed to filter app upgraded events'' (ctl_FilterAppUpgraded appCtrl start stop apps))"

definition env_map :: "EnvVar list \<Rightarrow> (string, string) gomap" where
  "env_map kvs = fold (\<lambda>kv env. gm_set env (ev_Key kv) (ev_Value kv)) kvs []"

definition contractPolicyToTypes :: "abi_ContainerPolicy \<Rightarrow> ContainerPolicy" where
  "contractPolicyToTypes p =
     \<lparr>Args = abi_Args p, CmdOverride = abi_CmdOverride p, Env = env_map (abi_Env p), EnvOverride = env_map (abi_EnvOverride p),
      RestartPolicy = abi_RestartPolicy p\<rparr>"

record resolvedRelease =
  res_Digest :: bytes
  res_Registry :: string
  res_PublicEnv :: "(string, string) gomap"
  res_EncryptedEnv :: bytes
  res_ContainerPolicy :: ContainerPolicy
  res_BlockNumber :: uint64

text \<open>The loop over the events keeps the first event of the greatest log index.\<close>

definition last_upgrade :: "AppUpgradedEvent list \<Rightarrow> AppUpgradedEvent option" where
  "last_upgrade events =
     fold (\<lambda>event lastAppUpgrade.
       case lastAppUpgrade of
         None \<Rightarrow> Some event
       | Some l \<Rightarrow> if eu_Index event > eu_Index l then Some event else Some l) events None"

definition resolveLatestRelease :: "caller_lib \<Rightarrow> ContractCaller \<Rightarrow> string \<Rightarrow> resolvedRelease res" where
  "resolveLatestRelease X cc appID =
     bind_res (getAppController cc) (\<lambda>appCtrl.
     let appAddress = HexToAddress X appID in
     bind_res (wrap_err ''failed to get app latest release block number'' (GetAppLatestReleaseBlockNumber cc appAddress)) (\<lambda>latest.
     let blockNumber = ucast latest in
     bind_res (wrap_err ''failed to filter app upgraded'' (ctl_FilterAppUpgraded appCtrl blockNumber (Some blockNumber) [appAddress]))
       (\<lambda>(events, iterErr).
     case iterErr of
       Some e \<Rightarrow> Inl (Wrapf ''error iterating app upgrades'' e)
     | None \<Rightarrow>
     (case last_upgrade events of
        None \<Rightarrow> Inl (Errorf ''no app upgrade found for app'')
      | Some lastAppUpgrade \<Rightarrow>
          let release = eu_Release lastAppUpgrade in
          (case Artifacts (app_RmsRelease release) of
             [artifact] \<Rightarrow>
               bind_res (lib_res ''failed to unmarshal env'' (uj_env X (app_PublicEnv release))) (\<lambda>publicEnv.
               Inr \<lparr>res_Digest = art_Digest artifact, res_Registry = art_Registry artifact, res_PublicEnv = publicEnv,
                    res_EncryptedEnv = app_EncryptedEnv release, res_ContainerPolicy = contractPolicyToTypes (app_ContainerPolicy release),
                    res_BlockNumber = eu_BlockNumber lastAppUpgrade\<rparr>)
           | _ \<Rightarrow> Inl (Errorf ''expected 1 artifact''))))))"

definition GetLatestRelease ::
  "caller_lib \<Rightarrow> ContractCaller \<Rightarrow> string \<Rightarrow> (bytes \<times> (string, string) gomap \<times> bytes \<times> ContainerPolicy) res" where
  "GetLatestRelease X cc appID =
     bind_res (resolveLatestRelease X cc appID) (\<lambda>r.
     Inr (res_Digest r, res_PublicEnv r, res_EncryptedEnv r, res_ContainerPolicy r))"

definition GetLatestReleaseAsRelease :: "caller_lib \<Rightarrow> ContractCaller \<Rightarrow> string \<Rightarrow> Release res" where
  "GetLatestReleaseAsRelease X cc appID =
     bind_res (resolveLatestRelease X cc appID) (\<lambda>r.
     let blockClient = (case cc_appControllerClient cc of Some c \<Rightarrow> c | None \<Rightarrow> cc_ethclient cc) in
     bind_res (wrap_err ''failed to fetch block header for timestamp'' (blockClient (Some (res_BlockNumber r)))) (\<lambda>header.
     bind_res (if length (res_PublicEnv r) > 0 then lib_res ''failed to marshal public env'' (j_env X (res_PublicEnv r)) else Inr []) (\<lambda>publicEnvStr.
     Inr \<lparr>rel_ImageDigest = ''sha256:'' @ EncodeToString (res_Digest r), rel_Registry = res_Registry r,
          rel_EncryptedEnv = (if length (res_EncryptedEnv r) > 0 then EncodeToString (res_EncryptedEnv r) else []),
          rel_PublicEnv = publicEnvStr, rel_Timestamp = sint (Time header), rel_ContainerPolicy = res_ContainerPolicy r\<rparr>)))"

subsection \<open>The operator set\<close>

definition GetOperatorSetMembers :: "caller_lib \<Rightarrow> ContractCaller \<Rightarrow> string \<Rightarrow> nat \<Rightarrow> string list res" where
  "GetOperatorSetMembers X cc avsAddress operatorSetId =
     bind_res (wrap_err ''failed to get operator set members'' (am_GetMembers (cc_contracts cc) (HexToAddress X avsAddress, operatorSetId)))
       (\<lambda>operatorSet. Inr (map (addr_String X) operatorSet))"

definition GetOperatorSetDetailsForOperator ::
  "caller_lib \<Rightarrow> ContractCaller \<Rightarrow> address \<Rightarrow> string \<Rightarrow> nat \<Rightarrow> OperatorSetPeer res" where
  "GetOperatorSetDetailsForOperator X cc operatorAddress avsAddress operatorSetId =
     (let K = cc_contracts cc; opset = (HexToAddress X avsAddress, operatorSetId) in
      bind_res (wrap_err ''failed to get AVS registrar address'' (am_GetAVSRegistrar K (HexToAddress X avsAddress))) (\<lambda>avsRegistrarAddress.
      bind_res (wrap_err ''failed to create AVS registrar caller'' (reg_NewCaller K avsRegistrarAddress)) (\<lambda>_.
      bind_res (wrap_err ''failed to get operator socket'' (reg_GetOperatorSocket K avsRegistrarAddress operatorAddress)) (\<lambda>socket.
      bind_res (kr_GetOperatorSetCurveType K None opset) (\<lambda>curveTypeSolidity.
      bind_res (wrap_err ''failed to convert curve type'' (ConvertSolidityEnumToCurveType curveTypeSolidity)) (\<lambda>curveType.
      if curveType = CurveTypeBN254 then
        bind_res (kr_GetBN254Key K opset operatorAddress) (\<lambda>solidityPubKey.
        bind_res (bn254_NewPublicKeyFromSolidity K solidityPubKey) (\<lambda>pubKey.
        Inr \<lparr>OperatorAddress = operatorAddress, SocketAddress = socket,
             peer_WrappedPublicKey = \<lparr>wpk_PublicKey = pubKey, wpk_ECDSAAddress = 0\<rparr>, CurveType = curveType\<rparr>))
      else if curveType = CurveTypeECDSA then
        bind_res (kr_GetECDSAAddress K opset operatorAddress) (\<lambda>ecdsaAddr.
        Inr \<lparr>OperatorAddress = operatorAddress, SocketAddress = socket,
             peer_WrappedPublicKey = \<lparr>wpk_PublicKey = [], wpk_ECDSAAddress = ecdsaAddr\<rparr>, CurveType = curveType\<rparr>)
      else Inl (Errorf ''unsupported curve type'')))))))"

definition GetOperatorSetMembersWithPeering :: "caller_lib \<Rightarrow> ContractCaller \<Rightarrow> string \<Rightarrow> nat \<Rightarrow> OperatorSetPeers res" where
  "GetOperatorSetMembersWithPeering X cc avsAddress operatorSetId =
     bind_res (GetOperatorSetMembers X cc avsAddress operatorSetId) (\<lambda>operatorSetStringAddrs.
     bind_res (map_res (\<lambda>member. GetOperatorSetDetailsForOperator X cc member avsAddress operatorSetId)
       (map (HexToAddress X) operatorSetStringAddrs)) (\<lambda>allMembers.
     Inr \<lparr>OperatorSetId = operatorSetId, AVSAddress = HexToAddress X avsAddress, Peers = allMembers\<rparr>))"

text \<open>\<open>pkg/peering/peeringDataFetcher\<close>.\<close>

definition ListKMSOperators :: "caller_lib \<Rightarrow> ContractCaller \<Rightarrow> string \<Rightarrow> nat \<Rightarrow> OperatorSetPeers res" where
  "ListKMSOperators X cc avsAddress operatorSetId = GetOperatorSetMembersWithPeering X cc avsAddress operatorSetId"

text \<open>A block number is converted to \<open>int64\<close> before it becomes a big integer.\<close>

definition GetOperatorSetCurveType :: "caller_lib \<Rightarrow> ContractCaller \<Rightarrow> string \<Rightarrow> nat \<Rightarrow> uint64 \<Rightarrow> CurveType res" where
  "GetOperatorSetCurveType X cc avsAddress operatorSetId blockNumber =
     bind_res (wrap_err ''failed to get operator set curve type''
       (kr_GetOperatorSetCurveType (cc_contracts cc) (if blockNumber > 0 then Some (sint blockNumber) else None)
         (HexToAddress X avsAddress, operatorSetId))) ConvertSolidityEnumToCurveType"

record AvsConfig =
  avs_OperatorSetId :: nat
  avs_PlatformRpcUrl :: string

definition mapAvsConfig :: "nat \<times> string \<Rightarrow> AvsConfig" where
  "mapAvsConfig i = \<lparr>avs_OperatorSetId = fst i, avs_PlatformRpcUrl = snd i\<rparr>"

definition GetAvsConfig :: "caller_lib \<Rightarrow> ContractCaller \<Rightarrow> string \<Rightarrow> AvsConfig res" where
  "GetAvsConfig X cc avsAddress =
     (let K = cc_contracts cc in
      bind_res (wrap_err ''failed to get AVS registrar address'' (am_GetAVSRegistrar K (HexToAddress X avsAddress))) (\<lambda>avsRegistrarAddress.
      bind_res (wrap_err ''failed to create AVS registrar caller'' (reg_NewCaller K avsRegistrarAddress)) (\<lambda>_.
      bind_res (wrap_err ''failed to read AVS config'' (reg_GetAvsConfig K avsRegistrarAddress)) (\<lambda>cfg. Inr (mapAvsConfig cfg)))))"

definition GetAvsRegistrar :: "ContractCaller \<Rightarrow> address \<Rightarrow> address res" where
  "GetAvsRegistrar cc avsAddress = am_GetAVSRegistrar (cc_contracts cc) avsAddress"

subsection \<open>Transactions\<close>

text \<open>The calls of contracts that the methods turn into transactions, with their arguments.\<close>

datatype contract_call =
    CallSubmitCommitment address uint64 bytes bytes
  | CallAcceptAdmin address
  | CallDeregisterKey address "address \<times> nat"
  | CallRegisterKey address "address \<times> nat" bytes bytes
  | CallModifyAllocations address "address \<times> nat" "address list" "uint64 list"
  | CallUpdateSocket address address string
  | CallRegisterAsOperator address uint32 string
  | CallRegisterForOperatorSets address address "nat list" bytes

text \<open>
  What the writing methods use: the transaction signer, the bindings that build an unsigned
  transaction, instances of two contracts, two reads, and the ABI encoding of a string.
\<close>

record 's chain_writer =
  cw_GetTransactOpts :: "TransactOpts res"
  cw_Build :: "contract_call \<Rightarrow> TransactOpts \<Rightarrow> 's \<Rightarrow> transaction res"
  cw_Send :: "transaction \<Rightarrow> 's \<Rightarrow> 's \<times> Receipt res"
  cw_New :: "address \<Rightarrow> unit res"
  cw_IsOperator :: "address \<Rightarrow> 's \<Rightarrow> bool res"
  cw_GetAllocationDelay :: "address \<Rightarrow> 's \<Rightarrow> unit res"
  cw_EncodeString :: "string \<Rightarrow> bytes option"

definition buildTransactionOpts :: "('s, 'z) chain_writer_scheme \<Rightarrow> TransactOpts res" where
  "buildTransactionOpts C = cw_GetTransactOpts C"

definition signAndSendTransaction :: "('s, 'z) chain_writer_scheme \<Rightarrow> transaction \<Rightarrow> 's \<Rightarrow> 's \<times> Receipt res" where
  "signAndSendTransaction C tx st = cw_Send C tx st"

text \<open>Build the transaction of a call with given options, sign and send it.\<close>

definition transact :: "('s, 'z) chain_writer_scheme \<Rightarrow> string \<Rightarrow> TransactOpts \<Rightarrow> contract_call \<Rightarrow> 's \<Rightarrow> 's \<times> Receipt res" where
  "transact C msg txOpts call st =
     (case cw_Build C call txOpts st of
        Inl e \<Rightarrow> (st, Inl (Wrapf msg e))
      | Inr tx \<Rightarrow> signAndSendTransaction C tx st)"

definition with_opts :: "('s, 'z) chain_writer_scheme \<Rightarrow> (TransactOpts \<Rightarrow> 's \<Rightarrow> 's \<times> 'b res) \<Rightarrow> 's \<Rightarrow> 's \<times> 'b res" where
  "with_opts C f st =
     (case buildTransactionOpts C of Inl e \<Rightarrow> (st, Inl (Wrapf ''failed to build transaction options'' e)) | Inr txOpts \<Rightarrow> f txOpts st)"

definition cc_SubmitCommitment ::
  "('s, 'z) chain_writer_scheme \<Rightarrow> address \<Rightarrow> int64 \<Rightarrow> bytes \<Rightarrow> bytes \<Rightarrow> 's \<Rightarrow> 's \<times> Receipt res" where
  "cc_SubmitCommitment C registryAddress epoch commitmentHash ackMerkleRoot st =
     (case cw_New C registryAddress of
        Inl e \<Rightarrow> (st, Inl (Wrapf ''failed to create commitment registry instance'' e))
      | Inr _ \<Rightarrow> with_opts C (\<lambda>txOpts. transact C ''failed to create transaction'' txOpts
          (CallSubmitCommitment registryAddress (of_int epoch) commitmentHash ackMerkleRoot)) st)"

definition AcceptPendingAdmin :: "('s, 'z) chain_writer_scheme \<Rightarrow> ContractCaller \<Rightarrow> address \<Rightarrow> 's \<Rightarrow> 's \<times> Receipt res" where
  "AcceptPendingAdmin C cc adminFor =
     with_opts C (\<lambda>txOpts st. case cc_permissionController cc of
        None \<Rightarrow> (st, Inl (Panic ''nil pointer dereference''))
      | Some _ \<Rightarrow> transact C ''failed to create transaction for accepting pending admin'' txOpts (CallAcceptAdmin adminFor) st)"

definition DeRegisterKey :: "('s, 'z) chain_writer_scheme \<Rightarrow> address \<Rightarrow> address \<Rightarrow> nat \<Rightarrow> 's \<Rightarrow> 's \<times> Receipt res" where
  "DeRegisterKey C operatorAddress avsAddress operatorSetId =
     with_opts C (\<lambda>txOpts. transact C ''failed to create transaction for deregistering key'' txOpts
       (CallDeregisterKey operatorAddress (avsAddress, operatorSetId)))"

definition ModifyAllocations ::
  "('s, 'z) chain_writer_scheme \<Rightarrow> address \<Rightarrow> address \<Rightarrow> nat \<Rightarrow> address \<Rightarrow> uint64 \<Rightarrow> 's \<Rightarrow> 's \<times> Receipt res" where
  "ModifyAllocations C operatorAddress avsAddress operatorSetId strategy allocation st =
     (case cw_GetAllocationDelay C operatorAddress st of
        Inl e \<Rightarrow> (st, Inl (Wrapf ''failed to get allocation delay'' e))
      | Inr _ \<Rightarrow> with_opts C (\<lambda>txOpts. transact C ''failed to create transaction'' txOpts
          (CallModifyAllocations operatorAddress (avsAddress, operatorSetId) [strategy] [allocation])) st)"

definition UpdateOperatorSocketForAvs ::
  "('s, 'z) chain_writer_scheme \<Rightarrow> ContractCaller \<Rightarrow> address \<Rightarrow> address \<Rightarrow> string \<Rightarrow> 's \<Rightarrow> 's \<times> Receipt res" where
  "UpdateOperatorSocketForAvs C cc operatorAddress avsAddress encodedSocket st =
     (case GetAvsRegistrar cc avsAddress of
        Inl e \<Rightarrow> (st, Inl (Wrapf ''failed to get AVS registrar for address'' e))
      | Inr avsRegistrarAddr \<Rightarrow>
          if avsRegistrarAddr = 0 then (st, Inl (Errorf ''AVS registrar not found for address''))
          else (case cw_New C avsRegistrarAddr of
            Inl e \<Rightarrow> (st, Inl (Wrapf ''failed to create AVS registrar contract instance'' e))
          | Inr _ \<Rightarrow> with_opts C (\<lambda>txOpts. transact C ''failed to create transaction for updating operator socket for AVS'' txOpts
              (CallUpdateSocket avsRegistrarAddr operatorAddress encodedSocket)) st))"

definition RegisterKeyWithOperatorSet ::
  "('s, 'z) chain_writer_scheme \<Rightarrow> address \<Rightarrow> address \<Rightarrow> nat \<Rightarrow> bytes \<Rightarrow> bytes \<Rightarrow> 's \<Rightarrow> 's \<times> Receipt res" where
  "RegisterKeyWithOperatorSet C operatorAddress avsAddress operatorSetId keyData sigBytes =
     with_opts C (\<lambda>txOpts. transact C ''failed to create transaction for key registration'' txOpts
       (CallRegisterKey operatorAddress (avsAddress, operatorSetId) keyData sigBytes))"

definition RegisterKeyWithKeyRegistrar ::
  "('s, 'z) chain_writer_scheme \<Rightarrow> address \<Rightarrow> address \<Rightarrow> nat \<Rightarrow> bytes \<Rightarrow> bytes \<Rightarrow> 's \<Rightarrow> 's \<times> Receipt res" where
  "RegisterKeyWithKeyRegistrar C operatorAddress avsAddress operatorSetId sigBytes keyData =
     with_opts C (\<lambda>txOpts. transact C ''failed to register key'' txOpts
       (CallRegisterKey operatorAddress (avsAddress, operatorSetId) keyData sigBytes))"

text \<open>No receipt is the result for an operator that exists already.\<close>

definition CreateOperator ::
  "('s, 'z) chain_writer_scheme \<Rightarrow> address \<Rightarrow> uint32 \<Rightarrow> string \<Rightarrow> 's \<Rightarrow> 's \<times> Receipt option res" where
  "CreateOperator C operatorAddress allocationDelay metadataUri =
     with_opts C (\<lambda>noSendTxOpts st.
       case cw_IsOperator C operatorAddress st of
         Inl e \<Rightarrow> (st, Inl (Wrapf ''failed to check if operator exists'' e))
       | Inr True \<Rightarrow> (st, Inr None)
       | Inr False \<Rightarrow>
           (case transact C ''failed to create transaction'' noSendTxOpts (CallRegisterAsOperator 0 allocationDelay metadataUri) st of
              (st1, Inl e) \<Rightarrow> (st1, Inl e)
            | (st1, Inr receipt) \<Rightarrow> (st1, Inr (Some receipt))))"

definition RegisterOperatorWithAvs ::
  "('s, 'z) chain_writer_scheme \<Rightarrow> address \<Rightarrow> address \<Rightarrow> nat list \<Rightarrow> string \<Rightarrow> 's \<Rightarrow> 's \<times> Receipt res" where
  "RegisterOperatorWithAvs C operatorAddress avsAddress operatorSetIds socket =
     with_opts C (\<lambda>txOpts st.
       case cw_EncodeString C socket of
         None \<Rightarrow> (st, Inl (Errorf ''failed to encode socket string''))
       | Some encodedSocket \<Rightarrow>
           transact C ''failed to create transaction'' txOpts (CallRegisterForOperatorSets operatorAddress avsAddress operatorSetIds encodedSocket) st)"

definition CreateOperatorAndRegisterWithAvs ::
  "('s, 'z) chain_writer_scheme \<Rightarrow> address \<Rightarrow> address \<Rightarrow> nat list \<Rightarrow> string \<Rightarrow> uint32 \<Rightarrow> string \<Rightarrow> 's \<Rightarrow> 's \<times> Receipt res" where
  "CreateOperatorAndRegisterWithAvs C avsAddress operatorAddress operatorSetIds socket allocationDelay metadataUri st =
     (case CreateOperator C operatorAddress allocationDelay metadataUri st of
        (st1, Inl e) \<Rightarrow> (st1, Inl (Wrapf ''failed to register as operator'' e))
      | (st1, Inr _) \<Rightarrow>
          (case RegisterOperatorWithAvs C operatorAddress avsAddress operatorSetIds socket st1 of
             (st2, Inl e) \<Rightarrow> (st2, Inl (Wrapf ''failed to register operator socket with AVS'' e))
           | (st2, Inr receipt) \<Rightarrow> (st2, Inr receipt)))"

subsection \<open>The release of an application\<close>

lemma last_upgrade_from:
  "fold (\<lambda>event lastAppUpgrade. case lastAppUpgrade of None \<Rightarrow> Some event
       | Some l \<Rightarrow> if eu_Index event > eu_Index l then Some event else Some l) events (Some l) = Some ev \<Longrightarrow>
   ev \<in> set (l # events) \<and> (\<forall>e \<in> set (l # events). eu_Index e \<le> eu_Index ev)"
proof (induction events arbitrary: l)
  case (Cons e events)
  then show ?case by (cases "eu_Index e > eu_Index l") (fastforce simp: not_less dest: Cons.IH)+
qed simp

lemma last_upgrade_greatest:
  assumes "last_upgrade events = Some ev"
  shows "ev \<in> set events \<and> (\<forall>e \<in> set events. eu_Index e \<le> eu_Index ev)"
  using assms last_upgrade_from by (cases events) (auto simp: last_upgrade_def)

lemma last_upgrade_None: "last_upgrade events = None \<longleftrightarrow> events = []"
proof -
  have "fold (\<lambda>event lastAppUpgrade. case lastAppUpgrade of None \<Rightarrow> Some event
       | Some l \<Rightarrow> if eu_Index event > eu_Index l then Some event else Some l) evs (Some l) \<noteq> None" for evs l
    by (induction evs arbitrary: l) auto
  then show ?thesis by (cases events) (auto simp: last_upgrade_def)
qed

text \<open>The event that a release comes from: the last upgrade of the application in its confirmed block.\<close>

definition confirmed_upgrade :: "caller_lib \<Rightarrow> ContractCaller \<Rightarrow> string \<Rightarrow> AppUpgradedEvent \<Rightarrow> bool" where
  "confirmed_upgrade X cc appID ev \<longleftrightarrow>
     (\<exists>ctl block events. cc_appController cc = Some ctl \<and>
        ctl_GetAppLatestReleaseBlockNumber ctl (HexToAddress X appID) = Inr block \<and>
        ctl_FilterAppUpgraded ctl (ucast block) (Some (ucast block)) [HexToAddress X appID] = Inr (events, None) \<and>
        ev \<in> set events \<and> (\<forall>e \<in> set events. eu_Index e \<le> eu_Index ev))"

lemma resolveLatestRelease_Inr:
  assumes "resolveLatestRelease X cc appID = Inr r"
  shows "\<exists>ev artifact. confirmed_upgrade X cc appID ev \<and> Artifacts (app_RmsRelease (eu_Release ev)) = [artifact] \<and>
    res_Digest r = art_Digest artifact \<and> res_Registry r = art_Registry artifact \<and>
    uj_env X (app_PublicEnv (eu_Release ev)) = Some (res_PublicEnv r) \<and> res_EncryptedEnv r = app_EncryptedEnv (eu_Release ev) \<and>
    res_ContainerPolicy r = contractPolicyToTypes (app_ContainerPolicy (eu_Release ev)) \<and> res_BlockNumber r = eu_BlockNumber ev"
proof -
  obtain ctl block events where c: "cc_appController cc = Some ctl"
    "ctl_GetAppLatestReleaseBlockNumber ctl (HexToAddress X appID) = Inr block"
    "ctl_FilterAppUpgraded ctl (ucast block) (Some (ucast block)) [HexToAddress X appID] = Inr (events, None)"
    and m: "(case last_upgrade events of None \<Rightarrow> Inl (Errorf ''no app upgrade found for app'')
      | Some ev \<Rightarrow> (case Artifacts (app_RmsRelease (eu_Release ev)) of
          [artifact] \<Rightarrow> bind_res (lib_res ''failed to unmarshal env'' (uj_env X (app_PublicEnv (eu_Release ev)))) (\<lambda>publicEnv.
            Inr \<lparr>res_Digest = art_Digest artifact, res_Registry = art_Registry artifact, res_PublicEnv = publicEnv,
              res_EncryptedEnv = app_EncryptedEnv (eu_Release ev),
              res_ContainerPolicy = contractPolicyToTypes (app_ContainerPolicy (eu_Release ev)), res_BlockNumber = eu_BlockNumber ev\<rparr>)
        | _ \<Rightarrow> Inl (Errorf ''expected 1 artifact''))) = Inr r"
    using assms unfolding resolveLatestRelease_def Let_def
    by (auto simp: getAppController_def GetAppLatestReleaseBlockNumber_def res_simps split: option.splits)
  obtain ev where ev: "last_upgrade events = Some ev" using m by (cases "last_upgrade events") auto
  then have conf: "confirmed_upgrade X cc appID ev" using c last_upgrade_greatest [OF ev] by (auto simp: confirmed_upgrade_def)
  obtain artifact where a: "Artifacts (app_RmsRelease (eu_Release ev)) = [artifact]"
    using m ev by (auto split: list.splits)
  with m ev conf show ?thesis by (auto simp: res_simps)
qed

lemma GetLatestReleaseAsRelease_Inr:
  assumes "GetLatestReleaseAsRelease X cc appID = Inr rel"
  obtains ev artifact where "confirmed_upgrade X cc appID ev" "Artifacts (app_RmsRelease (eu_Release ev)) = [artifact]"
    "rel_ImageDigest rel = ''sha256:'' @ EncodeToString (art_Digest artifact)" "rel_Registry rel = art_Registry artifact"
    "rel_EncryptedEnv rel = EncodeToString (app_EncryptedEnv (eu_Release ev))"
    "rel_ContainerPolicy rel = contractPolicyToTypes (app_ContainerPolicy (eu_Release ev))"
proof -
  obtain r where r: "resolveLatestRelease X cc appID = Inr r" "rel_ImageDigest rel = ''sha256:'' @ EncodeToString (res_Digest r)"
    "rel_Registry rel = res_Registry r" "rel_EncryptedEnv rel = EncodeToString (res_EncryptedEnv r)"
    "rel_ContainerPolicy rel = res_ContainerPolicy r"
    using assms by (auto simp: GetLatestReleaseAsRelease_def Let_def res_simps EncodeToString_def split: if_splits)
  from resolveLatestRelease_Inr [OF r(1)] r(2-) that show thesis by auto
qed

text \<open>A release whose public environment does not parse is refused; no bytes are not a JSON object.\<close>

lemma empty_public_env_refused:
  assumes "confirmed_upgrade X cc appID ev" "app_PublicEnv (eu_Release ev) = []" "uj_env X [] = None"
    and only: "\<And>e. confirmed_upgrade X cc appID e \<Longrightarrow> e = ev"
  shows "\<not> ok (GetLatestReleaseAsRelease X cc appID)"
proof (cases "resolveLatestRelease X cc appID")
  case (Inl e)
  then show ?thesis by (simp add: GetLatestReleaseAsRelease_def)
next
  case (Inr r)
  from resolveLatestRelease_Inr [OF this] only assms(2,3) show ?thesis by fastforce
qed

text \<open>
  C33. A node that reads releases from the chain answers a request on the on-chain path, other than
  an ECDSA request, only when the attested image has the digest of the single artifact in the
  application's last upgrade event of its confirmed release block, and meets that event's container
  policy. No other digest would have been accepted, and the encrypted environment of the answer is
  the hexadecimal form of the event's.
\<close>

theorem secrets_pinned_to_release:
  assumes served: "handleSecretsRequest L V r sv = (sv', HttpOK resp)" "snd (snd r) = Some req"
    and path: "rq_StackID req = []" "rq_AttestationMethod req \<noteq> ''ecdsa''"
    and chain: "se_GetLatestRelease V = (\<lambda>appID. case GetLatestReleaseAsRelease X cc appID of Inl _ \<Rightarrow> None | Inr rel \<Rightarrow> Some rel)"
  shows "\<exists>claims ev artifact. verified_claims V req = Inr claims \<and> ac_AppID claims = rq_AppID req \<and>
    confirmed_upgrade X cc (rq_AppID req) ev \<and> Artifacts (app_RmsRelease (eu_Release ev)) = [artifact] \<and>
    (\<forall>d. ac_ImageDigest claims = ''sha256:'' @ EncodeToString d \<longleftrightarrow> d = art_Digest artifact) \<and>
    policy_met (ac_ContainerPolicy claims) (contractPolicyToTypes (app_ContainerPolicy (eu_Release ev))) \<and>
    rs_EncryptedEnv resp = EncodeToString (app_EncryptedEnv (eu_Release ev))"
proof -
  from handleSecretsRequest_ok [OF served(1)] served(2) obtain claims release k where h: "verified_claims V req = Inr claims"
    "ac_AppID claims = rq_AppID req" "authorize V req claims = HttpOK release" "seal L V req k release = HttpOK resp" by (metis option.inject)
  have "\<exists>rel. se_GetLatestRelease V (rq_AppID req) = Some rel \<and> release = Some rel \<and> ac_ImageDigest claims = rel_ImageDigest rel \<and>
      policy_met (ac_ContainerPolicy claims) (rel_ContainerPolicy rel)"
    using h(3) path by (auto simp: authorize_def validateContainerPolicy_iff [symmetric] split: option.splits if_splits sum.splits)
  then obtain rel where rel: "GetLatestReleaseAsRelease X cc (rq_AppID req) = Inr rel" "release = Some rel"
    "ac_ImageDigest claims = rel_ImageDigest rel" "policy_met (ac_ContainerPolicy claims) (rel_ContainerPolicy rel)"
    by (auto simp: chain split: sum.splits)
  obtain ev artifact where e: "confirmed_upgrade X cc (rq_AppID req) ev" "Artifacts (app_RmsRelease (eu_Release ev)) = [artifact]"
    "rel_ImageDigest rel = ''sha256:'' @ EncodeToString (art_Digest artifact)"
    "rel_EncryptedEnv rel = EncodeToString (app_EncryptedEnv (eu_Release ev))"
    "rel_ContainerPolicy rel = contractPolicyToTypes (app_ContainerPolicy (eu_Release ev))"
    by (rule GetLatestReleaseAsRelease_Inr [OF rel(1)])
  have "rs_EncryptedEnv resp = rel_EncryptedEnv rel" using h(4) rel(2) by (auto simp: seal_def split: sum.splits option.splits)
  with h e rel show ?thesis by (auto simp: EncodeToString_inj)
qed

subsection \<open>The operator set is the contract's\<close>

lemma GetOperatorSetDetailsForOperator_Inr:
  assumes "GetOperatorSetDetailsForOperator X cc operator avs sid = Inr peer"
  shows "OperatorAddress peer = operator \<and>
    (CurveType peer = CurveTypeECDSA \<and>
       kr_GetECDSAAddress (cc_contracts cc) (HexToAddress X avs, sid) operator = Inr (wpk_ECDSAAddress (peer_WrappedPublicKey peer)) \<or>
     CurveType peer = CurveTypeBN254 \<and>
       (\<exists>k. kr_GetBN254Key (cc_contracts cc) (HexToAddress X avs, sid) operator = Inr k \<and>
          bn254_NewPublicKeyFromSolidity (cc_contracts cc) k = Inr (wpk_PublicKey (peer_WrappedPublicKey peer))))"
  using assms by (auto simp: GetOperatorSetDetailsForOperator_def Let_def res_simps split: if_splits)

theorem operator_set_faithful:
  assumes "GetOperatorSetMembersWithPeering X cc avs sid = Inr ps" "\<And>a. HexToAddress X (addr_String X a) = a"
  shows "am_GetMembers (cc_contracts cc) (HexToAddress X avs, sid) = Inr (map OperatorAddress (Peers ps)) \<and>
    (\<forall>peer \<in> set (Peers ps). CurveType peer = CurveTypeECDSA \<or> CurveType peer = CurveTypeBN254)"
proof -
  obtain members where m: "am_GetMembers (cc_contracts cc) (HexToAddress X avs, sid) = Inr members"
    "map_res (\<lambda>member. GetOperatorSetDetailsForOperator X cc member avs sid) members = Inr (Peers ps)"
    using assms by (auto simp: GetOperatorSetMembersWithPeering_def GetOperatorSetMembers_def res_simps comp_def)
  have "list_all2 (\<lambda>member peer. OperatorAddress peer = member \<and> (CurveType peer = CurveTypeECDSA \<or> CurveType peer = CurveTypeBN254))
      members (Peers ps)"
    using m(2) unfolding map_res_eq_Inr by (rule list_all2_mono) (auto dest: GetOperatorSetDetailsForOperator_Inr)
  then have "map OperatorAddress (Peers ps) = members \<and> (\<forall>peer \<in> set (Peers ps). CurveType peer = CurveTypeECDSA \<or> CurveType peer = CurveTypeBN254)"
    by (induction rule: list_all2_induct) auto
  with m(1) show ?thesis by simp
qed

subsection \<open>Transactions are sent in order and at most once\<close>

context transaction_signer
begin

text \<open>The transaction \<open>sx\<close> went out for \<open>call\<close> in the state \<open>st\<close>.\<close>

definition issued :: "('s, 'z) chain_writer_scheme \<Rightarrow> contract_call \<Rightarrow> 's \<Rightarrow> signed_transaction \<Rightarrow> bool" where
  "issued C call st sx \<longleftrightarrow> (\<exists>txOpts tx. cw_Build C call txOpts st = Inr tx \<and> stands tx st sx)"

lemma transact_ok:
  assumes "cw_Send C = send" "transact C msg txOpts call st = (st', Inr receipt)"
  shows "\<exists>sx. txs st' = txs st @ [sx] \<and> issued C call st sx \<and> rc_Status receipt = 1"
proof -
  obtain tx where tx: "cw_Build C call txOpts st = Inr tx" "send tx st = (st', Inr receipt)"
    using assms(2) unfolding transact_def signAndSendTransaction_def assms(1) by (auto split: sum.splits)
  from send_ok [OF tx(2)] tx(1) show ?thesis unfolding issued_def by blast
qed

lemma transact_failed:
  assumes "cw_Send C = send" "transact C msg txOpts call st = (st', Inl e)"
  shows "txs st' = txs st \<or> (\<exists>sx. txs st' = txs st @ [sx] \<and> issued C call st sx)"
proof (cases "cw_Build C call txOpts st")
  case (Inl e')
  then show ?thesis using assms(2) by (simp add: transact_def)
next
  case (Inr tx)
  then have "send tx st = (st', Inl e)" using assms(2) unfolding transact_def signAndSendTransaction_def assms(1) by simp
  from send_failed [OF this] Inr show ?thesis unfolding issued_def by blast
qed

lemma CreateOperator_sends:
  assumes "cw_Send C = send" "CreateOperator C operator delay uri st = (st', Inr r)"
  shows "if cw_IsOperator C operator st = Inr True then st' = st \<and> r = None
    else \<exists>sx. txs st' = txs st @ [sx] \<and> issued C (CallRegisterAsOperator 0 delay uri) st sx"
proof -
  obtain b where b: "cw_IsOperator C operator st = Inr b"
    using assms(2) by (auto simp: CreateOperator_def with_opts_def split: sum.splits)
  show ?thesis
  proof (cases b)
    case True
    then show ?thesis using assms(2) b by (auto simp: CreateOperator_def with_opts_def split: sum.splits)
  next
    case False
    then obtain txOpts receipt where "transact C ''failed to create transaction'' txOpts (CallRegisterAsOperator 0 delay uri) st = (st', Inr receipt)"
      using assms(2) b by (auto simp: CreateOperator_def with_opts_def split: sum.splits prod.splits)
    from transact_ok [OF assms(1) this] False b show ?thesis by auto
  qed
qed

lemma RegisterOperatorWithAvs_sends:
  assumes "cw_Send C = send" "RegisterOperatorWithAvs C operator avs ids socket st = (st', Inr receipt)"
  shows "\<exists>enc sx. cw_EncodeString C socket = Some enc \<and> txs st' = txs st @ [sx] \<and>
    issued C (CallRegisterForOperatorSets operator avs ids enc) st sx \<and> rc_Status receipt = 1"
proof -
  obtain txOpts enc where "cw_EncodeString C socket = Some enc"
    "transact C ''failed to create transaction'' txOpts (CallRegisterForOperatorSets operator avs ids enc) st = (st', Inr receipt)"
    using assms(2) by (auto simp: RegisterOperatorWithAvs_def with_opts_def split: sum.splits option.splits)
  with transact_ok [OF assms(1)] show ?thesis by blast
qed

lemma create_then_register:
  assumes "cw_Send C = send"
    and "CreateOperatorAndRegisterWithAvs C avs operator ids socket delay uri st = (st', Inr receipt)"
  shows "\<exists>created st1 enc sx. txs st' = txs st @ created @ [sx] \<and> txs st1 = txs st @ created \<and>
    (if cw_IsOperator C operator st = Inr True then created = []
     else \<exists>sx1. created = [sx1] \<and> issued C (CallRegisterAsOperator 0 delay uri) st sx1) \<and>
    cw_EncodeString C socket = Some enc \<and> issued C (CallRegisterForOperatorSets operator avs ids enc) st1 sx"
proof -
  obtain st1 r where r: "CreateOperator C operator delay uri st = (st1, Inr r)"
    "RegisterOperatorWithAvs C operator avs ids socket st1 = (st', Inr receipt)"
    using assms(2) by (auto simp: CreateOperatorAndRegisterWithAvs_def split: prod.splits sum.splits)
  from CreateOperator_sends [OF assms(1) r(1)] RegisterOperatorWithAvs_sends [OF assms(1) r(2)] show ?thesis
    by (auto split: if_splits)
qed

text \<open>Nothing is registered with the AVS when the operator cannot be created.\<close>

lemma create_failed:
  assumes "cw_Send C = send" "CreateOperator C operator delay uri st = (st1, Inl e)"
  shows "CreateOperatorAndRegisterWithAvs C avs operator ids socket delay uri st =
      (st1, Inl (Wrapf ''failed to register as operator'' e)) \<and>
    (txs st1 = txs st \<or> (\<exists>sx. txs st1 = txs st @ [sx] \<and> issued C (CallRegisterAsOperator 0 delay uri) st sx))"
  using assms(2) transact_failed [OF assms(1)]
  by (auto simp: CreateOperatorAndRegisterWithAvs_def CreateOperator_def with_opts_def split: sum.splits prod.splits bool.splits)

end

text \<open>
  With a private key signer: the transactions of a registration are signed by the operator's key,
  the creation, if it is needed, before the registration, each one once.
\<close>

theorem operator_registration:
  assumes "cw_Send C = pks_SignAndSendTransaction N s"
    and "CreateOperatorAndRegisterWithAvs C avs operator ids socket delay uri hist = (hist', Inr receipt)"
  shows "\<exists>created sx. hist' = hist @ created @ [sx] \<and>
    (if cw_IsOperator C operator hist = Inr True then created = []
     else \<exists>sx1 txOpts tx. created = [sx1] \<and> cw_Build C (CallRegisterAsOperator 0 delay uri) txOpts hist = Inr tx \<and> signs_request s tx hist sx1) \<and>
    (\<exists>enc txOpts tx. cw_EncodeString C socket = Some enc \<and>
       cw_Build C (CallRegisterForOperatorSets operator avs ids enc) txOpts (hist @ created) = Inr tx \<and> signs_request s tx (hist @ created) sx)"
  using private_key.create_then_register [OF assms] by (fastforce simp: private_key.issued_def)

text \<open>A caller never has a permission controller, so accepting an admin dereferences a nil pointer.\<close>

theorem AcceptPendingAdmin_panics:
  assumes "NewContractCaller new_binding ChainID ethclient K = Inr cc" "cw_GetTransactOpts C = Inr txOpts"
  shows "AcceptPendingAdmin C cc adminFor st = (st, Inl (Panic ''nil pointer dereference''))"
  using assms by (auto simp: NewContractCaller_def AcceptPendingAdmin_def with_opts_def buildTransactionOpts_def res_simps)

subsection \<open>A release that serves\<close>

text \<open>Two upgrades in block 7, of which the second has the digest of the served image.\<close>

definition mock_upgrade :: "byte \<Rightarrow> nat \<Rightarrow> AppUpgradedEvent" where
  "mock_upgrade b i = \<lparr>eu_App = 10, eu_RmsReleaseId = 1, eu_Release = \<lparr>app_RmsRelease = \<lparr>Artifacts = [\<lparr>art_Digest = [b], art_Registry = []\<rparr>],
     UpgradeByTime = 0\<rparr>, app_PublicEnv = [1], app_EncryptedEnv = [], app_ContainerPolicy = \<lparr>abi_Args = [], abi_CmdOverride = [], abi_Env = [],
     abi_EnvOverride = [], abi_RestartPolicy = []\<rparr>\<rparr>, eu_Index = i, eu_BlockNumber = 7\<rparr>"

definition mock_controller :: AppController where
  "mock_controller = \<lparr>ctl_GetAppCreator = (\<lambda>_. Inr 7), ctl_GetAppOperatorSetId = (\<lambda>_. Inr 0), ctl_GetAppLatestReleaseBlockNumber = (\<lambda>_. Inr 7),
     ctl_GetAppStatus = (\<lambda>_. Inr 1), ctl_FilterAppUpgraded = (\<lambda>a b apps. Inr ([mock_upgrade 1 3, mock_upgrade 170 5], None))\<rparr>"

definition mock_contracts :: contracts where
  "mock_contracts = \<lparr>am_GetMembers = (\<lambda>_. Inr [1, 2]), am_GetAVSRegistrar = (\<lambda>_. Inr 3), reg_NewCaller = (\<lambda>_. Inr ()),
     reg_GetOperatorSocket = (\<lambda>_ _. Inr ''http''), reg_GetAvsConfig = (\<lambda>_. Inr (0, ''url'')), kr_GetOperatorSetCurveType = (\<lambda>_ _. Inr 1),
     kr_GetBN254Key = (\<lambda>_ _. Inr []), kr_GetECDSAAddress = (\<lambda>_ a. Inr a), bn254_NewPublicKeyFromSolidity = (\<lambda>_. Inr [])\<rparr>"

definition mock_caller :: ContractCaller where
  "mock_caller = \<lparr>cc_ethclient = (\<lambda>n. Inr \<lparr>Number = 7, Time = 0\<rparr>), cc_contracts = mock_contracts, cc_appController = Some mock_controller,
     cc_appControllerClient = None, cc_permissionController = None\<rparr>"

definition mock_caller_lib :: caller_lib where
  "mock_caller_lib = \<lparr>HexToAddress = (\<lambda>_. 10), addr_String = (\<lambda>_. ''a''), uj_env = (\<lambda>b. if b = [] then None else Some []), j_env = (\<lambda>_. Some [])\<rparr>"

lemma mock_release:
  "GetLatestReleaseAsRelease mock_caller_lib mock_caller app = Inr (Release_zero\<lparr>rel_ImageDigest := ''sha256:aa''\<rparr>)"
proof -
  have "EncodeToString [170 :: byte] = ''aa''" by code_simp
  then show ?thesis
    by (simp add: GetLatestReleaseAsRelease_def resolveLatestRelease_def getAppController_def GetAppLatestReleaseBlockNumber_def mock_caller_def
        mock_controller_def mock_caller_lib_def mock_upgrade_def last_upgrade_def contractPolicyToTypes_def env_map_def Release_zero_def
        ContainerPolicy_zero_def res_simps)
qed

theorem secrets_pinned_to_release_witness:
  "\<exists>resp claims ev. handleSecretsRequest mock_lib (mock_env 1000) (''POST'', 100, Some gcp_secrets) mock_server =
      (mock_server\<lparr>jtiCache := [(''t1'', 2000)]\<rparr>, HttpOK resp) \<and>
     verified_claims (mock_env 1000) gcp_secrets = Inr claims \<and> confirmed_upgrade mock_caller_lib mock_caller ''0x0a'' ev \<and>
     Artifacts (app_RmsRelease (eu_Release ev)) = [\<lparr>art_Digest = [170], art_Registry = []\<rparr>]"
proof -
  obtain resp where r: "handleSecretsRequest mock_lib (mock_env 1000) (''POST'', 100, Some gcp_secrets) mock_server =
      (mock_server\<lparr>jtiCache := [(''t1'', 2000)]\<rparr>, HttpOK resp)" using gcp_served by blast
  have app: "rq_AppID gcp_secrets = ''0x0a''" "rq_StackID gcp_secrets = []" "rq_AttestationMethod gcp_secrets \<noteq> ''ecdsa''"
    by (simp_all add: gcp_secrets_def)
  have chain: "se_GetLatestRelease (mock_env 1000) =
      (\<lambda>appID. case GetLatestReleaseAsRelease mock_caller_lib mock_caller appID of Inl _ \<Rightarrow> None | Inr rel \<Rightarrow> Some rel)"
    by (simp add: mock_release mock_env_def)
  obtain claims ev artifact where p: "verified_claims (mock_env 1000) gcp_secrets = Inr claims"
    "confirmed_upgrade mock_caller_lib mock_caller ''0x0a'' ev" "Artifacts (app_RmsRelease (eu_Release ev)) = [artifact]"
    using secrets_pinned_to_release [OF r _ app(2,3) chain] app(1) by auto
  then have "ev = mock_upgrade 170 5"
    by (auto simp: confirmed_upgrade_def mock_caller_def mock_controller_def mock_upgrade_def)
  with r p show ?thesis by (auto simp: mock_upgrade_def)
qed

end
