(* ===== verification/Server_Routes.thy ===== *)
theory Server_Routes
  imports Secrets_Handlers
begin

text \<open>
  The routes of \<open>pkg/node/server.go\<close> and their middleware: the limit on the size of a body, the limit
  on concurrent requests, the token bucket, and the server's life. The token bucket is a function of
  its library. The theorems: no endpoint serves more requests at a time than its limit; a refused
  request takes no slot; and the size limit of the secrets endpoint refuses requests whose fields are
  all within their own limits.
\<close>

subsection \<open>Middleware\<close>

text \<open>A body longer than the limit does not decode.\<close>

definition maxBodySize ::
  "nat \<Rightarrow> (string \<times> nat \<times> 'b option \<Rightarrow> 's \<Rightarrow> 's \<times> 'a response) \<Rightarrow> string \<times> nat \<times> 'b option \<Rightarrow> 's \<Rightarrow> 's \<times> 'a response" where
  "maxBodySize maxBytes handler r st =
     (case r of (meth, bodyLen, body) \<Rightarrow> handler (meth, bodyLen, if bodyLen > maxBytes then None else body) st)"

text \<open>What a route keeps between requests: its token bucket and the slots taken.\<close>

record 'l gate =
  limiter :: 'l
  in_flight :: nat

record route =
  rt_limit :: "nat option"
  rt_rate :: "(int \<times> int) option"
  rt_concurrent :: "nat option"

text \<open>
  A request arrives: the bucket is asked first, then a slot is taken, when the route has them. The
  answer is the status of a refusal, or none for a request that the handler gets. A handler that
  returns gives its slot back.
\<close>

definition rateLimited :: "('l \<Rightarrow> 'l \<times> bool) \<Rightarrow> ('l gate \<Rightarrow> 'l gate \<times> nat option) \<Rightarrow> 'l gate \<Rightarrow> 'l gate \<times> nat option" where
  "rateLimited allow handler g =
     (case allow (limiter g) of
        (l, False) \<Rightarrow> (g\<lparr>limiter := l\<rparr>, Some 429)
      | (l, True) \<Rightarrow> handler (g\<lparr>limiter := l\<rparr>))"

definition concurrencyLimit :: "nat \<Rightarrow> 'l gate \<Rightarrow> 'l gate \<times> nat option" where
  "concurrencyLimit maxConcurrent g =
     (if in_flight g < maxConcurrent then (g\<lparr>in_flight := in_flight g + 1\<rparr>, None) else (g, Some 503))"

definition finished :: "'l gate \<Rightarrow> 'l gate" where
  "finished g = g\<lparr>in_flight := in_flight g - 1\<rparr>"

definition arrive :: "('l \<Rightarrow> 'l \<times> bool) \<Rightarrow> route \<Rightarrow> 'l gate \<Rightarrow> 'l gate \<times> nat option" where
  "arrive allow rt g =
     (let slot = (case rt_concurrent rt of None \<Rightarrow> (\<lambda>g. (g, None)) | Some n \<Rightarrow> concurrencyLimit n) in
      case rt_rate rt of None \<Rightarrow> slot g | Some _ \<Rightarrow> rateLimited allow slot g)"

subsection \<open>The routes\<close>

definition peer_route :: "nat \<Rightarrow> route" where
  "peer_route n = \<lparr>rt_limit = Some n, rt_rate = None, rt_concurrent = None\<rparr>"

definition NewServer_routes :: "(string \<times> route) list" where
  "NewServer_routes =
     [(''/dkg/share'', peer_route (64 * 1024)), (''/dkg/commitment'', peer_route (256 * 1024)), (''/dkg/ack'', peer_route (64 * 1024)),
      (''/dkg/broadcast'', peer_route (1024 * 1024)), (''/reshare/share'', peer_route (64 * 1024)),
      (''/reshare/share/request'', peer_route (64 * 1024)), (''/reshare/commitment'', peer_route (256 * 1024)),
      (''/reshare/ack'', peer_route (64 * 1024)),
      (''/app/sign'', \<lparr>rt_limit = Some (16 * 1024), rt_rate = Some (50, 100), rt_concurrent = Some 20\<rparr>),
      (''/secrets'', \<lparr>rt_limit = Some (2 * 1024 * 1024), rt_rate = Some (10, 20), rt_concurrent = Some 10\<rparr>),
      (''/pubkey'', \<lparr>rt_limit = None, rt_rate = None, rt_concurrent = None\<rparr>)]"

definition secrets_route ::
  "('f, 'g1, 'g2, 'gt) lib \<Rightarrow> 'k sec_env \<Rightarrow> secrets_request \<Rightarrow> ('s, 'f) Server \<Rightarrow> ('s, 'f) Server \<times> SecretsResponseV1 response" where
  "secrets_route L V = maxBodySize (2 * 1024 * 1024) (handleSecretsRequest L V)"

text \<open>
  The life of the server: whether it listens, whether the clean-up runs, whether the channel that
  stops the clean-up is closed (at most once) and the HTTP server with it. After that the clean-up
  returns at once, and so does \<open>ListenAndServe\<close>.
\<close>

record server_life =
  listening :: bool
  cleaning :: bool
  stop_closed :: bool

definition Server_Start :: "server_life \<Rightarrow> server_life" where
  "Server_Start s = (if stop_closed s then s else s\<lparr>listening := True, cleaning := True\<rparr>)"

definition Server_Stop :: "server_life \<Rightarrow> server_life" where
  "Server_Stop s = s\<lparr>stop_closed := True, cleaning := False, listening := False\<rparr>"

subsection \<open>How many requests are served at a time\<close>

text \<open>
  The histories of one route: requests arrive and served ones finish, in any order. \<open>active\<close> counts
  the requests that the handler has and has not returned from.
\<close>

inductive route_run :: "('l \<Rightarrow> 'l \<times> bool) \<Rightarrow> route \<Rightarrow> 'l gate \<Rightarrow> nat \<Rightarrow> bool" for allow rt where
  start: "in_flight g = 0 \<Longrightarrow> route_run allow rt g 0"
| admitted: "route_run allow rt g active \<Longrightarrow> arrive allow rt g = (g', None) \<Longrightarrow> route_run allow rt g' (active + 1)"
| refused: "route_run allow rt g active \<Longrightarrow> arrive allow rt g = (g', Some status) \<Longrightarrow> route_run allow rt g' active"
| returned: "route_run allow rt g (active + 1) \<Longrightarrow> route_run allow rt (finished g) active"

lemma arrive_cases:
  assumes "arrive allow rt g = (g', r)" "rt_concurrent rt = Some n"
  shows "if r = None then in_flight g < n \<and> in_flight g' = in_flight g + 1 else in_flight g' = in_flight g \<and> r \<in> {Some 429, Some 503}"
  using assms
  by (auto simp: arrive_def rateLimited_def concurrencyLimit_def Let_def split: option.splits prod.splits bool.splits if_splits)

theorem concurrency_bounded:
  assumes "route_run allow rt g active" "rt_concurrent rt = Some n"
  shows "active \<le> n \<and> in_flight g = active"
  using assms
proof induction
  case (admitted g active g')
  from arrive_cases [OF admitted.hyps(2) admitted.prems] admitted.IH [OF admitted.prems] show ?case by auto
next
  case (refused g active g' status)
  from arrive_cases [OF refused.hyps(2) refused.prems] refused.IH [OF refused.prems] show ?case by auto
qed (auto simp: finished_def)

text \<open>A full route refuses, and one that has a free slot and a token does not.\<close>

lemma arrive_full:
  "rt_concurrent rt = Some n \<Longrightarrow> in_flight g \<ge> n \<Longrightarrow> \<exists>g' status. arrive allow rt g = (g', Some status)"
  by (auto simp: arrive_def rateLimited_def concurrencyLimit_def Let_def split: option.splits prod.splits bool.splits)

lemma arrive_free:
  "rt_concurrent rt = Some n \<Longrightarrow> in_flight g < n \<Longrightarrow> snd (allow (limiter g)) \<Longrightarrow> snd (arrive allow rt g) = None"
  by (auto simp: arrive_def rateLimited_def concurrencyLimit_def Let_def split: option.splits prod.splits)

theorem secrets_at_most_ten:
  assumes "route_run allow (the (gm_get NewServer_routes ''/secrets'')) g active"
  shows "active \<le> 10"
  using concurrency_bounded [OF assms, of 10] by (simp add: NewServer_routes_def)

text \<open>Stopping twice is stopping once, and a stopped server does not start again.\<close>

lemma Server_Stop_final: "Server_Stop (Server_Stop s) = Server_Stop s" "Server_Start (Server_Stop s) = Server_Stop s"
  by (simp_all add: Server_Stop_def Server_Start_def)

subsection \<open>The size of a secrets request\<close>

text \<open>\<open>encoding/json\<close> writes byte slices in base64: four characters for every three bytes begun.\<close>

definition base64_len :: "nat \<Rightarrow> nat" where
  "base64_len n = 4 * ((n + 2) div 3)"

text \<open>The body holds at least the two big fields in that form.\<close>

definition fields_fit :: "nat \<Rightarrow> SecretsRequestV1 \<Rightarrow> bool" where
  "fields_fit bodyLen req \<longleftrightarrow> base64_len (length (rq_ExtraData req)) + base64_len (length (rq_CCInitData req)) \<le> bodyLen"

lemma secrets_route_too_large:
  assumes "bodyLen > 2 * 1024 * 1024"
  shows "secrets_route L V (''POST'', bodyLen, body) sv = (sv, HttpError 400 ''Failed to parse request'')"
  using assms by (simp add: secrets_route_def maxBodySize_def handleSecretsRequest_def verify_request_def)

theorem permitted_request_refused:
  assumes "fields_fit bodyLen req" "length (rq_ExtraData req) = MaxExtraDataSize" "length (rq_CCInitData req) = MaxExtraDataSize"
  shows "secrets_route L V (''POST'', bodyLen, Some req) sv = (sv, HttpError 400 ''Failed to parse request'')"
  using assms by (intro secrets_route_too_large) (simp add: fields_fit_def base64_len_def MaxExtraDataSize_def)

lemma permitted_request:
  "validate_fields (sv_node mock_server)
     (gcp_secrets\<lparr>rq_ExtraData := replicate MaxExtraDataSize 0, rq_CCInitData := replicate MaxExtraDataSize 0\<rparr>) = HttpOK ()"
  by (simp add: validate_fields_def gcp_secrets_def app_allowed_def mock_server_def new_node_def MaxAttestationSize_def)

text \<open>A body within the limit of the route reaches the handler unchanged.\<close>

lemma secrets_route_small:
  "bodyLen \<le> 2 * 1024 * 1024 \<Longrightarrow> secrets_route L V (meth, bodyLen, body) sv = handleSecretsRequest L V (meth, bodyLen, body) sv"
  by (simp add: secrets_route_def maxBodySize_def)

end
