(* ===== verification/Kms_Client.thy ===== *)
theory Kms_Client
  imports Secrets_Handlers Recovery Ibe
begin

text \<open>
  The client library (\<open>pkg/clients/kmsClient/client.go\<close>): the vote on the master public key,
  encryption, the collection of partial signatures and decryption. The theorems: the client decrypts in
  spite of faulty operators, within the cap of attempts; what the vote guarantees, and that it can be
  bypassed when too few operators take part, so that a master public key is a \<open>voted_key\<close> or a
  \<open>summed_key\<close>.
\<close>

subsection \<open>HTTP\<close>

text \<open>
  What a request gives: a transport error, or a status with the decoded body, which is \<open>None\<close> when it
  does not decode. The record holds what each endpoint of each address answers to a request during
  one operation, which calls each of them at most once.
\<close>

datatype 'b http_reply = ContactFailed | Answered nat "'b option"

definition body_of :: "'b http_reply \<Rightarrow> 'b option" where
  "body_of r = (case r of ContactFailed \<Rightarrow> None | Answered status body \<Rightarrow> if status \<noteq> 200 then None else body)"

type_synonym pubkey_response = "string \<times> G2Point list \<times> G2Point option \<times> int64 \<times> bool"

record http =
  http_pubkey :: "string \<Rightarrow> pubkey_response http_reply"
  http_sign :: "string \<Rightarrow> string \<times> int64 \<Rightarrow> (string \<times> G1Point) http_reply"
  http_secrets :: "string \<Rightarrow> SecretsRequestV1 \<Rightarrow> SecretsResponseV1 http_reply"

text \<open>
  The goroutines of an operation send their results to a channel; \<open>arrival\<close> is the order in which the
  results of one operation arrive.
\<close>

definition collected :: "('b list \<Rightarrow> 'b list) \<Rightarrow> (OperatorSetPeer \<Rightarrow> 'b option) \<Rightarrow> OperatorSetPeer list \<Rightarrow> 'b list" where
  "collected arrival result peers = arrival (List.map_filter result peers)"

subsection \<open>The client\<close>

type_synonym contract_caller = "string \<Rightarrow> nat \<Rightarrow> OperatorSetPeers res"

record ClientConfig =
  cc_AVSAddress :: string
  cc_OperatorSetID :: nat
  cc_Logger :: "unit option"
  cc_ContractCaller :: "contract_caller option"
  cc_HTTPClient :: "http option"

record Client =
  avsAddress :: string
  operatorSetID :: nat
  contractCaller :: contract_caller
  httpClient :: http

definition NewClient :: "http \<Rightarrow> ClientConfig option \<Rightarrow> Client res" where
  "NewClient defaultClient config =
     (case config of
        None \<Rightarrow> Inl (Errorf ''config cannot be nil'')
      | Some config \<Rightarrow>
          if cc_AVSAddress config = [] then Inl (Errorf ''AVS address is required'')
          else if cc_Logger config = None then Inl (Errorf ''logger is required'')
          else (case cc_ContractCaller config of
            None \<Rightarrow> Inl (Errorf ''contract caller is required'')
          | Some caller \<Rightarrow>
              Inr \<lparr>avsAddress = cc_AVSAddress config, operatorSetID = cc_OperatorSetID config, contractCaller = caller,
                httpClient = (case cc_HTTPClient config of None \<Rightarrow> defaultClient | Some h \<Rightarrow> h)\<rparr>))"

definition GetOperators :: "Client \<Rightarrow> OperatorSetPeers res" where
  "GetOperators c =
     bind_res (wrap_err ''failed to get operators from chain'' (contractCaller c (avsAddress c) (operatorSetID c))) (\<lambda>operators.
     if Peers operators = [] then Inl (Errorf ''no operators found'') else Inr operators)"

subsection \<open>The master public key\<close>

text \<open>
  The commitments, the key and the name of an operator that answers with an active version; the votes
  for each key, by its hexadecimal text, and their numbers.
\<close>

type_synonym pub_result = "G2Point list \<times> G2Point option \<times> string"

definition pub_result :: "http \<Rightarrow> OperatorSetPeer \<Rightarrow> pub_result option" where
  "pub_result H op =
     (case body_of (http_pubkey H (SocketAddress op @ ''/pubkey'')) of
        None \<Rightarrow> None
      | Some (operatorAddress, cs, mpk, version, isActive) \<Rightarrow>
          if \<not> isActive then None else if length cs = 0 then None else Some (cs, mpk, operatorAddress))"

definition mpk_vote :: "('f, 'g1, 'g2, 'gt) lib \<Rightarrow> pub_result \<Rightarrow> G2Point option" where
  "mpk_vote L res =
     (case fst (snd res) of
        None \<Rightarrow> None
      | Some mpk \<Rightarrow>
          if \<not> length (g2_CompressedBytes mpk) > 0 then None
          else if \<not> ok (G2PointFromCompressedBytes L (g2_CompressedBytes mpk)) then None
          else Some mpk)"

definition mpk_votes :: "('f, 'g1, 'g2, 'gt) lib \<Rightarrow> pub_result list \<Rightarrow> (string, G2Point) gomap \<times> (string, nat) gomap" where
  "mpk_votes L results =
     fold (\<lambda>res (mpkVotes, mpkCounts).
       case mpk_vote L res of
         None \<Rightarrow> (mpkVotes, mpkCounts)
       | Some mpk \<Rightarrow>
           let key = EncodeToString (g2_CompressedBytes mpk) in
           (gm_set mpkVotes key mpk, gm_set mpkCounts key ((case gm_get mpkCounts key of None \<Rightarrow> 0 | Some n \<Rightarrow> n) + 1))) results ([], [])"

text \<open>\<open>order\<close> is the order in which the map of counts is visited.\<close>

definition GetMasterPublicKey ::
  "('f, 'g1, 'g2, 'gt) lib \<Rightarrow> http \<Rightarrow> (pub_result list \<Rightarrow> pub_result list) \<Rightarrow> ((string, nat) gomap \<Rightarrow> (string, nat) gomap) \<Rightarrow>
   OperatorSetPeers option \<Rightarrow> G2Point res" where
  "GetMasterPublicKey L H arrival order operators =
     (case operators of
        None \<Rightarrow> Inl (Errorf ''no operators provided'')
      | Some ops \<Rightarrow>
          if Peers ops = [] then Inl (Errorf ''no operators provided'')
          else
            let results = collected arrival (pub_result H) (Peers ops);
                allCommitments = map fst results;
                (mpkVotes, mpkCounts) = mpk_votes L results;
                threshold = CalculateThreshold (int (length (Peers ops)));
                mpkRespondents = sum_list (map snd mpkCounts)
            in
            if results = [] then Inl (Errorf ''failed to collect commitments from any operator'')
            else if mpkCounts \<noteq> [] \<and> int mpkRespondents \<ge> threshold then
              (case List.find (\<lambda>(_, n). int n \<ge> threshold) (order mpkCounts) of
                 Some (key, _) \<Rightarrow> lib_res ''map read'' (gm_get mpkVotes key)
               | None \<Rightarrow> Inl (Errorf ''failed to reach threshold agreement on master public key''))
            else wrap_err ''failed to compute master public key'' (ComputeMasterPublicKey L allCommitments))"

subsection \<open>Encryption\<close>

text \<open>\<open>r\<close> and \<open>nonce\<close> are the random values of the encryption.\<close>

definition client_Encrypt ::
  "('f, 'g1, 'g2, 'gt) lib \<Rightarrow> aead \<Rightarrow> 'f option \<Rightarrow> bytes option \<Rightarrow> http \<Rightarrow> (pub_result list \<Rightarrow> pub_result list) \<Rightarrow>
   ((string, nat) gomap \<Rightarrow> (string, nat) gomap) \<Rightarrow> string \<Rightarrow> bytes \<Rightarrow> OperatorSetPeers option \<Rightarrow> bytes res" where
  "client_Encrypt L A r nonce H arrival order appID plaintext operators =
     (if appID = [] then Inl (Errorf ''app ID is required'')
      else if length plaintext = 0 then Inl (Errorf ''data to encrypt is required'')
      else
        bind_res (wrap_err ''failed to get master public key'' (GetMasterPublicKey L H arrival order operators)) (\<lambda>masterPubKey.
        wrap_err ''failed to encrypt data'' (EncryptForApp L A r nonce appID masterPubKey plaintext)))"

definition client_EncryptForApp ::
  "('f, 'g1, 'g2, 'gt) lib \<Rightarrow> aead \<Rightarrow> 'f option \<Rightarrow> bytes option \<Rightarrow> Client \<Rightarrow> (pub_result list \<Rightarrow> pub_result list) \<Rightarrow>
   ((string, nat) gomap \<Rightarrow> (string, nat) gomap) \<Rightarrow> string \<Rightarrow> bytes \<Rightarrow> bytes res" where
  "client_EncryptForApp L A r nonce c arrival order appID plaintext =
     bind_res (wrap_err ''failed to get operators'' (GetOperators c)) (\<lambda>operators.
     bind_res (wrap_err ''failed to get master public key'' (GetMasterPublicKey L (httpClient c) arrival order (Some operators))) (\<lambda>masterPubKey.
     EncryptForApp L A r nonce appID masterPubKey plaintext))"

definition GetPublicKeyForApp ::
  "('f, 'g1, 'g2, 'gt) lib \<Rightarrow> Client \<Rightarrow> (pub_result list \<Rightarrow> pub_result list) \<Rightarrow> ((string, nat) gomap \<Rightarrow> (string, nat) gomap) \<Rightarrow>
   string \<Rightarrow> (G1Point \<times> G2Point) res" where
  "GetPublicKeyForApp L c arrival order appID =
     (if appID = [] then Inl (Errorf ''app ID is required'')
      else
        bind_res (wrap_err ''failed to get operators'' (GetOperators c)) (\<lambda>operators.
        bind_res (wrap_err ''failed to get master public key'' (GetMasterPublicKey L (httpClient c) arrival order (Some operators))) (\<lambda>masterPubKey.
        bind_res (wrap_err ''failed to compute app public key'' (GetAppPublicKey L appID)) (\<lambda>appPubKey.
        Inr (appPubKey, masterPubKey)))))"

subsection \<open>Partial signatures\<close>

text \<open>
  \<open>strings.EqualFold\<close>, for texts of which one has only hexadecimal digits and an \<open>x\<close>: no other
  character folds to one of these. \<open>Hex\<close> is \<open>common.Address.Hex\<close>.
\<close>

definition EqualFold :: "string \<Rightarrow> string \<Rightarrow> bool" where
  "EqualFold s t \<longleftrightarrow> ToLower s = ToLower t"

definition sign_result ::
  "('f, 'g1, 'g2, 'gt) lib \<Rightarrow> (address \<Rightarrow> string) \<Rightarrow> http \<Rightarrow> string \<Rightarrow> int64 \<Rightarrow> OperatorSetPeer \<Rightarrow> (address \<times> G1Point) option" where
  "sign_result L Hex H appID attestationTime op =
     (case body_of (http_sign H (SocketAddress op @ ''/app/sign'') (appID, attestationTime)) of
        None \<Rightarrow> None
      | Some (operatorAddress, partialSignature) \<Rightarrow>
          (case G1_IsZero L partialSignature of
             Inl _ \<Rightarrow> None
           | Inr isZero \<Rightarrow>
               if isZero then None
               else if \<not> EqualFold operatorAddress (Hex (OperatorAddress op)) then None
               else Some (OperatorAddress op, partialSignature)))"

definition collectPartialSignaturesForDecrypt ::
  "('f, 'g1, 'g2, 'gt) lib \<Rightarrow> (address \<Rightarrow> string) \<Rightarrow> http \<Rightarrow> ((address \<times> G1Point) list \<Rightarrow> (address \<times> G1Point) list) \<Rightarrow> string \<Rightarrow>
   OperatorSetPeers \<Rightarrow> int64 \<Rightarrow> int \<Rightarrow> (address, G1Point) gomap res" where
  "collectPartialSignaturesForDecrypt L Hex H arrival appID operators attestationTime threshold =
     (let results = collected arrival (sign_result L Hex H appID attestationTime) (Peers operators);
          partialSigs = fold (\<lambda>(operatorAddr, signature) m. gm_set m operatorAddr signature) results []
      in if int (length partialSigs) < threshold then Inl (Errorf ''insufficient partial signatures'') else Inr partialSigs)"

definition CollectPartialSignatures ::
  "('f, 'g1, 'g2, 'gt) lib \<Rightarrow> (address \<Rightarrow> string) \<Rightarrow> http \<Rightarrow> ((address \<times> G1Point) list \<Rightarrow> (address \<times> G1Point) list) \<Rightarrow> string \<Rightarrow>
   OperatorSetPeers option \<Rightarrow> int \<Rightarrow> (address, G1Point) gomap res" where
  "CollectPartialSignatures L Hex H arrival appID operators threshold =
     (if appID = [] then Inl (Errorf ''app ID is required'')
      else case operators of
        None \<Rightarrow> Inl (Errorf ''no operators provided'')
      | Some ops \<Rightarrow>
          if Peers ops = [] then Inl (Errorf ''no operators provided'')
          else if threshold \<le> 0 then Inl (Errorf ''threshold must be positive'')
          else
            let results = collected arrival (sign_result L Hex H appID 0) (Peers ops);
                partialSigs = fold (\<lambda>(operatorAddr, signature) m. gm_set m operatorAddr signature) results []
            in if int (length partialSigs) < threshold then Inl (Errorf ''insufficient partial signatures'') else Inr partialSigs)"

subsection \<open>Decryption\<close>

text \<open>The plaintext is that of the candidate that validates last, which is the key that is returned.\<close>

definition decryptWithRetry ::
  "('f :: field, 'g1, 'g2, 'gt) lib \<Rightarrow> aead \<Rightarrow> string \<Rightarrow> (address, G1Point) gomap \<Rightarrow> int \<Rightarrow> bytes \<Rightarrow> bytes res" where
  "decryptWithRetry L A appID partialSigs threshold ciphertext =
     bind_res (wrap_err ''invalid ciphertext'' (ValidateCiphertextFormat ciphertext)) (\<lambda>_.
     bind_res (RecoverAppPrivateKeyWithRetry L appID partialSigs threshold (\<lambda>candidate. ok (DecryptForApp L A appID candidate ciphertext)))
       (\<lambda>key. DecryptForApp L A appID key ciphertext))"

definition client_Decrypt ::
  "('f :: field, 'g1, 'g2, 'gt) lib \<Rightarrow> aead \<Rightarrow> (address \<Rightarrow> string) \<Rightarrow> http \<Rightarrow> ((address \<times> G1Point) list \<Rightarrow> (address \<times> G1Point) list) \<Rightarrow>
   string \<Rightarrow> bytes \<Rightarrow> OperatorSetPeers option \<Rightarrow> int \<Rightarrow> bytes res" where
  "client_Decrypt L A Hex H arrival appID encryptedData operators threshold =
     (if appID = [] then Inl (Errorf ''app ID is required'')
      else if length encryptedData = 0 then Inl (Errorf ''encrypted data is required'')
      else case operators of
        None \<Rightarrow> Inl (Errorf ''no operators provided'')
      | Some ops \<Rightarrow>
          if Peers ops = [] then Inl (Errorf ''no operators provided'')
          else
            let threshold = (if threshold = 0 then go_div (2 * int (length (Peers ops)) + 2) 3 else threshold) in
            bind_res (wrap_err ''failed to collect partial signatures'' (CollectPartialSignatures L Hex H arrival appID operators threshold))
              (\<lambda>partialSigs. wrap_err ''failed to decrypt data'' (decryptWithRetry L A appID partialSigs threshold encryptedData)))"

definition client_DecryptForApp ::
  "('f :: field, 'g1, 'g2, 'gt) lib \<Rightarrow> aead \<Rightarrow> (address \<Rightarrow> string) \<Rightarrow> Client \<Rightarrow> ((address \<times> G1Point) list \<Rightarrow> (address \<times> G1Point) list) \<Rightarrow>
   string \<Rightarrow> bytes \<Rightarrow> int64 \<Rightarrow> bytes res" where
  "client_DecryptForApp L A Hex c arrival appID ciphertext attestationTime =
     bind_res (wrap_err ''failed to get operators'' (GetOperators c)) (\<lambda>operators.
     let threshold = CalculateThreshold (int (length (Peers operators))) in
     bind_res (wrap_err ''failed to collect partial signatures''
       (collectPartialSignaturesForDecrypt L Hex (httpClient c) arrival appID operators attestationTime threshold)) (\<lambda>partialSigs.
     decryptWithRetry L A appID partialSigs threshold ciphertext))"

subsection \<open>The collected results\<close>

lemma update_new: "k \<notin> fst ` set m \<Longrightarrow> gm_set m k v = m @ [(k, v)]"
  by (induction m) auto

lemma fold_set_distinct:
  assumes "distinct (map fst m @ map fst rs)"
  shows "fold (\<lambda>(a, x) m. gm_set m a x) rs m = m @ rs"
  using assms
proof (induction rs arbitrary: m)
  case (Cons r rs)
  obtain a x where r: "r = (a, x)" by (cases r)
  have "a \<notin> fst ` set m" using Cons.prems r by (auto simp: image_iff)
  then have "gm_set m a x = m @ [(a, x)]" by (rule update_new)
  moreover have "distinct (map fst (m @ [(a, x)]) @ map fst rs)" using Cons.prems r by simp
  ultimately show ?case using Cons.IH [of "m @ [(a, x)]"] r by simp
qed simp

lemma map_filter_distinct:
  assumes "distinct (map f xs)" "\<And>x y. g x = Some y \<Longrightarrow> h y = f x"
  shows "distinct (map h (List.map_filter g xs))"
  using assms(1)
proof (induction xs)
  case (Cons x xs)
  have "h ` set (List.map_filter g xs) \<subseteq> f ` set xs" using assms(2) by (force simp: List.map_filter_def)
  then show ?case using Cons assms(2) by (auto simp: map_filter_simps split: option.splits)
qed (simp add: map_filter_simps)

lemma set_map_filter: "set (List.map_filter f xs) = {y. \<exists>x \<in> set xs. f x = Some y}"
  by (force simp: List.map_filter_def)

lemma collected_distinct:
  assumes "\<And>xs. mset (arrival xs) = mset xs" "distinct (map f xs)" "\<And>x y. g x = Some y \<Longrightarrow> h y = f x"
  shows "distinct (map h (collected arrival g xs))" "set (collected arrival g xs) = {y. \<exists>x \<in> set xs. g x = Some y}"
    "length (collected arrival g xs) \<le> length xs"
proof -
  have m: "mset (collected arrival g xs) = mset (List.map_filter g xs)" unfolding collected_def by (rule assms(1))
  then have "mset (map h (collected arrival g xs)) = mset (map h (List.map_filter g xs))" by simp
  from mset_eq_imp_distinct_iff [OF this] show "distinct (map h (collected arrival g xs))"
    using map_filter_distinct [of f xs g h, OF assms(2)] assms(3) by simp
  show "set (collected arrival g xs) = {y. \<exists>x \<in> set xs. g x = Some y}" using mset_eq_setD [OF m] by (simp only: set_map_filter)
  have "length (collected arrival g xs) = length (List.map_filter g xs)" using m by (rule mset_eq_length)
  then show "length (collected arrival g xs) \<le> length xs" using map_filter_length [of g xs] by simp
qed

subsection \<open>Decryption in spite of faulty operators\<close>

text \<open>
  An operator answers as its node does: the node holds the operator's share of the polynomial and
  allows the application, and the reply is what its handler gives.
\<close>

definition reply_of :: "'b response \<Rightarrow> 'b http_reply" where
  "reply_of r = (case r of HttpOK b \<Rightarrow> Answered 200 (Some b) | HttpError status _ \<Rightarrow> Answered status None)"

definition honest_signer ::
  "('f :: field, 'g1, 'g2, 'gt) lib \<Rightarrow> (address \<Rightarrow> string) \<Rightarrow> http \<Rightarrow> string \<Rightarrow> 'f list \<Rightarrow> OperatorSetPeer \<Rightarrow> ('s, 'f) KmsNode \<Rightarrow> bool" where
  "honest_signer L Hex H appID F op n \<longleftrightarrow>
     n_OperatorAddress n = Hex (OperatorAddress op) \<and> app_allowed n appID \<and>
     (\<exists>r. GetActiveVersion (n_keyStore n) = Some r \<and>
        PrivateShare (objs (n_keyStore n) r) = Some (peval F (AddressToFr L (OperatorAddress op)))) \<and>
     http_sign H (SocketAddress op @ ''/app/sign'') (appID, 0) = reply_of (handleAppSign L ''POST'' (Some (appID, 0)) n)"

lemma honest_sign_result:
  assumes L: "curve_laws L" and h: "HashToG1 L appID = Inr (enc1 L h)" "h \<noteq> 0" and app: "appID \<noteq> []"
    and op: "honest_signer L Hex H appID F op n" "peval F (AddressToFr L (OperatorAddress op)) \<noteq> 0"
  shows "sign_result L Hex H appID 0 op =
    Some (OperatorAddress op, enc1 L (peval F (AddressToFr L (OperatorAddress op)) * h))"
proof -
  note G = curve_lawsD [OF L]
  let ?x = "peval F (AddressToFr L (OperatorAddress op))"
  obtain r where r: "GetActiveVersion (n_keyStore n) = Some r" "PrivateShare (objs (n_keyStore n) r) = Some ?x"
    using op(1) by (auto simp: honest_signer_def)
  have "SignAppID L (n_keyStore n) appID 0 = Inr (enc1 L (?x * h))"
    using SignAppID_active [OF r h(1)] by (simp add: G ScalarMulG1_den)
  then have "handleAppSign L ''POST'' (Some (appID, 0)) n = HttpOK (n_OperatorAddress n, enc1 L (?x * h))"
    using op(1) app by (simp add: handleAppSign_def honest_signer_def)
  moreover have "G1_IsZero L (enc1 L (?x * h)) = Inr False"
    using G1_IsZero_den [OF G(1) den1_intros(1) [OF G(1)]] h(2) op(2) by simp
  ultimately show ?thesis using op(1) by (simp add: sign_result_def honest_signer_def reply_of_def body_of_def EqualFold_def)
qed

text \<open>The retries find a key when some subset gives one.\<close>

lemma retry_finds:
  assumes "gm_ok sigs" "0 \<le> t" "length sigs choose nat t \<le> DefaultMaxRecoveryAttempts"
    and S: "S \<subseteq> set (gm_keys sigs)" "card S = nat t" "validate key"
      "RecoverAppPrivateKey L appID (filter (\<lambda>(a, _). a \<in> S) sigs) t = Inr key"
  shows "\<exists>k. RecoverAppPrivateKeyWithRetry L appID sigs t validate = Inr k \<and> validate k"
proof -
  have "t \<le> int (length sigs)"
    using S(2) card_mono [OF _ S(1)] card_length [of "gm_keys sigs"] assms(2) by simp
  note retry = recover_with_retry [OF assms(1,2) this assms(3), where L = L and appID = appID and validate = validate]
  show ?thesis
  proof (cases "RecoverAppPrivateKeyWithRetry L appID sigs t validate")
    case (Inl e)
    then have "\<not> (\<exists>S \<subseteq> set (gm_keys sigs). \<exists>key. card S = nat t \<and> validate key \<and>
        RecoverAppPrivateKey L appID (filter (\<lambda>(a, _). a \<in> S) sigs) t = Inr key)" using retry by simp
    then show ?thesis using S by blast
  next
    case (Inr k)
    then show ?thesis using retry by simp
  qed
qed

text \<open>
  From signatures of which threshold many are honest, the retries find a key that opens the
  ciphertext, within the cap of attempts or when all signatures are honest; a key that opens it to
  something else comes from a subset with a faulty signature.
\<close>

lemma honest_subset_key:
  assumes L: "curve_laws L" and sigs: "distinct (map (AddressToFr L) (gm_keys sigs))"
    and t: "0 < t" "int (length F) \<le> t" and q: "HashToG1 L appID = Inr (enc1 L h)" "h \<noteq> 0" "peval F 0 \<noteq> 0"
    and S: "S \<subseteq> set (gm_keys sigs)" "card S = nat t"
      "\<And>a p. a \<in> S \<Longrightarrow> (a, p) \<in> set sigs \<Longrightarrow> p = enc1 L (peval F (AddressToFr L a) * h)"
  shows "RecoverAppPrivateKey L appID (filter (\<lambda>(a, _). a \<in> S) sigs) t = Inr (enc1 L (peval F 0 * h))"
proof -
  note G = curve_lawsD [OF L]
  have ok: "gm_ok sigs" using sigs unfolding distinct_map [of "AddressToFr L"] gm_ok_def by simp
  let ?sub = "filter (\<lambda>(a, _). a \<in> S) sigs"
  have keys: "gm_keys ?sub = filter (\<lambda>a. a \<in> S) (gm_keys sigs)" by (induction sigs) auto
  have d: "distinct (map (AddressToFr L) (gm_keys ?sub))"
    using sigs unfolding keys distinct_map [of "AddressToFr L"] by (auto intro: inj_on_subset)
  have len: "length (gm_keys ?sub) = nat t"
  proof -
    have "distinct (gm_keys ?sub)" using ok unfolding keys gm_ok_def by simp
    moreover have "set (gm_keys ?sub) = S" using S(1) unfolding keys by auto
    ultimately show ?thesis using S(2) distinct_card by metis
  qed
  define sig where "sig a = enc1 L (peval F (AddressToFr L a) * h)" for a
  have "((\<lambda>a. (a, sig a)) \<circ> fst) x = x" if "x \<in> set ?sub" for x using S(3) that by (cases x) (auto simp: sig_def)
  then have "map (\<lambda>a. (a, sig a)) (gm_keys ?sub) = ?sub" unfolding map_map by (rule map_idI)
  moreover have mul: "ScalarMulG1 L (enc1 L h) (Some x) = Inr (enc1 L (x * h))" for x by (simp add: G ScalarMulG1_den)
  moreover have "G1_IsZero L (enc1 L (peval F 0 * h)) = Inr False"
    using G1_IsZero_den [OF G(1) den1_intros(1) [OF G(1)]] q(2,3) by simp
  ultimately show ?thesis using recover_from_shares [OF L d t(1) _ t(2) q(1), of sig] len by (simp add: sig_def)
qed

lemma decryptWithRetry_honest:
  assumes L: "curve_laws L" and sigs: "distinct (map (AddressToFr L) (gm_keys sigs))"
    and t: "0 < t" "int (length F) \<le> t" and q: "HashToG1 L appID = Inr (enc1 L h)" "h \<noteq> 0" "peval F 0 \<noteq> 0"
    and good: "good \<subseteq> set (gm_keys sigs)" "t \<le> int (card good)"
      "\<forall>a p. a \<in> good \<longrightarrow> (a, p) \<in> set sigs \<longrightarrow> p = enc1 L (peval F (AddressToFr L a) * h)"
    and ct: "ValidateCiphertextFormat ct = Inr ()" "DecryptForApp L A appID (enc1 L (peval F 0 * h)) ct = Inr plaintext"
  shows "(length sigs choose nat t \<le> DefaultMaxRecoveryAttempts \<or> set (gm_keys sigs) \<subseteq> good \<longrightarrow>
      (\<exists>p. decryptWithRetry L A appID sigs t ct = Inr p)) \<and>
    (\<forall>p. decryptWithRetry L A appID sigs t ct = Inr p \<longrightarrow> p = plaintext \<or>
      (\<exists>S key. S \<subseteq> set (gm_keys sigs) \<and> card S = nat t \<and> \<not> S \<subseteq> good \<and> key \<noteq> enc1 L (peval F 0 * h) \<and>
         RecoverAppPrivateKey L appID (filter (\<lambda>(a, _). a \<in> S) sigs) t = Inr key \<and> DecryptForApp L A appID key ct = Inr p))"
proof -
  let ?v = "\<lambda>key. ok (DecryptForApp L A appID key ct)" and ?right = "enc1 L (peval F 0 * h)"
  let ?r = "RecoverAppPrivateKeyWithRetry L appID sigs t ?v"
  have ok: "gm_ok sigs" using sigs unfolding distinct_map [of "AddressToFr L"] gm_ok_def by simp
  have key: "RecoverAppPrivateKey L appID (filter (\<lambda>(a, _). a \<in> S) sigs) t = Inr ?right" if "S \<subseteq> good" "card S = nat t" for S
    using that good(1,3) by (intro honest_subset_key [OF L sigs t q]) auto
  obtain S where S: "S \<subseteq> good" "card S = nat t"
    using obtain_subset_with_card_n [of "nat t" good] good(2) t(1) by (metis nat_le_iff)
  have v: "?v ?right" using ct(2) by simp
  have dec: "decryptWithRetry L A appID sigs t ct = bind_res ?r (\<lambda>key. DecryptForApp L A appID key ct)"
    using ct(1) by (simp add: decryptWithRetry_def)
  have len: "t \<le> int (length sigs)"
    using good(2) card_mono [OF _ good(1)] card_length [of "gm_keys sigs"] by simp
  have "\<exists>k. ?r = Inr k" if "length sigs choose nat t \<le> DefaultMaxRecoveryAttempts"
    using retry_finds [where validate = ?v, OF ok _ that _ S(2) v key [OF S]] S(1) good(1) t(1) by auto
  moreover have "\<exists>k. ?r = Inr k" if all: "set (gm_keys sigs) \<subseteq> good"
  proof -
    let ?first = "take (nat t) (sort_addresses (gm_keys sigs))"
    have "set ?first \<subseteq> good" using all set_take_subset [of "nat t" "sort_addresses (gm_keys sigs)"] by (auto simp: sort_addresses_def)
    moreover have "card (set ?first) = nat t"
      using ok len distinct_card [of ?first] by (simp add: sort_addresses_def gm_ok_def)
    ultimately have "recovers L appID sigs t ?v (set ?first) ?right" using key v unfolding recovers_def by blast
    from retry_first [OF ok _ len this] t(1) show ?thesis by simp
  qed
  moreover have "\<exists>p. decryptWithRetry L A appID sigs t ct = Inr p" if "?r = Inr k" for k
    using retry_sound [OF ok that] that by (simp add: dec ok_iff)
  moreover have "p = plaintext \<or> (\<exists>S key. S \<subseteq> set (gm_keys sigs) \<and> card S = nat t \<and> \<not> S \<subseteq> good \<and> key \<noteq> ?right \<and>
      RecoverAppPrivateKey L appID (filter (\<lambda>(a, _). a \<in> S) sigs) t = Inr key \<and> DecryptForApp L A appID key ct = Inr p)"
    if p: "decryptWithRetry L A appID sigs t ct = Inr p" for p
  proof -
    obtain k where k: "?r = Inr k" "DecryptForApp L A appID k ct = Inr p" using p unfolding dec by (auto simp: bind_res_eq_Inr)
    obtain T where T: "T \<subseteq> set (gm_keys sigs)" "card T = nat t" "RecoverAppPrivateKey L appID (filter (\<lambda>(a, _). a \<in> T) sigs) t = Inr k"
      using retry_sound [OF ok k(1)] by blast
    show ?thesis
    proof (cases "k = ?right")
      case True
      then show ?thesis using k(2) ct(2) by simp
    next
      case False
      then have "\<not> T \<subseteq> good" using key [of T] T(2,3) by auto
      with False T k(2) show ?thesis by blast
    qed
  qed
  ultimately show ?thesis by blast
qed

lemma sign_result_address: "sign_result L Hex H appID attestationTime op = Some r \<Longrightarrow> fst r = OperatorAddress op"
  by (auto simp: sign_result_def split: option.splits sum.splits if_splits)

text \<open>
  C2. The client tolerates faulty operators. Threshold many of the operators, by their nodes, hold
  shares of one polynomial and allow the application; the others answer anything or nothing, and the
  answers arrive in any order. Then \<open>DecryptForApp\<close> for what was encrypted for the application under the
  polynomial's public key succeeds, if the number of threshold-size subsets of the operators is within
  the cap of attempts (up to 13 operators) or no faulty one answers. What it returns is the plaintext,
  unless the answers of some subset with a faulty operator give a wrong key that opens the ciphertext
  too.
\<close>

theorem client_decrypts:
  assumes L: "curve_laws L" and A: "aead_laws A"
    and ops: "GetOperators c = Inr ops" "distinct (map (\<lambda>op. AddressToFr L (OperatorAddress op)) (Peers ops))"
      "t = CalculateThreshold (int (length (Peers ops)))"
    and arrival: "\<And>xs. mset (arrival xs) = mset xs"
    and F: "int (length F) \<le> t" "peval F 0 \<noteq> 0"
    and good: "t \<le> int (length (filter good (Peers ops)))"
      "\<forall>op \<in> set (Peers ops). good op \<longrightarrow> honest_signer L Hex (httpClient c) appID F op (N op) \<and> peval F (AddressToFr L (OperatorAddress op)) \<noteq> 0"
    and app: "5 \<le> length appID" "HashToG1 L appID = Inr (enc1 L h)" "h \<noteq> 0"
    and ct: "EncryptForApp L A (Some r) (Some nonce) appID (enc2 L (peval F 0)) plaintext = Inr ct" "r \<noteq> 0" "length nonce = 12"
  shows "(length (Peers ops) choose nat t \<le> DefaultMaxRecoveryAttempts \<or>
        (\<forall>op \<in> set (Peers ops). good op \<or> sign_result L Hex (httpClient c) appID 0 op = None) \<longrightarrow>
      (\<exists>p. client_DecryptForApp L A Hex c arrival appID ct 0 = Inr p)) \<and>
    (\<forall>p. client_DecryptForApp L A Hex c arrival appID ct 0 = Inr p \<longrightarrow> p = plaintext \<or>
      (\<exists>sigs S key. collectPartialSignaturesForDecrypt L Hex (httpClient c) arrival appID ops 0 t = Inr sigs \<and>
         S \<subseteq> set (gm_keys sigs) \<and> card S = nat t \<and> \<not> S \<subseteq> OperatorAddress ` set (filter good (Peers ops)) \<and>
         RecoverAppPrivateKey L appID (filter (\<lambda>(a, _). a \<in> S) sigs) t = Inr key \<and> key \<noteq> enc1 L (peval F 0 * h) \<and>
         DecryptForApp L A appID key ct = Inr p))"
proof -
  note G = curve_lawsD [OF L]
  let ?f = "sign_result L Hex (httpClient c) appID 0" and ?goods = "filter good (Peers ops)"
  define sigs where "sigs = collected arrival ?f (Peers ops)"
  have ne: "appID \<noteq> []" using app(1) by auto
  have "Peers ops \<noteq> []" using ops(1) by (auto simp: GetOperators_def res_simps split: if_splits)
  then have t: "0 < t" using ops(3) by (cases "Peers ops") (auto simp: CalculateThreshold_def)
  have addr: "\<And>op y. ?f op = Some y \<Longrightarrow> (AddressToFr L o fst) y = AddressToFr L (OperatorAddress op)" by (simp add: sign_result_address)
  note col = collected_distinct [where g = ?f and h = "AddressToFr L o fst", OF arrival ops(2) addr, folded sigs_def]
  have mem: "y \<in> set sigs \<longleftrightarrow> (\<exists>op \<in> set (Peers ops). ?f op = Some y)" for y using col(2) by blast
  have d: "distinct (map (AddressToFr L) (gm_keys sigs))" using col(1) by (simp add: comp_def)
  then have "distinct (gm_keys sigs)" unfolding distinct_map [of "AddressToFr L"] by simp
  then have all: "fold (\<lambda>(a, x) m. gm_set m a x) sigs [] = sigs" using fold_set_distinct [of "[]" sigs] by simp
  have res: "?f op = Some (OperatorAddress op, enc1 L (peval F (AddressToFr L (OperatorAddress op)) * h))" if "op \<in> set ?goods" for op
    using good(2) that by (intro honest_sign_result [OF L app(2,3) ne]) auto
  have sub: "OperatorAddress ` set ?goods \<subseteq> set (gm_keys sigs)"
  proof
    fix a assume "a \<in> OperatorAddress ` set ?goods"
    then obtain op where "op \<in> set ?goods" "a = OperatorAddress op" by blast
    with res [of op] have "(a, enc1 L (peval F (AddressToFr L a) * h)) \<in> set sigs" unfolding mem by auto
    then show "a \<in> set (gm_keys sigs)" by force
  qed
  have "distinct (map (AddressToFr L) (map OperatorAddress (Peers ops)))" using ops(2) by (simp add: comp_def)
  then have dist: "distinct (map OperatorAddress (Peers ops))" unfolding distinct_map [of "AddressToFr L"] by simp
  have card: "int (card (OperatorAddress ` set ?goods)) = int (length ?goods)"
    using distinct_card [of "map OperatorAddress ?goods"] dist by (simp add: distinct_map inj_on_def)
  have val: "p = enc1 L (peval F (AddressToFr L a) * h)" if g: "a \<in> OperatorAddress ` set ?goods" "(a, p) \<in> set sigs" for a p
  proof -
    obtain op op' where op: "op \<in> set ?goods" "a = OperatorAddress op" "op' \<in> set (Peers ops)" "?f op' = Some (a, p)"
      using g unfolding mem by blast
    then have "op' = op" using dist sign_result_address [OF op(4)] by (auto simp: distinct_map dest: inj_onD)
    then show ?thesis using res op by simp
  qed
  have cap: "length sigs choose nat t \<le> DefaultMaxRecoveryAttempts" if "length (Peers ops) choose nat t \<le> DefaultMaxRecoveryAttempts"
    using binomial_right_mono [OF col(3)] that by (rule order_trans)
  have only: "set (gm_keys sigs) \<subseteq> OperatorAddress ` set ?goods" if "\<forall>op \<in> set (Peers ops). good op \<or> ?f op = None"
  proof
    fix a assume "a \<in> set (gm_keys sigs)"
    then obtain p where "(a, p) \<in> set sigs" by auto
    then obtain op where "op \<in> set (Peers ops)" "?f op = Some (a, p)" unfolding mem by blast
    then show "a \<in> OperatorAddress ` set ?goods" using that sign_result_address [of L Hex _ appID 0 op "(a, p)"] by force
  qed
  have dens: "den2 L (enc2 L (peval F 0)) (peval F 0)" "den1 L (enc1 L (peval F 0 * h)) (peval F 0 * h)" using G by simp_all
  have ct': "ValidateCiphertextFormat ct = Inr ()" "DecryptForApp L A appID (enc1 L (peval F 0 * h)) ct = Inr plaintext"
    using ibe_roundtrip [OF L A app(1,2) dens F(2) app(3) ct(2,3), of plaintext] ct(1) by auto
  have enough: "t \<le> int (card (OperatorAddress ` set ?goods))" using good(1) card by simp
  have "\<forall>a p. a \<in> OperatorAddress ` set ?goods \<longrightarrow> (a, p) \<in> set sigs \<longrightarrow> p = enc1 L (peval F (AddressToFr L a) * h)"
    using val by blast
  note dec = decryptWithRetry_honest [OF L d t F(1) app(2,3) F(2) sub enough this ct']
  have "t \<le> int (length sigs)"
    using card_mono [OF _ sub] good(1) card card_length [of "gm_keys sigs"] by simp
  then have col: "collectPartialSignaturesForDecrypt L Hex (httpClient c) arrival appID ops 0 t = Inr sigs"
    by (simp add: collectPartialSignaturesForDecrypt_def all sigs_def [symmetric] Let_def)
  then have run: "client_DecryptForApp L A Hex c arrival appID ct 0 = decryptWithRetry L A appID sigs t ct"
    by (simp add: client_DecryptForApp_def ops(1) ops(3) [symmetric] Let_def)
  show ?thesis unfolding run
  proof (intro conjI impI allI)
    assume "length (Peers ops) choose nat t \<le> DefaultMaxRecoveryAttempts \<or> (\<forall>op \<in> set (Peers ops). good op \<or> ?f op = None)"
    then have "length sigs choose nat t \<le> DefaultMaxRecoveryAttempts \<or> set (gm_keys sigs) \<subseteq> OperatorAddress ` set ?goods"
      using cap only by blast
    with conjunct1 [OF dec] show "\<exists>p. decryptWithRetry L A appID sigs t ct = Inr p" by (rule mp)
  next
    fix p assume "decryptWithRetry L A appID sigs t ct = Inr p"
    from conjunct2 [OF dec, rule_format, OF this] col
    show "p = plaintext \<or> (\<exists>sigs S key. collectPartialSignaturesForDecrypt L Hex (httpClient c) arrival appID ops 0 t = Inr sigs \<and>
         S \<subseteq> set (gm_keys sigs) \<and> card S = nat t \<and> \<not> S \<subseteq> OperatorAddress ` set ?goods \<and>
         RecoverAppPrivateKey L appID (filter (\<lambda>(a, _). a \<in> S) sigs) t = Inr key \<and> key \<noteq> enc1 L (peval F 0 * h) \<and>
         DecryptForApp L A appID key ct = Inr p)"
      by (elim disjE exE conjE) (simp, intro disjI2 exI conjI, assumption+)
  qed
qed

subsection \<open>The vote on the master public key\<close>

text \<open>The valid keys that the active operators answer with.\<close>

definition key_votes :: "('f, 'g1, 'g2, 'gt) lib \<Rightarrow> http \<Rightarrow> OperatorSetPeer list \<Rightarrow> G2Point list" where
  "key_votes L H peers = List.map_filter (mpk_vote L) (List.map_filter (pub_result H) peers)"

lemma mset_map_filter: "mset (List.map_filter f xs) = image_mset (the o f) (filter_mset (\<lambda>x. f x \<noteq> None) (mset xs))"
  by (simp add: List.map_filter_def comp_def)

lemma count_update: "sum_list (map snd (gm_set C k (Suc (case gm_get C k of None \<Rightarrow> 0 | Some n \<Rightarrow> n)))) = Suc (sum_list (map snd C))"
  by (induction C) (auto split: option.splits)

lemma mpk_votes_counts:
  assumes "mpk_votes L results = (V, C)"
  defines "vs \<equiv> List.map_filter (mpk_vote L) results"
  shows "gm_ok C" "sum_list (map snd C) = length vs" "\<And>k n. gm_get C k = Some n \<Longrightarrow> \<exists>b. k = EncodeToString b"
    "\<And>b. gm_get C (EncodeToString b) = (if count_list vs (G2Point b) = 0 then None else Some (count_list vs (G2Point b)))"
    "\<And>b. gm_get V (EncodeToString b) = (if count_list vs (G2Point b) = 0 then None else Some (G2Point b))"
proof -
  let ?inv = "\<lambda>vs (V, C). gm_ok C \<and> sum_list (map snd C) = length vs \<and> (\<forall>k n. gm_get C k = Some n \<longrightarrow> (\<exists>b. k = EncodeToString b)) \<and>
    (\<forall>b. gm_get C (EncodeToString b) = (if count_list vs (G2Point b) = 0 then None else Some (count_list vs (G2Point b)))) \<and>
    (\<forall>b. gm_get V (EncodeToString b) = (if count_list vs (G2Point b) = 0 then None else Some (G2Point b)))"
  have "?inv (List.map_filter (mpk_vote L) results) (mpk_votes L results)"
  proof (induction results rule: rev_induct)
    case Nil
    then show ?case by (simp add: mpk_votes_def)
  next
    case (snoc r results)
    obtain V0 C0 where m: "mpk_votes L results = (V0, C0)" by (cases "mpk_votes L results")
    have app: "List.map_filter (mpk_vote L) (results @ [r]) =
        List.map_filter (mpk_vote L) results @ (case mpk_vote L r of None \<Rightarrow> [] | Some x \<Rightarrow> [x])"
      by (simp add: List.map_filter_def split: option.splits)
    show ?case
    proof (cases "mpk_vote L r")
      case None
      then have "mpk_votes L (results @ [r]) = (V0, C0)" using m by (simp add: mpk_votes_def)
      then show ?thesis using snoc None unfolding app m by simp
    next
      case (Some x)
      let ?k = "EncodeToString (g2_CompressedBytes x)"
      have e: "EncodeToString b = ?k \<longleftrightarrow> G2Point b = x" for b by (cases x) (auto simp: EncodeToString_inj)
      let ?n = "count_list (List.map_filter (mpk_vote L) results) x"
      have n: "(case gm_get C0 ?k of None \<Rightarrow> 0 | Some n \<Rightarrow> n) = ?n" using snoc m by simp
      have "sum_list (map snd (gm_set C0 ?k (Suc ?n))) = Suc (length (List.map_filter (mpk_vote L) results))"
        using count_update [where C = C0 and k = ?k] snoc m unfolding n by simp
      moreover have "mpk_votes L (results @ [r]) = (gm_set V0 ?k x, gm_set C0 ?k (Suc ?n))"
        using m Some n by (simp add: mpk_votes_def Let_def)
      ultimately show ?thesis using snoc m Some unfolding app by (auto simp: e)
    qed
  qed
  then show "gm_ok C" "sum_list (map snd C) = length vs" "\<And>k n. gm_get C k = Some n \<Longrightarrow> \<exists>b. k = EncodeToString b"
    "\<And>b. gm_get C (EncodeToString b) = (if count_list vs (G2Point b) = 0 then None else Some (count_list vs (G2Point b)))"
    "\<And>b. gm_get V (EncodeToString b) = (if count_list vs (G2Point b) = 0 then None else Some (G2Point b))"
    unfolding assms(1) vs_def by auto
qed

lemma map_filter_cong: "(\<And>x. x \<in> set xs \<Longrightarrow> f x = g x) \<Longrightarrow> List.map_filter f xs = List.map_filter g xs"
  by (induction xs) (auto simp: map_filter_simps split: option.splits)

lemma master_key_vote:
  assumes arrival: "\<And>xs. mset (arrival xs) = mset xs" "\<And>vs. mset (order vs) = mset vs"
    and ops: "Peers ops \<noteq> []" "t = CalculateThreshold (int (length (Peers ops)))"
    and votes: "t \<le> int (length (key_votes L H (Peers ops)))"
  shows "GetMasterPublicKey L H arrival order (Some ops) = Inr m \<longleftrightarrow> t \<le> int (count_list (key_votes L H (Peers ops)) m)"
proof -
  let ?vs = "key_votes L H (Peers ops)"
  define rs where "rs = collected arrival (pub_result H) (Peers ops)"
  obtain V C where VC: "mpk_votes L rs = (V, C)" by (cases "mpk_votes L rs")
  have t: "0 < t" "2 * t > int (length (Peers ops))"
    using ops by (cases "Peers ops"; simp add: CalculateThreshold_def; presburger)+
  have ms: "mset (List.map_filter (mpk_vote L) rs) = mset ?vs"
    unfolding mset_map_filter [of "mpk_vote L"] key_votes_def rs_def collected_def arrival(1) ..
  have len: "length (List.map_filter (mpk_vote L) rs) = length ?vs" using ms by (rule mset_eq_length)
  have cnt: "count_list (List.map_filter (mpk_vote L) rs) x = count_list ?vs x" for x using ms by (metis count_mset)
  note C = mpk_votes_counts [OF VC, unfolded len cnt]
  have "length ?vs \<le> length (Peers ops)" unfolding key_votes_def by (meson map_filter_length order_trans)
  moreover have "count_list xs x + count_list xs y \<le> length xs" if "x \<noteq> y" for xs and x y :: G2Point using that by (induction xs) auto
  ultimately have uniq: "x = y" if "t \<le> int (count_list ?vs x)" "t \<le> int (count_list ?vs y)" for x y
    using that t(2) by (smt (verit) of_nat_add of_nat_mono)
  have ne: "rs \<noteq> []" "C \<noteq> []" using votes t(1) len C(2) by (auto simp: List.map_filter_def)
  have entry: "(k, n) \<in> set (order C) \<longleftrightarrow> (\<exists>b. k = EncodeToString b \<and> n = count_list ?vs (G2Point b) \<and> n \<noteq> 0)" for k n
  proof -
    have "(k, n) \<in> set (order C) \<longleftrightarrow> gm_get C k = Some n" using gm_get_eq_Some [OF C(1)] arrival(2) by (metis set_mset_mset)
    then show ?thesis using C(3) [of k n] C(4) by (auto simp: EncodeToString_inj split: if_splits)
  qed
  have "GetMasterPublicKey L H arrival order (Some ops) =
     (case List.find (\<lambda>(_, n). int n \<ge> t) (order C) of
        Some (key, _) \<Rightarrow> lib_res ''map read'' (gm_get V key)
      | None \<Rightarrow> Inl (Errorf ''failed to reach threshold agreement on master public key''))"
    using ops(1) ne votes C(2) by (simp add: GetMasterPublicKey_def rs_def [symmetric] VC ops(2) [symmetric])
  moreover have "(case List.find (\<lambda>(_, n). int n \<ge> t) (order C) of
        Some (key, _) \<Rightarrow> lib_res ''map read'' (gm_get V key)
      | None \<Rightarrow> Inl (Errorf ''failed to reach threshold agreement on master public key'')) = Inr m \<longleftrightarrow> t \<le> int (count_list ?vs m)"
  proof (cases "List.find (\<lambda>(_, n). int n \<ge> t) (order C)")
    case None
    obtain b where b: "m = G2Point b" by (cases m)
    have "\<not> t \<le> int (count_list ?vs m)"
    proof
      assume a: "t \<le> int (count_list ?vs m)"
      then have "(EncodeToString b, count_list ?vs m) \<in> set (order C)" using entry t(1) b by auto
      then show False using None a by (auto simp: find_None_iff)
    qed
    with None show ?thesis by simp
  next
    case (Some e)
    then have "e \<in> set (order C) \<and> (case e of (_, n) \<Rightarrow> t \<le> int n)" by (auto simp: find_Some_iff) (metis nth_mem)
    then obtain key n where e: "e = (key, n)" "(key, n) \<in> set (order C)" "t \<le> int n" by (cases e) auto
    then obtain b where b: "key = EncodeToString b" "n = count_list ?vs (G2Point b)" "n \<noteq> 0" using entry by blast
    then have "gm_get V key = Some (G2Point b)" using C(5) by simp
    then show ?thesis using Some e b uniq by (auto simp: lib_res_simps)
  qed
  ultimately show ?thesis by simp
qed

text \<open>A key that the client takes has the votes, or there are too few votes and it is the sum of the commitments.\<close>

definition voted_key :: "('f, 'g1, 'g2, 'gt) lib \<Rightarrow> http \<Rightarrow> OperatorSetPeers \<Rightarrow> G2Point \<Rightarrow> bool" where
  "voted_key L H ops m \<longleftrightarrow>
     CalculateThreshold (int (length (Peers ops))) \<le> int (count_list (key_votes L H (Peers ops)) m)"

definition summed_key :: "('f, 'g1, 'g2, 'gt) lib \<Rightarrow> http \<Rightarrow> (pub_result list \<Rightarrow> pub_result list) \<Rightarrow> OperatorSetPeers \<Rightarrow> G2Point \<Rightarrow> bool" where
  "summed_key L H arrival ops m \<longleftrightarrow>
     int (length (key_votes L H (Peers ops))) < CalculateThreshold (int (length (Peers ops))) \<and>
     ComputeMasterPublicKey L (map fst (collected arrival (pub_result H) (Peers ops))) = Inr m"

lemma GetMasterPublicKey_cases:
  assumes arrival: "\<And>xs. mset (arrival xs) = mset xs" "\<And>vs. mset (order vs) = mset vs"
    and m: "GetMasterPublicKey L H arrival order (Some ops) = Inr m"
  shows "voted_key L H ops m \<or> summed_key L H arrival ops m"
proof (cases "CalculateThreshold (int (length (Peers ops))) \<le> int (length (key_votes L H (Peers ops)))")
  case True
  have "Peers ops \<noteq> []" using m by (auto simp: GetMasterPublicKey_def)
  from master_key_vote [where L = L and H = H and m = m, OF arrival this refl True] m show ?thesis by (simp add: voted_key_def)
next
  case False
  define rs where "rs = collected arrival (pub_result H) (Peers ops)"
  obtain V C where VC: "mpk_votes L rs = (V, C)" by (cases "mpk_votes L rs")
  have "mset (List.map_filter (mpk_vote L) rs) = mset (key_votes L H (Peers ops))"
    unfolding mset_map_filter [of "mpk_vote L"] key_votes_def rs_def collected_def arrival(1) ..
  then have "sum_list (map snd C) = length (key_votes L H (Peers ops))"
    using mpk_votes_counts(2) [OF VC] mset_eq_length by fastforce
  then have "wrap_err ''failed to compute master public key'' (ComputeMasterPublicKey L (map fst rs)) = Inr m"
    using m False by (simp add: GetMasterPublicKey_def rs_def [symmetric] VC Let_def split: if_splits)
  then show ?thesis using False by (simp add: summed_key_def rs_def [symmetric] res_simps)
qed

text \<open>
  C17. When threshold many operators answer with a valid key at all, the client takes a key exactly if
  threshold many of them answered with that one, whatever the order of the answers and of the votes.
\<close>

theorem GetMasterPublicKey_vote:
  assumes arrival: "\<And>xs. mset (arrival xs) = mset xs" "\<And>vs. mset (order vs) = mset vs"
    and ops: "Peers ops \<noteq> []" "t = CalculateThreshold (int (length (Peers ops)))"
    and votes: "t \<le> int (length (key_votes L H (Peers ops)))"
  shows "GetMasterPublicKey L H arrival order (Some ops) = Inr m \<longleftrightarrow> t \<le> int (count_list (key_votes L H (Peers ops)) m)"
  using assms by (rule master_key_vote)

lemma pub_result_commitments: "pub_result H op = Some r \<Longrightarrow> fst r \<noteq> []"
  by (auto simp: pub_result_def split: option.split_asm prod.split_asm if_split_asm)

text \<open>
  C28. The vote can be bypassed. When fewer than threshold many of the other operators answer with a
  key, one operator chooses the key that the client takes, knowing what the others answer: it leaves
  its own key out, so that the commitments are added up instead, and sends a commitment that makes
  the sum whatever it wants.
\<close>

theorem vote_bypassed:
  assumes L: "curve_laws L" and arrival: "\<And>xs. mset (arrival xs) = mset xs"
    and op: "op \<in> set (Peers ops)" "distinct (map SocketAddress (Peers ops))"
    and few: "int (length (key_votes L H (remove1 op (Peers ops)))) < CalculateThreshold (int (length (Peers ops)))"
    and valid: "\<forall>r \<in> set (List.map_filter (pub_result H) (remove1 op (Peers ops))). \<exists>x. den2 L (hd (fst r)) x"
    and y: "y \<noteq> 0"
  shows "\<exists>reply. GetMasterPublicKey L (H\<lparr>http_pubkey := (http_pubkey H)(SocketAddress op @ ''/pubkey'' := reply)\<rparr>) arrival order (Some ops) =
    Inr (enc2 L y)"
proof -
  note G = curve_lawsD [OF L]
  let ?rest = "remove1 op (Peers ops)" and ?others = "List.map_filter (pub_result H) (remove1 op (Peers ops))"
  define s where "s cs = (THE x. den2 L (hd cs) x)" for cs
  have s: "den2 L (hd cs) x \<Longrightarrow> s cs = x" for cs x
    unfolding s_def using g2_lawsD(7) [OF G(2)] by (auto simp: den2_def)
  define own where "own = [enc2 L (y - (\<Sum>r\<leftarrow>?others. s (fst r)))]"
  define H' where "H' = H\<lparr>http_pubkey := (http_pubkey H)(SocketAddress op @ ''/pubkey'' := Answered 200 (Some ([], own, None, 0, True)))\<rparr>"
  have dist: "distinct (Peers ops)" using op(2) by (simp add: distinct_map)
  have rest: "SocketAddress p \<noteq> SocketAddress op" if "p \<in> set ?rest" for p
    using that op dist by (auto simp: distinct_map dest: inj_onD)
  have same: "pub_result H' p = pub_result H p" if "p \<in> set ?rest" for p
    using rest [OF that] by (simp add: pub_result_def H'_def)
  have mine: "pub_result H' op = Some (own, None, [])" by (simp add: pub_result_def H'_def body_of_def own_def)
  define rs where "rs = collected arrival (pub_result H') (Peers ops)"
  have perm: "mset (Peers ops) = mset (op # ?rest)" using op(1) by simp
  have "mset rs = mset (List.map_filter (pub_result H') (op # ?rest))"
    unfolding rs_def collected_def arrival mset_map_filter perm ..
  also have "List.map_filter (pub_result H') (op # ?rest) = (own, None, []) # ?others"
    using mine map_filter_cong [OF same, of ?rest] by (simp add: map_filter_simps)
  finally have rs: "mset rs = mset ((own, None, []) # ?others)" .
  obtain V C where VC: "mpk_votes L rs = (V, C)" by (cases "mpk_votes L rs")
  have "mset (List.map_filter (mpk_vote L) rs) = mset (List.map_filter (mpk_vote L) ((own, None, []) # ?others))"
    unfolding mset_map_filter rs ..
  then have "length (List.map_filter (mpk_vote L) rs) = length (key_votes L H ?rest)"
    using mset_eq_length by (fastforce simp: map_filter_simps mpk_vote_def key_votes_def)
  then have C: "int (sum_list (map snd C)) < CalculateThreshold (int (length (Peers ops)))" using mpk_votes_counts(2) [OF VC] few by simp
  have elem: "fst r \<noteq> []" "den2 L (hd (fst r)) (s (fst r))" if "r \<in> set rs" for r
  proof -
    have "r = (own, None, []) \<or> r \<in> set ?others" using that mset_eq_setD [OF rs] by auto
    moreover have "fst r \<noteq> []" if "r \<in> set ?others" using that pub_result_commitments unfolding set_map_filter by blast
    moreover have "den2 L (hd own) (y - (\<Sum>r\<leftarrow>?others. s (fst r)))" by (simp add: own_def G)
    ultimately show "fst r \<noteq> []" "den2 L (hd (fst r)) (s (fst r))" using s valid by (auto simp: own_def)
  qed
  have "(\<Sum>r\<leftarrow>rs. s (fst r)) = (\<Sum>r\<leftarrow>(own, None, []) # ?others. s (fst r))"
    by (rule sum_list_perm) (simp only: mset_map rs)
  also have "\<dots> = y" using s [of own] by (simp add: own_def G)
  finally have sum: "(\<Sum>r\<leftarrow>rs. s (fst r)) = y" .
  have "filter (\<lambda>cs. cs \<noteq> []) (map fst rs) = map fst rs" using elem(1) by (auto simp: filter_id_conv)
  then have "ComputeMasterPublicKey L (map fst rs) = Inr (enc2 L y)"
    using ComputeMasterPublicKey_den [OF L, of "map fst rs" s] elem(2) sum y by (simp add: comp_def)
  moreover have "rs \<noteq> []" "Peers ops \<noteq> []" using rs op(1) by auto
  ultimately have "GetMasterPublicKey L H' arrival order (Some ops) = Inr (enc2 L y)"
    using C by (simp add: GetMasterPublicKey_def rs_def [symmetric] VC)
  then show ?thesis unfolding H'_def by blast
qed

subsection \<open>A client with three operators\<close>

text \<open>The operators 1, 2 and 3 at \<open>a\<close>, \<open>b\<close> and \<open>c\<close>.\<close>

definition client_peers :: OperatorSetPeers where
  "client_peers = \<lparr>OperatorSetId = 0, AVSAddress = 9,
     Peers = map (\<lambda>(a, s). (mock_peer a)\<lparr>SocketAddress := s\<rparr>) [(1, ''a''), (2, ''b''), (3, ''c'')]\<rparr>"

text \<open>
  The first two hold the shares 7 and 9 of \<open>5 + 2 x\<close> and serve the key 5, the third is faulty; or the
  first two have not got a key to serve.
\<close>

definition signer_node :: "gf \<Rightarrow> (unit, gf) KmsNode" where
  "signer_node x = (new_node ())\<lparr>n_keyStore := demo_keys\<lparr>objs := (\<lambda>_. (objs demo_keys 0)\<lparr>PrivateShare := Some x\<rparr>)\<rparr>\<rparr>"

definition faulty_http :: http where
  "faulty_http = \<lparr>http_pubkey = (\<lambda>url. Answered 200 (Some ([], [enc2 mock_lib 5],
       Some (if url = ''c/pubkey'' then enc2 mock_lib 1 else enc2 mock_lib 5), 7, True))),
     http_sign = (\<lambda>url b. if url = ''a/app/sign'' then reply_of (handleAppSign mock_lib ''POST'' (Some b) (signer_node 7))
       else if url = ''b/app/sign'' then reply_of (handleAppSign mock_lib ''POST'' (Some b) (signer_node 9))
       else Answered 200 (Some (''0X01'', enc1 mock_lib 1))),
     http_secrets = (\<lambda>_ _. ContactFailed)\<rparr>"

definition keyless_http :: http where
  "keyless_http = faulty_http\<lparr>http_pubkey := (\<lambda>_. Answered 200 (Some ([], [enc2 mock_lib 5], None, 7, True)))\<rparr>"

lemma mpk_vote_enc2: "mpk_vote mock_lib (cs, Some (enc2 mock_lib x), n) = Some (enc2 mock_lib x)"
proof -
  note L = curve_lawsD [OF mock_lib_laws]
  show ?thesis
    using den2_FromCompressedBytes [OF den2_intros(1) [OF L(2), of x]] g2_lawsD(10) [OF L(2), of x]
    by (simp add: mpk_vote_def enc2_def)
qed

theorem GetMasterPublicKey_vote_witness:
  "GetMasterPublicKey mock_lib faulty_http rev rev (Some client_peers) = Inr (enc2 mock_lib 5)"
proof -
  have v: "key_votes mock_lib faulty_http (Peers client_peers) = [enc2 mock_lib 5, enc2 mock_lib 5, enc2 mock_lib 1]"
    by (simp add: key_votes_def client_peers_def faulty_http_def pub_result_def body_of_def map_filter_simps mpk_vote_enc2)
  have t: "2 = CalculateThreshold (int (length (Peers client_peers)))" "Peers client_peers \<noteq> []"
    by (simp_all add: client_peers_def CalculateThreshold_def)
  show ?thesis using GetMasterPublicKey_vote [OF _ _ t(2,1), of rev rev mock_lib faulty_http] by (simp add: v)
qed

theorem vote_bypassed_witness:
  "\<exists>reply. GetMasterPublicKey mock_lib
     (keyless_http\<lparr>http_pubkey := (http_pubkey keyless_http)(SocketAddress ((mock_peer 3)\<lparr>SocketAddress := ''c''\<rparr>) @ ''/pubkey'' := reply)\<rparr>)
     rev id (Some client_peers) = Inr (enc2 mock_lib 9)"
proof -
  note L = mock_lib_laws curve_lawsD [OF mock_lib_laws]
  let ?op = "(mock_peer 3)\<lparr>SocketAddress := ''c''\<rparr>"
  have r: "List.map_filter (pub_result keyless_http) (remove1 ?op (Peers client_peers)) = [([enc2 mock_lib 5], None, []), ([enc2 mock_lib 5], None, [])]"
    by (simp add: client_peers_def keyless_http_def pub_result_def body_of_def map_filter_simps mock_peer_def)
  have "(9 :: gf) \<noteq> 0" by code_simp
  show ?thesis
  proof (rule vote_bypassed [OF L(1) _ _ _ _ _ \<open>9 \<noteq> 0\<close>])
    show "int (length (key_votes mock_lib keyless_http (remove1 ?op (Peers client_peers)))) < CalculateThreshold (int (length (Peers client_peers)))"
      unfolding key_votes_def r by (simp add: map_filter_simps mpk_vote_def client_peers_def CalculateThreshold_def)
    show "\<forall>r \<in> set (List.map_filter (pub_result keyless_http) (remove1 ?op (Peers client_peers))). \<exists>x. den2 mock_lib (hd (fst r)) x"
      unfolding r using den2_intros(1) [OF L(3)] by auto
  qed (simp_all add: client_peers_def)
qed

lemma mock_aead_unique: "DecryptForApp L mock_aead appID k ct = Inr p \<Longrightarrow> DecryptForApp L mock_aead appID k' ct = Inr p' \<Longrightarrow> p = p'"
  by (auto simp: DecryptForApp_def bind_res_eq_Inr Let_def mock_aead_def split: if_split_asm)

theorem client_decrypts_witness:
  "\<exists>ct. EncryptForApp mock_lib mock_aead (Some 3) (Some (replicate 12 9)) ''hello'' (enc2 mock_lib 5) [1, 2] = Inr ct \<and>
     client_DecryptForApp mock_lib mock_aead (\<lambda>_. ''0x01'')
       \<lparr>avsAddress = [], operatorSetID = 0, contractCaller = (\<lambda>_ _. Inr client_peers), httpClient = faulty_http\<rparr> rev ''hello'' ct 0 = Inr [1, 2]"
proof -
  note L = mock_lib_laws curve_lawsD [OF mock_lib_laws]
  let ?c = "\<lparr>avsAddress = [], operatorSetID = 0, contractCaller = (\<lambda>_ _. Inr client_peers), httpClient = faulty_http\<rparr>"
  let ?N = "\<lambda>op. if OperatorAddress op = 1 then signer_node 7 else signer_node 9"
  have num: "1 + gf_of_int 5 = 6" "(6 :: gf) \<noteq> 0" "(5 :: gf) \<noteq> 0" "(3 :: gf) \<noteq> 0" "(7 :: gf) \<noteq> 0" "(9 :: gf) \<noteq> 0" by code_simp+
  have q: "HashToG1 mock_lib ''hello'' = Inr (enc1 mock_lib 6)" using num(1) by (simp add: HashToG1_mock)
  have ev: "peval [5, 2] (AddressToFr mock_lib 1) = 7" "peval [5, 2] (AddressToFr mock_lib 2) = 9"
    by (simp_all add: AddressToFr_mock) code_simp+
  have p0: "peval [5, 2] (0 :: gf) = 5" by simp
  have dens: "den2 mock_lib (enc2 mock_lib 5) 5" "den1 mock_lib (enc1 mock_lib (5 * 6)) (5 * 6)" using L by simp_all
  obtain ct where ct: "EncryptForApp mock_lib mock_aead (Some 3) (Some (replicate 12 9)) ''hello'' (enc2 mock_lib 5) [1, 2] = Inr ct"
    "DecryptForApp mock_lib mock_aead ''hello'' (enc1 mock_lib (5 * 6)) ct = Inr [1, 2]"
    using ibe_roundtrip [OF L(1) mock_aead_laws _ q dens num(3,2,4), of "replicate 12 9" "[1, 2]"] by auto
  have ops: "GetOperators ?c = Inr client_peers" "2 = CalculateThreshold (int (length (Peers client_peers)))" "length (Peers client_peers) = 3"
    by (simp_all add: GetOperators_def client_peers_def CalculateThreshold_def)
  have d: "distinct (map (\<lambda>op. AddressToFr mock_lib (OperatorAddress op)) (Peers client_peers))"
    using demo_points by (simp add: client_peers_def mock_peer_def)
  have choose: "length (Peers client_peers) choose nat 2 \<le> DefaultMaxRecoveryAttempts" by (simp add: ops(3) DefaultMaxRecoveryAttempts_def numeral_eq_Suc)
  have h: "honest_signer mock_lib (\<lambda>_. ''0x01'') (httpClient ?c) ''hello'' [5, 2] op (?N op) \<and> peval [5, 2] (AddressToFr mock_lib (OperatorAddress op)) \<noteq> 0"
    if "op \<in> set (Peers client_peers)" "OperatorAddress op \<noteq> 3" for op
    using that ev num
    by (auto simp: client_peers_def mock_peer_def honest_signer_def faulty_http_def signer_node_def new_node_def app_allowed_def demo_keys_def GetActiveVersion_def
        simp del: peval.simps)
  have honest: "\<forall>op \<in> set (Peers client_peers). OperatorAddress op \<noteq> 3 \<longrightarrow>
        honest_signer mock_lib (\<lambda>_. ''0x01'') (httpClient ?c) ''hello'' [5, 2] op (?N op) \<and> peval [5, 2] (AddressToFr mock_lib (OperatorAddress op)) \<noteq> 0"
    using h by blast
  have good: "2 \<le> int (length (filter (\<lambda>op. OperatorAddress op \<noteq> 3) (Peers client_peers)))" by (simp add: client_peers_def mock_peer_def)
  have ct1: "EncryptForApp mock_lib mock_aead (Some 3) (Some (replicate 12 9)) ''hello'' (enc2 mock_lib (peval [5, 2] 0)) [1, 2] = Inr ct"
    using ct(1) by simp
  have F: "int (length [5, 2 :: gf]) \<le> 2" "peval [5, 2] (0 :: gf) \<noteq> 0" "5 \<le> length ''hello''" "length (replicate 12 (9 :: byte)) = 12"
    using num by simp_all
  note result = client_decrypts [OF L(1) mock_aead_laws ops(1) d ops(2) mset_rev F(1,2) good honest F(3) q num(2) ct1 num(4) F(4)]
  then obtain p where p: "client_DecryptForApp mock_lib mock_aead (\<lambda>_. ''0x01'') ?c rev ''hello'' ct 0 = Inr p" using choose by blast
  with result have "p = [1, 2]" using mock_aead_unique [OF _ ct(2)] by blast
  with ct(1) p show ?thesis by blast
qed

end
