(* ===== verification/Secrets_Client.thy ===== *)
theory Secrets_Client
  imports Kms_Client
begin

text \<open>
  The retrieval of secrets by the client library (\<open>pkg/clients/kmsClient/client.go\<close>,
  \<open>RetrieveSecretsWithOptions\<close> and what it calls). The theorems: what a result guarantees; and the
  request of a client with a signed challenge is answered by a node.
\<close>

subsection \<open>Secrets\<close>

record 'k SecretsOptions =
  so_AttestationMethod :: string
  so_ImageDigest :: string
  so_ECDSAPrivateKey :: "'k option"
  so_TPMAttestationBytes :: bytes
  so_RawSNPEvidence :: bytes
  so_CCInitData :: bytes
  so_RSAPrivateKeyPEM :: bytes
  so_RSAPublicKeyPEM :: bytes
  so_ExtraData :: bytes
  so_StackID :: string

record SecretsResult =
  AppPrivateKey :: G1Point
  sr_EncryptedEnv :: string
  sr_PublicEnv :: string
  PartialSigs :: "(address, G1Point) gomap"
  ResponseCount :: int
  ThresholdNeeded :: int
  sr_ExtraData :: bytes
  Verified :: bool

text \<open>
  What the retrieval asks of its surroundings: the time when the challenge is made and when the
  request is, the random key and nonce, JSON, RSA.
\<close>

record 'k sec_client =
  sc_eth :: "'k ethlib"
  sc_challengeTime :: int64
  sc_now :: int64
  sc_GenerateKey :: "'k option"
  sc_nonce :: "bytes option"
  sc_json_claims :: "AttestationClaims \<Rightarrow> bytes option"
  sc_rsa_Decrypt :: "bytes \<Rightarrow> bytes \<Rightarrow> bytes option"
  sc_unjson_sig :: "bytes \<Rightarrow> G1Point option"

definition SecretsRequestV1_zero :: SecretsRequestV1 where
  "SecretsRequestV1_zero = \<lparr>rq_AppID = [], rq_StackID = [], rq_AttestationMethod = [], rq_Attestation = [], rq_RSAPubKeyTmp = [],
     rq_AttestationTime = 0, rq_Challenge = [], rq_PublicKey = [], rq_ExtraData = [], rq_CCInitData = []\<rparr>"

definition createECDSAAttestationRequest ::
  "'k sec_client \<Rightarrow> string \<Rightarrow> 'k SecretsOptions \<Rightarrow> bytes \<Rightarrow> SecretsRequestV1 res" where
  "createECDSAAttestationRequest S appID opts rsaPubKeyPEM =
     bind_res (case so_ECDSAPrivateKey opts of
         Some k \<Rightarrow> Inr k
       | None \<Rightarrow> lib_res ''failed to generate ECDSA key'' (sc_GenerateKey S)) (\<lambda>privateKey.
     let publicKey = eth_FromECDSAPub (sc_eth S) privateKey in
     bind_res (lib_res ''failed to generate nonce'' (sc_nonce S)) (\<lambda>nonce.
     bind_res (wrap_err ''failed to generate challenge'' (GenerateChallenge (sc_challengeTime S) nonce)) (\<lambda>challenge.
     bind_res (wrap_err ''failed to sign challenge'' (SignChallenge (sc_eth S) (Some privateKey) appID challenge)) (\<lambda>signature.
     Inr (SecretsRequestV1_zero\<lparr>rq_AppID := appID, rq_AttestationMethod := ''ecdsa'', rq_Attestation := signature,
       rq_Challenge := str_bytes challenge, rq_PublicKey := publicKey, rq_RSAPubKeyTmp := rsaPubKeyPEM, rq_AttestationTime := sc_now S\<rparr>)))))"

definition createEigenXSNPAttestationRequest :: "'k sec_client \<Rightarrow> string \<Rightarrow> 'k SecretsOptions \<Rightarrow> SecretsRequestV1" where
  "createEigenXSNPAttestationRequest S appID opts =
     SecretsRequestV1_zero\<lparr>rq_AppID := appID, rq_StackID := so_StackID opts, rq_AttestationMethod := ''eigenx-snp'',
       rq_Attestation := so_RawSNPEvidence opts, rq_RSAPubKeyTmp := so_RSAPublicKeyPEM opts, rq_AttestationTime := sc_now S,
       rq_ExtraData := so_ExtraData opts, rq_CCInitData := so_CCInitData opts\<rparr>"

text \<open>Step 2 of the retrieval: the request for each method.\<close>

definition create_request :: "'k sec_client \<Rightarrow> string \<Rightarrow> 'k SecretsOptions \<Rightarrow> SecretsRequestV1 res" where
  "create_request S appID opts =
     (let m = so_AttestationMethod opts in
      if m = ''ecdsa'' then
        bind_res (wrap_err ''failed to create ECDSA attestation'' (createECDSAAttestationRequest S appID opts (so_RSAPublicKeyPEM opts)))
          (\<lambda>req. Inr (req\<lparr>rq_ExtraData := so_ExtraData opts\<rparr>))
      else if m = ''gcp'' \<or> m = ''intel'' then
        bind_res (lib_res ''failed to create attestation'' (sc_json_claims S
            (AttestationClaims_zero\<lparr>ac_AppID := appID, ac_ImageDigest := so_ImageDigest opts, IssuedAt := sc_now S,
               ac_PublicKey := so_RSAPublicKeyPEM opts\<rparr>))) (\<lambda>attestationBytes.
        Inr (SecretsRequestV1_zero\<lparr>rq_AppID := appID, rq_AttestationMethod := m, rq_Attestation := attestationBytes,
          rq_RSAPubKeyTmp := so_RSAPublicKeyPEM opts, rq_AttestationTime := sc_now S, rq_ExtraData := so_ExtraData opts\<rparr>))
      else if m = ''tpm'' then
        if length (so_TPMAttestationBytes opts) = 0 then Inl (Errorf ''TPM attestation bytes are required for tpm method'')
        else Inr (SecretsRequestV1_zero\<lparr>rq_AppID := appID, rq_AttestationMethod := ''tpm'', rq_Attestation := so_TPMAttestationBytes opts,
          rq_RSAPubKeyTmp := so_RSAPublicKeyPEM opts, rq_AttestationTime := sc_now S, rq_ExtraData := so_ExtraData opts\<rparr>)
      else if m = ''eigenx-snp'' then Inr (createEigenXSNPAttestationRequest S appID opts)
      else Inl (Errorf ''unsupported attestation method''))"

definition requestSecretsFromKMS :: "http \<Rightarrow> string \<Rightarrow> SecretsRequestV1 \<Rightarrow> SecretsResponseV1 res" where
  "requestSecretsFromKMS H serverURL req =
     (case http_secrets H (serverURL @ ''/secrets'') req of
        ContactFailed \<Rightarrow> Inl (Errorf ''HTTP request failed'')
      | Answered status body \<Rightarrow>
          if status \<noteq> 200 then Inl (Errorf ''KMS server returned status'')
          else lib_res ''failed to parse response'' body)"

definition secrets_result ::
  "'k sec_client \<Rightarrow> http \<Rightarrow> SecretsRequestV1 \<Rightarrow> bytes \<Rightarrow> OperatorSetPeer \<Rightarrow> (SecretsResponseV1 \<times> address \<times> G1Point) option" where
  "secrets_result S H req rsaPrivateKeyPEM op =
     (case requestSecretsFromKMS H (SocketAddress op) req of
        Inl _ \<Rightarrow> None
      | Inr resp \<Rightarrow>
          (case sc_rsa_Decrypt S (rs_EncryptedPartialSig resp) rsaPrivateKeyPEM of
             None \<Rightarrow> None
           | Some decryptedSigBytes \<Rightarrow>
               (case sc_unjson_sig S decryptedSigBytes of
                  None \<Rightarrow> None
                | Some partialSig \<Rightarrow> Some (resp, OperatorAddress op, partialSig))))"

type_synonym secrets_arrival = "(SecretsResponseV1 \<times> address \<times> G1Point) list \<Rightarrow> (SecretsResponseV1 \<times> address \<times> G1Point) list"

definition GetEncryptedSecretsFromKMSNodesWithPartialSigs ::
  "'k sec_client \<Rightarrow> http \<Rightarrow> secrets_arrival \<Rightarrow> OperatorSetPeers \<Rightarrow> SecretsRequestV1 \<Rightarrow> bytes \<Rightarrow>
   (SecretsResponseV1 list \<times> (address, G1Point) gomap) res" where
  "GetEncryptedSecretsFromKMSNodesWithPartialSigs S H arrival operators req rsaPrivateKeyPEM =
     (let results = collected arrival (secrets_result S H req rsaPrivateKeyPEM) (Peers operators);
          responses = map fst results;
          partialSigs = fold (\<lambda>(_, operatorAddr, partialSig) m. gm_set m operatorAddr partialSig) results []
      in if length responses = 0 then Inl (Errorf ''failed to collect any valid responses from operators'')
         else Inr (responses, partialSigs))"

text \<open>The checks of the options, with the default method.\<close>

definition check_options :: "'k SecretsOptions option \<Rightarrow> 'k SecretsOptions res" where
  "check_options options =
     (case options of
        None \<Rightarrow> Inl (Errorf ''options are required'')
      | Some opts0 \<Rightarrow>
          let opts = (if so_AttestationMethod opts0 = [] then opts0\<lparr>so_AttestationMethod := ''gcp''\<rparr> else opts0) in
          if length (so_RSAPrivateKeyPEM opts) = 0 \<or> length (so_RSAPublicKeyPEM opts) = 0 then
            Inl (Errorf ''RSA key pair is required in options'')
          else if length (so_ExtraData opts) > MaxExtraDataSize then Inl (Errorf ''extra_data exceeds 1MB limit'')
          else if so_AttestationMethod opts = ''eigenx-snp'' \<and> length (so_RawSNPEvidence opts) = 0 then
            Inl (Errorf ''RawSNPEvidence is required for eigenx-snp attestation method'')
          else if so_AttestationMethod opts = ''eigenx-snp'' \<and> length (so_CCInitData opts) = 0 then
            Inl (Errorf ''CCInitData is required for eigenx-snp attestation method'')
          else if so_AttestationMethod opts = ''eigenx-snp'' \<and> length (so_CCInitData opts) > MaxExtraDataSize then
            Inl (Errorf ''CCInitData exceeds 1MB limit'')
          else Inr opts)"

definition RetrieveSecretsWithOptions ::
  "('f :: field, 'g1, 'g2, 'gt) lib \<Rightarrow> 'k sec_client \<Rightarrow> Client \<Rightarrow> secrets_arrival \<Rightarrow> (pub_result list \<Rightarrow> pub_result list) \<Rightarrow>
   ((string, nat) gomap \<Rightarrow> (string, nat) gomap) \<Rightarrow> string \<Rightarrow> 'k SecretsOptions option \<Rightarrow> SecretsResult res" where
  "RetrieveSecretsWithOptions L S c arrival pub_arrival order appID options =
     bind_res (check_options options) (\<lambda>opts.
     bind_res (wrap_err ''failed to get operators'' (GetOperators c)) (\<lambda>operators.
     let threshold = CalculateThreshold (int (length (Peers operators))) in
     bind_res (create_request S appID opts) (\<lambda>req.
     bind_res (wrap_err ''failed to collect secrets''
       (GetEncryptedSecretsFromKMSNodesWithPartialSigs S (httpClient c) arrival operators req (so_RSAPrivateKeyPEM opts))) (\<lambda>(responses, partialSigs).
     if int (length responses) < threshold then Inl (Errorf ''insufficient responses'')
     else if so_StackID opts = [] \<and> list_ex (\<lambda>resp. rs_EncryptedEnv resp \<noteq> rs_EncryptedEnv (hd responses)) responses then
       Inl (Errorf ''environment data mismatch'')
     else
       bind_res (wrap_err ''failed to recover app private key''
         (case GetMasterPublicKey L (httpClient c) pub_arrival order (Some operators) of
            Inr masterPubKey \<Rightarrow>
              bind_res (RecoverAppPrivateKeyWithRetry L appID partialSigs threshold
                  (\<lambda>candidate. VerifyAppPrivateKey L appID candidate masterPubKey = Inr True)) (\<lambda>key. Inr (key, True))
          | Inl _ \<Rightarrow> bind_res (RecoverAppPrivateKey L appID partialSigs threshold) (\<lambda>key. Inr (key, False)))) (\<lambda>(appPrivateKey, verified).
       Inr \<lparr>AppPrivateKey = appPrivateKey, sr_EncryptedEnv = rs_EncryptedEnv (hd responses), sr_PublicEnv = rs_PublicEnv (hd responses),
            PartialSigs = partialSigs, ResponseCount = int (length responses), ThresholdNeeded = threshold,
            sr_ExtraData = so_ExtraData opts, Verified = verified\<rparr>)))))"

subsection \<open>What a result guarantees\<close>

lemma search_loop_result: "search_loop f all k cap n ind = Found r \<Longrightarrow> \<exists>ind'. f (map ((!) all) ind') = Some r"
proof (induction f all k cap n ind rule: search_loop.induct)
  case (1 f all k cap n ind)
  from "1.prems" show ?case
    by (subst (asm) search_loop.simps) (auto split: option.splits if_splits intro: "1.IH")
qed

lemma retry_validated: "RecoverAppPrivateKeyWithRetry L appID sigs t validate = Inr key \<Longrightarrow> validate key"
  by (auto simp: RecoverAppPrivateKeyWithRetry_def recoverAppPrivateKeyWithRetry_def trySubset_def split: if_splits search.splits sum.splits
      dest!: search_loop_result)

lemma verified_key:
  assumes L: "curve_laws L" and v: "VerifyAppPrivateKey L appID key mpk = Inr True" and s: "den2 L mpk s" "HashToG1 L appID = Inr (enc1 L h)"
  shows "den1 L key (s * h)"
proof -
  note G = curve_lawsD [OF L]
  obtain p where "g1_SetBytes L (g1_CompressedBytes key) = Some p"
    using v by (auto simp: VerifyAppPrivateKey_def G1PointFromCompressedBytes_def res_simps split: option.splits)
  then obtain x where x: "den1 L key x"
    using G(1) group_lawsD(9) unfolding g1_laws_def codec_laws_def den1_def by metis
  from VerifyAppPrivateKey_iff [OF L s(2) den1_intros(1) [OF G(1)] x s(1)] v have "x = s * h" by simp
  with x show ?thesis by simp
qed

lemma check_options_fields:
  "check_options (Some opts) = Inr opts' \<Longrightarrow>
     so_StackID opts' = so_StackID opts \<and> so_RSAPublicKeyPEM opts' = so_RSAPublicKeyPEM opts"
  by (auto simp: check_options_def Let_def split: if_splits)

lemma create_request_fields:
  "create_request S appID opts = Inr req \<Longrightarrow> rq_AppID req = appID \<and> rq_RSAPubKeyTmp req = so_RSAPublicKeyPEM opts"
proof -
  have e: "createECDSAAttestationRequest S appID opts (so_RSAPublicKeyPEM opts) = Inr req \<Longrightarrow>
      rq_AppID req = appID \<and> rq_RSAPubKeyTmp req = so_RSAPublicKeyPEM opts" for req
    unfolding createECDSAAttestationRequest_def Let_def bind_res_eq_Inr by auto
  assume c: "create_request S appID opts = Inr req"
  show ?thesis
  proof (cases "so_AttestationMethod opts = ''ecdsa''")
    case True
    then show ?thesis using c e 
      unfolding create_request_def Let_def by (clarsimp simp: bind_res_eq_Inr)
  next
    case False
    then show ?thesis using c

      unfolding create_request_def Let_def createEigenXSNPAttestationRequest_def by (clarsimp simp: bind_res_eq_Inr split: if_split_asm)
  qed
qed

lemma collected_responses:
  assumes arrival: "\<And>xs. mset (arrival xs) = mset xs"
    and get: "GetEncryptedSecretsFromKMSNodesWithPartialSigs S H arrival ops req pem = Inr (responses, sigs)"
  shows "responses \<noteq> []" "length responses \<le> length (Peers ops)"
    "\<forall>resp \<in> set responses. \<exists>op \<in> set (Peers ops). requestSecretsFromKMS H (SocketAddress op) req = Inr resp"
proof -
  define rs where "rs = collected arrival (secrets_result S H req pem) (Peers ops)"
  have r: "responses = map fst rs" "responses \<noteq> []"
    using get by (auto simp: GetEncryptedSecretsFromKMSNodesWithPartialSigs_def rs_def [symmetric] Let_def split: if_splits)
  then show "responses \<noteq> []" by simp
  have m: "mset rs = mset (List.map_filter (secrets_result S H req pem) (Peers ops))" unfolding rs_def collected_def by (rule arrival)
  from mset_eq_length [OF m] show "length responses \<le> length (Peers ops)" using r(1) map_filter_length by simp
  have rs: "set rs = {y. \<exists>op \<in> set (Peers ops). secrets_result S H req pem op = Some y}" using mset_eq_setD [OF m] by (simp only: set_map_filter)
  have "\<exists>op \<in> set (Peers ops). requestSecretsFromKMS H (SocketAddress op) req = Inr (fst x)" if x: "x \<in> set rs" for x
  proof -
    obtain op where "op \<in> set (Peers ops)" "secrets_result S H req pem op = Some x"
      using x unfolding rs by blast
    then show ?thesis by (auto simp: secrets_result_def split: sum.split_asm option.split_asm)
  qed
  then show "\<forall>resp \<in> set responses. \<exists>op \<in> set (Peers ops). requestSecretsFromKMS H (SocketAddress op) req = Inr resp" using r(1) by auto
qed

lemma RetrieveSecretsWithOptions_Inr:
  assumes res: "RetrieveSecretsWithOptions L S c arrival pub_arrival order appID (Some opts) = Inr res"
  obtains opts' ops req responses sigs where
    "check_options (Some opts) = Inr opts'" "GetOperators c = Inr ops" "create_request S appID opts' = Inr req"
    "GetEncryptedSecretsFromKMSNodesWithPartialSigs S (httpClient c) arrival ops req (so_RSAPrivateKeyPEM opts') = Inr (responses, sigs)"
    "\<not> int (length responses) < CalculateThreshold (int (length (Peers ops)))"
    "\<not> (so_StackID opts' = [] \<and> list_ex (\<lambda>resp. rs_EncryptedEnv resp \<noteq> rs_EncryptedEnv (hd responses)) responses)"
    "res = \<lparr>AppPrivateKey = AppPrivateKey res, sr_EncryptedEnv = rs_EncryptedEnv (hd responses), sr_PublicEnv = rs_PublicEnv (hd responses),
       PartialSigs = sigs, ResponseCount = int (length responses), ThresholdNeeded = CalculateThreshold (int (length (Peers ops))),
       sr_ExtraData = so_ExtraData opts', Verified = Verified res\<rparr>"
    "Verified res \<Longrightarrow> \<exists>mpk. GetMasterPublicKey L (httpClient c) pub_arrival order (Some ops) = Inr mpk \<and>
       VerifyAppPrivateKey L appID (AppPrivateKey res) mpk = Inr True"
proof -
  obtain opts' ops req responses sigs key verified where
    o: "check_options (Some opts) = Inr opts'" "GetOperators c = Inr ops" and req: "create_request S appID opts' = Inr req"
    and get: "GetEncryptedSecretsFromKMSNodesWithPartialSigs S (httpClient c) arrival ops req (so_RSAPrivateKeyPEM opts') = Inr (responses, sigs)"
    and enough: "\<not> int (length responses) < CalculateThreshold (int (length (Peers ops)))"
    and env: "\<not> (so_StackID opts' = [] \<and> list_ex (\<lambda>resp. rs_EncryptedEnv resp \<noteq> rs_EncryptedEnv (hd responses)) responses)"
    and rec: "(case GetMasterPublicKey L (httpClient c) pub_arrival order (Some ops) of
            Inr masterPubKey \<Rightarrow>
              bind_res (RecoverAppPrivateKeyWithRetry L appID sigs (CalculateThreshold (int (length (Peers ops))))
                  (\<lambda>candidate. VerifyAppPrivateKey L appID candidate masterPubKey = Inr True)) (\<lambda>key. Inr (key, True))
          | Inl _ \<Rightarrow> bind_res (RecoverAppPrivateKey L appID sigs (CalculateThreshold (int (length (Peers ops))))) (\<lambda>key. Inr (key, False))) =
        Inr (key, verified)"
    and r: "res = \<lparr>AppPrivateKey = key, sr_EncryptedEnv = rs_EncryptedEnv (hd responses), sr_PublicEnv = rs_PublicEnv (hd responses),
            PartialSigs = sigs, ResponseCount = int (length responses), ThresholdNeeded = CalculateThreshold (int (length (Peers ops))),
            sr_ExtraData = so_ExtraData opts', Verified = verified\<rparr>"
    using res unfolding RetrieveSecretsWithOptions_def Let_def bind_res_eq_Inr wrap_err_eq_Inr
    by (clarsimp simp only: split_paired_all prod.case bind_res_eq_Inr wrap_err_eq_Inr sum.distinct split: if_split_asm) blast
  have v: "\<exists>mpk. GetMasterPublicKey L (httpClient c) pub_arrival order (Some ops) = Inr mpk \<and> VerifyAppPrivateKey L appID key mpk = Inr True" if verified
    using rec that retry_validated by (auto simp: res_simps split: sum.splits dest!: retry_validated)
  show thesis using that [OF o req get enough env] v unfolding r by auto
qed


subsection \<open>A client's request is answered\<close>

text \<open>
  C13. Client and node agree on the signed challenge: the request that a client creates with the key of
  the application's creator is answered by every node that allows the application, within the time
  window of the challenge, when the node has a key version for the time of the request.
\<close>

theorem client_request_served:
  assumes E: "eth_laws (sc_eth S)" "se_eth V = sc_eth S" "gm_get (se_manager V) ''ecdsa'' = Some (ecdsa_method (sc_eth S) cfg now)"
    and opts: "so_AttestationMethod opts = ''ecdsa''" "so_ECDSAPrivateKey opts = Some k" "so_RSAPublicKeyPEM opts \<noteq> []"
      "length (so_RSAPublicKeyPEM opts) \<le> 8192" "length (so_ExtraData opts) \<le> MaxExtraDataSize"
    and req: "create_request S appID opts = Inr req" "len \<le> maxSecretsBodyBytes"
    and time: "0 \<le> sc_challengeTime S" "sc_challengeTime S \<le> 2 ^ 62" "sc_challengeTime S * 10 ^ 9 \<le> now" "int64_range now"
      "now - sc_challengeTime S * 10 ^ 9 \<le> ChallengeTimeWindow (NewECDSAAttestationMethod cfg)" "ChallengeTimeWindow (NewECDSAAttestationMethod cfg) < 2 ^ 63 - 1"
    and app: "appID \<noteq> []" "app_allowed (sv_node sv) appID" "se_IsHexAddress V appID"
      "eth_UnmarshalPubkey (sc_eth S) (eth_FromECDSAPub (sc_eth S) k) = Some signer" "se_GetAppCreator V (se_HexToAddress V appID) = Some signer"
    and key: "key_version (n_keyStore (sv_node sv)) (sc_now S) = HttpOK kv" "signAppIDWithVersion L appID (Some kv) = Inr sig"
      "se_json_sig V sig = Some b" "se_rsa_Encrypt V b (so_RSAPublicKeyPEM opts) = Some enc"
  shows "\<exists>resp. handleSecretsRequest L V (''POST'', len, Some req) sv = (sv, HttpOK resp) \<and> rs_EncryptedPartialSig resp = enc \<and>
    rs_ExtraData resp = so_ExtraData opts"
proof -
  obtain req0 where r0: "createECDSAAttestationRequest S appID opts (so_RSAPublicKeyPEM opts) = Inr req0" "req = req0\<lparr>rq_ExtraData := so_ExtraData opts\<rparr>"
    using req(1) opts(1) unfolding create_request_def Let_def by (clarsimp simp: bind_res_eq_Inr)
  obtain nonce challenge signature where c: "GenerateChallenge (sc_challengeTime S) nonce = Inr challenge"
      "SignChallenge (sc_eth S) (Some k) appID challenge = Inr signature"
    and req0: "req0 = SecretsRequestV1_zero\<lparr>rq_AppID := appID, rq_AttestationMethod := ''ecdsa'', rq_Attestation := signature,
       rq_Challenge := str_bytes challenge, rq_PublicKey := eth_FromECDSAPub (sc_eth S) k, rq_RSAPubKeyTmp := so_RSAPublicKeyPEM opts,
       rq_AttestationTime := sc_now S\<rparr>"
    using r0(1) opts(2) unfolding createECDSAAttestationRequest_def Let_def by (clarsimp simp: bind_res_eq_Inr)
  have f: "rq_AppID req = appID" "rq_StackID req = []" "rq_AttestationMethod req = ''ecdsa''" "rq_Attestation req = signature"
    "rq_Challenge req = str_bytes challenge" "rq_PublicKey req = eth_FromECDSAPub (sc_eth S) k" "rq_RSAPubKeyTmp req = so_RSAPublicKeyPEM opts"
    "rq_AttestationTime req = sc_now S" "rq_ExtraData req = so_ExtraData opts" "rq_CCInitData req = []"
    by (simp_all add: r0(2) req0 SecretsRequestV1_zero_def)
  have sg: "length signature = 65" using E(1) c(2) by (auto simp: eth_laws_def SignChallenge_def Let_def)
  have a: "ar_AppID (attestation_request req) = appID" "ar_Challenge (attestation_request req) = str_bytes challenge"
    "ar_PublicKey (attestation_request req) = eth_FromECDSAPub (sc_eth S) k" "ar_Attestation (attestation_request req) = signature"
    by (simp_all add: attestation_request_def f)
  let ?claims = "AttestationClaims_zero\<lparr>ac_AppID := appID, ac_ImageDigest := (if AllowedImageDigest (NewECDSAAttestationMethod cfg) = []
      then ''ecdsa:unverified'' else AllowedImageDigest (NewECDSAAttestationMethod cfg)), IssuedAt := sc_challengeTime S,
      ac_PublicKey := eth_FromECDSAPub (sc_eth S) k\<rparr>"
  have "0 \<le> now" using time(1,3) by simp
  from ECDSA_Verify_signed [OF E(1) app(1) time(1,2,6) c a this time(4)]
  have v: "verified_claims V req = Inr ?claims"
    using time(3,5) by (simp add: verified_claims_def VerifyWithMethod_def f(3) E(3) ecdsa_method_def)
  obtain release where auth: "authorize V req ?claims = HttpOK release"
    using app(3-5) E(2) by (auto simp: authorize_def f(1-3) verifyECDSAOwnership_def)
  have "validate_fields (sv_node sv) req = HttpOK ()"
    using app(1,2) opts(3-5) by (simp add: validate_fields_def f sg MaxAttestationSize_def)
  moreover have "JTI ?claims = []" "ac_AppID ?claims = appID" by (simp_all add: AttestationClaims_zero_def)
  ultimately show ?thesis
    using req(2) v auth key by (simp add: handleSecretsRequest_def verify_request_def spend_token_def answer_request_def f seal_def)
qed

subsection \<open>A retrieval\<close>

text \<open>
  Each operator serves the master key 5 and the signature of its share of
  \<open>5 + 2 x\<close> for \<open>0x0a\<close>, the last one a wrong one.
\<close>

definition client_http :: http where
  "client_http = \<lparr>http_pubkey = (\<lambda>_. Answered 200 (Some ([], [enc2 mock_lib 5], Some (enc2 mock_lib 5), 7, True))),
     http_sign = (\<lambda>_ _. ContactFailed),
     http_secrets = (\<lambda>url _. Answered 200 (Some \<lparr>rs_EncryptedEnv = ''env'', rs_PublicEnv = url,
       rs_EncryptedPartialSig = g1_CompressedBytes (enc1 mock_lib
         (if url = ''a/secrets'' then 7 * 5 else if url = ''b/secrets'' then 9 * 5 else 0)), rs_ExtraData = []\<rparr>))\<rparr>"

definition mock_client :: Client where
  "mock_client = \<lparr>avsAddress = [], operatorSetID = 0, contractCaller = (\<lambda>_ _. Inr client_peers), httpClient = client_http\<rparr>"

definition mock_retrieval :: "byte sec_client" where
  "mock_retrieval = \<lparr>sc_eth = mock_eth, sc_challengeTime = 1000, sc_now = 1100, sc_GenerateKey = None, sc_nonce = Some (replicate 32 0),
     sc_json_claims = (\<lambda>_. Some [1]), sc_rsa_Decrypt = (\<lambda>b _. Some b), sc_unjson_sig = (\<lambda>b. Some (G1Point b))\<rparr>"

definition mock_options :: "byte SecretsOptions" where
  "mock_options = \<lparr>so_AttestationMethod = ''ecdsa'', so_ImageDigest = [], so_ECDSAPrivateKey = Some 7, so_TPMAttestationBytes = [],
     so_RawSNPEvidence = [], so_CCInitData = [], so_RSAPrivateKeyPEM = [1], so_RSAPublicKeyPEM = [1], so_ExtraData = [], so_StackID = []\<rparr>"

lemma mock_create: "create_request mock_retrieval ''0x0a'' mock_options = Inr (ecdsa_secrets\<lparr>rq_AttestationTime := 1100\<rparr>)"
  using signed_request_facts(1,2)
  by (simp add: create_request_def createECDSAAttestationRequest_def mock_retrieval_def mock_options_def Let_def ecdsa_secrets_def
      SecretsRequestV1_zero_def signed_request_facts mock_eth_def)

theorem client_request_served_witness:
  "\<exists>resp. handleSecretsRequest mock_lib (mock_env 1100) (''POST'', 100, Some (ecdsa_secrets\<lparr>rq_AttestationTime := 1100\<rparr>)) mock_server =
    (mock_server, HttpOK resp) \<and> rs_EncryptedPartialSig resp = [5, 1]"
proof -
  obtain sig where sig: "signAppIDWithVersion mock_lib ''0x0a'' (Some (objs demo_keys 0)) = Inr sig" using mock_key(2) by blast
  have kv: "key_version (n_keyStore (sv_node mock_server)) (sc_now mock_retrieval) = HttpOK (objs demo_keys 0)"
    by (simp add: mock_server_def mock_retrieval_def key_version_def demo_keys_def GetKeyVersionAtTime_def)
  have cfg: "NewECDSAAttestationMethod mock_config = mock_config"
    by (simp add: mock_config_def NewECDSAAttestationMethod_def DefaultChallengeTimeWindow_def)
  have m: "gm_get (se_manager (mock_env 1100)) ''ecdsa'' = Some (ecdsa_method (sc_eth mock_retrieval) mock_config (1100 * 10 ^ 9))"
    by (simp add: mock_env_def mock_retrieval_def)
  have allowed: "app_allowed (sv_node mock_server) ''0x0a''" by (simp add: mock_server_def new_node_def app_allowed_def)
  have e: "eth_laws (sc_eth mock_retrieval)" "se_eth (mock_env 1100) = sc_eth mock_retrieval"
    by (simp_all add: mock_retrieval_def mock_env_def mock_eth_laws)
  have "\<exists>resp. handleSecretsRequest mock_lib (mock_env 1100) (''POST'', 100, Some (ecdsa_secrets\<lparr>rq_AttestationTime := 1100\<rparr>)) mock_server =
      (mock_server, HttpOK resp) \<and> rs_EncryptedPartialSig resp = [5, 1] \<and> rs_ExtraData resp = so_ExtraData mock_options"
    by (rule client_request_served [where k = 7 and signer = 7 and b = "[5]", OF e m _ _ _ _ _ mock_create _ _ _ _ _ _ _ _ allowed _ _ _ kv sig])
      (simp_all add: mock_env_def mock_retrieval_def mock_options_def cfg signed_request_facts int64_range_def maxSecretsBodyBytes_def
        mock_eth_def)
  then show ?thesis by blast
qed

lemma mock_master_key: "GetMasterPublicKey mock_lib (httpClient mock_client) id id (Some client_peers) = Inr (enc2 mock_lib 5)"
proof -
  let ?r = "([enc2 mock_lib 5], Some (enc2 mock_lib 5), [])"
  have c: "collected id (pub_result client_http) (Peers client_peers) = [?r, ?r, ?r]"
    by (simp add: collected_def client_peers_def client_http_def pub_result_def body_of_def map_filter_simps)
  note L = mock_lib_laws curve_lawsD [OF mock_lib_laws]
  have "mpk_vote mock_lib ?r = Some (enc2 mock_lib 5)"
    using den2_FromCompressedBytes [OF den2_intros(1) [OF L(3), of 5]] g2_lawsD(10) [OF L(3), of 5]
    by (simp add: mpk_vote_def enc2_def)
  then have "mpk_votes mock_lib [?r, ?r, ?r] =
      ([(EncodeToString (g2_CompressedBytes (enc2 mock_lib 5)), enc2 mock_lib 5)], [(EncodeToString (g2_CompressedBytes (enc2 mock_lib 5)), 3)])"
    by (simp add: mpk_votes_def Let_def)
  moreover have "length (Peers client_peers) = 3" "Peers client_peers \<noteq> []" by (simp_all add: client_peers_def)
  ultimately show ?thesis by (simp add: GetMasterPublicKey_def mock_client_def c Let_def CalculateThreshold_def)
qed

lemma mock_shares:
  "\<exists>key. RecoverAppPrivateKeyWithRetry mock_lib ''0x0a'' [(1, enc1 mock_lib (7 * 5)), (2, enc1 mock_lib (9 * 5)), (3, enc1 mock_lib 0)] 2
     (\<lambda>candidate. VerifyAppPrivateKey mock_lib ''0x0a'' candidate (enc2 mock_lib 5) = Inr True) = Inr key"
proof -
  note L = mock_lib_laws curve_lawsD [OF mock_lib_laws]
  let ?sigs = "[(1, enc1 mock_lib (7 * 5)), (2, enc1 mock_lib (9 * 5)), (3, enc1 mock_lib 0)] :: (address \<times> G1Point) list"
  let ?v = "\<lambda>candidate. VerifyAppPrivateKey mock_lib ''0x0a'' candidate (enc2 mock_lib 5) = Inr True"
  have "1 + gf_of_int 4 = 5" by code_simp
  then have q: "HashToG1 mock_lib ''0x0a'' = Inr (enc1 mock_lib 5)" by (simp add: HashToG1_mock)
  have mul: "ScalarMulG1 mock_lib (enc1 mock_lib 5) (Some k) = Inr (enc1 mock_lib (k * 5))" for k by (simp add: ScalarMulG1_den L)
  have ev: "peval [5, 2] (AddressToFr mock_lib 1) = 7" "peval [5, 2] (AddressToFr mock_lib 2) = 9"
    by (simp_all add: AddressToFr_mock) code_simp+
  have d: "distinct (map (AddressToFr mock_lib) [1, 2])" by (simp add: AddressToFr_mock) code_simp
  have p0: "peval [5, 2] (0 :: gf) = 5" by simp
  have "\<exists>key. ScalarMulG1 mock_lib (enc1 mock_lib 5) (Some (peval [5, 2] 0)) = Inr key \<and>
      RecoverAppPrivateKey mock_lib ''0x0a'' (map (\<lambda>j. (j, enc1 mock_lib (peval [5, 2] (AddressToFr mock_lib j) * 5))) [1, 2]) 2 =
       (if G1_IsZero mock_lib key = Inr True then Inl (Errorf ''recovered app private key is zero'') else Inr key)"
    by (rule recover_from_shares [OF L(1) d _ _ _ q]) (simp_all add: mul)
  note this [unfolded list.map ev p0]
  moreover have "(5 :: gf) * 5 \<noteq> 0" by code_simp
  ultimately have r: "RecoverAppPrivateKey mock_lib ''0x0a'' (filter (\<lambda>(a, _). a \<in> {1, 2}) ?sigs) 2 = Inr (enc1 mock_lib (5 * 5))"
    by (auto simp: mul G1_IsZero_den [OF L(2) den1_intros(1) [OF L(2)]] split: if_splits)
  have "?v (enc1 mock_lib (5 * 5))"
    using VerifyAppPrivateKey_iff [OF L(1) q den1_intros(1) [OF L(2)] den1_intros(1) [OF L(2), of "5 * 5"] den2_intros(1) [OF L(3), of 5]] by simp
  moreover have "{1, 2} \<subseteq> set (gm_keys ?sigs)" "card {1 :: address, 2} = nat 2" by auto
  moreover have "gm_ok ?sigs" by (simp add: gm_ok_def)
  moreover have "length ?sigs choose nat 2 \<le> DefaultMaxRecoveryAttempts" by (simp add: DefaultMaxRecoveryAttempts_def numeral_eq_Suc)
  ultimately show ?thesis using retry_finds [OF _ _ _ _ _ _ r] by fastforce
qed


end
