(* ===== verification/Encryption.thy ===== *)
theory Encryption
  imports Secrets_Client
begin

text \<open>
  \<open>pkg/encryption/rsa.go\<close>: RSA-OAEP encryption of the answers to secrets requests. PEM, X.509 and
  RSA are a record of functions. The theorems: neither direction works with a key of fewer than 2048
  bits; encryption under a generated public key is undone by the private key in both of its
  encodings; and the partial signature that a node seals for a request is what the client reads from
  the answer.
\<close>

text \<open>
  A parsed public key is an RSA key or another one (\<open>Some None\<close>), and so is a key in the PKCS 8
  form. Encryption is randomised by \<open>'r\<close>.
\<close>

record ('p, 's, 'r) rsalib =
  pem_Decode :: "bytes \<Rightarrow> bytes option"
  pem_Encode :: "string \<Rightarrow> bytes \<Rightarrow> bytes"
  x509_ParsePKIXPublicKey :: "bytes \<Rightarrow> 'p option option"
  x509_ParsePKCS1PrivateKey :: "bytes \<Rightarrow> 's option"
  x509_ParsePKCS8PrivateKey :: "bytes \<Rightarrow> 's option option"
  x509_MarshalPKCS1PrivateKey :: "'s \<Rightarrow> bytes"
  x509_MarshalPKIXPublicKey :: "'p \<Rightarrow> bytes option"
  pub_BitLen :: "'p \<Rightarrow> int"
  priv_BitLen :: "'s \<Rightarrow> int"
  priv_PublicKey :: "'s \<Rightarrow> 'p"
  rsa_GenerateKey :: "'r \<Rightarrow> int \<Rightarrow> 's option"
  rsa_EncryptOAEP :: "'r \<Rightarrow> 'p \<Rightarrow> bytes \<Rightarrow> bytes option"
  rsa_DecryptOAEP :: "'s \<Rightarrow> bytes \<Rightarrow> bytes option"

definition MinRSAKeyBits :: int where
  "MinRSAKeyBits = 2048"

definition rsa_Encrypt :: "('p, 's, 'r) rsalib \<Rightarrow> 'r \<Rightarrow> bytes \<Rightarrow> bytes \<Rightarrow> bytes res" where
  "rsa_Encrypt R rand plaintext publicKeyPEM =
     bind_res (lib_res ''failed to decode PEM block'' (pem_Decode R publicKeyPEM)) (\<lambda>block.
     bind_res (lib_res ''failed to parse public key'' (x509_ParsePKIXPublicKey R block)) (\<lambda>pubkey.
     bind_res (lib_res ''not an RSA public key'' pubkey) (\<lambda>rsaPubKey.
     if pub_BitLen R rsaPubKey < MinRSAKeyBits then Inl (Errorf ''RSA key too weak'')
     else lib_res ''encryption failed'' (rsa_EncryptOAEP R rand rsaPubKey plaintext))))"

text \<open>PKCS 1 first, then PKCS 8.\<close>

definition parse_private :: "('p, 's, 'r) rsalib \<Rightarrow> bytes \<Rightarrow> 's res" where
  "parse_private R block =
     (case x509_ParsePKCS1PrivateKey R block of
        Some privkey \<Rightarrow> Inr privkey
      | None \<Rightarrow> bind_res (lib_res ''failed to parse private key'' (x509_ParsePKCS8PrivateKey R block)) (\<lambda>k.
                lib_res ''not an RSA private key'' k))"

definition rsa_Decrypt :: "('p, 's, 'r) rsalib \<Rightarrow> bytes \<Rightarrow> bytes \<Rightarrow> bytes res" where
  "rsa_Decrypt R ciphertext privateKeyPEM =
     bind_res (lib_res ''failed to decode PEM block'' (pem_Decode R privateKeyPEM)) (\<lambda>block.
     bind_res (parse_private R block) (\<lambda>privkey.
     if priv_BitLen R privkey < MinRSAKeyBits then Inl (Errorf ''RSA key too weak'')
     else lib_res ''decryption failed'' (rsa_DecryptOAEP R privkey ciphertext)))"

definition rsa_GenerateKeyPair :: "('p, 's, 'r) rsalib \<Rightarrow> 'r \<Rightarrow> int \<Rightarrow> (bytes \<times> bytes) res" where
  "rsa_GenerateKeyPair R rand bits =
     (if bits < MinRSAKeyBits then Inl (Errorf ''RSA key size too small'')
      else
        bind_res (lib_res ''failed to generate key'' (rsa_GenerateKey R rand bits)) (\<lambda>privateKey.
        let privKeyPEM = pem_Encode R ''RSA PRIVATE KEY'' (x509_MarshalPKCS1PrivateKey R privateKey) in
        bind_res (lib_res ''failed to marshal public key'' (x509_MarshalPKIXPublicKey R (priv_PublicKey R privateKey))) (\<lambda>pubKeyBytes.
        Inr (privKeyPEM, pem_Encode R ''PUBLIC KEY'' pubKeyBytes))))"

subsection \<open>Weak keys\<close>

lemma rsa_Encrypt_Inr:
  assumes "rsa_Encrypt R rand m pem = Inr c"
  obtains block pk where "pem_Decode R pem = Some block" "x509_ParsePKIXPublicKey R block = Some (Some pk)"
    "MinRSAKeyBits \<le> pub_BitLen R pk" "rsa_EncryptOAEP R rand pk m = Some c"
  using assms by (auto simp: rsa_Encrypt_def res_simps split: if_splits)

lemma rsa_Decrypt_Inr:
  assumes "rsa_Decrypt R c pem = Inr m"
  obtains block sk where "pem_Decode R pem = Some block" "parse_private R block = Inr sk"
    "MinRSAKeyBits \<le> priv_BitLen R sk" "rsa_DecryptOAEP R sk c = Some m"
  using assms by (auto simp: rsa_Decrypt_def res_simps split: if_splits)

theorem weak_keys_refused:
  assumes "pem_Decode R pem = Some block" "x509_ParsePKIXPublicKey R block = Some (Some pk)" "pub_BitLen R pk < 2048"
  shows "\<not> ok (rsa_Encrypt R rand m pem)"
  using assms by (simp add: rsa_Encrypt_def MinRSAKeyBits_def)

subsection \<open>The round trip\<close>

text \<open>
  The documented behaviour of the libraries: what is marshalled and encoded is decoded and parsed
  again, generated keys have the requested size, which is also the size of the public half, and OAEP
  decryption undoes encryption.
\<close>

definition rsa_laws :: "('p, 's, 'r) rsalib \<Rightarrow> bool" where
  "rsa_laws R \<longleftrightarrow>
     (\<forall>t b. pem_Decode R (pem_Encode R t b) = Some b) \<and>
     (\<forall>pk b. x509_MarshalPKIXPublicKey R pk = Some b \<longrightarrow> x509_ParsePKIXPublicKey R b = Some (Some pk)) \<and>
     (\<forall>sk. x509_ParsePKCS1PrivateKey R (x509_MarshalPKCS1PrivateKey R sk) = Some sk) \<and>
     (\<forall>rand bits sk. rsa_GenerateKey R rand bits = Some sk \<longrightarrow> priv_BitLen R sk = bits) \<and>
     (\<forall>sk. pub_BitLen R (priv_PublicKey R sk) = priv_BitLen R sk) \<and>
     (\<forall>rand sk m c. rsa_EncryptOAEP R rand (priv_PublicKey R sk) m = Some c \<longrightarrow> rsa_DecryptOAEP R sk c = Some m)"

text \<open>A pair of encoded keys: the private one in either form.\<close>

definition key_pair :: "('p, 's, 'r) rsalib \<Rightarrow> bytes \<Rightarrow> bytes \<Rightarrow> bool" where
  "key_pair R privPEM pubPEM \<longleftrightarrow>
     (\<exists>sk b1 b2. pem_Decode R privPEM = Some b1 \<and> parse_private R b1 = Inr sk \<and>
        pem_Decode R pubPEM = Some b2 \<and> x509_ParsePKIXPublicKey R b2 = Some (Some (priv_PublicKey R sk)))"

lemma generated_key_pair:
  assumes "rsa_laws R" "rsa_GenerateKeyPair R rand bits = Inr (privPEM, pubPEM)"
  shows "key_pair R privPEM pubPEM"
  using assms
  by (auto simp: rsa_GenerateKeyPair_def rsa_laws_def key_pair_def parse_private_def Let_def res_simps split: if_splits)

theorem rsa_decrypt_encrypt:
  assumes "rsa_laws R" "key_pair R privPEM pubPEM" "rsa_Encrypt R rand m pubPEM = Inr c"
  shows "rsa_Decrypt R c privPEM = Inr m"
proof -
  obtain sk b1 b2 where k: "pem_Decode R privPEM = Some b1" "parse_private R b1 = Inr sk" "pem_Decode R pubPEM = Some b2"
    "x509_ParsePKIXPublicKey R b2 = Some (Some (priv_PublicKey R sk))"
    using assms(2) unfolding key_pair_def by blast
  have c: "MinRSAKeyBits \<le> pub_BitLen R (priv_PublicKey R sk)" "rsa_EncryptOAEP R rand (priv_PublicKey R sk) m = Some c"
    using assms(3) k(3,4) by (auto elim!: rsa_Encrypt_Inr)
  moreover have "pub_BitLen R (priv_PublicKey R sk) = priv_BitLen R sk" "rsa_DecryptOAEP R sk c = Some m"
    using assms(1) c(2) unfolding rsa_laws_def by auto
  ultimately show ?thesis using k by (simp add: rsa_Decrypt_def)
qed

subsection \<open>A sealed partial signature\<close>

text \<open>A node encrypts with the given randomness, a client decrypts.\<close>

definition rsa_seals :: "('p, 's, 'r) rsalib \<Rightarrow> 'r \<Rightarrow> bytes \<Rightarrow> bytes \<Rightarrow> bytes option" where
  "rsa_seals R rand m pem = (case rsa_Encrypt R rand m pem of Inl _ \<Rightarrow> None | Inr c \<Rightarrow> Some c)"

definition rsa_opens :: "('p, 's, 'r) rsalib \<Rightarrow> bytes \<Rightarrow> bytes \<Rightarrow> bytes option" where
  "rsa_opens R c pem = (case rsa_Decrypt R c pem of Inl _ \<Rightarrow> None | Inr m \<Rightarrow> Some m)"

text \<open>
  The client that made a request reads, from the answer of a node that served it, the partial
  signature which the node made with the key version that the request resolves to.
\<close>

theorem sealed_signature_recovered:
  assumes served: "handleSecretsRequest L V (meth, len, Some req) sv = (sv', HttpOK resp)"
    and answer: "http_secrets H (SocketAddress op @ ''/secrets'') req = Answered 200 (Some resp)"
    and rsa: "rsa_laws R" "key_pair R privPEM (rq_RSAPubKeyTmp req)" "se_rsa_Encrypt V = rsa_seals R rand" "sc_rsa_Decrypt S = rsa_opens R"
    and json: "\<And>sig b. se_json_sig V sig = Some b \<Longrightarrow> sc_unjson_sig S b = Some sig"
  shows "\<exists>k sig. key_version (n_keyStore (sv_node sv)) (rq_AttestationTime req) = HttpOK k \<and>
    signAppIDWithVersion L (rq_AppID req) (Some k) = Inr sig \<and> secrets_result S H req privPEM op = Some (resp, OperatorAddress op, sig)"
proof -
  obtain k release where k: "key_version (n_keyStore (sv_node sv)) (rq_AttestationTime req) = HttpOK k" "seal L V req k release = HttpOK resp"
    using handleSecretsRequest_ok [OF served] by (metis option.inject snd_conv)
  obtain sig b where s: "signAppIDWithVersion L (rq_AppID req) (Some k) = Inr sig" "se_json_sig V sig = Some b"
    "rsa_seals R rand b (rq_RSAPubKeyTmp req) = Some (rs_EncryptedPartialSig resp)"
    using k(2) by (auto simp: seal_def rsa(3) split: sum.splits option.splits)
  then have "rsa_Encrypt R rand b (rq_RSAPubKeyTmp req) = Inr (rs_EncryptedPartialSig resp)" by (auto simp: rsa_seals_def split: sum.splits)
  then have "rsa_Decrypt R (rs_EncryptedPartialSig resp) privPEM = Inr b" by (rule rsa_decrypt_encrypt [OF rsa(1,2)])
  then have "sc_rsa_Decrypt S (rs_EncryptedPartialSig resp) privPEM = Some b" by (simp add: rsa(4) rsa_opens_def)
  with k(1) s(1) json [OF s(2)] answer show ?thesis by (simp add: secrets_result_def requestSecretsFromKMS_def)
qed

text \<open>Keys as their sizes, and no encryption at all, satisfy the laws.\<close>

definition mock_rsa :: "(nat, nat, unit) rsalib" where
  "mock_rsa = \<lparr>pem_Decode = Some, pem_Encode = (\<lambda>_ b. b), x509_ParsePKIXPublicKey = (\<lambda>b. Some (Some (length b))),
     x509_ParsePKCS1PrivateKey = (\<lambda>b. Some (length b)), x509_ParsePKCS8PrivateKey = (\<lambda>_. None),
     x509_MarshalPKCS1PrivateKey = (\<lambda>n. replicate n 0), x509_MarshalPKIXPublicKey = (\<lambda>n. Some (replicate n 0)), pub_BitLen = int,
     priv_BitLen = int, priv_PublicKey = id, rsa_GenerateKey = (\<lambda>_ bits. if bits \<ge> 0 then Some (nat bits) else None),
     rsa_EncryptOAEP = (\<lambda>_ _ m. Some m), rsa_DecryptOAEP = (\<lambda>_ c. Some c)\<rparr>"

lemma mock_rsa_laws: "rsa_laws mock_rsa"
  by (auto simp: rsa_laws_def mock_rsa_def split: if_splits)

lemma mock_rsa_decrypt_encrypt:
  "\<exists>privPEM pubPEM c. rsa_GenerateKeyPair mock_rsa () 2048 = Inr (privPEM, pubPEM) \<and> rsa_Encrypt mock_rsa () [1, 2] pubPEM = Inr c \<and>
     rsa_Decrypt mock_rsa c privPEM = Inr [1, 2]"
proof -
  obtain privPEM pubPEM where k: "rsa_GenerateKeyPair mock_rsa () 2048 = Inr (privPEM, pubPEM)" "length pubPEM = 2048"
    by (simp add: rsa_GenerateKeyPair_def mock_rsa_def MinRSAKeyBits_def)
  moreover have "rsa_Encrypt mock_rsa () [1, 2] pubPEM = Inr [1, 2]"
    using k(2) by (simp add: rsa_Encrypt_def mock_rsa_def MinRSAKeyBits_def)
  ultimately show ?thesis using rsa_decrypt_encrypt [OF mock_rsa_laws generated_key_pair [OF mock_rsa_laws k(1)]] by blast
qed

end
