(* ===== verification/Cdh_Helper.thy ===== *)
theory Cdh_Helper
  imports Secrets_Client Contract_Caller
begin

text \<open>
  \<open>cmd/kmsCDHHelper\<close>: the program that runs inside an attested pod, reads a request on its standard
  input and writes one variable of the stack's environment to its standard output. It takes its
  configuration from the init data that the attestation binds, obtains evidence, recovers the
  application's key with the client library, fetches the sealed secrets, decrypts them and caches the
  environment. This theory holds the parts of the program: its request and configuration, the evidence,
  the sealed secrets and the operators; \<open>Cdh_Run\<close> composes them and has the theorems.
\<close>

subsection \<open>Requests and configuration\<close>

record Request =
  hr_KMSURL :: string
  hr_AVSAddress :: string
  hr_OperatorSetID :: nat
  hr_RPCURL :: string
  hr_OperatorAddress :: string
  hr_StackID :: string
  hr_PlatformSecretsURL :: string
  hr_PlatformInternalAPIKey :: string
  hr_Key :: string

record initdataKMSConfig =
  ik_KMSURL :: string
  ik_AVSAddress :: string
  ik_OperatorSetID :: nat
  ik_RPCURL :: string
  ik_OperatorAddress :: string
  ik_StackID :: string
  ik_PlatformSecretsURL :: string
  ik_PlatformInternalAPIKey :: string

text \<open>The parts of a parsed URL that the code reads.\<close>

record url =
  u_Scheme :: string
  u_Host :: string
  u_Path :: string
  u_RawQuery :: string
  u_Fragment :: string

definition defaultSingleOperatorAddress :: string where
  "defaultSingleOperatorAddress = ''0x0000000000000000000000000000000000000001''"

definition appPrivateKeyKey :: string where
  "appPrivateKeyKey = ''__EIGENX_APP_PRIVATE_KEY__''"

definition cacheable :: "string \<Rightarrow> bool" where
  "cacheable key \<longleftrightarrow> key \<noteq> appPrivateKeyKey"

text \<open>The argument is the decoded input. The two fields of the platform are not read from it.\<close>

definition readRequest :: "Request option \<Rightarrow> Request res" where
  "readRequest stdin =
     bind_res (lib_res ''decode JSON'' stdin) (\<lambda>req0.
     let req = req0\<lparr>hr_PlatformSecretsURL := [], hr_PlatformInternalAPIKey := []\<rparr> in
     if hr_StackID req = [] then Inl (Errorf ''stack_id is required'')
     else if hr_Key req = [] then Inl (Errorf ''key is required'')
     else Inr req)"

definition decodeInitdata :: "'r snplib \<Rightarrow> bytes \<Rightarrow> bytes res" where
  "decodeInitdata B d =
     (let trimmed = TrimSpace (bytes_str d) in
      if length trimmed = 0 then Inl (Errorf ''empty initdata'')
      else if HasPrefix trimmed ''H4sI'' then
        let stripped = TrimRight trimmed ''=''; limit = 8 * 1024 * 1024 in
        (case gzip_Read B stripped (limit + 1) of
           None \<Rightarrow> Inl (Errorf ''gzip reader'')
         | Some None \<Rightarrow> Inl (Errorf ''read decompressed initdata'')
         | Some (Some out) \<Rightarrow> if length out > limit then Inl (Errorf ''decompressed initdata exceeds the limit'') else Inr out)
      else Inr (str_bytes trimmed))"

text \<open>\<open>u\<close> parses the inner document; a missing key or a value that is not a string gives no configuration.\<close>

definition parseInitdataKMSConfig ::
  "'r snplib \<Rightarrow> (string \<Rightarrow> initdataKMSConfig option) \<Rightarrow> bytes \<Rightarrow> initdataKMSConfig option res" where
  "parseInitdataKMSConfig B u ccInitData =
     bind_res (wrap_err ''decode cc_init_data wire format'' (decodeInitdata B ccInitData)) (\<lambda>tomlBytes.
     bind_res (lib_res ''parse cc_init_data TOML'' (toml_data B tomlBytes)) (\<lambda>doc.
     case gm_get doc ''eigenx.toml'' of
       Some (AnyString raw) \<Rightarrow> bind_res (lib_res ''parse [data].eigenx.toml'' (u raw)) (\<lambda>cfg. Inr (Some cfg))
     | _ \<Rightarrow> Inr None))"

definition is_stack_char :: "char \<Rightarrow> bool" where
  "is_stack_char c \<longleftrightarrow>
     (let n = of_char c :: nat in 65 \<le> n \<and> n \<le> 90 \<or> 97 \<le> n \<and> n \<le> 122 \<or> 48 \<le> n \<and> n \<le> 57 \<or> n = 46 \<or> n = 95 \<or> n = 45)"

definition validateStackID :: "string \<Rightarrow> unit res" where
  "validateStackID stackID =
     (if stackID = [] then Inl (Errorf ''stack_id: empty'')
      else if stackID = ''.'' \<or> stackID = ''..'' then Inl (Errorf ''stack_id is not a valid path segment'')
      else if \<not> list_all is_stack_char stackID then Inl (Errorf ''stack_id contains characters outside the set'')
      else Inr ())"

definition validateHTTPURL :: "(string \<Rightarrow> url option) \<Rightarrow> string \<Rightarrow> unit res" where
  "validateHTTPURL Parse raw =
     bind_res (lib_res ''parse'' (Parse raw)) (\<lambda>u.
     if u_Scheme u \<noteq> ''http'' \<and> u_Scheme u \<noteq> ''https'' then Inl (Errorf ''scheme not allowed'')
     else if u_Host u = [] then Inl (Errorf ''missing host'')
     else Inr ())"

text \<open>\<open>allow\<close>: the variable \<open>EIGENX_ALLOW_SINGLE_OPERATOR_KMS\<close> is 1.\<close>

definition applyInitdataKMSConfig ::
  "(string \<Rightarrow> url option) \<Rightarrow> bool \<Rightarrow> Request \<Rightarrow> initdataKMSConfig option \<Rightarrow> Request res" where
  "applyInitdataKMSConfig Parse allow req cfg =
     (case cfg of
        None \<Rightarrow> Inl (Errorf ''cc_init_data missing [data].eigenx.toml; KMS coords cannot be sourced safely'')
      | Some cfg \<Rightarrow>
          if ik_KMSURL cfg = [] \<and> ik_RPCURL cfg = [] then Inl (Errorf ''must set kms_url or rpc_url'')
          else if ik_AVSAddress cfg = [] then Inl (Errorf ''must set avs_address'')
          else
          bind_res (if ik_KMSURL cfg \<noteq> [] then validateHTTPURL Parse (ik_KMSURL cfg) else Inr ()) (\<lambda>_.
          bind_res (if ik_RPCURL cfg \<noteq> [] then validateHTTPURL Parse (ik_RPCURL cfg) else Inr ()) (\<lambda>_.
          if ik_KMSURL cfg \<noteq> [] \<and> \<not> allow then Inl (Errorf ''kms_url is set but not enabled; refusing trust downgrade'')
          else if ik_StackID cfg = [] then Inl (Errorf ''must set stack_id'')
          else
          bind_res (wrap_err ''eigenx.toml'' (validateStackID (ik_StackID cfg))) (\<lambda>_.
          if ik_PlatformSecretsURL cfg = [] then Inl (Errorf ''must set platform_secrets_url'')
          else if ik_PlatformInternalAPIKey cfg = [] then Inl (Errorf ''must set platform_internal_api_key'')
          else
          bind_res (validateHTTPURL Parse (ik_PlatformSecretsURL cfg)) (\<lambda>_.
          Inr (req\<lparr>hr_KMSURL := ik_KMSURL cfg, hr_AVSAddress := ik_AVSAddress cfg, hr_OperatorSetID := ik_OperatorSetID cfg,
            hr_RPCURL := ik_RPCURL cfg, hr_OperatorAddress := ik_OperatorAddress cfg, hr_StackID := ik_StackID cfg,
            hr_PlatformSecretsURL := ik_PlatformSecretsURL cfg, hr_PlatformInternalAPIKey := ik_PlatformInternalAPIKey cfg\<rparr>))))))"

subsection \<open>Evidence\<close>

definition reportDataLength :: nat where
  "reportDataLength = 64"

text \<open>\<open>copy(out[:n], s)\<close> into an array of zeros.\<close>

definition copied :: "nat \<Rightarrow> bytes \<Rightarrow> bytes" where
  "copied n s = take n (s @ replicate n 0)"

definition buildReportData :: "'r snplib \<Rightarrow> bytes \<Rightarrow> bytes \<Rightarrow> bytes \<Rightarrow> bytes" where
  "buildReportData B rsaPubPEM extraData ccInitData =
     (let lower = snp_sha256 B (rsaPubPEM @ extraData); upperFull = snp_sha384 B ccInitData;
          lowerHex = EncodeToString (take 16 lower); upperHex = EncodeToString (take 16 upperFull)
      in copied 32 (str_bytes lowerHex) @ copied 32 (str_bytes upperHex))"

definition aaMaxBodyBytes :: nat where
  "aaMaxBodyBytes = 1024 * 1024"

text \<open>\<open>AA\<close> is the attestation agent: the runtime data of a query, and its status and body.\<close>

definition fetchAAEvidence :: "(bytes \<Rightarrow> (nat \<times> bytes) option) \<Rightarrow> bytes \<Rightarrow> bytes res" where
  "fetchAAEvidence AA reportData =
     bind_res (lib_res ''GET evidence'' (AA reportData)) (\<lambda>(status, full).
     let body = take aaMaxBodyBytes full in
     if status \<noteq> 200 then Inl (Errorf ''AA returned status'')
     else if length body = 0 then Inl (Errorf ''AA returned empty body'')
     else Inr body)"

record aaTcbVersion =
  tcb_Fmc :: "byte option"
  tcb_Bootloader :: byte
  tcb_Tee :: byte
  tcb_Snp :: byte
  tcb_Microcode :: byte

record aaVersion =
  av_Major :: byte
  av_Minor :: byte
  av_Build :: byte

record aaAttestationReport =
  aa_Version :: uint32
  aa_GuestSvn :: uint32
  aa_Policy :: uint64
  aa_FamilyId :: bytes
  aa_ImageId :: bytes
  aa_Vmpl :: uint32
  aa_SigAlgo :: uint32
  aa_CurrentTcb :: aaTcbVersion
  aa_PlatInfo :: uint64
  aa_KeyInfo :: uint32
  aa_ReportData :: bytes
  aa_Measurement :: bytes
  aa_HostData :: bytes
  aa_IdKeyDigest :: bytes
  aa_AuthorKeyDigest :: bytes
  aa_ReportId :: bytes
  aa_ReportIdMa :: bytes
  aa_ReportedTcb :: aaTcbVersion
  aa_CpuidFamId :: "byte option"
  aa_CpuidModId :: "byte option"
  aa_CpuidStep :: "byte option"
  aa_ChipId :: bytes
  aa_CommittedTcb :: aaTcbVersion
  aa_Current :: aaVersion
  aa_Committed :: aaVersion
  aa_LaunchTcb :: aaTcbVersion
  aa_LaunchMitVector :: "uint64 option"
  aa_CurMitVector :: "uint64 option"
  aa_SignatureR :: bytes
  aa_SignatureS :: bytes

text \<open>The report of go-sev-guest.\<close>

record pb_Report =
  pb_Version :: uint32
  pb_GuestSvn :: uint32
  pb_Policy :: uint64
  pb_FamilyId :: bytes
  pb_ImageId :: bytes
  pb_Vmpl :: uint32
  pb_SignatureAlgo :: uint32
  pb_CurrentTcb :: uint64
  pb_PlatformInfo :: uint64
  pb_SignerInfo :: uint32
  pb_ReportData :: bytes
  pb_Measurement :: bytes
  pb_HostData :: bytes
  pb_IdKeyDigest :: bytes
  pb_AuthorKeyDigest :: bytes
  pb_ReportId :: bytes
  pb_ReportIdMa :: bytes
  pb_ReportedTcb :: uint64
  pb_ChipId :: bytes
  pb_CommittedTcb :: uint64
  pb_CurrentBuild :: uint32
  pb_CurrentMinor :: uint32
  pb_CurrentMajor :: uint32
  pb_CommittedBuild :: uint32
  pb_CommittedMinor :: uint32
  pb_CommittedMajor :: uint32
  pb_LaunchTcb :: uint64
  pb_Signature :: bytes
  pb_Cpuid1EaxFms :: uint32
  pb_LaunchMitVector :: uint64
  pb_CurrentMitVector :: uint64


unbundle bit_operations_syntax

text \<open>Bootloader, tee, snp and microcode at the bytes 0, 1, 6 and 7.\<close>

definition packLegacyTcb :: "aaTcbVersion \<Rightarrow> uint64" where
  "packLegacyTcb t =
     (let b = (replicate 8 0)[0 := tcb_Bootloader t, 1 := tcb_Tee t, 6 := tcb_Snp t, 7 := tcb_Microcode t]
      in foldr (OR) (map (\<lambda>i. push_bit (8 * i) (ucast (b ! i))) [0..<8]) 0)"

text \<open>What the helper calls in \<open>go-sev-guest/abi\<close>, \<open>encoding/pem\<close> and \<open>encoding/json\<close>.\<close>

record aa_lib =
  FmsToCpuid1Eax :: "byte \<Rightarrow> byte \<Rightarrow> byte \<Rightarrow> uint32"
  ReportToAbiBytes :: "pb_Report \<Rightarrow> bytes option"
  EncodeToMemory :: "string \<Rightarrow> bytes \<Rightarrow> bytes option"
  uj_aaEvidence :: "bytes \<Rightarrow> (aaAttestationReport \<times> (string \<times> bytes) list) option"
  j_legacyEvidence :: "bytes \<times> string list \<Rightarrow> bytes option"

definition or_zero :: "'a :: zero option \<Rightarrow> 'a" where
  "or_zero v = (case v of None \<Rightarrow> 0 | Some x \<Rightarrow> x)"

definition need_length :: "string \<Rightarrow> bytes \<Rightarrow> nat \<Rightarrow> unit res" where
  "need_length name b n = (if length b \<noteq> n then Inl (Errorf (name @ '': wrong number of bytes'')) else Inr ())"

definition aaReportToProto :: "aa_lib \<Rightarrow> aaAttestationReport \<Rightarrow> pb_Report res" where
  "aaReportToProto Y r =
     (if tcb_Fmc (aa_CurrentTcb r) \<noteq> None \<or> tcb_Fmc (aa_ReportedTcb r) \<noteq> None \<or>
         tcb_Fmc (aa_CommittedTcb r) \<noteq> None \<or> tcb_Fmc (aa_LaunchTcb r) \<noteq> None then
        Inl (Errorf ''TCB version sets fmc - Turin/Venice not yet supported'')
      else
      bind_res (need_length ''report_data'' (aa_ReportData r) 64) (\<lambda>_.
      bind_res (need_length ''measurement'' (aa_Measurement r) 48) (\<lambda>_.
      bind_res (need_length ''host_data'' (aa_HostData r) 32) (\<lambda>_.
      bind_res (need_length ''family_id'' (aa_FamilyId r) 16) (\<lambda>_.
      bind_res (need_length ''image_id'' (aa_ImageId r) 16) (\<lambda>_.
      bind_res (need_length ''id_key_digest'' (aa_IdKeyDigest r) 48) (\<lambda>_.
      bind_res (need_length ''author_key_digest'' (aa_AuthorKeyDigest r) 48) (\<lambda>_.
      bind_res (need_length ''report_id'' (aa_ReportId r) 32) (\<lambda>_.
      bind_res (need_length ''report_id_ma'' (aa_ReportIdMa r) 32) (\<lambda>_.
      bind_res (need_length ''chip_id'' (aa_ChipId r) 64) (\<lambda>_.
      bind_res (need_length ''signature.r'' (aa_SignatureR r) 72) (\<lambda>_.
      bind_res (need_length ''signature.s'' (aa_SignatureS r) 72) (\<lambda>_.
      let sig = copied 72 (aa_SignatureR r) @ copied 72 (aa_SignatureS r) @ replicate 368 0;
          fms = (if aa_CpuidFamId r \<noteq> None \<or> aa_CpuidModId r \<noteq> None \<or> aa_CpuidStep r \<noteq> None then
                   FmsToCpuid1Eax Y (or_zero (aa_CpuidFamId r)) (or_zero (aa_CpuidModId r)) (or_zero (aa_CpuidStep r))
                 else 0)
      in Inr \<lparr>pb_Version = aa_Version r, pb_GuestSvn = aa_GuestSvn r, pb_Policy = aa_Policy r, pb_FamilyId = aa_FamilyId r,
           pb_ImageId = aa_ImageId r, pb_Vmpl = aa_Vmpl r, pb_SignatureAlgo = aa_SigAlgo r,
           pb_CurrentTcb = packLegacyTcb (aa_CurrentTcb r), pb_PlatformInfo = aa_PlatInfo r, pb_SignerInfo = aa_KeyInfo r,
           pb_ReportData = aa_ReportData r, pb_Measurement = aa_Measurement r, pb_HostData = aa_HostData r,
           pb_IdKeyDigest = aa_IdKeyDigest r, pb_AuthorKeyDigest = aa_AuthorKeyDigest r, pb_ReportId = aa_ReportId r,
           pb_ReportIdMa = aa_ReportIdMa r, pb_ReportedTcb = packLegacyTcb (aa_ReportedTcb r), pb_ChipId = aa_ChipId r,
           pb_CommittedTcb = packLegacyTcb (aa_CommittedTcb r),
           pb_CurrentBuild = ucast (av_Build (aa_Current r)), pb_CurrentMinor = ucast (av_Minor (aa_Current r)),
           pb_CurrentMajor = ucast (av_Major (aa_Current r)), pb_CommittedBuild = ucast (av_Build (aa_Committed r)),
           pb_CommittedMinor = ucast (av_Minor (aa_Committed r)), pb_CommittedMajor = ucast (av_Major (aa_Committed r)),
           pb_LaunchTcb = packLegacyTcb (aa_LaunchTcb r), pb_Signature = sig, pb_Cpuid1EaxFms = fms,
           pb_LaunchMitVector = or_zero (aa_LaunchMitVector r), pb_CurrentMitVector = or_zero (aa_CurMitVector r)\<rparr>)))))))))))))"

text \<open>Certificates without data are skipped.\<close>

definition transformAAEvidence :: "aa_lib \<Rightarrow> bytes \<Rightarrow> bytes res" where
  "transformAAEvidence Y raw =
     bind_res (lib_res ''decode AA evidence JSON'' (uj_aaEvidence Y raw)) (\<lambda>(report, certChain).
     bind_res (wrap_err ''convert AA report to pb.Report'' (aaReportToProto Y report)) (\<lambda>reportProto.
     bind_res (lib_res ''encode pb.Report to ABI bytes'' (ReportToAbiBytes Y reportProto)) (\<lambda>rawReport.
     bind_res (map_res (\<lambda>(_, d). lib_res ''PEM encode returned nil'' (EncodeToMemory Y ''CERTIFICATE'' d))
       (filter (\<lambda>(_, d). length d \<noteq> 0) certChain)) (\<lambda>pemCerts.
     lib_res ''marshal legacy evidence'' (j_legacyEvidence Y (rawReport, map bytes_str pemCerts))))))"

subsection \<open>The sealed secrets\<close>

type_synonym stackSecret = "string \<times> bytes"

text \<open>\<open>url.PathEscape\<close> on the bytes of a string.\<close>

definition path_safe :: "char \<Rightarrow> bool" where
  "path_safe c \<longleftrightarrow> is_stack_char c \<or> c \<in> set ''~$&+=:@''"

definition upper_hex_digit :: "nat \<Rightarrow> char" where
  "upper_hex_digit n = char_of (if n < 10 then 48 + n else 55 + n)"

definition PathEscape :: "string \<Rightarrow> string" where
  "PathEscape s =
     concat (map (\<lambda>c. if path_safe c then [c]
       else [CHR ''%'', upper_hex_digit ((of_char c :: nat) div 16), upper_hex_digit ((of_char c :: nat) mod 16)]) s)"

definition platformSecretsMaxBody :: nat where
  "platformSecretsMaxBody = 8 * 1024 * 1024"

text \<open>
  \<open>GET\<close> performs the request for a URL with the value of the header \<open>Authorization\<close>; \<open>uj\<close> decodes
  the body of the answer.
\<close>

definition fetchStackSecrets ::
  "(string \<Rightarrow> url option) \<Rightarrow> (url \<Rightarrow> string \<Rightarrow> (nat \<times> bytes) option) \<Rightarrow> (bytes \<Rightarrow> stackSecret list option) \<Rightarrow>
   string \<Rightarrow> string \<Rightarrow> string \<Rightarrow> stackSecret list res" where
  "fetchStackSecrets Parse GET uj baseURL apiKey stackID =
     bind_res (lib_res ''parse platform secrets URL'' (Parse baseURL)) (\<lambda>u.
     let base = TrimRight (u_Path u) ''/'';
         u' = u\<lparr>u_Path := base @ ''/internal/v1/stacks/'' @ PathEscape stackID @ ''/secrets'', u_RawQuery := [], u_Fragment := []\<rparr>
     in bind_res (lib_res ''GET'' (GET u' (''Bearer '' @ apiKey))) (\<lambda>(status, full).
        let body = take platformSecretsMaxBody full in
        if status \<noteq> 200 then Inl (Errorf ''platform ListSecrets returned status'')
        else lib_res ''decode ListSecrets response'' (uj body)))"

type_synonym env_vars = "(string, string) gomap"

definition appPrivateKeyG1Bytes :: nat where
  "appPrivateKeyG1Bytes = 48"

definition emitAppPrivateKey :: "SecretsResult \<Rightarrow> env_vars res" where
  "emitAppPrivateKey result =
     (if \<not> Verified result then Inl (Errorf ''refusing to emit app_private_key: not verified against master public key'')
      else if length (g1_CompressedBytes (AppPrivateKey result)) \<noteq> appPrivateKeyG1Bytes then
        Inl (Errorf ''KMS returned app_private_key of the wrong length'')
      else Inr [(appPrivateKeyKey, EncodeToString (g1_CompressedBytes (AppPrivateKey result)))])"

definition assembleEnvFromSecrets ::
  "('f, 'g1, 'g2, 'gt) lib \<Rightarrow> aead \<Rightarrow> string \<Rightarrow> G1Point \<Rightarrow> stackSecret list \<Rightarrow> env_vars res" where
  "assembleEnvFromSecrets L A stackID appPrivateKey secrets =
     fold_res (\<lambda>(name, val) env.
       bind_res (wrap_err ''decrypt secret'' (DecryptForApp L A stackID appPrivateKey val)) (\<lambda>plaintext.
       Inr (gm_set env name (bytes_str plaintext)))) secrets []"

definition resolveEnv ::
  "('f, 'g1, 'g2, 'gt) lib \<Rightarrow> aead \<Rightarrow> Request \<Rightarrow> SecretsResult \<Rightarrow> (string \<Rightarrow> string \<Rightarrow> string \<Rightarrow> stackSecret list res) \<Rightarrow> env_vars res" where
  "resolveEnv L A req result fetch =
     (if hr_Key req = appPrivateKeyKey then emitAppPrivateKey result
      else bind_res (wrap_err ''fetch stack secrets''
          (fetch (hr_PlatformSecretsURL req) (hr_PlatformInternalAPIKey req) (hr_StackID req))) (\<lambda>secrets.
        wrap_err ''assemble stack env'' (assembleEnvFromSecrets L A (hr_StackID req) (AppPrivateKey result) secrets)))"

subsection \<open>The operators\<close>

record singleOperatorContractCaller =
  so_socketAddress :: string
  so_operatorAddress :: string

definition newSingleOperatorContractCaller :: "string \<Rightarrow> string \<Rightarrow> singleOperatorContractCaller" where
  "newSingleOperatorContractCaller socketAddress operatorAddress =
     \<lparr>so_socketAddress = socketAddress,
      so_operatorAddress = (if TrimSpace operatorAddress = [] then defaultSingleOperatorAddress else operatorAddress)\<rparr>"

definition single_GetOperatorSetMembersWithPeering ::
  "caller_lib \<Rightarrow> singleOperatorContractCaller \<Rightarrow> string \<Rightarrow> nat \<Rightarrow> OperatorSetPeers res" where
  "single_GetOperatorSetMembersWithPeering X s avs opset =
     Inr \<lparr>OperatorSetId = opset, AVSAddress = HexToAddress X avs,
       Peers = [\<lparr>OperatorAddress = HexToAddress X (so_operatorAddress s), SocketAddress = so_socketAddress s,
         peer_WrappedPublicKey = \<lparr>wpk_PublicKey = [], wpk_ECDSAAddress = 0\<rparr>, CurveType = []\<rparr>]\<rparr>"

end
