(* ===== verification/Cdh_Run.thy ===== *)
theory Cdh_Run
  imports Cdh_Helper
begin

text \<open>
  The run of \<open>cmd/kmsCDHHelper\<close>: the cache of environments on the memory-backed file system
  (\<open>env_cache.go\<close>), the recovery of the key (\<open>retrieveAndDecrypt\<close>) and the program (\<open>run\<close>, \<open>main\<close>),
  over a record of its surroundings. The theorems: a run takes nothing from its input but the
  variable; the cache never serves one stack's environment to another and a failed write leaves it as
  it was; the application's key is emitted only when verified and never written, and under which master
  public key.
\<close>

subsection \<open>The cache\<close>

text \<open>A file is its content and its permissions; the lock that serialises access is part of the operations.\<close>

type_synonym filesystem = "(string, bytes \<times> nat) gomap"

datatype cache_op =
  OpenCache | FlockShared | MkdirAll | OpenLock | FlockExclusive | CreateTemp | Chmod | WriteTemp | CloseTemp | Rename

text \<open>
  \<open>cl_fails\<close> tells which system calls fail, \<open>cl_temp\<close> is the name that \<open>os.CreateTemp\<close> finds, below the
  directory of the cache. A file that is not there is not among the failures of \<open>OpenCache\<close>.
\<close>

record cache_lib =
  cl_fails :: "cache_op \<Rightarrow> bool"
  cl_temp :: string
  cl_json :: "env_vars \<Rightarrow> bytes option"
  cl_unjson :: "bytes \<Rightarrow> env_vars option"

definition envCacheDir :: string where
  "envCacheDir = ''/run/eigenx''"

definition cacheFileMode :: nat where
  "cacheFileMode = 6 * 64"

definition cachePath :: "string \<Rightarrow> string" where
  "cachePath stackID = envCacheDir @ ''/'' @ map (\<lambda>c. if c = CHR ''/'' then CHR ''_'' else c) stackID @ ''.json''"

text \<open>The value is \<open>None\<close> for a miss, also when the content does not decode.\<close>

definition loadCachedEnv :: "cache_lib \<Rightarrow> string \<Rightarrow> filesystem \<Rightarrow> env_vars option res" where
  "loadCachedEnv C stackID fs =
     (case gm_get fs (cachePath stackID) of
        None \<Rightarrow> if cl_fails C OpenCache then Inl (Errorf ''open'') else Inr None
      | Some (content, _) \<Rightarrow>
          if cl_fails C OpenCache then Inl (Errorf ''open'')
          else if cl_fails C FlockShared then Inl (Errorf ''flock(shared)'')
          else (case cl_unjson C content of None \<Rightarrow> Inr None | Some env \<Rightarrow> Inr (Some env)))"

text \<open>The temporary file is removed in every case; after the renaming there is none.\<close>

definition storeCachedEnv :: "cache_lib \<Rightarrow> string \<Rightarrow> env_vars \<Rightarrow> filesystem \<Rightarrow> filesystem \<times> unit res" where
  "storeCachedEnv C stackID env fs =
     (if cl_fails C MkdirAll then (fs, Inl (Errorf ''mkdir''))
      else
      let final = cachePath stackID; lock = final @ ''.lock'' in
      if cl_fails C OpenLock then (fs, Inl (Errorf ''open lock file''))
      else
      let fs1 = (case gm_get fs lock of None \<Rightarrow> gm_set fs lock ([], cacheFileMode) | Some _ \<Rightarrow> fs) in
      if cl_fails C FlockExclusive then (fs1, Inl (Errorf ''flock(exclusive)''))
      else
      (case cl_json C env of
         None \<Rightarrow> (fs1, Inl (Errorf ''marshal env''))
       | Some data \<Rightarrow>
           if cl_fails C CreateTemp then (fs1, Inl (Errorf ''create temp''))
           else
           let fs2 = gm_set fs1 (cl_temp C) ([], cacheFileMode); removed = gm_del fs2 (cl_temp C) in
           if cl_fails C Chmod then (removed, Inl (Errorf ''chmod temp''))
           else if cl_fails C WriteTemp then (removed, Inl (Errorf ''write temp''))
           else
           let fs3 = gm_set fs2 (cl_temp C) (data, cacheFileMode) in
           if cl_fails C CloseTemp then (gm_del fs3 (cl_temp C), Inl (Errorf ''close temp''))
           else if cl_fails C Rename then (gm_del fs3 (cl_temp C), Inl (Errorf ''rename temp into place''))
           else (gm_set (gm_del fs3 (cl_temp C)) final (data, cacheFileMode), Inr ())))"

text \<open>What is written to the standard output.\<close>

definition emitKey :: "bool \<Rightarrow> env_vars \<Rightarrow> string \<Rightarrow> string res" where
  "emitKey stdout_fails env key =
     (case gm_get env key of
        None \<Rightarrow> Inl (Errorf ''key not present in app env'')
      | Some val \<Rightarrow> if stdout_fails then Inl (Errorf ''write stdout'') else Inr val)"

subsection \<open>The program\<close>

text \<open>
  The surroundings of a run: the input, the variable that allows a single operator, the init data with
  the size that \<open>Stat\<close> reports, the random key with its two encodings, and the libraries.
  \<open>he_l1\<close> connects to an Ethereum node at a URL, with what the constructor of the contract caller needs.
\<close>

record ('f, 'g1, 'g2, 'gt, 'k, 'r) helper =
  he_stdin :: "Request option"
  he_allow :: bool
  he_stat :: "nat option"
  he_initdata :: "bytes option"
  he_snplib :: "'r snplib"
  he_uj_config :: "string \<Rightarrow> initdataKMSConfig option"
  he_Parse :: "string \<Rightarrow> url option"
  he_cache :: cache_lib
  he_stdout_fails :: bool
  he_GenerateKey :: "'k option"
  he_PKIX :: "'k \<Rightarrow> bytes option"
  he_PKCS1 :: "'k \<Rightarrow> bytes"
  he_pem :: "string \<Rightarrow> bytes \<Rightarrow> bytes"
  he_agent :: "bytes \<Rightarrow> (nat \<times> bytes) option"
  he_aa :: aa_lib
  he_GET :: "url \<Rightarrow> string \<Rightarrow> (nat \<times> bytes) option"
  he_uj_secrets :: "bytes \<Rightarrow> stackSecret list option"
  he_logger :: "unit option"
  he_l1 :: "string \<Rightarrow> eth_client option"
  he_new_binding :: "string \<Rightarrow> string \<Rightarrow> unit res"
  he_ChainID :: "int res"
  he_contracts :: contracts
  he_caller :: caller_lib
  he_http :: http
  he_lib :: "('f, 'g1, 'g2, 'gt) lib"
  he_aead :: aead
  he_client :: "'k sec_client"
  he_arrival :: secrets_arrival
  he_pub_arrival :: "pub_result list \<Rightarrow> pub_result list"
  he_order :: "(string, nat) gomap \<Rightarrow> (string, nat) gomap"

definition maxInitDataFileSize :: nat where
  "maxInitDataFileSize = 1024 * 1024"

definition generateRSAKeypair :: "('f, 'g1, 'g2, 'gt, 'k, 'r) helper \<Rightarrow> ('k \<times> bytes) res" where
  "generateRSAKeypair H =
     bind_res (lib_res ''rsa.GenerateKey'' (he_GenerateKey H)) (\<lambda>priv.
     bind_res (lib_res ''MarshalPKIXPublicKey'' (he_PKIX H priv)) (\<lambda>pubBytes.
     Inr (priv, he_pem H ''PUBLIC KEY'' pubBytes)))"

text \<open>The contract caller: one advertised operator, or the operator sets of the chain.\<close>

definition helper_contract_caller :: "('f, 'g1, 'g2, 'gt, 'k, 'r) helper \<Rightarrow> Request \<Rightarrow> contract_caller res" where
  "helper_contract_caller H req =
     (if TrimSpace (hr_KMSURL req) \<noteq> [] then
        bind_res (validateHTTPURL (he_Parse H) (hr_KMSURL req)) (\<lambda>_.
        Inr (single_GetOperatorSetMembersWithPeering (he_caller H) (newSingleOperatorContractCaller (hr_KMSURL req) (hr_OperatorAddress req))))
      else
        bind_res (lib_res ''get Ethereum contract caller'' (he_l1 H (hr_RPCURL req))) (\<lambda>l1Client.
        bind_res (wrap_err ''create contract caller'' (NewContractCaller (he_new_binding H) (he_ChainID H) l1Client (he_contracts H))) (\<lambda>cc.
        Inr (GetOperatorSetMembersWithPeering (he_caller H) cc))))"

definition helper_options :: "('f, 'g1, 'g2, 'gt, 'k, 'r) helper \<Rightarrow> Request \<Rightarrow> bytes \<Rightarrow> bytes \<Rightarrow> bytes \<Rightarrow> 'k \<Rightarrow> 'k SecretsOptions" where
  "helper_options H req evidence ccInitData rsaPubPEM rsaPriv =
     \<lparr>so_AttestationMethod = ''eigenx-snp'', so_ImageDigest = [], so_ECDSAPrivateKey = None, so_TPMAttestationBytes = [],
      so_RawSNPEvidence = evidence, so_CCInitData = ccInitData,
      so_RSAPrivateKeyPEM = he_pem H ''RSA PRIVATE KEY'' (he_PKCS1 H rsaPriv), so_RSAPublicKeyPEM = rsaPubPEM, so_ExtraData = [],
      so_StackID = hr_StackID req\<rparr>"

definition retrieveAndDecrypt ::
  "('f :: field, 'g1, 'g2, 'gt, 'k, 'r) helper \<Rightarrow> Request \<Rightarrow> bytes \<Rightarrow> bytes \<Rightarrow> bytes \<Rightarrow> 'k \<Rightarrow> env_vars res" where
  "retrieveAndDecrypt H req evidence ccInitData rsaPubPEM rsaPriv =
     bind_res (lib_res ''create logger'' (he_logger H)) (\<lambda>logger.
     bind_res (helper_contract_caller H req) (\<lambda>contractCaller.
     bind_res (wrap_err ''create KMS client'' (NewClient (he_http H)
       (Some \<lparr>cc_AVSAddress = hr_AVSAddress req, cc_OperatorSetID = hr_OperatorSetID req, cc_Logger = Some logger,
          cc_ContractCaller = Some contractCaller, cc_HTTPClient = None\<rparr>))) (\<lambda>client.
     bind_res (wrap_err ''RetrieveSecretsWithOptions'' (RetrieveSecretsWithOptions (he_lib H) (he_client H) client (he_arrival H)
       (he_pub_arrival H) (he_order H) (hr_StackID req)
       (Some (helper_options H req evidence ccInitData rsaPubPEM rsaPriv)))) (\<lambda>result.
     resolveEnv (he_lib H) (he_aead H) req result (fetchStackSecrets (he_Parse H) (he_GET H) (he_uj_secrets H))))))"

text \<open>The path after a cache miss: key, evidence, secrets.\<close>

definition attest_and_retrieve :: "('f :: field, 'g1, 'g2, 'gt, 'k, 'r) helper \<Rightarrow> Request \<Rightarrow> bytes \<Rightarrow> env_vars res" where
  "attest_and_retrieve H req ccInitData =
     bind_res (wrap_err ''generate RSA keypair'' (generateRSAKeypair H)) (\<lambda>(rsaPriv, rsaPubPEM).
     let reportData = buildReportData (he_snplib H) rsaPubPEM [] ccInitData in
     bind_res (wrap_err ''fetch AA evidence'' (fetchAAEvidence (he_agent H) reportData)) (\<lambda>rawAAEvidence.
     bind_res (wrap_err ''transform AA evidence'' (transformAAEvidence (he_aa H) rawAAEvidence)) (\<lambda>evidence.
     wrap_err ''retrieve and decrypt'' (retrieveAndDecrypt H req evidence ccInitData rsaPubPEM rsaPriv))))"

text \<open>The request with its configuration from the init data, and the init data.\<close>

definition configured :: "('f, 'g1, 'g2, 'gt, 'k, 'r) helper \<Rightarrow> (Request \<times> bytes) res" where
  "configured H =
     bind_res (wrap_err ''read request'' (readRequest (he_stdin H))) (\<lambda>req.
     bind_res (lib_res ''stat'' (he_stat H)) (\<lambda>size.
     if size > maxInitDataFileSize then Inl (Errorf ''refusing to read'')
     else
     bind_res (lib_res ''read'' (he_initdata H)) (\<lambda>ccInitData.
     bind_res (wrap_err ''parse cc_init_data KMS config'' (parseInitdataKMSConfig (he_snplib H) (he_uj_config H) ccInitData)) (\<lambda>cfg.
     bind_res (applyInitdataKMSConfig (he_Parse H) (he_allow H) req cfg) (\<lambda>req.
     Inr (req, ccInitData))))))"

definition run :: "('f :: field, 'g1, 'g2, 'gt, 'k, 'r) helper \<Rightarrow> filesystem \<Rightarrow> filesystem \<times> string res" where
  "run H fs =
     (case configured H of
        Inl e \<Rightarrow> (fs, Inl e)
      | Inr (req, ccInitData) \<Rightarrow>
          (case (if cacheable (hr_Key req) then loadCachedEnv (he_cache H) (hr_StackID req) fs else Inr None) of
             Inl e \<Rightarrow> (fs, Inl (Wrapf ''read env cache'' e))
           | Inr (Some env) \<Rightarrow> (fs, emitKey (he_stdout_fails H) env (hr_Key req))
           | Inr None \<Rightarrow>
               (case attest_and_retrieve H req ccInitData of
                  Inl e \<Rightarrow> (fs, Inl e)
                | Inr env \<Rightarrow>
                    (if cacheable (hr_Key req) then fst (storeCachedEnv (he_cache H) (hr_StackID req) env fs) else fs,
                     emitKey (he_stdout_fails H) env (hr_Key req)))))"

text \<open>The exit code and the standard output of the process.\<close>

definition cdh_main :: "('f :: field, 'g1, 'g2, 'gt, 'k, 'r) helper \<Rightarrow> filesystem \<Rightarrow> filesystem \<times> nat \<times> string" where
  "cdh_main H fs = (case run H fs of (fs', Inl _) \<Rightarrow> (fs', 1, []) | (fs', Inr out) \<Rightarrow> (fs', 0, out))"

subsection \<open>The input chooses the variable only\<close>

lemma applyInitdataKMSConfig_key:
  "hr_Key r = hr_Key r' \<Longrightarrow> applyInitdataKMSConfig P allow r cfg = applyInitdataKMSConfig P allow r' cfg"
  unfolding applyInitdataKMSConfig_def by (cases r; cases r'; cases cfg) simp_all

lemma applyInitdataKMSConfig_Inr:
  assumes "applyInitdataKMSConfig P allow req cfg = Inr req'"
  shows "hr_Key req' = hr_Key req" "hr_KMSURL req' \<noteq> [] \<Longrightarrow> allow" "hr_RPCURL req' = [] \<Longrightarrow> hr_KMSURL req' \<noteq> []"
    "validateStackID (hr_StackID req') = Inr ()" "validateHTTPURL P (hr_PlatformSecretsURL req') = Inr ()"
  using assms by (auto simp: applyInitdataKMSConfig_def bind_res_eq_Inr split: option.splits if_splits)

lemma configured_Inr:
  assumes "configured H = Inr (req, ccInitData)"
  obtains r where "readRequest (he_stdin H) = Inr r" "hr_Key req = hr_Key r" "he_initdata H = Some ccInitData"
    "hr_KMSURL req \<noteq> [] \<Longrightarrow> he_allow H" "validateStackID (hr_StackID req) = Inr ()"
proof -
  obtain r size cfg where "readRequest (he_stdin H) = Inr r" "he_initdata H = Some ccInitData"
    "applyInitdataKMSConfig (he_Parse H) (he_allow H) r cfg = Inr req"
    using assms by (auto simp: configured_def bind_res_eq_Inr split: if_split_asm)
  with applyInitdataKMSConfig_Inr [OF this(3)] that show thesis by metis
qed

lemma configured_key:
  assumes "readRequest (he_stdin H) = Inr r" "readRequest stdin = Inr r'" "hr_Key r = hr_Key r'"
  shows "configured (H\<lparr>he_stdin := stdin\<rparr>) = configured H"
  using applyInitdataKMSConfig_key [OF assms(3)] by (simp add: configured_def assms(1,2) cong: if_cong)

lemma attest_stdin: "attest_and_retrieve (H\<lparr>he_stdin := stdin\<rparr>) = attest_and_retrieve H"
  by (rule ext)+ (simp add: attest_and_retrieve_def generateRSAKeypair_def retrieveAndDecrypt_def
      helper_contract_caller_def helper_options_def cong: if_cong)

text \<open>
  Whatever else the input contains: two inputs that are accepted and ask for the same variable have the
  same run, with the same cache and output. The addresses of the operators and of the platform, the
  identity and the credentials come from the init data that the attestation binds.
\<close>

theorem input_chooses_variable:
  assumes "readRequest (he_stdin H) = Inr r" "readRequest stdin = Inr r'" "hr_Key r = hr_Key r'"
  shows "cdh_main (H\<lparr>he_stdin := stdin\<rparr>) fs = cdh_main H fs"
proof -
  have "he_cache (H\<lparr>he_stdin := stdin\<rparr>) = he_cache H" "he_stdout_fails (H\<lparr>he_stdin := stdin\<rparr>) = he_stdout_fails H" by simp_all
  then show ?thesis unfolding cdh_main_def run_def configured_key [OF assms] attest_stdin by (simp only:)
qed

text \<open>Without the variable that allows it, a run asks the operators that the chain names.\<close>

theorem production_uses_chain:
  assumes "configured H = Inr (req, ccInitData)" "\<not> he_allow H" "helper_contract_caller H req = Inr caller"
  shows "\<exists>l1 cc. he_l1 H (hr_RPCURL req) = Some l1 \<and>
    NewContractCaller (he_new_binding H) (he_ChainID H) l1 (he_contracts H) = Inr cc \<and>
    caller = GetOperatorSetMembersWithPeering (he_caller H) cc"
proof -
  have "hr_KMSURL req = []" by (rule configured_Inr [OF assms(1)]) (use assms(2) in auto)
  then show ?thesis using assms(3) by (auto simp: helper_contract_caller_def TrimSpace_def bind_res_eq_Inr)
qed

subsection \<open>Init data and identities\<close>

text \<open>The helper reads the same document as the node that checks its evidence.\<close>

theorem initdata_agrees: "decodeInitdata B d = Inr doc \<longleftrightarrow> decodeInitDataWire B d = Inr doc"
  by (auto simp: decodeInitdata_def decodeInitDataWire_def maxDecompressedInitData_def Let_def split: option.splits)

lemma PathEscape_id: "list_all is_stack_char s \<Longrightarrow> PathEscape s = s"
  by (induction s) (auto simp: PathEscape_def path_safe_def)

lemma stack_id_chars: "validateStackID s = Inr () \<Longrightarrow> list_all is_stack_char s \<and> CHR ''/'' \<notin> set s"
  by (auto simp: validateStackID_def list_all_iff is_stack_char_def split: if_splits)

text \<open>
  The path of the request for a validated identity is that of the configured base with the identity as
  one segment, and nothing else of the base is sent.
\<close>

theorem secrets_request_path:
  assumes "validateStackID stackID = Inr ()" "Parse baseURL = Some u"
    and "\<And>v auth. GET v auth = (if v = u\<lparr>u_Path := TrimRight (u_Path u) ''/'' @ ''/internal/v1/stacks/'' @ stackID @ ''/secrets'',
          u_RawQuery := [], u_Fragment := []\<rparr> \<and> auth = ''Bearer '' @ apiKey then Some (200, body) else None)"
    and "length body \<le> platformSecretsMaxBody" "uj body = Some secrets"
  shows "fetchStackSecrets Parse GET uj baseURL apiKey stackID = Inr secrets"
  using stack_id_chars [OF assms(1)] by (simp add: fetchStackSecrets_def assms(2-5) PathEscape_id)

subsection \<open>The cache\<close>

lemma cachePath_id: "validateStackID s = Inr () \<Longrightarrow> cachePath s = ''/run/eigenx/'' @ s @ ''.json''"
proof -
  assume "validateStackID s = Inr ()"
  then have "CHR ''/'' \<notin> set s" using stack_id_chars by blast
  then have "map (\<lambda>c. if c = CHR ''/'' then CHR ''_'' else c) s = s" by (induction s) auto
  then show ?thesis by (simp add: cachePath_def envCacheDir_def)
qed

lemma cachePath_inj:
  "validateStackID s = Inr () \<Longrightarrow> validateStackID t = Inr () \<Longrightarrow> cachePath s = cachePath t \<longleftrightarrow> s = t"
  by (simp add: cachePath_id)

text \<open>The names that \<open>os.CreateTemp\<close> makes for the pattern \<open>.env-*.tmp\<close> in the directory of the cache.\<close>

definition temp_name :: "string \<Rightarrow> bool" where
  "temp_name n \<longleftrightarrow> (\<exists>r. n = envCacheDir @ ''/.env-'' @ r @ ''.tmp'')"

lemma cache_names:
  "cachePath s \<noteq> cachePath t @ ''.lock''" "temp_name n \<Longrightarrow> cachePath s \<noteq> n" "temp_name n \<Longrightarrow> n \<noteq> cachePath s @ ''.lock''"
proof -
  have l: "last (cachePath s) = CHR ''n''" "last (cachePath t @ ''.lock'') = CHR ''k''" "last (cachePath s @ ''.lock'') = CHR ''k''"
    by (simp_all add: cachePath_def)
  then show "cachePath s \<noteq> cachePath t @ ''.lock''" by auto
  assume "temp_name n"
  then have "last n = CHR ''p''" by (auto simp: temp_name_def)
  then show "cachePath s \<noteq> n" "n \<noteq> cachePath s @ ''.lock''" using l by auto
qed

lemma loadCachedEnv_cong: "gm_get fs (cachePath s) = gm_get fs' (cachePath s) \<Longrightarrow> loadCachedEnv C s fs = loadCachedEnv C s fs'"
  by (simp add: loadCachedEnv_def)

text \<open>Only the file of the stack is changed, and only by a write that succeeds.\<close>

lemma storeCachedEnv_files:
  assumes n: "temp_name (cl_temp C)"
  shows "gm_get (fst (storeCachedEnv C s env fs)) (cachePath t) =
    (if cachePath t = cachePath s \<and> snd (storeCachedEnv C s env fs) = Inr () then
       map_option (\<lambda>data. (data, cacheFileMode)) (cl_json C env)
     else gm_get fs (cachePath t))"
proof -
  have l: "gm_get (case gm_get fs (cachePath s @ ''.lock'') of None \<Rightarrow> gm_set fs (cachePath s @ ''.lock'') ([], cacheFileMode) | Some _ \<Rightarrow> fs)
      (cachePath t) = gm_get fs (cachePath t)" (is "gm_get ?fs1 _ = _")
    using cache_names(1) [of t s] by (simp split: option.split)
  have ne: "cachePath t \<noteq> cl_temp C" "cachePath s \<noteq> cl_temp C" using cache_names(2) [OF n] by blast+
  show ?thesis
    using l ne by (simp add: storeCachedEnv_def Let_def split: option.splits) 
qed

text \<open>
  What a store leaves for a reader: the environment of its own stack when it succeeded, and otherwise
  what the reader found before, whatever step failed.
\<close>

theorem cache_load_store:
  assumes n: "temp_name (cl_temp C)" and read: "\<not> cl_fails C OpenCache" "\<not> cl_fails C FlockShared"
    and json: "\<And>data. cl_json C env = Some data \<Longrightarrow> cl_unjson C data = Some env"
    and ids: "validateStackID s = Inr ()" "validateStackID t = Inr ()"
  shows "loadCachedEnv C t (fst (storeCachedEnv C s env fs)) =
    (if t = s \<and> snd (storeCachedEnv C s env fs) = Inr () then Inr (Some env) else loadCachedEnv C t fs)"
proof (cases "t = s \<and> snd (storeCachedEnv C s env fs) = Inr ()")
  case True
  then obtain data where "cl_json C env = Some data"
    by (auto simp: storeCachedEnv_def Let_def split: if_splits option.splits)
  then show ?thesis using True storeCachedEnv_files [OF n, of s env fs s] json read by (simp add: loadCachedEnv_def)
next
  case False
  then show ?thesis
    using storeCachedEnv_files [OF n, of s env fs t] cachePath_inj [OF ids(2,1)] by (auto intro: loadCachedEnv_cong)
qed

lemma run_files:
  assumes "configured H = Inr (req, ccInitData)"
  shows "fst (run H fs) = fs \<or>
    cacheable (hr_Key req) \<and> (\<exists>env. attest_and_retrieve H req ccInitData = Inr env \<and>
      fst (run H fs) = fst (storeCachedEnv (he_cache H) (hr_StackID req) env fs))"
  by (simp add: run_def assms split: sum.split option.split)

text \<open>A run for one stack never changes what a later run reads for another.\<close>

theorem stacks_isolated:
  assumes "configured H = Inr (req, ccInitData)" "temp_name (cl_temp (he_cache H))"
    and "validateStackID t = Inr ()" "t \<noteq> hr_StackID req"
  shows "loadCachedEnv C t (fst (run H fs)) = loadCachedEnv C t fs"
proof -
  have "validateStackID (hr_StackID req) = Inr ()" by (rule configured_Inr [OF assms(1)]) simp
  with assms(3,4) have "cachePath t \<noteq> cachePath (hr_StackID req)" by (simp add: cachePath_inj)
  then have "gm_get (fst (run H fs)) (cachePath t) = gm_get fs (cachePath t)"
    using run_files [OF assms(1), of fs] storeCachedEnv_files [OF assms(2)] by auto
  then show ?thesis by (rule loadCachedEnv_cong)
qed

text \<open>
  After a run that stored the environment, a later run for the same stack is answered from the cache:
  no key is generated and neither the attestation agent nor an operator nor the platform is asked.
\<close>

theorem cached_env_served:
  assumes c: "configured H = Inr (req, ccInitData)" "configured H' = Inr (req', ccInitData')" "hr_StackID req' = hr_StackID req"
    and k: "cacheable (hr_Key req)" "cacheable (hr_Key req')" and C: "he_cache H' = he_cache H" "temp_name (cl_temp (he_cache H))"
    and read: "\<not> cl_fails (he_cache H) OpenCache" "\<not> cl_fails (he_cache H) FlockShared"
    and json: "\<And>env data. cl_json (he_cache H) env = Some data \<Longrightarrow> cl_unjson (he_cache H) data = Some env"
    and miss: "loadCachedEnv (he_cache H) (hr_StackID req) fs = Inr None" "attest_and_retrieve H req ccInitData = Inr env"
      "snd (storeCachedEnv (he_cache H) (hr_StackID req) env fs) = Inr ()"
  shows "run H' (fst (run H fs)) = (fst (run H fs), emitKey (he_stdout_fails H') env (hr_Key req'))"
proof -
  have v: "validateStackID (hr_StackID req) = Inr ()" by (rule configured_Inr [OF c(1)]) simp
  have f: "fst (run H fs) = fst (storeCachedEnv (he_cache H) (hr_StackID req) env fs)" by (simp add: run_def c(1) k(1) miss(1,2))
  have "loadCachedEnv (he_cache H) (hr_StackID req) (fst (run H fs)) = Inr (Some env)"
    unfolding f using cache_load_store [OF C(2) read json v v] miss(3) by simp
  then show ?thesis by (simp add: run_def [of H'] c(2,3) k(2) C(1))
qed

subsection \<open>The application's key\<close>

lemma retrieved_verified:
  assumes L: "curve_laws L" and res: "RetrieveSecretsWithOptions L S c arrival pub_arrival order appID (Some opts) = Inr result"
    and v: "Verified result"
  shows "\<exists>ops mpk. GetOperators c = Inr ops \<and> GetMasterPublicKey L (httpClient c) pub_arrival order (Some ops) = Inr mpk \<and>
    (\<forall>s h. den2 L mpk s \<longrightarrow> HashToG1 L appID = Inr (enc1 L h) \<longrightarrow> den1 L (AppPrivateKey result) (s * h))"
  using RetrieveSecretsWithOptions_Inr [OF res] v verified_key [OF L] by metis

lemma NewClient_http:
  "NewClient H0 (Some \<lparr>cc_AVSAddress = avs, cc_OperatorSetID = i, cc_Logger = Some l, cc_ContractCaller = Some cc, cc_HTTPClient = None\<rparr>) = Inr c
     \<Longrightarrow> httpClient c = H0 \<and> GetOperators c = GetOperators \<lparr>avsAddress = avs, operatorSetID = i, contractCaller = cc, httpClient = H0\<rparr>"
  by (auto simp: NewClient_def split: if_splits)

text \<open>
  C38. The application's key leaves the helper only when it was verified. A run that is asked for the
  key leaves the files as they were, and what it prints is the hexadecimal text of 48 bytes that are the
  key of the stack under the master public key that the client obtained: the hash of the stack's
  identity times that key's secret. That master public key is one that threshold many of the
  configuration's operators answered with, or, when fewer than threshold many answered with a valid key
  at all, the sum of the commitments they sent. An unverified key, recovered when no master public key
  could be obtained, is refused.
\<close>

theorem root_key_verified:
  assumes L: "curve_laws (he_lib H)" and pub: "\<And>xs. mset (he_pub_arrival H xs) = mset xs" "\<And>vs. mset (he_order H vs) = mset vs"
    and c: "configured H = Inr (req, ccInitData)" and key: "hr_Key req = appPrivateKeyKey"
    and out: "run H fs = (fs', Inr text)"
  shows "fs' = fs \<and> (\<exists>caller ops mpk k. helper_contract_caller H req = Inr caller \<and> caller (hr_AVSAddress req) (hr_OperatorSetID req) = Inr ops \<and>
    GetMasterPublicKey (he_lib H) (he_http H) (he_pub_arrival H) (he_order H) (Some ops) = Inr mpk \<and>
    (voted_key (he_lib H) (he_http H) ops mpk \<or> summed_key (he_lib H) (he_http H) (he_pub_arrival H) ops mpk) \<and>
    text = EncodeToString (g1_CompressedBytes k) \<and> length text = 96 \<and>
    (\<forall>s h. den2 (he_lib H) mpk s \<longrightarrow> HashToG1 (he_lib H) (hr_StackID req) = Inr (enc1 (he_lib H) h) \<longrightarrow> den1 (he_lib H) k (s * h)))"
proof -
  have nc: "\<not> cacheable (hr_Key req)" by (simp add: cacheable_def key)
  then obtain env where env: "attest_and_retrieve H req ccInitData = Inr env" "fs' = fs" "gm_get env (hr_Key req) = Some text"
    using out by (auto simp: run_def c emitKey_def split: sum.splits option.splits if_splits)
  then obtain evidence pub priv where "retrieveAndDecrypt H req evidence ccInitData pub priv = Inr env"
    by (auto simp: attest_and_retrieve_def Let_def bind_res_eq_Inr)
  then obtain logger caller client result where cl: "helper_contract_caller H req = Inr caller"
    "NewClient (he_http H) (Some \<lparr>cc_AVSAddress = hr_AVSAddress req, cc_OperatorSetID = hr_OperatorSetID req, cc_Logger = Some logger,
          cc_ContractCaller = Some caller, cc_HTTPClient = None\<rparr>) = Inr client"
    and res: "RetrieveSecretsWithOptions (he_lib H) (he_client H) client (he_arrival H) (he_pub_arrival H) (he_order H) (hr_StackID req)
       (Some (helper_options H req evidence ccInitData pub priv)) = Inr result"
    and r: "resolveEnv (he_lib H) (he_aead H) req result (fetchStackSecrets (he_Parse H) (he_GET H) (he_uj_secrets H)) = Inr env"
    by (auto simp: retrieveAndDecrypt_def bind_res_eq_Inr)
  from r key env(3) have e: "Verified result" "length (g1_CompressedBytes (AppPrivateKey result)) = 48"
    "text = EncodeToString (g1_CompressedBytes (AppPrivateKey result))"
    by (auto simp: resolveEnv_def emitAppPrivateKey_def appPrivateKeyG1Bytes_def split: if_splits)
  obtain ops mpk where ops: "GetOperators client = Inr ops"
    "GetMasterPublicKey (he_lib H) (httpClient client) (he_pub_arrival H) (he_order H) (Some ops) = Inr mpk"
    "\<forall>s h. den2 (he_lib H) mpk s \<longrightarrow> HashToG1 (he_lib H) (hr_StackID req) = Inr (enc1 (he_lib H) h) \<longrightarrow>
       den1 (he_lib H) (AppPrivateKey result) (s * h)"
    using retrieved_verified [OF L res e(1)] by blast
  have "caller (hr_AVSAddress req) (hr_OperatorSetID req) = Inr ops" "httpClient client = he_http H"
    using NewClient_http [OF cl(2)] ops(1) by (auto simp: GetOperators_def bind_res_eq_Inr split: if_splits)
  moreover from this ops(2) have "GetMasterPublicKey (he_lib H) (he_http H) (he_pub_arrival H) (he_order H) (Some ops) = Inr mpk" by simp
  from GetMasterPublicKey_cases [OF pub this]
  have "voted_key (he_lib H) (he_http H) ops mpk \<or> summed_key (he_lib H) (he_http H) (he_pub_arrival H) ops mpk" .
  ultimately show ?thesis using env(2) cl(1) ops e by auto
qed

subsection \<open>Sealed secrets\<close>

text \<open>
  The environment of a stack whose secrets were sealed to its identity under the master public key is
  what was sealed, by name; of two secrets with one name the later counts.
\<close>

theorem sealed_secrets_opened:
  assumes laws: "curve_laws L" "aead_laws A" "5 \<le> length stackID" "HashToG1 L stackID = Inr (enc1 L h)"
    "den2 L mpk s" "den1 L key (s * h)" "s \<noteq> 0" "h \<noteq> 0"
    and sealed: "list_all2 (\<lambda>(name, val) (name', plain). name = name' \<and> (\<exists>r nonce. r \<noteq> 0 \<and> length nonce = 12 \<and>
      EncryptForApp L A (Some r) (Some nonce) stackID mpk plain = Inr val)) secrets plains"
  shows "assembleEnvFromSecrets L A stackID key secrets = Inr (fold (\<lambda>(name, plain) env. gm_set env name (bytes_str plain)) plains [])"
proof -
  have opens: "DecryptForApp L A stackID key val = Inr plain"
    if "r \<noteq> 0" "length nonce = 12" "EncryptForApp L A (Some r) (Some nonce) stackID mpk plain = Inr val" for r nonce plain val
    using ibe_roundtrip [OF laws that(1,2), of plain] that(3) by auto
  have "fold_res (\<lambda>(name, val) env.
       bind_res (wrap_err ''decrypt secret'' (DecryptForApp L A stackID key val)) (\<lambda>plaintext.
       Inr (gm_set env name (bytes_str plaintext)))) secrets env =
     Inr (fold (\<lambda>(name, plain) env. gm_set env name (bytes_str plain)) plains env)" for env
    using sealed
  proof (induction arbitrary: env rule: list_all2_induct)
    case (Cons x xs y ys)
    then show ?case using opens by (cases x; cases y) auto
  qed simp
  then show ?thesis by (simp add: assembleEnvFromSecrets_def)
qed

text \<open>
  An identity of fewer than five characters is accepted as a stack's identity, but nothing that is
  sealed to it can be opened.
\<close>

theorem short_stack_id:
  "validateStackID ''pod1'' = Inr () \<and>
     (\<exists>e. assembleEnvFromSecrets L A ''pod1'' key (secret # secrets) = Inl e)"
  by (cases secret) (auto simp: validateStackID_def is_stack_char_def assembleEnvFromSecrets_def DecryptForApp_def ValidateAppID_def)

subsection \<open>The evidence\<close>

lemma packLegacyTcb_eq:
  "packLegacyTcb t = ucast (tcb_Bootloader t) OR push_bit 8 (ucast (tcb_Tee t)) OR push_bit 48 (ucast (tcb_Snp t)) OR
     push_bit 56 (ucast (tcb_Microcode t))"
proof -
  have "[0..<8] = [0, 1, 2, 3, 4, 5, 6, 7 :: nat]"
    "(replicate 8 0)[0 := a, 1 := b, 6 := c, 7 := d] = [a, b, 0, 0, 0, 0, c, d]" for a b c d :: byte
    by (simp_all add: upt_rec numeral_eq_Suc)
  then show ?thesis by (simp add: packLegacyTcb_def numeral_eq_Suc)
qed

text \<open>The packed version holds the four parts, so versions that differ in one of them are packed differently.\<close>

theorem packLegacyTcb_parts:
  "ucast (packLegacyTcb t) = tcb_Bootloader t" "ucast (drop_bit 8 (packLegacyTcb t)) = tcb_Tee t"
  "ucast (drop_bit 48 (packLegacyTcb t)) = tcb_Snp t" "ucast (drop_bit 56 (packLegacyTcb t)) = tcb_Microcode t"
  by (rule bit_word_eqI, auto simp: packLegacyTcb_eq bit_simps dest: bit_imp_le_length)+

lemma need_length_Inr [simp]: "need_length name b n = Inr u \<longleftrightarrow> length b = n"
  by (simp add: need_length_def)

lemma aaReportToProto_Inr:
  assumes "aaReportToProto Y r = Inr p"
  shows "pb_ReportData p = aa_ReportData r" "length (aa_ReportData r) = 64" "pb_Measurement p = aa_Measurement r"
    "pb_HostData p = aa_HostData r" "pb_ChipId p = aa_ChipId r" "pb_Policy p = aa_Policy r" "pb_Vmpl p = aa_Vmpl r"
    "pb_ReportedTcb p = packLegacyTcb (aa_ReportedTcb r)" "tcb_Fmc (aa_ReportedTcb r) = None"
    "pb_Signature p = aa_SignatureR r @ aa_SignatureS r @ replicate 368 0" "length (pb_Signature p) = 512"
  using assms by (auto simp: aaReportToProto_def bind_res_eq_Inr Let_def copied_def split: if_split_asm)

lemma buildReportData_expected:
  assumes "\<And>x. length (snp_sha256 B x) = 32" "\<And>x. length (snp_sha384 B x) = 48"
  shows "buildReportData B (ar_RSAPubKeyTmp r) (ar_ExtraData r) (ar_CCInitData r) = expected_report_data B r"
  by (simp add: buildReportData_def expected_report_data_def copied_def assms Let_def)

lemma decode_object: "decodeBase64Lenient B (str_bytes (CHR ''{'' # t @ ''}'')) = Inr (str_bytes (CHR ''{'' # t @ ''}''))"
  by (simp add: decodeBase64Lenient_def TrimSpace_def is_space_def)

text \<open>
  The evidence that the helper sends passes the binding check of every node: what decides is whether
  AMD's signature, the measurement, the policy of the report and the document are accepted. The agent
  puts the runtime data into the report, and the libraries read back what they have written.
\<close>

theorem helper_evidence_accepted:
  fixes S :: "'k sec_client" and H :: "('f, 'g1, 'g2, 'gt, 'k, 'q) helper" and r :: Request
  assumes hash: "\<And>x. length (snp_sha256 B x) = 32" "\<And>x. length (snp_sha384 B x) = 48"
    and inputs: "pub \<noteq> []" "ccInitData \<noteq> []"
    and agent: "uj_aaEvidence Y raw = Some (report, certChain)" "aa_ReportData report = buildReportData B pub [] ccInitData"
    and ev: "transformAAEvidence Y raw = Inr evidence"
    and abi: "\<And>p b. ReportToAbiBytes Y p = Some b \<Longrightarrow> length b = snpReportSize \<and>
      (\<exists>rp. ReportToProto B b = Some rp \<and> GetReportData B rp = pb_ReportData p \<and> GetMeasurement B rp = pb_Measurement p)"
    and json: "\<And>x j. j_legacyEvidence Y x = Some j \<Longrightarrow> json_evidence B j = Some x \<and> (\<exists>t. j = str_bytes (CHR ''{'' # t @ ''}''))"
    and req_def: "req = attestation_request (createEigenXSNPAttestationRequest S appID (helper_options H r evidence ccInitData pub priv))"
  shows "\<exists>rp certs. GetReportData B rp = expected_report_data B req \<and> GetMeasurement B rp = aa_Measurement report \<and>
    (\<forall>m. ok (SNP_Verify B m (Some req)) \<longleftrightarrow>
      (\<exists>chain dropped. buildCertChain B certs = Inr (chain, dropped) \<and> snp_verifier m rp chain (snp_options m) \<and>
         snp_validator m rp chain (snp_validateOptions m)) \<and>
      (measurementAllowlist m = [] \<or> aa_Measurement report \<in> set (measurementAllowlist m)) \<and>
      ok (parseInitDataPolicy B ccInitData))"
proof -
  have req: "ar_Attestation req = evidence" "ar_RSAPubKeyTmp req = pub" "ar_ExtraData req = []" "ar_CCInitData req = ccInitData"
    by (simp_all add: req_def attestation_request_def createEigenXSNPAttestationRequest_def helper_options_def)
  obtain p b pems where p: "aaReportToProto Y report = Inr p" and b: "ReportToAbiBytes Y p = Some b"
    and j: "j_legacyEvidence Y (b, map bytes_str pems) = Some evidence"
    using ev by (auto simp: transformAAEvidence_def agent(1) bind_res_eq_Inr)
  obtain rp where rp: "ReportToProto B b = Some rp" "GetReportData B rp = pb_ReportData p" "GetMeasurement B rp = pb_Measurement p"
    and l: "length b = snpReportSize" using abi [OF b] by blast
  obtain t where t: "json_evidence B evidence = Some (b, map bytes_str pems)" "evidence = str_bytes (CHR ''{'' # t @ ''}'')" using json [OF j] by blast
  then have d: "decodeBase64Lenient B evidence = Inr evidence" "evidence \<noteq> []" using decode_object [of B t] by (simp, simp add: str_bytes_def)
  have data: "GetReportData B rp = expected_report_data B req"
    using buildReportData_expected [OF hash, of req] by (simp add: rp(2) aaReportToProto_Inr(1) [OF p] agent(2) req)
  have size: "length (expected_report_data B req) = snpReportDataSize" by (simp add: expected_report_data_def hash snpReportDataSize_def)
  have me: "GetMeasurement B rp = aa_Measurement report" using rp(3) aaReportToProto_Inr(3) [OF p] by simp
  have "evidence_data B m evidence (expected_report_data B req) \<longleftrightarrow>
      (\<exists>chain dropped. buildCertChain B (map bytes_str pems) = Inr (chain, dropped) \<and> snp_verifier m rp chain (snp_options m) \<and>
         snp_validator m rp chain (snp_validateOptions m)) \<and>
      (measurementAllowlist m = [] \<or> aa_Measurement report \<in> set (measurementAllowlist m))" for m
    by (auto simp: evidence_data_def d(1) t(1) l rp(1) data me size)
  then have "ok (SNP_Verify B m (Some req)) \<longleftrightarrow>
      (\<exists>chain dropped. buildCertChain B (map bytes_str pems) = Inr (chain, dropped) \<and> snp_verifier m rp chain (snp_options m) \<and>
         snp_validator m rp chain (snp_validateOptions m)) \<and>
      (measurementAllowlist m = [] \<or> aa_Measurement report \<in> set (measurementAllowlist m)) \<and> ok (parseInitDataPolicy B ccInitData)" for m
    unfolding ok_iff SNP_Verify_iff req using inputs d(2) by auto
  then show ?thesis using data me by blast
qed

subsection \<open>A run\<close>

text \<open>A single operator with the secret 5 of the network; the stack's identity has the hash 5.\<close>

definition cdh_http :: http where
  "cdh_http = client_http\<lparr>http_secrets := (\<lambda>_ _. Answered 200 (Some \<lparr>rs_EncryptedEnv = [], rs_PublicEnv = [],
     rs_EncryptedPartialSig = g1_CompressedBytes (enc1 mock_lib (5 * 5)), rs_ExtraData = []\<rparr>))\<rparr>"

definition cdh_peers :: OperatorSetPeers where
  "cdh_peers = \<lparr>OperatorSetId = 0, AVSAddress = 10, Peers = [\<lparr>OperatorAddress = 10, SocketAddress = ''a'',
     peer_WrappedPublicKey = \<lparr>wpk_PublicKey = [], wpk_ECDSAAddress = 0\<rparr>, CurveType = []\<rparr>]\<rparr>"

lemma cdh_master_key: "GetMasterPublicKey mock_lib cdh_http id id (Some cdh_peers) = Inr (enc2 mock_lib 5)"
proof -
  let ?r = "([enc2 mock_lib 5], Some (enc2 mock_lib 5), [])"
  have c: "collected id (pub_result cdh_http) (Peers cdh_peers) = [?r]"
    by (simp add: collected_def cdh_peers_def cdh_http_def client_http_def pub_result_def body_of_def map_filter_simps)
  note L = mock_lib_laws curve_lawsD [OF mock_lib_laws]
  have "mpk_vote mock_lib ?r = Some (enc2 mock_lib 5)"
    using den2_FromCompressedBytes [OF den2_intros(1) [OF L(3), of 5]] g2_lawsD(10) [OF L(3), of 5]
    by (simp add: mpk_vote_def enc2_def)
  then have "mpk_votes mock_lib [?r] =
      ([(EncodeToString (g2_CompressedBytes (enc2 mock_lib 5)), enc2 mock_lib 5)], [(EncodeToString (g2_CompressedBytes (enc2 mock_lib 5)), 1)])"
    by (simp add: mpk_votes_def Let_def)
  moreover have "length (Peers cdh_peers) = 1" "Peers cdh_peers \<noteq> []" by (simp_all add: cdh_peers_def)
  ultimately show ?thesis by (simp add: GetMasterPublicKey_def c Let_def CalculateThreshold_def)
qed

lemma cdh_key:
  "RecoverAppPrivateKeyWithRetry mock_lib ''0x0a'' [(10, enc1 mock_lib (5 * 5))] 1
     (\<lambda>candidate. VerifyAppPrivateKey mock_lib ''0x0a'' candidate (enc2 mock_lib 5) = Inr True) = Inr (enc1 mock_lib (5 * 5))"
proof -
  note L = mock_lib_laws curve_lawsD [OF mock_lib_laws]
  let ?sigs = "[(10, enc1 mock_lib (5 * 5))] :: (address \<times> G1Point) list"
  let ?v = "\<lambda>candidate. VerifyAppPrivateKey mock_lib ''0x0a'' candidate (enc2 mock_lib 5) = Inr True"
  have "1 + gf_of_int 4 = 5" by code_simp
  then have q: "HashToG1 mock_lib ''0x0a'' = Inr (enc1 mock_lib 5)" by (simp add: HashToG1_mock)
  have mul: "ScalarMulG1 mock_lib (enc1 mock_lib 5) (Some k) = Inr (enc1 mock_lib (k * 5))" for k by (simp add: ScalarMulG1_den L)
  have "\<exists>key. ScalarMulG1 mock_lib (enc1 mock_lib 5) (Some (peval [5] 0)) = Inr key \<and>
      RecoverAppPrivateKey mock_lib ''0x0a'' (map (\<lambda>j. (j, enc1 mock_lib (peval [5] (AddressToFr mock_lib j) * 5))) [10]) 1 =
       (if G1_IsZero mock_lib key = Inr True then Inl (Errorf ''recovered app private key is zero'') else Inr key)"
    by (rule recover_from_shares [OF L(1) _ _ _ _ q]) (simp_all add: mul)
  moreover have "(5 :: gf) * 5 \<noteq> 0" by code_simp
  ultimately have r: "RecoverAppPrivateKey mock_lib ''0x0a'' ?sigs 1 = Inr (enc1 mock_lib (5 * 5))"
    by (auto simp: mul G1_IsZero_den [OF L(2) den1_intros(1) [OF L(2)]] split: if_splits)
  have v: "?v (enc1 mock_lib (5 * 5))"
    using VerifyAppPrivateKey_iff [OF L(1) q den1_intros(1) [OF L(2)] den1_intros(1) [OF L(2), of "5 * 5"] den2_intros(1) [OF L(3), of 5]] by simp
  have S: "S = {10}" if "S \<subseteq> set (gm_keys ?sigs)" "card S = nat 1" for S
    using that card_subset_eq [of "{10 :: address}" S] by simp
  have one: "gm_ok ?sigs" "(0 :: int) \<le> 1" "length ?sigs choose nat 1 \<le> DefaultMaxRecoveryAttempts"
    by (simp_all add: gm_ok_def DefaultMaxRecoveryAttempts_def)
  have "filter (\<lambda>(a, _). a \<in> {10}) ?sigs = ?sigs" by simp
  with r have r': "RecoverAppPrivateKey mock_lib ''0x0a'' (filter (\<lambda>(a, _). a \<in> {10}) ?sigs) 1 = Inr (enc1 mock_lib (5 * 5))" by (simp only:)
  obtain k where k: "RecoverAppPrivateKeyWithRetry mock_lib ''0x0a'' ?sigs 1 ?v = Inr k"
    using retry_finds [where S = "{10}" and validate = ?v, OF one _ _ v r'] by auto
  have "1 \<le> int (length ?sigs)" by simp
  note recover_with_retry [where L = mock_lib and appID = "''0x0a''" and validate = ?v, OF one(1,2) this one(3), unfolded k]
  then obtain S where S1: "S \<subseteq> set (gm_keys ?sigs)" "card S = nat 1"
    "RecoverAppPrivateKey mock_lib ''0x0a'' (filter (\<lambda>(a, _). a \<in> S) ?sigs) 1 = Inr k" by auto
  from S [OF S1(1,2)] S1(3) r' have "k = enc1 mock_lib (5 * 5)" by (simp only: sum.inject)
  with k show ?thesis by (simp only:)
qed

definition mock_tcb :: aaTcbVersion where
  "mock_tcb = \<lparr>tcb_Fmc = None, tcb_Bootloader = 1, tcb_Tee = 2, tcb_Snp = 3, tcb_Microcode = 4\<rparr>"

definition mock_report :: "bytes \<Rightarrow> aaAttestationReport" where
  "mock_report d = \<lparr>aa_Version = 2, aa_GuestSvn = 0, aa_Policy = 0, aa_FamilyId = replicate 16 0, aa_ImageId = replicate 16 0, aa_Vmpl = 0,
     aa_SigAlgo = 1, aa_CurrentTcb = mock_tcb, aa_PlatInfo = 0, aa_KeyInfo = 0, aa_ReportData = d, aa_Measurement = replicate 48 0,
     aa_HostData = replicate 32 0, aa_IdKeyDigest = replicate 48 0, aa_AuthorKeyDigest = replicate 48 0, aa_ReportId = replicate 32 0,
     aa_ReportIdMa = replicate 32 0, aa_ReportedTcb = mock_tcb, aa_CpuidFamId = None, aa_CpuidModId = None, aa_CpuidStep = None,
     aa_ChipId = replicate 64 0, aa_CommittedTcb = mock_tcb, aa_Current = \<lparr>av_Major = 1, av_Minor = 55, av_Build = 8\<rparr>,
     aa_Committed = \<lparr>av_Major = 1, av_Minor = 55, av_Build = 8\<rparr>, aa_LaunchTcb = mock_tcb, aa_LaunchMitVector = None,
     aa_CurMitVector = None, aa_SignatureR = replicate 72 5, aa_SignatureS = replicate 72 6\<rparr>"

definition mock_aa :: aa_lib where
  "mock_aa = \<lparr>FmsToCpuid1Eax = (\<lambda>_ _ _. 0), ReportToAbiBytes = (\<lambda>p. Some (pb_ReportData p @ replicate 1120 0)), EncodeToMemory = (\<lambda>_ d. Some d),
     uj_aaEvidence = (\<lambda>b. Some (mock_report b, [(''VCEK'', [])])), j_legacyEvidence = (\<lambda>x. Some (fst x))\<rparr>"

definition mock_cfg :: initdataKMSConfig where
  "mock_cfg = \<lparr>ik_KMSURL = ''a'', ik_AVSAddress = ''v'', ik_OperatorSetID = 0, ik_RPCURL = [], ik_OperatorAddress = [],
     ik_StackID = ''0x0a'', ik_PlatformSecretsURL = ''p'', ik_PlatformInternalAPIKey = ''k''\<rparr>"

definition mock_helper :: "(gf, gf, gf, gf, byte, unit) helper" where
  "mock_helper = \<lparr>he_stdin = Some \<lparr>hr_KMSURL = ''evil'', hr_AVSAddress = [], hr_OperatorSetID = 3, hr_RPCURL = [], hr_OperatorAddress = [],
       hr_StackID = ''other'', hr_PlatformSecretsURL = [], hr_PlatformInternalAPIKey = [], hr_Key = appPrivateKeyKey\<rparr>,
     he_allow = True, he_stat = Some 1, he_initdata = Some [120],
     he_snplib = mock_snp\<lparr>toml_data := (\<lambda>_. Some [(''eigenx.toml'', AnyString ''c'')])\<rparr>, he_uj_config = (\<lambda>_. Some mock_cfg),
     he_Parse = (\<lambda>_. Some \<lparr>u_Scheme = ''http'', u_Host = ''h'', u_Path = [], u_RawQuery = [], u_Fragment = []\<rparr>),
     he_cache = \<lparr>cl_fails = (\<lambda>_. False), cl_temp = ''/run/eigenx/.env-1.tmp'', cl_json = (\<lambda>_. Some [1]), cl_unjson = (\<lambda>_. Some [])\<rparr>,
     he_stdout_fails = False, he_GenerateKey = Some 7, he_PKIX = (\<lambda>_. Some [1]), he_PKCS1 = (\<lambda>_. [1]), he_pem = (\<lambda>_ b. b),
     he_agent = (\<lambda>d. Some (200, d)), he_aa = mock_aa, he_GET = (\<lambda>_ _. None), he_uj_secrets = (\<lambda>_. None), he_logger = Some (),
     he_l1 = (\<lambda>_. None), he_new_binding = (\<lambda>_ _. Inr ()), he_ChainID = Inr 1, he_contracts = mock_contracts,
     he_caller = mock_caller_lib, he_http = cdh_http, he_lib = mock_lib, he_aead = mock_aead, he_client = mock_retrieval,
     he_arrival = id, he_pub_arrival = id, he_order = id\<rparr>"

definition cdh_request :: Request where
  "cdh_request = \<lparr>hr_KMSURL = ''a'', hr_AVSAddress = ''v'', hr_OperatorSetID = 0, hr_RPCURL = [], hr_OperatorAddress = [],
     hr_StackID = ''0x0a'', hr_PlatformSecretsURL = ''p'', hr_PlatformInternalAPIKey = ''k'', hr_Key = appPrivateKeyKey\<rparr>"

lemma cdh_configured: "configured mock_helper = Inr (cdh_request, [120])"
proof -
  have "bytes_str [120] = ''x''" by code_simp
  then have "decodeInitdata B [120] = Inr (str_bytes ''x'')" for B :: "unit snplib"
    by (simp add: decodeInitdata_def HasPrefix_def TrimSpace_def is_space_def)
  then show ?thesis
    by (simp add: configured_def mock_helper_def readRequest_def appPrivateKeyKey_def maxInitDataFileSize_def parseInitdataKMSConfig_def
        applyInitdataKMSConfig_def mock_cfg_def validateHTTPURL_def validateStackID_def is_stack_char_def cdh_request_def)
qed

lemma cdh_retrieved: "run mock_helper fs = (fs, Inr (EncodeToString (g1_CompressedBytes (enc1 mock_lib (5 * 5)))))"
proof -
  let ?H = mock_helper and ?r = cdh_request
  let ?d = "buildReportData (he_snplib ?H) [1] [] [120]" and ?key = "enc1 mock_lib (5 * 5)"
  have hl: "length (snp_sha256 (he_snplib ?H) x) = 32" "length (snp_sha384 (he_snplib ?H) x) = 48" for x
    by (simp_all add: mock_helper_def mock_snp_def)
  have d: "length ?d = 64" by (simp add: buildReportData_def copied_def Let_def hl)
  have rsa: "generateRSAKeypair ?H = Inr (7, [1])" by (simp add: generateRSAKeypair_def mock_helper_def)
  have agent: "fetchAAEvidence (he_agent ?H) ?d = Inr ?d"
    unfolding fetchAAEvidence_def using d by (auto simp: mock_helper_def aaMaxBodyBytes_def)
  define ev where "ev = ?d @ replicate 1120 (0 :: byte)"
  have tr: "transformAAEvidence (he_aa ?H) ?d = Inr ev"
    using d by (simp add: transformAAEvidence_def aaReportToProto_def need_length_def mock_helper_def mock_aa_def mock_report_def mock_tcb_def
        Let_def ev_def)
  have "helper_contract_caller ?H ?r = Inr (single_GetOperatorSetMembersWithPeering mock_caller_lib (newSingleOperatorContractCaller ''a'' []))"
    by (simp add: helper_contract_caller_def mock_helper_def cdh_request_def validateHTTPURL_def TrimSpace_def is_space_def)
  moreover define c where "c = \<lparr>avsAddress = ''v'', operatorSetID = 0,
    contractCaller = single_GetOperatorSetMembersWithPeering mock_caller_lib (newSingleOperatorContractCaller ''a'' []), httpClient = cdh_http\<rparr>"
  moreover have ops: "GetOperators c = Inr cdh_peers" "httpClient c = cdh_http" "length (Peers cdh_peers) = 1"
    by (simp_all add: c_def GetOperators_def single_GetOperatorSetMembersWithPeering_def newSingleOperatorContractCaller_def mock_caller_lib_def
        cdh_peers_def)
  moreover define opts where "opts = helper_options ?H ?r ev [120] [1] 7"
  moreover have o: "check_options (Some opts) = Inr opts"
    by (simp add: check_options_def opts_def helper_options_def mock_helper_def ev_def MaxExtraDataSize_def Let_def)
  moreover obtain req where req: "create_request mock_retrieval ''0x0a'' opts = Inr req"
    by (simp add: create_request_def opts_def helper_options_def)
  moreover obtain responses where get: "GetEncryptedSecretsFromKMSNodesWithPartialSigs mock_retrieval cdh_http id cdh_peers req
      (so_RSAPrivateKeyPEM opts) = Inr (responses, [(10, ?key)])" "length responses = 1"
    "\<not> list_ex (\<lambda>resp. rs_EncryptedEnv resp \<noteq> rs_EncryptedEnv (hd responses)) responses"
    by (simp add: GetEncryptedSecretsFromKMSNodesWithPartialSigs_def collected_def cdh_peers_def cdh_http_def mock_retrieval_def
        secrets_result_def requestSecretsFromKMS_def map_filter_simps)
  have ne: "responses \<noteq> []" using get(2) by auto
  have "CalculateThreshold 1 = 1" by (simp add: CalculateThreshold_def)
  then obtain result where res: "RetrieveSecretsWithOptions mock_lib mock_retrieval c id id id ''0x0a'' (Some opts) = Inr result"
    "Verified result" "AppPrivateKey result = ?key"
    using cdh_key by (auto simp: RetrieveSecretsWithOptions_def o ops req get ne cdh_master_key)
  have len: "length (g1_CompressedBytes ?key) = 48" by (simp add: enc1_def mock_lib_def mock_enc_def)
  have "retrieveAndDecrypt ?H ?r ev [120] [1] 7 = Inr [(appPrivateKeyKey, EncodeToString (g1_CompressedBytes ?key))]"
    using calculation res len unfolding retrieveAndDecrypt_def
    by (simp add: mock_helper_def cdh_request_def NewClient_def resolveEnv_def emitAppPrivateKey_def appPrivateKeyG1Bytes_def)
  then have "attest_and_retrieve ?H ?r [120] = Inr [(appPrivateKeyKey, EncodeToString (g1_CompressedBytes ?key))]"
    by (simp add: attest_and_retrieve_def rsa agent tr)
  then show ?thesis
    by (simp add: run_def cdh_configured emitKey_def cacheable_def) (simp add: cdh_request_def emitKey_def mock_helper_def)
qed

theorem root_key_verified_witness:
  "\<exists>k. run mock_helper [] = ([], Inr (EncodeToString (g1_CompressedBytes k))) \<and> den1 mock_lib k (5 * 5)"
proof -
  note L = mock_lib_laws curve_lawsD [OF mock_lib_laws]
  let ?t = "EncodeToString (g1_CompressedBytes (enc1 mock_lib (5 * 5)))"
  have H: "he_lib mock_helper = mock_lib" "he_http mock_helper = cdh_http" "he_pub_arrival mock_helper = id" "he_order mock_helper = id"
    by (simp_all add: mock_helper_def)
  have "1 + gf_of_int 4 = 5" by code_simp
  then have q: "HashToG1 mock_lib ''0x0a'' = Inr (enc1 mock_lib 5)" by (simp add: HashToG1_mock)
  have r: "hr_Key cdh_request = appPrivateKeyKey" "hr_StackID cdh_request = ''0x0a''" by (simp_all add: cdh_request_def)
  have "helper_contract_caller mock_helper cdh_request = Inr caller \<Longrightarrow> caller (hr_AVSAddress cdh_request) (hr_OperatorSetID cdh_request) = Inr ops
      \<Longrightarrow> ops = cdh_peers" for caller ops
    by (auto simp: helper_contract_caller_def mock_helper_def cdh_request_def validateHTTPURL_def TrimSpace_def is_space_def cdh_peers_def
        single_GetOperatorSetMembersWithPeering_def newSingleOperatorContractCaller_def mock_caller_lib_def)
  then obtain k where "?t = EncodeToString (g1_CompressedBytes k)" "den1 mock_lib k (5 * 5)"
    using root_key_verified [OF _ _ _ cdh_configured r(1) cdh_retrieved, of "[]", unfolded H r(2)] L(1) cdh_master_key q den2_intros(1) [OF L(3), of 5]
    by fastforce
  then show ?thesis using cdh_retrieved by auto
qed

end
