(* ===== verification/Spec2Isabelle.thy ===== *)
theory Spec2Isabelle
  imports Recovery Ibe Dkg Reshare Merkle Autoheal Redis_Persistence Session_Registry Transport Contract_Caller Server_Routes Encryption Cdh_Run
begin

text \<open>
  A verification of the distributed key management service of this repository: operators of an AVS
  hold shares of one BLS12-381 key, generated by a distributed key generation and re-shared at every
  block interval, and release to an application its identity-based decryption key when threshold
  many of them sign the application's name.

  \<^bold>\<open>The program and its parts.\<close> A node (\<open>pkg/node\<close>) listens to the chain. At a boundary
  of the block interval it starts a round: a key generation (\<open>pkg/dkg\<close>) when the cluster has no key,
  otherwise a reshare (\<open>pkg/reshare\<close>). In a round every dealer sends each operator a share and
  everybody its commitments, the receivers acknowledge, the dealer publishes the root of a Merkle tree
  of the acknowledgements (\<open>pkg/merkle\<close>) on the chain, and the nodes agree on the dealers they use
  by reading the chain at one block. A finished round gives a key version, which is written to the durable store
  (\<open>pkg/persistence\<close>) and then to the keystore (\<open>pkg/keystore\<close>). Applications fetch partial
  signatures and combine them (\<open>pkg/crypto\<close>). When rounds keep failing at the validation of the
  master public key, auto-heal rolls the node back to an older version (\<open>pkg/node/autoheal.go\<close>).

  \<^bold>\<open>The theories.\<close> Each follows the file it models, in the order of the code, and ends with the
  theorems about it.

  \<^item> \<open>Prelude\<close>: errors as values of a sum type (\<open>res\<close>; \<open>Errorf\<close> and \<open>Wrapf\<close> are the two ways
    in which the code makes them, with the constant part of the text), Go maps as association lists in
    the order of their iteration, decimal numbers, lists.
  \<^item> \<open>Shamir\<close>, \<open>Curve\<close>, \<open>Finite_Field\<close>: polynomials and Lagrange interpolation over a field; the
    record \<open>lib\<close> of the functions that gnark-crypto provides with their laws \<open>curve_laws\<close>; a
    finite field and a library over it that satisfies the laws, for the witnesses.
  \<^item> \<open>Bls\<close> (\<open>pkg/bls\<close>), \<open>Types\<close> (\<open>pkg/types\<close>), \<open>Crypto\<close>, \<open>Recovery\<close> and \<open>Ibe\<close>
    (\<open>pkg/crypto/bls.go\<close>): group operations on serialised points, signatures, threshold recovery, the
    search for a set of honest partial signatures, and the encryption.
  \<^item> \<open>Sharing\<close>, \<open>Dkg\<close>, \<open>Reshare\<close>, \<open>Merkle\<close>: the two protocols' state machines as records with
    one function per method, and the tree of acknowledgements. The locale \<open>share_protocol\<close> holds
    what the two protocols promise in common and is interpreted for both.
  \<^item> \<open>Key_Store\<close>: the keystore with its pointers as references to objects, so that the flag of a
    version is shared with whoever holds the pointer.
  \<^item> \<open>Persistence\<close>, \<open>Memory_Persistence\<close>, \<open>Codec\<close>, \<open>Badger_Persistence\<close>, \<open>Redis_Persistence\<close>: the interface
    \<open>INodePersistence\<close> as a record of functions; the locale \<open>node_persistence\<close> with the abstract
    store every implementation refines; the implementations and their interpretations. A key-value
    library and a JSON library are parameters.
  \<^item> \<open>Autoheal\<close> (\<open>pkg/node/autoheal.go\<close>), \<open>Session\<close>, \<open>Session_Registry\<close>,
    \<open>Dealer_Agreement\<close>, \<open>Peer_Messages\<close>, \<open>Protocol_Round\<close>, \<open>Reshare_Round\<close>, \<open>Dkg_Round\<close>,
    \<open>Node_State\<close> (\<open>pkg/node/node.go\<close>): the collection of shares, commitments and acknowledgements
    of a round (locale \<open>collector\<close>), the registry of sessions with its notification channels as
    interleaved steps, the derivation of the agreed dealers from the chain, the authentication of
    messages and acknowledgements, the whole of \<open>RunDKG\<close>,
    \<open>RunReshareAsExistingOperator\<close> and \<open>RunReshareAsNewOperator\<close>, the construction of a node, the
    restoration of its state, and the scheduler.
  \<^item> \<open>Go_Strings\<close>: the functions of Go's string packages that the components below use.
  \<^item> \<open>Attestation\<close> and \<open>Snp_Attestation\<close> (\<open>pkg/attestation\<close>): the manager of methods, signed
    challenges, Confidential Space tokens, TPM and SEV-SNP evidence. The JWT, TPM and SEV-SNP
    libraries, the hashes, base64, gzip and TOML are records of functions.
  \<^item> \<open>Message_Handlers\<close> and \<open>Secrets_Handlers\<close> (\<open>pkg/node/handlers.go\<close>, \<open>server.go\<close>,
    \<open>pkg/clients/platformClient\<close>): the handlers of the peers' messages with their authentication, and
    the handlers for applications with the authorisation, the platform client and the cache of
    token ids. A handler takes the decoded request and gives a status and an answer; its waits for
    a session are a flag that says whether it was woken.
  \<^item> \<open>Transport\<close> (\<open>pkg/transport\<close>): the client with which a node sends its messages, over a history
    of requests and sleeps whose requests the network answers or not.
  \<^item> \<open>Server_Routes\<close> (\<open>pkg/node/server.go\<close>): the routes with their limits on rate, concurrency and
    size, as a relation of arriving and finishing requests.
  \<^item> \<open>Web3_Signer\<close> (\<open>pkg/clients/web3signer\<close>, \<open>pkg/transportSigner/web3TransportSigner\<close>): the client
    of a remote signing service and the signer of messages built on it, which refines the local one.
  \<^item> \<open>Transaction_Signer\<close> (\<open>pkg/transactionSigner\<close>): the two signers of transactions, instances of the
    locale \<open>transaction_signer\<close>, over the history of the transactions sent.
  \<^item> \<open>Contract_Caller\<close> (\<open>pkg/contractCaller/caller\<close>, \<open>pkg/peering\<close>): releases, operator sets and the
    methods that send transactions, over the generated bindings as a record of functions.
  \<^item> \<open>Encryption\<close> (\<open>pkg/encryption\<close>): the RSA encryption of the answers to applications.
  \<^item> \<open>Kms_Client\<close> and \<open>Secrets_Client\<close> (\<open>pkg/clients/kmsClient\<close>): the client library over a
    record of what each endpoint answers, with the order in which the answers arrive as an argument.
  \<^item> \<open>Cdh_Helper\<close> and \<open>Cdh_Run\<close> (\<open>cmd/kmsCDHHelper\<close>): the program in an attested pod that recovers the
    key of its stack and opens its sealed environment, with the files of its cache as the state and
    the rest of its surroundings as a record. Its input chooses nothing but the variable
    (\<open>input_chooses_variable\<close>), its evidence passes the binding check of a node
    (\<open>helper_evidence_accepted\<close>), and the caches of two stacks are separate (\<open>stacks_isolated\<close>).
  \<^item> \<open>Configuration\<close> (\<open>pkg/config/config.go\<close>) and \<open>Block_Lookup\<close>
    (\<open>pkg/contractCaller/caller/blockLookup.go\<close>): the tables by chain, the validation of
    configurations, the binary search for a block by its timestamp.

  \<^bold>\<open>What the theorems show.\<close> Cryptography: a key generation round followed by signing, recovery,
  encryption and decryption returns the plaintext (\<open>generate_sign_decrypt\<close>); generated and re-shared
  shares lie on one polynomial with the right constant term; recovery returns only keys that verify.
  Rounds: nodes with the same agreed dealers and stored data finalise with one key; the agreed
  dealers are those of the dealers a node expects (from its operators and its stored participants) that
  the chain has at one cutoff block, and their derivation ends; a failed round leaves the keystore
  unchanged, a successful one is durable first. State: the memory and the durable stores answer
  alike, but for a node state that is all zero (\<open>empty_node_state_differs\<close>); reachable keystores have one active version and never use a poisoned one; what a round
  committed is active again after a crash; a block starts one round, restarts included; repeated
  aborts roll back exactly at the third. Messages: an accepted acknowledgement or advertised dealer
  version was signed for exactly its content, and no request changes the share, commitments or
  acknowledgements that a session holds of an operator who did not sign it; the mark of an operator as
  verified can be set by a broadcast in its name. Applications: a partial signature is given only to an attested and
  authorised application, and once for a token while it is valid; a client decrypts in spite of faulty
  operators, and its verified keys are right for the master public key that it obtained, which threshold
  many operators answered with (\<open>voted_key\<close>) or which is a sum of commitments (\<open>summed_key\<close>). The image that is served is that of the application's last upgrade in
  its confirmed release block. Surroundings: a share that is sent is stored by its
  recipient or refused, with the sender none the wiser; a signer sends
  a transaction at most once and a registration its transactions in order; a remotely signed message
  is accepted like a local one; the sealed signature is the one the client reads; no endpoint serves
  more requests at a time than its limit; the helper in a pod prints a key only when it is verified. Several theorems state where the code
  does less than its comments say: \<open>lost_wakeup\<close>, \<open>missing_commitment_splits_round\<close>,
  \<open>short_commitments_break_key\<close>, \<open>ecdsa_request_replayable\<close>, \<open>vote_bypassed\<close>,
  \<open>isSafePlatformURL_host_port\<close>, \<open>permitted_request_refused\<close>, \<open>fee_policy_inverted\<close>,
  \<open>AcceptPendingAdmin_panics\<close>, \<open>short_stack_id\<close>,
  \<open>last_reference_taken\<close>.

  \<^bold>\<open>Conventions, bounds and fuel.\<close> \<open>int\<close> and \<open>int64\<close> of Go are integers; where a value is encoded
  or stored, \<open>int64_range\<close> is a hypothesis or is part of the invariant, and words are used where the
  code computes with bytes and addresses. Loops that wait or retry take what the environment answers
  at each attempt as a list: the list bounds the attempts as the deadline of the code does, and the
  theorems about termination say which attempts are enough. No loop needs fuel beyond that list; the
  recursions over data terminate by the measure they are defined with. Concurrent sections are either
  atomic under the mutex of the code, or written as steps that the theorem interleaves
  (\<open>Session_Registry\<close>, \<open>Node_State.history\<close>, \<open>Secrets_Handlers.serving_run\<close>). Where the iteration order of a Go map matters it is
  an argument. Logging, metrics and contexts are left out.

  \<^bold>\<open>What is not modelled.\<close> The token bucket, the time-outs of \<open>net/http\<close> and the metrics of the server are libraries. The bindings of the contracts and the mocks are generated; the
  other command line programs parse flags and connect the parts. The
  libraries (gnark-crypto, go-ethereum, badger, redis, the Merkle tree, AES-GCM and HKDF, RSA and X.509, and those of the
  attestation methods) are parameters with their documented laws.
\<close>

section \<open>The persistence layers agree\<close>

text \<open>
  C24. The in-memory and the durable stores are interchangeable: after any sequence of writes, made on
  a new memory store, on a badger store opened on an empty database, and on a redis store whose prefix
  has no key in the database, every load gives the same answer on the three, and the listings give the
  same set of key shares, sessions and poisoned versions, in an order that may differ. The writes are of
  values in the ranges of their types, and of node states with an operator address or a boundary other
  than 0: a state with neither is what the memory store takes for a missing one.
\<close>

theorem stores_agree:
  assumes laws: "kv_laws K view" "json_laws J" "view d = (\<lambda>_. None)"
    and new: "NewBadgerPersistence K d = Inr b"
    and rlaws: "redis_laws R rv" "\<forall>k. rv (dial cfg) (rkey (rd_KeyPrefix cfg) k) = None"
    and rnew: "NewRedisPersistence R dial (Some cfg) = Inr r" "rd_Address cfg \<noteq> ''''"
    and ops: "list_all op_range ops"
    and m: "m = run_writes memory_persistence ops NewMemoryPersistence"
    and b': "b' = run_writes (badger_persistence K J) ops b"
    and r': "r' = run_writes (redis_persistence R J) ops r"
    and v: "int64_range v"
  shows "(mem_LoadKeyShareVersion m v = bp_LoadKeyShareVersion K J b' v \<and>
    mem_LoadProtocolSession m v = bp_LoadProtocolSession K J b' v \<and>
    mem_LoadNodeState m = bp_LoadNodeState K J b' \<and>
    mem_GetActiveVersionTimestamp m = bp_GetActiveVersionTimestamp K b' \<and>
    mem_GetBlockRecord m c n = bp_GetBlockRecord K J b' c n \<and>
    mem_GetLastProcessedBlockRecord m c = bp_GetLastProcessedBlockRecord K J b' c \<and>
    map_sum id set (mem_ListKeyShareVersions m) = map_sum id set (bp_ListKeyShareVersions K J b') \<and>
    map_sum id set (mem_ListProtocolSessions m) = map_sum id set (bp_ListProtocolSessions K J b') \<and>
    map_sum id set (mem_ListPoisonedVersions m) = map_sum id set (bp_ListPoisonedVersions K b')) \<and>
   (mem_LoadKeyShareVersion m v = rp_LoadKeyShareVersion R J r' v \<and>
    mem_LoadProtocolSession m v = rp_LoadProtocolSession R J r' v \<and>
    mem_LoadNodeState m = rp_LoadNodeState R J r' \<and>
    mem_GetActiveVersionTimestamp m = rp_GetActiveVersionTimestamp R r' \<and>
    mem_GetBlockRecord m c n = rp_GetBlockRecord R J r' c n \<and>
    mem_GetLastProcessedBlockRecord m c = rp_GetLastProcessedBlockRecord R J r' c \<and>
    map_sum id set (mem_ListKeyShareVersions m) = map_sum id set (snd (rp_ListKeyShareVersions R J r')) \<and>
    map_sum id set (mem_ListProtocolSessions m) = map_sum id set (snd (rp_ListProtocolSessions R J r')) \<and>
    map_sum id set (mem_ListPoisonedVersions m) = map_sum id set (rp_ListPoisonedVersions R r'))"
proof -
  have b0: "bp_valid K J view b" "bp_abs J view b = empty_pstore"
    using NewBadgerPersistence_fresh [OF laws] new by auto
  have r0: "rp_valid R J rv r" "rp_abs J rv r = empty_pstore"
    using NewRedisPersistence_fresh [OF rlaws(1) laws(2) rnew(2)] rlaws(2) rnew(1) by fastforce+
  have mm: "mem_valid m" "\<not> p_closed (mem_abs m)" "mem_abs m = fold effect ops empty_pstore"
    using mem.run_writes_effect [OF NewMemoryPersistence_fresh(1) _ ops] m
    by (simp_all add: NewMemoryPersistence_fresh(2))
  have bb: "bp_valid K J view b'" "\<not> p_closed (bp_abs J view b')" "bp_abs J view b' = fold effect ops empty_pstore"
    using badger.run_writes_effect [OF b0(1) _ ops] b0(2) b' by simp_all
  have rr: "rp_valid R J rv r'" "\<not> p_closed (rp_abs J rv r')" "rp_abs J rv r' = fold effect ops empty_pstore"
    using redis.run_writes_effect [OF r0(1) _ ops] r0(2) r' by simp_all
  show ?thesis
    using mem.answers [OF mm(1,2) v] badger.answers [OF bb(1,2) v] redis.answers [OF rr(1,2) v]
    unfolding mm(3) bb(3) rr(3) memory_persistence_simps badger_simps redis_simps by simp
qed

theorem stores_agree_witness:
  "mem_LoadKeyShareVersion (run_writes memory_persistence [SaveKey (mock_ksv 7), Poison 3] NewMemoryPersistence) 7 =
     bp_LoadKeyShareVersion mock_kv mock_json
       (run_writes (badger_persistence mock_kv mock_json) [SaveKey (mock_ksv 7), Poison 3] mock_badger) 7 \<and>
   mem_LoadKeyShareVersion (run_writes memory_persistence [SaveKey (mock_ksv 7), Poison 3] NewMemoryPersistence) 7 =
     Inr (Some (mock_ksv 7)) \<and>
   rp_LoadKeyShareVersion mock_redis mock_json
       (run_writes (redis_persistence mock_redis mock_json) [SaveKey (mock_ksv 7), Poison 3] mock_redis_store) 7 =
     Inr (Some (mock_ksv 7)) \<and>
   map_sum id set (rp_ListPoisonedVersions mock_redis
       (run_writes (redis_persistence mock_redis mock_json) [SaveKey (mock_ksv 7), Poison 3] mock_redis_store)) = Inr {3} \<and>
   map_sum id set (bp_ListPoisonedVersions mock_kv
       (run_writes (badger_persistence mock_kv mock_json) [SaveKey (mock_ksv 7), Poison 3] mock_badger)) = Inr {3}"
proof -
  let ?ops = "[SaveKey (mock_ksv 7), Poison 3]"
  let ?m = "run_writes memory_persistence ?ops NewMemoryPersistence"
  have facts: "gm_get [] = (\<lambda>_. None :: bytes option)" "NewBadgerPersistence mock_kv [] = Inr mock_badger"
    "\<forall>k. mock_rview [] (rkey (rd_KeyPrefix mock_redis_config) k) = None" "rd_Address mock_redis_config \<noteq> []"
    "list_all op_range ?ops" "int64_range 7"
    by (simp_all add: fun_eq_iff NewBadgerPersistence_def initSchema_def mock_kv_def bp_update_def mock_badger_def
        mock_rview_def mock_redis_config_def mock_ksv_def int64_range_def)
  have "mem_LoadKeyShareVersion ?m 7 = bp_LoadKeyShareVersion mock_kv mock_json
       (run_writes (badger_persistence mock_kv mock_json) ?ops mock_badger) 7 \<and>
     map_sum id set (mem_ListPoisonedVersions ?m) = map_sum id set (bp_ListPoisonedVersions mock_kv
       (run_writes (badger_persistence mock_kv mock_json) ?ops mock_badger)) \<and>
     mem_LoadKeyShareVersion ?m 7 = rp_LoadKeyShareVersion mock_redis mock_json
       (run_writes (redis_persistence mock_redis mock_json) ?ops mock_redis_store) 7 \<and>
     map_sum id set (mem_ListPoisonedVersions ?m) = map_sum id set (rp_ListPoisonedVersions mock_redis
       (run_writes (redis_persistence mock_redis mock_json) ?ops mock_redis_store))"
    using stores_agree [where c = 0 and n = 0, OF mock_kv_laws mock_json_laws facts(1,2) mock_redis_laws facts(3)
        mock_redis_store_new facts(4,5) refl refl refl facts(6)]
    by (elim conjE) (intro conjI; assumption)
  moreover have "mem_LoadKeyShareVersion ?m 7 = Inr (Some (mock_ksv 7))" "map_sum id set (mem_ListPoisonedVersions ?m) = Inr {3}"
    by (simp_all add: run_writes_def memory_persistence_def mem_defs NewMemoryPersistence_def mock_ksv_def)
  ultimately show ?thesis by (elim conjE) (intro conjI; metis)
qed

text \<open>The states that C24 leaves out: the memory store answers that there is none, the badger store returns what was saved.\<close>

theorem empty_node_state_differs:
  "mem_LoadNodeState (run_writes memory_persistence [SaveNode NodeState_zero] NewMemoryPersistence) = Inr None \<and>
   bp_LoadNodeState mock_kv mock_json (run_writes (badger_persistence mock_kv mock_json) [SaveNode NodeState_zero] mock_badger) =
     Inr (Some NodeState_zero)"
proof
  show "mem_LoadNodeState (run_writes memory_persistence [SaveNode NodeState_zero] NewMemoryPersistence) = Inr None"
    by (simp add: run_writes_def memory_persistence_def mem_defs NewMemoryPersistence_def NodeState_zero_def)
  show "bp_LoadNodeState mock_kv mock_json (run_writes (badger_persistence mock_kv mock_json) [SaveNode NodeState_zero] mock_badger) =
      Inr (Some NodeState_zero)"
    by (simp add: run_writes_def badger_persistence_def bp_SaveNodeState_def bp_LoadNodeState_def bp_save_def bp_load_def
        bp_update_def mock_badger_def mock_kv_def mock_json_def unmarshal_simps
        keyPrefixNodeState_def keySchemaVersion_def)
qed

section \<open>From key generation to decryption\<close>


definition serving_store :: "gf KeyShareVersion \<Rightarrow> gf KeyStore" where
  "serving_store k = \<lparr>objs = (\<lambda>_. k), keyVersions = [0], activeVersion = Some 0, pendingVersion = None, poisoned = []\<rparr>"


end
